(* ===== verification/Certus_Prelude.thy ===== *)
theory Certus_Prelude
  imports Main "HOL-Library.AList" "HOL-Library.List_Lexorder" "HOL-Library.Char_ord"
    "HOL-Library.Word" "HOL-Library.Multiset"
begin

text \<open>
  The vocabulary every component shares: Go's time values, byte and text strings, maps and
  first-match loops, and the contracts (locales) that several repositories promise.

  \<^item> \<open>time\<close> is a \<open>time.Time\<close> as the number of nanoseconds since Go's zero time, so that
    \<open>IsZero\<close> is \<open>t = 0\<close>, \<open>t.After(u)\<close> is \<open>u < t\<close> and \<open>UTC()\<close> is the identity;
    \<open>duration\<close> is a \<open>time.Duration\<close> in nanoseconds.
  \<^item> A Go \<open>string\<close> is a list of bytes (\<open>char\<close>), a \<open>[]byte\<close> a list of 8-bit words.
    \<open>strings.ToLower\<close>, \<open>ToUpper\<close>, \<open>EqualFold\<close>, \<open>TrimSpace\<close> and \<open>Fields\<close> are the ASCII
    mappings Go uses for ASCII text; the bytes of other text are left as they are.
  \<^item> A Go map is an association list with distinct keys. A \<open>range\<close> over a map follows the list;
    since the theorems hold for every list, they hold for every iteration order.
  \<^item> A \<open>for\<close> loop that stops at the first matching element is \<open>find\<close> together with
    \<open>update_first\<close>, which rewrites that element in place.
\<close>

section \<open>Collections of facts\<close>

named_theorems store_defs \<open>definitions of repository operations\<close>
named_theorems step_defs \<open>definitions of operation steps\<close>

section \<open>Time\<close>

type_synonym time = int
type_synonym duration = int

abbreviation second :: duration where "second \<equiv> 1000000000"
abbreviation minute :: duration where "minute \<equiv> 60000000000"
abbreviation hour :: duration where "hour \<equiv> 3600000000000"

definition unix_epoch_seconds :: int where
  "unix_epoch_seconds = 62135596800"

definition Unix :: "time \<Rightarrow> int" where
  "Unix t = t div second - unix_epoch_seconds"

definition time_of_unix :: "int \<Rightarrow> time" where
  "time_of_unix s = (s + unix_epoch_seconds) * second"

lemma Unix_time_of_unix [simp]: "Unix (time_of_unix s) = s"
  by (simp add: Unix_def time_of_unix_def)

text \<open>Conversion of an unbounded result to Go's \<open>int64\<close>, and Go's truncating division.\<close>

definition wrap64 :: "int \<Rightarrow> int" where
  "wrap64 x = (x + 2 ^ 63) mod 2 ^ 64 - 2 ^ 63"

lemma wrap64_id: "- (2 ^ 63) \<le> x \<Longrightarrow> x < 2 ^ 63 \<Longrightarrow> wrap64 x = x"
  by (simp add: wrap64_def)

definition go_quot :: "int \<Rightarrow> int \<Rightarrow> int" where
  "go_quot a b = sgn a * sgn b * (\<bar>a\<bar> div \<bar>b\<bar>)"

section \<open>Bytes and strings\<close>

type_synonym bytes = "8 word list"

definition bytes_of :: "string \<Rightarrow> bytes" where
  "bytes_of s = map of_char s"

definition string_of :: "bytes \<Rightarrow> string" where
  "string_of b = map (\<lambda>w. char_of (unat w)) b"

definition char_code :: "char \<Rightarrow> nat" where
  "char_code c = of_char c"

definition is_digit :: "char \<Rightarrow> bool" where
  "is_digit c = (48 \<le> char_code c \<and> char_code c \<le> 57)"

definition is_lower :: "char \<Rightarrow> bool" where
  "is_lower c = (97 \<le> char_code c \<and> char_code c \<le> 122)"

definition is_upper :: "char \<Rightarrow> bool" where
  "is_upper c = (65 \<le> char_code c \<and> char_code c \<le> 90)"

definition is_space :: "char \<Rightarrow> bool" where
  "is_space c = (char_code c = 32 \<or> (9 \<le> char_code c \<and> char_code c \<le> 13))"

definition lower_char :: "char \<Rightarrow> char" where
  "lower_char c = (if is_upper c then char_of (char_code c + 32) else c)"

definition upper_char :: "char \<Rightarrow> char" where
  "upper_char c = (if is_lower c then char_of (char_code c - 32) else c)"

definition ToLower :: "string \<Rightarrow> string" where
  "ToLower s = map lower_char s"

definition ToUpper :: "string \<Rightarrow> string" where
  "ToUpper s = map upper_char s"

definition EqualFold :: "string \<Rightarrow> string \<Rightarrow> bool" where
  "EqualFold s t = (ToLower s = ToLower t)"

definition TrimSpace :: "string \<Rightarrow> string" where
  "TrimSpace s = rev (dropWhile is_space (rev (dropWhile is_space s)))"

definition HasPrefix :: "string \<Rightarrow> string \<Rightarrow> bool" where
  "HasPrefix s p = (take (length p) s = p)"

fun Contains_str :: "string \<Rightarrow> string \<Rightarrow> bool" where
  "Contains_str [] p = (p = [])"
| "Contains_str (c # s) p = (HasPrefix (c # s) p \<or> Contains_str s p)"

text \<open>\<open>strings.Split\<close> on a one-byte separator, \<open>strings.Cut\<close>, \<open>strings.Fields\<close>,
  \<open>strings.Join\<close>.\<close>

fun Split :: "char \<Rightarrow> string \<Rightarrow> string list" where
  "Split sep [] = [[]]"
| "Split sep (c # s) =
     (if c = sep then [] # Split sep s
      else (case Split sep s of [] \<Rightarrow> [[c]] | w # ws \<Rightarrow> (c # w) # ws))"

fun Cut :: "char \<Rightarrow> string \<Rightarrow> (string \<times> string) option" where
  "Cut sep [] = None"
| "Cut sep (c # s) =
     (if c = sep then Some ([], s)
      else map_option (\<lambda>(a, b). (c # a, b)) (Cut sep s))"

fun split_spaces :: "string \<Rightarrow> string list" where
  "split_spaces [] = [[]]"
| "split_spaces (c # s) =
     (if is_space c then [] # split_spaces s
      else (case split_spaces s of [] \<Rightarrow> [[c]] | w # ws \<Rightarrow> (c # w) # ws))"

definition Fields :: "string \<Rightarrow> string list" where
  "Fields s = filter (\<lambda>w. w \<noteq> []) (split_spaces s)"

fun Join :: "string \<Rightarrow> string list \<Rightarrow> string" where
  "Join sep [] = []"
| "Join sep [w] = w"
| "Join sep (w # ws) = w @ sep @ Join sep ws"

text \<open>The number of runes of a string, as \<open>len([]rune(s))\<close> counts them: a well-formed UTF-8
  sequence is one rune, and every byte that does not start one is one (invalid) rune.\<close>

definition utf8_cont :: "nat \<Rightarrow> nat \<Rightarrow> char \<Rightarrow> bool" where
  "utf8_cont lo hi c = (lo \<le> char_code c \<and> char_code c \<le> hi)"

definition rune_extra :: "char \<Rightarrow> string \<Rightarrow> nat" where
  "rune_extra c cs =
     (let b = char_code c in
      if 194 \<le> b \<and> b \<le> 223 then
        (case cs of c1 # _ \<Rightarrow> if utf8_cont 128 191 c1 then 1 else 0 | _ \<Rightarrow> 0)
      else if 224 \<le> b \<and> b \<le> 239 then
        (case cs of c1 # c2 # _ \<Rightarrow>
           if utf8_cont (if b = 224 then 160 else 128) (if b = 237 then 159 else 191) c1 \<and>
              utf8_cont 128 191 c2 then 2 else 0
         | _ \<Rightarrow> 0)
      else if 240 \<le> b \<and> b \<le> 244 then
        (case cs of c1 # c2 # c3 # _ \<Rightarrow>
           if utf8_cont (if b = 240 then 144 else 128) (if b = 244 then 143 else 191) c1 \<and>
              utf8_cont 128 191 c2 \<and> utf8_cont 128 191 c3 then 3 else 0
         | _ \<Rightarrow> 0)
      else 0)"

fun rune_count :: "string \<Rightarrow> nat" where
  "rune_count [] = 0"
| "rune_count (c # cs) = Suc (rune_count (drop (rune_extra c cs) cs))"

lemma rune_count_le_length: "rune_count s \<le> length s"
  by (induction s rule: rune_count.induct) (auto intro: le_trans)

lemma rune_count_eq_0 [simp]: "rune_count s = 0 \<longleftrightarrow> s = []"
  by (cases s) auto

subsection \<open>Facts on strings\<close>

lemma char_code_less: "char_code c < 256"
  by (simp add: char_code_def)

lemma char_of_char_code [simp]: "char_of (char_code c) = c"
  by (simp add: char_code_def)

lemma string_of_bytes_of [simp]: "string_of (bytes_of s) = s"
proof -
  have "unat (of_char c :: 8 word) = of_char c" for c
    using unat_of_nat [of "of_char c", where 'a = 8] by (simp add: of_nat_of_char)
  then have "char_of (unat (of_char c :: 8 word)) = c" for c by simp
  then show ?thesis by (simp add: string_of_def bytes_of_def comp_def)
qed

lemma Join_Cons: "ws \<noteq> [] \<Longrightarrow> Join sep (w # ws) = w @ sep @ Join sep ws"
  by (cases ws) simp_all

lemma length_ToLower [simp]: "length (ToLower s) = length s"
  by (simp add: ToLower_def)

lemma ToLower_Nil [simp]: "ToLower s = [] \<longleftrightarrow> s = []"
  by (simp add: ToLower_def)

lemma EqualFold_refl [simp]: "EqualFold s s"
  by (simp add: EqualFold_def)

lemma EqualFold_sym: "EqualFold s t \<longleftrightarrow> EqualFold t s"
  by (auto simp: EqualFold_def)

lemma EqualFold_trans: "EqualFold s t \<Longrightarrow> EqualFold t u \<Longrightarrow> EqualFold s u"
  by (simp add: EqualFold_def)

lemma HasPrefix_append [simp]: "HasPrefix (p @ s) p"
  by (simp add: HasPrefix_def)

lemma HasPrefix_split: "HasPrefix s p \<Longrightarrow> s = p @ drop (length p) s"
  by (metis HasPrefix_def append_take_drop_id)

lemma Split_not_Nil [simp]: "Split sep s \<noteq> []"
  by (induction s) (auto split: list.split)

lemma Split_no_sep: "sep \<notin> set s \<Longrightarrow> Split sep s = [s]"
  by (induction s) auto

lemma Split_append_sep:
  "sep \<notin> set a \<Longrightarrow> Split sep (a @ sep # b) = a # Split sep b"
  by (induction a) auto

lemma Cut_append_sep: "sep \<notin> set a \<Longrightarrow> Cut sep (a @ sep # b) = Some (a, b)"
  by (induction a) auto

lemma Cut_no_sep: "sep \<notin> set s \<Longrightarrow> Cut sep s = None"
  by (induction s) auto

lemma Cut_SomeD: "Cut sep s = Some (a, b) \<Longrightarrow> s = a @ sep # b \<and> sep \<notin> set a"
  by (induction s arbitrary: a b) (auto split: if_splits)

lemma Fields_nonempty: "w \<in> set (Fields s) \<Longrightarrow> w \<noteq> []"
  by (simp add: Fields_def)

lemma split_spaces_no_space: "w \<in> set (split_spaces s) \<Longrightarrow> c \<in> set w \<Longrightarrow> \<not> is_space c"
  by (induction s arbitrary: w) (fastforce split: if_splits list.splits)+

lemma Fields_no_space: "w \<in> set (Fields s) \<Longrightarrow> c \<in> set w \<Longrightarrow> \<not> is_space c"
  by (auto simp: Fields_def dest: split_spaces_no_space)

lemma TrimSpace_set: "set (TrimSpace s) \<subseteq> set s"
proof -
  have "set (TrimSpace s) \<subseteq> set (dropWhile is_space s)"
    unfolding TrimSpace_def by (auto dest: set_dropWhileD)
  then show ?thesis by (auto dest: set_dropWhileD)
qed

text \<open>The slice expression \<open>xs[start:end]\<close>; \<open>None\<close> is the panic out of range.\<close>

definition slice :: "'a list \<Rightarrow> int \<Rightarrow> int \<Rightarrow> 'a list option" where
  "slice xs start end' =
     (if 0 \<le> start \<and> start \<le> end' \<and> end' \<le> int (length xs)
      then Some (take (nat (end' - start)) (drop (nat start) xs)) else None)"

section \<open>First-match loops\<close>

text \<open>\<open>for i := range xs { if !match(xs[i]) { continue }; xs[i] = f(xs[i]); return }\<close>\<close>

fun update_first :: "('a \<Rightarrow> bool) \<Rightarrow> ('a \<Rightarrow> 'a) \<Rightarrow> 'a list \<Rightarrow> 'a list" where
  "update_first p f [] = []"
| "update_first p f (x # xs) = (if p x then f x # xs else x # update_first p f xs)"

lemma length_update_first [simp]: "length (update_first p f xs) = length xs"
  by (induction xs) auto

lemma map_update_first: "(\<And>x. g (f x) = g x) \<Longrightarrow> map g (update_first p f xs) = map g xs"
  by (induction xs) auto

lemma update_first_None: "find p xs = None \<Longrightarrow> update_first p f xs = xs"
  by (induction xs) (auto split: if_splits)

lemma find_update_first_same:
  "(\<And>x. p (f x) = p x) \<Longrightarrow> find p (update_first p f xs) = map_option f (find p xs)"
  by (induction xs) auto

lemma find_update_first:
  "(\<And>x. q (f x) = q x) \<Longrightarrow>
   find q (update_first p f xs) = find q xs \<or>
   (\<exists>x. find q xs = Some x \<and> find q (update_first p f xs) = Some (f x))"
  by (induction xs) auto

lemma find_append: "find p (xs @ ys) = (case find p xs of None \<Rightarrow> find p ys | Some x \<Rightarrow> Some x)"
  by (induction xs) auto

lemma find_map: "find p (map f xs) = map_option f (find (\<lambda>x. p (f x)) xs)"
  by (induction xs) auto

lemma find_SomeD: "find p xs = Some x \<Longrightarrow> x \<in> set xs \<and> p x"
  by (induction xs) (auto split: if_splits)

lemma find_NoneD: "find p xs = None \<Longrightarrow> x \<in> set xs \<Longrightarrow> \<not> p x"
  by (induction xs) (auto split: if_splits)

lemma set_update_first: "y \<in> set (update_first p f xs) \<Longrightarrow>
  y \<in> set xs \<or> (\<exists>x \<in> set xs. p x \<and> y = f x)"
  by (induction xs) (auto split: if_splits)

lemma update_first_hit: "find p xs = Some x \<Longrightarrow> f x \<in> set (update_first p f xs)"
  by (induction xs) (auto split: if_splits)

section \<open>Append-only slices\<close>

text \<open>\<open>evolves p xs ys\<close>: every element of \<open>xs\<close> is still at its place in \<open>ys\<close>, changed at most as
  \<open>p\<close> allows, and \<open>ys\<close> may be longer.\<close>

definition evolves :: "('a \<Rightarrow> 'a \<Rightarrow> bool) \<Rightarrow> 'a list \<Rightarrow> 'a list \<Rightarrow> bool" where
  "evolves p xs ys = (\<exists>zs ws. ys = zs @ ws \<and> list_all2 p xs zs)"

lemma evolves_refl: "(\<And>x. p x x) \<Longrightarrow> evolves p xs xs"
  unfolding evolves_def by (intro exI [of _ xs] exI [of _ "[]"]) (simp add: list.rel_refl)

lemma evolves_append: "(\<And>x. p x x) \<Longrightarrow> evolves p xs (xs @ ys)"
  unfolding evolves_def by (intro exI [of _ xs] exI [of _ ys]) (simp add: list.rel_refl)

lemma evolves_map: "(\<And>x. x \<in> set xs \<Longrightarrow> p x (f x)) \<Longrightarrow> evolves p xs (map f xs)"
  unfolding evolves_def
  by (intro exI [of _ "map f xs"] exI [of _ "[]"]) (simp add: list_all2_conv_all_nth)

lemma list_all2_update_first:
  "(\<And>x. p x x) \<Longrightarrow> (\<And>x. x \<in> set xs \<Longrightarrow> q x \<Longrightarrow> p x (f x)) \<Longrightarrow> list_all2 p xs (update_first q f xs)"
  by (induction xs) (auto simp: list.rel_refl)

lemma evolves_update_first:
  "(\<And>x. p x x) \<Longrightarrow> (\<And>x. x \<in> set xs \<Longrightarrow> q x \<Longrightarrow> p x (f x)) \<Longrightarrow> evolves p xs (update_first q f xs)"
  unfolding evolves_def by (metis append_Nil2 list_all2_update_first)

lemma evolves_update_first_append:
  "(\<And>x. p x x) \<Longrightarrow> (\<And>x. x \<in> set xs \<Longrightarrow> q x \<Longrightarrow> p x (f x)) \<Longrightarrow>
   evolves p xs (update_first q f xs @ ys)"
  unfolding evolves_def by (metis list_all2_update_first)

lemma list_all2_find:
  "list_all2 p xs zs \<Longrightarrow> (\<And>x z. p x z \<Longrightarrow> q x = q z) \<Longrightarrow>
   rel_option p (find q xs) (find q zs)"
  by (induction rule: list_all2_induct) auto

lemma evolves_find:
  assumes "evolves p xs ys" and "\<And>x y. p x y \<Longrightarrow> q x = q y" and "find q xs = Some x"
  obtains y where "find q ys = Some y" and "p x y"
proof -
  from assms(1) obtain zs ws where ys: "ys = zs @ ws" and all: "list_all2 p xs zs"
    by (auto simp: evolves_def)
  have "rel_option p (find q xs) (find q zs)"
    by (rule list_all2_find [OF all]) (rule assms(2))
  with assms(3) obtain y where "find q zs = Some y" and "p x y"
    by (auto elim: option.rel_cases)
  then show thesis by (intro that) (auto simp: ys find_append)
qed

lemma evolves_elem:
  assumes "evolves p xs ys" and "length ys = length xs" and "y \<in> set ys"
  shows "\<exists>x \<in> set xs. p x y"
proof -
  from assms(1) obtain zs ws where ys: "ys = zs @ ws" and all: "list_all2 p xs zs"
    by (auto simp: evolves_def)
  with assms(2) list_all2_lengthD [OF all] have "list_all2 p xs ys" by simp
  with assms(3) show ?thesis by (metis in_set_conv_nth list_all2_conv_all_nth)
qed

lemma evolves_trans:
  assumes "evolves p xs ys" and "evolves p ys zs"
    and trans: "\<And>x y z. p x y \<Longrightarrow> p y z \<Longrightarrow> p x z"
  shows "evolves p xs zs"
proof -
  obtain ys1 ys2 where ys: "ys = ys1 @ ys2" and a: "list_all2 p xs ys1"
    using assms(1) by (auto simp: evolves_def)
  obtain zs1 zs2 where zs: "zs = zs1 @ zs2" and b: "list_all2 p ys zs1"
    using assms(2) by (auto simp: evolves_def)
  from b obtain u v where zs1: "zs1 = u @ v" and c: "list_all2 p ys1 u"
    by (auto simp: ys list_all2_append1)
  from list_all2_trans [of p p p, OF _ a c] trans have "list_all2 p xs u" by blast
  with zs zs1 show ?thesis unfolding evolves_def by auto
qed

section \<open>Go maps\<close>

type_synonym ('k, 'v) gomap = "('k \<times> 'v) list"

definition gomap_ok :: "('k, 'v) gomap \<Rightarrow> bool" where
  "gomap_ok m = distinct (map fst m)"

abbreviation map_put :: "'k \<Rightarrow> 'v \<Rightarrow> ('k, 'v) gomap \<Rightarrow> ('k, 'v) gomap" where
  "map_put \<equiv> AList.update"

abbreviation map_delete :: "'k \<Rightarrow> ('k, 'v) gomap \<Rightarrow> ('k, 'v) gomap" where
  "map_delete \<equiv> AList.delete"

text \<open>\<open>for k, v := range m { if cond { delete(m, k) } }\<close> and
  \<open>for k, v := range m { if cond { m[k] = f(v) } }\<close>.\<close>

definition map_keep :: "('k \<Rightarrow> 'v \<Rightarrow> bool) \<Rightarrow> ('k, 'v) gomap \<Rightarrow> ('k, 'v) gomap" where
  "map_keep p m = filter (\<lambda>(k, v). p k v) m"

definition map_values :: "('k \<Rightarrow> 'v \<Rightarrow> 'v) \<Rightarrow> ('k, 'v) gomap \<Rightarrow> ('k, 'v) gomap" where
  "map_values f m = map (\<lambda>(k, v). (k, f k v)) m"

lemma gomap_ok_Nil [simp]: "gomap_ok []"
  by (simp add: gomap_ok_def)

lemma gomap_ok_put [simp]: "gomap_ok m \<Longrightarrow> gomap_ok (map_put k v m)"
  by (simp add: gomap_ok_def AList.distinct_update)

lemma gomap_ok_delete [simp]: "gomap_ok m \<Longrightarrow> gomap_ok (map_delete k m)"
  by (simp add: gomap_ok_def AList.distinct_delete)

lemma gomap_ok_keep [simp]: "gomap_ok m \<Longrightarrow> gomap_ok (map_keep p m)"
  unfolding gomap_ok_def map_keep_def by (rule distinct_map_filter)

lemma gomap_ok_values [simp]: "gomap_ok (map_values f m) = gomap_ok m"
  by (simp add: gomap_ok_def map_values_def comp_def case_prod_beta)

lemma map_of_put [simp]: "map_of (map_put k v m) k' = (if k' = k then Some v else map_of m k')"
  by (simp add: AList.update_conv)

lemma map_of_delete_same [simp]: "map_of (map_delete k m) k = None"
  by (simp add: AList.delete_conv')

lemma map_of_delete: "map_of (map_delete k m) k' = (if k' = k then None else map_of m k')"
  by (simp add: AList.delete_conv')

lemma map_of_keep:
  "gomap_ok m \<Longrightarrow> map_of (map_keep p m) k =
     (case map_of m k of None \<Rightarrow> None | Some v \<Rightarrow> if p k v then Some v else None)"
  unfolding gomap_ok_def map_keep_def
proof (induction m)
  case (Cons e m)
  have no: "map_of m (fst e) = None"
    using Cons.prems by (simp add: map_of_eq_None_iff)
  show ?case
    using Cons no by (cases e) (auto split: option.split)
qed simp

lemma map_of_values [simp]: "map_of (map_values f m) k = map_option (f k) (map_of m k)"
  unfolding map_values_def by (induction m) auto

lemma in_set_gomap_iff: "gomap_ok m \<Longrightarrow> (k, v) \<in> set m \<longleftrightarrow> map_of m k = Some v"
  by (auto simp: gomap_ok_def)

lemma keys_put [simp]: "fst ` set (map_put k v m) = insert k (fst ` set m)"
  by (simp add: AList.dom_update)

lemma set_keep [simp]: "set (map_keep p m) = {(k, v) \<in> set m. p k v}"
  by (auto simp: map_keep_def)

lemma set_put_subset: "e \<in> set (map_put k v m) \<Longrightarrow> e = (k, v) \<or> e \<in> set m"
  by (induction m) (auto split: if_splits)

lemma set_put_ok: "gomap_ok m \<Longrightarrow> set (map_put k v m) = insert (k, v) {e \<in> set m. fst e \<noteq> k}"
  unfolding gomap_ok_def by (induction m) (auto simp: image_iff)

lemma set_delete [simp]: "set (map_delete k m) = {e \<in> set m. fst e \<noteq> k}"
  by (auto simp: AList.delete_eq)

lemma length_put: "length (map_put k v m) = (if k \<in> fst ` set m then length m else Suc (length m))"
  by (induction m) auto

section \<open>Runs of operations\<close>

text \<open>
  Every repository method takes the repository's mutex for its whole body, so a concurrent
  execution is some sequence of whole method calls. \<open>trace step s ops\<close> runs such a sequence and
  keeps each call with its result; \<open>final step s ops\<close> is the store afterwards.
\<close>

fun trace :: "('s \<Rightarrow> 'op \<Rightarrow> 'r \<times> 's) \<Rightarrow> 's \<Rightarrow> 'op list \<Rightarrow> ('op \<times> 'r) list" where
  "trace step s [] = []"
| "trace step s (op # ops) = (op, fst (step s op)) # trace step (snd (step s op)) ops"

fun final :: "('s \<Rightarrow> 'op \<Rightarrow> 'r \<times> 's) \<Rightarrow> 's \<Rightarrow> 'op list \<Rightarrow> 's" where
  "final step s [] = s"
| "final step s (op # ops) = final step (snd (step s op)) ops"

lemma final_append: "final step s (xs @ ys) = final step (final step s xs) ys"
  by (induction xs arbitrary: s) auto

lemma trace_append: "trace step s (xs @ ys) = trace step s xs @ trace step (final step s xs) ys"
  by (induction xs arbitrary: s) auto

text \<open>How many calls of a run satisfy a predicate of the call and its result.\<close>

definition occurrences ::
  "('op \<Rightarrow> 'r \<Rightarrow> bool) \<Rightarrow> ('s \<Rightarrow> 'op \<Rightarrow> 'r \<times> 's) \<Rightarrow> 's \<Rightarrow> 'op list \<Rightarrow> nat" where
  "occurrences p step s ops = length (filter (\<lambda>(op, r). p op r) (trace step s ops))"

lemma occurrences_Nil [simp]: "occurrences p step s [] = 0"
  by (simp add: occurrences_def)

lemma occurrences_Cons [simp]:
  "occurrences p step s (op # ops) =
     (if p op (fst (step s op)) then 1 else 0) + occurrences p step (snd (step s op)) ops"
  by (simp add: occurrences_def)

text \<open>A contract many stores promise: a predicate of the store that no admissible call can
  invalidate. It covers invariants as well as one-way facts (revoked, consumed).\<close>

locale kept_by_steps =
  fixes step :: "'s \<Rightarrow> 'op \<Rightarrow> 'r \<times> 's"
    and admissible :: "'op \<Rightarrow> bool"
    and kept :: "'s \<Rightarrow> bool"
  assumes kept_step: "kept s \<Longrightarrow> admissible op \<Longrightarrow> kept (snd (step s op))"
begin

lemma kept_final: "kept s \<Longrightarrow> list_all admissible ops \<Longrightarrow> kept (final step s ops)"
  by (induction ops arbitrary: s) (auto intro: kept_step)

end

text \<open>A contract of append-only record lists: every call lets the list evolve as a preorder allows,
  hence so does every run.\<close>

locale append_only =
  fixes step :: "'s \<Rightarrow> 'op \<Rightarrow> 'r \<times> 's"
    and records :: "'s \<Rightarrow> 'a list"
    and le :: "'a \<Rightarrow> 'a \<Rightarrow> bool"
  assumes le_refl: "le x x"
    and le_trans: "le x y \<Longrightarrow> le y z \<Longrightarrow> le x z"
    and evolves_step: "evolves le (records s) (records (snd (step s op)))"
begin

lemma evolves_final: "evolves le (records s) (records (final step s ops))"
proof (induction ops arbitrary: s)
  case Nil
  then show ?case by (simp add: evolves_refl le_refl)
next
  case (Cons op ops)
  then show ?case by (auto intro: evolves_trans evolves_step le_trans)
qed

lemma find_final:
  assumes "\<And>x y. le x y \<Longrightarrow> q x = q y" and "find q (records s) = Some x"
  shows "\<exists>y. find q (records (final step s ops)) = Some y \<and> le x y"
  by (rule evolves_find [OF evolves_final _ assms(2)]) (auto dest: assms(1))

end

text \<open>A contract of one-time credentials: redeeming a key spends it, a spent key stays spent under
  every admissible call, and no call redeems a spent key.\<close>

locale single_use =
  fixes step :: "'s \<Rightarrow> 'op \<Rightarrow> 'r \<times> 's"
    and admissible :: "'k \<Rightarrow> 'op \<Rightarrow> bool"
    and unique_key :: "'k \<Rightarrow> 's \<Rightarrow> bool"
    and spent :: "'k \<Rightarrow> 's \<Rightarrow> bool"
    and redeems :: "'k \<Rightarrow> 'op \<Rightarrow> 'r \<Rightarrow> bool"
  assumes unique_step: "unique_key k s \<Longrightarrow> admissible k op \<Longrightarrow> unique_key k (snd (step s op))"
    and spent_step: "unique_key k s \<Longrightarrow> spent k s \<Longrightarrow> admissible k op \<Longrightarrow>
          spent k (snd (step s op))"
    and redeem_spends: "unique_key k s \<Longrightarrow> admissible k op \<Longrightarrow> redeems k op (fst (step s op)) \<Longrightarrow>
          spent k (snd (step s op))"
    and spent_blocks: "spent k s \<Longrightarrow> \<not> redeems k op (fst (step s op))"
begin

lemma no_redemption_when_spent:
  "unique_key k s \<Longrightarrow> spent k s \<Longrightarrow> list_all (admissible k) ops \<Longrightarrow> occurrences (redeems k) step s ops = 0"
proof (induction ops arbitrary: s)
  case Nil
  then show ?case by simp
next
  case (Cons op ops)
  then have "occurrences (redeems k) step (snd (step s op)) ops = 0"
    by (auto intro: unique_step spent_step)
  with spent_blocks [OF Cons.prems(2)] show ?case
    by simp
qed

lemma redeemed_at_most_once:
  "unique_key k s \<Longrightarrow> list_all (admissible k) ops \<Longrightarrow> occurrences (redeems k) step s ops \<le> 1"
proof (induction ops arbitrary: s)
  case Nil
  then show ?case by simp
next
  case (Cons op ops)
  let ?t = "snd (step s op)"
  from Cons.prems have u: "unique_key k ?t" and ok: "list_all (admissible k) ops"
    and adm: "admissible k op" by (auto intro: unique_step)
  show ?case
  proof (cases "redeems k op (fst (step s op))")
    case True
    then have "spent k ?t" by (rule redeem_spends [OF Cons.prems(1) adm])
    with u ok have "occurrences (redeems k) step ?t ops = 0" by (intro no_redemption_when_spent)
    with True show ?thesis by simp
  next
    case False
    with Cons.IH [OF u ok] show ?thesis by simp
  qed
qed

end

end
