(* ===== verification/OAuth_Store.thy ===== *)
theory OAuth_Store
  imports Certus_Prelude
begin

text \<open>
  The grant store of \<open>internal/oauth/store.go\<close>: authorization codes, access tokens, refresh
  token families, device authorizations, OIDC client sessions and consents, with every method of
  \<open>MemoryRepository\<close>. An embedded Go struct is a record extension; \<open>*time.Time\<close> is
  \<open>time option\<close>. \<open>RefreshToken.Scope\<close> is \<open>string list option\<close> because the code tests it
  against \<open>nil\<close>; no other slice is compared with \<open>nil\<close>, so the others are plain lists.
  A method returns its result (\<open>Inl\<close> the error) and the repository afterwards.
\<close>

section \<open>Data\<close>

datatype oauth_error =
    ErrGrantNotFound | ErrGrantExpired | ErrGrantConsumed | ErrRefreshReuse
  | ErrAuthorizationPending | ErrSlowDown | ErrAccessDenied | ErrConsentNotFound | ErrInvalidScope

record AuthorizationCode =
  ac_Hash :: bytes
  ac_ClientID :: string
  ac_UserID :: string
  ac_SessionID :: string
  ac_RedirectURI :: string
  ac_Scope :: "string list"
  ac_Nonce :: string
  ac_CodeChallenge :: string
  ac_AuthenticatedAt :: time
  ac_AuthMethods :: "string list"
  ac_AssuranceLevel :: string
  ac_CreatedAt :: time
  ac_ExpiresAt :: time

record AccessToken =
  at_Hash :: bytes
  at_ClientID :: string
  at_UserID :: string
  at_SessionID :: string
  at_FamilyID :: string
  at_Scope :: "string list"
  at_IssuedAt :: time
  at_ExpiresAt :: time

record RefreshToken =
  rt_Hash :: bytes
  rt_FamilyID :: string
  rt_ClientID :: string
  rt_UserID :: string
  rt_SessionID :: string
  rt_Scope :: "string list option"
  rt_IssuedAt :: time
  rt_ExpiresAt :: time

type_synonym DeviceStatus = string

abbreviation DevicePending :: DeviceStatus where "DevicePending \<equiv> ''pending''"
abbreviation DeviceApproved :: DeviceStatus where "DeviceApproved \<equiv> ''approved''"
abbreviation DeviceDenied :: DeviceStatus where "DeviceDenied \<equiv> ''denied''"
abbreviation DeviceConsumed :: DeviceStatus where "DeviceConsumed \<equiv> ''consumed''"

record DeviceAuthorization =
  da_DeviceHash :: bytes
  da_UserHash :: bytes
  da_ClientID :: string
  da_UserID :: string
  da_Scope :: "string list"
  da_Status :: DeviceStatus
  da_AuthenticatedAt :: time
  da_AuthMethods :: "string list"
  da_AssuranceLevel :: string
  da_CreatedAt :: time
  da_ExpiresAt :: time
  da_Interval :: duration
  da_LastPollAt :: "time option"

record OIDCClientSession =
  os_SessionID :: string
  os_ClientID :: string
  os_UserID :: string
  os_CreatedAt :: time

record Consent =
  co_UserID :: string
  co_ClientID :: string
  co_Scopes :: "string list"
  co_GrantedAt :: time
  co_UpdatedAt :: time

record memoryAuthorizationCode = AuthorizationCode +
  ac_consumedAt :: "time option"
  ac_revokedAt :: "time option"

record memoryRefreshToken = RefreshToken +
  rt_consumedAt :: "time option"
  rt_revokedAt :: "time option"

record memoryAccessToken = AccessToken +
  at_revokedAt :: "time option"

record OAuthRepository =
  codes :: "memoryAuthorizationCode list"
  accessTokens :: "memoryAccessToken list"
  refresh :: "memoryRefreshToken list"
  devices :: "DeviceAuthorization list"
  oidcSessions :: "OIDCClientSession list"
  consents :: "Consent list"

definition OAuth_NewMemoryRepository :: OAuthRepository where
  "OAuth_NewMemoryRepository =
     \<lparr>codes = [], accessTokens = [], refresh = [], devices = [], oidcSessions = [], consents = []\<rparr>"

section \<open>Scopes\<close>

fun ScopesCover :: "string list \<Rightarrow> string list \<Rightarrow> bool" where
  "ScopesCover granted [] = True"
| "ScopesCover granted (scope # scopes) =
     (if scope \<notin> set granted then False else ScopesCover granted scopes)"

definition Covers :: "Consent \<Rightarrow> string list \<Rightarrow> bool" where
  "Covers c scopes = ScopesCover (co_Scopes c) scopes"

fun merge_loop :: "string list \<Rightarrow> string list \<Rightarrow> string list" where
  "merge_loop result [] = result"
| "merge_loop result (scope # scopes) =
     merge_loop (if scope \<in> set result then result else result @ [scope]) scopes"

definition mergeScopes :: "string list \<Rightarrow> string list \<Rightarrow> string list" where
  "mergeScopes current requested = sort (merge_loop current requested)"

text \<open>A slice that may be \<open>nil\<close>: its elements, and \<open>append([]string(nil), s...)\<close>, which is
  \<open>nil\<close> for an empty slice.\<close>

definition elems :: "string list option \<Rightarrow> string list" where
  "elems s = (case s of None \<Rightarrow> [] | Some xs \<Rightarrow> xs)"

definition copy_slice :: "string list option \<Rightarrow> string list option" where
  "copy_slice s = (if elems s = [] then None else s)"

section \<open>Authorization codes\<close>

definition SaveAuthorizationCode ::
  "AuthorizationCode \<Rightarrow> OAuthRepository \<Rightarrow> (oauth_error + unit) \<times> OAuthRepository" where
  [store_defs]: "SaveAuthorizationCode value r =
     (Inr (), r\<lparr>codes := codes r @
        [AuthorizationCode.extend value \<lparr>ac_consumedAt = None, ac_revokedAt = None\<rparr>]\<rparr>)"

definition ConsumeAuthorizationCode ::
  "bytes \<Rightarrow> string \<Rightarrow> string \<Rightarrow> string \<Rightarrow> time \<Rightarrow> OAuthRepository \<Rightarrow>
   (oauth_error + AuthorizationCode) \<times> OAuthRepository" where
  [store_defs]: "ConsumeAuthorizationCode hash clientID redirectURI codeChallenge now r =
     (case find (\<lambda>c. ac_Hash c = hash) (codes r) of
        None \<Rightarrow> (Inl ErrGrantNotFound, r)
      | Some record' \<Rightarrow>
          if ac_ClientID record' \<noteq> clientID \<or> ac_RedirectURI record' \<noteq> redirectURI \<or>
             ac_CodeChallenge record' \<noteq> codeChallenge
          then (Inl ErrGrantNotFound, r)
          else if ac_consumedAt record' \<noteq> None then (Inl ErrGrantConsumed, r)
          else if ac_revokedAt record' \<noteq> None then (Inl ErrGrantNotFound, r)
          else if \<not> ac_ExpiresAt record' > now then (Inl ErrGrantExpired, r)
          else (Inr (AuthorizationCode.truncate record'),
                r\<lparr>codes := update_first (\<lambda>c. ac_Hash c = hash)
                                      (\<lambda>c. c\<lparr>ac_consumedAt := Some now\<rparr>) (codes r)\<rparr>))"

section \<open>Access tokens\<close>

definition SaveAccessToken ::
  "AccessToken \<Rightarrow> OAuthRepository \<Rightarrow> (oauth_error + unit) \<times> OAuthRepository" where
  [store_defs]: "SaveAccessToken value r =
     (Inr (), r\<lparr>accessTokens := accessTokens r @ [AccessToken.extend value \<lparr>at_revokedAt = None\<rparr>]\<rparr>)"

definition FindAccessToken ::
  "bytes \<Rightarrow> time \<Rightarrow> OAuthRepository \<Rightarrow> oauth_error + AccessToken" where
  [store_defs]: "FindAccessToken hash now r =
     (case find (\<lambda>t. at_Hash t = hash \<and> at_revokedAt t = None \<and> at_ExpiresAt t > now)
             (accessTokens r) of
        None \<Rightarrow> Inl ErrGrantNotFound
      | Some record' \<Rightarrow> Inr (AccessToken.truncate record'))"

definition RevokeAccessToken ::
  "bytes \<Rightarrow> string \<Rightarrow> time \<Rightarrow> OAuthRepository \<Rightarrow> (oauth_error + unit) \<times> OAuthRepository" where
  [store_defs]: "RevokeAccessToken hash clientID now r =
     (case find (\<lambda>t. at_Hash t = hash \<and> at_ClientID t = clientID) (accessTokens r) of
        None \<Rightarrow> (Inl ErrGrantNotFound, r)
      | Some record' \<Rightarrow>
          (Inr (),
           if at_revokedAt record' = None
           then r\<lparr>accessTokens :=
                  update_first (\<lambda>t. at_Hash t = hash \<and> at_ClientID t = clientID)
                    (\<lambda>t. t\<lparr>at_revokedAt := Some now\<rparr>) (accessTokens r)\<rparr>
           else r))"

section \<open>Refresh tokens\<close>

definition SaveRefreshToken ::
  "RefreshToken \<Rightarrow> OAuthRepository \<Rightarrow> (oauth_error + unit) \<times> OAuthRepository" where
  [store_defs]: "SaveRefreshToken value r =
     (Inr (), r\<lparr>refresh := refresh r @
        [RefreshToken.extend (value\<lparr>rt_Scope := copy_slice (rt_Scope value)\<rparr>)
           \<lparr>rt_consumedAt = None, rt_revokedAt = None\<rparr>]\<rparr>)"

definition FindRefreshToken ::
  "bytes \<Rightarrow> time \<Rightarrow> OAuthRepository \<Rightarrow> oauth_error + RefreshToken" where
  [store_defs]: "FindRefreshToken hash now r =
     (case find (\<lambda>t. rt_Hash t = hash \<and> rt_consumedAt t = None \<and> rt_revokedAt t = None \<and>
                     rt_ExpiresAt t > now) (refresh r) of
        None \<Rightarrow> Inl ErrGrantNotFound
      | Some record' \<Rightarrow>
          Inr ((RefreshToken.truncate record')\<lparr>rt_Scope := copy_slice (rt_Scope record')\<rparr>))"

text \<open>The two loops that \<open>RotateRefreshToken\<close> and \<open>RevokeRefreshToken\<close> run over a family.\<close>

definition revoke_family :: "string \<Rightarrow> time \<Rightarrow> OAuthRepository \<Rightarrow> OAuthRepository" where
  "revoke_family family now r =
     r\<lparr>refresh := map (\<lambda>t. if rt_FamilyID t = family then t\<lparr>rt_revokedAt := Some now\<rparr> else t)
                    (refresh r),
       accessTokens := map (\<lambda>t. if at_FamilyID t = family then t\<lparr>at_revokedAt := Some now\<rparr> else t)
                    (accessTokens r)\<rparr>"

text \<open>The fields \<open>RotateRefreshToken\<close> writes into the replacement before it stores it.\<close>

definition rotated_token :: "'a RefreshToken_scheme \<Rightarrow> RefreshToken \<Rightarrow> RefreshToken" where
  "rotated_token record' replacement =
     (let replacement1 = replacement\<lparr>rt_FamilyID := rt_FamilyID record',
            rt_UserID := rt_UserID record', rt_SessionID := rt_SessionID record'\<rparr>
      in if rt_Scope replacement1 = None
         then replacement1\<lparr>rt_Scope := copy_slice (rt_Scope record')\<rparr>
         else replacement1)"

definition RotateRefreshToken ::
  "bytes \<Rightarrow> RefreshToken \<Rightarrow> time \<Rightarrow> OAuthRepository \<Rightarrow>
   (oauth_error + RefreshToken) \<times> OAuthRepository" where
  [store_defs]: "RotateRefreshToken hash replacement now r =
     (case find (\<lambda>t. rt_Hash t = hash) (refresh r) of
        None \<Rightarrow> (Inl ErrGrantNotFound, r)
      | Some record' \<Rightarrow>
          if rt_ClientID record' \<noteq> rt_ClientID replacement then (Inl ErrGrantNotFound, r)
          else if rt_revokedAt record' \<noteq> None \<or> rt_consumedAt record' \<noteq> None
          then (Inl ErrRefreshReuse, revoke_family (rt_FamilyID record') now r)
          else if \<not> rt_ExpiresAt record' > now then (Inl ErrGrantExpired, r)
          else if \<not> ScopesCover (elems (rt_Scope record'))
                      (elems (rt_Scope (rotated_token record' replacement)))
          then (Inl ErrInvalidScope, r)
          else
            (Inr ((RefreshToken.truncate record')\<lparr>rt_Scope := copy_slice (rt_Scope record')\<rparr>),
             r\<lparr>refresh := update_first (\<lambda>t. rt_Hash t = hash)
                            (\<lambda>t. t\<lparr>rt_consumedAt := Some now\<rparr>) (refresh r) @
                [RefreshToken.extend (rotated_token record' replacement)
                   \<lparr>rt_consumedAt = None, rt_revokedAt = None\<rparr>]\<rparr>))"

definition RevokeRefreshToken ::
  "bytes \<Rightarrow> string \<Rightarrow> time \<Rightarrow> OAuthRepository \<Rightarrow> (oauth_error + unit) \<times> OAuthRepository" where
  [store_defs]: "RevokeRefreshToken hash clientID now r =
     (case find (\<lambda>t. rt_Hash t = hash \<and> rt_ClientID t = clientID) (refresh r) of
        None \<Rightarrow> (Inl ErrGrantNotFound, r)
      | Some record' \<Rightarrow> (Inr (), revoke_family (rt_FamilyID record') now r))"

section \<open>Consents\<close>

definition grantConsentLocked ::
  "string \<Rightarrow> string \<Rightarrow> string list \<Rightarrow> time \<Rightarrow> OAuthRepository \<Rightarrow> Consent \<times> OAuthRepository" where
  [store_defs]: "grantConsentLocked userID clientID scopes now r =
     (case find (\<lambda>c. co_UserID c = userID \<and> co_ClientID c = clientID) (consents r) of
        Some c \<Rightarrow>
          let c' = c\<lparr>co_Scopes := mergeScopes (co_Scopes c) scopes, co_UpdatedAt := now\<rparr>
          in (c', r\<lparr>consents := update_first (\<lambda>c. co_UserID c = userID \<and> co_ClientID c = clientID)
                                  (\<lambda>_. c') (consents r)\<rparr>)
      | None \<Rightarrow>
          let c' = \<lparr>co_UserID = userID, co_ClientID = clientID, co_Scopes = mergeScopes [] scopes,
                    co_GrantedAt = now, co_UpdatedAt = now\<rparr>
          in (c', r\<lparr>consents := consents r @ [c']\<rparr>))"

definition GrantConsent ::
  "string \<Rightarrow> string \<Rightarrow> string list \<Rightarrow> time \<Rightarrow> OAuthRepository \<Rightarrow>
   (oauth_error + Consent) \<times> OAuthRepository" where
  [store_defs]: "GrantConsent userID clientID scopes now r =
     (let (c, r') = grantConsentLocked userID clientID scopes now r in (Inr c, r'))"

definition FindConsent :: "string \<Rightarrow> string \<Rightarrow> OAuthRepository \<Rightarrow> oauth_error + Consent" where
  [store_defs]: "FindConsent userID clientID r =
     (case find (\<lambda>c. co_UserID c = userID \<and> co_ClientID c = clientID) (consents r) of
        None \<Rightarrow> Inl ErrConsentNotFound
      | Some c \<Rightarrow> Inr c)"

text \<open>\<open>slices.SortFunc\<close> leaves the order of equal elements open; the model keeps their order.\<close>

definition ListConsentsByUser :: "string \<Rightarrow> OAuthRepository \<Rightarrow> Consent list" where
  [store_defs]: "ListConsentsByUser userID r =
     sort_key (\<lambda>c. - co_UpdatedAt c) (filter (\<lambda>c. co_UserID c = userID) (consents r))"

section \<open>Device authorizations\<close>

definition SaveDeviceAuthorization ::
  "DeviceAuthorization \<Rightarrow> OAuthRepository \<Rightarrow> (oauth_error + unit) \<times> OAuthRepository" where
  [store_defs]: "SaveDeviceAuthorization value r = (Inr (), r\<lparr>devices := devices r @ [value]\<rparr>)"

abbreviation decidable :: "bytes \<Rightarrow> time \<Rightarrow> DeviceAuthorization \<Rightarrow> bool" where
  "decidable userHash now v \<equiv>
     da_UserHash v = userHash \<and> da_ExpiresAt v > now \<and> da_Status v = DevicePending"

definition FindDeviceByUserCode ::
  "bytes \<Rightarrow> time \<Rightarrow> OAuthRepository \<Rightarrow> oauth_error + DeviceAuthorization" where
  [store_defs]: "FindDeviceByUserCode hash now r =
     (case find (decidable hash now) (devices r) of
        None \<Rightarrow> Inl ErrGrantNotFound
      | Some v \<Rightarrow> Inr v)"

definition DecideDeviceAuthorization ::
  "bytes \<Rightarrow> string \<Rightarrow> time \<Rightarrow> string list \<Rightarrow> string \<Rightarrow> bool \<Rightarrow> time \<Rightarrow> OAuthRepository \<Rightarrow>
   (oauth_error + unit) \<times> OAuthRepository" where
  [store_defs]: "DecideDeviceAuthorization userHash userID authenticatedAt authMethods assuranceLevel
      approve now r =
     (case find (decidable userHash now) (devices r) of
        None \<Rightarrow> (Inl ErrGrantNotFound, r)
      | Some value \<Rightarrow>
          let r1 = r\<lparr>devices := update_first (decidable userHash now)
                (\<lambda>v. v\<lparr>da_UserID := userID, da_AuthenticatedAt := authenticatedAt,
                      da_AuthMethods := authMethods, da_AssuranceLevel := assuranceLevel,
                      da_Status := (if approve then DeviceApproved else DeviceDenied)\<rparr>)
                (devices r)\<rparr>
          in (Inr (),
              if approve
              then snd (grantConsentLocked userID (da_ClientID value) (da_Scope value) now r1)
              else r1))"

fun poll_loop ::
  "bytes \<Rightarrow> string \<Rightarrow> time \<Rightarrow> DeviceAuthorization list \<Rightarrow>
   (oauth_error + DeviceAuthorization) \<times> DeviceAuthorization list" where
  "poll_loop deviceHash clientID now [] = (Inl ErrGrantNotFound, [])"
| "poll_loop deviceHash clientID now (value # vs) =
     (if da_DeviceHash value \<noteq> deviceHash \<or> da_ClientID value \<noteq> clientID
      then let (res, vs') = poll_loop deviceHash clientID now vs in (res, value # vs')
      else if \<not> da_ExpiresAt value > now then (Inl ErrGrantExpired, value # vs)
      else if (case da_LastPollAt value of None \<Rightarrow> False | Some l \<Rightarrow> now < l + da_Interval value)
      then (Inl ErrSlowDown,
            value\<lparr>da_Interval := da_Interval value + 5 * second, da_LastPollAt := Some now\<rparr> # vs)
      else
        let value' = value\<lparr>da_LastPollAt := Some now\<rparr> in
        if da_Status value = DevicePending then (Inl ErrAuthorizationPending, value' # vs)
        else if da_Status value = DeviceDenied then (Inl ErrAccessDenied, value' # vs)
        else if da_Status value = DeviceConsumed then (Inl ErrGrantConsumed, value' # vs)
        else if da_Status value = DeviceApproved
        then (Inr (value'\<lparr>da_Status := DeviceConsumed\<rparr>), value'\<lparr>da_Status := DeviceConsumed\<rparr> # vs)
        else let (res, vs') = poll_loop deviceHash clientID now vs in (res, value' # vs'))"

definition PollDeviceAuthorization ::
  "bytes \<Rightarrow> string \<Rightarrow> time \<Rightarrow> OAuthRepository \<Rightarrow>
   (oauth_error + DeviceAuthorization) \<times> OAuthRepository" where
  [store_defs]: "PollDeviceAuthorization deviceHash clientID now r =
     (let (res, ds) = poll_loop deviceHash clientID now (devices r) in (res, r\<lparr>devices := ds\<rparr>))"

section \<open>OIDC client sessions\<close>

definition SaveOIDCClientSession ::
  "OIDCClientSession \<Rightarrow> OAuthRepository \<Rightarrow> (oauth_error + unit) \<times> OAuthRepository" where
  [store_defs]: "SaveOIDCClientSession value r =
     (let same = (\<lambda>v. os_SessionID v = os_SessionID value \<and> os_ClientID v = os_ClientID value) in
      (Inr (),
       if find same (oidcSessions r) \<noteq> None
       then r\<lparr>oidcSessions := update_first same (\<lambda>_. value) (oidcSessions r)\<rparr>
       else r\<lparr>oidcSessions := oidcSessions r @ [value]\<rparr>))"

definition ListOIDCClientSessions :: "string \<Rightarrow> OAuthRepository \<Rightarrow> OIDCClientSession list" where
  [store_defs]: "ListOIDCClientSessions sessionID r =
     filter (\<lambda>v. os_SessionID v = sessionID) (oidcSessions r)"

definition DeleteOIDCClientSessions ::
  "string \<Rightarrow> OAuthRepository \<Rightarrow> (oauth_error + unit) \<times> OAuthRepository" where
  [store_defs]: "DeleteOIDCClientSessions sessionID r =
     (Inr (), r\<lparr>oidcSessions := filter (\<lambda>v. os_SessionID v \<noteq> sessionID) (oidcSessions r)\<rparr>)"

section \<open>Bulk revocation\<close>

definition revokeMatchingTokens ::
  "(string \<Rightarrow> string \<Rightarrow> string \<Rightarrow> bool) \<Rightarrow> time \<Rightarrow> OAuthRepository \<Rightarrow> OAuthRepository" where
  [store_defs]: "revokeMatchingTokens matches now r =
     r\<lparr>codes := map (\<lambda>c. if matches (ac_UserID c) (ac_SessionID c) (ac_ClientID c) \<and>
                           ac_revokedAt c = None then c\<lparr>ac_revokedAt := Some now\<rparr> else c) (codes r),
       accessTokens := map (\<lambda>t. if matches (at_UserID t) (at_SessionID t) (at_ClientID t) \<and>
                           at_revokedAt t = None then t\<lparr>at_revokedAt := Some now\<rparr> else t)
                         (accessTokens r),
       refresh := map (\<lambda>t. if matches (rt_UserID t) (rt_SessionID t) (rt_ClientID t) \<and>
                           rt_revokedAt t = None then t\<lparr>rt_revokedAt := Some now\<rparr> else t)
                         (refresh r)\<rparr>"

definition deny_devices ::
  "(DeviceAuthorization \<Rightarrow> bool) \<Rightarrow> OAuthRepository \<Rightarrow> OAuthRepository" where
  [store_defs]: "deny_devices p r =
     r\<lparr>devices := map (\<lambda>d. if p d then d\<lparr>da_Status := DeviceDenied\<rparr> else d) (devices r)\<rparr>"

definition RevokeSessionTokens ::
  "string \<Rightarrow> string \<Rightarrow> time \<Rightarrow> OAuthRepository \<Rightarrow> (oauth_error + unit) \<times> OAuthRepository" where
  [store_defs]: "RevokeSessionTokens userID sessionID now r =
     (Inr (), revokeMatchingTokens (\<lambda>u s _. u = userID \<and> s = sessionID) now r)"

definition RevokeUserTokens ::
  "string \<Rightarrow> string \<Rightarrow> time \<Rightarrow> OAuthRepository \<Rightarrow> (oauth_error + unit) \<times> OAuthRepository" where
  [store_defs]: "RevokeUserTokens userID exceptSessionID now r =
     (Inr (), deny_devices (\<lambda>d. da_UserID d = userID \<and> da_Status d = DeviceApproved)
        (revokeMatchingTokens
           (\<lambda>u s _. u = userID \<and> (exceptSessionID = [] \<or> s \<noteq> exceptSessionID)) now r))"

definition RevokeClientTokens ::
  "string \<Rightarrow> time \<Rightarrow> OAuthRepository \<Rightarrow> (oauth_error + unit) \<times> OAuthRepository" where
  [store_defs]: "RevokeClientTokens clientID now r =
     (Inr (), deny_devices (\<lambda>d. da_ClientID d = clientID \<and>
                  (da_Status d = DevicePending \<or> da_Status d = DeviceApproved))
        (revokeMatchingTokens (\<lambda>_ _ c. c = clientID) now r))"

text \<open>\<open>append(xs[:i], xs[i+1:]...)\<close> at the first match.\<close>

fun remove_first :: "('a \<Rightarrow> bool) \<Rightarrow> 'a list \<Rightarrow> 'a list" where
  "remove_first p [] = []"
| "remove_first p (x # xs) = (if p x then xs else x # remove_first p xs)"

definition DeleteConsent ::
  "string \<Rightarrow> string \<Rightarrow> time \<Rightarrow> OAuthRepository \<Rightarrow> (oauth_error + unit) \<times> OAuthRepository" where
  [store_defs]: "DeleteConsent userID clientID now r =
     (case find (\<lambda>c. co_UserID c = userID \<and> co_ClientID c = clientID) (consents r) of
        None \<Rightarrow> (Inl ErrConsentNotFound, r)
      | Some _ \<Rightarrow>
          (Inr (),
           deny_devices (\<lambda>d. da_UserID d = userID \<and> da_ClientID d = clientID \<and>
                             da_Status d = DeviceApproved)
             (revokeMatchingTokens (\<lambda>u _ c. u = userID \<and> c = clientID) now
               (r\<lparr>consents := remove_first (\<lambda>c. co_UserID c = userID \<and> co_ClientID c = clientID)
                              (consents r)\<rparr>))))"

section \<open>The repository as one machine\<close>

datatype oauth_op =
    OpSaveCode AuthorizationCode
  | OpConsumeCode bytes string string string time
  | OpSaveAccess AccessToken
  | OpFindAccess bytes time
  | OpRevokeAccess bytes string time
  | OpSaveRefresh RefreshToken
  | OpFindRefresh bytes time
  | OpRotate bytes RefreshToken time
  | OpRevokeRefresh bytes string time
  | OpSaveDevice DeviceAuthorization
  | OpFindDevice bytes time
  | OpDecideDevice bytes string time "string list" string bool time
  | OpPollDevice bytes string time
  | OpSaveOIDC OIDCClientSession
  | OpListOIDC string
  | OpDeleteOIDC string
  | OpRevokeSession string string time
  | OpRevokeUser string string time
  | OpRevokeClient string time
  | OpFindConsent string string
  | OpGrantConsent string string "string list" time
  | OpListConsents string
  | OpDeleteConsent string string time

datatype oauth_value =
    Done | GotCode AuthorizationCode | GotAccess AccessToken | GotRefresh RefreshToken
  | GotDevice DeviceAuthorization | GotOIDC "OIDCClientSession list" | GotConsent Consent
  | GotConsents "Consent list"

type_synonym oauth_result = "oauth_error + oauth_value"

abbreviation answer :: "('a \<Rightarrow> oauth_value) \<Rightarrow> (oauth_error + 'a) \<times> OAuthRepository \<Rightarrow>
    oauth_result \<times> OAuthRepository" where
  "answer f x \<equiv> apfst (map_sum id f) x"

fun oauth_step :: "OAuthRepository \<Rightarrow> oauth_op \<Rightarrow> oauth_result \<times> OAuthRepository" where
  "oauth_step r (OpSaveCode v) = answer (\<lambda>_. Done) (SaveAuthorizationCode v r)"
| "oauth_step r (OpConsumeCode h c u ch now) = answer GotCode (ConsumeAuthorizationCode h c u ch now r)"
| "oauth_step r (OpSaveAccess v) = answer (\<lambda>_. Done) (SaveAccessToken v r)"
| "oauth_step r (OpFindAccess h now) = answer GotAccess (FindAccessToken h now r, r)"
| "oauth_step r (OpRevokeAccess h c now) = answer (\<lambda>_. Done) (RevokeAccessToken h c now r)"
| "oauth_step r (OpSaveRefresh v) = answer (\<lambda>_. Done) (SaveRefreshToken v r)"
| "oauth_step r (OpFindRefresh h now) = answer GotRefresh (FindRefreshToken h now r, r)"
| "oauth_step r (OpRotate h v now) = answer GotRefresh (RotateRefreshToken h v now r)"
| "oauth_step r (OpRevokeRefresh h c now) = answer (\<lambda>_. Done) (RevokeRefreshToken h c now r)"
| "oauth_step r (OpSaveDevice v) = answer (\<lambda>_. Done) (SaveDeviceAuthorization v r)"
| "oauth_step r (OpFindDevice h now) = answer GotDevice (FindDeviceByUserCode h now r, r)"
| "oauth_step r (OpDecideDevice h u at ms al ok now) =
     answer (\<lambda>_. Done) (DecideDeviceAuthorization h u at ms al ok now r)"
| "oauth_step r (OpPollDevice h c now) = answer GotDevice (PollDeviceAuthorization h c now r)"
| "oauth_step r (OpSaveOIDC v) = answer (\<lambda>_. Done) (SaveOIDCClientSession v r)"
| "oauth_step r (OpListOIDC sid) = (Inr (GotOIDC (ListOIDCClientSessions sid r)), r)"
| "oauth_step r (OpDeleteOIDC sid) = answer (\<lambda>_. Done) (DeleteOIDCClientSessions sid r)"
| "oauth_step r (OpRevokeSession u sid now) = answer (\<lambda>_. Done) (RevokeSessionTokens u sid now r)"
| "oauth_step r (OpRevokeUser u sid now) = answer (\<lambda>_. Done) (RevokeUserTokens u sid now r)"
| "oauth_step r (OpRevokeClient c now) = answer (\<lambda>_. Done) (RevokeClientTokens c now r)"
| "oauth_step r (OpFindConsent u c) = answer GotConsent (FindConsent u c r, r)"
| "oauth_step r (OpGrantConsent u c ss now) = answer GotConsent (GrantConsent u c ss now r)"
| "oauth_step r (OpListConsents u) = (Inr (GotConsents (ListConsentsByUser u r)), r)"
| "oauth_step r (OpDeleteConsent u c now) = answer (\<lambda>_. Done) (DeleteConsent u c now r)"

end
