(* ===== verification/OAuth_Grants.thy ===== *)
theory OAuth_Grants
  imports OAuth_Store
begin

text \<open>
  What the grant store promises, over single calls and over every interleaving of calls: one-time
  use of codes, refresh tokens and device authorizations, refresh-reuse detection, bulk revocation,
  consent records and the life cycle of a device authorization.
\<close>

lemmas embed_defs =
  AuthorizationCode.extend_def AuthorizationCode.truncate_def
  AccessToken.extend_def AccessToken.truncate_def
  RefreshToken.extend_def RefreshToken.truncate_def

lemma snd_answer [simp]: "snd (answer f x) = snd x"
  by (cases x) simp

lemma isl_fst_answer [simp]: "isl (fst (answer f x)) = isl (fst x)"
  by (cases x; cases "fst x") auto

section \<open>One-time use\<close>

subsection \<open>Authorization codes\<close>

abbreviation code_at :: "bytes \<Rightarrow> OAuthRepository \<Rightarrow> memoryAuthorizationCode option" where
  "code_at h r \<equiv> find (\<lambda>c. ac_Hash c = h) (codes r)"

definition code_spent :: "bytes \<Rightarrow> OAuthRepository \<Rightarrow> bool" where
  "code_spent h r = (case code_at h r of None \<Rightarrow> False | Some c \<Rightarrow> ac_consumedAt c \<noteq> None)"

fun code_redeemed :: "bytes \<Rightarrow> oauth_op \<Rightarrow> oauth_result \<Rightarrow> bool" where
  "code_redeemed h (OpConsumeCode h' _ _ _ _) res = (h' = h \<and> \<not> isl res)"
| "code_redeemed h _ res = False"

lemma grantConsentLocked_frame:
  "codes (snd (grantConsentLocked u c ss now r)) = codes r"
  "accessTokens (snd (grantConsentLocked u c ss now r)) = accessTokens r"
  "refresh (snd (grantConsentLocked u c ss now r)) = refresh r"
  "devices (snd (grantConsentLocked u c ss now r)) = devices r"
  "oidcSessions (snd (grantConsentLocked u c ss now r)) = oidcSessions r"
  by (simp_all add: grantConsentLocked_def Let_def split: option.split)

lemma revoke_family_frame [simp]:
  "codes (revoke_family f now r) = codes r"
  "devices (revoke_family f now r) = devices r"
  "oidcSessions (revoke_family f now r) = oidcSessions r"
  "consents (revoke_family f now r) = consents r"
  by (simp_all add: revoke_family_def)

lemma snd_case_prod_pair [simp]: "snd (case x of (a, b) \<Rightarrow> (f a, g b)) = g (snd x)"
  by (cases x) simp

lemma fst_case_prod_pair [simp]: "fst (case x of (a, b) \<Rightarrow> (f a, g b)) = f (fst x)"
  by (cases x) simp

section \<open>How records may change\<close>

text \<open>A stored record keeps every field it was saved with; a timestamp of consumption or revocation,
  once set, stays set.\<close>

definition set_stays :: "time option \<Rightarrow> time option \<Rightarrow> bool" where
  "set_stays old new = (old \<noteq> None \<longrightarrow> new \<noteq> None)"

lemma set_stays_simps [simp]: "set_stays x x" "set_stays x (Some t)" "set_stays None x"
  by (simp_all add: set_stays_def)

definition code_le :: "memoryAuthorizationCode \<Rightarrow> memoryAuthorizationCode \<Rightarrow> bool" where
  "code_le c d = (AuthorizationCode.truncate c = AuthorizationCode.truncate d \<and>
     set_stays (ac_consumedAt c) (ac_consumedAt d) \<and> set_stays (ac_revokedAt c) (ac_revokedAt d))"

definition access_le :: "memoryAccessToken \<Rightarrow> memoryAccessToken \<Rightarrow> bool" where
  "access_le t u = (AccessToken.truncate t = AccessToken.truncate u \<and>
     set_stays (at_revokedAt t) (at_revokedAt u))"

definition refresh_le :: "memoryRefreshToken \<Rightarrow> memoryRefreshToken \<Rightarrow> bool" where
  "refresh_le t u = (RefreshToken.truncate t = RefreshToken.truncate u \<and>
     set_stays (rt_consumedAt t) (rt_consumedAt u) \<and> set_stays (rt_revokedAt t) (rt_revokedAt u))"

lemmas record_le_defs = code_le_def access_le_def refresh_le_def embed_defs

lemma record_le_refl [simp]: "code_le c c" "access_le t t" "refresh_le u u"
  by (simp_all add: record_le_defs)

lemma code_le_hash: "code_le c d \<Longrightarrow> ac_Hash c = ac_Hash d"
  by (simp add: record_le_defs)

lemmas evolves_rules = evolves_refl evolves_append evolves_map evolves_update_first
  evolves_update_first_append

lemma codes_evolve: "evolves code_le (codes r) (codes (snd (oauth_step r op)))"
  by (cases op)
    (auto simp: store_defs grantConsentLocked_frame Let_def record_le_defs
      intro!: evolves_rules split: option.split if_split)

lemma accessTokens_evolve:
  "evolves access_le (accessTokens r) (accessTokens (snd (oauth_step r op)))"
  by (cases op)
    (auto simp: store_defs grantConsentLocked_frame revoke_family_def Let_def record_le_defs
      intro!: evolves_rules split: option.split if_split)

lemma refresh_evolve: "evolves refresh_le (refresh r) (refresh (snd (oauth_step r op)))"
  by (cases op)
    (auto simp: store_defs grantConsentLocked_frame revoke_family_def Let_def record_le_defs
      intro!: evolves_rules split: option.split if_split)

lemma code_at_step:
  assumes "code_at h r = Some c"
  shows "\<exists>d. code_at h (snd (oauth_step r op)) = Some d \<and> code_le c d"
  by (rule evolves_find [OF codes_evolve [of r op] _ assms]) (auto dest: code_le_hash)

lemma code_spent_step:
  assumes "code_spent h r"
  shows "code_spent h (snd (oauth_step r op))"
proof -
  from assms obtain c where c: "code_at h r = Some c" "ac_consumedAt c \<noteq> None"
    by (auto simp: code_spent_def split: option.splits)
  from code_at_step [OF c(1)] obtain d
    where "code_at h (snd (oauth_step r op)) = Some d" "code_le c d" by blast
  with c(2) show ?thesis by (simp add: code_spent_def code_le_def set_stays_def)
qed

lemma code_redeemed_spends:
  "code_redeemed h op (fst (oauth_step r op)) \<Longrightarrow> code_spent h (snd (oauth_step r op))"
  by (cases op) (auto simp: ConsumeAuthorizationCode_def code_spent_def find_update_first_same
      split: option.splits if_splits)

lemma code_spent_blocks: "code_spent h r \<Longrightarrow> \<not> code_redeemed h op (fst (oauth_step r op))"
  by (cases op) (auto simp: ConsumeAuthorizationCode_def code_spent_def
      split: option.splits if_splits)

interpretation code_use: single_use oauth_step "\<lambda>_ _. True" "\<lambda>_ _. True" code_spent code_redeemed
  by unfold_locales (auto intro: code_spent_step code_redeemed_spends dest: code_spent_blocks)

subsection \<open>Refresh tokens\<close>

abbreviation refresh_at :: "bytes \<Rightarrow> OAuthRepository \<Rightarrow> memoryRefreshToken option" where
  "refresh_at h r \<equiv> find (\<lambda>t. rt_Hash t = h) (refresh r)"

definition refresh_spent :: "bytes \<Rightarrow> OAuthRepository \<Rightarrow> bool" where
  "refresh_spent h r = (case refresh_at h r of None \<Rightarrow> False
     | Some t \<Rightarrow> rt_consumedAt t \<noteq> None \<or> rt_revokedAt t \<noteq> None)"

fun refresh_rotated :: "bytes \<Rightarrow> oauth_op \<Rightarrow> oauth_result \<Rightarrow> bool" where
  "refresh_rotated h (OpRotate h' _ _) res = (h' = h \<and> \<not> isl res)"
| "refresh_rotated h _ res = False"

lemma refresh_le_fields:
  "refresh_le t u \<Longrightarrow> rt_Hash t = rt_Hash u \<and> rt_FamilyID t = rt_FamilyID u \<and>
     rt_ClientID t = rt_ClientID u \<and> rt_UserID t = rt_UserID u \<and> rt_SessionID t = rt_SessionID u \<and>
     rt_Scope t = rt_Scope u \<and> rt_ExpiresAt t = rt_ExpiresAt u"
  by (simp add: record_le_defs)

lemma refresh_at_step:
  assumes "refresh_at h r = Some t"
  shows "\<exists>u. refresh_at h (snd (oauth_step r op)) = Some u \<and> refresh_le t u"
  by (rule evolves_find [OF refresh_evolve [of r op] _ assms]) (auto dest: refresh_le_fields)

lemma refresh_spent_step:
  assumes "refresh_spent h r"
  shows "refresh_spent h (snd (oauth_step r op))"
proof -
  from assms obtain t where t: "refresh_at h r = Some t"
      "rt_consumedAt t \<noteq> None \<or> rt_revokedAt t \<noteq> None"
    by (auto simp: refresh_spent_def split: option.splits)
  from refresh_at_step [OF t(1)] obtain u
    where "refresh_at h (snd (oauth_step r op)) = Some u" "refresh_le t u" by blast
  with t(2) show ?thesis by (auto simp: refresh_spent_def refresh_le_def set_stays_def)
qed

lemma refresh_rotated_spends:
  "refresh_rotated h op (fst (oauth_step r op)) \<Longrightarrow> refresh_spent h (snd (oauth_step r op))"
  by (cases op) (auto simp: RotateRefreshToken_def refresh_spent_def find_append Let_def
      find_update_first_same split: option.splits if_splits)

lemma refresh_spent_blocks: "refresh_spent h r \<Longrightarrow> \<not> refresh_rotated h op (fst (oauth_step r op))"
  by (cases op) (auto simp: RotateRefreshToken_def refresh_spent_def Let_def
      split: option.splits if_splits)

interpretation refresh_use:
  single_use oauth_step "\<lambda>_ _. True" "\<lambda>_ _. True" refresh_spent refresh_rotated
  by unfold_locales
    (auto intro: refresh_spent_step refresh_rotated_spends dest: refresh_spent_blocks)

section \<open>Device authorizations\<close>

text \<open>The life cycle of a device authorization. Denied and consumed are final.\<close>

inductive device_transition :: "DeviceStatus \<Rightarrow> DeviceStatus \<Rightarrow> bool" where
  approve: "device_transition DevicePending DeviceApproved"
| deny: "device_transition DevicePending DeviceDenied"
| withdraw: "device_transition DeviceApproved DeviceDenied"
| redeem: "device_transition DeviceApproved DeviceConsumed"

inductive_cases from_denied: "device_transition DeviceDenied s"
inductive_cases from_consumed: "device_transition DeviceConsumed s"

lemmas device_moves =
  device_transition.intros [THEN r_into_rtranclp [of device_transition]]

lemma denied_final: "device_transition\<^sup>*\<^sup>* DeviceDenied s \<Longrightarrow> s = DeviceDenied"
  by (induction rule: rtranclp_induct) (auto elim: device_transition.cases)

lemma consumed_final: "device_transition\<^sup>*\<^sup>* DeviceConsumed s \<Longrightarrow> s = DeviceConsumed"
  by (induction rule: rtranclp_induct) (auto elim: device_transition.cases)

definition device_le :: "DeviceAuthorization \<Rightarrow> DeviceAuthorization \<Rightarrow> bool" where
  "device_le d e =
     (da_DeviceHash e = da_DeviceHash d \<and> da_UserHash e = da_UserHash d \<and>
      da_ClientID e = da_ClientID d \<and> da_Scope e = da_Scope d \<and>
      da_CreatedAt e = da_CreatedAt d \<and> da_ExpiresAt e = da_ExpiresAt d \<and>
      da_Interval d \<le> da_Interval e \<and>
      device_transition\<^sup>*\<^sup>* (da_Status d) (da_Status e))"

lemma device_le_refl [simp]: "device_le d d"
  by (simp add: device_le_def)

lemma device_le_trans: "device_le d e \<Longrightarrow> device_le e f \<Longrightarrow> device_le d f"
  by (auto simp: device_le_def)

lemma poll_loop_le: "list_all2 device_le ds (snd (poll_loop h c now ds))"
  by (induction ds)
    (auto simp: Let_def case_prod_beta device_le_def list.rel_refl
      intro: device_moves split: option.splits)

lemma evolves_list_all2: "list_all2 p xs ys \<Longrightarrow> evolves p xs ys"
  unfolding evolves_def by (intro exI [of _ ys] exI [of _ "[]"]) simp

lemma devices_evolve: "evolves device_le (devices r) (devices (snd (oauth_step r op)))"
  by (cases op)
    (auto simp: store_defs grantConsentLocked_frame Let_def case_prod_beta device_le_def
      intro!: evolves_rules evolves_list_all2 [OF poll_loop_le] device_moves
      split: option.split if_split)

interpretation code_history: append_only oauth_step codes code_le
  by unfold_locales (auto simp: code_le_def set_stays_def codes_evolve)

interpretation access_history: append_only oauth_step accessTokens access_le
  by unfold_locales (auto simp: access_le_def set_stays_def accessTokens_evolve)

interpretation refresh_history: append_only oauth_step refresh refresh_le
  by unfold_locales (auto simp: refresh_le_def set_stays_def refresh_evolve)

interpretation device_history: append_only oauth_step devices device_le
  by unfold_locales (auto intro: device_le_trans devices_evolve)

subsection \<open>One-time redemption of a device code\<close>

abbreviation known_status :: "DeviceStatus \<Rightarrow> bool" where
  "known_status s \<equiv>
     s \<in> {DevicePending, DeviceApproved, DeviceDenied, DeviceConsumed}"

definition polled :: "bytes \<times> string \<Rightarrow> DeviceAuthorization \<Rightarrow> bool" where
  "polled k d = (da_DeviceHash d = fst k \<and> da_ClientID d = snd k \<and> known_status (da_Status d))"

definition device_spent :: "bytes \<times> string \<Rightarrow> OAuthRepository \<Rightarrow> bool" where
  "device_spent k r = (case find (polled k) (devices r) of None \<Rightarrow> False
     | Some d \<Rightarrow> da_Status d = DeviceDenied \<or> da_Status d = DeviceConsumed)"

fun device_redeemed :: "bytes \<times> string \<Rightarrow> oauth_op \<Rightarrow> oauth_result \<Rightarrow> bool" where
  "device_redeemed k (OpPollDevice h c _) res = (k = (h, c) \<and> \<not> isl res)"
| "device_redeemed k _ res = False"

lemma transition_known: "device_transition\<^sup>*\<^sup>* s t \<Longrightarrow> known_status s = known_status t"
  by (induction rule: rtranclp_induct) (auto elim!: device_transition.cases)

lemma polled_le: "device_le d e \<Longrightarrow> polled k d = polled k e"
  using transition_known by (auto simp: polled_def device_le_def)

lemma device_spent_step:
  assumes "device_spent k r"
  shows "device_spent k (snd (oauth_step r op))"
proof -
  from assms obtain d where d: "find (polled k) (devices r) = Some d"
      "da_Status d = DeviceDenied \<or> da_Status d = DeviceConsumed"
    by (auto simp: device_spent_def split: option.splits)
  obtain e where "find (polled k) (devices (snd (oauth_step r op))) = Some e" "device_le d e"
    by (rule evolves_find [OF devices_evolve [of r op] polled_le d(1)])
  with d(2) show ?thesis
    by (auto simp: device_spent_def device_le_def dest: denied_final consumed_final)
qed

lemma poll_blocked:
  "find (polled (h, c)) ds = Some d \<Longrightarrow> da_Status d \<noteq> DeviceApproved \<Longrightarrow>
   isl (fst (poll_loop h c now ds))"
  by (induction ds)
    (auto simp: polled_def Let_def case_prod_beta split: if_splits option.splits)

lemma poll_success_after:
  "fst (poll_loop h c now ds) = Inr v \<Longrightarrow>
   \<exists>d. find (polled (h, c)) (snd (poll_loop h c now ds)) = Some d \<and> da_Status d = DeviceConsumed"
  by (induction ds)
    (auto simp: polled_def Let_def case_prod_beta split: if_splits option.splits)

lemma poll_loop_found:
  assumes "find (\<lambda>d. da_DeviceHash d = h \<and> da_ClientID d = c) ds = Some d"
    and "known_status (da_Status d)"
  shows "poll_loop h c now ds =
    (let early = (case da_LastPollAt d of None \<Rightarrow> False | Some l \<Rightarrow> now < l + da_Interval d);
         put = (\<lambda>d'. update_first (\<lambda>d. da_DeviceHash d = h \<and> da_ClientID d = c) (\<lambda>_. d') ds);
         seen = d\<lparr>da_LastPollAt := Some now\<rparr>
     in if da_ExpiresAt d \<le> now then (Inl ErrGrantExpired, ds)
        else if early then (Inl ErrSlowDown, put (seen\<lparr>da_Interval := da_Interval d + 5 * second\<rparr>))
        else if da_Status d = DevicePending then (Inl ErrAuthorizationPending, put seen)
        else if da_Status d = DeviceDenied then (Inl ErrAccessDenied, put seen)
        else if da_Status d = DeviceConsumed then (Inl ErrGrantConsumed, put seen)
        else (Inr (seen\<lparr>da_Status := DeviceConsumed\<rparr>), put (seen\<lparr>da_Status := DeviceConsumed\<rparr>)))"
  using assms
proof (induction ds)
  case (Cons x xs)
  then show ?case
    by (cases "da_DeviceHash x = h \<and> da_ClientID x = c") (auto simp: Let_def not_less)
qed simp

lemma not_islD: "\<not> isl x \<Longrightarrow> \<exists>v. x = Inr v"
  by (cases x) auto

lemma device_redeemed_spends:
  "device_redeemed k op (fst (oauth_step r op)) \<Longrightarrow> device_spent k (snd (oauth_step r op))"
  by (cases op; cases k)
    (auto simp: PollDeviceAuthorization_def device_spent_def case_prod_beta
      isl_map_sum
      dest!: not_islD dest: poll_success_after)

lemma device_spent_blocks: "device_spent k r \<Longrightarrow> \<not> device_redeemed k op (fst (oauth_step r op))"
  by (cases op; cases k)
    (auto simp: PollDeviceAuthorization_def device_spent_def case_prod_beta
isl_map_sum
      intro: poll_blocked split: option.splits)

interpretation device_use: single_use oauth_step "\<lambda>_ _. True" "\<lambda>_ _. True" device_spent device_redeemed
  by unfold_locales (auto intro: device_spent_step device_redeemed_spends dest: device_spent_blocks)

section \<open>Refresh token families\<close>

lemma ScopesCover_iff: "ScopesCover granted scopes = (set scopes \<subseteq> set granted)"
  by (induction scopes) auto

lemma elems_copy_slice [simp]: "elems (copy_slice s) = elems s"
  by (auto simp: copy_slice_def elems_def split: option.splits)

text \<open>Where a stored token can come from.\<close>

lemma refresh_length:
  "(\<And>v. op \<noteq> OpSaveRefresh v) \<Longrightarrow> (\<And>h repl now. op \<noteq> OpRotate h repl now) \<Longrightarrow>
   length (refresh (snd (oauth_step r op))) = length (refresh r)"
  by (cases op) (auto simp: store_defs revoke_family_def grantConsentLocked_frame Let_def
      case_prod_beta split: option.splits)

lemma access_length:
  "(\<And>v. op \<noteq> OpSaveAccess v) \<Longrightarrow>
   length (accessTokens (snd (oauth_step r op))) = length (accessTokens r)"
  by (cases op) (auto simp: store_defs revoke_family_def grantConsentLocked_frame Let_def
      case_prod_beta split: option.splits)

lemma rotated_token_fields [simp]:
  "rt_FamilyID (rotated_token u repl) = rt_FamilyID u"
  "rt_UserID (rotated_token u repl) = rt_UserID u"
  "rt_SessionID (rotated_token u repl) = rt_SessionID u"
  "rt_ClientID (rotated_token u repl) = rt_ClientID repl"
  "rt_Hash (rotated_token u repl) = rt_Hash repl"
  "rt_ExpiresAt (rotated_token u repl) = rt_ExpiresAt repl"
  by (simp_all add: rotated_token_def Let_def)

lemma rotate_outcome:
  "snd (RotateRefreshToken h repl now r) = r \<or>
   (\<exists>u. refresh_at h r = Some u \<and>
      snd (RotateRefreshToken h repl now r) = revoke_family (rt_FamilyID u) now r) \<or>
   (\<exists>u. refresh_at h r = Some u \<and> rt_ClientID u = rt_ClientID repl \<and>
      rt_consumedAt u = None \<and> rt_revokedAt u = None \<and>
      set (elems (rt_Scope (rotated_token u repl))) \<subseteq> set (elems (rt_Scope u)) \<and>
      snd (RotateRefreshToken h repl now r) =
         r\<lparr>refresh := update_first (\<lambda>t. rt_Hash t = h) (\<lambda>t. t\<lparr>rt_consumedAt := Some now\<rparr>) (refresh r) @
           [RefreshToken.extend (rotated_token u repl) \<lparr>rt_consumedAt = None, rt_revokedAt = None\<rparr>]\<rparr>)"
  by (simp add: RotateRefreshToken_def ScopesCover_iff split: option.split)

lemma rotate_origin:
  assumes "t \<in> set (refresh (snd (RotateRefreshToken h repl now r)))"
  shows "(\<exists>u \<in> set (refresh r). refresh_le u t) \<or>
    (\<exists>u. refresh_at h r = Some u \<and> rt_consumedAt u = None \<and> rt_revokedAt u = None \<and>
      rt_FamilyID t = rt_FamilyID u \<and> rt_UserID t = rt_UserID u \<and> rt_ClientID t = rt_ClientID u \<and>
      rt_SessionID t = rt_SessionID u \<and> set (elems (rt_Scope t)) \<subseteq> set (elems (rt_Scope u)))"
  using rotate_outcome [of h repl now r]
proof (elim disjE exE conjE)
  assume "snd (RotateRefreshToken h repl now r) = r"
  with assms show ?thesis by (metis record_le_refl(3))
next
  fix u assume "snd (RotateRefreshToken h repl now r) = revoke_family (rt_FamilyID u) now r"
  with assms show ?thesis
    by (intro disjI1) (auto simp: revoke_family_def record_le_defs image_iff split: if_splits)
next
  fix u assume u: "refresh_at h r = Some u" "rt_ClientID u = rt_ClientID repl"
      "rt_consumedAt u = None" "rt_revokedAt u = None"
      "set (elems (rt_Scope (rotated_token u repl))) \<subseteq> set (elems (rt_Scope u))"
    and s: "snd (RotateRefreshToken h repl now r) =
         r\<lparr>refresh := update_first (\<lambda>t. rt_Hash t = h) (\<lambda>t. t\<lparr>rt_consumedAt := Some now\<rparr>) (refresh r) @
           [RefreshToken.extend (rotated_token u repl) \<lparr>rt_consumedAt = None, rt_revokedAt = None\<rparr>]\<rparr>"
  from assms consider "t \<in> set (update_first (\<lambda>t. rt_Hash t = h) (\<lambda>t. t\<lparr>rt_consumedAt := Some now\<rparr>)
        (refresh r))"
    | "t = RefreshToken.extend (rotated_token u repl) \<lparr>rt_consumedAt = None, rt_revokedAt = None\<rparr>"
    by (auto simp: s)
  then show ?thesis
  proof cases
    case 1
    from set_update_first [OF this] have "\<exists>v \<in> set (refresh r). refresh_le v t"
      by (auto simp: record_le_defs)
    then show ?thesis by (rule disjI1)
  next
    case 2
    with u show ?thesis by (intro disjI2 exI [of _ u]) (simp add: embed_defs)
  qed
qed

lemma refresh_origin [consumes 1, case_names kept saved rotated]:
  assumes "t \<in> set (refresh (snd (oauth_step r op)))"
  obtains u where "u \<in> set (refresh r)" "refresh_le u t"
  | v where "op = OpSaveRefresh v"
      "t = RefreshToken.extend (v\<lparr>rt_Scope := copy_slice (rt_Scope v)\<rparr>)
             \<lparr>rt_consumedAt = None, rt_revokedAt = None\<rparr>"
  | h repl now u where "op = OpRotate h repl now" "refresh_at h r = Some u"
      "rt_consumedAt u = None" "rt_revokedAt u = None" "rt_FamilyID t = rt_FamilyID u"
      "rt_UserID t = rt_UserID u" "rt_ClientID t = rt_ClientID u" "rt_SessionID t = rt_SessionID u"
      "set (elems (rt_Scope t)) \<subseteq> set (elems (rt_Scope u))"
proof (cases "\<exists>v. op = OpSaveRefresh v")
  case True
  then obtain v where op: "op = OpSaveRefresh v" ..
  with assms consider "t \<in> set (refresh r)" |
    "t = RefreshToken.extend (v\<lparr>rt_Scope := copy_slice (rt_Scope v)\<rparr>)
             \<lparr>rt_consumedAt = None, rt_revokedAt = None\<rparr>"
    by (auto simp: SaveRefreshToken_def)
  then show thesis by cases (metis that(1) record_le_refl(3), metis that(2) op)
next
  case no_save: False
  show thesis
  proof (cases "\<exists>h repl now. op = OpRotate h repl now")
    case True
    then obtain h repl now where op: "op = OpRotate h repl now" by blast
    have "t \<in> set (refresh (snd (RotateRefreshToken h repl now r)))" using assms by (simp add: op)
    from rotate_origin [OF this] show thesis
      by (elim disjE bexE exE conjE) (metis that(1), metis that(3) op)
  next
    case False
    with no_save have "length (refresh (snd (oauth_step r op))) = length (refresh r)"
      by (intro refresh_length) auto
    from evolves_elem [OF refresh_evolve this assms] that(1) show thesis by blast
  qed
qed

lemma access_origin [consumes 1, case_names kept saved]:
  assumes "t \<in> set (accessTokens (snd (oauth_step r op)))"
  obtains u where "u \<in> set (accessTokens r)" "access_le u t"
  | v where "op = OpSaveAccess v" "t = AccessToken.extend v \<lparr>at_revokedAt = None\<rparr>"
proof (cases "\<exists>v. op = OpSaveAccess v")
  case True
  then obtain v where op: "op = OpSaveAccess v" ..
  with assms consider "t \<in> set (accessTokens r)" | "t = AccessToken.extend v \<lparr>at_revokedAt = None\<rparr>"
    by (auto simp: SaveAccessToken_def)
  then show thesis by cases (metis that(1) record_le_refl(2), metis that(2) op)
next
  case False
  then have "length (accessTokens (snd (oauth_step r op))) = length (accessTokens r)"
    by (intro access_length) auto
  from evolves_elem [OF accessTokens_evolve this assms] that(1) show thesis by blast
qed

definition family_dead :: "string \<Rightarrow> OAuthRepository \<Rightarrow> bool" where
  "family_dead f r =
     ((\<forall>t \<in> set (refresh r). rt_FamilyID t = f \<longrightarrow> rt_revokedAt t \<noteq> None) \<and>
      (\<forall>t \<in> set (accessTokens r). at_FamilyID t = f \<longrightarrow> at_revokedAt t \<noteq> None))"

fun saves_into_family :: "string \<Rightarrow> oauth_op \<Rightarrow> bool" where
  "saves_into_family f (OpSaveAccess v) = (at_FamilyID v = f)"
| "saves_into_family f (OpSaveRefresh v) = (rt_FamilyID v = f)"
| "saves_into_family f _ = False"

lemma revoke_family_dead: "family_dead f (revoke_family f now r)"
  by (simp add: family_dead_def revoke_family_def del: if_image_distrib)

lemma family_dead_step:
  assumes "family_dead f r" and "\<not> saves_into_family f op"
  shows "family_dead f (snd (oauth_step r op))"
  unfolding family_dead_def
proof (intro conjI ballI impI)
  fix t assume "t \<in> set (refresh (snd (oauth_step r op)))" and f: "rt_FamilyID t = f"
  then show "rt_revokedAt t \<noteq> None"
  proof (cases rule: refresh_origin)
    case (kept u)
    with f assms(1) show ?thesis
      by (auto simp: family_dead_def refresh_le_def set_stays_def embed_defs)
  next
    case (saved v)
    with f assms(2) show ?thesis by (simp add: embed_defs)
  next
    case (rotated h repl now u)
    with f assms(1) show ?thesis by (auto simp: family_dead_def dest: find_SomeD)
  qed
next
  fix t assume "t \<in> set (accessTokens (snd (oauth_step r op)))" and f: "at_FamilyID t = f"
  then show "at_revokedAt t \<noteq> None"
  proof (cases rule: access_origin)
    case (kept u)
    with f assms(1) show ?thesis
      by (auto simp: family_dead_def access_le_def set_stays_def embed_defs)
  next
    case (saved v)
    with f assms(2) show ?thesis by (simp add: embed_defs)
  qed
qed

interpretation dead_family:
  kept_by_steps oauth_step "\<lambda>op. \<not> saves_into_family f op" "family_dead f" for f
  by unfold_locales (rule family_dead_step)

lemma family_dead_finds:
  assumes "family_dead f r"
  shows "FindRefreshToken h now r = Inr t \<Longrightarrow> rt_FamilyID t \<noteq> f"
    and "FindAccessToken h now r = Inr a \<Longrightarrow> at_FamilyID a \<noteq> f"
    and "fst (RotateRefreshToken h repl now r) = Inr t \<Longrightarrow> rt_FamilyID t \<noteq> f"
  using assms
  by (auto simp: store_defs family_dead_def embed_defs Let_def
      dest!: find_SomeD split: option.splits if_splits)

lemma rotate_reuse:
  assumes "refresh_at h r = Some t" and "rt_ClientID repl = rt_ClientID t" and "refresh_spent h r"
  shows "RotateRefreshToken h repl now r = (Inl ErrRefreshReuse, revoke_family (rt_FamilyID t) now r)"
  using assms by (auto simp: RotateRefreshToken_def refresh_spent_def)

subsection \<open>What a family may carry\<close>

definition family_bound :: "string \<Rightarrow> string \<Rightarrow> string \<Rightarrow> string \<Rightarrow> string set \<Rightarrow> 'a RefreshToken_scheme \<Rightarrow> bool" where
  "family_bound f u c sid S t = (rt_FamilyID t = f \<longrightarrow>
     rt_UserID t = u \<and> rt_ClientID t = c \<and> rt_SessionID t = sid \<and> set (elems (rt_Scope t)) \<subseteq> S)"

fun saves_bound :: "string \<Rightarrow> string \<Rightarrow> string \<Rightarrow> string \<Rightarrow> string set \<Rightarrow> oauth_op \<Rightarrow> bool" where
  "saves_bound f u c sid S (OpSaveRefresh v) = family_bound f u c sid S v"
| "saves_bound f u c sid S _ = True"

lemma family_bound_step:
  assumes "\<forall>t \<in> set (refresh r). family_bound f u c sid S t" and "saves_bound f u c sid S op"
  shows "\<forall>t \<in> set (refresh (snd (oauth_step r op))). family_bound f u c sid S t"
proof
  fix t assume "t \<in> set (refresh (snd (oauth_step r op)))"
  then show "family_bound f u c sid S t"
  proof (cases rule: refresh_origin)
    case (kept t0)
    from assms(1) kept(1) have "family_bound f u c sid S t0" ..
    with refresh_le_fields [OF kept(2)] show ?thesis by (simp add: family_bound_def)
  next
    case (saved v)
    with assms(2) show ?thesis by (simp add: family_bound_def embed_defs)
  next
    case (rotated h repl now t0)
    with assms(1) have "family_bound f u c sid S t0" by (blast dest: find_SomeD)
    with rotated show ?thesis by (auto simp: family_bound_def)
  qed
qed

interpretation bound_family:
  kept_by_steps oauth_step "saves_bound f u c sid S"
    "\<lambda>r. \<forall>t \<in> set (refresh r). family_bound f u c sid S t" for f u c sid S
  by unfold_locales (rule family_bound_step)

section \<open>Codes that stay redeemable\<close>

fun touches_code :: "AuthorizationCode \<Rightarrow> oauth_op \<Rightarrow> bool" where
  "touches_code v (OpConsumeCode h _ _ _ _) = (h = ac_Hash v)"
| "touches_code v (OpRevokeSession u s _) = (ac_UserID v = u \<and> ac_SessionID v = s)"
| "touches_code v (OpRevokeUser u e _) = (ac_UserID v = u \<and> (e = [] \<or> ac_SessionID v \<noteq> e))"
| "touches_code v (OpRevokeClient c _) = (ac_ClientID v = c)"
| "touches_code v (OpDeleteConsent u c _) = (ac_UserID v = u \<and> ac_ClientID v = c)"
| "touches_code v _ = False"

abbreviation fresh_code :: "AuthorizationCode \<Rightarrow> memoryAuthorizationCode" where
  "fresh_code v \<equiv> AuthorizationCode.extend v \<lparr>ac_consumedAt = None, ac_revokedAt = None\<rparr>"

lemma fresh_code_fields [simp]:
  "ac_Hash (fresh_code v) = ac_Hash v" "ac_UserID (fresh_code v) = ac_UserID v"
  "ac_SessionID (fresh_code v) = ac_SessionID v" "ac_ClientID (fresh_code v) = ac_ClientID v"
  "ac_RedirectURI (fresh_code v) = ac_RedirectURI v"
  "ac_CodeChallenge (fresh_code v) = ac_CodeChallenge v"
  "ac_ExpiresAt (fresh_code v) = ac_ExpiresAt v"
  "ac_consumedAt (fresh_code v) = None" "ac_revokedAt (fresh_code v) = None"
  "AuthorizationCode.truncate (fresh_code v) = v"
  by (simp_all add: embed_defs)

lemma find_update_first_other:
  "(\<And>x. q (f x) = q x) \<Longrightarrow> (\<And>x. q x \<Longrightarrow> \<not> p x) \<Longrightarrow> find q (update_first p f xs) = find q xs"
  by (induction xs) auto

lemma live_code_step:
  assumes "code_at (ac_Hash v) r = Some (fresh_code v)" and "\<not> touches_code v op"
  shows "code_at (ac_Hash v) (snd (oauth_step r op)) = Some (fresh_code v)"
  using assms
  by (cases op)
    (auto simp: store_defs grantConsentLocked_frame Let_def find_append find_map case_prod_beta
      if_distrib [of ac_Hash] find_update_first_other cong: if_cong split: option.splits)

interpretation live_code:
  kept_by_steps oauth_step "\<lambda>op. \<not> touches_code v op"
    "\<lambda>r. code_at (ac_Hash v) r = Some (fresh_code v)" for v
  by unfold_locales (rule live_code_step)

section \<open>Bulk revocation\<close>

type_synonym subject_filter = "string \<Rightarrow> string \<Rightarrow> string \<Rightarrow> bool"

definition cut_off :: "subject_filter \<Rightarrow> OAuthRepository \<Rightarrow> bool" where
  "cut_off m r =
     ((\<forall>c \<in> set (codes r). m (ac_UserID c) (ac_SessionID c) (ac_ClientID c) \<longrightarrow> ac_revokedAt c \<noteq> None) \<and>
      (\<forall>t \<in> set (accessTokens r). m (at_UserID t) (at_SessionID t) (at_ClientID t) \<longrightarrow>
         at_revokedAt t \<noteq> None) \<and>
      (\<forall>t \<in> set (refresh r). m (rt_UserID t) (rt_SessionID t) (rt_ClientID t) \<longrightarrow>
         rt_revokedAt t \<noteq> None))"

fun issues :: "subject_filter \<Rightarrow> oauth_op \<Rightarrow> bool" where
  "issues m (OpSaveCode v) = m (ac_UserID v) (ac_SessionID v) (ac_ClientID v)"
| "issues m (OpSaveAccess v) = m (at_UserID v) (at_SessionID v) (at_ClientID v)"
| "issues m (OpSaveRefresh v) = m (rt_UserID v) (rt_SessionID v) (rt_ClientID v)"
| "issues m _ = False"

text \<open>Whose grants a revoking call withdraws.\<close>

fun revocation_filter :: "oauth_op \<Rightarrow> subject_filter option" where
  "revocation_filter (OpRevokeSession u s _) = Some (\<lambda>u' s' _. u' = u \<and> s' = s)"
| "revocation_filter (OpRevokeUser u e _) = Some (\<lambda>u' s' _. u' = u \<and> (e = [] \<or> s' \<noteq> e))"
| "revocation_filter (OpRevokeClient c _) = Some (\<lambda>_ _ c'. c' = c)"
| "revocation_filter (OpDeleteConsent u c _) = Some (\<lambda>u' _ c'. u' = u \<and> c' = c)"
| "revocation_filter _ = None"

lemma deny_devices_frame [simp]:
  "codes (deny_devices p r) = codes r" "accessTokens (deny_devices p r) = accessTokens r"
  "refresh (deny_devices p r) = refresh r"
  by (simp_all add: deny_devices_def)

lemma cut_off_deny [simp]: "cut_off m (deny_devices p r) = cut_off m r"
  by (simp add: cut_off_def)

lemma cut_off_revoked: "cut_off m (revokeMatchingTokens m now r)"
  by (auto simp: cut_off_def revokeMatchingTokens_def simp del: if_image_distrib)

lemma revocation_cuts_off:
  assumes "revocation_filter op = Some m" and "\<not> isl (fst (oauth_step r op))"
  shows "cut_off m (snd (oauth_step r op))"
  using assms
  by (cases op)
    (auto simp: RevokeSessionTokens_def RevokeUserTokens_def RevokeClientTokens_def
      DeleteConsent_def cut_off_revoked split: option.splits)

lemma code_length:
  "(\<And>v. op \<noteq> OpSaveCode v) \<Longrightarrow> length (codes (snd (oauth_step r op))) = length (codes r)"
  by (cases op) (auto simp: store_defs revoke_family_def grantConsentLocked_frame Let_def
      case_prod_beta split: option.splits)

lemma code_origin [consumes 1, case_names kept saved]:
  assumes "c \<in> set (codes (snd (oauth_step r op)))"
  obtains d where "d \<in> set (codes r)" "code_le d c"
  | v where "op = OpSaveCode v" "c = fresh_code v"
proof (cases "\<exists>v. op = OpSaveCode v")
  case True
  then obtain v where op: "op = OpSaveCode v" ..
  with assms consider "c \<in> set (codes r)" | "c = fresh_code v"
    by (auto simp: SaveAuthorizationCode_def)
  then show thesis by cases (metis that(1) record_le_refl(1), metis that(2) op)
next
  case False
  then have "length (codes (snd (oauth_step r op))) = length (codes r)"
    by (intro code_length) auto
  from evolves_elem [OF codes_evolve this assms] that(1) show thesis by blast
qed

lemma cut_off_step:
  assumes "cut_off m r" and "\<not> issues m op"
  shows "cut_off m (snd (oauth_step r op))"
  unfolding cut_off_def
proof (intro conjI ballI impI)
  fix c assume "c \<in> set (codes (snd (oauth_step r op)))"
    and m: "m (ac_UserID c) (ac_SessionID c) (ac_ClientID c)"
  then show "ac_revokedAt c \<noteq> None"
  proof (cases rule: code_origin)
    case (kept d)
    with m assms(1) show ?thesis by (auto simp: cut_off_def code_le_def set_stays_def embed_defs)
  next
    case (saved v)
    with m assms(2) show ?thesis by simp
  qed
next
  fix t assume "t \<in> set (accessTokens (snd (oauth_step r op)))"
    and m: "m (at_UserID t) (at_SessionID t) (at_ClientID t)"
  then show "at_revokedAt t \<noteq> None"
  proof (cases rule: access_origin)
    case (kept u)
    with m assms(1) show ?thesis by (auto simp: cut_off_def access_le_def set_stays_def embed_defs)
  next
    case (saved v)
    with m assms(2) show ?thesis by (simp add: embed_defs)
  qed
next
  fix t assume "t \<in> set (refresh (snd (oauth_step r op)))"
    and m: "m (rt_UserID t) (rt_SessionID t) (rt_ClientID t)"
  then show "rt_revokedAt t \<noteq> None"
  proof (cases rule: refresh_origin)
    case (kept u)
    with m assms(1) show ?thesis by (auto simp: cut_off_def refresh_le_def set_stays_def embed_defs)
  next
    case (saved v)
    with m assms(2) show ?thesis by (simp add: embed_defs)
  next
    case (rotated h repl now u)
    with m assms(1) show ?thesis by (auto simp: cut_off_def dest: find_SomeD)
  qed
qed

interpretation withdrawn: kept_by_steps oauth_step "\<lambda>op. \<not> issues m op" "cut_off m" for m
  by unfold_locales (rule cut_off_step)

lemma cut_off_finds:
  assumes "cut_off m r"
  shows "fst (ConsumeAuthorizationCode h c uri ch now r) = Inr v \<Longrightarrow>
           \<not> m (ac_UserID v) (ac_SessionID v) (ac_ClientID v)"
    and "FindAccessToken h now r = Inr a \<Longrightarrow> \<not> m (at_UserID a) (at_SessionID a) (at_ClientID a)"
    and "FindRefreshToken h now r = Inr t \<Longrightarrow> \<not> m (rt_UserID t) (rt_SessionID t) (rt_ClientID t)"
    and "fst (RotateRefreshToken h repl now r) = Inr t \<Longrightarrow>
           \<not> m (rt_UserID t) (rt_SessionID t) (rt_ClientID t)"
  using assms
  by (auto simp: store_defs cut_off_def embed_defs Let_def
      dest!: find_SomeD split: option.splits if_splits)

section \<open>Consents\<close>

abbreviation consent_key :: "Consent \<Rightarrow> string \<times> string" where
  "consent_key c \<equiv> (co_UserID c, co_ClientID c)"

text \<open>One record per user and client, its scopes sorted and without duplicates.\<close>

definition consents_ok :: "OAuthRepository \<Rightarrow> bool" where
  "consents_ok r = (distinct (map consent_key (consents r)) \<and>
     (\<forall>c \<in> set (consents r). sorted (co_Scopes c) \<and> distinct (co_Scopes c)))"

lemma merge_loop_set: "set (merge_loop result scopes) = set result \<union> set scopes"
  by (induction result scopes rule: merge_loop.induct) auto

lemma merge_loop_distinct: "distinct result \<Longrightarrow> distinct (merge_loop result scopes)"
  by (induction result scopes rule: merge_loop.induct) auto

lemma mergeScopes_set [simp]: "set (mergeScopes current requested) = set current \<union> set requested"
  by (simp add: mergeScopes_def merge_loop_set)

lemma mergeScopes_ok: "distinct current \<Longrightarrow> sorted (mergeScopes current requested) \<and>
    distinct (mergeScopes current requested)"
  by (simp add: mergeScopes_def merge_loop_distinct)

lemma remove_first_props:
  "set (remove_first p xs) \<subseteq> set xs"
  "distinct (map f xs) \<Longrightarrow> distinct (map f (remove_first p xs))"
  by (induction xs) (auto simp: subset_iff image_iff)

lemma grantConsentLocked_ok:
  assumes "consents_ok r"
  shows "consents_ok (snd (grantConsentLocked u c ss now r))"
proof (cases "find (\<lambda>x. co_UserID x = u \<and> co_ClientID x = c) (consents r)")
  case None
  then show ?thesis using assms mergeScopes_ok [of "[]" ss]
    by (auto simp: grantConsentLocked_def consents_ok_def Let_def dest: find_NoneD)
next
  case (Some x)
  let ?x = "x\<lparr>co_Scopes := mergeScopes (co_Scopes x) ss, co_UpdatedAt := now\<rparr>"
  let ?p = "\<lambda>x. co_UserID x = u \<and> co_ClientID x = c"
  have keys: "map consent_key (update_first ?p (\<lambda>_. ?x) xs) = map consent_key xs" for xs
    using find_SomeD [OF Some] by (induction xs) auto
  have ok: "sorted (co_Scopes ?x) \<and> distinct (co_Scopes ?x)"
    using assms find_SomeD [OF Some] mergeScopes_ok by (simp add: consents_ok_def)
  have "\<forall>y \<in> set (update_first ?p (\<lambda>_. ?x) (consents r)). sorted (co_Scopes y) \<and> distinct (co_Scopes y)"
    using assms ok by (auto simp: consents_ok_def dest!: set_update_first)
  with assms keys show ?thesis by (simp add: grantConsentLocked_def consents_ok_def Some Let_def)
qed

lemma consents_frame:
  "consents (deny_devices p r) = consents r"
  "consents (revokeMatchingTokens m now r) = consents r"
  by (simp_all add: deny_devices_def revokeMatchingTokens_def)

lemma consents_ok_cong: "consents r' = consents r \<Longrightarrow> consents_ok r \<Longrightarrow> consents_ok r'"
  by (simp add: consents_ok_def)

lemma consents_ok_devices [simp]: "consents_ok (r\<lparr>devices := ds\<rparr>) = consents_ok r"
  by (simp add: consents_ok_def)

lemma consents_ok_remove:
  assumes "consents_ok r"
  shows "consents_ok (r\<lparr>consents := remove_first p (consents r)\<rparr>)"
proof -
  have "\<forall>x \<in> set (remove_first p (consents r)). sorted (co_Scopes x) \<and> distinct (co_Scopes x)"
    using assms remove_first_props(1) [of p "consents r"] unfolding consents_ok_def by blast
  moreover have "distinct (map consent_key (remove_first p (consents r)))"
    using assms unfolding consents_ok_def by (blast intro: remove_first_props(2))
  ultimately show ?thesis unfolding consents_ok_def by simp
qed

lemma DeleteConsent_ok: "consents_ok r \<Longrightarrow> consents_ok (snd (DeleteConsent u c now r))"
  unfolding DeleteConsent_def
  by (auto split: option.split intro: consents_ok_cong [OF _ consents_ok_remove] simp: consents_frame)

fun consent_op :: "oauth_op \<Rightarrow> bool" where
  "consent_op (OpGrantConsent _ _ _ _) = True"
| "consent_op (OpDeleteConsent _ _ _) = True"
| "consent_op (OpDecideDevice _ _ _ _ _ _ _) = True"
| "consent_op _ = False"

lemma consents_unchanged: "\<not> consent_op op \<Longrightarrow> consents (snd (oauth_step r op)) = consents r"
  by (cases op) (auto simp: store_defs Let_def case_prod_beta split: option.split)

lemma DecideDevice_ok:
  "consents_ok r \<Longrightarrow> consents_ok (snd (DecideDeviceAuthorization h u at ms al ok now r))"
  by (simp add: DecideDeviceAuthorization_def Let_def grantConsentLocked_ok split: option.split)

lemma consents_ok_step:
  assumes "consents_ok r"
  shows "consents_ok (snd (oauth_step r op))"
proof (cases "consent_op op")
  case True
  with assms show ?thesis
    by (cases op) (simp_all add: GrantConsent_def case_prod_beta grantConsentLocked_ok
        DeleteConsent_ok DecideDevice_ok)
next
  case False
  from consents_ok_cong [OF consents_unchanged [OF False] assms] show ?thesis .
qed

interpretation consent_book: kept_by_steps oauth_step "\<lambda>_. True" consents_ok
  by unfold_locales (rule consents_ok_step)

lemma consents_ok_reachable: "consents_ok (final oauth_step OAuth_NewMemoryRepository ops)"
  by (rule consent_book.kept_final)
    (simp_all add: consents_ok_def OAuth_NewMemoryRepository_def list_all_iff)

lemma grantConsent_find:
  "FindConsent u' c' (snd (grantConsentLocked u c ss now r)) =
     (if u' = u \<and> c' = c then Inr (fst (grantConsentLocked u c ss now r)) else FindConsent u' c' r)"
proof (cases "find (\<lambda>x. co_UserID x = u \<and> co_ClientID x = c) (consents r)")
  case None
  then show ?thesis
    by (auto simp: grantConsentLocked_def FindConsent_def find_append Let_def split: option.split)
next
  case (Some x)
  have "find (\<lambda>x. co_UserID x = u' \<and> co_ClientID x = c')
          (update_first (\<lambda>x. co_UserID x = u \<and> co_ClientID x = c) (\<lambda>_. y) xs) =
        (if u' = u \<and> c' = c then Some y else find (\<lambda>x. co_UserID x = u' \<and> co_ClientID x = c') xs)"
    if "find (\<lambda>x. co_UserID x = u \<and> co_ClientID x = c) xs = Some x" "co_UserID y = u" "co_ClientID y = c"
    for xs y
    using that by (induction xs) (auto split: if_splits)
  from this [OF Some] find_SomeD [OF Some] Some show ?thesis
    by (simp add: grantConsentLocked_def FindConsent_def Let_def)
qed

lemma remove_first_find_None:
  "distinct (map consent_key xs) \<Longrightarrow>
   find (\<lambda>c. co_UserID c = u \<and> co_ClientID c = cl)
     (remove_first (\<lambda>c. co_UserID c = u \<and> co_ClientID c = cl) xs) = None"
  by (induction xs) (auto simp: find_None_iff image_iff)

lemma find_remove_first_other:
  "(u', c') \<noteq> (u, c) \<Longrightarrow>
   find (\<lambda>x. co_UserID x = u' \<and> co_ClientID x = c')
     (remove_first (\<lambda>x. co_UserID x = u \<and> co_ClientID x = c) xs) =
   find (\<lambda>x. co_UserID x = u' \<and> co_ClientID x = c') xs"
  by (induction xs) auto

section \<open>A worked scenario\<close>

text \<open>A small repository on which the properties are exercised.\<close>

definition demo_code :: AuthorizationCode where
  "demo_code = \<lparr>ac_Hash = [1], ac_ClientID = ''web'', ac_UserID = ''u1'', ac_SessionID = ''s1'',
     ac_RedirectURI = ''https://app/cb'', ac_Scope = [''openid''], ac_Nonce = ''n'',
     ac_CodeChallenge = ''ch'', ac_AuthenticatedAt = 5, ac_AuthMethods = [''pwd''],
     ac_AssuranceLevel = ''aal1'', ac_CreatedAt = 10, ac_ExpiresAt = 100\<rparr>"

definition demo_refresh :: RefreshToken where
  "demo_refresh = \<lparr>rt_Hash = [2], rt_FamilyID = ''f1'', rt_ClientID = ''web'', rt_UserID = ''u1'',
     rt_SessionID = ''s1'', rt_Scope = Some [''openid'', ''email''], rt_IssuedAt = 10,
     rt_ExpiresAt = 1000\<rparr>"

definition demo_access :: AccessToken where
  "demo_access = \<lparr>at_Hash = [3], at_ClientID = ''web'', at_UserID = ''u1'', at_SessionID = ''s1'',
     at_FamilyID = ''f1'', at_Scope = [''openid''], at_IssuedAt = 10, at_ExpiresAt = 200\<rparr>"

definition demo_device :: DeviceAuthorization where
  "demo_device = \<lparr>da_DeviceHash = [4], da_UserHash = [5], da_ClientID = ''tv'', da_UserID = [],
     da_Scope = [''openid''], da_Status = DevicePending, da_AuthenticatedAt = 0, da_AuthMethods = [],
     da_AssuranceLevel = [], da_CreatedAt = 10, da_ExpiresAt = 500000000000,
     da_Interval = 5 * second, da_LastPollAt = None\<rparr>"

definition demo_repository :: OAuthRepository where
  "demo_repository = final oauth_step OAuth_NewMemoryRepository
     [OpSaveRefresh demo_refresh, OpSaveAccess demo_access, OpSaveDevice demo_device,
      OpGrantConsent ''u1'' ''web'' [''openid'', ''email''] 10,
      OpRotate [2] (demo_refresh\<lparr>rt_Hash := [6], rt_Scope := None\<rparr>) 20]"

section \<open>Properties\<close>

text \<open>In every run of repository calls, from every repository, at most one
  \<open>ConsumeAuthorizationCode\<close> call for a given code hash succeeds.\<close>
lemma authorization_code_redeemed_at_most_once:
  "occurrences (code_redeemed h) oauth_step r ops \<le> 1"
  by (rule code_use.redeemed_at_most_once) (simp_all add: list_all_iff)

text \<open>A saved authorization code whose hash is new stays redeemable: whatever other calls run in
  between, as long as none redeems it or revokes its session, user, client or consent, the client
  that presents the right redirect URI and code challenge before the expiry gets exactly the grant
  that was saved.\<close>
lemma authorization_code_redeemable:
  assumes "code_at (ac_Hash v) r = None"
    and "list_all (\<lambda>op. \<not> touches_code v op) ops"
    and "now < ac_ExpiresAt v"
  shows "fst (ConsumeAuthorizationCode (ac_Hash v) (ac_ClientID v) (ac_RedirectURI v)
           (ac_CodeChallenge v) now (final oauth_step (snd (SaveAuthorizationCode v r)) ops)) = Inr v"
proof -
  have "code_at (ac_Hash v) (snd (SaveAuthorizationCode v r)) = Some (fresh_code v)"
    using assms(1) by (simp add: SaveAuthorizationCode_def find_append)
  from live_code.kept_final [OF this assms(2)] assms(3) show ?thesis
    by (simp add: ConsumeAuthorizationCode_def)
qed

text \<open>In every run at most one rotation of a given refresh token succeeds.\<close>
lemma refresh_token_rotated_at_most_once:
  "occurrences (refresh_rotated h) oauth_step r ops \<le> 1"
  by (rule refresh_use.redeemed_at_most_once) (simp_all add: list_all_iff)





text \<open>C18: Bulk revocation is complete and lasting: once a session, a user, a client or a consent has
  been revoked, no code, access token or refresh token it covers can be consumed, found or rotated
  by any later call, unless one is newly issued to that subject.\<close>
theorem bulk_revocation_is_lasting:
  assumes "revocation_filter op = Some m" and "\<not> isl (fst (oauth_step r op))"
    and "list_all (\<lambda>op. \<not> issues m op) ops"
  shows "let r' = final oauth_step (snd (oauth_step r op)) ops in
      (\<forall>h c uri ch now v. fst (ConsumeAuthorizationCode h c uri ch now r') = Inr v \<longrightarrow>
         \<not> m (ac_UserID v) (ac_SessionID v) (ac_ClientID v)) \<and>
      (\<forall>h now a. FindAccessToken h now r' = Inr a \<longrightarrow>
         \<not> m (at_UserID a) (at_SessionID a) (at_ClientID a)) \<and>
      (\<forall>h now t. FindRefreshToken h now r' = Inr t \<longrightarrow>
         \<not> m (rt_UserID t) (rt_SessionID t) (rt_ClientID t)) \<and>
      (\<forall>h repl now t. fst (RotateRefreshToken h repl now r') = Inr t \<longrightarrow>
         \<not> m (rt_UserID t) (rt_SessionID t) (rt_ClientID t))"
  unfolding Let_def
  using cut_off_finds [OF withdrawn.kept_final [OF revocation_cuts_off [OF assms(1,2)] assms(3)]]
  by blast

theorem bulk_revocation_is_lasting_witness:
  "FindAccessToken [3] 60 (final oauth_step (snd (oauth_step demo_repository
     (OpRevokeSession ''u1'' ''s1'' 50))) [OpSaveCode (demo_code\<lparr>ac_SessionID := ''s2''\<rparr>)])
   \<noteq> Inr demo_access"
proof -
  have ok: "\<not> isl (fst (oauth_step demo_repository (OpRevokeSession ''u1'' ''s1'' 50)))"
    "list_all (\<lambda>op. \<not> issues (\<lambda>u' s' _. u' = ''u1'' \<and> s' = ''s1'') op)
       [OpSaveCode (demo_code\<lparr>ac_SessionID := ''s2''\<rparr>)]"
    by code_simp+
  have "revocation_filter (OpRevokeSession ''u1'' ''s1'' 50) =
      Some (\<lambda>u' s' _. u' = ''u1'' \<and> s' = ''s1'')" by simp
  moreover have "at_UserID demo_access = ''u1''" "at_SessionID demo_access = ''s1''"
    by code_simp+
  ultimately show ?thesis
    using bulk_revocation_is_lasting [OF _ ok] unfolding Let_def by blast
qed

text \<open>A device authorization only ever moves along pending, approved or denied, consumed, keeps
  its codes, client, scope and expiry, and its polling interval never shrinks; denied and consumed
  are final. This holds between any two points of any run.\<close>
lemma device_authorization_lifecycle:
  assumes "i < length (devices r)"
  shows "i < length (devices (final oauth_step r ops)) \<and>
    device_le (devices r ! i) (devices (final oauth_step r ops) ! i)"
proof -
  obtain ds es where "devices (final oauth_step r ops) = ds @ es" "list_all2 device_le (devices r) ds"
    using device_history.evolves_final [of r ops] by (auto simp: evolves_def)
  with assms show ?thesis by (simp add: list_all2_conv_all_nth nth_append)
qed

text \<open>In every run a device code is exchanged successfully at most once.\<close>
lemma device_code_redeemed_at_most_once:
  "occurrences (device_redeemed (h, c)) oauth_step r ops \<le> 1"
  by (rule device_use.redeemed_at_most_once) (simp_all add: list_all_iff)

text \<open>A poll succeeds only for an unexpired authorization of that client which a user approved
  and which was not polled within its interval; the record is then marked consumed. A poll that is
  too early is answered with \<open>ErrSlowDown\<close> and lengthens the interval by five seconds.\<close>
lemma device_poll_outcome:
  assumes "find (\<lambda>d. da_DeviceHash d = h \<and> da_ClientID d = c) (devices r) = Some d"
    and "known_status (da_Status d)"
  shows "PollDeviceAuthorization h c now r =
    (let early = (case da_LastPollAt d of None \<Rightarrow> False | Some l \<Rightarrow> now < l + da_Interval d);
         put = (\<lambda>d'. r\<lparr>devices := update_first (\<lambda>d. da_DeviceHash d = h \<and> da_ClientID d = c)
                                  (\<lambda>_. d') (devices r)\<rparr>);
         seen = d\<lparr>da_LastPollAt := Some now\<rparr>
     in if da_ExpiresAt d \<le> now then (Inl ErrGrantExpired, r)
        else if early then (Inl ErrSlowDown, put (seen\<lparr>da_Interval := da_Interval d + 5 * second\<rparr>))
        else if da_Status d = DevicePending then (Inl ErrAuthorizationPending, put seen)
        else if da_Status d = DeviceDenied then (Inl ErrAccessDenied, put seen)
        else if da_Status d = DeviceConsumed then (Inl ErrGrantConsumed, put seen)
        else (Inr (seen\<lparr>da_Status := DeviceConsumed\<rparr>), put (seen\<lparr>da_Status := DeviceConsumed\<rparr>)))"
  using poll_loop_found [OF assms] by (simp add: PollDeviceAuthorization_def Let_def)

text \<open>Granting consent merges: afterwards the consent of that user and client is found with
  exactly the union of the scopes granted before and now, in sorted order without duplicates, so it
  covers precisely the subsets of that union; every other consent is unchanged.\<close>
lemma consent_grant_merges:
  assumes "r = final oauth_step OAuth_NewMemoryRepository ops"
  shows "let r' = snd (GrantConsent u c ss now r);
             old = (case FindConsent u c r of Inl _ \<Rightarrow> {} | Inr x \<Rightarrow> set (co_Scopes x)) in
    (\<exists>x. FindConsent u c r' = Inr x \<and> set (co_Scopes x) = old \<union> set ss \<and>
       sorted (co_Scopes x) \<and> distinct (co_Scopes x) \<and> co_UpdatedAt x = now \<and>
       (\<forall>want. Covers x want = (set want \<subseteq> old \<union> set ss))) \<and>
    (\<forall>u' c'. (u', c') \<noteq> (u, c) \<longrightarrow> FindConsent u' c' r' = FindConsent u' c' r)"
proof -
  let ?x = "fst (grantConsentLocked u c ss now r)"
  have ok: "consents_ok r" using consents_ok_reachable assms by simp
  have "FindConsent u c (snd (grantConsentLocked u c ss now r)) = Inr ?x"
    by (simp add: grantConsent_find)
  then have "find (\<lambda>x. co_UserID x = u \<and> co_ClientID x = c)
      (consents (snd (grantConsentLocked u c ss now r))) = Some ?x"
    by (simp add: FindConsent_def split: option.splits)
  then have sd: "sorted (co_Scopes ?x) \<and> distinct (co_Scopes ?x)"
    using grantConsentLocked_ok [OF ok] by (auto simp: consents_ok_def dest: find_SomeD)
  have sc: "set (co_Scopes ?x) =
      (case FindConsent u c r of Inl _ \<Rightarrow> {} | Inr x \<Rightarrow> set (co_Scopes x)) \<union> set ss \<and> co_UpdatedAt ?x = now"
    by (simp add: grantConsentLocked_def FindConsent_def Let_def split: option.split)
  have cov: "\<forall>want. Covers ?x want = (set want \<subseteq> set (co_Scopes ?x))"
    by (simp add: Covers_def ScopesCover_iff)
  show ?thesis
    unfolding Let_def GrantConsent_def snd_case_prod_pair grantConsent_find
    using sd sc cov by simp
qed

text \<open>Deleting a consent removes it: it is not found afterwards, and a second deletion reports
  \<open>ErrConsentNotFound\<close>; other consents are unaffected.\<close>
lemma consent_delete_removes:
  assumes "r = final oauth_step OAuth_NewMemoryRepository ops"
  shows "let r' = snd (DeleteConsent u c now r) in
    FindConsent u c r' = Inl ErrConsentNotFound \<and> DeleteConsent u c now' r' = (Inl ErrConsentNotFound, r') \<and>
    (\<forall>u' c'. (u', c') \<noteq> (u, c) \<longrightarrow> FindConsent u' c' r' = FindConsent u' c' r)"
proof -
  have "distinct (map consent_key (consents r))"
    using consents_ok_reachable assms by (simp add: consents_ok_def)
  note gone = remove_first_find_None [OF this, of u c]
  define r' where "r' = snd (DeleteConsent u c now r)"
  have found: "find (\<lambda>x. co_UserID x = u \<and> co_ClientID x = c) (consents r') = None"
    by (auto simp: r'_def DeleteConsent_def consents_frame gone split: option.split)
  have other: "find (\<lambda>x. co_UserID x = u' \<and> co_ClientID x = c') (consents r') =
      find (\<lambda>x. co_UserID x = u' \<and> co_ClientID x = c') (consents r)" if "(u', c') \<noteq> (u, c)" for u' c'
    by (simp add: r'_def DeleteConsent_def consents_frame find_remove_first_other [OF that]
        split: option.split)
  show ?thesis
    unfolding Let_def r'_def [symmetric]
    using found other by (simp add: DeleteConsent_def FindConsent_def)
qed

end
