(* ===== verification/Go_Encoding.thy ===== *)
theory Go_Encoding
  imports Certus_Prelude
begin

text \<open>
  The text encodings of Go's standard library that the program uses, with their round trips:
  \<open>base64.RawURLEncoding\<close>, \<open>base64.RawStdEncoding\<close> and the decoder of
  \<open>base64.StdEncoding\<close>, the unpadded \<open>base32\<close> encoder, \<open>hex\<close>, decimal integers of
  \<open>strconv\<close>; and the token helpers of \<open>internal/security/token.go\<close> built on them.
  Random bytes are an argument; \<open>None\<close> stands for an error of \<open>crypto/rand\<close>.
\<close>

section \<open>Groups of bits\<close>

fun to_bits :: "nat \<Rightarrow> nat \<Rightarrow> bool list" where
  "to_bits 0 x = []"
| "to_bits (Suc n) x = odd (x div 2 ^ n) # to_bits n x"

fun of_bits :: "bool list \<Rightarrow> nat" where
  "of_bits [] = 0"
| "of_bits (b # bs) = (if b then 2 ^ length bs else 0) + of_bits bs"

lemma length_to_bits [simp]: "length (to_bits n x) = n"
  by (induction n) auto

lemma of_bits_less: "of_bits bs < 2 ^ length bs"
  by (induction bs) auto

lemma of_bits_to_bits: "of_bits (to_bits n x) = x mod 2 ^ n"
proof (induction n)
  case 0
  then show ?case by simp
next
  case (Suc n)
  have "x mod 2 ^ Suc n = 2 ^ n * (x div 2 ^ n mod 2) + x mod 2 ^ n"
    by (metis mod_mult2_eq mult.commute power_Suc)
  with Suc show ?case by (simp add: odd_iff_mod_2_eq_one)
qed

lemma to_bits_add_high: "n \<le> m \<Longrightarrow> to_bits n (2 ^ m * k + x) = to_bits n x"
proof (induction n)
  case (Suc n)
  then obtain j where m: "m = n + Suc j" by (metis Suc_le_D add_Suc_right le_Suc_ex add_Suc)
  have "(2 ^ m * k + x) div 2 ^ n = 2 ^ Suc j * k + x div 2 ^ n"
    by (simp add: m power_add mult.assoc mult.left_commute [of _ "2 ^ n"])
  then show ?case using Suc by simp
qed simp

lemma to_bits_of_bits: "length bs = n \<Longrightarrow> to_bits n (of_bits bs) = bs"
proof (induction bs arbitrary: n)
  case (Cons b bs)
  let ?l = "length bs"
  have rest: "to_bits ?l (of_bits bs) = bs" by (rule Cons.IH) simp
  have small: "of_bits bs < 2 ^ ?l" by (rule of_bits_less)
  have "to_bits ?l ((if b then 2 ^ ?l else 0) + of_bits bs) = bs"
    using to_bits_add_high [of ?l ?l 1 "of_bits bs"] rest by simp
  moreover have "((if b then 2 ^ ?l else 0) + of_bits bs) div 2 ^ ?l = (if b then 1 else 0)"
    using small by (cases b) (simp_all add: div_add_self1)
  ultimately show ?case using Cons.prems by auto
qed simp

function chunks :: "nat \<Rightarrow> 'a list \<Rightarrow> 'a list list" where
  "chunks k xs = (if xs = [] \<or> k = 0 then [] else take k xs # chunks k (drop k xs))"
  by auto
termination by (relation "measure (\<lambda>(k, xs). length xs)") auto

declare chunks.simps [simp del]

lemma chunks_Nil [simp]: "chunks k [] = []"
  by (simp add: chunks.simps)

text \<open>The groups of \<open>k\<close> bits, the last one filled up with zeros.\<close>

definition groups :: "nat \<Rightarrow> bool list \<Rightarrow> nat list" where
  "groups k bs = map (\<lambda>g. of_bits (g @ replicate (k - length g) False)) (chunks k bs)"

lemma groups_unfold: "0 < k \<Longrightarrow> bs \<noteq> [] \<Longrightarrow>
  groups k bs = of_bits (take k bs @ replicate (k - length bs) False) # groups k (drop k bs)"
  unfolding groups_def
  by (subst chunks.simps) (simp add: min_def)

lemma groups_Nil [simp]: "groups k [] = []"
  by (simp add: groups_def)

lemma groups_less: "x \<in> set (groups k bs) \<Longrightarrow> 0 < k \<Longrightarrow> x < 2 ^ k"
proof (induction "length bs" arbitrary: bs rule: less_induct)
  case less
  show ?case
  proof (cases "bs = []")
    case False
    have "of_bits (take k bs @ replicate (k - length bs) False) < 2 ^ k"
      using of_bits_less [of "take k bs @ replicate (k - length bs) False"]
      by (cases "k \<le> length bs") (simp_all add: min_def split: if_splits)
    moreover have "x < 2 ^ k" if "x \<in> set (groups k (drop k bs))"
      using less.hyps [OF _ that] less.prems(2) False by simp
    ultimately show ?thesis using less.prems False by (auto simp: groups_unfold)
  qed (use less in simp)
qed

lemma bits_groups:
  "0 < k \<Longrightarrow> \<exists>n. concat (map (to_bits k) (groups k bs)) = bs @ replicate n False \<and> n < k \<and>
     length bs + n = k * length (groups k bs)"
proof (induction "length bs" arbitrary: bs rule: less_induct)
  case less
  show ?case
  proof (cases "length bs \<le> k")
    case True
    show ?thesis
    proof (cases "bs = []")
      case True
      with \<open>0 < k\<close> show ?thesis by simp
    next
      case False
      with True \<open>0 < k\<close> show ?thesis
        by (intro exI [of _ "k - length bs"])
          (simp add: groups_unfold to_bits_of_bits)
    qed
  next
    case False
    then have ne: "bs \<noteq> []" and dec: "length (drop k bs) < length bs" using \<open>0 < k\<close> by auto
    from less.hyps [OF dec \<open>0 < k\<close>] obtain n where
      n: "concat (map (to_bits k) (groups k (drop k bs))) = drop k bs @ replicate n False" "n < k"
        "length (drop k bs) + n = k * length (groups k (drop k bs))" by blast
    have "to_bits k (of_bits (take k bs)) = take k bs"
      using False by (intro to_bits_of_bits) simp
    then have "concat (map (to_bits k) (groups k bs)) = bs @ replicate n False"
      using False ne \<open>0 < k\<close> n(1) by (simp add: groups_unfold flip: append_assoc)
    moreover have "length bs + n = k * length (groups k bs)"
      using False ne \<open>0 < k\<close> n(3) by (simp add: groups_unfold)
    ultimately show ?thesis using n(2) by blast
  qed
qed

definition byte_bits :: "bytes \<Rightarrow> bool list" where
  "byte_bits b = concat (map (\<lambda>w. to_bits 8 (unat w)) b)"

fun bits_bytes :: "bool list \<Rightarrow> bytes" where
  "bits_bytes (b0 # b1 # b2 # b3 # b4 # b5 # b6 # b7 # bs) =
     of_nat (of_bits [b0, b1, b2, b3, b4, b5, b6, b7]) # bits_bytes bs"
| "bits_bytes _ = []"

lemma length_byte_bits [simp]: "length (byte_bits b) = 8 * length b"
  by (induction b) (auto simp: byte_bits_def)

lemma list8_split: "length xs = 8 \<Longrightarrow> \<exists>a b c d e f g h. xs = [a, b, c, d, e, f, g, h]"
  by (simp add: numeral_eq_Suc length_Suc_conv) blast

lemma bits_bytes_append8: "length g = 8 \<Longrightarrow> bits_bytes (g @ bs) = of_nat (of_bits g) # bits_bytes bs"
  by (drule list8_split) auto

lemma bits_bytes_short: "length bs < 8 \<Longrightarrow> bits_bytes bs = []"
  by (cases bs rule: bits_bytes.cases) auto

lemma bits_bytes_byte_bits: "length zs < 8 \<Longrightarrow> bits_bytes (byte_bits b @ zs) = b"
proof (induction b)
  case Nil
  then show ?case by (simp add: byte_bits_def bits_bytes_short)
next
  case (Cons w b)
  have "unat w < 2 ^ 8" using unsigned_less [of w] by simp
  then have "(of_nat (of_bits (to_bits 8 (unat w))) :: 8 word) = w"
    by (simp add: of_bits_to_bits del: to_bits.simps)
  with Cons show ?case
    by (simp add: byte_bits_def bits_bytes_append8 del: to_bits.simps bits_bytes.simps)
qed

section \<open>Base64 and base32\<close>

definition url_alphabet :: string where
  "url_alphabet = ''ABCDEFGHIJKLMNOPQRSTUVWXYZabcdefghijklmnopqrstuvwxyz0123456789-_''"

definition std_alphabet :: string where
  "std_alphabet = ''ABCDEFGHIJKLMNOPQRSTUVWXYZabcdefghijklmnopqrstuvwxyz0123456789+/''"

definition base32_alphabet :: string where
  "base32_alphabet = ''ABCDEFGHIJKLMNOPQRSTUVWXYZ234567''"

definition raw_encode :: "nat \<Rightarrow> string \<Rightarrow> bytes \<Rightarrow> string" where
  "raw_encode k alphabet b = map (\<lambda>i. alphabet ! i) (groups k (byte_bits b))"

fun index_of :: "'a \<Rightarrow> 'a list \<Rightarrow> nat option" where
  "index_of x [] = None"
| "index_of x (y # ys) = (if x = y then Some 0 else map_option Suc (index_of x ys))"

fun sextets :: "string \<Rightarrow> string \<Rightarrow> nat list option" where
  "sextets alphabet [] = Some []"
| "sextets alphabet (c # s) =
     (case index_of c alphabet of None \<Rightarrow> None
      | Some i \<Rightarrow> map_option (\<lambda>is. i # is) (sextets alphabet s))"

definition is_newline :: "char \<Rightarrow> bool" where
  "is_newline c = (char_code c = 10 \<or> char_code c = 13)"

text \<open>\<open>DecodeString\<close> of an unpadded base64 encoding: line breaks are skipped, a last quantum of
  one character is corrupt input, trailing bits are not checked.\<close>

definition raw64_decode :: "string \<Rightarrow> string \<Rightarrow> bytes option" where
  "raw64_decode alphabet s =
     (let t = filter (\<lambda>c. \<not> is_newline c) s in
      case sextets alphabet t of None \<Rightarrow> None
      | Some xs \<Rightarrow> if length t mod 4 = 1 then None
                  else Some (bits_bytes (concat (map (to_bits 6) xs))))"

text \<open>\<open>DecodeString\<close> of a padded base64 encoding.\<close>

definition padded64_decode :: "string \<Rightarrow> string \<Rightarrow> bytes option" where
  "padded64_decode alphabet s =
     (let t = filter (\<lambda>c. \<not> is_newline c) s;
          body = takeWhile (\<lambda>c. c \<noteq> CHR ''='') t;
          pad = dropWhile (\<lambda>c. c \<noteq> CHR ''='') t
      in if length t mod 4 \<noteq> 0 \<or> pad \<notin> {[], ''='', ''==''} then None
         else raw64_decode alphabet body)"

abbreviation RawURLEncoding_EncodeToString :: "bytes \<Rightarrow> string" where
  "RawURLEncoding_EncodeToString \<equiv> raw_encode 6 url_alphabet"

abbreviation RawURLEncoding_DecodeString :: "string \<Rightarrow> bytes option" where
  "RawURLEncoding_DecodeString \<equiv> raw64_decode url_alphabet"

abbreviation RawStdEncoding_EncodeToString :: "bytes \<Rightarrow> string" where
  "RawStdEncoding_EncodeToString \<equiv> raw_encode 6 std_alphabet"

abbreviation RawStdEncoding_DecodeString :: "string \<Rightarrow> bytes option" where
  "RawStdEncoding_DecodeString \<equiv> raw64_decode std_alphabet"

abbreviation StdEncoding_DecodeString :: "string \<Rightarrow> bytes option" where
  "StdEncoding_DecodeString \<equiv> padded64_decode std_alphabet"

abbreviation base32_EncodeToString :: "bytes \<Rightarrow> string" where
  "base32_EncodeToString \<equiv> raw_encode 5 base32_alphabet"

lemma index_of_nth: "distinct xs \<Longrightarrow> i < length xs \<Longrightarrow> index_of (xs ! i) xs = Some i"
proof (induction xs arbitrary: i)
  case (Cons x xs)
  then show ?case by (cases i) auto
qed simp

lemma sextets_encode:
  "distinct a \<Longrightarrow> (\<And>i. i \<in> set xs \<Longrightarrow> i < length a) \<Longrightarrow> sextets a (map (\<lambda>i. a ! i) xs) = Some xs"
  by (induction xs) (auto simp: index_of_nth)

definition alphabet64 :: "string \<Rightarrow> bool" where
  "alphabet64 a = (distinct a \<and> length a = 64 \<and> list_all (\<lambda>c. \<not> is_newline c) a)"

lemma alphabets64 [simp]: "alphabet64 url_alphabet" "alphabet64 std_alphabet"
  by code_simp+

lemma raw_encode_set:
  assumes "alphabet64 a" and "c \<in> set (raw_encode 6 a b)"
  shows "c \<in> set a"
proof -
  from assms(2) obtain i where i: "i \<in> set (groups 6 (byte_bits b))" "c = a ! i"
    by (auto simp: raw_encode_def)
  from groups_less [OF i(1)] have "i < length a" using assms(1) by (simp add: alphabet64_def)
  with i(2) show ?thesis by simp
qed

lemma quantum_not_one:
  assumes "n < 6" and "8 * l + n = 6 * (g :: nat)"
  shows "g mod 4 \<noteq> 1"
proof
  assume "g mod 4 = 1"
  then have "g = 4 * (g div 4) + 1" by (metis mult_div_mod_eq)
  with assms(2) have "8 * l + n = 8 * (3 * (g div 4)) + 6" by linarith
  then have "(8 * l + n) mod 8 = (8 * (3 * (g div 4)) + 6) mod 8" by (rule arg_cong)
  then have "n mod 8 = 6 mod 8" unfolding mod_mult_self4 .
  with assms(1) show False by simp
qed

lemma raw64_roundtrip:
  assumes "alphabet64 a"
  shows "raw64_decode a (raw_encode 6 a b) = Some b"
proof -
  let ?g = "groups 6 (byte_bits b)"
  have "filter (\<lambda>c. \<not> is_newline c) (raw_encode 6 a b) = raw_encode 6 a b"
    using assms raw_encode_set [OF assms] by (auto simp: alphabet64_def list_all_iff intro: filter_True)
  moreover have "sextets a (raw_encode 6 a b) = Some ?g"
    unfolding raw_encode_def
    using assms groups_less [of _ 6 "byte_bits b"] by (intro sextets_encode) (auto simp: alphabet64_def)
  moreover obtain n where n: "concat (map (to_bits 6) ?g) = byte_bits b @ replicate n False" "n < 6"
      "8 * length b + n = 6 * length ?g"
    using bits_groups [of 6 "byte_bits b", OF zero_less_numeral] unfolding length_byte_bits by blast
  moreover from n(2,3) have "length ?g mod 4 \<noteq> 1" by (rule quantum_not_one)
  moreover have "bits_bytes (byte_bits b @ replicate n False) = b"
    using n(2) by (intro bits_bytes_byte_bits) simp
  ultimately show ?thesis
    unfolding raw64_decode_def Let_def by (simp add: raw_encode_def)
qed

lemma raw_encode_inj: "alphabet64 a \<Longrightarrow> raw_encode 6 a b = raw_encode 6 a c \<longleftrightarrow> b = c"
  by (metis option.inject raw64_roundtrip)

lemma raw_encode_Nil [simp]: "alphabet64 a \<Longrightarrow> raw_encode 6 a b = [] \<longleftrightarrow> b = []"
  using raw_encode_inj [of a b "[]"] by (simp add: raw_encode_def byte_bits_def)

lemma length_raw_encode: "length (raw_encode 6 a b) = (8 * length b + 5) div 6"
proof -
  obtain n where "n < 6" "8 * length b + n = 6 * length (groups 6 (byte_bits b))"
    using bits_groups [of 6 "byte_bits b", OF zero_less_numeral] unfolding length_byte_bits by blast
  then show ?thesis by (simp add: raw_encode_def)
qed

section \<open>Hexadecimal\<close>

definition hex_alphabet :: string where
  "hex_alphabet = ''0123456789abcdef''"

definition hex_EncodeToString :: "bytes \<Rightarrow> string" where
  "hex_EncodeToString b =
     concat (map (\<lambda>w. [hex_alphabet ! (unat w div 16), hex_alphabet ! (unat w mod 16)]) b)"

definition hex_digit :: "char \<Rightarrow> nat option" where
  "hex_digit c = index_of (lower_char c) hex_alphabet"

fun hex_DecodeString :: "string \<Rightarrow> bytes option" where
  "hex_DecodeString [] = Some []"
| "hex_DecodeString [c] = None"
| "hex_DecodeString (c # d # s) =
     (case (hex_digit c, hex_digit d) of
        (Some i, Some j) \<Rightarrow> map_option (\<lambda>b. of_nat (16 * i + j) # b) (hex_DecodeString s)
      | _ \<Rightarrow> None)"

lemma lower_hex: "c \<in> set hex_alphabet \<Longrightarrow> lower_char c = c"
  unfolding hex_alphabet_def by (auto simp: lower_char_def is_upper_def char_code_def)

lemma hex_digit_nth: "i < 16 \<Longrightarrow> hex_digit (hex_alphabet ! i) = Some i"
proof -
  assume i: "i < 16"
  have d: "distinct hex_alphabet" "length hex_alphabet = 16" by code_simp+
  with i have "lower_char (hex_alphabet ! i) = hex_alphabet ! i" by (intro lower_hex) simp
  with i d show ?thesis unfolding hex_digit_def by (simp add: index_of_nth)
qed

lemma hex_roundtrip: "hex_DecodeString (hex_EncodeToString b) = Some b"
proof (induction b)
  case Nil
  then show ?case by (simp add: hex_EncodeToString_def)
next
  case (Cons w b)
  have w: "unat w < 256" using unsigned_less [of w] by simp
  then have "hex_digit (hex_alphabet ! (unat w div 16)) = Some (unat w div 16)"
    "hex_digit (hex_alphabet ! (unat w mod 16)) = Some (unat w mod 16)"
    by (intro hex_digit_nth; linarith | intro hex_digit_nth; simp)+
  moreover have "(of_nat (16 * (unat w div 16) + unat w mod 16) :: 8 word) = w"
    by (simp only: mult_div_mod_eq) simp
  ultimately show ?case using Cons by (simp add: hex_EncodeToString_def)
qed

section \<open>URL escaping\<close>

text \<open>\<open>url.PathEscape\<close> and \<open>url.QueryEscape\<close>.\<close>

definition url_unreserved :: "char \<Rightarrow> bool" where
  "url_unreserved c = (is_lower c \<or> is_upper c \<or> is_digit c \<or>
     c \<in> {CHR ''-'', CHR ''_'', CHR ''.'', CHR ''~''})"

definition percent :: "char \<Rightarrow> string" where
  "percent c = CHR ''%'' # ToUpper [hex_alphabet ! (char_code c div 16), hex_alphabet ! (char_code c mod 16)]"

definition PathEscape :: "string \<Rightarrow> string" where
  "PathEscape s = concat (map (\<lambda>c.
     if url_unreserved c \<or> c \<in> {CHR ''$'', CHR ''&'', CHR ''+'', CHR ''='', CHR '':'', CHR ''@''}
     then [c] else percent c) s)"

definition QueryEscape :: "string \<Rightarrow> string" where
  "QueryEscape s = concat (map (\<lambda>c.
     if url_unreserved c then [c] else if c = CHR '' '' then ''+'' else percent c) s)"

text \<open>\<open>url.Values.Encode\<close> for one value per key: sorted by key.\<close>

definition EncodeValues :: "(string \<times> string) list \<Rightarrow> string" where
  "EncodeValues kvs =
     Join ''&'' (map (\<lambda>(k, v). QueryEscape k @ ''='' @ QueryEscape v) (sort_key fst kvs))"

section \<open>Decimal integers\<close>

function decimal :: "nat \<Rightarrow> string" where
  "decimal n = (if n < 10 then [char_of (48 + n)] else decimal (n div 10) @ [char_of (48 + n mod 10)])"
  by auto
termination by (relation "measure id") auto

declare decimal.simps [simp del]

definition FormatInt :: "int \<Rightarrow> string" where
  "FormatInt i = (if i < 0 then ''-'' @ decimal (nat (- i)) else decimal (nat i))"

definition digits_value :: "string \<Rightarrow> nat" where
  "digits_value s = foldl (\<lambda>n c. 10 * n + (char_code c - 48)) 0 s"

definition all_digits :: "string \<Rightarrow> bool" where
  "all_digits s = (s \<noteq> [] \<and> list_all is_digit s)"

text \<open>\<open>strconv.ParseInt(s, 10, 64)\<close> and \<open>strconv.ParseUint(s, 10, bits)\<close>; an error
  (syntax or range) is \<open>None\<close>.\<close>

definition ParseInt :: "string \<Rightarrow> int option" where
  "ParseInt s =
     (let (neg, body) = (case s of
            [] \<Rightarrow> (False, [])
          | c # t \<Rightarrow> if c = CHR ''-'' then (True, t) else if c = CHR ''+'' then (False, t) else (False, s))
      in if \<not> all_digits body then None
         else let v = (if neg then - int (digits_value body) else int (digits_value body))
              in if v < - (2 ^ 63) \<or> v \<ge> 2 ^ 63 then None else Some v)"

definition ParseUint :: "nat \<Rightarrow> string \<Rightarrow> nat option" where
  "ParseUint bits s =
     (if \<not> all_digits s \<or> digits_value s \<ge> 2 ^ bits then None else Some (digits_value s))"

lemma char_code_digit: "n < 10 \<Longrightarrow> char_code (char_of (48 + n)) = 48 + n"
  by (simp add: char_code_def)

lemma digits_value_snoc: "digits_value (s @ [c]) = 10 * digits_value s + (char_code c - 48)"
  by (simp add: digits_value_def)

lemma decimal_digits: "all_digits (decimal n)"
proof (induction n rule: decimal.induct)
  case (1 n)
  show ?case
  proof (cases "n < 10")
    case True
    then show ?thesis
      by (subst decimal.simps) (simp add: all_digits_def is_digit_def char_code_digit)
  next
    case False
    from 1 [OF False] False show ?thesis
      by (subst decimal.simps) (simp add: all_digits_def is_digit_def char_code_digit)
  qed
qed

lemma decimal_value: "digits_value (decimal n) = n"
proof (induction n rule: decimal.induct)
  case (1 n)
  show ?case
  proof (cases "n < 10")
    case True
    then show ?thesis by (subst decimal.simps) (simp add: digits_value_def char_code_digit)
  next
    case False
    from 1 [OF False] False show ?thesis
      by (subst decimal.simps) (simp add: digits_value_snoc char_code_digit)
  qed
qed

lemma digit_not_sign: "is_digit c \<Longrightarrow> c \<noteq> CHR ''-'' \<and> c \<noteq> CHR ''+''"
  by (auto simp: is_digit_def char_code_def)

lemma ParseInt_FormatInt:
  assumes "- (2 ^ 63) \<le> i" and "i < 2 ^ 63"
  shows "ParseInt (FormatInt i) = Some i"
proof (cases "i < 0")
  case True
  with assms show ?thesis
    by (simp add: ParseInt_def FormatInt_def Let_def decimal_digits decimal_value)
next
  case False
  obtain c t where d: "decimal (nat i) = c # t" "is_digit c"
    using decimal_digits [of "nat i"] by (cases "decimal (nat i)") (auto simp: all_digits_def)
  with decimal_digits [of "nat i"] decimal_value [of "nat i"] digit_not_sign [OF d(2)] False assms
  show ?thesis by (simp add: ParseInt_def FormatInt_def Let_def)
qed

lemma ParseUint_decimal: "n < 2 ^ bits \<Longrightarrow> ParseUint bits (decimal n) = Some n"
  by (simp add: ParseUint_def decimal_digits decimal_value)

lemma ParseUint_bound: "ParseUint bits s = Some n \<Longrightarrow> n < 2 ^ bits"
  by (auto simp: ParseUint_def split: if_splits)

section \<open>Tokens\<close>

datatype security_error = ErrRandom

definition RandomToken :: "nat \<Rightarrow> bytes option \<Rightarrow> security_error + string" where
  "RandomToken n random =
     (case random of None \<Rightarrow> Inl ErrRandom
      | Some value \<Rightarrow> Inr (RawURLEncoding_EncodeToString (take n value)))"

definition HashToken :: "(bytes \<Rightarrow> bytes) \<Rightarrow> string \<Rightarrow> bytes" where
  "HashToken sha256 value = sha256 (bytes_of value)"

definition RandomUUID :: "bytes option \<Rightarrow> security_error + string" where
  "RandomUUID random =
     (case random of None \<Rightarrow> Inl ErrRandom
      | Some r \<Rightarrow>
          let v1 = r[6 := or (and (r ! 6) 0x0f) 0x40];
              v2 = v1[8 := or (and (v1 ! 8) 0x3f) 0x80];
              part = (\<lambda>i j. hex_EncodeToString (take (j - i) (drop i v2)))
          in Inr (part 0 4 @ ''-'' @ part 4 6 @ ''-'' @ part 6 8 @ ''-'' @ part 8 10 @ ''-'' @ part 10 16))"

lemma RandomToken_inj:
  "length a = n \<Longrightarrow> length b = n \<Longrightarrow>
   RandomToken n (Some a) = RandomToken n (Some b) \<longleftrightarrow> a = b"
  by (simp add: RandomToken_def raw_encode_inj)

end
