(* ===== verification/Session_Store.thy ===== *)
theory Session_Store
  imports Go_Encoding
begin

text \<open>
  Login sessions: \<open>internal/session/memory_repository.go\<close> (the repository, a map from session
  identifiers to records) and \<open>internal/session/session.go\<close> (the service in front of it). The
  clock of the service and the random bytes of a new session are arguments; \<open>sha256\<close> is the hash
  function of \<open>crypto/sha256\<close>.
\<close>

section \<open>Data\<close>

datatype session_error = ErrSessionNotFound | ErrSessionRandom

record Session =
  se_ID :: string
  se_UserID :: string
  se_AuthenticatedAt :: time
  se_ExpiresAt :: time
  se_LastSeenAt :: time
  se_IPAddress :: string
  se_UserAgent :: string
  se_RevokedAt :: "time option"
  se_AuthMethods :: "string list"
  se_AssuranceLevel :: string

record memoryRecord = Session +
  mr_hash :: bytes
  mr_revokedAt :: "time option"

type_synonym SessionRepository = "(string, memoryRecord) gomap"

definition Session_NewMemoryRepository :: SessionRepository where
  "Session_NewMemoryRepository = []"

section \<open>Repository\<close>

definition Session_Create ::
  "Session \<Rightarrow> bytes \<Rightarrow> string \<Rightarrow> string \<Rightarrow> bytes option \<Rightarrow> SessionRepository \<Rightarrow>
   (session_error + Session) \<times> SessionRepository" where
  [store_defs]: "Session_Create value hash ipAddress userAgent random r =
     (case RandomToken 16 random of
        Inl _ \<Rightarrow> (Inl ErrSessionRandom, r)
      | Inr sid \<Rightarrow>
          let value' = value\<lparr>se_ID := sid, se_IPAddress := ipAddress, se_UserAgent := userAgent\<rparr>
          in (Inr value',
              map_put sid (Session.extend value' \<lparr>mr_hash = hash, mr_revokedAt = None\<rparr>) r))"

abbreviation usable :: "time \<Rightarrow> memoryRecord \<Rightarrow> bool" where
  "usable now record' \<equiv> mr_revokedAt record' = None \<and> se_ExpiresAt record' > now"

definition Session_Find ::
  "bytes \<Rightarrow> time \<Rightarrow> SessionRepository \<Rightarrow> (session_error + Session) \<times> SessionRepository" where
  [store_defs]: "Session_Find hash now r =
     (case find (\<lambda>(_, record'). mr_hash record' = hash \<and> usable now record') r of
        None \<Rightarrow> (Inl ErrSessionNotFound, r)
      | Some (_, record') \<Rightarrow>
          let record1 = record'\<lparr>se_LastSeenAt := now\<rparr>
          in (Inr (Session.truncate record1), map_put (se_ID record1) record1 r))"

definition Session_IsActive :: "string \<Rightarrow> string \<Rightarrow> time \<Rightarrow> SessionRepository \<Rightarrow> bool" where
  [store_defs]: "Session_IsActive userID sid now r =
     (case map_of r sid of None \<Rightarrow> False
      | Some record' \<Rightarrow> se_UserID record' = userID \<and> usable now record')"

definition Session_ListByUser :: "string \<Rightarrow> time \<Rightarrow> SessionRepository \<Rightarrow> Session list" where
  [store_defs]: "Session_ListByUser userID now r =
     sort_key (\<lambda>s. - se_LastSeenAt s)
       (map Session.truncate
         (filter (\<lambda>record'. se_UserID record' = userID \<and> usable now record') (map snd r)))"

definition revoked :: "time \<Rightarrow> memoryRecord \<Rightarrow> memoryRecord" where
  "revoked now record' = record'\<lparr>mr_revokedAt := Some now, se_RevokedAt := Some now\<rparr>"

definition Session_Revoke ::
  "string \<Rightarrow> time \<Rightarrow> SessionRepository \<Rightarrow> (session_error + unit) \<times> SessionRepository" where
  [store_defs]: "Session_Revoke sid now r =
     (case map_of r sid of None \<Rightarrow> (Inl ErrSessionNotFound, r)
      | Some record' \<Rightarrow> (Inr (), map_put sid (revoked now record') r))"

definition Session_RevokeForUser ::
  "string \<Rightarrow> string \<Rightarrow> time \<Rightarrow> SessionRepository \<Rightarrow> (session_error + unit) \<times> SessionRepository" where
  [store_defs]: "Session_RevokeForUser userID sid now r =
     (case map_of r sid of None \<Rightarrow> (Inl ErrSessionNotFound, r)
      | Some record' \<Rightarrow>
          if se_UserID record' \<noteq> userID then (Inl ErrSessionNotFound, r)
          else (Inr (), map_put sid (revoked now record') r))"

abbreviation revocable :: "string \<Rightarrow> string \<Rightarrow> time \<Rightarrow> string \<Rightarrow> memoryRecord \<Rightarrow> bool" where
  "revocable userID exceptID now sid record' \<equiv>
     se_UserID record' = userID \<and> sid \<noteq> exceptID \<and> usable now record'"

definition Session_RevokeAll ::
  "string \<Rightarrow> string \<Rightarrow> time \<Rightarrow> SessionRepository \<Rightarrow> nat \<times> SessionRepository" where
  [store_defs]: "Session_RevokeAll userID exceptID now r =
     (length (filter (\<lambda>(sid, record'). revocable userID exceptID now sid record') r),
      map_values (\<lambda>sid record'. if revocable userID exceptID now sid record'
                                then revoked now record' else record') r)"

section \<open>Service\<close>

record SessionService =
  ss_repository :: SessionRepository
  ss_lifetime :: duration

definition Session_NewService :: "SessionRepository \<Rightarrow> duration \<Rightarrow> SessionService" where
  "Session_NewService repository lifetime =
     \<lparr>ss_repository = repository, ss_lifetime = (if lifetime \<le> 0 then 12 * hour else lifetime)\<rparr>"

definition CreateWithMethods ::
  "(bytes \<Rightarrow> bytes) \<Rightarrow> bytes option \<Rightarrow> bytes option \<Rightarrow> time \<Rightarrow>
   string \<Rightarrow> string \<Rightarrow> string \<Rightarrow> string list \<Rightarrow> string \<Rightarrow> SessionService \<Rightarrow>
   (session_error + Session \<times> string) \<times> SessionService" where
  "CreateWithMethods sha256 tokenRandom idRandom now userID ipAddress userAgent authMethods
      assuranceLevel s =
     (case RandomToken 32 tokenRandom of
        Inl _ \<Rightarrow> (Inl ErrSessionRandom, s)
      | Inr token \<Rightarrow>
          let (res, repository) = Session_Create
                \<lparr>se_ID = [], se_UserID = userID, se_AuthenticatedAt = now,
                 se_ExpiresAt = now + ss_lifetime s, se_LastSeenAt = now,
                 se_IPAddress = ipAddress, se_UserAgent = userAgent, se_RevokedAt = None,
                 se_AuthMethods = authMethods, se_AssuranceLevel = assuranceLevel\<rparr>
                (HashToken sha256 token) ipAddress userAgent idRandom (ss_repository s)
          in (map_sum id (\<lambda>record'. (record', token)) res, s\<lparr>ss_repository := repository\<rparr>))"

definition Service_Create ::
  "(bytes \<Rightarrow> bytes) \<Rightarrow> bytes option \<Rightarrow> bytes option \<Rightarrow> time \<Rightarrow>
   string \<Rightarrow> string \<Rightarrow> string \<Rightarrow> SessionService \<Rightarrow>
   (session_error + Session \<times> string) \<times> SessionService" where
  "Service_Create sha256 tokenRandom idRandom now userID ipAddress userAgent s =
     CreateWithMethods sha256 tokenRandom idRandom now userID ipAddress userAgent []
       ''urn:certus:aal:1'' s"

definition Service_Find ::
  "(bytes \<Rightarrow> bytes) \<Rightarrow> string \<Rightarrow> time \<Rightarrow> SessionService \<Rightarrow>
   (session_error + Session) \<times> SessionService" where
  "Service_Find sha256 token now s =
     (if token = [] then (Inl ErrSessionNotFound, s)
      else let (res, repository) = Session_Find (HashToken sha256 token) now (ss_repository s)
           in (res, s\<lparr>ss_repository := repository\<rparr>))"

definition Service_Revoke ::
  "string \<Rightarrow> time \<Rightarrow> SessionService \<Rightarrow> (session_error + unit) \<times> SessionService" where
  "Service_Revoke sid now s =
     (if sid = [] then (Inr (), s)
      else let (res, repository) = Session_Revoke sid now (ss_repository s)
           in (res, s\<lparr>ss_repository := repository\<rparr>))"

definition Service_ListByUser :: "string \<Rightarrow> time \<Rightarrow> SessionService \<Rightarrow> Session list" where
  "Service_ListByUser userID now s = Session_ListByUser userID now (ss_repository s)"

definition Service_IsActive :: "string \<Rightarrow> string \<Rightarrow> time \<Rightarrow> SessionService \<Rightarrow> bool" where
  "Service_IsActive userID sid now s =
     (if userID = [] \<or> sid = [] then False else Session_IsActive userID sid now (ss_repository s))"

definition Service_RevokeForUser ::
  "string \<Rightarrow> string \<Rightarrow> time \<Rightarrow> SessionService \<Rightarrow> (session_error + unit) \<times> SessionService" where
  "Service_RevokeForUser userID sid now s =
     (if userID = [] \<or> sid = [] then (Inl ErrSessionNotFound, s)
      else let (res, repository) = Session_RevokeForUser userID sid now (ss_repository s)
           in (res, s\<lparr>ss_repository := repository\<rparr>))"

definition Service_RevokeAll ::
  "string \<Rightarrow> string \<Rightarrow> time \<Rightarrow> SessionService \<Rightarrow> (session_error + nat) \<times> SessionService" where
  "Service_RevokeAll userID exceptID now s =
     (if userID = [] then (Inl ErrSessionNotFound, s)
      else let (n, repository) = Session_RevokeAll userID exceptID now (ss_repository s)
           in (Inr n, s\<lparr>ss_repository := repository\<rparr>))"

section \<open>The repository as one machine\<close>

datatype session_op =
    SesCreate Session bytes string string "bytes option"
  | SesFind bytes time
  | SesIsActive string string time
  | SesList string time
  | SesRevoke string time
  | SesRevokeForUser string string time
  | SesRevokeAll string string time

datatype session_value = SesDone | SesGot Session | SesAnswer bool | SesListed "Session list" | SesCount nat

fun session_step ::
  "SessionRepository \<Rightarrow> session_op \<Rightarrow> (session_error + session_value) \<times> SessionRepository" where
  "session_step r (SesCreate v h ip ua rnd) = apfst (map_sum id SesGot) (Session_Create v h ip ua rnd r)"
| "session_step r (SesFind h now) = apfst (map_sum id SesGot) (Session_Find h now r)"
| "session_step r (SesIsActive u sid now) = (Inr (SesAnswer (Session_IsActive u sid now r)), r)"
| "session_step r (SesList u now) = (Inr (SesListed (Session_ListByUser u now r)), r)"
| "session_step r (SesRevoke sid now) = apfst (map_sum id (\<lambda>_. SesDone)) (Session_Revoke sid now r)"
| "session_step r (SesRevokeForUser u sid now) =
     apfst (map_sum id (\<lambda>_. SesDone)) (Session_RevokeForUser u sid now r)"
| "session_step r (SesRevokeAll u ex now) = apfst (\<lambda>n. Inr (SesCount n)) (Session_RevokeAll u ex now r)"

section \<open>Invariant\<close>

text \<open>Each record is stored under its own identifier, once, and its two revocation fields agree.\<close>

definition sessions_ok :: "SessionRepository \<Rightarrow> bool" where
  "sessions_ok r = (gomap_ok r \<and>
     (\<forall>(sid, record') \<in> set r. se_ID record' = sid \<and> (mr_revokedAt record' = None \<longrightarrow> se_RevokedAt record' = None)))"

definition well_formed_create :: "session_op \<Rightarrow> bool" where
  "well_formed_create op = (\<forall>v h ip ua rnd. op = SesCreate v h ip ua rnd \<longrightarrow> se_RevokedAt v = None)"

lemma well_formed_create_simps [simp]:
  "well_formed_create (SesCreate v h ip ua rnd) \<longleftrightarrow> se_RevokedAt v = None"
  by (simp add: well_formed_create_def)

lemma sessions_ok_put:
  "sessions_ok r \<Longrightarrow> se_ID v = sid \<Longrightarrow> (mr_revokedAt v = None \<longrightarrow> se_RevokedAt v = None) \<Longrightarrow>
   sessions_ok (map_put sid v r)"
  by (auto simp: sessions_ok_def dest!: set_put_subset)

lemma sessions_ok_lookup:
  "sessions_ok r \<Longrightarrow> map_of r sid = Some v \<Longrightarrow>
     se_ID v = sid \<and> (mr_revokedAt v = None \<longrightarrow> se_RevokedAt v = None)"
  by (auto simp: sessions_ok_def dest!: map_of_SomeD)

lemma sessions_ok_found:
  "sessions_ok r \<Longrightarrow> find p r = Some (sid, v) \<Longrightarrow>
     p (sid, v) \<and> map_of r sid = Some v \<and> se_ID v = sid \<and> (mr_revokedAt v = None \<longrightarrow> se_RevokedAt v = None)"
  by (auto simp: sessions_ok_def in_set_gomap_iff dest!: find_SomeD)

lemma sessions_ok_values:
  "sessions_ok r \<Longrightarrow> (\<And>sid v. se_ID (f sid v) = se_ID v) \<Longrightarrow>
   (\<And>sid v. mr_revokedAt (f sid v) = None \<Longrightarrow> mr_revokedAt v = None \<and> se_RevokedAt (f sid v) = se_RevokedAt v) \<Longrightarrow>
   sessions_ok (map_values f r)"
  by (auto simp: sessions_ok_def map_values_def [of f r] gomap_ok_def comp_def case_prod_beta)

lemma sessions_ok_step:
  assumes "sessions_ok r" and "well_formed_create op"
  shows "sessions_ok (snd (session_step r op))"
proof (cases op)
  case (SesCreate v h ip ua rnd)
  with assms show ?thesis
    by (auto simp: Session_Create_def Let_def Session.extend_def intro!: sessions_ok_put split: sum.split)
next
  case (SesFind h now)
  with assms show ?thesis
    by (auto simp: Session_Find_def Let_def intro!: sessions_ok_put dest: sessions_ok_found
        split: option.split)
next
  case (SesRevokeAll u ex now)
  with assms show ?thesis
    by (auto simp: Session_RevokeAll_def revoked_def intro!: sessions_ok_values split: if_splits)
qed (use assms in \<open>auto simp: Session_Revoke_def Session_RevokeForUser_def revoked_def
       intro!: sessions_ok_put dest: sessions_ok_lookup split: option.split\<close>)

interpretation session_book: kept_by_steps session_step well_formed_create sessions_ok
  by unfold_locales (rule sessions_ok_step)

lemma sessions_ok_reachable:
  "list_all well_formed_create ops \<Longrightarrow> sessions_ok (final session_step Session_NewMemoryRepository ops)"
  by (rule session_book.kept_final) (simp_all add: sessions_ok_def Session_NewMemoryRepository_def)

section \<open>Revoked sessions\<close>

definition session_dead :: "string \<Rightarrow> SessionRepository \<Rightarrow> bool" where
  "session_dead sid r = (case map_of r sid of None \<Rightarrow> True | Some v \<Rightarrow> mr_revokedAt v \<noteq> None)"

fun creates :: "string \<Rightarrow> session_op \<Rightarrow> bool" where
  "creates sid (SesCreate _ _ _ _ rnd) = (RandomToken 16 rnd = Inr sid)"
| "creates sid _ = False"

lemma session_dead_step:
  assumes "sessions_ok r \<and> session_dead sid r" and "well_formed_create op \<and> \<not> creates sid op"
  shows "sessions_ok (snd (session_step r op)) \<and> session_dead sid (snd (session_step r op))"
proof (rule conjI)
  show "sessions_ok (snd (session_step r op))" using assms by (blast intro: sessions_ok_step)
  have ok: "sessions_ok r" using assms(1) ..
  show "session_dead sid (snd (session_step r op))"
  proof (cases op)
    case (SesFind h now)
    with assms show ?thesis
      by (auto simp: Session_Find_def session_dead_def Let_def dest!: sessions_ok_found [OF ok]
          dest: find_SomeD split: option.splits)
  qed (use assms in \<open>auto simp: store_defs session_dead_def revoked_def Let_def split: option.splits sum.splits\<close>)
qed

interpretation dead_session:
  kept_by_steps session_step "\<lambda>op. well_formed_create op \<and> \<not> creates sid op"
    "\<lambda>r. sessions_ok r \<and> session_dead sid r" for sid
  by unfold_locales (rule session_dead_step)

lemma session_dead_finds:
  assumes "sessions_ok r" and "session_dead sid r"
  shows "\<not> Session_IsActive u sid now r"
    and "fst (Session_Find h now r) = Inr v \<Longrightarrow> se_ID v \<noteq> sid"
    and "v \<in> set (Session_ListByUser u now r) \<Longrightarrow> se_ID v \<noteq> sid"
proof -
  show "\<not> Session_IsActive u sid now r"
    using assms(2) by (auto simp: Session_IsActive_def session_dead_def split: option.splits)
  show "fst (Session_Find h now r) = Inr v \<Longrightarrow> se_ID v \<noteq> sid"
    using assms(2) by (auto simp: Session_Find_def session_dead_def Let_def Session.truncate_def
        dest: find_SomeD dest!: sessions_ok_found [OF assms(1)] split: option.splits)
  show "v \<in> set (Session_ListByUser u now r) \<Longrightarrow> se_ID v \<noteq> sid"
    using assms by (auto simp: Session_ListByUser_def session_dead_def Session.truncate_def sessions_ok_def
        in_set_gomap_iff split: option.splits)
qed

text \<open>The sessions a revoking call is meant to end.\<close>

fun ends_session :: "SessionRepository \<Rightarrow> session_op \<Rightarrow> string \<Rightarrow> bool" where
  "ends_session r (SesRevoke sid' _) sid = (sid = sid')"
| "ends_session r (SesRevokeForUser u sid' _) sid =
     (sid = sid' \<and> (case map_of r sid of None \<Rightarrow> True | Some v \<Rightarrow> se_UserID v = u))"
| "ends_session r (SesRevokeAll u ex now) sid =
     (sid \<noteq> ex \<and> (case map_of r sid of None \<Rightarrow> False | Some v \<Rightarrow> se_UserID v = u \<and> se_ExpiresAt v > now))"
| "ends_session r _ sid = False"

lemma ends_session_dead: "ends_session r op sid \<Longrightarrow> session_dead sid (snd (session_step r op))"
  by (cases op) (auto simp: store_defs session_dead_def revoked_def split: option.splits)

section \<open>Live sessions\<close>

definition session_live :: "string \<Rightarrow> Session \<Rightarrow> bytes \<Rightarrow> SessionRepository \<Rightarrow> bool" where
  "session_live sid s h r = (case map_of r sid of None \<Rightarrow> False
     | Some v \<Rightarrow> mr_revokedAt v = None \<and> mr_hash v = h \<and>
         (Session.truncate v)\<lparr>se_LastSeenAt := 0\<rparr> = s\<lparr>se_LastSeenAt := 0\<rparr>)"

fun may_end :: "string \<Rightarrow> string \<Rightarrow> session_op \<Rightarrow> bool" where
  "may_end u sid (SesRevoke sid' _) = (sid = sid')"
| "may_end u sid (SesRevokeForUser u' sid' _) = (u = u' \<and> sid = sid')"
| "may_end u sid (SesRevokeAll u' ex _) = (u = u' \<and> sid \<noteq> ex)"
| "may_end u sid _ = False"

lemma session_live_step:
  assumes "sessions_ok r \<and> session_live sid s h r"
    and "well_formed_create op \<and> \<not> creates sid op \<and> \<not> may_end (se_UserID s) sid op"
  shows "sessions_ok (snd (session_step r op)) \<and> session_live sid s h (snd (session_step r op))"
proof (rule conjI)
  show "sessions_ok (snd (session_step r op))" using assms by (blast intro: sessions_ok_step)
  have ok: "sessions_ok r" using assms(1) ..
  obtain v where v: "map_of r sid = Some v" "mr_revokedAt v = None" "mr_hash v = h"
      "(Session.truncate v)\<lparr>se_LastSeenAt := 0\<rparr> = s\<lparr>se_LastSeenAt := 0\<rparr>"
    using assms(1) by (auto simp: session_live_def split: option.splits)
  have u: "se_UserID v = se_UserID s"
    using arg_cong [OF v(4), of se_UserID] by (simp add: Session.truncate_def)
  show "session_live sid s h (snd (session_step r op))"
  proof (cases op)
    case (SesFind h' now)
    with v show ?thesis
      by (auto simp: Session_Find_def session_live_def Let_def Session.truncate_def
          dest!: sessions_ok_found [OF ok] split: option.splits)
  qed (use assms(2) v u in \<open>auto simp: store_defs session_live_def Let_def split: option.splits sum.splits\<close>)
qed

interpretation live_session:
  kept_by_steps session_step
    "\<lambda>op. well_formed_create op \<and> \<not> creates sid op \<and> \<not> may_end (se_UserID who) sid op"
    "\<lambda>r. sessions_ok r \<and> session_live sid who h r" for sid who h
  by unfold_locales (rule session_live_step)

lemma session_live_active:
  "session_live sid s h r \<Longrightarrow> now < se_ExpiresAt s \<Longrightarrow> Session_IsActive (se_UserID s) sid now r"
proof -
  assume "session_live sid s h r" "now < se_ExpiresAt s"
  then obtain v where v: "map_of r sid = Some v" "mr_revokedAt v = None"
      "(Session.truncate v)\<lparr>se_LastSeenAt := 0\<rparr> = s\<lparr>se_LastSeenAt := 0\<rparr>"
    by (auto simp: session_live_def split: option.splits)
  have "se_UserID v = se_UserID s" "se_ExpiresAt v = se_ExpiresAt s"
    using arg_cong [OF v(3), of se_UserID] arg_cong [OF v(3), of se_ExpiresAt]
    by (simp_all add: Session.truncate_def)
  with v \<open>now < se_ExpiresAt s\<close> show ?thesis by (simp add: Session_IsActive_def)
qed

lemma RevokeAll_IsActive:
  assumes "u = userID \<longrightarrow> now \<le> now'"
  shows "Session_IsActive u sid now' (snd (Session_RevokeAll userID exceptID now r)) =
    (Session_IsActive u sid now' r \<and> (u = userID \<and> now \<le> now' \<longrightarrow> sid = exceptID))"
proof (cases "map_of r sid")
  case None
  then show ?thesis by (simp add: Session_IsActive_def Session_RevokeAll_def)
next
  case (Some v)
  have "Session_IsActive u sid now' (snd (Session_RevokeAll userID exceptID now r)) =
      (se_UserID v = u \<and> \<not> revocable userID exceptID now sid v \<and> usable now' v)"
    using Some by (cases "revocable userID exceptID now sid v")
      (simp_all add: Session_IsActive_def Session_RevokeAll_def revoked_def, metis option.distinct(1))
  moreover have "Session_IsActive u sid now' r = (se_UserID v = u \<and> usable now' v)"
    using Some by (simp add: Session_IsActive_def)
  ultimately show ?thesis using assms by (metis order.strict_trans1)
qed

section \<open>A worked scenario\<close>

definition demo_session :: Session where
  "demo_session = \<lparr>se_ID = ''BwcHBwcHBwcHBwcHBwcHBw'', se_UserID = ''u1'', se_AuthenticatedAt = 10,
     se_ExpiresAt = 110, se_LastSeenAt = 10, se_IPAddress = ''ip'', se_UserAgent = ''ua'',
     se_RevokedAt = None, se_AuthMethods = [''pwd''], se_AssuranceLevel = ''urn:certus:aal:1''\<rparr>"

definition demo_session_op :: session_op where
  "demo_session_op = SesCreate (demo_session\<lparr>se_ID := []\<rparr>) [1] ''ip'' ''ua'' (Some (replicate 16 7))"

definition demo_sessions :: SessionRepository where
  "demo_sessions = final session_step Session_NewMemoryRepository [demo_session_op]"

lemma demo_creates: "creates sid demo_session_op \<longleftrightarrow> sid = ''BwcHBwcHBwcHBwcHBwcHBw''"
proof -
  have "RandomToken 16 (Some (replicate 16 7)) = Inr ''BwcHBwcHBwcHBwcHBwcHBw''" by code_simp
  then show ?thesis by (auto simp: demo_session_op_def)
qed

lemma demo_well_formed: "well_formed_create demo_session_op"
  by (simp add: demo_session_op_def demo_session_def)

lemma demo_sessions_ok: "sessions_ok demo_sessions"
  unfolding demo_sessions_def by (rule sessions_ok_reachable) (simp add: demo_well_formed)

section \<open>Properties\<close>

text \<open>C22: A session that was revoked (by its identifier, by its owner, or with all sessions of its
  user) stays out of use: whatever calls follow, unless a new session draws the same identifier, it
  is not active, no token finds it and no listing shows it.\<close>
theorem revoked_session_stays_revoked:
  assumes "list_all well_formed_create ops0"
    and "r = final session_step Session_NewMemoryRepository ops0"
    and "ends_session r op sid"
    and "list_all (\<lambda>op. well_formed_create op \<and> \<not> creates sid op) ops"
    and "r' = final session_step (snd (session_step r op)) ops"
  shows "\<not> Session_IsActive u sid now r' \<and>
    (fst (Session_Find h now r') = Inr v \<longrightarrow> se_ID v \<noteq> sid) \<and>
    (w \<in> set (Session_ListByUser u now r') \<longrightarrow> se_ID w \<noteq> sid)"
proof -
  have "well_formed_create op" using assms(3) by (cases op) (auto simp: well_formed_create_def)
  then have ok: "sessions_ok (snd (session_step r op)) \<and> session_dead sid (snd (session_step r op))"
    using sessions_ok_reachable [OF assms(1)] assms(2,3) by (blast intro: sessions_ok_step ends_session_dead)
  from dead_session.kept_final [OF this assms(4)] assms(5) have "sessions_ok r'" "session_dead sid r'"
    by auto
  from session_dead_finds [OF this] show ?thesis by blast
qed

theorem revoked_session_stays_revoked_witness:
  "\<not> Session_IsActive ''u1'' ''BwcHBwcHBwcHBwcHBwcHBw'' 30
     (final session_step (snd (session_step demo_sessions (SesRevokeAll ''u1'' ''other'' 20)))
       [SesFind [1] 25])"
proof -
  have "list_all well_formed_create [demo_session_op]" by (simp add: demo_well_formed)
  moreover have "ends_session demo_sessions (SesRevokeAll ''u1'' ''other'' 20) ''BwcHBwcHBwcHBwcHBwcHBw''"
    by code_simp
  moreover have "list_all (\<lambda>op. well_formed_create op \<and> \<not> creates ''BwcHBwcHBwcHBwcHBwcHBw'' op) [SesFind [1] 25]"
    by (simp add: well_formed_create_def)
  ultimately show ?thesis
    using revoked_session_stays_revoked [OF _ demo_sessions_def _ _ refl] by blast
qed

text \<open>A session created through the service is active for its user until the configured lifetime
  has passed, whatever other calls run in between, unless one of them revokes it (or draws its
  identifier again); in particular signing other users or other sessions out does not end it.\<close>
lemma created_session_stays_active:
  assumes "sessions_ok (ss_repository s)"
    and "CreateWithMethods sha256 tokenRandom idRandom t userID ip ua methods level s = (Inr (v, token), s')"
    and "list_all (\<lambda>op. well_formed_create op \<and> \<not> creates (se_ID v) op \<and> \<not> may_end userID (se_ID v) op) ops"
    and "now < t + ss_lifetime s"
    and "userID \<noteq> []" and "se_ID v \<noteq> []"
  shows "Service_IsActive userID (se_ID v) now
           (s'\<lparr>ss_repository := final session_step (ss_repository s') ops\<rparr>)"
proof -
  obtain rnd where rnd: "RandomToken 16 idRandom = Inr (se_ID v)" and v: "se_UserID v = userID"
      "se_ExpiresAt v = t + ss_lifetime s" "se_RevokedAt v = None"
    and r: "ss_repository s' = map_put (se_ID v)
        (Session.extend v \<lparr>mr_hash = HashToken sha256 token, mr_revokedAt = None\<rparr>) (ss_repository s)"
    using assms(2) by (auto simp: CreateWithMethods_def Session_Create_def Let_def split: sum.splits prod.splits)
  have "sessions_ok (ss_repository s')"
    unfolding r using assms(1) v by (intro sessions_ok_put) (simp_all add: Session.extend_def)
  moreover have "session_live (se_ID v) v (HashToken sha256 token) (ss_repository s')"
    unfolding r by (simp add: session_live_def Session.extend_def Session.truncate_def)
  ultimately have "session_live (se_ID v) v (HashToken sha256 token) (final session_step (ss_repository s') ops)"
    using live_session.kept_final [where who = v] assms(3) v(1) by blast
  from session_live_active [OF this] v assms(4-6) show ?thesis by (simp add: Service_IsActive_def)
qed

text \<open>\<open>RevokeAll\<close> reports how many sessions it ended: exactly the sessions of the user that
  were active before, other than the excepted one; afterwards only that one can be active.\<close>
lemma revoke_all_ends_every_session:
  assumes "sessions_ok r" and "Session_RevokeAll userID exceptID now r = (n, r')"
  shows "n = card {sid. sid \<noteq> exceptID \<and> Session_IsActive userID sid now r} \<and>
    (\<forall>sid now'. now \<le> now' \<and> Session_IsActive userID sid now' r' \<longrightarrow> sid = exceptID) \<and>
    (\<forall>u sid now'. u \<noteq> userID \<longrightarrow> Session_IsActive u sid now' r' = Session_IsActive u sid now' r)"
proof -
  let ?l = "filter (\<lambda>(sid, v). revocable userID exceptID now sid v) r"
  have ok: "gomap_ok r" using assms(1) by (simp add: sessions_ok_def)
  have d: "distinct (map fst ?l)" using ok unfolding gomap_ok_def by (rule distinct_map_filter)
  have "set (map fst ?l) = {sid. sid \<noteq> exceptID \<and> Session_IsActive userID sid now r}"
    by (auto simp: Session_IsActive_def image_iff in_set_gomap_iff [OF ok] split: option.splits)
  moreover have "n = length (map fst ?l)" using assms(2) by (simp add: Session_RevokeAll_def)
  ultimately have "n = card {sid. sid \<noteq> exceptID \<and> Session_IsActive userID sid now r}"
    using distinct_card [OF d] by metis
  moreover have r': "r' = snd (Session_RevokeAll userID exceptID now r)" using assms(2) by simp
  moreover have "Session_IsActive u sid now' r' =
      (Session_IsActive u sid now' r \<and> (u = userID \<and> now \<le> now' \<longrightarrow> sid = exceptID))"
    if "u = userID \<longrightarrow> now \<le> now'" for u sid now'
    unfolding r' by (rule RevokeAll_IsActive [OF that])
  ultimately show ?thesis by blast
qed

end
