(* ===== verification/CAS_Tickets.thy ===== *)
theory CAS_Tickets
  imports Go_Encoding
begin

text \<open>
  The CAS ticket store of \<open>internal/cas/ticket.go\<close>: service tickets, proxy-granting tickets,
  proxy tickets and the service sessions used for single logout, with every method of
  \<open>MemoryRepository\<close>.
\<close>

section \<open>Data\<close>

datatype cas_error = ErrTicketNotFound | ErrTicketExpired

record ServiceTicket =
  st_Hash :: bytes
  st_Ticket :: string
  st_ClientID :: string
  st_Service :: string
  st_UserID :: string
  st_SessionID :: string
  st_PrimaryCredentials :: bool
  st_IssuedAt :: time
  st_ExpiresAt :: time

record ServiceSession =
  sv_SessionID :: string
  sv_ClientID :: string
  sv_Service :: string
  sv_Ticket :: string

record ProxyGrantingTicket =
  pg_Hash :: bytes
  pg_ClientID :: string
  pg_UserID :: string
  pg_SessionID :: string
  pg_CallbackURL :: string
  pg_Proxies :: "string list"
  pg_PrimaryCredentials :: bool
  pg_IssuedAt :: time
  pg_ExpiresAt :: time

record ProxyTicket =
  pt_Hash :: bytes
  pt_ClientID :: string
  pt_TargetService :: string
  pt_UserID :: string
  pt_SessionID :: string
  pt_Proxies :: "string list"
  pt_PrimaryCredentials :: bool
  pt_IssuedAt :: time
  pt_ExpiresAt :: time

record memoryTicket = ServiceTicket +
  st_consumedAt :: "time option"

record memoryProxyTicket = ProxyTicket +
  pt_consumedAt :: "time option"

record CASRepository =
  tickets :: "memoryTicket list"
  proxyGrantingTickets :: "ProxyGrantingTicket list"
  proxyTickets :: "memoryProxyTicket list"
  cas_sessions :: "ServiceSession list"

definition CAS_NewMemoryRepository :: CASRepository where
  "CAS_NewMemoryRepository =
     \<lparr>tickets = [], proxyGrantingTickets = [], proxyTickets = [], cas_sessions = []\<rparr>"

section \<open>Operations\<close>

definition SaveProxyGrantingTicket ::
  "ProxyGrantingTicket \<Rightarrow> CASRepository \<Rightarrow> (cas_error + unit) \<times> CASRepository" where
  [store_defs]: "SaveProxyGrantingTicket value r =
     (Inr (), r\<lparr>proxyGrantingTickets := proxyGrantingTickets r @ [value]\<rparr>)"

definition FindProxyGrantingTicket ::
  "bytes \<Rightarrow> time \<Rightarrow> CASRepository \<Rightarrow> cas_error + ProxyGrantingTicket" where
  [store_defs]: "FindProxyGrantingTicket hash now r =
     (case find (\<lambda>p. pg_Hash p = hash) (proxyGrantingTickets r) of
        None \<Rightarrow> Inl ErrTicketNotFound
      | Some record' \<Rightarrow> if \<not> pg_ExpiresAt record' > now then Inl ErrTicketExpired else Inr record')"

definition SaveProxyTicket ::
  "ProxyTicket \<Rightarrow> bytes \<Rightarrow> CASRepository \<Rightarrow> (cas_error + unit) \<times> CASRepository" where
  [store_defs]: "SaveProxyTicket value pgtHash r =
     (if find (\<lambda>p. pg_Hash p = pgtHash) (proxyGrantingTickets r) = None
      then (Inl ErrTicketNotFound, r)
      else (Inr (), r\<lparr>proxyTickets := proxyTickets r @ [ProxyTicket.extend value \<lparr>pt_consumedAt = None\<rparr>]\<rparr>))"

definition ConsumeProxyTicket ::
  "bytes \<Rightarrow> string \<Rightarrow> bool \<Rightarrow> time \<Rightarrow> CASRepository \<Rightarrow> (cas_error + ProxyTicket) \<times> CASRepository" where
  [store_defs]: "ConsumeProxyTicket hash targetService requirePrimary now r =
     (case find (\<lambda>t. pt_Hash t = hash \<and> pt_TargetService t = targetService) (proxyTickets r) of
        None \<Rightarrow> (Inl ErrTicketNotFound, r)
      | Some record' \<Rightarrow>
          if pt_consumedAt record' \<noteq> None then (Inl ErrTicketNotFound, r)
          else if requirePrimary \<and> \<not> pt_PrimaryCredentials record' then (Inl ErrTicketNotFound, r)
          else if \<not> pt_ExpiresAt record' > now then (Inl ErrTicketExpired, r)
          else (Inr (ProxyTicket.truncate record'),
                r\<lparr>proxyTickets :=
                   update_first (\<lambda>t. pt_Hash t = hash \<and> pt_TargetService t = targetService)
                     (\<lambda>t. t\<lparr>pt_consumedAt := Some now\<rparr>) (proxyTickets r)\<rparr>))"

definition SaveServiceTicket ::
  "ServiceTicket \<Rightarrow> CASRepository \<Rightarrow> (cas_error + unit) \<times> CASRepository" where
  [store_defs]: "SaveServiceTicket value r =
     (Inr (),
      r\<lparr>tickets := tickets r @ [ServiceTicket.extend value \<lparr>st_consumedAt = None\<rparr>],
        cas_sessions := cas_sessions r @
          [\<lparr>sv_SessionID = st_SessionID value, sv_ClientID = st_ClientID value,
            sv_Service = st_Service value, sv_Ticket = st_Ticket value\<rparr>]\<rparr>)"

definition ConsumeServiceTicket ::
  "bytes \<Rightarrow> string \<Rightarrow> bool \<Rightarrow> time \<Rightarrow> CASRepository \<Rightarrow> (cas_error + ServiceTicket) \<times> CASRepository" where
  [store_defs]: "ConsumeServiceTicket hash service requirePrimary now r =
     (case find (\<lambda>t. st_Hash t = hash \<and> st_Service t = service) (tickets r) of
        None \<Rightarrow> (Inl ErrTicketNotFound, r)
      | Some record' \<Rightarrow>
          if st_consumedAt record' \<noteq> None then (Inl ErrTicketNotFound, r)
          else if requirePrimary \<and> \<not> st_PrimaryCredentials record' then (Inl ErrTicketNotFound, r)
          else if \<not> st_ExpiresAt record' > now then (Inl ErrTicketExpired, r)
          else (Inr (ServiceTicket.truncate record'),
                r\<lparr>tickets :=
                   update_first (\<lambda>t. st_Hash t = hash \<and> st_Service t = service)
                     (\<lambda>t. t\<lparr>st_consumedAt := Some now\<rparr>) (tickets r)\<rparr>))"

definition ListServiceSessions :: "string \<Rightarrow> CASRepository \<Rightarrow> ServiceSession list" where
  [store_defs]: "ListServiceSessions sessionID r =
     filter (\<lambda>v. sv_SessionID v = sessionID) (cas_sessions r)"

definition DeleteServiceSessions ::
  "string \<Rightarrow> CASRepository \<Rightarrow> (cas_error + unit) \<times> CASRepository" where
  [store_defs]: "DeleteServiceSessions sessionID r =
     (Inr (),
      r\<lparr>cas_sessions := filter (\<lambda>v. sv_SessionID v \<noteq> sessionID) (cas_sessions r),
        proxyGrantingTickets := filter (\<lambda>v. pg_SessionID v \<noteq> sessionID) (proxyGrantingTickets r),
        proxyTickets := filter (\<lambda>v. pt_SessionID v \<noteq> sessionID) (proxyTickets r)\<rparr>)"

section \<open>The repository as one machine\<close>

datatype cas_op =
    CasSaveTicket ServiceTicket
  | CasConsumeTicket bytes string bool time
  | CasSavePGT ProxyGrantingTicket
  | CasFindPGT bytes time
  | CasSaveProxy ProxyTicket bytes
  | CasConsumeProxy bytes string bool time
  | CasListSessions string
  | CasDeleteSessions string

datatype cas_value =
    CasDone | CasTicket ServiceTicket | CasPGT ProxyGrantingTicket | CasProxyTicket ProxyTicket
  | CasSessions "ServiceSession list"

type_synonym cas_result = "cas_error + cas_value"

fun cas_step :: "CASRepository \<Rightarrow> cas_op \<Rightarrow> cas_result \<times> CASRepository" where
  "cas_step r (CasSaveTicket v) = apfst (map_sum id (\<lambda>_. CasDone)) (SaveServiceTicket v r)"
| "cas_step r (CasConsumeTicket h s p now) = apfst (map_sum id CasTicket) (ConsumeServiceTicket h s p now r)"
| "cas_step r (CasSavePGT v) = apfst (map_sum id (\<lambda>_. CasDone)) (SaveProxyGrantingTicket v r)"
| "cas_step r (CasFindPGT h now) = (map_sum id CasPGT (FindProxyGrantingTicket h now r), r)"
| "cas_step r (CasSaveProxy v h) = apfst (map_sum id (\<lambda>_. CasDone)) (SaveProxyTicket v h r)"
| "cas_step r (CasConsumeProxy h s p now) = apfst (map_sum id CasProxyTicket) (ConsumeProxyTicket h s p now r)"
| "cas_step r (CasListSessions sid) = (Inr (CasSessions (ListServiceSessions sid r)), r)"
| "cas_step r (CasDeleteSessions sid) = apfst (map_sum id (\<lambda>_. CasDone)) (DeleteServiceSessions sid r)"

lemma isl_apfst_map_sum [simp]: "isl (fst (apfst (map_sum id f) x)) = isl (fst x)"
  by (cases x; cases "fst x") auto

section \<open>One-time use of service tickets\<close>

abbreviation ticket_at :: "bytes \<times> string \<Rightarrow> CASRepository \<Rightarrow> memoryTicket option" where
  "ticket_at k r \<equiv> find (\<lambda>t. st_Hash t = fst k \<and> st_Service t = snd k) (tickets r)"

definition ticket_spent :: "bytes \<times> string \<Rightarrow> CASRepository \<Rightarrow> bool" where
  "ticket_spent k r = (case ticket_at k r of None \<Rightarrow> False | Some t \<Rightarrow> st_consumedAt t \<noteq> None)"

fun ticket_redeemed :: "bytes \<times> string \<Rightarrow> cas_op \<Rightarrow> cas_result \<Rightarrow> bool" where
  "ticket_redeemed k (CasConsumeTicket h s _ _) res = (k = (h, s) \<and> \<not> isl res)"
| "ticket_redeemed k _ res = False"

definition ticket_le :: "memoryTicket \<Rightarrow> memoryTicket \<Rightarrow> bool" where
  "ticket_le t u = (ServiceTicket.truncate t = ServiceTicket.truncate u \<and>
     (st_consumedAt t \<noteq> None \<longrightarrow> st_consumedAt u \<noteq> None))"

lemma ticket_le_refl [simp]: "ticket_le t t"
  by (simp add: ticket_le_def)

lemma ticket_le_fields: "ticket_le t u \<Longrightarrow> st_Hash t = st_Hash u \<and> st_Service t = st_Service u"
  by (simp add: ticket_le_def ServiceTicket.truncate_def)

lemma tickets_evolve: "evolves ticket_le (tickets r) (tickets (snd (cas_step r op)))"
  by (cases op)
    (auto simp: store_defs ticket_le_def ServiceTicket.truncate_def split: option.split
      intro!: evolves_refl evolves_append evolves_update_first)

interpretation ticket_history: append_only cas_step tickets ticket_le
  by unfold_locales (auto simp: ticket_le_def tickets_evolve)

lemma ticket_spent_step: "ticket_spent k r \<Longrightarrow> ticket_spent k (snd (cas_step r op))"
proof -
  assume "ticket_spent k r"
  then obtain t where t: "ticket_at k r = Some t" "st_consumedAt t \<noteq> None"
    by (auto simp: ticket_spent_def split: option.splits)
  obtain u where "ticket_at k (snd (cas_step r op)) = Some u" "ticket_le t u"
    by (rule evolves_find [OF tickets_evolve [of r op] _ t(1)]) (auto dest: ticket_le_fields)
  with t(2) show ?thesis by (simp add: ticket_spent_def ticket_le_def)
qed

interpretation ticket_use: single_use cas_step "\<lambda>_ _. True" "\<lambda>_ _. True" ticket_spent ticket_redeemed
proof unfold_locales
  fix k r op
  show "ticket_redeemed k op (fst (cas_step r op)) \<Longrightarrow> ticket_spent k (snd (cas_step r op))"
    by (cases op) (auto simp: ConsumeServiceTicket_def ticket_spent_def find_update_first_same
        split: option.splits if_splits)
  show "ticket_spent k r \<Longrightarrow> \<not> ticket_redeemed k op (fst (cas_step r op))"
    by (cases op) (auto simp: ConsumeServiceTicket_def ticket_spent_def split: option.splits if_splits)
qed (auto intro: ticket_spent_step)

section \<open>One-time use of proxy tickets\<close>

text \<open>Signing out deletes proxy tickets, so what is spent is that no unconsumed record is left.\<close>

abbreviation proxy_key :: "bytes \<times> string \<Rightarrow> 'a ProxyTicket_scheme \<Rightarrow> bool" where
  "proxy_key k t \<equiv> pt_Hash t = fst k \<and> pt_TargetService t = snd k"

definition proxy_unique :: "bytes \<times> string \<Rightarrow> CASRepository \<Rightarrow> bool" where
  "proxy_unique k r = (length (filter (proxy_key k) (proxyTickets r)) \<le> 1)"

definition proxy_spent :: "bytes \<times> string \<Rightarrow> CASRepository \<Rightarrow> bool" where
  "proxy_spent k r = list_all (\<lambda>t. proxy_key k t \<longrightarrow> pt_consumedAt t \<noteq> None) (proxyTickets r)"

fun proxy_redeemed :: "bytes \<times> string \<Rightarrow> cas_op \<Rightarrow> cas_result \<Rightarrow> bool" where
  "proxy_redeemed k (CasConsumeProxy h s _ _) res = (k = (h, s) \<and> \<not> isl res)"
| "proxy_redeemed k _ res = False"

fun saves_proxy :: "bytes \<times> string \<Rightarrow> cas_op \<Rightarrow> bool" where
  "saves_proxy k (CasSaveProxy v _) = proxy_key k v"
| "saves_proxy k _ = False"

lemma length_filter_update_first:
  "(\<And>x. q (f x) = q x) \<Longrightarrow> length (filter q (update_first p f xs)) = length (filter q xs)"
  by (induction xs) auto

lemma length_filter_filter_le: "length (filter (\<lambda>x. p x \<and> q x) xs) \<le> length (filter q xs)"
  by (induction xs) auto

lemma proxy_unique_step:
  "proxy_unique k r \<Longrightarrow> \<not> saves_proxy k op \<Longrightarrow> proxy_unique k (snd (cas_step r op))"
  by (cases op)
    (auto simp: store_defs proxy_unique_def length_filter_update_first ProxyTicket.extend_def
      split: option.split intro: le_trans [OF length_filter_filter_le])

lemma proxy_spent_step:
  "proxy_spent k r \<Longrightarrow> \<not> saves_proxy k op \<Longrightarrow> proxy_spent k (snd (cas_step r op))"
  by (cases op)
    (auto simp: store_defs proxy_spent_def list_all_iff ProxyTicket.extend_def
      split: option.split dest!: set_update_first)

lemma update_first_spends:
  "length (filter (proxy_key k) ts) \<le> 1 \<Longrightarrow>
   list_all (\<lambda>t. proxy_key k t \<longrightarrow> pt_consumedAt t \<noteq> None)
     (update_first (proxy_key k) (\<lambda>t. t\<lparr>pt_consumedAt := Some now\<rparr>) ts)"
  by (induction ts) (auto simp: list_all_iff filter_empty_conv)

interpretation proxy_use:
  single_use cas_step "\<lambda>k op. \<not> saves_proxy k op" proxy_unique proxy_spent proxy_redeemed
proof unfold_locales
  fix k r op
  show "proxy_unique k r \<Longrightarrow> \<not> saves_proxy k op \<Longrightarrow> proxy_redeemed k op (fst (cas_step r op)) \<Longrightarrow>
      proxy_spent k (snd (cas_step r op))"
    using update_first_spends [of k "proxyTickets r"]
    by (cases op) (auto simp: ConsumeProxyTicket_def proxy_spent_def proxy_unique_def
        split: option.splits if_splits)
  show "proxy_spent k r \<Longrightarrow> \<not> proxy_redeemed k op (fst (cas_step r op))"
    by (cases op) (auto simp: ConsumeProxyTicket_def proxy_spent_def list_all_iff
        dest!: find_SomeD split: option.splits if_splits)
qed (auto intro: proxy_unique_step proxy_spent_step)

section \<open>Proxy chains end with the session\<close>

definition proxies_gone :: "string \<Rightarrow> CASRepository \<Rightarrow> bool" where
  "proxies_gone sid r =
     (list_all (\<lambda>p. pg_SessionID p \<noteq> sid) (proxyGrantingTickets r) \<and>
      list_all (\<lambda>t. pt_SessionID t \<noteq> sid) (proxyTickets r))"

fun issues_proxy :: "string \<Rightarrow> cas_op \<Rightarrow> bool" where
  "issues_proxy sid (CasSavePGT v) = (pg_SessionID v = sid)"
| "issues_proxy sid (CasSaveProxy v _) = (pt_SessionID v = sid)"
| "issues_proxy sid _ = False"

lemma proxies_gone_step:
  "proxies_gone sid r \<Longrightarrow> \<not> issues_proxy sid op \<Longrightarrow> proxies_gone sid (snd (cas_step r op))"
  by (cases op)
    (auto simp: store_defs proxies_gone_def list_all_iff ProxyTicket.extend_def
      split: option.split dest!: set_update_first)

interpretation no_proxies: kept_by_steps cas_step "\<lambda>op. \<not> issues_proxy sid op" "proxies_gone sid" for sid
  by unfold_locales (rule proxies_gone_step)

section \<open>A worked scenario\<close>

definition demo_service_ticket :: ServiceTicket where
  "demo_service_ticket = \<lparr>st_Hash = [1], st_Ticket = ''ST-1'', st_ClientID = ''wiki'',
     st_Service = ''https://wiki'', st_UserID = ''u1'', st_SessionID = ''s1'',
     st_PrimaryCredentials = False, st_IssuedAt = 10, st_ExpiresAt = 100\<rparr>"

definition demo_pgt :: ProxyGrantingTicket where
  "demo_pgt = \<lparr>pg_Hash = [2], pg_ClientID = ''wiki'', pg_UserID = ''u1'', pg_SessionID = ''s1'',
     pg_CallbackURL = ''https://wiki/cb'', pg_Proxies = [], pg_PrimaryCredentials = False,
     pg_IssuedAt = 10, pg_ExpiresAt = 1000\<rparr>"

definition demo_proxy_ticket :: ProxyTicket where
  "demo_proxy_ticket = \<lparr>pt_Hash = [3], pt_ClientID = ''mail'', pt_TargetService = ''https://mail'',
     pt_UserID = ''u1'', pt_SessionID = ''s1'', pt_Proxies = [''https://wiki/cb''],
     pt_PrimaryCredentials = False, pt_IssuedAt = 10, pt_ExpiresAt = 100\<rparr>"

definition demo_tickets :: CASRepository where
  "demo_tickets = final cas_step CAS_NewMemoryRepository
     [CasSaveTicket demo_service_ticket, CasSavePGT demo_pgt, CasSaveProxy demo_proxy_ticket [2]]"

section \<open>Properties\<close>

text \<open>A service ticket is validated at most once for its service, in every run of calls from
  every repository.\<close>
lemma service_ticket_validated_at_most_once:
  "occurrences (ticket_redeemed (h, service)) cas_step r ops \<le> 1"
  by (rule ticket_use.redeemed_at_most_once) (simp_all add: list_all_iff)

text \<open>A proxy ticket that is stored once is validated at most once for its target service, even
  though sign-out deletes records in between.\<close>
lemma proxy_ticket_validated_at_most_once:
  assumes "proxy_unique (h, target) r" and "list_all (\<lambda>op. \<not> saves_proxy (h, target) op) ops"
  shows "occurrences (proxy_redeemed (h, target)) cas_step r ops \<le> 1"
  using assms by (rule proxy_use.redeemed_at_most_once)

text \<open>Signing out ends proxying: after \<open>DeleteServiceSessions\<close>, and whatever calls follow
  that issue nothing new to the session, no proxy-granting ticket and no proxy ticket of the session
  is accepted.\<close>
lemma sign_out_ends_proxying:
  assumes "list_all (\<lambda>op. \<not> issues_proxy sid op) ops"
    and "r' = final cas_step (snd (DeleteServiceSessions sid r)) ops"
  shows "(FindProxyGrantingTicket h now r' = Inr p \<longrightarrow> pg_SessionID p \<noteq> sid) \<and>
    (fst (ConsumeProxyTicket h target primary now r') = Inr t \<longrightarrow> pt_SessionID t \<noteq> sid)"
proof -
  have "proxies_gone sid (snd (DeleteServiceSessions sid r))"
    by (simp add: DeleteServiceSessions_def proxies_gone_def list_all_iff)
  from no_proxies.kept_final [OF this assms(1)] assms(2) show ?thesis
    by (auto simp: proxies_gone_def list_all_iff FindProxyGrantingTicket_def ConsumeProxyTicket_def
        ProxyTicket.truncate_def dest!: find_SomeD split: option.splits if_splits)
qed

text \<open>Signing out does not withdraw service tickets: \<open>DeleteServiceSessions\<close> removes the
  session's single-logout records but leaves its unused service tickets, which are validated
  afterwards exactly as before.\<close>
lemma sign_out_keeps_service_tickets:
  "ListServiceSessions sid (snd (DeleteServiceSessions sid r)) = [] \<and>
   fst (ConsumeServiceTicket h service primary now (snd (DeleteServiceSessions sid r))) =
   fst (ConsumeServiceTicket h service primary now r)"
  by (simp add: DeleteServiceSessions_def ListServiceSessions_def ConsumeServiceTicket_def
      split: option.split)

end
