(* ===== verification/Rate_Limit.thy ===== *)
theory Rate_Limit
  imports Certus_Prelude
begin

text \<open>
  The fixed-window rate limiter of \<open>internal/ratelimit/ratelimit.go\<close>: policies, the service that
  builds an attempt and the in-memory table of buckets with its pruning and eviction.
  \<open>sha256\<close> is the hash function of \<open>crypto/sha256\<close>.
\<close>

section \<open>Data\<close>

datatype ratelimit_error = ErrInvalidPolicy | ErrInvalidKey | ErrRateRepositoryUnavailable

record Policy =
  po_Limit :: int
  po_Window :: duration

record Attempt =
  am_Scope :: string
  am_SubjectHash :: bytes
  am_Limit :: int
  am_Window :: duration
  am_Now :: time

record Decision =
  de_Allowed :: bool
  de_Remaining :: int
  de_ResetAt :: time

record memoryBucket =
  bu_attempts :: int
  bu_resetAt :: time
  bu_touched :: time

record RateRepository =
  buckets :: "(string, memoryBucket) gomap"
  maxSize :: int

definition Rate_NewMemoryRepository :: RateRepository where
  "Rate_NewMemoryRepository = \<lparr>buckets = [], maxSize = 10000\<rparr>"

section \<open>Operations\<close>

definition Policy_Enabled :: "Policy \<Rightarrow> bool" where
  "Policy_Enabled p = (po_Limit p > 0 \<and> po_Window p > 0)"

definition Policy_Validate :: "Policy \<Rightarrow> ratelimit_error + unit" where
  "Policy_Validate p =
     (if po_Limit p = 0 \<and> po_Window p = 0 then Inr ()
      else if po_Limit p < 1 \<or> po_Limit p > 1000000 \<or> po_Window p < second \<or> po_Window p > 24 * hour
      then Inl ErrInvalidPolicy else Inr ())"

text \<open>\<open>^[a-z][a-z0-9_.-]{0,63}$\<close>\<close>

definition scope_char :: "char \<Rightarrow> bool" where
  "scope_char c = (is_lower c \<or> is_digit c \<or> c \<in> {CHR ''_'', CHR ''.'', CHR ''-''})"

definition scopePattern :: "string \<Rightarrow> bool" where
  "scopePattern s =
     (case s of [] \<Rightarrow> False | c # t \<Rightarrow> is_lower c \<and> list_all scope_char t \<and> length t \<le> 63)"

definition validateAttempt :: "Attempt \<Rightarrow> ratelimit_error + unit" where
  "validateAttempt attempt =
     (if \<not> scopePattern (am_Scope attempt) \<or> am_Limit attempt < 1 \<or> am_Limit attempt > 1000000 \<or>
         am_Window attempt < second \<or> am_Window attempt > 24 * hour \<or> am_Now attempt = 0
      then Inl ErrInvalidPolicy else Inr ())"

definition decision :: "int \<Rightarrow> int \<Rightarrow> time \<Rightarrow> Decision" where
  "decision attempts limit resetAt =
     \<lparr>de_Allowed = (attempts \<le> limit), de_Remaining = max (limit - attempts) 0, de_ResetAt = resetAt\<rparr>"

definition prune :: "time \<Rightarrow> RateRepository \<Rightarrow> RateRepository" where
  "prune now r = r\<lparr>buckets := map_keep (\<lambda>_ bucket. now < bu_resetAt bucket) (buckets r)\<rparr>"

fun oldest_loop :: "string \<Rightarrow> time \<Rightarrow> (string, memoryBucket) gomap \<Rightarrow> string" where
  "oldest_loop oldestKey oldest [] = oldestKey"
| "oldest_loop oldestKey oldest ((key, bucket) # bs) =
     (if oldestKey = [] \<or> bu_touched bucket < oldest
      then oldest_loop key (bu_touched bucket) bs
      else oldest_loop oldestKey oldest bs)"

definition evictOldest :: "RateRepository \<Rightarrow> RateRepository" where
  "evictOldest r =
     (let oldestKey = oldest_loop [] 0 (buckets r)
      in if oldestKey \<noteq> [] then r\<lparr>buckets := map_delete oldestKey (buckets r)\<rparr> else r)"

definition bucket_key :: "Attempt \<Rightarrow> string" where
  "bucket_key attempt = am_Scope attempt @ [char_of (0 :: nat)] @ string_of (am_SubjectHash attempt)"

definition make_room :: "time \<Rightarrow> RateRepository \<Rightarrow> RateRepository" where
  "make_room now r =
     (let r1 = (if maxSize r \<le> 0 then r\<lparr>maxSize := 10000\<rparr> else r);
          r2 = (if int (length (buckets r1)) \<ge> maxSize r1 then prune now r1 else r1)
      in if int (length (buckets r2)) \<ge> maxSize r2 then evictOldest r2 else r2)"

definition Take ::
  "Attempt \<Rightarrow> RateRepository \<Rightarrow> (ratelimit_error + Decision) \<times> RateRepository" where
  "Take attempt r =
     (case validateAttempt attempt of
        Inl err \<Rightarrow> (Inl err, r)
      | Inr _ \<Rightarrow>
          let key = bucket_key attempt;
              r1 = make_room (am_Now attempt) r;
              fresh = \<lparr>bu_attempts = 1, bu_resetAt = am_Now attempt + am_Window attempt,
                       bu_touched = am_Now attempt\<rparr>;
              bucket = (case map_of (buckets r1) key of
                          None \<Rightarrow> fresh
                        | Some b \<Rightarrow>
                            if bu_resetAt b = 0 \<or> \<not> am_Now attempt < bu_resetAt b then fresh
                            else b\<lparr>bu_attempts := min (bu_attempts b + 1) (am_Limit attempt + 1),
                                   bu_touched := am_Now attempt\<rparr>)
          in (Inr (decision (bu_attempts bucket) (am_Limit attempt) (bu_resetAt bucket)),
              r1\<lparr>buckets := map_put key bucket (buckets r1)\<rparr>))"

text \<open>\<open>Service.Allow\<close>; a missing repository is \<open>None\<close>.\<close>

definition Allow ::
  "(bytes \<Rightarrow> bytes) \<Rightarrow> string \<Rightarrow> string \<Rightarrow> Policy \<Rightarrow> time \<Rightarrow> RateRepository option \<Rightarrow>
   (ratelimit_error + Decision) \<times> RateRepository option" where
  "Allow sha256 scope subject policy now s =
     (if \<not> Policy_Enabled policy
      then (Inr \<lparr>de_Allowed = True, de_Remaining = 0, de_ResetAt = 0\<rparr>, s)
      else case Policy_Validate policy of
        Inl err \<Rightarrow> (Inl err, s)
      | Inr _ \<Rightarrow>
          let scope' = TrimSpace scope; subject' = TrimSpace subject in
          if \<not> scopePattern scope' \<or> subject' = [] then (Inl ErrInvalidKey, s)
          else case s of
            None \<Rightarrow> (Inl ErrRateRepositoryUnavailable, s)
          | Some r \<Rightarrow>
              apsnd Some (Take \<lparr>am_Scope = scope',
                 am_SubjectHash = sha256 (bytes_of (scope' @ [char_of (0 :: nat)] @ subject')),
                 am_Limit = po_Limit policy, am_Window = po_Window policy, am_Now = now\<rparr> r))"

section \<open>Counting inside a window\<close>

definition take_step :: "RateRepository \<Rightarrow> Attempt \<Rightarrow> (ratelimit_error + Decision) \<times> RateRepository" where
  "take_step r a = Take a r"

definition allowed_for :: "string \<Rightarrow> Attempt \<Rightarrow> ratelimit_error + Decision \<Rightarrow> bool" where
  "allowed_for k a res = (bucket_key a = k \<and> (case res of Inl _ \<Rightarrow> False | Inr d \<Rightarrow> de_Allowed d))"

definition attempts_of :: "string \<Rightarrow> Attempt list \<Rightarrow> nat" where
  "attempts_of k as = length (filter (\<lambda>a. bucket_key a = k) as)"

text \<open>Room for every attempt of a run: eviction never starts.\<close>

definition has_room :: "RateRepository \<Rightarrow> nat \<Rightarrow> bool" where
  "has_room r n = (maxSize r > 0 \<and> int (length (buckets r) + n) \<le> maxSize r)"

lemma make_room_id: "has_room r (Suc n) \<Longrightarrow> make_room now r = r"
  by (simp add: has_room_def make_room_def Let_def)

lemma has_room_Take: "has_room r (Suc n) \<Longrightarrow> has_room (snd (Take a r)) n"
  using make_room_id [of r n "am_Now a"]
  by (auto simp: Take_def Let_def has_room_def length_put split: sum.split option.split)

lemma Take_other:
  assumes "has_room r (Suc n)" and "bucket_key a \<noteq> k"
  shows "map_of (buckets (snd (Take a r))) k = map_of (buckets r) k"
  using assms make_room_id [OF assms(1)]
  by (auto simp: Take_def Let_def split: sum.split)

lemma Take_counting:
  assumes "has_room r (Suc n)" and "bucket_key a = k" and "validateAttempt a = Inr ()"
    and "map_of (buckets r) k = Some b" and "bu_resetAt b \<noteq> 0" and "am_Now a < bu_resetAt b"
  shows "fst (Take a r) = Inr (decision (min (bu_attempts b + 1) (am_Limit a + 1)) (am_Limit a) (bu_resetAt b))"
    and "map_of (buckets (snd (Take a r))) k =
      Some (b\<lparr>bu_attempts := min (bu_attempts b + 1) (am_Limit a + 1), bu_touched := am_Now a\<rparr>)"
  using assms make_room_id [OF assms(1)] by (simp_all add: Take_def Let_def)

definition in_window :: "string \<Rightarrow> int \<Rightarrow> time \<Rightarrow> Attempt \<Rightarrow> bool" where
  "in_window k limit resetAt a = (validateAttempt a = Inr () \<and>
     (bucket_key a = k \<longrightarrow> am_Limit a = limit \<and> am_Now a < resetAt))"

lemma window_count:
  assumes "map_of (buckets r) k = Some b" and "bu_resetAt b = t" and "t \<noteq> 0"
    and "has_room r (length as)" and "list_all (in_window k limit t) as"
    and "0 \<le> bu_attempts b" and "bu_attempts b \<le> limit + 1"
  shows "int (occurrences (allowed_for k) take_step r as) =
     min (max (limit - bu_attempts b) 0) (int (attempts_of k as))"
  using assms
proof (induction as arbitrary: r b)
  case Nil
  then show ?case by (simp add: attempts_of_def)
next
  case (Cons a as)
  from Cons.prems have room: "has_room r (Suc (length as))" and a: "in_window k limit t a"
    and as: "list_all (in_window k limit t) as" by simp_all
  have room': "has_room (snd (Take a r)) (length as)" by (rule has_room_Take [OF room])
  show ?case
  proof (cases "bucket_key a = k")
    case False
    have "map_of (buckets (snd (Take a r))) k = Some b"
      using Take_other [OF room False] Cons.prems(1) by simp
    from Cons.IH [OF this Cons.prems(2,3) room' as Cons.prems(6,7)] False show ?thesis
      by (simp add: take_step_def [of r a] allowed_for_def [of k a] attempts_of_def)
  next
    case True
    let ?n = "min (bu_attempts b + 1) (limit + 1)"
    let ?b = "b\<lparr>bu_attempts := ?n, bu_touched := am_Now a\<rparr>"
    from a True have lim: "am_Limit a = limit" and now: "am_Now a < bu_resetAt b"
      and valid: "validateAttempt a = Inr ()" using Cons.prems(2) by (auto simp: in_window_def)
    note t = Take_counting [OF room True valid Cons.prems(1) _ now, unfolded lim]
    have "map_of (buckets (snd (Take a r))) k = Some ?b" using t(2) Cons.prems(2,3) by simp
    moreover have "bu_resetAt ?b = t" "0 \<le> bu_attempts ?b" "bu_attempts ?b \<le> limit + 1"
      using Cons.prems(2,6,7) by simp_all
    ultimately have "int (occurrences (allowed_for k) take_step (snd (Take a r)) as) =
        min (max (limit - ?n) 0) (int (attempts_of k as))"
      using Cons.IH [OF _ _ Cons.prems(3) room' as] by simp
    moreover have "allowed_for k a (fst (Take a r)) \<longleftrightarrow> bu_attempts b + 1 \<le> limit"
      using t(1) Cons.prems(2,3) True by (auto simp: allowed_for_def decision_def)
    ultimately have "int (if allowed_for k a (fst (take_step r a)) then 1 else 0) +
        int (occurrences (allowed_for k) take_step (snd (take_step r a)) as) =
        min (max (limit - bu_attempts b) 0) (1 + int (attempts_of k as))"
      by (simp add: take_step_def [of r a]) linarith
    then show ?thesis using True by (simp add: attempts_of_def)
  qed
qed

lemma Take_first:
  assumes "has_room r (Suc n)" and "bucket_key a = k" and "validateAttempt a = Inr ()"
    and "case map_of (buckets r) k of None \<Rightarrow> True | Some b \<Rightarrow> bu_resetAt b \<le> am_Now a"
  shows "fst (Take a r) = Inr (decision 1 (am_Limit a) (am_Now a + am_Window a))"
    and "map_of (buckets (snd (Take a r))) k =
      Some \<lparr>bu_attempts = 1, bu_resetAt = am_Now a + am_Window a, bu_touched = am_Now a\<rparr>"
  using assms make_room_id [OF assms(1)] by (auto simp: Take_def Let_def split: option.splits)

section \<open>Eviction\<close>

lemma oldest_loop_spec:
  "k0 \<noteq> [] \<Longrightarrow> list_all (\<lambda>(k, b). k \<noteq> []) bs \<Longrightarrow>
   (oldest_loop k0 t0 bs = k0 \<and> (\<forall>(k, b) \<in> set bs. t0 \<le> bu_touched b)) \<or>
   (\<exists>b. (oldest_loop k0 t0 bs, b) \<in> set bs \<and> bu_touched b < t0 \<and>
      (\<forall>(k, b') \<in> set bs. bu_touched b \<le> bu_touched b'))"
proof (induction k0 t0 bs rule: oldest_loop.induct)
  case (2 k0 t0 key bucket bs)
  have key: "key \<noteq> []" and bs: "list_all (\<lambda>(k, b). k \<noteq> []) bs" using "2.prems" by simp_all
  show ?case
  proof (cases "bu_touched bucket < t0")
    case True
    with "2.IH"(1) [OF _ key bs] show ?thesis by auto
  next
    case False
    with "2.IH"(2) [OF _ "2.prems"(1) bs] "2.prems"(1) show ?thesis by auto
  qed
qed simp

lemma evictOldest_oldest:
  assumes "list_all (\<lambda>(k, b). k \<noteq> []) (buckets r)" and "(k, b) \<in> set (buckets r)"
    and "\<forall>(k', b') \<in> set (buckets r). k' \<noteq> k \<longrightarrow> bu_touched b < bu_touched b'"
    and "gomap_ok (buckets r)"
  shows "evictOldest r = r\<lparr>buckets := map_delete k (buckets r)\<rparr>"
proof -
  obtain k1 b1 bs where bs: "buckets r = (k1, b1) # bs" using assms(2) by (cases "buckets r") auto
  have "oldest_loop [] 0 (buckets r) = oldest_loop k1 (bu_touched b1) bs" by (simp add: bs)
  moreover have "\<exists>b'. (oldest_loop k1 (bu_touched b1) bs, b') \<in> set (buckets r) \<and> bu_touched b' \<le> bu_touched b"
    using oldest_loop_spec [of k1 bs "bu_touched b1"] assms(1,2) by (fastforce simp: bs)
  ultimately have "oldest_loop [] 0 (buckets r) = k" using assms(3) by fastforce
  moreover have "k \<noteq> []" using assms(1,2) by (auto simp: list_all_iff)
  ultimately show ?thesis by (simp add: evictOldest_def)
qed

lemma bucket_key_nonempty: "bucket_key a \<noteq> []"
  by (simp add: bucket_key_def)

abbreviation named_buckets :: "RateRepository \<Rightarrow> bool" where
  "named_buckets r \<equiv> gomap_ok (buckets r) \<and> list_all (\<lambda>(k, b). k \<noteq> []) (buckets r)"

lemma evictOldest_shrinks:
  assumes "named_buckets r" and "buckets r \<noteq> []"
  shows "named_buckets (evictOldest r) \<and> maxSize (evictOldest r) = maxSize r \<and>
    length (buckets (evictOldest r)) < length (buckets r)"
proof -
  obtain k1 b1 bs where bs: "buckets r = (k1, b1) # bs" using assms(2) by (cases "buckets r") auto
  have "\<exists>b. (oldest_loop [] 0 (buckets r), b) \<in> set (buckets r)"
    using oldest_loop_spec [of k1 bs "bu_touched b1"] assms(1) by (auto simp: bs)
  then obtain b where in_r: "(oldest_loop [] 0 (buckets r), b) \<in> set (buckets r)" ..
  then have ne: "oldest_loop [] 0 (buckets r) \<noteq> []" using assms(1) by (auto simp: list_all_iff)
  have "length (map_delete k xs) < length xs" if "(k, b) \<in> set xs" for k b and xs :: "(string, memoryBucket) gomap"
    using that by (auto simp: AList.delete_eq intro: length_filter_less)
  with in_r ne assms(1) show ?thesis by (simp add: evictOldest_def list_all_iff)
qed

lemma prune_shrinks:
  "named_buckets r \<Longrightarrow> named_buckets (prune now r) \<and> maxSize (prune now r) = maxSize r \<and>
     length (buckets (prune now r)) \<le> length (buckets r)"
  by (auto simp: prune_def list_all_iff) (simp add: map_keep_def)

lemma make_room_size:
  assumes "named_buckets r" and "0 < maxSize r" and "int (length (buckets r)) \<le> maxSize r"
  shows "named_buckets (make_room now r) \<and> maxSize (make_room now r) = maxSize r \<and>
    int (length (buckets (make_room now r))) < maxSize r"
proof (cases "int (length (buckets r)) < maxSize r")
  case True
  with assms show ?thesis by (simp add: make_room_def Let_def)
next
  case False
  note p = prune_shrinks [OF assms(1), of now]
  show ?thesis
  proof (cases "int (length (buckets (prune now r))) < maxSize r")
    case True
    with False assms p show ?thesis by (simp add: make_room_def Let_def)
  next
    case still: False
    then have "buckets (prune now r) \<noteq> []" using assms(2) by auto
    moreover have "make_room now r = evictOldest (prune now r)"
      using False still assms p by (simp add: make_room_def Let_def)
    ultimately show ?thesis using evictOldest_shrinks [of "prune now r"] p assms(3) by auto
  qed
qed

lemma Take_size:
  assumes "named_buckets r" and "0 < maxSize r" and "int (length (buckets r)) \<le> maxSize r"
  shows "named_buckets (snd (Take a r)) \<and> maxSize (snd (Take a r)) = maxSize r \<and>
    int (length (buckets (snd (Take a r)))) \<le> maxSize r"
proof -
  let ?r = "make_room (am_Now a) r"
  note room = make_room_size [OF assms, of "am_Now a"]
  have "k \<noteq> []" if "(k, b) \<in> set (map_put (bucket_key a) v (buckets ?r))" for k b v
    using set_put_subset [OF that] room bucket_key_nonempty [of a] by (auto simp: list_all_iff)
  with room assms show ?thesis
    by (auto simp: Take_def Let_def length_put list_all_iff split: sum.split)
qed

definition rate_ok :: "RateRepository \<Rightarrow> bool" where
  "rate_ok r = (gomap_ok (buckets r) \<and> maxSize r = 10000 \<and> length (buckets r) \<le> 10000 \<and>
     list_all (\<lambda>(k, b). k \<noteq> []) (buckets r))"

interpretation rate_table: kept_by_steps take_step "\<lambda>_. True" rate_ok
proof unfold_locales
  fix r a assume "rate_ok r"
  with Take_size [of r a] show "rate_ok (snd (take_step r a))" by (simp add: take_step_def rate_ok_def)
qed

section \<open>A worked scenario\<close>

definition demo_attempt :: "nat \<Rightarrow> time \<Rightarrow> Attempt" where
  "demo_attempt subject now = \<lparr>am_Scope = ''login'', am_SubjectHash = [of_nat subject], am_Limit = 2,
     am_Window = minute, am_Now = now\<rparr>"

section \<open>Properties\<close>

text \<open>C34: Inside one window exactly the first \<open>limit\<close> attempts of a subject are allowed and every
  further one is refused, however many attempts of other subjects are interleaved, as long as the
  table has room for all of them.\<close>
theorem rate_limit_exact:
  assumes "case map_of (buckets r) (bucket_key a) of None \<Rightarrow> True | Some b \<Rightarrow> bu_resetAt b \<le> am_Now a"
    and "validateAttempt a = Inr ()" and "0 < am_Now a + am_Window a"
    and "has_room r (Suc (length as))"
    and "list_all (in_window (bucket_key a) (am_Limit a) (am_Now a + am_Window a)) as"
  shows "int (occurrences (allowed_for (bucket_key a)) take_step r (a # as)) =
    min (am_Limit a) (int (attempts_of (bucket_key a) (a # as)))"
proof -
  let ?k = "bucket_key a" and ?r = "snd (take_step r a)"
  have valid: "1 \<le> am_Limit a" using assms(2) by (simp add: validateAttempt_def split: if_splits)
  note first = Take_first [OF assms(4) refl assms(2,1), folded take_step_def]
  have "allowed_for ?k a (fst (take_step r a))"
    using first(1) valid by (simp add: allowed_for_def decision_def)
  moreover have "int (occurrences (allowed_for ?k) take_step ?r as) =
      min (max (am_Limit a - 1) 0) (int (attempts_of ?k as))"
    using window_count [OF first(2) _ _ _ assms(5)] has_room_Take [OF assms(4), folded take_step_def]
      assms(3) valid by simp
  ultimately show ?thesis using valid by (simp add: attempts_of_def)
qed

theorem rate_limit_exact_witness:
  "occurrences (allowed_for (bucket_key (demo_attempt 1 10))) take_step Rate_NewMemoryRepository
     [demo_attempt 1 10, demo_attempt 2 11, demo_attempt 1 12, demo_attempt 1 13] = 2"
proof -
  let ?as = "[demo_attempt 2 11, demo_attempt 1 12, demo_attempt 1 13]"
  have "case map_of (buckets Rate_NewMemoryRepository) (bucket_key (demo_attempt 1 10)) of
      None \<Rightarrow> True | Some b \<Rightarrow> bu_resetAt b \<le> am_Now (demo_attempt 1 10)"
    "validateAttempt (demo_attempt 1 10) = Inr ()"
    "0 < am_Now (demo_attempt 1 10) + am_Window (demo_attempt 1 10)"
    "has_room Rate_NewMemoryRepository (Suc (length ?as))"
    "list_all (in_window (bucket_key (demo_attempt 1 10)) (am_Limit (demo_attempt 1 10))
       (am_Now (demo_attempt 1 10) + am_Window (demo_attempt 1 10))) ?as"
    "min (am_Limit (demo_attempt 1 10)) (int (attempts_of (bucket_key (demo_attempt 1 10)) (demo_attempt 1 10 # ?as))) = 2"
    by code_simp+
  from rate_limit_exact [OF this(1-5)] this(6) show ?thesis by linarith
qed

text \<open>The table never outgrows its bound of ten thousand buckets, in any run of attempts, valid or
  not.\<close>
lemma rate_table_bounded:
  "length (buckets (final take_step Rate_NewMemoryRepository as)) \<le> 10000"
proof -
  have "rate_ok (final take_step Rate_NewMemoryRepository as)"
    by (rule rate_table.kept_final) (simp_all add: rate_ok_def Rate_NewMemoryRepository_def list_all_iff)
  then show ?thesis by (simp add: rate_ok_def)
qed

text \<open>When the table is full, an attempt can evict the bucket of its own subject: if that bucket is
  the one touched longest ago and none has expired, the attempt is counted as the first of a new
  window and allowed, however many attempts the subject has already made.\<close>
lemma full_table_forgets_own_bucket:
  assumes "gomap_ok (buckets r)" and "list_all (\<lambda>(k, b). k \<noteq> []) (buckets r)"
    and "0 < maxSize r" and "int (length (buckets r)) = maxSize r"
    and "\<forall>(k, b) \<in> set (buckets r). am_Now a < bu_resetAt b"
    and "(bucket_key a, b) \<in> set (buckets r)"
    and "\<forall>(k', b') \<in> set (buckets r). k' \<noteq> bucket_key a \<longrightarrow> bu_touched b < bu_touched b'"
    and "validateAttempt a = Inr ()"
  shows "fst (Take a r) = Inr (decision 1 (am_Limit a) (am_Now a + am_Window a))"
proof -
  have "prune (am_Now a) r = r"
    using assms(5) by (auto simp: prune_def map_keep_def intro!: filter_True)
  then have "make_room (am_Now a) r = r\<lparr>buckets := map_delete (bucket_key a) (buckets r)\<rparr>"
    using assms(3,4) evictOldest_oldest [OF assms(2,6,7,1)] by (simp add: make_room_def Let_def)
  then show ?thesis using assms(8) by (simp add: Take_def Let_def)
qed

end
