(* ===== verification/Access_Control.thy ===== *)
theory Access_Control
  imports Go_Encoding "HOL-Library.Product_Lexorder"
begin

text \<open>
  Client roles and permissions: \<open>internal/access/access.go\<close> (validated constructors) and
  \<open>internal/access/memory_repository.go\<close> (the repository). A Go set \<open>map[string]struct{}\<close> is
  a list without duplicates. \<open>Effective\<close> reads the repository twice, releasing the lock in
  between, so its model takes the two repository states it can see.
\<close>

section \<open>Data\<close>

datatype access_error =
    ErrAccessNotFound | ErrAccessConflict | ErrAccessInUse | ErrAccessInvalid | ErrAccessRandom

record Role =
  ro_ID :: string
  ro_ClientID :: string
  ro_Code :: string
  ro_Name :: string
  ro_Description :: string
  ro_CreatedAt :: time
  ro_UpdatedAt :: time

record Permission =
  pe_ID :: string
  pe_ClientID :: string
  pe_Code :: string
  pe_Name :: string
  pe_Description :: string
  pe_CreatedAt :: time
  pe_UpdatedAt :: time

text \<open>\<open>CreateRole\<close>, \<open>CreatePermission\<close>, \<open>UpdateRole\<close> and \<open>UpdatePermission\<close> have the same
  three fields.\<close>

record access_input =
  ai_Code :: string
  ai_Name :: string
  ai_Description :: string

record RoleGrant =
  rg_RoleID :: string
  rg_ExpiresAt :: "time option"

record UserRole =
  ur_UserID :: string
  ur_Role :: Role
  ur_GrantedAt :: time
  ur_GrantedBy :: string
  ur_ExpiresAt :: "time option"

record Entitlements =
  en_UserID :: string
  en_ClientID :: string
  en_Roles :: "string list"
  en_Permissions :: "string list"

record memoryUserRole =
  mu_UserID :: string
  mu_RoleID :: string
  mu_GrantedAt :: time
  mu_GrantedBy :: string
  mu_ExpiresAt :: "time option"

record AccessRepository =
  roles :: "(string, Role) gomap"
  permissions :: "(string, Permission) gomap"
  rolePermissions :: "(string, string list) gomap"
  userRoles :: "memoryUserRole list"

definition Access_NewMemoryRepository :: AccessRepository where
  "Access_NewMemoryRepository = \<lparr>roles = [], permissions = [], rolePermissions = [], userRoles = []\<rparr>"

section \<open>Validated constructors\<close>

text \<open>\<open>^[a-z][a-z0-9._-]{1,63}$\<close>\<close>

definition code_char :: "char \<Rightarrow> bool" where
  "code_char c = (is_lower c \<or> is_digit c \<or> c \<in> {CHR ''.'', CHR ''_'', CHR ''-''})"

definition codePattern :: "string \<Rightarrow> bool" where
  "codePattern s = (case s of [] \<Rightarrow> False
     | c # t \<Rightarrow> is_lower c \<and> list_all code_char t \<and> 1 \<le> length t \<and> length t \<le> 63)"

definition validateDefinition ::
  "string \<Rightarrow> string \<Rightarrow> string \<Rightarrow> string \<Rightarrow> access_error + string \<times> string \<times> string" where
  "validateDefinition clientID rawCode rawName rawDescription =
     (if TrimSpace clientID = [] then Inl ErrAccessInvalid
      else let code = ToLower (TrimSpace rawCode);
               name = TrimSpace rawName;
               description = TrimSpace rawDescription
           in if \<not> codePattern code then Inl ErrAccessInvalid
              else if name = [] \<or> rune_count name > 128 then Inl ErrAccessInvalid
              else if rune_count description > 512 then Inl ErrAccessInvalid
              else Inr (code, name, description))"

definition NewRole :: "bytes option \<Rightarrow> string \<Rightarrow> access_input \<Rightarrow> time \<Rightarrow> access_error + Role" where
  "NewRole random clientID input now =
     (case RandomUUID random of
        Inl _ \<Rightarrow> Inl ErrAccessRandom
      | Inr rid \<Rightarrow>
          (case validateDefinition clientID (ai_Code input) (ai_Name input) (ai_Description input) of
             Inl err \<Rightarrow> Inl err
           | Inr (code, name, description) \<Rightarrow>
               Inr \<lparr>ro_ID = rid, ro_ClientID = TrimSpace clientID, ro_Code = code, ro_Name = name,
                    ro_Description = description, ro_CreatedAt = now, ro_UpdatedAt = now\<rparr>))"

definition NewPermission ::
  "bytes option \<Rightarrow> string \<Rightarrow> access_input \<Rightarrow> time \<Rightarrow> access_error + Permission" where
  "NewPermission random clientID input now =
     (case RandomUUID random of
        Inl _ \<Rightarrow> Inl ErrAccessRandom
      | Inr rid \<Rightarrow>
          (case validateDefinition clientID (ai_Code input) (ai_Name input) (ai_Description input) of
             Inl err \<Rightarrow> Inl err
           | Inr (code, name, description) \<Rightarrow>
               Inr \<lparr>pe_ID = rid, pe_ClientID = TrimSpace clientID, pe_Code = code, pe_Name = name,
                    pe_Description = description, pe_CreatedAt = now, pe_UpdatedAt = now\<rparr>))"

definition Role_Updated :: "Role \<Rightarrow> access_input \<Rightarrow> time \<Rightarrow> access_error + Role" where
  "Role_Updated r input now =
     (case validateDefinition (ro_ClientID r) (ai_Code input) (ai_Name input) (ai_Description input) of
        Inl err \<Rightarrow> Inl err
      | Inr (code, name, description) \<Rightarrow>
          Inr (r\<lparr>ro_Code := code, ro_Name := name, ro_Description := description, ro_UpdatedAt := now\<rparr>))"

definition Permission_Updated :: "Permission \<Rightarrow> access_input \<Rightarrow> time \<Rightarrow> access_error + Permission" where
  "Permission_Updated p input now =
     (case validateDefinition (pe_ClientID p) (ai_Code input) (ai_Name input) (ai_Description input) of
        Inl err \<Rightarrow> Inl err
      | Inr (code, name, description) \<Rightarrow>
          Inr (p\<lparr>pe_Code := code, pe_Name := name, pe_Description := description, pe_UpdatedAt := now\<rparr>))"

fun grants_loop :: "string list \<Rightarrow> time \<Rightarrow> RoleGrant list \<Rightarrow> access_error + unit" where
  "grants_loop seen now [] = Inr ()"
| "grants_loop seen now (value # values) =
     (if TrimSpace (rg_RoleID value) = [] then Inl ErrAccessInvalid
      else if rg_RoleID value \<in> set seen then Inl ErrAccessInvalid
      else if (case rg_ExpiresAt value of None \<Rightarrow> False | Some t \<Rightarrow> \<not> t > now) then Inl ErrAccessInvalid
      else grants_loop (rg_RoleID value # seen) now values)"

definition ValidateRoleGrants :: "RoleGrant list \<Rightarrow> time \<Rightarrow> access_error + unit" where
  "ValidateRoleGrants values now = grants_loop [] now values"

section \<open>Repository\<close>

definition ListRoles :: "string \<Rightarrow> AccessRepository \<Rightarrow> Role list" where
  [store_defs]: "ListRoles clientID r =
     sort_key ro_Code (filter (\<lambda>role. ro_ClientID role = clientID) (map snd (roles r)))"

definition CreateRole :: "Role \<Rightarrow> AccessRepository \<Rightarrow> (access_error + Role) \<times> AccessRepository" where
  [store_defs]: "CreateRole value r =
     (if \<exists>(_, existing) \<in> set (roles r).
           ro_ClientID existing = ro_ClientID value \<and> ro_Code existing = ro_Code value
      then (Inl ErrAccessConflict, r)
      else (Inr value, r\<lparr>roles := map_put (ro_ID value) value (roles r)\<rparr>))"

definition FindRole :: "string \<Rightarrow> string \<Rightarrow> AccessRepository \<Rightarrow> access_error + Role" where
  [store_defs]: "FindRole clientID roleID r =
     (case map_of (roles r) roleID of None \<Rightarrow> Inl ErrAccessNotFound
      | Some value \<Rightarrow> if ro_ClientID value \<noteq> clientID then Inl ErrAccessNotFound else Inr value)"

definition ReplaceRole :: "Role \<Rightarrow> AccessRepository \<Rightarrow> (access_error + Role) \<times> AccessRepository" where
  [store_defs]: "ReplaceRole value r =
     (case map_of (roles r) (ro_ID value) of None \<Rightarrow> (Inl ErrAccessNotFound, r)
      | Some current \<Rightarrow>
          if ro_ClientID current \<noteq> ro_ClientID value then (Inl ErrAccessNotFound, r)
          else if \<exists>(rid, existing) \<in> set (roles r). rid \<noteq> ro_ID value \<and>
             ro_ClientID existing = ro_ClientID value \<and> ro_Code existing = ro_Code value
          then (Inl ErrAccessConflict, r)
          else (Inr value, r\<lparr>roles := map_put (ro_ID value) value (roles r)\<rparr>))"

definition DeleteRole ::
  "string \<Rightarrow> string \<Rightarrow> AccessRepository \<Rightarrow> (access_error + unit) \<times> AccessRepository" where
  [store_defs]: "DeleteRole clientID roleID r =
     (case map_of (roles r) roleID of None \<Rightarrow> (Inl ErrAccessNotFound, r)
      | Some value \<Rightarrow>
          if ro_ClientID value \<noteq> clientID then (Inl ErrAccessNotFound, r)
          else if \<exists>assignment \<in> set (userRoles r). mu_RoleID assignment = roleID
          then (Inl ErrAccessInUse, r)
          else (Inr (), r\<lparr>roles := map_delete roleID (roles r),
                          rolePermissions := map_delete roleID (rolePermissions r)\<rparr>))"

definition ListPermissions :: "string \<Rightarrow> AccessRepository \<Rightarrow> Permission list" where
  [store_defs]: "ListPermissions clientID r =
     sort_key pe_Code (filter (\<lambda>permission. pe_ClientID permission = clientID) (map snd (permissions r)))"

definition CreatePermission ::
  "Permission \<Rightarrow> AccessRepository \<Rightarrow> (access_error + Permission) \<times> AccessRepository" where
  [store_defs]: "CreatePermission value r =
     (if \<exists>(_, existing) \<in> set (permissions r).
           pe_ClientID existing = pe_ClientID value \<and> pe_Code existing = pe_Code value
      then (Inl ErrAccessConflict, r)
      else (Inr value, r\<lparr>permissions := map_put (pe_ID value) value (permissions r)\<rparr>))"

definition FindPermission :: "string \<Rightarrow> string \<Rightarrow> AccessRepository \<Rightarrow> access_error + Permission" where
  [store_defs]: "FindPermission clientID permissionID r =
     (case map_of (permissions r) permissionID of None \<Rightarrow> Inl ErrAccessNotFound
      | Some value \<Rightarrow> if pe_ClientID value \<noteq> clientID then Inl ErrAccessNotFound else Inr value)"

definition ReplacePermission ::
  "Permission \<Rightarrow> AccessRepository \<Rightarrow> (access_error + Permission) \<times> AccessRepository" where
  [store_defs]: "ReplacePermission value r =
     (case map_of (permissions r) (pe_ID value) of None \<Rightarrow> (Inl ErrAccessNotFound, r)
      | Some current \<Rightarrow>
          if pe_ClientID current \<noteq> pe_ClientID value then (Inl ErrAccessNotFound, r)
          else if \<exists>(pid, existing) \<in> set (permissions r). pid \<noteq> pe_ID value \<and>
             pe_ClientID existing = pe_ClientID value \<and> pe_Code existing = pe_Code value
          then (Inl ErrAccessConflict, r)
          else (Inr value, r\<lparr>permissions := map_put (pe_ID value) value (permissions r)\<rparr>))"

definition DeletePermission ::
  "string \<Rightarrow> string \<Rightarrow> AccessRepository \<Rightarrow> (access_error + unit) \<times> AccessRepository" where
  [store_defs]: "DeletePermission clientID permissionID r =
     (case map_of (permissions r) permissionID of None \<Rightarrow> (Inl ErrAccessNotFound, r)
      | Some value \<Rightarrow>
          if pe_ClientID value \<noteq> clientID then (Inl ErrAccessNotFound, r)
          else if \<exists>(_, permissionIDs) \<in> set (rolePermissions r). permissionID \<in> set permissionIDs
          then (Inl ErrAccessInUse, r)
          else (Inr (), r\<lparr>permissions := map_delete permissionID (permissions r)\<rparr>))"

definition SetRolePermissions ::
  "string \<Rightarrow> string \<Rightarrow> string list \<Rightarrow> AccessRepository \<Rightarrow> (access_error + unit) \<times> AccessRepository" where
  [store_defs]: "SetRolePermissions clientID roleID permissionIDs r =
     (case map_of (roles r) roleID of None \<Rightarrow> (Inl ErrAccessNotFound, r)
      | Some role \<Rightarrow>
          if ro_ClientID role \<noteq> clientID then (Inl ErrAccessNotFound, r)
          else if \<exists>permissionID \<in> set permissionIDs.
             (case map_of (permissions r) permissionID of None \<Rightarrow> True
              | Some permission \<Rightarrow> pe_ClientID permission \<noteq> clientID)
          then (Inl ErrAccessNotFound, r)
          else (Inr (), r\<lparr>rolePermissions := map_put roleID (remdups permissionIDs) (rolePermissions r)\<rparr>))"

text \<open>Reading a missing key of a Go map yields the zero value.\<close>

definition zero_permission :: Permission where
  "zero_permission = \<lparr>pe_ID = [], pe_ClientID = [], pe_Code = [], pe_Name = [], pe_Description = [],
     pe_CreatedAt = 0, pe_UpdatedAt = 0\<rparr>"

definition role_permission_ids :: "string \<Rightarrow> AccessRepository \<Rightarrow> string list" where
  "role_permission_ids roleID r = (case map_of (rolePermissions r) roleID of None \<Rightarrow> [] | Some ids \<Rightarrow> ids)"

definition ListRolePermissions ::
  "string \<Rightarrow> string \<Rightarrow> AccessRepository \<Rightarrow> access_error + Permission list" where
  [store_defs]: "ListRolePermissions clientID roleID r =
     (case map_of (roles r) roleID of None \<Rightarrow> Inl ErrAccessNotFound
      | Some role \<Rightarrow>
          if ro_ClientID role \<noteq> clientID then Inl ErrAccessNotFound
          else Inr (sort_key pe_Code
            (map (\<lambda>pid. case map_of (permissions r) pid of None \<Rightarrow> zero_permission | Some p \<Rightarrow> p)
               (role_permission_ids roleID r))))"

definition ReplaceUserRoles ::
  "string \<Rightarrow> RoleGrant list \<Rightarrow> string \<Rightarrow> time \<Rightarrow> AccessRepository \<Rightarrow>
   (access_error + unit) \<times> AccessRepository" where
  [store_defs]: "ReplaceUserRoles userID grants grantedBy now r =
     (if \<exists>grant \<in> set grants. map_of (roles r) (rg_RoleID grant) = None
      then (Inl ErrAccessNotFound, r)
      else (Inr (), r\<lparr>userRoles :=
              filter (\<lambda>value. mu_UserID value \<noteq> userID) (userRoles r) @
              map (\<lambda>grant. \<lparr>mu_UserID = userID, mu_RoleID = rg_RoleID grant, mu_GrantedAt = now,
                             mu_GrantedBy = grantedBy, mu_ExpiresAt = rg_ExpiresAt grant\<rparr>) grants\<rparr>))"

definition listed_assignment ::
  "string \<Rightarrow> string \<Rightarrow> bool \<Rightarrow> time \<Rightarrow> AccessRepository \<Rightarrow> memoryUserRole \<Rightarrow> UserRole option" where
  "listed_assignment userID clientID includeExpired now r value =
     (case map_of (roles r) (mu_RoleID value) of None \<Rightarrow> None
      | Some role \<Rightarrow>
          if mu_UserID value \<noteq> userID \<or> clientID \<noteq> [] \<and> ro_ClientID role \<noteq> clientID then None
          else if \<not> includeExpired \<and> (case mu_ExpiresAt value of None \<Rightarrow> False | Some t \<Rightarrow> \<not> t > now) then None
          else Some \<lparr>ur_UserID = userID, ur_Role = role, ur_GrantedAt = mu_GrantedAt value,
                     ur_GrantedBy = mu_GrantedBy value, ur_ExpiresAt = mu_ExpiresAt value\<rparr>)"

definition ListUserRoles ::
  "string \<Rightarrow> string \<Rightarrow> bool \<Rightarrow> time \<Rightarrow> AccessRepository \<Rightarrow> UserRole list" where
  [store_defs]: "ListUserRoles userID clientID includeExpired now r =
     sort_key (\<lambda>u. (ro_ClientID (ur_Role u), ro_Code (ur_Role u)))
       (List.map_filter (listed_assignment userID clientID includeExpired now r) (userRoles r))"

definition role_codes_of :: "string \<Rightarrow> AccessRepository \<Rightarrow> UserRole \<Rightarrow> string list" where
  "role_codes_of clientID r assignment =
     List.map_filter (\<lambda>pid. case map_of (permissions r) pid of None \<Rightarrow> None
          | Some p \<Rightarrow> if pe_ClientID p = clientID then Some (pe_Code p) else None)
       (role_permission_ids (ro_ID (ur_Role assignment)) r)"

definition Effective ::
  "string \<Rightarrow> string \<Rightarrow> time \<Rightarrow> AccessRepository \<Rightarrow> AccessRepository \<Rightarrow> Entitlements" where
  "Effective userID clientID now r1 r2 =
     (let assignments = ListUserRoles userID clientID False now r1
      in \<lparr>en_UserID = userID, en_ClientID = clientID,
          en_Roles = sort (map (\<lambda>a. ro_Code (ur_Role a)) assignments),
          en_Permissions = sort (remdups (concat (map (role_codes_of clientID r2) assignments)))\<rparr>)"

section \<open>The repository as one machine\<close>

datatype access_op =
    AccCreateRole Role | AccReplaceRole Role | AccDeleteRole string string
  | AccCreatePermission Permission | AccReplacePermission Permission | AccDeletePermission string string
  | AccSetRolePermissions string string "string list"
  | AccReplaceUserRoles string "RoleGrant list" string time

fun access_step :: "AccessRepository \<Rightarrow> access_op \<Rightarrow> (access_error + unit) \<times> AccessRepository" where
  "access_step r (AccCreateRole v) = apfst (map_sum id (\<lambda>_. ())) (CreateRole v r)"
| "access_step r (AccReplaceRole v) = apfst (map_sum id (\<lambda>_. ())) (ReplaceRole v r)"
| "access_step r (AccDeleteRole c i) = DeleteRole c i r"
| "access_step r (AccCreatePermission v) = apfst (map_sum id (\<lambda>_. ())) (CreatePermission v r)"
| "access_step r (AccReplacePermission v) = apfst (map_sum id (\<lambda>_. ())) (ReplacePermission v r)"
| "access_step r (AccDeletePermission c i) = DeletePermission c i r"
| "access_step r (AccSetRolePermissions c i ps) = SetRolePermissions c i ps r"
| "access_step r (AccReplaceUserRoles u gs by now) = ReplaceUserRoles u gs by now r"

text \<open>New objects carry fresh identifiers: \<open>NewRole\<close> and \<open>NewPermission\<close> draw random UUIDs.\<close>

fun fresh_id :: "access_op \<Rightarrow> AccessRepository \<Rightarrow> bool" where
  "fresh_id (AccCreateRole v) r = (map_of (roles r) (ro_ID v) = None)"
| "fresh_id (AccCreatePermission v) r = (map_of (permissions r) (pe_ID v) = None)"
| "fresh_id _ r = True"

inductive access_reachable :: "AccessRepository \<Rightarrow> bool" where
  new: "access_reachable Access_NewMemoryRepository"
| step: "access_reachable r \<Longrightarrow> fresh_id op r \<Longrightarrow> access_reachable (snd (access_step r op))"

fun fresh_run :: "AccessRepository \<Rightarrow> access_op list \<Rightarrow> bool" where
  "fresh_run r [] = True"
| "fresh_run r (op # ops) = (fresh_id op r \<and> fresh_run (snd (access_step r op)) ops)"

lemma reachable_run:
  "access_reachable r \<Longrightarrow> fresh_run r ops \<Longrightarrow> access_reachable (final access_step r ops)"
  by (induction ops arbitrary: r) (auto intro: access_reachable.step)

section \<open>Referential integrity\<close>

text \<open>A catalogue stores each object under its identifier, and no two objects of one owner share a
  code.\<close>

definition catalogue_ok ::
  "('v \<Rightarrow> string) \<Rightarrow> ('v \<Rightarrow> string) \<Rightarrow> ('v \<Rightarrow> string) \<Rightarrow> (string, 'v) gomap \<Rightarrow> bool" where
  "catalogue_ok ident owner code m =
     (gomap_ok m \<and> (\<forall>(k, v) \<in> set m. ident v = k) \<and>
      (\<forall>(k, v) \<in> set m. \<forall>(k', v') \<in> set m. owner v = owner v' \<and> code v = code v' \<longrightarrow> k = k'))"

lemma catalogue_put:
  assumes "catalogue_ok ident owner code m"
    and "\<forall>(k, x) \<in> set m. k \<noteq> ident v \<longrightarrow> \<not> (owner x = owner v \<and> code x = code v)"
  shows "catalogue_ok ident owner code (map_put (ident v) v m)"
  using assms unfolding catalogue_ok_def by (auto simp: set_put_ok)

lemma catalogue_delete:
  "catalogue_ok ident owner code m \<Longrightarrow> catalogue_ok ident owner code (map_delete k m)"
  unfolding catalogue_ok_def by simp blast

lemma catalogue_ident: "catalogue_ok ident owner code m \<Longrightarrow> map_of m k = Some v \<Longrightarrow> ident v = k"
  by (auto simp: catalogue_ok_def dest!: map_of_SomeD)

abbreviation "roles_ok \<equiv> catalogue_ok ro_ID ro_ClientID ro_Code"
abbreviation "permissions_ok \<equiv> catalogue_ok pe_ID pe_ClientID pe_Code"

text \<open>Which permissions a role may carry: existing ones of the role's own client.\<close>

definition link_ok ::
  "(string, Role) gomap \<Rightarrow> (string, Permission) gomap \<Rightarrow> string \<times> string list \<Rightarrow> bool" where
  "link_ok ros pes l = (distinct (snd l) \<and>
     (\<exists>role. map_of ros (fst l) = Some role \<and>
        (\<forall>pid \<in> set (snd l). \<exists>p. map_of pes pid = Some p \<and> pe_ClientID p = ro_ClientID role)))"

definition access_ok :: "AccessRepository \<Rightarrow> bool" where
  "access_ok r =
     (roles_ok (roles r) \<and> permissions_ok (permissions r) \<and> gomap_ok (rolePermissions r) \<and>
      (\<forall>l \<in> set (rolePermissions r). link_ok (roles r) (permissions r) l) \<and>
      (\<forall>u \<in> set (userRoles r). map_of (roles r) (mu_RoleID u) \<noteq> None))"

lemma access_okD:
  assumes "access_ok r"
  shows "roles_ok (roles r)" "permissions_ok (permissions r)" "gomap_ok (rolePermissions r)"
    "l \<in> set (rolePermissions r) \<Longrightarrow> link_ok (roles r) (permissions r) l"
    "u \<in> set (userRoles r) \<Longrightarrow> map_of (roles r) (mu_RoleID u) \<noteq> None"
  using assms unfolding access_ok_def by blast+

lemma access_okI:
  assumes "roles_ok (roles r)" "permissions_ok (permissions r)" "gomap_ok (rolePermissions r)"
    "\<And>l. l \<in> set (rolePermissions r) \<Longrightarrow> link_ok (roles r) (permissions r) l"
    "\<And>u. u \<in> set (userRoles r) \<Longrightarrow> map_of (roles r) (mu_RoleID u) \<noteq> None"
  shows "access_ok r"
  using assms unfolding access_ok_def by blast

lemma link_ok_put_role:
  assumes "link_ok ros pes l" and "\<And>old. map_of ros (ro_ID v) = Some old \<Longrightarrow> ro_ClientID old = ro_ClientID v"
  shows "link_ok (map_put (ro_ID v) v ros) pes l"
  using assms unfolding link_ok_def by (cases "fst l = ro_ID v") auto

lemma link_ok_put_permission:
  assumes "link_ok ros pes l" and "\<And>old. map_of pes (pe_ID v) = Some old \<Longrightarrow> pe_ClientID old = pe_ClientID v"
  shows "link_ok ros (map_put (pe_ID v) v pes) l"
  unfolding link_ok_def
proof (intro conjI)
  obtain role where role: "map_of ros (fst l) = Some role"
    "\<forall>pid \<in> set (snd l). \<exists>p. map_of pes pid = Some p \<and> pe_ClientID p = ro_ClientID role"
    using assms(1) unfolding link_ok_def by blast
  show "\<exists>role. map_of ros (fst l) = Some role \<and> (\<forall>pid \<in> set (snd l).
      \<exists>p. map_of (map_put (pe_ID v) v pes) pid = Some p \<and> pe_ClientID p = ro_ClientID role)"
    using role assms(2) by (intro exI [of _ role]) fastforce
qed (use assms(1) in \<open>simp add: link_ok_def\<close>)

lemma access_ok_put_role:
  assumes "access_ok r"
    and "\<forall>(k, x) \<in> set (roles r). k \<noteq> ro_ID v \<longrightarrow> \<not> (ro_ClientID x = ro_ClientID v \<and> ro_Code x = ro_Code v)"
    and "\<And>old. map_of (roles r) (ro_ID v) = Some old \<Longrightarrow> ro_ClientID old = ro_ClientID v"
  shows "access_ok (r\<lparr>roles := map_put (ro_ID v) v (roles r)\<rparr>)"
  using access_okD [OF assms(1)] assms(2,3)
  by (intro access_okI) (simp_all add: catalogue_put link_ok_put_role)

lemma access_ok_put_permission:
  assumes "access_ok r"
    and "\<forall>(k, x) \<in> set (permissions r). k \<noteq> pe_ID v \<longrightarrow> \<not> (pe_ClientID x = pe_ClientID v \<and> pe_Code x = pe_Code v)"
    and "\<And>old. map_of (permissions r) (pe_ID v) = Some old \<Longrightarrow> pe_ClientID old = pe_ClientID v"
  shows "access_ok (r\<lparr>permissions := map_put (pe_ID v) v (permissions r)\<rparr>)"
  using access_okD [OF assms(1)] assms(2,3)
  by (intro access_okI) (simp_all add: catalogue_put link_ok_put_permission)

lemma access_ok_CreateRole:
  "access_ok r \<Longrightarrow> map_of (roles r) (ro_ID v) = None \<Longrightarrow> access_ok (snd (CreateRole v r))"
  unfolding CreateRole_def by (auto intro!: access_ok_put_role)

lemma access_ok_ReplaceRole: "access_ok r \<Longrightarrow> access_ok (snd (ReplaceRole v r))"
  unfolding ReplaceRole_def by (auto intro!: access_ok_put_role split: option.split)

lemma access_ok_CreatePermission:
  "access_ok r \<Longrightarrow> map_of (permissions r) (pe_ID v) = None \<Longrightarrow> access_ok (snd (CreatePermission v r))"
  unfolding CreatePermission_def by (auto intro!: access_ok_put_permission)

lemma access_ok_ReplacePermission: "access_ok r \<Longrightarrow> access_ok (snd (ReplacePermission v r))"
  unfolding ReplacePermission_def by (auto intro!: access_ok_put_permission split: option.split)

lemma link_ok_delete_role:
  "link_ok ros pes l \<Longrightarrow> fst l \<noteq> i \<Longrightarrow> link_ok (map_delete i ros) pes l"
  unfolding link_ok_def by (simp add: map_of_delete)

lemma link_ok_delete_permission:
  assumes "link_ok ros pes l" and "i \<notin> set (snd l)"
  shows "link_ok ros (map_delete i pes) l"
proof -
  have "map_of (map_delete i pes) pid = map_of pes pid" if "pid \<in> set (snd l)" for pid
    using that assms(2) by (auto simp: map_of_delete)
  with assms(1) show ?thesis unfolding link_ok_def by simp
qed

lemma access_ok_DeleteRole:
  assumes "access_ok r"
  shows "access_ok (snd (DeleteRole c i r))"
  unfolding DeleteRole_def using assms access_okD [OF assms]
  by (auto intro!: access_okI link_ok_delete_role split: option.split
      simp: catalogue_delete map_of_delete)

lemma access_ok_DeletePermission:
  assumes "access_ok r"
  shows "access_ok (snd (DeletePermission c i r))"
proof -
  have "access_ok (r\<lparr>permissions := map_delete i (permissions r)\<rparr>)"
    if "\<not> (\<exists>(_, ids) \<in> set (rolePermissions r). i \<in> set ids)"
    using that access_okD [OF assms]
    by (intro access_okI) (fastforce intro: link_ok_delete_permission catalogue_delete)+
  with assms show ?thesis by (simp add: DeletePermission_def split: option.split)
qed

lemma link_ok_chosen:
  "map_of ros i = Some role \<Longrightarrow>
   \<forall>pid \<in> set ps. \<not> (case map_of pes pid of None \<Rightarrow> True | Some p \<Rightarrow> pe_ClientID p \<noteq> ro_ClientID role) \<Longrightarrow>
   link_ok ros pes (i, remdups ps)"
  unfolding link_ok_def by (auto split: option.splits)

lemma access_ok_link:
  assumes "access_ok r" and "link_ok (roles r) (permissions r) (i, ids)"
  shows "access_ok (r\<lparr>rolePermissions := map_put i ids (rolePermissions r)\<rparr>)"
  using assms(2) access_okD [OF assms(1)] by (intro access_okI) (auto dest!: set_put_subset)

lemma access_ok_SetRolePermissions:
  assumes "access_ok r"
  shows "access_ok (snd (SetRolePermissions c i ps r))"
proof (cases "map_of (roles r) i")
  case (Some role)
  with assms access_ok_link [OF assms link_ok_chosen [OF Some], of ps] show ?thesis
    by (cases "c = ro_ClientID role") (auto simp: SetRolePermissions_def)
qed (use assms in \<open>simp add: SetRolePermissions_def\<close>)

lemma access_ok_ReplaceUserRoles:
  assumes "access_ok r"
  shows "access_ok (snd (ReplaceUserRoles u gs b now r))"
  unfolding ReplaceUserRoles_def using assms access_okD [OF assms]
  by (auto intro!: access_okI)

lemmas access_ok_rules = access_ok_CreateRole access_ok_ReplaceRole access_ok_DeleteRole
  access_ok_CreatePermission access_ok_ReplacePermission access_ok_DeletePermission
  access_ok_SetRolePermissions access_ok_ReplaceUserRoles

lemma access_ok_step: "access_ok r \<Longrightarrow> fresh_id op r \<Longrightarrow> access_ok (snd (access_step r op))"
  by (cases op) (simp_all add: access_ok_rules)

lemma access_ok_reachable: "access_reachable r \<Longrightarrow> access_ok r"
proof (induction rule: access_reachable.induct)
  case new
  then show ?case by (simp add: Access_NewMemoryRepository_def access_ok_def catalogue_ok_def)
next
  case (step r op)
  then show ?case by (intro access_ok_step)
qed

section \<open>Entitlements\<close>

definition unexpired :: "time \<Rightarrow> memoryUserRole \<Rightarrow> bool" where
  "unexpired now a = (case mu_ExpiresAt a of None \<Rightarrow> True | Some t \<Rightarrow> t > now)"

text \<open>The abstract specification: the roles a user holds for a client now.\<close>

definition holds_role :: "AccessRepository \<Rightarrow> string \<Rightarrow> string \<Rightarrow> time \<Rightarrow> Role \<Rightarrow> bool" where
  "holds_role r userID clientID now role =
     (\<exists>a \<in> set (userRoles r). mu_UserID a = userID \<and> unexpired now a \<and>
        map_of (roles r) (mu_RoleID a) = Some role \<and> ro_ClientID role = clientID)"

lemma listed_assignment_iff:
  "listed_assignment u c False now r a = Some x \<longleftrightarrow>
     (\<exists>role. map_of (roles r) (mu_RoleID a) = Some role \<and> mu_UserID a = u \<and>
        (c = [] \<or> ro_ClientID role = c) \<and> unexpired now a \<and>
        x = \<lparr>ur_UserID = u, ur_Role = role, ur_GrantedAt = mu_GrantedAt a,
             ur_GrantedBy = mu_GrantedBy a, ur_ExpiresAt = mu_ExpiresAt a\<rparr>)"
  by (auto simp: listed_assignment_def unexpired_def split: option.splits if_splits)

lemma set_map_filter: "x \<in> set (List.map_filter f xs) \<longleftrightarrow> (\<exists>a \<in> set xs. f a = Some x)"
  by (auto simp: List.map_filter_def) force

lemma ListUserRoles_roles:
  assumes "c \<noteq> []"
  shows "ur_Role ` set (ListUserRoles u c False now r) = {role. holds_role r u c now role}"
  using assms by (force simp: ListUserRoles_def set_map_filter listed_assignment_iff holds_role_def)

lemma role_codes_of_set:
  "set (role_codes_of c r a) = {pe_Code p | p pid. pid \<in> set (role_permission_ids (ro_ID (ur_Role a)) r) \<and>
     map_of (permissions r) pid = Some p \<and> pe_ClientID p = c}"
proof -
  have "(case map_of (permissions r) pid of None \<Rightarrow> None
      | Some p \<Rightarrow> if pe_ClientID p = c then Some (pe_Code p) else None) = Some x \<longleftrightarrow>
      (\<exists>p. map_of (permissions r) pid = Some p \<and> pe_ClientID p = c \<and> x = pe_Code p)" for pid x
    by (auto split: option.split)
  then show ?thesis
    by (intro set_eqI) (simp add: role_codes_of_def set_map_filter, blast)
qed

lemma role_permission_client:
  assumes "access_ok r" and "map_of (roles r) rid = Some role"
    and "pid \<in> set (role_permission_ids rid r)"
  shows "\<exists>p. map_of (permissions r) pid = Some p \<and> pe_ClientID p = ro_ClientID role"
proof -
  from assms(3) obtain ids where "map_of (rolePermissions r) rid = Some ids" "pid \<in> set ids"
    by (cases "map_of (rolePermissions r) rid") (simp_all add: role_permission_ids_def)
  then show ?thesis
    using access_okD(4) [OF assms(1), of "(rid, ids)"] assms(2)
    by (auto simp: link_ok_def dest!: map_of_SomeD)
qed

section \<open>A worked scenario\<close>

definition demo_role :: Role where
  "demo_role = \<lparr>ro_ID = ''r1'', ro_ClientID = ''web'', ro_Code = ''editor'', ro_Name = ''Editor'',
     ro_Description = [], ro_CreatedAt = 1, ro_UpdatedAt = 1\<rparr>"

definition demo_permission :: Permission where
  "demo_permission = \<lparr>pe_ID = ''p1'', pe_ClientID = ''web'', pe_Code = ''post.write'', pe_Name = ''Write'',
     pe_Description = [], pe_CreatedAt = 1, pe_UpdatedAt = 1\<rparr>"

definition demo_access_ops :: "access_op list" where
  "demo_access_ops = [AccCreateRole demo_role, AccCreatePermission demo_permission,
     AccSetRolePermissions ''web'' ''r1'' [''p1''],
     AccReplaceUserRoles ''u1'' [\<lparr>rg_RoleID = ''r1'', rg_ExpiresAt = Some 100\<rparr>] ''admin'' 5]"

definition demo_access_repository :: AccessRepository where
  "demo_access_repository = final access_step Access_NewMemoryRepository demo_access_ops"

lemma demo_access_reachable: "access_reachable demo_access_repository"
  unfolding demo_access_repository_def
proof (rule reachable_run [OF access_reachable.new])
  show "fresh_run Access_NewMemoryRepository demo_access_ops" by code_simp
qed

section \<open>Properties\<close>

text \<open>Referential integrity: in every reachable repository the codes of a client's roles and of its
  permissions are unique, every role carries only existing permissions of its own client, and
  every user assignment refers to an existing role.\<close>
lemma access_integrity: "access_reachable r \<Longrightarrow> access_ok r"
  by (rule access_ok_reachable)

text \<open>The entitlements computed for a user and a client are exactly the codes of the roles the user
  holds there now (assignments that have expired do not count) and of the permissions those roles
  carry, both sorted, the permissions without duplicates.\<close>
lemma effective_entitlements_correct:
  assumes "access_reachable r" and "clientID \<noteq> []"
  shows "let e = Effective userID clientID now r r in
    set (en_Roles e) = {ro_Code role | role. holds_role r userID clientID now role} \<and>
    set (en_Permissions e) = {pe_Code p | p pid role. holds_role r userID clientID now role \<and>
       pid \<in> set (role_permission_ids (ro_ID role) r) \<and> map_of (permissions r) pid = Some p} \<and>
    sorted (en_Roles e) \<and> sorted (en_Permissions e) \<and> distinct (en_Permissions e)"
proof -
  have ok: "access_ok r" using access_ok_reachable [OF assms(1)] .
  let ?l = "ListUserRoles userID clientID False now r"
  have held: "ur_Role ` set ?l = {role. holds_role r userID clientID now role}"
    by (rule ListUserRoles_roles [OF assms(2)])
  have own: "pe_ClientID p = clientID" if "holds_role r userID clientID now role"
      "pid \<in> set (role_permission_ids (ro_ID role) r)" "map_of (permissions r) pid = Some p" for role pid p
  proof -
    from that(1) obtain rid where rid: "map_of (roles r) rid = Some role" "ro_ClientID role = clientID"
      by (auto simp: holds_role_def)
    with catalogue_ident [OF access_okD(1) [OF ok]] have "ro_ID role = rid" by blast
    with role_permission_client [OF ok rid(1), of pid] that(2,3) rid(2) show ?thesis by auto
  qed
  have "set (en_Roles (Effective userID clientID now r r)) = ro_Code ` (ur_Role ` set ?l)"
    by (simp add: Effective_def Let_def image_comp)
  moreover have "set (en_Permissions (Effective userID clientID now r r)) =
      {pe_Code p | p pid role. role \<in> ur_Role ` set ?l \<and> pid \<in> set (role_permission_ids (ro_ID role) r) \<and>
         map_of (permissions r) pid = Some p \<and> pe_ClientID p = clientID}"
    by (auto simp: Effective_def Let_def role_codes_of_set)
  moreover have "{pe_Code p | p pid role. role \<in> ur_Role ` set ?l \<and>
         pid \<in> set (role_permission_ids (ro_ID role) r) \<and>
         map_of (permissions r) pid = Some p \<and> pe_ClientID p = clientID} =
      {pe_Code p | p pid role. holds_role r userID clientID now role \<and>
         pid \<in> set (role_permission_ids (ro_ID role) r) \<and> map_of (permissions r) pid = Some p}"
    unfolding held using own by blast
  moreover have "ro_Code ` (ur_Role ` set ?l) = {ro_Code role | role. holds_role r userID clientID now role}"
    unfolding held by blast
  moreover have "sorted (en_Roles (Effective userID clientID now r r))"
    "sorted (en_Permissions (Effective userID clientID now r r))"
    "distinct (en_Permissions (Effective userID clientID now r r))"
    by (simp_all add: Effective_def Let_def)
  ultimately show ?thesis unfolding Let_def by argo
qed

text \<open>Role grants are accepted exactly when every role identifier is non-blank, none is repeated
  and every expiry lies in the future.\<close>
lemma role_grants_validated:
  "ValidateRoleGrants gs now = Inr () \<longleftrightarrow>
     distinct (map rg_RoleID gs) \<and>
     list_all (\<lambda>g. TrimSpace (rg_RoleID g) \<noteq> [] \<and>
       (case rg_ExpiresAt g of None \<Rightarrow> True | Some t \<Rightarrow> t > now)) gs"
proof -
  have "grants_loop seen now gs = Inr () \<longleftrightarrow>
      distinct (map rg_RoleID gs) \<and> set (map rg_RoleID gs) \<inter> set seen = {} \<and>
      list_all (\<lambda>g. TrimSpace (rg_RoleID g) \<noteq> [] \<and>
        (case rg_ExpiresAt g of None \<Rightarrow> True | Some t \<Rightarrow> t > now)) gs" for seen
    by (induction seen now gs rule: grants_loop.induct) (auto split: option.splits)
  from this [of "[]"] show ?thesis by (simp add: ValidateRoleGrants_def)
qed

end
