(* ===== verification/Administration.thy ===== *)
theory Administration
  imports Certus_Prelude
begin

text \<open>
  Administrator roles of the console: \<open>internal/administration/administration.go\<close> (the fixed role
  table and the computation of a user's access) and \<open>memory_repository.go\<close> (the grants).
  The role names and descriptions are the UTF-8 bytes of the source.
\<close>

section \<open>Data\<close>

datatype administration_error = ErrGrantUnknown | ErrInvalidRole | ErrLastSuperAdmin

type_synonym AdminRole = string

abbreviation RoleSuperAdmin :: AdminRole where "RoleSuperAdmin \<equiv> ''super_admin''"
abbreviation RoleIdentityAdmin :: AdminRole where "RoleIdentityAdmin \<equiv> ''identity_admin''"
abbreviation RoleApplicationAdmin :: AdminRole where "RoleApplicationAdmin \<equiv> ''application_admin''"
abbreviation RoleSecurityAdmin :: AdminRole where "RoleSecurityAdmin \<equiv> ''security_admin''"
abbreviation RoleAuditor :: AdminRole where "RoleAuditor \<equiv> ''auditor''"

type_synonym AdminPermission = string

abbreviation PermissionAll :: AdminPermission where "PermissionAll \<equiv> ''*''"
abbreviation PermissionUsersRead :: AdminPermission where "PermissionUsersRead \<equiv> ''admin.users.read''"
abbreviation PermissionUsersWrite :: AdminPermission where "PermissionUsersWrite \<equiv> ''admin.users.write''"
abbreviation PermissionClientsRead :: AdminPermission where "PermissionClientsRead \<equiv> ''admin.clients.read''"
abbreviation PermissionClientsWrite :: AdminPermission where "PermissionClientsWrite \<equiv> ''admin.clients.write''"
abbreviation PermissionSourcesRead :: AdminPermission where "PermissionSourcesRead \<equiv> ''admin.identity_sources.read''"
abbreviation PermissionSourcesWrite :: AdminPermission where "PermissionSourcesWrite \<equiv> ''admin.identity_sources.write''"
abbreviation PermissionAccessRead :: AdminPermission where "PermissionAccessRead \<equiv> ''admin.access.read''"
abbreviation PermissionAccessWrite :: AdminPermission where "PermissionAccessWrite \<equiv> ''admin.access.write''"
abbreviation PermissionAuditRead :: AdminPermission where "PermissionAuditRead \<equiv> ''admin.audit.read''"
abbreviation PermissionSecurityRead :: AdminPermission where "PermissionSecurityRead \<equiv> ''admin.security.read''"
abbreviation PermissionSecurityWrite :: AdminPermission where "PermissionSecurityWrite \<equiv> ''admin.security.write''"
abbreviation PermissionMaintenanceExecute :: AdminPermission where "PermissionMaintenanceExecute \<equiv> ''admin.maintenance.execute''"
abbreviation PermissionAdminRolesRead :: AdminPermission where "PermissionAdminRolesRead \<equiv> ''admin.roles.read''"
abbreviation PermissionAdminRolesWrite :: AdminPermission where "PermissionAdminRolesWrite \<equiv> ''admin.roles.write''"

record RoleDefinition =
  rd_Code :: AdminRole
  rd_Name :: string
  rd_Description :: string
  rd_Permissions :: "AdminPermission list"

record Grant =
  gr_UserID :: string
  gr_Role :: AdminRole
  gr_GrantedAt :: time
  gr_GrantedBy :: string

record Access =
  ac_User :: string
  ac_Roles :: "AdminRole list"
  ac_Permissions :: "AdminPermission list"

definition definitions :: "RoleDefinition list" where
  "definitions = [
      \<lparr>rd_Code = RoleSuperAdmin,
       rd_Name = [CHR 0xE8, CHR 0xB6, CHR 0x85, CHR 0xE7, CHR 0xBA, CHR 0xA7, CHR 0xE7, CHR 0xAE,
         CHR 0xA1, CHR 0xE7, CHR 0x90, CHR 0x86, CHR 0xE5, CHR 0x91, CHR 0x98],
       rd_Description = [CHR 0xE6, CHR 0x8B, CHR 0xA5, CHR 0xE6, CHR 0x9C, CHR 0x89, CHR 0xE5, CHR 0x85,
         CHR 0xA8, CHR 0xE9, CHR 0x83, CHR 0xA8, CHR 0xE5, CHR 0x90, CHR 0x8E, CHR 0xE5,
         CHR 0x8F, CHR 0xB0, CHR 0xE6, CHR 0x9D, CHR 0x83, CHR 0xE9, CHR 0x99, CHR 0x90,
         CHR 0xEF, CHR 0xBC, CHR 0x8C, CHR 0xE5, CHR 0xB9, CHR 0xB6, CHR 0xE5, CHR 0x8F,
         CHR 0xAF, CHR 0xE5, CHR 0x88, CHR 0x86, CHR 0xE9, CHR 0x85, CHR 0x8D, CHR 0xE7,
         CHR 0xAE, CHR 0xA1, CHR 0xE7, CHR 0x90, CHR 0x86, CHR 0xE5, CHR 0x91, CHR 0x98,
         CHR 0xE8, CHR 0xA7, CHR 0x92, CHR 0xE8, CHR 0x89, CHR 0xB2, CHR 0xE3, CHR 0x80,
         CHR 0x82],
       rd_Permissions = [PermissionAll]\<rparr>,
      \<lparr>rd_Code = RoleIdentityAdmin,
       rd_Name = [CHR 0xE8, CHR 0xBA, CHR 0xAB, CHR 0xE4, CHR 0xBB, CHR 0xBD, CHR 0xE7, CHR 0xAE,
         CHR 0xA1, CHR 0xE7, CHR 0x90, CHR 0x86, CHR 0xE5, CHR 0x91, CHR 0x98],
       rd_Description = [CHR 0xE7, CHR 0xAE, CHR 0xA1, CHR 0xE7, CHR 0x90, CHR 0x86, CHR 0xE7, CHR 0x94,
         CHR 0xA8, CHR 0xE6, CHR 0x88, CHR 0xB7, CHR 0xE3, CHR 0x80, CHR 0x81, CHR 0xE5,
         CHR 0xAF, CHR 0x86, CHR 0xE7, CHR 0xA0, CHR 0x81, CHR 0xE3, CHR 0x80, CHR 0x81,
         CHR 0xE4, CHR 0xBC, CHR 0x9A, CHR 0xE8, CHR 0xAF, CHR 0x9D, CHR 0xE4, CHR 0xB8,
         CHR 0x8E, CHR 0xE5, CHR 0xA4, CHR 0x9A, CHR 0xE5, CHR 0x9B, CHR 0xA0, CHR 0xE7,
         CHR 0xB4, CHR 0xA0, CHR 0xE8, CHR 0xAE, CHR 0xA4, CHR 0xE8, CHR 0xAF, CHR 0x81,
         CHR 0xE3, CHR 0x80, CHR 0x82],
       rd_Permissions = [PermissionUsersRead, PermissionUsersWrite, PermissionSourcesRead, PermissionSourcesWrite]\<rparr>,
      \<lparr>rd_Code = RoleApplicationAdmin,
       rd_Name = [CHR 0xE5, CHR 0xBA, CHR 0x94, CHR 0xE7, CHR 0x94, CHR 0xA8, CHR 0xE7, CHR 0xAE,
         CHR 0xA1, CHR 0xE7, CHR 0x90, CHR 0x86, CHR 0xE5, CHR 0x91, CHR 0x98],
       rd_Description = [CHR 0xE7, CHR 0xAE, CHR 0xA1, CHR 0xE7, CHR 0x90, CHR 0x86, CHR 0xE6, CHR 0x8E,
         CHR 0xA5, CHR 0xE5, CHR 0x85, CHR 0xA5, CHR 0xE7, CHR 0xB3, CHR 0xBB, CHR 0xE7,
         CHR 0xBB, CHR 0x9F, CHR 0xE4, CHR 0xBB, CHR 0xA5, CHR 0xE5, CHR 0x8F, CHR 0x8A,
         CHR 0xE4, CHR 0xB8, CHR 0x9A, CHR 0xE5, CHR 0x8A, CHR 0xA1, CHR 0xE8, CHR 0xA7,
         CHR 0x92, CHR 0xE8, CHR 0x89, CHR 0xB2, CHR 0xE4, CHR 0xB8, CHR 0x8E, CHR 0xE6,
         CHR 0x9D, CHR 0x83, CHR 0xE9, CHR 0x99, CHR 0x90, CHR 0xE3, CHR 0x80, CHR 0x82],
       rd_Permissions = [PermissionClientsRead, PermissionClientsWrite, PermissionAccessRead,
         PermissionAccessWrite, PermissionUsersRead, PermissionSourcesRead]\<rparr>,
      \<lparr>rd_Code = RoleSecurityAdmin,
       rd_Name = [CHR 0xE5, CHR 0xAE, CHR 0x89, CHR 0xE5, CHR 0x85, CHR 0xA8, CHR 0xE7, CHR 0xAE,
         CHR 0xA1, CHR 0xE7, CHR 0x90, CHR 0x86, CHR 0xE5, CHR 0x91, CHR 0x98],
       rd_Description = [CHR 0xE7, CHR 0xAE, CHR 0xA1, CHR 0xE7, CHR 0x90, CHR 0x86, CHR 0xE7, CHR 0xAD,
         CHR 0xBE, CHR 0xE5, CHR 0x90, CHR 0x8D, CHR 0xE5, CHR 0xAF, CHR 0x86, CHR 0xE9,
         CHR 0x92, CHR 0xA5, CHR 0xE3, CHR 0x80, CHR 0x81, CHR 0xE6, CHR 0xB8, CHR 0x85,
         CHR 0xE7, CHR 0x90, CHR 0x86, CHR 0xE4, CHR 0xBB, CHR 0xBB, CHR 0xE5, CHR 0x8A,
         CHR 0xA1, CHR 0xE5, CHR 0xB9, CHR 0xB6, CHR 0xE5, CHR 0xAE, CHR 0xA1, CHR 0xE9,
         CHR 0x98, CHR 0x85, CHR 0xE5, CHR 0xAE, CHR 0x89, CHR 0xE5, CHR 0x85, CHR 0xA8,
         CHR 0xE4, CHR 0xBA, CHR 0x8B, CHR 0xE4, CHR 0xBB, CHR 0xB6, CHR 0xE3, CHR 0x80,
         CHR 0x82],
       rd_Permissions = [PermissionSecurityRead, PermissionSecurityWrite, PermissionMaintenanceExecute,
         PermissionAuditRead, PermissionUsersRead, PermissionSourcesRead, PermissionSourcesWrite]\<rparr>,
      \<lparr>rd_Code = RoleAuditor,
       rd_Name = [CHR 0xE5, CHR 0xAE, CHR 0xA1, CHR 0xE8, CHR 0xAE, CHR 0xA1, CHR 0xE5, CHR 0x91,
         CHR 0x98],
       rd_Description = [CHR 0xE5, CHR 0x8F, CHR 0xAA, CHR 0xE8, CHR 0xAF, CHR 0xBB, CHR 0xE8, CHR 0xAE,
         CHR 0xBF, CHR 0xE9, CHR 0x97, CHR 0xAE, CHR 0xE7, CHR 0x94, CHR 0xA8, CHR 0xE6,
         CHR 0x88, CHR 0xB7, CHR 0xE3, CHR 0x80, CHR 0x81, CHR 0xE5, CHR 0xAE, CHR 0xA2,
         CHR 0xE6, CHR 0x88, CHR 0xB7, CHR 0xE7, CHR 0xAB, CHR 0xAF, CHR 0xE3, CHR 0x80,
         CHR 0x81, CHR 0xE5, CHR 0xAE, CHR 0x89, CHR 0xE5, CHR 0x85, CHR 0xA8, CHR 0xE7,
         CHR 0x8A, CHR 0xB6, CHR 0xE6, CHR 0x80, CHR 0x81, CHR 0xE4, CHR 0xB8, CHR 0x8E,
         CHR 0xE5, CHR 0xAE, CHR 0xA1, CHR 0xE8, CHR 0xAE, CHR 0xA1, CHR 0xE6, CHR 0x97,
         CHR 0xA5, CHR 0xE5, CHR 0xBF, CHR 0x97, CHR 0xE3, CHR 0x80, CHR 0x82],
       rd_Permissions = [PermissionUsersRead, PermissionClientsRead, PermissionAccessRead, PermissionAuditRead,
         PermissionSecurityRead, PermissionAdminRolesRead, PermissionSourcesRead]\<rparr>]"

section \<open>Roles and access\<close>

definition Definitions :: "RoleDefinition list" where
  "Definitions = definitions"

definition ValidRole :: "AdminRole \<Rightarrow> bool" where
  "ValidRole role = list_ex (\<lambda>definition'. rd_Code definition' = role) definitions"

fun roles_loop :: "AdminRole list \<Rightarrow> AdminRole list \<Rightarrow> administration_error + unit" where
  "roles_loop seen [] = Inr ()"
| "roles_loop seen (role # roles) =
     (if \<not> ValidRole role then Inl ErrInvalidRole
      else if role \<in> set seen then Inl ErrInvalidRole
      else roles_loop (role # seen) roles)"

definition ValidateRoles :: "AdminRole list \<Rightarrow> administration_error + unit" where
  "ValidateRoles roles = roles_loop [] roles"

definition AccessFor :: "string \<Rightarrow> AdminRole list \<Rightarrow> Access" where
  "AccessFor userID roles =
     (let valid = filter ValidRole roles in
      \<lparr>ac_User = TrimSpace userID,
       ac_Roles = sort (remdups valid),
       ac_Permissions = sort (remdups (concat (map (\<lambda>role.
          concat (map rd_Permissions (filter (\<lambda>definition'. rd_Code definition' = role) definitions)))
          valid)))\<rparr>)"

definition Has :: "Access \<Rightarrow> AdminPermission \<Rightarrow> bool" where
  "Has a permission = (PermissionAll \<in> set (ac_Permissions a) \<or> permission = [] \<or>
     permission \<in> set (ac_Permissions a))"

definition HasRole :: "AdminRole list \<Rightarrow> AdminRole \<Rightarrow> bool" where
  "HasRole roles expected = (expected \<in> set roles)"

section \<open>Repository\<close>

type_synonym AdminRepository = "(string, Grant list) gomap"

definition Admin_NewMemoryRepository :: AdminRepository where
  "Admin_NewMemoryRepository = []"

definition grants_of :: "string \<Rightarrow> AdminRepository \<Rightarrow> Grant list" where
  "grants_of userID r = (case map_of r userID of None \<Rightarrow> [] | Some gs \<Rightarrow> gs)"

definition grantRoles :: "Grant list \<Rightarrow> AdminRole list" where
  "grantRoles gs = map gr_Role gs"

definition cloneGrants :: "Grant list \<Rightarrow> Grant list" where
  "cloneGrants gs = sort_key gr_Role gs"

definition Admin_ListUserRoles :: "string \<Rightarrow> AdminRepository \<Rightarrow> Grant list" where
  "Admin_ListUserRoles userID r = cloneGrants (grants_of userID r)"

definition ListRoleUsers :: "AdminRole \<Rightarrow> AdminRepository \<Rightarrow> administration_error + string list" where
  "ListRoleUsers role r =
     (if \<not> ValidRole role then Inl ErrInvalidRole
      else Inr (sort (map fst (filter (\<lambda>(_, gs). HasRole (grantRoles gs) role) r))))"

definition superAdminCountLocked :: "AdminRepository \<Rightarrow> nat" where
  "superAdminCountLocked r = length (filter (\<lambda>(_, gs). HasRole (grantRoles gs) RoleSuperAdmin) r)"

definition Admin_ReplaceUserRoles ::
  "string \<Rightarrow> AdminRole list \<Rightarrow> string \<Rightarrow> time \<Rightarrow> AdminRepository \<Rightarrow>
   (administration_error + unit) \<times> AdminRepository" where
  "Admin_ReplaceUserRoles userID roles grantedBy now r =
     (case ValidateRoles roles of Inl err \<Rightarrow> (Inl err, r)
      | Inr _ \<Rightarrow>
          if TrimSpace userID = [] \<or> TrimSpace grantedBy = [] then (Inl ErrInvalidRole, r)
          else if HasRole (grantRoles (grants_of userID r)) RoleSuperAdmin \<and>
                  \<not> HasRole roles RoleSuperAdmin \<and> superAdminCountLocked r \<le> 1
          then (Inl ErrLastSuperAdmin, r)
          else (Inr (), map_put userID
                  (map (\<lambda>role. \<lparr>gr_UserID = userID, gr_Role = role, gr_GrantedAt = now,
                                gr_GrantedBy = grantedBy\<rparr>) roles) r))"

definition Admin_Effective :: "string \<Rightarrow> AdminRepository \<Rightarrow> Access" where
  "Admin_Effective userID r = AccessFor userID (grantRoles (grants_of userID r))"

datatype admin_op = AdmReplace string "AdminRole list" string time

fun admin_step :: "AdminRepository \<Rightarrow> admin_op \<Rightarrow> (administration_error + unit) \<times> AdminRepository" where
  "admin_step r (AdmReplace u rs by now) = Admin_ReplaceUserRoles u rs by now r"

section \<open>The last super administrator\<close>

abbreviation super :: "string \<times> Grant list \<Rightarrow> bool" where
  "super e \<equiv> HasRole (grantRoles (snd e)) RoleSuperAdmin"

lemma superAdminCount_set: "0 < superAdminCountLocked r \<longleftrightarrow> (\<exists>e \<in> set r. super e)"
  by (simp add: superAdminCountLocked_def filter_empty_conv case_prod_beta)

lemma another_super:
  assumes "gomap_ok r" and "1 < superAdminCountLocked r"
  shows "\<exists>e \<in> set r. fst e \<noteq> k \<and> super e"
proof (rule ccontr)
  let ?l = "filter (\<lambda>(_, gs). HasRole (grantRoles gs) RoleSuperAdmin) r"
  assume "\<not> ?thesis"
  then have "set (map fst ?l) \<subseteq> {k}" by (auto simp: case_prod_beta)
  moreover have "distinct (map fst ?l)" using assms(1) unfolding gomap_ok_def by (rule distinct_map_filter)
  ultimately have "length (map fst ?l) \<le> 1"
    by (metis card_mono distinct_card finite.intros card_1_singleton_iff One_nat_def finite_insert)
  with assms(2) show False by (simp add: superAdminCountLocked_def)
qed

definition governed :: "AdminRepository \<Rightarrow> bool" where
  "governed r = (gomap_ok r \<and> 0 < superAdminCountLocked r)"

lemma governed_put:
  assumes "gomap_ok r" and "e \<in> set r" "super e" "fst e \<noteq> k"
  shows "governed (map_put k gs r)"
proof -
  have "e \<in> set (map_put k gs r)" using assms by (simp add: set_put_ok)
  with assms show ?thesis by (auto simp only: governed_def superAdminCount_set gomap_ok_put)
qed

lemma governed_step:
  assumes "governed r"
  shows "governed (snd (Admin_ReplaceUserRoles u rs b now r))"
proof -
  let ?gs = "map (\<lambda>role. \<lparr>gr_UserID = u, gr_Role = role, gr_GrantedAt = now, gr_GrantedBy = b\<rparr>) rs"
  have ok: "gomap_ok r" using assms by (simp add: governed_def)
  obtain e where e: "e \<in> set r" "super e" using assms by (auto simp: governed_def superAdminCount_set)
  have "governed (map_put u ?gs r)"
    if keep: "\<not> (HasRole (grantRoles (grants_of u r)) RoleSuperAdmin \<and> \<not> HasRole rs RoleSuperAdmin \<and>
        superAdminCountLocked r \<le> 1)"
  proof (cases "HasRole rs RoleSuperAdmin")
    case True
    then have "super (u, ?gs)" by (simp add: HasRole_def grantRoles_def comp_def)
    moreover have "(u, ?gs) \<in> set (map_put u ?gs r)" using ok by (simp add: set_put_ok)
    ultimately show ?thesis using ok by (auto simp only: governed_def superAdminCount_set gomap_ok_put)
  next
    case False
    show ?thesis
    proof (cases "fst e = u")
      case True
      with e(1) ok have "map_of r u = Some (snd e)" by (metis in_set_gomap_iff prod.collapse)
      with e(2) have "HasRole (grantRoles (grants_of u r)) RoleSuperAdmin" by (simp add: grants_of_def)
      with keep False have "1 < superAdminCountLocked r" by simp
      from another_super [OF ok this, of u] obtain e' where "e' \<in> set r" "fst e' \<noteq> u" "super e'" by auto
      with ok show ?thesis by (intro governed_put)
    next
      case other: False
      from governed_put [OF ok e other] show ?thesis .
    qed
  qed
  with assms show ?thesis by (simp add: Admin_ReplaceUserRoles_def split: sum.split)
qed

interpretation government: kept_by_steps admin_step "\<lambda>_. True" governed
proof unfold_locales
  fix r op assume "governed r"
  then show "governed (snd (admin_step r op))" by (cases op) (simp add: governed_step)
qed

section \<open>What roles permit\<close>

lemma roles_loop_iff:
  "roles_loop seen rs = Inr () \<longleftrightarrow> list_all ValidRole rs \<and> distinct rs \<and> set rs \<inter> set seen = {}"
  by (induction seen rs rule: roles_loop.induct) auto

lemma ValidateRoles_iff: "ValidateRoles rs = Inr () \<longleftrightarrow> list_all ValidRole rs \<and> distinct rs"
  by (simp add: ValidateRoles_def roles_loop_iff)

lemma AccessFor_permissions:
  "p \<in> set (ac_Permissions (AccessFor u rs)) \<longleftrightarrow>
     (\<exists>d \<in> set definitions. rd_Code d \<in> set rs \<and> p \<in> set (rd_Permissions d))"
  by (simp add: AccessFor_def Let_def ValidRole_def list_ex_iff) metis

definition all_permissions :: "AdminPermission list" where
  "all_permissions = [PermissionUsersRead, PermissionUsersWrite, PermissionClientsRead, PermissionClientsWrite,
     PermissionSourcesRead, PermissionSourcesWrite, PermissionAccessRead,
     PermissionAccessWrite, PermissionAuditRead, PermissionSecurityRead,
     PermissionSecurityWrite, PermissionMaintenanceExecute, PermissionAdminRolesRead,
     PermissionAdminRolesWrite]"

definition is_read :: "AdminPermission \<Rightarrow> bool" where
  "is_read p = (rev (take 5 (rev p)) = ''.read'')"

section \<open>Properties\<close>

text \<open>There is always a super administrator: from a repository that has one, no sequence of role
  replacements, for any users in any order, ends in a repository without one.\<close>
lemma super_admin_never_lost:
  assumes "gomap_ok r" and "0 < superAdminCountLocked r"
  shows "0 < superAdminCountLocked (final admin_step r ops)"
  using government.kept_final [of r ops] assms by (simp add: governed_def list_all_iff)

text \<open>A replacement of roles that succeeds takes effect as given: the user then has exactly the
  roles of the list and every permission of those roles and no other; other users' access is
  unchanged. One that fails changes nothing.\<close>
lemma role_replacement_effective:
  assumes "Admin_ReplaceUserRoles userID rs by' now r = (res, r')"
  shows "case res of
      Inl _ \<Rightarrow> r' = r
    | Inr _ \<Rightarrow> set (ac_Roles (Admin_Effective userID r')) = set rs \<and>
        (\<forall>p. p \<in> set (ac_Permissions (Admin_Effective userID r')) \<longleftrightarrow>
           (\<exists>d \<in> set definitions. rd_Code d \<in> set rs \<and> p \<in> set (rd_Permissions d))) \<and>
        (\<forall>u. u \<noteq> userID \<longrightarrow> Admin_Effective u r' = Admin_Effective u r)"
proof (cases res)
  case (Inl err)
  with assms show ?thesis
    by (auto simp: Admin_ReplaceUserRoles_def split: sum.splits if_splits)
next
  case (Inr x)
  let ?gs = "map (\<lambda>role. \<lparr>gr_UserID = userID, gr_Role = role, gr_GrantedAt = now, gr_GrantedBy = by'\<rparr>) rs"
  from Inr assms have r': "r' = map_put userID ?gs r" and "ValidateRoles rs = Inr ()"
    by (auto simp: Admin_ReplaceUserRoles_def split: sum.splits if_splits)
  then have valid: "list_all ValidRole rs" by (simp add: ValidateRoles_iff)
  have roles: "grantRoles (grants_of userID r') = rs" "\<And>u. u \<noteq> userID \<Longrightarrow> grants_of u r' = grants_of u r"
    by (simp_all add: r' grants_of_def grantRoles_def comp_def)
  have "set (ac_Roles (AccessFor userID rs)) = set rs"
    using valid by (auto simp: AccessFor_def Let_def list_all_iff)
  with roles Inr show ?thesis by (simp add: Admin_Effective_def AccessFor_permissions)
qed

text \<open>Separation of duties: of the console's permissions, a user whose only role is auditor has
  read permissions only; and only a super administrator may assign administrator roles.\<close>
lemma separation_of_duties:
  "list_all (\<lambda>p. Has (AccessFor u [RoleAuditor]) p \<longrightarrow> is_read p) all_permissions \<and>
   (Has (AccessFor u rs) PermissionAdminRolesWrite \<longleftrightarrow> RoleSuperAdmin \<in> set rs)"
proof
  have "Has (AccessFor u [RoleAuditor]) p = Has (AccessFor [] [RoleAuditor]) p" for p
    by (simp add: Has_def AccessFor_permissions)
  moreover have "list_all (\<lambda>p. Has (AccessFor [] [RoleAuditor]) p \<longrightarrow> is_read p) all_permissions"
    by code_simp
  ultimately show "list_all (\<lambda>p. Has (AccessFor u [RoleAuditor]) p \<longrightarrow> is_read p) all_permissions" by simp
  have "list_all (\<lambda>d. (PermissionAll \<in> set (rd_Permissions d) \<or>
      PermissionAdminRolesWrite \<in> set (rd_Permissions d)) = (rd_Code d = RoleSuperAdmin)) definitions"
    "list_ex (\<lambda>d. rd_Code d = RoleSuperAdmin) definitions"
    by code_simp+
  then show "Has (AccessFor u rs) PermissionAdminRolesWrite \<longleftrightarrow> RoleSuperAdmin \<in> set rs"
    unfolding Has_def AccessFor_permissions list_all_iff list_ex_iff
    by (metis list.distinct(1))
qed

end
