(* ===== verification/Audit_Log.thy ===== *)
theory Audit_Log
  imports Go_Encoding "HOL-Library.Product_Lexorder"
begin

text \<open>
  The audit log: \<open>internal/audit/audit.go\<close> (normalisation of an event) and
  \<open>memory_repository.go\<close> (append and filtered, paged listing). The values of the details map
  are of Go's type \<open>any\<close>, here a type parameter. A listing that would slice out of range panics;
  that outcome is \<open>None\<close>. The sum \<open>start + filter.Limit\<close> is an \<open>int\<close> of 64 bits.
\<close>

section \<open>Data\<close>

datatype audit_error = ErrAuditInvalid | ErrAuditRandom

type_synonym Outcome = string

abbreviation OutcomeSuccess :: Outcome where "OutcomeSuccess \<equiv> ''success''"
abbreviation OutcomeFailure :: Outcome where "OutcomeFailure \<equiv> ''failure''"

record 'd Event =
  ev_ID :: string
  ev_OccurredAt :: time
  ev_ActorUserID :: "string option"
  ev_EventType :: string
  ev_ClientID :: "string option"
  ev_IPAddress :: string
  ev_RequestID :: string
  ev_Outcome :: Outcome
  ev_Details :: "(string, 'd) gomap option"

record Filter =
  fi_ActorUserID :: string
  fi_EventType :: string
  fi_ClientID :: string
  fi_Outcome :: Outcome
  fi_From :: "time option"
  fi_To :: "time option"
  fi_Limit :: int
  fi_Offset :: int

record 'd Page =
  pa_Items :: "'d Event list"
  pa_Total :: int
  pa_Limit :: int
  pa_Offset :: int

type_synonym 'd AuditRepository = "'d Event list"

section \<open>Operations\<close>

definition Normalize :: "'d Event \<Rightarrow> time \<Rightarrow> audit_error + 'd Event" where
  "Normalize event now =
     (let event1 = event\<lparr>ev_EventType := TrimSpace (ev_EventType event),
                         ev_IPAddress := TrimSpace (ev_IPAddress event),
                         ev_RequestID := TrimSpace (ev_RequestID event)\<rparr>
      in if ev_EventType event1 = [] \<or>
            ev_Outcome event1 \<noteq> OutcomeSuccess \<and> ev_Outcome event1 \<noteq> OutcomeFailure
         then Inl ErrAuditInvalid
         else
           let event2 = (if ev_OccurredAt event1 = 0 then event1\<lparr>ev_OccurredAt := now\<rparr> else event1)
           in Inr (if ev_Details event2 = None then event2\<lparr>ev_Details := Some []\<rparr> else event2))"

text \<open>\<open>cloneEvent\<close> replaces a missing details map by an empty one and copies the rest.\<close>

definition cloneEvent :: "'d Event \<Rightarrow> 'd Event" where
  "cloneEvent event =
     event\<lparr>ev_Details := Some (case ev_Details event of None \<Rightarrow> [] | Some d \<Rightarrow> d)\<rparr>"

definition Append ::
  "bytes option \<Rightarrow> 'd Event \<Rightarrow> 'd AuditRepository \<Rightarrow> (audit_error + 'd Event) \<times> 'd AuditRepository" where
  "Append random event r =
     (case (if ev_ID event = []
            then (case RandomToken 16 random of Inl _ \<Rightarrow> Inl ErrAuditRandom
                  | Inr eid \<Rightarrow> Inr (event\<lparr>ev_ID := eid\<rparr>))
            else Inr event) of
        Inl err \<Rightarrow> (Inl err, r)
      | Inr event' \<Rightarrow> (Inr (cloneEvent event'), r @ [cloneEvent event']))"

definition selected :: "Filter \<Rightarrow> 'd Event \<Rightarrow> bool" where
  "selected filter' event =
     (\<not> (fi_ActorUserID filter' \<noteq> [] \<and> ev_ActorUserID event \<noteq> Some (fi_ActorUserID filter')) \<and>
      \<not> (fi_EventType filter' \<noteq> [] \<and> \<not> EqualFold (ev_EventType event) (fi_EventType filter')) \<and>
      \<not> (fi_ClientID filter' \<noteq> [] \<and> ev_ClientID event \<noteq> Some (fi_ClientID filter')) \<and>
      \<not> (fi_Outcome filter' \<noteq> [] \<and> ev_Outcome event \<noteq> fi_Outcome filter') \<and>
      \<not> (case fi_From filter' of None \<Rightarrow> False | Some from' \<Rightarrow> ev_OccurredAt event < from') \<and>
      \<not> (case fi_To filter' of None \<Rightarrow> False | Some to' \<Rightarrow> \<not> ev_OccurredAt event < to'))"

text \<open>Newest first; events of one instant by descending identifier.\<close>

definition newest_first :: "'d Event list \<Rightarrow> 'd Event list" where
  "newest_first es = rev (sort_key (\<lambda>e. (ev_OccurredAt e, ev_ID e)) es)"

definition Audit_List :: "Filter \<Rightarrow> 'd AuditRepository \<Rightarrow> 'd Page option" where
  "Audit_List filter' r =
     (let items = newest_first (map cloneEvent (filter (selected filter') r));
          total = int (length items);
          start = min (fi_Offset filter') total;
          end' = min (wrap64 (start + fi_Limit filter')) total
      in map_option (\<lambda>page. \<lparr>pa_Items = page, pa_Total = total, pa_Limit = fi_Limit filter',
                             pa_Offset = fi_Offset filter'\<rparr>) (slice items start end'))"

section \<open>Facts\<close>

abbreviation matching :: "Filter \<Rightarrow> 'd AuditRepository \<Rightarrow> 'd Event list" where
  "matching f r \<equiv> newest_first (map cloneEvent (filter (selected f) r))"

lemma length_newest_first [simp]: "length (newest_first es) = length es"
  by (simp add: newest_first_def)

lemma Audit_List_page:
  assumes "0 \<le> fi_Offset f" and "0 \<le> fi_Limit f"
    and "int (length r) + fi_Limit f < 2 ^ 63"
  shows "Audit_List f r = Some \<lparr>pa_Items = take (nat (fi_Limit f)) (drop (nat (fi_Offset f)) (matching f r)),
    pa_Total = int (length (matching f r)), pa_Limit = fi_Limit f, pa_Offset = fi_Offset f\<rparr>"
proof -
  let ?m = "matching f r" and ?o = "fi_Offset f" and ?l = "fi_Limit f"
  have "int (length ?m) \<le> int (length r)" by simp
  then have w: "wrap64 (min ?o (int (length ?m)) + ?l) = min ?o (int (length ?m)) + ?l"
    using assms by (intro wrap64_id) linarith+
  have s: "slice ?m (min ?o (int (length ?m))) (min (min ?o (int (length ?m)) + ?l) (int (length ?m))) =
      Some (take (nat ?l) (drop (nat ?o) ?m))"
  proof (cases "?o \<le> int (length ?m)")
    case True
    with assms(1,2) show ?thesis
      by (cases "?o + ?l \<le> int (length ?m)") (simp_all add: slice_def min_def nat_diff_distrib)
  next
    case False
    with assms(1,2) show ?thesis by (simp add: slice_def min_def)
  qed
  show ?thesis unfolding Audit_List_def Let_def w s by simp
qed

lemma concat_pages: "concat (map (\<lambda>i. take l (drop (i * l) xs)) [0..<n]) = take (n * l) xs"
proof (induction n)
  case (Suc n)
  then show ?case by (simp add: take_add [symmetric] add.commute)
qed simp

definition page_of :: "Filter \<Rightarrow> nat \<Rightarrow> nat \<Rightarrow> 'd AuditRepository \<Rightarrow> 'd Event list" where
  "page_of f l i r =
     (case Audit_List (f\<lparr>fi_Limit := int l, fi_Offset := int (i * l)\<rparr>) r of
        None \<Rightarrow> [] | Some p \<Rightarrow> pa_Items p)"

lemma selected_paging [simp]: "selected (f\<lparr>fi_Limit := l, fi_Offset := o'\<rparr>) = selected f"
  by (intro ext) (simp add: selected_def)

section \<open>A worked scenario\<close>

definition demo_event :: "string \<Rightarrow> time \<Rightarrow> nat Event" where
  "demo_event i t = \<lparr>ev_ID = i, ev_OccurredAt = t, ev_ActorUserID = Some ''u1'', ev_EventType = ''login'',
     ev_ClientID = None, ev_IPAddress = ''ip'', ev_RequestID = ''req'', ev_Outcome = OutcomeSuccess,
     ev_Details = None\<rparr>"

definition demo_log :: "nat AuditRepository" where
  "demo_log = snd (Append None (demo_event ''b'' 7) (snd (Append None (demo_event ''a'' 5) [])))"

definition demo_filter :: Filter where
  "demo_filter = \<lparr>fi_ActorUserID = ''u1'', fi_EventType = ''LOGIN'', fi_ClientID = [], fi_Outcome = [],
     fi_From = None, fi_To = Some 10, fi_Limit = 1, fi_Offset = 0\<rparr>"

section \<open>Properties\<close>

text \<open>Listing the audit log page by page shows every matching event exactly once, newest first, with
  the total on every page: the pages of any size put together are the whole sorted list of
  matching events.\<close>
lemma audit_pages_complete:
  assumes "0 < l" and "int (length r) + int l < 2 ^ 63" and "length r \<le> n * l"
  shows "concat (map (\<lambda>i. page_of f l i r) [0..<n]) = matching f r \<and>
    mset (matching f r) = mset (map cloneEvent (filter (selected f) r)) \<and>
    sorted (map (\<lambda>e. (ev_OccurredAt e, ev_ID e)) (rev (matching f r)))"
proof -
  have page: "page_of f l i r = take l (drop (i * l) (matching f r))" for i
    using Audit_List_page [of "f\<lparr>fi_Limit := int l, fi_Offset := int (i * l)\<rparr>" r] assms(2)
    by (simp add: page_of_def nat_mult_distrib)
  have "length (matching f r) \<le> n * l" using assms(3) by (simp add: le_trans [OF length_filter_le])
  then show ?thesis by (simp add: page concat_pages) (simp add: newest_first_def)
qed

text \<open>A listing panics exactly when it is asked for a negative offset or limit; for all other
  filters it returns the page (while the log and the limit fit a 64-bit integer).\<close>
lemma audit_listing_panics_iff:
  assumes "int (length r) < 2 ^ 62" and "- (2 ^ 62) \<le> fi_Offset f" and "- (2 ^ 62) \<le> fi_Limit f" and "fi_Limit f < 2 ^ 62"
  shows "Audit_List f r = None \<longleftrightarrow> fi_Offset f < 0 \<or> fi_Limit f < 0"
proof (cases "fi_Offset f < 0 \<or> fi_Limit f < 0")
  case False
  with Audit_List_page [of f r] assms show ?thesis by simp
next
  case True
  let ?m = "matching f r"
  have p: "(2 :: int) ^ 62 = 4611686018427387904" "(2 :: int) ^ 63 = 9223372036854775808" by simp_all
  have "int (length ?m) \<le> int (length r)" by simp
  then have "wrap64 (min (fi_Offset f) (int (length ?m)) + fi_Limit f) =
      min (fi_Offset f) (int (length ?m)) + fi_Limit f"
    using assms unfolding p by (intro wrap64_id [unfolded p]) linarith+
  with True show ?thesis by (auto simp: Audit_List_def Let_def slice_def)
qed

end
