(* ===== verification/Key_Ring.thy ===== *)
theory Key_Ring
  imports Go_Encoding
begin

text \<open>
  The secret encryption key ring of \<open>internal/secrets/keyring.go\<close>. The AEAD of
  \<open>crypto/aes\<close> and \<open>crypto/cipher\<close> (AES-GCM with a 12-byte nonce and a 16-byte tag) is a pair of
  parameters \<open>seal key nonce plaintext aad\<close> and \<open>open' key nonce ciphertext aad\<close>; what the
  package documents of them is \<open>aead_ok\<close>. \<open>aes.NewCipher\<close> fails only for key lengths the
  code has excluded before it calls it.
\<close>

section \<open>Data\<close>

datatype secrets_error = ErrSecretUnavailable | ErrInvalidEnvelope | ErrKeyRingSpec | ErrSecretRandom

type_synonym seal_fun = "bytes \<Rightarrow> bytes \<Rightarrow> bytes \<Rightarrow> bytes \<Rightarrow> bytes"
type_synonym open_fun = "bytes \<Rightarrow> bytes \<Rightarrow> bytes \<Rightarrow> bytes \<Rightarrow> bytes option"

abbreviation nonceSize :: nat where "nonceSize \<equiv> 12"
abbreviation overhead :: nat where "overhead \<equiv> 16"

definition aead_ok :: "seal_fun \<Rightarrow> open_fun \<Rightarrow> bool" where
  "aead_ok seal open' = (\<forall>key nonce plaintext aad.
     open' key nonce (seal key nonce plaintext aad) aad = Some plaintext \<and>
     length (seal key nonce plaintext aad) = length plaintext + overhead)"

record KeyRing =
  kr_primaryID :: string
  kr_keys :: "(string, bytes) gomap"

definition empty_ring :: KeyRing where
  "empty_ring = \<lparr>kr_primaryID = [], kr_keys = []\<rparr>"

definition envelopePrefix :: string where
  "envelopePrefix = ''certus-secret-v1.''"

text \<open>\<open>^[A-Za-z0-9][A-Za-z0-9._-]{0,31}$\<close>\<close>

definition alnum :: "char \<Rightarrow> bool" where
  "alnum c = (is_upper c \<or> is_lower c \<or> is_digit c)"

definition keyIDPattern :: "string \<Rightarrow> bool" where
  "keyIDPattern s = (case s of [] \<Rightarrow> False
     | c # t \<Rightarrow> alnum c \<and> list_all (\<lambda>x. alnum x \<or> x \<in> {CHR ''.'', CHR ''_'', CHR ''-''}) t \<and> length t \<le> 31)"

section \<open>Operations\<close>

text \<open>The body of the loop of \<open>ParseKeyRing\<close> for one entry, and the loop; \<open>first\<close> is
  \<open>index == 0\<close>.\<close>

definition parse_entry :: "KeyRing \<Rightarrow> string \<Rightarrow> secrets_error + string \<times> bytes" where
  "parse_entry result entry =
     (let (keyID0, encoded0, ok) =
            (case Cut (CHR ''='') (TrimSpace entry) of None \<Rightarrow> (TrimSpace entry, [], False)
             | Some (a, b) \<Rightarrow> (a, b, True));
          keyID = TrimSpace keyID0; encoded = TrimSpace encoded0
      in if \<not> ok \<or> \<not> keyIDPattern keyID \<or> encoded = [] then Inl ErrKeyRingSpec
         else if map_of (kr_keys result) keyID \<noteq> None then Inl ErrKeyRingSpec
         else case StdEncoding_DecodeString encoded of
           None \<Rightarrow> Inl ErrKeyRingSpec
         | Some key \<Rightarrow> if length key \<noteq> 32 then Inl ErrKeyRingSpec else Inr (keyID, key))"

fun parse_entries :: "bool \<Rightarrow> KeyRing \<Rightarrow> string list \<Rightarrow> secrets_error + KeyRing" where
  "parse_entries first result [] = Inr result"
| "parse_entries first result (entry # entries) =
     (case parse_entry result entry of Inl err \<Rightarrow> Inl err
      | Inr (keyID, key) \<Rightarrow>
          parse_entries False
            (result\<lparr>kr_keys := map_put keyID key (kr_keys result),
                    kr_primaryID := (if first then keyID else kr_primaryID result)\<rparr>) entries)"

definition ParseKeyRing :: "string \<Rightarrow> secrets_error + KeyRing" where
  "ParseKeyRing specification =
     (let specification' = TrimSpace specification in
      if specification' = [] then Inr empty_ring
      else parse_entries True empty_ring (Split (CHR '','') specification'))"

definition key_of :: "KeyRing \<Rightarrow> string \<Rightarrow> bytes" where
  "key_of k keyID = (case map_of (kr_keys k) keyID of None \<Rightarrow> [] | Some key \<Rightarrow> key)"

definition Available :: "KeyRing \<Rightarrow> bool" where
  "Available k = (kr_primaryID k \<noteq> [] \<and> length (key_of k (kr_primaryID k)) = 32)"

definition PrimaryID :: "KeyRing \<Rightarrow> string" where
  "PrimaryID k = kr_primaryID k"

definition envelopeAAD :: "string \<Rightarrow> string \<Rightarrow> string \<Rightarrow> bytes" where
  "envelopeAAD purpose recordID keyID =
     bytes_of (purpose @ [char_of (0 :: nat)] @ recordID @ [char_of (0 :: nat)] @ keyID)"

definition Encrypt ::
  "seal_fun \<Rightarrow> bytes option \<Rightarrow> KeyRing \<Rightarrow> string \<Rightarrow> string \<Rightarrow> bytes \<Rightarrow> secrets_error + bytes \<times> string" where
  "Encrypt seal random k purpose recordID plaintext =
     (if \<not> Available k then Inl ErrSecretUnavailable
      else case random of None \<Rightarrow> Inl ErrSecretRandom
      | Some nonce \<Rightarrow>
          let payload = nonce @ seal (key_of k (kr_primaryID k)) nonce plaintext
                                  (envelopeAAD purpose recordID (kr_primaryID k));
              envelope = envelopePrefix @ kr_primaryID k @ ''.'' @ RawURLEncoding_EncodeToString payload
          in Inr (bytes_of envelope, kr_primaryID k))"

definition parseEnvelope :: "bytes \<Rightarrow> secrets_error + string \<times> bytes" where
  "parseEnvelope envelope =
     (let value = string_of envelope in
      if \<not> HasPrefix value envelopePrefix then Inl ErrInvalidEnvelope
      else case Cut (CHR ''.'') (drop (length envelopePrefix) value) of
        None \<Rightarrow> Inl ErrInvalidEnvelope
      | Some (keyID, encoded) \<Rightarrow>
          if \<not> keyIDPattern keyID \<or> encoded = [] then Inl ErrInvalidEnvelope
          else case RawURLEncoding_DecodeString encoded of
            None \<Rightarrow> Inl ErrInvalidEnvelope
          | Some payload \<Rightarrow> Inr (keyID, payload))"

definition Decrypt ::
  "open_fun \<Rightarrow> KeyRing \<Rightarrow> string \<Rightarrow> string \<Rightarrow> bytes \<Rightarrow> string \<Rightarrow> secrets_error + bytes" where
  "Decrypt open' k purpose recordID envelope expectedKeyID =
     (case parseEnvelope envelope of Inl err \<Rightarrow> Inl err
      | Inr (keyID, payload) \<Rightarrow>
          if expectedKeyID \<noteq> [] \<and> expectedKeyID \<noteq> keyID then Inl ErrInvalidEnvelope
          else if length (key_of k keyID) \<noteq> 32 then Inl ErrSecretUnavailable
          else if length payload < nonceSize + overhead then Inl ErrInvalidEnvelope
          else case open' (key_of k keyID) (take nonceSize payload) (drop nonceSize payload)
                      (envelopeAAD purpose recordID keyID) of
            None \<Rightarrow> Inl ErrInvalidEnvelope
          | Some plaintext \<Rightarrow> Inr plaintext)"

definition EnvelopeKeyID :: "bytes \<Rightarrow> string \<times> bool" where
  "EnvelopeKeyID envelope =
     (case parseEnvelope envelope of Inl _ \<Rightarrow> ([], False) | Inr (keyID, _) \<Rightarrow> (keyID, True))"

section \<open>Facts\<close>

lemma envelope_parse:
  assumes "CHR ''.'' \<notin> set keyID" and "keyIDPattern keyID" and "payload \<noteq> []"
  shows "parseEnvelope (bytes_of (envelopePrefix @ keyID @ ''.'' @ RawURLEncoding_EncodeToString payload)) =
    Inr (keyID, payload)"
  using assms by (simp add: parseEnvelope_def Let_def Cut_append_sep raw64_roundtrip)

lemma sextets_bad: "c \<in> set s \<Longrightarrow> c \<notin> set a \<Longrightarrow> sextets a s = None"
proof (induction s)
  case (Cons d s)
  have "index_of c a = None" using Cons.prems(2) by (induction a) auto
  with Cons show ?case by (auto split: option.split)
qed simp

lemma decode_bad: "CHR ''.'' \<in> set s \<Longrightarrow> RawURLEncoding_DecodeString s = None"
  using sextets_bad [of "CHR ''.''" "filter (\<lambda>c. \<not> is_newline c) s" url_alphabet]
  by (simp add: raw64_decode_def Let_def is_newline_def char_code_def url_alphabet_def)

lemma dotted_envelope:
  assumes "CHR ''.'' \<in> set keyID"
  shows "parseEnvelope (bytes_of (envelopePrefix @ keyID @ ''.'' @ encoded)) = Inl ErrInvalidEnvelope"
proof -
  from split_list_first [OF assms] obtain a b where k: "keyID = a @ CHR ''.'' # b" "CHR ''.'' \<notin> set a"
    by blast
  have "Cut (CHR ''.'') (keyID @ ''.'' @ encoded) = Some (a, b @ ''.'' @ encoded)"
    unfolding k by (simp add: Cut_append_sep k(2))
  moreover have "RawURLEncoding_DecodeString (b @ ''.'' @ encoded) = None" by (rule decode_bad) simp
  ultimately show ?thesis by (simp add: parseEnvelope_def Let_def)
qed

lemma roundtrip_rule:
  assumes "aead_ok seal open'" and "Available k" and "keyIDPattern (kr_primaryID k)"
    and "CHR ''.'' \<notin> set (kr_primaryID k)" and "length nonce = nonceSize"
  shows "\<exists>envelope. Encrypt seal (Some nonce) k purpose recordID plaintext = Inr (envelope, kr_primaryID k) \<and>
    EnvelopeKeyID envelope = (kr_primaryID k, True) \<and>
    (\<forall>expected \<in> {[], kr_primaryID k}. Decrypt open' k purpose recordID envelope expected = Inr plaintext)"
proof -
  let ?key = "key_of k (kr_primaryID k)" and ?aad = "envelopeAAD purpose recordID (kr_primaryID k)"
  let ?payload = "nonce @ seal ?key nonce plaintext ?aad"
  let ?env = "bytes_of (envelopePrefix @ kr_primaryID k @ ''.'' @ RawURLEncoding_EncodeToString ?payload)"
  have len: "length (seal ?key nonce plaintext ?aad) = length plaintext + overhead"
    and inv: "open' ?key nonce (seal ?key nonce plaintext ?aad) ?aad = Some plaintext"
    using assms(1) by (simp_all add: aead_ok_def)
  have "?payload \<noteq> []" using len by auto
  from envelope_parse [OF assms(4,3) this]
  have parse: "parseEnvelope ?env = Inr (kr_primaryID k, ?payload)" .
  have "Encrypt seal (Some nonce) k purpose recordID plaintext = Inr (?env, kr_primaryID k)"
    using assms(2) by (simp add: Encrypt_def Let_def)
  moreover have "\<forall>expected \<in> {[], kr_primaryID k}. Decrypt open' k purpose recordID ?env expected = Inr plaintext"
    using parse inv len assms(2,5) by (auto simp: Decrypt_def Available_def)
  moreover have "EnvelopeKeyID ?env = (kr_primaryID k, True)" unfolding EnvelopeKeyID_def parse by simp
  ultimately show ?thesis by blast
qed

text \<open>What \<open>ParseKeyRing\<close> establishes.\<close>

definition ring_ok :: "KeyRing \<Rightarrow> bool" where
  "ring_ok k = (gomap_ok (kr_keys k) \<and>
     (\<forall>(keyID, key) \<in> set (kr_keys k). keyIDPattern keyID \<and> length key = 32))"

lemma parse_entry_ok:
  "parse_entry k entry = Inr (keyID, key) \<Longrightarrow>
     keyIDPattern keyID \<and> length key = 32 \<and> map_of (kr_keys k) keyID = None"
  by (auto simp: parse_entry_def Let_def split: option.splits prod.splits if_splits)

lemma ring_ok_put:
  "ring_ok k \<Longrightarrow> keyIDPattern keyID \<Longrightarrow> length key = 32 \<Longrightarrow>
   ring_ok (k\<lparr>kr_keys := map_put keyID key (kr_keys k), kr_primaryID := p\<rparr>)"
  by (auto simp: ring_ok_def dest!: set_put_subset)

lemma parse_entries_ok:
  "parse_entries first k es = Inr k' \<Longrightarrow> ring_ok k \<Longrightarrow>
   ring_ok k' \<and> (map_of (kr_keys k) i \<noteq> None \<longrightarrow> map_of (kr_keys k') i = map_of (kr_keys k) i) \<and>
   (\<not> first \<or> es = [] \<longrightarrow> kr_primaryID k' = kr_primaryID k)"
proof (induction first k es arbitrary: k' rule: parse_entries.induct)
  case (2 first k entry es)
  then obtain keyID key where e: "parse_entry k entry = Inr (keyID, key)" by (auto split: sum.splits)
  note ok = parse_entry_ok [OF e]
  from "2.IH" [OF e refl, of k'] "2.prems" ok e ring_ok_put [OF "2.prems"(2)] show ?case by auto
qed simp

lemma primary_known:
  assumes "parse_entries True k es = Inr k'" and "ring_ok k" and "es \<noteq> []"
  shows "ring_ok k' \<and> map_of (kr_keys k') (kr_primaryID k') \<noteq> None"
proof -
  obtain e es' where es: "es = e # es'" using assms(3) by (cases es) auto
  then obtain keyID key where e: "parse_entry k e = Inr (keyID, key)"
    using assms(1) by (auto split: sum.splits)
  let ?k = "k\<lparr>kr_keys := map_put keyID key (kr_keys k), kr_primaryID := keyID\<rparr>"
  have rest: "parse_entries False ?k es' = Inr k'" using assms(1) by (simp add: es e)
  have "ring_ok ?k" using assms(2) parse_entry_ok [OF e] by (intro ring_ok_put) auto
  from parse_entries_ok [OF rest this, of keyID] show ?thesis by auto
qed

lemma ring_ok_lookup: "ring_ok k \<Longrightarrow> map_of (kr_keys k) i = Some key \<Longrightarrow> keyIDPattern i \<and> length key = 32"
  by (auto simp: ring_ok_def dest!: map_of_SomeD)

section \<open>A worked scenario\<close>

definition demo_seal :: seal_fun where
  "demo_seal key nonce plaintext aad = rev plaintext @ replicate 16 0"

definition demo_open :: open_fun where
  "demo_open key nonce ciphertext aad = Some (rev (take (length ciphertext - 16) ciphertext))"

lemma demo_aead_ok: "aead_ok demo_seal demo_open"
  by (simp add: aead_ok_def demo_seal_def demo_open_def)

definition demo_ring :: "string \<Rightarrow> KeyRing" where
  "demo_ring keyID = \<lparr>kr_primaryID = keyID, kr_keys = [(keyID, replicate 32 1)]\<rparr>"

section \<open>Properties\<close>

text \<open>A secret encrypted with the primary key decrypts to itself: for every available ring whose
  primary identifier is well formed and has no dot, every AEAD with the documented inverse law and
  every nonce of the right size, \<open>Decrypt\<close> of the envelope with the same purpose and record
  returns the plaintext.\<close>
lemma encrypt_decrypt_roundtrip:
  assumes "aead_ok seal open'" and "Available k" and "keyIDPattern (kr_primaryID k)"
    and "CHR ''.'' \<notin> set (kr_primaryID k)" and "length nonce = nonceSize"
    and "expectedKeyID \<in> {[], kr_primaryID k}"
  shows "\<exists>envelope. Encrypt seal (Some nonce) k purpose recordID plaintext = Inr (envelope, kr_primaryID k) \<and>
    Decrypt open' k purpose recordID envelope expectedKeyID = Inr plaintext"
  using roundtrip_rule [OF assms(1-5)] assms(6) by blast

text \<open>A primary key identifier with a dot, which the identifier pattern allows, yields envelopes
  that no ring can decrypt: the identifier is cut at its first dot, so every call of \<open>Decrypt\<close>
  on such an envelope reports \<open>ErrInvalidEnvelope\<close>.\<close>
lemma dotted_key_id_is_undecryptable:
  assumes "CHR ''.'' \<in> set (kr_primaryID k)"
    and "Encrypt seal random k purpose recordID plaintext = Inr (envelope, keyID)"
  shows "Decrypt open' k' purpose' recordID' envelope expected = Inl ErrInvalidEnvelope"
proof -
  obtain nonce where "envelope = bytes_of (envelopePrefix @ kr_primaryID k @ ''.'' @
      RawURLEncoding_EncodeToString (nonce @ seal (key_of k (kr_primaryID k)) nonce plaintext
        (envelopeAAD purpose recordID (kr_primaryID k))))"
    using assms(2) by (auto simp: Encrypt_def Let_def split: if_splits option.splits)
  with dotted_envelope [OF assms(1)] show ?thesis by (simp add: Decrypt_def)
qed

text \<open>A key ring parsed from a specification is usable: unless the specification is blank (which
  gives the empty, unavailable ring), the ring is available, and every key has 32 bytes under a
  well-formed identifier.\<close>
lemma parsed_key_ring_is_available:
  assumes "ParseKeyRing specification = Inr k"
  shows "if TrimSpace specification = [] then k = empty_ring
    else Available k \<and> (\<forall>(keyID, key) \<in> set (kr_keys k). keyIDPattern keyID \<and> length key = 32)"
proof (cases "TrimSpace specification = []")
  case True
  with assms show ?thesis by (simp add: ParseKeyRing_def)
next
  case False
  have "ring_ok empty_ring" by (simp add: ring_ok_def empty_ring_def)
  from primary_known [OF _ this Split_not_Nil, of "CHR '',''" "TrimSpace specification"] assms False
  have ok: "ring_ok k" and "map_of (kr_keys k) (kr_primaryID k) \<noteq> None"
    by (simp_all add: ParseKeyRing_def Let_def)
  then obtain key where "map_of (kr_keys k) (kr_primaryID k) = Some key" by blast
  with ring_ok_lookup [OF ok this] have "Available k"
    by (auto simp: Available_def key_of_def keyIDPattern_def)
  with ok False show ?thesis by (simp add: ring_ok_def)
qed

end
