(* ===== verification/MFA_Store.thy ===== *)
theory MFA_Store
  imports Certus_Prelude
begin

text \<open>
  Multi-factor credentials and trusted devices: \<open>internal/mfa/memory_repository.go\<close>, every method
  of \<open>MemoryRepository\<close>. The map keys \<open>string(hash)\<close> of trusted devices are the hashes
  themselves. A \<open>range\<close> loop that deletes some keys is \<open>map_keep\<close>.
\<close>

section \<open>Data\<close>

datatype mfa_error =
    ErrMfaNotFound | ErrMfaUnavailable | ErrInvalidCode | ErrLocked | ErrReplay | ErrAlreadyEnabled
  | ErrNotEnabled | ErrTrustedDeviceNotFound | ErrMfaRandom

record Credential =
  cr_UserID :: string
  cr_Secret :: bytes
  cr_Enabled :: bool
  cr_CreatedAt :: time
  cr_VerifiedAt :: "time option"
  cr_LastUsedStep :: int
  cr_FailedAttempts :: int
  cr_LockedUntil :: "time option"
  cr_RecoveryCodes :: nat

record memoryCredential = Credential +
  mc_recoveryCodes :: "bytes list"

record TrustedDevice =
  td_UserID :: string
  td_TokenHash :: bytes
  td_UserAgentHash :: bytes
  td_CreatedAt :: time
  td_LastUsedAt :: time
  td_ExpiresAt :: time

record SecretRecord =
  sr_UserID :: string
  sr_Ciphertext :: bytes

record MFARepository =
  credentials :: "(string, memoryCredential) gomap"
  trustedDevices :: "(bytes, TrustedDevice) gomap"

definition MFA_NewMemoryRepository :: MFARepository where
  "MFA_NewMemoryRepository = \<lparr>credentials = [], trustedDevices = []\<rparr>"

section \<open>Credentials\<close>

definition put_credential :: "string \<Rightarrow> memoryCredential \<Rightarrow> MFARepository \<Rightarrow> MFARepository" where
  [store_defs]: "put_credential userID value r = r\<lparr>credentials := map_put userID value (credentials r)\<rparr>"

definition MFA_Find :: "string \<Rightarrow> MFARepository \<Rightarrow> mfa_error + Credential" where
  [store_defs]: "MFA_Find userID r =
     (case map_of (credentials r) userID of None \<Rightarrow> Inl ErrMfaNotFound
      | Some value \<Rightarrow>
          Inr ((Credential.truncate value)\<lparr>cr_RecoveryCodes := length (mc_recoveryCodes value)\<rparr>))"

definition deleteTrustedDevicesLocked :: "string \<Rightarrow> MFARepository \<Rightarrow> nat \<times> MFARepository" where
  [store_defs]: "deleteTrustedDevicesLocked userID r =
     (length (filter (\<lambda>(_, device). td_UserID device = userID) (trustedDevices r)),
      r\<lparr>trustedDevices := map_keep (\<lambda>_ device. td_UserID device \<noteq> userID) (trustedDevices r)\<rparr>)"

definition ReplacePending ::
  "Credential \<Rightarrow> bytes list \<Rightarrow> MFARepository \<Rightarrow> (mfa_error + unit) \<times> MFARepository" where
  [store_defs]: "ReplacePending credential recoveryCodes r =
     (Inr (), snd (deleteTrustedDevicesLocked (cr_UserID credential)
        (put_credential (cr_UserID credential)
           (Credential.extend credential \<lparr>mc_recoveryCodes = recoveryCodes\<rparr>) r)))"

definition ReplaceRecoveryCodes ::
  "string \<Rightarrow> bytes list \<Rightarrow> MFARepository \<Rightarrow> (mfa_error + unit) \<times> MFARepository" where
  [store_defs]: "ReplaceRecoveryCodes userID recoveryCodes r =
     (case map_of (credentials r) userID of None \<Rightarrow> (Inl ErrMfaNotFound, r)
      | Some value \<Rightarrow>
          if \<not> cr_Enabled value then (Inl ErrNotEnabled, r)
          else (Inr (), put_credential userID (value\<lparr>mc_recoveryCodes := recoveryCodes\<rparr>) r))"

definition ListSecretCiphertexts :: "MFARepository \<Rightarrow> SecretRecord list" where
  [store_defs]: "ListSecretCiphertexts r =
     map (\<lambda>(_, value). \<lparr>sr_UserID = cr_UserID value, sr_Ciphertext = cr_Secret value\<rparr>) (credentials r)"

definition ReplaceSecretCiphertext ::
  "string \<Rightarrow> bytes \<Rightarrow> bytes \<Rightarrow> MFARepository \<Rightarrow> bool \<times> MFARepository" where
  [store_defs]: "ReplaceSecretCiphertext userID current replacement r =
     (case map_of (credentials r) userID of None \<Rightarrow> (False, r)
      | Some value \<Rightarrow>
          if cr_Secret value \<noteq> current then (False, r)
          else (True, put_credential userID (value\<lparr>cr_Secret := replacement\<rparr>) r))"

definition MFA_Enable ::
  "string \<Rightarrow> int \<Rightarrow> time \<Rightarrow> MFARepository \<Rightarrow> (mfa_error + unit) \<times> MFARepository" where
  [store_defs]: "MFA_Enable userID step now r =
     (case map_of (credentials r) userID of None \<Rightarrow> (Inl ErrMfaNotFound, r)
      | Some value \<Rightarrow>
          (Inr (), put_credential userID
             (value\<lparr>cr_Enabled := True, cr_VerifiedAt := Some now, cr_LastUsedStep := step,
                    cr_FailedAttempts := 0, cr_LockedUntil := None\<rparr>) r))"

definition UseTOTP ::
  "string \<Rightarrow> int \<Rightarrow> MFARepository \<Rightarrow> (mfa_error + unit) \<times> MFARepository" where
  [store_defs]: "UseTOTP userID step r =
     (case map_of (credentials r) userID of None \<Rightarrow> (Inl ErrInvalidCode, r)
      | Some value \<Rightarrow>
          if \<not> cr_Enabled value then (Inl ErrInvalidCode, r)
          else if step \<le> cr_LastUsedStep value then (Inl ErrReplay, r)
          else (Inr (), put_credential userID
             (value\<lparr>cr_LastUsedStep := step, cr_FailedAttempts := 0, cr_LockedUntil := None\<rparr>) r))"

definition UseRecoveryCode ::
  "string \<Rightarrow> bytes \<Rightarrow> MFARepository \<Rightarrow> (mfa_error + unit) \<times> MFARepository" where
  [store_defs]: "UseRecoveryCode userID hash r =
     (case map_of (credentials r) userID of None \<Rightarrow> (Inl ErrInvalidCode, r)
      | Some value \<Rightarrow>
          if \<not> cr_Enabled value then (Inl ErrInvalidCode, r)
          else if hash \<in> set (mc_recoveryCodes value)
          then (Inr (), put_credential userID
             (value\<lparr>mc_recoveryCodes := remove1 hash (mc_recoveryCodes value),
                    cr_FailedAttempts := 0, cr_LockedUntil := None\<rparr>) r)
          else (Inl ErrInvalidCode, r))"

definition RecordFailure ::
  "string \<Rightarrow> int \<Rightarrow> time option \<Rightarrow> MFARepository \<Rightarrow> (mfa_error + unit) \<times> MFARepository" where
  [store_defs]: "RecordFailure userID attempts lockedUntil r =
     (case map_of (credentials r) userID of None \<Rightarrow> (Inl ErrMfaNotFound, r)
      | Some value \<Rightarrow>
          (Inr (), put_credential userID
             (value\<lparr>cr_FailedAttempts := attempts, cr_LockedUntil := lockedUntil\<rparr>) r))"

definition MFA_Delete :: "string \<Rightarrow> MFARepository \<Rightarrow> (mfa_error + unit) \<times> MFARepository" where
  [store_defs]: "MFA_Delete userID r =
     (case map_of (credentials r) userID of None \<Rightarrow> (Inl ErrMfaNotFound, r)
      | Some _ \<Rightarrow>
          (Inr (), snd (deleteTrustedDevicesLocked userID
             (r\<lparr>credentials := map_delete userID (credentials r)\<rparr>))))"

section \<open>Trusted devices\<close>

text \<open>The devices dropped by the loop \<open>for len(devices) > maxDevices\<close>: the least recently used
  ones beyond the limit.\<close>

definition surplus :: "string \<Rightarrow> int \<Rightarrow> (bytes, TrustedDevice) gomap \<Rightarrow> bytes list" where
  "surplus userID maxDevices ds =
     (let candidates = sort_key snd
            (map (\<lambda>(key, d). (key, td_LastUsedAt d)) (filter (\<lambda>(_, d). td_UserID d = userID) ds))
      in map fst (take (length candidates - nat maxDevices) candidates))"

definition StoreTrustedDevice ::
  "TrustedDevice \<Rightarrow> int \<Rightarrow> MFARepository \<Rightarrow> (mfa_error + unit) \<times> MFARepository" where
  [store_defs]: "StoreTrustedDevice device maxDevices r =
     (case map_of (credentials r) (td_UserID device) of None \<Rightarrow> (Inl ErrMfaNotFound, r)
      | Some credential \<Rightarrow>
          if \<not> cr_Enabled credential then (Inl ErrNotEnabled, r)
          else
            let now = td_CreatedAt device;
                kept = map_keep (\<lambda>_ current. \<not> (td_UserID current = td_UserID device \<and>
                                                 \<not> td_ExpiresAt current > now)) (trustedDevices r);
                stored = map_put (td_TokenHash device) device kept
            in (Inr (), r\<lparr>trustedDevices :=
                  (if maxDevices \<le> 0 then stored
                   else foldl (\<lambda>m key. map_delete key m) stored (surplus (td_UserID device) maxDevices stored))\<rparr>))"

definition RotateTrustedDevice ::
  "string \<Rightarrow> bytes \<Rightarrow> bytes \<Rightarrow> bytes \<Rightarrow> time \<Rightarrow> MFARepository \<Rightarrow> (mfa_error + time) \<times> MFARepository" where
  [store_defs]: "RotateTrustedDevice userID currentHash replacementHash userAgentHash now r =
     (case map_of (trustedDevices r) currentHash of None \<Rightarrow> (Inl ErrTrustedDeviceNotFound, r)
      | Some device \<Rightarrow>
          if td_UserID device \<noteq> userID \<or> td_UserAgentHash device \<noteq> userAgentHash
          then (Inl ErrTrustedDeviceNotFound, r)
          else if \<not> td_ExpiresAt device > now
          then (Inl ErrTrustedDeviceNotFound,
                r\<lparr>trustedDevices := map_delete currentHash (trustedDevices r)\<rparr>)
          else (Inr (td_ExpiresAt device),
                r\<lparr>trustedDevices := map_put replacementHash
                     (device\<lparr>td_TokenHash := replacementHash, td_LastUsedAt := now\<rparr>)
                     (map_delete currentHash (trustedDevices r))\<rparr>))"

definition CountTrustedDevices :: "string \<Rightarrow> time \<Rightarrow> MFARepository \<Rightarrow> nat \<times> MFARepository" where
  [store_defs]: "CountTrustedDevices userID now r =
     (length (filter (\<lambda>(_, device). td_UserID device = userID \<and> td_ExpiresAt device > now) (trustedDevices r)),
      r\<lparr>trustedDevices := map_keep (\<lambda>_ device. \<not> (td_UserID device = userID \<and> \<not> td_ExpiresAt device > now))
                           (trustedDevices r)\<rparr>)"

definition DeleteTrustedDevices :: "string \<Rightarrow> MFARepository \<Rightarrow> nat \<times> MFARepository" where
  [store_defs]: "DeleteTrustedDevices userID r = deleteTrustedDevicesLocked userID r"

section \<open>The repository as one machine\<close>

datatype mfa_op =
    MfaReplacePending Credential "bytes list"
  | MfaReplaceRecoveryCodes string "bytes list"
  | MfaReplaceSecret string bytes bytes
  | MfaEnable string int time
  | MfaUseTOTP string int
  | MfaUseRecoveryCode string bytes
  | MfaRecordFailure string int "time option"
  | MfaStoreDevice TrustedDevice int
  | MfaRotateDevice string bytes bytes bytes time
  | MfaCountDevices string time
  | MfaDeleteDevices string
  | MfaDelete string

datatype mfa_value = MfaDone | MfaTime time | MfaBool bool | MfaCount nat

type_synonym mfa_result = "mfa_error + mfa_value"

fun mfa_step :: "MFARepository \<Rightarrow> mfa_op \<Rightarrow> mfa_result \<times> MFARepository" where
  "mfa_step r (MfaReplacePending c cs) = apfst (map_sum id (\<lambda>_. MfaDone)) (ReplacePending c cs r)"
| "mfa_step r (MfaReplaceRecoveryCodes u cs) = apfst (map_sum id (\<lambda>_. MfaDone)) (ReplaceRecoveryCodes u cs r)"
| "mfa_step r (MfaReplaceSecret u c n) = apfst (\<lambda>b. Inr (MfaBool b)) (ReplaceSecretCiphertext u c n r)"
| "mfa_step r (MfaEnable u s now) = apfst (map_sum id (\<lambda>_. MfaDone)) (MFA_Enable u s now r)"
| "mfa_step r (MfaUseTOTP u s) = apfst (map_sum id (\<lambda>_. MfaDone)) (UseTOTP u s r)"
| "mfa_step r (MfaUseRecoveryCode u h) = apfst (map_sum id (\<lambda>_. MfaDone)) (UseRecoveryCode u h r)"
| "mfa_step r (MfaRecordFailure u n l) = apfst (map_sum id (\<lambda>_. MfaDone)) (RecordFailure u n l r)"
| "mfa_step r (MfaStoreDevice d m) = apfst (map_sum id (\<lambda>_. MfaDone)) (StoreTrustedDevice d m r)"
| "mfa_step r (MfaRotateDevice u h n ua now) = apfst (map_sum id MfaTime) (RotateTrustedDevice u h n ua now r)"
| "mfa_step r (MfaCountDevices u now) = apfst (\<lambda>n. Inr (MfaCount n)) (CountTrustedDevices u now r)"
| "mfa_step r (MfaDeleteDevices u) = apfst (\<lambda>n. Inr (MfaCount n)) (DeleteTrustedDevices u r)"
| "mfa_step r (MfaDelete u) = apfst (map_sum id (\<lambda>_. MfaDone)) (MFA_Delete u r)"

lemma isl_mfa [simp]: "isl (fst (apfst (map_sum id f) x)) = isl (fst x)"
  by (cases x; cases "fst x") auto

section \<open>Invariant\<close>

definition mfa_ok :: "MFARepository \<Rightarrow> bool" where
  "mfa_ok r = (gomap_ok (credentials r) \<and> gomap_ok (trustedDevices r) \<and>
     (\<forall>(u, c) \<in> set (credentials r). cr_UserID c = u))"

lemma foldl_delete: "set (foldl (\<lambda>m key. map_delete key m) m ks) = {e \<in> set m. fst e \<notin> set ks}"
  by (induction ks arbitrary: m) auto

lemma gomap_ok_foldl: "gomap_ok m \<Longrightarrow> gomap_ok (foldl (\<lambda>m key. map_delete key m) m ks)"
  by (induction ks arbitrary: m) auto

lemma mfa_ok_put:
  "mfa_ok r \<Longrightarrow> cr_UserID v = u \<Longrightarrow> mfa_ok (put_credential u v r)"
  by (auto simp: mfa_ok_def put_credential_def dest!: set_put_subset)

lemma mfa_ok_lookup: "mfa_ok r \<Longrightarrow> map_of (credentials r) u = Some v \<Longrightarrow> cr_UserID v = u"
  by (auto simp: mfa_ok_def dest!: map_of_SomeD)

lemma mfa_ok_devices: "mfa_ok r \<Longrightarrow> gomap_ok ds \<Longrightarrow> mfa_ok (r\<lparr>trustedDevices := ds\<rparr>)"
  by (simp add: mfa_ok_def)

lemma mfa_ok_drop: "mfa_ok r \<Longrightarrow> mfa_ok (r\<lparr>credentials := map_delete u (credentials r)\<rparr>)"
  by (auto simp: mfa_ok_def)

lemma mfa_ok_gomap: "mfa_ok r \<Longrightarrow> gomap_ok (trustedDevices r)"
  by (simp add: mfa_ok_def)

lemmas mfa_ok_rules = mfa_ok_put mfa_ok_devices mfa_ok_drop mfa_ok_gomap gomap_ok_foldl
  gomap_ok_put gomap_ok_keep gomap_ok_delete

lemma mfa_ok_step: "mfa_ok r \<Longrightarrow> mfa_ok (snd (mfa_step r op))"
  by (cases op)
    (auto simp: ReplacePending_def deleteTrustedDevicesLocked_def ReplaceRecoveryCodes_def
      ReplaceSecretCiphertext_def MFA_Enable_def UseTOTP_def UseRecoveryCode_def RecordFailure_def
      StoreTrustedDevice_def RotateTrustedDevice_def CountTrustedDevices_def DeleteTrustedDevices_def
      MFA_Delete_def Let_def Credential.extend_def intro!: mfa_ok_rules dest: mfa_ok_lookup
      split: option.split)

interpretation mfa_book: kept_by_steps mfa_step "\<lambda>_. True" mfa_ok
  by unfold_locales (rule mfa_ok_step)

section \<open>One-time use\<close>

text \<open>A time step of a user's authenticator.\<close>

definition totp_spent :: "string \<times> int \<Rightarrow> MFARepository \<Rightarrow> bool" where
  "totp_spent k r = (case map_of (credentials r) (fst k) of None \<Rightarrow> True
     | Some c \<Rightarrow> \<not> cr_Enabled c \<or> snd k \<le> cr_LastUsedStep c)"

fun totp_redeemed :: "string \<times> int \<Rightarrow> mfa_op \<Rightarrow> mfa_result \<Rightarrow> bool" where
  "totp_redeemed k (MfaUseTOTP u s) res = (k = (u, s) \<and> \<not> isl res)"
| "totp_redeemed k _ res = False"

fun enrols :: "string \<Rightarrow> mfa_op \<Rightarrow> bool" where
  "enrols u (MfaReplacePending c _) = (cr_UserID c = u)"
| "enrols u (MfaEnable u' _ _) = (u' = u)"
| "enrols u _ = False"

lemma totp_spent_step:
  "totp_spent k r \<Longrightarrow> \<not> enrols (fst k) op \<Longrightarrow> totp_spent k (snd (mfa_step r op))"
  by (cases op) (auto simp: store_defs totp_spent_def Let_def map_of_delete split: option.splits)

interpretation totp_use:
  single_use mfa_step "\<lambda>k op. \<not> enrols (fst k) op" "\<lambda>_ _. True" totp_spent totp_redeemed
proof unfold_locales
  fix k r op
  show "totp_redeemed k op (fst (mfa_step r op)) \<Longrightarrow> totp_spent k (snd (mfa_step r op))"
    by (cases op) (auto simp: UseTOTP_def put_credential_def totp_spent_def split: option.splits if_splits)
  show "totp_spent k r \<Longrightarrow> \<not> totp_redeemed k op (fst (mfa_step r op))"
    by (cases op) (auto simp: UseTOTP_def totp_spent_def split: option.splits if_splits)
qed (auto intro: totp_spent_step)

text \<open>A recovery code of a user.\<close>

definition recovery_codes :: "string \<Rightarrow> MFARepository \<Rightarrow> bytes list" where
  "recovery_codes u r = (case map_of (credentials r) u of None \<Rightarrow> [] | Some c \<Rightarrow> mc_recoveryCodes c)"

definition recovery_unique :: "string \<times> bytes \<Rightarrow> MFARepository \<Rightarrow> bool" where
  "recovery_unique k r = (count_list (recovery_codes (fst k) r) (snd k) \<le> 1)"

definition recovery_spent :: "string \<times> bytes \<Rightarrow> MFARepository \<Rightarrow> bool" where
  "recovery_spent k r = (snd k \<notin> set (recovery_codes (fst k) r))"

fun recovery_redeemed :: "string \<times> bytes \<Rightarrow> mfa_op \<Rightarrow> mfa_result \<Rightarrow> bool" where
  "recovery_redeemed k (MfaUseRecoveryCode u h) res = (k = (u, h) \<and> \<not> isl res)"
| "recovery_redeemed k _ res = False"

fun issues_codes :: "string \<Rightarrow> mfa_op \<Rightarrow> bool" where
  "issues_codes u (MfaReplacePending c _) = (cr_UserID c = u)"
| "issues_codes u (MfaReplaceRecoveryCodes u' _) = (u' = u)"
| "issues_codes u _ = False"

lemma count_list_remove1_le: "count_list (remove1 y xs) x \<le> count_list xs x"
  by (induction xs) auto

lemma recovery_codes_step:
  assumes "\<not> issues_codes u op"
  shows "recovery_codes u (snd (mfa_step r op)) = recovery_codes u r \<or>
    recovery_codes u (snd (mfa_step r op)) = [] \<or>
    (\<exists>h. recovery_codes u (snd (mfa_step r op)) = remove1 h (recovery_codes u r))"
  using assms
  by (cases op)
    (auto simp: store_defs recovery_codes_def Let_def map_of_delete split: option.splits)

lemma recovery_redeem_removes:
  "recovery_redeemed (u, h) op (fst (mfa_step r op)) \<Longrightarrow>
     h \<in> set (recovery_codes u r) \<and> recovery_codes u (snd (mfa_step r op)) = remove1 h (recovery_codes u r)"
  by (cases op) (auto simp: UseRecoveryCode_def put_credential_def recovery_codes_def
      split: option.splits if_splits)

lemma count_remove1_same: "x \<in> set xs \<Longrightarrow> count_list (remove1 x xs) x = count_list xs x - 1"
  by (induction xs) (auto simp: count_list_0_iff Suc_pred count_notin)

interpretation recovery_use:
  single_use mfa_step "\<lambda>k op. \<not> issues_codes (fst k) op" recovery_unique recovery_spent recovery_redeemed
proof unfold_locales
  fix k r op
  note step = recovery_codes_step [of "fst k" op r]
  show "recovery_unique k r \<Longrightarrow> \<not> issues_codes (fst k) op \<Longrightarrow> recovery_unique k (snd (mfa_step r op))"
    using step count_list_remove1_le [of _ "recovery_codes (fst k) r" "snd k"] le_trans
    by (fastforce simp: recovery_unique_def)
  show "recovery_unique k r \<Longrightarrow> recovery_spent k r \<Longrightarrow> \<not> issues_codes (fst k) op \<Longrightarrow>
      recovery_spent k (snd (mfa_step r op))"
    using step notin_set_remove1 [of "snd k" "recovery_codes (fst k) r"]
    by (fastforce simp: recovery_spent_def)
  show "recovery_spent k (snd (mfa_step r op))"
    if "recovery_unique k r" "recovery_redeemed k op (fst (mfa_step r op))"
  proof -
    note rm = recovery_redeem_removes [of "fst k" "snd k" op r]
    have "count_list (recovery_codes (fst k) (snd (mfa_step r op))) (snd k) = 0"
      using rm that count_remove1_same by (fastforce simp: recovery_unique_def)
    then show ?thesis by (simp add: recovery_spent_def count_list_0_iff)
  qed
  show "recovery_spent k r \<Longrightarrow> \<not> recovery_redeemed k op (fst (mfa_step r op))"
    using recovery_redeem_removes [of "fst k" "snd k" op r] by (auto simp: recovery_spent_def)
qed

text \<open>The token of a trusted device.\<close>

definition device_token_spent :: "bytes \<Rightarrow> MFARepository \<Rightarrow> bool" where
  "device_token_spent h r = (h \<notin> fst ` set (trustedDevices r))"

fun device_token_used :: "bytes \<Rightarrow> mfa_op \<Rightarrow> mfa_result \<Rightarrow> bool" where
  "device_token_used h (MfaRotateDevice _ h' _ _ _) res = (h' = h \<and> \<not> isl res)"
| "device_token_used h _ res = False"

fun issues_token :: "bytes \<Rightarrow> mfa_op \<Rightarrow> bool" where
  "issues_token h (MfaStoreDevice d _) = (td_TokenHash d = h)"
| "issues_token h (MfaRotateDevice _ _ n _ _) = (n = h)"
| "issues_token h _ = False"

lemma device_token_spent_step:
  "device_token_spent h r \<Longrightarrow> \<not> issues_token h op \<Longrightarrow> device_token_spent h (snd (mfa_step r op))"
  by (cases op)
    (auto simp: store_defs device_token_spent_def Let_def foldl_delete dest!: set_put_subset split: option.splits)

interpretation device_token_use:
  single_use mfa_step "\<lambda>h op. \<not> issues_token h op" "\<lambda>_ _. True" device_token_spent device_token_used
proof unfold_locales
  fix h r op
  show "\<not> issues_token h op \<Longrightarrow> device_token_used h op (fst (mfa_step r op)) \<Longrightarrow>
      device_token_spent h (snd (mfa_step r op))"
    by (cases op) (auto simp: RotateTrustedDevice_def device_token_spent_def dest!: set_put_subset
        split: option.splits if_splits)
  show "device_token_spent h r \<Longrightarrow> \<not> device_token_used h op (fst (mfa_step r op))"
    by (cases op) (auto simp: RotateTrustedDevice_def device_token_spent_def image_iff
        dest!: map_of_SomeD split: option.splits if_splits)
qed (auto intro: device_token_spent_step)

section \<open>How many devices a user may trust\<close>

definition devices_of :: "string \<Rightarrow> (bytes, TrustedDevice) gomap \<Rightarrow> bytes set" where
  "devices_of u ds = {k. \<exists>d. (k, d) \<in> set ds \<and> td_UserID d = u}"

lemma finite_devices_of: "finite (devices_of u ds)"
proof -
  have "devices_of u ds \<subseteq> fst ` set ds" by (force simp: devices_of_def)
  then show ?thesis by (rule finite_subset) simp
qed

definition within_limit :: "nat \<Rightarrow> MFARepository \<Rightarrow> bool" where
  "within_limit n r = (mfa_ok r \<and> (\<forall>u. card (devices_of u (trustedDevices r)) \<le> n))"

fun stores_with_limit :: "nat \<Rightarrow> mfa_op \<Rightarrow> bool" where
  "stores_with_limit n (MfaStoreDevice _ m) = (0 < m \<and> m \<le> int n)"
| "stores_with_limit n _ = True"

lemma card_devices_mono:
  "devices_of u ds \<subseteq> devices_of u ds' \<Longrightarrow> card (devices_of u ds) \<le> card (devices_of u ds')"
  by (rule card_mono [OF finite_devices_of])

lemma surplus_leaves:
  assumes "gomap_ok ds" and "0 < m"
  shows "card (devices_of u (foldl (\<lambda>m key. map_delete key m) ds (surplus u m ds))) \<le> nat m"
proof -
  let ?own = "filter (\<lambda>(_, d). td_UserID d = u) ds"
  let ?c = "sort_key snd (map (\<lambda>(key, d). (key, td_LastUsedAt d)) ?own)"
  let ?n = "length ?c - nat m"
  have ks: "mset (map fst ?c) = mset (map fst ?own)"
    by (simp add: image_mset.compositionality comp_def case_prod_beta)
  have d: "distinct (map fst ?c)"
    using assms(1) mset_eq_imp_distinct_iff [OF ks] unfolding gomap_ok_def
    by (metis distinct_map_filter)
  have own: "devices_of u ds = set (map fst ?c)"
    using mset_eq_setD [OF ks] by (force simp: devices_of_def)
  have split: "set (map fst ?c) = set (map fst (take ?n ?c)) \<union> set (map fst (drop ?n ?c))"
    by (metis append_take_drop_id map_append set_append)
  have "devices_of u (foldl (\<lambda>m key. map_delete key m) ds (surplus u m ds)) \<subseteq>
      devices_of u ds - set (map fst (take ?n ?c))"
    by (auto simp: devices_of_def foldl_delete surplus_def Let_def)
  also have "\<dots> \<subseteq> set (map fst (drop ?n ?c))" using own split by blast
  finally have "card (devices_of u (foldl (\<lambda>m key. map_delete key m) ds (surplus u m ds))) \<le>
      card (set (map fst (drop ?n ?c)))" by (rule card_mono [rotated]) simp
  also have "\<dots> \<le> length (drop ?n ?c)" by (metis card_length length_map)
  also have "\<dots> \<le> nat m" by simp
  finally show ?thesis .
qed

lemma devices_of_put:
  assumes "gomap_ok ds"
  shows "devices_of u (map_put k d ds) \<subseteq> (if td_UserID d = u then insert k (devices_of u ds) else devices_of u ds)"
  using assms by (auto simp: devices_of_def set_put_ok)

lemma devices_of_foldl: "devices_of u (foldl (\<lambda>m key. map_delete key m) ds ks) \<subseteq> devices_of u ds"
  by (auto simp: devices_of_def foldl_delete)

lemma store_within:
  assumes "within_limit n r" and "0 < m" and "m \<le> int n"
  shows "card (devices_of u (trustedDevices (snd (StoreTrustedDevice d m r)))) \<le> n"
proof (cases "snd (StoreTrustedDevice d m r) = r")
  case True
  with assms(1) show ?thesis by (simp add: within_limit_def)
next
  case False
  let ?kept = "map_keep (\<lambda>_ c. \<not> (td_UserID c = td_UserID d \<and> \<not> td_ExpiresAt c > td_CreatedAt d)) (trustedDevices r)"
  let ?st = "map_put (td_TokenHash d) d ?kept"
  have ok: "gomap_ok ?kept" using assms(1) by (simp add: within_limit_def mfa_ok_def)
  have r': "trustedDevices (snd (StoreTrustedDevice d m r)) =
      foldl (\<lambda>m key. map_delete key m) ?st (surplus (td_UserID d) m ?st)"
    using False assms(2) by (auto simp: StoreTrustedDevice_def Let_def split: option.splits if_splits)
  show ?thesis
  proof (cases "td_UserID d = u")
    case True
    have "card (devices_of u (foldl (\<lambda>m key. map_delete key m) ?st (surplus u m ?st))) \<le> nat m"
      by (rule surplus_leaves) (use ok assms(2) in simp_all)
    then show ?thesis unfolding r' True using assms(3) by simp
  next
    case other: False
    have "devices_of u (foldl (\<lambda>m key. map_delete key m) ?st (surplus (td_UserID d) m ?st)) \<subseteq> devices_of u ?kept"
      using devices_of_foldl devices_of_put [OF ok, of u "td_TokenHash d" d] other by fastforce
    also have "\<dots> \<subseteq> devices_of u (trustedDevices r)" by (auto simp: devices_of_def)
    finally have "card (devices_of u (foldl (\<lambda>m key. map_delete key m) ?st (surplus (td_UserID d) m ?st))) \<le>
        card (devices_of u (trustedDevices r))" by (rule card_devices_mono)
    then show ?thesis unfolding r' using assms(1) le_trans by (fastforce simp: within_limit_def)
  qed
qed

lemma rotate_within:
  assumes "mfa_ok r"
  shows "card (devices_of u (trustedDevices (snd (RotateTrustedDevice v h n ua now r)))) \<le>
    card (devices_of u (trustedDevices r))"
proof -
  let ?ds = "trustedDevices r"
  have ok: "gomap_ok (map_delete h ?ds)" using assms by (simp add: mfa_ok_def)
  have del: "devices_of u (map_delete h ?ds) \<subseteq> devices_of u ?ds - {h}" by (auto simp: devices_of_def)
  have put: "card (devices_of u (map_put n (d\<lparr>td_TokenHash := n, td_LastUsedAt := now\<rparr>) (map_delete h ?ds)))
      \<le> card (devices_of u ?ds)" if d: "map_of ?ds h = Some d" for d
  proof (cases "td_UserID d = u")
    case True
    have h: "h \<in> devices_of u ?ds" using map_of_SomeD [OF d] True by (auto simp: devices_of_def)
    have "devices_of u (map_put n (d\<lparr>td_TokenHash := n, td_LastUsedAt := now\<rparr>) (map_delete h ?ds)) \<subseteq>
        insert n (devices_of u ?ds - {h})"
      using devices_of_put [OF ok, of u n "d\<lparr>td_TokenHash := n, td_LastUsedAt := now\<rparr>"] True del by auto
    then have "card (devices_of u (map_put n (d\<lparr>td_TokenHash := n, td_LastUsedAt := now\<rparr>) (map_delete h ?ds))) \<le>
        card (insert n (devices_of u ?ds - {h}))"
      by (rule card_mono [rotated]) (simp add: finite_devices_of)
    also have "\<dots> \<le> Suc (card (devices_of u ?ds - {h}))" by (simp add: card_insert_if finite_devices_of)
    also have "\<dots> = card (devices_of u ?ds)" using h card_Suc_Diff1 [OF finite_devices_of] by metis
    finally show ?thesis .
  next
    case False
    have "devices_of u (map_put n (d\<lparr>td_TokenHash := n, td_LastUsedAt := now\<rparr>) (map_delete h ?ds)) \<subseteq> devices_of u ?ds"
      using devices_of_put [OF ok, of u n "d\<lparr>td_TokenHash := n, td_LastUsedAt := now\<rparr>"] False del by auto
    then show ?thesis by (rule card_devices_mono)
  qed
  have "card (devices_of u (map_delete h ?ds)) \<le> card (devices_of u ?ds)"
    using del by (intro card_devices_mono) blast
  with put show ?thesis by (simp add: RotateTrustedDevice_def split: option.split)
qed

lemma within_limit_step:
  assumes "within_limit n r" and "stores_with_limit n op"
  shows "within_limit n (snd (mfa_step r op))"
proof -
  have ok: "mfa_ok r" and lim: "\<And>u. card (devices_of u (trustedDevices r)) \<le> n"
    using assms(1) by (simp_all add: within_limit_def)
  have keep: "devices_of u (map_keep p ds) \<subseteq> devices_of u ds" for u p ds by (auto simp: devices_of_def)
  have "card (devices_of u (trustedDevices (snd (mfa_step r op)))) \<le> n" for u
  proof (cases op)
    case (MfaStoreDevice d m)
    with store_within [OF assms(1)] assms(2) show ?thesis by simp
  next
    case (MfaRotateDevice v h n' ua now)
    with le_trans [OF rotate_within [OF ok] lim] show ?thesis by simp
  next
    case (MfaReplacePending c cs)
    with le_trans [OF card_devices_mono [OF keep] lim] show ?thesis
      by (simp add: ReplacePending_def deleteTrustedDevicesLocked_def put_credential_def)
  next
    case (MfaDelete v)
    with le_trans [OF card_devices_mono [OF keep] lim] lim show ?thesis
      by (simp add: MFA_Delete_def deleteTrustedDevicesLocked_def split: option.split)
  next
    case (MfaCountDevices v now)
    with le_trans [OF card_devices_mono [OF keep] lim] show ?thesis
      by (simp add: CountTrustedDevices_def)
  next
    case (MfaDeleteDevices v)
    with le_trans [OF card_devices_mono [OF keep] lim] show ?thesis
      by (simp add: DeleteTrustedDevices_def deleteTrustedDevicesLocked_def)
  qed (use lim in \<open>auto simp: store_defs split: option.split\<close>)
  with mfa_ok_step [OF ok] show ?thesis by (simp add: within_limit_def)
qed

interpretation device_limit: kept_by_steps mfa_step "stores_with_limit n" "within_limit n" for n
  by unfold_locales (rule within_limit_step)

section \<open>A worked scenario\<close>

definition demo_credential :: Credential where
  "demo_credential = \<lparr>cr_UserID = ''u1'', cr_Secret = [1], cr_Enabled = False, cr_CreatedAt = 1,
     cr_VerifiedAt = None, cr_LastUsedStep = 0, cr_FailedAttempts = 0, cr_LockedUntil = None,
     cr_RecoveryCodes = 0\<rparr>"

definition demo_device_record :: "8 word \<Rightarrow> time \<Rightarrow> TrustedDevice" where
  "demo_device_record h t = \<lparr>td_UserID = ''u1'', td_TokenHash = [h], td_UserAgentHash = [9],
     td_CreatedAt = t, td_LastUsedAt = t, td_ExpiresAt = t + 1000\<rparr>"

definition demo_mfa :: MFARepository where
  "demo_mfa = final mfa_step MFA_NewMemoryRepository
     [MfaReplacePending demo_credential [[5], [6]], MfaEnable ''u1'' 7 2]"

section \<open>Properties\<close>

text \<open>C19: Between two enrolments of a user, each TOTP time step is accepted at most once, in every
  interleaving of repository calls: a code cannot be replayed, not even concurrently.\<close>
theorem totp_step_accepted_at_most_once:
  assumes "list_all (\<lambda>op. \<not> enrols u op) ops"
  shows "occurrences (totp_redeemed (u, s)) mfa_step r ops \<le> 1"
  by (rule totp_use.redeemed_at_most_once) (use assms in simp_all)

theorem totp_step_accepted_at_most_once_witness:
  "occurrences (totp_redeemed (''u1'', 8)) mfa_step demo_mfa [MfaUseTOTP ''u1'' 8, MfaUseTOTP ''u1'' 8] = 1"
proof -
  have "list_all (\<lambda>op. \<not> enrols ''u1'' op) [MfaUseTOTP ''u1'' 8, MfaUseTOTP ''u1'' 8]" by simp
  then have "occurrences (totp_redeemed (''u1'', 8)) mfa_step demo_mfa [MfaUseTOTP ''u1'' 8, MfaUseTOTP ''u1'' 8] \<le> 1"
    by (rule totp_step_accepted_at_most_once)
  moreover have "occurrences (totp_redeemed (''u1'', 8)) mfa_step demo_mfa
      [MfaUseTOTP ''u1'' 8, MfaUseTOTP ''u1'' 8] \<ge> 1" by code_simp
  ultimately show ?thesis by simp
qed

text \<open>A recovery code that is stored once is accepted at most once until new codes are issued.\<close>
lemma recovery_code_accepted_at_most_once:
  assumes "recovery_unique (u, h) r" and "list_all (\<lambda>op. \<not> issues_codes u op) ops"
  shows "occurrences (recovery_redeemed (u, h)) mfa_step r ops \<le> 1"
  by (rule recovery_use.redeemed_at_most_once) (use assms in simp_all)



end
