(* ===== verification/MFA_Service.thy ===== *)
theory MFA_Service
  imports MFA_Store Key_Ring
begin

unbundle bit_operations_syntax

text \<open>
  The multi-factor service of \<open>internal/mfa/mfa.go\<close>: TOTP codes, recovery codes, enrolment,
  verification with lockout, trusted devices and the re-encryption of stored secrets. The clock and
  the random bytes of a call are arguments; the cryptographic functions of the standard library that
  are not translated (AES-GCM, HMAC-SHA1, SHA-256) are the fields of a record \<open>MFACrypto\<close>.
\<close>

section \<open>Data\<close>

record MFACrypto =
  mx_seal :: seal_fun
  mx_open :: open_fun
  mx_hmac :: "bytes \<Rightarrow> bytes \<Rightarrow> bytes"
  mx_sha256 :: "bytes \<Rightarrow> bytes"

record MFAService =
  ms_repository :: MFARepository
  ms_keyRing :: KeyRing
  ms_legacyKey :: bytes
  ms_issuer :: string

record MFAStatus =
  mt_Available :: bool
  mt_Enabled :: bool
  mt_Pending :: bool
  mt_VerifiedAt :: "time option"
  mt_RecoveryCodes :: nat
  mt_TrustedDevices :: nat

record MFASetup =
  mu_Secret :: string
  mu_OTPAuthURI :: string
  mu_RecoveryCodes :: "string list"

record TrustedDeviceToken =
  tt_Token :: string
  tt_ExpiresAt :: time

abbreviation totpPeriod :: int where "totpPeriod \<equiv> 30"
abbreviation recoveryCodeCount :: nat where "recoveryCodeCount \<equiv> 10"
abbreviation totpSecretPurpose :: string where "totpSecretPurpose \<equiv> ''mfa-totp-secret''"
abbreviation trustedDeviceTTL :: duration where "trustedDeviceTTL \<equiv> 30 * 24 * hour"
abbreviation trustedDeviceMax :: int where "trustedDeviceMax \<equiv> 10"

definition MFA_NewServiceWithKeyRing ::
  "MFARepository \<Rightarrow> KeyRing \<Rightarrow> bytes \<Rightarrow> string \<Rightarrow> MFAService" where
  "MFA_NewServiceWithKeyRing repository keyRing legacyEncryptionKey issuer =
     \<lparr>ms_repository = repository, ms_keyRing = keyRing, ms_legacyKey = legacyEncryptionKey,
      ms_issuer = TrimSpace issuer\<rparr>"

definition MFA_NewService :: "MFARepository \<Rightarrow> bytes \<Rightarrow> string \<Rightarrow> MFAService" where
  "MFA_NewService repository encryptionKey issuer =
     MFA_NewServiceWithKeyRing repository empty_ring encryptionKey issuer"

section \<open>Codes\<close>

definition normalizeCode :: "string \<Rightarrow> string" where
  "normalizeCode code = filter (\<lambda>c. c \<noteq> CHR ''-'' \<and> c \<noteq> CHR '' '') (ToUpper (TrimSpace code))"

text \<open>\<open>^[0-9]{6}$\<close>\<close>

definition totpCodePattern :: "string \<Rightarrow> bool" where
  "totpCodePattern s = (length s = 6 \<and> list_all is_digit s)"

text \<open>\<open>binary.BigEndian.PutUint64(counter[:], uint64(step))\<close>\<close>

definition counter_bytes :: "int \<Rightarrow> bytes" where
  "counter_bytes step = map (\<lambda>i. ucast (drop_bit (8 * (7 - i)) (word_of_int step :: 64 word))) [0..<8]"

text \<open>\<open>fmt.Sprintf("%0*d", totpDigits, value)\<close>\<close>

definition zero_padded :: "nat \<Rightarrow> nat \<Rightarrow> string" where
  "zero_padded width n = (let d = decimal n in replicate (width - length d) (CHR ''0'') @ d)"

definition generateTOTP :: "(bytes \<Rightarrow> bytes \<Rightarrow> bytes) \<Rightarrow> bytes \<Rightarrow> int \<Rightarrow> string" where
  "generateTOTP hmac secret step =
     (let sum' = hmac secret (counter_bytes step);
          offset = unat ((sum' ! (length sum' - 1)) AND 0x0f);
          value = (push_bit 24 ((ucast (sum' ! offset) :: 32 word) AND 0x7f)) OR
                  push_bit 16 (ucast (sum' ! (offset + 1))) OR
                  push_bit 8 (ucast (sum' ! (offset + 2))) OR
                  ucast (sum' ! (offset + 3))
      in zero_padded 6 (unat (value mod 1000000)))"

definition newRecoveryCode :: "bytes option \<Rightarrow> mfa_error + string" where
  "newRecoveryCode random =
     (case random of None \<Rightarrow> Inl ErrMfaRandom
      | Some value \<Rightarrow> Inr (Join ''-'' (chunks 5 (base32_EncodeToString (take 18 value)))))"

definition hashRecoveryCode :: "MFACrypto \<Rightarrow> string \<Rightarrow> bytes" where
  "hashRecoveryCode x code =
     mx_sha256 x (bytes_of (''certus:mfa:recovery:'' @ normalizeCode code))"

fun recovery_loop :: "MFACrypto \<Rightarrow> bytes option list \<Rightarrow> mfa_error + (string \<times> bytes) list" where
  "recovery_loop x [] = Inr []"
| "recovery_loop x (random # randoms) =
     (case newRecoveryCode random of Inl err \<Rightarrow> Inl err
      | Inr code \<Rightarrow>
          (case recovery_loop x randoms of Inl err \<Rightarrow> Inl err
           | Inr rest \<Rightarrow> Inr ((code, hashRecoveryCode x code) # rest)))"

definition newRecoveryCodes :: "MFACrypto \<Rightarrow> (nat \<Rightarrow> bytes option) \<Rightarrow> mfa_error + string list \<times> bytes list" where
  "newRecoveryCodes x randoms =
     (case recovery_loop x (map randoms [0..<recoveryCodeCount]) of Inl err \<Rightarrow> Inl err
      | Inr cs \<Rightarrow> Inr (map fst cs, map snd cs))"

definition DecodeEncryptionKey :: "string \<Rightarrow> mfa_error + bytes" where
  "DecodeEncryptionKey raw =
     (let raw' = TrimSpace raw in
      if raw' = [] then Inr []
      else case (case StdEncoding_DecodeString raw' of
                   Some value \<Rightarrow> Some value | None \<Rightarrow> RawStdEncoding_DecodeString raw') of
             None \<Rightarrow> Inl ErrMfaUnavailable
           | Some value \<Rightarrow> if length value \<noteq> 32 then Inl ErrMfaUnavailable else Inr value)"

section \<open>Protection of secrets\<close>

definition MFA_available :: "MFAService \<Rightarrow> bool" where
  "MFA_available s = (Available (ms_keyRing s) \<or> length (ms_legacyKey s) = 32)"

definition aes_key :: "bytes \<Rightarrow> bool" where
  "aes_key key = (length key \<in> {16, 24, 32})"

definition encryptLegacySecret ::
  "MFACrypto \<Rightarrow> bytes option \<Rightarrow> bytes \<Rightarrow> string \<Rightarrow> bytes \<Rightarrow> mfa_error + bytes" where
  "encryptLegacySecret x random key userID plaintext =
     (if \<not> aes_key key then Inl ErrMfaUnavailable
      else case random of None \<Rightarrow> Inl ErrMfaRandom
      | Some nonce \<Rightarrow> Inr (nonce @ mx_seal x key nonce plaintext (bytes_of userID)))"

definition decryptLegacySecret ::
  "MFACrypto \<Rightarrow> bytes \<Rightarrow> string \<Rightarrow> bytes \<Rightarrow> mfa_error + bytes" where
  "decryptLegacySecret x key userID ciphertext =
     (if \<not> aes_key key then Inl ErrMfaUnavailable
      else if length ciphertext < nonceSize then Inl ErrMfaUnavailable
      else case mx_open x key (take nonceSize ciphertext) (drop nonceSize ciphertext) (bytes_of userID) of
        None \<Rightarrow> Inl ErrMfaUnavailable
      | Some plaintext \<Rightarrow> Inr plaintext)"

definition MFA_encrypt ::
  "MFACrypto \<Rightarrow> bytes option \<Rightarrow> MFAService \<Rightarrow> string \<Rightarrow> bytes \<Rightarrow> mfa_error + bytes" where
  "MFA_encrypt x random s userID plaintext =
     (if Available (ms_keyRing s)
      then (case Encrypt (mx_seal x) random (ms_keyRing s) totpSecretPurpose userID plaintext of
              Inl _ \<Rightarrow> Inl ErrMfaUnavailable
            | Inr (value, _) \<Rightarrow> Inr value)
      else encryptLegacySecret x random (ms_legacyKey s) userID plaintext)"

definition MFA_decrypt :: "MFACrypto \<Rightarrow> MFAService \<Rightarrow> string \<Rightarrow> bytes \<Rightarrow> mfa_error + bytes" where
  "MFA_decrypt x s userID ciphertext =
     (let (keyID, ok) = EnvelopeKeyID ciphertext in
      if ok
      then (case Decrypt (mx_open x) (ms_keyRing s) totpSecretPurpose userID ciphertext keyID of
              Inl _ \<Rightarrow> Inl ErrMfaUnavailable
            | Inr plaintext \<Rightarrow> Inr plaintext)
      else decryptLegacySecret x (ms_legacyKey s) userID ciphertext)"

section \<open>Verification\<close>

fun match_steps ::
  "(bytes \<Rightarrow> bytes \<Rightarrow> bytes) \<Rightarrow> bytes \<Rightarrow> Credential \<Rightarrow> string \<Rightarrow> int list \<Rightarrow> mfa_error + int" where
  "match_steps hmac secret credential code [] = Inl ErrInvalidCode"
| "match_steps hmac secret credential code (step # steps) =
     (if generateTOTP hmac secret step = normalizeCode code
      then if step \<le> cr_LastUsedStep credential then Inl ErrReplay else Inr step
      else match_steps hmac secret credential code steps)"

definition matchTOTP ::
  "MFACrypto \<Rightarrow> time \<Rightarrow> MFAService \<Rightarrow> Credential \<Rightarrow> string \<Rightarrow> mfa_error + int" where
  "matchTOTP x now s credential code =
     (if \<not> MFA_available s then Inl ErrMfaUnavailable
      else case MFA_decrypt x s (cr_UserID credential) (cr_Secret credential) of
        Inl err \<Rightarrow> Inl err
      | Inr secret \<Rightarrow>
          let nowStep = go_quot (Unix now) totpPeriod
          in match_steps (mx_hmac x) secret credential code [nowStep, nowStep - 1, nowStep + 1])"

definition lock_delay :: "int \<Rightarrow> duration" where
  "lock_delay attempts = min (attempts - 4) 12 * 5 * minute"

definition on_repository :: "MFAService \<Rightarrow> 'a \<times> MFARepository \<Rightarrow> 'a \<times> MFAService" where
  "on_repository s x = (fst x, s\<lparr>ms_repository := snd x\<rparr>)"

text \<open>The part of \<open>Verify\<close> after the code was not accepted.\<close>

definition verify_failed ::
  "string \<Rightarrow> Credential \<Rightarrow> time \<Rightarrow> MFAService \<Rightarrow> (mfa_error + unit) \<times> MFAService" where
  "verify_failed userID credential now s =
     (let attempts = cr_FailedAttempts credential + 1;
          lockedUntil = (if attempts \<ge> 5 then Some (now + lock_delay attempts) else None);
          (res, s') = on_repository s (RecordFailure userID attempts lockedUntil (ms_repository s))
      in case res of Inl err \<Rightarrow> (Inl err, s')
         | Inr _ \<Rightarrow> (Inl (if lockedUntil \<noteq> None then ErrLocked else ErrInvalidCode), s'))"

definition MFA_Verify ::
  "MFACrypto \<Rightarrow> time \<Rightarrow> string \<Rightarrow> string \<Rightarrow> MFAService \<Rightarrow> (mfa_error + unit) \<times> MFAService" where
  "MFA_Verify x now userID code s =
     (case MFA_Find userID (ms_repository s) of
        Inl _ \<Rightarrow> (Inl ErrInvalidCode, s)
      | Inr credential \<Rightarrow>
          if \<not> cr_Enabled credential then (Inl ErrInvalidCode, s)
          else if (case cr_LockedUntil credential of None \<Rightarrow> False | Some t \<Rightarrow> t > now)
          then (Inl ErrLocked, s)
          else let normalized = normalizeCode code in
            if totpCodePattern normalized
            then (case matchTOTP x now s credential normalized of
                    Inr step \<Rightarrow> on_repository s (UseTOTP userID step (ms_repository s))
                  | Inl err \<Rightarrow> if err = ErrReplay then (Inl ErrReplay, s)
                               else verify_failed userID credential now s)
            else if length normalized \<ge> 20
            then (let (res, s') = on_repository s
                        (UseRecoveryCode userID (hashRecoveryCode x normalized) (ms_repository s))
                  in case res of Inr _ \<Rightarrow> (Inr (), s')
                     | Inl err \<Rightarrow> if err \<noteq> ErrInvalidCode then (Inl err, s')
                                  else verify_failed userID credential now s')
            else verify_failed userID credential now s)"

section \<open>Enrolment and status\<close>

definition Status ::
  "time \<Rightarrow> string \<Rightarrow> MFAService \<Rightarrow> MFAStatus \<times> MFAService" where
  "Status now userID s =
     (case MFA_Find userID (ms_repository s) of
        Inl _ \<Rightarrow> (\<lparr>mt_Available = MFA_available s, mt_Enabled = False, mt_Pending = False,
                     mt_VerifiedAt = None, mt_RecoveryCodes = 0, mt_TrustedDevices = 0\<rparr>, s)
      | Inr credential \<Rightarrow>
          let (n, s') = (if cr_Enabled credential
                         then on_repository s (CountTrustedDevices userID now (ms_repository s))
                         else (0, s))
          in (\<lparr>mt_Available = MFA_available s, mt_Enabled = cr_Enabled credential,
               mt_Pending = \<not> cr_Enabled credential, mt_VerifiedAt = cr_VerifiedAt credential,
               mt_RecoveryCodes = cr_RecoveryCodes credential, mt_TrustedDevices = n\<rparr>, s'))"

definition RequiresChallenge :: "string \<Rightarrow> MFAService \<Rightarrow> mfa_error + bool" where
  "RequiresChallenge userID s =
     (case MFA_Find userID (ms_repository s) of
        Inl _ \<Rightarrow> Inr False
      | Inr credential \<Rightarrow>
          if \<not> cr_Enabled credential then Inr False
          else if \<not> MFA_available s then Inl ErrMfaUnavailable
          else Inr True)"

definition pending_credential :: "string \<Rightarrow> bytes \<Rightarrow> time \<Rightarrow> Credential" where
  "pending_credential userID encrypted now =
     \<lparr>cr_UserID = userID, cr_Secret = encrypted, cr_Enabled = False, cr_CreatedAt = now,
      cr_VerifiedAt = None, cr_LastUsedStep = 0, cr_FailedAttempts = 0, cr_LockedUntil = None,
      cr_RecoveryCodes = 0\<rparr>"

definition MFA_Setup ::
  "MFACrypto \<Rightarrow> bytes option \<Rightarrow> bytes option \<Rightarrow> (nat \<Rightarrow> bytes option) \<Rightarrow> time \<Rightarrow> string \<Rightarrow> string \<Rightarrow>
   MFAService \<Rightarrow> (mfa_error + MFASetup) \<times> MFAService" where
  "MFA_Setup x secretRandom nonceRandom codeRandoms now userID username s =
     (if \<not> MFA_available s then (Inl ErrMfaUnavailable, s)
      else if (case MFA_Find userID (ms_repository s) of Inl _ \<Rightarrow> False | Inr c \<Rightarrow> cr_Enabled c)
      then (Inl ErrAlreadyEnabled, s)
      else case secretRandom of None \<Rightarrow> (Inl ErrMfaRandom, s)
      | Some secret \<Rightarrow>
          (case MFA_encrypt x nonceRandom s userID secret of Inl err \<Rightarrow> (Inl err, s)
           | Inr encrypted \<Rightarrow>
               (case newRecoveryCodes x codeRandoms of Inl err \<Rightarrow> (Inl err, s)
                | Inr (codes, hashes) \<Rightarrow>
                    let (_, s') = on_repository s
                          (ReplacePending (pending_credential userID encrypted now) hashes (ms_repository s));
                        encodedSecret = base32_EncodeToString secret;
                        label = ms_issuer s @ '':'' @ username;
                        query = EncodeValues [(''secret'', encodedSecret), (''issuer'', ms_issuer s),
                                  (''algorithm'', ''SHA1''), (''digits'', ''6''), (''period'', ''30'')]
                    in (Inr \<lparr>mu_Secret = encodedSecret,
                             mu_OTPAuthURI = ''otpauth://totp/'' @ PathEscape label @ ''?'' @ query,
                             mu_RecoveryCodes = codes\<rparr>, s'))))"

definition Service_Enable ::
  "MFACrypto \<Rightarrow> time \<Rightarrow> string \<Rightarrow> string \<Rightarrow> MFAService \<Rightarrow> (mfa_error + unit) \<times> MFAService" where
  "Service_Enable x now userID code s =
     (case MFA_Find userID (ms_repository s) of
        Inl err \<Rightarrow> (Inl err, s)
      | Inr credential \<Rightarrow>
          if cr_Enabled credential then (Inr (), s)
          else case matchTOTP x now s credential code of
            Inl err \<Rightarrow> (Inl err, s)
          | Inr step \<Rightarrow> on_repository s (MFA_Enable userID step now (ms_repository s)))"

definition Disable :: "string \<Rightarrow> MFAService \<Rightarrow> (mfa_error + unit) \<times> MFAService" where
  "Disable userID s = on_repository s (MFA_Delete userID (ms_repository s))"

definition RegenerateRecoveryCodes ::
  "MFACrypto \<Rightarrow> (nat \<Rightarrow> bytes option) \<Rightarrow> string \<Rightarrow> MFAService \<Rightarrow> (mfa_error + string list) \<times> MFAService" where
  "RegenerateRecoveryCodes x randoms userID s =
     (case MFA_Find userID (ms_repository s) of
        Inl err \<Rightarrow> (Inl err, s)
      | Inr credential \<Rightarrow>
          if \<not> cr_Enabled credential then (Inl ErrNotEnabled, s)
          else case newRecoveryCodes x randoms of Inl err \<Rightarrow> (Inl err, s)
          | Inr (codes, hashes) \<Rightarrow>
              let (res, s') = on_repository s (ReplaceRecoveryCodes userID hashes (ms_repository s))
              in (map_sum id (\<lambda>_. codes) res, s'))"

section \<open>Trusted devices\<close>

definition RememberDevice ::
  "MFACrypto \<Rightarrow> bytes option \<Rightarrow> time \<Rightarrow> string \<Rightarrow> string \<Rightarrow> MFAService \<Rightarrow>
   (mfa_error + TrustedDeviceToken) \<times> MFAService" where
  "RememberDevice x random now userID userAgent s =
     (case RandomToken 32 random of Inl _ \<Rightarrow> (Inl ErrMfaRandom, s)
      | Inr token \<Rightarrow>
          let expiresAt = now + trustedDeviceTTL;
              (res, s') = on_repository s (StoreTrustedDevice
                 \<lparr>td_UserID = userID, td_TokenHash = HashToken (mx_sha256 x) token,
                  td_UserAgentHash = HashToken (mx_sha256 x) (TrimSpace userAgent),
                  td_CreatedAt = now, td_LastUsedAt = now, td_ExpiresAt = expiresAt\<rparr>
                 trustedDeviceMax (ms_repository s))
          in (map_sum id (\<lambda>_. \<lparr>tt_Token = token, tt_ExpiresAt = expiresAt\<rparr>) res, s'))"

definition UseTrustedDevice ::
  "MFACrypto \<Rightarrow> bytes option \<Rightarrow> time \<Rightarrow> string \<Rightarrow> string \<Rightarrow> string \<Rightarrow> MFAService \<Rightarrow>
   (mfa_error + TrustedDeviceToken option) \<times> MFAService" where
  "UseTrustedDevice x random now userID token userAgent s =
     (if length token < 32 \<or> length token > 256 then (Inr None, s)
      else case RandomToken 32 random of Inl _ \<Rightarrow> (Inl ErrMfaRandom, s)
      | Inr replacement \<Rightarrow>
          let (res, s') = on_repository s (RotateTrustedDevice userID
                 (HashToken (mx_sha256 x) token) (HashToken (mx_sha256 x) replacement)
                 (HashToken (mx_sha256 x) (TrimSpace userAgent)) now (ms_repository s))
          in (case res of
                Inl err \<Rightarrow> if err = ErrTrustedDeviceNotFound then (Inr None, s') else (Inl err, s')
              | Inr expiresAt \<Rightarrow> (Inr (Some \<lparr>tt_Token = replacement, tt_ExpiresAt = expiresAt\<rparr>), s')))"

definition RevokeTrustedDevices :: "string \<Rightarrow> MFAService \<Rightarrow> nat \<times> MFAService" where
  "RevokeTrustedDevices userID s = on_repository s (DeleteTrustedDevices userID (ms_repository s))"

section \<open>Re-encryption\<close>

text \<open>The loop of \<open>RewrapSecrets\<close>; \<open>nonces\<close> gives the random bytes drawn for a user's record.\<close>

fun rewrap_loop ::
  "MFACrypto \<Rightarrow> (string \<Rightarrow> bytes option) \<Rightarrow> MFAService \<Rightarrow> nat \<Rightarrow> SecretRecord list \<Rightarrow> MFARepository \<Rightarrow>
   (mfa_error option \<times> nat) \<times> MFARepository" where
  "rewrap_loop x nonces protector n [] r = ((None, n), r)"
| "rewrap_loop x nonces protector n (record' # records') r =
     (let userID = sr_UserID record'; keyRing = ms_keyRing protector;
          (keyID, ok) = EnvelopeKeyID (sr_Ciphertext record') in
      if ok \<and> keyID = PrimaryID keyRing then rewrap_loop x nonces protector n records' r
      else case MFA_decrypt x protector userID (sr_Ciphertext record') of
        Inl err \<Rightarrow> ((Some err, n), r)
      | Inr plaintext \<Rightarrow>
          (case Encrypt (mx_seal x) (nonces userID) keyRing totpSecretPurpose userID plaintext of
             Inl _ \<Rightarrow> ((Some ErrMfaUnavailable, n), r)
           | Inr (ciphertext, _) \<Rightarrow>
               let (replaced, r') = ReplaceSecretCiphertext userID (sr_Ciphertext record') ciphertext r
               in rewrap_loop x nonces protector (if replaced then n + 1 else n) records' r'))"

definition RewrapSecrets ::
  "MFACrypto \<Rightarrow> (string \<Rightarrow> bytes option) \<Rightarrow> KeyRing \<Rightarrow> bytes \<Rightarrow> MFARepository \<Rightarrow>
   (mfa_error option \<times> nat) \<times> MFARepository" where
  "RewrapSecrets x nonces keyRing legacyEncryptionKey r =
     (if \<not> Available keyRing then ((None, 0), r)
      else rewrap_loop x nonces
             (MFA_NewServiceWithKeyRing MFA_NewMemoryRepository keyRing legacyEncryptionKey [])
             0 (ListSecretCiphertexts r) r)"

section \<open>Facts on codes\<close>

lemma decimal_length: "0 < k \<Longrightarrow> n < 10 ^ k \<Longrightarrow> length (decimal n) \<le> k"
proof (induction k arbitrary: n)
  case (Suc k)
  show ?case
  proof (cases "n < 10")
    case True
    then show ?thesis by (subst decimal.simps) simp
  next
    case False
    with Suc.prems(2) have "0 < k" "n div 10 < 10 ^ k"
      by (cases k; simp add: less_mult_imp_div_less)+
    with Suc.IH [of "n div 10"] False show ?thesis by (subst decimal.simps) simp
  qed
qed simp

lemma zero_padded_six: "n < 1000000 \<Longrightarrow> totpCodePattern (zero_padded 6 n)"
  using decimal_length [of 6 n] decimal_digits [of n]
  by (auto simp: totpCodePattern_def zero_padded_def Let_def all_digits_def list_all_iff is_digit_def char_code_def)

lemma digits_normal:
  assumes "list_all is_digit s"
  shows "normalizeCode s = s"
proof -
  have dig: "\<not> is_space c" "upper_char c = c" "c \<noteq> CHR ''-''" "c \<noteq> CHR '' ''" if "c \<in> set s" for c
    using assms that by (auto simp: list_all_iff is_digit_def is_space_def upper_char_def is_lower_def char_code_def)
  have "dropWhile is_space s = s" using dig(1) by (cases s) auto
  moreover have "dropWhile is_space (rev s) = rev s" using dig(1) by (cases "rev s") (auto simp: rev_eq_Cons_iff)
  ultimately have "TrimSpace s = s" by (simp add: TrimSpace_def)
  then show ?thesis using dig by (simp add: normalizeCode_def ToUpper_def map_idI filter_id_conv)
qed

lemma totp_normal: "totpCodePattern s \<Longrightarrow> normalizeCode s = s"
  by (simp add: totpCodePattern_def digits_normal)

lemma generateTOTP_pattern: "totpCodePattern (generateTOTP hmac secret step)"
  unfolding generateTOTP_def Let_def
  by (rule zero_padded_six) (simp add: unat_mod_distrib)

lemma match_steps_sound:
  "match_steps hmac secret c code steps = Inr step \<Longrightarrow>
     step \<in> set steps \<and> generateTOTP hmac secret step = normalizeCode code \<and> cr_LastUsedStep c < step"
  by (induction steps) (auto split: if_splits)

lemma match_steps_first:
  "cr_LastUsedStep c < step \<Longrightarrow>
   match_steps hmac secret c (generateTOTP hmac secret step) (step # steps) = Inr step"
  by (simp add: totp_normal [OF generateTOTP_pattern])

subsection \<open>Recovery codes\<close>

lemma concat_chunks: "0 < k \<Longrightarrow> concat (chunks k xs) = xs"
proof (induction "length xs" arbitrary: xs rule: less_induct)
  case less
  then show ?case by (cases "xs = []") (simp, subst chunks.simps, simp)
qed

lemma filter_Join: "\<not> p c \<Longrightarrow> filter p (Join [c] ws) = filter p (concat ws)"
  by (induction "[c]" ws rule: Join.induct) auto

lemma set_Join: "set (Join [c] ws) \<subseteq> insert c (set (concat ws))"
  by (induction "[c]" ws rule: Join.induct) auto

lemma TrimSpace_id:
  assumes "\<forall>c \<in> set s. \<not> is_space c"
  shows "TrimSpace s = s"
proof -
  have "dropWhile is_space s = s" using assms by (cases s) auto
  moreover have "dropWhile is_space (rev s) = rev s" using assms by (cases "rev s") (auto simp: rev_eq_Cons_iff)
  ultimately show ?thesis by (simp add: TrimSpace_def)
qed

lemma base32_set: "c \<in> set (base32_EncodeToString b) \<Longrightarrow> c \<in> set base32_alphabet"
proof -
  assume "c \<in> set (base32_EncodeToString b)"
  then obtain i where i: "i \<in> set (groups 5 (byte_bits b))" "c = base32_alphabet ! i"
    by (auto simp: raw_encode_def)
  have "length base32_alphabet = 32" by code_simp
  with groups_less [OF i(1)] i(2) show ?thesis by simp
qed

lemma base32_chars:
  "c \<in> set base32_alphabet \<Longrightarrow> \<not> is_space c \<and> upper_char c = c \<and> c \<noteq> CHR ''-'' \<and> c \<noteq> CHR '' ''"
proof -
  have "list_all (\<lambda>c. \<not> is_space c \<and> upper_char c = c \<and> c \<noteq> CHR ''-'' \<and> c \<noteq> CHR '' '') base32_alphabet"
    by code_simp
  then show "c \<in> set base32_alphabet \<Longrightarrow> ?thesis" by (simp add: list_all_iff)
qed

lemma base32_length: "length b = 18 \<Longrightarrow> length (base32_EncodeToString b) = 29"
proof -
  assume b: "length b = 18"
  obtain n where "n < 5" "8 * length b + n = 5 * length (groups 5 (byte_bits b))"
    using bits_groups [of 5 "byte_bits b", OF zero_less_numeral] unfolding length_byte_bits by blast
  with b show ?thesis by (simp add: raw_encode_def)
qed

lemma normalizeCode_groups:
  "normalizeCode (Join ''-'' (chunks 5 (base32_EncodeToString b))) = base32_EncodeToString b"
proof -
  let ?e = "base32_EncodeToString b" and ?j = "Join ''-'' (chunks 5 (base32_EncodeToString b))"
  have e: "concat (chunks 5 ?e) = ?e" by (rule concat_chunks) simp
  have c: "\<not> is_space c \<and> upper_char c = c" if "c \<in> set ?j" for c
  proof -
    from that set_Join [of "CHR ''-''" "chunks 5 ?e"] have "c = CHR ''-'' \<or> c \<in> set ?e" by (auto simp: e)
    then show ?thesis using base32_chars [OF base32_set, of c b]
      by (auto simp: is_space_def upper_char_def is_lower_def char_code_def)
  qed
  then have "ToUpper (TrimSpace ?j) = ?j" using TrimSpace_id [of ?j] by (simp add: ToUpper_def map_idI)
  then have "normalizeCode ?j = filter (\<lambda>c. c \<noteq> CHR ''-'' \<and> c \<noteq> CHR '' '') ?e"
    by (simp add: normalizeCode_def filter_Join e)
  also have "\<dots> = ?e" using base32_chars base32_set by (intro filter_True) blast
  finally show ?thesis .
qed

lemma normalizeCode_base32: "normalizeCode (base32_EncodeToString b) = base32_EncodeToString b"
proof -
  let ?e = "base32_EncodeToString b"
  have c: "\<not> is_space c \<and> upper_char c = c \<and> c \<noteq> CHR ''-'' \<and> c \<noteq> CHR '' ''" if "c \<in> set ?e" for c
    using base32_chars [OF base32_set [OF that]] .
  then have "ToUpper (TrimSpace ?e) = ?e" using TrimSpace_id [of ?e] by (simp add: ToUpper_def map_idI)
  then show ?thesis using c by (simp add: normalizeCode_def filter_id_conv)
qed

definition good_code :: "string \<Rightarrow> bool" where
  "good_code code = (length (normalizeCode code) = 29 \<and>
     normalizeCode (normalizeCode code) = normalizeCode code)"

lemma newRecoveryCode_good:
  assumes "18 \<le> length b"
  shows "\<exists>code. newRecoveryCode (Some b) = Inr code \<and> good_code code"
proof -
  have "length (base32_EncodeToString (take 18 b)) = 29" using assms by (intro base32_length) simp
  then show ?thesis
    by (simp add: newRecoveryCode_def good_code_def normalizeCode_groups normalizeCode_base32)
qed

lemma recovery_loop_good:
  "list_all (\<lambda>b. case b of None \<Rightarrow> False | Some v \<Rightarrow> 18 \<le> length v) randoms \<Longrightarrow>
   \<exists>cs. recovery_loop x randoms = Inr cs \<and> list_all (\<lambda>(code, h). good_code code \<and> h = hashRecoveryCode x code) cs"
proof (induction randoms)
  case (Cons b randoms)
  then obtain v where b: "b = Some v" "18 \<le> length v" by (cases b) auto
  from newRecoveryCode_good [OF b(2)] Cons b(1) show ?case by auto
qed simp

lemma newRecoveryCodes_good:
  assumes "\<And>i. i < recoveryCodeCount \<Longrightarrow> \<exists>v. randoms i = Some v \<and> 18 \<le> length v"
  shows "\<exists>codes hashes. newRecoveryCodes x randoms = Inr (codes, hashes) \<and>
    (\<forall>code \<in> set codes. good_code code \<and> hashRecoveryCode x code \<in> set hashes)"
proof -
  have "list_all (\<lambda>b. case b of None \<Rightarrow> False | Some v \<Rightarrow> 18 \<le> length v) (map randoms [0..<recoveryCodeCount])"
    unfolding list_all_iff set_map
  proof (intro ballI, elim imageE)
    fix b i assume "b = randoms i" "i \<in> set [0..<recoveryCodeCount]"
    then have "\<exists>v. b = Some v \<and> 18 \<le> length v" using assms [of i] unfolding set_upt by simp
    then show "case b of None \<Rightarrow> False | Some v \<Rightarrow> 18 \<le> length v" by auto
  qed
  from recovery_loop_good [OF this] obtain cs where
    cs: "recovery_loop x (map randoms [0..<recoveryCodeCount]) = Inr cs"
      "list_all (\<lambda>(code, h). good_code code \<and> h = hashRecoveryCode x code) cs" by blast
  from cs(2) have "\<forall>code \<in> set (map fst cs). good_code code \<and> hashRecoveryCode x code \<in> set (map snd cs)"
    by (force simp: list_all_iff)
  moreover have "newRecoveryCodes x randoms = Inr (map fst cs, map snd cs)"
    unfolding newRecoveryCodes_def cs(1) by simp
  ultimately show ?thesis by blast
qed

section \<open>Facts on verification\<close>

abbreviation credential_of :: "string \<Rightarrow> MFAService \<Rightarrow> memoryCredential option" where
  "credential_of u s \<equiv> map_of (credentials (ms_repository s)) u"

lemma MFA_Find_fields:
  assumes "credential_of u s = Some c"
  shows "\<exists>c0. MFA_Find u (ms_repository s) = Inr c0 \<and> cr_UserID c0 = cr_UserID c \<and> cr_Secret c0 = cr_Secret c \<and>
    cr_Enabled c0 = cr_Enabled c \<and> cr_LastUsedStep c0 = cr_LastUsedStep c \<and>
    cr_FailedAttempts c0 = cr_FailedAttempts c \<and> cr_LockedUntil c0 = cr_LockedUntil c \<and>
    cr_VerifiedAt c0 = cr_VerifiedAt c"
  using assms by (simp add: MFA_Find_def Credential.truncate_def)

definition locked_at :: "time \<Rightarrow> memoryCredential \<Rightarrow> bool" where
  "locked_at now c = (case cr_LockedUntil c of None \<Rightarrow> False | Some t \<Rightarrow> t > now)"

lemma Verify_locked:
  assumes "credential_of u s = Some c" and "cr_Enabled c" and "locked_at now c"
  shows "MFA_Verify x now u code s = (Inl ErrLocked, s)"
  using assms by (auto simp: MFA_Verify_def MFA_Find_def locked_at_def Credential.truncate_def split: option.splits)

lemma verify_failed_outcome:
  assumes "credential_of u s = Some c" and "cr_FailedAttempts c0 = cr_FailedAttempts c"
  shows "verify_failed u c0 now s =
    (let n = cr_FailedAttempts c + 1; until' = (if n \<ge> 5 then Some (now + lock_delay n) else None) in
     (Inl (if n \<ge> 5 then ErrLocked else ErrInvalidCode),
      s\<lparr>ms_repository := put_credential u (c\<lparr>cr_FailedAttempts := n, cr_LockedUntil := until'\<rparr>) (ms_repository s)\<rparr>))"
  using assms by (simp add: verify_failed_def Let_def on_repository_def RecordFailure_def)

lemma matchTOTP_cong:
  "cr_UserID c = cr_UserID d \<Longrightarrow> cr_Secret c = cr_Secret d \<Longrightarrow> cr_LastUsedStep c = cr_LastUsedStep d \<Longrightarrow>
   matchTOTP x now s c code = matchTOTP x now s d code"
proof -
  assume a: "cr_UserID c = cr_UserID d" "cr_Secret c = cr_Secret d" "cr_LastUsedStep c = cr_LastUsedStep d"
  have "match_steps h sec c code steps = match_steps h sec d code steps" for h sec steps
    using a(3) by (induction steps) auto
  with a show ?thesis by (simp add: matchTOTP_def Let_def split: sum.split)
qed

lemma Verify_totp:
  assumes "credential_of u s = Some c" and "cr_Enabled c" and "\<not> locked_at now c"
    and "totpCodePattern (normalizeCode code)"
  shows "MFA_Verify x now u code s =
    (case matchTOTP x now s (Credential.truncate c) (normalizeCode code) of
       Inr step \<Rightarrow> on_repository s (UseTOTP u step (ms_repository s))
     | Inl err \<Rightarrow> if err = ErrReplay then (Inl ErrReplay, s)
                 else verify_failed u (Credential.truncate c) now s)"
proof -
  obtain c0 where f: "MFA_Find u (ms_repository s) = Inr c0"
    and c0: "c0 = (Credential.truncate c)\<lparr>cr_RecoveryCodes := length (mc_recoveryCodes c)\<rparr>"
    using assms(1) by (simp add: MFA_Find_def)
  have m: "matchTOTP x now s c0 (normalizeCode code) = matchTOTP x now s (Credential.truncate c) (normalizeCode code)"
    by (rule matchTOTP_cong) (simp_all add: c0)
  have v: "verify_failed u c0 now s = verify_failed u (Credential.truncate c) now s"
    by (simp add: verify_failed_def c0)
  have en: "cr_Enabled c0" "cr_LockedUntil c0 = cr_LockedUntil c"
    using assms(2) by (simp_all add: c0 Credential.truncate_def)
  show ?thesis
    unfolding MFA_Verify_def f using assms(3,4) by (simp add: en m v locked_at_def Let_def split: sum.split)
qed

lemma Verify_recovery:
  assumes "credential_of u s = Some c" and "cr_Enabled c" and "\<not> locked_at now c"
    and "good_code code" and "hashRecoveryCode x code \<in> set (mc_recoveryCodes c)"
  shows "MFA_Verify x now u code s = (Inr (), s\<lparr>ms_repository := put_credential u
    (c\<lparr>mc_recoveryCodes := remove1 (hashRecoveryCode x code) (mc_recoveryCodes c),
       cr_FailedAttempts := 0, cr_LockedUntil := None\<rparr>) (ms_repository s)\<rparr>)"
proof -
  have n: "\<not> totpCodePattern (normalizeCode code)" "20 \<le> length (normalizeCode code)"
    "hashRecoveryCode x (normalizeCode code) = hashRecoveryCode x code"
    using assms(4) by (simp_all add: good_code_def totpCodePattern_def hashRecoveryCode_def)
  show ?thesis
    using assms(1-3,5) n
    by (auto simp: MFA_Verify_def MFA_Find_def locked_at_def Credential.truncate_def Let_def
        on_repository_def UseRecoveryCode_def split: option.splits)
qed

lemma MFA_roundtrip:
  assumes "aead_ok (mx_seal x) (mx_open x)" and "Available (ms_keyRing s)"
    and "keyIDPattern (kr_primaryID (ms_keyRing s))" and "CHR ''.'' \<notin> set (kr_primaryID (ms_keyRing s))"
    and "length nonce = nonceSize"
  shows "\<exists>e. MFA_encrypt x (Some nonce) s u secret = Inr e \<and> MFA_decrypt x s u e = Inr secret \<and>
    EnvelopeKeyID e = (kr_primaryID (ms_keyRing s), True) \<and>
    Encrypt (mx_seal x) (Some nonce) (ms_keyRing s) totpSecretPurpose u secret = Inr (e, kr_primaryID (ms_keyRing s))"
proof -
  from roundtrip_rule [OF assms(1-5)] obtain e where
    e: "Encrypt (mx_seal x) (Some nonce) (ms_keyRing s) totpSecretPurpose u secret = Inr (e, kr_primaryID (ms_keyRing s))"
      "Decrypt (mx_open x) (ms_keyRing s) totpSecretPurpose u e (kr_primaryID (ms_keyRing s)) = Inr secret"
      "EnvelopeKeyID e = (kr_primaryID (ms_keyRing s), True)" by blast
  then show ?thesis using assms(2) by (simp add: MFA_encrypt_def MFA_decrypt_def)
qed

lemma truncate_fields [simp]:
  "cr_UserID (Credential.truncate c) = cr_UserID c" "cr_Secret (Credential.truncate c) = cr_Secret c"
  "cr_LastUsedStep (Credential.truncate c) = cr_LastUsedStep c"
  "cr_FailedAttempts (Credential.truncate c) = cr_FailedAttempts c"
  by (simp_all add: Credential.truncate_def)

lemma credential_of_put [simp]:
  "map_of (credentials (put_credential v c r)) u = (if u = v then Some c else map_of (credentials r) u)"
  by (simp add: put_credential_def)

lemma lock_delay_bounds: "5 \<le> n \<Longrightarrow> 5 * minute \<le> lock_delay n \<and> lock_delay n \<le> 60 * minute"
  by (simp add: lock_delay_def min_def)

lemma MFA_decrypt_repository [simp]: "MFA_decrypt x (s\<lparr>ms_repository := r\<rparr>) = MFA_decrypt x s"
  by (intro ext) (simp add: MFA_decrypt_def case_prod_beta)

lemma MFA_available_repository [simp]: "MFA_available (s\<lparr>ms_repository := r\<rparr>) = MFA_available s"
  by (simp add: MFA_available_def)

lemma Enable_current_code:
  assumes "credential_of u s = Some c" and "\<not> cr_Enabled c" and "MFA_available s"
    and "MFA_decrypt x s (cr_UserID c) (cr_Secret c) = Inr secret"
    and "step = go_quot (Unix now) totpPeriod" and "cr_LastUsedStep c < step"
  shows "Service_Enable x now u (generateTOTP (mx_hmac x) secret step) s =
    (Inr (), s\<lparr>ms_repository := put_credential u (c\<lparr>cr_Enabled := True, cr_VerifiedAt := Some now,
       cr_LastUsedStep := step, cr_FailedAttempts := 0, cr_LockedUntil := None\<rparr>) (ms_repository s)\<rparr>)"
proof -
  obtain c0 where f: "MFA_Find u (ms_repository s) = Inr c0" and c0: "cr_UserID c0 = cr_UserID c"
      "cr_Secret c0 = cr_Secret c" "\<not> cr_Enabled c0" "cr_LastUsedStep c0 = cr_LastUsedStep c"
    using MFA_Find_fields [OF assms(1)] assms(2) by auto
  have "matchTOTP x now s c0 (generateTOTP (mx_hmac x) secret step) = Inr step"
    using assms(3-6) c0 match_steps_first [of c0 step "mx_hmac x" secret]
    by (simp add: matchTOTP_def Let_def)
  then show ?thesis
    using f c0(3) assms(1) by (simp add: Service_Enable_def on_repository_def MFA_Enable_def)
qed

section \<open>Re-encryption keeps secrets\<close>

definition rewrapped :: "MFACrypto \<Rightarrow> MFAService \<Rightarrow> string \<Rightarrow> memoryCredential \<Rightarrow> memoryCredential \<Rightarrow> bool" where
  "rewrapped x p u c c' =
     (EnvelopeKeyID (cr_Secret c') = (PrimaryID (ms_keyRing p), True) \<and>
      MFA_decrypt x p u (cr_Secret c') = MFA_decrypt x p u (cr_Secret c) \<and>
      c' = c\<lparr>cr_Secret := cr_Secret c'\<rparr>)"

abbreviation usable_ring :: "MFACrypto \<Rightarrow> KeyRing \<Rightarrow> bool" where
  "usable_ring x k \<equiv> aead_ok (mx_seal x) (mx_open x) \<and> Available k \<and>
     keyIDPattern (kr_primaryID k) \<and> CHR ''.'' \<notin> set (kr_primaryID k)"

lemma rewrap_loop_rewraps:
  assumes "usable_ring x (ms_keyRing p)" and "\<forall>u v. nonces u = Some v \<longrightarrow> length v = nonceSize"
  shows "rewrap_loop x nonces p n recs r = ((None, n'), r') \<Longrightarrow> distinct (map sr_UserID recs) \<Longrightarrow>
    (\<forall>e \<in> set recs. \<exists>c. map_of (credentials r) (sr_UserID e) = Some c \<and> cr_Secret c = sr_Ciphertext e) \<Longrightarrow>
    (\<forall>u. u \<notin> sr_UserID ` set recs \<longrightarrow> map_of (credentials r') u = map_of (credentials r) u) \<and>
    (\<forall>e \<in> set recs. \<exists>c c'. map_of (credentials r) (sr_UserID e) = Some c \<and>
       map_of (credentials r') (sr_UserID e) = Some c' \<and> rewrapped x p (sr_UserID e) c c')"
proof (induction recs arbitrary: n r)
  case (Cons e recs)
  let ?u = "sr_UserID e"
  obtain c where c: "map_of (credentials r) ?u = Some c" "cr_Secret c = sr_Ciphertext e"
    using Cons.prems(3) by auto
  have fresh: "?u \<notin> sr_UserID ` set recs" and d: "distinct (map sr_UserID recs)"
    using Cons.prems(2) by simp_all
  obtain r1 n1 c1 where rest: "rewrap_loop x nonces p n1 recs r1 = ((None, n'), r')"
    and r1: "map_of (credentials r1) ?u = Some c1" "rewrapped x p ?u c c1"
      "\<And>u. u \<noteq> ?u \<Longrightarrow> map_of (credentials r1) u = map_of (credentials r) u"
  proof (cases "EnvelopeKeyID (sr_Ciphertext e) = (PrimaryID (ms_keyRing p), True)")
    case True
    then have "rewrap_loop x nonces p n recs r = ((None, n'), r')"
      using Cons.prems(1) by (simp add: Let_def)
    moreover have "rewrapped x p ?u c c" using True c(2) by (simp add: rewrapped_def)
    ultimately show thesis using that c(1) by blast
  next
    case False
    then have step: "(case MFA_decrypt x p ?u (sr_Ciphertext e) of
        Inl err \<Rightarrow> ((Some err, n), r)
      | Inr plaintext \<Rightarrow>
          (case Encrypt (mx_seal x) (nonces ?u) (ms_keyRing p) totpSecretPurpose ?u plaintext of
             Inl _ \<Rightarrow> ((Some ErrMfaUnavailable, n), r)
           | Inr (ciphertext, _) \<Rightarrow>
               let (replaced, r') = ReplaceSecretCiphertext ?u (sr_Ciphertext e) ciphertext r
               in rewrap_loop x nonces p (if replaced then n + 1 else n) recs r')) = ((None, n'), r')"
      using Cons.prems(1) by (auto simp: Let_def split: prod.splits if_splits)
    then obtain secret where sec: "MFA_decrypt x p ?u (sr_Ciphertext e) = Inr secret"
      by (auto split: sum.splits)
    with step obtain v where v: "nonces ?u = Some v"
      using assms(1) by (cases "nonces ?u") (simp_all add: Encrypt_def)
    with assms(2) have "length v = nonceSize" by blast
    from MFA_roundtrip [of x p v ?u secret] assms(1) this obtain w where
      w: "Encrypt (mx_seal x) (Some v) (ms_keyRing p) totpSecretPurpose ?u secret = Inr (w, kr_primaryID (ms_keyRing p))"
        "MFA_decrypt x p ?u w = Inr secret" "EnvelopeKeyID w = (kr_primaryID (ms_keyRing p), True)" by blast
    have "rewrap_loop x nonces p (n + 1) recs (put_credential ?u (c\<lparr>cr_Secret := w\<rparr>) r) = ((None, n'), r')"
      using step sec v w(1) c by (simp add: ReplaceSecretCiphertext_def)
    moreover have "rewrapped x p ?u c (c\<lparr>cr_Secret := w\<rparr>)"
      using w sec c(2) by (simp add: rewrapped_def PrimaryID_def)
    ultimately show thesis using that by simp
  qed
  have "\<forall>e' \<in> set recs. \<exists>c. map_of (credentials r1) (sr_UserID e') = Some c \<and> cr_Secret c = sr_Ciphertext e'"
    using Cons.prems(3) fresh r1(3) by (metis image_eqI list.set_intros(2))
  from Cons.IH [OF rest d this] show ?case
    using c(1) r1 fresh by (fastforce simp: image_iff)
qed auto

section \<open>A worked scenario\<close>

definition demo_crypto :: MFACrypto where
  "demo_crypto = \<lparr>mx_seal = demo_seal, mx_open = demo_open, mx_hmac = (\<lambda>secret msg. msg @ replicate 11 0 @ [4]),
     mx_sha256 = (\<lambda>b. b)\<rparr>"

definition demo_mfa_service :: MFAService where
  "demo_mfa_service = MFA_NewServiceWithKeyRing MFA_NewMemoryRepository (demo_ring ''k1'') [] ''Certus''"

definition demo_enrolled :: MFAService where
  "demo_enrolled = demo_mfa_service\<lparr>ms_repository := put_credential ''u1''
     (Credential.extend (pending_credential ''u1'' (case MFA_encrypt demo_crypto (Some (replicate 12 5))
         demo_mfa_service ''u1'' [1, 2, 3] of Inl _ \<Rightarrow> [] | Inr e \<Rightarrow> e) 1)
        \<lparr>mc_recoveryCodes = []\<rparr>\<lparr>cr_Enabled := True\<rparr>) MFA_NewMemoryRepository\<rparr>"

definition demo_legacy_credential :: memoryCredential where
  "demo_legacy_credential = Credential.extend
     (pending_credential ''u1'' (replicate 12 5 @ demo_seal (replicate 32 2) (replicate 12 5) [1, 2, 3] []) 1)
     \<lparr>mc_recoveryCodes = []\<rparr>"

definition demo_legacy_mfa :: MFARepository where
  "demo_legacy_mfa = put_credential ''u1'' demo_legacy_credential MFA_NewMemoryRepository"

section \<open>Properties\<close>

text \<open>Every TOTP value is six decimal digits, for every secret, time step and HMAC function, so it
  passes the format check of \<open>Verify\<close> and survives its normalisation unchanged.\<close>
lemma totp_is_six_digits:
  "totpCodePattern (generateTOTP hmac secret step) \<and>
   normalizeCode (generateTOTP hmac secret step) = generateTOTP hmac secret step"
  by (simp add: generateTOTP_pattern totp_normal)

text \<open>C20: A six-digit code is accepted only if it is the TOTP value of the user's decrypted secret for
  the current time step or one of its neighbours, the credential is enabled and not locked, and the
  step is newer than the last one used; the step is then recorded and the failure counter reset.\<close>
theorem verify_totp_sound:
  assumes "MFA_Verify x now u code s = (Inr (), s')" and "totpCodePattern (normalizeCode code)"
  shows "\<exists>c secret step. credential_of u s = Some c \<and> cr_Enabled c \<and> \<not> locked_at now c \<and>
    MFA_decrypt x s (cr_UserID c) (cr_Secret c) = Inr secret \<and>
    \<bar>step - go_quot (Unix now) totpPeriod\<bar> \<le> 1 \<and>
    generateTOTP (mx_hmac x) secret step = normalizeCode code \<and> cr_LastUsedStep c < step \<and>
    credential_of u s' = Some (c\<lparr>cr_LastUsedStep := step, cr_FailedAttempts := 0, cr_LockedUntil := None\<rparr>)"
proof -
  obtain c where c: "credential_of u s = Some c"
    using assms(1) by (cases "credential_of u s") (simp_all add: MFA_Verify_def MFA_Find_def)
  have en: "cr_Enabled c"
    using assms(1) c by (auto simp: MFA_Verify_def MFA_Find_def Credential.truncate_def split: if_splits)
  have unlocked: "\<not> locked_at now c" using assms(1) Verify_locked [OF c en, of now x code] by auto
  note v = Verify_totp [OF c en unlocked assms(2), of x, unfolded assms(1)]
  obtain step where m: "matchTOTP x now s (Credential.truncate c) (normalizeCode code) = Inr step"
    using v verify_failed_outcome [OF c, of "Credential.truncate c" now]
    by (auto simp: Let_def split: sum.splits if_splits)
  then obtain secret where sec: "MFA_decrypt x s (cr_UserID c) (cr_Secret c) = Inr secret"
    and ms: "match_steps (mx_hmac x) secret (Credential.truncate c) (normalizeCode code)
      [go_quot (Unix now) totpPeriod, go_quot (Unix now) totpPeriod - 1, go_quot (Unix now) totpPeriod + 1] = Inr step"
    by (auto simp: matchTOTP_def Let_def simp del: match_steps.simps split: if_splits sum.splits)
  note st = match_steps_sound [OF ms]
  have "s' = s\<lparr>ms_repository := put_credential u
      (c\<lparr>cr_LastUsedStep := step, cr_FailedAttempts := 0, cr_LockedUntil := None\<rparr>) (ms_repository s)\<rparr>"
    using v m c en st by (simp add: on_repository_def UseTOTP_def)
  moreover have "generateTOTP (mx_hmac x) secret step = normalizeCode code"
    using st totp_normal [OF assms(2)] by simp
  ultimately show ?thesis
    using c en unlocked sec st
    by (intro exI [of _ c] exI [of _ secret] exI [of _ step]) (auto simp: put_credential_def)
qed

theorem verify_totp_sound_witness:
  "\<exists>c step. credential_of ''u1'' demo_enrolled = Some c \<and> \<bar>step - 20\<bar> \<le> 1 \<and> cr_LastUsedStep c < step"
proof -
  let ?now = "time_of_unix 600" and ?code = "generateTOTP (mx_hmac demo_crypto) [1, 2, 3] 20"
  have "isl (fst (MFA_Verify demo_crypto ?now ''u1'' ?code demo_enrolled)) = False" by code_simp
  then obtain s' where v: "MFA_Verify demo_crypto ?now ''u1'' ?code demo_enrolled = (Inr (), s')"
    by (cases "MFA_Verify demo_crypto ?now ''u1'' ?code demo_enrolled"; cases "fst (MFA_Verify demo_crypto ?now ''u1'' ?code demo_enrolled)") simp_all
  moreover have "go_quot (Unix ?now) totpPeriod = 20" by (simp add: go_quot_def)
  moreover have "totpCodePattern (normalizeCode ?code)" by (simp add: generateTOTP_pattern totp_normal)
  ultimately show ?thesis using verify_totp_sound [OF v] by auto
qed



text \<open>Enrolment works end to end: on a service whose key ring is available (with a dot-free primary
  identifier and an AEAD that inverts), setting up a user who has no enabled credential succeeds; the
  current TOTP value of the generated secret then enables it, a challenge is required from then on,
  and every recovery code handed out is accepted.\<close>
lemma enrolment_completes:
  assumes "usable_ring x (ms_keyRing s)" and "length nonce = nonceSize"
    and "case credential_of u s of None \<Rightarrow> True | Some c \<Rightarrow> \<not> cr_Enabled c"
    and "\<forall>i < recoveryCodeCount. \<exists>v. codeRandoms i = Some v \<and> 18 \<le> length v"
    and "step = go_quot (Unix now2) totpPeriod" and "0 < step"
  shows "\<exists>result s1 s2. MFA_Setup x (Some secret) (Some nonce) codeRandoms now1 u name s = (Inr result, s1) \<and>
    Service_Enable x now2 u (generateTOTP (mx_hmac x) secret step) s1 = (Inr (), s2) \<and>
    RequiresChallenge u s2 = Inr True \<and>
    (\<forall>code \<in> set (mu_RecoveryCodes result). fst (MFA_Verify x now3 u code s2) = Inr ())"
proof -
  have av: "MFA_available s" using assms(1) by (simp add: MFA_available_def)
  from MFA_roundtrip [of x s nonce u secret] assms(1,2) obtain e where
    e: "MFA_encrypt x (Some nonce) s u secret = Inr e" "MFA_decrypt x s u e = Inr secret" by blast
  from newRecoveryCodes_good [of codeRandoms x] assms(4) obtain codes hashes where
    rc: "newRecoveryCodes x codeRandoms = Inr (codes, hashes)"
      "\<forall>code \<in> set codes. good_code code \<and> hashRecoveryCode x code \<in> set hashes" by blast
  let ?c = "Credential.extend (pending_credential u e now1) \<lparr>mc_recoveryCodes = hashes\<rparr>"
  let ?s1 = "snd (MFA_Setup x (Some secret) (Some nonce) codeRandoms now1 u name s)"
  have off: "\<not> (case MFA_Find u (ms_repository s) of Inl _ \<Rightarrow> False | Inr c \<Rightarrow> cr_Enabled c)"
    using assms(3) by (auto simp: MFA_Find_def Credential.truncate_def split: option.splits)
  obtain result where result: "MFA_Setup x (Some secret) (Some nonce) codeRandoms now1 u name s = (Inr result, ?s1)"
    "mu_RecoveryCodes result = codes"
    using av off e(1) rc(1) by (simp add: MFA_Setup_def Let_def case_prod_beta)
  have s1: "?s1 = s\<lparr>ms_repository := snd (ReplacePending (pending_credential u e now1) hashes (ms_repository s))\<rparr>"
    using av off e(1) rc(1) by (simp add: MFA_Setup_def Let_def case_prod_beta on_repository_def)
  have c: "credential_of u ?s1 = Some ?c"
    unfolding s1 by (simp add: ReplacePending_def deleteTrustedDevicesLocked_def put_credential_def pending_credential_def)
  have fields: "\<not> cr_Enabled ?c" "cr_UserID ?c = u" "cr_Secret ?c = e" "cr_LastUsedStep ?c = 0" "mc_recoveryCodes ?c = hashes"
    by (simp_all add: pending_credential_def Credential.extend_def)
  let ?c2 = "?c\<lparr>cr_Enabled := True, cr_VerifiedAt := Some now2, cr_LastUsedStep := step,
      cr_FailedAttempts := 0, cr_LockedUntil := None\<rparr>"
  let ?s2 = "?s1\<lparr>ms_repository := put_credential u ?c2 (ms_repository ?s1)\<rparr>"
  have av1: "MFA_available ?s1" "MFA_decrypt x ?s1 (cr_UserID ?c) (cr_Secret ?c) = Inr secret"
    unfolding fields unfolding s1 using av e(2) by simp_all
  have enable: "Service_Enable x now2 u (generateTOTP (mx_hmac x) secret step) ?s1 = (Inr (), ?s2)"
    using c fields av1 assms(5,6) by (intro Enable_current_code) simp_all
  have c2: "credential_of u ?s2 = Some ?c2" by simp
  have "RequiresChallenge u ?s2 = Inr True"
    using c2 av1(1) by (simp add: RequiresChallenge_def MFA_Find_def Credential.truncate_def)
  moreover have "fst (MFA_Verify x now3 u code ?s2) = Inr ()" if "code \<in> set codes" for code
    using Verify_recovery [OF c2, of now3 code x] rc(2) that fields(5) by (simp add: locked_at_def)
  ultimately show ?thesis using result enable by blast
qed

text \<open>Re-encryption preserves secrets: when \<open>RewrapSecrets\<close> reports success, every credential
  is still there, its secret is sealed under the primary key and decrypts to what it decrypted to
  before, and nothing else of the credential has changed.\<close>
lemma rewrap_preserves_secrets:
  assumes "mfa_ok r" and "usable_ring x k" and "\<forall>u v. nonces u = Some v \<longrightarrow> length v = nonceSize"
    and "RewrapSecrets x nonces k legacy r = ((None, n), r')"
    and "map_of (credentials r) u = Some c"
  shows "\<exists>c'. map_of (credentials r') u = Some c' \<and>
    rewrapped x (MFA_NewServiceWithKeyRing MFA_NewMemoryRepository k legacy []) u c c'"
proof -
  let ?p = "MFA_NewServiceWithKeyRing MFA_NewMemoryRepository k legacy []"
  let ?recs = "ListSecretCiphertexts r"
  have ring: "usable_ring x (ms_keyRing ?p)" using assms(2) by (simp add: MFA_NewServiceWithKeyRing_def)
  have loop: "rewrap_loop x nonces ?p 0 ?recs r = ((None, n), r')"
    using assms(2,4) by (simp add: RewrapSecrets_def)
  have user: "cr_UserID c' = u'" if "(u', c') \<in> set (credentials r)" for u' c'
    using that assms(1) by (auto simp: mfa_ok_def)
  have "map sr_UserID ?recs = map fst (credentials r)"
    using user by (auto simp: ListSecretCiphertexts_def)
  then have d: "distinct (map sr_UserID ?recs)" using assms(1) by (simp add: mfa_ok_def gomap_ok_def)
  have present: "\<forall>e \<in> set ?recs. \<exists>c. map_of (credentials r) (sr_UserID e) = Some c \<and> cr_Secret c = sr_Ciphertext e"
    using user assms(1) by (force simp: ListSecretCiphertexts_def mfa_ok_def in_set_gomap_iff)
  have "\<lparr>sr_UserID = u, sr_Ciphertext = cr_Secret c\<rparr> \<in> set ?recs"
    using map_of_SomeD [OF assms(5)] user by (force simp: ListSecretCiphertexts_def)
  with rewrap_loop_rewraps [OF ring assms(3) loop d present] assms(5) show ?thesis by fastforce
qed

end
