(* ===== verification/Go_URL.thy ===== *)
theory Go_URL
  imports Go_Encoding
begin

text \<open>
  The parts of Go's \<open>net/url\<close> and \<open>net\<close> that decide which endpoint addresses Certus accepts:
  \<open>url.Parse\<close> with the fields \<open>Scheme\<close>, \<open>Opaque\<close>, \<open>User\<close>, \<open>Host\<close>, \<open>Path\<close>, \<open>RawQuery\<close> and
  \<open>Fragment\<close>, \<open>URL.IsAbs\<close>, \<open>URL.Hostname\<close>, \<open>net.ParseIP\<close> and \<open>IP.IsLoopback\<close>. Strings are
  bytes; \<open>User\<close> keeps the text of the user information, which Certus only tests for presence. The host rules are those of Go 1.26.
\<close>

section \<open>Percent-encoding\<close>

datatype url_mode = EncPath | EncUser | EncHost | EncZone | EncFragment

definition host_char :: "char \<Rightarrow> bool" where
  "host_char c = (url_unreserved c \<or>
     c \<in> set ''!$&()*+,;=:[]<>'' \<or> char_code c = 34 \<or> char_code c = 39)"

text \<open>One well-formed escape \<open>%xy\<close> in the given mode.\<close>

definition escape_ok :: "url_mode \<Rightarrow> nat \<Rightarrow> nat \<Rightarrow> bool" where
  "escape_ok mode x y =
     (case mode of
        EncHost \<Rightarrow> 8 \<le> x \<or> (x = 2 \<and> y = 5)
      | EncZone \<Rightarrow> (x = 2 \<and> y = 5) \<or> 16 * x + y = 32 \<or> host_char (char_of (16 * x + y))
      | _ \<Rightarrow> True)"

definition plain_ok :: "url_mode \<Rightarrow> char \<Rightarrow> bool" where
  "plain_ok mode c = (mode \<in> {EncHost, EncZone} \<longrightarrow> 128 \<le> char_code c \<or> host_char c)"

fun unescape :: "url_mode \<Rightarrow> string \<Rightarrow> string option" where
  "unescape mode [] = Some []"
| "unescape mode (c # cs) =
     (if c = CHR ''%'' then
        (case cs of
           a # b # rest \<Rightarrow>
             (case (hex_digit a, hex_digit b) of
                (Some x, Some y) \<Rightarrow>
                  if escape_ok mode x y then map_option ((#) (char_of (16 * x + y))) (unescape mode rest)
                  else None
              | _ \<Rightarrow> None)
         | _ \<Rightarrow> None)
      else if plain_ok mode c then map_option ((#) c) (unescape mode cs)
      else None)"

section \<open>\<open>net.ParseIP\<close> and \<open>IsLoopback\<close>\<close>

definition octet :: "string \<Rightarrow> nat option" where
  "octet s = (if all_digits s \<and> (length s = 1 \<or> hd s \<noteq> CHR ''0'') \<and> digits_value s \<le> 255
              then Some (digits_value s) else None)"

definition parseIPv4 :: "string \<Rightarrow> nat list option" where
  "parseIPv4 s =
     (let fields = map octet (Split (CHR ''.'') s)
      in if length fields = 4 \<and> None \<notin> set fields then Some (map the fields) else None)"

definition group_value :: "string \<Rightarrow> nat option" where
  "group_value s =
     (if s \<noteq> [] \<and> length s \<le> 4 \<and> list_all (\<lambda>c. hex_digit c \<noteq> None) s
      then Some (foldl (\<lambda>n c. 16 * n + the (hex_digit c)) 0 s) else None)"

text \<open>The groups of one side of an IPv6 address (before or after \<open>::\<close>); the last group of the
  address may be a dotted quad, which fills two groups.\<close>

fun group_list :: "bool \<Rightarrow> string list \<Rightarrow> nat list option" where
  "group_list quad [] = Some []"
| "group_list quad [s] =
     (case group_value s of
        Some v \<Rightarrow> Some [v]
      | None \<Rightarrow>
          if quad then
            (case parseIPv4 s of
               Some [a, b, c, d] \<Rightarrow> Some [256 * a + b, 256 * c + d]
             | _ \<Rightarrow> None)
          else None)"
| "group_list quad (s # t # ss) =
     (case (group_value s, group_list quad (t # ss)) of
        (Some v, Some vs) \<Rightarrow> Some (v # vs)
      | _ \<Rightarrow> None)"

definition side_groups :: "bool \<Rightarrow> string \<Rightarrow> nat list option" where
  "side_groups quad s = (if s = [] then Some [] else group_list quad (Split (CHR '':'') s))"

fun cut_ellipsis :: "string \<Rightarrow> string \<Rightarrow> (string \<times> string) option" where
  "cut_ellipsis acc [] = None"
| "cut_ellipsis acc (c # cs) =
     (if HasPrefix (c # cs) ''::'' then Some (acc, drop 1 cs) else cut_ellipsis (acc @ [c]) cs)"

definition parseIPv6 :: "string \<Rightarrow> nat list option" where
  "parseIPv6 s =
     (case cut_ellipsis [] s of
        None \<Rightarrow>
          (case side_groups True s of
             Some gs \<Rightarrow> if length gs = 8 then Some gs else None
           | None \<Rightarrow> None)
      | Some (l, r) \<Rightarrow>
          (case (side_groups False l, side_groups True r) of
             (Some gl, Some gr) \<Rightarrow>
               if length gl + length gr < 8
               then Some (gl @ replicate (8 - length gl - length gr) 0 @ gr) else None
           | _ \<Rightarrow> None))"

datatype ip_address = IPv4 "nat list" | IPv6 "nat list"

definition ParseIP :: "string \<Rightarrow> ip_address option" where
  "ParseIP s =
     (case find (\<lambda>c. c \<in> set ''.:%'') s of
        Some c \<Rightarrow>
          if c = CHR ''.'' then map_option IPv4 (parseIPv4 s)
          else if c = CHR '':'' \<and> CHR ''%'' \<notin> set s then map_option IPv6 (parseIPv6 s)
          else None
      | None \<Rightarrow> None)"

text \<open>An IPv6 address of the form \<open>::ffff:a.b.c.d\<close> is an IPv4 address for \<open>To4\<close>.\<close>

definition IsLoopback :: "ip_address \<Rightarrow> bool" where
  "IsLoopback ip =
     (case ip of
        IPv4 v \<Rightarrow> hd v = 127
      | IPv6 g \<Rightarrow> if take 6 g = [0, 0, 0, 0, 0, 65535] then g ! 6 div 256 = 127
                  else g = [0, 0, 0, 0, 0, 0, 0, 1])"

section \<open>\<open>url.Parse\<close>\<close>

record URL =
  u_Scheme :: string
  u_Opaque :: string
  u_User :: "string option"
  u_Host :: string
  u_Path :: string
  u_RawQuery :: string
  u_Fragment :: string

definition empty_url :: URL where
  "empty_url = \<lparr>u_Scheme = [], u_Opaque = [], u_User = None, u_Host = [], u_Path = [],
     u_RawQuery = [], u_Fragment = []\<rparr>"

definition is_alpha :: "char \<Rightarrow> bool" where
  "is_alpha c = (is_lower c \<or> is_upper c)"

text \<open>\<open>getScheme\<close>: the text before a first colon, if it is a scheme; a leading colon is an error.
  The accumulator holds the bytes read so far.\<close>

fun scheme_scan :: "string \<Rightarrow> string \<Rightarrow> string \<Rightarrow> (string \<times> string) option" where
  "scheme_scan raw acc [] = Some ([], raw)"
| "scheme_scan raw acc (c # cs) =
     (if is_alpha c then scheme_scan raw (acc @ [c]) cs
      else if is_digit c \<or> c \<in> set ''+-.'' then
        (if acc = [] then Some ([], raw) else scheme_scan raw (acc @ [c]) cs)
      else if c = CHR '':'' then (if acc = [] then None else Some (acc, cs))
      else Some ([], raw))"

definition getScheme :: "string \<Rightarrow> (string \<times> string) option" where
  "getScheme raw = scheme_scan raw [] raw"

text \<open>\<open>strings.LastIndex\<close> of one byte, as the text before and after its last occurrence.\<close>

definition cut_last :: "char \<Rightarrow> string \<Rightarrow> (string \<times> string) option" where
  "cut_last c s = map_option (\<lambda>(a, b). (rev b, rev a)) (Cut c (rev s))"

definition validOptionalPort :: "string \<Rightarrow> bool" where
  "validOptionalPort port =
     (case port of [] \<Rightarrow> True | c # ds \<Rightarrow> c = CHR '':'' \<and> list_all is_digit ds)"

fun find_zone :: "string \<Rightarrow> string \<Rightarrow> (string \<times> string) option" where
  "find_zone acc [] = None"
| "find_zone acc (c # cs) =
     (if HasPrefix (c # cs) ''%25'' then Some (acc, c # cs) else find_zone (acc @ [c]) cs)"

text \<open>The text between brackets has to be an IPv6 address, with a zone after \<open>%25\<close> if it has one.\<close>

definition bracketed_ok :: "string \<Rightarrow> bool" where
  "bracketed_ok literal =
     (case Cut (CHR ''%'') literal of
        None \<Rightarrow> (\<exists>g \<in> set_option (ParseIP literal). case g of IPv4 _ \<Rightarrow> False | IPv6 _ \<Rightarrow> True)
      | Some (address, zone) \<Rightarrow>
          zone \<noteq> [] \<and> (\<exists>g \<in> set_option (ParseIP address). case g of IPv4 _ \<Rightarrow> False | IPv6 _ \<Rightarrow> True))"

definition unescape_literal :: "string \<Rightarrow> string option" where
  "unescape_literal inner =
     (case find_zone [] inner of
        None \<Rightarrow> unescape EncHost inner
      | Some (before_zone, zone) \<Rightarrow>
          (case (unescape EncHost before_zone, unescape EncZone zone) of
             (Some a, Some b) \<Rightarrow> Some (a @ b)
           | _ \<Rightarrow> None))"

text \<open>An IP literal stands in brackets at the start of the host; elsewhere the first colon starts the
  port (for the \<open>postgres\<close> schemes, the last one).\<close>

definition parse_literal_host :: "string \<Rightarrow> string option" where
  "parse_literal_host host =
     (case cut_last (CHR '']'') host of
        None \<Rightarrow> None
      | Some (inner, port) \<Rightarrow>
          if \<not> validOptionalPort port then None
          else (case unescape_literal (tl inner) of
                  None \<Rightarrow> None
                | Some literal \<Rightarrow>
                    if bracketed_ok literal then Some (''['' @ literal @ '']'' @ port) else None))"

definition parseHost :: "string \<Rightarrow> string \<Rightarrow> string option" where
  "parseHost scheme host =
     (if CHR ''['' \<in> set (tl host) then None
      else if HasPrefix host ''['' then parse_literal_host host
      else
        (case (if scheme \<in> {''postgresql'', ''postgres''} then cut_last (CHR '':'') host
               else Cut (CHR '':'') host) of
           Some (_, port) \<Rightarrow> if list_all is_digit port then unescape EncHost host else None
         | None \<Rightarrow> unescape EncHost host))"

definition userinfo_char :: "char \<Rightarrow> bool" where
  "userinfo_char c = (is_alpha c \<or> is_digit c \<or> c \<in> set ''-._:~!$&()*+,;=%@'' \<or> char_code c = 39)"

definition parse_userinfo :: "string \<Rightarrow> string option" where
  "parse_userinfo userinfo =
     (if \<not> list_all userinfo_char userinfo then None
      else case Cut (CHR '':'') userinfo of
          None \<Rightarrow> map_option (\<lambda>_. userinfo) (unescape EncUser userinfo)
        | Some (name, password) \<Rightarrow>
            (case (unescape EncUser name, unescape EncUser password) of
               (Some _, Some _) \<Rightarrow> Some userinfo
             | _ \<Rightarrow> None))"

definition parseAuthority :: "string \<Rightarrow> string \<Rightarrow> (string option \<times> string) option" where
  "parseAuthority scheme authority =
     (case cut_last (CHR ''@'') authority of
        None \<Rightarrow> map_option (\<lambda>host. (None, host)) (parseHost scheme authority)
      | Some (userinfo, rest) \<Rightarrow>
          (case parseHost scheme rest of
             None \<Rightarrow> None
           | Some host \<Rightarrow> map_option (\<lambda>user. (Some user, host)) (parse_userinfo userinfo)))"

definition is_ctl :: "char \<Rightarrow> bool" where
  "is_ctl c = (char_code c < 32 \<or> char_code c = 127)"

definition split_path :: "string \<Rightarrow> string \<times> string" where
  "split_path authority =
     (takeWhile (\<lambda>c. c \<noteq> CHR ''/'') authority, dropWhile (\<lambda>c. c \<noteq> CHR ''/'') authority)"

definition before_char :: "char \<Rightarrow> string \<Rightarrow> string" where
  "before_char c s = takeWhile (\<lambda>d. d \<noteq> c) s"

text \<open>\<open>parse(rawURL, false)\<close> on the text before the first \<open>#\<close>.\<close>

definition parse_hierarchy :: "string \<Rightarrow> string \<Rightarrow> string \<Rightarrow> URL option" where
  "parse_hierarchy scheme query rest =
     (if HasPrefix rest ''//'' \<and> (scheme \<noteq> [] \<or> \<not> HasPrefix rest ''///'') then
        let (authority, path) = split_path (drop 2 rest) in
        (case parseAuthority scheme authority of
           None \<Rightarrow> None
         | Some (user, host) \<Rightarrow>
             map_option (\<lambda>p. empty_url\<lparr>u_Scheme := scheme, u_User := user, u_Host := host,
                                        u_Path := p, u_RawQuery := query\<rparr>)
               (unescape EncPath path))
      else map_option (\<lambda>p. empty_url\<lparr>u_Scheme := scheme, u_Path := p, u_RawQuery := query\<rparr>)
             (unescape EncPath rest))"

definition parse_base :: "string \<Rightarrow> URL option" where
  "parse_base raw =
     (if list_ex is_ctl raw then None
      else if raw = ''*'' then Some (empty_url\<lparr>u_Path := ''*''\<rparr>)
      else case getScheme raw of
          None \<Rightarrow> None
        | Some (scheme0, rest0) \<Rightarrow>
            let scheme = ToLower scheme0;
                rest = before_char (CHR ''?'') rest0;
                query = (case Cut (CHR ''?'') rest0 of None \<Rightarrow> [] | Some (_, q) \<Rightarrow> q)
            in if \<not> HasPrefix rest ''/'' \<and> scheme \<noteq> [] then
                 Some (empty_url\<lparr>u_Scheme := scheme, u_Opaque := rest, u_RawQuery := query\<rparr>)
               else if \<not> HasPrefix rest ''/'' \<and> CHR '':'' \<in> set (before_char (CHR ''/'') rest) then None
               else parse_hierarchy scheme query rest)"

definition Parse :: "string \<Rightarrow> URL option" where
  "Parse raw =
     (case Cut (CHR ''#'') raw of
        None \<Rightarrow> parse_base raw
      | Some (base, frag) \<Rightarrow>
          (case parse_base base of
             None \<Rightarrow> None
           | Some url \<Rightarrow> map_option (\<lambda>f. url\<lparr>u_Fragment := f\<rparr>) (unescape EncFragment frag)))"

definition IsAbs :: "URL \<Rightarrow> bool" where
  "IsAbs url = (u_Scheme url \<noteq> [])"

definition Hostname :: "URL \<Rightarrow> string" where
  "Hostname url =
     (let host = (case cut_last (CHR '':'') (u_Host url) of
                    Some (h, port) \<Rightarrow> if list_all is_digit port then h else u_Host url
                  | None \<Rightarrow> u_Host url)
      in if HasPrefix host ''['' \<and> last host = CHR '']'' then butlast (tl host) else host)"

section \<open>Facts\<close>

lemma unescape_Nil_iff: "unescape mode s = Some [] \<longleftrightarrow> s = []"
  by (cases "(mode, s)" rule: unescape.cases) (auto split: list.splits option.splits if_splits)

lemma empty_url_simps [simp]:
  "u_Scheme empty_url = []" "u_Opaque empty_url = []" "u_User empty_url = None"
  "u_Host empty_url = []" "u_Path empty_url = []" "u_RawQuery empty_url = []"
  "u_Fragment empty_url = []"
  by (simp_all add: empty_url_def)

lemma parse_base_fragment: "parse_base raw = Some url \<Longrightarrow> u_Fragment url = []"
  by (auto simp: parse_base_def parse_hierarchy_def Let_def
      split: if_splits option.splits prod.splits)

text \<open>A parsed address has no fragment exactly when its text has no fragment part.\<close>

lemma Parse_no_fragment:
  assumes "Parse raw = Some url" and "u_Fragment url = []"
  shows "CHR ''#'' \<notin> set raw \<or> (\<exists>base. raw = base @ ''#'' \<and> CHR ''#'' \<notin> set base)"
proof (cases "Cut (CHR ''#'') raw")
  case None
  then have "CHR ''#'' \<notin> set raw" by (metis Cut_append_sep split_list_first option.distinct(1))
  then show ?thesis ..
next
  case (Some p)
  obtain base frag where p: "p = (base, frag)" by (cases p)
  with assms Some have "unescape EncFragment frag = Some []"
    by (auto simp: Parse_def split: option.splits)
  then have "frag = []" by (simp add: unescape_Nil_iff)
  with Cut_SomeD [OF Some [unfolded p]] show ?thesis by auto
qed

end
