(* ===== verification/Client_Registry.thy ===== *)
theory Client_Registry
  imports Go_URL
begin

text \<open>
  The registry of protocol clients and of the systems that own them: \<open>internal/client/client.go\<close>.
  Enumerations of the code (\<open>Protocol\<close>, \<open>GrantType\<close>, \<open>LoginMethod\<close>, \<open>ApplicationType\<close>,
  \<open>CASVersion\<close>, \<open>TokenEndpointAuthMethod\<close>) are Go strings and stay strings, since requests carry
  arbitrary ones. The text that \<open>fmt.Errorf\<close> adds to \<open>ErrInvalid\<close> is left out. \<open>clone\<close> copies
  slices and pointers and is the identity on values. The random bytes of a secret are an argument
  (\<open>None\<close> when the random source fails), SHA-256 is a parameter.
\<close>

section \<open>Data\<close>

datatype client_error =
    ErrClientNotFound | ErrClientConflict | ErrClientInvalid | ErrClientArchived | ErrClientNotArchived
  | ErrSystemNotFound | ErrSystemConflict | ErrSystemInUse | ErrClientRandom

abbreviation DefaultAccessTokenLifetime :: duration where "DefaultAccessTokenLifetime \<equiv> 15 * minute"
abbreviation MinAccessTokenLifetime :: duration where "MinAccessTokenLifetime \<equiv> minute"
abbreviation MaxAccessTokenLifetime :: duration where "MaxAccessTokenLifetime \<equiv> 24 * hour"
abbreviation DefaultRefreshTokenLifetime :: duration where "DefaultRefreshTokenLifetime \<equiv> 30 * 24 * hour"
abbreviation MinRefreshTokenLifetime :: duration where "MinRefreshTokenLifetime \<equiv> hour"
abbreviation MaxRefreshTokenLifetime :: duration where "MaxRefreshTokenLifetime \<equiv> 365 * 24 * hour"

abbreviation LoginPassword :: string where "LoginPassword \<equiv> ''password''"
abbreviation LoginLDAP :: string where "LoginLDAP \<equiv> ''ldap''"
abbreviation LoginOIDC :: string where "LoginOIDC \<equiv> ''oidc''"
abbreviation ApplicationPublic :: string where "ApplicationPublic \<equiv> ''public''"
abbreviation ApplicationConfidential :: string where "ApplicationConfidential \<equiv> ''confidential''"
abbreviation TokenEndpointAuthNone :: string where "TokenEndpointAuthNone \<equiv> ''none''"
abbreviation TokenEndpointAuthSecretBasic :: string where
  "TokenEndpointAuthSecretBasic \<equiv> ''client_secret_basic''"
abbreviation TokenEndpointAuthSecretPost :: string where
  "TokenEndpointAuthSecretPost \<equiv> ''client_secret_post''"
abbreviation ProtocolOAuth20 :: string where "ProtocolOAuth20 \<equiv> ''oauth2.0''"
abbreviation ProtocolOAuth21 :: string where "ProtocolOAuth21 \<equiv> ''oauth2.1''"
abbreviation ProtocolCAS :: string where "ProtocolCAS \<equiv> ''cas''"
abbreviation GrantAuthorizationCode :: string where "GrantAuthorizationCode \<equiv> ''authorization_code''"
abbreviation GrantRefreshToken :: string where "GrantRefreshToken \<equiv> ''refresh_token''"
abbreviation GrantClientCredentials :: string where "GrantClientCredentials \<equiv> ''client_credentials''"
abbreviation GrantDeviceCode :: string where
  "GrantDeviceCode \<equiv> ''urn:ietf:params:oauth:grant-type:device_code''"
abbreviation CASVersion1 :: string where "CASVersion1 \<equiv> ''1.0''"
abbreviation CASVersion2 :: string where "CASVersion2 \<equiv> ''2.0''"
abbreviation CASVersion3 :: string where "CASVersion3 \<equiv> ''3.0''"

record System =
  sy_ID :: string
  sy_Name :: string
  sy_Description :: string
  sy_FaviconURL :: string
  sy_LaunchURI :: string
  sy_PortalVisible :: bool

record CreateSystem =
  cs_ID :: string
  cs_Name :: string
  cs_Description :: string
  cs_FaviconURL :: string
  cs_LaunchURI :: string
  cs_PortalVisible :: "bool option"

record ReplaceSystemInput =
  rs_Name :: string
  rs_Description :: string
  rs_FaviconURL :: string
  rs_LaunchURI :: string
  rs_PortalVisible :: bool

record Client =
  cl_ID :: string
  cl_SystemID :: string
  cl_System :: "System option"
  cl_Name :: string
  cl_Description :: string
  cl_FaviconURL :: string
  cl_LaunchURI :: string
  cl_ApplicationType :: string
  cl_TokenEndpointAuthMethod :: string
  cl_Protocols :: "string list"
  cl_GrantTypes :: "string list"
  cl_RedirectURIs :: "string list"
  cl_PostLogoutRedirectURIs :: "string list"
  cl_BackchannelLogoutURI :: string
  cl_BackchannelLogoutSessionRequired :: bool
  cl_LoginMethods :: "string list"
  cl_IdentitySourceIDs :: "string list"
  cl_IntrospectableBy :: "string list"
  cl_AllowedScopes :: "string list"
  cl_AccessTokenLifetimeSeconds :: int
  cl_RefreshTokenLifetimeSeconds :: int
  cl_CASVersion :: string
  cl_CASServiceURLs :: "string list"
  cl_CASProxy :: bool
  cl_CASGateway :: bool
  cl_CASRenew :: bool
  cl_CASSingleLogout :: bool
  cl_Enabled :: bool
  cl_ArchivedAt :: "time option"
  cl_SecretHash :: bytes

record CreateClient =
  cc_ID :: string
  cc_SystemID :: string
  cc_Name :: string
  cc_Description :: string
  cc_FaviconURL :: string
  cc_LaunchURI :: string
  cc_ApplicationType :: string
  cc_TokenEndpointAuthMethod :: string
  cc_Protocols :: "string list"
  cc_GrantTypes :: "string list"
  cc_RedirectURIs :: "string list"
  cc_PostLogoutRedirectURIs :: "string list"
  cc_BackchannelLogoutURI :: string
  cc_BackchannelLogoutSessionRequired :: bool
  cc_LoginMethods :: "string list"
  cc_IdentitySourceIDs :: "string list"
  cc_IntrospectableBy :: "string list"
  cc_AllowedScopes :: "string list"
  cc_AccessTokenLifetimeSeconds :: int
  cc_RefreshTokenLifetimeSeconds :: int
  cc_CASVersion :: string
  cc_CASServiceURLs :: "string list"
  cc_CASProxy :: bool
  cc_CASGateway :: bool
  cc_CASRenew :: bool
  cc_CASSingleLogout :: bool
  cc_Enabled :: "bool option"

record ReplaceClient =
  rc_SystemID :: string
  rc_Name :: string
  rc_Description :: string
  rc_FaviconURL :: string
  rc_LaunchURI :: string
  rc_TokenEndpointAuthMethod :: string
  rc_Protocols :: "string list"
  rc_GrantTypes :: "string list"
  rc_RedirectURIs :: "string list"
  rc_PostLogoutRedirectURIs :: "string list"
  rc_BackchannelLogoutURI :: string
  rc_BackchannelLogoutSessionRequired :: bool
  rc_LoginMethods :: "string list"
  rc_IdentitySourceIDs :: "string list"
  rc_IntrospectableBy :: "string list"
  rc_AllowedScopes :: "string list"
  rc_AccessTokenLifetimeSeconds :: int
  rc_RefreshTokenLifetimeSeconds :: int
  rc_CASVersion :: string
  rc_CASServiceURLs :: "string list"
  rc_CASProxy :: bool
  rc_CASGateway :: bool
  rc_CASRenew :: bool
  rc_CASSingleLogout :: bool
  rc_Enabled :: "bool option"

record ClientRepository =
  systems :: "(string, System) gomap"
  systemOrder :: "string list"
  clients :: "(string, Client) gomap"
  order :: "string list"

section \<open>What a client supports and allows\<close>

definition SupportsProtocol :: "Client \<Rightarrow> string \<Rightarrow> bool" where
  "SupportsProtocol c protocol = (protocol \<in> set (cl_Protocols c))"

definition SupportsOAuth :: "Client \<Rightarrow> bool" where
  "SupportsOAuth c = (SupportsProtocol c ProtocolOAuth20 \<or> SupportsProtocol c ProtocolOAuth21)"

definition SupportsGrant :: "Client \<Rightarrow> string \<Rightarrow> bool" where
  "SupportsGrant c grant = (grant \<in> set (cl_GrantTypes c))"

definition redirect_candidate :: "string \<Rightarrow> bool" where
  "redirect_candidate candidate =
     (case Parse candidate of None \<Rightarrow> False | Some parsed \<Rightarrow> IsAbs parsed \<and> u_Fragment parsed = [])"

definition AllowsRedirectURI :: "Client \<Rightarrow> string \<Rightarrow> bool" where
  "AllowsRedirectURI c candidate =
     (if \<not> redirect_candidate candidate then False else candidate \<in> set (cl_RedirectURIs c))"

definition AllowsPostLogoutRedirectURI :: "Client \<Rightarrow> string \<Rightarrow> bool" where
  "AllowsPostLogoutRedirectURI c candidate =
     (if \<not> redirect_candidate candidate then False else candidate \<in> set (cl_PostLogoutRedirectURIs c))"

definition AllowsIntrospectionBy :: "Client \<Rightarrow> string \<Rightarrow> bool" where
  "AllowsIntrospectionBy c candidate =
     (cl_ID c = candidate \<or> candidate \<in> set (cl_IntrospectableBy c))"

text \<open>\<open>time.Duration(value) * time.Second\<close> is an \<open>int64\<close> product.\<close>

definition effectiveTokenLifetime :: "int \<Rightarrow> duration \<Rightarrow> duration" where
  "effectiveTokenLifetime seconds fallback =
     (if seconds \<le> 0 then fallback else wrap64 (seconds * second))"

definition AccessTokenLifetime :: "Client \<Rightarrow> duration" where
  "AccessTokenLifetime c = effectiveTokenLifetime (cl_AccessTokenLifetimeSeconds c) DefaultAccessTokenLifetime"

definition RefreshTokenLifetime :: "Client \<Rightarrow> duration" where
  "RefreshTokenLifetime c = effectiveTokenLifetime (cl_RefreshTokenLifetimeSeconds c) DefaultRefreshTokenLifetime"

definition DisplayName :: "Client \<Rightarrow> string" where
  "DisplayName c = (case cl_System c of Some s \<Rightarrow> sy_Name s | None \<Rightarrow> cl_Name c)"

definition DisplayDescription :: "Client \<Rightarrow> string" where
  "DisplayDescription c = (case cl_System c of Some s \<Rightarrow> sy_Description s | None \<Rightarrow> cl_Description c)"

definition DisplayFaviconURL :: "Client \<Rightarrow> string" where
  "DisplayFaviconURL c = (case cl_System c of Some s \<Rightarrow> sy_FaviconURL s | None \<Rightarrow> cl_FaviconURL c)"

definition defaultTokenEndpointAuthMethod :: "string \<Rightarrow> string" where
  "defaultTokenEndpointAuthMethod applicationType =
     (if applicationType = ApplicationConfidential then TokenEndpointAuthSecretBasic
      else TokenEndpointAuthNone)"

definition EffectiveTokenEndpointAuthMethod :: "Client \<Rightarrow> string" where
  "EffectiveTokenEndpointAuthMethod c =
     (if cl_TokenEndpointAuthMethod c = [] then defaultTokenEndpointAuthMethod (cl_ApplicationType c)
      else cl_TokenEndpointAuthMethod c)"

section \<open>Normalisation\<close>

text \<open>\<open>uniqueStrings\<close> trims, drops blanks and keeps first occurrences; \<open>uniqueSourceIDs\<close> also maps to
  lower case; \<open>uniqueMethods\<close>, \<open>uniqueProtocols\<close> and \<open>uniqueGrantTypes\<close> only keep first
  occurrences. The accumulator \<open>seen\<close> is the result so far.\<close>

fun unique_loop :: "(string \<Rightarrow> string) \<Rightarrow> bool \<Rightarrow> string list \<Rightarrow> string list \<Rightarrow> string list" where
  "unique_loop norm blanks seen [] = seen"
| "unique_loop norm blanks seen (raw # rest) =
     (let v = norm raw in
      if v = [] \<and> \<not> blanks then unique_loop norm blanks seen rest
      else if v \<in> set seen then unique_loop norm blanks seen rest
      else unique_loop norm blanks (seen @ [v]) rest)"

definition uniqueStrings :: "string list \<Rightarrow> string list" where
  "uniqueStrings xs = unique_loop TrimSpace False [] xs"

definition uniqueSourceIDs :: "string list \<Rightarrow> string list" where
  "uniqueSourceIDs xs = unique_loop (\<lambda>v. ToLower (TrimSpace v)) False [] xs"

definition uniqueClientIDs :: "string list \<Rightarrow> string list" where
  "uniqueClientIDs xs = uniqueSourceIDs xs"

definition uniqueMethods :: "string list \<Rightarrow> string list" where
  "uniqueMethods xs = unique_loop (\<lambda>v. v) True [] xs"

definition uniqueProtocols :: "string list \<Rightarrow> string list" where
  "uniqueProtocols xs = unique_loop (\<lambda>v. v) True [] xs"

definition uniqueGrantTypes :: "string list \<Rightarrow> string list" where
  "uniqueGrantTypes xs = unique_loop (\<lambda>v. v) True [] xs"

definition effectiveSystemID :: "string \<Rightarrow> string \<Rightarrow> string" where
  "effectiveSystemID v fallback =
     (let w = ToLower (TrimSpace v) in if w = [] then ToLower (TrimSpace fallback) else w)"

definition normalizedTokenLifetimeSeconds :: "int \<Rightarrow> duration \<Rightarrow> int" where
  "normalizedTokenLifetimeSeconds v fallback = (if v = 0 then go_quot fallback second else v)"

definition withDefaultTokenLifetimes :: "Client \<Rightarrow> Client" where
  "withDefaultTokenLifetimes item =
     item\<lparr>cl_AccessTokenLifetimeSeconds :=
            normalizedTokenLifetimeSeconds (cl_AccessTokenLifetimeSeconds item) DefaultAccessTokenLifetime,
          cl_RefreshTokenLifetimeSeconds :=
            normalizedTokenLifetimeSeconds (cl_RefreshTokenLifetimeSeconds item) DefaultRefreshTokenLifetime\<rparr>"

definition systemFromClient :: "Client \<Rightarrow> System" where
  "systemFromClient item =
     \<lparr>sy_ID = effectiveSystemID (cl_SystemID item) (cl_ID item), sy_Name = cl_Name item,
      sy_Description = cl_Description item, sy_FaviconURL = cl_FaviconURL item,
      sy_LaunchURI = cl_LaunchURI item, sy_PortalVisible = (cl_LaunchURI item \<noteq> [])\<rparr>"

section \<open>Validation\<close>

definition validEndpointURL :: "string \<Rightarrow> bool" where
  "validEndpointURL v =
     (case Parse v of
        None \<Rightarrow> False
      | Some parsed \<Rightarrow>
          if u_Host parsed = [] \<or> u_Fragment parsed \<noteq> [] \<or> u_User parsed \<noteq> None then False
          else if u_Scheme parsed = ''https'' then True
          else if u_Scheme parsed \<noteq> ''http'' then False
          else let hostname = Hostname parsed; ip = ParseIP hostname
               in EqualFold hostname ''localhost'' \<or> (\<exists>a \<in> set_option ip. IsLoopback a))"

text \<open>\<open>^[a-z0-9][a-z0-9_-]{1,62}$\<close> and \<open>^[a-zA-Z0-9._:/-]{1,64}$\<close>.\<close>

definition clientIDPattern :: "string \<Rightarrow> bool" where
  "clientIDPattern s = (case s of [] \<Rightarrow> False
     | c # t \<Rightarrow> (is_lower c \<or> is_digit c) \<and>
         list_all (\<lambda>d. is_lower d \<or> is_digit d \<or> d \<in> set ''_-'') t \<and> 1 \<le> length t \<and> length t \<le> 62)"

definition client_scopePattern :: "string \<Rightarrow> bool" where
  "client_scopePattern s =
     (list_all (\<lambda>c. is_lower c \<or> is_upper c \<or> is_digit c \<or> c \<in> set ''._:/-'') s \<and>
      1 \<le> length s \<and> length s \<le> 64)"

definition validateTokenLifetime :: "int \<Rightarrow> duration \<Rightarrow> duration \<Rightarrow> client_error + unit" where
  "validateTokenLifetime v minimum maximum =
     (if v = 0 then Inr ()
      else let minimumSeconds = go_quot minimum second; maximumSeconds = go_quot maximum second
           in if v < minimumSeconds \<or> v > maximumSeconds then Inl ErrClientInvalid else Inr ())"

definition optional_url_bad :: "string \<Rightarrow> bool" where
  "optional_url_bad v = (v \<noteq> [] \<and> (length v > 2048 \<or> \<not> validEndpointURL v))"

definition known_protocol :: "string \<Rightarrow> bool" where
  "known_protocol p = (\<not> (p \<noteq> ProtocolOAuth20 \<and> p \<noteq> ProtocolOAuth21 \<and> p \<noteq> ProtocolCAS))"

definition known_grant :: "string \<Rightarrow> bool" where
  "known_grant g =
     (g = GrantAuthorizationCode \<or> g = GrantRefreshToken \<or> g = GrantClientCredentials \<or> g = GrantDeviceCode)"

definition known_method :: "string \<Rightarrow> bool" where
  "known_method m = (\<not> (m \<noteq> LoginPassword \<and> m \<noteq> LoginLDAP \<and> m \<noteq> LoginOIDC))"

text \<open>\<open>Client.Validate\<close>, cut into consecutive groups of checks; each part runs the next one when
  its own checks pass, so the order of the checks is that of the code.\<close>

definition validate_cas :: "Client \<Rightarrow> client_error + unit" where
  "validate_cas c =
     (if SupportsProtocol c ProtocolCAS then
        (if cl_CASVersion c \<noteq> CASVersion1 \<and> cl_CASVersion c \<noteq> CASVersion2 \<and> cl_CASVersion c \<noteq> CASVersion3
         then Inl ErrClientInvalid
         else if length (cl_CASServiceURLs c) = 0 \<or> length (cl_CASServiceURLs c) > 20
         then Inl ErrClientInvalid
         else if list_ex (\<lambda>u. \<not> validEndpointURL u) (cl_CASServiceURLs c) then Inl ErrClientInvalid
         else if cl_CASProxy c \<and> cl_CASVersion c = CASVersion1 then Inl ErrClientInvalid
         else Inr ())
      else Inr ())"

definition validate_lifetimes :: "Client \<Rightarrow> client_error + unit" where
  "validate_lifetimes c =
     (case validateTokenLifetime (cl_AccessTokenLifetimeSeconds c) MinAccessTokenLifetime MaxAccessTokenLifetime of
        Inl err \<Rightarrow> Inl err
      | Inr _ \<Rightarrow>
          (case validateTokenLifetime (cl_RefreshTokenLifetimeSeconds c) MinRefreshTokenLifetime MaxRefreshTokenLifetime of
             Inl err \<Rightarrow> Inl err
           | Inr _ \<Rightarrow>
               if RefreshTokenLifetime c < AccessTokenLifetime c then Inl ErrClientInvalid
               else validate_cas c))"

definition validate_parties :: "Client \<Rightarrow> client_error + unit" where
  "validate_parties c =
     (let interactive = SupportsProtocol c ProtocolCAS \<or> SupportsGrant c GrantAuthorizationCode \<or>
                        SupportsGrant c GrantDeviceCode
      in if interactive \<and> length (cl_LoginMethods c) = 0 then Inl ErrClientInvalid
         else if list_ex (\<lambda>m. \<not> known_method m) (cl_LoginMethods c) then Inl ErrClientInvalid
         else if length (cl_IdentitySourceIDs c) > 20 then Inl ErrClientInvalid
         else if length (cl_IdentitySourceIDs c) > 0 \<and> LoginLDAP \<notin> set (cl_LoginMethods c) \<and>
                 LoginOIDC \<notin> set (cl_LoginMethods c) then Inl ErrClientInvalid
         else if list_ex (\<lambda>i. \<not> clientIDPattern i) (cl_IdentitySourceIDs c) then Inl ErrClientInvalid
         else if length (cl_IntrospectableBy c) > 20 then Inl ErrClientInvalid
         else if length (cl_IntrospectableBy c) > 0 \<and> \<not> SupportsOAuth c then Inl ErrClientInvalid
         else if list_ex (\<lambda>i. \<not> clientIDPattern i \<or> i = cl_ID c) (cl_IntrospectableBy c)
         then Inl ErrClientInvalid
         else if list_ex (\<lambda>s. \<not> client_scopePattern s) (cl_AllowedScopes c) then Inl ErrClientInvalid
         else validate_lifetimes c)"

definition validate_redirects :: "Client \<Rightarrow> client_error + unit" where
  "validate_redirects c =
     (if length (cl_RedirectURIs c) > 20 then Inl ErrClientInvalid
      else if list_ex (\<lambda>u. \<not> validEndpointURL u) (cl_RedirectURIs c) then Inl ErrClientInvalid
      else if length (cl_PostLogoutRedirectURIs c) > 20 then Inl ErrClientInvalid
      else if length (cl_PostLogoutRedirectURIs c) > 0 \<and> \<not> SupportsOAuth c then Inl ErrClientInvalid
      else if list_ex (\<lambda>u. \<not> validEndpointURL u) (cl_PostLogoutRedirectURIs c) then Inl ErrClientInvalid
      else if cl_BackchannelLogoutURI c \<noteq> [] \<and> \<not> SupportsOAuth c then Inl ErrClientInvalid
      else if cl_BackchannelLogoutURI c \<noteq> [] \<and> \<not> validEndpointURL (cl_BackchannelLogoutURI c)
      then Inl ErrClientInvalid
      else if cl_BackchannelLogoutURI c = [] \<and> cl_BackchannelLogoutSessionRequired c
      then Inl ErrClientInvalid
      else validate_parties c)"

definition validate_grants :: "Client \<Rightarrow> client_error + unit" where
  "validate_grants c =
     (if SupportsOAuth c then
        (if length (cl_GrantTypes c) = 0 then Inl ErrClientInvalid
         else if list_ex (\<lambda>g. \<not> known_grant g) (cl_GrantTypes c) then Inl ErrClientInvalid
         else if SupportsGrant c GrantClientCredentials \<and> cl_ApplicationType c \<noteq> ApplicationConfidential
         then Inl ErrClientInvalid
         else if SupportsGrant c GrantRefreshToken \<and> \<not> SupportsGrant c GrantAuthorizationCode \<and>
                 \<not> SupportsGrant c GrantDeviceCode then Inl ErrClientInvalid
         else if SupportsGrant c GrantAuthorizationCode \<and> length (cl_RedirectURIs c) = 0
         then Inl ErrClientInvalid
         else validate_redirects c)
      else validate_redirects c)"

definition Client_Validate :: "Client \<Rightarrow> client_error + unit" where
  "Client_Validate c =
     (if \<not> clientIDPattern (cl_ID c) then Inl ErrClientInvalid
      else if \<not> clientIDPattern (cl_SystemID c) then Inl ErrClientInvalid
      else if cl_Name c = [] \<or> rune_count (cl_Name c) > 128 then Inl ErrClientInvalid
      else if optional_url_bad (cl_FaviconURL c) then Inl ErrClientInvalid
      else if optional_url_bad (cl_LaunchURI c) then Inl ErrClientInvalid
      else if cl_ApplicationType c \<noteq> ApplicationPublic \<and> cl_ApplicationType c \<noteq> ApplicationConfidential
      then Inl ErrClientInvalid
      else if cl_ApplicationType c = ApplicationPublic \<and> cl_TokenEndpointAuthMethod c \<noteq> TokenEndpointAuthNone
      then Inl ErrClientInvalid
      else if cl_ApplicationType c = ApplicationConfidential \<and>
              cl_TokenEndpointAuthMethod c \<noteq> TokenEndpointAuthSecretBasic \<and>
              cl_TokenEndpointAuthMethod c \<noteq> TokenEndpointAuthSecretPost then Inl ErrClientInvalid
      else if length (cl_Protocols c) = 0 then Inl ErrClientInvalid
      else if list_ex (\<lambda>p. \<not> known_protocol p) (cl_Protocols c) then Inl ErrClientInvalid
      else validate_grants c)"

definition System_Validate :: "System \<Rightarrow> client_error + unit" where
  "System_Validate s =
     (if \<not> clientIDPattern (sy_ID s) then Inl ErrClientInvalid
      else if sy_Name s = [] \<or> rune_count (sy_Name s) > 128 then Inl ErrClientInvalid
      else if rune_count (sy_Description s) > 512 then Inl ErrClientInvalid
      else if optional_url_bad (sy_FaviconURL s) then Inl ErrClientInvalid
      else if optional_url_bad (sy_LaunchURI s) then Inl ErrClientInvalid
      else Inr ())"

section \<open>Constructors\<close>

definition newSecret :: "(bytes \<Rightarrow> bytes) \<Rightarrow> bytes option \<Rightarrow> (string \<times> bytes) option" where
  "newSecret sha256 random =
     (case random of
        None \<Rightarrow> None
      | Some b \<Rightarrow> let secret = RawURLEncoding_EncodeToString b in Some (secret, sha256 (bytes_of secret)))"

definition NewSystem :: "CreateSystem \<Rightarrow> client_error + System" where
  "NewSystem input =
     (let item = \<lparr>sy_ID = ToLower (TrimSpace (cs_ID input)), sy_Name = TrimSpace (cs_Name input),
            sy_Description = TrimSpace (cs_Description input),
            sy_FaviconURL = TrimSpace (cs_FaviconURL input), sy_LaunchURI = TrimSpace (cs_LaunchURI input),
            sy_PortalVisible = (case cs_PortalVisible input of None \<Rightarrow> True | Some v \<Rightarrow> v)\<rparr>
      in case System_Validate item of Inl err \<Rightarrow> Inl err | Inr _ \<Rightarrow> Inr item)"

definition Replace_System :: "System \<Rightarrow> ReplaceSystemInput \<Rightarrow> client_error + System" where
  "Replace_System current input =
     (let item = \<lparr>sy_ID = sy_ID current, sy_Name = TrimSpace (rs_Name input),
            sy_Description = TrimSpace (rs_Description input),
            sy_FaviconURL = TrimSpace (rs_FaviconURL input), sy_LaunchURI = TrimSpace (rs_LaunchURI input),
            sy_PortalVisible = rs_PortalVisible input\<rparr>
      in case System_Validate item of Inl err \<Rightarrow> Inl err | Inr _ \<Rightarrow> Inr item)"

text \<open>The literal \<open>Client{...}\<close> of \<open>New\<close> and of \<open>Replace\<close>, and the defaults both fill in afterwards.\<close>

definition new_item :: "CreateClient \<Rightarrow> Client" where
  "new_item input =
     (let clientID = ToLower (TrimSpace (cc_ID input)) in
      \<lparr>cl_ID = clientID,
       cl_SystemID = effectiveSystemID (cc_SystemID input) clientID,
       cl_System = None,
       cl_Name = TrimSpace (cc_Name input),
       cl_Description = TrimSpace (cc_Description input),
       cl_FaviconURL = TrimSpace (cc_FaviconURL input),
       cl_LaunchURI = TrimSpace (cc_LaunchURI input),
       cl_ApplicationType = cc_ApplicationType input,
       cl_TokenEndpointAuthMethod = cc_TokenEndpointAuthMethod input,
       cl_Protocols = uniqueProtocols (cc_Protocols input),
       cl_GrantTypes = uniqueGrantTypes (cc_GrantTypes input),
       cl_RedirectURIs = uniqueStrings (cc_RedirectURIs input),
       cl_PostLogoutRedirectURIs = uniqueStrings (cc_PostLogoutRedirectURIs input),
       cl_BackchannelLogoutURI = TrimSpace (cc_BackchannelLogoutURI input),
       cl_BackchannelLogoutSessionRequired = cc_BackchannelLogoutSessionRequired input,
       cl_LoginMethods = uniqueMethods (cc_LoginMethods input),
       cl_IdentitySourceIDs = uniqueSourceIDs (cc_IdentitySourceIDs input),
       cl_IntrospectableBy = uniqueClientIDs (cc_IntrospectableBy input),
       cl_AllowedScopes = uniqueStrings (cc_AllowedScopes input),
       cl_AccessTokenLifetimeSeconds =
         normalizedTokenLifetimeSeconds (cc_AccessTokenLifetimeSeconds input) DefaultAccessTokenLifetime,
       cl_RefreshTokenLifetimeSeconds =
         normalizedTokenLifetimeSeconds (cc_RefreshTokenLifetimeSeconds input) DefaultRefreshTokenLifetime,
       cl_CASVersion = cc_CASVersion input,
       cl_CASServiceURLs = uniqueStrings (cc_CASServiceURLs input),
       cl_CASProxy = cc_CASProxy input,
       cl_CASGateway = cc_CASGateway input,
       cl_CASRenew = cc_CASRenew input,
       cl_CASSingleLogout = cc_CASSingleLogout input,
       cl_Enabled = (case cc_Enabled input of None \<Rightarrow> True | Some v \<Rightarrow> v),
       cl_ArchivedAt = None,
       cl_SecretHash = []\<rparr>)"

definition default_auth_method :: "Client \<Rightarrow> Client" where
  "default_auth_method item =
     (if cl_TokenEndpointAuthMethod item = []
      then item\<lparr>cl_TokenEndpointAuthMethod := defaultTokenEndpointAuthMethod (cl_ApplicationType item)\<rparr>
      else item)"

definition default_grants :: "Client \<Rightarrow> Client" where
  "default_grants item =
     (if SupportsOAuth item \<and> length (cl_GrantTypes item) = 0
      then item\<lparr>cl_GrantTypes := [GrantAuthorizationCode, GrantRefreshToken]\<rparr> else item)"

definition default_cas_version :: "Client \<Rightarrow> Client" where
  "default_cas_version item =
     (if SupportsProtocol item ProtocolCAS \<and> cl_CASVersion item = []
      then item\<lparr>cl_CASVersion := CASVersion3\<rparr> else item)"

definition default_scopes :: "Client \<Rightarrow> Client" where
  "default_scopes item =
     (if length (cl_AllowedScopes item) = 0
      then item\<lparr>cl_AllowedScopes := [''openid'', ''profile'', ''email'']\<rparr> else item)"

definition default_application :: "Client \<Rightarrow> Client" where
  "default_application item =
     (if cl_ApplicationType item = [] then item\<lparr>cl_ApplicationType := ApplicationPublic\<rparr> else item)"

definition default_protocols :: "Client \<Rightarrow> Client" where
  "default_protocols item =
     (if length (cl_Protocols item) = 0 then item\<lparr>cl_Protocols := [ProtocolOAuth21]\<rparr> else item)"

definition Client_New ::
  "(bytes \<Rightarrow> bytes) \<Rightarrow> bytes option \<Rightarrow> CreateClient \<Rightarrow> client_error + Client \<times> string" where
  "Client_New sha256 random input =
     (let item = default_scopes (default_cas_version (default_grants (default_protocols
                   (default_auth_method (default_application (new_item input))))))
      in case Client_Validate item of
           Inl err \<Rightarrow> Inl err
         | Inr _ \<Rightarrow>
             if cl_ApplicationType item = ApplicationPublic then Inr (item, [])
             else (case newSecret sha256 random of
                     None \<Rightarrow> Inl ErrClientRandom
                   | Some (secret, hash) \<Rightarrow> Inr (item\<lparr>cl_SecretHash := hash\<rparr>, secret)))"

definition replaced_item :: "Client \<Rightarrow> ReplaceClient \<Rightarrow> Client" where
  "replaced_item current input =
     \<lparr>cl_ID = cl_ID current,
      cl_SystemID = effectiveSystemID (rc_SystemID input) (cl_SystemID current),
      cl_System = None,
      cl_Name = TrimSpace (rc_Name input),
      cl_Description = TrimSpace (rc_Description input),
      cl_FaviconURL = TrimSpace (rc_FaviconURL input),
      cl_LaunchURI = TrimSpace (rc_LaunchURI input),
      cl_ApplicationType = cl_ApplicationType current,
      cl_TokenEndpointAuthMethod = rc_TokenEndpointAuthMethod input,
      cl_Protocols = uniqueProtocols (rc_Protocols input),
      cl_GrantTypes = uniqueGrantTypes (rc_GrantTypes input),
      cl_RedirectURIs = uniqueStrings (rc_RedirectURIs input),
      cl_PostLogoutRedirectURIs = uniqueStrings (rc_PostLogoutRedirectURIs input),
      cl_BackchannelLogoutURI = TrimSpace (rc_BackchannelLogoutURI input),
      cl_BackchannelLogoutSessionRequired = rc_BackchannelLogoutSessionRequired input,
      cl_LoginMethods = uniqueMethods (rc_LoginMethods input),
      cl_IdentitySourceIDs = uniqueSourceIDs (rc_IdentitySourceIDs input),
      cl_IntrospectableBy = uniqueClientIDs (rc_IntrospectableBy input),
      cl_AllowedScopes = uniqueStrings (rc_AllowedScopes input),
      cl_AccessTokenLifetimeSeconds =
        (if rc_AccessTokenLifetimeSeconds input = 0
         then normalizedTokenLifetimeSeconds (cl_AccessTokenLifetimeSeconds current) DefaultAccessTokenLifetime
         else rc_AccessTokenLifetimeSeconds input),
      cl_RefreshTokenLifetimeSeconds =
        (if rc_RefreshTokenLifetimeSeconds input = 0
         then normalizedTokenLifetimeSeconds (cl_RefreshTokenLifetimeSeconds current) DefaultRefreshTokenLifetime
         else rc_RefreshTokenLifetimeSeconds input),
      cl_CASVersion = rc_CASVersion input,
      cl_CASServiceURLs = uniqueStrings (rc_CASServiceURLs input),
      cl_CASProxy = rc_CASProxy input,
      cl_CASGateway = rc_CASGateway input,
      cl_CASRenew = rc_CASRenew input,
      cl_CASSingleLogout = rc_CASSingleLogout input,
      cl_Enabled = (case rc_Enabled input of None \<Rightarrow> cl_Enabled current | Some v \<Rightarrow> v),
      cl_ArchivedAt = None,
      cl_SecretHash = cl_SecretHash current\<rparr>"

definition Client_Replaced :: "Client \<Rightarrow> ReplaceClient \<Rightarrow> client_error + Client" where
  "Client_Replaced current input =
     (if cl_ArchivedAt current \<noteq> None then Inl ErrClientArchived
      else let item = default_scopes (default_cas_version (default_grants
                        (default_auth_method (replaced_item current input))))
           in case Client_Validate item of Inl err \<Rightarrow> Inl err | Inr _ \<Rightarrow> Inr item)"

definition Client_RotatedSecret ::
  "(bytes \<Rightarrow> bytes) \<Rightarrow> bytes option \<Rightarrow> Client \<Rightarrow> client_error + Client \<times> string" where
  "Client_RotatedSecret sha256 random current =
     (if cl_ArchivedAt current \<noteq> None then Inl ErrClientArchived
      else if cl_ApplicationType current \<noteq> ApplicationConfidential then Inl ErrClientInvalid
      else case newSecret sha256 random of
          None \<Rightarrow> Inl ErrClientRandom
        | Some (secret, hash) \<Rightarrow> Inr (current\<lparr>cl_SecretHash := hash\<rparr>, secret))"

section \<open>The repository\<close>

definition ensureSystem :: "Client \<Rightarrow> ClientRepository \<Rightarrow> ClientRepository" where
  "ensureSystem item r =
     (case map_of (systems r) (cl_SystemID item) of
        Some _ \<Rightarrow> r
      | None \<Rightarrow> r\<lparr>systems := map_put (cl_SystemID item) (systemFromClient item) (systems r),
                   systemOrder := systemOrder r @ [cl_SystemID item]\<rparr>)"

definition cloneWithSystem :: "ClientRepository \<Rightarrow> Client \<Rightarrow> Client" where
  "cloneWithSystem r item =
     (case map_of (systems r) (cl_SystemID item) of
        Some system \<Rightarrow> item\<lparr>cl_System := Some system\<rparr>
      | None \<Rightarrow> item)"

definition stored_client :: "Client \<Rightarrow> Client" where
  "stored_client item0 =
     (let item = withDefaultTokenLifetimes item0
      in item\<lparr>cl_SystemID := effectiveSystemID (cl_SystemID item) (cl_ID item)\<rparr>)"

fun preload :: "Client list \<Rightarrow> ClientRepository \<Rightarrow> ClientRepository" where
  "preload [] r = r"
| "preload (item0 # rest) r =
     (let item = stored_client item0;
          r1 = ensureSystem item r
      in preload rest (r1\<lparr>clients := map_put (cl_ID item) item (clients r1),
                          order := order r1 @ [cl_ID item]\<rparr>))"

definition Client_NewMemoryRepository :: "Client list \<Rightarrow> ClientRepository" where
  "Client_NewMemoryRepository items =
     preload items \<lparr>systems = [], systemOrder = [], clients = [], order = []\<rparr>"

text \<open>A map read of a missing key gives the zero value.\<close>

definition zero_system :: System where
  "zero_system = \<lparr>sy_ID = [], sy_Name = [], sy_Description = [], sy_FaviconURL = [],
     sy_LaunchURI = [], sy_PortalVisible = False\<rparr>"

definition zero_client :: Client where
  "zero_client =
     \<lparr>cl_ID = [], cl_SystemID = [], cl_System = None, cl_Name = [], cl_Description = [],
      cl_FaviconURL = [], cl_LaunchURI = [], cl_ApplicationType = [], cl_TokenEndpointAuthMethod = [],
      cl_Protocols = [], cl_GrantTypes = [], cl_RedirectURIs = [], cl_PostLogoutRedirectURIs = [],
      cl_BackchannelLogoutURI = [], cl_BackchannelLogoutSessionRequired = False, cl_LoginMethods = [],
      cl_IdentitySourceIDs = [], cl_IntrospectableBy = [], cl_AllowedScopes = [],
      cl_AccessTokenLifetimeSeconds = 0, cl_RefreshTokenLifetimeSeconds = 0, cl_CASVersion = [],
      cl_CASServiceURLs = [], cl_CASProxy = False, cl_CASGateway = False, cl_CASRenew = False,
      cl_CASSingleLogout = False, cl_Enabled = False, cl_ArchivedAt = None, cl_SecretHash = []\<rparr>"

definition system_at :: "ClientRepository \<Rightarrow> string \<Rightarrow> System" where
  "system_at r i = (case map_of (systems r) i of Some s \<Rightarrow> s | None \<Rightarrow> zero_system)"

definition client_at :: "ClientRepository \<Rightarrow> string \<Rightarrow> Client" where
  "client_at r i = (case map_of (clients r) i of Some c \<Rightarrow> c | None \<Rightarrow> zero_client)"

definition ListSystems :: "ClientRepository \<Rightarrow> System list" where
  "ListSystems r = map (system_at r) (systemOrder r)"

definition FindSystem :: "string \<Rightarrow> ClientRepository \<Rightarrow> client_error + System" where
  "FindSystem i r = (case map_of (systems r) i of None \<Rightarrow> Inl ErrSystemNotFound | Some s \<Rightarrow> Inr s)"

definition Create_System :: "System \<Rightarrow> ClientRepository \<Rightarrow> (client_error + System) \<times> ClientRepository" where
  "Create_System item r =
     (case map_of (systems r) (sy_ID item) of
        Some _ \<Rightarrow> (Inl ErrSystemConflict, r)
      | None \<Rightarrow> (Inr item, r\<lparr>systems := map_put (sy_ID item) item (systems r),
                              systemOrder := systemOrder r @ [sy_ID item]\<rparr>))"

definition ReplaceSystem :: "System \<Rightarrow> ClientRepository \<Rightarrow> (client_error + System) \<times> ClientRepository" where
  "ReplaceSystem item r =
     (case map_of (systems r) (sy_ID item) of
        None \<Rightarrow> (Inl ErrSystemNotFound, r)
      | Some _ \<Rightarrow> (Inr item, r\<lparr>systems := map_put (sy_ID item) item (systems r)\<rparr>))"

definition DeleteSystem :: "string \<Rightarrow> ClientRepository \<Rightarrow> (client_error + unit) \<times> ClientRepository" where
  "DeleteSystem i r =
     (case map_of (systems r) i of
        None \<Rightarrow> (Inl ErrSystemNotFound, r)
      | Some _ \<Rightarrow>
          if list_ex (\<lambda>(_, item). cl_SystemID item = i) (clients r) then (Inl ErrSystemInUse, r)
          else (Inr (), r\<lparr>systems := map_delete i (systems r),
                          systemOrder := filter (\<lambda>candidate. candidate \<noteq> i) (systemOrder r)\<rparr>))"

definition Client_List :: "ClientRepository \<Rightarrow> Client list" where
  "Client_List r = map (\<lambda>i. cloneWithSystem r (client_at r i)) (order r)"

definition Client_Find :: "string \<Rightarrow> ClientRepository \<Rightarrow> client_error + Client" where
  "Client_Find i r =
     (case map_of (clients r) i of
        None \<Rightarrow> Inl ErrClientNotFound
      | Some item \<Rightarrow> Inr (cloneWithSystem r item))"

definition Client_Create :: "Client \<Rightarrow> ClientRepository \<Rightarrow> (client_error + Client) \<times> ClientRepository" where
  "Client_Create item0 r =
     (let item = stored_client item0 in
      case map_of (clients r) (cl_ID item) of
        Some _ \<Rightarrow> (Inl ErrClientConflict, r)
      | None \<Rightarrow>
          let r1 = ensureSystem item r;
              r2 = r1\<lparr>clients := map_put (cl_ID item) item (clients r1), order := order r1 @ [cl_ID item]\<rparr>
          in (Inr (cloneWithSystem r2 item), r2))"

definition Client_Replace :: "Client \<Rightarrow> ClientRepository \<Rightarrow> (client_error + Client) \<times> ClientRepository" where
  "Client_Replace item0 r =
     (let item = stored_client item0 in
      case map_of (clients r) (cl_ID item) of
        None \<Rightarrow> (Inl ErrClientNotFound, r)
      | Some current \<Rightarrow>
          if cl_ArchivedAt current \<noteq> None then (Inl ErrClientArchived, r)
          else let r2 = r\<lparr>clients := map_put (cl_ID item) item (clients r)\<rparr>
               in (Inr (cloneWithSystem r2 item), r2))"

definition Client_RotateSecret ::
  "string \<Rightarrow> bytes \<Rightarrow> ClientRepository \<Rightarrow> (client_error + Client) \<times> ClientRepository" where
  "Client_RotateSecret i hash r =
     (case map_of (clients r) i of
        None \<Rightarrow> (Inl ErrClientNotFound, r)
      | Some item0 \<Rightarrow>
          if cl_ArchivedAt item0 \<noteq> None then (Inl ErrClientArchived, r)
          else let item = item0\<lparr>cl_SecretHash := hash\<rparr>;
                   r2 = r\<lparr>clients := map_put i item (clients r)\<rparr>
               in (Inr (cloneWithSystem r2 item), r2))"

definition Archive :: "string \<Rightarrow> time \<Rightarrow> ClientRepository \<Rightarrow> (client_error + unit) \<times> ClientRepository" where
  "Archive i now r =
     (case map_of (clients r) i of
        None \<Rightarrow> (Inl ErrClientNotFound, r)
      | Some item \<Rightarrow>
          if cl_ArchivedAt item = None
          then (Inr (), r\<lparr>clients := map_put i (item\<lparr>cl_ArchivedAt := Some now, cl_Enabled := False\<rparr>) (clients r)\<rparr>)
          else (Inr (), r))"

definition drop_introspector :: "string \<Rightarrow> Client \<Rightarrow> Client" where
  "drop_introspector i other =
     (if i \<in> set (cl_IntrospectableBy other)
      then other\<lparr>cl_IntrospectableBy := filter (\<lambda>candidate. candidate \<noteq> i) (cl_IntrospectableBy other)\<rparr>
      else other)"

definition DeleteArchived :: "string \<Rightarrow> ClientRepository \<Rightarrow> (client_error + unit) \<times> ClientRepository" where
  "DeleteArchived i r =
     (case map_of (clients r) i of
        None \<Rightarrow> (Inl ErrClientNotFound, r)
      | Some item \<Rightarrow>
          if cl_ArchivedAt item = None then (Inl ErrClientNotArchived, r)
          else (Inr (), r\<lparr>clients := map_values (\<lambda>_. drop_introspector i) (map_delete i (clients r)),
                          order := filter (\<lambda>candidate. candidate \<noteq> i) (order r)\<rparr>))"

section \<open>Facts on normalisation\<close>

lemma guard_Inr [simp]: "((if b then Inl e else x) = Inr u) = (\<not> b \<and> x = Inr u)"
  by simp

lemma unique_loop_distinct: "distinct seen \<Longrightarrow> distinct (unique_loop norm blanks seen xs)"
  by (induction xs arbitrary: seen) (auto simp: Let_def)

lemma unique_loop_set:
  "set (unique_loop norm blanks seen xs) = set seen \<union> {v \<in> norm ` set xs. blanks \<or> v \<noteq> []}"
  by (induction xs arbitrary: seen) (auto simp: Let_def)

lemmas unique_defs = uniqueStrings_def uniqueSourceIDs_def uniqueClientIDs_def uniqueMethods_def
  uniqueProtocols_def uniqueGrantTypes_def

lemma distinct_unique [simp]:
  "distinct (uniqueStrings xs)" "distinct (uniqueClientIDs xs)" "distinct (uniqueMethods xs)"
  "distinct (uniqueProtocols xs)" "distinct (uniqueGrantTypes xs)"
  by (simp_all add: unique_defs unique_loop_distinct)

lemma is_space_lower: "is_space (lower_char c) = is_space c"
proof (cases "is_upper c")
  case True
  then have "char_code (lower_char c) = char_code c + 32"
    by (simp add: lower_char_def is_upper_def char_code_def)
  with True show ?thesis by (simp add: is_space_def is_upper_def)
qed (simp add: lower_char_def)

lemma lower_char_idem [simp]: "lower_char (lower_char c) = lower_char c"
proof (cases "is_upper c")
  case True
  then have "char_code (lower_char c) = char_code c + 32"
    by (simp add: lower_char_def is_upper_def char_code_def)
  with True have "\<not> is_upper (lower_char c)" by (simp add: is_upper_def)
  then show ?thesis by (simp add: lower_char_def)
qed (simp add: lower_char_def)

lemma ToLower_idem [simp]: "ToLower (ToLower s) = ToLower s"
  by (simp add: ToLower_def)

lemma dropWhile_ToLower: "dropWhile is_space (ToLower s) = ToLower (dropWhile is_space s)"
  by (induction s) (auto simp: ToLower_def is_space_lower)

lemma rev_ToLower: "rev (ToLower s) = ToLower (rev s)"
  by (simp add: ToLower_def rev_map)

lemma TrimSpace_ToLower: "TrimSpace (ToLower s) = ToLower (TrimSpace s)"
  by (simp add: TrimSpace_def dropWhile_ToLower rev_ToLower)

lemma dropWhile_idem: "dropWhile p (dropWhile p xs) = dropWhile p xs"
  by (induction xs) auto

lemma hd_rev_dropWhile_rev:
  "xs = [] \<or> \<not> p (hd xs) \<Longrightarrow> dropWhile p (rev (dropWhile p (rev xs))) = rev (dropWhile p (rev xs))"
proof (cases "rev (dropWhile p (rev xs))")
  case (Cons y ys)
  assume a: "xs = [] \<or> \<not> p (hd xs)"
  have "xs = rev (dropWhile p (rev xs)) @ rev (takeWhile p (rev xs))"
    by (metis rev_append rev_rev_ident takeWhile_dropWhile_id)
  with Cons have "hd xs = y" and "xs \<noteq> []" by (metis append_Cons list.sel(1), metis append_Cons list.distinct(1))
  with a Cons show ?thesis by simp
next
  case Nil
  then show ?thesis by (metis dropWhile.simps(1))
qed

lemma TrimSpace_idem [simp]: "TrimSpace (TrimSpace s) = TrimSpace s"
proof -
  let ?d = "dropWhile is_space s"
  have "?d = [] \<or> \<not> is_space (hd ?d)" by (metis hd_dropWhile)
  then have "dropWhile is_space (TrimSpace s) = TrimSpace s"
    unfolding TrimSpace_def by (rule hd_rev_dropWhile_rev)
  then show ?thesis
    unfolding TrimSpace_def [of "TrimSpace s"] by (simp add: TrimSpace_def dropWhile_idem)
qed

lemma effectiveSystemID_idem [simp]:
  "effectiveSystemID (effectiveSystemID v w) w = effectiveSystemID v w"
  by (simp add: effectiveSystemID_def Let_def TrimSpace_ToLower)

section \<open>Validated clients\<close>

lemma Supports_secret [simp]:
  "SupportsProtocol (c\<lparr>cl_SecretHash := h\<rparr>) = SupportsProtocol c"
  "SupportsOAuth (c\<lparr>cl_SecretHash := h\<rparr>) = SupportsOAuth c"
  "SupportsGrant (c\<lparr>cl_SecretHash := h\<rparr>) = SupportsGrant c"
  "AccessTokenLifetime (c\<lparr>cl_SecretHash := h\<rparr>) = AccessTokenLifetime c"
  "RefreshTokenLifetime (c\<lparr>cl_SecretHash := h\<rparr>) = RefreshTokenLifetime c"
  by (simp_all add: fun_eq_iff SupportsProtocol_def SupportsOAuth_def SupportsGrant_def
      AccessTokenLifetime_def RefreshTokenLifetime_def)

lemma validate_cas_secret: "validate_cas (c\<lparr>cl_SecretHash := h\<rparr>) = validate_cas c"
  unfolding validate_cas_def Supports_secret by (cases c) (simp only: Client.simps)

lemma validate_lifetimes_secret: "validate_lifetimes (c\<lparr>cl_SecretHash := h\<rparr>) = validate_lifetimes c"
  unfolding validate_lifetimes_def Supports_secret validate_cas_secret by (cases c) (simp only: Client.simps)

lemma validate_parties_secret: "validate_parties (c\<lparr>cl_SecretHash := h\<rparr>) = validate_parties c"
  unfolding validate_parties_def Supports_secret validate_lifetimes_secret by (cases c) (simp only: Client.simps)

lemma validate_redirects_secret: "validate_redirects (c\<lparr>cl_SecretHash := h\<rparr>) = validate_redirects c"
  unfolding validate_redirects_def Supports_secret validate_parties_secret by (cases c) (simp only: Client.simps)

lemma Client_Validate_secret [simp]:
  "Client_Validate (c\<lparr>cl_SecretHash := h\<rparr>) = Client_Validate c"
  unfolding Client_Validate_def validate_grants_def Supports_secret validate_redirects_secret
  by (cases c) (simp only: Client.simps)

text \<open>What each group of checks guarantees.\<close>

lemma validate_lifetimesD:
  assumes "validate_lifetimes c = Inr u"
  shows "validateTokenLifetime (cl_AccessTokenLifetimeSeconds c) MinAccessTokenLifetime MaxAccessTokenLifetime = Inr ()"
    and "validateTokenLifetime (cl_RefreshTokenLifetimeSeconds c) MinRefreshTokenLifetime MaxRefreshTokenLifetime = Inr ()"
    and "AccessTokenLifetime c \<le> RefreshTokenLifetime c"
    and "validate_cas c = Inr ()"
  using assms unfolding validate_lifetimes_def by (auto split: sum.splits)

lemma validate_partiesD:
  assumes "validate_parties c = Inr u"
  shows "list_all clientIDPattern (cl_IntrospectableBy c)" and "cl_ID c \<notin> set (cl_IntrospectableBy c)"
    and "validate_lifetimes c = Inr ()"
  using assms unfolding validate_parties_def Let_def
  by (auto simp: list_all_iff list_ex_iff)

lemma validate_redirectsD:
  assumes "validate_redirects c = Inr u"
  shows "list_all validEndpointURL (cl_RedirectURIs c)"
    and "list_all validEndpointURL (cl_PostLogoutRedirectURIs c)"
    and "validate_parties c = Inr ()"
  using assms unfolding validate_redirects_def by (auto simp: list_all_iff list_ex_iff)

lemma validate_grantsD:
  assumes "validate_grants c = Inr u"
  shows "SupportsOAuth c \<Longrightarrow> SupportsGrant c GrantClientCredentials \<Longrightarrow>
           cl_ApplicationType c = ApplicationConfidential"
    and "SupportsOAuth c \<Longrightarrow> SupportsGrant c GrantAuthorizationCode \<Longrightarrow> cl_RedirectURIs c \<noteq> []"
    and "validate_redirects c = Inr ()"
  using assms unfolding validate_grants_def by (auto split: if_splits)

lemma Client_ValidateD:
  assumes "Client_Validate c = Inr u"
  shows "clientIDPattern (cl_ID c)" and "clientIDPattern (cl_SystemID c)"
    and "cl_ApplicationType c = ApplicationPublic \<and> cl_TokenEndpointAuthMethod c = TokenEndpointAuthNone \<or>
         cl_ApplicationType c = ApplicationConfidential \<and>
         cl_TokenEndpointAuthMethod c \<in> {TokenEndpointAuthSecretBasic, TokenEndpointAuthSecretPost}"
    and "cl_Protocols c \<noteq> []" and "validate_grants c = Inr ()"
  using assms unfolding Client_Validate_def by auto

lemma token_lifetime_exact:
  assumes "validateTokenLifetime v lo hi = Inr u" and "0 < lo" and "hi \<le> 365 * 24 * hour"
    and "second dvd lo" and "second dvd hi" and "lo \<le> fb" and "fb \<le> hi"
  shows "lo \<le> effectiveTokenLifetime v fb \<and> effectiveTokenLifetime v fb \<le> hi"
proof (cases "v = 0")
  case False
  obtain a where a: "lo = second * a" using assms(4) by (auto simp: dvd_def)
  obtain b where b: "hi = second * b" using assms(5) by (auto simp: dvd_def)
  from assms a b have pos: "0 < a" "0 < b" by auto
  with a b have "go_quot lo second = a" "go_quot hi second = b"
    by (auto simp: go_quot_def sgn_if abs_if)
  with assms(1) False have v: "a \<le> v" "v \<le> b"
    by (auto simp: validateTokenLifetime_def Let_def split: if_splits)
  have "v * second \<le> b * second" using v by simp
  with assms(3) b have "v * second < 2 ^ 63" by simp
  with v pos have "wrap64 (v * second) = v * second" by (intro wrap64_id) auto
  with v pos a b show ?thesis by (simp add: effectiveTokenLifetime_def)
qed (use assms in \<open>auto simp: effectiveTokenLifetime_def\<close>)

text \<open>Token lifetimes of a validated client are bounded: access tokens live between one minute and
  one day, refresh tokens between one hour and one year, never shorter than access tokens, and the
  conversion from seconds to nanoseconds does not overflow (values of zero or below stand for the
  defaults).\<close>

lemma token_lifetimes_bounded:
  assumes "Client_Validate c = Inr ()"
  shows "minute \<le> AccessTokenLifetime c \<and> AccessTokenLifetime c \<le> 24 * hour
    \<and> hour \<le> RefreshTokenLifetime c \<and> RefreshTokenLifetime c \<le> 365 * 24 * hour
    \<and> AccessTokenLifetime c \<le> RefreshTokenLifetime c
    \<and> (0 < cl_AccessTokenLifetimeSeconds c \<longrightarrow>
         AccessTokenLifetime c = cl_AccessTokenLifetimeSeconds c * second)
    \<and> (0 < cl_RefreshTokenLifetimeSeconds c \<longrightarrow>
         RefreshTokenLifetime c = cl_RefreshTokenLifetimeSeconds c * second)"
proof -
  note lifetimes = validate_lifetimesD [OF validate_partiesD(3) [OF validate_redirectsD(3)
        [OF validate_grantsD(3) [OF Client_ValidateD(5) [OF assms]]]]]
  have acc: "minute \<le> AccessTokenLifetime c \<and> AccessTokenLifetime c \<le> 24 * hour"
    unfolding AccessTokenLifetime_def by (rule token_lifetime_exact [OF lifetimes(1)]) auto
  have ref: "hour \<le> RefreshTokenLifetime c \<and> RefreshTokenLifetime c \<le> 365 * 24 * hour"
    unfolding RefreshTokenLifetime_def by (rule token_lifetime_exact [OF lifetimes(2)]) auto
  from lifetimes(1,2) have "cl_AccessTokenLifetimeSeconds c \<le> 31536000" "cl_RefreshTokenLifetimeSeconds c \<le> 31536000"
    by (auto simp: validateTokenLifetime_def Let_def go_quot_def split: if_splits)
  then have "0 < cl_AccessTokenLifetimeSeconds c \<Longrightarrow>
      AccessTokenLifetime c = cl_AccessTokenLifetimeSeconds c * second"
    and "0 < cl_RefreshTokenLifetimeSeconds c \<Longrightarrow>
      RefreshTokenLifetime c = cl_RefreshTokenLifetimeSeconds c * second"
    by (auto simp: AccessTokenLifetime_def RefreshTokenLifetime_def effectiveTokenLifetime_def
        intro!: wrap64_id)
  with acc ref lifetimes(3) show ?thesis by blast
qed

lemma validEndpointURLD:
  assumes "validEndpointURL v"
  obtains u where "Parse v = Some u" and "u_Host u \<noteq> []" and "u_Fragment u = []" and "u_User u = None"
    and "u_Scheme u = ''https'' \<or> u_Scheme u = ''http'' \<and>
         (EqualFold (Hostname u) ''localhost'' \<or> (\<exists>a. ParseIP (Hostname u) = Some a \<and> IsLoopback a))"
  using assms by (auto simp: validEndpointURL_def Let_def split: option.splits if_splits)


lemma defaults_keep:
  "cl_ArchivedAt (default_application c) = cl_ArchivedAt c"
  "cl_ArchivedAt (default_auth_method c) = cl_ArchivedAt c"
  "cl_ArchivedAt (default_protocols c) = cl_ArchivedAt c"
  "cl_ArchivedAt (default_grants c) = cl_ArchivedAt c"
  "cl_ArchivedAt (default_cas_version c) = cl_ArchivedAt c"
  "cl_ArchivedAt (default_scopes c) = cl_ArchivedAt c"
  "cl_SecretHash (default_application c) = cl_SecretHash c"
  "cl_SecretHash (default_auth_method c) = cl_SecretHash c"
  "cl_SecretHash (default_protocols c) = cl_SecretHash c"
  "cl_SecretHash (default_grants c) = cl_SecretHash c"
  "cl_SecretHash (default_cas_version c) = cl_SecretHash c"
  "cl_SecretHash (default_scopes c) = cl_SecretHash c"
  "cl_ID (default_application c) = cl_ID c"
  "cl_ID (default_auth_method c) = cl_ID c"
  "cl_ID (default_protocols c) = cl_ID c"
  "cl_ID (default_grants c) = cl_ID c"
  "cl_ID (default_cas_version c) = cl_ID c"
  "cl_ID (default_scopes c) = cl_ID c"
  by (simp_all add: default_application_def default_auth_method_def default_protocols_def
      default_grants_def default_cas_version_def default_scopes_def)

text \<open>C37: A client that \<open>New\<close> accepts is well-formed and its secret fits its type. It passes validation and
  is not archived. A public client gets no secret and, if it speaks OAuth, cannot have the
  client-credentials grant. A confidential client's secret is the URL-safe text of the random bytes,
  only its hash is stored, and different random bytes give different secrets.\<close>

theorem new_client_sound:
  assumes "Client_New sha256 random input = Inr (item, secret)"
  shows "Client_Validate item = Inr () \<and> cl_ID item = ToLower (TrimSpace (cc_ID input))
    \<and> cl_ArchivedAt item = None
    \<and> (cl_ApplicationType item = ApplicationPublic \<and> secret = [] \<and> cl_SecretHash item = []
         \<and> \<not> (SupportsOAuth item \<and> SupportsGrant item GrantClientCredentials)
       \<or> cl_ApplicationType item = ApplicationConfidential \<and> cl_SecretHash item = sha256 (bytes_of secret)
         \<and> (\<exists>b. random = Some b \<and> RawURLEncoding_DecodeString secret = Some b))"
proof -
  define base where "base = default_scopes (default_cas_version (default_grants (default_protocols
    (default_auth_method (default_application (new_item input))))))"
  have base: "cl_ArchivedAt base = None" "cl_SecretHash base = []"
    "cl_ID base = ToLower (TrimSpace (cc_ID input))"
    by (simp_all add: base_def defaults_keep new_item_def Let_def)
  from assms have v: "Client_Validate base = Inr ()"
    and cases: "cl_ApplicationType base = ApplicationPublic \<and> item = base \<and> secret = [] \<or>
      cl_ApplicationType base \<noteq> ApplicationPublic \<and>
      (\<exists>hash. newSecret sha256 random = Some (secret, hash) \<and> item = base\<lparr>cl_SecretHash := hash\<rparr>)"
    unfolding Client_New_def base_def [symmetric] Let_def
    by (auto split: sum.splits option.splits if_splits)
  note type = Client_ValidateD(3) [OF v]
  note cc = validate_grantsD(1) [OF Client_ValidateD(5) [OF v]]
  from cases show ?thesis
  proof
    assume "cl_ApplicationType base = ApplicationPublic \<and> item = base \<and> secret = []"
    then show ?thesis using v base cc by auto
  next
    assume "cl_ApplicationType base \<noteq> ApplicationPublic \<and>
      (\<exists>hash. newSecret sha256 random = Some (secret, hash) \<and> item = base\<lparr>cl_SecretHash := hash\<rparr>)"
    then show ?thesis using v base type
      by (auto simp: newSecret_def Let_def raw64_roundtrip split: option.splits)
  qed
qed

section \<open>Consistency of the registry\<close>

definition registry_ok :: "ClientRepository \<Rightarrow> bool" where
  "registry_ok r =
     (distinct (order r) \<and> set (order r) = dom (map_of (clients r)) \<and>
      distinct (systemOrder r) \<and> set (systemOrder r) = dom (map_of (systems r)) \<and>
      (\<forall>i c. map_of (clients r) i = Some c \<longrightarrow>
         cl_ID c = i \<and> cl_SystemID c \<in> dom (map_of (systems r))) \<and>
      (\<forall>i s. map_of (systems r) i = Some s \<longrightarrow> sy_ID s = i))"

text \<open>The calls of the repository that change it. The service replaces a client only for a system it
  found before (\<open>validateClientSystem\<close>), which \<open>client_admissible\<close> says of a call in a state.\<close>

datatype client_call =
    CallCreateSystem System | CallReplaceSystem System | CallDeleteSystem string
  | CallCreate Client | CallReplace Client | CallRotateSecret string bytes
  | CallArchive string time | CallDeleteArchived string

datatype client_result =
    ResSystem "client_error + System" | ResClient "client_error + Client" | ResUnit "client_error + unit"

fun client_step :: "ClientRepository \<Rightarrow> client_call \<Rightarrow> client_result \<times> ClientRepository" where
  "client_step r (CallCreateSystem s) = apfst ResSystem (Create_System s r)"
| "client_step r (CallReplaceSystem s) = apfst ResSystem (ReplaceSystem s r)"
| "client_step r (CallDeleteSystem i) = apfst ResUnit (DeleteSystem i r)"
| "client_step r (CallCreate c) = apfst ResClient (Client_Create c r)"
| "client_step r (CallReplace c) = apfst ResClient (Client_Replace c r)"
| "client_step r (CallRotateSecret i h) = apfst ResClient (Client_RotateSecret i h r)"
| "client_step r (CallArchive i now) = apfst ResUnit (Archive i now r)"
| "client_step r (CallDeleteArchived i) = apfst ResUnit (DeleteArchived i r)"

fun client_admissible :: "ClientRepository \<Rightarrow> client_call \<Rightarrow> bool" where
  "client_admissible r (CallReplace c) = (\<exists>s. FindSystem (cl_SystemID (stored_client c)) r = Inr s)"
| "client_admissible r op = True"

inductive registry_reachable :: "ClientRepository \<Rightarrow> bool" where
  initial: "distinct (map cl_ID items) \<Longrightarrow> registry_reachable (Client_NewMemoryRepository items)"
| step: "registry_reachable r \<Longrightarrow> client_admissible r op \<Longrightarrow> registry_reachable (snd (client_step r op))"

lemma stored_client_simps [simp]:
  "cl_ID (stored_client c) = cl_ID c"
  "cl_SystemID (stored_client c) = effectiveSystemID (cl_SystemID c) (cl_ID c)"
  "cl_ArchivedAt (stored_client c) = cl_ArchivedAt c"
  "cl_SecretHash (stored_client c) = cl_SecretHash c"
  "cl_Enabled (stored_client c) = cl_Enabled c"
  by (simp_all add: stored_client_def withDefaultTokenLifetimes_def Let_def)

lemma ensureSystem_simps [simp]:
  "clients (ensureSystem c r) = clients r" "order (ensureSystem c r) = order r"
  by (simp_all add: ensureSystem_def split: option.split)

lemma systemFromClient_ID [simp]:
  "sy_ID (systemFromClient c) = effectiveSystemID (cl_SystemID c) (cl_ID c)"
  by (simp add: systemFromClient_def)

declare map_of_delete [simp]

lemma registry_okI:
  assumes "distinct (order r)" "set (order r) = dom (map_of (clients r))"
    "distinct (systemOrder r)" "set (systemOrder r) = dom (map_of (systems r))"
    "\<And>i c. map_of (clients r) i = Some c \<Longrightarrow> cl_ID c = i \<and> cl_SystemID c \<in> dom (map_of (systems r))"
    "\<And>i s. map_of (systems r) i = Some s \<Longrightarrow> sy_ID s = i"
  shows "registry_ok r"
  using assms by (simp add: registry_ok_def)

lemma registry_okD:
  assumes "registry_ok r"
  shows "distinct (order r)" "set (order r) = dom (map_of (clients r))"
    "distinct (systemOrder r)" "set (systemOrder r) = dom (map_of (systems r))"
    "map_of (clients r) i = Some c \<Longrightarrow> cl_ID c = i"
    "map_of (clients r) i = Some c \<Longrightarrow> \<exists>s. map_of (systems r) (cl_SystemID c) = Some s"
    "map_of (systems r) i = Some s \<Longrightarrow> sy_ID s = i"
  using assms by (auto simp: registry_ok_def)

lemma registry_ok_add_system:
  assumes "registry_ok r" and "map_of (systems r) (sy_ID s) = None"
  shows "registry_ok (r\<lparr>systems := map_put (sy_ID s) s (systems r), systemOrder := systemOrder r @ [sy_ID s]\<rparr>)"
  using registry_okD [OF assms(1)] assms(2)
  by (intro registry_okI) (auto split: if_splits)

lemma ensureSystem_ok:
  assumes "registry_ok r" and "sy_ID (systemFromClient c) = cl_SystemID c"
  shows "registry_ok (ensureSystem c r)" and "\<exists>s. map_of (systems (ensureSystem c r)) (cl_SystemID c) = Some s"
  using registry_ok_add_system [OF assms(1), of "systemFromClient c"] assms
  by (auto simp: ensureSystem_def split: option.split)

lemma registry_ok_put_client:
  assumes "registry_ok r" and "map_of (systems r) (cl_SystemID c) = Some s"
  shows "map_of (clients r) (cl_ID c) = None \<Longrightarrow>
      registry_ok (r\<lparr>clients := map_put (cl_ID c) c (clients r), order := order r @ [cl_ID c]\<rparr>)"
    and "map_of (clients r) (cl_ID c) = Some d \<Longrightarrow>
      registry_ok (r\<lparr>clients := map_put (cl_ID c) c (clients r)\<rparr>)"
  using registry_okD [OF assms(1)] assms(2)
  by (auto intro!: registry_okI split: if_splits)

lemma drop_introspector_simps [simp]:
  "cl_ID (drop_introspector i c) = cl_ID c" "cl_SystemID (drop_introspector i c) = cl_SystemID c"
  "cl_ArchivedAt (drop_introspector i c) = cl_ArchivedAt c"
  "cl_Enabled (drop_introspector i c) = cl_Enabled c"
  "cl_SecretHash (drop_introspector i c) = cl_SecretHash c"
  "set (cl_IntrospectableBy (drop_introspector i c)) = set (cl_IntrospectableBy c) - {i}"
  by (auto simp: drop_introspector_def)

lemma registry_ok_drop_client:
  assumes ok: "registry_ok r"
  shows "registry_ok (r\<lparr>clients := map_values (\<lambda>_. drop_introspector i) (map_delete i (clients r)),
     order := filter (\<lambda>candidate. candidate \<noteq> i) (order r)\<rparr>)" (is "registry_ok ?r")
proof (rule registry_okI)
  show "set (order ?r) = dom (map_of (clients ?r))"
    using registry_okD(2) [OF ok] by (auto simp: dom_def split: if_splits)
next
  fix k c
  assume "map_of (clients ?r) k = Some c"
  then obtain d where "map_of (clients r) k = Some d" and "c = drop_introspector i d"
    by (auto split: if_splits)
  with registry_okD(5,6) [OF ok this(1)]
  show "cl_ID c = k \<and> cl_SystemID c \<in> dom (map_of (systems ?r))" by auto
qed (use registry_okD [OF ok] in simp_all)

lemma registry_ok_drop_system:
  assumes ok: "registry_ok r" and unused: "\<not> list_ex (\<lambda>(_, c). cl_SystemID c = i) (clients r)"
  shows "registry_ok (r\<lparr>systems := map_delete i (systems r),
     systemOrder := filter (\<lambda>candidate. candidate \<noteq> i) (systemOrder r)\<rparr>)" (is "registry_ok ?r")
proof (rule registry_okI)
  show "set (systemOrder ?r) = dom (map_of (systems ?r))"
    using registry_okD(4) [OF ok] by (auto simp: dom_def split: if_splits)
next
  fix k c
  assume "map_of (clients ?r) k = Some c"
  then have c: "map_of (clients r) k = Some c" by simp
  with unused have "cl_SystemID c \<noteq> i" by (auto simp: list_ex_iff dest: map_of_SomeD)
  with registry_okD(5,6) [OF ok c]
  show "cl_ID c = k \<and> cl_SystemID c \<in> dom (map_of (systems ?r))" by auto
next
  fix k s
  assume "map_of (systems ?r) k = Some s"
  then show "sy_ID s = k" using registry_okD(7) [OF ok] by (auto split: if_splits)
qed (use registry_okD [OF ok] in simp_all)

lemma registry_ok_replace_system:
  assumes ok: "registry_ok r"
  shows "registry_ok (snd (ReplaceSystem s r))"
proof (cases "map_of (systems r) (sy_ID s)")
  case (Some s0)
  then have "registry_ok (r\<lparr>systems := map_put (sy_ID s) s (systems r)\<rparr>)"
    using registry_okD [OF ok] by (intro registry_okI) (auto split: if_splits)
  with Some show ?thesis by (simp add: ReplaceSystem_def)
qed (simp add: ReplaceSystem_def ok)

lemma registry_ok_insert:
  assumes ok: "registry_ok r" and new: "map_of (clients r) (cl_ID c) = None"
    and sid: "sy_ID (systemFromClient c) = cl_SystemID c"
  shows "registry_ok ((ensureSystem c r)\<lparr>clients := map_put (cl_ID c) c (clients r), order := order r @ [cl_ID c]\<rparr>)"
proof -
  from ensureSystem_ok(2) [OF ok sid] obtain s
    where "map_of (systems (ensureSystem c r)) (cl_SystemID c) = Some s" by blast
  from registry_ok_put_client(1) [OF ensureSystem_ok(1) [OF ok sid] this] new show ?thesis by simp
qed

lemma registry_ok_update:
  assumes ok: "registry_ok r" and d: "map_of (clients r) i = Some d"
    and c: "cl_ID c = cl_ID d" "cl_SystemID c = cl_SystemID d"
  shows "registry_ok (r\<lparr>clients := map_put i c (clients r)\<rparr>)"
proof -
  from registry_okD(5,6) [OF ok d] obtain s where "cl_ID d = i" and "map_of (systems r) (cl_SystemID c) = Some s"
    using c by auto
  with registry_ok_put_client(2) [OF ok this(2)] d c show ?thesis by simp
qed

lemma registry_ok_step:
  assumes ok: "registry_ok r" and "client_admissible r op"
  shows "registry_ok (snd (client_step r op))"
proof (cases op)
  case (CallCreateSystem s)
  then show ?thesis
    by (auto simp: Create_System_def ok split: option.split intro: registry_ok_add_system)
next
  case (CallDeleteSystem i)
  then show ?thesis
    by (auto simp: DeleteSystem_def ok split: option.split intro!: registry_ok_drop_system)
next
  case (CallCreate c)
  then show ?thesis
    using registry_ok_insert [OF ok, of "stored_client c"]
    by (auto simp: Client_Create_def Let_def ok split: option.split)
next
  case (CallReplace c)
  with assms(2) obtain s where s: "map_of (systems r) (cl_SystemID (stored_client c)) = Some s"
    by (auto simp: FindSystem_def split: option.splits)
  with CallReplace show ?thesis
    using registry_ok_put_client(2) [OF ok s]
    by (auto simp: Client_Replace_def Let_def ok split: option.split)
next
  case (CallRotateSecret i h)
  then show ?thesis
    by (auto simp: Client_RotateSecret_def Let_def ok split: option.split intro!: registry_ok_update)
next
  case (CallArchive i now)
  then show ?thesis by (auto simp: Archive_def ok split: option.split intro!: registry_ok_update)
next
  case (CallDeleteArchived i)
  then show ?thesis
    by (auto simp: DeleteArchived_def ok split: option.split intro: registry_ok_drop_client)
qed (simp add: registry_ok_replace_system ok)

lemma registry_ok_preload:
  assumes "registry_ok r" and "distinct (map cl_ID items)"
    and "\<And>c. c \<in> set items \<Longrightarrow> map_of (clients r) (cl_ID c) = None"
  shows "registry_ok (preload items r)"
  using assms
proof (induction items arbitrary: r)
  case (Cons c items)
  have "registry_ok ((ensureSystem (stored_client c) r)
      \<lparr>clients := map_put (cl_ID c) (stored_client c) (clients r), order := order r @ [cl_ID c]\<rparr>)"
    using registry_ok_insert [OF Cons.prems(1), of "stored_client c"] Cons.prems(3) by simp
  then show ?case
    using Cons.prems(2,3) by (auto simp: Let_def image_iff intro!: Cons.IH)
qed simp

lemma registry_ok_reachable: "registry_reachable r \<Longrightarrow> registry_ok r"
proof (induction rule: registry_reachable.induct)
  case (initial items)
  then show ?case
    unfolding Client_NewMemoryRepository_def
    by (intro registry_ok_preload) (auto intro: registry_okI)
next
  case (step r op)
  then show ?case by (auto intro: registry_ok_step)
qed

lemma cloneWithSystem_simps [simp]:
  "cl_ID (cloneWithSystem r c) = cl_ID c" "cl_SystemID (cloneWithSystem r c) = cl_SystemID c"
  "cl_ArchivedAt (cloneWithSystem r c) = cl_ArchivedAt c" "cl_Enabled (cloneWithSystem r c) = cl_Enabled c"
  "cl_SecretHash (cloneWithSystem r c) = cl_SecretHash c"
  "cl_IntrospectableBy (cloneWithSystem r c) = cl_IntrospectableBy c"
  by (simp_all add: cloneWithSystem_def split: option.split)

lemma Client_List_found:
  assumes "registry_ok r"
  shows "c \<in> set (Client_List r) \<longleftrightarrow> (\<exists>i. Client_Find i r = Inr c)"
  unfolding Client_List_def Client_Find_def client_at_def
  using registry_okD(2) [OF assms] by (force split: option.splits)

text \<open>The registry stays consistent: in every reachable registry the listing of clients names every
  client once, it shows exactly the clients that can be found, and every client is shown with the
  system it belongs to, which exists and is listed; so a system in use is never deleted.\<close>

lemma registry_consistent:
  assumes "registry_reachable r"
  shows "distinct (map cl_ID (Client_List r))
    \<and> (\<forall>i c. Client_Find i r = Inr c \<longleftrightarrow> c \<in> set (Client_List r) \<and> cl_ID c = i)
    \<and> (\<forall>c \<in> set (Client_List r). \<exists>s. cl_System c = Some s \<and> sy_ID s = cl_SystemID c
         \<and> FindSystem (cl_SystemID c) r = Inr s \<and> s \<in> set (ListSystems r))"
proof -
  from assms have ok: "registry_ok r" by (rule registry_ok_reachable)
  note D = registry_okD [OF ok]
  have ids: "map cl_ID (Client_List r) = order r"
    unfolding Client_List_def using D(2,5) by (auto simp: client_at_def intro!: map_idI split: option.split)
  have found: "cl_ID c = i" if "Client_Find i r = Inr c" for i c
    using that D(5) by (auto simp: Client_Find_def split: option.splits)
  have sys: "\<exists>s. cl_System c = Some s \<and> sy_ID s = cl_SystemID c
      \<and> FindSystem (cl_SystemID c) r = Inr s \<and> s \<in> set (ListSystems r)" if "c \<in> set (Client_List r)" for c
  proof -
    from that obtain i d where d: "map_of (clients r) i = Some d" "c = cloneWithSystem r d"
      unfolding Client_List_found [OF ok] by (auto simp: Client_Find_def split: option.splits)
    from D(6) [OF d(1)] obtain s where s: "map_of (systems r) (cl_SystemID d) = Some s" by blast
    with D(4) have "cl_SystemID d \<in> set (systemOrder r)" by auto
    with s have "s \<in> set (ListSystems r)" by (force simp: ListSystems_def system_at_def)
    with s d(2) D(7) show ?thesis by (simp add: cloneWithSystem_def FindSystem_def)
  qed
  show ?thesis
    using D(1) ids found sys Client_List_found [OF ok] by metis
qed

section \<open>Archiving, deletion and secret rotation\<close>

definition frozen_client :: "string \<Rightarrow> time \<Rightarrow> bytes \<Rightarrow> ClientRepository \<Rightarrow> bool" where
  "frozen_client i t h r =
     (\<exists>c. map_of (clients r) i = Some c \<and> cl_ArchivedAt c = Some t \<and> \<not> cl_Enabled c \<and> cl_SecretHash c = h)"

lemma frozen_client_step:
  assumes "frozen_client i t h r" and "op \<noteq> CallDeleteArchived i"
  shows "frozen_client i t h (snd (client_step r op))"
proof -
  from assms(1) obtain c where c: "map_of (clients r) i = Some c" "cl_ArchivedAt c = Some t"
    "\<not> cl_Enabled c" "cl_SecretHash c = h" by (auto simp: frozen_client_def)
  show ?thesis
    by (cases op) (use c assms(2) in \<open>auto simp: frozen_client_def Create_System_def ReplaceSystem_def
        DeleteSystem_def Client_Create_def Client_Replace_def Client_RotateSecret_def Archive_def
        DeleteArchived_def Let_def split: option.split\<close>)
qed

interpretation frozen: kept_by_steps client_step "\<lambda>op. op \<noteq> CallDeleteArchived i" "frozen_client i t h"
  for i t h
  by unfold_locales (rule frozen_client_step)

text \<open>An archived client is frozen: once \<open>Archive\<close> has run on a live client, then whatever calls follow
  short of its deletion, it stays archived since that time and disabled, its secret hash does not
  change, and both the update and the rotation of its secret are refused.\<close>

lemma archived_client_stays_frozen:
  assumes "Client_Find i r = Inr c" and "cl_ArchivedAt c = None"
    and "list_all (\<lambda>op. op \<noteq> CallDeleteArchived i) ops"
  shows "\<exists>d. Client_Find i (final client_step r (CallArchive i now # ops)) = Inr d
    \<and> cl_ArchivedAt d = Some now \<and> \<not> cl_Enabled d \<and> cl_SecretHash d = cl_SecretHash c
    \<and> Client_Replaced d input = Inl ErrClientArchived
    \<and> Client_RotatedSecret sha256 random d = Inl ErrClientArchived"
proof -
  from assms(1,2) have "frozen_client i now (cl_SecretHash c) (snd (client_step r (CallArchive i now)))"
    by (auto simp: frozen_client_def Archive_def Client_Find_def split: option.splits)
  from frozen.kept_final [OF this assms(3)]
  show ?thesis
    by (auto simp: frozen_client_def Client_Find_def Client_Replaced_def Client_RotatedSecret_def)
qed

lemma Client_Find_drop:
  "Client_Find j (r\<lparr>clients := map_values (\<lambda>_. drop_introspector i) (map_delete i (clients r)), order := os\<rparr>) =
     (if j = i then Inl ErrClientNotFound else map_sum id (drop_introspector i) (Client_Find j r))"
  by (auto simp: Client_Find_def cloneWithSystem_def drop_introspector_def split: option.splits)

lemma DeleteArchived_InrD:
  "DeleteArchived i r = (Inr u, r') \<Longrightarrow>
   r' = r\<lparr>clients := map_values (\<lambda>_. drop_introspector i) (map_delete i (clients r)),
          order := filter (\<lambda>candidate. candidate \<noteq> i) (order r)\<rparr>"
  by (auto simp: DeleteArchived_def split: option.splits if_splits)

text \<open>Deleting an archived client leaves no trace: it is neither found nor listed, and no remaining
  client still lets it introspect tokens; every other client is otherwise as it was. A client that is
  not archived is not deleted.\<close>

lemma deletion_leaves_no_trace:
  assumes "registry_reachable r"
  shows "case DeleteArchived i r of
      (Inl err, r') \<Rightarrow> r' = r \<and> (\<forall>c. Client_Find i r = Inr c \<longrightarrow> cl_ArchivedAt c = None)
    | (Inr _, r') \<Rightarrow> Client_Find i r' = Inl ErrClientNotFound
        \<and> (\<forall>c \<in> set (Client_List r'). cl_ID c \<noteq> i \<and> \<not> AllowsIntrospectionBy c i)
        \<and> (\<forall>j. j \<noteq> i \<longrightarrow> Client_Find j r' = map_sum id (drop_introspector i) (Client_Find j r))"
proof (cases "DeleteArchived i r")
  case (Pair res r')
  from assms have ok: "registry_ok r" by (rule registry_ok_reachable)
  show ?thesis
  proof (cases res)
    case (Inl err)
    with Pair show ?thesis
      by (auto simp: DeleteArchived_def Client_Find_def split: option.splits if_splits)
  next
    case (Inr u)
    note r' = DeleteArchived_InrD [OF Pair [unfolded Inr]]
    have ok': "registry_ok r'" unfolding r' by (rule registry_ok_drop_client [OF ok])
    have "cl_ID c \<noteq> i \<and> \<not> AllowsIntrospectionBy c i" if "c \<in> set (Client_List r')" for c
    proof -
      from that obtain j where "Client_Find j r' = Inr c" unfolding Client_List_found [OF ok'] by blast
      then obtain d where j: "j \<noteq> i" "Client_Find j r = Inr d" "c = drop_introspector i d"
        unfolding r' Client_Find_drop by (cases "Client_Find j r") (auto split: if_splits)
      from j(2) registry_okD(5) [OF ok] have "cl_ID d = j"
        by (auto simp: Client_Find_def split: option.splits)
      with j show ?thesis by (auto simp: AllowsIntrospectionBy_def)
    qed
    with Pair Inr show ?thesis by (simp add: r' Client_Find_drop)
  qed
qed

text \<open>C38: A replacement computed from a client that was read before its secret was rotated brings the old
  secret back: reading the client, rotating its secret and then storing the replacement all succeed,
  and the stored hash is the one from before the rotation.\<close>

theorem stale_replacement_revives_secret:
  assumes "registry_reachable r" and "Client_Find i r = Inr current"
    and "Client_Replaced current input = Inr item"
  shows "\<exists>rotated r1 stored r2. Client_RotateSecret i newHash r = (Inr rotated, r1)
    \<and> cl_SecretHash rotated = newHash
    \<and> Client_Replace item r1 = (Inr stored, r2)
    \<and> Client_Find i r2 = Inr stored
    \<and> cl_SecretHash stored = cl_SecretHash current"
proof -
  from assms(1) have ok: "registry_ok r" by (rule registry_ok_reachable)
  from assms(2) obtain c where c: "map_of (clients r) i = Some c" and cur: "current = cloneWithSystem r c"
    by (auto simp: Client_Find_def split: option.splits)
  from registry_okD(5) [OF ok c] have i: "cl_ID c = i" .
  from assms(3) have live: "cl_ArchivedAt c = None"
    and item: "item = default_scopes (default_cas_version (default_grants (default_auth_method (replaced_item current input))))"
    by (auto simp: Client_Replaced_def Let_def cur split: if_splits sum.splits)
  have "cl_ID item = i" "cl_SecretHash item = cl_SecretHash current"
    by (simp_all add: item defaults_keep replaced_item_def cur i)
  with c live show ?thesis
    by (simp add: Client_RotateSecret_def Client_Replace_def Client_Find_def Let_def cur)
qed


section \<open>Witnesses\<close>

definition demo_input :: CreateClient where
  "demo_input =
     \<lparr>cc_ID = '' App '', cc_SystemID = [], cc_Name = ''App'', cc_Description = [],
      cc_FaviconURL = [], cc_LaunchURI = [], cc_ApplicationType = ApplicationConfidential,
      cc_TokenEndpointAuthMethod = [], cc_Protocols = [], cc_GrantTypes = [],
      cc_RedirectURIs = [''https://a.io/cb''], cc_PostLogoutRedirectURIs = [],
      cc_BackchannelLogoutURI = [], cc_BackchannelLogoutSessionRequired = False,
      cc_LoginMethods = [LoginPassword], cc_IdentitySourceIDs = [], cc_IntrospectableBy = [''rs''],
      cc_AllowedScopes = [], cc_AccessTokenLifetimeSeconds = 0, cc_RefreshTokenLifetimeSeconds = 0,
      cc_CASVersion = [], cc_CASServiceURLs = [], cc_CASProxy = False, cc_CASGateway = False,
      cc_CASRenew = False, cc_CASSingleLogout = False, cc_Enabled = None\<rparr>"

definition demo_update :: ReplaceClient where
  "demo_update =
     \<lparr>rc_SystemID = [], rc_Name = ''App'', rc_Description = [],
      rc_FaviconURL = [], rc_LaunchURI = [],
      rc_TokenEndpointAuthMethod = [], rc_Protocols = [ProtocolOAuth21], rc_GrantTypes = [],
      rc_RedirectURIs = [''https://a.io/cb''], rc_PostLogoutRedirectURIs = [],
      rc_BackchannelLogoutURI = [], rc_BackchannelLogoutSessionRequired = False,
      rc_LoginMethods = [LoginPassword], rc_IdentitySourceIDs = [], rc_IntrospectableBy = [''rs''],
      rc_AllowedScopes = [], rc_AccessTokenLifetimeSeconds = 0, rc_RefreshTokenLifetimeSeconds = 0,
      rc_CASVersion = [], rc_CASServiceURLs = [], rc_CASProxy = False, rc_CASGateway = False,
      rc_CASRenew = False, rc_CASSingleLogout = False, rc_Enabled = None\<rparr>"

definition demo_client :: Client where
  "demo_client = fst (projr (Client_New (\<lambda>b. b) (Some [1, 2, 3]) demo_input))"

definition demo_registry :: ClientRepository where
  "demo_registry = Client_NewMemoryRepository [demo_client]"

lemma demo_client_new:
  "Client_New (\<lambda>b. b) (Some [1, 2, 3]) demo_input = Inr (demo_client, ''AQID'')"
  by code_simp

lemma demo_client_valid: "Client_Validate demo_client = Inr ()"
  by code_simp

lemma demo_client_allows: "AllowsRedirectURI demo_client ''https://a.io/cb''"
  by code_simp

lemma demo_registry_reachable: "registry_reachable demo_registry"
  unfolding demo_registry_def by (rule initial) simp

lemma demo_registry_find:
  "Client_Find ''app'' demo_registry = Inr (cloneWithSystem demo_registry demo_client)"
  by code_simp

lemma demo_client_live: "cl_ArchivedAt (cloneWithSystem demo_registry demo_client) = None"
  by code_simp

lemma demo_client_replaced:
  "Client_Replaced (cloneWithSystem demo_registry demo_client) demo_update = Inr demo_client"
  by code_simp


theorem new_client_sound_witness:
  "Client_Validate demo_client = Inr () \<and> cl_SecretHash demo_client = bytes_of ''AQID''"
proof -
  have "cl_ApplicationType demo_client \<noteq> ApplicationPublic" by code_simp
  then show ?thesis using new_client_sound [OF demo_client_new] by auto
qed

theorem stale_replacement_revives_secret_witness:
  "\<exists>r1 stored r2. snd (Client_RotateSecret ''app'' [9] demo_registry) = r1
    \<and> Client_Replace demo_client r1 = (Inr stored, r2) \<and> cl_SecretHash stored = bytes_of ''AQID''"
proof -
  have "cl_SecretHash (cloneWithSystem demo_registry demo_client) = bytes_of ''AQID''" by code_simp
  then show ?thesis
    using stale_replacement_revives_secret [OF demo_registry_reachable demo_registry_find
        demo_client_replaced, of "[9]"] by fastforce
qed

end
