(* ===== verification/Identity_Users.thy ===== *)
theory Identity_Users
  imports Go_URL "HOL-Library.Product_Lexorder"
begin

text \<open>
  Accounts: \<open>internal/identity/user.go\<close> (validated users, external profiles) and the account part of
  \<open>internal/identity/memory_repository.go\<close> (users, password credentials, external identities,
  reset and verification tokens).

  \<^item> \<open>cloneUser\<close>, \<open>cloneEmail\<close> and \<open>cloneExternalIdentity\<close> copy pointers and are the identity on
    values.
  \<^item> \<open>mail.ParseAddress\<close> is used only to test that an address parses to itself
    (\<open>address.Address == normalized\<close>). That holds exactly for a dot-atom, an at sign and a dot-atom or
    an IP address in brackets: a display name, angle brackets, a comment, white space or a quoted
    local part all give an \<open>Address\<close> shorter than the text. \<open>plain_address\<close> is that test.
  \<^item> The bytes that \<open>rand.Read\<close> gives are arguments, \<open>None\<close> when it fails.
\<close>

section \<open>Data\<close>

datatype identity_error =
    ErrUserNotFound | ErrUserConflict | ErrUserInvalid | ErrExternalIdentityMissing
  | ErrLastAuthentication | ErrInvalidCredentials | ErrCredentialLocked | ErrInvalidResetToken
  | ErrInvalidVerificationToken | ErrEmailAlreadyVerified | ErrEmailNotConfigured
  | ErrPasswordLength | ErrPasswordHash | ErrIdentityRandom

abbreviation UserActive :: string where "UserActive \<equiv> ''active''"
abbreviation UserLocked :: string where "UserLocked \<equiv> ''locked''"
abbreviation UserDisabled :: string where "UserDisabled \<equiv> ''disabled''"

record User =
  us_ID :: string
  us_Username :: string
  us_DisplayName :: string
  us_Email :: "string option"
  us_EmailVerified :: bool
  us_Status :: string
  us_CreatedAt :: time
  us_UpdatedAt :: time

record CreateUser =
  cu_Username :: string
  cu_DisplayName :: string
  cu_Email :: "string option"
  cu_Status :: string

record ReplaceUser =
  ru_DisplayName :: string
  ru_Email :: "string option"
  ru_Status :: string

record UserFilter =
  uf_Query :: string
  uf_Status :: string
  uf_Limit :: int
  uf_Offset :: int

record UserPage =
  up_Items :: "User list"
  up_Total :: int
  up_Limit :: int
  up_Offset :: int

record ExternalProfile =
  ep_ProviderID :: string
  ep_Subject :: string
  ep_Username :: string
  ep_DisplayName :: string
  ep_Email :: "string option"
  ep_EmailTrusted :: bool
  ep_EmailVerified :: bool

record ExternalIdentity =
  ei_ID :: string
  ei_UserID :: string
  ei_ProviderID :: string
  ei_Subject :: string
  ei_Username :: string
  ei_DisplayName :: string
  ei_Email :: "string option"
  ei_EmailTrusted :: bool
  ei_EmailVerified :: bool
  ei_CreatedAt :: time
  ei_LastAuthenticatedAt :: time

record PasswordCredential =
  pc_UserID :: string
  pc_Hash :: string
  pc_FailedAttempts :: int
  pc_LockedUntil :: "time option"

record PasswordResetToken =
  pr_UserID :: string
  pr_Hash :: bytes
  pr_CreatedAt :: time
  pr_ExpiresAt :: time

record EmailVerificationToken =
  et_UserID :: string
  et_Email :: string
  et_Hash :: bytes
  et_CreatedAt :: time
  et_ExpiresAt :: time

record PasswordMigrationRecord =
  mr_User :: User
  mr_PasswordHash :: string

record UserRepository =
  users :: "(string, User) gomap"
  credentials :: "(string, PasswordCredential) gomap"
  external :: "(string, ExternalIdentity) gomap"
  passwordResets :: "(string, PasswordResetToken) gomap"
  emailVerifies :: "(string, EmailVerificationToken) gomap"

section \<open>Users\<close>

text \<open>\<open>^[a-z0-9][a-z0-9._-]{2,63}$\<close> and the pattern of version-4 UUIDs.\<close>

definition username_char :: "char \<Rightarrow> bool" where
  "username_char c = (is_lower c \<or> is_digit c \<or> c \<in> set ''._-'')"

definition usernamePattern :: "string \<Rightarrow> bool" where
  "usernamePattern s = (case s of [] \<Rightarrow> False
     | c # t \<Rightarrow> (is_lower c \<or> is_digit c) \<and> list_all username_char t \<and> 2 \<le> length t \<and> length t \<le> 63)"

definition lower_hex_char :: "char \<Rightarrow> bool" where
  "lower_hex_char c = (is_digit c \<or> (97 \<le> char_code c \<and> char_code c \<le> 102))"

definition ValidUserID :: "string \<Rightarrow> bool" where
  "ValidUserID s =
     (case Split (CHR ''-'') s of
        [a, b, c, d, e] \<Rightarrow>
          list_all lower_hex_char (a @ b @ c @ d @ e) \<and>
          map length [a, b, c, d, e] = [8, 4, 4, 4, 12] \<and>
          hd c = CHR ''4'' \<and> hd d \<in> set ''89ab''
      | _ \<Rightarrow> False)"

definition Status_Valid :: "string \<Rightarrow> bool" where
  "Status_Valid s = (s = UserActive \<or> s = UserLocked \<or> s = UserDisabled)"

definition atext :: "char \<Rightarrow> bool" where
  "atext c = (33 \<le> char_code c \<and> char_code c \<le> 126 \<and>
     c \<notin> set ''()<>[]:;@,.'' \<and> char_code c \<noteq> 34 \<and> char_code c \<noteq> 92)"

text \<open>A run of atom characters and well-formed UTF-8 sequences.\<close>

fun atom_text :: "string \<Rightarrow> bool" where
  "atom_text [] = True"
| "atom_text (c # cs) =
     (if atext c then atom_text cs
      else char_code c \<ge> 128 \<and> rune_extra c cs > 0 \<and> atom_text (drop (rune_extra c cs) cs))"

definition dot_atom :: "string \<Rightarrow> bool" where
  "dot_atom s = (let parts = Split (CHR ''.'') s in [] \<notin> set parts \<and> list_all atom_text parts)"

definition plain_address :: "string \<Rightarrow> bool" where
  "plain_address s =
     (case Cut (CHR ''@'') s of
        None \<Rightarrow> False
      | Some (local, domain) \<Rightarrow>
          dot_atom local \<and>
          (dot_atom domain \<or>
           (HasPrefix domain ''['' \<and> last domain = CHR '']'' \<and> ParseIP (butlast (tl domain)) \<noteq> None)))"

definition normalizeEmail :: "string option \<Rightarrow> identity_error + string option" where
  "normalizeEmail v =
     (case v of
        None \<Rightarrow> Inr None
      | Some raw \<Rightarrow>
          if TrimSpace raw = [] then Inr None
          else let normalized = ToLower (TrimSpace raw)
               in if length normalized > 320 then Inl ErrUserInvalid
                  else if \<not> plain_address normalized then Inl ErrUserInvalid
                  else Inr (Some normalized))"

definition NewUser :: "bytes option \<Rightarrow> CreateUser \<Rightarrow> time \<Rightarrow> identity_error + User" where
  "NewUser random input now =
     (let username = ToLower (TrimSpace (cu_Username input));
          displayName = TrimSpace (cu_DisplayName input)
      in case normalizeEmail (cu_Email input) of
           Inl err \<Rightarrow> Inl err
         | Inr email \<Rightarrow>
             let status = (if cu_Status input = [] then UserActive else cu_Status input)
             in if \<not> usernamePattern username then Inl ErrUserInvalid
                else if displayName = [] \<or> rune_count displayName > 128 then Inl ErrUserInvalid
                else if \<not> Status_Valid status then Inl ErrUserInvalid
                else (case RandomUUID random of
                        Inl _ \<Rightarrow> Inl ErrIdentityRandom
                      | Inr uid \<Rightarrow>
                          Inr \<lparr>us_ID = uid, us_Username = username, us_DisplayName = displayName,
                               us_Email = email, us_EmailVerified = False, us_Status = status,
                               us_CreatedAt = now, us_UpdatedAt = now\<rparr>))"

definition same_email :: "string option \<Rightarrow> string option \<Rightarrow> bool" where
  "same_email a b = (case (a, b) of (Some x, Some y) \<Rightarrow> EqualFold x y | _ \<Rightarrow> False)"

definition User_Replaced :: "User \<Rightarrow> ReplaceUser \<Rightarrow> time \<Rightarrow> identity_error + User" where
  "User_Replaced current input now =
     (let displayName = TrimSpace (ru_DisplayName input)
      in if displayName = [] \<or> rune_count displayName > 128 then Inl ErrUserInvalid
         else case normalizeEmail (ru_Email input) of
             Inl err \<Rightarrow> Inl err
           | Inr email \<Rightarrow>
               let verified = (if \<not> same_email (us_Email current) email then False else us_EmailVerified current)
               in if \<not> Status_Valid (ru_Status input) then Inl ErrUserInvalid
                  else Inr (current\<lparr>us_EmailVerified := verified, us_DisplayName := displayName,
                              us_Email := email, us_Status := ru_Status input, us_UpdatedAt := now\<rparr>))"

text \<open>\<open>unsupportedUsernameCharacters.ReplaceAllString(username, "-")\<close>: one hyphen per maximal run.\<close>

fun replace_unsupported :: "bool \<Rightarrow> string \<Rightarrow> string" where
  "replace_unsupported in_run [] = []"
| "replace_unsupported in_run (c # cs) =
     (if username_char c then c # replace_unsupported False cs
      else if in_run then replace_unsupported True cs
      else CHR ''-'' # replace_unsupported True cs)"

text \<open>\<open>strings.Trim(s, "._-")\<close>.\<close>

definition trim_marks :: "string \<Rightarrow> string" where
  "trim_marks s =
     rev (dropWhile (\<lambda>c. c \<in> set ''._-'') (rev (dropWhile (\<lambda>c. c \<in> set ''._-'') s)))"

definition external_username :: "(bytes \<Rightarrow> bytes) \<Rightarrow> ExternalProfile \<Rightarrow> bool \<Rightarrow> string" where
  "external_username sha256 profile disambiguate =
     (let u1 = trim_marks (replace_unsupported False (ToLower (TrimSpace (ep_Username profile))));
          u2 = (if u1 = [] then ''user'' else u1);
          u3 = (if length u2 > 54 then take 54 u2 else u2);
          u4 = (if disambiguate
                then u3 @ ''-'' @ hex_EncodeToString (take 4 (sha256
                       (bytes_of (ep_ProviderID profile @ [CHR 0x00] @ ep_Subject profile))))
                else u3)
      in u4 @ replicate (3 - length u4) (CHR ''0''))"

definition NewExternalUser ::
  "(bytes \<Rightarrow> bytes) \<Rightarrow> bytes option \<Rightarrow> ExternalProfile \<Rightarrow> bool \<Rightarrow> time \<Rightarrow> identity_error + User" where
  "NewExternalUser sha256 random profile disambiguate now =
     (if TrimSpace (ep_ProviderID profile) = [] \<or> TrimSpace (ep_Subject profile) = []
      then Inl ErrUserInvalid
      else let username = external_username sha256 profile disambiguate;
               d1 = TrimSpace (ep_DisplayName profile);
               d2 = (if d1 = [] then ep_Username profile else d1);
               d3 = (if d2 = [] then username else d2)
           in case NewUser random \<lparr>cu_Username = username, cu_DisplayName = d3,
                                   cu_Email = ep_Email profile, cu_Status = UserActive\<rparr> now of
                Inl err \<Rightarrow> Inl err
              | Inr user \<Rightarrow>
                  Inr (user\<lparr>us_EmailVerified := (ep_EmailVerified profile \<and> us_Email user \<noteq> None)\<rparr>))"

section \<open>The repository: users\<close>

fun put_users :: "User list \<Rightarrow> (string, User) gomap \<Rightarrow> (string, User) gomap" where
  "put_users [] m = m"
| "put_users (u # us) m = put_users us (map_put (us_ID u) u m)"

definition NewMemoryUserRepository :: "User list \<Rightarrow> UserRepository" where
  "NewMemoryUserRepository us =
     \<lparr>users = put_users us [], credentials = [], external = [], passwordResets = [], emailVerifies = []\<rparr>"

definition clashes :: "User \<Rightarrow> User \<Rightarrow> bool" where
  "clashes user existing =
     (EqualFold (us_Username existing) (us_Username user) \<or> same_email (us_Email existing) (us_Email user))"

definition User_Find :: "string \<Rightarrow> UserRepository \<Rightarrow> identity_error + User" where
  "User_Find i r = (case map_of (users r) i of None \<Rightarrow> Inl ErrUserNotFound | Some u \<Rightarrow> Inr u)"

definition FindByUsername :: "string \<Rightarrow> UserRepository \<Rightarrow> identity_error + User" where
  "FindByUsername username r =
     (case find (\<lambda>u. EqualFold (us_Username u) username) (map snd (users r)) of
        None \<Rightarrow> Inl ErrUserNotFound | Some u \<Rightarrow> Inr u)"

definition user_selected :: "UserFilter \<Rightarrow> User \<Rightarrow> bool" where
  "user_selected f u =
     (let query = ToLower (TrimSpace (uf_Query f)) in
      \<not> (uf_Status f \<noteq> [] \<and> us_Status u \<noteq> uf_Status f) \<and>
      \<not> (query \<noteq> [] \<and> \<not> Contains_str (ToLower (us_Username u)) query \<and>
         \<not> Contains_str (ToLower (us_DisplayName u)) query \<and>
         (case us_Email u of None \<Rightarrow> True | Some e \<Rightarrow> \<not> Contains_str (ToLower e) query)))"

definition User_List :: "UserFilter \<Rightarrow> UserRepository \<Rightarrow> UserPage option" where
  "User_List f r =
     (let matches = sort_key (\<lambda>u. (- us_CreatedAt u, us_ID u)) (filter (user_selected f) (map snd (users r)));
          total = int (length matches);
          start = min (uf_Offset f) total;
          end' = min (wrap64 (start + uf_Limit f)) total
      in map_option (\<lambda>page. \<lparr>up_Items = page, up_Total = total, up_Limit = uf_Limit f,
                             up_Offset = uf_Offset f\<rparr>) (slice matches start end'))"

definition User_Create :: "User \<Rightarrow> UserRepository \<Rightarrow> (identity_error + User) \<times> UserRepository" where
  "User_Create user r =
     (if list_ex (clashes user) (map snd (users r)) then (Inl ErrUserConflict, r)
      else (Inr user, r\<lparr>users := map_put (us_ID user) user (users r)\<rparr>))"

definition CreateWithPassword ::
  "User \<Rightarrow> string \<Rightarrow> UserRepository \<Rightarrow> (identity_error + User) \<times> UserRepository" where
  "CreateWithPassword user hash r =
     (if list_ex (clashes user) (map snd (users r)) then (Inl ErrUserConflict, r)
      else case map_of (users r) (us_ID user) of
          Some _ \<Rightarrow> (Inl ErrUserConflict, r)
        | None \<Rightarrow>
            (Inr user, r\<lparr>users := map_put (us_ID user) user (users r),
               credentials := map_put (us_ID user) \<lparr>pc_UserID = us_ID user, pc_Hash = hash,
                 pc_FailedAttempts = 0, pc_LockedUntil = None\<rparr> (credentials r)\<rparr>))"

text \<open>The first loop of \<open>CreateWithMigratedPasswords\<close> collects names, emails and identifiers; \<open>True\<close> when
  no record conflicts. The second loop stores.\<close>

fun migration_free :: "string list \<Rightarrow> string list \<Rightarrow> string list \<Rightarrow> PasswordMigrationRecord list \<Rightarrow> bool" where
  "migration_free usernames emails ids [] = True"
| "migration_free usernames emails ids (m # ms) =
     (let user = mr_User m; username = ToLower (us_Username user) in
      if username \<in> set usernames then False
      else if us_ID user \<in> set ids then False
      else case us_Email user of
          None \<Rightarrow> migration_free (username # usernames) emails (us_ID user # ids) ms
        | Some e \<Rightarrow>
            if ToLower e \<in> set emails then False
            else migration_free (username # usernames) (ToLower e # emails) (us_ID user # ids) ms)"

fun store_migrated :: "PasswordMigrationRecord list \<Rightarrow> UserRepository \<Rightarrow> UserRepository" where
  "store_migrated [] r = r"
| "store_migrated (m # ms) r =
     (let i = us_ID (mr_User m) in
      store_migrated ms (r\<lparr>users := map_put i (mr_User m) (users r),
        credentials := map_put i \<lparr>pc_UserID = i, pc_Hash = mr_PasswordHash m,
          pc_FailedAttempts = 0, pc_LockedUntil = None\<rparr> (credentials r)\<rparr>))"

definition CreateWithMigratedPasswords ::
  "PasswordMigrationRecord list \<Rightarrow> UserRepository \<Rightarrow> (identity_error + User list) \<times> UserRepository" where
  "CreateWithMigratedPasswords records r =
     (let existing = map snd (users r) in
      if migration_free (map (\<lambda>u. ToLower (us_Username u)) existing)
           (List.map_filter (\<lambda>u. map_option ToLower (us_Email u)) existing) (map us_ID existing) records
      then (Inr (map mr_User records), store_migrated records r)
      else (Inl ErrUserConflict, r))"

definition User_Replace :: "User \<Rightarrow> UserRepository \<Rightarrow> (identity_error + User) \<times> UserRepository" where
  "User_Replace user0 r =
     (case map_of (users r) (us_ID user0) of
        None \<Rightarrow> (Inl ErrUserNotFound, r)
      | Some current \<Rightarrow>
          let user = (if \<not> same_email (us_Email current) (us_Email user0)
                      then user0\<lparr>us_EmailVerified := False\<rparr> else user0)
          in if list_ex (\<lambda>(i, existing). i \<noteq> us_ID user \<and> same_email (us_Email existing) (us_Email user)) (users r)
             then (Inl ErrUserConflict, r)
             else (Inr user, r\<lparr>users := map_put (us_ID user) user (users r)\<rparr>))"

definition SetEmailVerified ::
  "string \<Rightarrow> time \<Rightarrow> UserRepository \<Rightarrow> (identity_error + User) \<times> UserRepository" where
  "SetEmailVerified userID now r =
     (case map_of (users r) userID of
        None \<Rightarrow> (Inl ErrUserNotFound, r)
      | Some user0 \<Rightarrow>
          let user = user0\<lparr>us_EmailVerified := True, us_UpdatedAt := now\<rparr>
          in (Inr user, r\<lparr>users := map_put userID user (users r)\<rparr>))"

section \<open>The repository: external identities\<close>

definition newExternalIdentity ::
  "bytes option \<Rightarrow> string \<Rightarrow> ExternalProfile \<Rightarrow> time \<Rightarrow> identity_error + ExternalIdentity" where
  "newExternalIdentity random userID profile now =
     (case RandomUUID random of
        Inl _ \<Rightarrow> Inl ErrIdentityRandom
      | Inr eid \<Rightarrow>
          Inr \<lparr>ei_ID = eid, ei_UserID = userID, ei_ProviderID = TrimSpace (ep_ProviderID profile),
               ei_Subject = TrimSpace (ep_Subject profile), ei_Username = TrimSpace (ep_Username profile),
               ei_DisplayName = TrimSpace (ep_DisplayName profile), ei_Email = ep_Email profile,
               ei_EmailTrusted = ep_EmailTrusted profile, ei_EmailVerified = ep_EmailVerified profile,
               ei_CreatedAt = now, ei_LastAuthenticatedAt = now\<rparr>)"

definition external_key :: "ExternalProfile \<Rightarrow> string" where
  "external_key profile = ep_ProviderID profile @ [CHR 0x00] @ ep_Subject profile"

text \<open>The three ways \<open>ResolveExternalIdentity\<close> finds a user: a known identity, an account with the same
  trusted email, a new account. Each takes its own random bytes.\<close>

definition resolve_known ::
  "ExternalIdentity \<Rightarrow> ExternalProfile \<Rightarrow> time \<Rightarrow> UserRepository \<Rightarrow> (identity_error + User) \<times> UserRepository" where
  "resolve_known known profile now r =
     (case map_of (users r) (ei_UserID known) of
        None \<Rightarrow> (Inl ErrUserNotFound, r)
      | Some user0 \<Rightarrow>
          let known' = known\<lparr>ei_Username := TrimSpace (ep_Username profile),
                ei_DisplayName := TrimSpace (ep_DisplayName profile), ei_Email := ep_Email profile,
                ei_EmailTrusted := ep_EmailTrusted profile, ei_EmailVerified := ep_EmailVerified profile,
                ei_LastAuthenticatedAt := now\<rparr>;
              r1 = r\<lparr>external := map_put (external_key profile) known' (external r)\<rparr>
          in if ep_EmailVerified profile \<and> same_email (us_Email user0) (ep_Email profile) \<and>
                \<not> us_EmailVerified user0
             then let user = user0\<lparr>us_EmailVerified := True, us_UpdatedAt := now\<rparr>
                  in (Inr user, r1\<lparr>users := map_put (us_ID user) user (users r1)\<rparr>)
             else (Inr user0, r1))"

definition resolve_linked ::
  "bytes option \<Rightarrow> User \<Rightarrow> ExternalProfile \<Rightarrow> time \<Rightarrow> UserRepository \<Rightarrow> (identity_error + User) \<times> UserRepository" where
  "resolve_linked random existing0 profile now r =
     (let mark = ep_EmailVerified profile \<and> \<not> us_EmailVerified existing0;
          existing = (if mark then existing0\<lparr>us_EmailVerified := True, us_UpdatedAt := now\<rparr> else existing0);
          r1 = (if mark then r\<lparr>users := map_put (us_ID existing) existing (users r)\<rparr> else r)
      in case newExternalIdentity random (us_ID existing) profile now of
           Inl err \<Rightarrow> (Inl err, r1)
         | Inr ext \<Rightarrow> (Inr existing, r1\<lparr>external := map_put (external_key profile) ext (external r1)\<rparr>))"

definition external_candidate ::
  "(bytes \<Rightarrow> bytes) \<Rightarrow> bytes option \<Rightarrow> bytes option \<Rightarrow> ExternalProfile \<Rightarrow> time \<Rightarrow> UserRepository \<Rightarrow>
   identity_error + User" where
  "external_candidate sha256 random1 random2 profile now r =
     (case NewExternalUser sha256 random1 profile False now of
        Inl err \<Rightarrow> Inl err
      | Inr user \<Rightarrow>
          if list_ex (clashes user) (map snd (users r)) then NewExternalUser sha256 random2 profile True now
          else Inr user)"

definition resolve_new ::
  "bytes option \<Rightarrow> User \<Rightarrow> ExternalProfile \<Rightarrow> time \<Rightarrow> UserRepository \<Rightarrow> (identity_error + User) \<times> UserRepository" where
  "resolve_new random user profile now r =
     (if list_ex (clashes user) (map snd (users r)) then (Inl ErrUserConflict, r)
      else case map_of (users r) (us_ID user) of
          Some _ \<Rightarrow> (Inl ErrUserConflict, r)
        | None \<Rightarrow>
            (case newExternalIdentity random (us_ID user) profile now of
               Inl err \<Rightarrow> (Inl err, r\<lparr>users := map_delete (us_ID user) (map_put (us_ID user) user (users r))\<rparr>)
             | Inr ext \<Rightarrow>
                 (Inr user, r\<lparr>users := map_put (us_ID user) user (users r),
                              external := map_put (external_key profile) ext (external r)\<rparr>)))"

definition ResolveExternalIdentity ::
  "(bytes \<Rightarrow> bytes) \<Rightarrow> bytes option \<Rightarrow> bytes option \<Rightarrow> bytes option \<Rightarrow> ExternalProfile \<Rightarrow> time \<Rightarrow>
   UserRepository \<Rightarrow> (identity_error + User) \<times> UserRepository" where
  "ResolveExternalIdentity sha256 random1 random2 random3 profile now r =
     (case map_of (external r) (external_key profile) of
        Some known \<Rightarrow> resolve_known known profile now r
      | None \<Rightarrow>
          (case (if ep_EmailTrusted profile
                 then find (\<lambda>u. same_email (us_Email u) (ep_Email profile)) (map snd (users r)) else None) of
             Some existing \<Rightarrow> resolve_linked random3 existing profile now r
           | None \<Rightarrow>
               (case external_candidate sha256 random1 random2 profile now r of
                  Inl err \<Rightarrow> (Inl err, r)
                | Inr user \<Rightarrow> resolve_new random3 user profile now r)))"

definition ListExternalIdentities :: "string \<Rightarrow> UserRepository \<Rightarrow> identity_error + ExternalIdentity list" where
  "ListExternalIdentities userID r =
     (case map_of (users r) userID of
        None \<Rightarrow> Inl ErrUserNotFound
      | Some _ \<Rightarrow> Inr (sort_key (\<lambda>e. (ei_CreatedAt e, ei_ID e))
                        (filter (\<lambda>e. ei_UserID e = userID) (map snd (external r)))))"

definition DeleteExternalIdentity ::
  "string \<Rightarrow> string \<Rightarrow> UserRepository \<Rightarrow> (identity_error + unit) \<times> UserRepository" where
  "DeleteExternalIdentity userID externalIdentityID r =
     (case map_of (users r) userID of
        None \<Rightarrow> (Inl ErrUserNotFound, r)
      | Some _ \<Rightarrow>
          (case find (\<lambda>(key, e). ei_ID e = externalIdentityID \<and> ei_UserID e = userID) (external r) of
             None \<Rightarrow> (Inl ErrExternalIdentityMissing, r)
           | Some (targetKey, _) \<Rightarrow>
               if targetKey = [] then (Inl ErrExternalIdentityMissing, r)
               else
                 let alternatives =
                       (case map_of (credentials r) userID of Some _ \<Rightarrow> 1 | None \<Rightarrow> 0) +
                       length (filter (\<lambda>(key, e). key \<noteq> targetKey \<and> ei_UserID e = userID) (external r))
                 in if alternatives = 0 then (Inl ErrLastAuthentication, r)
                    else (Inr (), r\<lparr>external := map_delete targetKey (external r)\<rparr>)))"

section \<open>The repository: one-time tokens\<close>

definition SavePasswordReset ::
  "PasswordResetToken \<Rightarrow> UserRepository \<Rightarrow> (identity_error + unit) \<times> UserRepository" where
  "SavePasswordReset token r =
     (case map_of (users r) (pr_UserID token) of
        None \<Rightarrow> (Inl ErrUserNotFound, r)
      | Some _ \<Rightarrow>
          (Inr (), r\<lparr>passwordResets := map_put (string_of (pr_Hash token)) token
             (map_keep (\<lambda>_ current. pr_UserID current \<noteq> pr_UserID token) (passwordResets r))\<rparr>))"

definition ConsumePasswordReset ::
  "bytes \<Rightarrow> time \<Rightarrow> UserRepository \<Rightarrow> (identity_error + string) \<times> UserRepository" where
  "ConsumePasswordReset hash now r =
     (case find (\<lambda>(key, token). pr_Hash token = hash \<and> now < pr_ExpiresAt token) (passwordResets r) of
        None \<Rightarrow> (Inl ErrInvalidResetToken, r)
      | Some (key, token) \<Rightarrow>
          (Inr (pr_UserID token), r\<lparr>passwordResets := map_delete key (passwordResets r)\<rparr>))"

definition SaveEmailVerification ::
  "EmailVerificationToken \<Rightarrow> UserRepository \<Rightarrow> (identity_error + unit) \<times> UserRepository" where
  "SaveEmailVerification token r =
     (case map_of (users r) (et_UserID token) of
        None \<Rightarrow> (Inl ErrUserNotFound, r)
      | Some _ \<Rightarrow>
          (Inr (), r\<lparr>emailVerifies := map_put (string_of (et_Hash token)) token
             (map_keep (\<lambda>_ current. et_UserID current \<noteq> et_UserID token) (emailVerifies r))\<rparr>))"

definition VerifyEmail ::
  "bytes \<Rightarrow> string \<Rightarrow> time \<Rightarrow> UserRepository \<Rightarrow> (identity_error + string) \<times> UserRepository" where
  "VerifyEmail hash userID now r =
     (case find (\<lambda>(key, token). et_Hash token = hash \<and> et_UserID token = userID \<and> now < et_ExpiresAt token)
             (emailVerifies r) of
        None \<Rightarrow> (Inl ErrInvalidVerificationToken, r)
      | Some (key, token) \<Rightarrow>
          (case map_of (users r) userID of
             None \<Rightarrow> (Inl ErrInvalidVerificationToken, r)
           | Some user \<Rightarrow>
               if \<not> same_email (us_Email user) (Some (et_Email token)) then (Inl ErrInvalidVerificationToken, r)
               else (Inr userID,
                     r\<lparr>emailVerifies := map_delete key (emailVerifies r),
                       users := map_put userID (user\<lparr>us_EmailVerified := True, us_UpdatedAt := now\<rparr>) (users r)\<rparr>)))"

section \<open>The repository: password credentials\<close>

definition SetPassword :: "string \<Rightarrow> string \<Rightarrow> UserRepository \<Rightarrow> (identity_error + unit) \<times> UserRepository" where
  "SetPassword userID hash r =
     (case map_of (users r) userID of
        None \<Rightarrow> (Inl ErrUserNotFound, r)
      | Some _ \<Rightarrow>
          (Inr (), r\<lparr>credentials := map_put userID \<lparr>pc_UserID = userID, pc_Hash = hash,
             pc_FailedAttempts = 0, pc_LockedUntil = None\<rparr> (credentials r)\<rparr>))"

definition FindPasswordByUsername ::
  "string \<Rightarrow> UserRepository \<Rightarrow> identity_error + User \<times> PasswordCredential" where
  "FindPasswordByUsername username r =
     (case find (\<lambda>u. EqualFold (us_Username u) username) (map snd (users r)) of
        None \<Rightarrow> Inl ErrUserNotFound
      | Some user \<Rightarrow>
          (case map_of (credentials r) (us_ID user) of
             None \<Rightarrow> Inl ErrUserNotFound
           | Some credential \<Rightarrow> Inr (user, credential)))"

text \<open>A zero \<open>lockedUntil\<close> leaves an earlier lock in place.\<close>

definition RecordPasswordFailure ::
  "string \<Rightarrow> int \<Rightarrow> time \<Rightarrow> UserRepository \<Rightarrow> (identity_error + unit) \<times> UserRepository" where
  "RecordPasswordFailure userID attempts lockedUntil r =
     (case map_of (credentials r) userID of
        None \<Rightarrow> (Inl ErrUserNotFound, r)
      | Some credential0 \<Rightarrow>
          let credential1 = credential0\<lparr>pc_FailedAttempts := attempts\<rparr>;
              credential = (if lockedUntil \<noteq> 0 then credential1\<lparr>pc_LockedUntil := Some lockedUntil\<rparr>
                            else credential1)
          in (Inr (), r\<lparr>credentials := map_put userID credential (credentials r)\<rparr>))"

definition RecordPasswordSuccess ::
  "string \<Rightarrow> UserRepository \<Rightarrow> (identity_error + unit) \<times> UserRepository" where
  "RecordPasswordSuccess userID r =
     (case map_of (credentials r) userID of
        None \<Rightarrow> (Inl ErrUserNotFound, r)
      | Some credential \<Rightarrow>
          (Inr (), r\<lparr>credentials := map_put userID
             (credential\<lparr>pc_FailedAttempts := 0, pc_LockedUntil := None\<rparr>) (credentials r)\<rparr>))"

end
