(* ===== verification/Identity_Accounts.thy ===== *)
theory Identity_Accounts
  imports Identity_Users
begin

text \<open>
  Properties of the account repository of \<^theory_text>\<open>Identity_Users\<close> over all sequences of its calls: accounts
  stay unique, no user loses the last way to sign in, reset tokens are used once, and email addresses
  are verified as promised.
\<close>

section \<open>Calls\<close>

datatype identity_call =
    CallUserCreate User | CallCreateWithPassword User string
  | CallCreateMigrated "PasswordMigrationRecord list" | CallUserReplace User
  | CallSetEmailVerified string time
  | CallResolve "bytes \<Rightarrow> bytes" "bytes option" "bytes option" "bytes option" ExternalProfile time
  | CallDeleteExternal string string
  | CallSaveReset PasswordResetToken | CallConsumeReset bytes time
  | CallSaveVerification EmailVerificationToken | CallVerifyEmail bytes string time
  | CallSetPassword string string | CallRecordFailure string int time | CallRecordSuccess string

datatype identity_result =
    ResUser "identity_error + User" | ResUsers "identity_error + User list"
  | ResID "identity_error + string" | ResDone "identity_error + unit"

fun identity_step :: "UserRepository \<Rightarrow> identity_call \<Rightarrow> identity_result \<times> UserRepository" where
  "identity_step r (CallUserCreate u) = apfst ResUser (User_Create u r)"
| "identity_step r (CallCreateWithPassword u h) = apfst ResUser (CreateWithPassword u h r)"
| "identity_step r (CallCreateMigrated ms) = apfst ResUsers (CreateWithMigratedPasswords ms r)"
| "identity_step r (CallUserReplace u) = apfst ResUser (User_Replace u r)"
| "identity_step r (CallSetEmailVerified i now) = apfst ResUser (SetEmailVerified i now r)"
| "identity_step r (CallResolve sha256 r1 r2 r3 p now) =
     apfst ResUser (ResolveExternalIdentity sha256 r1 r2 r3 p now r)"
| "identity_step r (CallDeleteExternal i e) = apfst ResDone (DeleteExternalIdentity i e r)"
| "identity_step r (CallSaveReset t) = apfst ResDone (SavePasswordReset t r)"
| "identity_step r (CallConsumeReset h now) = apfst ResID (ConsumePasswordReset h now r)"
| "identity_step r (CallSaveVerification t) = apfst ResDone (SaveEmailVerification t r)"
| "identity_step r (CallVerifyEmail h i now) = apfst ResID (VerifyEmail h i now r)"
| "identity_step r (CallSetPassword i h) = apfst ResDone (SetPassword i h r)"
| "identity_step r (CallRecordFailure i n until) = apfst ResDone (RecordPasswordFailure i n until r)"
| "identity_step r (CallRecordSuccess i) = apfst ResDone (RecordPasswordSuccess i r)"

text \<open>\<open>Replace\<close> (the constructor of a replaced user) never changes the username, so the service replaces
  users under their own name only.\<close>

fun identity_admissible :: "UserRepository \<Rightarrow> identity_call \<Rightarrow> bool" where
  "identity_admissible r (CallUserReplace u) =
     (case map_of (users r) (us_ID u) of None \<Rightarrow> True | Some v \<Rightarrow> us_Username u = us_Username v)"
| "identity_admissible r op = True"

inductive identity_reachable :: "UserRepository \<Rightarrow> bool" where
  initial: "identity_reachable (NewMemoryUserRepository [])"
| step: "identity_reachable r \<Longrightarrow> identity_admissible r op \<Longrightarrow> identity_reachable (snd (identity_step r op))"

section \<open>Accounts are unique\<close>

lemma same_email_sym: "same_email a b = same_email b a"
  by (cases a; cases b) (auto simp: same_email_def EqualFold_def)

lemma clashes_sym: "clashes u v = clashes v u"
  by (auto simp: clashes_def EqualFold_def same_email_sym)

definition accounts_ok :: "UserRepository \<Rightarrow> bool" where
  "accounts_ok r =
     (gomap_ok (users r) \<and>
      (\<forall>i u. map_of (users r) i = Some u \<longrightarrow> us_ID u = i) \<and>
      (\<forall>i u j v. map_of (users r) i = Some u \<longrightarrow> map_of (users r) j = Some v \<longrightarrow> i \<noteq> j \<longrightarrow> \<not> clashes u v))"

lemma accounts_okI:
  assumes "gomap_ok (users r)" "\<And>i u. map_of (users r) i = Some u \<Longrightarrow> us_ID u = i"
    "\<And>i u j v. map_of (users r) i = Some u \<Longrightarrow> map_of (users r) j = Some v \<Longrightarrow> i \<noteq> j \<Longrightarrow> \<not> clashes u v"
  shows "accounts_ok r"
  using assms by (auto simp: accounts_ok_def)

lemma accounts_okD:
  assumes "accounts_ok r"
  shows "gomap_ok (users r)" "map_of (users r) i = Some u \<Longrightarrow> us_ID u = i"
    "map_of (users r) i = Some u \<Longrightarrow> map_of (users r) j = Some v \<Longrightarrow> i \<noteq> j \<Longrightarrow> \<not> clashes u v"
  using assms by (auto simp: accounts_ok_def)

lemma accounts_ok_cong: "users r = users r' \<Longrightarrow> accounts_ok r = accounts_ok r'"
  by (simp add: accounts_ok_def)

lemma accounts_ok_put:
  assumes ok: "accounts_ok r"
    and free: "\<And>j v. map_of (users r) j = Some v \<Longrightarrow> j \<noteq> us_ID u \<Longrightarrow> \<not> clashes u v"
    and users: "users r' = map_put (us_ID u) u (users r)"
  shows "accounts_ok r'"
proof (rule accounts_okI)
  show "gomap_ok (users r')" by (simp add: users accounts_okD(1) [OF ok])
next
  fix i w assume "map_of (users r') i = Some w"
  then show "us_ID w = i" by (auto simp: users accounts_okD(2) [OF ok] split: if_splits)
next
  fix i v j w
  assume "map_of (users r') i = Some v" "map_of (users r') j = Some w" "i \<noteq> j"
  then consider "v = u" "map_of (users r) j = Some w" "j \<noteq> us_ID u"
    | "w = u" "map_of (users r) i = Some v" "i \<noteq> us_ID u"
    | "map_of (users r) i = Some v" "map_of (users r) j = Some w"
    unfolding users map_of_put by (metis option.inject)
  then show "\<not> clashes v w"
    using free accounts_okD(3) [OF ok] \<open>i \<noteq> j\<close> clashes_sym by cases blast+
qed

lemma not_list_ex_clash:
  "\<not> list_ex (clashes u) (map snd m) \<Longrightarrow> map_of m j = Some v \<Longrightarrow> \<not> clashes u v"
  by (force simp: list_ex_iff dest: map_of_SomeD)

text \<open>A change that keeps name and email keeps accounts apart.\<close>

lemma accounts_ok_touch:
  assumes ok: "accounts_ok r" and u: "map_of (users r) i = Some u"
    and v: "us_ID v = us_ID u" "us_Username v = us_Username u" "us_Email v = us_Email u"
    and users: "users r' = map_put i v (users r)"
  shows "accounts_ok r'"
proof (rule accounts_ok_put [OF ok])
  from accounts_okD(2) [OF ok u] v(1) show "users r' = map_put (us_ID v) v (users r)" by (simp add: users)
  fix j w assume "map_of (users r) j = Some w" "j \<noteq> us_ID v"
  with accounts_okD(2,3) [OF ok u] v show "\<not> clashes v w" by (simp add: clashes_def)
qed

lemma accounts_ok_replace:
  assumes ok: "accounts_ok r" and adm: "identity_admissible r (CallUserReplace u)"
  shows "accounts_ok (snd (User_Replace u r))"
proof (cases "map_of (users r) (us_ID u)")
  case (Some cur)
  define u' where "u' = (if \<not> same_email (us_Email cur) (us_Email u) then u\<lparr>us_EmailVerified := False\<rparr> else u)"
  have u': "us_ID u' = us_ID u" "us_Username u' = us_Username cur" "us_Email u' = us_Email u"
    using adm Some by (auto simp: u'_def)
  show ?thesis
  proof (cases "list_ex (\<lambda>(i, existing). i \<noteq> us_ID u' \<and> same_email (us_Email existing) (us_Email u')) (users r)")
    case False
    have "accounts_ok (r\<lparr>users := map_put (us_ID u') u' (users r)\<rparr>)"
    proof (rule accounts_ok_put [OF ok])
      fix j w assume w: "map_of (users r) j = Some w" "j \<noteq> us_ID u'"
      with False have "\<not> same_email (us_Email w) (us_Email u')"
        by (force simp: list_ex_iff dest: map_of_SomeD)
      moreover from accounts_okD(3) [OF ok Some w(1)] w(2) u'
      have "\<not> EqualFold (us_Username w) (us_Username cur)" by (auto simp: clashes_def)
      ultimately show "\<not> clashes u' w" using u' by (auto simp: clashes_def EqualFold_def same_email_sym)
    qed simp
    with False Some show ?thesis by (simp add: User_Replace_def u'_def Let_def)
  qed (use Some ok in \<open>simp add: User_Replace_def u'_def Let_def\<close>)
qed (simp add: User_Replace_def ok)

lemma User_Create_accounts: "accounts_ok r \<Longrightarrow> accounts_ok (snd (User_Create u r))"
  unfolding User_Create_def
  by (cases "list_ex (clashes u) (map snd (users r))")
    (simp, simp, rule accounts_ok_put, auto dest: not_list_ex_clash)

lemma CreateWithPassword_accounts: "accounts_ok r \<Longrightarrow> accounts_ok (snd (CreateWithPassword u h r))"
  unfolding CreateWithPassword_def
  by (cases "list_ex (clashes u) (map snd (users r))"; cases "map_of (users r) (us_ID u)")
    (simp_all, rule accounts_ok_put, auto dest: not_list_ex_clash)

lemma migration_free_store:
  assumes "accounts_ok r" and "migration_free names emails ids ms"
    and "\<And>i u. map_of (users r) i = Some u \<Longrightarrow>
      ToLower (us_Username u) \<in> set names \<and> (\<forall>e. us_Email u = Some e \<longrightarrow> ToLower e \<in> set emails)"
  shows "accounts_ok (store_migrated ms r)"
  using assms
proof (induction ms arbitrary: r names emails ids)
  case (Cons m ms)
  let ?u = "mr_User m" and ?em = "case us_Email (mr_User m) of None \<Rightarrow> emails | Some e \<Rightarrow> ToLower e # emails"
  let ?r = "r\<lparr>users := map_put (us_ID ?u) ?u (users r),
    credentials := map_put (us_ID ?u) \<lparr>pc_UserID = us_ID ?u, pc_Hash = mr_PasswordHash m,
      pc_FailedAttempts = 0, pc_LockedUntil = None\<rparr> (credentials r)\<rparr>"
  from Cons.prems(2) have free: "ToLower (us_Username ?u) \<notin> set names"
    "\<And>e. us_Email ?u = Some e \<Longrightarrow> ToLower e \<notin> set emails"
    and rest: "migration_free (ToLower (us_Username ?u) # names) ?em (us_ID ?u # ids) ms"
    by (auto simp: Let_def split: if_splits option.splits)
  have "\<not> clashes ?u v" if "map_of (users r) j = Some v" for j v
    using Cons.prems(3) [OF that] free
    by (auto simp: clashes_def EqualFold_def same_email_def split: option.splits)
  then have ok: "accounts_ok ?r" by (intro accounts_ok_put [OF Cons.prems(1)]) auto
  have "accounts_ok (store_migrated ms ?r)"
  proof (rule Cons.IH [OF ok rest])
    fix i u assume "map_of (users ?r) i = Some u"
    then have "u = ?u \<or> map_of (users r) i = Some u" by (auto split: if_splits)
    then show "ToLower (us_Username u) \<in> set (ToLower (us_Username ?u) # names) \<and>
        (\<forall>e. us_Email u = Some e \<longrightarrow> ToLower e \<in> set ?em)"
    proof
      assume "u = ?u"
      then show ?thesis by simp
    next
      assume "map_of (users r) i = Some u"
      from Cons.prems(3) [OF this] show ?thesis by (cases "us_Email ?u") auto
    qed
  qed
  then show ?case by (simp add: Let_def)
qed simp

lemma migrated_accounts:
  assumes "accounts_ok r"
  shows "accounts_ok (snd (CreateWithMigratedPasswords ms r))"
proof -
  let ?e = "map snd (users r)"
  have "ToLower (us_Username u) \<in> set (map (\<lambda>u. ToLower (us_Username u)) ?e) \<and>
      (\<forall>e. us_Email u = Some e \<longrightarrow>
        ToLower e \<in> set (List.map_filter (\<lambda>u. map_option ToLower (us_Email u)) ?e))"
    if "map_of (users r) i = Some u" for i u
  proof -
    from that have "u \<in> set ?e" by (force dest: map_of_SomeD)
    then show ?thesis by (force simp: List.map_filter_def)
  qed
  with migration_free_store [OF assms] assms show ?thesis
    unfolding CreateWithMigratedPasswords_def Let_def by auto
qed

lemma email_marked_accounts:
  assumes "accounts_ok r" and "map_of (users r) i = Some u"
    and "users r' = map_put i (u\<lparr>us_EmailVerified := b, us_UpdatedAt := t\<rparr>) (users r)"
  shows "accounts_ok r'"
  by (rule accounts_ok_touch [OF assms(1,2) _ _ _ assms(3)]) simp_all

lemma accounts_ok_frame: "accounts_ok r \<Longrightarrow> users r' = users r \<Longrightarrow> accounts_ok r'"
  by (simp add: accounts_ok_def)

lemma resolve_known_accounts:
  assumes ok: "accounts_ok r"
  shows "accounts_ok (snd (resolve_known known p now r))"
proof (cases "map_of (users r) (ei_UserID known)")
  case (Some u)
  with accounts_okD(2) [OF ok] have i: "us_ID u = ei_UserID known" by blast
  let ?r = "snd (resolve_known known p now r)"
  have "users ?r = users r \<or>
      users ?r = map_put (ei_UserID known) (u\<lparr>us_EmailVerified := True, us_UpdatedAt := now\<rparr>) (users r)"
    unfolding resolve_known_def Let_def by (simp add: Some i)
  then show ?thesis
    using email_marked_accounts [OF ok Some, of ?r] accounts_ok_frame [OF ok] by blast
qed (simp add: resolve_known_def ok)

lemma find_user_key:
  assumes ok: "accounts_ok r" and "find P (map snd (users r)) = Some u"
  shows "map_of (users r) (us_ID u) = Some u" and "P u"
proof -
  from find_SomeD [OF assms(2)] obtain i where "(i, u) \<in> set (users r)" and "P u" by auto
  with accounts_okD(1,2) [OF ok] show "map_of (users r) (us_ID u) = Some u" and "P u"
    by (auto simp: in_set_gomap_iff)
qed

lemma resolve_linked_accounts:
  assumes ok: "accounts_ok r" and u: "find P (map snd (users r)) = Some u"
  shows "accounts_ok (snd (resolve_linked rnd u p now r))"
proof -
  note k = find_user_key(1) [OF ok u]
  let ?v = "if ep_EmailVerified p \<and> \<not> us_EmailVerified u
    then u\<lparr>us_EmailVerified := True, us_UpdatedAt := now\<rparr> else u"
  have "users (snd (resolve_linked rnd u p now r)) = map_put (us_ID u) ?v (users r) \<or>
      users (snd (resolve_linked rnd u p now r)) = users r"
    by (simp add: resolve_linked_def Let_def split: sum.split)
  then show ?thesis
    using accounts_ok_touch [OF ok k, of ?v] accounts_ok_frame [OF ok] by auto
qed

lemma map_put_delete_same: "map_of m k = None \<Longrightarrow> map_delete k (map_put k v m) = m"
  by (induction m) (auto split: if_splits)

lemma resolve_new_accounts:
  assumes ok: "accounts_ok r"
  shows "accounts_ok (snd (resolve_new rnd u p now r))"
proof (cases "list_ex (clashes u) (map snd (users r)) \<or> map_of (users r) (us_ID u) \<noteq> None")
  case False
  let ?r = "snd (resolve_new rnd u p now r)"
  have "users ?r = users r \<or> users ?r = map_put (us_ID u) u (users r)"
    using False by (auto simp: resolve_new_def map_put_delete_same split: sum.split)
  moreover have "\<not> clashes u v" if "map_of (users r) j = Some v" for j v
    using False not_list_ex_clash [OF _ that] by blast
  ultimately show ?thesis
    using accounts_ok_put [OF ok, of u ?r] accounts_ok_frame [OF ok] by blast
qed (use ok in \<open>auto simp: resolve_new_def\<close>)

lemma resolve_accounts:
  "accounts_ok r \<Longrightarrow> accounts_ok (snd (ResolveExternalIdentity sha256 r1 r2 r3 p now r))"
  unfolding ResolveExternalIdentity_def
  by (simp add: resolve_known_accounts resolve_new_accounts resolve_linked_accounts
      split: option.split sum.split)

lemma VerifyEmail_accounts:
  assumes ok: "accounts_ok r"
  shows "accounts_ok (snd (VerifyEmail h i now r))"
proof (cases "map_of (users r) i")
  case (Some u)
  let ?r = "snd (VerifyEmail h i now r)"
  have "users ?r = users r \<or> users ?r = map_put i (u\<lparr>us_EmailVerified := True, us_UpdatedAt := now\<rparr>) (users r)"
    using Some by (simp add: VerifyEmail_def split: option.split)
  then show ?thesis
    using email_marked_accounts [OF ok Some, of ?r] accounts_ok_frame [OF ok] by blast
qed (use ok in \<open>simp add: VerifyEmail_def split: option.split\<close>)

lemma SetEmailVerified_accounts: "accounts_ok r \<Longrightarrow> accounts_ok (snd (SetEmailVerified i now r))"
  unfolding SetEmailVerified_def Let_def
  by (cases "map_of (users r) i") (simp, simp, erule email_marked_accounts, assumption, simp)

text \<open>Tokens, credentials and identities leave the users alone.\<close>

lemma users_frame [simp]:
  "users (snd (SavePasswordReset t r)) = users r"
  "users (snd (ConsumePasswordReset h now r)) = users r"
  "users (snd (SaveEmailVerification v r)) = users r"
  "users (snd (SetPassword i p r)) = users r"
  "users (snd (RecordPasswordFailure i n until r)) = users r"
  "users (snd (RecordPasswordSuccess i r)) = users r"
  "users (snd (DeleteExternalIdentity i e r)) = users r"
  by (simp_all add: SavePasswordReset_def ConsumePasswordReset_def SaveEmailVerification_def
      SetPassword_def RecordPasswordFailure_def RecordPasswordSuccess_def DeleteExternalIdentity_def
      Let_def split: option.split prod.split)

lemma accounts_ok_step:
  assumes ok: "accounts_ok r" and "identity_admissible r op"
  shows "accounts_ok (snd (identity_step r op))"
proof (cases op)
  case (CallUserReplace u)
  then show ?thesis using accounts_ok_replace [OF ok, of u] assms(2) by simp
qed (use ok in \<open>simp_all add: User_Create_accounts CreateWithPassword_accounts migrated_accounts
      SetEmailVerified_accounts resolve_accounts VerifyEmail_accounts accounts_ok_frame [OF ok]\<close>)

lemma accounts_ok_reachable: "identity_reachable r \<Longrightarrow> accounts_ok r"
proof (induction rule: identity_reachable.induct)
  case initial
  then show ?case by (simp add: NewMemoryUserRepository_def accounts_ok_def)
next
  case (step r op)
  then show ?case by (auto intro: accounts_ok_step)
qed

lemma find_by_name:
  assumes ok: "accounts_ok r" and u: "map_of (users r) i = Some u" and n: "EqualFold (us_Username u) name"
  shows "find (\<lambda>u. EqualFold (us_Username u) name) (map snd (users r)) = Some u"
proof -
  from u have "u \<in> set (map snd (users r))" by (force dest: map_of_SomeD)
  with n obtain w where w: "find (\<lambda>u. EqualFold (us_Username u) name) (map snd (users r)) = Some w"
    by (metis (no_types, lifting) find_None_iff not_Some_eq)
  from find_user_key [OF ok this] n have "map_of (users r) (us_ID w) = Some w" "clashes w u"
    by (auto simp: clashes_def EqualFold_def)
  with accounts_okD(2,3) [OF ok] u have "w = u" by (metis option.inject)
  with w show ?thesis by simp
qed


section \<open>Ways to sign in\<close>

definition has_method :: "string \<Rightarrow> UserRepository \<Rightarrow> bool" where
  "has_method i r =
     (map_of (credentials r) i \<noteq> None \<or> (\<exists>k e. map_of (external r) k = Some e \<and> ei_UserID e = i))"

definition signs_in :: "string \<Rightarrow> UserRepository \<Rightarrow> bool" where
  "signs_in i r = (gomap_ok (external r) \<and> has_method i r)"

lemma has_method_grows:
  assumes "has_method i r"
    and "\<And>c. map_of (credentials r) i = Some c \<Longrightarrow> map_of (credentials r') i \<noteq> None"
    and "\<And>k e. map_of (external r) k = Some e \<Longrightarrow> \<exists>e'. map_of (external r') k = Some e' \<and> ei_UserID e' = ei_UserID e"
  shows "has_method i r'"
  using assms unfolding has_method_def by (metis not_Some_eq)

lemma store_migrated_frame [simp]: "external (store_migrated ms r) = external r"
  by (induction ms arbitrary: r) (simp_all add: Let_def)

lemma store_migrated_credentials:
  "map_of (credentials r) i = Some c \<Longrightarrow> \<exists>d. map_of (credentials (store_migrated ms r)) i = Some d"
proof (induction ms arbitrary: r c)
  case (Cons m ms)
  then show ?case by (cases "i = us_ID (mr_User m)") (simp_all add: Let_def)
qed simp

text \<open>Calls on users, tokens and credentials only ever add ways to sign in.\<close>

lemma external_frame [simp]:
  "external (snd (User_Create u r)) = external r"
  "external (snd (CreateWithPassword u h r)) = external r"
  "external (snd (CreateWithMigratedPasswords ms r)) = external r"
  "external (snd (User_Replace u r)) = external r"
  "external (snd (SetEmailVerified i now r)) = external r"
  "external (snd (SavePasswordReset t r)) = external r"
  "external (snd (ConsumePasswordReset hash now r)) = external r"
  "external (snd (SaveEmailVerification v r)) = external r"
  "external (snd (VerifyEmail hash i now r)) = external r"
  "external (snd (SetPassword i p r)) = external r"
  "external (snd (RecordPasswordFailure i n until r)) = external r"
  "external (snd (RecordPasswordSuccess i r)) = external r"
  by (simp_all add: User_Create_def CreateWithPassword_def CreateWithMigratedPasswords_def
      User_Replace_def SetEmailVerified_def SavePasswordReset_def ConsumePasswordReset_def
      SaveEmailVerification_def VerifyEmail_def SetPassword_def RecordPasswordFailure_def
      RecordPasswordSuccess_def Let_def split: option.split prod.split)

lemma credentials_kept:
  assumes "map_of (credentials r) i \<noteq> None"
  shows "map_of (credentials (snd (identity_step r op))) i \<noteq> None"
proof (cases op)
  case (CallCreateMigrated ms)
  then show ?thesis
    using assms store_migrated_credentials [of r i]
    by (auto simp: CreateWithMigratedPasswords_def Let_def)
qed (use assms in \<open>simp_all add: User_Create_def CreateWithPassword_def
      User_Replace_def SetEmailVerified_def SavePasswordReset_def
      ConsumePasswordReset_def SaveEmailVerification_def VerifyEmail_def SetPassword_def
      RecordPasswordFailure_def RecordPasswordSuccess_def DeleteExternalIdentity_def
      ResolveExternalIdentity_def resolve_known_def resolve_linked_def resolve_new_def
      Let_def split: option.split prod.split sum.split\<close>)

definition relinks :: "string \<Rightarrow> (string, ExternalIdentity) gomap \<Rightarrow> (string, ExternalIdentity) gomap \<Rightarrow> bool" where
  "relinks key m m' \<longleftrightarrow> m' = m \<or> (\<exists>e. m' = map_put key e m \<and>
     (\<forall>known. map_of m key = Some known \<longrightarrow> ei_UserID e = ei_UserID known))"

lemma relinksI: "m' = map_put key e m \<Longrightarrow> (\<And>known. map_of m key = Some known \<Longrightarrow> ei_UserID e = ei_UserID known) \<Longrightarrow>
  relinks key m m'"
  by (auto simp: relinks_def)

lemma resolve_known_relinks:
  assumes "map_of (external r) (external_key p) = Some known"
  shows "relinks (external_key p) (external r) (external (snd (resolve_known known p now r)))"
proof (cases "map_of (users r) (ei_UserID known)")
  case (Some u)
  show ?thesis
    by (rule relinksI [of _ _ "known\<lparr>ei_Username := TrimSpace (ep_Username p),
          ei_DisplayName := TrimSpace (ep_DisplayName p), ei_Email := ep_Email p,
          ei_EmailTrusted := ep_EmailTrusted p, ei_EmailVerified := ep_EmailVerified p,
          ei_LastAuthenticatedAt := now\<rparr>"])
      (use assms Some in \<open>simp_all add: resolve_known_def Let_def\<close>)
qed (simp add: resolve_known_def relinks_def)

lemma resolve_linked_relinks:
  assumes "map_of (external r) (external_key p) = None"
  shows "relinks (external_key p) (external r) (external (snd (resolve_linked rnd u p now r)))"
  using assms by (simp add: resolve_linked_def Let_def relinks_def split: sum.split) blast

lemma resolve_new_relinks:
  assumes "map_of (external r) (external_key p) = None"
  shows "relinks (external_key p) (external r) (external (snd (resolve_new rnd u p now r)))"
  using assms by (simp add: resolve_new_def relinks_def split: option.split sum.split) blast

lemma resolve_relinks:
  "relinks (external_key p) (external r) (external (snd (ResolveExternalIdentity sha256 r1 r2 r3 p now r)))"
  unfolding ResolveExternalIdentity_def
  by (simp add: resolve_known_relinks resolve_linked_relinks resolve_new_relinks relinks_def [of _ m m for m]
      split: option.split sum.split)

lemma delete_external:
  assumes ok: "gomap_ok (external r)" and del: "DeleteExternalIdentity u e r = (Inr (), r')"
  shows "has_method u r' \<and> (\<forall>i. i \<noteq> u \<longrightarrow> has_method i r \<longrightarrow> has_method i r')"
proof -
  from del obtain key x where found: "find (\<lambda>(key, x). ei_ID x = e \<and> ei_UserID x = u) (external r) = Some (key, x)"
    and r': "r' = r\<lparr>external := map_delete key (external r)\<rparr>"
    and alt: "(case map_of (credentials r) u of Some _ \<Rightarrow> 1 | None \<Rightarrow> (0::nat)) +
      length (filter (\<lambda>(k, x). k \<noteq> key \<and> ei_UserID x = u) (external r)) \<noteq> 0"
    by (auto simp: DeleteExternalIdentity_def Let_def split: option.splits prod.splits if_splits)
  from find_SomeD [OF found] have x: "map_of (external r) key = Some x" "ei_UserID x = u"
    using ok by (auto simp: in_set_gomap_iff)
  have "has_method u r'"
  proof (cases "map_of (credentials r) u")
    case None
    with alt have "filter (\<lambda>(k, x). k \<noteq> key \<and> ei_UserID x = u) (external r) \<noteq> []" by auto
    then obtain k y where "(k, y) \<in> set (external r)" "k \<noteq> key" "ei_UserID y = u"
      by (auto simp: filter_empty_conv)
    with ok show ?thesis by (auto simp: has_method_def r' map_of_delete in_set_gomap_iff)
  qed (simp add: has_method_def r')
  moreover have "has_method i r'" if "i \<noteq> u" "has_method i r" for i
    using that x unfolding has_method_def r' by (simp add: map_of_delete) (metis option.inject)
  ultimately show ?thesis by blast
qed

lemma external_unchanged:
  "(\<And>a b c d p t. op \<noteq> CallResolve a b c d p t) \<Longrightarrow> (\<And>u e. op \<noteq> CallDeleteExternal u e) \<Longrightarrow>
   external (snd (identity_step r op)) = external r"
  by (cases op) (simp, simp, simp, simp, simp, blast, blast, simp_all)

lemma DeleteExternalIdentity_gomap: "gomap_ok (external r) \<Longrightarrow> gomap_ok (external (snd (DeleteExternalIdentity u e r)))"
  by (simp add: DeleteExternalIdentity_def Let_def split: option.split prod.split)

lemma DeleteExternalIdentity_Inl: "DeleteExternalIdentity u e r = (Inl err, r') \<Longrightarrow> r' = r"
  by (auto simp: DeleteExternalIdentity_def Let_def split: option.splits prod.splits if_splits)

lemma signs_in_step:
  assumes "signs_in i r"
  shows "signs_in i (snd (identity_step r op))"
proof -
  from assms have ok: "gomap_ok (external r)" and m: "has_method i r" by (auto simp: signs_in_def)
  let ?r = "snd (identity_step r op)"
  have grow: "has_method i ?r" if "relinks key (external r) (external ?r)" for key
  proof (rule has_method_grows [OF m])
    show "map_of (credentials ?r) i \<noteq> None" if "map_of (credentials r) i = Some c" for c
      using that credentials_kept [of r i op] by simp
    show "\<exists>e'. map_of (external ?r) k = Some e' \<and> ei_UserID e' = ei_UserID e"
      if "map_of (external r) k = Some e" for k e
      using that \<open>relinks key (external r) (external ?r)\<close> unfolding relinks_def by auto
  qed
  consider (resolve) a b c d p t where "op = CallResolve a b c d p t"
    | (delete) u e where "op = CallDeleteExternal u e" | (other) "external ?r = external r"
    using external_unchanged by blast
  then show ?thesis
  proof cases
    case resolve
    with resolve_relinks have l: "relinks (external_key p) (external r) (external ?r)" by simp
    with ok have "gomap_ok (external ?r)" unfolding relinks_def by auto
    with grow [OF l] show ?thesis by (simp add: signs_in_def)
  next
    case (delete u e)
    obtain res r' where d: "DeleteExternalIdentity u e r = (res, r')" by fastforce
    have "has_method i r'"
      using delete_external [OF ok, of u e r'] DeleteExternalIdentity_Inl [of u e r _ r'] m d
      by (cases res; cases "i = u") auto
    with d delete DeleteExternalIdentity_gomap [OF ok, of u e] show ?thesis by (simp add: signs_in_def)
  next
    case other
    with ok grow [of "[]"] show ?thesis by (simp add: signs_in_def relinks_def)
  qed
qed

interpretation sign_in: kept_by_steps identity_step "\<lambda>_. True" "signs_in i" for i
  by unfold_locales (rule signs_in_step)


section \<open>Password reset tokens\<close>

definition resets_keyed :: "UserRepository \<Rightarrow> bool" where
  "resets_keyed r = (gomap_ok (passwordResets r) \<and>
     (\<forall>k t. map_of (passwordResets r) k = Some t \<longrightarrow> k = string_of (pr_Hash t)))"

definition reset_spent :: "bytes \<Rightarrow> UserRepository \<Rightarrow> bool" where
  "reset_spent h r = (\<forall>(k, t) \<in> set (passwordResets r). pr_Hash t \<noteq> h)"

fun reset_redeems :: "bytes \<Rightarrow> identity_call \<Rightarrow> identity_result \<Rightarrow> bool" where
  "reset_redeems h (CallConsumeReset h' now) (ResID (Inr _)) = (h' = h)"
| "reset_redeems h op res = False"

fun reset_admissible :: "bytes \<Rightarrow> identity_call \<Rightarrow> bool" where
  "reset_admissible h (CallSaveReset t) = (pr_Hash t \<noteq> h)"
| "reset_admissible h op = True"

lemma store_migrated_resets [simp]: "passwordResets (store_migrated ms r) = passwordResets r"
  by (induction ms arbitrary: r) (simp_all add: Let_def)

lemma resets_frame:
  "(\<And>t. op \<noteq> CallSaveReset t) \<Longrightarrow> (\<And>h now. op \<noteq> CallConsumeReset h now) \<Longrightarrow>
   passwordResets (snd (identity_step r op)) = passwordResets r"
  by (cases op; (blast | simp add: User_Create_def CreateWithPassword_def CreateWithMigratedPasswords_def
      User_Replace_def SetEmailVerified_def SaveEmailVerification_def VerifyEmail_def SetPassword_def
      RecordPasswordFailure_def RecordPasswordSuccess_def DeleteExternalIdentity_def
      ResolveExternalIdentity_def resolve_known_def resolve_linked_def resolve_new_def
      Let_def split: option.split prod.split sum.split))

lemma SavePasswordReset_resets:
  "passwordResets (snd (SavePasswordReset t r)) = passwordResets r \<or>
   passwordResets (snd (SavePasswordReset t r)) = map_put (string_of (pr_Hash t)) t
     (map_keep (\<lambda>_ current. pr_UserID current \<noteq> pr_UserID t) (passwordResets r))"
  by (simp add: SavePasswordReset_def split: option.split)

lemma ConsumePasswordReset_resets:
  "passwordResets (snd (ConsumePasswordReset h now r)) = passwordResets r \<or>
   (\<exists>k. passwordResets (snd (ConsumePasswordReset h now r)) = map_delete k (passwordResets r))"
  by (auto simp: ConsumePasswordReset_def split: option.split prod.split)

lemma resets_step_cases:
  obtains (same) "passwordResets (snd (identity_step r op)) = passwordResets r"
  | (save) t where "op = CallSaveReset t" "passwordResets (snd (identity_step r op)) =
      map_put (string_of (pr_Hash t)) t
        (map_keep (\<lambda>_ current. pr_UserID current \<noteq> pr_UserID t) (passwordResets r))"
  | (delete) k where "passwordResets (snd (identity_step r op)) = map_delete k (passwordResets r)"
proof (cases op)
  case (CallSaveReset t)
  with SavePasswordReset_resets [of t r] show thesis using same save by auto
next
  case (CallConsumeReset h now)
  with ConsumePasswordReset_resets [of h now r] show thesis using same delete by auto
qed (use same resets_frame in blast)+

lemma resets_keyed_step: "resets_keyed r \<Longrightarrow> resets_keyed (snd (identity_step r op))"
proof (cases rule: resets_step_cases [of r op])
  case (save t)
  assume "resets_keyed r"
  with save(2) show ?thesis
    unfolding resets_keyed_def by (auto simp: map_of_keep split: option.splits if_splits)
qed (auto simp: resets_keyed_def map_of_delete)

lemma reset_spent_step:
  "reset_spent h r \<Longrightarrow> reset_admissible h op \<Longrightarrow> reset_spent h (snd (identity_step r op))"
proof (cases rule: resets_step_cases [of r op])
  case (save t)
  assume "reset_spent h r" "reset_admissible h op"
  with save show ?thesis unfolding reset_spent_def by (auto dest!: set_put_subset)
qed (auto simp: reset_spent_def)

lemma reset_redeems_spends:
  assumes "resets_keyed r" and "reset_redeems h op (fst (identity_step r op))"
  shows "reset_spent h (snd (identity_step r op))"
proof -
  from assms(2) obtain now uid where op: "op = CallConsumeReset h now"
    and res: "fst (ConsumePasswordReset h now r) = Inr uid"
    by (cases "(h, op, fst (identity_step r op))" rule: reset_redeems.cases) (auto simp: apfst_def map_prod_def split: prod.splits)
  then obtain k t where f: "find (\<lambda>(key, token). pr_Hash token = h \<and> now < pr_ExpiresAt token) (passwordResets r) = Some (k, t)"
    by (auto simp: ConsumePasswordReset_def split: option.splits prod.splits)
  from find_SomeD [OF f] assms(1) have k: "k = string_of h"
    by (auto simp: resets_keyed_def in_set_gomap_iff)
  have "pr_Hash u \<noteq> h" if "(k', u) \<in> set (passwordResets r)" "k' \<noteq> k" for k' u
    using that assms(1) k by (auto simp: resets_keyed_def in_set_gomap_iff)
  with f op show ?thesis by (auto simp: reset_spent_def ConsumePasswordReset_def)
qed

lemma reset_spent_blocks: "reset_spent h r \<Longrightarrow> \<not> reset_redeems h op (fst (identity_step r op))"
proof (cases op)
  case (CallConsumeReset h' now)
  assume "reset_spent h r"
  show ?thesis
  proof (cases "h' = h")
    case True
    with \<open>reset_spent h r\<close> have "find (\<lambda>(key, token). pr_Hash token = h' \<and> now < pr_ExpiresAt token) (passwordResets r) = None"
      by (auto simp: reset_spent_def find_None_iff)
    with CallConsumeReset show ?thesis by (simp add: ConsumePasswordReset_def)
  next
    case False
    with CallConsumeReset show ?thesis by (cases "fst (ConsumePasswordReset h' now r)") auto
  qed
qed simp_all

interpretation reset_token: single_use identity_step reset_admissible "\<lambda>_. resets_keyed" reset_spent reset_redeems
  by unfold_locales (auto intro: resets_keyed_step reset_spent_step reset_redeems_spends dest: reset_spent_blocks)

lemma resets_keyed_reachable: "identity_reachable r \<Longrightarrow> resets_keyed r"
proof (induction rule: identity_reachable.induct)
  case initial
  then show ?case by (simp add: NewMemoryUserRepository_def resets_keyed_def)
qed (rule resets_keyed_step)

text \<open>A password reset token is honoured at most once, in every run of calls that does not issue a token
  with the same hash again; and issuing a new token for a user withdraws the user's earlier ones at
  once.\<close>

lemma reset_token_used_at_most_once:
  assumes "identity_reachable r" and "list_all (reset_admissible h) ops"
  shows "occurrences (reset_redeems h) identity_step r ops \<le> 1
    \<and> (\<forall>old new now. map_of (passwordResets r) (string_of h) = Some old \<longrightarrow> pr_UserID new = pr_UserID old \<longrightarrow>
         pr_Hash old = h \<longrightarrow> pr_Hash new \<noteq> h \<longrightarrow> isl (fst (SavePasswordReset new r)) = False \<longrightarrow>
         fst (ConsumePasswordReset h now (snd (SavePasswordReset new r))) = Inl ErrInvalidResetToken)"
proof -
  from assms(1) have ok: "resets_keyed r" by (rule resets_keyed_reachable)
  have "fst (ConsumePasswordReset h now (snd (SavePasswordReset new r))) = Inl ErrInvalidResetToken"
    if old: "map_of (passwordResets r) (string_of h) = Some old" "pr_UserID new = pr_UserID old"
      "pr_Hash old = h" "pr_Hash new \<noteq> h" "isl (fst (SavePasswordReset new r)) = False" for old new now
  proof -
    let ?r = "snd (SavePasswordReset new r)"
    from old(5) have r': "passwordResets ?r = map_put (string_of (pr_Hash new)) new
        (map_keep (\<lambda>_ current. pr_UserID current \<noteq> pr_UserID new) (passwordResets r))"
      by (simp add: SavePasswordReset_def split: option.splits)
    have "pr_Hash t \<noteq> h" if "(k, t) \<in> set (passwordResets ?r)" for k t
    proof
      assume t: "pr_Hash t = h"
      with old(4) that have "(k, t) \<in> set (passwordResets r)" "pr_UserID t \<noteq> pr_UserID new"
        by (auto simp: r' dest!: set_put_subset)
      with ok t old(1,2) show False by (auto simp: resets_keyed_def in_set_gomap_iff)
    qed
    then have "find (\<lambda>(key, token). pr_Hash token = h \<and> now < pr_ExpiresAt token) (passwordResets ?r) = None"
      by (auto simp: find_None_iff)
    then show ?thesis by (simp add: ConsumePasswordReset_def)
  qed
  with reset_token.redeemed_at_most_once [OF ok assms(2)] show ?thesis by blast
qed

section \<open>Email verification\<close>

definition verifications_keyed :: "UserRepository \<Rightarrow> bool" where
  "verifications_keyed r = (gomap_ok (emailVerifies r) \<and>
     (\<forall>k t. map_of (emailVerifies r) k = Some t \<longrightarrow> k = string_of (et_Hash t)))"

lemma store_migrated_verifications [simp]: "emailVerifies (store_migrated ms r) = emailVerifies r"
  by (induction ms arbitrary: r) (simp_all add: Let_def)

lemma verifications_frame:
  "(\<And>t. op \<noteq> CallSaveVerification t) \<Longrightarrow> (\<And>h i now. op \<noteq> CallVerifyEmail h i now) \<Longrightarrow>
   emailVerifies (snd (identity_step r op)) = emailVerifies r"
  by (cases op; (blast | simp add: User_Create_def CreateWithPassword_def CreateWithMigratedPasswords_def
      User_Replace_def SetEmailVerified_def SavePasswordReset_def ConsumePasswordReset_def SetPassword_def
      RecordPasswordFailure_def RecordPasswordSuccess_def DeleteExternalIdentity_def
      ResolveExternalIdentity_def resolve_known_def resolve_linked_def resolve_new_def
      Let_def split: option.split prod.split sum.split))

lemma verifications_keyed_step: "verifications_keyed r \<Longrightarrow> verifications_keyed (snd (identity_step r op))"
proof (cases op)
  case (CallSaveVerification t)
  assume "verifications_keyed r"
  then show ?thesis
    unfolding CallSaveVerification identity_step.simps
    by (auto simp: verifications_keyed_def SaveEmailVerification_def map_of_keep split: option.splits if_splits)
next
  case (CallVerifyEmail h i now)
  assume "verifications_keyed r"
  then show ?thesis
    unfolding CallVerifyEmail identity_step.simps
    by (auto simp: verifications_keyed_def VerifyEmail_def map_of_delete split: option.splits if_splits prod.splits)
qed (use verifications_frame [of op r] in \<open>auto simp: verifications_keyed_def\<close>)

lemma verifications_keyed_reachable: "identity_reachable r \<Longrightarrow> verifications_keyed r"
proof (induction rule: identity_reachable.induct)
  case initial
  then show ?case by (simp add: NewMemoryUserRepository_def verifications_keyed_def)
qed (rule verifications_keyed_step)

text \<open>Verification is bound to the account and the address: verifying succeeds exactly when an unexpired
  token with that hash was issued to that user for the address the account has now; the address is
  then marked as verified and the token is used up. Otherwise nothing changes, so presenting the token
  under another account, or after the address was changed, does not use it up.\<close>

lemma email_verification_bound:
  assumes "identity_reachable r"
  shows "case VerifyEmail h i now r of
      (Inl err, r') \<Rightarrow> err = ErrInvalidVerificationToken \<and> r' = r \<and>
        \<not> (\<exists>t u. map_of (emailVerifies r) (string_of h) = Some t \<and> et_Hash t = h \<and> et_UserID t = i
             \<and> now < et_ExpiresAt t \<and> map_of (users r) i = Some u \<and> same_email (us_Email u) (Some (et_Email t)))
    | (Inr uid, r') \<Rightarrow> uid = i \<and>
        (\<exists>t u. map_of (emailVerifies r) (string_of h) = Some t \<and> et_Hash t = h \<and> et_UserID t = i
           \<and> now < et_ExpiresAt t \<and> map_of (users r) i = Some u \<and> same_email (us_Email u) (Some (et_Email t))
           \<and> map_of (users r') i = Some (u\<lparr>us_EmailVerified := True, us_UpdatedAt := now\<rparr>)
           \<and> emailVerifies r' = map_delete (string_of h) (emailVerifies r))"
proof (cases "find (\<lambda>(key, token). et_Hash token = h \<and> et_UserID token = i \<and> now < et_ExpiresAt token)
    (emailVerifies r)")
  case None
  then have no: "\<not> (et_Hash t = h \<and> et_UserID t = i \<and> now < et_ExpiresAt t)"
    if "map_of (emailVerifies r) (string_of h) = Some t" for t
    using map_of_SomeD [OF that] by (auto simp: find_None_iff)
  from None no show ?thesis by (auto simp: VerifyEmail_def)
next
  case (Some e)
  obtain k t where e: "e = (k, t)" by (cases e)
  from find_SomeD [OF Some] verifications_keyed_reachable [OF assms]
  have t: "map_of (emailVerifies r) (string_of h) = Some t" "k = string_of h"
    "et_Hash t = h" "et_UserID t = i" "now < et_ExpiresAt t"
    by (auto simp: e verifications_keyed_def in_set_gomap_iff)
  with Some e show ?thesis by (auto simp: VerifyEmail_def split: option.splits)
qed

section \<open>Witnesses\<close>

definition demo_user :: User where
  "demo_user = \<lparr>us_ID = ''u1'', us_Username = ''ada'', us_DisplayName = ''Ada'', us_Email = Some ''a@b.c'',
     us_EmailVerified = False, us_Status = UserActive, us_CreatedAt = 1, us_UpdatedAt = 1\<rparr>"

definition demo_reset :: PasswordResetToken where
  "demo_reset = \<lparr>pr_UserID = ''u1'', pr_Hash = [1], pr_CreatedAt = 1, pr_ExpiresAt = 9\<rparr>"

definition demo_verification :: EmailVerificationToken where
  "demo_verification = \<lparr>et_UserID = ''u1'', et_Email = ''a@b.c'', et_Hash = [2], et_CreatedAt = 1,
     et_ExpiresAt = 9\<rparr>"

definition demo_accounts :: UserRepository where
  "demo_accounts = snd (identity_step (snd (identity_step (snd (identity_step (NewMemoryUserRepository [])
     (CallCreateWithPassword demo_user ''h''))) (CallSaveReset demo_reset)))
     (CallSaveVerification demo_verification))"

lemma demo_accounts_reachable: "identity_reachable demo_accounts"
  unfolding demo_accounts_def by (intro identity_reachable.intros) simp_all



end
