(* ===== verification/Identity_Passwords.thy ===== *)
theory Identity_Passwords
  imports Identity_Accounts
begin

text \<open>
  Passwords: \<open>internal/identity/password.go\<close> (Argon2id hashes, authentication with lockout, change and
  reset), \<open>password_migration.go\<close> (import of users with legacy digests), \<open>registration.go\<close> and
  \<open>email_verification.go\<close> (the services over the account repository).

  \<^item> \<open>argon2.IDKey\<close> is the parameter \<open>idkey\<close> (password, salt, time, memory, threads, key length), SHA-256
    the parameter \<open>sha256\<close>; \<open>subtle.ConstantTimeCompare\<close> is equality.
  \<^item> The services hold the repository and, when it implements the interface, the token repository;
    \<open>resets\<close> and \<open>verifications\<close> say whether it does (the in-memory repository does).
  \<^item> A service call makes its repository calls one after the other on the state it is given.
  \<^item> Texts that wrap an error are left out.
\<close>

section \<open>Argon2id hashes\<close>

type_synonym idkey = "bytes \<Rightarrow> bytes \<Rightarrow> nat \<Rightarrow> nat \<Rightarrow> nat \<Rightarrow> nat \<Rightarrow> bytes"

abbreviation passwordMemory :: nat where "passwordMemory \<equiv> 65536"
abbreviation passwordTime :: nat where "passwordTime \<equiv> 3"
abbreviation passwordThreads :: nat where "passwordThreads \<equiv> 4"
abbreviation passwordKeyLen :: nat where "passwordKeyLen \<equiv> 32"
abbreviation argon2_Version :: nat where "argon2_Version \<equiv> 19"

definition hash_prefix :: string where
  "hash_prefix = ''$argon2id$v='' @ decimal argon2_Version @ ''$m='' @ decimal passwordMemory @
     '',t='' @ decimal passwordTime @ '',p='' @ decimal passwordThreads @ ''$''"

definition hashPassword :: "idkey \<Rightarrow> bytes option \<Rightarrow> string \<Rightarrow> identity_error + string" where
  "hashPassword idkey random password =
     (case random of
        None \<Rightarrow> Inl ErrIdentityRandom
      | Some salt \<Rightarrow>
          let key = idkey (bytes_of password) salt passwordTime passwordMemory passwordThreads passwordKeyLen
          in Inr (hash_prefix @ RawStdEncoding_EncodeToString salt @ ''$'' @ RawStdEncoding_EncodeToString key))"

definition validateAndHashPassword :: "idkey \<Rightarrow> bytes option \<Rightarrow> string \<Rightarrow> identity_error + string" where
  "validateAndHashPassword idkey random password =
     (if length password < 12 \<or> length password > 1024 then Inl ErrPasswordLength
      else hashPassword idkey random password)"

definition parseArgon2Parameter :: "string \<Rightarrow> string \<Rightarrow> identity_error + nat" where
  "parseArgon2Parameter v name =
     (let prefix = name @ ''='' in
      if \<not> HasPrefix v prefix then Inl ErrPasswordHash
      else case ParseUint 32 (drop (length prefix) v) of
          None \<Rightarrow> Inl ErrPasswordHash
        | Some parsed \<Rightarrow> if parsed = 0 then Inl ErrPasswordHash else Inr parsed)"

text \<open>\<open>fmt.Sscanf(s, "v=%d", &version)\<close>: white space before the number is skipped, a sign may follow, and
  text after the digits is ignored.\<close>

definition scan_version :: "string \<Rightarrow> int option" where
  "scan_version s =
     (if \<not> HasPrefix s ''v='' then None
      else let body = dropWhile (\<lambda>c. is_space c \<and> char_code c \<noteq> 10) (drop 2 s);
               sign = (case body of c # _ \<Rightarrow> if c = CHR ''-'' \<or> c = CHR ''+'' then [c] else [] | [] \<Rightarrow> []);
               digits = takeWhile is_digit (drop (length sign) body)
           in ParseInt (sign @ digits))"

definition argon2_check ::
  "idkey \<Rightarrow> nat \<Rightarrow> nat \<Rightarrow> nat \<Rightarrow> string \<Rightarrow> string \<Rightarrow> string \<Rightarrow> identity_error + bool" where
  "argon2_check idkey memory iterations threads rawSalt rawKey password =
     (case RawStdEncoding_DecodeString rawSalt of
        None \<Rightarrow> Inl ErrPasswordHash
      | Some salt \<Rightarrow>
          if length salt < 8 then Inl ErrPasswordHash
          else case RawStdEncoding_DecodeString rawKey of
              None \<Rightarrow> Inl ErrPasswordHash
            | Some expected \<Rightarrow>
                if length expected < 16 then Inl ErrPasswordHash
                else if memory > 256 * 1024 \<or> iterations > 10 \<or> threads = 0 then Inl ErrPasswordHash
                else Inr (idkey (bytes_of password) salt iterations memory threads (length expected) = expected))"

definition verifyPassword :: "idkey \<Rightarrow> string \<Rightarrow> string \<Rightarrow> identity_error + bool" where
  "verifyPassword idkey encoded password =
     (case Split (CHR ''$'') encoded of
        [_, kind, version, parameters, rawSalt, rawKey] \<Rightarrow>
          if kind \<noteq> ''argon2id'' then Inl ErrPasswordHash
          else if scan_version version \<noteq> Some (int argon2_Version) then Inl ErrPasswordHash
          else (case Split (CHR '','') parameters of
                  [rawMemory, rawTime, rawThreads] \<Rightarrow>
                    (case parseArgon2Parameter rawMemory ''m'' of
                       Inl err \<Rightarrow> Inl err
                     | Inr memory \<Rightarrow>
                         (case parseArgon2Parameter rawTime ''t'' of
                            Inl err \<Rightarrow> Inl err
                          | Inr iterations \<Rightarrow>
                              (case parseArgon2Parameter rawThreads ''p'' of
                                 Inl err \<Rightarrow> Inl ErrPasswordHash
                               | Inr threads \<Rightarrow>
                                   if threads > 255 then Inl ErrPasswordHash
                                   else argon2_check idkey memory iterations threads rawSalt rawKey password)))
                | _ \<Rightarrow> Inl ErrPasswordHash)
      | _ \<Rightarrow> Inl ErrPasswordHash)"

section \<open>Migrated digests\<close>

abbreviation PasswordMigrationSpecusSHA256 :: string where "PasswordMigrationSpecusSHA256 \<equiv> ''specus_sha256''"
abbreviation defaultPasswordMigrationLifetime :: duration where
  "defaultPasswordMigrationLifetime \<equiv> 90 * 24 * hour"
abbreviation maxPasswordMigrationLifetime :: duration where "maxPasswordMigrationLifetime \<equiv> 365 * 24 * hour"
abbreviation maxPasswordMigrationUsers :: nat where "maxPasswordMigrationUsers \<equiv> 1000"

definition encodeMigratedPassword :: "string \<Rightarrow> string \<Rightarrow> time \<Rightarrow> identity_error + string" where
  "encodeMigratedPassword algorithm hash0 expiresAt =
     (if algorithm \<noteq> PasswordMigrationSpecusSHA256 then Inl ErrUserInvalid
      else let hash = ToLower (TrimSpace hash0)
           in case hex_DecodeString hash of
                None \<Rightarrow> Inl ErrUserInvalid
              | Some decoded \<Rightarrow>
                  if length decoded \<noteq> 32 \<or> length hash \<noteq> 64 then Inl ErrUserInvalid
                  else Inr (''$legacy$'' @ algorithm @ ''$'' @ FormatInt (Unix expiresAt) @ ''$'' @ hash))"

definition verifyMigratedPassword ::
  "(bytes \<Rightarrow> bytes) \<Rightarrow> string \<Rightarrow> string \<Rightarrow> time \<Rightarrow> identity_error + bool" where
  "verifyMigratedPassword sha256 encoded password now =
     (case Split (CHR ''$'') encoded of
        [p0, p1, p2, p3, p4] \<Rightarrow>
          if p0 \<noteq> [] \<or> p1 \<noteq> ''legacy'' \<or> p2 \<noteq> PasswordMigrationSpecusSHA256 then Inl ErrPasswordHash
          else (case ParseInt p3 of
                  None \<Rightarrow> Inl ErrPasswordHash
                | Some expiresAt \<Rightarrow>
                    if expiresAt \<le> 0 then Inl ErrPasswordHash
                    else if \<not> now < time_of_unix expiresAt then Inr False
                    else (case hex_DecodeString p4 of
                            None \<Rightarrow> Inl ErrPasswordHash
                          | Some expected \<Rightarrow>
                              if length expected \<noteq> 32 \<or> length p4 \<noteq> 64 then Inl ErrPasswordHash
                              else Inr (sha256 (bytes_of password) = expected)))
      | _ \<Rightarrow> Inl ErrPasswordHash)"

text \<open>The result is whether the password fits and whether the stored hash is to be upgraded.\<close>

definition verifyStoredPassword ::
  "idkey \<Rightarrow> (bytes \<Rightarrow> bytes) \<Rightarrow> string \<Rightarrow> string \<Rightarrow> time \<Rightarrow> identity_error + bool \<times> bool" where
  "verifyStoredPassword idkey sha256 encoded password now =
     (if HasPrefix encoded ''$legacy$'' then
        (case verifyMigratedPassword sha256 encoded password now of
           Inl err \<Rightarrow> Inl err
         | Inr ok \<Rightarrow> Inr (ok, ok))
      else
        (case verifyPassword idkey encoded password of
           Inl err \<Rightarrow> Inl err
         | Inr ok \<Rightarrow> Inr (ok, False)))"

section \<open>The password service\<close>

definition Password_Set ::
  "idkey \<Rightarrow> bytes option \<Rightarrow> string \<Rightarrow> string \<Rightarrow> UserRepository \<Rightarrow> (identity_error + unit) \<times> UserRepository" where
  "Password_Set idkey random userID password r =
     (case validateAndHashPassword idkey random password of
        Inl err \<Rightarrow> (Inl err, r)
      | Inr hash \<Rightarrow> SetPassword userID hash r)"

definition authenticate_failed ::
  "time \<Rightarrow> PasswordCredential \<Rightarrow> UserRepository \<Rightarrow> (identity_error + User) \<times> UserRepository" where
  "authenticate_failed now credential r =
     (let attempts = pc_FailedAttempts credential + 1;
          lockedUntil = (if attempts \<ge> 5 then now + 15 * minute else 0);
          r1 = snd (RecordPasswordFailure (pc_UserID credential) attempts lockedUntil r)
      in if lockedUntil \<noteq> 0 then (Inl ErrCredentialLocked, r1) else (Inl ErrInvalidCredentials, r1))"

definition authenticate_accepted ::
  "idkey \<Rightarrow> bytes option \<Rightarrow> bool \<Rightarrow> User \<Rightarrow> PasswordCredential \<Rightarrow> string \<Rightarrow> UserRepository \<Rightarrow>
   (identity_error + User) \<times> UserRepository" where
  "authenticate_accepted idkey random upgrade user credential password r =
     (if upgrade then
        (case hashPassword idkey random password of
           Inl err \<Rightarrow> (Inl err, r)
         | Inr hash \<Rightarrow>
             (case SetPassword (pc_UserID credential) hash r of
                (Inl err, r1) \<Rightarrow> (Inl err, r1)
              | (Inr _, r1) \<Rightarrow> (Inr user, r1)))
      else
        (case RecordPasswordSuccess (pc_UserID credential) r of
           (Inl err, r1) \<Rightarrow> (Inl err, r1)
         | (Inr _, r1) \<Rightarrow> (Inr user, r1)))"

text \<open>For an unknown user the code still derives a key, whose result it drops.\<close>

definition Authenticate ::
  "idkey \<Rightarrow> (bytes \<Rightarrow> bytes) \<Rightarrow> bytes option \<Rightarrow> time \<Rightarrow> string \<Rightarrow> string \<Rightarrow> UserRepository \<Rightarrow>
   (identity_error + User) \<times> UserRepository" where
  "Authenticate idkey sha256 random now username password r =
     (case FindPasswordByUsername (ToLower (TrimSpace username)) r of
        Inl _ \<Rightarrow> (Inl ErrInvalidCredentials, r)
      | Inr (user, credential) \<Rightarrow>
          if us_Status user \<noteq> UserActive then (Inl ErrInvalidCredentials, r)
          else if (\<exists>t \<in> set_option (pc_LockedUntil credential). now < t) then (Inl ErrCredentialLocked, r)
          else (case verifyStoredPassword idkey sha256 (pc_Hash credential) password now of
                  Inl err \<Rightarrow> (Inl err, r)
                | Inr (ok, upgrade) \<Rightarrow>
                    if \<not> ok then authenticate_failed now credential r
                    else authenticate_accepted idkey random upgrade user credential password r))"

definition Password_Change ::
  "idkey \<Rightarrow> (bytes \<Rightarrow> bytes) \<Rightarrow> bytes option \<Rightarrow> bytes option \<Rightarrow> time \<Rightarrow> string \<Rightarrow> string \<Rightarrow> string \<Rightarrow> string \<Rightarrow>
   UserRepository \<Rightarrow> (identity_error + unit) \<times> UserRepository" where
  "Password_Change idkey sha256 random1 random2 now userID username currentPassword newPassword r =
     (case Authenticate idkey sha256 random1 now username currentPassword r of
        (Inl _, r1) \<Rightarrow> (Inl ErrInvalidCredentials, r1)
      | (Inr user, r1) \<Rightarrow>
          if us_ID user \<noteq> userID then (Inl ErrInvalidCredentials, r1)
          else Password_Set idkey random2 userID newPassword r1)"

definition default_lifetime :: "duration \<Rightarrow> duration" where
  "default_lifetime lifetime = (if lifetime \<le> 0 then 30 * minute else lifetime)"

definition IssueReset ::
  "(bytes \<Rightarrow> bytes) \<Rightarrow> bytes option \<Rightarrow> bool \<Rightarrow> time \<Rightarrow> string \<Rightarrow> duration \<Rightarrow> UserRepository \<Rightarrow>
   (identity_error + string) \<times> UserRepository" where
  "IssueReset sha256 random resets now userID lifetime r =
     (if \<not> resets then (Inl ErrInvalidResetToken, r)
      else case RandomToken 32 random of
          Inl _ \<Rightarrow> (Inl ErrIdentityRandom, r)
        | Inr raw \<Rightarrow>
            (case SavePasswordReset \<lparr>pr_UserID = userID, pr_Hash = HashToken sha256 raw, pr_CreatedAt = now,
                    pr_ExpiresAt = now + default_lifetime lifetime\<rparr> r of
               (Inl err, r1) \<Rightarrow> (Inl err, r1)
             | (Inr _, r1) \<Rightarrow> (Inr raw, r1)))"

definition Password_Reset ::
  "idkey \<Rightarrow> (bytes \<Rightarrow> bytes) \<Rightarrow> bytes option \<Rightarrow> bool \<Rightarrow> time \<Rightarrow> string \<Rightarrow> string \<Rightarrow> UserRepository \<Rightarrow>
   (identity_error + string) \<times> UserRepository" where
  "Password_Reset idkey sha256 random resets now token newPassword r =
     (if \<not> resets \<or> TrimSpace token = [] then (Inl ErrInvalidResetToken, r)
      else case validateAndHashPassword idkey random newPassword of
          Inl err \<Rightarrow> (Inl err, r)
        | Inr hash \<Rightarrow>
            (case ConsumePasswordReset (HashToken sha256 token) now r of
               (Inl _, r1) \<Rightarrow> (Inl ErrInvalidResetToken, r1)
             | (Inr userID, r1) \<Rightarrow>
                 (case SetPassword userID hash r1 of
                    (Inl err, r2) \<Rightarrow> (Inl err, r2)
                  | (Inr _, r2) \<Rightarrow> (Inr userID, r2))))"

section \<open>Registration and import\<close>

record RegisterUser =
  re_Username :: string
  re_DisplayName :: string
  re_Email :: "string option"
  re_Password :: string

definition Register ::
  "idkey \<Rightarrow> bytes option \<Rightarrow> bytes option \<Rightarrow> time \<Rightarrow> RegisterUser \<Rightarrow> UserRepository \<Rightarrow>
   (identity_error + User) \<times> UserRepository" where
  "Register idkey random1 random2 now input r =
     (case NewUser random1 \<lparr>cu_Username = re_Username input, cu_DisplayName = re_DisplayName input,
             cu_Email = re_Email input, cu_Status = UserActive\<rparr> now of
        Inl err \<Rightarrow> (Inl err, r)
      | Inr user \<Rightarrow>
          (case validateAndHashPassword idkey random2 (re_Password input) of
             Inl err \<Rightarrow> (Inl err, r)
           | Inr hash \<Rightarrow> CreateWithPassword user hash r))"

record PasswordMigrationUser =
  mi_Username :: string
  mi_DisplayName :: string
  mi_Email :: "string option"
  mi_Status :: string
  mi_PasswordHash :: string

record ImportPasswordUsers =
  iu_Algorithm :: string
  iu_ExpiresAt :: "time option"
  iu_Users :: "PasswordMigrationUser list"

record PasswordMigrationResult =
  mg_Items :: "User list"
  mg_Count :: nat
  mg_ExpiresAt :: time

text \<open>The loop over the users to import; \<open>randoms\<close> gives the random bytes of each new identifier.\<close>

fun import_loop ::
  "string \<Rightarrow> time \<Rightarrow> time \<Rightarrow> string list \<Rightarrow> string list \<Rightarrow> (bytes option \<times> PasswordMigrationUser) list \<Rightarrow>
   identity_error + PasswordMigrationRecord list" where
  "import_loop algorithm now expiresAt usernames emails [] = Inr []"
| "import_loop algorithm now expiresAt usernames emails ((random, item) # items) =
     (case NewUser random \<lparr>cu_Username = mi_Username item, cu_DisplayName = mi_DisplayName item,
             cu_Email = mi_Email item, cu_Status = mi_Status item\<rparr> now of
        Inl err \<Rightarrow> Inl err
      | Inr user \<Rightarrow>
          if us_Username user \<in> set usernames then Inl ErrUserConflict
          else if (\<exists>e \<in> set_option (us_Email user). e \<in> set emails) then Inl ErrUserConflict
          else (case encodeMigratedPassword algorithm (mi_PasswordHash item) expiresAt of
                  Inl err \<Rightarrow> Inl err
                | Inr encoded \<Rightarrow>
                    (case import_loop algorithm now expiresAt (us_Username user # usernames)
                            (case us_Email user of None \<Rightarrow> emails | Some e \<Rightarrow> e # emails) items of
                       Inl err \<Rightarrow> Inl err
                     | Inr records \<Rightarrow> Inr (\<lparr>mr_User = user, mr_PasswordHash = encoded\<rparr> # records))))"

definition Import ::
  "bytes option list \<Rightarrow> time \<Rightarrow> ImportPasswordUsers \<Rightarrow> UserRepository \<Rightarrow>
   (identity_error + PasswordMigrationResult) \<times> UserRepository" where
  "Import randoms now input r =
     (if iu_Algorithm input \<noteq> PasswordMigrationSpecusSHA256 then (Inl ErrUserInvalid, r)
      else if length (iu_Users input) = 0 \<or> length (iu_Users input) > maxPasswordMigrationUsers
      then (Inl ErrUserInvalid, r)
      else let expiresAt = (case iu_ExpiresAt input of None \<Rightarrow> now + defaultPasswordMigrationLifetime
                            | Some t \<Rightarrow> t)
           in if \<not> expiresAt > now \<or> expiresAt > now + maxPasswordMigrationLifetime
              then (Inl ErrUserInvalid, r)
              else (case import_loop (iu_Algorithm input) now expiresAt [] [] (zip randoms (iu_Users input)) of
                      Inl err \<Rightarrow> (Inl err, r)
                    | Inr records \<Rightarrow>
                        (case CreateWithMigratedPasswords records r of
                           (Inl err, r1) \<Rightarrow> (Inl err, r1)
                         | (Inr created, r1) \<Rightarrow>
                             (Inr \<lparr>mg_Items = created, mg_Count = length created, mg_ExpiresAt = expiresAt\<rparr>, r1))))"

section \<open>The email verification service\<close>

definition IssueVerification ::
  "(bytes \<Rightarrow> bytes) \<Rightarrow> bytes option \<Rightarrow> bool \<Rightarrow> time \<Rightarrow> string \<Rightarrow> duration \<Rightarrow> UserRepository \<Rightarrow>
   (identity_error + string) \<times> UserRepository" where
  "IssueVerification sha256 random verifications now userID lifetime r =
     (if \<not> verifications then (Inl ErrInvalidVerificationToken, r)
      else case User_Find userID r of
          Inl err \<Rightarrow> (Inl err, r)
        | Inr user \<Rightarrow>
            (case us_Email user of
               None \<Rightarrow> (Inl ErrEmailNotConfigured, r)
             | Some email \<Rightarrow>
                 if us_EmailVerified user then (Inl ErrEmailAlreadyVerified, r)
                 else (case RandomToken 32 random of
                         Inl _ \<Rightarrow> (Inl ErrIdentityRandom, r)
                       | Inr raw \<Rightarrow>
                           (case SaveEmailVerification \<lparr>et_UserID = userID, et_Email = email,
                                   et_Hash = HashToken sha256 raw, et_CreatedAt = now,
                                   et_ExpiresAt = now + default_lifetime lifetime\<rparr> r of
                              (Inl err, r1) \<Rightarrow> (Inl err, r1)
                            | (Inr _, r1) \<Rightarrow> (Inr raw, r1)))))"

definition Verification_Verify ::
  "(bytes \<Rightarrow> bytes) \<Rightarrow> bool \<Rightarrow> time \<Rightarrow> string \<Rightarrow> string \<Rightarrow> UserRepository \<Rightarrow>
   (identity_error + string) \<times> UserRepository" where
  "Verification_Verify sha256 verifications now token expectedUserID r =
     (if \<not> verifications \<or> TrimSpace token = [] then (Inl ErrInvalidVerificationToken, r)
      else case VerifyEmail (HashToken sha256 token) expectedUserID now r of
          (Inl _, r1) \<Rightarrow> (Inl ErrInvalidVerificationToken, r1)
        | (Inr userID, r1) \<Rightarrow> (Inr userID, r1))"

section \<open>Hash formats\<close>

lemma decimal_no_mark: "c \<in> set (decimal n) \<Longrightarrow> is_digit c"
  using decimal_digits [of n] by (auto simp: all_digits_def list_all_iff)

lemma decimal_free [simp]: "CHR ''$'' \<notin> set (decimal n)" "CHR '','' \<notin> set (decimal n)"
  using decimal_no_mark [of "CHR ''$''" n] decimal_no_mark [of "CHR '',''" n]
  by (auto simp: is_digit_def char_code_def)

lemma std_free [simp]: "CHR ''$'' \<notin> set (RawStdEncoding_EncodeToString b)"
proof
  assume "CHR ''$'' \<in> set (RawStdEncoding_EncodeToString b)"
  then have "CHR ''$'' \<in> set std_alphabet" by (rule raw_encode_set [rotated]) simp
  then show False by (simp add: std_alphabet_def)
qed

lemma hash_parts:
  "Split (CHR ''$'') (hash_prefix @ RawStdEncoding_EncodeToString salt @ ''$'' @ RawStdEncoding_EncodeToString key) =
     [[], ''argon2id'', ''v='' @ decimal argon2_Version,
      ''m='' @ decimal passwordMemory @ '',t='' @ decimal passwordTime @ '',p='' @ decimal passwordThreads,
      RawStdEncoding_EncodeToString salt, RawStdEncoding_EncodeToString key]"
proof -
  let ?v = "''v='' @ decimal argon2_Version"
  let ?p = "''m='' @ decimal passwordMemory @ '',t='' @ decimal passwordTime @ '',p='' @ decimal passwordThreads"
  let ?s = "RawStdEncoding_EncodeToString salt" and ?k = "RawStdEncoding_EncodeToString key"
  let ?d = "CHR ''$''"
  have "hash_prefix @ ?s @ ''$'' @ ?k = [] @ ?d # ''argon2id'' @ ?d # ?v @ ?d # ?p @ ?d # ?s @ ?d # ?k"
    by (simp add: hash_prefix_def)
  moreover have "?d \<notin> set ?v" "?d \<notin> set ?p" "?d \<notin> set ''argon2id''" by auto
  ultimately show ?thesis
    by (simp only: Split_append_sep Split_no_sep std_free list.set empty_iff simp_thms)
qed

lemma parameter_parts:
  "Split (CHR '','') (''m='' @ decimal a @ '',t='' @ decimal b @ '',p='' @ decimal c) =
     [''m='' @ decimal a, ''t='' @ decimal b, ''p='' @ decimal c]"
proof -
  have "''m='' @ decimal a @ '',t='' @ decimal b @ '',p='' @ decimal c =
      (''m='' @ decimal a) @ CHR '','' # (''t='' @ decimal b) @ CHR '','' # (''p='' @ decimal c)" by simp
  moreover have "CHR '','' \<notin> set (''m='' @ decimal a)" "CHR '','' \<notin> set (''t='' @ decimal b)"
    "CHR '','' \<notin> set (''p='' @ decimal c)" by auto
  ultimately show ?thesis by (simp only: Split_append_sep Split_no_sep simp_thms)
qed

lemma parse_parameter: "0 < n \<Longrightarrow> n < 2 ^ 32 \<Longrightarrow> parseArgon2Parameter ([c] @ ''='' @ decimal n) [c] = Inr n"
  by (simp add: parseArgon2Parameter_def Let_def HasPrefix_def ParseUint_decimal)

lemma scan_version_current: "scan_version (''v='' @ decimal argon2_Version) = Some (int argon2_Version)"
  by code_simp

text \<open>A stored hash answers exactly whether a password derives the same key from its salt.\<close>

lemma verify_hashed:
  assumes "length salt = 16" and "\<And>p s t m n l. length (idkey p s t m n l) = l"
    and "hashPassword idkey (Some salt) password = Inr encoded"
  shows "verifyPassword idkey encoded candidate = Inr
    (idkey (bytes_of candidate) salt passwordTime passwordMemory passwordThreads passwordKeyLen =
     idkey (bytes_of password) salt passwordTime passwordMemory passwordThreads passwordKeyLen)"
proof -
  let ?key = "idkey (bytes_of password) salt passwordTime passwordMemory passwordThreads passwordKeyLen"
  from assms(3) have e: "encoded = hash_prefix @ RawStdEncoding_EncodeToString salt @ ''$'' @
      RawStdEncoding_EncodeToString ?key"
    by (simp add: hashPassword_def Let_def)
  have "argon2_check idkey passwordMemory passwordTime passwordThreads (RawStdEncoding_EncodeToString salt)
      (RawStdEncoding_EncodeToString ?key) candidate =
      Inr (idkey (bytes_of candidate) salt passwordTime passwordMemory passwordThreads passwordKeyLen = ?key)"
    by (simp add: argon2_check_def raw64_roundtrip assms(1,2))
  moreover have "parseArgon2Parameter (''m='' @ decimal passwordMemory) ''m'' = Inr passwordMemory"
    "parseArgon2Parameter (''t='' @ decimal passwordTime) ''t'' = Inr passwordTime"
    "parseArgon2Parameter (''p='' @ decimal passwordThreads) ''p'' = Inr passwordThreads"
    using parse_parameter [of passwordMemory "CHR ''m''"] parse_parameter [of passwordTime "CHR ''t''"]
      parse_parameter [of passwordThreads "CHR ''p''"] by simp_all
  moreover have "\<not> passwordThreads > 255" by simp
  ultimately show ?thesis
    unfolding verifyPassword_def e hash_parts
    by (simp only: list.case scan_version_current parameter_parts sum.case simp_thms if_False)
qed

lemma hashed_not_legacy: "hashPassword idkey random password = Inr encoded \<Longrightarrow> \<not> HasPrefix encoded ''$legacy$''"
  by (auto simp: hashPassword_def hash_prefix_def Let_def HasPrefix_def split: option.splits)

section \<open>Signing in\<close>

definition unlocked :: "time \<Rightarrow> PasswordCredential \<Rightarrow> bool" where
  "unlocked now c = (\<forall>t \<in> set_option (pc_LockedUntil c). \<not> now < t)"

lemma FindPassword_InrD:
  assumes "accounts_ok r" and "FindPasswordByUsername name r = Inr (u, c)"
  shows "map_of (users r) (us_ID u) = Some u" and "EqualFold (us_Username u) name"
    and "map_of (credentials r) (us_ID u) = Some c"
proof -
  from assms(2) have f: "find (\<lambda>u. EqualFold (us_Username u) name) (map snd (users r)) = Some u"
    and c: "map_of (credentials r) (us_ID u) = Some c"
    by (auto simp: FindPasswordByUsername_def split: option.splits)
  from find_user_key [OF assms(1) f] c
  show "map_of (users r) (us_ID u) = Some u" "EqualFold (us_Username u) name"
    "map_of (credentials r) (us_ID u) = Some c" by auto
qed

lemma FindPassword_InrI:
  assumes "accounts_ok r" and "map_of (users r) i = Some u" and "EqualFold (us_Username u) name"
    and "map_of (credentials r) i = Some c"
  shows "FindPasswordByUsername name r = Inr (u, c)"
  using find_by_name [OF assms(1-3)] accounts_okD(2) [OF assms(1,2)] assms(4)
  by (simp add: FindPasswordByUsername_def)

lemma Authenticate_checked:
  assumes "FindPasswordByUsername (ToLower (TrimSpace name)) r = Inr (u, c)"
    and "us_Status u = UserActive" and "unlocked now c"
    and "verifyStoredPassword idkey sha256 (pc_Hash c) password now = Inr (ok, upgrade)"
  shows "Authenticate idkey sha256 random now name password r =
    (if ok then authenticate_accepted idkey random upgrade u c password r else authenticate_failed now c r)"
  using assms by (simp add: Authenticate_def unlocked_def)

lemma Authenticate_locked:
  assumes "FindPasswordByUsername (ToLower (TrimSpace name)) r = Inr (u, c)"
    and "us_Status u = UserActive" and "\<not> unlocked now c"
  shows "Authenticate idkey sha256 random now name password r = (Inl ErrCredentialLocked, r)"
  using assms by (simp add: Authenticate_def unlocked_def)


section \<open>Lockout\<close>

lemma authenticate_failed_credentials:
  assumes "map_of (credentials r) (pc_UserID c) = Some c" and "0 < now"
  shows "authenticate_failed now c r =
    (Inl (if pc_FailedAttempts c + 1 \<ge> 5 then ErrCredentialLocked else ErrInvalidCredentials),
     r\<lparr>credentials := map_put (pc_UserID c) (c\<lparr>pc_FailedAttempts := pc_FailedAttempts c + 1,
       pc_LockedUntil := (if pc_FailedAttempts c + 1 \<ge> 5 then Some (now + 15 * minute) else pc_LockedUntil c)\<rparr>)
       (credentials r)\<rparr>)"
  using assms by (simp add: authenticate_failed_def RecordPasswordFailure_def Let_def)

fun sign_in_attempts ::
  "idkey \<Rightarrow> (bytes \<Rightarrow> bytes) \<Rightarrow> string \<Rightarrow> (time \<times> string) list \<Rightarrow> UserRepository \<Rightarrow>
   (identity_error + User) list \<times> UserRepository" where
  "sign_in_attempts idkey sha256 name [] r = ([], r)"
| "sign_in_attempts idkey sha256 name ((now, password) # rest) r =
     (let (res, r1) = Authenticate idkey sha256 None now name password r;
          (results, r2) = sign_in_attempts idkey sha256 name rest r1
      in (res # results, r2))"

lemma failure_step:
  assumes ok: "accounts_ok r" and u: "map_of (users r) i = Some u" "EqualFold (us_Username u) (ToLower (TrimSpace name))"
      "us_Status u = UserActive"
    and c: "map_of (credentials r) i = Some c" "pc_UserID c = i" "unlocked now c"
    and wrong: "verifyStoredPassword idkey sha256 (pc_Hash c) password now = Inr (False, up)" and "0 < now"
  shows "Authenticate idkey sha256 random now name password r =
    (Inl (if pc_FailedAttempts c + 1 \<ge> 5 then ErrCredentialLocked else ErrInvalidCredentials),
     r\<lparr>credentials := map_put i (c\<lparr>pc_FailedAttempts := pc_FailedAttempts c + 1,
       pc_LockedUntil := (if pc_FailedAttempts c + 1 \<ge> 5 then Some (now + 15 * minute) else pc_LockedUntil c)\<rparr>)
       (credentials r)\<rparr>)"
  unfolding Authenticate_checked [OF FindPassword_InrI [OF ok u(1,2) c(1)] u(3) c(3) wrong]
  using authenticate_failed_credentials [of r c now] c \<open>0 < now\<close> by simp

lemma lockout_run:
  assumes "accounts_ok r" and "map_of (users r) i = Some u"
    and "EqualFold (us_Username u) (ToLower (TrimSpace name))" and "us_Status u = UserActive"
    and "map_of (credentials r) i = Some c" and "pc_UserID c = i" and "pc_LockedUntil c = None"
    and "\<forall>(now, pw) \<in> set xs. 0 < now \<and> (\<exists>up. verifyStoredPassword idkey sha256 (pc_Hash c) pw now = Inr (False, up))"
    and "xs \<noteq> []" and "pc_FailedAttempts c + int (length xs) = 5"
  shows "\<exists>c' r'. sign_in_attempts idkey sha256 name xs r =
      (replicate (length xs - 1) (Inl ErrInvalidCredentials) @ [Inl ErrCredentialLocked], r')
    \<and> users r' = users r \<and> map_of (credentials r') i = Some c'
    \<and> pc_LockedUntil c' = Some (fst (last xs) + 15 * minute)"
  using assms
proof (induction xs arbitrary: r c)
  case (Cons x xs)
  obtain now pw where x: "x = (now, pw)" by (cases x)
  from Cons.prems(8) obtain up where now: "0 < now"
    and wrong: "verifyStoredPassword idkey sha256 (pc_Hash c) pw now = Inr (False, up)" by (auto simp: x)
  have "unlocked now c" using Cons.prems(7) by (simp add: unlocked_def)
  note step = failure_step [OF Cons.prems(1-6) this wrong now, of None]
  show ?case
  proof (cases "xs = []")
    case True
    with Cons.prems(7,10) step show ?thesis by (simp add: x)
  next
    case False
    let ?c = "c\<lparr>pc_FailedAttempts := pc_FailedAttempts c + 1, pc_LockedUntil := None\<rparr>"
    let ?r = "r\<lparr>credentials := map_put i ?c (credentials r)\<rparr>"
    from False have "1 \<le> int (length xs)" by (cases xs) auto
    with Cons.prems(10) have "\<not> pc_FailedAttempts c + 1 \<ge> 5" by simp
    then have step: "Authenticate idkey sha256 None now name pw r = (Inl ErrInvalidCredentials, ?r)"
      using step Cons.prems(7) by simp
    have "accounts_ok ?r" by (rule accounts_ok_frame [OF Cons.prems(1)]) simp
    from Cons.IH [OF this, of ?c] Cons.prems False obtain c' r' where
      ih: "sign_in_attempts idkey sha256 name xs ?r =
        (replicate (length xs - 1) (Inl ErrInvalidCredentials) @ [Inl ErrCredentialLocked], r')"
      "users r' = users r" "map_of (credentials r') i = Some c'"
      "pc_LockedUntil c' = Some (fst (last xs) + 15 * minute)" by auto
    from False obtain n where "length xs = Suc n" by (cases xs) auto
    with ih step False show ?thesis by (auto simp: x)
  qed
qed simp

text \<open>C24: Five wrong passwords in a row lock the credential: the first four are answered with invalid
  credentials, the fifth with locked, and for fifteen minutes from then every attempt, also with the
  right password, is refused and changes nothing.\<close>

theorem password_lockout:
  assumes "identity_reachable r" and "User_Find i r = Inr u"
    and "EqualFold (us_Username u) (ToLower (TrimSpace name))" and "us_Status u = UserActive"
    and "map_of (credentials r) i = Some \<lparr>pc_UserID = i, pc_Hash = hash, pc_FailedAttempts = 0, pc_LockedUntil = None\<rparr>"
    and "length attempts = 5"
    and "\<forall>(now, pw) \<in> set attempts. 0 < now \<and> (\<exists>up. verifyStoredPassword idkey sha256 hash pw now = Inr (False, up))"
  shows "\<exists>r'. sign_in_attempts idkey sha256 name attempts r =
      (replicate 4 (Inl ErrInvalidCredentials) @ [Inl ErrCredentialLocked], r')
    \<and> (\<forall>now pw random. now < fst (last attempts) + 15 * minute \<longrightarrow>
         Authenticate idkey sha256 random now name pw r' = (Inl ErrCredentialLocked, r'))"
proof -
  from assms(1) have ok: "accounts_ok r" by (rule accounts_ok_reachable)
  from assms(2) have u: "map_of (users r) i = Some u" by (simp add: User_Find_def split: option.splits)
  from lockout_run [OF ok u assms(3,4,5), of attempts idkey sha256] assms(6,7)
  obtain c' r' where run: "sign_in_attempts idkey sha256 name attempts r =
      (replicate 4 (Inl ErrInvalidCredentials) @ [Inl ErrCredentialLocked], r')"
    and r': "users r' = users r" "map_of (credentials r') i = Some c'"
      "pc_LockedUntil c' = Some (fst (last attempts) + 15 * minute)"
    by (cases attempts) auto
  have "Authenticate idkey sha256 random now name pw r' = (Inl ErrCredentialLocked, r')"
    if "now < fst (last attempts) + 15 * minute" for now pw random
  proof (rule Authenticate_locked)
    show "FindPasswordByUsername (ToLower (TrimSpace name)) r' = Inr (u, c')"
      by (rule FindPassword_InrI [OF accounts_ok_frame [OF ok r'(1)] _ assms(3) r'(2)]) (simp add: r'(1) u)
  qed (use assms(4) that r'(3) in \<open>simp_all add: unlocked_def\<close>)
  with run show ?thesis by blast
qed

section \<open>Migrated passwords\<close>

lemma FormatInt_no_dollar: "CHR ''$'' \<notin> set (FormatInt n)"
  by (simp add: FormatInt_def)

lemma hex_no_dollar: "hex_DecodeString s = Some b \<Longrightarrow> CHR ''$'' \<notin> set s"
proof (induction s arbitrary: b rule: hex_DecodeString.induct)
  case (3 c d s)
  have "hex_digit (CHR ''$'') = None" by code_simp
  with 3 show ?case by (auto split: option.splits)
qed auto

lemma verify_migrated:
  assumes "encodeMigratedPassword algorithm digest expiresAt = Inr encoded"
    and "0 < Unix expiresAt" and "Unix expiresAt < 2 ^ 63"
  shows "HasPrefix encoded ''$legacy$''"
    and "\<exists>d. hex_DecodeString (ToLower (TrimSpace digest)) = Some d \<and>
      verifyMigratedPassword sha256 encoded password now =
        Inr (now < time_of_unix (Unix expiresAt) \<and> sha256 (bytes_of password) = d)"
proof -
  let ?h = "ToLower (TrimSpace digest)" and ?d = "CHR ''$''"
  from assms(1) obtain d where d: "hex_DecodeString ?h = Some d" "length d = 32" "length ?h = 64"
    and e: "encoded = ''$legacy$specus_sha256$'' @ FormatInt (Unix expiresAt) @ ''$'' @ ?h"
    by (auto simp: encodeMigratedPassword_def Let_def split: if_splits option.splits)
  show "HasPrefix encoded ''$legacy$''" by (simp add: e HasPrefix_def)
  have e': "encoded = [] @ ?d # ''legacy'' @ ?d # ''specus_sha256'' @ ?d # FormatInt (Unix expiresAt) @ ?d # ?h"
    by (simp add: e)
  have "?d \<notin> set ''legacy''" "?d \<notin> set ''specus_sha256''" "?d \<notin> set []" by auto
  then have parts: "Split ?d encoded = [[], ''legacy'', ''specus_sha256'', FormatInt (Unix expiresAt), ?h]"
    unfolding e' using FormatInt_no_dollar hex_no_dollar [OF d(1)]
    by (simp only: Split_append_sep Split_no_sep simp_thms)
  have "ParseInt (FormatInt (Unix expiresAt)) = Some (Unix expiresAt)"
    using assms(2,3) by (intro ParseInt_FormatInt) auto
  with d parts assms(2) show "\<exists>d. hex_DecodeString ?h = Some d \<and>
      verifyMigratedPassword sha256 encoded password now =
        Inr (now < time_of_unix (Unix expiresAt) \<and> sha256 (bytes_of password) = d)"
    by (auto simp: verifyMigratedPassword_def)
qed

text \<open>A migrated password works until it expires and is upgraded on first use: with the password whose
  digest was imported, before the expiry (to the second), authentication succeeds and replaces the
  legacy digest by an Argon2id hash of the same password; every other password, and every password
  after the expiry, counts as a failed attempt.\<close>

lemma migrated_password_upgraded:
  assumes "identity_reachable r"
    and "FindPasswordByUsername (ToLower (TrimSpace name)) r = Inr (user, c)"
    and "us_Status user = UserActive" and "pc_LockedUntil c = None" and "pc_UserID c = us_ID user"
    and "encodeMigratedPassword PasswordMigrationSpecusSHA256 digest expiresAt = Inr (pc_Hash c)"
    and "0 < Unix expiresAt" and "Unix expiresAt < 2 ^ 63"
    and "hex_DecodeString (ToLower (TrimSpace digest)) = Some d"
    and "hashPassword idkey (Some salt) password = Inr upgraded"
  shows "if now < time_of_unix (Unix expiresAt) \<and> sha256 (bytes_of password) = d
    then (\<exists>r'. Authenticate idkey sha256 (Some salt) now name password r = (Inr user, r')
           \<and> map_of (credentials r') (us_ID user) = Some \<lparr>pc_UserID = us_ID user, pc_Hash = upgraded,
                pc_FailedAttempts = 0, pc_LockedUntil = None\<rparr>
           \<and> \<not> HasPrefix upgraded ''$legacy$'')
    else Authenticate idkey sha256 (Some salt) now name password r = authenticate_failed now c r"
proof -
  let ?ok = "now < time_of_unix (Unix expiresAt) \<and> sha256 (bytes_of password) = d"
  from accounts_ok_reachable [OF assms(1)] have u: "map_of (users r) (us_ID user) = Some user"
    by (rule FindPassword_InrD [OF _ assms(2)])
  have "verifyStoredPassword idkey sha256 (pc_Hash c) password now = Inr (?ok, ?ok)"
    using verify_migrated(1) [OF assms(6,7,8)] verify_migrated(2) [OF assms(6,7,8), of sha256 password now] assms(9)
    by (auto simp: verifyStoredPassword_def)
  note auth = Authenticate_checked [OF assms(2,3) _ this, of "Some salt"]
  have "unlocked now c" using assms(4) by (simp add: unlocked_def)
  from auth [OF this] show ?thesis
    using hashed_not_legacy [OF assms(10)]
    by (simp add: authenticate_accepted_def assms(5,10) SetPassword_def u)
qed

section \<open>Password reset\<close>

lemma TrimSpace_nonempty: "s \<noteq> [] \<Longrightarrow> (\<And>c. c \<in> set s \<Longrightarrow> \<not> is_space c) \<Longrightarrow> TrimSpace s \<noteq> []"
  by (cases s; cases s rule: rev_cases) (auto simp: TrimSpace_def)

lemma url_text_not_blank:
  assumes "b \<noteq> []"
  shows "TrimSpace (RawURLEncoding_EncodeToString b) \<noteq> []"
proof (rule TrimSpace_nonempty)
  show "RawURLEncoding_EncodeToString b \<noteq> []" using assms by simp
  fix c assume "c \<in> set (RawURLEncoding_EncodeToString b)"
  then have "c \<in> set url_alphabet" by (rule raw_encode_set [rotated]) simp
  moreover have "list_all (\<lambda>c. \<not> is_space c) url_alphabet" by code_simp
  ultimately show "\<not> is_space c" by (simp add: list_all_iff)
qed

lemma saved_reset_consumed:
  assumes keyed: "resets_keyed r" and "SavePasswordReset t r = (Inr z, r1)" and "now < pr_ExpiresAt t"
  shows "\<exists>r2. ConsumePasswordReset (pr_Hash t) now r1 = (Inr (pr_UserID t), r2)
    \<and> users r2 = users r \<and> credentials r2 = credentials r \<and> reset_spent (pr_Hash t) r2"
proof -
  let ?P = "\<lambda>(key, token). pr_Hash token = pr_Hash t \<and> now < pr_ExpiresAt token"
  have k1: "resets_keyed r1" using resets_keyed_step [OF keyed, of "CallSaveReset t"] by (simp add: assms(2))
  from assms(2) have r1: "passwordResets r1 = map_put (string_of (pr_Hash t)) t
      (map_keep (\<lambda>_ current. pr_UserID current \<noteq> pr_UserID t) (passwordResets r))"
    "users r1 = users r" "credentials r1 = credentials r"
    by (auto simp: SavePasswordReset_def split: option.splits)
  then have t: "map_of (passwordResets r1) (string_of (pr_Hash t)) = Some t" by simp
  then have "(string_of (pr_Hash t), t) \<in> set (passwordResets r1)" by (rule map_of_SomeD)
  with assms(3) obtain k w where f: "find ?P (passwordResets r1) = Some (k, w)"
    by (cases "find ?P (passwordResets r1)") (auto simp: find_None_iff)
  from find_SomeD [OF f] k1 have w: "pr_Hash w = pr_Hash t" "map_of (passwordResets r1) k = Some w"
    by (auto simp: resets_keyed_def in_set_gomap_iff)
  with k1 have "k = string_of (pr_Hash t)" unfolding resets_keyed_def by metis
  with t w(2) have "w = t" by (metis option.inject)
  with f r1 have c: "ConsumePasswordReset (pr_Hash t) now r1 =
      (Inr (pr_UserID t), r1\<lparr>passwordResets := map_delete k (passwordResets r1)\<rparr>)"
    by (simp add: ConsumePasswordReset_def)
  have "reset_spent (pr_Hash t) (snd (identity_step r1 (CallConsumeReset (pr_Hash t) now)))"
    by (rule reset_redeems_spends [OF k1]) (simp add: c)
  with c r1 show ?thesis by simp
qed

text \<open>A password reset restores access: a token issued for an active user and presented before it expires
  sets the new password, which then signs the user in even if the account was locked; presenting the
  token a second time is refused.\<close>

lemma reset_restores_access:
  assumes "identity_reachable r" and "User_Find i r = Inr u" and "us_Status u = UserActive"
    and "EqualFold (us_Username u) (ToLower (TrimSpace name))"
    and "length bytes32 = 32" and "length salt = 16" and "\<And>p s t m n l. length (idkey p s t m n l) = l"
    and "12 \<le> length password" and "length password \<le> 1024"
    and "IssueReset sha256 (Some bytes32) True issued i lifetime r = (Inr token, r1)"
    and "now < issued + default_lifetime lifetime"
  shows "\<exists>r2. Password_Reset idkey sha256 (Some salt) True now token password r1 = (Inr i, r2)
    \<and> fst (Authenticate idkey sha256 random later name password r2) = Inr u
    \<and> fst (Password_Reset idkey sha256 (Some salt) True later token password r2) = Inl ErrInvalidResetToken"
proof -
  from assms(2) have u: "map_of (users r) i = Some u" by (simp add: User_Find_def split: option.splits)
  have ok: "accounts_ok r" by (rule accounts_ok_reachable [OF assms(1)])
  let ?t = "\<lparr>pr_UserID = i, pr_Hash = HashToken sha256 token, pr_CreatedAt = issued,
    pr_ExpiresAt = issued + default_lifetime lifetime\<rparr>"
  from assms(10) have token: "token = RawURLEncoding_EncodeToString bytes32" and "SavePasswordReset ?t r = (Inr (), r1)"
    using assms(5) by (auto simp: IssueReset_def RandomToken_def SavePasswordReset_def split: option.splits prod.splits sum.splits)
  from saved_reset_consumed [OF resets_keyed_reachable [OF assms(1)] this(2), of now] assms(11)
  obtain r1' where c: "ConsumePasswordReset (HashToken sha256 token) now r1 = (Inr i, r1')"
    "users r1' = users r" "reset_spent (HashToken sha256 token) r1'" by auto
  have blank: "TrimSpace token \<noteq> []" unfolding token using assms(5) by (intro url_text_not_blank) auto
  obtain hash where hash: "hashPassword idkey (Some salt) password = Inr hash"
    by (auto simp: hashPassword_def Let_def)
  let ?c = "\<lparr>pc_UserID = i, pc_Hash = hash, pc_FailedAttempts = 0, pc_LockedUntil = None\<rparr>"
  let ?r2 = "r1'\<lparr>credentials := map_put i ?c (credentials r1')\<rparr>"
  have reset: "Password_Reset idkey sha256 (Some salt) True now token password r1 = (Inr i, ?r2)"
    using assms(8,9) blank c(1,2) u
    by (simp add: Password_Reset_def validateAndHashPassword_def hash SetPassword_def)
  have "accounts_ok ?r2" by (rule accounts_ok_frame [OF ok]) (simp add: c(2))
  then have found: "FindPasswordByUsername (ToLower (TrimSpace name)) ?r2 = Inr (u, ?c)"
    using u assms(4) by (intro FindPassword_InrI [where i = i]) (simp_all add: c(2))
  have "verifyStoredPassword idkey sha256 (pc_Hash ?c) password later = Inr (True, False)"
    using verify_hashed [OF assms(6,7) hash, of password] hashed_not_legacy [OF hash]
    by (simp add: verifyStoredPassword_def)
  from Authenticate_checked [OF found assms(3) _ this, of random]
  have "fst (Authenticate idkey sha256 random later name password ?r2) = Inr u"
    by (simp add: unlocked_def authenticate_accepted_def RecordPasswordSuccess_def)
  moreover have "reset_spent (HashToken sha256 token) ?r2" using c(3) by (simp add: reset_spent_def)
  then have "ConsumePasswordReset (HashToken sha256 token) later ?r2 = (Inl ErrInvalidResetToken, ?r2)"
    by (auto simp: ConsumePasswordReset_def reset_spent_def find_None_iff split: option.split dest!: find_SomeD)
  then have "fst (Password_Reset idkey sha256 (Some salt) True later token password ?r2) = Inl ErrInvalidResetToken"
    using assms(8,9) blank by (simp add: Password_Reset_def validateAndHashPassword_def hash)
  ultimately show ?thesis using reset by blast
qed

section \<open>Import\<close>

lemma store_migrated_other:
  "i \<notin> (\<lambda>m. us_ID (mr_User m)) ` set ms \<Longrightarrow>
   map_of (users (store_migrated ms r)) i = map_of (users r) i \<and>
   map_of (credentials (store_migrated ms r)) i = map_of (credentials r) i"
  by (induction ms arbitrary: r) (simp_all add: Let_def)

lemma store_migrated_stored:
  assumes "distinct (map (\<lambda>m. us_ID (mr_User m)) ms)" and "m \<in> set ms"
  shows "map_of (users (store_migrated ms r)) (us_ID (mr_User m)) = Some (mr_User m) \<and>
    map_of (credentials (store_migrated ms r)) (us_ID (mr_User m)) =
      Some \<lparr>pc_UserID = us_ID (mr_User m), pc_Hash = mr_PasswordHash m, pc_FailedAttempts = 0, pc_LockedUntil = None\<rparr>"
  using assms
proof (induction ms arbitrary: r)
  case (Cons n ms)
  show ?case
  proof (cases "m \<in> set ms")
    case False
    with Cons.prems have "m = n" "us_ID (mr_User m) \<notin> (\<lambda>m. us_ID (mr_User m)) ` set ms" by auto
    then show ?thesis by (simp add: store_migrated_other Let_def)
  qed (use Cons in \<open>simp add: Let_def\<close>)
qed simp

lemma migration_free_ids:
  "migration_free names emails ids ms \<Longrightarrow>
   distinct (map (\<lambda>m. us_ID (mr_User m)) ms) \<and> (\<forall>m \<in> set ms. us_ID (mr_User m) \<notin> set ids)"
proof (induction ms arbitrary: names emails ids)
  case (Cons m ms)
  from Cons.prems have i: "us_ID (mr_User m) \<notin> set ids"
    and "\<exists>names' emails'. migration_free names' emails' (us_ID (mr_User m) # ids) ms"
    by (auto simp: Let_def split: option.splits if_splits)
  with Cons.IH have "distinct (map (\<lambda>m. us_ID (mr_User m)) ms)"
    "\<forall>n \<in> set ms. us_ID (mr_User n) \<notin> set (us_ID (mr_User m) # ids)" by blast+
  with i show ?case by force
qed simp

lemma encodeMigrated_legacy:
  "encodeMigratedPassword algorithm hash expiresAt = Inr encoded \<Longrightarrow> HasPrefix encoded ''$legacy$''"
  by (auto simp: encodeMigratedPassword_def HasPrefix_def Let_def split: if_splits option.splits)

lemma import_loop_ConsD:
  assumes "import_loop algorithm now expiresAt names emails (x # items) = Inr records"
  obtains user encoded rest names' emails' where "records = \<lparr>mr_User = user, mr_PasswordHash = encoded\<rparr> # rest"
    and "HasPrefix encoded ''$legacy$''"
    and "import_loop algorithm now expiresAt names' emails' items = Inr rest"
proof (cases x)
  case (Pair random item)
  show thesis
    using assms unfolding Pair import_loop.simps
    by (simp split: sum.splits if_splits) (metis encodeMigrated_legacy that)
qed

lemma import_loop_records:
  "import_loop algorithm now expiresAt names emails items = Inr records \<Longrightarrow>
   length records = length items \<and> (\<forall>m \<in> set records. HasPrefix (mr_PasswordHash m) ''$legacy$'')"
proof (induction items arbitrary: names emails records)
  case (Cons x items)
  from Cons.prems show ?case by (rule import_loop_ConsD) (use Cons.IH in auto)
qed simp

text \<open>An import stores every user or none. When it fails nothing has changed. When it succeeds it reports
  as many users as it was given, each is found under a new identifier with a legacy digest as its
  password, and the accounts that existed before are untouched.\<close>

lemma import_all_or_nothing:
  assumes "identity_reachable r" and "length randoms = length (iu_Users input)"
  shows "case Import randoms now input r of
      (Inl err, r') \<Rightarrow> r' = r
    | (Inr res, r') \<Rightarrow> mg_Count res = length (iu_Users input) \<and> length (mg_Items res) = length (iu_Users input)
        \<and> (\<forall>u \<in> set (mg_Items res). User_Find (us_ID u) r' = Inr u \<and> User_Find (us_ID u) r = Inl ErrUserNotFound
             \<and> (\<exists>c. map_of (credentials r') (us_ID u) = Some c \<and> HasPrefix (pc_Hash c) ''$legacy$''))
        \<and> (\<forall>i u. User_Find i r = Inr u \<longrightarrow> User_Find i r' = Inr u)"
proof (cases "Import randoms now input r")
  case (Pair res r')
  show ?thesis
  proof (cases res)
    case (Inl err)
    with Pair show ?thesis
      by (auto simp: Import_def CreateWithMigratedPasswords_def Let_def split: if_splits sum.splits prod.splits)
  next
    case (Inr m)
    from Pair Inr obtain e records where
      loop: "import_loop (iu_Algorithm input) now e [] [] (zip randoms (iu_Users input)) = Inr records"
      and create: "CreateWithMigratedPasswords records r = (Inr (mg_Items m), r')"
      and count: "mg_Count m = length (mg_Items m)"
      by (auto simp: Import_def Let_def split: if_splits sum.splits prod.splits)
    from create have items: "mg_Items m = map mr_User records" and r': "r' = store_migrated records r"
      and free: "distinct (map (\<lambda>m. us_ID (mr_User m)) records)"
        "\<forall>m \<in> set records. us_ID (mr_User m) \<notin> set (map us_ID (map snd (users r)))"
      using migration_free_ids [of _ _ _ records]
      unfolding CreateWithMigratedPasswords_def Let_def by (metis Inl_Inr_False prod.inject sum.inject(2))+
    have known: "us_ID u = i \<and> i \<in> set (map us_ID (map snd (users r)))" if "map_of (users r) i = Some u" for i u
      using that accounts_okD(2) [OF accounts_ok_reachable [OF assms(1)] that] by (force dest: map_of_SomeD)
    have len: "length (mg_Items m) = length (iu_Users input)"
      using import_loop_records [OF loop] assms(2) by (simp add: items)
    have new: "User_Find (us_ID (mr_User x)) r' = Inr (mr_User x) \<and> User_Find (us_ID (mr_User x)) r = Inl ErrUserNotFound
        \<and> (\<exists>c. map_of (credentials r') (us_ID (mr_User x)) = Some c \<and> HasPrefix (pc_Hash c) ''$legacy$'')"
      if "x \<in> set records" for x
    proof -
      have "map_of (users r) (us_ID (mr_User x)) = None" using free(2) that known by (metis not_Some_eq)
      with store_migrated_stored [OF free(1) that, of r] that import_loop_records [OF loop] show ?thesis
        by (auto simp: User_Find_def r')
    qed
    have old: "User_Find i r' = Inr u" if "User_Find i r = Inr u" for i u
    proof -
      from that have "map_of (users r) i = Some u" by (simp add: User_Find_def split: option.splits)
      with known free(2) have "i \<notin> (\<lambda>m. us_ID (mr_User m)) ` set records" by auto
      with store_migrated_other that show ?thesis by (simp add: User_Find_def r')
    qed
    show ?thesis using Pair Inr count len new old by (auto simp: items)
  qed
qed

section \<open>Users from external identities\<close>

lemma replace_unsupported_chars: "c \<in> set (replace_unsupported b s) \<Longrightarrow> username_char c"
  by (induction b s rule: replace_unsupported.induct) (auto simp: username_char_def split: if_splits)

lemma trim_marks_set: "c \<in> set (trim_marks s) \<Longrightarrow> c \<in> set s"
  unfolding trim_marks_def by (auto dest!: set_dropWhileD)

lemma trim_marks_hd:
  assumes "trim_marks s \<noteq> []"
  shows "hd (trim_marks s) \<notin> set ''._-''"
proof -
  let ?p = "\<lambda>c. c \<in> set ''._-''" and ?d = "dropWhile (\<lambda>c. c \<in> set ''._-'') s"
  have "?d = rev (dropWhile ?p (rev ?d)) @ rev (takeWhile ?p (rev ?d))"
    by (metis rev_append rev_rev_ident takeWhile_dropWhile_id)
  with assms have "hd ?d = hd (trim_marks s)" "?d \<noteq> []"
    unfolding trim_marks_def by (metis hd_append2, metis append_is_Nil_conv)
  then show ?thesis by (metis hd_dropWhile)
qed

lemma hex_length: "length (hex_EncodeToString b) = 2 * length b"
  by (induction b) (simp_all add: hex_EncodeToString_def)

lemma hex_username_char:
  assumes "c \<in> set (hex_EncodeToString b)"
  shows "username_char c"
proof -
  have all: "list_all username_char hex_alphabet" "length hex_alphabet = 16" by code_simp+
  from assms obtain w :: "8 word" where w: "c = hex_alphabet ! (unat w div 16) \<or> c = hex_alphabet ! (unat w mod 16)"
    unfolding hex_EncodeToString_def by auto
  have "unat w < 256" using unsigned_less [of w] by simp
  then have "unat w div 16 < 16" "unat w mod 16 < 16" by auto
  with w all show ?thesis by (auto simp: list_all_length)
qed

lemma username_char_plain: "username_char c \<Longrightarrow> \<not> is_space c \<and> lower_char c = c"
  by (auto simp: username_char_def is_space_def lower_char_def is_lower_def is_digit_def is_upper_def char_code_def)

lemma usernamePattern_normal:
  assumes "usernamePattern s"
  shows "ToLower (TrimSpace s) = s"
proof -
  from assms obtain c t where s: "s = c # t" and all: "\<And>d. d \<in> set s \<Longrightarrow> username_char d"
    by (auto simp: usernamePattern_def username_char_def list_all_iff split: list.splits)
  have ends: "dropWhile is_space xs = xs" if "set xs \<subseteq> set s" for xs
    using that all username_char_plain by (cases xs) auto
  have "TrimSpace s = s" unfolding TrimSpace_def by (simp add: ends)
  moreover have "ToLower s = s" unfolding ToLower_def using all username_char_plain by (intro map_idI) blast
  ultimately show ?thesis by simp
qed

lemma external_username_pattern: "usernamePattern (external_username sha256 p d)"
proof -
  define u1 where "u1 = trim_marks (replace_unsupported False (ToLower (TrimSpace (ep_Username p))))"
  define u3 where "u3 = take 54 (if u1 = [] then ''user'' else u1)"
  define sfx where "sfx = (if d then ''-'' @ hex_EncodeToString (take 4 (sha256
    (bytes_of (ep_ProviderID p @ [CHR 0x00] @ ep_Subject p)))) else [])"
  let ?pad = "replicate (3 - length (u3 @ sfx)) (CHR ''0'')"
  have eq: "external_username sha256 p d = u3 @ sfx @ ?pad"
    by (auto simp: external_username_def Let_def u1_def [symmetric] u3_def sfx_def)
  have "\<And>c. c \<in> set u1 \<Longrightarrow> username_char c"
    unfolding u1_def by (auto dest!: trim_marks_set replace_unsupported_chars)
  moreover have "list_all username_char ''user''" by code_simp
  ultimately have c3: "\<And>c. c \<in> set u3 \<Longrightarrow> username_char c"
    unfolding u3_def by (auto dest!: in_set_takeD simp: list_all_iff split: if_splits)
  have "hd u3 \<notin> set ''._-''" "u3 \<noteq> []"
    using trim_marks_hd [of "replace_unsupported False (ToLower (TrimSpace (ep_Username p)))"]
    unfolding u3_def u1_def [symmetric] by (auto simp: hd_take)
  with c3 [of "hd u3"] obtain c t where u3: "u3 = c # t" and h: "is_lower c \<or> is_digit c"
    by (cases u3) (auto simp: username_char_def)
  have "username_char (CHR ''-'')" "username_char (CHR ''0'')" by code_simp+
  then have rest: "\<And>x. x \<in> set (t @ sfx @ ?pad) \<Longrightarrow> username_char x"
    using c3 u3 hex_username_char unfolding sfx_def by auto
  have "length u3 \<le> 54" by (simp add: u3_def)
  moreover have "length sfx \<le> 9" by (simp add: sfx_def hex_length)
  ultimately have "2 \<le> length (t @ sfx @ ?pad)" "length (t @ sfx @ ?pad) \<le> 63" using u3 by auto
  with h rest show ?thesis unfolding eq usernamePattern_def u3 by (simp add: list_all_iff)
qed

text \<open>The display name \<open>NewExternalUser\<close> falls back to.\<close>

definition external_display_name :: "(bytes \<Rightarrow> bytes) \<Rightarrow> ExternalProfile \<Rightarrow> bool \<Rightarrow> string" where
  "external_display_name sha256 p d =
     (if TrimSpace (ep_DisplayName p) \<noteq> [] then TrimSpace (ep_DisplayName p)
      else if ep_Username p \<noteq> [] then ep_Username p else external_username sha256 p d)"

lemma NewExternalUser_eq:
  "NewExternalUser sha256 random p d now =
     (if TrimSpace (ep_ProviderID p) = [] \<or> TrimSpace (ep_Subject p) = [] then Inl ErrUserInvalid
      else case NewUser random \<lparr>cu_Username = external_username sha256 p d,
               cu_DisplayName = external_display_name sha256 p d, cu_Email = ep_Email p, cu_Status = UserActive\<rparr> now of
          Inl err \<Rightarrow> Inl err
        | Inr user \<Rightarrow> Inr (user\<lparr>us_EmailVerified := (ep_EmailVerified p \<and> us_Email user \<noteq> None)\<rparr>))"
  by (simp add: NewExternalUser_def Let_def external_display_name_def)

text \<open>Whatever name an external provider reports, the username made from it is valid, so a new account is
  refused only for a reason other than the name: exactly when the provider or subject is blank, the
  email is malformed, or the display name is blank or longer than 128 characters. The account gets that
  username, is active, and its email counts as verified only if the provider said so.\<close>

lemma external_user_accepted_iff:
  "case NewExternalUser sha256 (Some random) p d now of
     Inr u \<Rightarrow> usernamePattern (us_Username u) \<and> us_Username u = external_username sha256 p d
       \<and> us_Status u = UserActive \<and> (us_EmailVerified u \<longrightarrow> ep_EmailVerified p \<and> us_Email u \<noteq> None)
   | Inl err \<Rightarrow> TrimSpace (ep_ProviderID p) = [] \<or> TrimSpace (ep_Subject p) = []
       \<or> isl (normalizeEmail (ep_Email p)) \<or> TrimSpace (external_display_name sha256 p d) = []
       \<or> rune_count (TrimSpace (external_display_name sha256 p d)) > 128"
proof (cases "TrimSpace (ep_ProviderID p) = [] \<or> TrimSpace (ep_Subject p) = []")
  case True
  then show ?thesis by (auto simp: NewExternalUser_def)
next
  case False
  note pat = external_username_pattern [of sha256 p d]
  let ?n = "external_display_name sha256 p d"
  show ?thesis
  proof (cases "normalizeEmail (ep_Email p)")
    case (Inl err)
    with False show ?thesis by (simp add: NewExternalUser_eq NewUser_def Let_def)
  next
    case (Inr email)
    show ?thesis
    proof (cases "TrimSpace ?n = [] \<or> rune_count (TrimSpace ?n) > 128")
      case True
      with False Inr pat usernamePattern_normal [OF pat] show ?thesis
        by (auto simp: NewExternalUser_eq NewUser_def Let_def)
    next
      case ok: False
      with False Inr pat usernamePattern_normal [OF pat] show ?thesis
        by (simp add: NewExternalUser_eq NewUser_def Let_def Status_Valid_def RandomUUID_def)
    qed
  qed
qed

section \<open>Witnesses\<close>

definition demo_idkey :: idkey where
  "demo_idkey p s t m n l = take l (p @ replicate l 0)"

lemma demo_idkey_length: "length (demo_idkey p s t m n l) = l"
  by (simp add: demo_idkey_def)

definition demo_registration :: RegisterUser where
  "demo_registration = \<lparr>re_Username = '' Ada '', re_DisplayName = ''Ada'', re_Email = Some ''a@b.c'',
     re_Password = ''correct horse''\<rparr>"

definition demo_digest :: string where
  "demo_digest = replicate 64 (CHR ''0'')"

definition demo_legacy :: string where
  "demo_legacy = ''$legacy$specus_sha256$100$'' @ demo_digest"

definition demo_migrated :: UserRepository where
  "demo_migrated = snd (identity_step (NewMemoryUserRepository []) (CallCreateWithPassword demo_user demo_legacy))"

lemma demo_migrated_reachable: "identity_reachable demo_migrated"
  unfolding demo_migrated_def by (intro identity_reachable.intros) simp_all

lemma demo_migrated_find:
  "FindPasswordByUsername (ToLower (TrimSpace '' Ada '')) demo_migrated =
     Inr (demo_user, \<lparr>pc_UserID = ''u1'', pc_Hash = demo_legacy, pc_FailedAttempts = 0, pc_LockedUntil = None\<rparr>)"
  by code_simp


theorem password_lockout_witness:
  "\<exists>r'. sign_in_attempts demo_idkey (\<lambda>b. b) '' Ada '' (replicate 5 (time_of_unix 200, ''guess'')) demo_migrated =
      (replicate 4 (Inl ErrInvalidCredentials) @ [Inl ErrCredentialLocked], r')"
proof -
  have "verifyStoredPassword demo_idkey (\<lambda>b. b) demo_legacy ''guess'' (time_of_unix 200) = Inr (False, False)"
    "User_Find ''u1'' demo_migrated = Inr demo_user" "EqualFold (us_Username demo_user) (ToLower (TrimSpace '' Ada ''))"
    "us_Status demo_user = UserActive" "map_of (credentials demo_migrated) ''u1'' =
      Some \<lparr>pc_UserID = ''u1'', pc_Hash = demo_legacy, pc_FailedAttempts = 0, pc_LockedUntil = None\<rparr>"
    "0 < time_of_unix 200" by code_simp+
  with password_lockout [OF demo_migrated_reachable this(2,3,4,5), of "replicate 5 (time_of_unix 200, ''guess'')"
      demo_idkey "\<lambda>b. b"]
  show ?thesis by auto
qed

definition demo_import :: ImportPasswordUsers where
  "demo_import = \<lparr>iu_Algorithm = PasswordMigrationSpecusSHA256, iu_ExpiresAt = None,
     iu_Users = [\<lparr>mi_Username = ''bob'', mi_DisplayName = ''Bob'', mi_Email = None, mi_Status = [],
       mi_PasswordHash = demo_digest\<rparr>]\<rparr>"

definition demo_profile :: ExternalProfile where
  "demo_profile = \<lparr>ep_ProviderID = ''ldap'', ep_Subject = ''cn=x'', ep_Username = ''X Y'', ep_DisplayName = [],
     ep_Email = None, ep_EmailTrusted = False, ep_EmailVerified = False\<rparr>"

end
