(* ===== verification/Go_JSON.thy ===== *)
theory Go_JSON
  imports Go_Encoding
begin

text \<open>
  The parts of Go's \<open>encoding/json\<close> that signed tokens go through. \<open>Marshal\<close> prints a value the way
  \<open>json.Marshal\<close> prints maps, slices, strings, booleans and integers: without white space, object
  keys in sorted order, HTML-sensitive and control characters escaped. \<open>Unmarshal\<close> is the decoder
  for the target types \<open>map[string]any\<close> and \<open>map[string]string\<close>. A number is kept as its text,
  and \<open>number_int64\<close> is \<open>int64(float64)\<close> of it, with the rounding of the conversion to
  \<open>float64\<close> written out. Bytes above 127 pass through both directions unchanged, which is what Go
  does with well-formed UTF-8 (the two separators U+2028 and U+2029, which Go escapes, apart).

  The parser takes fuel; \<open>parse_fuel\<close> shows that the fuel \<open>Unmarshal\<close> supplies never runs out.
\<close>

section \<open>Values and printing\<close>

datatype json =
    JNull
  | JBool bool
  | JNum string
  | JStr string
  | JArr "json list"
  | JObj "(string \<times> json) list"

abbreviation quote_char :: char where "quote_char \<equiv> CHR 0x22"
abbreviation backslash :: char where "backslash \<equiv> CHR 0x5C"

definition JInt :: "int \<Rightarrow> json" where
  "JInt n = JNum (FormatInt n)"

definition JStrs :: "string list \<Rightarrow> json" where
  "JStrs xs = JArr (map JStr xs)"

definition unicode_escape :: "char \<Rightarrow> string" where
  "unicode_escape c = backslash # ''u00'' @ [hex_alphabet ! (char_code c div 16), hex_alphabet ! (char_code c mod 16)]"

definition escape_char :: "char \<Rightarrow> string" where
  "escape_char c =
     (if c = quote_char \<or> c = backslash then [backslash, c]
      else if char_code c = 8 then [backslash, CHR ''b'']
      else if char_code c = 9 then [backslash, CHR ''t'']
      else if char_code c = 10 then [backslash, CHR ''n'']
      else if char_code c = 12 then [backslash, CHR ''f'']
      else if char_code c = 13 then [backslash, CHR ''r'']
      else if char_code c < 32 \<or> c = CHR ''<'' \<or> c = CHR ''>'' \<or> c = CHR ''&'' then unicode_escape c
      else [c])"

definition quoted :: "string \<Rightarrow> string" where
  "quoted s = quote_char # concat (map escape_char s) @ [quote_char]"

fun Marshal :: "json \<Rightarrow> string" where
  "Marshal JNull = ''null''"
| "Marshal (JBool b) = (if b then ''true'' else ''false'')"
| "Marshal (JNum n) = n"
| "Marshal (JStr s) = quoted s"
| "Marshal (JArr vs) = ''['' @ Join '','' (map Marshal vs) @ '']''"
| "Marshal (JObj kvs) =
     CHR ''{'' # Join '','' (map snd (sort_key fst (map (\<lambda>(k, v). (k, quoted k @ '':'' @ Marshal v)) kvs))) @ ''}''"

section \<open>Parsing\<close>

definition json_space :: "char \<Rightarrow> bool" where
  "json_space c = (char_code c = 32 \<or> char_code c = 9 \<or> char_code c = 10 \<or> char_code c = 13)"

definition skip_ws :: "string \<Rightarrow> string" where
  "skip_ws s = dropWhile json_space s"

definition hex4 :: "char \<Rightarrow> char \<Rightarrow> char \<Rightarrow> char \<Rightarrow> nat option" where
  "hex4 a b c d =
     (case (hex_digit a, hex_digit b, hex_digit c, hex_digit d) of
        (Some w, Some x, Some y, Some z) \<Rightarrow> Some (16 * (16 * (16 * w + x) + y) + z)
      | _ \<Rightarrow> None)"

text \<open>\<open>utf8.EncodeRune\<close>.\<close>

definition EncodeRune :: "nat \<Rightarrow> string" where
  "EncodeRune n =
     (if n < 128 then [char_of n]
      else if n < 2048 then [char_of (192 + n div 64), char_of (128 + n mod 64)]
      else if n < 65536 then
        [char_of (224 + n div 4096), char_of (128 + n div 64 mod 64), char_of (128 + n mod 64)]
      else [char_of (240 + n div 262144), char_of (128 + n div 4096 mod 64),
            char_of (128 + n div 64 mod 64), char_of (128 + n mod 64)])"

definition is_surrogate :: "nat \<Rightarrow> bool" where
  "is_surrogate n = (55296 \<le> n \<and> n < 57344)"

definition surrogate_pair :: "nat \<Rightarrow> nat \<Rightarrow> nat option" where
  "surrogate_pair n m =
     (if n < 56320 \<and> 56320 \<le> m \<and> m < 57344 then Some (65536 + 1024 * (n - 55296) + (m - 56320)) else None)"

definition simple_escape :: "char \<Rightarrow> char option" where
  "simple_escape c =
     (if c \<in> {quote_char, backslash, CHR ''/''} then Some c
      else if c = CHR ''b'' then Some (char_of (8 :: nat))
      else if c = CHR ''f'' then Some (char_of (12 :: nat))
      else if c = CHR ''n'' then Some (char_of (10 :: nat))
      else if c = CHR ''r'' then Some (char_of (13 :: nat))
      else if c = CHR ''t'' then Some (char_of (9 :: nat))
      else None)"

text \<open>The first escape of a string, after its backslash: the decoded bytes and the rest of the input.\<close>

fun second_half :: "nat \<Rightarrow> string \<Rightarrow> string \<times> string" where
  "second_half n (s # u # a # b # c # d # rest) =
     (if s = backslash \<and> u = CHR ''u'' then
        (case hex4 a b c d of
           None \<Rightarrow> (EncodeRune 65533, s # u # a # b # c # d # rest)
         | Some m \<Rightarrow>
             (case surrogate_pair n m of
                None \<Rightarrow> (EncodeRune 65533, s # u # a # b # c # d # rest)
              | Some r \<Rightarrow> (EncodeRune r, rest)))
      else (EncodeRune 65533, s # u # a # b # c # d # rest))"
| "second_half n rest = (EncodeRune 65533, rest)"

definition read_escape :: "string \<Rightarrow> (string \<times> string) option" where
  "read_escape s =
     (case s of
        [] \<Rightarrow> None
      | e # rest \<Rightarrow>
          if e = CHR ''u'' then
            (case rest of
               a # b # c # d # rest' \<Rightarrow>
                 (case hex4 a b c d of
                    None \<Rightarrow> None
                  | Some n \<Rightarrow> Some (if is_surrogate n then second_half n rest' else (EncodeRune n, rest')))
             | _ \<Rightarrow> None)
          else map_option (\<lambda>c. ([c], rest)) (simple_escape e))"

lemma second_half_length: "length (snd (second_half n s)) \<le> length s"
  by (induction n s rule: second_half.induct) (auto split: option.splits)

lemma read_escape_length: "read_escape s = Some (t, rest) \<Longrightarrow> length rest < length s"
proof -
  assume "read_escape s = Some (t, rest)"
  moreover have "length (snd (second_half n r)) < Suc (Suc (Suc (Suc (Suc (length r)))))" for n r
    using second_half_length [of n r] by simp
  ultimately show ?thesis
    by (auto simp: read_escape_def split: list.splits if_splits option.splits) (metis snd_conv)+
qed

text \<open>A string after its opening quote: the value and what follows the closing quote.\<close>

function string_body :: "string \<Rightarrow> (string \<times> string) option" where
  "string_body [] = None"
| "string_body (c # s) =
     (if c = quote_char then Some ([], s)
      else if c = backslash then
        (case read_escape s of
           None \<Rightarrow> None
         | Some (t, rest) \<Rightarrow> map_option (\<lambda>(v, r). (t @ v, r)) (string_body rest))
      else if char_code c < 32 then None
      else map_option (\<lambda>(v, r). (c # v, r)) (string_body s))"
  by pat_completeness auto
termination by (relation "measure length") (auto dest: read_escape_length)

text \<open>The longest number at the front of the input; \<open>None\<close> where the scanner reports an error.\<close>

definition digits_front :: "string \<Rightarrow> string \<times> string" where
  "digits_front s = (takeWhile is_digit s, dropWhile is_digit s)"

definition scan_int :: "string \<Rightarrow> (string \<times> string) option" where
  "scan_int s =
     (case s of
        [] \<Rightarrow> None
      | c # rest \<Rightarrow>
          if c = CHR ''0'' then Some ([c], rest)
          else if is_digit c then Some (digits_front s)
          else None)"

definition scan_frac :: "string \<Rightarrow> (string \<times> string) option" where
  "scan_frac s =
     (case s of
        [] \<Rightarrow> Some ([], s)
      | c # rest \<Rightarrow>
          if c = CHR ''.'' then
            (case digits_front rest of (ds, rest') \<Rightarrow> if ds = [] then None else Some (c # ds, rest'))
          else Some ([], s))"

definition scan_exp :: "string \<Rightarrow> (string \<times> string) option" where
  "scan_exp s =
     (case s of
        [] \<Rightarrow> Some ([], s)
      | c # rest \<Rightarrow>
          if c = CHR ''e'' \<or> c = CHR ''E'' then
            (let (sign, rest1) = (case rest of d # ds \<Rightarrow> if d = CHR ''+'' \<or> d = CHR ''-'' then ([d], ds) else ([], rest)
                                  | [] \<Rightarrow> ([], rest))
             in case digits_front rest1 of (ds, rest2) \<Rightarrow> if ds = [] then None else Some (c # sign @ ds, rest2))
          else Some ([], s))"

definition scan_number :: "string \<Rightarrow> (string \<times> string) option" where
  "scan_number s =
     (let (sign, s1) = (case s of c # rest \<Rightarrow> if c = CHR ''-'' then ([c], rest) else ([], s) | [] \<Rightarrow> ([], s))
      in case scan_int s1 of
           None \<Rightarrow> None
         | Some (i, s2) \<Rightarrow>
             (case scan_frac s2 of
                None \<Rightarrow> None
              | Some (f, s3) \<Rightarrow> map_option (\<lambda>(e, s4). (sign @ i @ f @ e, s4)) (scan_exp s3)))"

definition parse_word :: "string \<Rightarrow> (json \<times> string) option" where
  "parse_word s =
     (if HasPrefix s ''true'' then Some (JBool True, drop 4 s)
      else if HasPrefix s ''false'' then Some (JBool False, drop 5 s)
      else if HasPrefix s ''null'' then Some (JNull, drop 4 s)
      else None)"

fun parse_value :: "nat \<Rightarrow> string \<Rightarrow> (json \<times> string) option"
  and parse_members :: "nat \<Rightarrow> string \<Rightarrow> ((string \<times> json) list \<times> string) option"
  and parse_elements :: "nat \<Rightarrow> string \<Rightarrow> (json list \<times> string) option" where
  "parse_value 0 s = None"
| "parse_value (Suc n) s =
     (case skip_ws s of
        [] \<Rightarrow> None
      | c # rest \<Rightarrow>
          if c = quote_char then map_option (\<lambda>(v, r). (JStr v, r)) (string_body rest)
          else if c = CHR ''{'' then
            (case skip_ws rest of
               [] \<Rightarrow> None
             | d # rest' \<Rightarrow> if d = CHR ''}'' then Some (JObj [], rest')
                             else map_option (\<lambda>(kvs, r). (JObj kvs, r)) (parse_members n rest))
          else if c = CHR ''['' then
            (case skip_ws rest of
               [] \<Rightarrow> None
             | d # rest' \<Rightarrow> if d = CHR '']'' then Some (JArr [], rest')
                             else map_option (\<lambda>(vs, r). (JArr vs, r)) (parse_elements n rest))
          else if c = CHR ''-'' \<or> is_digit c then map_option (\<lambda>(v, r). (JNum v, r)) (scan_number (c # rest))
          else parse_word (c # rest))"
| "parse_members 0 s = None"
| "parse_members (Suc n) s =
     (case skip_ws s of
        [] \<Rightarrow> None
      | c # rest \<Rightarrow>
          if c \<noteq> quote_char then None
          else case string_body rest of
              None \<Rightarrow> None
            | Some (k, r1) \<Rightarrow>
                (case skip_ws r1 of
                   [] \<Rightarrow> None
                 | d # r2 \<Rightarrow>
                     if d \<noteq> CHR '':'' then None
                     else case parse_value n r2 of
                         None \<Rightarrow> None
                       | Some (v, r3) \<Rightarrow>
                           (case skip_ws r3 of
                              [] \<Rightarrow> None
                            | e # r4 \<Rightarrow>
                                if e = CHR ''}'' then Some ([(k, v)], r4)
                                else if e = CHR '','' then map_option (\<lambda>(kvs, r). ((k, v) # kvs, r)) (parse_members n r4)
                                else None)))"
| "parse_elements 0 s = None"
| "parse_elements (Suc n) s =
     (case parse_value n s of
        None \<Rightarrow> None
      | Some (v, r3) \<Rightarrow>
          (case skip_ws r3 of
             [] \<Rightarrow> None
           | e # r4 \<Rightarrow>
               if e = CHR '']'' then Some ([v], r4)
               else if e = CHR '','' then map_option (\<lambda>(vs, r). (v # vs, r)) (parse_elements n r4)
               else None))"

section \<open>Numbers\<close>

text \<open>The value of a number as the quotient of two naturals, without its sign.\<close>

definition signed_nat :: "string \<Rightarrow> int" where
  "signed_nat s =
     (case s of
        [] \<Rightarrow> 0
      | c # ds \<Rightarrow> if c = CHR ''-'' then - int (digits_value ds)
                  else if c = CHR ''+'' then int (digits_value ds) else int (digits_value s))"

definition number_ratio :: "string \<Rightarrow> nat \<times> nat" where
  "number_ratio s =
     (let (i, r1) = digits_front (case s of c # rest \<Rightarrow> if c = CHR ''-'' then rest else s | [] \<Rightarrow> s);
          (f, r2) = (case r1 of c # rest \<Rightarrow> if c = CHR ''.'' then digits_front rest else ([], r1) | [] \<Rightarrow> ([], r1));
          e = (case r2 of c # rest \<Rightarrow> signed_nat rest | [] \<Rightarrow> 0) - int (length f)
      in if 0 \<le> e then (digits_value (i @ f) * 10 ^ nat e, 1) else (digits_value (i @ f), 10 ^ nat (- e)))"

fun bit_length :: "nat \<Rightarrow> nat" where
  "bit_length n = (if n = 0 then 0 else Suc (bit_length (n div 2)))"

declare bit_length.simps [simp del]

definition round_half_even :: "nat \<Rightarrow> nat \<Rightarrow> nat" where
  "round_half_even a b =
     (let q = a div b; r = a mod b in if b < 2 * r \<or> (2 * r = b \<and> odd q) then Suc q else q)"

text \<open>The integral part of the \<open>float64\<close> nearest to a quotient (53 significant bits).\<close>

definition float_trunc :: "nat \<times> nat \<Rightarrow> nat" where
  "float_trunc q =
     (case q of (a, b) \<Rightarrow>
        let k = bit_length (a div b)
        in if k \<le> 53 then round_half_even (a * 2 ^ (53 - k)) b div 2 ^ (53 - k)
           else round_half_even a (b * 2 ^ (k - 53)) * 2 ^ (k - 53))"

text \<open>\<open>int64(f)\<close> for \<open>f\<close> the \<open>float64\<close> of a number; out of range as on amd64.\<close>

definition number_int64 :: "string \<Rightarrow> int" where
  "number_int64 s =
     (let t = int (float_trunc (number_ratio s)); v = (if HasPrefix s ''-'' then - t else t)
      in if v < - (2 ^ 63) \<or> 2 ^ 63 \<le> v then - (2 ^ 63) else v)"

definition number_in_range :: "string \<Rightarrow> bool" where
  "number_in_range s = (float_trunc (number_ratio s) < 2 ^ 1024)"

fun numbers_ok :: "json \<Rightarrow> bool" where
  "numbers_ok (JNum s) = number_in_range s"
| "numbers_ok (JArr vs) = list_all numbers_ok vs"
| "numbers_ok (JObj kvs) = list_all (\<lambda>(k, v). numbers_ok v) kvs"
| "numbers_ok v = True"

section \<open>\<open>json.Unmarshal\<close>\<close>

text \<open>The decoded object; a repeated key keeps its last value.\<close>

type_synonym claims = "(string, json) gomap"

definition object_map :: "(string \<times> 'v) list \<Rightarrow> (string, 'v) gomap" where
  "object_map kvs = fold (\<lambda>(k, v). map_put k v) kvs []"

definition Unmarshal :: "string \<Rightarrow> json option" where
  "Unmarshal s =
     (case parse_value (Suc (2 * length s)) s of
        None \<Rightarrow> None
      | Some (v, rest) \<Rightarrow> if skip_ws rest = [] \<and> numbers_ok v then Some v else None)"

definition Unmarshal_map :: "string \<Rightarrow> claims option" where
  "Unmarshal_map s =
     (case Unmarshal s of
        Some (JObj kvs) \<Rightarrow> Some (object_map kvs)
      | Some JNull \<Rightarrow> Some []
      | _ \<Rightarrow> None)"

fun string_values :: "(string \<times> json) list \<Rightarrow> (string \<times> string) list option" where
  "string_values [] = Some []"
| "string_values ((k, v) # kvs) =
     (case v of
        JStr s \<Rightarrow> map_option ((#) (k, s)) (string_values kvs)
      | JNull \<Rightarrow> map_option ((#) (k, [])) (string_values kvs)
      | _ \<Rightarrow> None)"

definition Unmarshal_strings :: "string \<Rightarrow> (string, string) gomap option" where
  "Unmarshal_strings s =
     (case Unmarshal s of
        Some (JObj kvs) \<Rightarrow> map_option object_map (string_values kvs)
      | Some JNull \<Rightarrow> Some []
      | _ \<Rightarrow> None)"

text \<open>The type assertions \<open>claims[k].(string)\<close> and \<open>int64(claims[k].(float64))\<close>; zero on a mismatch.\<close>

definition claim_string :: "string \<Rightarrow> claims \<Rightarrow> string" where
  "claim_string k m = (case map_of m k of Some (JStr s) \<Rightarrow> s | _ \<Rightarrow> [])"

definition claim_int64 :: "string \<Rightarrow> claims \<Rightarrow> int" where
  "claim_int64 k m = (case map_of m k of Some (JNum n) \<Rightarrow> number_int64 n | _ \<Rightarrow> 0)"

section \<open>The fuel is enough\<close>

lemma skip_ws_length: "length (skip_ws s) \<le> length s"
  by (simp add: skip_ws_def length_dropWhile_le)

lemma skip_ws_Cons: "skip_ws s = c # rest \<Longrightarrow> length rest < length s"
  using skip_ws_length [of s] by simp

lemma string_body_length: "string_body s = Some (v, r) \<Longrightarrow> length r < length s"
proof (induction s arbitrary: v r rule: string_body.induct)
  case (2 c s)
  then show ?case
    by (fastforce split: if_splits option.splits dest: read_escape_length)
qed simp

lemma digits_front_length: "digits_front s = (ds, r) \<Longrightarrow> length r \<le> length s"
  by (auto simp: digits_front_def length_dropWhile_le)

lemma scan_int_length: "scan_int s = Some (t, r) \<Longrightarrow> length r < length s"
  by (auto simp: scan_int_def digits_front_def le_imp_less_Suc length_dropWhile_le split: list.splits if_splits)

lemma scan_frac_length: "scan_frac s = Some (t, r) \<Longrightarrow> length r \<le> length s"
  by (auto simp: scan_frac_def split: list.splits if_splits prod.splits dest: digits_front_length)

lemma scan_exp_length: "scan_exp s = Some (t, r) \<Longrightarrow> length r \<le> length s"
  by (auto simp: scan_exp_def Let_def split: list.splits if_splits prod.splits dest!: digits_front_length)

lemma scan_number_length: "scan_number s = Some (t, r) \<Longrightarrow> length r < length s"
  by (fastforce simp: scan_number_def Let_def split: list.splits if_splits prod.splits option.splits
      dest!: scan_int_length scan_frac_length scan_exp_length)

lemma parse_word_length: "parse_word s = Some (v, r) \<Longrightarrow> length r < length s"
  by (cases s) (auto simp: parse_word_def HasPrefix_def split: if_splits)

lemma parse_members_Suc_cases:
  assumes "parse_members (Suc n) s = Some (kvs, r)"
  obtains rest k r1 r2 v r3 e r4 where "skip_ws s = quote_char # rest" and "string_body rest = Some (k, r1)"
    and "skip_ws r1 = CHR '':'' # r2" and "parse_value n r2 = Some (v, r3)" and "skip_ws r3 = e # r4"
    and "(e = CHR ''}'' \<and> r = r4) \<or> (\<exists>kvs'. parse_members n r4 = Some (kvs', r))"
proof -
  from assms obtain c rest where 1: "skip_ws s = c # rest" by (auto split: list.splits)
  with assms have c: "c = quote_char" by (auto split: if_splits)
  with assms 1 obtain k r1 where 2: "string_body rest = Some (k, r1)" by (auto split: option.splits)
  with assms 1 c obtain d r2 where 3: "skip_ws r1 = d # r2" by (auto split: list.splits)
  with assms 1 2 c have d: "d = CHR '':''" by (auto split: if_splits)
  with assms 1 2 3 c obtain v r3 where 4: "parse_value n r2 = Some (v, r3)" by (auto split: option.splits)
  with assms 1 2 3 c d obtain e r4 where 5: "skip_ws r3 = e # r4" by (auto split: list.splits)
  with assms 1 2 3 4 c d show ?thesis
    by (intro that [of rest k r1 r2 v r3 e r4]) (auto split: if_splits)
qed

lemma parse_elements_Suc_cases:
  assumes "parse_elements (Suc n) s = Some (vs, r)"
  obtains v r3 e r4 where "parse_value n s = Some (v, r3)" and "skip_ws r3 = e # r4"
    and "(e = CHR '']'' \<and> r = r4) \<or> (\<exists>vs'. parse_elements n r4 = Some (vs', r))"
proof -
  from assms obtain v r3 where 4: "parse_value n s = Some (v, r3)" by (auto split: option.splits)
  with assms obtain e r4 where 5: "skip_ws r3 = e # r4" by (auto split: list.splits)
  with assms 4 show ?thesis by (intro that [of v r3 e r4]) (auto split: if_splits)
qed

lemma parse_value_Suc_cases:
  assumes "parse_value (Suc n) s = Some (v, r)"
  obtains c rest where "skip_ws s = c # rest"
    and "(\<exists>t. string_body rest = Some (t, r)) \<or> (\<exists>d. skip_ws rest = d # r)
      \<or> (\<exists>kvs. parse_members n rest = Some (kvs, r)) \<or> (\<exists>vs. parse_elements n rest = Some (vs, r))
      \<or> (\<exists>t. scan_number (c # rest) = Some (t, r)) \<or> parse_word (c # rest) = Some (v, r)"
proof -
  from assms obtain c rest where 1: "skip_ws s = c # rest" by (auto split: list.splits)
  with assms show ?thesis by (intro that [of c rest]) (auto split: if_splits list.splits)
qed

lemma parse_length_all:
  "(\<forall>s v r. parse_value n s = Some (v, r) \<longrightarrow> length r < length s)
   \<and> (\<forall>s kvs r. parse_members n s = Some (kvs, r) \<longrightarrow> length r < length s)
   \<and> (\<forall>s vs r. parse_elements n s = Some (vs, r) \<longrightarrow> length r < length s)"
proof (induction n)
  case (Suc n)
  have "length r < length s" if "parse_value (Suc n) s = Some (v, r)" for s v r
  proof -
    from that obtain c rest where s: "skip_ws s = c # rest" and "(\<exists>t. string_body rest = Some (t, r)) \<or> (\<exists>d. skip_ws rest = d # r)
      \<or> (\<exists>kvs. parse_members n rest = Some (kvs, r)) \<or> (\<exists>vs. parse_elements n rest = Some (vs, r))
      \<or> (\<exists>t. scan_number (c # rest) = Some (t, r)) \<or> parse_word (c # rest) = Some (v, r)"
      by (rule parse_value_Suc_cases)
    then have "length r < length (c # rest)"
      using Suc.IH by (fastforce dest: string_body_length skip_ws_Cons scan_number_length parse_word_length)
    with s skip_ws_length [of s] show ?thesis by simp
  qed
  moreover have "length r < length s" if "parse_members (Suc n) s = Some (kvs, r)" for s kvs r
  proof -
    from that obtain rest k r1 r2 v r3 e r4 where "skip_ws s = quote_char # rest" "string_body rest = Some (k, r1)"
      "skip_ws r1 = CHR '':'' # r2" "parse_value n r2 = Some (v, r3)" "skip_ws r3 = e # r4"
      "(e = CHR ''}'' \<and> r = r4) \<or> (\<exists>kvs'. parse_members n r4 = Some (kvs', r))"
      by (rule parse_members_Suc_cases)
    moreover from this Suc.IH have "length r3 < length r2" "length r \<le> length r4" by (blast, auto simp: less_imp_le)
    ultimately show ?thesis by (auto dest!: skip_ws_Cons string_body_length)
  qed
  moreover have "length r < length s" if "parse_elements (Suc n) s = Some (vs, r)" for s vs r
  proof -
    from that obtain v r3 e r4 where "parse_value n s = Some (v, r3)" "skip_ws r3 = e # r4"
      "(e = CHR '']'' \<and> r = r4) \<or> (\<exists>vs'. parse_elements n r4 = Some (vs', r))"
      by (rule parse_elements_Suc_cases)
    moreover from this Suc.IH have "length r3 < length s" "length r \<le> length r4" by (blast, auto simp: less_imp_le)
    ultimately show ?thesis by (auto dest!: skip_ws_Cons)
  qed
  ultimately show ?case by blast
qed simp

lemmas parse_value_length = parse_length_all [THEN conjunct1, rule_format]

text \<open>With twice as much fuel as input, the parser gives the same answer whatever the fuel.\<close>

lemma parse_fuel_all:
  "(\<forall>s n. 2 * length s < m \<longrightarrow> 2 * length s < n \<longrightarrow> parse_value n s = parse_value m s)
   \<and> (\<forall>s n. 2 * length s < m \<longrightarrow> 2 * length s < n \<longrightarrow> parse_members n s = parse_members m s)
   \<and> (\<forall>s n. 2 * length s + 1 < m \<longrightarrow> 2 * length s + 1 < n \<longrightarrow> parse_elements n s = parse_elements m s)"
proof (induction m)
  case (Suc m)
  note IH = Suc.IH [THEN conjunct1, rule_format] Suc.IH [THEN conjunct2, THEN conjunct1, rule_format]
    Suc.IH [THEN conjunct2, THEN conjunct2, rule_format]
  have vals: "parse_value n s = parse_value (Suc m) s" if "2 * length s < Suc m" "2 * length s < n" for s n
  proof -
    from that obtain n' where n: "n = Suc n'" by (cases n) auto
    show ?thesis
    proof (cases "skip_ws s")
      case (Cons c rest)
      then have "2 * length rest + 1 < m" "2 * length rest + 1 < n'" using skip_ws_Cons [OF Cons] n that by auto
      then have "parse_members n' rest = parse_members m rest" "parse_elements n' rest = parse_elements m rest"
        by (auto intro: IH)
      then show ?thesis unfolding n by (simp add: Cons split: list.splits)
    qed (simp add: n)
  qed
  have members: "parse_members n s = parse_members (Suc m) s" if "2 * length s < Suc m" "2 * length s < n" for s n
  proof -
    from that obtain n' where n: "n = Suc n'" by (cases n) auto
    have v: "parse_value n' r = parse_value m r" "parse_members n' r = parse_members m r" if "length r < length s" for r
      using that n \<open>2 * length s < Suc m\<close> \<open>2 * length s < n\<close> by (auto intro!: IH)
    show ?thesis
    proof (cases "\<exists>rest k r1 r2. skip_ws s = quote_char # rest \<and> string_body rest = Some (k, r1) \<and> skip_ws r1 = CHR '':'' # r2")
      case True
      then obtain rest k r1 r2 where c: "skip_ws s = quote_char # rest" "string_body rest = Some (k, r1)" "skip_ws r1 = CHR '':'' # r2"
        by blast
      then have l2: "length r2 < length s" by (auto dest!: skip_ws_Cons string_body_length)
      show ?thesis
      proof (cases "\<exists>x r3 e r4. parse_value m r2 = Some (x, r3) \<and> skip_ws r3 = e # r4")
        case True
        then obtain x r3 e r4 where p: "parse_value m r2 = Some (x, r3)" "skip_ws r3 = e # r4" by blast
        then have "length r4 < length s" using l2 by (auto dest!: skip_ws_Cons parse_value_length)
        then show ?thesis by (simp add: n c p v l2)
      next
        case False
        then show ?thesis by (auto simp: n c v l2 split: option.splits list.splits)
      qed
    next
      case False
      then show ?thesis by (auto simp: n split: option.splits list.splits)
    qed
  qed
  have "parse_elements n s = parse_elements (Suc m) s" if "2 * length s + 1 < Suc m" "2 * length s + 1 < n" for s n
  proof -
    from that obtain n' where n: "n = Suc n'" by (cases n) auto
    have v: "parse_value n' s = parse_value m s" using that n by (auto intro!: IH)
    have e: "parse_elements n' r = parse_elements m r" if "length r < length s" for r
      using that n \<open>2 * length s + 1 < Suc m\<close> \<open>2 * length s + 1 < n\<close> by (auto intro!: IH)
    show ?thesis
    proof (cases "\<exists>x r3 e r4. parse_value m s = Some (x, r3) \<and> skip_ws r3 = e # r4")
      case True
      then obtain x r3 e r4 where p: "parse_value m s = Some (x, r3)" "skip_ws r3 = e # r4" by blast
      then have "length r4 < length s" by (auto dest!: skip_ws_Cons parse_value_length)
      then show ?thesis by (simp add: n p v e)
    next
      case False
      then show ?thesis by (auto simp: n v split: option.splits list.splits)
    qed
  qed
  with vals members show ?case by blast
qed simp

lemma parse_fuel: "2 * length s < n \<Longrightarrow> parse_value n s = parse_value (Suc (2 * length s)) s"
  by (rule parse_fuel_all [THEN conjunct1, rule_format]) simp_all

section \<open>What is printed is parsed back\<close>

lemma string_body_unicode:
  assumes "char_code c < 128"
  shows "string_body (unicode_escape c @ t) = map_option (\<lambda>(v, r). (c # v, r)) (string_body t)"
proof -
  have "hex4 (CHR ''0'') (CHR ''0'') (hex_alphabet ! (char_code c div 16)) (hex_alphabet ! (char_code c mod 16)) =
      Some (char_code c)"
    using assms hex_digit_nth [of "char_code c div 16"] hex_digit_nth [of "char_code c mod 16"] hex_digit_nth [of 0]
    by (simp add: hex4_def hex_alphabet_def)
  then have "read_escape (tl (unicode_escape c) @ t) = Some ([c], t)"
    using assms by (simp add: read_escape_def unicode_escape_def is_surrogate_def EncodeRune_def char_code_def)
  then show ?thesis by (simp add: unicode_escape_def)
qed

lemma string_body_escape:
  "string_body (escape_char c @ t) = map_option (\<lambda>(v, r). (c # v, r)) (string_body t)"
proof -
  have code: "char_code c = k \<Longrightarrow> char_of k = c" for k
    using char_of_char_code [of c] by simp
  have u: "c = CHR ''<'' \<or> c = CHR ''>'' \<or> c = CHR ''&'' \<Longrightarrow> char_code c < 128"
    by (auto simp: char_code_def)
  show ?thesis
  proof (cases "c = quote_char \<or> c = backslash")
    case True
    then show ?thesis by (auto simp: escape_char_def read_escape_def simple_escape_def)
  next
    case plain: False
    show ?thesis
    proof (cases "char_code c \<in> {8, 9, 10, 12, 13}")
      case True
      let ?e = "if char_code c = 8 then CHR ''b'' else if char_code c = 9 then CHR ''t''
        else if char_code c = 10 then CHR ''n'' else if char_code c = 12 then CHR ''f'' else CHR ''r''"
      from True plain have "escape_char c = [backslash, ?e]" by (auto simp: escape_char_def)
      moreover have "simple_escape ?e = Some c"
        using True code [of 8] code [of 9] code [of 10] code [of 12] code [of 13] by (simp add: simple_escape_def) blast
      moreover have "?e \<noteq> CHR ''u''" by simp
      ultimately show ?thesis by (simp add: read_escape_def del: if_split)
    next
      case False
      show ?thesis
      proof (cases "char_code c < 32 \<or> c = CHR ''<'' \<or> c = CHR ''>'' \<or> c = CHR ''&''")
        case True
        with plain False have "escape_char c = unicode_escape c" by (simp add: escape_char_def)
        moreover have "char_code c < 128" using True u by auto
        ultimately show ?thesis by (simp add: string_body_unicode)
      next
        case ok: False
        with plain False have "escape_char c = [c]" by (simp add: escape_char_def)
        with plain ok show ?thesis by simp
      qed
    qed
  qed
qed

lemma string_body_quoted: "string_body (concat (map escape_char s) @ quote_char # rest) = Some (s, rest)"
  by (induction s) (simp_all add: string_body_escape)

lemma decimal_hd: "0 < n \<Longrightarrow> \<exists>c ds. decimal n = c # ds \<and> c \<noteq> CHR ''0''"
proof (induction n rule: decimal.induct)
  case (1 n)
  show ?case
  proof (cases "n < 10")
    case True
    have "char_of (48 + n) \<noteq> CHR ''0''"
    proof
      assume "char_of (48 + n) = CHR ''0''"
      then have "char_code (char_of (48 + n)) = char_code (CHR ''0'')" by simp
      with True 1 show False by (simp only: char_code_digit) (simp add: char_code_def)
    qed
    with True show ?thesis by (simp add: decimal.simps)
  next
    case False
    then have "0 < n div 10" by (simp add: div_greater_zero_iff)
    with 1 False obtain c ds where "decimal (n div 10) = c # ds" "c \<noteq> CHR ''0''" by auto
    with False show ?thesis by (subst decimal.simps) simp
  qed
qed

definition json_end :: "string \<Rightarrow> bool" where
  "json_end s = (s = [] \<or> hd s \<in> {CHR '','', CHR ''}'', CHR '']''})"

lemma json_end_no_digit: "json_end s \<Longrightarrow> takeWhile is_digit s = [] \<and> dropWhile is_digit s = s"
  by (cases s) (auto simp: json_end_def is_digit_def char_code_def)

lemma scan_decimal: "json_end rest \<Longrightarrow> scan_int (decimal n @ rest) = Some (decimal n, rest)"
proof (cases "n = 0")
  case True
  moreover have "decimal 0 = ''0''" by code_simp
  ultimately show ?thesis by (simp add: scan_int_def)
next
  case False
  assume fin: "json_end rest"
  from False obtain c ds where d: "decimal n = c # ds" "c \<noteq> CHR ''0''" using decimal_hd [of n] by auto
  have "list_all is_digit (decimal n)" using decimal_digits [of n] by (simp add: all_digits_def)
  then have "digits_front (decimal n @ rest) = (decimal n, rest)" "is_digit c"
    using json_end_no_digit [OF fin] d by (auto simp: digits_front_def list_all_iff takeWhile_append2 dropWhile_append2)
  with d show ?thesis by (simp add: scan_int_def)
qed

lemma scan_tail: "json_end rest \<Longrightarrow> scan_frac rest = Some ([], rest) \<and> scan_exp rest = Some ([], rest)"
  by (cases rest) (auto simp: json_end_def scan_frac_def scan_exp_def)

lemma decimal_Cons: "\<exists>c ds. decimal n = c # ds \<and> is_digit c"
  using decimal_digits [of n] by (cases "decimal n") (auto simp: all_digits_def)

lemma scan_FormatInt: "json_end rest \<Longrightarrow> scan_number (FormatInt i @ rest) = Some (FormatInt i, rest)"
proof -
  assume "json_end rest"
  moreover from decimal_Cons [of "nat i"] obtain c ds where "decimal (nat i) = c # ds" "c \<noteq> CHR ''-''"
    using digit_not_sign by blast
  ultimately show ?thesis
    using scan_decimal [of rest "nat i"] scan_decimal [of rest "nat (- i)"] scan_tail [of rest]
    by (auto simp: scan_number_def FormatInt_def Let_def)
qed

text \<open>Values with integer numbers, and the same value with the members of every object in order.\<close>

fun integral :: "json \<Rightarrow> bool" where
  "integral (JNum s) = (\<exists>i. s = FormatInt i \<and> \<bar>i\<bar> < 2 ^ 53)"
| "integral (JArr vs) = list_all integral vs"
| "integral (JObj kvs) = list_all (\<lambda>(k, v). integral v) kvs"
| "integral v = True"

fun sorted_keys :: "json \<Rightarrow> json" where
  "sorted_keys (JArr vs) = JArr (map sorted_keys vs)"
| "sorted_keys (JObj kvs) = JObj (sort_key fst (map (\<lambda>(k, v). (k, sorted_keys v)) kvs))"
| "sorted_keys v = v"

definition member_text :: "string \<times> json \<Rightarrow> string" where
  "member_text kv = quoted (fst kv) @ '':'' @ Marshal (snd kv)"

lemma insort_key_map: "(\<And>x. fst (h x) = fst x) \<Longrightarrow> insort_key fst (h x) (map h xs) = map h (insort_key fst x xs)"
  by (induction xs) auto

lemma sort_key_map: "(\<And>x. fst (h x) = fst x) \<Longrightarrow> sort_key fst (map h xs) = map h (sort_key fst xs)"
  by (induction xs) (simp_all add: insort_key_map)

lemma Marshal_object: "Marshal (JObj kvs) = CHR ''{'' # Join '','' (map member_text (sort_key fst kvs)) @ ''}''"
  using sort_key_map [of "\<lambda>kv. (fst kv, member_text kv)" kvs]
  by (simp add: case_prod_unfold member_text_def [abs_def] comp_def)

lemma sorted_keys_object: "sorted_keys (JObj kvs) = JObj (map (\<lambda>(k, v). (k, sorted_keys v)) (sort_key fst kvs))"
  using sort_key_map [of "\<lambda>(k, v). (k, sorted_keys v)" kvs] by (simp add: case_prod_unfold)

definition parses_back :: "json \<Rightarrow> bool" where
  "parses_back v = (\<forall>n rest. 2 * length (Marshal v) \<le> n \<longrightarrow> json_end rest \<longrightarrow>
     parse_value n (Marshal v @ rest) = Some (sorted_keys v, rest))"

lemma skip_ws_solid: "\<not> json_space c \<Longrightarrow> skip_ws (c # s) = c # s"
  by (simp add: skip_ws_def)

lemma solid_chars [simp]:
  "\<not> json_space quote_char" "\<not> json_space (CHR ''{'')" "\<not> json_space (CHR ''}'')" "\<not> json_space (CHR ''['')"
  "\<not> json_space (CHR '']'')" "\<not> json_space (CHR '','')" "\<not> json_space (CHR '':'')" "\<not> json_space (CHR ''-'')"
  by (auto simp: json_space_def char_code_def)

lemma digit_solid: "is_digit c \<Longrightarrow> \<not> json_space c"
  by (auto simp: json_space_def is_digit_def)

lemma json_end_Cons [simp]: "json_end (CHR '','' # s)" "json_end (CHR ''}'' # s)" "json_end (CHR '']'' # s)"
  by (simp_all add: json_end_def)

lemma FormatInt_Cons: "\<exists>c ds. FormatInt i = c # ds \<and> (c = CHR ''-'' \<or> is_digit c)"
  using decimal_Cons [of "nat i"] by (auto simp: FormatInt_def)

lemma parse_word_back:
  "parse_value (Suc n) (''null'' @ rest) = Some (JNull, rest)"
  "parse_value (Suc n) (''true'' @ rest) = Some (JBool True, rest)"
  "parse_value (Suc n) (''false'' @ rest) = Some (JBool False, rest)"
  by (simp_all add: skip_ws_def json_space_def char_code_def parse_word_def HasPrefix_def is_digit_def)

lemma parses_backI:
  assumes "Marshal v \<noteq> []"
    and "\<And>n rest. 2 * length (Marshal v) \<le> Suc n \<Longrightarrow> json_end rest \<Longrightarrow>
      parse_value (Suc n) (Marshal v @ rest) = Some (sorted_keys v, rest)"
  shows "parses_back v"
  unfolding parses_back_def
proof (intro allI impI)
  fix n rest assume "2 * length (Marshal v) \<le> n" "json_end rest"
  moreover from this assms(1) obtain m where "n = Suc m" by (cases n) auto
  ultimately show "parse_value n (Marshal v @ rest) = Some (sorted_keys v, rest)" using assms(2) by blast
qed

lemma parses_back_num: "integral (JNum s) \<Longrightarrow> parses_back (JNum s)"
proof (rule parses_backI)
  assume "integral (JNum s)"
  then obtain i where i: "s = FormatInt i" by auto
  obtain c ds where c: "FormatInt i = c # ds" "c = CHR ''-'' \<or> is_digit c" using FormatInt_Cons by blast
  then show "Marshal (JNum s) \<noteq> []" by (simp add: i)
  fix n rest assume e: "json_end rest"
  have "\<not> json_space c" "c \<noteq> quote_char" "c \<noteq> CHR ''{''" "c \<noteq> CHR ''[''"
    using c(2) by (auto simp: json_space_def is_digit_def char_code_def)
  with c scan_FormatInt [OF e, of i] show "parse_value (Suc n) (Marshal (JNum s) @ rest) = Some (sorted_keys (JNum s), rest)"
    by (simp add: i skip_ws_solid)
qed

lemma parses_back_str: "parses_back (JStr s)"
  by (rule parses_backI) (simp_all add: quoted_def skip_ws_solid string_body_quoted)

lemma parses_back_word: "parses_back JNull" "parses_back (JBool b)"
  using parse_word_back by (intro parses_backI; simp only: Marshal.simps sorted_keys.simps; simp split: if_splits)+

lemma parse_members_back:
  assumes "kvs \<noteq> []" and "\<And>k v. (k, v) \<in> set kvs \<Longrightarrow> parses_back v"
    and "2 * length (Join '','' (map member_text kvs)) \<le> n"
  shows "parse_members n (Join '','' (map member_text kvs) @ CHR ''}'' # rest) =
    Some (map (\<lambda>(k, v). (k, sorted_keys v)) kvs, rest)"
  using assms
proof (induction kvs arbitrary: n)
  case (Cons kv kvs)
  obtain k v where kv: "kv = (k, v)" by (cases kv)
  with Cons.prems(3) obtain m where n: "n = Suc m" by (cases n; cases kvs) (auto simp: member_text_def quoted_def)
  have v: "2 * length (Marshal v) \<le> m" "json_end r \<Longrightarrow> parse_value m (Marshal v @ r) = Some (sorted_keys v, r)" for r
    using Cons.prems(2) [of k v] Cons.prems(3) by (cases kvs; auto simp: kv n member_text_def quoted_def parses_back_def)+
  show ?case
  proof (cases kvs)
    case Nil
    then show ?thesis
      by (simp add: n kv member_text_def quoted_def skip_ws_solid string_body_quoted v)
  next
    case ne: (Cons kv' kvs')
    then have joined: "Join '','' (map member_text (kv # kvs)) =
        quoted k @ '':'' @ Marshal v @ '','' @ Join '','' (map member_text kvs)"
      by (simp only: list.map Join_Cons kv member_text_def fst_conv snd_conv append_assoc) (simp add: Join_Cons)
    have "2 * length (Join '','' (map member_text kvs)) \<le> m"
      using Cons.prems(3) unfolding joined by (simp add: n)
    then have "parse_members m (Join '','' (map member_text kvs) @ CHR ''}'' # rest) =
        Some (map (\<lambda>(k, v). (k, sorted_keys v)) kvs, rest)"
      using Cons.prems(2) ne by (intro Cons.IH) auto
    then show ?thesis unfolding joined
      by (simp add: n kv quoted_def skip_ws_solid string_body_quoted v)
  qed
qed simp

lemma parse_elements_back:
  assumes "vs \<noteq> []" and "\<And>v. v \<in> set vs \<Longrightarrow> parses_back v"
    and "2 * length (Join '','' (map Marshal vs)) + 1 \<le> n"
  shows "parse_elements n (Join '','' (map Marshal vs) @ CHR '']'' # rest) = Some (map sorted_keys vs, rest)"
  using assms
proof (induction vs arbitrary: n)
  case (Cons v vs)
  from Cons.prems(3) obtain m where n: "n = Suc m" by (cases n) auto
  have v: "2 * length (Marshal v) \<le> m" "json_end r \<Longrightarrow> parse_value m (Marshal v @ r) = Some (sorted_keys v, r)" for r
    using Cons.prems(2) [of v] Cons.prems(3) by (cases vs; auto simp: n parses_back_def)+
  show ?case
  proof (cases "vs = []")
    case True
    then show ?thesis by (simp add: n skip_ws_solid v)
  next
    case False
    then have joined: "Join '','' (map Marshal (v # vs)) = Marshal v @ '','' @ Join '','' (map Marshal vs)"
      by (simp add: Join_Cons)
    have "2 * length (Join '','' (map Marshal vs)) + 1 \<le> m"
      using Cons.prems(3) unfolding joined by (simp add: n)
    then have "parse_elements m (Join '','' (map Marshal vs) @ CHR '']'' # rest) = Some (map sorted_keys vs, rest)"
      using Cons.prems(2) False by (intro Cons.IH) auto
    then show ?thesis unfolding joined by (simp add: n skip_ws_solid v)
  qed
qed simp

lemma Marshal_front: "integral v \<Longrightarrow> \<exists>c s. Marshal v = c # s \<and> \<not> json_space c \<and> c \<noteq> CHR '']''"
proof (cases v)
  case (JNum s)
  assume "integral v"
  with JNum obtain i where "s = FormatInt i" by auto
  with JNum FormatInt_Cons [of i] show ?thesis by (auto simp: digit_solid is_digit_def char_code_def)
qed (auto simp: quoted_def json_space_def char_code_def)

lemma Join_front: "ws \<noteq> [] \<Longrightarrow> hd ws = c # s \<Longrightarrow> \<exists>s'. Join sep ws = c # s'"
  by (cases ws; cases "tl ws") (auto simp: Join_Cons)

lemma parses_back_array:
  assumes "list_all integral vs" and "\<And>v. v \<in> set vs \<Longrightarrow> parses_back v"
  shows "parses_back (JArr vs)"
proof (rule parses_backI)
  fix n rest assume n: "2 * length (Marshal (JArr vs)) \<le> Suc n"
  show "parse_value (Suc n) (Marshal (JArr vs) @ rest) = Some (sorted_keys (JArr vs), rest)"
  proof (cases "vs = []")
    case False
    with assms(1) Marshal_front [of "hd vs"] obtain c s where c: "Marshal (hd vs) = c # s" "\<not> json_space c" "c \<noteq> CHR '']''"
      by (auto simp: list_all_iff)
    with False obtain s' where s': "Join '','' (map Marshal vs) = c # s'"
      using Join_front [of "map Marshal vs" c s] by (auto simp: hd_map)
    from False assms(2) n have "parse_elements n (Join '','' (map Marshal vs) @ CHR '']'' # rest) = Some (map sorted_keys vs, rest)"
      by (intro parse_elements_back) auto
    with c show ?thesis by (simp add: skip_ws_solid s')
  qed (simp add: skip_ws_solid)
qed simp

lemma parses_back_object:
  assumes "\<And>k v. (k, v) \<in> set kvs \<Longrightarrow> parses_back v"
  shows "parses_back (JObj kvs)"
proof (rule parses_backI)
  let ?kvs = "sort_key fst kvs"
  fix n rest assume n: "2 * length (Marshal (JObj kvs)) \<le> Suc n"
  show "parse_value (Suc n) (Marshal (JObj kvs) @ rest) = Some (sorted_keys (JObj kvs), rest)"
  proof (cases "?kvs = []")
    case False
    then obtain s' where s': "Join '','' (map member_text ?kvs) = quote_char # s'"
      using Join_front [of "map member_text ?kvs" quote_char] by (auto simp: hd_map member_text_def quoted_def)
    from False assms n have "parse_members n (Join '','' (map member_text ?kvs) @ CHR ''}'' # rest) =
        Some (map (\<lambda>(k, v). (k, sorted_keys v)) ?kvs, rest)"
      unfolding Marshal_object by (intro parse_members_back) auto
    then show ?thesis unfolding Marshal_object sorted_keys_object by (simp add: skip_ws_solid s')
  next
    case True
    then have "kvs = []" by (metis length_0_conv length_sort)
    then show ?thesis by (simp add: skip_ws_solid)
  qed
qed simp

lemma integral_parses_back: "integral v \<Longrightarrow> parses_back v"
proof (induction v rule: integral.induct)
  case (2 vs)
  then show ?case by (intro parses_back_array) (auto simp: list_all_iff)
next
  case (3 kvs)
  then show ?case by (intro parses_back_object) (auto simp: list_all_iff)
qed (simp_all only: parses_back_num parses_back_str parses_back_word)

lemma bit_length_le: "n < 2 ^ k \<Longrightarrow> bit_length n \<le> k"
proof (induction k arbitrary: n)
  case 0
  then show ?case by (simp add: bit_length.simps)
next
  case (Suc k)
  then have "bit_length (n div 2) \<le> k" by (intro Suc.IH) auto
  then show ?case by (subst bit_length.simps) simp
qed

lemma float_trunc_small: "a < 2 ^ 53 \<Longrightarrow> float_trunc (a, 1) = a"
  using bit_length_le [of a 53] by (simp add: float_trunc_def Let_def round_half_even_def)

lemma digits_front_decimal: "digits_front (decimal n) = (decimal n, [])"
  using decimal_digits [of n] by (auto simp: digits_front_def all_digits_def list_all_iff takeWhile_eq_all_conv dropWhile_eq_Nil_conv)

lemma number_ratio_FormatInt: "number_ratio (FormatInt i) = (nat \<bar>i\<bar>, 1)"
proof -
  have "(case decimal n of [] \<Rightarrow> decimal n | c # rest \<Rightarrow> if c = CHR ''-'' then rest else decimal n) = decimal n" for n
    using decimal_Cons [of n] digit_not_sign by auto
  then show ?thesis
    by (auto simp: number_ratio_def FormatInt_def digits_front_decimal decimal_value)
qed

lemma HasPrefix_FormatInt: "HasPrefix (FormatInt i) ''-'' \<longleftrightarrow> i < 0"
  using decimal_Cons [of "nat i"] digit_not_sign by (auto simp: FormatInt_def HasPrefix_def)

lemma FormatInt_small:
  assumes "\<bar>i\<bar> < 2 ^ 53"
  shows "number_int64 (FormatInt i) = i" and "number_in_range (FormatInt i)"
proof -
  from assms have "nat \<bar>i\<bar> < 2 ^ 53" by (simp add: nat_less_iff)
  then have t: "float_trunc (number_ratio (FormatInt i)) = nat \<bar>i\<bar>"
    by (simp only: number_ratio_FormatInt float_trunc_small)
  show "number_int64 (FormatInt i) = i"
    using assms unfolding number_int64_def t HasPrefix_FormatInt by (auto simp: Let_def)
  have "nat \<bar>i\<bar> < 2 ^ 53" by fact
  also have "(2 :: nat) ^ 53 \<le> 2 ^ 1024" by (rule power_increasing) simp_all
  finally show "number_in_range (FormatInt i)" unfolding number_in_range_def t .
qed

lemma integral_numbers: "integral v \<Longrightarrow> numbers_ok (sorted_keys v)"
  by (induction v rule: integral.induct) (auto simp: list_all_iff FormatInt_small)

lemma Unmarshal_Marshal: "integral v \<Longrightarrow> Unmarshal (Marshal v) = Some (sorted_keys v)"
  using integral_parses_back [of v, unfolded parses_back_def, rule_format, of "Suc (2 * length (Marshal v))" "[]"]
  by (simp add: Unmarshal_def integral_numbers json_end_def skip_ws_def)

lemma map_of_object_map: "map_of (object_map kvs) k = map_of (rev kvs) k"
proof -
  have "map_of (fold (\<lambda>(k, v). map_put k v) kvs m) k = (case map_of (rev kvs) k of None \<Rightarrow> map_of m k | Some v \<Rightarrow> Some v)" for m
    by (induction kvs arbitrary: m) (auto simp: map_of_append map_add_def split: option.splits)
  from this [of "[]"] show ?thesis by (simp add: object_map_def split: option.splits)
qed

lemma map_of_object_map_sorted:
  assumes "distinct (map fst kvs)"
  shows "map_of (object_map (sort_key fst kvs)) k = map_of kvs k"
proof -
  have "distinct (map fst (rev (sort_key fst kvs)))" using assms by (simp add: distinct_map)
  then have "map_of (rev (sort_key fst kvs)) = map_of kvs" using assms by (simp add: map_of_inject_set)
  then show ?thesis by (simp add: map_of_object_map)
qed

text \<open>An object with distinct keys and integer numbers is printed and parsed back to the same map, up to the
  order of the members of nested objects.\<close>

lemma Unmarshal_map_Marshal:
  assumes "distinct (map fst kvs)" and "integral (JObj kvs)"
  obtains m where "Unmarshal_map (Marshal (JObj kvs)) = Some m"
    and "\<And>k. map_of m k = map_option sorted_keys (map_of kvs k)"
proof
  let ?kvs = "map (\<lambda>(k, v). (k, sorted_keys v)) kvs"
  have s: "sorted_keys (JObj kvs) = JObj (sort_key fst ?kvs)" by simp
  show "Unmarshal_map (Marshal (JObj kvs)) = Some (object_map (sort_key fst ?kvs))"
    unfolding Unmarshal_map_def Unmarshal_Marshal [OF assms(2)] s by simp
  have "distinct (map fst ?kvs)" using assms(1) by (simp add: case_prod_unfold comp_def)
  then have "map_of (object_map (sort_key fst ?kvs)) k = map_of ?kvs k" for k
    by (rule map_of_object_map_sorted)
  then show "map_of (object_map (sort_key fst ?kvs)) k = map_option sorted_keys (map_of kvs k)" for k
    by (simp add: map_of_map)
qed

lemma claim_int64_JInt: "map_of m k = Some (JInt i) \<Longrightarrow> \<bar>i\<bar> < 2 ^ 53 \<Longrightarrow> claim_int64 k m = i"
  by (simp add: claim_int64_def JInt_def FormatInt_small)

end
