(* ===== verification/OIDC_Signer.thy ===== *)
theory OIDC_Signer
  imports Go_JSON
begin

text \<open>
  The token signer of \<open>internal/oidc/signer.go\<close>: the in-memory repository of signing keys and the
  \<open>Signer\<close> with its cached keys. \<open>crypto/rsa\<close>, \<open>crypto/x509\<close> and \<open>encoding/pem\<close> are the fields
  of a record of functions, \<open>rsa_lib\<close>; \<open>rsa_laws\<close> states what the code relies on. A generated
  key, and the current time, are arguments. Several signers may share a repository: an operation
  of a signer takes the repository and returns the changed parts. Where the code makes two
  repository calls, the argument \<open>others\<close> is what other instances do to the repository in between.
\<close>

section \<open>Keys and the cryptographic library\<close>

record PublicKey =
  pk_N :: nat
  pk_E :: nat

record PrivateKey =
  sk_PublicKey :: PublicKey
  sk_D :: nat

datatype parsed_key = RSAKey PrivateKey | OtherKey

record rsa_lib =
  Sum256 :: "bytes \<Rightarrow> bytes"
  pem_Decode :: "bytes \<Rightarrow> bytes option"
  pem_EncodeToMemory :: "bytes \<Rightarrow> bytes"
  ParsePKCS8PrivateKey :: "bytes \<Rightarrow> parsed_key option"
  MarshalPKCS8PrivateKey :: "PrivateKey \<Rightarrow> bytes option"
  MarshalPKCS1PublicKey :: "PublicKey \<Rightarrow> bytes"
  SignPKCS1v15 :: "PrivateKey \<Rightarrow> bytes \<Rightarrow> bytes option"
  VerifyPKCS1v15 :: "PublicKey \<Rightarrow> bytes \<Rightarrow> bytes \<Rightarrow> bool"

definition keyID :: "rsa_lib \<Rightarrow> PublicKey \<Rightarrow> string" where
  "keyID lib key = RawURLEncoding_EncodeToString (take 16 (Sum256 lib (MarshalPKCS1PublicKey lib key)))"

text \<open>What the code relies on: a signature verifies under the public key of the key that made it, and the
  encoding of a private key is parsed back.\<close>

definition rsa_laws :: "rsa_lib \<Rightarrow> bool" where
  "rsa_laws lib =
     ((\<forall>k d s. SignPKCS1v15 lib k d = Some s \<longrightarrow> VerifyPKCS1v15 lib (sk_PublicKey k) d s)
      \<and> (\<forall>k der. MarshalPKCS8PrivateKey lib k = Some der \<longrightarrow>
           pem_Decode lib (pem_EncodeToMemory lib der) = Some der \<and> ParsePKCS8PrivateKey lib der = Some (RSAKey k)))"

section \<open>The repository\<close>

datatype oidc_error = ErrSigningKeyNotFound | ErrActiveKeyExists | ErrSigningKeyInvalid | ErrKeyGeneration
  | ErrTokenInvalid | ErrTokenTypeRequired | ErrSign

record SigningKey =
  ky_KID :: string
  ky_PEM :: bytes
  ky_Active :: bool
  ky_CreatedAt :: time
  ky_RetiredAt :: "time option"

type_synonym KeyRepository = "SigningKey list"

definition LoadActiveSigningKey :: "KeyRepository \<Rightarrow> oidc_error + bytes" where
  "LoadActiveSigningKey r =
     (case find ky_Active (rev r) of None \<Rightarrow> Inl ErrSigningKeyNotFound | Some k \<Rightarrow> Inr (ky_PEM k))"

definition active_key :: "string \<Rightarrow> bytes \<Rightarrow> time \<Rightarrow> SigningKey" where
  "active_key kid pem now =
     \<lparr>ky_KID = kid, ky_PEM = pem, ky_Active = True, ky_CreatedAt = now, ky_RetiredAt = None\<rparr>"

definition SaveActiveSigningKey ::
  "string \<Rightarrow> bytes \<Rightarrow> time \<Rightarrow> KeyRepository \<Rightarrow> (oidc_error + unit) \<times> KeyRepository" where
  "SaveActiveSigningKey kid pem now r =
     (if list_ex ky_Active r then (Inl ErrActiveKeyExists, r) else (Inr (), r @ [active_key kid pem now]))"

definition retire :: "time \<Rightarrow> SigningKey \<Rightarrow> SigningKey" where
  "retire now k = (if ky_Active k then k\<lparr>ky_Active := False, ky_RetiredAt := Some now\<rparr> else k)"

definition rotateLocked :: "string \<Rightarrow> bytes \<Rightarrow> time \<Rightarrow> KeyRepository \<Rightarrow> KeyRepository" where
  "rotateLocked kid pem now r = map (retire now) r @ [active_key kid pem now]"

definition RotateSigningKey :: "string \<Rightarrow> bytes \<Rightarrow> time \<Rightarrow> KeyRepository \<Rightarrow> KeyRepository" where
  "RotateSigningKey kid pem now r = rotateLocked kid pem now r"

definition RotateSigningKeyIfOlderThan ::
  "string \<Rightarrow> bytes \<Rightarrow> time \<Rightarrow> time \<Rightarrow> KeyRepository \<Rightarrow> bool \<times> KeyRepository" where
  "RotateSigningKeyIfOlderThan kid pem now createdBefore r =
     (if list_ex (\<lambda>k. ky_Active k \<and> \<not> ky_CreatedAt k < createdBefore) r then (False, r)
      else (True, rotateLocked kid pem now r))"

definition ListSigningKeys :: "KeyRepository \<Rightarrow> SigningKey list" where
  "ListSigningKeys r = r"

definition expired_key :: "time \<Rightarrow> SigningKey \<Rightarrow> bool" where
  "expired_key before k =
     (\<not> ky_Active k \<and> (case ky_RetiredAt k of None \<Rightarrow> False | Some t \<Rightarrow> t < before))"

definition DeleteRetiredSigningKeys :: "time \<Rightarrow> KeyRepository \<Rightarrow> int \<times> KeyRepository" where
  "DeleteRetiredSigningKeys before r =
     (int (length (filter (expired_key before) r)), filter (\<lambda>k. \<not> expired_key before k) r)"

section \<open>The signer\<close>

record Signer =
  sg_key :: PrivateKey
  sg_kid :: string
  sg_verification :: "(string, PublicKey) gomap"
  sg_lastRefresh :: time

definition signerFromPEM :: "rsa_lib \<Rightarrow> bytes \<Rightarrow> oidc_error + Signer" where
  "signerFromPEM lib encoded =
     (case pem_Decode lib encoded of
        None \<Rightarrow> Inl ErrSigningKeyInvalid
      | Some block \<Rightarrow>
          (case ParsePKCS8PrivateKey lib block of
             Some (RSAKey key) \<Rightarrow>
               if bit_length (pk_N (sk_PublicKey key)) < 2048 then Inl ErrSigningKeyInvalid
               else Inr \<lparr>sg_key = key, sg_kid = keyID lib (sk_PublicKey key),
                         sg_verification = [(keyID lib (sk_PublicKey key), sk_PublicKey key)], sg_lastRefresh = 0\<rparr>
           | _ \<Rightarrow> Inl ErrSigningKeyInvalid))"

fun verification_keys ::
  "rsa_lib \<Rightarrow> SigningKey list \<Rightarrow> (string, PublicKey) gomap \<Rightarrow> oidc_error + (string, PublicKey) gomap" where
  "verification_keys lib [] m = Inr m"
| "verification_keys lib (k # ks) m =
     (case signerFromPEM lib (ky_PEM k) of
        Inl err \<Rightarrow> Inl err
      | Inr parsed \<Rightarrow> verification_keys lib ks (map_put (ky_KID k) (sk_PublicKey (sg_key parsed)) m))"

definition reloadVerificationKeys :: "rsa_lib \<Rightarrow> time \<Rightarrow> KeyRepository \<Rightarrow> Signer \<Rightarrow> (oidc_error + unit) \<times> Signer" where
  "reloadVerificationKeys lib now r s =
     (case verification_keys lib (ListSigningKeys r) [] of
        Inl err \<Rightarrow> (Inl err, s)
      | Inr m \<Rightarrow> (Inr (), s\<lparr>sg_verification := m, sg_lastRefresh := now\<rparr>))"

definition Signer_Refresh :: "rsa_lib \<Rightarrow> time \<Rightarrow> KeyRepository \<Rightarrow> Signer \<Rightarrow> (oidc_error + unit) \<times> Signer" where
  "Signer_Refresh lib now r s =
     (case LoadActiveSigningKey r of
        Inl err \<Rightarrow> (Inl err, s)
      | Inr encoded \<Rightarrow>
          (case signerFromPEM lib encoded of
             Inl err \<Rightarrow> (Inl err, s)
           | Inr active \<Rightarrow>
               reloadVerificationKeys lib now r
                 (if sg_kid active \<noteq> sg_kid s then s\<lparr>sg_key := sg_key active, sg_kid := sg_kid active\<rparr> else s)))"

definition refreshIfStale :: "rsa_lib \<Rightarrow> time \<Rightarrow> KeyRepository \<Rightarrow> Signer \<Rightarrow> Signer" where
  "refreshIfStale lib now r s =
     (if 30 * second \<le> now - sg_lastRefresh s then snd (Signer_Refresh lib now r s) else s)"

definition with_reload :: "rsa_lib \<Rightarrow> time \<Rightarrow> KeyRepository \<Rightarrow> Signer \<Rightarrow> oidc_error + Signer" where
  "with_reload lib now r s =
     (case reloadVerificationKeys lib now r s of (Inl err, _) \<Rightarrow> Inl err | (Inr _, s') \<Rightarrow> Inr s')"

text \<open>\<open>generateSigningKey\<close> on the key the random source gave.\<close>

definition generateSigningKey :: "rsa_lib \<Rightarrow> PrivateKey option \<Rightarrow> oidc_error + (string \<times> bytes)" where
  "generateSigningKey lib generated =
     (case generated of
        None \<Rightarrow> Inl ErrKeyGeneration
      | Some key \<Rightarrow>
          (case MarshalPKCS8PrivateKey lib key of
             None \<Rightarrow> Inl ErrKeyGeneration
           | Some der \<Rightarrow> Inr (keyID lib (sk_PublicKey key), pem_EncodeToMemory lib der)))"

definition NewSigner ::
  "rsa_lib \<Rightarrow> PrivateKey option \<Rightarrow> time \<Rightarrow> (KeyRepository \<Rightarrow> KeyRepository) \<Rightarrow> KeyRepository \<Rightarrow>
     (oidc_error + Signer) \<times> KeyRepository" where
  "NewSigner lib generated now others r =
     (case LoadActiveSigningKey r of
        Inr encoded \<Rightarrow>
          (case signerFromPEM lib encoded of
             Inl err \<Rightarrow> (Inl err, r)
           | Inr s \<Rightarrow> (with_reload lib now r s, r))
      | Inl _ \<Rightarrow>
          (case generateSigningKey lib generated of
             Inl err \<Rightarrow> (Inl err, r)
           | Inr (kid, encoded) \<Rightarrow>
               (case SaveActiveSigningKey kid encoded now (others r) of
                  (Inl err, r') \<Rightarrow>
                    (case LoadActiveSigningKey r' of
                       Inl _ \<Rightarrow> (Inl err, r')
                     | Inr persisted \<Rightarrow>
                         (case signerFromPEM lib persisted of
                            Inl err' \<Rightarrow> (Inl err', r')
                          | Inr s \<Rightarrow> (with_reload lib now r' s, r')))
                | (Inr _, r') \<Rightarrow>
                    (with_reload lib now r'
                       \<lparr>sg_key = the generated, sg_kid = kid, sg_verification = [], sg_lastRefresh = 0\<rparr>, r'))))"

definition token_header :: "string \<Rightarrow> string \<Rightarrow> json" where
  "token_header kid typ = JObj [(''alg'', JStr ''RS256''), (''kid'', JStr kid), (''typ'', JStr typ)]"

definition encode_part :: "json \<Rightarrow> string" where
  "encode_part v = RawURLEncoding_EncodeToString (bytes_of (Marshal v))"

definition SignTyped ::
  "rsa_lib \<Rightarrow> time \<Rightarrow> KeyRepository \<Rightarrow> claims \<Rightarrow> string \<Rightarrow> Signer \<Rightarrow> (oidc_error + string) \<times> Signer" where
  "SignTyped lib now r cs tokenType s =
     (if tokenType = [] then (Inl ErrTokenTypeRequired, s)
      else
        let s' = refreshIfStale lib now r s;
            signingInput = encode_part (token_header (sg_kid s') tokenType) @ ''.'' @ encode_part (JObj cs);
            digest = Sum256 lib (bytes_of signingInput)
        in (case SignPKCS1v15 lib (sg_key s') digest of
              None \<Rightarrow> (Inl ErrSign, s')
            | Some signature \<Rightarrow> (Inr (signingInput @ ''.'' @ RawURLEncoding_EncodeToString signature), s')))"

definition Sign ::
  "rsa_lib \<Rightarrow> time \<Rightarrow> KeyRepository \<Rightarrow> claims \<Rightarrow> Signer \<Rightarrow> (oidc_error + string) \<times> Signer" where
  "Sign lib now r cs s = SignTyped lib now r cs ''JWT'' s"

text \<open>The verification key for the key identifier of a token: from the cache, or after a refresh.\<close>

definition verification_key :: "rsa_lib \<Rightarrow> time \<Rightarrow> KeyRepository \<Rightarrow> string \<Rightarrow> Signer \<Rightarrow> PublicKey option \<times> Signer" where
  "verification_key lib now r kid s =
     (case map_of (sg_verification s) kid of
        Some key \<Rightarrow> (Some key, s)
      | None \<Rightarrow>
          (case Signer_Refresh lib now r s of
             (Inl _, s') \<Rightarrow> (None, s')
           | (Inr _, s') \<Rightarrow> (map_of (sg_verification s') kid, s')))"

definition header_kid :: "string \<Rightarrow> string option" where
  "header_kid part =
     (case RawURLEncoding_DecodeString part of
        None \<Rightarrow> None
      | Some headerJSON \<Rightarrow>
          (case Unmarshal_strings (string_of headerJSON) of
             None \<Rightarrow> None
           | Some header \<Rightarrow>
               if map_of header ''alg'' = Some ''RS256''
               then Some (case map_of header ''kid'' of None \<Rightarrow> [] | Some kid \<Rightarrow> kid) else None))"

definition verified_payload :: "rsa_lib \<Rightarrow> PublicKey \<Rightarrow> string \<Rightarrow> string \<Rightarrow> string \<Rightarrow> oidc_error + claims" where
  "verified_payload lib key p0 p1 p2 =
     (case RawURLEncoding_DecodeString p2 of
        None \<Rightarrow> Inl ErrTokenInvalid
      | Some signature \<Rightarrow>
          if \<not> VerifyPKCS1v15 lib key (Sum256 lib (bytes_of (p0 @ ''.'' @ p1))) signature then Inl ErrTokenInvalid
          else case RawURLEncoding_DecodeString p1 of
              None \<Rightarrow> Inl ErrTokenInvalid
            | Some payload \<Rightarrow>
                (case Unmarshal_map (string_of payload) of None \<Rightarrow> Inl ErrTokenInvalid | Some cs \<Rightarrow> Inr cs))"

definition Verify ::
  "rsa_lib \<Rightarrow> time \<Rightarrow> KeyRepository \<Rightarrow> string \<Rightarrow> Signer \<Rightarrow> (oidc_error + claims) \<times> Signer" where
  "Verify lib now r compact s =
     (let s1 = refreshIfStale lib now r s in
      case Split (CHR ''.'') compact of
        [p0, p1, p2] \<Rightarrow>
          (case header_kid p0 of
             None \<Rightarrow> (Inl ErrTokenInvalid, s1)
           | Some kid \<Rightarrow>
               (case verification_key lib now r kid s1 of
                  (None, s2) \<Rightarrow> (Inl ErrTokenInvalid, s2)
                | (Some key, s2) \<Rightarrow> (verified_payload lib key p0 p1 p2, s2)))
      | _ \<Rightarrow> (Inl ErrTokenInvalid, s1))"

section \<open>Rotation and publication\<close>

definition Rotate ::
  "rsa_lib \<Rightarrow> PrivateKey option \<Rightarrow> time \<Rightarrow> KeyRepository \<Rightarrow> Signer \<Rightarrow> (oidc_error + string) \<times> Signer \<times> KeyRepository" where
  "Rotate lib generated now r s =
     (case generateSigningKey lib generated of
        Inl err \<Rightarrow> (Inl err, s, r)
      | Inr (kid, encoded) \<Rightarrow>
          let r' = RotateSigningKey kid encoded now r in
          (case Signer_Refresh lib now r' s of
             (Inl err, s') \<Rightarrow> (Inl err, s', r')
           | (Inr _, s') \<Rightarrow> (Inr (sg_kid s'), s', r')))"

definition RotateIfOlderThan ::
  "rsa_lib \<Rightarrow> PrivateKey option \<Rightarrow> duration \<Rightarrow> time \<Rightarrow> (KeyRepository \<Rightarrow> KeyRepository) \<Rightarrow> KeyRepository \<Rightarrow> Signer \<Rightarrow>
     (oidc_error + (string \<times> bool)) \<times> Signer \<times> KeyRepository" where
  "RotateIfOlderThan lib generated maxAge now others r s =
     (if maxAge \<le> 0 then (Inr ([], False), s, r)
      else case find (\<lambda>k. ky_Active k \<and> \<not> ky_CreatedAt k < now - maxAge) (ListSigningKeys r) of
          Some k \<Rightarrow> (Inr (ky_KID k, False), s, r)
        | None \<Rightarrow>
            (case generateSigningKey lib generated of
               Inl err \<Rightarrow> (Inl err, s, r)
             | Inr (kid, encoded) \<Rightarrow>
                 let (rotated, r') = RotateSigningKeyIfOlderThan kid encoded now (now - maxAge) (others r) in
                 (case Signer_Refresh lib now r' s of
                    (Inl err, s') \<Rightarrow> (Inl err, s', r')
                  | (Inr _, s') \<Rightarrow> (Inr (sg_kid s', rotated), s', r'))))"

definition ListKeys :: "KeyRepository \<Rightarrow> SigningKey list" where
  "ListKeys r = map (\<lambda>k. k\<lparr>ky_PEM := []\<rparr>) (ListSigningKeys r)"

text \<open>\<open>big.Int.Bytes\<close>: the big-endian bytes of a natural number.\<close>

fun nat_bytes :: "nat \<Rightarrow> bytes" where
  "nat_bytes n = (if n = 0 then [] else nat_bytes (n div 256) @ [of_nat (n mod 256)])"

declare nat_bytes.simps [simp del]

definition publicJWK :: "string \<Rightarrow> PublicKey \<Rightarrow> (string, string) gomap" where
  "publicJWK kid key =
     [(''kty'', ''RSA''), (''use'', ''sig''), (''alg'', ''RS256''), (''kid'', kid),
      (''n'', RawURLEncoding_EncodeToString (nat_bytes (pk_N key))),
      (''e'', RawURLEncoding_EncodeToString (nat_bytes (pk_E key)))]"

text \<open>The published keys: the active key first, the others by identifier.\<close>

definition JWKS :: "Signer \<Rightarrow> (string, string) gomap list" where
  "JWKS s =
     map (\<lambda>(kid, key). publicJWK kid key)
       (filter (\<lambda>(kid, _). kid = sg_kid s) (sg_verification s)
        @ sort_key fst (filter (\<lambda>(kid, _). kid \<noteq> sg_kid s) (sg_verification s)))"

section \<open>One active key\<close>

datatype key_call =
    CallSaveKey string bytes time
  | CallRotateKey string bytes time
  | CallRotateKeyIf string bytes time time
  | CallDeleteKeys time

fun key_step :: "KeyRepository \<Rightarrow> key_call \<Rightarrow> unit \<times> KeyRepository" where
  "key_step r (CallSaveKey kid pem now) = ((), snd (SaveActiveSigningKey kid pem now r))"
| "key_step r (CallRotateKey kid pem now) = ((), RotateSigningKey kid pem now r)"
| "key_step r (CallRotateKeyIf kid pem now limit) = ((), snd (RotateSigningKeyIfOlderThan kid pem now limit r))"
| "key_step r (CallDeleteKeys limit) = ((), snd (DeleteRetiredSigningKeys limit r))"

definition one_active :: "KeyRepository \<Rightarrow> bool" where
  "one_active r = (length (filter ky_Active r) = 1)"

lemma retire_inactive [simp]: "\<not> ky_Active (retire now k)"
  by (simp add: retire_def)

lemma rotateLocked_one_active: "one_active (rotateLocked kid pem now r)"
  by (simp add: one_active_def rotateLocked_def active_key_def filter_map comp_def)

lemma filter_kept: "(\<And>x. p x \<Longrightarrow> q x) \<Longrightarrow> filter p (filter q xs) = filter p xs"
  by (induction xs) auto

lemma one_active_step: "one_active r \<Longrightarrow> one_active (snd (key_step r op))"
proof (cases op)
  case (CallSaveKey kid pem now)
  assume "one_active r"
  then have "list_ex ky_Active r" by (auto simp: one_active_def list_ex_iff length_Suc_conv filter_eq_Cons_iff)
  with \<open>one_active r\<close> CallSaveKey show ?thesis by (simp add: SaveActiveSigningKey_def)
next
  case (CallDeleteKeys limit)
  have "filter ky_Active (filter (\<lambda>k. \<not> expired_key limit k) r) = filter ky_Active r"
    by (rule filter_kept) (simp add: expired_key_def)
  then show "one_active r \<Longrightarrow> ?thesis" by (simp add: CallDeleteKeys DeleteRetiredSigningKeys_def one_active_def)
qed (simp_all add: RotateSigningKey_def RotateSigningKeyIfOlderThan_def rotateLocked_one_active)

interpretation active_key: kept_by_steps key_step "\<lambda>_. True" one_active
  by unfold_locales (rule one_active_step)

text \<open>A key that is stored stays stored, unless it has retired and a cleanup ran with a later limit.\<close>

definition outlives :: "time \<Rightarrow> key_call \<Rightarrow> bool" where
  "outlives t op = (case op of CallDeleteKeys limit \<Rightarrow> limit \<le> t | CallRotateKey _ _ now \<Rightarrow> t \<le> now
     | CallRotateKeyIf _ _ now _ \<Rightarrow> t \<le> now | _ \<Rightarrow> True)"

definition key_held :: "string \<Rightarrow> bytes \<Rightarrow> time \<Rightarrow> KeyRepository \<Rightarrow> bool" where
  "key_held kid pem t r =
     (\<exists>k \<in> set r. ky_KID k = kid \<and> ky_PEM k = pem \<and> (ky_Active k \<or> (\<exists>u. ky_RetiredAt k = Some u \<and> t \<le> u)))"

lemma key_held_rotate: "key_held kid pem t r \<Longrightarrow> t \<le> now \<Longrightarrow> key_held kid pem t (rotateLocked kid' pem' now r)"
proof -
  assume "key_held kid pem t r" and now: "t \<le> now"
  then obtain k where k: "k \<in> set r" "ky_KID k = kid" "ky_PEM k = pem" "ky_Active k \<or> (\<exists>u. ky_RetiredAt k = Some u \<and> t \<le> u)"
    by (auto simp: key_held_def)
  have "retire now k \<in> set (rotateLocked kid' pem' now r)" using k(1) by (simp add: rotateLocked_def)
  with k now show ?thesis unfolding key_held_def by (intro bexI [of _ "retire now k"]) (auto simp: retire_def)
qed

lemma key_held_step: "key_held kid pem t r \<Longrightarrow> outlives t op \<Longrightarrow> key_held kid pem t (snd (key_step r op))"
proof (cases op)
  case (CallDeleteKeys limit)
  assume "key_held kid pem t r" "outlives t op"
  then show ?thesis
    by (fastforce simp: CallDeleteKeys key_held_def DeleteRetiredSigningKeys_def outlives_def expired_key_def)
next
  case (CallSaveKey kid' pem' now)
  then show "key_held kid pem t r \<Longrightarrow> ?thesis" by (auto simp: key_held_def SaveActiveSigningKey_def)
qed (auto simp: RotateSigningKey_def RotateSigningKeyIfOlderThan_def key_held_rotate outlives_def)

interpretation held_key: kept_by_steps key_step "outlives t" "key_held kid pem t" for kid pem t
  by unfold_locales (rule key_held_step)

text \<open>C30: Once a signing key has been created there is exactly one active key, whatever instances save, rotate
  and clean up; and a key that was active at a time \<open>t\<close> is still stored after every run in which
  time goes on from \<open>t\<close> and the cleanup limit has not passed \<open>t\<close>.\<close>

theorem signing_key_lifecycle:
  assumes "one_active r"
  shows "one_active (final key_step r ops) \<and>
    (list_all (outlives t) ops \<and> k \<in> set r \<and> ky_Active k \<longrightarrow>
      (\<exists>k' \<in> set (final key_step r ops). ky_KID k' = ky_KID k \<and> ky_PEM k' = ky_PEM k))"
proof (intro conjI impI)
  show "one_active (final key_step r ops)"
    by (rule active_key.kept_final [OF assms]) (simp add: list_all_iff)
  assume "list_all (outlives t) ops \<and> k \<in> set r \<and> ky_Active k"
  then have "key_held (ky_KID k) (ky_PEM k) t (final key_step r ops)"
    by (intro held_key.kept_final) (auto simp: key_held_def)
  then show "\<exists>k' \<in> set (final key_step r ops). ky_KID k' = ky_KID k \<and> ky_PEM k' = ky_PEM k"
    by (auto simp: key_held_def)
qed

section \<open>Signed tokens\<close>

lemma Join_Split: "Join [sep] (Split sep s) = s"
proof (induction s)
  case (Cons c s)
  then show ?case by (cases "Split sep s"; cases "tl (Split sep s)") (auto simp: Join_Cons)
qed simp

lemma decode_encode_part [simp]: "RawURLEncoding_DecodeString (encode_part v) = Some (bytes_of (Marshal v))"
  by (simp add: encode_part_def raw64_roundtrip)

lemma url_text_no_dot: "CHR ''.'' \<notin> set (RawURLEncoding_EncodeToString b)"
proof
  assume "CHR ''.'' \<in> set (RawURLEncoding_EncodeToString b)"
  from raw_encode_set [OF alphabets64(1) this] show False by (simp add: url_alphabet_def)
qed

lemma encode_part_no_dot: "CHR ''.'' \<notin> set (encode_part v)"
  by (simp add: encode_part_def url_text_no_dot)

lemma header_kid_encoded: "header_kid (encode_part (token_header kid typ)) = Some kid"
proof -
  have "Unmarshal (Marshal (token_header kid typ)) = Some (token_header kid typ)"
    by (subst Unmarshal_Marshal) (simp_all add: token_header_def)
  then have "Unmarshal_strings (Marshal (token_header kid typ)) = Some [(''alg'', ''RS256''), (''kid'', kid), (''typ'', typ)]"
    by (simp add: Unmarshal_strings_def token_header_def object_map_def)
  then show ?thesis by (simp add: header_kid_def string_of_bytes_of)
qed

text \<open>Every cached key is cached under its own identifier.\<close>

definition signer_ok :: "rsa_lib \<Rightarrow> Signer \<Rightarrow> bool" where
  "signer_ok lib s = (sg_kid s = keyID lib (sk_PublicKey (sg_key s))
     \<and> (\<forall>(kid, key) \<in> set (sg_verification s). kid = keyID lib key))"

definition stored_key_ok :: "rsa_lib \<Rightarrow> SigningKey \<Rightarrow> bool" where
  "stored_key_ok lib k =
     (\<exists>s. signerFromPEM lib (ky_PEM k) = Inr s \<and> ky_KID k = keyID lib (sk_PublicKey (sg_key s)))"

definition keys_ok :: "rsa_lib \<Rightarrow> KeyRepository \<Rightarrow> bool" where
  "keys_ok lib r = (list_ex ky_Active r \<and> list_all (stored_key_ok lib) r)"

definition stored_keys :: "rsa_lib \<Rightarrow> KeyRepository \<Rightarrow> PublicKey set" where
  "stored_keys lib r = {sk_PublicKey (sg_key a) | a. \<exists>k \<in> set r. signerFromPEM lib (ky_PEM k) = Inr a}"

lemma signerFromPEM_ok: "signerFromPEM lib pem = Inr s \<Longrightarrow> sg_kid s = keyID lib (sk_PublicKey (sg_key s)) \<and> signer_ok lib s"
  by (auto simp: signerFromPEM_def signer_ok_def split: option.splits parsed_key.splits if_splits)

lemma verification_keys_ok:
  assumes "list_all (stored_key_ok lib) ks" and "\<forall>(kid, key) \<in> set m. kid = keyID lib key"
  shows "\<exists>m'. verification_keys lib ks m = Inr m' \<and> (\<forall>(kid, key) \<in> set m'. kid = keyID lib key)
    \<and> fst ` set m' = fst ` set m \<union> ky_KID ` set ks \<and> snd ` set m' \<subseteq> snd ` set m \<union> stored_keys lib ks"
  using assms
proof (induction ks arbitrary: m)
  case (Cons k ks)
  then obtain s where s: "signerFromPEM lib (ky_PEM k) = Inr s" "ky_KID k = keyID lib (sk_PublicKey (sg_key s))"
    by (auto simp: stored_key_ok_def)
  have "\<forall>(kid, key) \<in> set (map_put (ky_KID k) (sk_PublicKey (sg_key s)) m). kid = keyID lib key"
    using Cons.prems(2) s(2) by (auto dest!: set_put_subset)
  with Cons.IH [OF _ this] Cons.prems(1) obtain m' where
    m': "verification_keys lib ks (map_put (ky_KID k) (sk_PublicKey (sg_key s)) m) = Inr m'"
      "\<forall>(kid, key) \<in> set m'. kid = keyID lib key"
      "fst ` set m' = fst ` set (map_put (ky_KID k) (sk_PublicKey (sg_key s)) m) \<union> ky_KID ` set ks"
      "snd ` set m' \<subseteq> snd ` set (map_put (ky_KID k) (sk_PublicKey (sg_key s)) m) \<union> stored_keys lib ks" by auto
  have "snd ` set (map_put (ky_KID k) (sk_PublicKey (sg_key s)) m) \<subseteq> snd ` set m \<union> stored_keys lib (k # ks)"
    using s(1) by (force simp: stored_keys_def dest: set_put_subset)
  moreover have "stored_keys lib ks \<subseteq> stored_keys lib (k # ks)" by (auto simp: stored_keys_def)
  ultimately have "snd ` set m' \<subseteq> snd ` set m \<union> stored_keys lib (k # ks)" using m'(4) by blast
  with m'(1-3) s(1) show ?case by (intro exI [of _ m']) auto
qed (simp add: stored_keys_def)

lemma Refresh_ok:
  assumes "keys_ok lib r" and "signer_ok lib s"
  obtains s' where "Signer_Refresh lib now r s = (Inr (), s')" and "signer_ok lib s'"
    and "fst ` set (sg_verification s') = ky_KID ` set r" and "sg_lastRefresh s' = now"
    and "\<exists>k \<in> set r. ky_Active k \<and> ky_KID k = sg_kid s'" and "snd ` set (sg_verification s') \<subseteq> stored_keys lib r"
proof -
  from assms(1) obtain k where k: "find ky_Active (rev r) = Some k"
    by (auto simp: keys_ok_def list_ex_iff find_None_iff split: option.splits) (metis find_None_iff not_None_eq set_rev)
  then have "k \<in> set r" "ky_Active k" by (auto dest!: find_SomeD)
  with assms(1) obtain a where a: "signerFromPEM lib (ky_PEM k) = Inr a" "ky_KID k = keyID lib (sk_PublicKey (sg_key a))"
    by (auto simp: keys_ok_def list_all_iff stored_key_ok_def)
  from assms(1) verification_keys_ok [of lib r "[]"] obtain m where
    m: "verification_keys lib r [] = Inr m" "\<forall>(kid, key) \<in> set m. kid = keyID lib key" "fst ` set m = ky_KID ` set r"
    "snd ` set m \<subseteq> stored_keys lib r"
    by (auto simp: keys_ok_def)
  let ?s = "(if sg_kid a \<noteq> sg_kid s then s\<lparr>sg_key := sg_key a, sg_kid := sg_kid a\<rparr> else s)\<lparr>sg_verification := m, sg_lastRefresh := now\<rparr>"
  show ?thesis
  proof (rule that [of ?s])
    show "Signer_Refresh lib now r s = (Inr (), ?s)"
      by (simp add: Signer_Refresh_def LoadActiveSigningKey_def k a(1) reloadVerificationKeys_def ListSigningKeys_def m(1))
    show "signer_ok lib ?s" using assms(2) m(2) signerFromPEM_ok [OF a(1)] by (auto simp: signer_ok_def)
    show "\<exists>k \<in> set r. ky_Active k \<and> ky_KID k = sg_kid ?s"
      using \<open>k \<in> set r\<close> \<open>ky_Active k\<close> a(2) signerFromPEM_ok [OF a(1)] by auto
  qed (simp_all add: m(3,4))
qed

lemma refreshIfStale_ok:
  assumes "keys_ok lib r" and "signer_ok lib s"
  shows "signer_ok lib (refreshIfStale lib now r s)"
    and "snd ` set (sg_verification (refreshIfStale lib now r s)) \<subseteq> snd ` set (sg_verification s) \<union> stored_keys lib r"
  by (rule Refresh_ok [OF assms, where now = now]; auto simp: refreshIfStale_def assms)+

lemma verification_key_ok:
  assumes "keys_ok lib r" and "signer_ok lib s" and "kid \<in> ky_KID ` set r"
  obtains key s' where "verification_key lib now r kid s = (Some key, s')" and "signer_ok lib s'"
    and "(kid, key) \<in> set (sg_verification s')"
    and "snd ` set (sg_verification s') \<subseteq> snd ` set (sg_verification s) \<union> stored_keys lib r"
proof (cases "map_of (sg_verification s) kid")
  case None
  obtain s' where s': "Signer_Refresh lib now r s = (Inr (), s')" "signer_ok lib s'"
    "fst ` set (sg_verification s') = ky_KID ` set r" "snd ` set (sg_verification s') \<subseteq> stored_keys lib r"
    by (rule Refresh_ok [OF assms(1,2), where now = now])
  with assms(3) obtain key where "map_of (sg_verification s') kid = Some key"
    by (metis map_of_eq_None_iff not_None_eq)
  with None s' show ?thesis by (intro that) (auto simp: verification_key_def dest: map_of_SomeD)
next
  case (Some key)
  with assms(2) show ?thesis by (intro that [of key s]) (auto simp: verification_key_def dest: map_of_SomeD)
qed

lemma Split_token: "Split (CHR ''.'') (encode_part u @ ''.'' @ encode_part v @ ''.'' @ RawURLEncoding_EncodeToString sig) =
    [encode_part u, encode_part v, RawURLEncoding_EncodeToString sig]"
  by (simp add: Split_append_sep Split_no_sep encode_part_no_dot url_text_no_dot)

lemma verified_payload_signed:
  assumes "rsa_laws lib" and "SignPKCS1v15 lib key (Sum256 lib (bytes_of (p0 @ ''.'' @ encode_part (JObj cs)))) = Some sig"
    and "distinct (map fst cs)" and "integral (JObj cs)"
  obtains m where "verified_payload lib (sk_PublicKey key) p0 (encode_part (JObj cs)) (RawURLEncoding_EncodeToString sig) = Inr m"
    and "\<And>k. map_of m k = map_option sorted_keys (map_of cs k)"
proof -
  obtain m where m: "Unmarshal_map (Marshal (JObj cs)) = Some m" "\<And>k. map_of m k = map_option sorted_keys (map_of cs k)"
    by (rule Unmarshal_map_Marshal [OF assms(3,4)]) blast
  have "VerifyPKCS1v15 lib (sk_PublicKey key) (Sum256 lib (bytes_of (p0 @ ''.'' @ encode_part (JObj cs)))) sig"
    using assms(1,2) unfolding rsa_laws_def by blast
  with m show ?thesis by (intro that [of m]) (simp_all add: verified_payload_def raw64_roundtrip)
qed

lemma signed_token_accepted:
  assumes "rsa_laws lib" and "keys_ok lib r" and "keys_ok lib r'" and "signer_ok lib s" and "signer_ok lib t"
    and "SignTyped lib now r cs typ s = (Inr token, s')"
    and "sg_kid s' \<in> ky_KID ` set r'"
    and "inj_on (keyID lib) (insert (sk_PublicKey (sg_key s')) (snd ` set (sg_verification t) \<union> stored_keys lib r'))"
    and "distinct (map fst cs)" and "integral (JObj cs)"
  shows "\<exists>m. fst (Verify lib later r' token t) = Inr m \<and> (\<forall>k. map_of m k = map_option sorted_keys (map_of cs k))"
proof -
  from assms(6) obtain sig where s': "s' = refreshIfStale lib now r s"
    and sig: "SignPKCS1v15 lib (sg_key s') (Sum256 lib (bytes_of (encode_part (token_header (sg_kid s') typ) @ ''.'' @ encode_part (JObj cs)))) = Some sig"
    and token: "token = encode_part (token_header (sg_kid s') typ) @ ''.'' @ encode_part (JObj cs) @ ''.'' @ RawURLEncoding_EncodeToString sig"
    by (auto simp: SignTyped_def Let_def split: if_splits option.splits)
  have ok': "signer_ok lib s'" unfolding s' by (rule refreshIfStale_ok [OF assms(2,4)])
  note t = refreshIfStale_ok [OF assms(3,5), of later]
  obtain key t' where key: "verification_key lib later r' (sg_kid s') (refreshIfStale lib later r' t) = (Some key, t')"
    "signer_ok lib t'" "(sg_kid s', key) \<in> set (sg_verification t')"
    "snd ` set (sg_verification t') \<subseteq> snd ` set (sg_verification (refreshIfStale lib later r' t)) \<union> stored_keys lib r'"
    by (rule verification_key_ok [OF assms(3) t(1) assms(7), where now = later])
  have v: "Verify lib later r' token t =
      (verified_payload lib key (encode_part (token_header (sg_kid s') typ)) (encode_part (JObj cs)) (RawURLEncoding_EncodeToString sig), t')"
    unfolding Verify_def token Split_token by (simp add: Let_def header_kid_encoded key(1))
  have "keyID lib key = keyID lib (sk_PublicKey (sg_key s'))" using key(2,3) ok' by (auto simp: signer_ok_def)
  moreover have "key \<in> snd ` set (sg_verification t) \<union> stored_keys lib r'" using key(3,4) t(2) by (force simp: image_iff)
  ultimately have "key = sk_PublicKey (sg_key s')" by (intro inj_onD [OF assms(8)]) auto
  moreover obtain m where "verified_payload lib (sk_PublicKey (sg_key s')) (encode_part (token_header (sg_kid s') typ)) (encode_part (JObj cs))
      (RawURLEncoding_EncodeToString sig) = Inr m" "\<And>k. map_of m k = map_option sorted_keys (map_of cs k)"
    by (rule verified_payload_signed [OF assms(1) sig assms(9,10)]) blast
  ultimately show ?thesis unfolding v by auto
qed


text \<open>A deleted key is dead: thirty seconds after its last refresh at the latest, an instance accepts no token whose key
  identifier is not that of a stored key; what it accepts carries a valid signature of a stored key.\<close>

lemma deleted_key_rejected:
  assumes "keys_ok lib r" and "signer_ok lib s" and "30 * second \<le> now - sg_lastRefresh s"
    and "fst (Verify lib now r token s) = Inr cs"
  shows "\<exists>p0 p1 p2 key sig k. token = p0 @ ''.'' @ p1 @ ''.'' @ p2 \<and> RawURLEncoding_DecodeString p2 = Some sig
    \<and> VerifyPKCS1v15 lib key (Sum256 lib (bytes_of (p0 @ ''.'' @ p1))) sig
    \<and> k \<in> set r \<and> ky_KID k = keyID lib key \<and> header_kid p0 = Some (ky_KID k)"
proof -
  obtain s1 where s1: "Signer_Refresh lib now r s = (Inr (), s1)" "signer_ok lib s1" "fst ` set (sg_verification s1) = ky_KID ` set r"
    by (rule Refresh_ok [OF assms(1,2), where now = now])
  then have stale: "refreshIfStale lib now r s = s1" using assms(3) by (simp add: refreshIfStale_def)
  from assms(4) obtain p0 p1 p2 kid where p: "Split (CHR ''.'') token = [p0, p1, p2]" "header_kid p0 = Some kid"
    by (auto simp: Verify_def Let_def stale split: list.splits option.splits)
  with assms(4) obtain key s2 where key: "verification_key lib now r kid s1 = (Some key, s2)" "verified_payload lib key p0 p1 p2 = Inr cs"
    by (auto simp: Verify_def Let_def stale split: option.splits prod.splits)
  obtain s3 where s3: "Signer_Refresh lib now r s1 = (Inr (), s3)" "signer_ok lib s3" "fst ` set (sg_verification s3) = ky_KID ` set r"
    by (rule Refresh_ok [OF assms(1) s1(2), where now = now])
  with key(1) have "map_of (sg_verification s1) kid = Some key \<or> map_of (sg_verification s3) kid = Some key"
    by (auto simp: verification_key_def split: option.splits)
  then have "(kid, key) \<in> set (sg_verification s1) \<or> (kid, key) \<in> set (sg_verification s3)" by (auto dest: map_of_SomeD)
  then have kid: "kid = keyID lib key" "kid \<in> ky_KID ` set r"
    using s1(2,3) s3(2,3) by (auto simp: signer_ok_def image_iff) (metis fst_conv image_iff)+
  then obtain k where k: "k \<in> set r" "ky_KID k = kid" by auto
  from key(2) obtain sig where "RawURLEncoding_DecodeString p2 = Some sig"
    "VerifyPKCS1v15 lib key (Sum256 lib (bytes_of (p0 @ ''.'' @ p1))) sig"
    by (auto simp: verified_payload_def split: option.splits if_splits)
  moreover have "token = p0 @ ''.'' @ p1 @ ''.'' @ p2" using Join_Split [of "CHR ''.''" token] p(1) by simp
  ultimately show ?thesis using k kid(1) p(2) by blast
qed

section \<open>Rotation\<close>

lemma generateSigningKey_ok:
  assumes "rsa_laws lib" and "2048 \<le> bit_length (pk_N (sk_PublicKey key))"
    and "generateSigningKey lib (Some key) = Inr (kid, pem)"
  shows "stored_key_ok lib (active_key kid pem now)" and "kid = keyID lib (sk_PublicKey key)"
proof -
  from assms(3) obtain der where der: "MarshalPKCS8PrivateKey lib key = Some der" "pem = pem_EncodeToMemory lib der"
    and kid: "kid = keyID lib (sk_PublicKey key)" by (auto simp: generateSigningKey_def split: option.splits)
  then have "pem_Decode lib pem = Some der" "ParsePKCS8PrivateKey lib der = Some (RSAKey key)"
    using assms(1) by (auto simp: rsa_laws_def)
  with assms(2) show "stored_key_ok lib (active_key kid pem now)"
    by (simp add: stored_key_ok_def signerFromPEM_def active_key_def kid)
  show "kid = keyID lib (sk_PublicKey key)" by (fact kid)
qed

lemma stored_key_ok_retire [simp]: "stored_key_ok lib (retire now k) = stored_key_ok lib k"
  by (simp add: stored_key_ok_def retire_def)

lemma keys_ok_rotate: "keys_ok lib r \<Longrightarrow> stored_key_ok lib (active_key kid pem now) \<Longrightarrow> keys_ok lib (rotateLocked kid pem now r)"
  by (auto simp: keys_ok_def rotateLocked_def active_key_def list_all_iff list_ex_iff)

lemma keys_ok_delete: "keys_ok lib r \<Longrightarrow> keys_ok lib (snd (DeleteRetiredSigningKeys limit r))"
  by (auto simp: keys_ok_def DeleteRetiredSigningKeys_def list_all_iff list_ex_iff expired_key_def)

lemma with_reload_ok:
  assumes "keys_ok lib r" and "signer_ok lib s"
  shows "\<exists>s'. with_reload lib now r s = Inr s' \<and> signer_ok lib s'"
  using verification_keys_ok [of lib r "[]"] assms
  by (auto simp: keys_ok_def with_reload_def reloadVerificationKeys_def ListSigningKeys_def signer_ok_def)

lemma load_active_ok:
  assumes "keys_ok lib r"
  obtains pem a where "LoadActiveSigningKey r = Inr pem" and "signerFromPEM lib pem = Inr a" and "signer_ok lib a"
proof -
  from assms obtain k where k: "find ky_Active (rev r) = Some k"
    by (auto simp: keys_ok_def list_ex_iff find_None_iff split: option.splits) (metis find_None_iff not_None_eq set_rev)
  then have "k \<in> set r" by (auto dest!: find_SomeD)
  with assms obtain a where "signerFromPEM lib (ky_PEM k) = Inr a" by (auto simp: keys_ok_def list_all_iff stored_key_ok_def)
  then show ?thesis using k signerFromPEM_ok by (intro that [of "ky_PEM k" a]) (auto simp: LoadActiveSigningKey_def)
qed

text \<open>Starting up: whether the first key is found, made, or lost in the race for it, the instance gets a usable
  signer and the repository holds an active key.\<close>

lemma NewSigner_ok:
  assumes "rsa_laws lib" and "2048 \<le> bit_length (pk_N (sk_PublicKey key))" and "MarshalPKCS8PrivateKey lib key = Some der"
    and "r = [] \<or> keys_ok lib r" and "others r = [] \<or> keys_ok lib (others r)"
  shows "\<exists>s r'. NewSigner lib (Some key) now others r = (Inr s, r') \<and> keys_ok lib r' \<and> signer_ok lib s"
proof -
  obtain kid pem where g: "generateSigningKey lib (Some key) = Inr (kid, pem)"
    using assms(3) by (simp add: generateSigningKey_def)
  note gk = generateSigningKey_ok [OF assms(1,2) g]
  show ?thesis
  proof (cases "r = []")
    case False
    with assms(4) have ok: "keys_ok lib r" by simp
    obtain pem a where "LoadActiveSigningKey r = Inr pem" "signerFromPEM lib pem = Inr a" "signer_ok lib a"
      by (rule load_active_ok [OF ok])
    with ok with_reload_ok [OF ok, of a now] show ?thesis by (auto simp: NewSigner_def)
  next
    case True
    then have none: "LoadActiveSigningKey r = Inl ErrSigningKeyNotFound" by (simp add: LoadActiveSigningKey_def)
    show ?thesis
    proof (cases "others r = []")
      case True
      have "keys_ok lib [active_key kid pem now]" using gk(1) [of now] by (simp add: keys_ok_def active_key_def)
      moreover have "signer_ok lib \<lparr>sg_key = key, sg_kid = kid, sg_verification = [], sg_lastRefresh = 0\<rparr>"
        by (simp add: signer_ok_def gk(2))
      ultimately obtain s' where "with_reload lib now [active_key kid pem now]
          \<lparr>sg_key = key, sg_kid = kid, sg_verification = [], sg_lastRefresh = 0\<rparr> = Inr s'" "signer_ok lib s'"
        using with_reload_ok by blast
      with \<open>keys_ok lib [active_key kid pem now]\<close> none True g show ?thesis
        by (auto simp: NewSigner_def SaveActiveSigningKey_def)
    next
      case False
      with assms(5) have ok: "keys_ok lib (others r)" by simp
      obtain pem' a where l: "LoadActiveSigningKey (others r) = Inr pem'" "signerFromPEM lib pem' = Inr a" "signer_ok lib a"
        by (rule load_active_ok [OF ok])
      have "list_ex ky_Active (others r)" using ok by (simp add: keys_ok_def)
      with none g l ok with_reload_ok [OF ok l(3), of now] show ?thesis
        by (auto simp: NewSigner_def SaveActiveSigningKey_def)
    qed
  qed
qed

text \<open>Automatic rotation is exact under concurrency: an instance rotates exactly when, both when it looks and when
  it commits, no active key is young enough. So of several instances that find the key too old only the first
  rotates, the others adopt its key, and the repository keeps one active key.\<close>

lemma rotation_iff_due:
  assumes "rsa_laws lib" and "2048 \<le> bit_length (pk_N (sk_PublicKey key))" and "MarshalPKCS8PrivateKey lib key = Some der"
    and "keys_ok lib r" and "keys_ok lib (others r)" and "signer_ok lib s" and "0 < maxAge"
  shows "\<exists>kid rotated s' r'. RotateIfOlderThan lib (Some key) maxAge now others r s = (Inr (kid, rotated), s', r')
    \<and> (rotated \<longleftrightarrow> \<not> list_ex (\<lambda>k. ky_Active k \<and> now - maxAge \<le> ky_CreatedAt k) (r @ others r))
    \<and> (rotated \<longrightarrow> kid = keyID lib (sk_PublicKey key) \<and> one_active r')
    \<and> (\<exists>k \<in> set r'. ky_Active k \<and> ky_KID k = kid)"
proof -
  obtain kid pem where g: "generateSigningKey lib (Some key) = Inr (kid, pem)"
    using assms(3) by (simp add: generateSigningKey_def)
  note gk = generateSigningKey_ok [OF assms(1,2) g]
  let ?young = "\<lambda>k. ky_Active k \<and> now - maxAge \<le> ky_CreatedAt k"
  have young: "(\<lambda>k. ky_Active k \<and> \<not> ky_CreatedAt k < now - maxAge) = ?young" by (simp add: not_less)
  show ?thesis
  proof (cases "find ?young r")
    case (Some k)
    then have "k \<in> set r" "?young k" by (auto dest!: find_SomeD)
    then show ?thesis using assms(7) by (auto simp: RotateIfOlderThan_def young ListSigningKeys_def Some list_ex_iff)
  next
    case None
    then have no: "\<not> list_ex ?young r" by (auto simp: find_None_iff list_ex_iff)
    let ?r' = "snd (RotateSigningKeyIfOlderThan kid pem now (now - maxAge) (others r))"
    have r': "?r' = (if list_ex ?young (others r) then others r else rotateLocked kid pem now (others r))"
      by (simp add: RotateSigningKeyIfOlderThan_def young)
    then have "keys_ok lib ?r'" using assms(5) keys_ok_rotate gk(1) by auto
    from Refresh_ok [OF this assms(6), where now = now] obtain s' where
      s': "Signer_Refresh lib now ?r' s = (Inr (), s')" "\<exists>k \<in> set ?r'. ky_Active k \<and> ky_KID k = sg_kid s'" by metis
    have e: "RotateIfOlderThan lib (Some key) maxAge now others r s =
        (Inr (sg_kid s', \<not> list_ex ?young (others r)), s', ?r')"
      using None assms(7) s'(1) r' by (simp add: RotateIfOlderThan_def young ListSigningKeys_def g Let_def RotateSigningKeyIfOlderThan_def split: if_splits)
    have "\<not> list_ex ?young (others r) \<Longrightarrow> sg_kid s' = kid"
      using s'(2) unfolding r' by (auto simp: rotateLocked_def active_key_def)
    then show ?thesis unfolding e using no s'(2) gk(2) rotateLocked_one_active [of kid pem now "others r"] r' by auto
  qed
qed

section \<open>Witnesses\<close>

lemma bit_length_ge: "2 ^ k \<le> n \<Longrightarrow> k < bit_length n"
proof (induction k arbitrary: n)
  case 0
  then show ?case by (subst bit_length.simps) simp
next
  case (Suc k)
  then have "k < bit_length (n div 2)" by (intro Suc.IH) auto
  then show ?case using Suc.prems by (subst bit_length.simps) (cases n, auto)
qed

definition demo_private :: "nat \<Rightarrow> PrivateKey" where
  "demo_private e = \<lparr>sk_PublicKey = \<lparr>pk_N = 2 ^ 2047, pk_E = e\<rparr>, sk_D = 1\<rparr>"

definition demo_rsa :: rsa_lib where
  "demo_rsa = \<lparr>Sum256 = (\<lambda>b. b), pem_Decode = Some, pem_EncodeToMemory = (\<lambda>b. b),
     ParsePKCS8PrivateKey = (\<lambda>b. if b = [1] then Some (RSAKey (demo_private 3))
       else if b = [2] then Some (RSAKey (demo_private 5)) else None),
     MarshalPKCS8PrivateKey = (\<lambda>k. if k = demo_private 3 then Some [1] else if k = demo_private 5 then Some [2] else None),
     MarshalPKCS1PublicKey = (\<lambda>p. [of_nat (pk_E p)]),
     SignPKCS1v15 = (\<lambda>k d. Some (of_nat (pk_E (sk_PublicKey k)) # d)),
     VerifyPKCS1v15 = (\<lambda>p d s. s = of_nat (pk_E p) # d)\<rparr>"

lemma demo_rsa_laws: "rsa_laws demo_rsa"
  by (auto simp: rsa_laws_def demo_rsa_def demo_private_def)

lemma demo_large: "2048 \<le> bit_length (pk_N (sk_PublicKey (demo_private e)))"
  using bit_length_ge [of 2047 "2 ^ 2047"] by (simp add: demo_private_def)

definition demo_kid :: "nat \<Rightarrow> string" where
  "demo_kid e = keyID demo_rsa (sk_PublicKey (demo_private e))"

definition demo_keys :: KeyRepository where
  "demo_keys = [active_key (demo_kid 3) [1] 0]"

definition demo_signer :: Signer where
  "demo_signer = \<lparr>sg_key = demo_private 3, sg_kid = demo_kid 3,
     sg_verification = [(demo_kid 3, sk_PublicKey (demo_private 3))], sg_lastRefresh = 100\<rparr>"

lemma demo_pem: "signerFromPEM demo_rsa [1] = Inr (demo_signer\<lparr>sg_lastRefresh := 0\<rparr>)"
  using demo_large [of 3] by (simp add: signerFromPEM_def demo_rsa_def demo_signer_def demo_kid_def)

lemma demo_keys_ok: "keys_ok demo_rsa demo_keys"
  by (simp add: keys_ok_def demo_keys_def active_key_def stored_key_ok_def demo_pem demo_signer_def demo_kid_def)

lemma demo_signer_ok: "signer_ok demo_rsa demo_signer"
  by (simp add: signer_ok_def demo_signer_def demo_kid_def)

lemma demo_one_active: "one_active demo_keys"
  by (simp add: one_active_def demo_keys_def active_key_def)

definition demo_claims :: claims where
  "demo_claims = [(''sub'', JStr ''u1''), (''exp'', JInt 1700000000)]"

theorem signing_key_lifecycle_witness:
  "one_active (final key_step demo_keys [CallRotateKey ''k2'' [2] 10, CallDeleteKeys 5])"
  using signing_key_lifecycle [OF demo_one_active, of "[CallRotateKey ''k2'' [2] 10, CallDeleteKeys 5]"] by simp

lemma demo_sign: "\<exists>token. SignTyped demo_rsa 200 demo_keys demo_claims ''JWT'' demo_signer = (Inr token, demo_signer)"
proof -
  have "refreshIfStale demo_rsa 200 demo_keys demo_signer = demo_signer" by (simp add: refreshIfStale_def demo_signer_def)
  then show ?thesis by (auto simp: SignTyped_def Let_def demo_rsa_def)
qed

lemma demo_claims_ok: "integral (JObj demo_claims)" "distinct (map fst demo_claims)"
  by (auto simp: demo_claims_def JInt_def)

lemma demo_kid_stored: "sg_kid demo_signer \<in> ky_KID ` set demo_keys"
  by (simp add: demo_signer_def demo_keys_def active_key_def)

lemma demo_no_collision: "inj_on (keyID demo_rsa) (insert (sk_PublicKey (sg_key demo_signer))
    (snd ` set (sg_verification demo_signer) \<union> stored_keys demo_rsa demo_keys))"
proof -
  have "stored_keys demo_rsa demo_keys = {sk_PublicKey (demo_private 3)}"
    by (auto simp: stored_keys_def demo_keys_def active_key_def demo_pem demo_signer_def)
  then show ?thesis by (simp add: demo_signer_def)
qed

lemmas demo_facts = demo_kid_stored demo_no_collision demo_claims_ok(2,1)


end
