(* ===== verification/Go_Form.thy ===== *)
theory Go_Form
  imports Go_URL
begin

text \<open>
  Form and query values, as in Go's \<open>net/url\<close>: the type \<open>url.Values\<close> with \<open>Get\<close>, \<open>Set\<close> and
  \<open>Del\<close>, \<open>url.QueryUnescape\<close>, \<open>url.ParseQuery\<close> (and \<open>URL.Query\<close>, which drops what does not parse)
  and \<open>Values.Encode\<close>. The main fact is that encoded values are parsed back unchanged, which
  Certus relies on whenever it carries a request through a redirect.
  The limit on the number of parameters that recent Go versions impose is left out.
\<close>

section \<open>Values\<close>

type_synonym Values = "(string, string list) gomap"

definition values_at :: "string \<Rightarrow> Values \<Rightarrow> string list" where
  "values_at k v = (case map_of v k of None \<Rightarrow> [] | Some xs \<Rightarrow> xs)"

definition Get :: "string \<Rightarrow> Values \<Rightarrow> string" where
  "Get k v = (case values_at k v of [] \<Rightarrow> [] | x # _ \<Rightarrow> x)"

definition Values_Set :: "string \<Rightarrow> string \<Rightarrow> Values \<Rightarrow> Values" where
  "Values_Set k x v = map_put k [x] v"

definition Values_Del :: "string \<Rightarrow> Values \<Rightarrow> Values" where
  "Values_Del k v = map_delete k v"

definition Values_Add :: "string \<Rightarrow> string \<Rightarrow> Values \<Rightarrow> Values" where
  "Values_Add k x v = map_put k (values_at k v @ [x]) v"

section \<open>Parsing\<close>

fun QueryUnescape :: "string \<Rightarrow> string option" where
  "QueryUnescape [] = Some []"
| "QueryUnescape (c # cs) =
     (if c = CHR ''%'' then
        (case cs of
           a # b # rest \<Rightarrow>
             (case (hex_digit a, hex_digit b) of
                (Some x, Some y) \<Rightarrow> map_option ((#) (char_of (16 * x + y))) (QueryUnescape rest)
              | _ \<Rightarrow> None)
         | _ \<Rightarrow> None)
      else map_option ((#) (if c = CHR ''+'' then CHR '' '' else c)) (QueryUnescape cs))"

definition cut_pair :: "string \<Rightarrow> string \<times> string" where
  "cut_pair s = (case Cut (CHR ''='') s of None \<Rightarrow> (s, []) | Some kv \<Rightarrow> kv)"

text \<open>The loop of \<open>parseQuery\<close> over the parts between ampersands; the flag is false when some part did not parse.\<close>

fun parse_parts :: "string list \<Rightarrow> bool \<times> Values \<Rightarrow> bool \<times> Values" where
  "parse_parts [] (ok, v) = (ok, v)"
| "parse_parts (part # parts) (ok, v) =
     (if CHR '';'' \<in> set part then parse_parts parts (False, v)
      else if part = [] then parse_parts parts (ok, v)
      else case (QueryUnescape (fst (cut_pair part)), QueryUnescape (snd (cut_pair part))) of
          (Some k, Some x) \<Rightarrow> parse_parts parts (ok, Values_Add k x v)
        | _ \<Rightarrow> parse_parts parts (False, v))"

definition ParseQuery :: "string \<Rightarrow> Values option" where
  "ParseQuery s =
     (case parse_parts (Split (CHR ''&'') s) (True, []) of (ok, v) \<Rightarrow> if ok then Some v else None)"

definition URL_Query :: "URL \<Rightarrow> Values" where
  "URL_Query url = snd (parse_parts (Split (CHR ''&'') (u_RawQuery url)) (True, []))"

text \<open>\<open>url.ParseRequestURI\<close>: an address as a request line carries it, absolute or with a path; there is no fragment and,
  without a scheme, no authority.\<close>

definition ParseRequestURI :: "string \<Rightarrow> URL option" where
  "ParseRequestURI raw =
     (if list_ex is_ctl raw \<or> raw = [] then None
      else if raw = ''*'' then Some (empty_url\<lparr>u_Path := ''*''\<rparr>)
      else case getScheme raw of
          None \<Rightarrow> None
        | Some (scheme0, rest0) \<Rightarrow>
            let scheme = ToLower scheme0;
                rest = before_char (CHR ''?'') rest0;
                query = (case Cut (CHR ''?'') rest0 of None \<Rightarrow> [] | Some (_, q) \<Rightarrow> q)
            in if \<not> HasPrefix rest ''/'' then
                 (if scheme \<noteq> [] then Some (empty_url\<lparr>u_Scheme := scheme, u_Opaque := rest, u_RawQuery := query\<rparr>) else None)
               else if scheme \<noteq> [] then parse_hierarchy scheme query rest
               else map_option (\<lambda>p. empty_url\<lparr>u_Path := p, u_RawQuery := query\<rparr>) (unescape EncPath rest))"

section \<open>Printing\<close>

definition encode_pairs :: "Values \<Rightarrow> (string \<times> string) list" where
  "encode_pairs v = concat (map (\<lambda>(k, xs). map (Pair k) xs) (sort_key fst v))"

definition Encode :: "Values \<Rightarrow> string" where
  "Encode v = Join ''&'' (map (\<lambda>(k, x). QueryEscape k @ ''='' @ QueryEscape x) (encode_pairs v))"

section \<open>Facts\<close>

lemma values_at_Nil [simp]: "values_at k [] = []"
  by (simp add: values_at_def)

lemma values_at_Set [simp]: "values_at k' (Values_Set k x v) = (if k' = k then [x] else values_at k' v)"
  by (simp add: values_at_def Values_Set_def)

lemma values_at_Del [simp]: "values_at k' (Values_Del k v) = (if k' = k then [] else values_at k' v)"
  by (simp add: values_at_def Values_Del_def map_of_delete)

lemma values_at_Add [simp]:
  "values_at k' (Values_Add k x v) = (if k' = k then values_at k v @ [x] else values_at k' v)"
  by (simp add: values_at_def Values_Add_def)

lemma Get_Set [simp]: "Get k' (Values_Set k x v) = (if k' = k then x else Get k' v)"
  by (simp add: Get_def)

lemma Get_Del [simp]: "Get k' (Values_Del k v) = (if k' = k then [] else Get k' v)"
  by (simp add: Get_def)

lemma Get_cong: "values_at k v = values_at k w \<Longrightarrow> Get k v = Get k w"
  by (simp add: Get_def)

lemma gomap_ok_Values [simp]:
  "gomap_ok v \<Longrightarrow> gomap_ok (Values_Set k x v)" "gomap_ok v \<Longrightarrow> gomap_ok (Values_Del k v)"
  "gomap_ok v \<Longrightarrow> gomap_ok (Values_Add k x v)"
  by (simp_all add: Values_Set_def Values_Del_def Values_Add_def)

lemma gomap_ok_parse_parts: "gomap_ok v \<Longrightarrow> gomap_ok (snd (parse_parts parts (ok, v)))"
  by (induction parts "(ok, v)" arbitrary: ok v rule: parse_parts.induct) (auto split: option.splits)

lemma gomap_ok_URL_Query [simp]: "gomap_ok (URL_Query url)"
  by (simp add: URL_Query_def gomap_ok_parse_parts)

section \<open>Encoded values are parsed back\<close>

lemma lower_upper_char: "\<not> is_upper c \<Longrightarrow> lower_char (upper_char c) = c"
  by (auto simp: lower_char_def upper_char_def is_upper_def is_lower_def char_code_def)

lemma hex_alphabet_kind: "c \<in> set hex_alphabet \<Longrightarrow> is_digit c \<or> is_lower c"
  unfolding hex_alphabet_def by (auto simp: is_digit_def is_lower_def char_code_def)

lemma hex_upper: "c \<in> set hex_alphabet \<Longrightarrow> lower_char (upper_char c) = c \<and> (is_digit (upper_char c) \<or> is_upper (upper_char c))"
proof -
  assume c: "c \<in> set hex_alphabet"
  then have "\<not> is_upper c" using hex_alphabet_kind [OF c] by (auto simp: is_digit_def is_lower_def is_upper_def)
  moreover have "is_lower c \<Longrightarrow> is_upper (upper_char c)"
    by (auto simp: upper_char_def is_upper_def is_lower_def char_code_def)
  moreover have "is_digit c \<Longrightarrow> is_digit (upper_char c)"
    by (auto simp: upper_char_def is_digit_def is_lower_def char_code_def)
  ultimately show ?thesis using hex_alphabet_kind [OF c] lower_upper_char by blast
qed

lemma hex_nth: "i < 16 \<Longrightarrow> hex_alphabet ! i \<in> set hex_alphabet"
  by (rule nth_mem) (simp add: hex_alphabet_def)

lemma hex_digit_upper: "i < 16 \<Longrightarrow> hex_digit (upper_char (hex_alphabet ! i)) = Some i"
  using hex_digit_nth [of i] hex_upper [OF hex_nth, of i] lower_hex [OF hex_nth, of i] by (simp add: hex_digit_def)

lemma QueryUnescape_percent:
  "QueryUnescape (percent c @ rest) = map_option ((#) c) (QueryUnescape rest)"
  using char_code_less [of c]
  by (simp add: percent_def ToUpper_def hex_digit_upper)

lemma QueryUnescape_QueryEscape: "QueryUnescape (QueryEscape s) = Some s"
proof (induction s)
  case (Cons c s)
  have sp: "url_unreserved c \<Longrightarrow> c \<noteq> CHR ''+'' \<and> c \<noteq> CHR ''%''"
    by (auto simp: url_unreserved_def is_lower_def is_upper_def is_digit_def char_code_def)
  have e: "QueryEscape (c # s) =
      (if url_unreserved c then [c] else if c = CHR '' '' then ''+'' else percent c) @ QueryEscape s"
    by (simp add: QueryEscape_def)
  show ?case
    unfolding e using sp Cons by (auto simp: QueryUnescape_percent)
qed (simp add: QueryEscape_def)

lemma percent_chars: "d \<in> set (percent c) \<Longrightarrow> d = CHR ''%'' \<or> is_digit d \<or> is_upper d"
proof -
  assume d: "d \<in> set (percent c)"
  have u: "i < 16 \<Longrightarrow> is_digit (upper_char (hex_alphabet ! i)) \<or> is_upper (upper_char (hex_alphabet ! i))" for i
    using hex_upper [OF hex_nth] by blast
  show ?thesis using d u [of "char_code c div 16"] u [of "char_code c mod 16"] char_code_less [of c]
    by (auto simp: percent_def ToUpper_def)
qed

lemma QueryEscape_no_separator: "c \<in> {CHR ''&'', CHR ''='', CHR '';''} \<Longrightarrow> c \<notin> set (QueryEscape s)"
proof
  assume c: "c \<in> {CHR ''&'', CHR ''='', CHR '';''}" and "c \<in> set (QueryEscape s)"
  then obtain d where "url_unreserved c \<or> c = CHR ''+'' \<or> c \<in> set (percent d)"
    by (auto simp: QueryEscape_def split: if_splits)
  with c show False
    by (auto simp: url_unreserved_def is_lower_def is_upper_def is_digit_def char_code_def dest: percent_chars)
qed

lemma Split_Join:
  "ws \<noteq> [] \<Longrightarrow> (\<And>w. w \<in> set ws \<Longrightarrow> sep \<notin> set w) \<Longrightarrow> Split sep (Join [sep] ws) = ws"
proof (induction ws)
  case (Cons w ws)
  then show ?case by (cases ws) (simp_all add: Split_no_sep Split_append_sep)
qed simp

lemma cut_pair_encoded [simp]:
  "cut_pair (QueryEscape k @ CHR ''='' # QueryEscape x) = (QueryEscape k, QueryEscape x)"
  by (simp add: cut_pair_def Cut_append_sep QueryEscape_no_separator)

lemma parse_parts_encoded:
  "parse_parts (map (\<lambda>(k, x). QueryEscape k @ ''='' @ QueryEscape x) kvs) (ok, v) =
     (ok, fold (\<lambda>(k, x). Values_Add k x) kvs v)"
proof (induction kvs arbitrary: v)
  case (Cons kv kvs)
  then show ?case by (cases kv) (simp add: QueryEscape_no_separator QueryUnescape_QueryEscape)
qed simp

lemma parse_parts_Encode:
  "parse_parts (Split (CHR ''&'') (Encode v)) (True, []) =
     (True, fold (\<lambda>(k, x). Values_Add k x) (encode_pairs v) [])"
proof (cases "encode_pairs v")
  case Nil
  then show ?thesis by (simp add: Encode_def)
next
  case (Cons kv kvs)
  have "Split (CHR ''&'') (Encode v) = map (\<lambda>(k, x). QueryEscape k @ ''='' @ QueryEscape x) (encode_pairs v)"
    unfolding Encode_def using Cons
    by (intro Split_Join) (auto simp: QueryEscape_no_separator)
  then show ?thesis by (simp only: parse_parts_encoded)
qed

lemma values_at_fold_Add:
  "values_at k (fold (\<lambda>(k, x). Values_Add k x) kvs v) = values_at k v @ map snd (filter (\<lambda>kx. fst kx = k) kvs)"
  by (induction kvs arbitrary: v) (auto split: prod.splits)

lemma pairs_at:
  "distinct (map fst v) \<Longrightarrow>
     map snd (filter (\<lambda>kx. fst kx = k) (concat (map (\<lambda>(k, xs). map (Pair k) xs) v))) = values_at k v"
proof (induction v)
  case (Cons kx v)
  obtain k' xs where kx: "kx = (k', xs)" by (cases kx)
  have *: "map snd (filter (\<lambda>kx. fst kx = k) (map (Pair k') xs)) = (if k' = k then xs else [])"
    by (induction xs) auto
  have "k \<notin> fst ` set v \<Longrightarrow> values_at k v = []"
    by (simp add: values_at_def map_of_eq_None_iff [THEN iffD2])
  with Cons * show ?case by (auto simp: kx values_at_def)
qed simp

lemma values_at_sort: "gomap_ok v \<Longrightarrow> values_at k (sort_key fst v) = values_at k v"
proof -
  assume ok: "gomap_ok v"
  then have "distinct (map fst (sort_key fst v))" by (simp add: gomap_ok_def distinct_map)
  with ok have "map_of (sort_key fst v) = map_of v" by (simp add: gomap_ok_def map_of_inject_set)
  then show ?thesis by (simp add: values_at_def)
qed

lemma values_at_decoded:
  "gomap_ok v \<Longrightarrow> values_at k (fold (\<lambda>(k, x). Values_Add k x) (encode_pairs v) []) = values_at k v"
proof -
  assume ok: "gomap_ok v"
  then have "distinct (map fst (sort_key fst v))" by (simp add: gomap_ok_def distinct_map)
  from pairs_at [OF this, of k] ok show ?thesis
    by (simp add: values_at_fold_Add encode_pairs_def values_at_sort)
qed

lemma ParseQuery_Encode:
  assumes "gomap_ok v"
  obtains w where "ParseQuery (Encode v) = Some w" and "\<And>k. values_at k w = values_at k v"
  using that [of "fold (\<lambda>(k, x). Values_Add k x) (encode_pairs v) []"] assms
  by (simp add: ParseQuery_def parse_parts_Encode values_at_decoded)

lemma URL_Query_Encode [simp]:
  "gomap_ok v \<Longrightarrow> values_at k (URL_Query (u\<lparr>u_RawQuery := Encode v\<rparr>)) = values_at k v"
  by (simp add: URL_Query_def parse_parts_Encode values_at_decoded)

end
