(* ===== verification/HTTP_Server.thy ===== *)
theory HTTP_Server
  imports OAuth_Grants Session_Store CAS_Tickets Rate_Limit Access_Control Audit_Log
    Client_Registry Identity_Passwords OIDC_Signer Go_Form
begin

text \<open>
  What the handlers of \<open>internal/platform/http\<close> share: the server with its repositories, requests and
  replies, the current session, request limits, CSRF tokens, audit records and the cleanup after a session ends.

  \<^item> \<open>server\<close> is the part of \<open>type server\<close> that changes: one field per repository or service.
  \<^item> \<open>request_context\<close> is what is fixed during one request: the configuration, the cryptographic library,
    the time (a request reads the clock as if it stood still), the conversions between times and
    \<open>time.RFC3339Nano\<close> texts and the random draws, numbered within the request.
  \<^item> \<open>request\<close> is a request as \<open>net/http\<close> presents it to a handler: \<open>rq_PostForm\<close> is what
    \<open>ParseForm\<close> makes of the body, \<open>None\<close> when it reports an error; \<open>rq_IPAddress\<close> and
    \<open>rq_RequestID\<close> are the results of \<open>requestIPAddress\<close> and \<open>requestIDValue\<close>.
    \<open>rq_RequestURI\<close> is the text \<open>r.URL.RequestURI()\<close>.
  \<^item> \<open>response\<close> is the reply with the cookies set on the way. Headers that only label a reply, and the
    human-readable descriptions of errors, are left out, and so are logs and metrics. A page is its template
    with the data it shows; \<open>Aborted\<close> stands for a panic, which ends the request without a reply.
\<close>

section \<open>Server, requests and replies\<close>

record RateLimitConfig =
  rl_LoginSource :: Policy
  rl_LoginIdentity :: Policy
  rl_Registration :: Policy
  rl_MFA :: Policy
  rl_OAuth :: Policy
  rl_Device :: Policy
  rl_EmailVerification :: Policy
  rl_ClientStatus :: Policy

record Config =
  cf_Issuer :: string
  cf_RateLimits :: RateLimitConfig

record server =
  srv_clients :: ClientRepository
  srv_users :: UserRepository
  srv_sessions :: SessionService
  srv_oauth :: OAuthRepository
  srv_cas :: CASRepository
  srv_access :: AccessRepository
  srv_audit :: "json AuditRepository"
  srv_rateLimits :: "RateRepository option"
  srv_keys :: KeyRepository
  srv_signer :: Signer

record request_context =
  cx_lib :: rsa_lib
  cx_cfg :: Config
  cx_now :: time
  cx_FormatNano :: "time \<Rightarrow> string"
  cx_ParseNano :: "string \<Rightarrow> time option"
  cx_random :: "nat \<Rightarrow> bytes option"
  cx_auditRandom :: "bytes option"

abbreviation cx_sha256 :: "request_context \<Rightarrow> bytes \<Rightarrow> bytes" where
  "cx_sha256 cx \<equiv> Sum256 (cx_lib cx)"

record adminPrincipal =
  ap_UserID :: string
  ap_AuthMethod :: string

record request =
  rq_Method :: string
  rq_Path :: string
  rq_RequestURI :: string
  rq_Query :: Values
  rq_PostForm :: "Values option"
  rq_ContentType :: string
  rq_Authorization :: string
  rq_Cookies :: "(string \<times> string) list"
  rq_IPAddress :: string
  rq_UserAgent :: string
  rq_RequestID :: string
  rq_Principal :: "adminPrincipal option"

datatype reply =
    Problem int string
  | OAuthError int string
  | ReplyJSON int "(string \<times> json) list"
  | NoContent int
  | RedirectURL URL
  | RedirectPath string Values
  | Rendered string "(string \<times> json) list"
  | Aborted

record cookie =
  ck_Name :: string
  ck_Value :: string
  ck_MaxAge :: int

record response =
  rp_Reply :: reply
  rp_Cookies :: "cookie list"

definition plain :: "reply \<Rightarrow> response" where
  "plain r = \<lparr>rp_Reply = r, rp_Cookies = []\<rparr>"

text \<open>\<open>r.Cookie(name)\<close>, \<open>r.Form.Get(key)\<close> (the body before the query) and \<open>r.BasicAuth()\<close>.\<close>

definition Cookie :: "string \<Rightarrow> request \<Rightarrow> string option" where
  "Cookie name rq = map_of (rq_Cookies rq) name"

definition Form_Get :: "string \<Rightarrow> Values \<Rightarrow> request \<Rightarrow> string" where
  "Form_Get k post rq = (case values_at k post @ values_at k (rq_Query rq) of [] \<Rightarrow> [] | x # _ \<Rightarrow> x)"

definition BasicAuth :: "request \<Rightarrow> (string \<times> string) option" where
  "BasicAuth rq =
     (if \<not> EqualFold (take 6 (rq_Authorization rq)) ''Basic '' then None
      else case StdEncoding_DecodeString (drop 6 (rq_Authorization rq)) of
          None \<Rightarrow> None
        | Some c \<Rightarrow> Cut (CHR '':'') (string_of c))"

section \<open>Sessions\<close>

abbreviation sessionCookieName :: string where "sessionCookieName \<equiv> ''certus_session''"
abbreviation csrfCookieName :: string where "csrfCookieName \<equiv> ''certus_csrf''"
abbreviation oauthReauthCookieName :: string where "oauthReauthCookieName \<equiv> ''certus_oauth_reauth''"
abbreviation oauthConsentCookieName :: string where "oauthConsentCookieName \<equiv> ''certus_oauth_consent''"

definition currentSession :: "request_context \<Rightarrow> request \<Rightarrow> server \<Rightarrow> Session option \<times> server" where
  "currentSession cx rq s =
     (case Cookie sessionCookieName rq of
        None \<Rightarrow> (None, s)
      | Some token \<Rightarrow>
          (case Service_Find (cx_sha256 cx) token (cx_now cx) (srv_sessions s) of
             (Inl _, sessions) \<Rightarrow> (None, s\<lparr>srv_sessions := sessions\<rparr>)
           | (Inr current, sessions) \<Rightarrow>
               (case User_Find (se_UserID current) (srv_users s) of
                  Inl _ \<Rightarrow> (None, s\<lparr>srv_sessions := sessions\<rparr>)
                | Inr user \<Rightarrow>
                    (if us_Status user \<noteq> UserActive then None else Some current, s\<lparr>srv_sessions := sessions\<rparr>))))"

definition clearCookie :: "string \<Rightarrow> cookie" where
  "clearCookie name = \<lparr>ck_Name = name, ck_Value = [], ck_MaxAge = -1\<rparr>"

definition validCSRF :: "string \<Rightarrow> request \<Rightarrow> bool" where
  "validCSRF supplied rq =
     (case Cookie csrfCookieName rq of
        None \<Rightarrow> False
      | Some value \<Rightarrow> if length supplied < 32 \<or> length value \<noteq> length supplied then False else value = supplied)"

text \<open>\<open>ensureCSRF\<close>: the token of the request or a new one with its cookie; \<open>None\<close> when it panics.\<close>

definition ensureCSRF :: "request_context \<Rightarrow> request \<Rightarrow> (string \<times> cookie list) option" where
  "ensureCSRF cx rq =
     (let fresh = (case RandomToken 24 (cx_random cx 3) of
            Inl _ \<Rightarrow> None
          | Inr token \<Rightarrow> Some (token, [\<lparr>ck_Name = csrfCookieName, ck_Value = token, ck_MaxAge = 30 * 60\<rparr>]))
      in case Cookie csrfCookieName rq of
           Some value \<Rightarrow> if length value \<ge> 32 then Some (value, []) else fresh
         | None \<Rightarrow> fresh)"

definition render_with_csrf ::
  "request_context \<Rightarrow> request \<Rightarrow> string \<Rightarrow> (string \<times> json) list \<Rightarrow> cookie list \<Rightarrow> response" where
  "render_with_csrf cx rq page shown cookies =
     (case ensureCSRF cx rq of
        None \<Rightarrow> \<lparr>rp_Reply = Aborted, rp_Cookies = cookies\<rparr>
      | Some (token, new) \<Rightarrow> \<lparr>rp_Reply = Rendered page (map_put ''CSRFToken'' (JStr token) shown), rp_Cookies = cookies @ new\<rparr>)"

section \<open>Request limits\<close>

text \<open>\<open>allowRateLimitedRequest\<close>: no reply when the request may go on, otherwise the refusal.\<close>

definition rate_refusal :: "bool \<Rightarrow> bool \<Rightarrow> reply" where
  "rate_refusal oauthStyle unavailable =
     (if oauthStyle then OAuthError (if unavailable then 503 else 429) ''temporarily_unavailable''
      else Problem (if unavailable then 503 else 429) (if unavailable then ''rate_limit_unavailable'' else ''rate_limited''))"

definition allowRateLimitedRequest ::
  "request_context \<Rightarrow> string \<Rightarrow> string \<Rightarrow> Policy \<Rightarrow> bool \<Rightarrow> server \<Rightarrow> reply option \<times> server" where
  "allowRateLimitedRequest cx scope subject policy oauthStyle s =
     (let subject' = (if subject = [] then ''<unknown>'' else subject) in
      case Allow (cx_sha256 cx) scope subject' policy (cx_now cx) (srv_rateLimits s) of
        (Inl _, limits) \<Rightarrow> (Some (rate_refusal oauthStyle True), s\<lparr>srv_rateLimits := limits\<rparr>)
      | (Inr result, limits) \<Rightarrow>
          (if de_ResetAt result = 0 \<or> de_Allowed result then None else Some (rate_refusal oauthStyle False),
           s\<lparr>srv_rateLimits := limits\<rparr>))"

definition allowOAuthAttempt :: "request_context \<Rightarrow> request \<Rightarrow> server \<Rightarrow> reply option \<times> server" where
  "allowOAuthAttempt cx rq s =
     allowRateLimitedRequest cx ''oauth.source'' (rq_IPAddress rq) (rl_OAuth (cf_RateLimits (cx_cfg cx))) True s"

definition allowDeviceLookup :: "request_context \<Rightarrow> request \<Rightarrow> server \<Rightarrow> reply option \<times> server" where
  "allowDeviceLookup cx rq s =
     allowRateLimitedRequest cx ''device.source'' (rq_IPAddress rq) (rl_Device (cf_RateLimits (cx_cfg cx))) False s"

definition allowLoginSource :: "request_context \<Rightarrow> request \<Rightarrow> string \<Rightarrow> server \<Rightarrow> reply option \<times> server" where
  "allowLoginSource cx rq scope s =
     allowRateLimitedRequest cx scope (rq_IPAddress rq) (rl_LoginSource (cf_RateLimits (cx_cfg cx))) False s"

definition allowLoginAttempt :: "request_context \<Rightarrow> request \<Rightarrow> string \<Rightarrow> server \<Rightarrow> reply option \<times> server" where
  "allowLoginAttempt cx rq username s =
     (case allowLoginSource cx rq ''login.source'' s of
        (Some refusal, s1) \<Rightarrow> (Some refusal, s1)
      | (None, s1) \<Rightarrow>
          let name = ToLower (TrimSpace username) in
          allowRateLimitedRequest cx ''login.identity'' (if name = [] then ''<empty>'' else name)
            (rl_LoginIdentity (cf_RateLimits (cx_cfg cx))) False s1)"

definition allow_both ::
  "request_context \<Rightarrow> request \<Rightarrow> string \<Rightarrow> string \<Rightarrow> string \<Rightarrow> Policy \<Rightarrow> server \<Rightarrow> reply option \<times> server" where
  "allow_both cx rq sourceScope identityScope userID policy s =
     (case allowRateLimitedRequest cx sourceScope (rq_IPAddress rq) policy False s of
        (Some refusal, s1) \<Rightarrow> (Some refusal, s1)
      | (None, s1) \<Rightarrow> allowRateLimitedRequest cx identityScope userID policy False s1)"

definition allowMFAAttempt :: "request_context \<Rightarrow> request \<Rightarrow> string \<Rightarrow> server \<Rightarrow> reply option \<times> server" where
  "allowMFAAttempt cx rq userID s =
     allow_both cx rq ''mfa.source'' ''mfa.identity'' userID (rl_MFA (cf_RateLimits (cx_cfg cx))) s"

definition allowEmailVerificationAttempt :: "request_context \<Rightarrow> request \<Rightarrow> string \<Rightarrow> server \<Rightarrow> reply option \<times> server" where
  "allowEmailVerificationAttempt cx rq userID s =
     allow_both cx rq ''email.verification.source'' ''email.verification.identity'' userID
       (rl_EmailVerification (cf_RateLimits (cx_cfg cx))) s"

definition allowRegistrationAttempt :: "request_context \<Rightarrow> request \<Rightarrow> server \<Rightarrow> reply option \<times> server" where
  "allowRegistrationAttempt cx rq s =
     allowRateLimitedRequest cx ''registration.source'' (rq_IPAddress rq) (rl_Registration (cf_RateLimits (cx_cfg cx))) False s"

definition allowClientStatusLookup :: "request_context \<Rightarrow> string \<Rightarrow> server \<Rightarrow> reply option \<times> server" where
  "allowClientStatusLookup cx clientID s =
     allowRateLimitedRequest cx ''client.status'' clientID (rl_ClientStatus (cf_RateLimits (cx_cfg cx))) True s"

definition allowClientCapabilitiesLookup :: "request_context \<Rightarrow> string \<Rightarrow> server \<Rightarrow> reply option \<times> server" where
  "allowClientCapabilitiesLookup cx clientID s =
     allowRateLimitedRequest cx ''client.capabilities'' clientID (rl_ClientStatus (cf_RateLimits (cx_cfg cx))) True s"

section \<open>Audit records\<close>

definition auditActor :: "string \<Rightarrow> string option" where
  "auditActor userID = (if userID = [] then None else Some userID)"

definition auditClient :: "string \<Rightarrow> string option" where
  "auditClient clientID = (if clientID = [] then None else Some clientID)"

definition audit_event :: "string option \<Rightarrow> string \<Rightarrow> string option \<Rightarrow> Outcome \<Rightarrow> (string, json) gomap option \<Rightarrow> json Event" where
  "audit_event actor type clientID outcome details =
     \<lparr>ev_ID = [], ev_OccurredAt = 0, ev_ActorUserID = actor, ev_EventType = type, ev_ClientID = clientID,
      ev_IPAddress = [], ev_RequestID = [], ev_Outcome = outcome, ev_Details = details\<rparr>"

definition recordAudit :: "request_context \<Rightarrow> request \<Rightarrow> json Event \<Rightarrow> server \<Rightarrow> server" where
  "recordAudit cx rq event s =
     (let event1 = (case rq_Principal rq of
            None \<Rightarrow> event
          | Some p \<Rightarrow>
              let actor = (if ev_ActorUserID event = None \<and> ap_UserID p \<noteq> [] then auditActor (ap_UserID p) else ev_ActorUserID event);
                  details = (case ev_Details event of None \<Rightarrow> [] | Some d \<Rightarrow> d)
              in event\<lparr>ev_ActorUserID := actor,
                       ev_Details := Some (map_put ''admin_auth_method'' (JStr (ap_AuthMethod p)) details)\<rparr>);
          event2 = event1\<lparr>ev_IPAddress := rq_IPAddress rq, ev_RequestID := rq_RequestID rq\<rparr>
      in case Normalize event2 (cx_now cx) of
           Inl _ \<Rightarrow> s
         | Inr normalized \<Rightarrow> s\<lparr>srv_audit := snd (Append (cx_auditRandom cx) normalized (srv_audit s))\<rparr>)"

section \<open>Ending sessions\<close>

definition sessionsForRevocation :: "request_context \<Rightarrow> string \<Rightarrow> string \<Rightarrow> server \<Rightarrow> Session list" where
  "sessionsForRevocation cx userID exceptID s =
     filter (\<lambda>item. se_ID item \<noteq> exceptID) (Service_ListByUser userID (cx_now cx) (srv_sessions s))"

text \<open>The notification of clients: the jobs \<open>notifyOIDCBackchannelLogout\<close> makes, one per registered client
  session of a distinct session, and what stays in the repository. Sending the signed logout tokens
  to the clients' addresses is outside; its failures are only logged.\<close>

record oidcBackchannelLogoutJob =
  jb_Session :: OIDCClientSession
  jb_Client :: Client

definition unique_sessions :: "(string \<times> string) list \<Rightarrow> (string, string) gomap" where
  "unique_sessions sessions = fold (\<lambda>(sid, uid). if sid = [] then id else map_put sid uid) sessions []"

definition logout_jobs :: "server \<Rightarrow> string \<times> string \<Rightarrow> oidcBackchannelLogoutJob list" where
  "logout_jobs s current =
     concat (map (\<lambda>registered.
       case Client_Find (os_ClientID registered) (srv_clients s) of
         Inl _ \<Rightarrow> []
       | Inr c \<Rightarrow>
           if cl_BackchannelLogoutURI c = [] then []
           else [\<lparr>jb_Session = (if os_UserID registered = [] then registered\<lparr>os_UserID := snd current\<rparr> else registered), jb_Client = c\<rparr>])
       (ListOIDCClientSessions (fst current) (srv_oauth s)))"

definition notifyOIDCBackchannelLogout :: "(string \<times> string) list \<Rightarrow> server \<Rightarrow> oidcBackchannelLogoutJob list \<times> server" where
  "notifyOIDCBackchannelLogout sessions s =
     (let unique = unique_sessions sessions in
      (concat (map (logout_jobs s) unique),
       s\<lparr>srv_oauth := fold (\<lambda>(sid, _) r. snd (DeleteOIDCClientSessions sid r)) unique (srv_oauth s)\<rparr>))"

text \<open>The claims of a logout token, and \<open>sendOIDCBackchannelLogout\<close> up to the signed form it posts.\<close>

definition logout_claims :: "request_context \<Rightarrow> string \<Rightarrow> oidcBackchannelLogoutJob \<Rightarrow> claims" where
  "logout_claims cx jti job =
     [(''iss'', JStr (cf_Issuer (cx_cfg cx))), (''sub'', JStr (os_UserID (jb_Session job))),
      (''aud'', JStr (cl_ID (jb_Client job))), (''iat'', JInt (Unix (cx_now cx))),
      (''exp'', JInt (Unix (cx_now cx + 2 * minute))), (''jti'', JStr jti),
      (''sid'', JStr (os_SessionID (jb_Session job))),
      (''events'', JObj [(''http://schemas.openid.net/event/backchannel-logout'', JObj [])])]"

definition sendOIDCBackchannelLogout ::
  "request_context \<Rightarrow> bytes option \<Rightarrow> oidcBackchannelLogoutJob \<Rightarrow> server \<Rightarrow> (string \<times> Values) option \<times> server" where
  "sendOIDCBackchannelLogout cx random job s =
     (case RandomUUID random of
        Inl _ \<Rightarrow> (None, s)
      | Inr jti \<Rightarrow>
          (case SignTyped (cx_lib cx) (cx_now cx) (srv_keys s) (logout_claims cx jti job) ''logout+jwt'' (srv_signer s) of
             (Inl _, sg) \<Rightarrow> (None, s\<lparr>srv_signer := sg\<rparr>)
           | (Inr token, sg) \<Rightarrow>
               (Some (cl_BackchannelLogoutURI (jb_Client job), [(''logout_token'', [token])]), s\<lparr>srv_signer := sg\<rparr>)))"

definition cleanup_session :: "request_context \<Rightarrow> string \<times> string \<Rightarrow> server \<Rightarrow> server" where
  "cleanup_session cx current s =
     (let s1 = s\<lparr>srv_oauth := snd (RevokeSessionTokens (snd current) (fst current) (cx_now cx) (srv_oauth s))\<rparr>
      in s1\<lparr>srv_cas := snd (DeleteServiceSessions (fst current) (srv_cas s1))\<rparr>)"

definition cleanupRevokedSessions :: "request_context \<Rightarrow> (string \<times> string) list \<Rightarrow> server \<Rightarrow> oidcBackchannelLogoutJob list \<times> server" where
  "cleanupRevokedSessions cx sessions s =
     notifyOIDCBackchannelLogout sessions (fold (cleanup_session cx) sessions s)"

end
