(* ===== verification/OAuth_Authorize.thy ===== *)
theory OAuth_Authorize
  imports Client_Registry Go_Form
begin

text \<open>
  Parsing of authorization requests, \<open>internal/oauth/authorize.go\<close>: an error message is the value
  \<open>None\<close>, a request is the record \<open>AuthorizationRequest\<close>.
\<close>

record AuthorizationRequest =
  ar_ClientID :: string
  ar_RedirectURI :: string
  ar_Scope :: "string list"
  ar_State :: string
  ar_Nonce :: string
  ar_CodeChallenge :: string
  ar_CodeChallengeMethod :: string
  ar_Prompt :: "string list"
  ar_MaxAge :: "int option"

definition codeChallengePattern :: "string \<Rightarrow> bool" where
  "codeChallengePattern s =
     (43 \<le> length s \<and> length s \<le> 128 \<and>
      list_all (\<lambda>c. is_lower c \<or> is_upper c \<or> is_digit c \<or> c = CHR ''_'' \<or> c = CHR ''-'') s)"

definition codeVerifierPattern :: "string \<Rightarrow> bool" where
  "codeVerifierPattern s =
     (43 \<le> length s \<and> length s \<le> 128 \<and>
      list_all (\<lambda>c. is_lower c \<or> is_upper c \<or> is_digit c \<or> c \<in> {CHR ''.'', CHR ''_'', CHR ''~'', CHR ''-''}) s)"

definition ValidCodeVerifier :: "string \<Rightarrow> bool" where
  "ValidCodeVerifier s = codeVerifierPattern s"

text \<open>The loop over the prompt values, with the set of values seen so far.\<close>

fun prompt_loop :: "string list \<Rightarrow> string list \<Rightarrow> string list option" where
  "prompt_loop seen [] = Some seen"
| "prompt_loop seen (v # vs) =
     (if v \<noteq> ''none'' \<and> v \<noteq> ''login'' \<and> v \<noteq> ''consent'' then None
      else if v \<in> set seen then None
      else prompt_loop (v # seen) vs)"

definition parsePrompt :: "Values \<Rightarrow> string list option" where
  "parsePrompt query =
     (case map_of query ''prompt'' of
        None \<Rightarrow> Some []
      | Some raw \<Rightarrow>
          if length raw \<noteq> 1 then None
          else
            let prompt = Fields (hd raw) in
            if prompt = [] then None
            else case prompt_loop [] prompt of
                None \<Rightarrow> None
              | Some seen \<Rightarrow> if ''none'' \<in> set seen \<and> length seen \<noteq> 1 then None else Some prompt)"

definition parseMaxAge :: "Values \<Rightarrow> int option option" where
  "parseMaxAge query =
     (case map_of query ''max_age'' of
        None \<Rightarrow> Some None
      | Some raw \<Rightarrow>
          if length raw \<noteq> 1 \<or> \<not> all_digits (hd raw) then None
          else case ParseInt (hd raw) of
              None \<Rightarrow> None
            | Some v \<Rightarrow> if v < 0 then None else Some (Some v))"

fun scopes_allowed :: "Client \<Rightarrow> string list \<Rightarrow> bool" where
  "scopes_allowed c [] = True"
| "scopes_allowed c (scope # scopes) = (if scope \<notin> set (cl_AllowedScopes c) then False else scopes_allowed c scopes)"

definition ParseAuthorizationRequest :: "Values \<Rightarrow> Client \<Rightarrow> AuthorizationRequest option" where
  "ParseAuthorizationRequest query registered =
     (if \<not> cl_Enabled registered then None
      else if \<not> SupportsOAuth registered \<or> \<not> SupportsGrant registered GrantAuthorizationCode then None
      else if Get ''client_id'' query \<noteq> cl_ID registered then None
      else if Get ''response_type'' query \<noteq> ''code'' then None
      else
        let redirectURI = Get ''redirect_uri'' query in
        if \<not> AllowsRedirectURI registered redirectURI then None
        else if Get ''code_challenge_method'' query \<noteq> ''S256'' then None
        else
          let challenge = Get ''code_challenge'' query in
          if \<not> codeChallengePattern challenge then None
          else
            let state = Get ''state'' query in
            if state = [] then None
            else
              let scopes = Fields (Get ''scope'' query) in
              if \<not> scopes_allowed registered scopes then None
              else case parsePrompt query of
                  None \<Rightarrow> None
                | Some prompt \<Rightarrow>
                    (case parseMaxAge query of
                       None \<Rightarrow> None
                     | Some maxAge \<Rightarrow>
                         Some \<lparr>ar_ClientID = cl_ID registered, ar_RedirectURI = redirectURI, ar_Scope = scopes,
                           ar_State = state, ar_Nonce = Get ''nonce'' query, ar_CodeChallenge = challenge,
                           ar_CodeChallengeMethod = ''S256'', ar_Prompt = prompt, ar_MaxAge = maxAge\<rparr>))"

definition HasPrompt :: "AuthorizationRequest \<Rightarrow> string \<Rightarrow> bool" where
  "HasPrompt r expected = (expected \<in> set (ar_Prompt r))"

section \<open>Facts\<close>

lemma scopes_allowed_iff: "scopes_allowed c scopes \<longleftrightarrow> set scopes \<subseteq> set (cl_AllowedScopes c)"
  by (induction scopes) auto

text \<open>What a parsed request guarantees.\<close>

lemma parsed_request:
  assumes "ParseAuthorizationRequest query c = Some r"
  shows "cl_Enabled c" and "SupportsOAuth c" and "SupportsGrant c GrantAuthorizationCode"
    and "ar_ClientID r = cl_ID c" and "ar_RedirectURI r \<in> set (cl_RedirectURIs c)"
    and "redirect_candidate (ar_RedirectURI r)"
    and "set (ar_Scope r) \<subseteq> set (cl_AllowedScopes c)" and "codeChallengePattern (ar_CodeChallenge r)"
    and "ar_State r \<noteq> []" and "ar_State r = Get ''state'' query"
  using assms
  by (auto simp: ParseAuthorizationRequest_def Let_def scopes_allowed_iff AllowsRedirectURI_def
      split: if_splits option.splits)

lemma parsed_request_cong:
  assumes "\<And>k. map_of v k = map_of w k"
  shows "ParseAuthorizationRequest v c = ParseAuthorizationRequest w c"
proof -
  define g where "g = (\<lambda>k. Get k w)"
  define p where "p = parsePrompt w"
  define a where "a = parseMaxAge w"
  have "Get k v = g k" "Get k w = g k" for k by (simp_all add: g_def Get_def values_at_def assms)
  moreover have "parsePrompt v = p" "parsePrompt w = p" "parseMaxAge v = a" "parseMaxAge w = a"
    by (simp_all add: p_def a_def parsePrompt_def parseMaxAge_def assms)
  ultimately show ?thesis by (simp only: ParseAuthorizationRequest_def)
qed

lemma prompt_loop_set: "prompt_loop seen vs = Some t \<Longrightarrow> set t = set seen \<union> set vs \<and> length t = length seen + length vs"
  by (induction seen vs arbitrary: t rule: prompt_loop.induct) (auto split: if_splits)

lemma prompt_none_alone:
  assumes "ParseAuthorizationRequest query c = Some r" and "HasPrompt r ''none''"
  shows "ar_Prompt r = [''none'']"
proof -
  from assms have "parsePrompt query = Some (ar_Prompt r)" "''none'' \<in> set (ar_Prompt r)"
    by (auto simp: ParseAuthorizationRequest_def Let_def HasPrompt_def split: if_splits option.splits)
  then have "length (ar_Prompt r) = 1"
    by (auto simp: parsePrompt_def Let_def split: option.splits if_splits dest!: prompt_loop_set)
  with assms(2) show ?thesis by (cases "ar_Prompt r") (auto simp: HasPrompt_def)
qed

end
