(* ===== verification/OAuth_Endpoints.thy ===== *)
theory OAuth_Endpoints
  imports HTTP_Server OAuth_Authorize
begin

text \<open>
  The OAuth endpoints a client calls directly, from \<open>internal/platform/http/oauth.go\<close> and
  \<open>device.go\<close>: client authentication, the token endpoint with its four grants, token
  introspection, revocation, the user information endpoint and the start of the device grant.
  Each handler is a function from the request and the server to the reply and the server afterwards;
  a call that fails half-way leaves what it has stored so far.
\<close>

section \<open>Client authentication\<close>

definition validOAuthClientSecret :: "request_context \<Rightarrow> Client \<Rightarrow> string \<Rightarrow> bool" where
  "validOAuthClientSecret cx registered secret =
     (secret \<noteq> [] \<and> cx_sha256 cx (bytes_of secret) = cl_SecretHash registered)"

text \<open>\<open>None\<close> when the header is not used, \<open>Some None\<close> when it is malformed.\<close>

definition oauthClientBasicCredentials :: "request \<Rightarrow> (string \<times> string) option option" where
  "oauthClientBasicCredentials rq =
     (case BasicAuth rq of
        None \<Rightarrow> None
      | Some (encodedID, encodedSecret) \<Rightarrow>
          Some (case (QueryUnescape encodedID, QueryUnescape encodedSecret) of
                  (Some clientID, Some secret) \<Rightarrow> Some (clientID, secret)
                | _ \<Rightarrow> None))"

abbreviation invalid_client :: reply where "invalid_client \<equiv> OAuthError 401 ''invalid_client''"
abbreviation invalid_request :: reply where "invalid_request \<equiv> OAuthError 400 ''invalid_request''"
abbreviation server_error :: reply where "server_error \<equiv> OAuthError 500 ''server_error''"

definition presented_credentials :: "Values \<Rightarrow> request \<Rightarrow> reply + string \<times> string \<times> string" where
  "presented_credentials post rq =
     (let secrets = values_at ''client_secret'' post;
          formClientID = TrimSpace (Get ''client_id'' post)
      in if length (values_at ''client_id'' post) > 1 \<or> length secrets > 1 then Inl invalid_request
         else case oauthClientBasicCredentials rq of
             Some None \<Rightarrow> Inl invalid_client
           | Some (Some (basicID, basicSecret)) \<Rightarrow>
               if length secrets = 1 then Inl invalid_request
               else if formClientID \<noteq> [] \<and> formClientID \<noteq> basicID then Inl invalid_client
               else Inr (basicID, basicSecret, TokenEndpointAuthSecretBasic)
           | None \<Rightarrow>
               if length secrets = 1 then Inr (formClientID, Get ''client_secret'' post, TokenEndpointAuthSecretPost)
               else Inr (formClientID, [], TokenEndpointAuthNone))"

definition authenticateOAuthClient :: "request_context \<Rightarrow> Values \<Rightarrow> request \<Rightarrow> server \<Rightarrow> reply + Client" where
  "authenticateOAuthClient cx post rq s =
     (case presented_credentials post rq of
        Inl refusal \<Rightarrow> Inl refusal
      | Inr (clientID, secret, authenticationMethod) \<Rightarrow>
          (case Client_Find clientID (srv_clients s) of
             Inl _ \<Rightarrow> Inl invalid_client
           | Inr registered \<Rightarrow>
               if \<not> cl_Enabled registered \<or> \<not> SupportsOAuth registered then Inl invalid_client
               else if authenticationMethod \<noteq> EffectiveTokenEndpointAuthMethod registered then Inl invalid_client
               else if cl_ApplicationType registered = ApplicationConfidential
                 \<and> \<not> validOAuthClientSecret cx registered secret then Inl invalid_client
               else Inr registered))"

definition authenticateConfidentialOAuthClient :: "request_context \<Rightarrow> Values \<Rightarrow> request \<Rightarrow> server \<Rightarrow> reply + Client" where
  "authenticateConfidentialOAuthClient cx post rq s =
     (case authenticateOAuthClient cx post rq s of
        Inl refusal \<Rightarrow> Inl refusal
      | Inr registered \<Rightarrow>
          if cl_ApplicationType registered \<noteq> ApplicationConfidential then Inl invalid_client else Inr registered)"

definition authenticateConfidentialOAuthClientBasic :: "request_context \<Rightarrow> request \<Rightarrow> server \<Rightarrow> reply + Client" where
  "authenticateConfidentialOAuthClientBasic cx rq s =
     (case oauthClientBasicCredentials rq of
        Some (Some (clientID, secret)) \<Rightarrow>
          (case Client_Find clientID (srv_clients s) of
             Inl _ \<Rightarrow> Inl invalid_client
           | Inr registered \<Rightarrow>
               if \<not> cl_Enabled registered \<or> \<not> SupportsOAuth registered
                 \<or> cl_ApplicationType registered \<noteq> ApplicationConfidential
                 \<or> \<not> validOAuthClientSecret cx registered secret then Inl invalid_client
               else Inr registered)
      | _ \<Rightarrow> Inl invalid_client)"

section \<open>Issuing tokens\<close>

definition requestedScopes :: "string \<Rightarrow> Client \<Rightarrow> bool \<Rightarrow> string list option" where
  "requestedScopes raw registered requireOpenID =
     (let fields = Fields raw;
          scopes = unique_loop (\<lambda>v. v) True [] (if fields = [] then cl_AllowedScopes registered else fields)
      in if requireOpenID \<and> ''openid'' \<notin> set scopes then None
         else if \<not> scopes_allowed registered scopes then None
         else Some scopes)"

definition validateOAuthUserGrant ::
  "request_context \<Rightarrow> string \<Rightarrow> string \<Rightarrow> string \<Rightarrow> string list \<Rightarrow> server \<Rightarrow> User option" where
  "validateOAuthUserGrant cx userID clientID sessionID scopes s =
     (case User_Find userID (srv_users s) of
        Inl _ \<Rightarrow> None
      | Inr user \<Rightarrow>
          if us_Status user \<noteq> UserActive then None
          else if sessionID \<noteq> [] \<and> \<not> Service_IsActive userID sessionID (cx_now cx) (srv_sessions s) then None
          else case FindConsent userID clientID (srv_oauth s) of
              Inl _ \<Rightarrow> None
            | Inr consent \<Rightarrow> if \<not> Covers consent scopes then None else Some user)"

definition issueAccessToken ::
  "request_context \<Rightarrow> bytes option \<Rightarrow> Client \<Rightarrow> string \<Rightarrow> string \<Rightarrow> string \<Rightarrow> string list \<Rightarrow> server \<Rightarrow>
     (string \<times> json) list option \<times> server" where
  "issueAccessToken cx random registered userID sessionID familyID scopes s =
     (case RandomToken 48 random of
        Inl _ \<Rightarrow> (None, s)
      | Inr raw \<Rightarrow>
          (case SaveAccessToken
             \<lparr>at_Hash = HashToken (cx_sha256 cx) raw, at_ClientID = cl_ID registered, at_UserID = userID,
              at_SessionID = sessionID, at_FamilyID = familyID, at_Scope = scopes, at_IssuedAt = cx_now cx,
              at_ExpiresAt = cx_now cx + AccessTokenLifetime registered\<rparr> (srv_oauth s) of
             (Inl _, r) \<Rightarrow> (None, s\<lparr>srv_oauth := r\<rparr>)
           | (Inr _, r) \<Rightarrow>
               (Some [(''access_token'', JStr raw), (''token_type'', JStr ''Bearer''),
                      (''expires_in'', JInt (go_quot (AccessTokenLifetime registered) second)),
                      (''scope'', JStr (Join '' '' scopes))],
                s\<lparr>srv_oauth := r\<rparr>)))"

definition addEmailClaims :: "User \<Rightarrow> claims \<Rightarrow> claims" where
  "addEmailClaims user cs =
     (case us_Email user of
        None \<Rightarrow> cs
      | Some email \<Rightarrow> map_put ''email_verified'' (JBool (us_EmailVerified user)) (map_put ''email'' (JStr email) cs))"

definition addEntitlementClaims ::
  "request_context \<Rightarrow> string \<Rightarrow> string \<Rightarrow> string list \<Rightarrow> server \<Rightarrow> claims \<Rightarrow> claims" where
  "addEntitlementClaims cx userID clientID scopes s cs =
     (if ''roles'' \<notin> set scopes then cs
      else
        let e = Effective userID clientID (cx_now cx) (srv_access s) (srv_access s)
        in map_put ''permissions'' (JStrs (en_Permissions e)) (map_put ''roles'' (JStrs (en_Roles e)) cs))"

definition profile_claims :: "User \<Rightarrow> string list \<Rightarrow> claims \<Rightarrow> claims" where
  "profile_claims user scopes cs =
     (let cs1 = (if ''profile'' \<in> set scopes
            then map_put ''preferred_username'' (JStr (us_Username user)) (map_put ''name'' (JStr (us_DisplayName user)) cs) else cs)
      in if ''email'' \<in> set scopes then addEmailClaims user cs1 else cs1)"

definition id_token_claims ::
  "request_context \<Rightarrow> Client \<Rightarrow> User \<Rightarrow> string \<Rightarrow> string list \<Rightarrow> string \<Rightarrow> time \<Rightarrow> string list \<Rightarrow> string \<Rightarrow> server \<Rightarrow> claims" where
  "id_token_claims cx registered user sessionID scopes nonce authenticatedAt authMethods assuranceLevel s =
     (let cs = [(''iss'', JStr (cf_Issuer (cx_cfg cx))), (''sub'', JStr (us_ID user)), (''aud'', JStr (cl_ID registered)),
            (''exp'', JInt (Unix (cx_now cx + AccessTokenLifetime registered))), (''iat'', JInt (Unix (cx_now cx))),
            (''auth_time'', JInt (Unix authenticatedAt)), (''amr'', JStrs authMethods), (''acr'', JStr assuranceLevel)];
          cs1 = (if nonce \<noteq> [] then map_put ''nonce'' (JStr nonce) cs else cs);
          cs2 = (if sessionID \<noteq> [] then map_put ''sid'' (JStr sessionID) cs1 else cs1)
      in addEntitlementClaims cx (us_ID user) (cl_ID registered) scopes s (profile_claims user scopes cs2))"

text \<open>The ID token at the end of \<open>issueUserTokens\<close>: signed, and the client session remembered for back-channel logout.\<close>

definition issue_id_token ::
  "request_context \<Rightarrow> Client \<Rightarrow> User \<Rightarrow> string \<Rightarrow> string \<Rightarrow> string list \<Rightarrow> string \<Rightarrow> time \<Rightarrow> string list \<Rightarrow> string \<Rightarrow>
     (string \<times> json) list \<Rightarrow> server \<Rightarrow> (string \<times> json) list option \<times> server" where
  "issue_id_token cx registered user userID sessionID scopes nonce authenticatedAt authMethods assuranceLevel response s =
     (case Sign (cx_lib cx) (cx_now cx) (srv_keys s)
        (id_token_claims cx registered user sessionID scopes nonce authenticatedAt authMethods assuranceLevel s) (srv_signer s) of
        (Inl _, sg) \<Rightarrow> (None, s\<lparr>srv_signer := sg\<rparr>)
      | (Inr idToken, sg) \<Rightarrow>
          let s1 = s\<lparr>srv_signer := sg\<rparr>;
              s2 = (if sessionID \<noteq> [] \<and> cl_BackchannelLogoutURI registered \<noteq> []
                    then s1\<lparr>srv_oauth := snd (SaveOIDCClientSession
                           \<lparr>os_SessionID = sessionID, os_ClientID = cl_ID registered, os_UserID = userID, os_CreatedAt = cx_now cx\<rparr>
                           (srv_oauth s1))\<rparr>
                    else s1)
          in (Some (map_put ''id_token'' (JStr idToken) response), s2))"

text \<open>The refresh token and family a user grant starts with; empty when the client has no refresh grant.\<close>

definition new_family :: "request_context \<Rightarrow> Client \<Rightarrow> (string \<times> string) option" where
  "new_family cx registered =
     (if \<not> SupportsGrant registered GrantRefreshToken then Some ([], [])
      else case (RandomToken 48 (cx_random cx 0), RandomUUID (cx_random cx 1)) of
          (Inr refreshRaw, Inr familyID) \<Rightarrow> Some (refreshRaw, familyID)
        | _ \<Rightarrow> None)"

definition save_refresh ::
  "request_context \<Rightarrow> Client \<Rightarrow> string \<Rightarrow> string \<Rightarrow> string \<Rightarrow> string \<Rightarrow> string list \<Rightarrow> server \<Rightarrow> server" where
  "save_refresh cx registered refreshRaw familyID userID sessionID scopes s =
     s\<lparr>srv_oauth := snd (SaveRefreshToken
        \<lparr>rt_Hash = HashToken (cx_sha256 cx) refreshRaw, rt_FamilyID = familyID, rt_ClientID = cl_ID registered,
         rt_UserID = userID, rt_SessionID = sessionID, rt_Scope = Some scopes, rt_IssuedAt = cx_now cx,
         rt_ExpiresAt = cx_now cx + RefreshTokenLifetime registered\<rparr> (srv_oauth s))\<rparr>"

definition issueUserTokens ::
  "request_context \<Rightarrow> Client \<Rightarrow> string \<Rightarrow> string \<Rightarrow> string list \<Rightarrow> string \<Rightarrow> time \<Rightarrow> string list \<Rightarrow> string \<Rightarrow> server \<Rightarrow>
     (string \<times> json) list option \<times> server" where
  "issueUserTokens cx registered userID sessionID scopes nonce authenticatedAt authMethods assuranceLevel s =
     (case validateOAuthUserGrant cx userID (cl_ID registered) sessionID scopes s of
        None \<Rightarrow> (None, s)
      | Some user \<Rightarrow>
          (case new_family cx registered of
             None \<Rightarrow> (None, s)
           | Some (refreshRaw, familyID) \<Rightarrow>
               (case issueAccessToken cx (cx_random cx 2) registered userID sessionID familyID scopes s of
                  (None, s1) \<Rightarrow> (None, s1)
                | (Some response, s1) \<Rightarrow>
                    let s2 = (if refreshRaw = [] then s1
                              else save_refresh cx registered refreshRaw familyID userID sessionID scopes s1);
                        response1 = (if refreshRaw = [] then response else map_put ''refresh_token'' (JStr refreshRaw) response)
                    in if ''openid'' \<in> set scopes
                       then issue_id_token cx registered user userID sessionID scopes nonce authenticatedAt authMethods assuranceLevel response1 s2
                       else (Some response1, s2))))"

section \<open>The token endpoint\<close>

definition authorizationCodeToken :: "request_context \<Rightarrow> Values \<Rightarrow> request \<Rightarrow> Client \<Rightarrow> server \<Rightarrow> reply \<times> server" where
  "authorizationCodeToken cx post rq registered s =
     (if \<not> SupportsGrant registered GrantAuthorizationCode then (OAuthError 400 ''unauthorized_client'', s)
      else
        let code = Form_Get ''code'' post rq;
            redirectURI = Form_Get ''redirect_uri'' post rq;
            verifier = Form_Get ''code_verifier'' post rq
        in if code = [] \<or> redirectURI = [] \<or> \<not> ValidCodeVerifier verifier then (invalid_request, s)
           else case ConsumeAuthorizationCode (HashToken (cx_sha256 cx) code) (cl_ID registered) redirectURI
                  (RawURLEncoding_EncodeToString (cx_sha256 cx (bytes_of verifier))) (cx_now cx) (srv_oauth s) of
               (Inl _, r) \<Rightarrow> (OAuthError 400 ''invalid_grant'', s\<lparr>srv_oauth := r\<rparr>)
             | (Inr c, r) \<Rightarrow>
                 (case issueUserTokens cx registered (ac_UserID c) (ac_SessionID c) (ac_Scope c) (ac_Nonce c)
                    (ac_AuthenticatedAt c) (ac_AuthMethods c) (ac_AssuranceLevel c) (s\<lparr>srv_oauth := r\<rparr>) of
                    (None, s1) \<Rightarrow> (server_error, s1)
                  | (Some response, s1) \<Rightarrow> (ReplyJSON 200 response, s1)))"

text \<open>The refresh grant after the rotation; \<open>scopes\<close> is \<open>None\<close> where the request named no scope.\<close>

definition refreshed ::
  "request_context \<Rightarrow> Client \<Rightarrow> string \<Rightarrow> string list option \<Rightarrow> RefreshToken \<Rightarrow> server \<Rightarrow> reply \<times> server" where
  "refreshed cx registered replacementRaw scopes current s =
     (let scopes' = (case scopes of None \<Rightarrow> elems (rt_Scope current) | Some xs \<Rightarrow> xs);
          give_up = (\<lambda>s. s\<lparr>srv_oauth := snd (RevokeRefreshToken (HashToken (cx_sha256 cx) replacementRaw)
            (cl_ID registered) (cx_now cx) (srv_oauth s))\<rparr>)
      in case validateOAuthUserGrant cx (rt_UserID current) (rt_ClientID current) (rt_SessionID current) scopes' s of
           None \<Rightarrow> (OAuthError 400 ''invalid_grant'', give_up s)
         | Some _ \<Rightarrow>
             (case issueAccessToken cx (cx_random cx 2) registered (rt_UserID current) (rt_SessionID current) (rt_FamilyID current) scopes' s of
                (None, s1) \<Rightarrow> (server_error, give_up s1)
              | (Some response, s1) \<Rightarrow>
                  (ReplyJSON 200 (map_put ''scope'' (JStr (Join '' '' scopes')) (map_put ''refresh_token'' (JStr replacementRaw) response)), s1)))"

definition refreshToken :: "request_context \<Rightarrow> Values \<Rightarrow> request \<Rightarrow> Client \<Rightarrow> server \<Rightarrow> reply \<times> server" where
  "refreshToken cx post rq registered s =
     (if \<not> SupportsGrant registered GrantRefreshToken then (OAuthError 400 ''unauthorized_client'', s)
      else
        let raw = Form_Get ''refresh_token'' post rq in
        if raw = [] then (OAuthError 400 ''invalid_grant'', s)
        else
          let scopeValue = TrimSpace (Form_Get ''scope'' post rq);
              requested = (if scopeValue = [] then Some None else map_option Some (requestedScopes scopeValue registered False))
          in case requested of
               None \<Rightarrow> (OAuthError 400 ''invalid_scope'', s)
             | Some scopes \<Rightarrow>
                 (case RandomToken 48 (cx_random cx 0) of
                    Inl _ \<Rightarrow> (server_error, s)
                  | Inr replacementRaw \<Rightarrow>
                      (case RotateRefreshToken (HashToken (cx_sha256 cx) raw)
                         \<lparr>rt_Hash = HashToken (cx_sha256 cx) replacementRaw, rt_FamilyID = [], rt_ClientID = cl_ID registered,
                          rt_UserID = [], rt_SessionID = [], rt_Scope = scopes, rt_IssuedAt = cx_now cx,
                          rt_ExpiresAt = cx_now cx + RefreshTokenLifetime registered\<rparr> (cx_now cx) (srv_oauth s) of
                         (Inl ErrInvalidScope, r) \<Rightarrow> (OAuthError 400 ''invalid_scope'', s\<lparr>srv_oauth := r\<rparr>)
                       | (Inl _, r) \<Rightarrow> (OAuthError 400 ''invalid_grant'', s\<lparr>srv_oauth := r\<rparr>)
                       | (Inr current, r) \<Rightarrow> refreshed cx registered replacementRaw scopes current (s\<lparr>srv_oauth := r\<rparr>))))"

definition clientCredentialsToken :: "request_context \<Rightarrow> Values \<Rightarrow> request \<Rightarrow> Client \<Rightarrow> server \<Rightarrow> reply \<times> server" where
  "clientCredentialsToken cx post rq registered s =
     (if \<not> SupportsGrant registered GrantClientCredentials \<or> cl_ApplicationType registered \<noteq> ApplicationConfidential
      then (OAuthError 400 ''unauthorized_client'', s)
      else
        let scopeValue = Form_Get ''scope'' post rq;
            scopeValue' = (if TrimSpace scopeValue = []
              then Join '' '' (filter (\<lambda>scope. scope \<noteq> ''openid'') (cl_AllowedScopes registered)) else scopeValue)
        in case requestedScopes scopeValue' registered False of
             None \<Rightarrow> (OAuthError 400 ''invalid_scope'', s)
           | Some scopes \<Rightarrow>
               if ''openid'' \<in> set scopes then (OAuthError 400 ''invalid_scope'', s)
               else if ''roles'' \<in> set scopes then (OAuthError 400 ''invalid_scope'', s)
               else case issueAccessToken cx (cx_random cx 2) registered [] [] [] scopes s of
                   (None, s1) \<Rightarrow> (server_error, s1)
                 | (Some response, s1) \<Rightarrow> (ReplyJSON 200 response, s1))"

definition deviceCodeToken :: "request_context \<Rightarrow> Values \<Rightarrow> request \<Rightarrow> Client \<Rightarrow> server \<Rightarrow> reply \<times> server" where
  "deviceCodeToken cx post rq registered s =
     (if \<not> SupportsGrant registered GrantDeviceCode then (OAuthError 400 ''unauthorized_client'', s)
      else
        let deviceCode = Form_Get ''device_code'' post rq in
        if deviceCode = [] then (invalid_request, s)
        else case PollDeviceAuthorization (HashToken (cx_sha256 cx) deviceCode) (cl_ID registered) (cx_now cx) (srv_oauth s) of
            (Inl err, r) \<Rightarrow>
              (OAuthError 400
                 (case err of
                    ErrAuthorizationPending \<Rightarrow> ''authorization_pending''
                  | ErrSlowDown \<Rightarrow> ''slow_down''
                  | ErrAccessDenied \<Rightarrow> ''access_denied''
                  | ErrGrantExpired \<Rightarrow> ''expired_token''
                  | _ \<Rightarrow> ''invalid_grant''), s\<lparr>srv_oauth := r\<rparr>)
          | (Inr d, r) \<Rightarrow>
              (case issueUserTokens cx registered (da_UserID d) [] (da_Scope d) [] (da_AuthenticatedAt d) (da_AuthMethods d)
                 (da_AssuranceLevel d) (s\<lparr>srv_oauth := r\<rparr>) of
                 (None, s1) \<Rightarrow> (server_error, s1)
               | (Some response, s1) \<Rightarrow> (ReplyJSON 200 response, s1)))"

text \<open>The checks every endpoint makes first: the media type, the form, the request limit.\<close>

definition with_form ::
  "request_context \<Rightarrow> request \<Rightarrow> (Values \<Rightarrow> server \<Rightarrow> reply \<times> server) \<Rightarrow> server \<Rightarrow> reply \<times> server" where
  "with_form cx rq handle s =
     (if \<not> HasPrefix (rq_ContentType rq) ''application/x-www-form-urlencoded'' then (invalid_request, s)
      else case rq_PostForm rq of
          None \<Rightarrow> (invalid_request, s)
        | Some post \<Rightarrow>
            (case allowOAuthAttempt cx rq s of
               (Some refusal, s1) \<Rightarrow> (refusal, s1)
             | (None, s1) \<Rightarrow> handle post s1))"

definition grant_token :: "request_context \<Rightarrow> Values \<Rightarrow> request \<Rightarrow> Client \<Rightarrow> server \<Rightarrow> reply \<times> server" where
  "grant_token cx post rq registered s =
     (let grant = Form_Get ''grant_type'' post rq in
      if grant = GrantAuthorizationCode then authorizationCodeToken cx post rq registered s
      else if grant = GrantRefreshToken then refreshToken cx post rq registered s
      else if grant = GrantClientCredentials then clientCredentialsToken cx post rq registered s
      else if grant = GrantDeviceCode then deviceCodeToken cx post rq registered s
      else (OAuthError 400 ''unsupported_grant_type'', s))"

definition token_endpoint :: "request_context \<Rightarrow> request \<Rightarrow> server \<Rightarrow> reply \<times> server" where
  "token_endpoint cx rq s =
     with_form cx rq (\<lambda>post s1.
       case authenticateOAuthClient cx post rq s1 of
         Inl refusal \<Rightarrow> (refusal, s1)
       | Inr registered \<Rightarrow> grant_token cx post rq registered s1) s"

section \<open>Introspection, revocation, user information\<close>

definition canIntrospectAccessToken :: "string \<Rightarrow> string \<Rightarrow> server \<Rightarrow> bool" where
  "canIntrospectAccessToken tokenClientID introspectorClientID s =
     (if tokenClientID = introspectorClientID then True
      else case Client_Find tokenClientID (srv_clients s) of
          Inl _ \<Rightarrow> False
        | Inr issuer \<Rightarrow> cl_Enabled issuer \<and> cl_ArchivedAt issuer = None \<and> AllowsIntrospectionBy issuer introspectorClientID)"

abbreviation inactive_reply :: reply where "inactive_reply \<equiv> ReplyJSON 200 [(''active'', JBool False)]"

definition writeAccessTokenIntrospection :: "request_context \<Rightarrow> AccessToken \<Rightarrow> server \<Rightarrow> reply" where
  "writeAccessTokenIntrospection cx t s =
     (let response = [(''active'', JBool True), (''scope'', JStr (Join '' '' (at_Scope t))), (''client_id'', JStr (at_ClientID t)),
            (''token_type'', JStr ''Bearer''), (''exp'', JInt (Unix (at_ExpiresAt t))), (''iat'', JInt (Unix (at_IssuedAt t))),
            (''iss'', JStr (cf_Issuer (cx_cfg cx)))]
      in if at_UserID t = [] then ReplyJSON 200 response
         else case validateOAuthUserGrant cx (at_UserID t) (at_ClientID t) (at_SessionID t) (at_Scope t) s of
             None \<Rightarrow> inactive_reply
           | Some user \<Rightarrow>
               ReplyJSON 200 (addEntitlementClaims cx (us_ID user) (at_ClientID t) (at_Scope t) s
                 (map_put ''username'' (JStr (us_Username user)) (map_put ''sub'' (JStr (us_ID user)) response))))"

definition writeRefreshTokenIntrospection :: "request_context \<Rightarrow> RefreshToken \<Rightarrow> server \<Rightarrow> reply" where
  "writeRefreshTokenIntrospection cx t s =
     (case validateOAuthUserGrant cx (rt_UserID t) (rt_ClientID t) (rt_SessionID t) (elems (rt_Scope t)) s of
        None \<Rightarrow> inactive_reply
      | Some user \<Rightarrow>
          ReplyJSON 200 (addEntitlementClaims cx (us_ID user) (rt_ClientID t) (elems (rt_Scope t)) s
            [(''active'', JBool True), (''scope'', JStr (Join '' '' (elems (rt_Scope t)))), (''client_id'', JStr (rt_ClientID t)),
             (''username'', JStr (us_Username user)), (''sub'', JStr (us_ID user)), (''exp'', JInt (Unix (rt_ExpiresAt t))),
             (''iat'', JInt (Unix (rt_IssuedAt t))), (''iss'', JStr (cf_Issuer (cx_cfg cx)))]))"

definition introspected_access :: "request_context \<Rightarrow> bytes \<Rightarrow> Client \<Rightarrow> server \<Rightarrow> reply option" where
  "introspected_access cx hash registered s =
     (case FindAccessToken hash (cx_now cx) (srv_oauth s) of
        Inl _ \<Rightarrow> None
      | Inr t \<Rightarrow> if canIntrospectAccessToken (at_ClientID t) (cl_ID registered) s
                  then Some (writeAccessTokenIntrospection cx t s) else None)"

definition introspected_refresh :: "request_context \<Rightarrow> bytes \<Rightarrow> Client \<Rightarrow> server \<Rightarrow> reply option" where
  "introspected_refresh cx hash registered s =
     (case FindRefreshToken hash (cx_now cx) (srv_oauth s) of
        Inl _ \<Rightarrow> None
      | Inr t \<Rightarrow> if rt_ClientID t = cl_ID registered then Some (writeRefreshTokenIntrospection cx t s) else None)"

definition introspect_token :: "request_context \<Rightarrow> string \<Rightarrow> string \<Rightarrow> Client \<Rightarrow> server \<Rightarrow> reply" where
  "introspect_token cx raw hint registered s =
     (let hash = HashToken (cx_sha256 cx) raw;
          access = introspected_access cx hash registered s;
          refresh = introspected_refresh cx hash registered s
      in case (if hint \<noteq> ''refresh_token'' then access else None) of
           Some rep \<Rightarrow> rep
         | None \<Rightarrow>
             (case refresh of
                Some rep \<Rightarrow> rep
              | None \<Rightarrow>
                  (case (if hint = ''refresh_token'' then access else None) of
                     Some rep \<Rightarrow> rep
                   | None \<Rightarrow> inactive_reply)))"

definition introspect :: "request_context \<Rightarrow> request \<Rightarrow> server \<Rightarrow> reply \<times> server" where
  "introspect cx rq s =
     with_form cx rq (\<lambda>post s1.
       case authenticateConfidentialOAuthClient cx post rq s1 of
         Inl refusal \<Rightarrow> (refusal, s1)
       | Inr registered \<Rightarrow>
           let raw = Form_Get ''token'' post rq in
           if raw = [] then (invalid_request, s1)
           else (introspect_token cx raw (Form_Get ''token_type_hint'' post rq) registered s1, s1)) s"

definition revoke_token :: "request_context \<Rightarrow> string \<Rightarrow> string \<Rightarrow> Client \<Rightarrow> OAuthRepository \<Rightarrow> OAuthRepository" where
  "revoke_token cx raw hint registered r =
     (let hash = HashToken (cx_sha256 cx) raw;
          access = RevokeAccessToken hash (cl_ID registered) (cx_now cx);
          refresh = RevokeRefreshToken hash (cl_ID registered) (cx_now cx)
      in if hint = ''refresh_token''
         then (case refresh r of (Inr _, r1) \<Rightarrow> r1 | (Inl _, r1) \<Rightarrow> snd (access r1))
         else (case access r of (Inr _, r1) \<Rightarrow> r1 | (Inl _, r1) \<Rightarrow> snd (refresh r1)))"

definition revokeToken :: "request_context \<Rightarrow> request \<Rightarrow> server \<Rightarrow> reply \<times> server" where
  "revokeToken cx rq s =
     with_form cx rq (\<lambda>post s1.
       case authenticateOAuthClient cx post rq s1 of
         Inl refusal \<Rightarrow> (refusal, s1)
       | Inr registered \<Rightarrow>
           let raw = Form_Get ''token'' post rq in
           if raw = [] then (invalid_request, s1)
           else (NoContent 200, s1\<lparr>srv_oauth := revoke_token cx raw (Form_Get ''token_type_hint'' post rq) registered (srv_oauth s1)\<rparr>)) s"

definition bearer_token :: "request \<Rightarrow> string" where
  "bearer_token rq =
     (case Fields (rq_Authorization rq) of
        [scheme, value] \<Rightarrow> if EqualFold scheme ''Bearer'' then value else []
      | _ \<Rightarrow> [])"

definition userinfo :: "request_context \<Rightarrow> request \<Rightarrow> server \<Rightarrow> reply \<times> server" where
  "userinfo cx rq s =
     (case allowOAuthAttempt cx rq s of
        (Some refusal, s1) \<Rightarrow> (refusal, s1)
      | (None, s1) \<Rightarrow>
          let raw = (if bearer_token rq = [] \<and> rq_Method rq = ''POST''
                then (case rq_PostForm rq of None \<Rightarrow> [] | Some post \<Rightarrow> Form_Get ''access_token'' post rq) else bearer_token rq)
          in (case FindAccessToken (HashToken (cx_sha256 cx) raw) (cx_now cx) (srv_oauth s1) of
                Inl _ \<Rightarrow> (OAuthError 401 ''invalid_token'', s1)
              | Inr t \<Rightarrow>
                  if raw = [] \<or> at_UserID t = [] \<or> ''openid'' \<notin> set (at_Scope t) then (OAuthError 401 ''invalid_token'', s1)
                  else case validateOAuthUserGrant cx (at_UserID t) (at_ClientID t) (at_SessionID t) (at_Scope t) s1 of
                      None \<Rightarrow> (OAuthError 401 ''invalid_token'', s1)
                    | Some user \<Rightarrow>
                        (ReplyJSON 200 (addEntitlementClaims cx (us_ID user) (at_ClientID t) (at_Scope t) s1
                           (profile_claims user (at_Scope t) [(''sub'', JStr (us_ID user))])), s1)))"

section \<open>Starting a device grant\<close>

definition normalizeUserCode :: "string \<Rightarrow> string" where
  "normalizeUserCode value = ToUpper (filter (\<lambda>c. c \<noteq> CHR ''-'') (TrimSpace value))"

definition displayUserCode :: "string \<Rightarrow> string" where
  "displayUserCode value =
     (let normalized = normalizeUserCode value in
      if length normalized \<noteq> 8 then [] else take 4 normalized @ ''-'' @ drop 4 normalized)"

definition user_code_alphabet :: string where
  "user_code_alphabet = ''BCDFGHJKLMNPQRSTVWXZ23456789''"

text \<open>The inner loop over one buffer of random bytes: the letters so far.\<close>

fun take_letters :: "string \<Rightarrow> bytes \<Rightarrow> string" where
  "take_letters letters [] = letters"
| "take_letters letters (candidate # rest) =
     (if unat candidate \<ge> 256 - 256 mod length user_code_alphabet then take_letters letters rest
      else
        let letters1 = letters @ [user_code_alphabet ! (unat candidate mod length user_code_alphabet)]
        in if length letters1 = 8 then letters1 else take_letters letters1 rest)"

text \<open>The outer loop, which reads buffers of sixteen bytes until eight letters are found: \<open>buffers\<close> are the
  draws of the random source, \<open>None\<close> its failure. The result is \<open>None\<close> while the loop is still
  running, \<open>Some None\<close> when the source failed.\<close>

fun user_code_loop :: "string \<Rightarrow> bytes option list \<Rightarrow> string option option" where
  "user_code_loop letters buffers =
     (if length letters \<ge> 8 then Some (Some (take 4 letters @ ''-'' @ drop 4 letters))
      else case buffers of
          [] \<Rightarrow> None
        | None # _ \<Rightarrow> Some None
        | Some buffer # rest \<Rightarrow> user_code_loop (take_letters letters buffer) rest)"

declare user_code_loop.simps [simp del]

definition randomUserCode :: "bytes option list \<Rightarrow> string option option" where
  "randomUserCode buffers = user_code_loop [] buffers"

definition start_device :: "request_context \<Rightarrow> string \<Rightarrow> string \<Rightarrow> Client \<Rightarrow> string list \<Rightarrow> server \<Rightarrow> reply \<times> server" where
  "start_device cx deviceCode userCode registered scopes s =
     (let verificationURI = cf_Issuer (cx_cfg cx) @ ''/device'';
          s1 = s\<lparr>srv_oauth := snd (SaveDeviceAuthorization
            \<lparr>da_DeviceHash = HashToken (cx_sha256 cx) deviceCode, da_UserHash = HashToken (cx_sha256 cx) (normalizeUserCode userCode),
             da_ClientID = cl_ID registered, da_UserID = [], da_Scope = scopes, da_Status = DevicePending, da_AuthenticatedAt = 0,
             da_AuthMethods = [], da_AssuranceLevel = [], da_CreatedAt = cx_now cx, da_ExpiresAt = cx_now cx + 15 * minute,
             da_Interval = 5 * second, da_LastPollAt = None\<rparr> (srv_oauth s))\<rparr>
      in (ReplyJSON 200 [(''device_code'', JStr deviceCode), (''user_code'', JStr userCode), (''verification_uri'', JStr verificationURI),
            (''verification_uri_complete'', JStr (verificationURI @ ''?user_code='' @ QueryEscape userCode)),
            (''expires_in'', JInt (15 * 60)), (''interval'', JInt 5)], s1))"

text \<open>The user code is the result of \<open>randomUserCode\<close>, an argument here.\<close>

definition deviceAuthorization :: "request_context \<Rightarrow> string option \<Rightarrow> request \<Rightarrow> server \<Rightarrow> reply \<times> server" where
  "deviceAuthorization cx randomCode rq s =
     with_form cx rq (\<lambda>post s1.
       case authenticateOAuthClient cx post rq s1 of
         Inl refusal \<Rightarrow> (refusal, s1)
       | Inr registered \<Rightarrow>
           if \<not> SupportsGrant registered GrantDeviceCode then (OAuthError 400 ''unauthorized_client'', s1)
           else case requestedScopes (Form_Get ''scope'' post rq) registered False of
               None \<Rightarrow> (OAuthError 400 ''invalid_scope'', s1)
             | Some scopes \<Rightarrow>
                 (case RandomToken 32 (cx_random cx 0) of
                    Inl _ \<Rightarrow> (server_error, s1)
                  | Inr deviceCode \<Rightarrow>
                      (case randomCode of
                         None \<Rightarrow> (server_error, s1)
                       | Some userCode \<Rightarrow> start_device cx deviceCode userCode registered scopes s1))) s"

section \<open>User codes\<close>

definition usable_byte :: "8 word \<Rightarrow> bool" where
  "usable_byte b = (unat b < 252)"

lemma alphabet_length [simp]: "length user_code_alphabet = 28"
  by (simp add: user_code_alphabet_def)

lemma take_letters_grow:
  assumes "length letters < 8" and "set letters \<subseteq> set user_code_alphabet"
  shows "set (take_letters letters buffer) \<subseteq> set user_code_alphabet
    \<and> length (take_letters letters buffer) = min 8 (length letters + length (filter usable_byte buffer))"
  using assms
proof (induction letters buffer rule: take_letters.induct)
  case (2 letters candidate rest)
  show ?case
  proof (cases "usable_byte candidate")
    case False
    with 2 show ?thesis by (simp add: usable_byte_def)
  next
    case True
    let ?l = "letters @ [user_code_alphabet ! (unat candidate mod 28)]"
    have l: "set ?l \<subseteq> set user_code_alphabet" using 2(4) by (auto intro!: nth_mem)
    show ?thesis
    proof (cases "length ?l = 8")
      case True
      with l \<open>usable_byte candidate\<close> show ?thesis by (auto simp: usable_byte_def Let_def)
    next
      case ne: False
      with 2(3) have "length ?l < 8" by simp
      with 2(2) [of ?l] l ne True show ?thesis by (simp add: usable_byte_def Let_def)
    qed
  qed
qed simp

definition user_code_format :: "string \<Rightarrow> bool" where
  "user_code_format code =
     (length code = 9 \<and> code ! 4 = CHR ''-'' \<and> set (take 4 code @ drop 5 code) \<subseteq> set user_code_alphabet)"

lemma user_code_loop_returns:
  assumes "length letters \<le> 8" and "set letters \<subseteq> set user_code_alphabet" and "None \<notin> set buffers"
    and "8 \<le> length letters + length (filter usable_byte (concat (map the buffers)))"
  shows "\<exists>code. user_code_loop letters buffers = Some (Some code) \<and> user_code_format code"
  using assms
proof (induction letters buffers rule: user_code_loop.induct)
  case (1 letters buffers)
  show ?case
  proof (cases "length letters \<ge> 8")
    case True
    with 1(2) have l: "length letters = 8" by simp
    moreover have "set (take 4 letters) \<subseteq> set user_code_alphabet" "set (drop 4 letters) \<subseteq> set user_code_alphabet"
      using 1(3) set_take_subset [of 4 letters] set_drop_subset [of 4 letters] by auto
    ultimately show ?thesis
      by (subst user_code_loop.simps) (simp add: user_code_format_def nth_append)
  next
    case False
    with 1(4,5) obtain buffer rest where b: "buffers = Some buffer # rest" by (cases buffers) (auto, metis option.exhaust)
    let ?l = "take_letters letters buffer"
    have g: "set ?l \<subseteq> set user_code_alphabet" "length ?l = min 8 (length letters + length (filter usable_byte buffer))"
      using take_letters_grow [of letters buffer] False 1(3) by auto
    have "\<exists>code. user_code_loop ?l rest = Some (Some code) \<and> user_code_format code"
    proof (cases "length ?l = 8")
      case True
      show ?thesis by (rule 1(1) [OF False b]) (use g True 1(4) b in auto)
    next
      case ne: False
      with g(2) 1(5) have "8 \<le> length ?l + length (filter usable_byte (concat (map the rest)))" by (auto simp: b)
      with g 1(4) b show ?thesis by (intro 1(1) [OF False b]) auto
    qed
    with False b show ?thesis by (subst user_code_loop.simps) simp
  qed
qed

text \<open>C31: \<open>randomUserCode\<close> terminates with a code once the random source has delivered eight bytes below 252 (a
  uniformly random byte is one with probability 63/64): whatever else the buffers hold, the code is
  four letters, a dash and four letters of the unambiguous alphabet.\<close>

theorem user_code_terminates:
  assumes "None \<notin> set buffers" and "8 \<le> length (filter (\<lambda>b. unat b < 252) (concat (map the buffers)))"
  shows "\<exists>code. randomUserCode buffers = Some (Some code) \<and> length code = 9 \<and> code ! 4 = CHR ''-''
    \<and> set (take 4 code @ drop 5 code) \<subseteq> set user_code_alphabet"
proof -
  have u: "usable_byte = (\<lambda>b. unat b < 252)" by (rule ext) (simp add: usable_byte_def)
  show ?thesis using user_code_loop_returns [of "[]" buffers] assms
    unfolding randomUserCode_def u user_code_format_def by auto
qed

theorem user_code_terminates_witness:
  "\<exists>code. randomUserCode [Some (replicate 16 255), Some (replicate 16 7)] = Some (Some code) \<and> length code = 9"
  using user_code_terminates [of "[Some (replicate 16 255), Some (replicate 16 7)]"] by auto

lemma upper_char_idem [simp]: "upper_char (upper_char c) = upper_char c"
  by (auto simp: upper_char_def is_lower_def char_code_def)

lemma upper_lower_char: "\<not> is_lower c \<Longrightarrow> upper_char (lower_char c) = c"
  by (auto simp: lower_char_def upper_char_def is_upper_def is_lower_def char_code_def)

end
