(* ===== verification/OAuth_Security.thy ===== *)
theory OAuth_Security
  imports OAuth_Endpoints
begin

text \<open>
  What the OAuth endpoints guarantee: the replies of the token, introspection and user information
  endpoints, related to what the server has stored.
\<close>

section \<open>The frame of a handler\<close>

text \<open>The request limit only writes its own table.\<close>

lemma allowRateLimitedRequest_frame:
  "\<exists>l. snd (allowRateLimitedRequest cx scope subject policy oauthStyle s) = s\<lparr>srv_rateLimits := l\<rparr>"
  by (auto simp: allowRateLimitedRequest_def Let_def split: prod.splits sum.splits)

definition is_refusal :: "reply \<Rightarrow> bool" where
  "is_refusal rep = (case rep of OAuthError _ _ \<Rightarrow> True | _ \<Rightarrow> False)"

lemma allowOAuthAttempt_refusal:
  "fst (allowOAuthAttempt cx rq s) = Some rep \<Longrightarrow> is_refusal rep"
  by (auto simp: allowOAuthAttempt_def allowRateLimitedRequest_def rate_refusal_def is_refusal_def Let_def
      split: prod.splits sum.splits if_splits)

lemma with_form_cases [consumes 2]:
  assumes "with_form cx rq handle s = (rep, s')" and "\<not> is_refusal rep"
  obtains post l where "rq_PostForm rq = Some post" and "allowOAuthAttempt cx rq s = (None, s\<lparr>srv_rateLimits := l\<rparr>)"
    and "handle post (s\<lparr>srv_rateLimits := l\<rparr>) = (rep, s')"
proof -
  obtain l where l: "snd (allowOAuthAttempt cx rq s) = s\<lparr>srv_rateLimits := l\<rparr>"
    using allowRateLimitedRequest_frame unfolding allowOAuthAttempt_def by blast
  from assms obtain post where p: "rq_PostForm rq = Some post" "HasPrefix (rq_ContentType rq) ''application/x-www-form-urlencoded''"
    by (auto simp: with_form_def is_refusal_def split: if_splits option.splits)
  show ?thesis
  proof (cases "fst (allowOAuthAttempt cx rq s)")
    case None
    with l have "allowOAuthAttempt cx rq s = (None, s\<lparr>srv_rateLimits := l\<rparr>)" by (metis prod.collapse)
    with p assms(1) show ?thesis by (intro that) (auto simp: with_form_def)
  next
    case (Some refusal)
    with p assms(1) have "rep = refusal" by (auto simp: with_form_def split: prod.splits)
    with Some assms(2) show ?thesis using allowOAuthAttempt_refusal by blast
  qed
qed

text \<open>The shape of the endpoints a client authenticates to: a reply that is not a refusal comes from the body.\<close>

lemma client_form_cases:
  assumes "with_form cx rq (\<lambda>post s1. case auth post s1 of Inl refusal \<Rightarrow> (refusal, s1) | Inr c \<Rightarrow> handle post c s1) s = (rep, s')"
    and "\<not> is_refusal rep" and "\<And>post s1 x. auth post s1 = Inl x \<Longrightarrow> is_refusal x"
  obtains post l c where "rq_PostForm rq = Some post" and "auth post (s\<lparr>srv_rateLimits := l\<rparr>) = Inr c"
    and "handle post c (s\<lparr>srv_rateLimits := l\<rparr>) = (rep, s')"
proof (rule with_form_cases [OF assms(1,2)])
  fix post l
  assume p: "rq_PostForm rq = Some post"
    and h: "(case auth post (s\<lparr>srv_rateLimits := l\<rparr>) of Inl refusal \<Rightarrow> (refusal, s\<lparr>srv_rateLimits := l\<rparr>)
      | Inr c \<Rightarrow> handle post c (s\<lparr>srv_rateLimits := l\<rparr>)) = (rep, s')"
  show thesis
  proof (cases "auth post (s\<lparr>srv_rateLimits := l\<rparr>)")
    case (Inl x)
    with h assms(3) [OF Inl] assms(2) show ?thesis by simp
  next
    case (Inr c)
    with h p show ?thesis by (auto intro: that)
  qed
qed

section \<open>Specifications\<close>

text \<open>A client that proved its identity: it is registered and enabled, it used the method it is registered with, and
  a confidential client presented the secret whose hash is stored.\<close>

definition authenticated :: "request_context \<Rightarrow> Values \<Rightarrow> request \<Rightarrow> server \<Rightarrow> Client \<Rightarrow> bool" where
  "authenticated cx post rq s c =
     (\<exists>clientID secret.
        presented_credentials post rq = Inr (clientID, secret, EffectiveTokenEndpointAuthMethod c)
        \<and> Client_Find clientID (srv_clients s) = Inr c \<and> cl_Enabled c \<and> SupportsOAuth c
        \<and> (cl_ApplicationType c = ApplicationConfidential
            \<longrightarrow> secret \<noteq> [] \<and> cx_sha256 cx (bytes_of secret) = cl_SecretHash c))"

text \<open>A user grant that is still in force: the user is active, the session has not ended, the consent covers the scopes.\<close>

definition grant_in_force :: "request_context \<Rightarrow> string \<Rightarrow> string \<Rightarrow> string \<Rightarrow> string list \<Rightarrow> server \<Rightarrow> bool" where
  "grant_in_force cx userID clientID sessionID scopes s =
     ((\<exists>user. User_Find userID (srv_users s) = Inr user \<and> us_Status user = UserActive)
      \<and> (sessionID = [] \<or> Service_IsActive userID sessionID (cx_now cx) (srv_sessions s))
      \<and> (\<exists>consent. FindConsent userID clientID (srv_oauth s) = Inr consent \<and> set scopes \<subseteq> set (co_Scopes consent)))"

lemma authenticateOAuthClient_iff:
  "authenticateOAuthClient cx post rq s = Inr c \<longleftrightarrow> authenticated cx post rq s c"
  by (auto simp: authenticateOAuthClient_def authenticated_def validOAuthClientSecret_def
      split: sum.splits prod.splits if_splits)

lemma authenticateConfidential_iff:
  "authenticateConfidentialOAuthClient cx post rq s = Inr c \<longleftrightarrow>
     authenticated cx post rq s c \<and> cl_ApplicationType c = ApplicationConfidential"
  unfolding authenticateOAuthClient_iff [symmetric]
  by (auto simp: authenticateConfidentialOAuthClient_def split: sum.splits if_splits)

lemma validateOAuthUserGrant_iff:
  "validateOAuthUserGrant cx userID clientID sessionID scopes s \<noteq> None \<longleftrightarrow>
     grant_in_force cx userID clientID sessionID scopes s"
  by (auto simp: validateOAuthUserGrant_def grant_in_force_def Covers_def ScopesCover_iff
      split: sum.splits if_splits)

lemma validateOAuthUserGrant_user:
  "validateOAuthUserGrant cx userID clientID sessionID scopes s = Some user \<Longrightarrow>
     User_Find userID (srv_users s) = Inr user \<and> us_Status user = UserActive"
  by (auto simp: validateOAuthUserGrant_def split: sum.splits if_splits)

lemma authenticated_limits [simp]:
  "authenticated cx post rq (s\<lparr>srv_rateLimits := l\<rparr>) c = authenticated cx post rq s c"
  by (simp add: authenticated_def)

lemma grant_in_force_limits [simp]:
  "grant_in_force cx u c sid scopes (s\<lparr>srv_rateLimits := l\<rparr>) = grant_in_force cx u c sid scopes s"
  by (simp add: grant_in_force_def)

lemma authenticated_refusal:
  "authenticateOAuthClient cx post rq s = Inl rep \<Longrightarrow> is_refusal rep"
  by (auto simp: authenticateOAuthClient_def presented_credentials_def is_refusal_def Let_def
      split: sum.splits prod.splits if_splits option.splits)

lemma confidential_refusal:
  "authenticateConfidentialOAuthClient cx post rq s = Inl rep \<Longrightarrow> is_refusal rep"
  by (auto simp: authenticateConfidentialOAuthClient_def is_refusal_def split: sum.splits if_splits
      dest: authenticated_refusal)

section \<open>Introspection\<close>

definition usable_access :: "request_context \<Rightarrow> string \<Rightarrow> server \<Rightarrow> memoryAccessToken \<Rightarrow> bool" where
  "usable_access cx raw s t =
     (t \<in> set (accessTokens (srv_oauth s)) \<and> at_Hash t = HashToken (cx_sha256 cx) raw \<and> at_revokedAt t = None
      \<and> cx_now cx < at_ExpiresAt t
      \<and> (at_UserID t = [] \<or> grant_in_force cx (at_UserID t) (at_ClientID t) (at_SessionID t) (at_Scope t) s))"

definition usable_refresh :: "request_context \<Rightarrow> string \<Rightarrow> server \<Rightarrow> memoryRefreshToken \<Rightarrow> bool" where
  "usable_refresh cx raw s t =
     (t \<in> set (refresh (srv_oauth s)) \<and> rt_Hash t = HashToken (cx_sha256 cx) raw \<and> rt_revokedAt t = None
      \<and> rt_consumedAt t = None \<and> cx_now cx < rt_ExpiresAt t
      \<and> grant_in_force cx (rt_UserID t) (rt_ClientID t) (rt_SessionID t) (elems (rt_Scope t)) s)"

definition introspector :: "server \<Rightarrow> string \<Rightarrow> Client \<Rightarrow> bool" where
  "introspector s clientID caller =
     (clientID = cl_ID caller \<or>
      (\<exists>issuer. Client_Find clientID (srv_clients s) = Inr issuer \<and> cl_Enabled issuer
         \<and> cl_ArchivedAt issuer = None \<and> cl_ID caller \<in> insert (cl_ID issuer) (set (cl_IntrospectableBy issuer))))"

lemma FindAccessTokenD:
  assumes "FindAccessToken h now r = Inr t"
  shows "\<exists>u \<in> set (accessTokens r). t = AccessToken.truncate u \<and> at_Hash u = h \<and> at_revokedAt u = None \<and> now < at_ExpiresAt u"
  using assms by (auto simp: FindAccessToken_def split: option.splits dest!: find_SomeD)

lemma FindRefreshTokenD:
  assumes "FindRefreshToken h now r = Inr t"
  shows "\<exists>u \<in> set (refresh r). t = (RefreshToken.truncate u)\<lparr>rt_Scope := copy_slice (rt_Scope u)\<rparr> \<and> rt_Hash u = h
    \<and> rt_consumedAt u = None \<and> rt_revokedAt u = None \<and> now < rt_ExpiresAt u"
  using assms by (auto simp: FindRefreshToken_def split: option.splits dest!: find_SomeD)

text \<open>Claims added to a reply leave the others as they are.\<close>

lemma addEntitlementClaims_other [simp]:
  "k \<noteq> ''roles'' \<Longrightarrow> k \<noteq> ''permissions'' \<Longrightarrow>
     map_of (addEntitlementClaims cx u c scopes s cs) k = map_of cs k"
  by (simp add: addEntitlementClaims_def Let_def)

definition reports :: "(string \<times> json) list \<Rightarrow> string \<Rightarrow> string list \<Rightarrow> time \<Rightarrow> bool" where
  "reports body clientID scopes expiry =
     (map_of body ''client_id'' = Some (JStr clientID) \<and> map_of body ''scope'' = Some (JStr (Join '' '' scopes))
      \<and> map_of body ''exp'' = Some (JInt (Unix expiry)))"

lemma writeAccessTokenIntrospection_active:
  assumes "writeAccessTokenIntrospection cx t s = ReplyJSON 200 body" and "map_of body ''active'' = Some (JBool True)"
  shows "(at_UserID t = [] \<or> grant_in_force cx (at_UserID t) (at_ClientID t) (at_SessionID t) (at_Scope t) s)
    \<and> reports body (at_ClientID t) (at_Scope t) (at_ExpiresAt t)"
  using assms validateOAuthUserGrant_iff [of cx "at_UserID t" "at_ClientID t" "at_SessionID t" "at_Scope t" s]
  by (auto simp: writeAccessTokenIntrospection_def reports_def Let_def split: if_splits option.splits)

lemma writeRefreshTokenIntrospection_active:
  assumes "writeRefreshTokenIntrospection cx t s = ReplyJSON 200 body" and "map_of body ''active'' = Some (JBool True)"
  shows "grant_in_force cx (rt_UserID t) (rt_ClientID t) (rt_SessionID t) (elems (rt_Scope t)) s
    \<and> reports body (rt_ClientID t) (elems (rt_Scope t)) (rt_ExpiresAt t)"
  using assms validateOAuthUserGrant_iff [of cx "rt_UserID t" "rt_ClientID t" "rt_SessionID t" "elems (rt_Scope t)" s]
  by (auto simp: writeRefreshTokenIntrospection_def reports_def split: option.splits)

lemma canIntrospectAccessToken_iff:
  "canIntrospectAccessToken clientID (cl_ID caller) s \<Longrightarrow> introspector s clientID caller"
  by (auto simp: canIntrospectAccessToken_def introspector_def AllowsIntrospectionBy_def split: sum.splits if_splits)

definition vouched :: "request_context \<Rightarrow> string \<Rightarrow> Client \<Rightarrow> server \<Rightarrow> (string \<times> json) list \<Rightarrow> bool" where
  "vouched cx raw caller s body =
     ((\<exists>t. usable_access cx raw s t \<and> introspector s (at_ClientID t) caller
          \<and> reports body (at_ClientID t) (at_Scope t) (at_ExpiresAt t))
      \<or> (\<exists>t. usable_refresh cx raw s t \<and> rt_ClientID t = cl_ID caller
          \<and> reports body (rt_ClientID t) (elems (rt_Scope t)) (rt_ExpiresAt t)))"

lemma introspected_access_active:
  assumes "introspected_access cx (HashToken (cx_sha256 cx) raw) caller s = Some (ReplyJSON 200 body)"
    and "map_of body ''active'' = Some (JBool True)"
  shows "vouched cx raw caller s body"
proof -
  from assms(1) obtain t where t: "FindAccessToken (HashToken (cx_sha256 cx) raw) (cx_now cx) (srv_oauth s) = Inr t"
    and c: "canIntrospectAccessToken (at_ClientID t) (cl_ID caller) s"
    and w: "writeAccessTokenIntrospection cx t s = ReplyJSON 200 body"
    by (auto simp: introspected_access_def split: sum.splits if_splits)
  from FindAccessTokenD [OF t] writeAccessTokenIntrospection_active [OF w assms(2)] canIntrospectAccessToken_iff [OF c]
  show ?thesis unfolding vouched_def usable_access_def by (auto simp: embed_defs)
qed

lemma introspected_refresh_active:
  assumes "introspected_refresh cx (HashToken (cx_sha256 cx) raw) caller s = Some (ReplyJSON 200 body)"
    and "map_of body ''active'' = Some (JBool True)"
  shows "vouched cx raw caller s body"
proof -
  from assms(1) obtain t where t: "FindRefreshToken (HashToken (cx_sha256 cx) raw) (cx_now cx) (srv_oauth s) = Inr t"
    and c: "rt_ClientID t = cl_ID caller" and w: "writeRefreshTokenIntrospection cx t s = ReplyJSON 200 body"
    by (auto simp: introspected_refresh_def split: sum.splits if_splits)
  from FindRefreshTokenD [OF t] writeRefreshTokenIntrospection_active [OF w assms(2)] c
  show ?thesis unfolding vouched_def usable_refresh_def by (auto simp: embed_defs)
qed

lemma introspect_token_active:
  assumes "introspect_token cx raw hint caller s = ReplyJSON 200 body" and "map_of body ''active'' = Some (JBool True)"
  shows "vouched cx raw caller s body"
  using assms by (auto simp: introspect_token_def Let_def split: option.splits if_splits
      intro: introspected_access_active introspected_refresh_active)

lemma vouched_limits [simp]: "vouched cx raw caller (s\<lparr>srv_rateLimits := l\<rparr>) body = vouched cx raw caller s body"
  by (simp add: vouched_def usable_access_def usable_refresh_def introspector_def)

text \<open>C3: An introspection reply says \<open>active\<close> only to an authenticated confidential client, and only about a token that
  the server issued, that is neither revoked, consumed nor expired, and whose grant is still in force: the user is
  active, the session has not ended, the consent covers the scopes. An access token is disclosed to its own client or
  to one its client lists as introspector, a refresh token to its own client only. The reply reports the stored client,
  scopes and expiry, and introspection changes nothing but the request limit.\<close>

theorem introspection_sound:
  assumes "introspect cx rq s = (ReplyJSON 200 body, s')" and "map_of body ''active'' = Some (JBool True)"
  shows "\<exists>post caller. rq_PostForm rq = Some post \<and> authenticated cx post rq s caller
    \<and> cl_ApplicationType caller = ApplicationConfidential
    \<and> vouched cx (Form_Get ''token'' post rq) caller s body \<and> (\<exists>l. s' = s\<lparr>srv_rateLimits := l\<rparr>)"
proof (rule client_form_cases [OF assms(1) [unfolded introspect_def] _ confidential_refusal])
  show "\<not> is_refusal (ReplyJSON 200 body)" by (simp add: is_refusal_def)
next
  fix post l caller
  assume p: "rq_PostForm rq = Some post"
    and a: "authenticateConfidentialOAuthClient cx post rq (s\<lparr>srv_rateLimits := l\<rparr>) = Inr caller"
    and h: "(let raw = Form_Get ''token'' post rq in if raw = [] then (invalid_request, s\<lparr>srv_rateLimits := l\<rparr>)
       else (introspect_token cx raw (Form_Get ''token_type_hint'' post rq) caller (s\<lparr>srv_rateLimits := l\<rparr>), s\<lparr>srv_rateLimits := l\<rparr>))
      = (ReplyJSON 200 body, s')"
  from h have "introspect_token cx (Form_Get ''token'' post rq) (Form_Get ''token_type_hint'' post rq) caller (s\<lparr>srv_rateLimits := l\<rparr>)
      = ReplyJSON 200 body" and "s' = s\<lparr>srv_rateLimits := l\<rparr>"
    by (auto simp: Let_def split: if_splits)
  with introspect_token_active [OF this(1) assms(2)] a p show ?thesis
    unfolding authenticateConfidential_iff by auto
qed

section \<open>The token endpoint\<close>

text \<open>What issuing an access token and a refresh token does to the store.\<close>

definition new_access :: "request_context \<Rightarrow> string \<Rightarrow> Client \<Rightarrow> string \<Rightarrow> string \<Rightarrow> string \<Rightarrow> string list \<Rightarrow> memoryAccessToken" where
  "new_access cx raw c userID sessionID familyID scopes =
     AccessToken.extend \<lparr>at_Hash = HashToken (cx_sha256 cx) raw, at_ClientID = cl_ID c, at_UserID = userID,
       at_SessionID = sessionID, at_FamilyID = familyID, at_Scope = scopes, at_IssuedAt = cx_now cx,
       at_ExpiresAt = cx_now cx + AccessTokenLifetime c\<rparr> \<lparr>at_revokedAt = None\<rparr>"

lemma issueAccessToken_Some:
  assumes "issueAccessToken cx random c userID sessionID familyID scopes s = (Some body, s')"
  shows "\<exists>raw. map_of body ''access_token'' = Some (JStr raw) \<and> map_of body ''scope'' = Some (JStr (Join '' '' scopes))
    \<and> s' = s\<lparr>srv_oauth := (srv_oauth s)\<lparr>accessTokens :=
        accessTokens (srv_oauth s) @ [new_access cx raw c userID sessionID familyID scopes]\<rparr>\<rparr>"
  using assms by (auto simp: issueAccessToken_def SaveAccessToken_def new_access_def split: sum.splits prod.splits)

lemma issueAccessToken_raw:
  assumes "issueAccessToken cx random c userID sessionID familyID scopes s = (Some body, s')"
    and "map_of body ''access_token'' = Some (JStr raw)"
  shows "s' = s\<lparr>srv_oauth := (srv_oauth s)\<lparr>accessTokens :=
        accessTokens (srv_oauth s) @ [new_access cx raw c userID sessionID familyID scopes]\<rparr>\<rparr>"
  using issueAccessToken_Some [OF assms(1)] assms(2) by auto

lemma map_put_other [simp]: "k \<noteq> k' \<Longrightarrow> map_of (map_put k v m) k' = map_of m k'"
  by simp

lemma SaveOIDCClientSession_frame [simp]:
  "accessTokens (snd (SaveOIDCClientSession v r)) = accessTokens r" "refresh (snd (SaveOIDCClientSession v r)) = refresh r"
  "codes (snd (SaveOIDCClientSession v r)) = codes r" "consents (snd (SaveOIDCClientSession v r)) = consents r"
  by (simp_all add: SaveOIDCClientSession_def Let_def)

lemma issue_id_token_Some:
  assumes "issue_id_token cx c user userID sessionID scopes nonce at am al response s = (Some body, s')"
  shows "(\<exists>idToken. body = map_put ''id_token'' (JStr idToken) response) \<and> accessTokens (srv_oauth s') = accessTokens (srv_oauth s)
    \<and> refresh (srv_oauth s') = refresh (srv_oauth s) \<and> codes (srv_oauth s') = codes (srv_oauth s)
    \<and> consents (srv_oauth s') = consents (srv_oauth s)
    \<and> srv_users s' = srv_users s \<and> srv_sessions s' = srv_sessions s \<and> srv_clients s' = srv_clients s"
  using assms by (auto simp: issue_id_token_def Let_def split: sum.splits prod.splits)

lemma save_refresh_frame [simp]:
  "accessTokens (srv_oauth (save_refresh cx c raw f u sid scopes s)) = accessTokens (srv_oauth s)"
  "codes (srv_oauth (save_refresh cx c raw f u sid scopes s)) = codes (srv_oauth s)"
  "consents (srv_oauth (save_refresh cx c raw f u sid scopes s)) = consents (srv_oauth s)"
  "srv_users (save_refresh cx c raw f u sid scopes s) = srv_users s"
  "srv_sessions (save_refresh cx c raw f u sid scopes s) = srv_sessions s"
  "srv_clients (save_refresh cx c raw f u sid scopes s) = srv_clients s"
  by (simp_all add: save_refresh_def SaveRefreshToken_def)

text \<open>The tokens of a user grant: one access token is added, bound to the user, the session and the client.\<close>

definition issued :: "request_context \<Rightarrow> Client \<Rightarrow> string \<Rightarrow> string \<Rightarrow> string list \<Rightarrow> (string \<times> json) list \<Rightarrow> server \<Rightarrow> server \<Rightarrow> bool" where
  "issued cx c userID sessionID scopes body s s' =
     (\<exists>raw familyID. map_of body ''access_token'' = Some (JStr raw) \<and> map_of body ''scope'' = Some (JStr (Join '' '' scopes))
        \<and> accessTokens (srv_oauth s') = accessTokens (srv_oauth s) @ [new_access cx raw c userID sessionID familyID scopes]
        \<and> codes (srv_oauth s') = codes (srv_oauth s) \<and> consents (srv_oauth s') = consents (srv_oauth s)
        \<and> srv_users s' = srv_users s \<and> srv_sessions s' = srv_sessions s \<and> srv_clients s' = srv_clients s)"

lemma issueUserTokens_Some:
  assumes "issueUserTokens cx c userID sessionID scopes nonce at am al s = (Some body, s')"
  shows "grant_in_force cx userID (cl_ID c) sessionID scopes s \<and> issued cx c userID sessionID scopes body s s'"
proof -
  from assms obtain user refreshRaw familyID response s1
    where v: "validateOAuthUserGrant cx userID (cl_ID c) sessionID scopes s = Some user"
      and n: "new_family cx c = Some (refreshRaw, familyID)"
      and i: "issueAccessToken cx (cx_random cx 2) c userID sessionID familyID scopes s = (Some response, s1)"
    by (auto simp: issueUserTokens_def split: option.splits prod.splits)
  define s2 where "s2 = (if refreshRaw = [] then s1 else save_refresh cx c refreshRaw familyID userID sessionID scopes s1)"
  define body1 where "body1 = (if refreshRaw = [] then response else map_put ''refresh_token'' (JStr refreshRaw) response)"
  have b: "(if ''openid'' \<in> set scopes then issue_id_token cx c user userID sessionID scopes nonce at am al body1 s2
      else (Some body1, s2)) = (Some body, s')"
    using assms v n i by (simp add: issueUserTokens_def s2_def body1_def Let_def split: if_splits)
  obtain raw where r: "map_of response ''access_token'' = Some (JStr raw)" "map_of response ''scope'' = Some (JStr (Join '' '' scopes))"
    "s1 = s\<lparr>srv_oauth := (srv_oauth s)\<lparr>accessTokens :=
        accessTokens (srv_oauth s) @ [new_access cx raw c userID sessionID familyID scopes]\<rparr>\<rparr>"
    using issueAccessToken_Some [OF i] by blast
  have "issued cx c userID sessionID scopes body1 s s2"
    unfolding issued_def using r by (intro exI [of _ raw] exI [of _ familyID]) (simp add: s2_def body1_def)
  with b have "issued cx c userID sessionID scopes body s s'"
    by (auto simp: issued_def split: if_splits dest!: issue_id_token_Some)
  moreover have "grant_in_force cx userID (cl_ID c) sessionID scopes s"
    using v validateOAuthUserGrant_iff [of cx userID "cl_ID c" sessionID scopes s] by simp
  ultimately show ?thesis by simp
qed

lemma ConsumeAuthorizationCode_Inr:
  assumes "ConsumeAuthorizationCode h clientID redirectURI challenge now r = (Inr v, r')"
  obtains code where "find (\<lambda>c. ac_Hash c = h) (codes r) = Some code" and "v = AuthorizationCode.truncate code"
    and "ac_ClientID code = clientID" and "ac_RedirectURI code = redirectURI" and "ac_CodeChallenge code = challenge"
    and "ac_consumedAt code = None" and "ac_revokedAt code = None" and "now < ac_ExpiresAt code"
    and "r' = r\<lparr>codes := update_first (\<lambda>c. ac_Hash c = h) (\<lambda>c. c\<lparr>ac_consumedAt := Some now\<rparr>) (codes r)\<rparr>"
  using assms by (auto simp: ConsumeAuthorizationCode_def split: option.splits if_splits)

text \<open>A code that may be exchanged: it was issued to this client for this redirect address, its challenge is the SHA-256 of
  the verifier, it is unused, unrevoked and unexpired.\<close>

definition exchangeable :: "request_context \<Rightarrow> Values \<Rightarrow> request \<Rightarrow> Client \<Rightarrow> server \<Rightarrow> memoryAuthorizationCode \<Rightarrow> bool" where
  "exchangeable cx post rq c s code =
     (find (\<lambda>x. ac_Hash x = HashToken (cx_sha256 cx) (Form_Get ''code'' post rq)) (codes (srv_oauth s)) = Some code
      \<and> ac_ClientID code = cl_ID c \<and> ac_RedirectURI code = Form_Get ''redirect_uri'' post rq
      \<and> ac_CodeChallenge code = RawURLEncoding_EncodeToString (cx_sha256 cx (bytes_of (Form_Get ''code_verifier'' post rq)))
      \<and> ac_consumedAt code = None \<and> ac_revokedAt code = None \<and> cx_now cx < ac_ExpiresAt code)"

lemma authorizationCodeToken_sound:
  assumes "authorizationCodeToken cx post rq c s = (ReplyJSON 200 body, s')"
  shows "\<exists>code raw familyID. exchangeable cx post rq c s code \<and> SupportsGrant c GrantAuthorizationCode
    \<and> grant_in_force cx (ac_UserID code) (cl_ID c) (ac_SessionID code) (ac_Scope code) s
    \<and> map_of body ''access_token'' = Some (JStr raw)
    \<and> accessTokens (srv_oauth s') =
        accessTokens (srv_oauth s) @ [new_access cx raw c (ac_UserID code) (ac_SessionID code) familyID (ac_Scope code)]
    \<and> find (\<lambda>x. ac_Hash x = HashToken (cx_sha256 cx) (Form_Get ''code'' post rq)) (codes (srv_oauth s'))
        = Some (code\<lparr>ac_consumedAt := Some (cx_now cx)\<rparr>)"
proof -
  let ?h = "HashToken (cx_sha256 cx) (Form_Get ''code'' post rq)"
  from assms obtain v r where g: "SupportsGrant c GrantAuthorizationCode"
    and k: "ConsumeAuthorizationCode ?h (cl_ID c) (Form_Get ''redirect_uri'' post rq)
        (RawURLEncoding_EncodeToString (cx_sha256 cx (bytes_of (Form_Get ''code_verifier'' post rq)))) (cx_now cx) (srv_oauth s) = (Inr v, r)"
    and i: "issueUserTokens cx c (ac_UserID v) (ac_SessionID v) (ac_Scope v) (ac_Nonce v) (ac_AuthenticatedAt v) (ac_AuthMethods v)
        (ac_AssuranceLevel v) (s\<lparr>srv_oauth := r\<rparr>) = (Some body, s')"
    by (auto simp: authorizationCodeToken_def Let_def split: if_splits sum.splits prod.splits option.splits)
  from k show ?thesis
  proof (rule ConsumeAuthorizationCode_Inr)
    fix code
    assume c: "find (\<lambda>c. ac_Hash c = ?h) (codes (srv_oauth s)) = Some code" "v = AuthorizationCode.truncate code"
      "ac_ClientID code = cl_ID c" "ac_RedirectURI code = Form_Get ''redirect_uri'' post rq"
      "ac_CodeChallenge code = RawURLEncoding_EncodeToString (cx_sha256 cx (bytes_of (Form_Get ''code_verifier'' post rq)))"
      "ac_consumedAt code = None" "ac_revokedAt code = None" "cx_now cx < ac_ExpiresAt code"
      and r: "r = (srv_oauth s)\<lparr>codes := update_first (\<lambda>c. ac_Hash c = ?h) (\<lambda>c. c\<lparr>ac_consumedAt := Some (cx_now cx)\<rparr>) (codes (srv_oauth s))\<rparr>"
    have f: "ac_UserID v = ac_UserID code" "ac_SessionID v = ac_SessionID code" "ac_Scope v = ac_Scope code"
      by (simp_all add: c(2) embed_defs)
    from issueUserTokens_Some [OF i] have u: "grant_in_force cx (ac_UserID code) (cl_ID c) (ac_SessionID code) (ac_Scope code) s"
      and iss: "issued cx c (ac_UserID code) (ac_SessionID code) (ac_Scope code) body (s\<lparr>srv_oauth := r\<rparr>) s'"
      by (simp_all add: f r grant_in_force_def FindConsent_def)
    have x: "ac_Hash code = ?h" using find_SomeD [OF c(1)] by simp
    have "find (\<lambda>x. ac_Hash x = ?h) (codes r) = Some (code\<lparr>ac_consumedAt := Some (cx_now cx)\<rparr>)"
      using c(1) by (simp add: r find_update_first_same)
    with iss c(1,3-8) g u show ?thesis
      by (intro exI [of _ code]) (auto simp: issued_def exchangeable_def r)
  qed
qed

lemma grant_token_code:
  "Form_Get ''grant_type'' post rq = GrantAuthorizationCode \<Longrightarrow>
     grant_token cx post rq c s = authorizationCodeToken cx post rq c s"
  by (simp add: grant_token_def)

lemma code_exchange_facts:
  assumes "token_endpoint cx rq s = (ReplyJSON 200 body, s')" and "rq_PostForm rq = Some post"
    and "Form_Get ''grant_type'' post rq = GrantAuthorizationCode"
  shows "\<exists>c code raw familyID. authenticated cx post rq s c \<and> exchangeable cx post rq c s code
    \<and> grant_in_force cx (ac_UserID code) (cl_ID c) (ac_SessionID code) (ac_Scope code) s
    \<and> map_of body ''access_token'' = Some (JStr raw)
    \<and> accessTokens (srv_oauth s') =
        accessTokens (srv_oauth s) @ [new_access cx raw c (ac_UserID code) (ac_SessionID code) familyID (ac_Scope code)]
    \<and> find (\<lambda>x. ac_Hash x = HashToken (cx_sha256 cx) (Form_Get ''code'' post rq)) (codes (srv_oauth s'))
        = Some (code\<lparr>ac_consumedAt := Some (cx_now cx)\<rparr>)"
proof (rule client_form_cases [OF assms(1) [unfolded token_endpoint_def] _ authenticated_refusal])
  show "\<not> is_refusal (ReplyJSON 200 body)" by (simp add: is_refusal_def)
next
  fix post' l c
  assume "rq_PostForm rq = Some post'" and a: "authenticateOAuthClient cx post' rq (s\<lparr>srv_rateLimits := l\<rparr>) = Inr c"
    and h: "grant_token cx post' rq c (s\<lparr>srv_rateLimits := l\<rparr>) = (ReplyJSON 200 body, s')"
  with assms(2) have p: "post' = post" by simp
  from a have "authenticated cx post rq s c" by (simp add: p authenticateOAuthClient_iff)
  moreover from h have "authorizationCodeToken cx post rq c (s\<lparr>srv_rateLimits := l\<rparr>) = (ReplyJSON 200 body, s')"
    by (simp add: p grant_token_code [OF assms(3)])
  note authorizationCodeToken_sound [OF this]
  ultimately show ?thesis by (auto simp: exchangeable_def)
qed

text \<open>C2: A code exchange succeeds only for a client that authenticated (a confidential one with its secret), with a code that was
  issued to this client for the same redirect address, whose challenge is the SHA-256 of the presented verifier, and which is
  unused, unrevoked and unexpired; the user is active, the session has not ended and the consent covers the scopes.
  It issues exactly one access token, bound to the user, session and scopes of the code, and marks the code as used.\<close>

theorem code_exchange_sound:
  assumes "token_endpoint cx rq s = (ReplyJSON 200 body, s')" and "rq_PostForm rq = Some post"
    and "Form_Get ''grant_type'' post rq = GrantAuthorizationCode"
  shows "\<exists>c code raw familyID. authenticated cx post rq s c \<and> exchangeable cx post rq c s code
    \<and> grant_in_force cx (ac_UserID code) (cl_ID c) (ac_SessionID code) (ac_Scope code) s
    \<and> map_of body ''access_token'' = Some (JStr raw)
    \<and> accessTokens (srv_oauth s') =
        accessTokens (srv_oauth s) @ [new_access cx raw c (ac_UserID code) (ac_SessionID code) familyID (ac_Scope code)]
    \<and> find (\<lambda>x. ac_Hash x = HashToken (cx_sha256 cx) (Form_Get ''code'' post rq)) (codes (srv_oauth s'))
        = Some (code\<lparr>ac_consumedAt := Some (cx_now cx)\<rparr>)"
  using assms by (rule code_exchange_facts)

section \<open>A small server for the witnesses\<close>

definition demo_lib :: rsa_lib where
  "demo_lib = demo_rsa\<lparr>ParsePKCS8PrivateKey := (\<lambda>_. None), MarshalPKCS8PrivateKey := (\<lambda>_. None)\<rparr>"

definition demo_cx :: "time \<Rightarrow> request_context" where
  "demo_cx now = \<lparr>cx_lib = demo_lib,
     cx_cfg = \<lparr>cf_Issuer = ''https://id.io'', cf_RateLimits =
       (let off = \<lparr>po_Limit = 0, po_Window = 0\<rparr> in
        \<lparr>rl_LoginSource = off, rl_LoginIdentity = off, rl_Registration = off, rl_MFA = off, rl_OAuth = off,
         rl_Device = off, rl_EmailVerification = off, rl_ClientStatus = off\<rparr>)\<rparr>,
     cx_now = now, cx_FormatNano = (\<lambda>_. []), cx_ParseNano = (\<lambda>_. None), cx_random = (\<lambda>_. Some (replicate 16 7)), cx_auditRandom = None\<rparr>"

definition demo_person :: User where
  "demo_person = \<lparr>us_ID = ''u1'', us_Username = ''ann'', us_DisplayName = ''Ann'', us_Email = None, us_EmailVerified = False,
     us_Status = UserActive, us_CreatedAt = 1, us_UpdatedAt = 1\<rparr>"

definition demo_login_session :: memoryRecord where
  "demo_login_session = \<lparr>se_ID = ''s1'', se_UserID = ''u1'', se_AuthenticatedAt = 1, se_ExpiresAt = 1000, se_LastSeenAt = 1, se_IPAddress = [],
     se_UserAgent = [], se_RevokedAt = None, se_AuthMethods = [''pwd''], se_AssuranceLevel = ''urn:certus:aal:1'',
     mr_hash = bytes_of ''cookie'', mr_revokedAt = None\<rparr>"

definition demo_verifier :: string where
  "demo_verifier = replicate 43 (CHR ''v'')"

definition demo_grant_code :: memoryAuthorizationCode where
  "demo_grant_code = \<lparr>ac_Hash = bytes_of ''code1'', ac_ClientID = ''app'', ac_UserID = ''u1'', ac_SessionID = ''s1'',
     ac_RedirectURI = ''https://a.io/cb'', ac_Scope = [''profile''], ac_Nonce = [],
     ac_CodeChallenge = RawURLEncoding_EncodeToString (bytes_of demo_verifier), ac_AuthenticatedAt = 1, ac_AuthMethods = [''pwd''],
     ac_AssuranceLevel = ''urn:certus:aal:1'', ac_CreatedAt = 10, ac_ExpiresAt = 500, ac_consumedAt = None, ac_revokedAt = None\<rparr>"

definition demo_bearer :: memoryAccessToken where
  "demo_bearer = \<lparr>at_Hash = bytes_of ''tok1'', at_ClientID = ''app'', at_UserID = ''u1'', at_SessionID = ''s1'', at_FamilyID = [],
     at_Scope = [''profile''], at_IssuedAt = 10, at_ExpiresAt = 500, at_revokedAt = None\<rparr>"

definition demo_server :: server where
  "demo_server = \<lparr>srv_clients = demo_registry, srv_users = NewMemoryUserRepository [demo_person],
     srv_sessions = \<lparr>ss_repository = [(''s1'', demo_login_session)], ss_lifetime = 12 * hour\<rparr>,
     srv_oauth = OAuth_NewMemoryRepository\<lparr>codes := [demo_grant_code], accessTokens := [demo_bearer],
       consents := [\<lparr>co_UserID = ''u1'', co_ClientID = ''app'', co_Scopes = [''openid'', ''profile''], co_GrantedAt = 1, co_UpdatedAt = 1\<rparr>]\<rparr>,
     srv_cas = CAS_NewMemoryRepository, srv_access = Access_NewMemoryRepository, srv_audit = [], srv_rateLimits = None,
     srv_keys = [],
     srv_signer = \<lparr>sg_key = \<lparr>sk_PublicKey = \<lparr>pk_N = 3, pk_E = 3\<rparr>, sk_D = 1\<rparr>, sg_kid = [], sg_verification = [], sg_lastRefresh = 0\<rparr>\<rparr>"

definition demo_request :: "Values \<Rightarrow> request" where
  "demo_request post = \<lparr>rq_Method = ''POST'', rq_Path = ''/'', rq_RequestURI = ''/'', rq_Query = [], rq_PostForm = Some post,
     rq_ContentType = ''application/x-www-form-urlencoded'', rq_Authorization = ''Basic YXBwOkFRSUQ='', rq_Cookies = [],
     rq_IPAddress = ''10.0.0.1'', rq_UserAgent = [], rq_RequestID = [], rq_Principal = None\<rparr>"

lemma demo_cx_simps [simp]:
  "cx_now (demo_cx now) = now" "cx_sha256 (demo_cx now) = (\<lambda>b. b)" "cx_random (demo_cx now) n = Some (replicate 16 7)"
  by (simp_all add: demo_cx_def demo_lib_def demo_rsa_def)

lemma demo_server_simps [simp]:
  "srv_clients demo_server = demo_registry" "srv_users demo_server = NewMemoryUserRepository [demo_person]"
  "srv_sessions demo_server = \<lparr>ss_repository = [(''s1'', demo_login_session)], ss_lifetime = 12 * hour\<rparr>"
  "codes (srv_oauth demo_server) = [demo_grant_code]" "accessTokens (srv_oauth demo_server) = [demo_bearer]"
  "refresh (srv_oauth demo_server) = []"
  "consents (srv_oauth demo_server) =
     [\<lparr>co_UserID = ''u1'', co_ClientID = ''app'', co_Scopes = [''openid'', ''profile''], co_GrantedAt = 1, co_UpdatedAt = 1\<rparr>]"
  by (simp_all add: demo_server_def OAuth_NewMemoryRepository_def)

lemma demo_allowed: "allowOAuthAttempt (demo_cx now) rq s = (None, s)"
  by (simp add: allowOAuthAttempt_def allowRateLimitedRequest_def Allow_def Policy_Enabled_def demo_cx_def Let_def)

lemma demo_form: "with_form (demo_cx now) (demo_request post) handle s = handle post s"
  by (simp add: with_form_def demo_allowed demo_request_def HasPrefix_def)

definition demo_app :: Client where
  "demo_app = cloneWithSystem demo_registry demo_client"

lemma demo_app_facts:
  "cl_ID demo_app = ''app''" "cl_Enabled demo_app" "SupportsOAuth demo_app" "cl_SecretHash demo_app = bytes_of ''AQID''"
  "cl_ApplicationType demo_app = ApplicationConfidential" "EffectiveTokenEndpointAuthMethod demo_app = TokenEndpointAuthSecretBasic"
  "SupportsGrant demo_app GrantAuthorizationCode" "SupportsGrant demo_app GrantRefreshToken"
  by code_simp+

lemma demo_find [simp]: "Client_Find ''app'' demo_registry = Inr demo_app"
  by (simp add: demo_registry_find demo_app_def)

lemma demo_secret: "StdEncoding_DecodeString ''YXBwOkFRSUQ='' = Some (bytes_of ''app:AQID'')"
  by code_simp

lemma demo_unescape: "QueryUnescape ''app'' = Some ''app''" "QueryUnescape ''AQID'' = Some ''AQID''"
  by code_simp+

lemma demo_basic: "oauthClientBasicCredentials (demo_request post) = Some (Some (''app'', ''AQID''))"
proof -
  have "EqualFold ''Basic '' ''Basic ''" by (simp add: EqualFold_def)
  then have "BasicAuth (demo_request post) = Some (''app'', ''AQID'')"
    by (simp add: BasicAuth_def demo_request_def demo_secret)
  then show ?thesis by (simp add: oauthClientBasicCredentials_def demo_unescape)
qed

lemma demo_authenticated:
  assumes "values_at ''client_id'' post = []" and "values_at ''client_secret'' post = []" and "srv_clients s = demo_registry"
  shows "authenticateOAuthClient (demo_cx now) post (demo_request post) s = Inr demo_app"
proof -
  have "TrimSpace [] = []" by (simp add: TrimSpace_def)
  then show ?thesis using assms
    by (simp add: authenticateOAuthClient_def presented_credentials_def demo_basic Get_def demo_app_facts validOAuthClientSecret_def)
qed

lemma demo_person_find [simp]: "User_Find ''u1'' (NewMemoryUserRepository [demo_person]) = Inr demo_person"
  by code_simp

lemma demo_grant:
  assumes "now < 1000" and "set scopes \<subseteq> {''openid'', ''profile''}" and "srv_users s = NewMemoryUserRepository [demo_person]"
    and "srv_sessions s = srv_sessions demo_server" and "consents (srv_oauth s) = consents (srv_oauth demo_server)"
  shows "validateOAuthUserGrant (demo_cx now) ''u1'' ''app'' ''s1'' scopes s = Some demo_person"
  using assms
  by (simp add: validateOAuthUserGrant_def Service_IsActive_def Session_IsActive_def FindConsent_def Covers_def ScopesCover_iff)
    (simp add: demo_login_session_def demo_person_def)

lemma demo_introspect:
  "introspect (demo_cx 100) (demo_request [(''token'', [''tok1''])]) demo_server =
     (ReplyJSON 200 [(''active'', JBool True), (''scope'', JStr ''profile''), (''client_id'', JStr ''app''), (''token_type'', JStr ''Bearer''),
        (''exp'', JInt (Unix 500)), (''iat'', JInt (Unix 10)), (''iss'', JStr ''https://id.io''), (''sub'', JStr ''u1''),
        (''username'', JStr ''ann'')], demo_server)"
proof -
  let ?post = "[(''token'', [''tok1''])]"
  have a: "authenticateConfidentialOAuthClient (demo_cx 100) ?post (demo_request ?post) demo_server = Inr demo_app"
    by (simp add: authenticateConfidentialOAuthClient_def demo_authenticated values_at_def demo_app_facts)
  have f: "FindAccessToken (bytes_of ''tok1'') 100 (srv_oauth demo_server) = Inr (AccessToken.truncate demo_bearer)"
    by (simp add: FindAccessToken_def demo_bearer_def)
  have g: "Form_Get ''token'' ?post (demo_request ?post) = ''tok1''" "Form_Get ''token_type_hint'' ?post (demo_request ?post) = []"
    by (simp_all add: Form_Get_def values_at_def demo_request_def)
  show ?thesis
    by (simp add: introspect_def demo_form a g Let_def introspect_token_def introspected_access_def HashToken_def f
        canIntrospectAccessToken_def demo_app_facts writeAccessTokenIntrospection_def embed_defs demo_bearer_def demo_grant
        addEntitlementClaims_def)
      (simp add: demo_person_def demo_cx_def)
qed

theorem introspection_sound_witness:
  "\<exists>caller. authenticated (demo_cx 100) [(''token'', [''tok1''])] (demo_request [(''token'', [''tok1''])]) demo_server caller
    \<and> introspector demo_server ''app'' caller"
proof -
  have "rq_PostForm (demo_request post) = Some post" for post by (simp add: demo_request_def)
  with introspection_sound [OF demo_introspect] obtain caller
    where "authenticated (demo_cx 100) [(''token'', [''tok1''])] (demo_request [(''token'', [''tok1''])]) demo_server caller"
      and "vouched (demo_cx 100) (Form_Get ''token'' [(''token'', [''tok1''])] (demo_request [(''token'', [''tok1''])])) caller demo_server
        [(''active'', JBool True), (''scope'', JStr ''profile''), (''client_id'', JStr ''app''), (''token_type'', JStr ''Bearer''),
        (''exp'', JInt (Unix 500)), (''iat'', JInt (Unix 10)), (''iss'', JStr ''https://id.io''), (''sub'', JStr ''u1''),
        (''username'', JStr ''ann'')]" by auto
  then show ?thesis by (auto simp: vouched_def usable_access_def usable_refresh_def demo_bearer_def)
qed

abbreviation demo_exchange :: Values where
  "demo_exchange \<equiv> [(''grant_type'', [GrantAuthorizationCode]), (''code'', [''code1'']), (''redirect_uri'', [''https://a.io/cb'']),
     (''code_verifier'', [demo_verifier])]"

lemma demo_exchanged: "\<exists>body s'. token_endpoint (demo_cx 100) (demo_request demo_exchange) demo_server = (ReplyJSON 200 body, s')"
proof -
  let ?rq = "demo_request demo_exchange"
  have g: "Form_Get ''grant_type'' demo_exchange ?rq = GrantAuthorizationCode" "Form_Get ''code'' demo_exchange ?rq = ''code1''"
    "Form_Get ''redirect_uri'' demo_exchange ?rq = ''https://a.io/cb''" "Form_Get ''code_verifier'' demo_exchange ?rq = demo_verifier"
    by (simp_all add: Form_Get_def values_at_def demo_request_def)
  have v: "ValidCodeVerifier demo_verifier" by code_simp
  define r where "r = (srv_oauth demo_server)\<lparr>codes := [demo_grant_code\<lparr>ac_consumedAt := Some 100\<rparr>]\<rparr>"
  have c: "ConsumeAuthorizationCode (bytes_of ''code1'') ''app'' ''https://a.io/cb'' (RawURLEncoding_EncodeToString (bytes_of demo_verifier)) 100
      (srv_oauth demo_server) = (Inr (AuthorizationCode.truncate demo_grant_code), r)"
    by (simp add: ConsumeAuthorizationCode_def r_def) (simp add: demo_grant_code_def)
  obtain f where f: "new_family (demo_cx 100) demo_app = Some f"
    by (auto simp: new_family_def demo_app_facts RandomToken_def RandomUUID_def Let_def)
  obtain refreshRaw familyID where "f = (refreshRaw, familyID)" by (cases f)
  with f have "\<exists>body s'. issueUserTokens (demo_cx 100) demo_app ''u1'' ''s1'' [''profile''] nonce at am al (demo_server\<lparr>srv_oauth := r\<rparr>) = (Some body, s')"
    for nonce at am al
    by (simp add: issueUserTokens_def demo_app_facts demo_grant r_def issueAccessToken_def SaveAccessToken_def RandomToken_def Let_def)
  from this [of "[]" 1 "[''pwd'']" "''urn:certus:aal:1''"] show ?thesis
    by (simp add: token_endpoint_def demo_form demo_authenticated values_at_def grant_token_code g authorizationCodeToken_def
        demo_app_facts v HashToken_def c) (auto simp: embed_defs demo_grant_code_def split: prod.splits option.splits)
qed

theorem code_exchange_sound_witness:
  "\<exists>c code. authenticated (demo_cx 100) demo_exchange (demo_request demo_exchange) demo_server c
    \<and> exchangeable (demo_cx 100) demo_exchange (demo_request demo_exchange) c demo_server code"
proof -
  obtain body s' where e: "token_endpoint (demo_cx 100) (demo_request demo_exchange) demo_server = (ReplyJSON 200 body, s')"
    using demo_exchanged by blast
  have "rq_PostForm (demo_request demo_exchange) = Some demo_exchange"
    and "Form_Get ''grant_type'' demo_exchange (demo_request demo_exchange) = GrantAuthorizationCode"
    by (simp_all add: demo_request_def Form_Get_def values_at_def)
  from code_exchange_sound [OF e this] show ?thesis by blast
qed

end
