(* ===== verification/OAuth_Interaction.thy ===== *)
theory OAuth_Interaction
  imports OAuth_Endpoints
begin

text \<open>
  The OAuth pages a browser visits, from \<open>internal/platform/http/oauth.go\<close>, \<open>consent.go\<close>,
  \<open>device.go\<close> and \<open>auth.go\<close>: the authorization endpoint with its re-authentication marker, the consent
  decision, the device page and decision, and the two sign-outs. A handler returns the response with
  the cookies it sets and the server afterwards. The description in an error redirect is left out.
\<close>

section \<open>Redirects\<close>

definition redirectOAuthAuthorizationError :: "string \<Rightarrow> string \<Rightarrow> string \<Rightarrow> reply" where
  "redirectOAuthAuthorizationError redirectURI state code =
     (case Parse redirectURI of
        None \<Rightarrow> Problem 400 code
      | Some target \<Rightarrow>
          let query = Values_Set ''error'' code (URL_Query target);
              query1 = (if state \<noteq> [] then Values_Set ''state'' state query else query)
          in RedirectURL (target\<lparr>u_RawQuery := Encode query1\<rparr>))"

definition authenticationTooOld :: "time \<Rightarrow> time \<Rightarrow> int \<Rightarrow> bool" where
  "authenticationTooOld now authenticatedAt maxAge =
     (if authenticatedAt = 0 then True
      else if \<not> authenticatedAt < now then False
      else Unix now - Unix authenticatedAt > maxAge)"

section \<open>Re-authentication\<close>

text \<open>Before the user signs in again, the request is bound to a signed marker in a cookie; the marker is accepted with the
  same request and a sign-in later than the marker.\<close>

definition oauthAuthorizationFingerprint :: "request_context \<Rightarrow> Values \<Rightarrow> string" where
  "oauthAuthorizationFingerprint cx query =
     RawURLEncoding_EncodeToString (cx_sha256 cx (bytes_of (Encode (Values_Del ''certus_reauth'' query))))"

definition redirectOAuthCredentials :: "request_context \<Rightarrow> request \<Rightarrow> string \<Rightarrow> server \<Rightarrow> response \<times> server" where
  "redirectOAuthCredentials cx rq clientID s =
     (let query = Values_Del ''certus_reauth'' (rq_Query rq) in
      case Sign (cx_lib cx) (cx_now cx) (srv_keys s)
        [(''purpose'', JStr ''oauth_reauth''), (''fingerprint'', JStr (oauthAuthorizationFingerprint cx query)),
         (''issued_at'', JStr (cx_FormatNano cx (cx_now cx))), (''exp'', JInt (Unix (cx_now cx + 5 * minute)))]
        (srv_signer s) of
        (Inl _, sg) \<Rightarrow> (plain (Problem 500 ''server_error''), s\<lparr>srv_signer := sg\<rparr>)
      | (Inr marker, sg) \<Rightarrow>
          let returnTo = ''/oauth2/authorize?'' @ Encode (Values_Set ''certus_reauth'' marker query)
          in (\<lparr>rp_Reply = RedirectPath ''/login'' [(''continue'', [returnTo]), (''client_id'', [clientID])],
               rp_Cookies = [\<lparr>ck_Name = oauthReauthCookieName, ck_Value = marker, ck_MaxAge = 5 * 60\<rparr>]\<rparr>,
              s\<lparr>srv_signer := sg\<rparr>))"

definition reauth_claims_ok :: "request_context \<Rightarrow> request \<Rightarrow> time \<Rightarrow> claims \<Rightarrow> bool" where
  "reauth_claims_ok cx rq authenticatedAt cs =
     (case cx_ParseNano cx (claim_string ''issued_at'' cs) of
        None \<Rightarrow> False
      | Some issuedAt \<Rightarrow>
          claim_string ''purpose'' cs = ''oauth_reauth''
          \<and> claim_string ''fingerprint'' cs = oauthAuthorizationFingerprint cx (Values_Del ''certus_reauth'' (rq_Query rq))
          \<and> claim_int64 ''exp'' cs > Unix (cx_now cx)
          \<and> \<not> issuedAt > cx_now cx + 30 * second
          \<and> authenticatedAt > issuedAt)"

definition validOAuthReauthMarker :: "request_context \<Rightarrow> request \<Rightarrow> string \<Rightarrow> time \<Rightarrow> server \<Rightarrow> bool \<times> server" where
  "validOAuthReauthMarker cx rq marker authenticatedAt s =
     (if Cookie oauthReauthCookieName rq \<noteq> Some marker then (False, s)
      else case Verify (cx_lib cx) (cx_now cx) (srv_keys s) marker (srv_signer s) of
          (Inl _, sg) \<Rightarrow> (False, s\<lparr>srv_signer := sg\<rparr>)
        | (Inr cs, sg) \<Rightarrow> (reauth_claims_ok cx rq authenticatedAt cs, s\<lparr>srv_signer := sg\<rparr>))"

section \<open>Consent\<close>

definition requiresOAuthConsent :: "AuthorizationRequest \<Rightarrow> Session \<Rightarrow> server \<Rightarrow> bool" where
  "requiresOAuthConsent request current s =
     (if HasPrompt request ''consent'' then True
      else case FindConsent (se_UserID current) (ar_ClientID request) (srv_oauth s) of
          Inl _ \<Rightarrow> True
        | Inr consent \<Rightarrow> \<not> Covers consent (ar_Scope request))"

definition renderOAuthConsent ::
  "request_context \<Rightarrow> request \<Rightarrow> Client \<Rightarrow> AuthorizationRequest \<Rightarrow> Session \<Rightarrow> cookie list \<Rightarrow> server \<Rightarrow> response \<times> server" where
  "renderOAuthConsent cx rq registered request current cookies s =
     (case User_Find (se_UserID current) (srv_users s) of
        Inl _ \<Rightarrow> (\<lparr>rp_Reply = Problem 401 ''unauthorized'', rp_Cookies = cookies\<rparr>, s)
      | Inr user \<Rightarrow>
          if us_Status user \<noteq> UserActive then (\<lparr>rp_Reply = Problem 401 ''unauthorized'', rp_Cookies = cookies\<rparr>, s)
          else
            let encoded = Encode (Values_Del ''certus_reauth'' (rq_Query rq));
                requestURI = rq_Path rq @ (if encoded = [] then [] else ''?'' @ encoded)
            in case Sign (cx_lib cx) (cx_now cx) (srv_keys s)
                 [(''purpose'', JStr ''oauth_consent''), (''user_id'', JStr (se_UserID current)),
                  (''session_id'', JStr (se_ID current)), (''request_uri'', JStr requestURI),
                  (''iat'', JInt (Unix (cx_now cx))), (''exp'', JInt (Unix (cx_now cx + 5 * minute)))] (srv_signer s) of
                 (Inl _, sg) \<Rightarrow> (\<lparr>rp_Reply = Problem 500 ''server_error'', rp_Cookies = cookies\<rparr>, s\<lparr>srv_signer := sg\<rparr>)
               | (Inr transaction, sg) \<Rightarrow>
                   (render_with_csrf cx rq ''consent.html''
                      [(''Client'', JStr (cl_ID registered)), (''User'', JStr (us_ID user)), (''Scopes'', JStrs (ar_Scope request))]
                      (cookies @ [\<lparr>ck_Name = oauthConsentCookieName, ck_Value = transaction, ck_MaxAge = 5 * 60\<rparr>]),
                    s\<lparr>srv_signer := sg\<rparr>))"

section \<open>The authorization endpoint\<close>

definition issueAuthorizationCode ::
  "request_context \<Rightarrow> AuthorizationRequest \<Rightarrow> Session \<Rightarrow> cookie list \<Rightarrow> server \<Rightarrow> response \<times> server" where
  "issueAuthorizationCode cx request current cookies s =
     (case RandomToken 32 (cx_random cx 0) of
        Inl _ \<Rightarrow> (\<lparr>rp_Reply = Problem 500 ''server_error'', rp_Cookies = cookies\<rparr>, s)
      | Inr code \<Rightarrow>
          let s1 = s\<lparr>srv_oauth := snd (SaveAuthorizationCode
                \<lparr>ac_Hash = HashToken (cx_sha256 cx) code, ac_ClientID = ar_ClientID request, ac_UserID = se_UserID current,
                 ac_SessionID = se_ID current, ac_RedirectURI = ar_RedirectURI request, ac_Scope = ar_Scope request,
                 ac_Nonce = ar_Nonce request, ac_CodeChallenge = ar_CodeChallenge request,
                 ac_AuthenticatedAt = se_AuthenticatedAt current, ac_AuthMethods = se_AuthMethods current,
                 ac_AssuranceLevel = se_AssuranceLevel current, ac_CreatedAt = cx_now cx,
                 ac_ExpiresAt = cx_now cx + 5 * minute\<rparr> (srv_oauth s))\<rparr>
          in case Parse (ar_RedirectURI request) of
               None \<Rightarrow> (\<lparr>rp_Reply = Aborted, rp_Cookies = cookies\<rparr>, s1)
             | Some target \<Rightarrow>
                 (\<lparr>rp_Reply = RedirectURL (target\<lparr>u_RawQuery :=
                      Encode (Values_Set ''state'' (ar_State request) (Values_Set ''code'' code (URL_Query target)))\<rparr>),
                   rp_Cookies = cookies\<rparr>, s1))"

text \<open>The second half of \<open>authorize\<close>, once the user is authenticated recently enough.\<close>

definition authorize_authenticated ::
  "request_context \<Rightarrow> request \<Rightarrow> Client \<Rightarrow> AuthorizationRequest \<Rightarrow> Session \<Rightarrow> cookie list \<Rightarrow> server \<Rightarrow> response \<times> server" where
  "authorize_authenticated cx rq registered request current cookies s =
     (if requiresOAuthConsent request current s then
        (if HasPrompt request ''none''
         then (\<lparr>rp_Reply = redirectOAuthAuthorizationError (ar_RedirectURI request) (ar_State request) ''consent_required'',
                rp_Cookies = cookies\<rparr>, s)
         else renderOAuthConsent cx rq registered request current cookies s)
      else issueAuthorizationCode cx request current cookies s)"

definition login_required :: "AuthorizationRequest \<Rightarrow> server \<Rightarrow> response \<times> server" where
  "login_required request s =
     (plain (redirectOAuthAuthorizationError (ar_RedirectURI request) (ar_State request) ''login_required''), s)"

definition authorize_request :: "request_context \<Rightarrow> request \<Rightarrow> Client \<Rightarrow> AuthorizationRequest \<Rightarrow> server \<Rightarrow> response \<times> server" where
  "authorize_request cx rq registered request s =
     (case currentSession cx rq s of
        (current, s1) \<Rightarrow>
          let authenticatedAt = (case current of None \<Rightarrow> 0 | Some c \<Rightarrow> se_AuthenticatedAt c);
              stale = (case ar_MaxAge request of None \<Rightarrow> False | Some maxAge \<Rightarrow> authenticationTooOld (cx_now cx) authenticatedAt maxAge);
              marker = Get ''certus_reauth'' (rq_Query rq)
          in if marker \<noteq> [] then
               (case (case current of None \<Rightarrow> (False, s1) | Some c \<Rightarrow> validOAuthReauthMarker cx rq marker (se_AuthenticatedAt c) s1) of
                  (True, s2) \<Rightarrow>
                    authorize_authenticated cx rq registered request (the current) [clearCookie oauthReauthCookieName] s2
                | (False, s2) \<Rightarrow>
                    if HasPrompt request ''none'' then login_required request s2
                    else redirectOAuthCredentials cx rq (cl_ID registered) s2)
             else if HasPrompt request ''none'' then
               (case current of
                  None \<Rightarrow> login_required request s1
                | Some c \<Rightarrow> if stale then login_required request s1
                             else authorize_authenticated cx rq registered request c [] s1)
             else
               (case current of
                  None \<Rightarrow>
                    if \<not> HasPrompt request ''login'' \<and> (case ar_MaxAge request of None \<Rightarrow> True | Some maxAge \<Rightarrow> maxAge > 0)
                    then (plain (RedirectPath ''/login'' [(''continue'', [rq_RequestURI rq]), (''client_id'', [cl_ID registered])]), s1)
                    else redirectOAuthCredentials cx rq (cl_ID registered) s1
                | Some c \<Rightarrow>
                    if HasPrompt request ''login'' \<or> ar_MaxAge request = Some 0 \<or> stale
                    then redirectOAuthCredentials cx rq (cl_ID registered) s1
                    else authorize_authenticated cx rq registered request c [] s1))"

definition authorize :: "request_context \<Rightarrow> request \<Rightarrow> server \<Rightarrow> response \<times> server" where
  "authorize cx rq s =
     (case Client_Find (Get ''client_id'' (rq_Query rq)) (srv_clients s) of
        Inl _ \<Rightarrow> (plain (Problem 400 ''invalid_request''), s)
      | Inr registered \<Rightarrow>
          (case ParseAuthorizationRequest (rq_Query rq) registered of
             None \<Rightarrow>
               let redirectURI = Get ''redirect_uri'' (rq_Query rq) in
               if cl_Enabled registered \<and> SupportsOAuth registered \<and> AllowsRedirectURI registered redirectURI
               then (plain (redirectOAuthAuthorizationError redirectURI (Get ''state'' (rq_Query rq)) ''invalid_request''), s)
               else (plain (Problem 400 ''invalid_request''), s)
           | Some request \<Rightarrow> authorize_request cx rq registered request s))"

section \<open>The consent decision\<close>

definition consent_claims_ok :: "request_context \<Rightarrow> Session \<Rightarrow> claims \<Rightarrow> bool" where
  "consent_claims_ok cx current cs =
     (claim_string ''purpose'' cs = ''oauth_consent''
      \<and> claim_string ''user_id'' cs = se_UserID current
      \<and> claim_string ''session_id'' cs = se_ID current
      \<and> HasPrefix (claim_string ''request_uri'' cs) ''/oauth2/authorize?''
      \<and> claim_int64 ''exp'' cs > Unix (cx_now cx)
      \<and> claim_int64 ''iat'' cs \<le> Unix (cx_now cx) + 30)"

definition oauthConsentTransaction :: "request_context \<Rightarrow> request \<Rightarrow> Session \<Rightarrow> server \<Rightarrow> string option \<times> server" where
  "oauthConsentTransaction cx rq current s =
     (case Cookie oauthConsentCookieName rq of
        None \<Rightarrow> (None, s)
      | Some value \<Rightarrow>
          (case Verify (cx_lib cx) (cx_now cx) (srv_keys s) value (srv_signer s) of
             (Inl _, sg) \<Rightarrow> (None, s\<lparr>srv_signer := sg\<rparr>)
           | (Inr cs, sg) \<Rightarrow>
               (if consent_claims_ok cx current cs then Some (claim_string ''request_uri'' cs) else None, s\<lparr>srv_signer := sg\<rparr>)))"

text \<open>The request a transaction stands for: the address is parsed again, and so is the authorization request.\<close>

definition consented_request :: "string \<Rightarrow> server \<Rightarrow> string + Client \<times> AuthorizationRequest" where
  "consented_request requestURI s =
     (case ParseRequestURI requestURI of
        None \<Rightarrow> Inl ''invalid_consent_transaction''
      | Some target \<Rightarrow>
          if u_Path target \<noteq> ''/oauth2/authorize'' then Inl ''invalid_consent_transaction''
          else case Client_Find (Get ''client_id'' (URL_Query target)) (srv_clients s) of
              Inl _ \<Rightarrow> Inl ''invalid_client''
            | Inr registered \<Rightarrow>
                (case ParseAuthorizationRequest (URL_Query target) registered of
                   None \<Rightarrow> Inl ''invalid_request''
                 | Some request \<Rightarrow> Inr (registered, request)))"

definition consent_audit :: "request_context \<Rightarrow> request \<Rightarrow> string \<Rightarrow> Client \<Rightarrow> AuthorizationRequest \<Rightarrow> Session \<Rightarrow> server \<Rightarrow> server" where
  "consent_audit cx rq type registered request current s =
     recordAudit cx rq (audit_event (auditActor (se_UserID current)) type (auditClient (cl_ID registered)) OutcomeSuccess
       (Some [(''scopes'', JStrs (ar_Scope request))])) s"

definition decide_consent ::
  "request_context \<Rightarrow> request \<Rightarrow> string \<Rightarrow> Client \<Rightarrow> AuthorizationRequest \<Rightarrow> Session \<Rightarrow> server \<Rightarrow> response \<times> server" where
  "decide_consent cx rq choice registered request current s =
     (let clear = [clearCookie oauthConsentCookieName] in
      if choice = ''deny'' then
        (\<lparr>rp_Reply = redirectOAuthAuthorizationError (ar_RedirectURI request) (ar_State request) ''access_denied'', rp_Cookies = clear\<rparr>,
         consent_audit cx rq ''oauth.consent.denied'' registered request current s)
      else if choice = ''allow'' then
        let s1 = s\<lparr>srv_oauth := snd (GrantConsent (se_UserID current) (cl_ID registered) (ar_Scope request) (cx_now cx) (srv_oauth s))\<rparr>
        in issueAuthorizationCode cx request current clear (consent_audit cx rq ''oauth.consent.granted'' registered request current s1)
      else (\<lparr>rp_Reply = Problem 400 ''invalid_request'', rp_Cookies = clear\<rparr>, s))"

definition oauthConsentDecision :: "request_context \<Rightarrow> request \<Rightarrow> server \<Rightarrow> response \<times> server" where
  "oauthConsentDecision cx rq s =
     (case rq_PostForm rq of
        None \<Rightarrow> (plain (Problem 400 ''invalid_request''), s)
      | Some post \<Rightarrow>
          if \<not> validCSRF (Form_Get ''csrf_token'' post rq) rq then (plain (Problem 400 ''invalid_csrf''), s)
          else
            let refuse = (\<lambda>status code. \<lparr>rp_Reply = Problem status code, rp_Cookies = [clearCookie oauthConsentCookieName]\<rparr>) in
            case currentSession cx rq s of
              (None, s1) \<Rightarrow> (refuse 401 ''unauthorized'', s1)
            | (Some current, s1) \<Rightarrow>
                (case oauthConsentTransaction cx rq current s1 of
                   (None, s2) \<Rightarrow> (refuse 400 ''invalid_consent_transaction'', s2)
                 | (Some requestURI, s2) \<Rightarrow>
                     (case consented_request requestURI s2 of
                        Inl code \<Rightarrow> (refuse 400 code, s2)
                      | Inr (registered, request) \<Rightarrow>
                          decide_consent cx rq (Form_Get ''decision'' post rq) registered request current s2)))"

section \<open>The device pages\<close>

definition device_page_shown :: "string \<Rightarrow> (string \<times> json) list \<Rightarrow> (string \<times> json) list" where
  "device_page_shown userCode shown = (''UserCode'', JStr userCode) # shown"

definition devicePage :: "request_context \<Rightarrow> request \<Rightarrow> server \<Rightarrow> response \<times> server" where
  "devicePage cx rq s =
     (let userCode = displayUserCode (Get ''user_code'' (rq_Query rq));
          page = (\<lambda>shown. render_with_csrf cx rq ''device.html'' (device_page_shown userCode shown) [])
      in if userCode = [] then (page [], s)
         else case allowDeviceLookup cx rq s of
             (Some refusal, s1) \<Rightarrow> (plain refusal, s1)
           | (None, s1) \<Rightarrow>
               (case FindDeviceByUserCode (HashToken (cx_sha256 cx) (normalizeUserCode userCode)) (cx_now cx) (srv_oauth s1) of
                  Inl _ \<Rightarrow> (page [(''Error'', JStr ''invalid_code'')], s1)
                | Inr d \<Rightarrow>
                    (case Client_Find (da_ClientID d) (srv_clients s1) of
                       Inl _ \<Rightarrow> (page [(''Error'', JStr ''client_unavailable'')], s1)
                     | Inr registered \<Rightarrow>
                         if \<not> cl_Enabled registered then (page [(''Error'', JStr ''client_unavailable'')], s1)
                         else case currentSession cx rq s1 of
                             (None, s2) \<Rightarrow>
                               (plain (RedirectPath ''/login''
                                  [(''continue'', [''/device?user_code='' @ QueryEscape userCode]), (''client_id'', [cl_ID registered])]), s2)
                           | (Some _, s2) \<Rightarrow>
                               (page [(''Client'', JStr (cl_ID registered)), (''Scopes'', JStrs (da_Scope d))], s2))))"

definition deviceDecision :: "request_context \<Rightarrow> request \<Rightarrow> server \<Rightarrow> response \<times> server" where
  "deviceDecision cx rq s =
     (case rq_PostForm rq of
        None \<Rightarrow> (plain (Problem 400 ''invalid_request''), s)
      | Some post \<Rightarrow>
          if \<not> validCSRF (Form_Get ''csrf_token'' post rq) rq then (plain (Problem 400 ''invalid_csrf''), s)
          else
            let userCode = displayUserCode (Form_Get ''user_code'' post rq);
                action = Form_Get ''action'' post rq;
                page = (\<lambda>shown. render_with_csrf cx rq ''device.html'' (device_page_shown userCode shown) [])
            in if action = ''lookup'' then (plain (RedirectPath ''/device'' [(''user_code'', [userCode])]), s)
               else case currentSession cx rq s of
                   (None, s1) \<Rightarrow>
                     (plain (RedirectPath ''/login'' [(''continue'', [''/device?user_code='' @ QueryEscape userCode])]), s1)
                 | (Some current, s1) \<Rightarrow>
                     if action \<noteq> ''approve'' \<and> action \<noteq> ''deny'' then (plain (Problem 400 ''invalid_request''), s1)
                     else case DecideDeviceAuthorization (HashToken (cx_sha256 cx) (normalizeUserCode userCode)) (se_UserID current)
                            (se_AuthenticatedAt current) (se_AuthMethods current) (se_AssuranceLevel current)
                            (action = ''approve'') (cx_now cx) (srv_oauth s1) of
                         (Inl _, r) \<Rightarrow> (page [(''Error'', JStr ''invalid_code'')], s1\<lparr>srv_oauth := r\<rparr>)
                       | (Inr _, r) \<Rightarrow> (page [(''Done'', JBool (action = ''approve''))], s1\<lparr>srv_oauth := r\<rparr>))"

section \<open>Sign-out\<close>

definition revoke_session :: "request_context \<Rightarrow> string \<Rightarrow> server \<Rightarrow> server" where
  "revoke_session cx sid s = s\<lparr>srv_sessions := snd (Service_Revoke sid (cx_now cx) (srv_sessions s))\<rparr>"

definition logout :: "request_context \<Rightarrow> request \<Rightarrow> server \<Rightarrow> response \<times> server" where
  "logout cx rq s =
     (case rq_PostForm rq of
        None \<Rightarrow> (plain (Problem 400 ''invalid_request''), s)
      | Some post \<Rightarrow>
          if \<not> validCSRF (Form_Get ''csrf_token'' post rq) rq then (plain (Problem 400 ''invalid_csrf''), s)
          else
            let done_reply = \<lparr>rp_Reply = RedirectPath ''/login'' [], rp_Cookies = [clearCookie sessionCookieName]\<rparr> in
            case currentSession cx rq s of
              (None, s1) \<Rightarrow> (done_reply, s1)
            | (Some current, s1) \<Rightarrow>
                (done_reply,
                 recordAudit cx rq (audit_event (auditActor (se_UserID current)) ''logout'' None OutcomeSuccess
                     (Some [(''session_id'', JStr (se_ID current))]))
                   (snd (cleanupRevokedSessions cx [(se_ID current, se_UserID current)]
                     (revoke_session cx (se_ID current) s1)))))"

definition hint_claims_ok :: "request_context \<Rightarrow> claims \<Rightarrow> bool" where
  "hint_claims_ok cx cs =
     (let issuedAt = claim_int64 ''iat'' cs; expiration = claim_int64 ''exp'' cs; now = Unix (cx_now cx)
      in \<not> (claim_string ''iss'' cs \<noteq> cf_Issuer (cx_cfg cx) \<or> claim_string ''sub'' cs = [] \<or> claim_string ''aud'' cs = []
            \<or> issuedAt \<le> 0 \<or> expiration \<le> issuedAt \<or> issuedAt > now + 30 \<or> issuedAt < now - 24 * 60 * 60))"

definition validIDTokenHint :: "request_context \<Rightarrow> string \<Rightarrow> server \<Rightarrow> (Client \<times> string \<times> string) option \<times> server" where
  "validIDTokenHint cx hint s =
     (if hint = [] then (None, s)
      else case Verify (cx_lib cx) (cx_now cx) (srv_keys s) hint (srv_signer s) of
          (Inl _, sg) \<Rightarrow> (None, s\<lparr>srv_signer := sg\<rparr>)
        | (Inr cs, sg) \<Rightarrow>
            (if \<not> hint_claims_ok cx cs then None
             else case Client_Find (claim_string ''aud'' cs) (srv_clients s) of
                 Inl _ \<Rightarrow> None
               | Inr registered \<Rightarrow>
                   if \<not> SupportsOAuth registered then None
                   else Some (registered, claim_string ''sub'' cs, claim_string ''sid'' cs), s\<lparr>srv_signer := sg\<rparr>))"

text \<open>The address after sign-out: the login page, or a registered one with the state of the request.\<close>

definition post_logout_target :: "Client \<Rightarrow> string \<Rightarrow> string \<Rightarrow> reply option" where
  "post_logout_target registered redirectURI state =
     (if redirectURI = [] then Some (RedirectPath ''/login'' [])
      else if \<not> AllowsPostLogoutRedirectURI registered redirectURI then None
      else case Parse redirectURI of
          None \<Rightarrow> Some Aborted
        | Some target \<Rightarrow>
            Some (RedirectURL (if state = [] then target
              else target\<lparr>u_RawQuery := Encode (Values_Set ''state'' state (URL_Query target))\<rparr>)))"

definition oidc_logout_sessions :: "string \<Rightarrow> string \<Rightarrow> Session option \<Rightarrow> (string \<times> string) list" where
  "oidc_logout_sessions sessionID subject current =
     (if sessionID \<noteq> [] then [(sessionID, subject)] else [])
     @ (case current of
          None \<Rightarrow> []
        | Some c \<Rightarrow> if sessionID \<noteq> [] \<and> se_ID c = sessionID then [] else [(se_ID c, se_UserID c)])"

definition oidc_logout_finish ::
  "request_context \<Rightarrow> request \<Rightarrow> Client \<Rightarrow> string \<Rightarrow> string \<Rightarrow> reply \<Rightarrow> server \<Rightarrow> response \<times> server" where
  "oidc_logout_finish cx rq registered subject sessionID target s =
     (case currentSession cx rq s of
        (current, s1) \<Rightarrow>
          if (case current of None \<Rightarrow> False | Some c \<Rightarrow> se_UserID c \<noteq> subject) then (plain (Problem 400 ''invalid_request''), s1)
          else
            let sessions = oidc_logout_sessions sessionID subject current;
                s2 = fold (\<lambda>(sid, _). revoke_session cx sid) sessions s1;
                s3 = snd (cleanupRevokedSessions cx sessions s2)
            in (\<lparr>rp_Reply = target, rp_Cookies = [clearCookie sessionCookieName]\<rparr>,
                recordAudit cx rq (audit_event (auditActor subject) ''logout.oidc'' (auditClient (cl_ID registered)) OutcomeSuccess
                  (Some [(''session_id'', JStr sessionID)])) s3))"

definition oidcLogout :: "request_context \<Rightarrow> request \<Rightarrow> server \<Rightarrow> response \<times> server" where
  "oidcLogout cx rq s =
     (case (if rq_Method rq = ''POST'' then rq_PostForm rq else Some []) of
        None \<Rightarrow> (plain (Problem 400 ''invalid_request''), s)
      | Some post \<Rightarrow>
          (case validIDTokenHint cx (Form_Get ''id_token_hint'' post rq) s of
             (None, s1) \<Rightarrow> (plain (Problem 400 ''invalid_request''), s1)
           | (Some (registered, subject, sessionID), s1) \<Rightarrow>
               let clientID = Form_Get ''client_id'' post rq in
               if clientID \<noteq> [] \<and> clientID \<noteq> cl_ID registered then (plain (Problem 400 ''invalid_request''), s1)
               else case post_logout_target registered (Form_Get ''post_logout_redirect_uri'' post rq) (Form_Get ''state'' post rq) of
                   None \<Rightarrow> (plain (Problem 400 ''invalid_request''), s1)
                 | Some target \<Rightarrow> oidc_logout_finish cx rq registered subject sessionID target s1))"

section \<open>Published metadata\<close>

definition jwks :: "request_context \<Rightarrow> server \<Rightarrow> reply \<times> server" where
  "jwks cx s =
     (let sg = snd (Signer_Refresh (cx_lib cx) (cx_now cx) (srv_keys s) (srv_signer s))
      in (ReplyJSON 200 [(''keys'', JArr (map (\<lambda>key. JObj (map (\<lambda>(k, v). (k, JStr v)) key)) (JWKS sg)))], s\<lparr>srv_signer := sg\<rparr>))"

definition discovery :: "Config \<Rightarrow> reply" where
  "discovery cfg =
     (let at = (\<lambda>path. JStr (cf_Issuer cfg @ path)) in
      ReplyJSON 200
       [(''issuer'', JStr (cf_Issuer cfg)), (''authorization_endpoint'', at ''/oauth2/authorize''),
        (''token_endpoint'', at ''/oauth2/token''), (''introspection_endpoint'', at ''/oauth2/introspect''),
        (''revocation_endpoint'', at ''/oauth2/revoke''), (''device_authorization_endpoint'', at ''/oauth2/device_authorization''),
        (''userinfo_endpoint'', at ''/oauth2/userinfo''), (''end_session_endpoint'', at ''/oauth2/logout''),
        (''jwks_uri'', at ''/oauth2/jwks''), (''response_types_supported'', JStrs [''code'']),
        (''grant_types_supported'', JStrs [GrantAuthorizationCode, GrantRefreshToken, GrantClientCredentials, GrantDeviceCode]),
        (''token_endpoint_auth_methods_supported'', JStrs [''client_secret_basic'', ''client_secret_post'', ''none'']),
        (''introspection_endpoint_auth_methods_supported'', JStrs [''client_secret_basic'', ''client_secret_post'']),
        (''revocation_endpoint_auth_methods_supported'', JStrs [''client_secret_basic'', ''client_secret_post'', ''none'']),
        (''code_challenge_methods_supported'', JStrs [''S256'']),
        (''scopes_supported'', JStrs [''openid'', ''profile'', ''email'', ''roles'']),
        (''subject_types_supported'', JStrs [''public'']), (''id_token_signing_alg_values_supported'', JStrs [''RS256'']),
        (''acr_values_supported'', JStrs [''urn:certus:aal:1'', ''urn:certus:aal:2'']),
        (''claims_supported'', JStrs [''sub'', ''iss'', ''aud'', ''exp'', ''iat'', ''auth_time'', ''sid'', ''nonce'', ''acr'', ''amr'', ''name'',
          ''preferred_username'', ''email'', ''email_verified'', ''roles'', ''permissions'']),
        (''backchannel_logout_supported'', JBool True), (''backchannel_logout_session_supported'', JBool True),
        (''prompt_values_supported'', JStrs [''none'', ''login'', ''consent''])])"

end
