(* ===== verification/OAuth_Flows.thy ===== *)
theory OAuth_Flows
  imports OAuth_Security OAuth_Interaction
begin

text \<open>
  The OAuth requests as one machine. Each handler is shown to act on the server through calls of the
  repository methods only, and to issue codes and tokens only inside a session that is active when the
  request arrives; what the repositories promise for every sequence of calls then holds for every
  sequence of requests.
\<close>

section \<open>Requests as repository calls\<close>

definition reach :: "('op \<Rightarrow> bool) \<Rightarrow> ('s \<Rightarrow> 'op \<Rightarrow> 'r \<times> 's) \<Rightarrow> 's \<Rightarrow> 's \<Rightarrow> bool" where
  "reach ok step r r' = (\<exists>ops. list_all ok ops \<and> r' = final step r ops)"

lemma reach_refl [simp]: "reach ok step r r"
  unfolding reach_def by (rule exI [of _ "[]"]) simp

lemma reach_op: "ok op \<Longrightarrow> reach ok step r (snd (step r op))"
  unfolding reach_def by (rule exI [of _ "[op]"]) simp

lemma reach_trans: "reach ok step r r' \<Longrightarrow> reach ok step r' r'' \<Longrightarrow> reach ok step r r''"
  unfolding reach_def by (metis final_append list_all_append)

text \<open>The sessions codes and tokens may be issued for.\<close>

fun issues_within :: "(string \<Rightarrow> string \<Rightarrow> bool) \<Rightarrow> oauth_op \<Rightarrow> bool" where
  "issues_within P (OpSaveCode v) = P (ac_UserID v) (ac_SessionID v)"
| "issues_within P (OpSaveAccess v) = P (at_UserID v) (at_SessionID v)"
| "issues_within P (OpSaveRefresh v) = P (rt_UserID v) (rt_SessionID v)"
| "issues_within P _ = True"

fun no_creation :: "session_op \<Rightarrow> bool" where
  "no_creation (SesCreate _ _ _ _ _) = False"
| "no_creation _ = True"

abbreviation oauth_reach where "oauth_reach P \<equiv> reach (issues_within P) oauth_step"
abbreviation session_reach where "session_reach \<equiv> reach no_creation session_step"

lemmas oauth_reach_rules =
  reach_op [of "issues_within P" "OpSaveCode v" oauth_step r, simplified] reach_op [of "issues_within P" "OpConsumeCode h c u ch now" oauth_step r, simplified]
  reach_op [of "issues_within P" "OpSaveAccess a" oauth_step r, simplified] reach_op [of "issues_within P" "OpRevokeAccess h c now" oauth_step r, simplified]
  reach_op [of "issues_within P" "OpSaveRefresh t" oauth_step r, simplified] reach_op [of "issues_within P" "OpRotate h t now" oauth_step r, simplified]
  reach_op [of "issues_within P" "OpRevokeRefresh h c now" oauth_step r, simplified] reach_op [of "issues_within P" "OpSaveDevice d" oauth_step r, simplified]
  reach_op [of "issues_within P" "OpDecideDevice h u at ms al ok now" oauth_step r, simplified]
  reach_op [of "issues_within P" "OpPollDevice h c now" oauth_step r, simplified] reach_op [of "issues_within P" "OpSaveOIDC o'" oauth_step r, simplified]
  reach_op [of "issues_within P" "OpDeleteOIDC sid" oauth_step r, simplified] reach_op [of "issues_within P" "OpRevokeSession u sid now" oauth_step r, simplified]
  reach_op [of "issues_within P" "OpGrantConsent u c scopes now" oauth_step r, simplified]
  for P v a t d o' h c u ch now at ms al ok sid scopes r

lemmas session_reach_rules =
  reach_op [of no_creation "SesFind h now" session_step r, simplified] reach_op [of no_creation "SesRevoke sid now" session_step r, simplified]
  for h sid now r

lemma oauth_reach_results:
  "ConsumeAuthorizationCode h c u ch now r = (x, r') \<Longrightarrow> oauth_reach P r r'"
  "RotateRefreshToken h t now r = (y, r') \<Longrightarrow> oauth_reach P r r'"
  "PollDeviceAuthorization h c now r = (z, r') \<Longrightarrow> oauth_reach P r r'"
  "DecideDeviceAuthorization h u at ms al ok now r = (e, r') \<Longrightarrow> oauth_reach P r r'"
  "SaveAccessToken v r = (w, r') \<Longrightarrow> P (at_UserID v) (at_SessionID v) \<Longrightarrow> oauth_reach P r r'"
  by (metis oauth_reach_rules snd_conv)+

lemma session_reach_Find: "Session_Find h now r = (x, r') \<Longrightarrow> session_reach r r'"
  by (metis session_reach_rules(1) snd_conv)

text \<open>What a handler may do to the server: it acts on grants and sessions through calls, and leaves users, clients, roles and
  keys alone.\<close>

definition acts :: "(string \<Rightarrow> string \<Rightarrow> bool) \<Rightarrow> server \<Rightarrow> server \<Rightarrow> bool" where
  "acts P s s' = (oauth_reach P (srv_oauth s) (srv_oauth s')
     \<and> session_reach (ss_repository (srv_sessions s)) (ss_repository (srv_sessions s'))
     \<and> srv_users s' = srv_users s \<and> srv_clients s' = srv_clients s \<and> srv_access s' = srv_access s \<and> srv_keys s' = srv_keys s)"

lemma acts_refl [simp]: "acts P s s"
  by (simp add: acts_def)

lemma acts_trans [trans]: "acts P s s' \<Longrightarrow> acts P s' s'' \<Longrightarrow> acts P s s''"
  unfolding acts_def by (auto intro: reach_trans)

lemma acts_other [simp]:
  "acts P s (s'\<lparr>srv_rateLimits := l\<rparr>) = acts P s s'" "acts P s (s'\<lparr>srv_audit := a\<rparr>) = acts P s s'"
  "acts P s (s'\<lparr>srv_signer := sg\<rparr>) = acts P s s'" "acts P s (s'\<lparr>srv_cas := x\<rparr>) = acts P s s'"
  "acts P (s\<lparr>srv_rateLimits := l\<rparr>) s' = acts P s s'"
  by (simp_all add: acts_def)

lemma acts_oauth: "oauth_reach P (srv_oauth s) r \<Longrightarrow> acts P s (s\<lparr>srv_oauth := r\<rparr>)"
  by (simp add: acts_def)

lemma acts_oauth_after: "acts P s s' \<Longrightarrow> oauth_reach P (srv_oauth s') r \<Longrightarrow> acts P s (s'\<lparr>srv_oauth := r\<rparr>)"
  by (rule acts_trans [OF _ acts_oauth])

lemma acts_sessions_after:
  "acts P s s' \<Longrightarrow> session_reach (ss_repository (srv_sessions s')) (ss_repository ss) \<Longrightarrow> acts P s (s'\<lparr>srv_sessions := ss\<rparr>)"
  by (rule acts_trans [of _ _ s']) (simp_all add: acts_def)

lemma acts_allow:
  "acts P s (snd (allowRateLimitedRequest cx scope subject policy oauthStyle s))"
  using allowRateLimitedRequest_frame [of cx scope subject policy oauthStyle s] by auto

lemma allowOAuthAttempt_cases:
  obtains x l where "allowOAuthAttempt cx rq s = (x, s\<lparr>srv_rateLimits := l\<rparr>)"
  using allowRateLimitedRequest_frame [of cx "''oauth.source''" "rq_IPAddress rq" "rl_OAuth (cf_RateLimits (cx_cfg cx))" True s]
  by (cases "allowOAuthAttempt cx rq s") (auto simp: allowOAuthAttempt_def)

lemma acts_recordAudit: "acts P s s' \<Longrightarrow> acts P s (recordAudit cx rq event s')"
  by (auto simp: recordAudit_def Let_def split: option.splits sum.splits)

lemma acts_currentSession: "acts P s (snd (currentSession cx rq s))"
  by (auto simp: currentSession_def Service_Find_def Let_def split: option.splits prod.splits sum.splits
      intro!: acts_sessions_after session_reach_Find)

lemma currentSession_acts: "currentSession cx rq s = (c, s') \<Longrightarrow> acts P s s'"
  using acts_currentSession [of P s cx rq] by simp

section \<open>The endpoints of clients\<close>

text \<open>The sessions in which a request may issue: none at all, or one that is active.\<close>

definition in_session :: "request_context \<Rightarrow> server \<Rightarrow> string \<Rightarrow> string \<Rightarrow> bool" where
  "in_session cx s u sid = (sid = [] \<or> Session_IsActive u sid (cx_now cx) (ss_repository (srv_sessions s)))"

lemma in_session_Nil [simp]: "in_session cx s u []"
  by (simp add: in_session_def)

lemma grant_in_session: "validateOAuthUserGrant cx u c sid scopes s = Some user \<Longrightarrow> in_session cx s u sid"
  by (auto simp: validateOAuthUserGrant_def in_session_def Service_IsActive_def split: sum.splits if_splits)

lemma in_session_cong:
  "srv_sessions s' = srv_sessions s \<Longrightarrow> in_session cx s' = in_session cx s"
  by (simp add: in_session_def fun_eq_iff)

lemma acts_issueAccessToken:
  assumes "P userID sessionID"
  shows "acts P s (snd (issueAccessToken cx random c userID sessionID familyID scopes s))"
  using assms by (auto simp: issueAccessToken_def split: sum.splits prod.splits intro!: acts_oauth oauth_reach_results(5))

lemma acts_issue_id_token:
  "acts P s (snd (issue_id_token cx c user userID sessionID scopes nonce at am al response s))"
  by (auto simp: issue_id_token_def Let_def split: sum.splits prod.splits intro!: acts_oauth_after oauth_reach_rules)

lemma acts_save_refresh:
  "P userID sessionID \<Longrightarrow> acts P s (save_refresh cx c raw familyID userID sessionID scopes s)"
  unfolding save_refresh_def by (intro acts_oauth oauth_reach_rules) simp

lemma acts_issueUserTokens:
  "acts (in_session cx s) s (snd (issueUserTokens cx c userID sessionID scopes nonce at am al s))"
proof (cases "validateOAuthUserGrant cx userID (cl_ID c) sessionID scopes s")
  case None
  then show ?thesis by (simp add: issueUserTokens_def)
next
  case (Some user)
  let ?P = "in_session cx s"
  have P: "?P userID sessionID" using Some by (rule grant_in_session)
  show ?thesis
  proof (cases "new_family cx c")
    case None
    with Some show ?thesis by (simp add: issueUserTokens_def)
  next
    case (Some f)
    obtain refreshRaw familyID where f: "f = (refreshRaw, familyID)" by (cases f)
    obtain res s1 where i: "issueAccessToken cx (cx_random cx 2) c userID sessionID familyID scopes s = (res, s1)" by fastforce
    have s1: "acts ?P s s1" using acts_issueAccessToken [of ?P userID sessionID s cx "cx_random cx 2" c familyID scopes] P i by simp
    define s2 where "s2 = (if refreshRaw = [] then s1 else save_refresh cx c refreshRaw familyID userID sessionID scopes s1)"
    have s2: "acts ?P s s2" unfolding s2_def using s1 acts_trans [OF s1 acts_save_refresh] P by simp
    show ?thesis
    proof (cases res)
      case None
      with i Some f s1 \<open>validateOAuthUserGrant cx userID (cl_ID c) sessionID scopes s = Some user\<close> show ?thesis
        by (simp add: issueUserTokens_def)
    next
      case r: (Some response)
      have "snd (issueUserTokens cx c userID sessionID scopes nonce at am al s) =
          (if ''openid'' \<in> set scopes
           then snd (issue_id_token cx c user userID sessionID scopes nonce at am al
                  (if refreshRaw = [] then response else map_put ''refresh_token'' (JStr refreshRaw) response) s2)
           else s2)"
        using i Some f r \<open>validateOAuthUserGrant cx userID (cl_ID c) sessionID scopes s = Some user\<close>
        by (simp add: issueUserTokens_def s2_def Let_def)
      with s2 acts_trans [OF s2 acts_issue_id_token] show ?thesis by simp
    qed
  qed
qed

lemma acts_issueUserTokens_after:
  assumes "acts (in_session cx s) s s1" and "srv_sessions s1 = srv_sessions s"
  shows "acts (in_session cx s) s (snd (issueUserTokens cx c userID sessionID scopes nonce at am al s1))"
  using acts_trans [OF assms(1)] acts_issueUserTokens [of cx s1] in_session_cong [OF assms(2)] by metis

lemma snd_case_reply [simp]:
  "snd (case x of (None, s1) \<Rightarrow> (rep, s1) | (Some b, s1) \<Rightarrow> (g b, s1)) = snd x"
  by (cases x) (simp split: option.splits)

lemma acts_authorizationCodeToken: "acts (in_session cx s) s (snd (authorizationCodeToken cx post rq c s))"
  by (auto simp: authorizationCodeToken_def Let_def split: sum.splits prod.splits
      intro!: acts_issueUserTokens_after acts_oauth oauth_reach_results(1))

lemma acts_deviceCodeToken: "acts (in_session cx s) s (snd (deviceCodeToken cx post rq c s))"
  by (auto simp: deviceCodeToken_def Let_def split: sum.splits prod.splits
      intro!: acts_issueUserTokens_after acts_oauth oauth_reach_results(3))

lemma acts_clientCredentialsToken: "acts (in_session cx s) s (snd (clientCredentialsToken cx post rq c s))"
  by (auto simp: clientCredentialsToken_def Let_def split: option.splits
      intro!: acts_issueAccessToken)

lemma acts_refreshed: "acts (in_session cx s) s (snd (refreshed cx c raw scopes current s))"
proof -
  define scopes' where "scopes' = (case scopes of None \<Rightarrow> elems (rt_Scope current) | Some xs \<Rightarrow> xs)"
  define give_up where "give_up = (\<lambda>s :: server. s\<lparr>srv_oauth := snd (RevokeRefreshToken (HashToken (cx_sha256 cx) raw) (cl_ID c) (cx_now cx) (srv_oauth s))\<rparr>)"
  have g: "acts (in_session cx s) s s1 \<Longrightarrow> acts (in_session cx s) s (give_up s1)" for s1
    unfolding give_up_def by (intro acts_oauth_after oauth_reach_rules)
  show ?thesis
  proof (cases "validateOAuthUserGrant cx (rt_UserID current) (rt_ClientID current) (rt_SessionID current) scopes' s")
    case None
    then show ?thesis using g [of s] by (simp add: refreshed_def scopes'_def give_up_def)
  next
    case (Some user)
    obtain res s1 where i: "issueAccessToken cx (cx_random cx 2) c (rt_UserID current) (rt_SessionID current) (rt_FamilyID current) scopes' s = (res, s1)"
      by fastforce
    have "acts (in_session cx s) s s1"
      using acts_issueAccessToken [of "in_session cx s" "rt_UserID current" "rt_SessionID current" s cx "cx_random cx 2" c "rt_FamilyID current" scopes']
        grant_in_session [OF Some] i by simp
    with g [of s1] Some i show ?thesis
      by (cases res) (simp_all add: refreshed_def scopes'_def give_up_def)
  qed
qed

lemma acts_refreshed_after:
  assumes "acts (in_session cx s) s s1" and "srv_sessions s1 = srv_sessions s"
  shows "acts (in_session cx s) s (snd (refreshed cx c raw scopes current s1))"
  using acts_trans [OF assms(1)] acts_refreshed [of cx s1] in_session_cong [OF assms(2)] by metis

lemma acts_refreshToken: "acts (in_session cx s) s (snd (refreshToken cx post rq c s))"
proof -
  have "acts (in_session cx s) s (snd (case RotateRefreshToken h t now (srv_oauth s) of
      (Inl ErrInvalidScope, r) \<Rightarrow> (rep1, s\<lparr>srv_oauth := r\<rparr>)
    | (Inl _, r) \<Rightarrow> (rep2, s\<lparr>srv_oauth := r\<rparr>)
    | (Inr current, r) \<Rightarrow> refreshed cx c raw scopes current (s\<lparr>srv_oauth := r\<rparr>)))" for h t now rep1 rep2 raw scopes
  proof (cases "RotateRefreshToken h t now (srv_oauth s)")
    case (Pair res r)
    then have r: "oauth_reach (in_session cx s) (srv_oauth s) r" by (rule oauth_reach_results(2))
    then show ?thesis unfolding Pair
      by (cases res) (auto intro!: acts_oauth acts_refreshed_after split: oauth_error.splits)
  qed
  then show ?thesis by (auto simp: refreshToken_def Let_def split: option.splits sum.splits)
qed

lemma acts_with_form:
  assumes "\<And>post l. acts P s (snd (handle post (s\<lparr>srv_rateLimits := l\<rparr>)))"
  shows "acts P s (snd (with_form cx rq handle s))"
proof -
  obtain x l where "allowOAuthAttempt cx rq s = (x, s\<lparr>srv_rateLimits := l\<rparr>)" by (rule allowOAuthAttempt_cases)
  with assms show ?thesis
    by (auto simp: with_form_def split: option.splits prod.splits)
qed

lemma in_session_limits [simp]: "in_session cx (s\<lparr>srv_rateLimits := l\<rparr>) = in_session cx s"
  by (rule in_session_cong) simp

lemma acts_limits:
  "(\<And>s. acts (in_session cx s) s (snd (h s))) \<Longrightarrow> acts (in_session cx s) s (snd (h (s\<lparr>srv_rateLimits := l\<rparr>)))"
  by (metis acts_other(5) in_session_limits)

lemma acts_grant_token: "acts (in_session cx s) s (snd (grant_token cx post rq c s))"
  by (simp add: grant_token_def Let_def acts_authorizationCodeToken acts_refreshToken acts_clientCredentialsToken acts_deviceCodeToken)

lemma acts_token_endpoint: "acts (in_session cx s) s (snd (token_endpoint cx rq s))"
  unfolding token_endpoint_def
  by (rule acts_with_form) (auto split: sum.split intro: acts_limits acts_grant_token)

lemma acts_introspect: "acts (in_session cx s) s (snd (introspect cx rq s))"
  unfolding introspect_def by (rule acts_with_form) (auto simp: Let_def split: sum.split)

lemma oauth_reach_revoke_token: "oauth_reach P r (revoke_token cx raw hint c r)"
proof -
  let ?h = "HashToken (cx_sha256 cx) raw"
  obtain x r1 where a: "RevokeAccessToken ?h (cl_ID c) (cx_now cx) r = (x, r1)" by fastforce
  obtain y r2 where b: "RevokeRefreshToken ?h (cl_ID c) (cx_now cx) r = (y, r2)" by fastforce
  have "oauth_reach P r r1" "oauth_reach P r r2"
    using oauth_reach_rules(4) [of P r ?h "cl_ID c" "cx_now cx"] oauth_reach_rules(7) [of P r ?h "cl_ID c" "cx_now cx"] a b by auto
  then show ?thesis using a b
    by (auto simp: revoke_token_def Let_def intro: reach_trans oauth_reach_rules split: sum.splits)
qed

lemma acts_revokeToken: "acts (in_session cx s) s (snd (revokeToken cx rq s))"
  unfolding revokeToken_def
  by (rule acts_with_form) (auto simp: Let_def intro!: acts_oauth_after oauth_reach_revoke_token split: sum.split)

lemma acts_userinfo: "acts P s (snd (userinfo cx rq s))"
proof -
  obtain x l where l: "allowOAuthAttempt cx rq s = (x, s\<lparr>srv_rateLimits := l\<rparr>)" by (rule allowOAuthAttempt_cases)
  have "snd (userinfo cx rq s) = s\<lparr>srv_rateLimits := l\<rparr>"
    unfolding userinfo_def l Let_def prod.case
    by (simp only: snd_conv option.case prod.case split: option.split sum.split if_split) simp
  then show ?thesis by simp
qed

lemma acts_deviceAuthorization: "acts (in_session cx s) s (snd (deviceAuthorization cx code rq s))"
  unfolding deviceAuthorization_def
  by (rule acts_with_form)
    (auto simp: start_device_def Let_def intro!: acts_oauth_after oauth_reach_rules split: sum.split option.split)

section \<open>The pages\<close>

abbreviation srv_sessions_ok :: "server \<Rightarrow> bool" where
  "srv_sessions_ok s \<equiv> sessions_ok (ss_repository (srv_sessions s))"

lemma currentSession_active:
  assumes "srv_sessions_ok s" and "currentSession cx rq s = (Some c, s')"
  shows "in_session cx s (se_UserID c) (se_ID c)"
proof -
  from assms(2) obtain h r where "Session_Find h (cx_now cx) (ss_repository (srv_sessions s)) = (Inr c, r)"
    by (auto simp: currentSession_def Service_Find_def Let_def split: option.splits sum.splits prod.splits if_splits)
  with assms(1) show ?thesis
    by (auto simp: Session_Find_def Let_def in_session_def Session_IsActive_def Session.truncate_def
        dest: find_SomeD dest!: sessions_ok_found split: option.splits)
qed

lemma acts_issueAuthorizationCode:
  "P (se_UserID c) (se_ID c) \<Longrightarrow> acts P s (snd (issueAuthorizationCode cx request c cookies s))"
  by (auto simp: issueAuthorizationCode_def Let_def split: sum.split option.split intro!: acts_oauth oauth_reach_rules(1))

lemma acts_signing:
  "acts P s (snd (redirectOAuthCredentials cx rq clientID s))"
  "acts P s (snd (renderOAuthConsent cx rq registered request c cookies s))"
  "acts P s (snd (validOAuthReauthMarker cx rq marker at s))"
  "acts P s (snd (oauthConsentTransaction cx rq c s))"
  "acts P s (snd (validIDTokenHint cx hint s))"
  "acts P s (snd (login_required request s))"
  by (auto simp: redirectOAuthCredentials_def renderOAuthConsent_def validOAuthReauthMarker_def login_required_def
      oauthConsentTransaction_def validIDTokenHint_def Let_def split: sum.split prod.split option.split)

lemma acts_authorize_authenticated:
  "P (se_UserID c) (se_ID c) \<Longrightarrow> acts P s (snd (authorize_authenticated cx rq registered request c cookies s))"
  by (simp add: authorize_authenticated_def acts_signing acts_issueAuthorizationCode)

lemma acts_authorize_request:
  assumes "srv_sessions_ok s"
  shows "acts (in_session cx s) s (snd (authorize_request cx rq registered request s))"
proof -
  let ?P = "in_session cx s"
  obtain current s1 where cs: "currentSession cx rq s = (current, s1)" by fastforce
  have s1: "acts ?P s s1" using cs by (rule currentSession_acts)
  have P: "?P (se_UserID c) (se_ID c)" if "current = Some c" for c
    using currentSession_active [OF assms] cs that by simp
  define marked where "marked = (case current of None \<Rightarrow> (False, s1)
    | Some c \<Rightarrow> validOAuthReauthMarker cx rq (Get ''certus_reauth'' (rq_Query rq)) (se_AuthenticatedAt c) s1)"
  obtain b s2 where m: "marked = (b, s2)" by fastforce
  have s2: "acts ?P s s2"
    using m s1 acts_trans [OF s1 acts_signing(3)] by (auto simp: marked_def split: option.splits) (metis snd_conv)
  have b: "b \<Longrightarrow> \<exists>c. current = Some c" using m by (auto simp: marked_def split: option.splits)
  note rules = acts_trans [OF s1 acts_signing(1)] acts_trans [OF s2 acts_signing(1)] acts_trans [OF s1 acts_signing(6)]
    acts_trans [OF s2 acts_signing(6)] acts_trans [OF s1 acts_authorize_authenticated] acts_trans [OF s2 acts_authorize_authenticated]
  have "snd (authorize_request cx rq registered request s) =
    snd (if Get ''certus_reauth'' (rq_Query rq) \<noteq> [] then
       (if b then authorize_authenticated cx rq registered request (the current) [clearCookie oauthReauthCookieName] s2
        else if HasPrompt request ''none'' then login_required request s2 else redirectOAuthCredentials cx rq (cl_ID registered) s2)
     else snd_rest)" if "snd_rest = (let authenticatedAt = (case current of None \<Rightarrow> 0 | Some c \<Rightarrow> se_AuthenticatedAt c);
              stale = (case ar_MaxAge request of None \<Rightarrow> False | Some maxAge \<Rightarrow> authenticationTooOld (cx_now cx) authenticatedAt maxAge) in
       if HasPrompt request ''none'' then
               (case current of
                  None \<Rightarrow> login_required request s1
                | Some c \<Rightarrow> if stale then login_required request s1
                             else authorize_authenticated cx rq registered request c [] s1)
             else
               (case current of
                  None \<Rightarrow>
                    if \<not> HasPrompt request ''login'' \<and> (case ar_MaxAge request of None \<Rightarrow> True | Some maxAge \<Rightarrow> maxAge > 0)
                    then (plain (RedirectPath ''/login'' [(''continue'', [rq_RequestURI rq]), (''client_id'', [cl_ID registered])]), s1)
                    else redirectOAuthCredentials cx rq (cl_ID registered) s1
                | Some c \<Rightarrow>
                    if HasPrompt request ''login'' \<or> ar_MaxAge request = Some 0 \<or> stale
                    then redirectOAuthCredentials cx rq (cl_ID registered) s1
                    else authorize_authenticated cx rq registered request c [] s1))" for snd_rest
    unfolding that authorize_request_def cs using m by (simp add: marked_def Let_def split: bool.splits)
  then show ?thesis using b P s1 s2 rules
    by (cases current) (auto simp: Let_def)
qed

lemma acts_authorize:
  "srv_sessions_ok s \<Longrightarrow> acts (in_session cx s) s (snd (authorize cx rq s))"
  by (auto simp: authorize_def Let_def split: sum.split option.split intro: acts_authorize_request)

lemma acts_decide_consent:
  assumes "P (se_UserID c) (se_ID c)"
  shows "acts P s (snd (decide_consent cx rq choice registered request c s))"
  using assms
  by (auto simp: decide_consent_def consent_audit_def Let_def
      intro!: acts_recordAudit acts_oauth oauth_reach_rules acts_trans [OF _ acts_issueAuthorizationCode])

lemma acts_oauthConsentDecision:
  assumes "srv_sessions_ok s"
  shows "acts (in_session cx s) s (snd (oauthConsentDecision cx rq s))"
proof (cases "rq_PostForm rq")
  case None
  then show ?thesis by (simp add: oauthConsentDecision_def)
next
  case (Some post)
  let ?P = "in_session cx s"
  obtain current s1 where cs: "currentSession cx rq s = (current, s1)" by fastforce
  have s1: "acts ?P s s1" using cs by (rule currentSession_acts)
  show ?thesis
  proof (cases current)
    case None
    with Some cs s1 show ?thesis by (simp add: oauthConsentDecision_def)
  next
    case c: (Some c)
    have P: "?P (se_UserID c) (se_ID c)" using currentSession_active [OF assms] cs c by simp
    obtain t s2 where t: "oauthConsentTransaction cx rq c s1 = (t, s2)" by fastforce
    have s2: "acts ?P s s2" using acts_trans [OF s1 acts_signing(4)] t by (metis snd_conv)
    show ?thesis using Some cs c t s1 s2 P
      by (auto simp: oauthConsentDecision_def Let_def split: option.split sum.split
          intro: acts_trans [OF s2 acts_decide_consent])
  qed
qed

lemma acts_devicePage: "acts P s (snd (devicePage cx rq s))"
proof -
  obtain x l where l: "allowDeviceLookup cx rq s = (x, s\<lparr>srv_rateLimits := l\<rparr>)"
    using allowRateLimitedRequest_frame [of cx "''device.source''" "rq_IPAddress rq" "rl_Device (cf_RateLimits (cx_cfg cx))" False s]
    by (cases "allowDeviceLookup cx rq s") (auto simp: allowDeviceLookup_def)
  obtain c s2 where cs: "currentSession cx rq (s\<lparr>srv_rateLimits := l\<rparr>) = (c, s2)" by fastforce
  have "acts P s s2" using currentSession_acts [OF cs, of P] by simp
  then show ?thesis
    unfolding devicePage_def l Let_def prod.case cs
    by (simp split: option.split sum.split)
qed

lemma acts_deviceDecision: "acts P s (snd (deviceDecision cx rq s))"
proof -
  obtain c s1 where cs: "currentSession cx rq s = (c, s1)" by fastforce
  have s1: "acts P s s1" using cs by (rule currentSession_acts)
  show ?thesis
  proof (cases "rq_PostForm rq")
    case (Some post)
    show ?thesis unfolding deviceDecision_def Some Let_def option.case cs prod.case
      using s1 by (auto split: option.split sum.split prod.split intro!: acts_oauth_after [OF s1] oauth_reach_results(4))
  qed (simp add: deviceDecision_def)
qed

lemma acts_revoke_session: "acts P s s' \<Longrightarrow> acts P s (revoke_session cx sid s')"
  unfolding revoke_session_def
  by (erule acts_sessions_after) (auto simp: Service_Revoke_def Let_def case_prod_beta intro: session_reach_rules)

lemma acts_fold: "(\<And>x s'. acts P s s' \<Longrightarrow> acts P s (f x s')) \<Longrightarrow> acts P s s' \<Longrightarrow> acts P s (fold f xs s')"
  by (induction xs arbitrary: s') auto

lemma acts_cleanup_session: "acts P s s' \<Longrightarrow> acts P s (cleanup_session cx current s')"
  by (auto simp: cleanup_session_def Let_def intro!: acts_oauth_after oauth_reach_rules)

lemma reach_fold: "(\<And>x r. reach ok step r (f x r)) \<Longrightarrow> reach ok step r (fold f xs r)"
  by (induction xs arbitrary: r) (auto intro: reach_trans)

lemma acts_cleanupRevokedSessions: "acts P s s' \<Longrightarrow> acts P s (snd (cleanupRevokedSessions cx sessions s'))"
  unfolding cleanupRevokedSessions_def notifyOIDCBackchannelLogout_def Let_def snd_conv
  by (intro acts_oauth_after acts_fold acts_cleanup_session reach_fold)
    (auto simp: case_prod_beta intro: oauth_reach_rules)

lemma acts_logout: "acts P s (snd (logout cx rq s))"
proof -
  obtain c s1 where cs: "currentSession cx rq s = (c, s1)" by fastforce
  have s1: "acts P s s1" using cs by (rule currentSession_acts)
  show ?thesis
  proof (cases "rq_PostForm rq")
    case (Some post)
    show ?thesis unfolding logout_def Some Let_def option.case cs prod.case
      using s1 by (auto split: option.split intro!: acts_recordAudit acts_cleanupRevokedSessions acts_revoke_session)
  qed (simp add: logout_def)
qed

lemma acts_oidc_logout_finish:
  assumes "acts P s0 s"
  shows "acts P s0 (snd (oidc_logout_finish cx rq registered subject sessionID target s))"
proof -
  obtain c s1 where cs: "currentSession cx rq s = (c, s1)" by fastforce
  have s1: "acts P s0 s1" using acts_trans [OF assms] cs currentSession_acts by blast
  show ?thesis unfolding oidc_logout_finish_def cs prod.case Let_def
    using s1 by (auto intro!: acts_recordAudit acts_cleanupRevokedSessions acts_fold acts_revoke_session simp: case_prod_beta)
qed

lemma acts_oidcLogout: "acts P s (snd (oidcLogout cx rq s))"
proof (cases "if rq_Method rq = ''POST'' then rq_PostForm rq else Some []")
  case (Some post)
  obtain h s1 where h: "validIDTokenHint cx (Form_Get ''id_token_hint'' post rq) s = (h, s1)" by fastforce
  have s1: "acts P s s1" using acts_signing(5) [of P s cx "Form_Get ''id_token_hint'' post rq"] h by simp
  show ?thesis unfolding oidcLogout_def Some option.case h prod.case Let_def
    using s1 by (auto split: option.split prod.split intro: acts_oidc_logout_finish)
next
  case None
  then show ?thesis unfolding oidcLogout_def None by simp
qed

section \<open>The machine\<close>

datatype oauth_handler =
    TokenEndpoint | Introspect | RevokeToken | Userinfo | StartDevice "string option"
  | Authorize | ConsentDecision | DevicePage | DeviceDecision | Logout | OIDCLogout | Jwks

fun serve :: "server \<Rightarrow> oauth_handler \<times> request_context \<times> request \<Rightarrow> response \<times> server" where
  "serve s (TokenEndpoint, cx, rq) = apfst plain (token_endpoint cx rq s)"
| "serve s (Introspect, cx, rq) = apfst plain (introspect cx rq s)"
| "serve s (RevokeToken, cx, rq) = apfst plain (revokeToken cx rq s)"
| "serve s (Userinfo, cx, rq) = apfst plain (userinfo cx rq s)"
| "serve s (StartDevice code, cx, rq) = apfst plain (deviceAuthorization cx code rq s)"
| "serve s (Authorize, cx, rq) = authorize cx rq s"
| "serve s (ConsentDecision, cx, rq) = oauthConsentDecision cx rq s"
| "serve s (DevicePage, cx, rq) = devicePage cx rq s"
| "serve s (DeviceDecision, cx, rq) = deviceDecision cx rq s"
| "serve s (Logout, cx, rq) = logout cx rq s"
| "serve s (OIDCLogout, cx, rq) = oidcLogout cx rq s"
| "serve s (Jwks, cx, rq) = apfst plain (jwks cx s)"

lemma serve_acts:
  assumes "srv_sessions_ok s"
  shows "acts (in_session (fst (snd call)) s) s (snd (serve s call))"
proof -
  obtain h cx rq where c: "call = (h, cx, rq)" by (cases call)
  show ?thesis unfolding c
    by (cases h) (simp_all add: acts_token_endpoint acts_introspect acts_revokeToken acts_userinfo acts_deviceAuthorization
        acts_authorize [OF assms] acts_oauthConsentDecision [OF assms] acts_devicePage acts_deviceDecision acts_logout acts_oidcLogout,
        simp add: jwks_def Let_def)
qed

lemma reach_kept:
  "reach ok step r r' \<Longrightarrow> (\<And>r op. K r \<Longrightarrow> ok op \<Longrightarrow> K (snd (step r op))) \<Longrightarrow> K r \<Longrightarrow> K r'"
proof -
  assume a: "reach ok step r r'" "\<And>r op. K r \<Longrightarrow> ok op \<Longrightarrow> K (snd (step r op))" "K r"
  then obtain ops where "list_all ok ops" "r' = final step r ops" by (auto simp: reach_def)
  moreover have "K r \<Longrightarrow> list_all ok ops \<Longrightarrow> K (final step r ops)" for r
    by (induction ops arbitrary: r) (auto intro: a(2))
  ultimately show "K r'" using a(3) by simp
qed

lemma no_creation_ok: "no_creation op \<Longrightarrow> well_formed_create op \<and> \<not> creates sid op"
  by (cases op) (simp_all add: well_formed_create_def)

lemma serve_sessions_ok: "srv_sessions_ok s \<Longrightarrow> srv_sessions_ok (snd (serve s call))"
  using serve_acts [of s call]
  by (auto simp: acts_def intro: reach_kept [where K = sessions_ok] sessions_ok_step dest: no_creation_ok)

section \<open>Runs of requests\<close>

lemma reach_mono: "reach ok step r r' \<Longrightarrow> (\<And>op. ok op \<Longrightarrow> ok' op) \<Longrightarrow> reach ok' step r r'"
  unfolding reach_def using list.pred_mono_strong by blast

lemma serve_runs:
  assumes "srv_sessions_ok s"
  shows "reach (issues_within (\<lambda>_ _. True)) oauth_step (srv_oauth s) (srv_oauth (final serve s calls))
    \<and> session_reach (ss_repository (srv_sessions s)) (ss_repository (srv_sessions (final serve s calls)))
    \<and> srv_sessions_ok (final serve s calls)"
  using assms
proof (induction calls arbitrary: s)
  case (Cons call calls)
  let ?t = "snd (serve s call)"
  have weaker: "issues_within P op \<Longrightarrow> issues_within (\<lambda>_ _. True) op" for P op by (cases op) simp_all
  have "reach (issues_within (\<lambda>_ _. True)) oauth_step (srv_oauth s) (srv_oauth ?t)"
    and "session_reach (ss_repository (srv_sessions s)) (ss_repository (srv_sessions ?t))"
    using serve_acts [OF Cons.prems, of call] weaker by (auto simp: acts_def elim: reach_mono)
  with Cons.IH [OF serve_sessions_ok [OF Cons.prems, of call]] show ?case by (auto intro: reach_trans)
qed simp


text \<open>A session that is over: revoked in the session store, its codes and tokens revoked.\<close>

definition session_over :: "string \<Rightarrow> string \<Rightarrow> server \<Rightarrow> bool" where
  "session_over u sid s =
     (sid \<noteq> [] \<and> srv_sessions_ok s \<and> session_dead sid (ss_repository (srv_sessions s))
      \<and> cut_off (\<lambda>u' sid' _. u' = u \<and> sid' = sid) (srv_oauth s))"

lemma session_over_serve:
  assumes "session_over u sid s"
  shows "session_over u sid (snd (serve s call))"
proof -
  let ?m = "\<lambda>u' sid' _. u' = u \<and> sid' = sid" and ?t = "snd (serve s call)"
  from assms have n: "sid \<noteq> []" and ok: "srv_sessions_ok s" and dead: "session_dead sid (ss_repository (srv_sessions s))"
    and cut: "cut_off ?m (srv_oauth s)" by (auto simp: session_over_def)
  have a: "acts (in_session (fst (snd call)) s) s ?t" using ok by (rule serve_acts)
  have "\<not> in_session (fst (snd call)) s u sid"
    using n session_dead_finds(1) [OF ok dead] by (simp add: in_session_def)
  then have "issues_within (in_session (fst (snd call)) s) op \<Longrightarrow> \<not> issues ?m op" for op by (cases op) auto
  with a cut have "cut_off ?m (srv_oauth ?t)"
    unfolding acts_def by (auto intro: reach_kept [where K = "cut_off ?m"] cut_off_step)
  moreover have "sessions_ok (ss_repository (srv_sessions ?t)) \<and> session_dead sid (ss_repository (srv_sessions ?t))"
    by (rule reach_kept [of no_creation session_step "ss_repository (srv_sessions s)"])
      (use a ok dead no_creation_ok in \<open>auto simp: acts_def intro!: session_dead_step [THEN conjunct1] session_dead_step [THEN conjunct2]\<close>)
  ultimately show ?thesis using n by (simp add: session_over_def)
qed

interpretation over_session: kept_by_steps serve "\<lambda>_. True" "session_over u sid" for u sid
  by unfold_locales (rule session_over_serve)

lemma session_over_dead:
  assumes "session_over u sid s"
  shows "usable_access cx raw s t \<Longrightarrow> \<not> (at_UserID t = u \<and> at_SessionID t = sid)"
    and "usable_refresh cx raw s t' \<Longrightarrow> \<not> (rt_UserID t' = u \<and> rt_SessionID t' = sid)"
    and "exchangeable cx post rq c s code \<Longrightarrow> \<not> (ac_UserID code = u \<and> ac_SessionID code = sid)"
    and "fst (currentSession cx rq s) = Some current \<Longrightarrow> se_ID current \<noteq> sid"
proof -
  show "usable_access cx raw s t \<Longrightarrow> \<not> (at_UserID t = u \<and> at_SessionID t = sid)"
    and "usable_refresh cx raw s t' \<Longrightarrow> \<not> (rt_UserID t' = u \<and> rt_SessionID t' = sid)"
    and "exchangeable cx post rq c s code \<Longrightarrow> \<not> (ac_UserID code = u \<and> ac_SessionID code = sid)"
    using assms by (auto simp: session_over_def cut_off_def usable_access_def usable_refresh_def exchangeable_def dest: find_SomeD)
  assume f: "fst (currentSession cx rq s) = Some current"
  then have "in_session cx s (se_UserID current) (se_ID current)"
    using assms currentSession_active [of s cx rq current "snd (currentSession cx rq s)"] by (simp add: session_over_def prod_eq_iff)
  with assms session_dead_finds(1) show "se_ID current \<noteq> sid" by (auto simp: session_over_def in_session_def)
qed

lemma cut_off_delete [simp]: "cut_off m (snd (DeleteOIDCClientSessions sid r)) = cut_off m r"
  by (simp add: DeleteOIDCClientSessions_def cut_off_def)

lemma cut_off_notify [simp]:
  "cut_off m (srv_oauth (snd (notifyOIDCBackchannelLogout sessions s))) = cut_off m (srv_oauth s)"
proof -
  have "cut_off m (fold (\<lambda>(sid, _) r. snd (DeleteOIDCClientSessions sid r)) xs r) = cut_off m r" for xs and r
    by (induction xs arbitrary: r) (auto simp: case_prod_beta)
  then show ?thesis by (simp add: notifyOIDCBackchannelLogout_def Let_def)
qed

lemma sessions_notify [simp]:
  "srv_sessions (snd (notifyOIDCBackchannelLogout sessions s)) = srv_sessions s"
  by (simp add: notifyOIDCBackchannelLogout_def Let_def)

lemma recordAudit_frame [simp]:
  "srv_sessions (recordAudit cx rq e s) = srv_sessions s" "srv_oauth (recordAudit cx rq e s) = srv_oauth s"
  by (auto simp: recordAudit_def Let_def split: sum.split)

lemma revoke_session_dead:
  "sid \<noteq> [] \<Longrightarrow> session_dead sid (ss_repository (srv_sessions (revoke_session cx sid s)))"
  using ends_session_dead [of "ss_repository (srv_sessions s)" "SesRevoke sid (cx_now cx)" sid]
  by (simp add: revoke_session_def Service_Revoke_def Let_def case_prod_beta)

lemma signed_out:
  assumes "srv_sessions_ok s" and "sid \<noteq> []"
  shows "session_over u sid (snd (cleanupRevokedSessions cx [(sid, u)] (revoke_session cx sid s)))"
proof -
  have "session_reach (ss_repository (srv_sessions s)) (ss_repository (srv_sessions (revoke_session cx sid s)))"
    using acts_revoke_session [of "\<lambda>_ _. True" s s cx sid] by (simp add: acts_def)
  then have "srv_sessions_ok (revoke_session cx sid s)"
    by (rule reach_kept) (auto intro: sessions_ok_step assms(1) dest: no_creation_ok)
  moreover have "cut_off (\<lambda>u' sid' _. u' = u \<and> sid' = sid) (snd (RevokeSessionTokens u sid now r))" for now r
    by (simp add: RevokeSessionTokens_def cut_off_revoked)
  ultimately show ?thesis using assms(2) revoke_session_dead [OF assms(2), of cx s]
    by (simp add: session_over_def cleanupRevokedSessions_def cleanup_session_def Let_def)
qed

lemma currentSession_ok:
  "srv_sessions_ok s \<Longrightarrow> currentSession cx rq s = (c, s') \<Longrightarrow> srv_sessions_ok s'"
  using currentSession_acts [of cx rq s c s' "\<lambda>_ _. True"]
  by (auto simp: acts_def intro: reach_kept [where K = sessions_ok] sessions_ok_step dest: no_creation_ok)

lemma logout_over:
  assumes "srv_sessions_ok s" and "currentSession cx rq s = (Some c, s1)" and "se_ID c \<noteq> []"
    and "rq_PostForm rq = Some post" and "validCSRF (Form_Get ''csrf_token'' post rq) rq"
  shows "session_over (se_UserID c) (se_ID c) (snd (serve s (Logout, cx, rq)))"
  using signed_out [OF currentSession_ok [OF assms(1,2)] assms(3), of "se_UserID c" cx] assms(2-5)
  by (simp add: logout_def Let_def session_over_def)

text \<open>C1: Signing out is final. After a sign-out request with a valid CSRF token, and whatever requests follow, no authorization
  code of the session can be exchanged, no access or refresh token of it is usable, and no cookie leads back to it.\<close>

theorem sign_out_is_final:
  assumes "sessions_ok (ss_repository (srv_sessions s))" and "currentSession cx rq s = (Some c, s1)" and "se_ID c \<noteq> []"
    and "rq_PostForm rq = Some post" and "validCSRF (Form_Get ''csrf_token'' post rq) rq"
    and "s' = final serve s ((Logout, cx, rq) # calls)"
  shows "(\<forall>cx' raw t. usable_access cx' raw s' t \<longrightarrow> \<not> (at_UserID t = se_UserID c \<and> at_SessionID t = se_ID c))
    \<and> (\<forall>cx' raw t. usable_refresh cx' raw s' t \<longrightarrow> \<not> (rt_UserID t = se_UserID c \<and> rt_SessionID t = se_ID c))
    \<and> (\<forall>cx' post' rq' d code. exchangeable cx' post' rq' d s' code \<longrightarrow> \<not> (ac_UserID code = se_UserID c \<and> ac_SessionID code = se_ID c))
    \<and> (\<forall>cx' rq' c'. fst (currentSession cx' rq' s') = Some c' \<longrightarrow> se_ID c' \<noteq> se_ID c)"
proof -
  have "session_over (se_UserID c) (se_ID c) s'"
    unfolding assms(6) final.simps
    by (rule over_session.kept_final [OF logout_over [OF assms(1-5)]]) (simp add: list_all_iff)
  from session_over_dead [OF this] show ?thesis by blast
qed

section \<open>One exchange per code\<close>

text \<open>A token request that exchanges the code with the given hash.\<close>

fun exchanges :: "bytes \<Rightarrow> oauth_handler \<times> request_context \<times> request \<Rightarrow> response \<Rightarrow> bool" where
  "exchanges h (TokenEndpoint, cx, rq) rep =
     (case (rq_PostForm rq, rp_Reply rep) of
        (Some post, ReplyJSON status _) \<Rightarrow> status = 200 \<and> Form_Get ''grant_type'' post rq = GrantAuthorizationCode
          \<and> HashToken (cx_sha256 cx) (Form_Get ''code'' post rq) = h
      | _ \<Rightarrow> False)"
| "exchanges h _ rep = False"

lemma exchanges_elim:
  assumes "exchanges h call (fst (serve s call))"
  obtains cx rq post body where "call = (TokenEndpoint, cx, rq)" and "rq_PostForm rq = Some post"
    and "token_endpoint cx rq s = (ReplyJSON 200 body, snd (serve s call))"
    and "Form_Get ''grant_type'' post rq = GrantAuthorizationCode" and "HashToken (cx_sha256 cx) (Form_Get ''code'' post rq) = h"
  using assms by (cases "(h, call, fst (serve s call))" rule: exchanges.cases)
    (auto simp: plain_def split: option.splits reply.splits, metis prod.collapse)

lemma code_spent_iff: "code_spent h r \<longleftrightarrow> (\<exists>c. find (\<lambda>c. ac_Hash c = h) (codes r) = Some c \<and> ac_consumedAt c \<noteq> None)"
  by (auto simp: code_spent_def split: option.splits)

interpretation exchange_once:
  single_use serve "\<lambda>_ _. True" "\<lambda>_. srv_sessions_ok" "\<lambda>h s. code_spent h (srv_oauth s)" exchanges
proof
  fix h s call
  show "srv_sessions_ok s \<Longrightarrow> srv_sessions_ok (snd (serve s call))" by (rule serve_sessions_ok)
  show "code_spent h (srv_oauth (snd (serve s call)))" if "srv_sessions_ok s" and "code_spent h (srv_oauth s)"
    using serve_acts [OF that(1), of call] that(2) code_spent_step
    by (auto simp: acts_def intro: reach_kept [where K = "code_spent h"])
  show "code_spent h (srv_oauth (snd (serve s call)))" if e: "exchanges h call (fst (serve s call))"
    using e by (rule exchanges_elim) (auto simp: code_spent_iff dest!: code_exchange_facts)
  show "\<not> exchanges h call (fst (serve s call))" if sp: "code_spent h (srv_oauth s)"
    using sp by (auto simp: code_spent_iff exchangeable_def dest!: code_exchange_facts elim!: exchanges_elim)
qed

text \<open>C4: Over every run of requests, from every server whose session store is well formed, the token endpoint exchanges an
  authorization code at most once.\<close>

theorem code_exchanged_at_most_once:
  assumes "sessions_ok (ss_repository (srv_sessions s))"
  shows "occurrences (exchanges h) serve s calls \<le> 1"
  using assms by (rule exchange_once.redeemed_at_most_once) (simp add: list_all_iff)

section \<open>Witnesses\<close>

lemma demo_server_ok: "sessions_ok (ss_repository (srv_sessions demo_server))"
  by (simp add: sessions_ok_def gomap_ok_def demo_login_session_def)

abbreviation demo_csrf :: string where "demo_csrf \<equiv> replicate 32 (CHR ''x'')"

definition demo_browser :: "Values \<Rightarrow> request" where
  "demo_browser post = (demo_request post)\<lparr>rq_Cookies := [(sessionCookieName, ''cookie''), (csrfCookieName, demo_csrf)]\<rparr>"

definition demo_seen :: Session where
  "demo_seen = Session.truncate (demo_login_session\<lparr>se_LastSeenAt := 100\<rparr>)"

lemma demo_current: "\<exists>s1. currentSession (demo_cx 100) (demo_browser post) demo_server = (Some demo_seen, s1)"
proof -
  have "se_UserID demo_seen = ''u1''" by (simp add: demo_seen_def demo_login_session_def Session.truncate_def)
  moreover have "Cookie sessionCookieName (demo_browser post) = Some ''cookie''" by (simp add: Cookie_def demo_browser_def)
  moreover have "fst (Session_Find (bytes_of ''cookie'') 100 [(''s1'', demo_login_session)]) = Inr demo_seen"
    by (simp add: Session_Find_def demo_seen_def Let_def) (simp add: demo_login_session_def)
  ultimately show ?thesis
    by (simp add: currentSession_def Service_Find_def HashToken_def Let_def case_prod_beta split: prod.split sum.split) (simp add: demo_person_def)
qed


lemma demo_bearer_owner: "at_UserID (demo_bearer\<lparr>at_revokedAt := None\<rparr>) = ''u1''" "at_SessionID (demo_bearer\<lparr>at_revokedAt := None\<rparr>) = ''s1''"
  by (simp_all add: demo_bearer_def)

theorem sign_out_is_final_witness:
  "\<exists>s'. s' = final serve demo_server [(Logout, demo_cx 100, demo_browser [(''csrf_token'', [demo_csrf])]),
        (TokenEndpoint, demo_cx 101, demo_request demo_exchange)]
     \<and> \<not> usable_access (demo_cx 102) ''tok1'' s' (demo_bearer\<lparr>at_revokedAt := None\<rparr>)"
proof -
  obtain s1 where s1: "currentSession (demo_cx 100) (demo_browser [(''csrf_token'', [demo_csrf])]) demo_server = (Some demo_seen, s1)"
    using demo_current by blast
  have i: "se_ID demo_seen = ''s1''" "se_UserID demo_seen = ''u1''"
    by (simp_all add: demo_seen_def demo_login_session_def Session.truncate_def)
  have p: "rq_PostForm (demo_browser post) = Some post" for post by (simp add: demo_browser_def demo_request_def)
  have v: "validCSRF (Form_Get ''csrf_token'' [(''csrf_token'', [demo_csrf])] (demo_browser [(''csrf_token'', [demo_csrf])]))
      (demo_browser [(''csrf_token'', [demo_csrf])])"
    by (simp add: validCSRF_def Cookie_def demo_browser_def Form_Get_def values_at_def)
  show ?thesis
    using sign_out_is_final [OF demo_server_ok s1 _ p v refl, of "[(TokenEndpoint, demo_cx 101, demo_request demo_exchange)]"]
    unfolding i by (metis (no_types) demo_bearer_owner list.distinct(1))
qed

theorem code_exchanged_at_most_once_witness:
  "occurrences (exchanges (bytes_of ''code1'')) serve demo_server
     [(TokenEndpoint, demo_cx 100, demo_request demo_exchange), (TokenEndpoint, demo_cx 101, demo_request demo_exchange)] \<le> 1"
  by (rule code_exchanged_at_most_once [OF demo_server_ok])

end
