(* ===== verification/Postgres_Tables.thy ===== *)
theory Postgres_Tables
  imports Certus_Prelude
begin

text \<open>
  The SQL the PostgreSQL repositories use, and what it means for such a repository to implement an
  in-memory one.

  \<^item> A table is a list of rows; a nullable column is an \<open>option\<close>. Every lookup goes through a unique key
    or an \<open>ORDER BY\<close>, so the order of the list does not matter; inserts add a row at the end.
  \<^item> A statement is a function of the table. \<open>col = $1\<close> is true of no \<open>NULL\<close>; an insert that violates
    a unique key fails and leaves the table as it is; a transaction is one step, and a rollback gives the
    tables back as they were.
  \<^item> \<open>timestamptz\<close> keeps microseconds: a time is truncated when it is stored or compared. Identifiers in
    \<open>uuid\<close> columns are their canonical text.
  \<^item> Foreign keys are left out: the handlers have read the rows they refer to in the same request. So are
    failures of the connection.
\<close>

section \<open>Statements\<close>

definition timestamptz :: "time \<Rightarrow> time" where
  "timestamptz t = t div 1000 * 1000"

definition tick :: "time \<Rightarrow> bool" where
  "tick t = (t mod 1000 = 0)"

lemma timestamptz_tick [simp]: "tick t \<Longrightarrow> timestamptz t = t"
  by (simp add: tick_def timestamptz_def mult_div_mod_eq minus_mod_eq_div_mult [symmetric])

lemma tick_timestamptz [simp]: "tick (timestamptz t)"
  by (simp add: tick_def timestamptz_def)

definition coalesce :: "'a option \<Rightarrow> 'a \<Rightarrow> 'a option" where
  "coalesce x y = (case x of None \<Rightarrow> Some y | Some z \<Rightarrow> Some z)"

lemma coalesce_not_None [simp]: "coalesce x y \<noteq> None" "(coalesce x y = None) = False"
  by (simp_all add: coalesce_def split: option.splits)

text \<open>An empty Go string stored as \<open>NULL\<close> and read back.\<close>

definition nullableText :: "string \<Rightarrow> string option" where
  "nullableText v = (if v = [] then None else Some v)"

definition text_of :: "string option \<Rightarrow> string" where
  "text_of v = (case v of None \<Rightarrow> [] | Some x \<Rightarrow> x)"

lemma text_of_nullable [simp]: "text_of (nullableText v) = v"
  by (simp add: text_of_def nullableText_def)

lemma text_of_Some [simp]: "text_of (Some v) = v"
  by (simp add: text_of_def)

lemma nullable_eq [simp]: "w \<noteq> [] \<Longrightarrow> nullableText v = Some w \<longleftrightarrow> v = w"
  by (auto simp: nullableText_def)

definition sql_update :: "('r \<Rightarrow> bool) \<Rightarrow> ('r \<Rightarrow> 'r) \<Rightarrow> 'r list \<Rightarrow> 'r list" where
  "sql_update p f t = map (\<lambda>r. if p r then f r else r) t"

definition rows_affected :: "('r \<Rightarrow> bool) \<Rightarrow> 'r list \<Rightarrow> nat" where
  "rows_affected p t = length (filter p t)"

definition sql_delete :: "('r \<Rightarrow> bool) \<Rightarrow> 'r list \<Rightarrow> 'r list" where
  "sql_delete p t = filter (\<lambda>r. \<not> p r) t"

definition sql_insert :: "('r \<Rightarrow> 'k) \<Rightarrow> 'r \<Rightarrow> 'r list \<Rightarrow> 'r list option" where
  "sql_insert key row t = (if key row \<in> key ` set t then None else Some (t @ [row]))"

text \<open>\<open>INSERT ... ON CONFLICT (key) DO UPDATE\<close>.\<close>

definition sql_upsert :: "('r \<Rightarrow> 'k) \<Rightarrow> ('r \<Rightarrow> 'r) \<Rightarrow> 'r \<Rightarrow> 'r list \<Rightarrow> 'r list" where
  "sql_upsert key merge row t =
     (if key row \<in> key ` set t then map (\<lambda>r. if key r = key row then merge r else r) t else t @ [row])"

text \<open>\<open>QueryRow\<close>: the first row of the result, \<open>None\<close> for \<open>pgx.ErrNoRows\<close>.\<close>

definition query_row :: "('r \<Rightarrow> bool) \<Rightarrow> 'r list \<Rightarrow> 'r option" where
  "query_row p t = find p t"

section \<open>Implementation of a contract\<close>

text \<open>A run of calls each of which is admissible in the state it finds.\<close>

fun admissible_run :: "('s \<Rightarrow> 'op \<Rightarrow> 'r \<times> 's) \<Rightarrow> ('s \<Rightarrow> 'op \<Rightarrow> bool) \<Rightarrow> 's \<Rightarrow> 'op list \<Rightarrow> bool" where
  "admissible_run step admissible s [] = True"
| "admissible_run step admissible s (op # ops) =
     (admissible s op \<and> admissible_run step admissible (snd (step s op)) ops)"

text \<open>A store implements another when, in related states, every admissible call gives agreeing results and leads to
  related states again; then every run of admissible calls gives agreeing results throughout.\<close>

locale implements =
  fixes cstep :: "'c \<Rightarrow> 'op \<Rightarrow> 'x \<times> 'c"
    and astep :: "'a \<Rightarrow> 'op \<Rightarrow> 'y \<times> 'a"
    and rel :: "'c \<Rightarrow> 'a \<Rightarrow> bool"
    and admissible :: "'a \<Rightarrow> 'op \<Rightarrow> bool"
    and agree :: "'op \<Rightarrow> 'x \<Rightarrow> 'y \<Rightarrow> bool"
  assumes step_agrees: "rel c a \<Longrightarrow> admissible a op \<Longrightarrow> agree op (fst (cstep c op)) (fst (astep a op))"
    and step_related: "rel c a \<Longrightarrow> admissible a op \<Longrightarrow> rel (snd (cstep c op)) (snd (astep a op))"
begin

lemma run_agrees:
  assumes "rel c a" and "admissible_run astep admissible a ops"
  shows "list_all2 (\<lambda>(op, x) (op', y). op' = op \<and> agree op x y) (trace cstep c ops) (trace astep a ops)
    \<and> rel (final cstep c ops) (final astep a ops)"
  using assms by (induction ops arbitrary: c a) (auto intro: step_agrees step_related)

lemma run_occurrences:
  assumes "rel c a" and "admissible_run astep admissible a ops" and "\<And>op x y. agree op x y \<Longrightarrow> p op x = q op y"
  shows "occurrences p cstep c ops = occurrences q astep a ops"
  using assms(1,2) by (induction ops arbitrary: c a) (simp_all add: step_agrees step_related assms(3) [OF step_agrees])

end

section \<open>Facts\<close>

text \<open>An update of the one row with a key is the update of the first row with it.\<close>

lemma sql_update_first:
  "distinct (map key t) \<Longrightarrow> (\<And>r. r \<in> set t \<Longrightarrow> p r \<Longrightarrow> key r = k) \<Longrightarrow> sql_update p f t = update_first p f t"
proof (induction t)
  case (Cons r t)
  show ?case
  proof (cases "p r")
    case True
    with Cons.prems have "\<forall>x \<in> set t. \<not> p x" by (auto simp: image_iff)
    then have "map (\<lambda>r. if p r then f r else r) t = t" by (simp add: map_idI)
    with True show ?thesis by (simp add: sql_update_def)
  next
    case False
    with Cons show ?thesis by (simp add: sql_update_def)
  qed
qed (simp add: sql_update_def)

lemma find_map_view:
  "map v xs = map w ys \<Longrightarrow> (\<And>x y. v x = w y \<Longrightarrow> p x = q y) \<Longrightarrow>
     rel_option (\<lambda>x y. v x = w y \<and> x \<in> set xs \<and> y \<in> set ys) (find p xs) (find q ys)"
proof (induction xs arbitrary: ys)
  case (Cons x xs)
  then obtain y ys' where ys: "ys = y # ys'" "v x = w y" "map v xs = map w ys'" by (cases ys) auto
  with Cons.IH [OF ys(3) Cons.prems(2)] Cons.prems(2) [OF ys(2)] show ?case
    by (auto elim: option.rel_mono_strong)
qed simp

lemma map_view_append: "map v xs = map w ys \<Longrightarrow> v x = w y \<Longrightarrow> map v (xs @ [x]) = map w (ys @ [y])"
  by simp

lemma map_view_map:
  "map v xs = map w ys \<Longrightarrow> (\<And>x y. v x = w y \<Longrightarrow> v (f x) = w (g y)) \<Longrightarrow> map v (map f xs) = map w (map g ys)"
proof (induction xs arbitrary: ys)
  case (Cons x xs)
  then show ?case by (cases ys) auto
qed simp

lemma map_view_filter:
  "map v xs = map w ys \<Longrightarrow> (\<And>x y. v x = w y \<Longrightarrow> p x = q y) \<Longrightarrow> map v (filter p xs) = map w (filter q ys)"
proof (induction xs arbitrary: ys)
  case (Cons x xs)
  then obtain y ys' where "ys = y # ys'" "v x = w y" "map v xs = map w ys'" by (cases ys) auto
  with Cons.IH [of ys'] Cons.prems(2) show ?case by auto
qed simp

lemma map_view_keys:
  "map v xs = map w ys \<Longrightarrow> (\<And>x y. v x = w y \<Longrightarrow> k x = l y) \<Longrightarrow> map k xs = map l ys"
proof (induction xs arbitrary: ys)
  case (Cons x xs)
  then show ?case by (cases ys) auto
qed simp

lemma update_first_sql:
  "distinct (map key t) \<Longrightarrow> (\<And>r. p r \<Longrightarrow> key r = k) \<Longrightarrow> update_first p f t = sql_update p f t"
  by (simp add: sql_update_first [where key = key and k = k])

lemma map_sql_update: "(\<And>r. key (f r) = key r) \<Longrightarrow> map key (sql_update p f t) = map key t"
  by (simp add: sql_update_def)

lemma find_keyed:
  "distinct (map key xs) \<Longrightarrow>
     find (\<lambda>x. key x = k \<and> p x) xs = (case find (\<lambda>x. key x = k) xs of None \<Rightarrow> None | Some x \<Rightarrow> if p x then Some x else None)"
proof (induction xs)
  case (Cons y xs)
  show ?case
  proof (cases "key y = k")
    case True
    with Cons.prems have "\<forall>x \<in> set xs. key x \<noteq> k" by (simp add: image_iff) metis
    then have "find (\<lambda>x. key x = k \<and> p x) xs = None" by (auto simp: find_None_iff)
    with True show ?thesis by simp
  qed (use Cons in simp)
qed simp

lemma update_first_strong:
  assumes "distinct (map key xs)" and "find (\<lambda>x. key x = k) xs = Some y" and "q y"
  shows "update_first (\<lambda>x. key x = k) f xs = sql_update (\<lambda>x. key x = k \<and> q x) f xs"
proof -
  have "\<forall>x \<in> set xs. key x = k \<longrightarrow> x = y"
    using assms(1) find_SomeD [OF assms(2)] by (auto simp: distinct_map inj_on_def)
  with assms(3) have "sql_update (\<lambda>x. key x = k) f xs = sql_update (\<lambda>x. key x = k \<and> q x) f xs"
    by (auto simp: sql_update_def)
  with update_first_sql [OF assms(1), of "\<lambda>x. key x = k" k f] show ?thesis by simp
qed

lemma sql_update_view_in:
  "map v xs = map w ys \<Longrightarrow> (\<And>x y. y \<in> set ys \<Longrightarrow> v x = w y \<Longrightarrow> p x = q y) \<Longrightarrow> (\<And>x y. v x = w y \<Longrightarrow> v (f x) = w (g y)) \<Longrightarrow>
     map v (sql_update p f xs) = map w (sql_update q g ys)"
proof (induction xs arbitrary: ys)
  case (Cons x xs)
  then obtain y ys' where "ys = y # ys'" "v x = w y" "map v xs = map w ys'" by (cases ys) auto
  with Cons.IH [of ys'] Cons.prems(2,3) show ?case by (auto simp: sql_update_def)
qed (simp add: sql_update_def)

lemma sql_update_view:
  "map v xs = map w ys \<Longrightarrow> (\<And>x y. v x = w y \<Longrightarrow> p x = q y) \<Longrightarrow> (\<And>x y. v x = w y \<Longrightarrow> v (f x) = w (g y)) \<Longrightarrow>
     map v (sql_update p f xs) = map w (sql_update q g ys)"
  unfolding sql_update_def by (rule map_view_map) auto

lemma in_key_view:
  "map v xs = map w ys \<Longrightarrow> (\<And>x y. v x = w y \<Longrightarrow> k x = l y) \<Longrightarrow> k ` set xs = l ` set ys"
  using map_view_keys [of v xs w ys k l] by (metis list.set_map)

lemma rows_affected_0: "rows_affected p t = 0 \<longleftrightarrow> find p t = None"
  by (auto simp: rows_affected_def find_None_iff filter_empty_conv)

lemma rows_affected_key:
  "distinct (map key t) \<Longrightarrow> x \<in> set t \<Longrightarrow> rows_affected (\<lambda>r. key r = key x) t = 1"
proof (induction t)
  case (Cons r t)
  show ?case
  proof (cases "key r = key x")
    case True
    with Cons.prems have "\<forall>y \<in> set t. key y \<noteq> key x" by (simp add: image_iff) metis
    then have "filter (\<lambda>y. key y = key x) t = []" by (simp add: filter_empty_conv)
    with True show ?thesis by (simp add: rows_affected_def)
  qed (use Cons in \<open>auto simp: rows_affected_def\<close>)
qed simp

lemma sql_update_none: "find p t = None \<Longrightarrow> sql_update p f t = t"
  unfolding sql_update_def by (rule map_idI) (auto simp: find_None_iff)

lemma text_of_iff: "y \<noteq> [] \<Longrightarrow> x = Some y \<longleftrightarrow> text_of x = y"
  by (auto simp: text_of_def split: option.splits)

end
