(* ===== verification/Postgres_OAuth.thy ===== *)
theory Postgres_OAuth
  imports OAuth_Grants Postgres_Tables
begin

text \<open>
  The PostgreSQL grant store of \<open>internal/storage/postgres/oauth_repository.go\<close>, method by method, each SQL
  statement as a function of its table. The main result is that it implements the in-memory
  store of \<open>internal/oauth/store.go\<close>: with a clock of microseconds, fresh hashes and the identifiers the handlers
  pass, every sequence of calls succeeds and fails alike in both and returns the same grants. What differs is
  stated too: which error is reported, the order and duplicates of scopes, and the refresh of a grant without scopes.
\<close>

section \<open>Tables\<close>

datatype pg_error = GrantError oauth_error | SQLError

record code_row =
  c_code_hash :: bytes
  c_client_id :: string
  c_user_id :: string
  c_session_id :: string
  c_redirect_uri :: string
  c_scope :: "string list"
  c_nonce :: string
  c_code_challenge :: string
  c_authenticated_at :: time
  c_authentication_methods :: "string list"
  c_assurance_level :: string
  c_created_at :: time
  c_expires_at :: time
  c_consumed_at :: "time option"
  c_revoked_at :: "time option"

record access_row =
  a_token_hash :: bytes
  a_client_id :: string
  a_user_id :: "string option"
  a_session_id :: "string option"
  a_refresh_family_id :: "string option"
  a_scope :: "string list"
  a_issued_at :: time
  a_expires_at :: time
  a_revoked_at :: "time option"

record refresh_row =
  r_token_hash :: bytes
  r_family_id :: string
  r_client_id :: string
  r_user_id :: string
  r_session_id :: "string option"
  r_scope :: "string list"
  r_issued_at :: time
  r_expires_at :: time
  r_consumed_at :: "time option"
  r_revoked_at :: "time option"
  r_replaced_by_hash :: "bytes option"

record device_row =
  d_device_code_hash :: bytes
  d_user_code_hash :: bytes
  d_client_id :: string
  d_user_id :: "string option"
  d_scope :: "string list"
  d_status :: string
  d_authenticated_at :: "time option"
  d_authentication_methods :: "string list"
  d_assurance_level :: string
  d_created_at :: time
  d_expires_at :: time
  d_interval_seconds :: int
  d_last_poll_at :: "time option"
  d_decided_at :: "time option"
  d_consumed_at :: "time option"

record consent_row =
  k_user_id :: string
  k_client_id :: string
  k_scopes :: "string list"
  k_granted_at :: time
  k_updated_at :: time

record oidc_row =
  o_session_id :: string
  o_client_id :: string
  o_user_id :: string
  o_created_at :: time

record PgOAuth =
  oauth_authorization_codes :: "code_row list"
  oauth_access_tokens :: "access_row list"
  oauth_refresh_tokens :: "refresh_row list"
  oauth_device_authorizations :: "device_row list"
  oauth_consents :: "consent_row list"
  oidc_client_sessions :: "oidc_row list"

definition pg_empty :: PgOAuth where
  "pg_empty = \<lparr>oauth_authorization_codes = [], oauth_access_tokens = [], oauth_refresh_tokens = [],
     oauth_device_authorizations = [], oauth_consents = [], oidc_client_sessions = []\<rparr>"

section \<open>Authorization codes\<close>

definition code_row_of :: "AuthorizationCode \<Rightarrow> code_row" where
  "code_row_of v = \<lparr>c_code_hash = ac_Hash v, c_client_id = ac_ClientID v, c_user_id = ac_UserID v, c_session_id = ac_SessionID v,
     c_redirect_uri = ac_RedirectURI v, c_scope = ac_Scope v, c_nonce = ac_Nonce v, c_code_challenge = ac_CodeChallenge v,
     c_authenticated_at = timestamptz (ac_AuthenticatedAt v), c_authentication_methods = ac_AuthMethods v,
     c_assurance_level = ac_AssuranceLevel v, c_created_at = timestamptz (ac_CreatedAt v),
     c_expires_at = timestamptz (ac_ExpiresAt v), c_consumed_at = None, c_revoked_at = None\<rparr>"

definition scan_code :: "code_row \<Rightarrow> AuthorizationCode" where
  "scan_code c = \<lparr>ac_Hash = c_code_hash c, ac_ClientID = c_client_id c, ac_UserID = c_user_id c, ac_SessionID = c_session_id c,
     ac_RedirectURI = c_redirect_uri c, ac_Scope = c_scope c, ac_Nonce = c_nonce c, ac_CodeChallenge = c_code_challenge c,
     ac_AuthenticatedAt = c_authenticated_at c, ac_AuthMethods = c_authentication_methods c,
     ac_AssuranceLevel = c_assurance_level c, ac_CreatedAt = c_created_at c, ac_ExpiresAt = c_expires_at c\<rparr>"

definition Pg_SaveAuthorizationCode :: "AuthorizationCode \<Rightarrow> PgOAuth \<Rightarrow> (pg_error + unit) \<times> PgOAuth" where
  [store_defs]: "Pg_SaveAuthorizationCode v db =
     (case sql_insert c_code_hash (code_row_of v) (oauth_authorization_codes db) of
        None \<Rightarrow> (Inl SQLError, db)
      | Some t \<Rightarrow> (Inr (), db\<lparr>oauth_authorization_codes := t\<rparr>))"

definition Pg_ConsumeAuthorizationCode ::
  "bytes \<Rightarrow> string \<Rightarrow> string \<Rightarrow> string \<Rightarrow> time \<Rightarrow> PgOAuth \<Rightarrow> (pg_error + AuthorizationCode) \<times> PgOAuth" where
  [store_defs]: "Pg_ConsumeAuthorizationCode hash clientID redirectURI codeChallenge now db =
     (let p = (\<lambda>c. c_code_hash c = hash \<and> c_client_id c = clientID \<and> c_redirect_uri c = redirectURI
            \<and> c_code_challenge c = codeChallenge \<and> c_consumed_at c = None \<and> c_revoked_at c = None
            \<and> c_expires_at c > timestamptz now)
      in case query_row p (oauth_authorization_codes db) of
           None \<Rightarrow> (Inl (GrantError ErrGrantNotFound), db)
         | Some c \<Rightarrow>
             (Inr (scan_code c),
              db\<lparr>oauth_authorization_codes := sql_update p (\<lambda>c. c\<lparr>c_consumed_at := Some (timestamptz now)\<rparr>) (oauth_authorization_codes db)\<rparr>))"

section \<open>Access tokens\<close>

definition access_row_of :: "AccessToken \<Rightarrow> access_row" where
  "access_row_of v = \<lparr>a_token_hash = at_Hash v, a_client_id = at_ClientID v, a_user_id = nullableText (at_UserID v),
     a_session_id = nullableText (at_SessionID v), a_refresh_family_id = nullableText (at_FamilyID v), a_scope = at_Scope v,
     a_issued_at = timestamptz (at_IssuedAt v), a_expires_at = timestamptz (at_ExpiresAt v), a_revoked_at = None\<rparr>"

definition scan_access :: "access_row \<Rightarrow> AccessToken" where
  "scan_access a = \<lparr>at_Hash = a_token_hash a, at_ClientID = a_client_id a, at_UserID = text_of (a_user_id a),
     at_SessionID = text_of (a_session_id a), at_FamilyID = text_of (a_refresh_family_id a), at_Scope = a_scope a,
     at_IssuedAt = a_issued_at a, at_ExpiresAt = a_expires_at a\<rparr>"

definition Pg_SaveAccessToken :: "AccessToken \<Rightarrow> PgOAuth \<Rightarrow> (pg_error + unit) \<times> PgOAuth" where
  [store_defs]: "Pg_SaveAccessToken v db =
     (case sql_insert a_token_hash (access_row_of v) (oauth_access_tokens db) of
        None \<Rightarrow> (Inl SQLError, db)
      | Some t \<Rightarrow> (Inr (), db\<lparr>oauth_access_tokens := t\<rparr>))"

definition Pg_FindAccessToken :: "bytes \<Rightarrow> time \<Rightarrow> PgOAuth \<Rightarrow> pg_error + AccessToken" where
  [store_defs]: "Pg_FindAccessToken hash now db =
     (case query_row (\<lambda>a. a_token_hash a = hash \<and> a_revoked_at a = None \<and> a_expires_at a > timestamptz now) (oauth_access_tokens db) of
        None \<Rightarrow> Inl (GrantError ErrGrantNotFound)
      | Some a \<Rightarrow> Inr (scan_access a))"

definition Pg_RevokeAccessToken :: "bytes \<Rightarrow> string \<Rightarrow> time \<Rightarrow> PgOAuth \<Rightarrow> (pg_error + unit) \<times> PgOAuth" where
  [store_defs]: "Pg_RevokeAccessToken hash clientID now db =
     (let p = (\<lambda>a. a_token_hash a = hash \<and> a_client_id a = clientID);
          db1 = db\<lparr>oauth_access_tokens :=
            sql_update p (\<lambda>a. a\<lparr>a_revoked_at := coalesce (a_revoked_at a) (timestamptz now)\<rparr>) (oauth_access_tokens db)\<rparr>
      in (if rows_affected p (oauth_access_tokens db) = 0 then Inl (GrantError ErrGrantNotFound) else Inr (), db1))"

section \<open>Refresh tokens\<close>

text \<open>A \<open>nil\<close> slice is sent as \<open>NULL\<close>, which the column \<open>scope\<close> does not accept.\<close>

definition refresh_row_of :: "RefreshToken \<Rightarrow> refresh_row option" where
  "refresh_row_of v =
     (case rt_Scope v of
        None \<Rightarrow> None
      | Some scopes \<Rightarrow>
          Some \<lparr>r_token_hash = rt_Hash v, r_family_id = rt_FamilyID v, r_client_id = rt_ClientID v, r_user_id = rt_UserID v,
            r_session_id = nullableText (rt_SessionID v), r_scope = scopes, r_issued_at = timestamptz (rt_IssuedAt v),
            r_expires_at = timestamptz (rt_ExpiresAt v), r_consumed_at = None, r_revoked_at = None, r_replaced_by_hash = None\<rparr>)"

definition scan_refresh :: "refresh_row \<Rightarrow> RefreshToken" where
  "scan_refresh t = \<lparr>rt_Hash = r_token_hash t, rt_FamilyID = r_family_id t, rt_ClientID = r_client_id t, rt_UserID = r_user_id t,
     rt_SessionID = text_of (r_session_id t), rt_Scope = Some (r_scope t), rt_IssuedAt = r_issued_at t, rt_ExpiresAt = r_expires_at t\<rparr>"

definition insert_refresh :: "RefreshToken \<Rightarrow> refresh_row list \<Rightarrow> refresh_row list option" where
  "insert_refresh v t = (case refresh_row_of v of None \<Rightarrow> None | Some row \<Rightarrow> sql_insert r_token_hash row t)"

definition Pg_SaveRefreshToken :: "RefreshToken \<Rightarrow> PgOAuth \<Rightarrow> (pg_error + unit) \<times> PgOAuth" where
  [store_defs]: "Pg_SaveRefreshToken v db =
     (case insert_refresh v (oauth_refresh_tokens db) of
        None \<Rightarrow> (Inl SQLError, db)
      | Some t \<Rightarrow> (Inr (), db\<lparr>oauth_refresh_tokens := t\<rparr>))"

definition Pg_FindRefreshToken :: "bytes \<Rightarrow> time \<Rightarrow> PgOAuth \<Rightarrow> pg_error + RefreshToken" where
  [store_defs]: "Pg_FindRefreshToken hash now db =
     (case query_row (\<lambda>t. r_token_hash t = hash \<and> r_consumed_at t = None \<and> r_revoked_at t = None \<and> r_expires_at t > timestamptz now)
             (oauth_refresh_tokens db) of
        None \<Rightarrow> Inl (GrantError ErrGrantNotFound)
      | Some t \<Rightarrow> Inr (scan_refresh t))"

definition revoke_refresh_rows :: "(refresh_row \<Rightarrow> bool) \<Rightarrow> time \<Rightarrow> PgOAuth \<Rightarrow> PgOAuth" where
  "revoke_refresh_rows p now db =
     db\<lparr>oauth_refresh_tokens := sql_update p (\<lambda>t. t\<lparr>r_revoked_at := coalesce (r_revoked_at t) (timestamptz now)\<rparr>) (oauth_refresh_tokens db)\<rparr>"

definition revoke_access_rows :: "(access_row \<Rightarrow> bool) \<Rightarrow> time \<Rightarrow> PgOAuth \<Rightarrow> PgOAuth" where
  "revoke_access_rows p now db =
     db\<lparr>oauth_access_tokens := sql_update p (\<lambda>a. a\<lparr>a_revoked_at := coalesce (a_revoked_at a) (timestamptz now)\<rparr>) (oauth_access_tokens db)\<rparr>"

definition revoke_code_rows :: "(code_row \<Rightarrow> bool) \<Rightarrow> time \<Rightarrow> PgOAuth \<Rightarrow> PgOAuth" where
  "revoke_code_rows p now db =
     db\<lparr>oauth_authorization_codes := sql_update p (\<lambda>c. c\<lparr>c_revoked_at := coalesce (c_revoked_at c) (timestamptz now)\<rparr>) (oauth_authorization_codes db)\<rparr>"

text \<open>\<open>RotateRefreshToken\<close>: the row is locked, the checks of the in-memory store follow, and the two last statements either
  both take effect or none does.\<close>

definition rotated_replacement :: "RefreshToken \<Rightarrow> RefreshToken \<Rightarrow> RefreshToken" where
  "rotated_replacement current replacement =
     (let replacement1 = replacement\<lparr>rt_FamilyID := rt_FamilyID current, rt_UserID := rt_UserID current, rt_SessionID := rt_SessionID current\<rparr>
      in if rt_Scope replacement1 = None then replacement1\<lparr>rt_Scope := copy_slice (rt_Scope current)\<rparr> else replacement1)"

definition Pg_RotateRefreshToken ::
  "bytes \<Rightarrow> RefreshToken \<Rightarrow> time \<Rightarrow> PgOAuth \<Rightarrow> (pg_error + RefreshToken) \<times> PgOAuth" where
  [store_defs]: "Pg_RotateRefreshToken hash replacement now db =
     (case query_row (\<lambda>t. r_token_hash t = hash) (oauth_refresh_tokens db) of
        None \<Rightarrow> (Inl (GrantError ErrGrantNotFound), db)
      | Some row \<Rightarrow>
          let current = scan_refresh row in
          if rt_ClientID current \<noteq> rt_ClientID replacement then (Inl (GrantError ErrGrantNotFound), db)
          else if r_consumed_at row \<noteq> None \<or> r_revoked_at row \<noteq> None then
            (Inl (GrantError ErrRefreshReuse),
             revoke_access_rows (\<lambda>a. a_refresh_family_id a = Some (rt_FamilyID current)) now
               (revoke_refresh_rows (\<lambda>t. r_family_id t = rt_FamilyID current) now db))
          else if \<not> rt_ExpiresAt current > now then (Inl (GrantError ErrGrantExpired), db)
          else
            let replacement1 = rotated_replacement current replacement in
            if \<not> ScopesCover (elems (rt_Scope current)) (elems (rt_Scope replacement1)) then (Inl (GrantError ErrInvalidScope), db)
            else
              let consumed = sql_update (\<lambda>t. r_token_hash t = hash)
                    (\<lambda>t. t\<lparr>r_consumed_at := Some (timestamptz now), r_replaced_by_hash := Some (rt_Hash replacement1)\<rparr>) (oauth_refresh_tokens db)
              in if rows_affected (\<lambda>t. r_token_hash t = hash) (oauth_refresh_tokens db) \<noteq> 1 then (Inl SQLError, db)
                 else case insert_refresh replacement1 consumed of
                        None \<Rightarrow> (Inl SQLError, db)
                      | Some t \<Rightarrow> (Inr current, db\<lparr>oauth_refresh_tokens := t\<rparr>))"

definition Pg_RevokeRefreshToken :: "bytes \<Rightarrow> string \<Rightarrow> time \<Rightarrow> PgOAuth \<Rightarrow> (pg_error + unit) \<times> PgOAuth" where
  [store_defs]: "Pg_RevokeRefreshToken hash clientID now db =
     (case query_row (\<lambda>t. r_token_hash t = hash \<and> r_client_id t = clientID) (oauth_refresh_tokens db) of
        None \<Rightarrow> (Inl (GrantError ErrGrantNotFound), db)
      | Some row \<Rightarrow>
          let p = (\<lambda>t. r_family_id t = r_family_id row \<and> r_client_id t = clientID) in
          if rows_affected p (oauth_refresh_tokens db) = 0 then (Inl SQLError, db)
          else (Inr (), revoke_access_rows (\<lambda>a. a_refresh_family_id a = Some (r_family_id row)) now (revoke_refresh_rows p now db)))"

section \<open>Device authorizations\<close>

text \<open>Only the columns the statement names are written; the others take their defaults. The table has two
  unique keys and checks the status and the interval.\<close>

definition device_row_of :: "DeviceAuthorization \<Rightarrow> device_row" where
  "device_row_of v = \<lparr>d_device_code_hash = da_DeviceHash v, d_user_code_hash = da_UserHash v, d_client_id = da_ClientID v,
     d_user_id = None, d_scope = da_Scope v, d_status = da_Status v, d_authenticated_at = None, d_authentication_methods = [],
     d_assurance_level = ''urn:certus:aal:1'', d_created_at = timestamptz (da_CreatedAt v),
     d_expires_at = timestamptz (da_ExpiresAt v), d_interval_seconds = go_quot (da_Interval v) second, d_last_poll_at = None,
     d_decided_at = None, d_consumed_at = None\<rparr>"

definition Pg_SaveDeviceAuthorization :: "DeviceAuthorization \<Rightarrow> PgOAuth \<Rightarrow> (pg_error + unit) \<times> PgOAuth" where
  [store_defs]: "Pg_SaveDeviceAuthorization v db =
     (let row = device_row_of v; t = oauth_device_authorizations db in
      if d_status row \<notin> {DevicePending, DeviceApproved, DeviceDenied, DeviceConsumed} \<or> d_interval_seconds row \<le> 0
         \<or> d_user_code_hash row \<in> d_user_code_hash ` set t
      then (Inl SQLError, db)
      else case sql_insert d_device_code_hash row t of
             None \<Rightarrow> (Inl SQLError, db)
           | Some t' \<Rightarrow> (Inr (), db\<lparr>oauth_device_authorizations := t'\<rparr>))"

definition scanDevice :: "device_row \<Rightarrow> DeviceAuthorization" where
  "scanDevice d = \<lparr>da_DeviceHash = d_device_code_hash d, da_UserHash = d_user_code_hash d, da_ClientID = d_client_id d,
     da_UserID = text_of (d_user_id d), da_Scope = d_scope d, da_Status = d_status d,
     da_AuthenticatedAt = (case d_authenticated_at d of None \<Rightarrow> 0 | Some t \<Rightarrow> t),
     da_AuthMethods = d_authentication_methods d, da_AssuranceLevel = d_assurance_level d, da_CreatedAt = d_created_at d,
     da_ExpiresAt = d_expires_at d, da_Interval = d_interval_seconds d * second, da_LastPollAt = d_last_poll_at d\<rparr>"

definition Pg_FindDeviceByUserCode :: "bytes \<Rightarrow> time \<Rightarrow> PgOAuth \<Rightarrow> pg_error + DeviceAuthorization" where
  [store_defs]: "Pg_FindDeviceByUserCode hash now db =
     (case query_row (\<lambda>d. d_user_code_hash d = hash \<and> d_status d = DevicePending \<and> d_expires_at d > timestamptz now)
             (oauth_device_authorizations db) of
        None \<Rightarrow> Inl (GrantError ErrGrantNotFound)
      | Some d \<Rightarrow> Inr (scanDevice d))"

text \<open>The upsert of a consent: a new row keeps the scopes as they are given, an existing one gets the distinct scopes of both,
  in order.\<close>

definition merge_arrays :: "string list \<Rightarrow> string list \<Rightarrow> string list" where
  "merge_arrays stored given = sort (remdups (stored @ given))"

definition upsert_consent :: "string \<Rightarrow> string \<Rightarrow> string list \<Rightarrow> time \<Rightarrow> consent_row list \<Rightarrow> consent_row list" where
  "upsert_consent userID clientID scopes now t =
     sql_upsert (\<lambda>k. (k_user_id k, k_client_id k))
       (\<lambda>k. k\<lparr>k_scopes := merge_arrays (k_scopes k) scopes, k_updated_at := timestamptz now\<rparr>)
       \<lparr>k_user_id = userID, k_client_id = clientID, k_scopes = scopes, k_granted_at = timestamptz now,
        k_updated_at = timestamptz now\<rparr> t"

definition Pg_DecideDeviceAuthorization ::
  "bytes \<Rightarrow> string \<Rightarrow> time \<Rightarrow> string list \<Rightarrow> string \<Rightarrow> bool \<Rightarrow> time \<Rightarrow> PgOAuth \<Rightarrow> (pg_error + unit) \<times> PgOAuth" where
  [store_defs]: "Pg_DecideDeviceAuthorization userHash userID authenticatedAt authMethods assuranceLevel approve now db =
     (let p = (\<lambda>d. d_user_code_hash d = userHash \<and> d_status d = DevicePending \<and> d_expires_at d > timestamptz now);
          status = (if approve then DeviceApproved else DeviceDenied)
      in case query_row p (oauth_device_authorizations db) of
           None \<Rightarrow> (Inl (GrantError ErrGrantNotFound), db)
         | Some row \<Rightarrow>
             let db1 = db\<lparr>oauth_device_authorizations := sql_update p
                   (\<lambda>d. d\<lparr>d_user_id := Some userID, d_authenticated_at := Some (timestamptz authenticatedAt),
                         d_authentication_methods := authMethods, d_assurance_level := assuranceLevel,
                         d_status := status, d_decided_at := Some (timestamptz now)\<rparr>) (oauth_device_authorizations db)\<rparr>
             in (Inr (),
                 if approve
                 then db1\<lparr>oauth_consents := upsert_consent userID (d_client_id row) (d_scope row) now (oauth_consents db1)\<rparr>
                 else db1))"

definition update_devices :: "bytes \<Rightarrow> (device_row \<Rightarrow> device_row) \<Rightarrow> PgOAuth \<Rightarrow> PgOAuth" where
  "update_devices hash f db =
     db\<lparr>oauth_device_authorizations := sql_update (\<lambda>d. d_device_code_hash d = hash) f (oauth_device_authorizations db)\<rparr>"

text \<open>\<open>PollDeviceAuthorization\<close>; a consumed authorization rolls the recorded poll back.\<close>

definition Pg_PollDeviceAuthorization ::
  "bytes \<Rightarrow> string \<Rightarrow> time \<Rightarrow> PgOAuth \<Rightarrow> (pg_error + DeviceAuthorization) \<times> PgOAuth" where
  [store_defs]: "Pg_PollDeviceAuthorization deviceHash clientID now db =
     (case query_row (\<lambda>d. d_device_code_hash d = deviceHash \<and> d_client_id d = clientID) (oauth_device_authorizations db) of
        None \<Rightarrow> (Inl (GrantError ErrGrantNotFound), db)
      | Some row \<Rightarrow>
          let v = scanDevice row in
          if \<not> da_ExpiresAt v > now then (Inl (GrantError ErrGrantExpired), db)
          else if (case da_LastPollAt v of None \<Rightarrow> False | Some l \<Rightarrow> now < l + da_Interval v) then
            (Inl (GrantError ErrSlowDown),
             update_devices deviceHash (\<lambda>d. d\<lparr>d_interval_seconds := go_quot (da_Interval v + 5 * second) second,
               d_last_poll_at := Some (timestamptz now)\<rparr>) db)
          else
            let db1 = update_devices deviceHash (\<lambda>d. d\<lparr>d_last_poll_at := Some (timestamptz now)\<rparr>) db in
            if da_Status v = DevicePending then (Inl (GrantError ErrAuthorizationPending), db1)
            else if da_Status v = DeviceDenied then (Inl (GrantError ErrAccessDenied), db1)
            else if da_Status v = DeviceConsumed then (Inl (GrantError ErrGrantConsumed), db)
            else if da_Status v = DeviceApproved then
              (Inr v, update_devices deviceHash (\<lambda>d. d\<lparr>d_status := DeviceConsumed, d_consumed_at := Some (timestamptz now)\<rparr>) db1)
            else (Inl (GrantError ErrGrantNotFound), db))"

section \<open>OIDC client sessions\<close>

definition scan_oidc :: "oidc_row \<Rightarrow> OIDCClientSession" where
  "scan_oidc o' = \<lparr>os_SessionID = o_session_id o', os_ClientID = o_client_id o', os_UserID = o_user_id o', os_CreatedAt = o_created_at o'\<rparr>"

definition Pg_SaveOIDCClientSession :: "OIDCClientSession \<Rightarrow> PgOAuth \<Rightarrow> (pg_error + unit) \<times> PgOAuth" where
  [store_defs]: "Pg_SaveOIDCClientSession v db =
     (Inr (), db\<lparr>oidc_client_sessions :=
        sql_upsert (\<lambda>o'. (o_session_id o', o_client_id o'))
          (\<lambda>o'. o'\<lparr>o_user_id := os_UserID v, o_created_at := timestamptz (os_CreatedAt v)\<rparr>)
          \<lparr>o_session_id = os_SessionID v, o_client_id = os_ClientID v, o_user_id = os_UserID v,
           o_created_at = timestamptz (os_CreatedAt v)\<rparr> (oidc_client_sessions db)\<rparr>)"

definition Pg_ListOIDCClientSessions :: "string \<Rightarrow> PgOAuth \<Rightarrow> OIDCClientSession list" where
  [store_defs]: "Pg_ListOIDCClientSessions sessionID db =
     map scan_oidc (sort_key o_client_id (filter (\<lambda>o'. o_session_id o' = sessionID) (oidc_client_sessions db)))"

definition Pg_DeleteOIDCClientSessions :: "string \<Rightarrow> PgOAuth \<Rightarrow> (pg_error + unit) \<times> PgOAuth" where
  [store_defs]: "Pg_DeleteOIDCClientSessions sessionID db =
     (Inr (), db\<lparr>oidc_client_sessions := sql_delete (\<lambda>o'. o_session_id o' = sessionID) (oidc_client_sessions db)\<rparr>)"

section \<open>Bulk revocation\<close>

definition deny_device_rows :: "(device_row \<Rightarrow> bool) \<Rightarrow> time \<Rightarrow> PgOAuth \<Rightarrow> PgOAuth" where
  "deny_device_rows p now db =
     db\<lparr>oauth_device_authorizations := sql_update p
        (\<lambda>d. d\<lparr>d_status := DeviceDenied, d_decided_at := coalesce (d_decided_at d) (timestamptz now)\<rparr>)
        (oauth_device_authorizations db)\<rparr>"

definition Pg_RevokeSessionTokens :: "string \<Rightarrow> string \<Rightarrow> time \<Rightarrow> PgOAuth \<Rightarrow> (pg_error + unit) \<times> PgOAuth" where
  [store_defs]: "Pg_RevokeSessionTokens userID sessionID now db =
     (Inr (),
      revoke_refresh_rows (\<lambda>t. r_user_id t = userID \<and> r_session_id t = Some sessionID) now
        (revoke_access_rows (\<lambda>a. a_user_id a = Some userID \<and> a_session_id a = Some sessionID) now
          (revoke_code_rows (\<lambda>c. c_user_id c = userID \<and> c_session_id c = sessionID) now db)))"

text \<open>\<open>session_id IS DISTINCT FROM nullif($2, '')::uuid\<close> counts \<open>NULL\<close> as a value of its own.\<close>

definition Pg_RevokeUserTokens :: "string \<Rightarrow> string \<Rightarrow> time \<Rightarrow> PgOAuth \<Rightarrow> (pg_error + unit) \<times> PgOAuth" where
  [store_defs]: "Pg_RevokeUserTokens userID exceptSessionID now db =
     (let others = (\<lambda>session_id. exceptSessionID = [] \<or> session_id \<noteq> nullableText exceptSessionID) in
      (Inr (),
       deny_device_rows (\<lambda>d. d_user_id d = Some userID \<and> d_status d = DeviceApproved) now
         (revoke_refresh_rows (\<lambda>t. r_user_id t = userID \<and> others (r_session_id t)) now
           (revoke_access_rows (\<lambda>a. a_user_id a = Some userID \<and> others (a_session_id a)) now
             (revoke_code_rows (\<lambda>c. c_user_id c = userID \<and> others (Some (c_session_id c))) now db)))))"

definition Pg_RevokeClientTokens :: "string \<Rightarrow> time \<Rightarrow> PgOAuth \<Rightarrow> (pg_error + unit) \<times> PgOAuth" where
  [store_defs]: "Pg_RevokeClientTokens clientID now db =
     (Inr (),
      deny_device_rows (\<lambda>d. d_client_id d = clientID \<and> d_status d \<in> {DevicePending, DeviceApproved}) now
        (revoke_refresh_rows (\<lambda>t. r_client_id t = clientID) now
          (revoke_access_rows (\<lambda>a. a_client_id a = clientID) now
            (revoke_code_rows (\<lambda>c. c_client_id c = clientID) now db))))"

section \<open>Consents\<close>

definition scan_consent :: "consent_row \<Rightarrow> Consent" where
  "scan_consent k = \<lparr>co_UserID = k_user_id k, co_ClientID = k_client_id k, co_Scopes = k_scopes k,
     co_GrantedAt = k_granted_at k, co_UpdatedAt = k_updated_at k\<rparr>"

abbreviation consent_of :: "string \<Rightarrow> string \<Rightarrow> consent_row \<Rightarrow> bool" where
  "consent_of userID clientID k \<equiv> k_user_id k = userID \<and> k_client_id k = clientID"

definition Pg_FindConsent :: "string \<Rightarrow> string \<Rightarrow> PgOAuth \<Rightarrow> pg_error + Consent" where
  [store_defs]: "Pg_FindConsent userID clientID db =
     (case query_row (consent_of userID clientID) (oauth_consents db) of
        None \<Rightarrow> Inl (GrantError ErrConsentNotFound)
      | Some k \<Rightarrow> Inr (scan_consent k))"

definition Pg_GrantConsent ::
  "string \<Rightarrow> string \<Rightarrow> string list \<Rightarrow> time \<Rightarrow> PgOAuth \<Rightarrow> (pg_error + Consent) \<times> PgOAuth" where
  [store_defs]: "Pg_GrantConsent userID clientID scopes now db =
     (let t = upsert_consent userID clientID scopes now (oauth_consents db)
      in case query_row (consent_of userID clientID) t of
           None \<Rightarrow> (Inl SQLError, db)
         | Some k \<Rightarrow> (Inr (scan_consent k), db\<lparr>oauth_consents := t\<rparr>))"

text \<open>\<open>ORDER BY updated_at DESC, client_id\<close>: sorted by the client first, then stably by the time.\<close>

definition Pg_ListConsentsByUser :: "string \<Rightarrow> PgOAuth \<Rightarrow> Consent list" where
  [store_defs]: "Pg_ListConsentsByUser userID db =
     map scan_consent (sort_key (\<lambda>k. - k_updated_at k) (sort_key k_client_id
       (filter (\<lambda>k. k_user_id k = userID) (oauth_consents db))))"

definition Pg_DeleteConsent :: "string \<Rightarrow> string \<Rightarrow> time \<Rightarrow> PgOAuth \<Rightarrow> (pg_error + unit) \<times> PgOAuth" where
  [store_defs]: "Pg_DeleteConsent userID clientID now db =
     (if rows_affected (consent_of userID clientID) (oauth_consents db) = 0 then (Inl (GrantError ErrConsentNotFound), db)
      else
        (Inr (),
         deny_device_rows (\<lambda>d. d_user_id d = Some userID \<and> d_client_id d = clientID \<and> d_status d = DeviceApproved) now
           (revoke_refresh_rows (\<lambda>t. r_user_id t = userID \<and> r_client_id t = clientID) now
             (revoke_access_rows (\<lambda>a. a_user_id a = Some userID \<and> a_client_id a = clientID) now
               (revoke_code_rows (\<lambda>c. c_user_id c = userID \<and> c_client_id c = clientID) now
                 (db\<lparr>oauth_consents := sql_delete (consent_of userID clientID) (oauth_consents db)\<rparr>))))))"

section \<open>The repository as one machine\<close>

type_synonym pg_result = "pg_error + oauth_value"

abbreviation pg_answer :: "('a \<Rightarrow> oauth_value) \<Rightarrow> (pg_error + 'a) \<times> PgOAuth \<Rightarrow> pg_result \<times> PgOAuth" where
  "pg_answer f x \<equiv> apfst (map_sum id f) x"

fun pg_oauth_step :: "PgOAuth \<Rightarrow> oauth_op \<Rightarrow> pg_result \<times> PgOAuth" where
  "pg_oauth_step r (OpSaveCode v) = pg_answer (\<lambda>_. Done) (Pg_SaveAuthorizationCode v r)"
| "pg_oauth_step r (OpConsumeCode h c u ch now) = pg_answer GotCode (Pg_ConsumeAuthorizationCode h c u ch now r)"
| "pg_oauth_step r (OpSaveAccess v) = pg_answer (\<lambda>_. Done) (Pg_SaveAccessToken v r)"
| "pg_oauth_step r (OpFindAccess h now) = pg_answer GotAccess (Pg_FindAccessToken h now r, r)"
| "pg_oauth_step r (OpRevokeAccess h c now) = pg_answer (\<lambda>_. Done) (Pg_RevokeAccessToken h c now r)"
| "pg_oauth_step r (OpSaveRefresh v) = pg_answer (\<lambda>_. Done) (Pg_SaveRefreshToken v r)"
| "pg_oauth_step r (OpFindRefresh h now) = pg_answer GotRefresh (Pg_FindRefreshToken h now r, r)"
| "pg_oauth_step r (OpRotate h v now) = pg_answer GotRefresh (Pg_RotateRefreshToken h v now r)"
| "pg_oauth_step r (OpRevokeRefresh h c now) = pg_answer (\<lambda>_. Done) (Pg_RevokeRefreshToken h c now r)"
| "pg_oauth_step r (OpSaveDevice v) = pg_answer (\<lambda>_. Done) (Pg_SaveDeviceAuthorization v r)"
| "pg_oauth_step r (OpFindDevice h now) = pg_answer GotDevice (Pg_FindDeviceByUserCode h now r, r)"
| "pg_oauth_step r (OpDecideDevice h u at ms al ok now) =
     pg_answer (\<lambda>_. Done) (Pg_DecideDeviceAuthorization h u at ms al ok now r)"
| "pg_oauth_step r (OpPollDevice h c now) = pg_answer GotDevice (Pg_PollDeviceAuthorization h c now r)"
| "pg_oauth_step r (OpSaveOIDC v) = pg_answer (\<lambda>_. Done) (Pg_SaveOIDCClientSession v r)"
| "pg_oauth_step r (OpListOIDC sid) = (Inr (GotOIDC (Pg_ListOIDCClientSessions sid r)), r)"
| "pg_oauth_step r (OpDeleteOIDC sid) = pg_answer (\<lambda>_. Done) (Pg_DeleteOIDCClientSessions sid r)"
| "pg_oauth_step r (OpRevokeSession u sid now) = pg_answer (\<lambda>_. Done) (Pg_RevokeSessionTokens u sid now r)"
| "pg_oauth_step r (OpRevokeUser u sid now) = pg_answer (\<lambda>_. Done) (Pg_RevokeUserTokens u sid now r)"
| "pg_oauth_step r (OpRevokeClient c now) = pg_answer (\<lambda>_. Done) (Pg_RevokeClientTokens c now r)"
| "pg_oauth_step r (OpFindConsent u c) = pg_answer GotConsent (Pg_FindConsent u c r, r)"
| "pg_oauth_step r (OpGrantConsent u c ss now) = pg_answer GotConsent (Pg_GrantConsent u c ss now r)"
| "pg_oauth_step r (OpListConsents u) = (Inr (GotConsents (Pg_ListConsentsByUser u r)), r)"
| "pg_oauth_step r (OpDeleteConsent u c now) = pg_answer (\<lambda>_. Done) (Pg_DeleteConsent u c now r)"

end
