(* ===== verification/Postgres_Grants.thy ===== *)
theory Postgres_Grants
  imports Postgres_OAuth
begin

text \<open>
  The PostgreSQL grant store implements the in-memory one: \<open>pg_rel\<close> relates tables to the in-memory lists
  row by row, \<open>pg_admissible\<close> says which calls are compared and \<open>pg_agree\<close> what must agree in the results.
\<close>

section \<open>Rows and records\<close>

definition code_view :: "code_row \<Rightarrow> AuthorizationCode \<times> bool \<times> bool" where
  "code_view c = (scan_code c, c_consumed_at c = None, c_revoked_at c = None)"

definition memory_code_view :: "memoryAuthorizationCode \<Rightarrow> AuthorizationCode \<times> bool \<times> bool" where
  "memory_code_view c = (AuthorizationCode.truncate c, ac_consumedAt c = None, ac_revokedAt c = None)"

definition access_view :: "access_row \<Rightarrow> AccessToken \<times> bool" where
  "access_view a = (scan_access a, a_revoked_at a = None)"

definition memory_access_view :: "memoryAccessToken \<Rightarrow> AccessToken \<times> bool" where
  "memory_access_view t = (AccessToken.truncate t, at_revokedAt t = None)"

text \<open>A \<open>nil\<close> scope counts as the empty one.\<close>

definition scope_view :: "RefreshToken \<Rightarrow> RefreshToken" where
  "scope_view t = t\<lparr>rt_Scope := Some (elems (rt_Scope t))\<rparr>"

definition refresh_view :: "refresh_row \<Rightarrow> RefreshToken \<times> bool \<times> bool" where
  "refresh_view t = (scan_refresh t, r_consumed_at t = None, r_revoked_at t = None)"

definition memory_refresh_view :: "memoryRefreshToken \<Rightarrow> RefreshToken \<times> bool \<times> bool" where
  "memory_refresh_view t = (scope_view (RefreshToken.truncate t), rt_consumedAt t = None, rt_revokedAt t = None)"

text \<open>Of a device authorization the fields of the decision matter once it is approved, and the polling
  interval until it is consumed.\<close>

definition decision_view :: "DeviceAuthorization \<Rightarrow> DeviceAuthorization" where
  "decision_view d = (if da_Status d \<in> {DeviceApproved, DeviceConsumed} then d
     else d\<lparr>da_UserID := [], da_AuthenticatedAt := 0, da_AuthMethods := [], da_AssuranceLevel := []\<rparr>)"

definition device_view :: "DeviceAuthorization \<Rightarrow> DeviceAuthorization" where
  "device_view d = (if da_Status d = DeviceConsumed then d\<lparr>da_Interval := 0, da_LastPollAt := None\<rparr> else decision_view d)"

text \<open>What the token endpoint reads of a polled authorization.\<close>

definition grant_view :: "DeviceAuthorization \<Rightarrow> DeviceAuthorization" where
  "grant_view d = d\<lparr>da_Status := DeviceConsumed, da_Interval := 0, da_LastPollAt := None\<rparr>"

text \<open>A consent is compared by its scopes as a set.\<close>

definition consent_view :: "Consent \<Rightarrow> string \<times> string \<times> string set \<times> time \<times> time" where
  "consent_view c = (co_UserID c, co_ClientID c, set (co_Scopes c), co_GrantedAt c, co_UpdatedAt c)"

section \<open>The relation\<close>

text \<open>Every family has an identifier and belongs to one client.\<close>

definition families_ok :: "(string \<times> string) list \<Rightarrow> bool" where
  "families_ok ps = (inj_on fst (set ps) \<and> [] \<notin> fst ` set ps)"

abbreviation family_of :: "memoryRefreshToken \<Rightarrow> string \<times> string" where
  "family_of t \<equiv> (rt_FamilyID t, rt_ClientID t)"

definition codes_rel :: "code_row list \<Rightarrow> memoryAuthorizationCode list \<Rightarrow> bool" where
  "codes_rel t cs = (map code_view t = map memory_code_view cs \<and> distinct (map ac_Hash cs))"

definition access_rel :: "access_row list \<Rightarrow> memoryAccessToken list \<Rightarrow> bool" where
  "access_rel t ts = (map access_view t = map memory_access_view ts \<and> distinct (map at_Hash ts))"

definition refresh_rel :: "refresh_row list \<Rightarrow> memoryRefreshToken list \<Rightarrow> bool" where
  "refresh_rel t ts = (map refresh_view t = map memory_refresh_view ts \<and> distinct (map rt_Hash ts) \<and> families_ok (map family_of ts))"

definition devices_rel :: "device_row list \<Rightarrow> DeviceAuthorization list \<Rightarrow> bool" where
  "devices_rel t ds =
     (map (device_view \<circ> scanDevice) t = map device_view ds
      \<and> distinct (map da_DeviceHash ds) \<and> distinct (map da_UserHash ds) \<and> (\<forall>d \<in> set ds. known_status (da_Status d)))"

definition oidc_rel :: "oidc_row list \<Rightarrow> OIDCClientSession list \<Rightarrow> bool" where
  "oidc_rel t vs = (map scan_oidc t = vs \<and> distinct (map (\<lambda>v. (os_SessionID v, os_ClientID v)) vs))"

definition consents_rel :: "consent_row list \<Rightarrow> Consent list \<Rightarrow> bool" where
  "consents_rel t cs =
     (map (consent_view \<circ> scan_consent) t = map consent_view cs \<and> distinct (map (\<lambda>c. (co_UserID c, co_ClientID c)) cs))"

definition pg_rel :: "PgOAuth \<Rightarrow> OAuthRepository \<Rightarrow> bool" where
  "pg_rel db r =
     (codes_rel (oauth_authorization_codes db) (codes r) \<and> access_rel (oauth_access_tokens db) (accessTokens r)
      \<and> refresh_rel (oauth_refresh_tokens db) (refresh r) \<and> devices_rel (oauth_device_authorizations db) (devices r)
      \<and> oidc_rel (oidc_client_sessions db) (oidcSessions r) \<and> consents_rel (oauth_consents db) (consents r))"

text \<open>The calls that are compared: the times are whole microseconds, what is saved is new, identifiers of
  users, sessions and families are there where a \<open>uuid\<close> is expected, a device authorization starts pending with an
  interval of whole seconds, and a rotation that keeps the scopes has some to keep.\<close>

fun pg_admissible :: "OAuthRepository \<Rightarrow> oauth_op \<Rightarrow> bool" where
  "pg_admissible r (OpSaveCode v) =
     (ac_Hash v \<notin> ac_Hash ` set (codes r) \<and> tick (ac_AuthenticatedAt v) \<and> tick (ac_CreatedAt v) \<and> tick (ac_ExpiresAt v))"
| "pg_admissible r (OpConsumeCode h c u ch now) = tick now"
| "pg_admissible r (OpSaveAccess v) =
     (at_Hash v \<notin> at_Hash ` set (accessTokens r) \<and> tick (at_IssuedAt v) \<and> tick (at_ExpiresAt v))"
| "pg_admissible r (OpFindAccess h now) = tick now"
| "pg_admissible r (OpRevokeAccess h c now) = tick now"
| "pg_admissible r (OpSaveRefresh v) =
     (rt_Hash v \<notin> rt_Hash ` set (refresh r) \<and> rt_FamilyID v \<noteq> [] \<and> rt_FamilyID v \<notin> rt_FamilyID ` set (refresh r)
      \<and> rt_Scope v \<noteq> None \<and> tick (rt_IssuedAt v) \<and> tick (rt_ExpiresAt v))"
| "pg_admissible r (OpFindRefresh h now) = tick now"
| "pg_admissible r (OpRotate h v now) =
     (rt_Hash v \<notin> rt_Hash ` set (refresh r) \<and> tick (rt_IssuedAt v) \<and> tick (rt_ExpiresAt v) \<and> tick now
      \<and> (rt_Scope v = None \<longrightarrow> (\<forall>t \<in> set (refresh r). rt_Hash t = h \<longrightarrow> elems (rt_Scope t) \<noteq> [])))"
| "pg_admissible r (OpRevokeRefresh h c now) = tick now"
| "pg_admissible r (OpSaveDevice v) =
     (da_DeviceHash v \<notin> da_DeviceHash ` set (devices r) \<and> da_UserHash v \<notin> da_UserHash ` set (devices r)
      \<and> da_Status v = DevicePending \<and> da_LastPollAt v = None
      \<and> da_Interval v > 0 \<and> da_Interval v mod second = 0 \<and> tick (da_CreatedAt v) \<and> tick (da_ExpiresAt v))"
| "pg_admissible r (OpFindDevice h now) = tick now"
| "pg_admissible r (OpDecideDevice h u at ms al ok now) = (u \<noteq> [] \<and> tick at \<and> tick now)"
| "pg_admissible r (OpPollDevice h c now) = tick now"
| "pg_admissible r (OpSaveOIDC v) = tick (os_CreatedAt v)"
| "pg_admissible r (OpListOIDC sid) = True"
| "pg_admissible r (OpDeleteOIDC sid) = True"
| "pg_admissible r (OpRevokeSession u sid now) = (u \<noteq> [] \<and> sid \<noteq> [] \<and> tick now)"
| "pg_admissible r (OpRevokeUser u sid now) = (u \<noteq> [] \<and> tick now)"
| "pg_admissible r (OpRevokeClient c now) = tick now"
| "pg_admissible r (OpFindConsent u c) = True"
| "pg_admissible r (OpGrantConsent u c ss now) = tick now"
| "pg_admissible r (OpListConsents u) = True"
| "pg_admissible r (OpDeleteConsent u c now) = (u \<noteq> [] \<and> tick now)"

text \<open>Results agree when both calls fail, or both succeed with the same value; a refresh token up to a \<open>nil\<close> scope, a device
  authorization and a consent up to their views, lists up to their order.\<close>

definition device_agrees :: "oauth_op \<Rightarrow> DeviceAuthorization \<Rightarrow> DeviceAuthorization \<Rightarrow> bool" where
  "device_agrees op d e =
     (case op of OpPollDevice _ _ _ \<Rightarrow> grant_view d = grant_view e | _ \<Rightarrow> device_view d = device_view e)"

fun value_agrees :: "oauth_op \<Rightarrow> oauth_value \<Rightarrow> oauth_value \<Rightarrow> bool" where
  "value_agrees op Done y = (y = Done)"
| "value_agrees op (GotCode c) y = (y = GotCode c)"
| "value_agrees op (GotAccess t) y = (y = GotAccess t)"
| "value_agrees op (GotRefresh t) y = (case y of GotRefresh u \<Rightarrow> scope_view t = scope_view u | _ \<Rightarrow> False)"
| "value_agrees op (GotDevice d) y = (case y of GotDevice e \<Rightarrow> device_agrees op d e | _ \<Rightarrow> False)"
| "value_agrees op (GotOIDC xs) y = (case y of GotOIDC ys \<Rightarrow> mset xs = mset ys | _ \<Rightarrow> False)"
| "value_agrees op (GotConsent c) y = (case y of GotConsent d \<Rightarrow> consent_view c = consent_view d | _ \<Rightarrow> False)"
| "value_agrees op (GotConsents cs) y =
     (case y of GotConsents ds \<Rightarrow> mset (map consent_view cs) = mset (map consent_view ds) | _ \<Rightarrow> False)"

fun pg_agree :: "oauth_op \<Rightarrow> pg_result \<Rightarrow> oauth_result \<Rightarrow> bool" where
  "pg_agree op (Inl _) (Inl _) = True"
| "pg_agree op (Inr x) (Inr y) = value_agrees op x y"
| "pg_agree op _ _ = False"

abbreviation agrees_at :: "PgOAuth \<Rightarrow> OAuthRepository \<Rightarrow> oauth_op \<Rightarrow> bool" where
  "agrees_at db r op \<equiv> pg_agree op (fst (pg_oauth_step db op)) (fst (oauth_step r op))
     \<and> pg_rel (snd (pg_oauth_step db op)) (snd (oauth_step r op))"

section \<open>Facts on views\<close>

lemmas view_defs = code_view_def memory_code_view_def access_view_def memory_access_view_def refresh_view_def
  memory_refresh_view_def scope_view_def scan_code_def scan_access_def scan_refresh_def embed_defs

lemma device_view_eq:
  "device_view d = device_view e \<longleftrightarrow>
     da_DeviceHash d = da_DeviceHash e \<and> da_UserHash d = da_UserHash e \<and> da_ClientID d = da_ClientID e
     \<and> da_Scope d = da_Scope e \<and> da_Status d = da_Status e \<and> da_CreatedAt d = da_CreatedAt e \<and> da_ExpiresAt d = da_ExpiresAt e
     \<and> (da_Status d \<in> {DeviceApproved, DeviceConsumed} \<longrightarrow>
          da_UserID d = da_UserID e \<and> da_AuthenticatedAt d = da_AuthenticatedAt e \<and> da_AuthMethods d = da_AuthMethods e
          \<and> da_AssuranceLevel d = da_AssuranceLevel e)
     \<and> (da_Status d \<noteq> DeviceConsumed \<longrightarrow> da_Interval d = da_Interval e \<and> da_LastPollAt d = da_LastPollAt e)"
  by (cases d; cases e) (simp add: device_view_def decision_view_def; blast)

section \<open>Codes\<close>

lemma code_fields:
  assumes "code_view c = memory_code_view m"
  shows "c_code_hash c = ac_Hash m" "c_client_id c = ac_ClientID m" "c_user_id c = ac_UserID m" "c_session_id c = ac_SessionID m"
    "c_redirect_uri c = ac_RedirectURI m" "c_code_challenge c = ac_CodeChallenge m" "c_expires_at c = ac_ExpiresAt m"
    "c_consumed_at c = None \<longleftrightarrow> ac_consumedAt m = None" "c_revoked_at c = None \<longleftrightarrow> ac_revokedAt m = None"
    "scan_code c = AuthorizationCode.truncate m"
  using assms by (simp_all add: view_defs)

lemma codes_rel_insert:
  "codes_rel t cs \<Longrightarrow> code_view row = memory_code_view m \<Longrightarrow> ac_Hash m \<notin> ac_Hash ` set cs \<Longrightarrow> codes_rel (t @ [row]) (cs @ [m])"
  by (simp add: codes_rel_def)

lemma codes_rel_keys: "codes_rel t cs \<Longrightarrow> c_code_hash ` set t = ac_Hash ` set cs"
  by (rule in_key_view [where v = code_view and w = memory_code_view]) (auto simp: codes_rel_def code_fields)

lemma codes_rel_update:
  assumes "codes_rel t cs" and "\<And>x y. code_view x = memory_code_view y \<Longrightarrow> p x = q y"
    and "\<And>x y. code_view x = memory_code_view y \<Longrightarrow> code_view (f x) = memory_code_view (g y)"
    and "\<And>y. ac_Hash (g y) = ac_Hash y"
  shows "codes_rel (sql_update p f t) (sql_update q g cs)"
  using assms by (simp add: codes_rel_def map_sql_update sql_update_view [where w = memory_code_view])

lemma save_code_step:
  assumes "pg_rel db r" and "pg_admissible r (OpSaveCode v)"
  shows "agrees_at db r (OpSaveCode v)"
proof -
  let ?m = "AuthorizationCode.extend v \<lparr>ac_consumedAt = None, ac_revokedAt = None\<rparr>"
  have fresh: "ac_Hash ?m \<notin> ac_Hash ` set (codes r)" and view: "code_view (code_row_of v) = memory_code_view ?m"
    using assms(2) by (simp_all add: view_defs code_row_of_def)
  have "c_code_hash (code_row_of v) \<notin> c_code_hash ` set (oauth_authorization_codes db)"
    using assms fresh codes_rel_keys [of "oauth_authorization_codes db" "codes r"]
    by (simp add: pg_rel_def code_row_of_def embed_defs)
  then show ?thesis using assms codes_rel_insert [OF _ view fresh]
    by (simp add: store_defs sql_insert_def pg_rel_def)
qed

lemma consume_code_step:
  assumes "pg_rel db r" and "pg_admissible r (OpConsumeCode h c u ch now)"
  shows "agrees_at db r (OpConsumeCode h c u ch now)"
proof -
  let ?cs = "codes r" and ?t = "oauth_authorization_codes db"
  let ?rest = "\<lambda>m. ac_ClientID m = c \<and> ac_RedirectURI m = u \<and> ac_CodeChallenge m = ch \<and> ac_consumedAt m = None
     \<and> ac_revokedAt m = None \<and> ac_ExpiresAt m > now"
  let ?p = "\<lambda>x. c_code_hash x = h \<and> c_client_id x = c \<and> c_redirect_uri x = u \<and> c_code_challenge x = ch
     \<and> c_consumed_at x = None \<and> c_revoked_at x = None \<and> c_expires_at x > timestamptz now"
  let ?q = "\<lambda>m. ac_Hash m = h \<and> ?rest m"
  have rel: "codes_rel ?t ?cs" and now: "timestamptz now = now" using assms by (simp_all add: pg_rel_def)
  then have keyed: "distinct (map ac_Hash ?cs)" by (simp add: codes_rel_def)
  have pq: "code_view x = memory_code_view y \<Longrightarrow> ?p x = ?q y" for x y by (simp add: code_fields now)
  have found: "rel_option (\<lambda>x y. code_view x = memory_code_view y \<and> x \<in> set ?t \<and> y \<in> set ?cs) (find ?p ?t) (find ?q ?cs)"
    by (rule find_map_view) (use rel pq in \<open>simp_all add: codes_rel_def\<close>)
  have memory: "find ?q ?cs = (case find (\<lambda>m. ac_Hash m = h) ?cs of None \<Rightarrow> None | Some m \<Rightarrow> if ?rest m then Some m else None)"
    by (rule find_keyed [OF keyed])
  show ?thesis
  proof (cases "find ?p ?t")
    case None
    with found memory have "(\<forall>m. find (\<lambda>m. ac_Hash m = h) ?cs = Some m \<longrightarrow> \<not> ?rest m)" by (auto split: if_splits)
    with None assms(1) show ?thesis by (auto simp: store_defs query_row_def split: option.split)
  next
    case (Some x)
    with found obtain m where m: "find ?q ?cs = Some m" "code_view x = memory_code_view m" by (auto simp: option_rel_Some1)
    with memory have hash: "find (\<lambda>m. ac_Hash m = h) ?cs = Some m" and rest: "?rest m" by (auto split: option.splits if_splits)
    have same: "update_first (\<lambda>m. ac_Hash m = h) (\<lambda>m. m\<lparr>ac_consumedAt := Some now\<rparr>) ?cs
        = sql_update ?q (\<lambda>m. m\<lparr>ac_consumedAt := Some now\<rparr>) ?cs"
      using keyed hash rest by (rule update_first_strong)
    have "codes_rel (sql_update ?p (\<lambda>x. x\<lparr>c_consumed_at := Some (timestamptz now)\<rparr>) ?t)
        (sql_update ?q (\<lambda>m. m\<lparr>ac_consumedAt := Some now\<rparr>) ?cs)"
      by (rule codes_rel_update [OF rel pq]) (simp_all add: view_defs)
    with Some m hash rest assms(1) show ?thesis
      by (simp add: store_defs query_row_def same code_fields pg_rel_def)
  qed
qed

section \<open>Access tokens\<close>

lemma access_fields:
  assumes "access_view a = memory_access_view m"
  shows "a_token_hash a = at_Hash m" "a_client_id a = at_ClientID m" "text_of (a_user_id a) = at_UserID m"
    "text_of (a_session_id a) = at_SessionID m" "text_of (a_refresh_family_id a) = at_FamilyID m" "a_expires_at a = at_ExpiresAt m"
    "a_revoked_at a = None \<longleftrightarrow> at_revokedAt m = None" "scan_access a = AccessToken.truncate m"
  using assms by (simp_all add: view_defs)

lemma access_rel_insert:
  "access_rel t ts \<Longrightarrow> access_view row = memory_access_view m \<Longrightarrow> at_Hash m \<notin> at_Hash ` set ts \<Longrightarrow> access_rel (t @ [row]) (ts @ [m])"
  by (simp add: access_rel_def)

lemma access_rel_keys: "access_rel t ts \<Longrightarrow> a_token_hash ` set t = at_Hash ` set ts"
  by (rule in_key_view [where v = access_view and w = memory_access_view]) (auto simp: access_rel_def access_fields)

lemma access_rel_update:
  assumes "access_rel t ts" and "\<And>x y. access_view x = memory_access_view y \<Longrightarrow> p x = q y"
    and "\<And>x y. access_view x = memory_access_view y \<Longrightarrow> access_view (f x) = memory_access_view (g y)"
    and "\<And>y. at_Hash (g y) = at_Hash y"
  shows "access_rel (sql_update p f t) (sql_update q g ts)"
  using assms by (simp add: access_rel_def map_sql_update sql_update_view [where w = memory_access_view])

lemma access_found:
  assumes "access_rel t ts" and "\<And>x y. access_view x = memory_access_view y \<Longrightarrow> p x = q y"
  shows "rel_option (\<lambda>x y. access_view x = memory_access_view y \<and> x \<in> set t \<and> y \<in> set ts) (find p t) (find q ts)"
  by (rule find_map_view) (use assms in \<open>simp_all add: access_rel_def\<close>)

lemma save_access_step:
  assumes "pg_rel db r" and "pg_admissible r (OpSaveAccess v)"
  shows "agrees_at db r (OpSaveAccess v)"
proof -
  let ?m = "AccessToken.extend v \<lparr>at_revokedAt = None\<rparr>"
  have fresh: "at_Hash ?m \<notin> at_Hash ` set (accessTokens r)" and view: "access_view (access_row_of v) = memory_access_view ?m"
    using assms(2) by (simp_all add: view_defs access_row_of_def)
  have "a_token_hash (access_row_of v) \<notin> a_token_hash ` set (oauth_access_tokens db)"
    using assms fresh access_rel_keys [of "oauth_access_tokens db" "accessTokens r"]
    by (simp add: pg_rel_def access_row_of_def embed_defs)
  then show ?thesis using assms access_rel_insert [OF _ view fresh]
    by (simp add: store_defs sql_insert_def pg_rel_def)
qed

lemma find_access_step:
  assumes "pg_rel db r" and "pg_admissible r (OpFindAccess h now)"
  shows "agrees_at db r (OpFindAccess h now)"
proof -
  let ?p = "\<lambda>a. a_token_hash a = h \<and> a_revoked_at a = None \<and> a_expires_at a > timestamptz now"
    and ?q = "\<lambda>t. at_Hash t = h \<and> at_revokedAt t = None \<and> at_ExpiresAt t > now"
  have "rel_option (\<lambda>x y. access_view x = memory_access_view y \<and> x \<in> set (oauth_access_tokens db) \<and> y \<in> set (accessTokens r))
      (find ?p (oauth_access_tokens db)) (find ?q (accessTokens r))"
    by (rule access_found) (use assms in \<open>simp_all add: pg_rel_def access_fields\<close>)
  with assms(1) show ?thesis
    by (cases "find ?p (oauth_access_tokens db)"; cases "find ?q (accessTokens r)")
      (simp_all add: store_defs query_row_def access_fields)
qed

lemma revoke_access_step:
  assumes "pg_rel db r" and "pg_admissible r (OpRevokeAccess h c now)"
  shows "agrees_at db r (OpRevokeAccess h c now)"
proof -
  let ?t = "oauth_access_tokens db" and ?ts = "accessTokens r"
  let ?p = "\<lambda>a. a_token_hash a = h \<and> a_client_id a = c" and ?q = "\<lambda>t. at_Hash t = h \<and> at_ClientID t = c"
  have rel: "access_rel ?t ?ts" and keyed: "distinct (map at_Hash ?ts)" using assms(1) by (simp_all add: pg_rel_def access_rel_def)
  have found: "rel_option (\<lambda>x y. access_view x = memory_access_view y \<and> x \<in> set ?t \<and> y \<in> set ?ts) (find ?p ?t) (find ?q ?ts)"
    by (rule access_found [OF rel]) (simp add: access_fields)
  let ?f = "\<lambda>a. a\<lparr>a_revoked_at := coalesce (a_revoked_at a) (timestamptz now)\<rparr>"
  show ?thesis
  proof (cases "find ?q ?ts")
    case None
    with found have none: "find ?p ?t = None" by simp
    then have "sql_update ?p ?f ?t = ?t" by (rule sql_update_none)
    with None none assms(1) show ?thesis by (simp add: store_defs rows_affected_0 Let_def)
  next
    case (Some m)
    with found obtain x where x: "find ?p ?t = Some x" by (auto simp: option_rel_Some2)
    have "access_rel (sql_update ?p ?f ?t) (if at_revokedAt m = None then update_first ?q (\<lambda>t. t\<lparr>at_revokedAt := Some now\<rparr>) ?ts else ?ts)"
    proof (cases "at_revokedAt m = None")
      case True
      have "update_first ?q (\<lambda>t. t\<lparr>at_revokedAt := Some now\<rparr>) ?ts = sql_update ?q (\<lambda>t. t\<lparr>at_revokedAt := Some now\<rparr>) ?ts"
        by (rule update_first_sql [OF keyed, where k = h]) simp
      moreover have "access_rel (sql_update ?p ?f ?t) (sql_update ?q (\<lambda>t. t\<lparr>at_revokedAt := Some now\<rparr>) ?ts)"
        by (rule access_rel_update [OF rel]) (simp add: access_fields, simp_all add: view_defs)
      ultimately show ?thesis using True by simp
    next
      case False
      have only: "y \<in> set ?ts \<Longrightarrow> ?q y \<Longrightarrow> y = m" for y
        using keyed find_SomeD [OF Some] by (auto simp: distinct_map inj_on_def)
      have "access_rel (sql_update ?p ?f ?t) (sql_update ?q (\<lambda>t. t\<lparr>at_revokedAt := coalesce (at_revokedAt t) now\<rparr>) ?ts)"
        by (rule access_rel_update [OF rel]) (simp add: access_fields, simp_all add: view_defs)
      moreover have "sql_update ?q (\<lambda>t. t\<lparr>at_revokedAt := coalesce (at_revokedAt t) now\<rparr>) ?ts = ?ts"
        using only False by (auto simp: sql_update_def coalesce_def intro!: map_idI split: option.split)
      ultimately show ?thesis using False by auto
    qed
    with Some x assms(1) show ?thesis
      by (cases "at_revokedAt m") (simp_all add: store_defs rows_affected_0 Let_def pg_rel_def)
  qed
qed

section \<open>Refresh tokens\<close>

lemma refresh_fields:
  assumes "refresh_view t = memory_refresh_view m"
  shows "r_token_hash t = rt_Hash m" "r_family_id t = rt_FamilyID m" "r_client_id t = rt_ClientID m" "r_user_id t = rt_UserID m"
    "text_of (r_session_id t) = rt_SessionID m" "r_scope t = elems (rt_Scope m)" "r_expires_at t = rt_ExpiresAt m"
    "r_consumed_at t = None \<longleftrightarrow> rt_consumedAt m = None" "r_revoked_at t = None \<longleftrightarrow> rt_revokedAt m = None"
    "scan_refresh t = scope_view (RefreshToken.truncate m)"
  using assms by (simp_all add: view_defs)

lemma elems_Some [simp]: "elems (Some xs) = xs" "elems None = []"
  by (simp_all add: elems_def)

lemma scope_view_idem [simp]:
  "scope_view (scope_view t) = scope_view t" "scope_view (t\<lparr>rt_Scope := copy_slice (rt_Scope u)\<rparr>) = scope_view (t\<lparr>rt_Scope := rt_Scope u\<rparr>)"
  by (simp_all add: scope_view_def)

lemma families_ok_append:
  "families_ok ps \<Longrightarrow> f \<noteq> [] \<Longrightarrow> (\<And>p. p \<in> set ps \<Longrightarrow> fst p = f \<Longrightarrow> snd p = c) \<Longrightarrow> families_ok (ps @ [(f, c)])"
  by (auto simp: families_ok_def prod_eq_iff)

lemma refresh_rel_insert:
  "refresh_rel t ts \<Longrightarrow> refresh_view row = memory_refresh_view m \<Longrightarrow> rt_Hash m \<notin> rt_Hash ` set ts \<Longrightarrow> rt_FamilyID m \<noteq> [] \<Longrightarrow>
     (\<And>u. u \<in> set ts \<Longrightarrow> rt_FamilyID u = rt_FamilyID m \<Longrightarrow> rt_ClientID u = rt_ClientID m) \<Longrightarrow> refresh_rel (t @ [row]) (ts @ [m])"
  unfolding refresh_rel_def by (auto intro!: families_ok_append)

lemma refresh_rel_keys: "refresh_rel t ts \<Longrightarrow> r_token_hash ` set t = rt_Hash ` set ts"
  by (rule in_key_view [where v = refresh_view and w = memory_refresh_view]) (simp_all add: refresh_rel_def refresh_fields)

lemma refresh_rel_update:
  assumes "refresh_rel t ts" and "\<And>x y. y \<in> set ts \<Longrightarrow> refresh_view x = memory_refresh_view y \<Longrightarrow> p x = q y"
    and "\<And>x y. refresh_view x = memory_refresh_view y \<Longrightarrow> refresh_view (f x) = memory_refresh_view (g y)"
    and "\<And>y. rt_Hash (g y) = rt_Hash y" "\<And>y. rt_FamilyID (g y) = rt_FamilyID y" "\<And>y. rt_ClientID (g y) = rt_ClientID y"
  shows "refresh_rel (sql_update p f t) (sql_update q g ts)"
proof -
  have "map refresh_view (sql_update p f t) = map memory_refresh_view (sql_update q g ts)"
    by (rule sql_update_view_in) (use assms(1-3) in \<open>simp_all add: refresh_rel_def\<close>)
  with assms(1,4-6) show ?thesis
    by (simp add: refresh_rel_def map_sql_update map_sql_update [where key = family_of])
qed

lemma refresh_found:
  assumes "refresh_rel t ts" and "\<And>x y. refresh_view x = memory_refresh_view y \<Longrightarrow> p x = q y"
  shows "rel_option (\<lambda>x y. refresh_view x = memory_refresh_view y \<and> x \<in> set t \<and> y \<in> set ts) (find p t) (find q ts)"
  by (rule find_map_view) (use assms in \<open>simp_all add: refresh_rel_def\<close>)

lemma save_refresh_step:
  assumes "pg_rel db r" and "pg_admissible r (OpSaveRefresh v)"
  shows "agrees_at db r (OpSaveRefresh v)"
proof -
  let ?m = "RefreshToken.extend (v\<lparr>rt_Scope := copy_slice (rt_Scope v)\<rparr>) \<lparr>rt_consumedAt = None, rt_revokedAt = None\<rparr>"
  obtain scopes where scopes: "rt_Scope v = Some scopes" using assms(2) by auto
  then obtain row where row: "refresh_row_of v = Some row" by (simp add: refresh_row_of_def)
  have fresh: "rt_Hash ?m \<notin> rt_Hash ` set (refresh r)" and family: "rt_FamilyID ?m \<noteq> []"
      "\<And>u. u \<in> set (refresh r) \<Longrightarrow> rt_FamilyID u = rt_FamilyID ?m \<Longrightarrow> rt_ClientID u = rt_ClientID ?m"
    using assms(2) by (simp_all add: embed_defs) (metis imageI)
  have view: "refresh_view row = memory_refresh_view ?m"
    using row scopes assms(2) by (auto simp: view_defs refresh_row_of_def)
  have "r_token_hash row \<notin> r_token_hash ` set (oauth_refresh_tokens db)"
    using assms(1) fresh refresh_rel_keys [of "oauth_refresh_tokens db" "refresh r"] refresh_fields(1) [OF view] by (simp add: pg_rel_def)
  then show ?thesis using assms(1) row refresh_rel_insert [OF _ view fresh family]
    by (simp add: store_defs sql_insert_def insert_refresh_def pg_rel_def)
qed

lemma find_refresh_step:
  assumes "pg_rel db r" and "pg_admissible r (OpFindRefresh h now)"
  shows "agrees_at db r (OpFindRefresh h now)"
proof -
  let ?p = "\<lambda>t. r_token_hash t = h \<and> r_consumed_at t = None \<and> r_revoked_at t = None \<and> r_expires_at t > timestamptz now"
    and ?q = "\<lambda>t. rt_Hash t = h \<and> rt_consumedAt t = None \<and> rt_revokedAt t = None \<and> rt_ExpiresAt t > now"
  have "rel_option (\<lambda>x y. refresh_view x = memory_refresh_view y \<and> x \<in> set (oauth_refresh_tokens db) \<and> y \<in> set (refresh r))
      (find ?p (oauth_refresh_tokens db)) (find ?q (refresh r))"
    by (rule refresh_found) (use assms in \<open>simp_all add: pg_rel_def refresh_fields\<close>)
  with assms(1) show ?thesis
    by (cases "find ?p (oauth_refresh_tokens db)"; cases "find ?q (refresh r)")
      (simp_all add: store_defs query_row_def refresh_fields(10) scope_view_def embed_defs)
qed

text \<open>Revocation of a family: what the statements and the loops do to related states.\<close>

lemma revoke_refresh_rel:
  assumes "refresh_rel t ts" and "\<And>x y. y \<in> set ts \<Longrightarrow> refresh_view x = memory_refresh_view y \<Longrightarrow> p x = q y"
  shows "refresh_rel (sql_update p (\<lambda>t. t\<lparr>r_revoked_at := coalesce (r_revoked_at t) now\<rparr>) t)
    (sql_update q (\<lambda>t. t\<lparr>rt_revokedAt := Some now\<rparr>) ts)"
  by (rule refresh_rel_update [OF assms]) (simp_all add: view_defs)

lemma revoke_access_rel:
  assumes "access_rel t ts" and "\<And>x y. access_view x = memory_access_view y \<Longrightarrow> p x = q y"
  shows "access_rel (sql_update p (\<lambda>a. a\<lparr>a_revoked_at := coalesce (a_revoked_at a) now\<rparr>) t)
    (sql_update q (\<lambda>t. t\<lparr>at_revokedAt := Some now\<rparr>) ts)"
  by (rule access_rel_update [OF assms]) (simp_all add: view_defs)

lemma revoke_family_related:
  assumes rel: "pg_rel db r" and "tick now" and "family \<noteq> []"
    and p: "\<And>x y. y \<in> set (refresh r) \<Longrightarrow> refresh_view x = memory_refresh_view y \<Longrightarrow> p x = (rt_FamilyID y = family)"
  shows "pg_rel (revoke_access_rows (\<lambda>a. a_refresh_family_id a = Some family) now (revoke_refresh_rows p now db))
    (revoke_family family now r)"
proof -
  have "refresh_rel (sql_update p (\<lambda>t. t\<lparr>r_revoked_at := coalesce (r_revoked_at t) now\<rparr>) (oauth_refresh_tokens db))
      (sql_update (\<lambda>t. rt_FamilyID t = family) (\<lambda>t. t\<lparr>rt_revokedAt := Some now\<rparr>) (refresh r))"
    by (rule revoke_refresh_rel) (use rel p in \<open>simp_all add: pg_rel_def\<close>)
  moreover have "access_rel (sql_update (\<lambda>a. a_refresh_family_id a = Some family)
        (\<lambda>a. a\<lparr>a_revoked_at := coalesce (a_revoked_at a) now\<rparr>) (oauth_access_tokens db))
      (sql_update (\<lambda>t. at_FamilyID t = family) (\<lambda>t. t\<lparr>at_revokedAt := Some now\<rparr>) (accessTokens r))"
    by (rule revoke_access_rel) (use rel \<open>family \<noteq> []\<close> in \<open>simp_all add: pg_rel_def text_of_iff access_fields\<close>)
  ultimately show ?thesis using rel \<open>tick now\<close>
    by (simp add: pg_rel_def revoke_access_rows_def revoke_refresh_rows_def revoke_family_def sql_update_def)
qed

lemma refresh_family:
  "refresh_rel t ts \<Longrightarrow> m \<in> set ts \<Longrightarrow> rt_FamilyID m \<noteq> []"
  "refresh_rel t ts \<Longrightarrow> m \<in> set ts \<Longrightarrow> y \<in> set ts \<Longrightarrow> rt_FamilyID y = rt_FamilyID m \<Longrightarrow> rt_ClientID y = rt_ClientID m"
proof -
  assume rel: "refresh_rel t ts" and m: "m \<in> set ts"
  then have ok: "families_ok (map family_of ts)" by (simp add: refresh_rel_def)
  with m show "rt_FamilyID m \<noteq> []" by (force simp: families_ok_def)
  assume "y \<in> set ts" and "rt_FamilyID y = rt_FamilyID m"
  then have in_y: "family_of y \<in> family_of ` set ts" and same: "fst (family_of y) = fst (family_of m)" by (blast, simp)
  from ok have inj: "inj_on fst (family_of ` set ts)" by (simp add: families_ok_def)
  have "family_of y = family_of m" by (rule inj_onD [OF inj same in_y imageI [OF m]])
  then show "rt_ClientID y = rt_ClientID m" by simp
qed

lemma revoke_refresh_step:
  assumes "pg_rel db r" and "pg_admissible r (OpRevokeRefresh h c now)"
  shows "agrees_at db r (OpRevokeRefresh h c now)"
proof -
  let ?t = "oauth_refresh_tokens db" and ?ts = "refresh r"
  let ?p = "\<lambda>t. r_token_hash t = h \<and> r_client_id t = c" and ?q = "\<lambda>t. rt_Hash t = h \<and> rt_ClientID t = c"
  have rel: "refresh_rel ?t ?ts" using assms(1) by (simp add: pg_rel_def)
  have found: "rel_option (\<lambda>x y. refresh_view x = memory_refresh_view y \<and> x \<in> set ?t \<and> y \<in> set ?ts) (find ?p ?t) (find ?q ?ts)"
    by (rule refresh_found [OF rel]) (simp add: refresh_fields)
  show ?thesis
  proof (cases "find ?q ?ts")
    case None
    with found assms(1) show ?thesis by (simp add: store_defs query_row_def)
  next
    case (Some m)
    with found obtain x where x: "find ?p ?t = Some x" "refresh_view x = memory_refresh_view m" "x \<in> set ?t" "m \<in> set ?ts"
      by (auto simp: option_rel_Some2)
    let ?rows = "\<lambda>t. r_family_id t = rt_FamilyID m \<and> r_client_id t = c"
    have m: "rt_ClientID m = c" using find_SomeD [OF Some] by simp
    have "?rows x" using x(2) m by (simp add: refresh_fields)
    with x(3) have "find ?rows ?t \<noteq> None" unfolding find_None_iff by blast
    moreover have "pg_rel (revoke_access_rows (\<lambda>a. a_refresh_family_id a = Some (rt_FamilyID m)) now (revoke_refresh_rows ?rows now db))
        (revoke_family (rt_FamilyID m) now r)"
    proof (rule revoke_family_related [OF assms(1)])
      show "tick now" "rt_FamilyID m \<noteq> []" using assms(2) refresh_family(1) [OF rel x(4)] by simp_all
      fix a y assume "y \<in> set (refresh r)" and "refresh_view a = memory_refresh_view y"
      then show "?rows a = (rt_FamilyID y = rt_FamilyID m)"
        using refresh_family(2) [OF rel x(4)] m refresh_fields(2,3) by metis
    qed
    ultimately show ?thesis using Some x(1,2) by (simp add: store_defs query_row_def rows_affected_0 refresh_fields Let_def)
  qed
qed

lemma rotated_replacement_view:
  assumes "refresh_view x = memory_refresh_view m" and "rt_Scope v = None \<longrightarrow> elems (rt_Scope m) \<noteq> []"
  shows "rotated_replacement (scan_refresh x) v = rotated_token m v" and "rt_Scope (rotated_token m v) \<noteq> None"
  using assms
  by (cases "rt_Scope m"; cases "rt_Scope v";
      simp add: rotated_replacement_def rotated_token_def refresh_fields scope_view_def copy_slice_def embed_defs Let_def)+

lemma rotated_token_IssuedAt [simp]: "rt_IssuedAt (rotated_token m v) = rt_IssuedAt v"
  by (simp add: rotated_token_def Let_def)

lemma refresh_row_view:
  assumes "rt_Scope v \<noteq> None" and "tick (rt_IssuedAt v)" and "tick (rt_ExpiresAt v)"
  obtains row where "refresh_row_of v = Some row"
    and "refresh_view row = memory_refresh_view (RefreshToken.extend v \<lparr>rt_consumedAt = None, rt_revokedAt = None\<rparr>)"
  using assms by (auto simp: refresh_row_of_def view_defs)

lemma rotation_related:
  assumes "refresh_rel t ts" and x: "refresh_view x = memory_refresh_view m" "m \<in> set ts" and h: "rt_Hash m = h"
    and fresh: "rt_Hash v \<notin> rt_Hash ` set ts" and client: "rt_ClientID v = rt_ClientID m"
    and scope: "rt_Scope v = None \<longrightarrow> elems (rt_Scope m) \<noteq> []" and ticks: "tick (rt_IssuedAt v)" "tick (rt_ExpiresAt v)"
  obtains t' where "insert_refresh (rotated_token m v) (sql_update (\<lambda>t. r_token_hash t = h)
        (\<lambda>t. t\<lparr>r_consumed_at := Some now, r_replaced_by_hash := Some (rt_Hash v)\<rparr>) t) = Some t'"
    and "refresh_rel t' (update_first (\<lambda>t. rt_Hash t = h) (\<lambda>t. t\<lparr>rt_consumedAt := Some now\<rparr>) ts
        @ [RefreshToken.extend (rotated_token m v) \<lparr>rt_consumedAt = None, rt_revokedAt = None\<rparr>])"
proof -
  let ?f = "\<lambda>t. t\<lparr>r_consumed_at := Some now, r_replaced_by_hash := Some (rt_Hash v)\<rparr>"
    and ?g = "\<lambda>t. t\<lparr>rt_consumedAt := Some now\<rparr>"
  let ?m = "RefreshToken.extend (rotated_token m v) \<lparr>rt_consumedAt = None, rt_revokedAt = None\<rparr>"
  have keyed: "distinct (map rt_Hash ts)" using assms(1) by (simp add: refresh_rel_def)
  have updated: "refresh_rel (sql_update (\<lambda>t. r_token_hash t = h) ?f t) (sql_update (\<lambda>t. rt_Hash t = h) ?g ts)"
    by (rule refresh_rel_update [OF assms(1)]) (simp add: refresh_fields, simp_all add: view_defs)
  obtain row where row: "refresh_row_of (rotated_token m v) = Some row" "refresh_view row = memory_refresh_view ?m"
    by (rule refresh_row_view [OF rotated_replacement_view(2) [OF x(1) scope]]) (simp_all add: ticks)
  have "map rt_Hash (sql_update (\<lambda>t. rt_Hash t = h) ?g ts) = map rt_Hash ts" by (rule map_sql_update) simp
  then have hashes: "rt_Hash ` set (sql_update (\<lambda>t. rt_Hash t = h) ?g ts) = rt_Hash ` set ts" by (metis list.set_map)
  have "refresh_rel (sql_update (\<lambda>t. r_token_hash t = h) ?f t @ [row]) (sql_update (\<lambda>t. rt_Hash t = h) ?g ts @ [?m])"
  proof (rule refresh_rel_insert [OF updated row(2)])
    show "rt_Hash ?m \<notin> rt_Hash ` set (sql_update (\<lambda>t. rt_Hash t = h) ?g ts)" using fresh hashes by (simp add: embed_defs)
    show "rt_FamilyID ?m \<noteq> []" using refresh_family(1) [OF assms(1) x(2)] by (simp add: embed_defs)
    fix u assume "u \<in> set (sql_update (\<lambda>t. rt_Hash t = h) ?g ts)" and "rt_FamilyID u = rt_FamilyID ?m"
    then obtain y where "y \<in> set ts" "family_of u = family_of y" "rt_FamilyID y = rt_FamilyID m"
      by (auto simp: sql_update_def embed_defs split: if_splits)
    then show "rt_ClientID u = rt_ClientID ?m"
      using refresh_family(2) [OF assms(1) x(2)] client by (simp add: embed_defs)
  qed
  moreover have "r_token_hash row \<notin> r_token_hash ` set (sql_update (\<lambda>t. r_token_hash t = h) ?f t)"
    using refresh_rel_keys [OF updated] hashes fresh refresh_fields(1) [OF row(2)] by (simp add: embed_defs)
  moreover have "update_first (\<lambda>t. rt_Hash t = h) ?g ts = sql_update (\<lambda>t. rt_Hash t = h) ?g ts"
    by (rule update_first_sql [OF keyed]) simp
  ultimately show thesis using that row(1) by (simp add: insert_refresh_def sql_insert_def)
qed

lemma rotate_step:
  assumes "pg_rel db r" and adm: "pg_admissible r (OpRotate h v now)"
  shows "agrees_at db r (OpRotate h v now)"
proof -
  let ?t = "oauth_refresh_tokens db" and ?ts = "refresh r"
  have rel: "refresh_rel ?t ?ts" using assms(1) by (simp add: pg_rel_def)
  have found: "rel_option (\<lambda>x y. refresh_view x = memory_refresh_view y \<and> x \<in> set ?t \<and> y \<in> set ?ts)
      (find (\<lambda>t. r_token_hash t = h) ?t) (find (\<lambda>t. rt_Hash t = h) ?ts)"
    by (rule refresh_found [OF rel]) (simp add: refresh_fields)
  show ?thesis
  proof (cases "find (\<lambda>t. rt_Hash t = h) ?ts")
    case None
    with found assms(1) show ?thesis by (simp add: store_defs query_row_def)
  next
    case (Some m)
    with found obtain x where x: "find (\<lambda>t. r_token_hash t = h) ?t = Some x" "refresh_view x = memory_refresh_view m"
        "x \<in> set ?t" "m \<in> set ?ts" by (auto simp: option_rel_Some2)
    have h: "rt_Hash m = h" "r_token_hash x = h" using find_SomeD [OF Some] find_SomeD [OF x(1)] by simp_all
    have scope: "rt_Scope v = None \<longrightarrow> elems (rt_Scope m) \<noteq> []" using adm x(4) h by auto
    have one: "rows_affected (\<lambda>t. r_token_hash t = h) ?t = 1"
    proof -
      have "distinct (map r_token_hash ?t)"
        using map_view_keys [of refresh_view ?t memory_refresh_view ?ts r_token_hash rt_Hash] rel
        by (simp add: refresh_rel_def refresh_fields)
      then show ?thesis using rows_affected_key [where key = r_token_hash, OF _ x(3)] h by simp
    qed
    have now: "timestamptz now = now" using adm by simp
    have fields: "rt_ClientID (scan_refresh x) = rt_ClientID m" "rt_FamilyID (scan_refresh x) = rt_FamilyID m"
        "rt_ExpiresAt (scan_refresh x) = rt_ExpiresAt m" "elems (rt_Scope (scan_refresh x)) = elems (rt_Scope m)"
        "r_consumed_at x = None \<longleftrightarrow> rt_consumedAt m = None" "r_revoked_at x = None \<longleftrightarrow> rt_revokedAt m = None"
        "rotated_replacement (scan_refresh x) v = rotated_token m v"
      using refresh_fields(1-9) [OF x(2)] rotated_replacement_view(1) [OF x(2) scope] by (simp_all add: scan_refresh_def)
    consider "rt_ClientID m \<noteq> rt_ClientID v" | "rt_ClientID m = rt_ClientID v" "rt_revokedAt m \<noteq> None \<or> rt_consumedAt m \<noteq> None"
      | "rt_ClientID m = rt_ClientID v" "rt_revokedAt m = None" "rt_consumedAt m = None" "\<not> rt_ExpiresAt m > now"
      | "rt_ClientID m = rt_ClientID v" "rt_revokedAt m = None" "rt_consumedAt m = None" "rt_ExpiresAt m > now"
        "\<not> ScopesCover (elems (rt_Scope m)) (elems (rt_Scope (rotated_token m v)))"
      | "rt_ClientID m = rt_ClientID v" "rt_revokedAt m = None" "rt_consumedAt m = None" "rt_ExpiresAt m > now"
        "ScopesCover (elems (rt_Scope m)) (elems (rt_Scope (rotated_token m v)))" by blast
    then show ?thesis
    proof cases
      case 2
      have "pg_rel (revoke_access_rows (\<lambda>a. a_refresh_family_id a = Some (rt_FamilyID m)) now
          (revoke_refresh_rows (\<lambda>t. r_family_id t = rt_FamilyID m) now db)) (revoke_family (rt_FamilyID m) now r)"
        by (rule revoke_family_related [OF assms(1)]) (use adm refresh_family(1) [OF rel x(4)] in \<open>simp_all add: refresh_fields\<close>)
      with 2 Some x(1) show ?thesis
        by (auto simp: store_defs query_row_def fields Let_def)
    next
      case 5
      obtain t' where t': "insert_refresh (rotated_token m v) (sql_update (\<lambda>t. r_token_hash t = h)
            (\<lambda>t. t\<lparr>r_consumed_at := Some now, r_replaced_by_hash := Some (rt_Hash v)\<rparr>) ?t) = Some t'"
          "refresh_rel t' (update_first (\<lambda>t. rt_Hash t = h) (\<lambda>t. t\<lparr>rt_consumedAt := Some now\<rparr>) ?ts
            @ [RefreshToken.extend (rotated_token m v) \<lparr>rt_consumedAt = None, rt_revokedAt = None\<rparr>])"
        by (rule rotation_related [OF rel x(2,4) h(1), of v now]) (use adm 5(1) scope in auto)
      have current: "pg_agree op (Inr (GotRefresh (scan_refresh x)))
          (Inr (GotRefresh ((RefreshToken.truncate m)\<lparr>rt_Scope := copy_slice (rt_Scope m)\<rparr>)))" for op
        using refresh_fields [OF x(2)] by (simp add: scope_view_def embed_defs)
      from 5 Some x(1) t' current one now assms(1) show ?thesis
        by (simp add: store_defs query_row_def fields Let_def pg_rel_def del: pg_agree.simps)
    qed (use Some x(1) assms(1) in \<open>simp_all add: store_defs query_row_def fields Let_def\<close>)
  qed
qed

section \<open>Consents\<close>

lemma consent_fields:
  assumes "consent_view (scan_consent k) = consent_view c"
  shows "k_user_id k = co_UserID c" "k_client_id k = co_ClientID c" "set (k_scopes k) = set (co_Scopes c)"
    "k_granted_at k = co_GrantedAt c" "k_updated_at k = co_UpdatedAt c"
  using assms by (simp_all add: consent_view_def scan_consent_def)

lemma consents_found:
  assumes "consents_rel t cs"
  shows "rel_option (\<lambda>x y. consent_view (scan_consent x) = consent_view y \<and> x \<in> set t \<and> y \<in> set cs)
    (find (consent_of u c) t) (find (\<lambda>x. co_UserID x = u \<and> co_ClientID x = c) cs)"
  using find_map_view [of "consent_view \<circ> scan_consent" t consent_view cs "consent_of u c" "\<lambda>x. co_UserID x = u \<and> co_ClientID x = c"] assms
  by (auto simp: consents_rel_def consent_fields)

lemma update_first_found: "find p xs = Some y \<Longrightarrow> update_first p (\<lambda>_. f y) xs = update_first p f xs"
  by (induction xs) auto

lemma consents_rel_upsert:
  assumes rel: "consents_rel t (consents r)" and now: "tick now"
  shows "consents_rel (upsert_consent u c ss now t) (consents (snd (grantConsentLocked u c ss now r)))"
proof -
  let ?q = "\<lambda>x. co_UserID x = u \<and> co_ClientID x = c"
    and ?g = "\<lambda>x. x\<lparr>co_Scopes := mergeScopes (co_Scopes x) ss, co_UpdatedAt := now\<rparr>"
    and ?f = "\<lambda>k. k\<lparr>k_scopes := merge_arrays (k_scopes k) ss, k_updated_at := now\<rparr>"
  have keyed: "distinct (map consent_key (consents r))" and views: "map (consent_view \<circ> scan_consent) t = map consent_view (consents r)"
    using rel by (simp_all add: consents_rel_def)
  show ?thesis
  proof (cases "find ?q (consents r)")
    case None
    with consents_found [OF rel, of u c] have "find (consent_of u c) t = None" by simp
    then have absent: "(u, c) \<notin> (\<lambda>k. (k_user_id k, k_client_id k)) ` set t" by (auto simp: find_None_iff)
    from None have "(u, c) \<notin> consent_key ` set (consents r)" by (auto simp: find_None_iff)
    with None absent keyed views now show ?thesis
      by (simp add: upsert_consent_def sql_upsert_def grantConsentLocked_def Let_def consents_rel_def consent_view_def scan_consent_def)
  next
    case (Some y)
    with consents_found [OF rel, of u c] obtain k where k: "find (consent_of u c) t = Some k" by (auto simp: option_rel_Some2)
    then have "(u, c) \<in> (\<lambda>k. (k_user_id k, k_client_id k)) ` set t" by (auto dest: find_SomeD intro: rev_image_eqI)
    then have left: "upsert_consent u c ss now t = sql_update (consent_of u c) ?f t"
      using now by (simp add: upsert_consent_def sql_upsert_def sql_update_def)
    have "consents (snd (grantConsentLocked u c ss now r)) = update_first ?q (\<lambda>_. ?g y) (consents r)"
      using Some by (simp add: grantConsentLocked_def Let_def)
    also have "\<dots> = update_first ?q ?g (consents r)" by (rule update_first_found [OF Some])
    also have "\<dots> = sql_update ?q ?g (consents r)"
      by (rule update_first_sql [OF keyed, where k = "(u, c)"]) simp
    finally have right: "consents (snd (grantConsentLocked u c ss now r)) = sql_update ?q ?g (consents r)" .
    have "map (consent_view \<circ> scan_consent) (sql_update (consent_of u c) ?f t) = map consent_view (sql_update ?q ?g (consents r))"
    proof (rule sql_update_view [OF views])
      fix k d assume "(consent_view \<circ> scan_consent) k = consent_view d"
      then have same: "consent_view (scan_consent k) = consent_view d" by simp
      then show "consent_of u c k = ?q d" by (simp add: consent_fields)
      from consent_fields [OF same] show "(consent_view \<circ> scan_consent) (?f k) = consent_view (?g d)"
        by (simp add: consent_view_def scan_consent_def merge_arrays_def)
    qed
    with keyed left right show ?thesis by (simp add: consents_rel_def map_sql_update [where key = consent_key])
  qed
qed

lemma grantConsentLocked_find:
  "find (\<lambda>x. co_UserID x = u \<and> co_ClientID x = c) (consents (snd (grantConsentLocked u c ss now r)))
     = Some (fst (grantConsentLocked u c ss now r))"
  using grantConsent_find [of u c u c ss now r] by (simp add: FindConsent_def split: option.splits)

lemma find_consent_step: "pg_rel db r \<Longrightarrow> agrees_at db r (OpFindConsent u c)"
  using consents_found [of "oauth_consents db" "consents r" u c]
  by (cases "find (consent_of u c) (oauth_consents db)"; cases "find (\<lambda>x. co_UserID x = u \<and> co_ClientID x = c) (consents r)")
    (simp_all add: pg_rel_def store_defs query_row_def)

lemma grant_consent_step:
  assumes "pg_rel db r" and "pg_admissible r (OpGrantConsent u c ss now)"
  shows "agrees_at db r (OpGrantConsent u c ss now)"
proof -
  let ?t = "upsert_consent u c ss now (oauth_consents db)" and ?r = "snd (grantConsentLocked u c ss now r)"
  have rel: "consents_rel ?t (consents ?r)"
    by (rule consents_rel_upsert) (use assms in \<open>simp_all add: pg_rel_def\<close>)
  from consents_found [OF rel, of u c] obtain k where k: "find (consent_of u c) ?t = Some k"
      "consent_view (scan_consent k) = consent_view (fst (grantConsentLocked u c ss now r))"
    by (auto simp: grantConsentLocked_find option_rel_Some2)
  with rel assms(1) show ?thesis
    by (simp add: Pg_GrantConsent_def GrantConsent_def query_row_def case_prod_beta pg_rel_def grantConsentLocked_frame)
qed

lemma list_consents_step:
  assumes "pg_rel db r"
  shows "agrees_at db r (OpListConsents u)"
proof -
  have "map (consent_view \<circ> scan_consent) (filter (\<lambda>k. k_user_id k = u) (oauth_consents db))
      = map consent_view (filter (\<lambda>c. co_UserID c = u) (consents r))"
    by (rule map_view_filter) (use assms in \<open>simp_all add: pg_rel_def consents_rel_def consent_fields\<close>)
  then have "mset (map (consent_view \<circ> scan_consent) (filter (\<lambda>k. k_user_id k = u) (oauth_consents db)))
      = mset (map consent_view (filter (\<lambda>c. co_UserID c = u) (consents r)))" by (rule arg_cong)
  with assms show ?thesis by (simp add: store_defs image_mset.compositionality)
qed

section \<open>Device authorizations\<close>

lemma device_fields:
  assumes "device_view (scanDevice d) = device_view e"
  shows "d_device_code_hash d = da_DeviceHash e" "d_user_code_hash d = da_UserHash e" "d_client_id d = da_ClientID e"
    "d_scope d = da_Scope e" "d_status d = da_Status e" "d_expires_at d = da_ExpiresAt e"
    "da_Status e = DeviceApproved \<Longrightarrow> text_of (d_user_id d) = da_UserID e"
    "da_Status e \<noteq> DeviceConsumed \<Longrightarrow> d_interval_seconds d * second = da_Interval e"
    "da_Status e \<noteq> DeviceConsumed \<Longrightarrow> d_last_poll_at d = da_LastPollAt e"
  using assms by (simp_all add: device_view_eq scanDevice_def)

lemma devices_rel_keys:
  assumes "devices_rel t ds"
  shows "d_device_code_hash ` set t = da_DeviceHash ` set ds" "d_user_code_hash ` set t = da_UserHash ` set ds"
  by (rule in_key_view [where v = "device_view \<circ> scanDevice" and w = device_view];
      use assms in \<open>simp add: devices_rel_def device_fields\<close>)+

lemma devices_rel_update:
  assumes "devices_rel t ds" and "\<And>x y. device_view (scanDevice x) = device_view y \<Longrightarrow> p x = q y"
    and "\<And>x y. device_view (scanDevice x) = device_view y \<Longrightarrow> q y \<Longrightarrow> device_view (scanDevice (f x)) = device_view (g y)"
    and "\<And>y. da_DeviceHash (g y) = da_DeviceHash y" "\<And>y. da_UserHash (g y) = da_UserHash y"
    and "\<And>y. known_status (da_Status y) \<Longrightarrow> known_status (da_Status (g y))"
  shows "devices_rel (sql_update p f t) (sql_update q g ds)"
proof -
  have "map (device_view \<circ> scanDevice) (sql_update p f t) = map device_view (sql_update q g ds)"
    unfolding sql_update_def by (rule map_view_map) (use assms(1-3) in \<open>auto simp: devices_rel_def\<close>)
  moreover have "\<forall>d \<in> set (sql_update q g ds). known_status (da_Status d)"
    using assms(1,6) unfolding devices_rel_def sql_update_def by (auto simp del: insert_iff)
  ultimately show ?thesis using assms(1,4,5) by (simp add: devices_rel_def map_sql_update del: insert_iff)
qed

lemma devices_found:
  assumes "devices_rel t ds" and "\<And>x y. device_view (scanDevice x) = device_view y \<Longrightarrow> p x = q y"
  shows "rel_option (\<lambda>x y. device_view (scanDevice x) = device_view y \<and> x \<in> set t \<and> y \<in> set ds) (find p t) (find q ds)"
  using find_map_view [of "device_view \<circ> scanDevice" t device_view ds p q] assms by (simp add: devices_rel_def)

lemma go_quot_seconds: "i > 0 \<Longrightarrow> i mod second = 0 \<Longrightarrow> go_quot i second * second = i" "i > 0 \<Longrightarrow> i mod second = 0 \<Longrightarrow> go_quot i second > 0"
  by (auto simp: go_quot_def)

lemma save_device_step:
  assumes "pg_rel db r" and adm: "pg_admissible r (OpSaveDevice v)"
  shows "agrees_at db r (OpSaveDevice v)"
proof -
  let ?t = "oauth_device_authorizations db" and ?row = "device_row_of v"
  have rel: "devices_rel ?t (devices r)" using assms(1) by (simp add: pg_rel_def)
  have interval: "go_quot (da_Interval v) second * second = da_Interval v" "go_quot (da_Interval v) second > 0"
    using adm by (simp_all add: go_quot_seconds)
  have view: "device_view (scanDevice ?row) = device_view v"
    using adm interval(1) by (simp add: device_view_eq scanDevice_def device_row_of_def)
  have "devices_rel (?t @ [?row]) (devices r @ [v])"
    using rel view adm by (simp add: devices_rel_def)
  moreover have "d_device_code_hash ?row \<notin> d_device_code_hash ` set ?t" "d_user_code_hash ?row \<notin> d_user_code_hash ` set ?t"
    using devices_rel_keys [OF rel] adm by (simp_all add: device_row_of_def)
  moreover have "d_status ?row = DevicePending" "d_interval_seconds ?row > 0"
    using adm interval(2) by (simp_all add: device_row_of_def)
  ultimately show ?thesis using assms(1) by (simp add: store_defs Let_def sql_insert_def pg_rel_def)
qed

lemma find_device_step:
  assumes "pg_rel db r" and "pg_admissible r (OpFindDevice h now)"
  shows "agrees_at db r (OpFindDevice h now)"
proof -
  let ?p = "\<lambda>d. d_user_code_hash d = h \<and> d_status d = DevicePending \<and> d_expires_at d > timestamptz now"
  have "rel_option (\<lambda>x y. device_view (scanDevice x) = device_view y \<and> x \<in> set (oauth_device_authorizations db) \<and> y \<in> set (devices r))
      (find ?p (oauth_device_authorizations db)) (find (decidable h now) (devices r))"
    by (rule devices_found) (use assms in \<open>auto simp: pg_rel_def device_fields\<close>)
  with assms(1) show ?thesis
    by (cases "find ?p (oauth_device_authorizations db)"; cases "find (decidable h now) (devices r)")
      (simp_all add: store_defs query_row_def device_agrees_def)
qed

section \<open>Bulk revocation\<close>

lemma bulk_related:
  assumes rel: "pg_rel db r" and now: "tick now"
    and codes: "\<And>x y. code_view x = memory_code_view y \<Longrightarrow> p1 x = m (ac_UserID y) (ac_SessionID y) (ac_ClientID y)"
    and access: "\<And>x y. access_view x = memory_access_view y \<Longrightarrow> p2 x = m (at_UserID y) (at_SessionID y) (at_ClientID y)"
    and refresh: "\<And>x y. refresh_view x = memory_refresh_view y \<Longrightarrow> p3 x = m (rt_UserID y) (rt_SessionID y) (rt_ClientID y)"
  shows "pg_rel (revoke_refresh_rows p3 now (revoke_access_rows p2 now (revoke_code_rows p1 now db))) (revokeMatchingTokens m now r)"
proof -
  let ?f = "\<lambda>c. if p1 c then c\<lparr>c_revoked_at := coalesce (c_revoked_at c) now\<rparr> else c"
    and ?g = "\<lambda>c. if m (ac_UserID c) (ac_SessionID c) (ac_ClientID c) \<and> ac_revokedAt c = None then c\<lparr>ac_revokedAt := Some now\<rparr> else c"
  have "code_view (?f x) = memory_code_view (?g y)" if "code_view x = memory_code_view y" for x y
    using that codes [OF that] by (auto simp: view_defs coalesce_def split: option.split)
  then have 1: "codes_rel (map ?f (oauth_authorization_codes db)) (map ?g (codes r))"
    using rel unfolding pg_rel_def codes_rel_def by (intro conjI map_view_map) (auto simp: comp_def if_distrib [of ac_Hash] cong: if_cong)
  let ?f = "\<lambda>a. if p2 a then a\<lparr>a_revoked_at := coalesce (a_revoked_at a) now\<rparr> else a"
    and ?g = "\<lambda>t. if m (at_UserID t) (at_SessionID t) (at_ClientID t) \<and> at_revokedAt t = None then t\<lparr>at_revokedAt := Some now\<rparr> else t"
  have "access_view (?f x) = memory_access_view (?g y)" if "access_view x = memory_access_view y" for x y
    using that access [OF that] by (auto simp: view_defs coalesce_def split: option.split)
  then have 2: "access_rel (map ?f (oauth_access_tokens db)) (map ?g (accessTokens r))"
    using rel unfolding pg_rel_def access_rel_def by (intro conjI map_view_map) (auto simp: comp_def if_distrib [of at_Hash] cong: if_cong)
  let ?f = "\<lambda>t. if p3 t then t\<lparr>r_revoked_at := coalesce (r_revoked_at t) now\<rparr> else t"
    and ?g = "\<lambda>t. if m (rt_UserID t) (rt_SessionID t) (rt_ClientID t) \<and> rt_revokedAt t = None then t\<lparr>rt_revokedAt := Some now\<rparr> else t"
  have "refresh_view (?f x) = memory_refresh_view (?g y)" if "refresh_view x = memory_refresh_view y" for x y
    using that refresh [OF that] by (auto simp: view_defs coalesce_def split: option.split)
  then have "map refresh_view (map ?f (oauth_refresh_tokens db)) = map memory_refresh_view (map ?g (refresh r))"
    by (intro map_view_map) (use rel in \<open>simp add: pg_rel_def refresh_rel_def\<close>)
  moreover have "map family_of (map ?g (refresh r)) = map family_of (refresh r)" "map rt_Hash (map ?g (refresh r)) = map rt_Hash (refresh r)"
    by simp_all
  ultimately have 3: "refresh_rel (map ?f (oauth_refresh_tokens db)) (map ?g (refresh r))"
    using rel unfolding pg_rel_def refresh_rel_def by (simp only: simp_thms)
  from 1 2 3 rel now show ?thesis
    by (simp add: pg_rel_def revoke_refresh_rows_def revoke_access_rows_def revoke_code_rows_def revokeMatchingTokens_def sql_update_def)
qed

lemma deny_related:
  assumes "pg_rel db r" and pq: "\<And>x y. device_view (scanDevice x) = device_view y \<Longrightarrow> p x = q y"
    and "\<And>y. q y \<Longrightarrow> da_Status y \<noteq> DeviceConsumed"
  shows "pg_rel (deny_device_rows p now db) (deny_devices q r)"
proof -
  have "devices_rel (sql_update p (\<lambda>d. d\<lparr>d_status := DeviceDenied, d_decided_at := coalesce (d_decided_at d) (timestamptz now)\<rparr>)
        (oauth_device_authorizations db)) (sql_update q (\<lambda>d. d\<lparr>da_Status := DeviceDenied\<rparr>) (devices r))"
    by (rule devices_rel_update [OF _ pq]) (use assms(1,3) in \<open>auto simp: pg_rel_def device_view_eq scanDevice_def\<close>)
  with assms(1) show ?thesis by (simp add: pg_rel_def deny_device_rows_def deny_devices_def sql_update_def)
qed

lemma revoke_session_step:
  assumes "pg_rel db r" and "pg_admissible r (OpRevokeSession u sid now)"
  shows "agrees_at db r (OpRevokeSession u sid now)"
proof -
  have "pg_rel (snd (Pg_RevokeSessionTokens u sid now db)) (revokeMatchingTokens (\<lambda>u' s _. u' = u \<and> s = sid) now r)"
    unfolding Pg_RevokeSessionTokens_def snd_conv
    by (rule bulk_related) (use assms in \<open>simp_all add: code_fields access_fields refresh_fields text_of_iff\<close>)
  then show ?thesis by (simp add: Pg_RevokeSessionTokens_def RevokeSessionTokens_def)
qed

lemma distinct_from: "(e = [] \<or> x \<noteq> nullableText e) = (e = [] \<or> text_of x \<noteq> e)"
  by (auto simp: nullableText_def text_of_def split: option.splits)

lemma device_user:
  assumes "device_view (scanDevice x) = device_view y"
  shows "text_of (d_user_id x) = u \<and> d_status x = DeviceApproved \<longleftrightarrow> da_UserID y = u \<and> da_Status y = DeviceApproved"
  using device_fields(5,7) [OF assms] by auto

lemma revoke_user_step:
  assumes "pg_rel db r" and "pg_admissible r (OpRevokeUser u e now)"
  shows "agrees_at db r (OpRevokeUser u e now)"
proof -
  have "pg_rel (snd (Pg_RevokeUserTokens u e now db)) (snd (RevokeUserTokens u e now r))"
    unfolding Pg_RevokeUserTokens_def RevokeUserTokens_def Let_def snd_conv
  proof (rule deny_related, rule bulk_related [OF assms(1)])
    show "tick now" using assms(2) by simp
  qed (use assms(2) in \<open>simp_all add: distinct_from code_fields access_fields refresh_fields text_of_iff device_user\<close>)
  then show ?thesis by (simp add: Pg_RevokeUserTokens_def RevokeUserTokens_def Let_def)
qed

lemma revoke_client_step:
  assumes "pg_rel db r" and "pg_admissible r (OpRevokeClient c now)"
  shows "agrees_at db r (OpRevokeClient c now)"
proof -
  have "pg_rel (snd (Pg_RevokeClientTokens c now db)) (snd (RevokeClientTokens c now r))"
    unfolding Pg_RevokeClientTokens_def RevokeClientTokens_def snd_conv
  proof (rule deny_related, rule bulk_related [OF assms(1)])
    show "tick now" using assms(2) by simp
  qed (auto simp: code_fields access_fields refresh_fields device_fields)
  then show ?thesis by (simp add: Pg_RevokeClientTokens_def RevokeClientTokens_def)
qed

lemma remove_first_filter: "distinct (map key xs) \<Longrightarrow> remove_first (\<lambda>x. key x = k) xs = filter (\<lambda>x. key x \<noteq> k) xs"
proof (induction xs)
  case (Cons x xs)
  then show ?case by (cases "key x = k") (auto intro!: filter_True [symmetric] simp: image_iff)
qed simp

lemma delete_consent_step:
  assumes "pg_rel db r" and adm: "pg_admissible r (OpDeleteConsent u c now)"
  shows "agrees_at db r (OpDeleteConsent u c now)"
proof (cases "find (\<lambda>x. co_UserID x = u \<and> co_ClientID x = c) (consents r)")
  case None
  with consents_found [of "oauth_consents db" "consents r" u c] assms(1) have "find (consent_of u c) (oauth_consents db) = None"
    by (simp add: pg_rel_def)
  with None assms(1) show ?thesis by (simp add: store_defs rows_affected_0)
next
  case (Some y)
  with consents_found [of "oauth_consents db" "consents r" u c] assms(1) obtain k
    where found: "find (consent_of u c) (oauth_consents db) = Some k" by (auto simp: pg_rel_def option_rel_Some2)
  let ?db = "db\<lparr>oauth_consents := sql_delete (consent_of u c) (oauth_consents db)\<rparr>"
    and ?r = "r\<lparr>consents := remove_first (\<lambda>x. co_UserID x = u \<and> co_ClientID x = c) (consents r)\<rparr>"
  have keyed: "distinct (map consent_key (consents r))" using assms(1) by (simp add: pg_rel_def consents_rel_def)
  have removed: "consents ?r = filter (\<lambda>x. \<not> (co_UserID x = u \<and> co_ClientID x = c)) (consents r)"
    using remove_first_filter [OF keyed, of "(u, c)"] by simp
  have "map (consent_view \<circ> scan_consent) (oauth_consents ?db) = map consent_view (consents ?r)"
    unfolding removed using assms(1)
    by (simp add: sql_delete_def) (rule map_view_filter, auto simp: pg_rel_def consents_rel_def consent_fields)
  moreover have "distinct (map consent_key (consents ?r))" unfolding removed by (rule distinct_map_filter [OF keyed])
  ultimately have rel: "pg_rel ?db ?r" using assms(1) by (simp add: pg_rel_def consents_rel_def)
  have "pg_rel (snd (Pg_DeleteConsent u c now db)) (snd (DeleteConsent u c now r))"
    using found Some unfolding Pg_DeleteConsent_def DeleteConsent_def rows_affected_0
    by simp (rule deny_related, rule bulk_related [OF rel],
        use adm in \<open>auto simp: code_fields access_fields refresh_fields text_of_iff device_fields\<close>)
  with found Some show ?thesis by (simp add: Pg_DeleteConsent_def DeleteConsent_def rows_affected_0)
qed

section \<open>Decisions and polling\<close>

lemma decide_device_step:
  assumes "pg_rel db r" and adm: "pg_admissible r (OpDecideDevice h u at ms al ok now)"
  shows "agrees_at db r (OpDecideDevice h u at ms al ok now)"
proof -
  let ?t = "oauth_device_authorizations db" and ?ds = "devices r"
  let ?p = "\<lambda>d. d_user_code_hash d = h \<and> d_status d = DevicePending \<and> d_expires_at d > timestamptz now"
  let ?s = "if ok then DeviceApproved else DeviceDenied"
  let ?f = "\<lambda>d. d\<lparr>d_user_id := Some u, d_authenticated_at := Some (timestamptz at), d_authentication_methods := ms,
      d_assurance_level := al, d_status := ?s, d_decided_at := Some (timestamptz now)\<rparr>"
    and ?g = "\<lambda>d. d\<lparr>da_UserID := u, da_AuthenticatedAt := at, da_AuthMethods := ms, da_AssuranceLevel := al, da_Status := ?s\<rparr>"
  have rel: "devices_rel ?t ?ds" and keyed: "distinct (map da_UserHash ?ds)"
    using assms(1) by (simp_all add: pg_rel_def devices_rel_def)
  have pq: "device_view (scanDevice x) = device_view y \<Longrightarrow> ?p x = decidable h now y" for x y
    using adm by (auto simp: device_fields)
  have found: "rel_option (\<lambda>x y. device_view (scanDevice x) = device_view y \<and> x \<in> set ?t \<and> y \<in> set ?ds)
      (find ?p ?t) (find (decidable h now) ?ds)" by (rule devices_found [OF rel]) (rule pq)
  have first: "update_first (decidable h now) ?g ?ds = sql_update (decidable h now) ?g ?ds"
    by (rule update_first_sql [OF keyed, where k = h]) simp
  have "devices_rel (sql_update ?p ?f ?t) (sql_update (decidable h now) ?g ?ds)"
    by (rule devices_rel_update [OF rel pq]) (use adm in \<open>auto simp: device_view_eq scanDevice_def\<close>)
  then have decided: "pg_rel (db\<lparr>oauth_device_authorizations := sql_update ?p ?f ?t\<rparr>)
      (r\<lparr>devices := update_first (decidable h now) ?g ?ds\<rparr>)" (is "pg_rel ?db ?r")
    using assms(1) first by (simp add: pg_rel_def)
  show ?thesis
  proof (cases "find (decidable h now) ?ds")
    case None
    with found have "find ?p ?t = None" by simp
    with None assms(1) show ?thesis
      by (simp add: Pg_DecideDeviceAuthorization_def DecideDeviceAuthorization_def query_row_def Let_def)
  next
    case (Some y)
    with found obtain x where x: "find ?p ?t = Some x" "device_view (scanDevice x) = device_view y"
      by (auto simp: option_rel_Some2)
    have "pg_rel (?db\<lparr>oauth_consents := upsert_consent u (da_ClientID y) (da_Scope y) now (oauth_consents ?db)\<rparr>)
        (snd (grantConsentLocked u (da_ClientID y) (da_Scope y) now ?r))"
      using decided consents_rel_upsert [of "oauth_consents ?db" ?r now u "da_ClientID y" "da_Scope y"] adm
      by (simp add: pg_rel_def grantConsentLocked_frame)
    with Some x(1) decided show ?thesis
      by (cases ok) (simp_all add: Pg_DecideDeviceAuthorization_def DecideDeviceAuthorization_def query_row_def Let_def
          device_fields(3,4) [OF x(2)])
  qed
qed

text \<open>One poll of the authorization that is addressed: device hashes are unique, so the loop over
  the list is a lookup.\<close>

definition poll_one :: "time \<Rightarrow> DeviceAuthorization \<Rightarrow> (oauth_error + DeviceAuthorization) \<times> DeviceAuthorization" where
  "poll_one now d =
     (if \<not> da_ExpiresAt d > now then (Inl ErrGrantExpired, d)
      else if (case da_LastPollAt d of None \<Rightarrow> False | Some l \<Rightarrow> now < l + da_Interval d)
      then (Inl ErrSlowDown, d\<lparr>da_Interval := da_Interval d + 5 * second, da_LastPollAt := Some now\<rparr>)
      else
        let d' = d\<lparr>da_LastPollAt := Some now\<rparr> in
        if da_Status d = DevicePending then (Inl ErrAuthorizationPending, d')
        else if da_Status d = DeviceDenied then (Inl ErrAccessDenied, d')
        else if da_Status d = DeviceConsumed then (Inl ErrGrantConsumed, d')
        else (Inr (d'\<lparr>da_Status := DeviceConsumed\<rparr>), d'\<lparr>da_Status := DeviceConsumed\<rparr>))"

abbreviation polled_by :: "bytes \<Rightarrow> string \<Rightarrow> DeviceAuthorization \<Rightarrow> bool" where
  "polled_by h c d \<equiv> da_DeviceHash d = h \<and> da_ClientID d = c"

lemma poll_loop_one:
  "\<forall>d \<in> set ds. known_status (da_Status d) \<Longrightarrow>
     poll_loop h c now ds = (case find (polled_by h c) ds of
        None \<Rightarrow> (Inl ErrGrantNotFound, ds)
      | Some d \<Rightarrow> (fst (poll_one now d), update_first (polled_by h c) (\<lambda>d. snd (poll_one now d)) ds))"
proof (induction ds)
  case (Cons d ds)
  show ?case
  proof (cases "polled_by h c d")
    case True
    with Cons.prems show ?thesis by (auto simp: poll_one_def Let_def)
  next
    case False
    with Cons show ?thesis by (auto split: option.split)
  qed
qed simp

lemma devices_rel_poll:
  assumes "devices_rel t ds" and x: "device_view (scanDevice x) = device_view y" "y \<in> set ds" "da_DeviceHash y = h"
    and new: "device_view (scanDevice (f x)) = device_view (g y)" "da_DeviceHash (g y) = h" "da_UserHash (g y) = da_UserHash y"
      "known_status (da_Status (g y))"
    and fresh: "x \<in> set t"
  shows "devices_rel (sql_update (\<lambda>d. d_device_code_hash d = h) f t) (update_first (polled_by h (da_ClientID y)) g ds)"
proof -
  have keyed: "distinct (map da_DeviceHash ds)" and views: "map (device_view \<circ> scanDevice) t = map device_view ds"
    using assms(1) by (simp_all add: devices_rel_def)
  have "map d_device_code_hash t = map da_DeviceHash ds"
    by (rule map_view_keys [OF views]) (simp add: device_fields)
  then have keyed_t: "distinct (map d_device_code_hash t)" using keyed by simp
  have only: "z = y" if "z \<in> set ds" "da_DeviceHash z = h" for z
    using that x(2,3) keyed by (auto simp: distinct_map inj_on_def)
  have hx: "d_device_code_hash x = h" using x by (simp add: device_fields)
  have only_t: "z = x" if "z \<in> set t" "d_device_code_hash z = h" for z
    using that fresh hx keyed_t by (auto simp: distinct_map inj_on_def)
  have "update_first (polled_by h (da_ClientID y)) g ds = sql_update (polled_by h (da_ClientID y)) g ds"
    by (rule update_first_sql [OF keyed, where k = h]) simp
  also have "\<dots> = sql_update (\<lambda>d. da_DeviceHash d = h) (\<lambda>_. g y) ds"
    unfolding sql_update_def by (rule map_cong) (use only in auto)
  finally have right: "update_first (polled_by h (da_ClientID y)) g ds = sql_update (\<lambda>d. da_DeviceHash d = h) (\<lambda>_. g y) ds" .
  have left: "sql_update (\<lambda>d. d_device_code_hash d = h) f t = sql_update (\<lambda>d. d_device_code_hash d = h) (\<lambda>_. f x) t"
    unfolding sql_update_def by (rule map_cong) (use only_t in auto)
  have "map (device_view \<circ> scanDevice) (sql_update (\<lambda>d. d_device_code_hash d = h) (\<lambda>_. f x) t)
      = map device_view (sql_update (\<lambda>d. da_DeviceHash d = h) (\<lambda>_. g y) ds)"
    by (rule sql_update_view [OF views]) (use new(1) in \<open>auto simp: device_fields\<close>)
  moreover have "map k (sql_update (\<lambda>d. da_DeviceHash d = h) (\<lambda>_. g y) ds) = map k ds" if "k (g y) = k y" for k :: "DeviceAuthorization \<Rightarrow> bytes"
    unfolding sql_update_def using only that by auto
  moreover have "\<forall>d \<in> set (sql_update (\<lambda>d. da_DeviceHash d = h) (\<lambda>_. g y) ds). known_status (da_Status d)"
    using assms(1) new(4) by (auto simp: devices_rel_def sql_update_def)
  ultimately show ?thesis using assms(1) new(2,3) x(3) unfolding left right devices_rel_def by simp
qed

lemma update_devices_update:
  "(\<And>d. d_device_code_hash (f d) = d_device_code_hash d) \<Longrightarrow> update_devices h g (update_devices h f db) = update_devices h (\<lambda>d. g (f d)) db"
  by (simp add: update_devices_def sql_update_def)

lemma update_devices_id: "update_devices h (\<lambda>d. d) db = db"
  by (simp add: update_devices_def sql_update_def)

lemma go_quot_mult: "go_quot (k * second) second = k" "go_quot (k * second + 5 * second) second = k + 5"
proof -
  have "go_quot (k * second) second = k" for k :: int by (simp add: go_quot_def abs_mult sgn_mult mult_sgn_abs)
  from this [of k] this [of "k + 5"] show "go_quot (k * second) second = k" "go_quot (k * second + 5 * second) second = k + 5"
    by (simp_all add: algebra_simps)
qed

text \<open>What a poll does to the row it addresses, and its answer.\<close>

definition pg_poll_row :: "time \<Rightarrow> device_row \<Rightarrow> (pg_error + DeviceAuthorization) \<times> device_row" where
  "pg_poll_row now d =
     (if \<not> d_expires_at d > now then (Inl (GrantError ErrGrantExpired), d)
      else if (case d_last_poll_at d of None \<Rightarrow> False | Some l \<Rightarrow> now < l + d_interval_seconds d * second)
      then (Inl (GrantError ErrSlowDown), d\<lparr>d_interval_seconds := d_interval_seconds d + 5, d_last_poll_at := Some now\<rparr>)
      else
        let d' = d\<lparr>d_last_poll_at := Some now\<rparr> in
        if d_status d = DevicePending then (Inl (GrantError ErrAuthorizationPending), d')
        else if d_status d = DeviceDenied then (Inl (GrantError ErrAccessDenied), d')
        else if d_status d = DeviceConsumed then (Inl (GrantError ErrGrantConsumed), d)
        else if d_status d = DeviceApproved then (Inr (scanDevice d), d'\<lparr>d_status := DeviceConsumed, d_consumed_at := Some now\<rparr>)
        else (Inl (GrantError ErrGrantNotFound), d))"

lemma Pg_Poll_row:
  assumes "find (\<lambda>d. d_device_code_hash d = h \<and> d_client_id d = c) (oauth_device_authorizations db) = Some x" and "tick now"
    and only: "\<And>z. z \<in> set (oauth_device_authorizations db) \<Longrightarrow> d_device_code_hash z = h \<Longrightarrow> z = x"
  shows "Pg_PollDeviceAuthorization h c now db = (fst (pg_poll_row now x), update_devices h (\<lambda>d. snd (pg_poll_row now d)) db)"
proof -
  have at: "update_devices h f db = update_devices h g db" if "f x = g x" for f g
  proof -
    have "sql_update (\<lambda>d. d_device_code_hash d = h) f (oauth_device_authorizations db)
        = sql_update (\<lambda>d. d_device_code_hash d = h) g (oauth_device_authorizations db)"
      unfolding sql_update_def by (rule map_cong) (use only that in auto)
    then show ?thesis by (simp add: update_devices_def)
  qed
  have key: "update_devices h (\<lambda>d. snd (pg_poll_row now d)) db = update_devices h (\<lambda>_. snd (pg_poll_row now x)) db" by (rule at) simp
  have same: "db = update_devices h (\<lambda>_. x) db" using at [of "\<lambda>d. d" "\<lambda>_. x"] by (simp add: update_devices_id)
  have fields: "da_ExpiresAt (scanDevice x) = d_expires_at x" "da_LastPollAt (scanDevice x) = d_last_poll_at x"
      "da_Interval (scanDevice x) = d_interval_seconds x * second" "da_Status (scanDevice x) = d_status x"
    by (simp_all add: scanDevice_def)
  let ?slow = "case d_last_poll_at x of None \<Rightarrow> False | Some l \<Rightarrow> now < l + d_interval_seconds x * second"
  have slow: "update_devices h (\<lambda>d. d\<lparr>d_interval_seconds := d_interval_seconds x + 5, d_last_poll_at := Some now\<rparr>) db
      = update_devices h (\<lambda>_. x\<lparr>d_interval_seconds := d_interval_seconds x + 5, d_last_poll_at := Some now\<rparr>) db"
    and seen: "update_devices h (\<lambda>d. d\<lparr>d_last_poll_at := Some now\<rparr>) db = update_devices h (\<lambda>_. x\<lparr>d_last_poll_at := Some now\<rparr>) db"
    by (rule at, simp)+
  have used: "update_devices h (\<lambda>d. d\<lparr>d_status := DeviceConsumed, d_consumed_at := Some now\<rparr>)
        (update_devices h (\<lambda>d. d\<lparr>d_last_poll_at := Some now\<rparr>) db)
      = update_devices h (\<lambda>_. x\<lparr>d_last_poll_at := Some now, d_status := DeviceConsumed, d_consumed_at := Some now\<rparr>) db"
    by (subst update_devices_update, simp, rule at, simp)
  show ?thesis
    unfolding Pg_PollDeviceAuthorization_def query_row_def assms(1) option.case Let_def fields timestamptz_tick [OF assms(2)] go_quot_mult key
      slow seen used [unfolded seen]
    using same by (cases ?slow) (simp_all add: pg_poll_row_def Let_def)
qed

lemma poll_row_agrees:
  assumes x: "device_view (scanDevice x) = device_view y" and known: "known_status (da_Status y)"
  shows "pg_agree (OpPollDevice h c now) (map_sum id GotDevice (fst (pg_poll_row now x))) (map_sum id GotDevice (fst (poll_one now y)))"
    and "device_view (scanDevice (snd (pg_poll_row now x))) = device_view (snd (poll_one now y))"
proof -
  note fields = device_fields(5,6,8,9) [OF x]
  have "pg_agree (OpPollDevice h c now) (map_sum id GotDevice (fst (pg_poll_row now x))) (map_sum id GotDevice (fst (poll_one now y)))
    \<and> device_view (scanDevice (snd (pg_poll_row now x))) = device_view (snd (poll_one now y))"
  proof (cases "da_Status y = DeviceConsumed")
    case True
    with fields x show ?thesis by (auto simp: pg_poll_row_def poll_one_def Let_def device_view_eq scanDevice_def split: option.splits)
  next
    case False
    with fields(3,4) have same: "d_interval_seconds x * second = da_Interval y" "d_last_poll_at x = da_LastPollAt y" by simp_all
    let ?slow = "case da_LastPollAt y of None \<Rightarrow> False | Some l \<Rightarrow> now < l + da_Interval y"
    have slow: "(case d_last_poll_at x of None \<Rightarrow> False | Some l \<Rightarrow> now < l + d_interval_seconds x * second) = ?slow" by (simp only: same)
    from False known x fields(1,2) same show ?thesis unfolding pg_poll_row_def poll_one_def slow Let_def
      by (cases ?slow) (auto simp: device_view_eq scanDevice_def device_agrees_def grant_view_def)
  qed
  then show "pg_agree (OpPollDevice h c now) (map_sum id GotDevice (fst (pg_poll_row now x))) (map_sum id GotDevice (fst (poll_one now y)))"
    and "device_view (scanDevice (snd (pg_poll_row now x))) = device_view (snd (poll_one now y))" by blast+
qed

lemma poll_one_keeps:
  "da_DeviceHash (snd (poll_one now d)) = da_DeviceHash d" "da_UserHash (snd (poll_one now d)) = da_UserHash d"
  "known_status (da_Status d) \<Longrightarrow> known_status (da_Status (snd (poll_one now d)))"
  by (auto simp: poll_one_def Let_def)

lemma poll_step:
  assumes "pg_rel db r" and adm: "pg_admissible r (OpPollDevice h c now)"
  shows "agrees_at db r (OpPollDevice h c now)"
proof -
  let ?t = "oauth_device_authorizations db" and ?ds = "devices r"
  let ?p = "\<lambda>d. d_device_code_hash d = h \<and> d_client_id d = c"
  have rel: "devices_rel ?t ?ds" using assms(1) by (simp add: pg_rel_def)
  then have known: "\<forall>d \<in> set ?ds. known_status (da_Status d)" by (simp add: devices_rel_def)
  have found: "rel_option (\<lambda>x y. device_view (scanDevice x) = device_view y \<and> x \<in> set ?t \<and> y \<in> set ?ds) (find ?p ?t) (find (polled_by h c) ?ds)"
    by (rule devices_found [OF rel]) (simp add: device_fields(1,3))
  note memory = PollDeviceAuthorization_def poll_loop_one [OF known]
  show ?thesis
  proof (cases "find (polled_by h c) ?ds")
    case None
    with found assms(1) show ?thesis by (simp add: memory Pg_PollDeviceAuthorization_def query_row_def)
  next
    case (Some y)
    with found obtain x where x: "find ?p ?t = Some x" "device_view (scanDevice x) = device_view y" "x \<in> set ?t" "y \<in> set ?ds"
      by (auto simp: option_rel_Some2)
    have y: "da_DeviceHash y = h" "da_ClientID y = c" using find_SomeD [OF Some] by simp_all
    have "map d_device_code_hash ?t = map da_DeviceHash ?ds"
      by (rule map_view_keys [of "device_view \<circ> scanDevice" _ device_view]) (use rel in \<open>simp_all add: devices_rel_def device_fields(1)\<close>)
    then have "distinct (map d_device_code_hash ?t)" using rel by (simp add: devices_rel_def)
    then have only: "z = x" if "z \<in> set ?t" "d_device_code_hash z = h" for z
      using that x(3) find_SomeD [OF x(1)] by (auto simp: distinct_map inj_on_def)
    have "devices_rel (sql_update (\<lambda>d. d_device_code_hash d = h) (\<lambda>d. snd (pg_poll_row now d)) ?t)
        (update_first (polled_by h (da_ClientID y)) (\<lambda>d. snd (poll_one now d)) ?ds)"
      by (rule devices_rel_poll [OF rel x(2,4) y(1) _ _ _ _ x(3)])
        (use poll_row_agrees(2) [OF x(2)] known x(4) y(1) in \<open>simp_all only: poll_one_keeps\<close>)
    with assms(1) y have "pg_rel (update_devices h (\<lambda>d. snd (pg_poll_row now d)) db)
        (r\<lparr>devices := update_first (polled_by h c) (\<lambda>d. snd (poll_one now d)) ?ds\<rparr>)"
      by (simp add: pg_rel_def update_devices_def)
    moreover have "Pg_PollDeviceAuthorization h c now db = (fst (pg_poll_row now x), update_devices h (\<lambda>d. snd (pg_poll_row now d)) db)"
      by (rule Pg_Poll_row [OF x(1)]) (use adm only in simp_all)
    ultimately show ?thesis using Some poll_row_agrees(1) [OF x(2)] known x(4) by (simp add: memory)
  qed
qed

section \<open>OIDC client sessions\<close>

lemma save_oidc_step:
  assumes "pg_rel db r" and adm: "pg_admissible r (OpSaveOIDC v)"
  shows "agrees_at db r (OpSaveOIDC v)"
proof -
  let ?t = "oidc_client_sessions db" and ?vs = "oidcSessions r"
  let ?row = "\<lambda>o'. (o_session_id o', o_client_id o') = (os_SessionID v, os_ClientID v)"
    and ?f = "\<lambda>o'. o'\<lparr>o_user_id := os_UserID v, o_created_at := os_CreatedAt v\<rparr>"
    and ?g = "\<lambda>w. w\<lparr>os_UserID := os_UserID v, os_CreatedAt := os_CreatedAt v\<rparr>"
  let ?key = "\<lambda>v. (os_SessionID v, os_ClientID v)" and ?same = "\<lambda>w. os_SessionID w = os_SessionID v \<and> os_ClientID w = os_ClientID v"
  have view: "map scan_oidc ?t = ?vs" and keyed: "distinct (map ?key ?vs)" using assms(1) by (simp_all add: pg_rel_def oidc_rel_def)
  have keys: "(\<lambda>o'. (o_session_id o', o_client_id o')) ` set ?t = ?key ` set ?vs"
    unfolding view [symmetric] by (force simp: scan_oidc_def)
  have first: "update_first ?same (\<lambda>_. v) ?vs = sql_update ?same (\<lambda>_. v) ?vs"
    by (rule update_first_sql [OF keyed, where k = "?key v"]) simp
  have "oidc_rel (oidc_client_sessions (snd (Pg_SaveOIDCClientSession v db))) (oidcSessions (snd (SaveOIDCClientSession v r)))"
  proof (cases "find ?same ?vs = None")
    case True
    then have "?key v \<notin> ?key ` set ?vs" by (auto simp: find_None_iff)
    with True view keyed keys adm show ?thesis
      by (simp add: Pg_SaveOIDCClientSession_def SaveOIDCClientSession_def Let_def sql_upsert_def oidc_rel_def) (simp add: scan_oidc_def)
  next
    case False
    then obtain w where "find ?same ?vs = Some w" by blast
    from find_SomeD [OF this] have "w \<in> set ?vs" "?key v = ?key w" by simp_all
    then have "?key v \<in> ?key ` set ?vs" by blast
    with keys adm have left: "oidc_client_sessions (snd (Pg_SaveOIDCClientSession v db)) = sql_update ?row ?f ?t"
      by (simp add: Pg_SaveOIDCClientSession_def sql_upsert_def sql_update_def)
    have "sql_update ?same (\<lambda>_. v) ?vs = sql_update ?same ?g ?vs"
      unfolding sql_update_def by (rule map_cong) auto
    with False first have right: "oidcSessions (snd (SaveOIDCClientSession v r)) = sql_update ?same ?g ?vs"
      by (simp add: SaveOIDCClientSession_def Let_def)
    have "map scan_oidc (sql_update ?row ?f ?t) = map id (sql_update ?same ?g ?vs)"
      by (rule sql_update_view) (use view in \<open>auto simp: scan_oidc_def\<close>)
    then show ?thesis using keyed unfolding left right oidc_rel_def by (simp add: map_sql_update [where key = ?key])
  qed
  with assms(1) show ?thesis
    by (simp add: Pg_SaveOIDCClientSession_def SaveOIDCClientSession_def Let_def pg_rel_def)
qed

lemma oidc_rows: "pg_rel db r \<Longrightarrow> oidcSessions r = map scan_oidc (oidc_client_sessions db)"
  by (simp add: pg_rel_def oidc_rel_def)

lemma list_oidc_step:
  assumes "pg_rel db r"
  shows "agrees_at db r (OpListOIDC sid)"
proof -
  have "map scan_oidc (filter (\<lambda>o'. o_session_id o' = sid) (oidc_client_sessions db)) = filter (\<lambda>v. os_SessionID v = sid) (oidcSessions r)"
    using oidc_rows [OF assms] by (simp add: filter_map comp_def scan_oidc_def)
  then have "mset (map scan_oidc (filter (\<lambda>o'. o_session_id o' = sid) (oidc_client_sessions db)))
      = mset (filter (\<lambda>v. os_SessionID v = sid) (oidcSessions r))" by simp
  with assms show ?thesis by (simp add: store_defs)
qed

lemma delete_oidc_step:
  assumes "pg_rel db r"
  shows "agrees_at db r (OpDeleteOIDC sid)"
proof -
  have "map scan_oidc (filter (\<lambda>o'. o_session_id o' \<noteq> sid) (oidc_client_sessions db)) = filter (\<lambda>v. os_SessionID v \<noteq> sid) (oidcSessions r)"
    using oidc_rows [OF assms] by (simp add: filter_map comp_def scan_oidc_def)
  with assms show ?thesis by (simp add: store_defs sql_delete_def pg_rel_def oidc_rel_def distinct_map_filter)
qed

section \<open>The implementation\<close>

lemmas grant_steps = save_code_step consume_code_step save_access_step find_access_step revoke_access_step save_refresh_step
  find_refresh_step rotate_step revoke_refresh_step save_device_step find_device_step decide_device_step poll_step save_oidc_step
  list_oidc_step delete_oidc_step revoke_session_step revoke_user_step revoke_client_step find_consent_step grant_consent_step
  list_consents_step delete_consent_step

lemma pg_simulates: "pg_rel db r \<Longrightarrow> pg_admissible r op \<Longrightarrow> agrees_at db r op"
  by (cases op; simp only:; rule grant_steps; assumption)

interpretation pg_grants: implements pg_oauth_step oauth_step pg_rel pg_admissible pg_agree
  by unfold_locales (simp_all only: pg_simulates)

lemma pg_rel_empty: "pg_rel pg_empty OAuth_NewMemoryRepository"
  by (simp add: pg_rel_def pg_empty_def OAuth_NewMemoryRepository_def codes_rel_def access_rel_def refresh_rel_def devices_rel_def
      oidc_rel_def consents_rel_def families_ok_def)

lemma pg_agree_isl: "pg_agree op x y \<Longrightarrow> isl x = isl y"
  by (cases x; cases y) simp_all

fun pg_code_redeemed :: "bytes \<Rightarrow> oauth_op \<Rightarrow> pg_result \<Rightarrow> bool" where
  "pg_code_redeemed h (OpConsumeCode h' _ _ _ _) res = (h' = h \<and> \<not> isl res)"
| "pg_code_redeemed h _ res = False"

fun pg_refresh_rotated :: "bytes \<Rightarrow> oauth_op \<Rightarrow> pg_result \<Rightarrow> bool" where
  "pg_refresh_rotated h (OpRotate h' _ _) res = (h' = h \<and> \<not> isl res)"
| "pg_refresh_rotated h _ res = False"

lemma pg_redeemed_iff: "pg_agree op x y \<Longrightarrow> pg_code_redeemed h op x = code_redeemed h op y"
  by (cases op) (auto dest: pg_agree_isl)

lemma pg_rotated_iff: "pg_agree op x y \<Longrightarrow> pg_refresh_rotated h op x = refresh_rotated h op y"
  by (cases op) (auto dest: pg_agree_isl)

section \<open>Properties\<close>

definition pg_demo_ops :: "oauth_op list" where
  "pg_demo_ops =
     [OpSaveCode (demo_code\<lparr>ac_AuthenticatedAt := 5000, ac_CreatedAt := 10000, ac_ExpiresAt := 100000\<rparr>),
      OpConsumeCode [1] ''web'' ''https://app/cb'' ''ch'' 20000,
      OpConsumeCode [1] ''web'' ''https://app/cb'' ''ch'' 30000,
      OpSaveRefresh (demo_refresh\<lparr>rt_IssuedAt := 10000, rt_ExpiresAt := 1000000\<rparr>),
      OpRotate [2] (demo_refresh\<lparr>rt_Hash := [6], rt_Scope := None, rt_IssuedAt := 20000, rt_ExpiresAt := 1000000\<rparr>) 20000,
      OpRotate [2] (demo_refresh\<lparr>rt_Hash := [7], rt_Scope := None, rt_IssuedAt := 30000, rt_ExpiresAt := 1000000\<rparr>) 30000,
      OpFindRefresh [6] 40000]"

text \<open>C6: The PostgreSQL grant store implements the in-memory one: from empty stores, every sequence of calls
  that is admissible (microsecond times, new hashes, identifiers where a uuid is expected, no rotation that keeps an empty scope)
  succeeds and fails alike in both stores call by call, and returns the same grants.\<close>
theorem pg_store_implements_memory:
  assumes "admissible_run oauth_step pg_admissible OAuth_NewMemoryRepository ops"
  shows "list_all2 (\<lambda>(op, x) (op', y). op' = op \<and> pg_agree op x y)
      (trace pg_oauth_step pg_empty ops) (trace oauth_step OAuth_NewMemoryRepository ops)
    \<and> pg_rel (final pg_oauth_step pg_empty ops) (final oauth_step OAuth_NewMemoryRepository ops)"
  by (rule pg_grants.run_agrees [OF pg_rel_empty assms])

theorem pg_store_implements_memory_witness:
  "list_all2 (\<lambda>(op, x) (op', y). op' = op \<and> pg_agree op x y)
      (trace pg_oauth_step pg_empty pg_demo_ops) (trace oauth_step OAuth_NewMemoryRepository pg_demo_ops)
    \<and> map (isl \<circ> snd) (trace pg_oauth_step pg_empty pg_demo_ops) = [False, False, True, False, False, True, True]"
proof -
  have "admissible_run oauth_step pg_admissible OAuth_NewMemoryRepository pg_demo_ops" by code_simp
  from pg_store_implements_memory [OF this] show ?thesis by (auto intro: conjI) code_simp
qed

text \<open>One-time use holds for the database too: in every admissible run of calls of the PostgreSQL store at most one exchange
  of an authorization code and at most one rotation of a refresh token succeeds.\<close>
lemma pg_grants_used_at_most_once:
  assumes "admissible_run oauth_step pg_admissible OAuth_NewMemoryRepository ops"
  shows "occurrences (pg_code_redeemed h) pg_oauth_step pg_empty ops \<le> 1
    \<and> occurrences (pg_refresh_rotated h) pg_oauth_step pg_empty ops \<le> 1"
  using pg_grants.run_occurrences [OF pg_rel_empty assms pg_redeemed_iff [where h = h]]
    pg_grants.run_occurrences [OF pg_rel_empty assms pg_rotated_iff [where h = h]]
    code_use.redeemed_at_most_once [where k = h and s = OAuth_NewMemoryRepository and ops = ops]
    refresh_use.redeemed_at_most_once [where k = h and s = OAuth_NewMemoryRepository and ops = ops]
  by (simp add: list_all_iff)

text \<open>C40: A refresh grant without scopes cannot be refreshed: when the stored token is valid and has no scope, a rotation that
  keeps the scopes fails in PostgreSQL, because the copied slice is \<open>nil\<close> and the column does not accept \<open>NULL\<close>, and leaves
  the tables as they were; the in-memory store answers the same call with the token.\<close>
theorem scopeless_refresh_fails:
  assumes "query_row (\<lambda>t. r_token_hash t = h) (oauth_refresh_tokens db) = Some row"
    and "r_client_id row = rt_ClientID v" "r_consumed_at row = None" "r_revoked_at row = None" "r_expires_at row > now"
    and "r_scope row = []" "rt_Scope v = None"
    and "pg_rel db r"
  shows "Pg_RotateRefreshToken h v now db = (Inl SQLError, db) \<and> \<not> isl (fst (RotateRefreshToken h v now r))"
proof -
  have "rel_option (\<lambda>x y. refresh_view x = memory_refresh_view y \<and> x \<in> set (oauth_refresh_tokens db) \<and> y \<in> set (refresh r))
      (find (\<lambda>t. r_token_hash t = h) (oauth_refresh_tokens db)) (find (\<lambda>t. rt_Hash t = h) (refresh r))"
    by (rule refresh_found) (use assms(8) in \<open>simp_all add: pg_rel_def refresh_fields\<close>)
  then obtain m where m: "find (\<lambda>t. rt_Hash t = h) (refresh r) = Some m" "refresh_view row = memory_refresh_view m"
    using assms(1) by (auto simp: query_row_def option_rel_Some1)
  have "elems (rt_Scope m) = []" using refresh_fields(6) [OF m(2)] assms(6) by simp
  then have "\<not> isl (fst (RotateRefreshToken h v now r))"
    using m(1) refresh_fields [OF m(2)] assms(2-5,7) by (simp add: RotateRefreshToken_def rotated_token_def Let_def copy_slice_def)
  moreover have "insert_refresh (rotated_replacement (scan_refresh row) v) t = None" for t
    using assms(6,7) by (simp add: insert_refresh_def refresh_row_of_def rotated_replacement_def Let_def scan_refresh_def copy_slice_def)
  ultimately show ?thesis using assms(1-7)
    by (simp add: Pg_RotateRefreshToken_def Let_def) (simp add: scan_refresh_def rotated_replacement_def copy_slice_def Let_def)
qed

definition pg_scopeless :: "oauth_op list" where
  "pg_scopeless = [OpSaveRefresh (demo_refresh\<lparr>rt_Scope := Some [], rt_IssuedAt := 10000, rt_ExpiresAt := 1000000\<rparr>)]"

theorem scopeless_refresh_fails_witness:
  "Pg_RotateRefreshToken [2] (demo_refresh\<lparr>rt_Hash := [6], rt_Scope := None\<rparr>) 20000 (final pg_oauth_step pg_empty pg_scopeless)
      = (Inl SQLError, final pg_oauth_step pg_empty pg_scopeless)"
proof -
  let ?db = "final pg_oauth_step pg_empty pg_scopeless" and ?v = "demo_refresh\<lparr>rt_Hash := [6], rt_Scope := None\<rparr>"
  have rel: "pg_rel ?db (final oauth_step OAuth_NewMemoryRepository pg_scopeless)"
  proof -
    have "admissible_run oauth_step pg_admissible OAuth_NewMemoryRepository pg_scopeless" by code_simp
    from pg_grants.run_agrees [OF pg_rel_empty this] show ?thesis by simp
  qed
  obtain row where row: "query_row (\<lambda>t. r_token_hash t = [2]) (oauth_refresh_tokens ?db) = Some row"
      "r_client_id row = rt_ClientID ?v \<and> r_consumed_at row = None \<and> r_revoked_at row = None \<and> r_expires_at row > 20000 \<and> r_scope row = []"
    by (simp add: pg_scopeless_def pg_empty_def demo_refresh_def store_defs insert_refresh_def refresh_row_of_def sql_insert_def
        query_row_def timestamptz_def nullableText_def)
  then show ?thesis using scopeless_refresh_fails [OF row(1), of ?v 20000] rel by simp
qed

end
