(* ===== verification/CAS_Endpoints.thy ===== *)
theory CAS_Endpoints
  imports OAuth_Interaction
begin

text \<open>
  The CAS protocol of \<open>internal/platform/http/cas.go\<close>: the login page that hands out service tickets, the three validation
  endpoints, proxy tickets and sign-out.

  \<^item> An answer of a validation endpoint is a value of \<open>cas_answer\<close>, and \<open>cas_body\<close> is the XML it is written as. Texts are
    taken to be valid UTF-8, whose bytes above 127 \<open>xml.EscapeText\<close> leaves alone.
  \<^item> The outgoing request to a proxy callback is a parameter: from the address to the status code, or to the text of an error.
  \<^item> The single-logout requests of \<open>casLogout\<close> are returned as a list; \<open>sendCASLogout\<close> makes the form that is posted.
    The time of such a request in RFC 3339 form is an argument. Their delivery is left out.
\<close>

section \<open>XML answers\<close>

definition xml_escape_char :: "char \<Rightarrow> string" where
  "xml_escape_char c =
     (if c = CHR 0x22 then ''&#34;'' else if c = CHR 0x27 then ''&#39;'' else if c = CHR ''&'' then ''&amp;''
      else if c = CHR ''<'' then ''&lt;'' else if c = CHR ''>'' then ''&gt;'' else if c = CHR 0x09 then ''&#x9;''
      else if c = CHR 0x0A then ''&#xA;'' else if c = CHR 0x0D then ''&#xD;''
      else if char_code c < 32 then [CHR 0xEF, CHR 0xBF, CHR 0xBD] else [c])"

definition xmlEscape :: "string \<Rightarrow> string" where
  "xmlEscape s = concat (map xml_escape_char s)"

datatype cas_answer =
    AuthenticationSuccess User bool string "string list" "string list" "string list"
  | AuthenticationFailure string string
  | ProxySuccess string
  | ProxyFailure string string

definition xml_head :: string where
  "xml_head = ''<?xml version=\"1.0\" encoding=\"UTF-8\"?><cas:serviceResponse xmlns:cas=\"http://www.yale.edu/tp/cas\">''"

definition xml_tail :: string where
  "xml_tail = ''</cas:serviceResponse>''"

definition xml_element :: "string \<Rightarrow> string \<Rightarrow> string" where
  "xml_element name v = ''<cas:'' @ name @ ''>'' @ xmlEscape v @ ''</cas:'' @ name @ ''>''"

definition writeCASSuccess :: "User \<Rightarrow> bool \<Rightarrow> string \<Rightarrow> string list \<Rightarrow> string list \<Rightarrow> string list \<Rightarrow> string" where
  "writeCASSuccess user includeAttributes pgtIOU proxies roleCodes permissionCodes =
     xml_head @ ''<cas:authenticationSuccess>'' @ xml_element ''user'' (us_Username user) @
     (if includeAttributes
      then ''<cas:attributes>'' @ xml_element ''displayName'' (us_DisplayName user) @
           (case us_Email user of None \<Rightarrow> [] | Some email \<Rightarrow> xml_element ''email'' email) @
           concat (map (xml_element ''role'') roleCodes) @ concat (map (xml_element ''permission'') permissionCodes) @ ''</cas:attributes>''
      else []) @
     (if pgtIOU \<noteq> [] then xml_element ''proxyGrantingTicket'' pgtIOU else []) @
     (if proxies \<noteq> [] then ''<cas:proxies>'' @ concat (map (xml_element ''proxy'') proxies) @ ''</cas:proxies>'' else []) @
     ''</cas:authenticationSuccess>'' @ xml_tail"

definition writeCASFailure :: "string \<Rightarrow> string \<Rightarrow> string" where
  "writeCASFailure code message =
     xml_head @ ''<cas:authenticationFailure code=\"'' @ xmlEscape code @ ''\">'' @ xmlEscape message @
     ''</cas:authenticationFailure>'' @ xml_tail"

definition writeCASProxyFailure :: "string \<Rightarrow> string \<Rightarrow> string" where
  "writeCASProxyFailure code message =
     xml_head @ ''<cas:proxyFailure code=\"'' @ xmlEscape code @ ''\">'' @ xmlEscape message @ ''</cas:proxyFailure>'' @ xml_tail"

fun cas_body :: "cas_answer \<Rightarrow> string" where
  "cas_body (AuthenticationSuccess user attributes pgtIOU proxies roleCodes permissionCodes) =
     writeCASSuccess user attributes pgtIOU proxies roleCodes permissionCodes"
| "cas_body (AuthenticationFailure code message) = writeCASFailure code message"
| "cas_body (ProxySuccess ticket) =
     xml_head @ ''<cas:proxySuccess><cas:proxyTicket>'' @ xmlEscape ticket @ ''</cas:proxyTicket></cas:proxySuccess>'' @ xml_tail"
| "cas_body (ProxyFailure code message) = writeCASProxyFailure code message"

text \<open>What a CAS request is answered with: a text, an XML answer, a redirect to an address as it was given, or one of the
  replies the other handlers use.\<close>

datatype cas_reply =
    CASText string
  | CASAnswer cas_answer
  | CASRedirect string
  | CASReply reply

section \<open>Registered services\<close>

definition findCASClient :: "string \<Rightarrow> server \<Rightarrow> Client option" where
  "findCASClient serviceURL s =
     (if serviceURL = [] then None
      else find (\<lambda>registered. \<not> (\<not> cl_Enabled registered \<or> \<not> SupportsProtocol registered ProtocolCAS) \<and>
                   serviceURL \<in> set (cl_CASServiceURLs registered)) (Client_List (srv_clients s)))"

section \<open>Re-authentication\<close>

definition cas_marker_ok :: "request_context \<Rightarrow> string \<Rightarrow> claims \<Rightarrow> bool" where
  "cas_marker_ok cx serviceURL cs =
     (claim_string ''purpose'' cs = ''cas_reauth'' \<and> claim_string ''service'' cs = serviceURL
      \<and> claim_int64 ''exp'' cs > Unix (cx_now cx) \<and> claim_int64 ''iat'' cs \<le> Unix (cx_now cx) + 30)"

definition validUnsignedCASReauthMarker :: "request_context \<Rightarrow> string \<Rightarrow> string \<Rightarrow> server \<Rightarrow> bool \<times> server" where
  "validUnsignedCASReauthMarker cx marker serviceURL s =
     (case Verify (cx_lib cx) (cx_now cx) (srv_keys s) marker (srv_signer s) of
        (Inl _, sg) \<Rightarrow> (False, s\<lparr>srv_signer := sg\<rparr>)
      | (Inr cs, sg) \<Rightarrow> (cas_marker_ok cx serviceURL cs, s\<lparr>srv_signer := sg\<rparr>))"

definition validCASReauthMarker :: "request_context \<Rightarrow> string \<Rightarrow> string \<Rightarrow> time \<Rightarrow> server \<Rightarrow> bool \<times> server" where
  "validCASReauthMarker cx marker serviceURL authenticatedAt s =
     (case validUnsignedCASReauthMarker cx marker serviceURL s of
        (False, s1) \<Rightarrow> (False, s1)
      | (True, s1) \<Rightarrow>
          (case Verify (cx_lib cx) (cx_now cx) (srv_keys s1) marker (srv_signer s1) of
             (Inl _, sg) \<Rightarrow> (Unix authenticatedAt \<ge> 0, s1\<lparr>srv_signer := sg\<rparr>)
           | (Inr cs, sg) \<Rightarrow> (Unix authenticatedAt \<ge> claim_int64 ''iat'' cs, s1\<lparr>srv_signer := sg\<rparr>)))"

definition redirectCASCredentials ::
  "request_context \<Rightarrow> Client \<Rightarrow> string \<Rightarrow> bool \<Rightarrow> string \<Rightarrow> server \<Rightarrow> cas_reply \<times> server" where
  "redirectCASCredentials cx registered serviceURL renew marker s =
     (let query = [(''service'', [serviceURL])];
          target = (\<lambda>q. CASReply (RedirectPath ''/login''
            [(''continue'', [''/cas/login?'' @ Encode q]), (''client_id'', [cl_ID registered])]));
          marked = (\<lambda>m. target (Values_Set ''reauth'' m (Values_Set ''renew'' ''true'' query)))
      in if \<not> renew then (target query, s)
         else case validUnsignedCASReauthMarker cx marker serviceURL s of
             (True, s1) \<Rightarrow> (marked marker, s1)
           | (False, s1) \<Rightarrow>
               (case Sign (cx_lib cx) (cx_now cx) (srv_keys s1)
                   [(''purpose'', JStr ''cas_reauth''), (''service'', JStr serviceURL), (''iat'', JInt (Unix (cx_now cx))),
                    (''exp'', JInt (Unix (cx_now cx + 5 * minute)))] (srv_signer s1) of
                  (Inl _, sg) \<Rightarrow> (CASReply (Problem 500 ''INTERNAL_ERROR''), s1\<lparr>srv_signer := sg\<rparr>)
                | (Inr m, sg) \<Rightarrow> (marked m, s1\<lparr>srv_signer := sg\<rparr>)))"

section \<open>Service tickets\<close>

abbreviation serviceTicketLifetime :: duration where "serviceTicketLifetime \<equiv> 2 * minute"
abbreviation proxyTicketLifetime :: duration where "proxyTicketLifetime \<equiv> 2 * minute"
abbreviation proxyGrantingTicketLifetime :: duration where "proxyGrantingTicketLifetime \<equiv> 8 * hour"

text \<open>The end of \<open>casLogin\<close>: the ticket for an authenticated user.\<close>

definition issue_service_ticket ::
  "request_context \<Rightarrow> Client \<Rightarrow> string \<Rightarrow> bool \<Rightarrow> Session \<Rightarrow> server \<Rightarrow> cas_reply \<times> server" where
  "issue_service_ticket cx registered serviceURL primaryCredentials current s =
     (case RandomToken 32 (cx_random cx 0) of
        Inl _ \<Rightarrow> (CASReply (Problem 500 ''INTERNAL_ERROR''), s)
      | Inr raw \<Rightarrow>
          let ticket = ''ST-'' @ raw;
              s1 = s\<lparr>srv_cas := snd (SaveServiceTicket
                \<lparr>st_Hash = HashToken (cx_sha256 cx) ticket, st_Ticket = ticket, st_ClientID = cl_ID registered,
                 st_Service = serviceURL, st_UserID = se_UserID current, st_SessionID = se_ID current,
                 st_PrimaryCredentials = primaryCredentials, st_IssuedAt = cx_now cx,
                 st_ExpiresAt = cx_now cx + serviceTicketLifetime\<rparr> (srv_cas s))\<rparr>
          in case Parse serviceURL of
               None \<Rightarrow> (CASReply Aborted, s1)
             | Some target \<Rightarrow>
                 (CASReply (RedirectURL (target\<lparr>u_RawQuery := Encode (Values_Set ''ticket'' ticket (URL_Query target))\<rparr>)), s1))"

definition casLogin :: "request_context \<Rightarrow> request \<Rightarrow> server \<Rightarrow> cas_reply \<times> server" where
  "casLogin cx rq s =
     (let q = rq_Query rq; serviceURL = Get ''service'' q in
      case findCASClient serviceURL s of
        None \<Rightarrow> (CASReply (Problem 400 ''INVALID_SERVICE''), s)
      | Some registered \<Rightarrow>
          let renewRequested = (Get ''renew'' q = ''true'' \<and> cl_CASRenew registered); gateway = (Get ''gateway'' q = ''true'')
          in if gateway \<and> renewRequested then (CASReply (Problem 400 ''INVALID_REQUEST''), s)
             else case currentSession cx rq s of
                 (None, s1) \<Rightarrow>
                   if gateway \<and> cl_CASGateway registered then (CASRedirect serviceURL, s1)
                   else redirectCASCredentials cx registered serviceURL renewRequested [] s1
               | (Some current, s1) \<Rightarrow>
                   if renewRequested then
                     (let marker = Get ''reauth'' q in
                      case validCASReauthMarker cx marker serviceURL (se_AuthenticatedAt current) s1 of
                        (False, s2) \<Rightarrow> redirectCASCredentials cx registered serviceURL True marker s2
                      | (True, s2) \<Rightarrow> issue_service_ticket cx registered serviceURL True current s2)
                   else issue_service_ticket cx registered serviceURL False current s1)"

text \<open>A consumed ticket stands for an active user, or the validation fails.\<close>

definition active_user :: "string \<Rightarrow> server \<Rightarrow> User option" where
  "active_user userID s =
     (case User_Find userID (srv_users s) of
        Inl _ \<Rightarrow> None
      | Inr user \<Rightarrow> if us_Status user \<noteq> UserActive then None else Some user)"

definition casValidate :: "request_context \<Rightarrow> request \<Rightarrow> server \<Rightarrow> cas_reply \<times> server" where
  "casValidate cx rq s =
     (let q = rq_Query rq; serviceURL = Get ''service'' q; no = CASText (''no'' @ [CHR 0x0A, CHR 0x0A]) in
      if findCASClient serviceURL s = None then (no, s)
      else case ConsumeServiceTicket (HashToken (cx_sha256 cx) (Get ''ticket'' q)) serviceURL (Get ''renew'' q = ''true'')
              (cx_now cx) (srv_cas s) of
          (Inl _, r) \<Rightarrow> (no, s\<lparr>srv_cas := r\<rparr>)
        | (Inr ticket, r) \<Rightarrow>
            (case active_user (st_UserID ticket) s of
               None \<Rightarrow> (no, s\<lparr>srv_cas := r\<rparr>)
             | Some user \<Rightarrow> (CASText (''yes'' @ [CHR 0x0A] @ us_Username user @ [CHR 0x0A]), s\<lparr>srv_cas := r\<rparr>)))"

section \<open>Proxy-granting tickets\<close>

definition validCASProxyCallback :: "Client \<Rightarrow> string \<Rightarrow> string \<Rightarrow> bool" where
  "validCASProxyCallback registered serviceURL callbackURL =
     (if \<not> cl_CASProxy registered then False
      else case Parse serviceURL of
          None \<Rightarrow> False
        | Some service \<Rightarrow>
            (case Parse callbackURL of
               None \<Rightarrow> False
             | Some callback \<Rightarrow>
                 if u_Scheme callback \<noteq> ''https'' \<or> u_Host callback = [] \<or> u_User callback \<noteq> None \<or> u_Fragment callback \<noteq> []
                 then False else EqualFold (u_Host service) (u_Host callback)))"

type_synonym outbound = "URL \<Rightarrow> string + nat"

definition issueProxyGrantingTicket ::
  "request_context \<Rightarrow> outbound \<Rightarrow> request \<Rightarrow> Client \<Rightarrow> ProxyGrantingTicket \<Rightarrow> string \<Rightarrow> server \<Rightarrow> (string + string) \<times> server" where
  "issueProxyGrantingTicket cx fetch rq registered granted callbackURL s =
     (if callbackURL = [] then (Inr [], s)
      else if \<not> cl_CASProxy registered then (Inl ''service is not authorized for proxy authentication'', s)
      else if \<not> validCASProxyCallback registered (Get ''service'' (rq_Query rq)) callbackURL
      then (Inl ''proxy callback must be HTTPS and use the registered service host'', s)
      else case RandomToken 32 (cx_random cx 0) of
          Inl _ \<Rightarrow> (Inl ''could not generate proxy granting ticket'', s)
        | Inr pgt \<Rightarrow>
            (case RandomToken 32 (cx_random cx 1) of
               Inl _ \<Rightarrow> (Inl ''could not generate proxy granting ticket IOU'', s)
             | Inr iou \<Rightarrow>
                 let rawPGT = ''PGT-'' @ pgt; rawIOU = ''PGTIOU-'' @ iou
                 in case Parse callbackURL of
                      None \<Rightarrow> (Inl ''proxy callback is invalid'', s)
                    | Some callback \<Rightarrow>
                        (case fetch (callback\<lparr>u_RawQuery :=
                             Encode (Values_Set ''pgtIou'' rawIOU (Values_Set ''pgtId'' rawPGT (URL_Query callback)))\<rparr>) of
                           Inl err \<Rightarrow> (Inl (''proxy callback failed: '' @ err), s)
                         | Inr status \<Rightarrow>
                             if status \<noteq> 200 then (Inl (''proxy callback returned HTTP '' @ decimal status), s)
                             else (Inr rawIOU, s\<lparr>srv_cas := snd (SaveProxyGrantingTicket
                               (granted\<lparr>pg_Hash := HashToken (cx_sha256 cx) rawPGT, pg_CallbackURL := callbackURL,
                                        pg_IssuedAt := cx_now cx, pg_ExpiresAt := cx_now cx + proxyGrantingTicketLifetime\<rparr>)
                               (srv_cas s))\<rparr>))))"

definition casEntitlements :: "request_context \<Rightarrow> Client \<Rightarrow> string \<Rightarrow> bool \<Rightarrow> server \<Rightarrow> string list \<times> string list" where
  "casEntitlements cx registered userID includeAttributes s =
     (if \<not> includeAttributes \<or> ''roles'' \<notin> set (cl_AllowedScopes registered) then ([], [])
      else let e = Effective userID (cl_ID registered) (cx_now cx) (srv_access s) (srv_access s)
           in (en_Roles e, en_Permissions e))"

text \<open>The common end of the two XML validations, for a ticket that has been consumed.\<close>

definition granted_for :: "string \<Rightarrow> string \<Rightarrow> string \<Rightarrow> string list \<Rightarrow> bool \<Rightarrow> ProxyGrantingTicket" where
  "granted_for clientID userID sessionID proxies primaryCredentials =
     \<lparr>pg_Hash = [], pg_ClientID = clientID, pg_UserID = userID, pg_SessionID = sessionID, pg_CallbackURL = [],
      pg_Proxies = proxies, pg_PrimaryCredentials = primaryCredentials, pg_IssuedAt = 0, pg_ExpiresAt = 0\<rparr>"

definition validated ::
  "request_context \<Rightarrow> outbound \<Rightarrow> request \<Rightarrow> Client \<Rightarrow> bool \<Rightarrow> ProxyGrantingTicket \<Rightarrow> string list \<Rightarrow> server \<Rightarrow> cas_reply \<times> server" where
  "validated cx fetch rq registered includeAttributes granted proxies s =
     (case active_user (pg_UserID granted) s of
        None \<Rightarrow> (CASAnswer (AuthenticationFailure ''INVALID_TICKET'' ''ticket user is unavailable''), s)
      | Some user \<Rightarrow>
          let (roleCodes, permissionCodes) = casEntitlements cx registered (us_ID user) includeAttributes s
          in case issueProxyGrantingTicket cx fetch rq registered granted (Get ''pgtUrl'' (rq_Query rq)) s of
               (Inl err, s1) \<Rightarrow> (CASAnswer (AuthenticationFailure ''INVALID_PROXY_CALLBACK'' err), s1)
             | (Inr pgtIOU, s1) \<Rightarrow>
                 (CASAnswer (AuthenticationSuccess user includeAttributes pgtIOU proxies roleCodes permissionCodes), s1))"

definition invalid_service :: cas_reply where
  "invalid_service = CASAnswer (AuthenticationFailure ''INVALID_SERVICE'' ''service is not registered'')"

definition invalid_ticket :: cas_reply where
  "invalid_ticket = CASAnswer (AuthenticationFailure ''INVALID_TICKET'' ''ticket is invalid, expired, or already used'')"

definition casServiceValidate :: "request_context \<Rightarrow> outbound \<Rightarrow> request \<Rightarrow> server \<Rightarrow> cas_reply \<times> server" where
  "casServiceValidate cx fetch rq s =
     (let q = rq_Query rq; serviceURL = Get ''service'' q in
      case findCASClient serviceURL s of
        None \<Rightarrow> (invalid_service, s)
      | Some registered \<Rightarrow>
          (case ConsumeServiceTicket (HashToken (cx_sha256 cx) (Get ''ticket'' q)) serviceURL (Get ''renew'' q = ''true'')
                  (cx_now cx) (srv_cas s) of
             (Inl _, r) \<Rightarrow> (invalid_ticket, s\<lparr>srv_cas := r\<rparr>)
           | (Inr ticket, r) \<Rightarrow>
               validated cx fetch rq registered (rq_Path rq = ''/cas/p3/serviceValidate'')
                 (granted_for (st_ClientID ticket) (st_UserID ticket) (st_SessionID ticket) [] (st_PrimaryCredentials ticket))
                 [] (s\<lparr>srv_cas := r\<rparr>)))"

definition casProxyValidate :: "request_context \<Rightarrow> outbound \<Rightarrow> request \<Rightarrow> server \<Rightarrow> cas_reply \<times> server" where
  "casProxyValidate cx fetch rq s =
     (let q = rq_Query rq; serviceURL = Get ''service'' q; rawTicket = Get ''ticket'' q;
          hash = HashToken (cx_sha256 cx) rawTicket; requirePrimary = (Get ''renew'' q = ''true'');
          includeAttributes = (rq_Path rq = ''/cas/p3/proxyValidate'')
      in case findCASClient serviceURL s of
           None \<Rightarrow> (invalid_service, s)
         | Some registered \<Rightarrow>
             if HasPrefix rawTicket ''PT-'' then
               (case ConsumeProxyTicket hash serviceURL requirePrimary (cx_now cx) (srv_cas s) of
                  (Inl _, r) \<Rightarrow> (invalid_ticket, s\<lparr>srv_cas := r\<rparr>)
                | (Inr ticket, r) \<Rightarrow>
                    validated cx fetch rq registered includeAttributes
                      (granted_for (cl_ID registered) (pt_UserID ticket) (pt_SessionID ticket) (pt_Proxies ticket)
                        (pt_PrimaryCredentials ticket)) (pt_Proxies ticket) (s\<lparr>srv_cas := r\<rparr>))
             else
               (case ConsumeServiceTicket hash serviceURL requirePrimary (cx_now cx) (srv_cas s) of
                  (Inl _, r) \<Rightarrow> (invalid_ticket, s\<lparr>srv_cas := r\<rparr>)
                | (Inr ticket, r) \<Rightarrow>
                    validated cx fetch rq registered includeAttributes
                      (granted_for (cl_ID registered) (st_UserID ticket) (st_SessionID ticket) [] (st_PrimaryCredentials ticket))
                      [] (s\<lparr>srv_cas := r\<rparr>)))"

section \<open>Proxy tickets\<close>

definition casProxy :: "request_context \<Rightarrow> request \<Rightarrow> server \<Rightarrow> cas_reply \<times> server" where
  "casProxy cx rq s =
     (let rawPGT = Get ''pgt'' (rq_Query rq); targetService = Get ''targetService'' (rq_Query rq);
          pgtHash = HashToken (cx_sha256 cx) rawPGT; refuse = (\<lambda>code message. CASAnswer (ProxyFailure code message))
      in if rawPGT = [] \<or> targetService = [] then (refuse ''INVALID_REQUEST'' ''pgt and targetService are required'', s)
         else case findCASClient targetService s of
             None \<Rightarrow> (refuse ''UNAUTHORIZED_SERVICE'' ''targetService is not registered'', s)
           | Some target \<Rightarrow>
               (case FindProxyGrantingTicket pgtHash (cx_now cx) (srv_cas s) of
                  Inl _ \<Rightarrow> (refuse ''UNAUTHORIZED_SERVICE'' ''proxy granting ticket is invalid or expired'', s)
                | Inr pgt \<Rightarrow>
                    (case Client_Find (pg_ClientID pgt) (srv_clients s) of
                       Inl _ \<Rightarrow> (refuse ''UNAUTHORIZED_SERVICE'' ''service is not allowed to proxy authentication'', s)
                     | Inr source \<Rightarrow>
                         if \<not> cl_Enabled source \<or> \<not> cl_CASProxy source
                         then (refuse ''UNAUTHORIZED_SERVICE'' ''service is not allowed to proxy authentication'', s)
                         else case RandomToken 32 (cx_random cx 0) of
                             Inl _ \<Rightarrow> (refuse ''INTERNAL_ERROR'' ''could not generate proxy ticket'', s)
                           | Inr raw \<Rightarrow>
                               let rawTicket = ''PT-'' @ raw
                               in case SaveProxyTicket
                                    \<lparr>pt_Hash = HashToken (cx_sha256 cx) rawTicket, pt_ClientID = cl_ID target,
                                     pt_TargetService = targetService, pt_UserID = pg_UserID pgt, pt_SessionID = pg_SessionID pgt,
                                     pt_Proxies = pg_CallbackURL pgt # pg_Proxies pgt,
                                     pt_PrimaryCredentials = pg_PrimaryCredentials pgt, pt_IssuedAt = cx_now cx,
                                     pt_ExpiresAt = cx_now cx + proxyTicketLifetime\<rparr> pgtHash (srv_cas s) of
                                    (Inl _, r) \<Rightarrow> (refuse ''INTERNAL_ERROR'' ''could not save proxy ticket'', s\<lparr>srv_cas := r\<rparr>)
                                  | (Inr _, r) \<Rightarrow> (CASAnswer (ProxySuccess rawTicket), s\<lparr>srv_cas := r\<rparr>))))"

section \<open>Sign-out\<close>

text \<open>The services that are told about a sign-out, with the name they know the user by.\<close>

definition cas_logout_jobs :: "Session \<Rightarrow> server \<Rightarrow> (ServiceSession \<times> string) list" where
  "cas_logout_jobs current s =
     (let principal = (case User_Find (se_UserID current) (srv_users s) of Inl _ \<Rightarrow> se_UserID current | Inr user \<Rightarrow> us_Username user)
      in List.map_filter (\<lambda>serviceSession.
           case findCASClient (sv_Service serviceSession) s of
             None \<Rightarrow> None
           | Some registered \<Rightarrow> if \<not> cl_CASSingleLogout registered then None else Some (serviceSession, principal))
         (ListServiceSessions (se_ID current) (srv_cas s)))"

definition sendCASLogout :: "bytes option \<Rightarrow> string \<Rightarrow> ServiceSession \<times> string \<Rightarrow> (string \<times> Values) option" where
  "sendCASLogout random instant job =
     (case RandomToken 16 random of
        Inl _ \<Rightarrow> None
      | Inr requestID \<Rightarrow>
          Some (sv_Service (fst job), [(''logoutRequest'',
            [''<samlp:LogoutRequest xmlns:samlp=\"urn:oasis:names:tc:SAML:2.0:protocol\" ID=\"'' @ xmlEscape (''_'' @ requestID) @
             ''\" Version=\"2.0\" IssueInstant=\"'' @ xmlEscape instant @
             ''\"><saml:NameID xmlns:saml=\"urn:oasis:names:tc:SAML:2.0:assertion\">'' @ xmlEscape (snd job) @
             ''</saml:NameID><samlp:SessionIndex>'' @ xmlEscape (sv_Ticket (fst job)) @ ''</samlp:SessionIndex></samlp:LogoutRequest>''])]))"

definition casLogout :: "request_context \<Rightarrow> request \<Rightarrow> server \<Rightarrow> (cas_reply \<times> cookie list \<times> (ServiceSession \<times> string) list) \<times> server" where
  "casLogout cx rq s =
     (let (jobs, s1) = (case currentSession cx rq s of
            (None, s1) \<Rightarrow> ([], s1)
          | (Some current, s1) \<Rightarrow>
              (cas_logout_jobs current s1,
               snd (cleanupRevokedSessions cx [(se_ID current, se_UserID current)] (revoke_session cx (se_ID current) s1))));
          service = Get ''service'' (rq_Query rq);
          target = (if service = [] then Get ''url'' (rq_Query rq) else service)
      in ((if findCASClient target s1 \<noteq> None then CASRedirect target else CASReply (RedirectPath ''/login'' []),
           [clearCookie sessionCookieName], jobs), s1))"

end
