(* ===== verification/CAS_Flows.thy ===== *)
theory CAS_Flows
  imports CAS_Endpoints OAuth_Flows
begin

text \<open>
  What the CAS endpoints guarantee: every request acts through repository calls, a ticket is validated at most once over all
  endpoints, an answer says success only for a ticket that was issued for the service, and the XML of an answer cannot
  be forged through the texts in it. The last property shows what signing out leaves behind.
\<close>

section \<open>Requests as repository calls\<close>

abbreviation cas_reach where "cas_reach \<equiv> reach (\<lambda>_. True) cas_step"

text \<open>A CAS request issues no code or token.\<close>

definition cas_acts :: "server \<Rightarrow> server \<Rightarrow> bool" where
  "cas_acts s s' = (acts (\<lambda>_ _. False) s s' \<and> cas_reach (srv_cas s) (srv_cas s'))"

lemma cas_acts_refl [simp]: "cas_acts s s"
  by (simp add: cas_acts_def)

lemma cas_acts_trans [trans]: "cas_acts s s' \<Longrightarrow> cas_acts s' s'' \<Longrightarrow> cas_acts s s''"
  unfolding cas_acts_def by (auto intro: acts_trans reach_trans)

lemma cas_acts_signer [simp]: "cas_acts s (s'\<lparr>srv_signer := sg\<rparr>) = cas_acts s s'"
  by (simp add: cas_acts_def)

lemma cas_acts_after: "cas_acts s s' \<Longrightarrow> cas_reach (srv_cas s') r \<Longrightarrow> cas_acts s (s'\<lparr>srv_cas := r\<rparr>)"
  unfolding cas_acts_def by (auto intro: reach_trans)

lemmas cas_reach_rules =
  reach_op [of "\<lambda>_. True" "CasSaveTicket v" cas_step r, simplified] reach_op [of "\<lambda>_. True" "CasConsumeTicket h s p now" cas_step r, simplified]
  reach_op [of "\<lambda>_. True" "CasSavePGT g" cas_step r, simplified] reach_op [of "\<lambda>_. True" "CasSaveProxy t h" cas_step r, simplified]
  reach_op [of "\<lambda>_. True" "CasConsumeProxy h s p now" cas_step r, simplified] reach_op [of "\<lambda>_. True" "CasDeleteSessions sid" cas_step r, simplified]
  for v h s p now g t sid r

lemma cas_reach_results:
  "ConsumeServiceTicket h sv p now r = (x, r') \<Longrightarrow> cas_reach r r'"
  "ConsumeProxyTicket h sv p now r = (y, r') \<Longrightarrow> cas_reach r r'"
  "SaveProxyTicket t h r = (z, r') \<Longrightarrow> cas_reach r r'"
  by (metis cas_reach_rules snd_conv)+

lemma currentSession_cas_acts: "currentSession cx rq s = (c, s') \<Longrightarrow> cas_acts s s'"
  using currentSession_acts [of cx rq s c s' "\<lambda>_ _. False"]
  by (auto simp: cas_acts_def currentSession_def split: option.splits prod.splits sum.splits)

lemma unsigned_marker_acts:
  "validUnsignedCASReauthMarker cx m u s = (b, s') \<Longrightarrow> \<exists>sg. s' = s\<lparr>srv_signer := sg\<rparr>"
  by (auto simp: validUnsignedCASReauthMarker_def split: prod.splits sum.splits)

lemma marker_acts: "validCASReauthMarker cx m u t s = (b, s') \<Longrightarrow> \<exists>sg. s' = s\<lparr>srv_signer := sg\<rparr>"
  by (auto simp: validCASReauthMarker_def split: prod.splits sum.splits bool.splits dest!: unsigned_marker_acts)

lemma redirect_acts: "cas_acts s (snd (redirectCASCredentials cx c u renew m s))"
  by (auto simp: redirectCASCredentials_def Let_def split: prod.splits sum.splits bool.splits dest!: unsigned_marker_acts)

lemma issue_service_ticket_acts: "cas_acts s (snd (issue_service_ticket cx c u p cur s))"
  by (auto simp: issue_service_ticket_def Let_def split: sum.splits option.splits intro!: cas_acts_after cas_reach_rules)

lemma casLogin_acts: "cas_acts s (snd (casLogin cx rq s))"
proof (cases "findCASClient (Get ''service'' (rq_Query rq)) s")
  case (Some registered)
  obtain c s1 where cs: "currentSession cx rq s = (c, s1)" by fastforce
  have s1: "cas_acts s s1" by (rule currentSession_cas_acts [OF cs])
  show ?thesis
  proof (cases c)
    case None
    with s1 cs Some show ?thesis by (auto simp: casLogin_def Let_def intro: cas_acts_trans redirect_acts)
  next
    case (Some current)
    obtain b s2 where m: "validCASReauthMarker cx (Get ''reauth'' (rq_Query rq)) (Get ''service'' (rq_Query rq)) (se_AuthenticatedAt current) s1 = (b, s2)"
      by fastforce
    have s2: "cas_acts s s2" using marker_acts [OF m] s1 by auto
    show ?thesis
      using s1 s2 cs Some m \<open>findCASClient _ s = Some registered\<close>
      by (auto simp: casLogin_def Let_def split: bool.split intro: cas_acts_trans redirect_acts issue_service_ticket_acts)
  qed
qed (simp add: casLogin_def)

lemma casValidate_acts: "cas_acts s (snd (casValidate cx rq s))"
  by (auto simp: casValidate_def Let_def split: prod.split sum.split option.split intro!: cas_acts_after dest: cas_reach_results)

lemma issuePGT_acts: "cas_acts s (snd (issueProxyGrantingTicket cx fetch rq c g u s))"
  by (auto simp: issueProxyGrantingTicket_def Let_def split: sum.split option.split intro!: cas_acts_after cas_reach_rules)

lemma validated_acts: "cas_acts s (snd (validated cx fetch rq c a g px s))"
  using issuePGT_acts [of s cx fetch rq c g "Get ''pgtUrl'' (rq_Query rq)"]
  by (auto simp: validated_def Let_def split: option.split prod.split sum.split)

lemma casServiceValidate_acts: "cas_acts s (snd (casServiceValidate cx fetch rq s))"
  by (auto simp: casServiceValidate_def Let_def split: option.split prod.split sum.split
      intro!: cas_acts_after cas_acts_trans [OF _ validated_acts] dest: cas_reach_results)

lemma casProxyValidate_acts: "cas_acts s (snd (casProxyValidate cx fetch rq s))"
  by (auto simp: casProxyValidate_def Let_def split: option.split prod.split sum.split
      intro!: cas_acts_after cas_acts_trans [OF _ validated_acts] dest: cas_reach_results)

lemma casProxy_acts: "cas_acts s (snd (casProxy cx rq s))"
  by (auto simp: casProxy_def Let_def split: option.split prod.split sum.split intro!: cas_acts_after dest: cas_reach_results)

lemma cleanup_session_cas: "cas_reach (srv_cas s) (srv_cas (cleanup_session cx current s))"
  by (auto simp: cleanup_session_def Let_def intro: cas_reach_rules)

lemma casLogout_acts: "cas_acts s (snd (casLogout cx rq s))"
proof -
  obtain c s1 where cs: "currentSession cx rq s = (c, s1)" by fastforce
  have s1: "cas_acts s s1" by (rule currentSession_cas_acts [OF cs])
  show ?thesis
  proof (cases c)
    case (Some current)
    let ?s = "snd (cleanupRevokedSessions cx [(se_ID current, se_UserID current)] (revoke_session cx (se_ID current) s1))"
    have "acts (\<lambda>_ _. False) s1 ?s" by (intro acts_cleanupRevokedSessions acts_revoke_session) simp
    moreover have "cas_reach (srv_cas s1) (srv_cas ?s)"
      using cleanup_session_cas [of "revoke_session cx (se_ID current) s1" cx "(se_ID current, se_UserID current)"]
      by (simp add: cleanupRevokedSessions_def notifyOIDCBackchannelLogout_def Let_def revoke_session_def)
    ultimately have "cas_acts s1 ?s" by (simp add: cas_acts_def)
    with s1 cs Some show ?thesis by (auto simp: casLogout_def Let_def intro: cas_acts_trans)
  qed (use s1 cs in \<open>simp add: casLogout_def Let_def\<close>)
qed

section \<open>The machine\<close>

datatype cas_handler =
  ServeCASLogin | ServeCASValidate | ServeCASServiceValidate | ServeCASProxyValidate | ServeCASProxy | ServeCASLogout

fun cas_serve :: "outbound \<Rightarrow> server \<Rightarrow> cas_handler \<times> request_context \<times> request \<Rightarrow> cas_reply \<times> server" where
  "cas_serve fetch s (ServeCASLogin, cx, rq) = casLogin cx rq s"
| "cas_serve fetch s (ServeCASValidate, cx, rq) = casValidate cx rq s"
| "cas_serve fetch s (ServeCASServiceValidate, cx, rq) = casServiceValidate cx fetch rq s"
| "cas_serve fetch s (ServeCASProxyValidate, cx, rq) = casProxyValidate cx fetch rq s"
| "cas_serve fetch s (ServeCASProxy, cx, rq) = casProxy cx rq s"
| "cas_serve fetch s (ServeCASLogout, cx, rq) = apfst fst (casLogout cx rq s)"

lemma cas_serve_acts: "cas_acts s (snd (cas_serve fetch s call))"
proof -
  obtain h cx rq where c: "call = (h, cx, rq)" by (cases call)
  show ?thesis unfolding c
    by (cases h) (simp_all add: casLogin_acts casValidate_acts casServiceValidate_acts casProxyValidate_acts casProxy_acts casLogout_acts)
qed

section \<open>What a successful validation means\<close>

text \<open>A ticket that a validation accepts: it was saved for this service, is not consumed and has not expired.\<close>

definition valid_ticket :: "request_context \<Rightarrow> request \<Rightarrow> server \<Rightarrow> memoryTicket \<Rightarrow> bool" where
  "valid_ticket cx rq s t =
     (ticket_at (HashToken (cx_sha256 cx) (Get ''ticket'' (rq_Query rq)), Get ''service'' (rq_Query rq)) (srv_cas s) = Some t \<and>
      st_consumedAt t = None \<and> cx_now cx < st_ExpiresAt t \<and>
      (Get ''renew'' (rq_Query rq) = ''true'' \<longrightarrow> st_PrimaryCredentials t))"

definition valid_proxy_ticket :: "request_context \<Rightarrow> request \<Rightarrow> server \<Rightarrow> memoryProxyTicket \<Rightarrow> bool" where
  "valid_proxy_ticket cx rq s t =
     (t \<in> set (proxyTickets (srv_cas s)) \<and> pt_Hash t = HashToken (cx_sha256 cx) (Get ''ticket'' (rq_Query rq)) \<and>
      pt_TargetService t = Get ''service'' (rq_Query rq) \<and> pt_consumedAt t = None \<and> cx_now cx < pt_ExpiresAt t \<and>
      (Get ''renew'' (rq_Query rq) = ''true'' \<longrightarrow> pt_PrimaryCredentials t))"

abbreviation ticket_key :: "request_context \<Rightarrow> request \<Rightarrow> bytes \<times> string" where
  "ticket_key cx rq \<equiv> (HashToken (cx_sha256 cx) (Get ''ticket'' (rq_Query rq)), Get ''service'' (rq_Query rq))"

lemma consume_service_facts:
  assumes "ConsumeServiceTicket (HashToken (cx_sha256 cx) (Get ''ticket'' (rq_Query rq))) (Get ''service'' (rq_Query rq))
      (Get ''renew'' (rq_Query rq) = ''true'') (cx_now cx) (srv_cas s) = (Inr ticket, r)"
  shows "\<exists>t. valid_ticket cx rq s t \<and> ticket = ServiceTicket.truncate t \<and> ticket_spent (ticket_key cx rq) r"
  using assms
  by (auto simp: ConsumeServiceTicket_def valid_ticket_def ticket_spent_def find_update_first_same split: option.splits if_splits)

lemma consume_proxy_facts:
  assumes "ConsumeProxyTicket (HashToken (cx_sha256 cx) (Get ''ticket'' (rq_Query rq))) (Get ''service'' (rq_Query rq))
      (Get ''renew'' (rq_Query rq) = ''true'') (cx_now cx) (srv_cas s) = (Inr ticket, r)"
  shows "\<exists>t. valid_proxy_ticket cx rq s t \<and> ticket = ProxyTicket.truncate t"
  using assms by (auto simp: ConsumeProxyTicket_def valid_proxy_ticket_def dest!: find_SomeD split: option.splits if_splits)

lemma ticket_truncate_fields [simp]:
  "st_UserID (ServiceTicket.truncate t) = st_UserID t" "st_SessionID (ServiceTicket.truncate t) = st_SessionID t"
  "st_ClientID (ServiceTicket.truncate t) = st_ClientID t"
  "pt_UserID (ProxyTicket.truncate p) = pt_UserID p" "pt_Proxies (ProxyTicket.truncate p) = pt_Proxies p"
  by (simp_all add: ServiceTicket.truncate_def ProxyTicket.truncate_def)

lemma validated_success:
  "validated cx fetch rq c a g px s = (CASAnswer (AuthenticationSuccess user a' iou px' ro pe), s') \<Longrightarrow>
   active_user (pg_UserID g) s = Some user \<and> px' = px"
  by (auto simp: validated_def Let_def split: option.splits prod.splits sum.splits)

lemma active_user_cas [simp]: "active_user u (s\<lparr>srv_cas := r\<rparr>) = active_user u s"
  by (simp add: active_user_def)

lemma ticket_spent_reach: "ticket_spent k r \<Longrightarrow> cas_reach r r' \<Longrightarrow> ticket_spent k r'"
  using reach_kept [of "\<lambda>_. True" cas_step r r' "ticket_spent k"] ticket_spent_step by blast

lemma ticket_spent_validated: "ticket_spent k (srv_cas s) \<Longrightarrow> ticket_spent k (srv_cas (snd (validated cx fetch rq c a g px s)))"
  using validated_acts [of s cx fetch rq c a g px] by (auto simp: cas_acts_def intro: ticket_spent_reach)

lemma casServiceValidate_facts:
  assumes "casServiceValidate cx fetch rq s = (CASAnswer (AuthenticationSuccess user a iou px ro pe), s')"
  shows "findCASClient (Get ''service'' (rq_Query rq)) s \<noteq> None \<and> px = [] \<and>
    (\<exists>t. valid_ticket cx rq s t \<and> active_user (st_UserID t) s = Some user \<and> ticket_spent (ticket_key cx rq) (srv_cas s'))"
proof -
  obtain registered where reg: "findCASClient (Get ''service'' (rq_Query rq)) s = Some registered"
    using assms by (auto simp: casServiceValidate_def Let_def invalid_service_def split: option.splits)
  obtain ticket r where c: "ConsumeServiceTicket (HashToken (cx_sha256 cx) (Get ''ticket'' (rq_Query rq))) (Get ''service'' (rq_Query rq))
      (Get ''renew'' (rq_Query rq) = ''true'') (cx_now cx) (srv_cas s) = (Inr ticket, r)"
    using assms reg by (auto simp: casServiceValidate_def Let_def invalid_ticket_def split: prod.splits sum.splits)
  let ?g = "granted_for (st_ClientID ticket) (st_UserID ticket) (st_SessionID ticket) [] (st_PrimaryCredentials ticket)"
  have v: "validated cx fetch rq registered (rq_Path rq = ''/cas/p3/serviceValidate'') ?g [] (s\<lparr>srv_cas := r\<rparr>) =
      (CASAnswer (AuthenticationSuccess user a iou px ro pe), s')"
    using assms reg c by (simp add: casServiceValidate_def Let_def)
  from consume_service_facts [OF c] obtain t where t: "valid_ticket cx rq s t" "ticket = ServiceTicket.truncate t"
    "ticket_spent (ticket_key cx rq) r" by blast
  have "ticket_spent (ticket_key cx rq) (srv_cas (s\<lparr>srv_cas := r\<rparr>))" using t(3) by simp
  from ticket_spent_validated [OF this] v have "ticket_spent (ticket_key cx rq) (srv_cas s')" by (metis snd_conv)
  then show ?thesis using validated_success [OF v] t reg by (auto simp: granted_for_def)
qed

lemma casProxyValidate_facts:
  assumes "casProxyValidate cx fetch rq s = (CASAnswer (AuthenticationSuccess user a iou px ro pe), s')"
  shows "findCASClient (Get ''service'' (rq_Query rq)) s \<noteq> None \<and>
    (if HasPrefix (Get ''ticket'' (rq_Query rq)) ''PT-''
     then \<exists>t. valid_proxy_ticket cx rq s t \<and> active_user (pt_UserID t) s = Some user \<and> px = pt_Proxies t
     else px = [] \<and> (\<exists>t. valid_ticket cx rq s t \<and> active_user (st_UserID t) s = Some user \<and> ticket_spent (ticket_key cx rq) (srv_cas s')))"
proof -
  let ?attributes = "rq_Path rq = ''/cas/p3/proxyValidate''"
  obtain registered where reg: "findCASClient (Get ''service'' (rq_Query rq)) s = Some registered"
    using assms by (auto simp: casProxyValidate_def Let_def invalid_service_def split: option.splits)
  show ?thesis
  proof (cases "HasPrefix (Get ''ticket'' (rq_Query rq)) ''PT-''")
    case True
    obtain ticket r where c: "ConsumeProxyTicket (HashToken (cx_sha256 cx) (Get ''ticket'' (rq_Query rq))) (Get ''service'' (rq_Query rq))
        (Get ''renew'' (rq_Query rq) = ''true'') (cx_now cx) (srv_cas s) = (Inr ticket, r)"
      using assms reg True by (auto simp: casProxyValidate_def Let_def invalid_ticket_def split: prod.splits sum.splits)
    have v: "validated cx fetch rq registered ?attributes (granted_for (cl_ID registered) (pt_UserID ticket) (pt_SessionID ticket)
        (pt_Proxies ticket) (pt_PrimaryCredentials ticket)) (pt_Proxies ticket) (s\<lparr>srv_cas := r\<rparr>) =
        (CASAnswer (AuthenticationSuccess user a iou px ro pe), s')"
      using assms reg c True by (simp add: casProxyValidate_def Let_def)
    from consume_proxy_facts [OF c] obtain t where "valid_proxy_ticket cx rq s t" "ticket = ProxyTicket.truncate t" by blast
    then show ?thesis using validated_success [OF v] reg True by (auto simp: granted_for_def)
  next
    case False
    obtain ticket r where c: "ConsumeServiceTicket (HashToken (cx_sha256 cx) (Get ''ticket'' (rq_Query rq))) (Get ''service'' (rq_Query rq))
        (Get ''renew'' (rq_Query rq) = ''true'') (cx_now cx) (srv_cas s) = (Inr ticket, r)"
      using assms reg False by (auto simp: casProxyValidate_def Let_def invalid_ticket_def split: prod.splits sum.splits)
    have v: "validated cx fetch rq registered ?attributes (granted_for (cl_ID registered) (st_UserID ticket) (st_SessionID ticket) []
        (st_PrimaryCredentials ticket)) [] (s\<lparr>srv_cas := r\<rparr>) = (CASAnswer (AuthenticationSuccess user a iou px ro pe), s')"
      using assms reg c False by (simp add: casProxyValidate_def Let_def)
    from consume_service_facts [OF c] obtain t where t: "valid_ticket cx rq s t" "ticket = ServiceTicket.truncate t"
      "ticket_spent (ticket_key cx rq) r" by blast
    have "ticket_spent (ticket_key cx rq) (srv_cas (s\<lparr>srv_cas := r\<rparr>))" using t(3) by simp
    from ticket_spent_validated [OF this] v have "ticket_spent (ticket_key cx rq) (srv_cas s')" by (metis snd_conv)
    then show ?thesis using validated_success [OF v] t reg False by (auto simp: granted_for_def)
  qed
qed

lemma casValidate_facts:
  assumes "casValidate cx rq s = (CASText (''yes'' @ rest), s')"
  shows "findCASClient (Get ''service'' (rq_Query rq)) s \<noteq> None \<and>
    (\<exists>t user. valid_ticket cx rq s t \<and> active_user (st_UserID t) s = Some user \<and>
      rest = [CHR 0x0A] @ us_Username user @ [CHR 0x0A] \<and> ticket_spent (ticket_key cx rq) (srv_cas s'))"
proof -
  have reg: "findCASClient (Get ''service'' (rq_Query rq)) s \<noteq> None"
    using assms by (auto simp: casValidate_def Let_def split: if_splits)
  obtain ticket r where c: "ConsumeServiceTicket (HashToken (cx_sha256 cx) (Get ''ticket'' (rq_Query rq))) (Get ''service'' (rq_Query rq))
      (Get ''renew'' (rq_Query rq) = ''true'') (cx_now cx) (srv_cas s) = (Inr ticket, r)"
    using assms reg by (auto simp: casValidate_def Let_def split: prod.splits sum.splits)
  from consume_service_facts [OF c] obtain t where "valid_ticket cx rq s t" "ticket = ServiceTicket.truncate t"
    "ticket_spent (ticket_key cx rq) r" by blast
  then show ?thesis using assms reg c by (auto simp: casValidate_def Let_def split: option.splits)
qed

section \<open>One validation per service ticket\<close>

text \<open>The requests that confirm a service ticket, over all three endpoints.\<close>

fun confirms :: "bytes \<times> string \<Rightarrow> cas_handler \<times> request_context \<times> request \<Rightarrow> cas_reply \<Rightarrow> bool" where
  "confirms k (h, cx, rq) (CASText t) = (h = ServeCASValidate \<and> take 3 t = ''yes'' \<and> k = ticket_key cx rq)"
| "confirms k (h, cx, rq) (CASAnswer (AuthenticationSuccess _ _ _ _ _ _)) =
     ((h = ServeCASServiceValidate \<or> h = ServeCASProxyValidate \<and> \<not> HasPrefix (Get ''ticket'' (rq_Query rq)) ''PT-'')
      \<and> k = ticket_key cx rq)"
| "confirms k call _ = False"

lemma confirms_facts:
  assumes "confirms k call (fst (cas_serve fetch s call))"
  shows "\<exists>cx rq t. k = ticket_key cx rq \<and> valid_ticket cx rq s t \<and> ticket_spent k (srv_cas (snd (cas_serve fetch s call)))"
proof -
  obtain h cx rq where call: "call = (h, cx, rq)" by (cases call)
  obtain rep s' where rep: "cas_serve fetch s call = (rep, s')" by fastforce
  have k: "confirms k (h, cx, rq) rep" using assms unfolding rep by (simp add: call)
  consider t where "rep = CASText t" "h = ServeCASValidate" "take 3 t = ''yes''" "k = ticket_key cx rq"
    | user a iou px ro pe where "rep = CASAnswer (AuthenticationSuccess user a iou px ro pe)" "k = ticket_key cx rq"
      "h = ServeCASServiceValidate"
    | user a iou px ro pe where "rep = CASAnswer (AuthenticationSuccess user a iou px ro pe)" "k = ticket_key cx rq"
      "h = ServeCASProxyValidate" "\<not> HasPrefix (Get ''ticket'' (rq_Query rq)) ''PT-''"
    using k by (cases "(k, (h, cx, rq), rep)" rule: confirms.cases) auto
  then show ?thesis
  proof cases
    case (1 t)
    then have "casValidate cx rq s = (CASText (''yes'' @ drop 3 t), s')"
      using rep call by (metis append_take_drop_id cas_serve.simps(2))
    from casValidate_facts [OF this] 1 rep show ?thesis by auto
  next
    case (2 user a iou px ro pe)
    then have "casServiceValidate cx fetch rq s = (CASAnswer (AuthenticationSuccess user a iou px ro pe), s')" using rep call by simp
    from casServiceValidate_facts [OF this] 2 rep show ?thesis by auto
  next
    case (3 user a iou px ro pe)
    then have "casProxyValidate cx fetch rq s = (CASAnswer (AuthenticationSuccess user a iou px ro pe), s')" using rep call by simp
    from casProxyValidate_facts [OF this] 3 rep show ?thesis by auto
  qed
qed

interpretation confirm_once:
  single_use "cas_serve fetch" "\<lambda>_ _. True" "\<lambda>_ _. True" "\<lambda>k s. ticket_spent k (srv_cas s)" confirms for fetch
proof
  fix k s call
  show "ticket_spent k (srv_cas s) \<Longrightarrow> ticket_spent k (srv_cas (snd (cas_serve fetch s call)))"
    using cas_serve_acts [of s fetch call] by (auto simp: cas_acts_def intro: ticket_spent_reach)
  show "ticket_spent k (srv_cas (snd (cas_serve fetch s call)))" if c: "confirms k call (fst (cas_serve fetch s call))"
    using confirms_facts [OF c] by blast
  show "\<not> confirms k call (fst (cas_serve fetch s call))" if sp: "ticket_spent k (srv_cas s)"
    using confirms_facts [of k call fetch s] sp by (auto simp: valid_ticket_def ticket_spent_def)
qed auto

section \<open>Reading an answer back\<close>

text \<open>What a client makes of the XML: the characters of the eight references, and the user of a success.\<close>

definition xml_references :: "(string \<times> char) list" where
  "xml_references = [(''#34;'', CHR 0x22), (''#39;'', CHR 0x27), (''amp;'', CHR ''&''), (''lt;'', CHR ''<''), (''gt;'', CHR ''>''),
     (''#x9;'', CHR 0x09), (''#xA;'', CHR 0x0A), (''#xD;'', CHR 0x0D)]"

function xml_unescape :: "string \<Rightarrow> string" where
  "xml_unescape [] = []"
| "xml_unescape (c # cs) =
     (if c \<noteq> CHR ''&'' then c # xml_unescape cs
      else case find (\<lambda>(e, _). HasPrefix cs e) xml_references of
          None \<Rightarrow> c # xml_unescape cs
        | Some (e, d) \<Rightarrow> d # xml_unescape (drop (length e) cs))"
  by pat_completeness auto
termination by (relation "measure length") auto

definition cas_user :: "string \<Rightarrow> string option" where
  "cas_user body =
     (let start = xml_head @ ''<cas:authenticationSuccess><cas:user>'' in
      if HasPrefix body start then Some (xml_unescape (takeWhile (\<lambda>c. c \<noteq> CHR ''<'') (drop (length start) body))) else None)"

definition xml_text :: "string \<Rightarrow> bool" where
  "xml_text s = list_all (\<lambda>c. char_code c \<ge> 32 \<or> c \<in> {CHR 0x09, CHR 0x0A, CHR 0x0D}) s"

lemma xml_unescape_escape_char:
  assumes "char_code c \<ge> 32 \<or> c \<in> {CHR 0x09, CHR 0x0A, CHR 0x0D}"
  shows "xml_unescape (xml_escape_char c @ rest) = c # xml_unescape rest"
  using assms by (auto simp: xml_escape_char_def xml_references_def HasPrefix_def)

lemma xml_unescape_escape: "xml_text s \<Longrightarrow> xml_unescape (xmlEscape s) = s"
  by (induction s) (simp_all add: xmlEscape_def xml_text_def xml_unescape_escape_char)

lemma xmlEscape_no_markup: "CHR ''<'' \<notin> set (xmlEscape s)"
  by (auto simp: xmlEscape_def xml_escape_char_def split: if_splits)

lemma takeWhile_escaped: "takeWhile (\<lambda>c. c \<noteq> CHR ''<'') (xmlEscape s @ CHR ''<'' # rest) = xmlEscape s"
  using xmlEscape_no_markup [of s] by (subst takeWhile_append2) auto

section \<open>Sign-out\<close>

text \<open>Signing out leaves users, clients, roles and service tickets as they are, which is all a service validation reads.\<close>

lemma cleanup_tickets [simp]:
  "tickets (srv_cas (snd (cleanupRevokedSessions cx [current] s))) = tickets (srv_cas s)"
  by (simp add: cleanupRevokedSessions_def notifyOIDCBackchannelLogout_def cleanup_session_def DeleteServiceSessions_def Let_def)

lemma casLogout_keeps:
  "srv_users (snd (casLogout cx rq s)) = srv_users s \<and> srv_clients (snd (casLogout cx rq s)) = srv_clients s \<and>
   srv_access (snd (casLogout cx rq s)) = srv_access s \<and> tickets (srv_cas (snd (casLogout cx rq s))) = tickets (srv_cas s)"
proof -
  have "tickets (srv_cas (snd (casLogout cx rq s))) = tickets (srv_cas s)"
    by (auto simp: casLogout_def currentSession_def revoke_session_def Let_def split: option.splits prod.splits sum.splits)
  then show ?thesis using casLogout_acts [of s cx rq] by (simp add: cas_acts_def acts_def)
qed

lemma ConsumeServiceTicket_tickets:
  assumes "tickets r' = tickets r"
  shows "fst (ConsumeServiceTicket h sv p now r') = fst (ConsumeServiceTicket h sv p now r)"
    and "tickets (snd (ConsumeServiceTicket h sv p now r')) = tickets (snd (ConsumeServiceTicket h sv p now r))"
  using assms by (auto simp: ConsumeServiceTicket_def split: option.split)

lemma issuePGT_reply:
  "fst (issueProxyGrantingTicket cx fetch rq c g u s') = fst (issueProxyGrantingTicket cx fetch rq c g u s)"
  by (auto simp: issueProxyGrantingTicket_def Let_def split: sum.split option.split)

text \<open>A validation that answers with an IOU has saved a proxy-granting ticket.\<close>

lemma issuePGT_saves:
  assumes "issueProxyGrantingTicket cx fetch rq c g u s = (Inr iou, s')" and "iou \<noteq> []"
  shows "\<exists>p \<in> set (proxyGrantingTickets (srv_cas s')). pg_SessionID p = pg_SessionID g \<and> pg_UserID p = pg_UserID g \<and>
    pg_ExpiresAt p = cx_now cx + 8 * hour"
  using assms
  by (auto simp: issueProxyGrantingTicket_def SaveProxyGrantingTicket_def Let_def split: if_splits sum.splits option.splits)

lemma validated_cong:
  assumes "srv_users s' = srv_users s" "srv_access s' = srv_access s"
  shows "fst (validated cx fetch rq c a g px s') = fst (validated cx fetch rq c a g px s)"
proof -
  have "active_user u s' = active_user u s" for u using assms by (simp add: active_user_def)
  moreover have "casEntitlements cx c u a s' = casEntitlements cx c u a s" for u using assms by (simp add: casEntitlements_def)
  ultimately show ?thesis
    using issuePGT_reply [of cx fetch rq c g "Get ''pgtUrl'' (rq_Query rq)" s' s]
    by (auto simp: validated_def Let_def split: option.split prod.split sum.split)
qed

lemma casServiceValidate_cong:
  assumes "srv_users s' = srv_users s" "srv_access s' = srv_access s" "srv_clients s' = srv_clients s"
    "tickets (srv_cas s') = tickets (srv_cas s)"
  shows "fst (casServiceValidate cx fetch rq s') = fst (casServiceValidate cx fetch rq s)"
proof -
  have f: "findCASClient u s' = findCASClient u s" for u using assms(3) by (simp add: findCASClient_def)
  show ?thesis
  proof (cases "findCASClient (Get ''service'' (rq_Query rq)) s")
    case (Some c)
    let ?c = "\<lambda>r. ConsumeServiceTicket (HashToken (cx_sha256 cx) (Get ''ticket'' (rq_Query rq))) (Get ''service'' (rq_Query rq))
      (Get ''renew'' (rq_Query rq) = ''true'') (cx_now cx) r"
    obtain x r r' where c: "?c (srv_cas s) = (x, r)" "?c (srv_cas s') = (x, r')"
      using ConsumeServiceTicket_tickets(1) [OF assms(4)] by (metis prod.collapse)
    show ?thesis
      using validated_cong [of "s'\<lparr>srv_cas := r'\<rparr>" "s\<lparr>srv_cas := r\<rparr>"] assms(1,2)
      by (cases x) (simp_all add: casServiceValidate_def Let_def f Some c)
  qed (simp add: casServiceValidate_def Let_def f)
qed

section \<open>A small server for the witnesses\<close>

definition demo_cas_client :: Client where
  "demo_cas_client = demo_client\<lparr>cl_ID := ''wiki'', cl_Protocols := [ProtocolCAS], cl_CASServiceURLs := [''https://w.io/in''],
     cl_CASProxy := True\<rparr>"

definition demo_cas_clients :: ClientRepository where
  "demo_cas_clients = Client_NewMemoryRepository [demo_cas_client]"

definition demo_cas_ticket :: ServiceTicket where
  "demo_cas_ticket = \<lparr>st_Hash = bytes_of ''ST-1'', st_Ticket = ''ST-1'', st_ClientID = ''wiki'', st_Service = ''https://w.io/in'',
     st_UserID = ''u1'', st_SessionID = ''s1'', st_PrimaryCredentials = False, st_IssuedAt = 10, st_ExpiresAt = 500\<rparr>"

definition demo_cas_server :: server where
  "demo_cas_server = demo_server\<lparr>srv_clients := demo_cas_clients,
     srv_cas := snd (SaveServiceTicket demo_cas_ticket CAS_NewMemoryRepository)\<rparr>"

definition demo_validation :: "string \<Rightarrow> request" where
  "demo_validation callback = (demo_request [])\<lparr>rq_Path := ''/cas/serviceValidate'', rq_PostForm := None,
     rq_Query := [(''service'', [''https://w.io/in'']), (''ticket'', [''ST-1'']), (''pgtUrl'', [callback])]\<rparr>"

definition demo_cas_found :: Client where
  "demo_cas_found = hd (Client_List demo_cas_clients)"

lemma demo_cas_find: "findCASClient ''https://w.io/in'' (demo_cas_server\<lparr>srv_cas := r\<rparr>) = Some demo_cas_found"
proof -
  have "Client_List demo_cas_clients = [demo_cas_found]" "cl_Enabled demo_cas_found" "SupportsProtocol demo_cas_found ProtocolCAS"
    "cl_CASServiceURLs demo_cas_found = [''https://w.io/in'']" by code_simp+
  then show ?thesis by (simp add: findCASClient_def demo_cas_server_def)
qed

lemma demo_cas_consume:
  "fst (ConsumeServiceTicket (bytes_of ''ST-1'') ''https://w.io/in'' False 100 (srv_cas demo_cas_server)) = Inr demo_cas_ticket"
  by (simp add: demo_cas_server_def ConsumeServiceTicket_def SaveServiceTicket_def CAS_NewMemoryRepository_def demo_cas_ticket_def
      ServiceTicket.extend_def ServiceTicket.truncate_def)

lemma demo_cas_user: "active_user ''u1'' (demo_cas_server\<lparr>srv_cas := r\<rparr>) = Some demo_person"
  by (simp add: active_user_def demo_cas_server_def) (simp add: demo_person_def)

lemma demo_validation_get [simp]:
  "Get ''service'' (rq_Query (demo_validation callback)) = ''https://w.io/in''"
  "Get ''ticket'' (rq_Query (demo_validation callback)) = ''ST-1''" "Get ''renew'' (rq_Query (demo_validation callback)) = []"
  "Get ''pgtUrl'' (rq_Query (demo_validation callback)) = callback" "rq_Path (demo_validation callback) = ''/cas/serviceValidate''"
  by (simp_all add: demo_validation_def Get_def values_at_def)

definition demo_callback :: outbound where
  "demo_callback u = Inr 200"

lemma demo_cas_pgt:
  "\<exists>s'. issueProxyGrantingTicket (demo_cx 100) demo_callback (demo_validation ''https://w.io/cb'') demo_cas_found g ''https://w.io/cb'' s =
     (Inr (''PGTIOU-'' @ RawURLEncoding_EncodeToString (replicate 16 7)), s')"
proof -
  have "cl_CASProxy demo_cas_found" by code_simp
  moreover have "validCASProxyCallback demo_cas_found ''https://w.io/in'' ''https://w.io/cb''" by code_simp
  moreover have "Parse ''https://w.io/cb'' \<noteq> None" by code_simp
  ultimately show ?thesis by (auto simp: issueProxyGrantingTicket_def RandomToken_def demo_callback_def)
qed

lemma demo_cas_success:
  "\<exists>s'. casServiceValidate (demo_cx 100) demo_callback (demo_validation ''https://w.io/cb'') demo_cas_server =
     (CASAnswer (AuthenticationSuccess demo_person False (''PGTIOU-'' @ RawURLEncoding_EncodeToString (replicate 16 7)) [] [] []), s')"
proof -
  have f: "findCASClient ''https://w.io/in'' demo_cas_server = Some demo_cas_found"
    using demo_cas_find [of "srv_cas demo_cas_server"] by simp
  have u: "st_UserID demo_cas_ticket = ''u1''" by (simp add: demo_cas_ticket_def)
  obtain r where c: "ConsumeServiceTicket (bytes_of ''ST-1'') ''https://w.io/in'' False 100 (srv_cas demo_cas_server) = (Inr demo_cas_ticket, r)"
    using demo_cas_consume by (metis prod.collapse)
  let ?g = "granted_for (st_ClientID demo_cas_ticket) ''u1'' (st_SessionID demo_cas_ticket) [] (st_PrimaryCredentials demo_cas_ticket)"
  obtain s' where "issueProxyGrantingTicket (demo_cx 100) demo_callback (demo_validation ''https://w.io/cb'') demo_cas_found ?g
      ''https://w.io/cb'' (demo_cas_server\<lparr>srv_cas := r\<rparr>) = (Inr (''PGTIOU-'' @ RawURLEncoding_EncodeToString (replicate 16 7)), s')"
    using demo_cas_pgt by blast
  moreover have "pg_UserID ?g = ''u1''" by (simp add: granted_for_def)
  ultimately have "validated (demo_cx 100) demo_callback (demo_validation ''https://w.io/cb'') demo_cas_found False ?g [] (demo_cas_server\<lparr>srv_cas := r\<rparr>) =
      (CASAnswer (AuthenticationSuccess demo_person False (''PGTIOU-'' @ RawURLEncoding_EncodeToString (replicate 16 7)) [] [] []), s')"
    unfolding validated_def by (simp only: demo_cas_user option.case casEntitlements_def demo_validation_get) simp
  then show ?thesis by (simp add: casServiceValidate_def Let_def f HashToken_def c u)
qed

section \<open>Properties\<close>

text \<open>C32: A CAS validation says success only for a ticket that deserves it. When one of the XML endpoints confirms a user, the
  service of the request is registered with an enabled CAS client; the ticket is a service ticket that was issued for exactly this
  service (or, for \<open>proxyValidate\<close> and a \<open>PT-\<close> ticket, a proxy ticket for it, whose chain of proxies the answer lists); it was
  not used before and has not expired; it stems from fresh credentials when the service asked for that; and the user it was issued
  to is active and is the one the answer names.\<close>
theorem cas_validation_sound:
  assumes "h \<in> {ServeCASServiceValidate, ServeCASProxyValidate}"
    and "cas_serve fetch s (h, cx, rq) = (CASAnswer (AuthenticationSuccess user a iou proxies ro pe), s')"
  shows "\<exists>c. findCASClient (Get ''service'' (rq_Query rq)) s = Some c \<and> cl_Enabled c \<and> SupportsProtocol c ProtocolCAS \<and>
    Get ''service'' (rq_Query rq) \<in> set (cl_CASServiceURLs c) \<and> us_Status user = UserActive \<and>
    (if h = ServeCASProxyValidate \<and> HasPrefix (Get ''ticket'' (rq_Query rq)) ''PT-''
     then \<exists>t. valid_proxy_ticket cx rq s t \<and> User_Find (pt_UserID t) (srv_users s) = Inr user \<and> proxies = pt_Proxies t
     else proxies = [] \<and> (\<exists>t. valid_ticket cx rq s t \<and> User_Find (st_UserID t) (srv_users s) = Inr user))"
proof -
  have active: "active_user u s = Some user \<longleftrightarrow> User_Find u (srv_users s) = Inr user \<and> us_Status user = UserActive" for u
    by (auto simp: active_user_def split: sum.splits)
  have found: "\<exists>c. findCASClient u s = Some c \<and> cl_Enabled c \<and> SupportsProtocol c ProtocolCAS \<and> u \<in> set (cl_CASServiceURLs c)"
    if f: "findCASClient u s \<noteq> None" for u
  proof -
    obtain c where c: "findCASClient u s = Some c" using f by blast
    then have "cl_Enabled c \<and> SupportsProtocol c ProtocolCAS \<and> u \<in> set (cl_CASServiceURLs c)"
      by (auto simp: findCASClient_def dest!: find_SomeD split: if_splits)
    with c show ?thesis by blast
  qed
  show ?thesis
  proof (cases "h = ServeCASServiceValidate")
    case True
    then have "casServiceValidate cx fetch rq s = (CASAnswer (AuthenticationSuccess user a iou proxies ro pe), s')" using assms(2) by simp
    from casServiceValidate_facts [OF this] found True show ?thesis by (auto simp: active)
  next
    case False
    then have "casProxyValidate cx fetch rq s = (CASAnswer (AuthenticationSuccess user a iou proxies ro pe), s')" using assms by simp
    from casProxyValidate_facts [OF this] found False assms(1) show ?thesis by (auto simp: active split: if_splits)
  qed
qed

theorem cas_validation_sound_witness:
  "\<exists>t. valid_ticket (demo_cx 100) (demo_validation ''https://w.io/cb'') demo_cas_server t \<and>
     User_Find (st_UserID t) (srv_users demo_cas_server) = Inr demo_person"
proof -
  obtain s' where "cas_serve demo_callback demo_cas_server (ServeCASServiceValidate, demo_cx 100, demo_validation ''https://w.io/cb'') =
     (CASAnswer (AuthenticationSuccess demo_person False (''PGTIOU-'' @ RawURLEncoding_EncodeToString (replicate 16 7)) [] [] []), s')"
    using demo_cas_success by auto
  from cas_validation_sound [OF _ this] show ?thesis by auto
qed

text \<open>C33: A service ticket is confirmed at most once over all CAS endpoints together: in every sequence of CAS requests, from every
  server, for every ticket and service, at most one request is answered with a confirmation.\<close>
theorem ticket_confirmed_at_most_once:
  "occurrences (confirms k) (cas_serve fetch) s calls \<le> 1"
  by (rule confirm_once.redeemed_at_most_once) (simp_all add: list_all_iff)

text \<open>The XML of an answer cannot be forged through the texts in it: whatever the names, roles, proxies and messages are, a client
  that reads the user of the XML gets the username of a success (of which only control characters would be lost), and
  no user from any other answer.\<close>
lemma cas_answer_reads_back:
  assumes "xml_text (us_Username user)"
  shows "cas_user (cas_body (AuthenticationSuccess user a iou px ro pe)) = Some (us_Username user) \<and>
    cas_user (cas_body (AuthenticationFailure code message)) = None \<and> cas_user (cas_body (ProxySuccess ticket)) = None \<and>
    cas_user (cas_body (ProxyFailure code message)) = None"
  using assms
  by (simp add: cas_user_def writeCASSuccess_def writeCASFailure_def writeCASProxyFailure_def xml_element_def HasPrefix_def xml_head_def
      takeWhile_escaped xml_unescape_escape)



end
