(* ===== verification/Return_Address.thy ===== *)
theory Return_Address
  imports Go_Form
begin

text \<open>
  The address a browser is sent to after signing in, \<open>validatedReturnTo\<close> of \<open>internal/platform/http/auth.go\<close>. An accepted
  address is returned as \<open>URL.String\<close> writes it; the facts show that what is written is again an address on this server with
  one of the listed paths, and is accepted unchanged when it comes back.
\<close>

section \<open>Return addresses\<close>

text \<open>\<open>URL.String\<close> for an address without scheme and host whose path is one of the paths below. \<open>RawPath\<close> and the flag
  for an empty query make it repeat the path and the query as they were given; user information is escaped again, and so is a
  fragment that is not validly escaped.\<close>

definition userinfo_escape :: "string \<Rightarrow> string" where
  "userinfo_escape s = concat (map (\<lambda>c. if url_unreserved c \<or> c \<in> set ''$&+,;='' then [c] else percent c) s)"

definition userinfo_string :: "string \<Rightarrow> string" where
  "userinfo_string raw =
     (let again = (\<lambda>s. case unescape EncUser s of None \<Rightarrow> [] | Some t \<Rightarrow> userinfo_escape t) in
      case Cut (CHR '':'') raw of
        None \<Rightarrow> again raw
      | Some (name, password) \<Rightarrow> again name @ '':'' @ again password)"

definition fragment_kept :: "char \<Rightarrow> bool" where
  "fragment_kept c = (url_unreserved c \<or> c \<in> set ''$&+,/:;=?@!()*'')"

definition fragment_valid :: "string \<Rightarrow> bool" where
  "fragment_valid s = list_all (\<lambda>c. fragment_kept c \<or> c \<in> set ''[]%'' \<or> char_code c = 39) s"

definition fragment_string :: "string \<Rightarrow> string \<Rightarrow> string" where
  "fragment_string raw f =
     (if f = [] then [] else ''#'' @ (if fragment_valid raw then raw
        else concat (map (\<lambda>c. if fragment_kept c then [c] else percent c) f)))"

definition URL_String_local :: "string \<Rightarrow> URL \<Rightarrow> string" where
  "URL_String_local raw url =
     (let base = before_char (CHR ''#'') raw;
          frag = (case Cut (CHR ''#'') raw of None \<Rightarrow> [] | Some (_, f) \<Rightarrow> f)
      in (case u_User url of
            None \<Rightarrow> base
          | Some user \<Rightarrow> ''//'' @ userinfo_string user @ ''@'' @ snd (split_path (drop 2 base)))
         @ fragment_string frag (u_Fragment url))"

definition return_paths :: "string list" where
  "return_paths = [''/portal'', ''/account'', ''/admin'', ''/admin/clients'', ''/oauth2/authorize'', ''/cas/login'', ''/device'']"

definition validatedReturnTo :: "string \<Rightarrow> string" where
  "validatedReturnTo v =
     (if v = [] then []
      else case Parse v of
          None \<Rightarrow> []
        | Some target \<Rightarrow>
            if IsAbs target \<or> u_Host target \<noteq> [] \<or> \<not> HasPrefix (u_Path target) ''/'' \<or> HasPrefix (u_Path target) ''//'' then []
            else if u_Path target \<in> set return_paths then URL_String_local v target else [])"

definition return_or_portal :: "string \<Rightarrow> string" where
  "return_or_portal v = (let returnTo = validatedReturnTo v in if returnTo = [] then ''/portal'' else returnTo)"

section \<open>Escaped texts are read back\<close>

lemma unescape_append:
  "unescape mode s = Some a \<Longrightarrow> unescape mode t = Some b \<Longrightarrow> unescape mode (s @ t) = Some (a @ b)"
  by (induction mode s arbitrary: a rule: unescape.induct)
    (auto split: if_splits list.splits option.splits)

lemma unescape_percent:
  assumes "mode \<notin> {EncHost, EncZone}"
  shows "unescape mode (percent c) = Some [c]"
  using assms hex_digit_upper [of "char_code c div 16"] hex_digit_upper [of "char_code c mod 16"] char_code_less [of c]
  by (cases mode) (auto simp: percent_def ToUpper_def escape_ok_def)

lemma unescape_escaped:
  assumes "mode \<notin> {EncHost, EncZone}" and "\<not> keep (CHR ''%'')"
  shows "unescape mode (concat (map (\<lambda>c. if keep c then [c] else percent c) s)) = Some s"
proof (induction s)
  case (Cons c s)
  have "unescape mode (if keep c then [c] else percent c) = Some [c]"
    using assms unescape_percent [OF assms(1)] by (auto simp: plain_ok_def)
  from unescape_append [OF this Cons.IH] show ?case by simp
qed simp


lemma escaped_chars:
  "d \<in> set (concat (map (\<lambda>c. if keep c then [c] else percent c) s)) \<Longrightarrow> keep d \<or> d = CHR ''%'' \<or> is_digit d \<or> is_upper d"
  by (auto split: if_splits dest: percent_chars)

section \<open>Addresses without user information\<close>

lemma before_char_none: "c \<notin> set (before_char c s)"
  by (auto simp: before_char_def dest: set_takeWhileD)

lemma Cut_before_char:
  "Cut c s = (if c \<in> set s then Some (before_char c s, tl (dropWhile (\<lambda>d. d \<noteq> c) s)) else None)"
  by (induction c s rule: Cut.induct) (auto simp: before_char_def)

lemma before_char_id: "c \<notin> set s \<Longrightarrow> before_char c s = s"
  by (auto simp: before_char_def takeWhile_eq_all_conv)

text \<open>The address is parsed from its part before the fragment.\<close>

lemma Parse_parts:
  assumes "Parse v = Some target"
  obtains url frag where "parse_base (before_char (CHR ''#'') v) = Some url" "u_Fragment url = []"
    "frag = (case Cut (CHR ''#'') v of None \<Rightarrow> [] | Some (_, f) \<Rightarrow> f)"
    "unescape EncFragment frag = Some (u_Fragment target)" "target = url\<lparr>u_Fragment := u_Fragment target\<rparr>"
  using assms
  by (cases "CHR ''#'' \<in> set v")
    (force simp: Parse_def Cut_before_char before_char_id parse_base_fragment split: option.splits)+

lemma fragment_again:
  assumes "unescape EncFragment frag = Some f" and "f \<noteq> []"
  obtains g where "fragment_string frag f = CHR ''#'' # g" "unescape EncFragment g = Some f" "fragment_valid g"
proof (cases "fragment_valid frag")
  case True
  with assms that [of frag] show ?thesis by (simp add: fragment_string_def)
next
  case False
  let ?g = "concat (map (\<lambda>c. if fragment_kept c then [c] else percent c) f)"
  have "unescape EncFragment ?g = Some f" by (rule unescape_escaped) (auto simp: fragment_kept_def url_unreserved_def is_lower_def is_upper_def is_digit_def char_code_def)
  moreover have "fragment_valid ?g"
    unfolding fragment_valid_def list_all_iff
  proof
    fix d assume "d \<in> set ?g"
    from escaped_chars [OF this] show "fragment_kept d \<or> d \<in> set ''[]%'' \<or> char_code d = 39"
      by (auto simp: fragment_kept_def url_unreserved_def)
  qed
  moreover have "fragment_string frag f = CHR ''#'' # ?g" using False assms by (simp add: fragment_string_def)
  ultimately show ?thesis using that by blast
qed

text \<open>A base that parses, followed by the fragment written out.\<close>

lemma Parse_with_fragment:
  assumes "parse_base base = Some url" "CHR ''#'' \<notin> set base" "unescape EncFragment frag = Some f"
  obtains g where "Parse (base @ fragment_string frag f) = Some (url\<lparr>u_Fragment := f\<rparr>)"
    "before_char (CHR ''#'') (base @ fragment_string frag f) = base"
    "(case Cut (CHR ''#'') (base @ fragment_string frag f) of None \<Rightarrow> [] | Some (_, h) \<Rightarrow> h) = g"
    "fragment_string g f = fragment_string frag f"
proof (cases "f = []")
  case True
  have "url\<lparr>u_Fragment := []\<rparr> = url" using parse_base_fragment [OF assms(1)] by simp
  with True assms that [of "[]"] show ?thesis
    by (simp add: fragment_string_def Parse_def Cut_no_sep before_char_id)
next
  case False
  obtain g where g: "fragment_string frag f = CHR ''#'' # g" "unescape EncFragment g = Some f" "fragment_valid g"
    by (rule fragment_again [OF assms(3) False])
  have "before_char (CHR ''#'') (base @ CHR ''#'' # g) = base"
    using assms(2) by (induction base) (auto simp: before_char_def)
  with False assms g that [of g] show ?thesis
    by (simp add: Parse_def Cut_append_sep fragment_string_def)
qed


section \<open>Addresses with user information\<close>

lemma userinfo_escape_chars:
  assumes "d \<in> set (userinfo_escape t)"
  shows "userinfo_char d \<and> \<not> is_ctl d \<and> d \<notin> set ''/?#@:''"
proof -
  have "(url_unreserved d \<or> d \<in> set ''$&+,;='') \<or> d = CHR ''%'' \<or> is_digit d \<or> is_upper d"
    using escaped_chars [of d "\<lambda>c. url_unreserved c \<or> c \<in> set ''$&+,;=''" t] assms by (simp add: userinfo_escape_def)
  then show ?thesis
    by (auto simp: userinfo_char_def is_alpha_def url_unreserved_def is_ctl_def is_lower_def is_upper_def is_digit_def char_code_def)
qed

lemma unescape_userinfo: "unescape EncUser (userinfo_escape t) = Some t"
  unfolding userinfo_escape_def
  by (rule unescape_escaped) (auto simp: url_unreserved_def is_lower_def is_upper_def is_digit_def char_code_def)

lemma userinfo_again:
  assumes "parse_userinfo raw = Some u"
  shows "parse_userinfo (userinfo_string raw) = Some (userinfo_string raw)"
    and "userinfo_string (userinfo_string raw) = userinfo_string raw"
    and "d \<in> set (userinfo_string raw) \<Longrightarrow> userinfo_char d \<and> \<not> is_ctl d \<and> d \<notin> set ''/?#@''"
proof -
  obtain n p where w: "userinfo_string raw = userinfo_escape n \<or> userinfo_string raw = userinfo_escape n @ '':'' @ userinfo_escape p"
    using assms by (fastforce simp: parse_userinfo_def userinfo_string_def Let_def split: option.splits if_splits)
  have colon: "CHR '':'' \<notin> set (userinfo_escape t)" for t using userinfo_escape_chars by auto
  have sep: "userinfo_char (CHR '':'')" "\<not> is_ctl (CHR '':'')" by (simp_all add: userinfo_char_def is_ctl_def char_code_def)
  have chars: "d \<in> set (userinfo_string raw) \<Longrightarrow> userinfo_char d \<and> \<not> is_ctl d \<and> d \<notin> set ''/?#@''" for d
    using w sep userinfo_escape_chars [of d n] userinfo_escape_chars [of d p] by auto
  then show "d \<in> set (userinfo_string raw) \<Longrightarrow> userinfo_char d \<and> \<not> is_ctl d \<and> d \<notin> set ''/?#@''" .
  have all: "list_all userinfo_char (userinfo_string raw)" using chars by (simp add: list_all_iff)
  have cut: "Cut (CHR '':'') (userinfo_escape n) = None" "Cut (CHR '':'') (userinfo_escape n @ '':'' @ userinfo_escape p) = Some (userinfo_escape n, userinfo_escape p)"
    using colon by (simp_all add: Cut_no_sep Cut_append_sep)
  show "parse_userinfo (userinfo_string raw) = Some (userinfo_string raw)"
    using w
  proof
    assume w: "userinfo_string raw = userinfo_escape n"
    show ?thesis using all unfolding w parse_userinfo_def by (simp add: cut unescape_userinfo)
  next
    assume w: "userinfo_string raw = userinfo_escape n @ '':'' @ userinfo_escape p"
    show ?thesis using all unfolding w parse_userinfo_def cut by (simp add: unescape_userinfo)
  qed
  have "userinfo_string (userinfo_escape n) = userinfo_escape n"
    "userinfo_string (userinfo_escape n @ '':'' @ userinfo_escape p) = userinfo_escape n @ '':'' @ userinfo_escape p"
    by (simp_all only: userinfo_string_def Let_def cut option.case prod.case unescape_userinfo)
  with w show "userinfo_string (userinfo_string raw) = userinfo_string raw" by metis
qed

lemma scheme_scan_Nil: "scheme_scan raw acc s = Some ([], r) \<Longrightarrow> r = raw"
  by (induction raw acc s rule: scheme_scan.induct) (auto split: if_splits)

definition query_part :: "string \<Rightarrow> string" where
  "query_part s = dropWhile (\<lambda>d. d \<noteq> CHR ''?'') s"

lemma split_query: "before_char (CHR ''?'') s @ query_part s = s"
  by (simp add: before_char_def query_part_def)

lemma Cut_query: "(case Cut (CHR ''?'') s of None \<Rightarrow> [] | Some (_, q) \<Rightarrow> q) = tl (query_part s)"
proof (cases "CHR ''?'' \<in> set s")
  case False
  then have "query_part s = []" by (auto simp: query_part_def)
  with False show ?thesis by (simp add: Cut_no_sep)
qed (simp add: query_part_def Cut_before_char)

text \<open>The parts of an address with user information.\<close>

lemma user_base_parts:
  assumes "parse_base base = Some url" "u_Scheme url = []" "u_Host url = []" "u_User url = Some user" "u_Path url \<noteq> []"
  obtains raw path where "base = ''//'' @ raw @ ''@'' @ path @ query_part base" "CHR ''/'' \<notin> set raw"
    "CHR ''?'' \<notin> set (raw @ path)" "path \<noteq> []" "hd path = CHR ''/''" "parse_userinfo raw = Some user" "user = raw"
    "unescape EncPath path = Some (u_Path url)"
    "url = empty_url\<lparr>u_User := Some user, u_Path := u_Path url, u_RawQuery := tl (query_part base)\<rparr>"
    "\<not> list_ex is_ctl base"
proof -
  let ?rest = "before_char (CHR ''?'') base"
  obtain scheme0 rest0 where g: "getScheme base = Some (scheme0, rest0)" and ctl: "\<not> list_ex is_ctl base"
    and h: "parse_hierarchy (ToLower scheme0) (case Cut (CHR ''?'') rest0 of None \<Rightarrow> [] | Some (_, q) \<Rightarrow> q)
      (before_char (CHR ''?'') rest0) = Some url"
    using assms by (auto simp: parse_base_def Let_def split: if_splits option.splits prod.splits)
  then have scheme: "scheme0 = []"
    using assms(2) by (auto simp: parse_hierarchy_def Let_def split: if_splits option.splits prod.splits)
  then have rest0: "rest0 = base" using g scheme_scan_Nil by (simp add: getScheme_def)
  define query where "query = (case Cut (CHR ''?'') base of None \<Rightarrow> [] | Some (_, q) \<Rightarrow> q)"
  have query: "query = tl (query_part base)" by (simp add: query_def Cut_query)
  have h': "parse_hierarchy [] query ?rest = Some url" using h scheme rest0 by (simp add: query_def ToLower_def)
  obtain authority path where sp: "split_path (drop 2 ?rest) = (authority, path)" by fastforce
  have pre: "HasPrefix ?rest ''//''" and auth: "parseAuthority [] authority = Some (Some user, [])"
    and path: "unescape EncPath path = Some (u_Path url)"
    and url: "url = empty_url\<lparr>u_User := Some user, u_Path := u_Path url, u_RawQuery := query\<rparr>"
    using h' sp assms(3,4) by (auto simp: parse_hierarchy_def split: if_splits option.splits)
  have ap: "authority @ path = drop 2 ?rest" "CHR ''/'' \<notin> set authority" using sp by (auto simp: split_path_def dest: set_takeWhileD)
  have hd: "path \<noteq> [] \<Longrightarrow> hd path = CHR ''/''"
    using sp hd_dropWhile [of "\<lambda>c. c \<noteq> CHR ''/''" "drop 2 ?rest"] by (auto simp: split_path_def)
  have "path \<noteq> []" using path assms(5) by auto
  from auth obtain raw tail where cut: "cut_last (CHR ''@'') authority = Some (raw, tail)"
    and host: "parseHost [] tail = Some []" and user: "parse_userinfo raw = Some user"
    by (auto simp: parseAuthority_def split: option.splits)
  have a: "authority = raw @ CHR ''@'' # tail"
    using cut by (auto simp: cut_last_def dest!: Cut_SomeD) (metis append.assoc append_Cons append_Nil rev.simps(2) rev_append rev_rev_ident)
  have "tail = []" using host
    by (auto simp: parseHost_def parse_literal_host_def unescape_Nil_iff split: if_splits option.splits prod.splits)
  have "user = raw" using user by (auto simp: parse_userinfo_def split: if_splits option.splits)
  have base: "base = ''//'' @ raw @ ''@'' @ path @ query_part base"
  proof -
    have "?rest = ''//'' @ raw @ ''@'' @ path" using HasPrefix_split [OF pre] ap(1) a \<open>tail = []\<close> by (simp add: numeral_2_eq_2)
    with split_query [of base] show ?thesis by simp
  qed
  moreover have "CHR ''?'' \<notin> set (raw @ path)"
  proof -
    have "set (raw @ path) \<subseteq> set ?rest" using set_drop_subset [of 2 ?rest] unfolding ap(1) [symmetric] a by auto
    with before_char_none show ?thesis by blast
  qed
  ultimately show thesis using that [of raw path] ap hd a \<open>path \<noteq> []\<close> user \<open>user = raw\<close> path url query ctl by simp
qed


lemma parse_user_base:
  assumes raw: "parse_userinfo raw = Some raw" "\<And>d. d \<in> set raw \<Longrightarrow> \<not> is_ctl d \<and> d \<notin> set ''/?#@''"
    and path: "path \<noteq> []" "hd path = CHR ''/''" "CHR ''?'' \<notin> set path" "unescape EncPath path = Some p"
    and q: "query_part q = q" and ctl: "\<not> list_ex is_ctl (path @ q)"
  shows "parse_base (''//'' @ raw @ ''@'' @ path @ q) =
    Some (empty_url\<lparr>u_User := Some raw, u_Path := p, u_RawQuery := tl q\<rparr>)"
proof -
  let ?w = "''//'' @ raw @ ''@'' @ path @ q"
  let ?r = "''//'' @ raw @ ''@'' @ path"
  obtain path' where path': "path = CHR ''/'' # path'" using path(1,2) by (cases path) auto
  have nq: "CHR ''?'' \<notin> set ?r" using raw(2) path(3) by auto
  have noctl: "\<not> list_ex is_ctl ?w" using raw(2) ctl by (auto simp: list_ex_iff is_ctl_def char_code_def)
  have scheme: "getScheme ?w = Some ([], ?w)" by (simp add: getScheme_def is_alpha_def is_lower_def is_upper_def is_digit_def char_code_def)
  have qw: "query_part ?w = q"
  proof -
    have "query_part (?r @ q) = query_part q" unfolding query_part_def by (rule dropWhile_append2) (use nq in auto)
    with q show ?thesis by simp
  qed
  have r: "before_char (CHR ''?'') ?w = ?r"
    using split_query [of ?w] unfolding qw by simp
  have sp: "split_path (drop 2 ?r) = (raw @ ''@'', path)"
  proof -
    have "takeWhile (\<lambda>c. c \<noteq> CHR ''/'') ((raw @ ''@'') @ CHR ''/'' # path') = raw @ ''@''"
      using raw(2) by (subst takeWhile_append2) auto
    moreover have "dropWhile (\<lambda>c. c \<noteq> CHR ''/'') ((raw @ ''@'') @ CHR ''/'' # path') = CHR ''/'' # path'"
      using raw(2) by (subst dropWhile_append2) auto
    ultimately show ?thesis by (simp add: split_path_def path')
  qed
  have "cut_last (CHR ''@'') (raw @ ''@'') = Some (raw, [])" by (simp add: cut_last_def)
  then have "parseAuthority [] (raw @ ''@'') = Some (Some raw, [])"
    using raw(1) by (simp add: parseAuthority_def parseHost_def HasPrefix_def)
  moreover have "\<not> HasPrefix ?r ''///''" using raw(2) by (cases raw) (auto simp: HasPrefix_def)
  moreover have "HasPrefix ?r ''//''" "HasPrefix ?r ''/''" by (simp_all add: HasPrefix_def)
  ultimately have "parse_hierarchy [] (tl q) ?r = Some (empty_url\<lparr>u_User := Some raw, u_Path := p, u_RawQuery := tl q\<rparr>)"
    unfolding parse_hierarchy_def Let_def sp prod.case using path(4) by simp
  then show ?thesis
    unfolding parse_base_def scheme Let_def option.case prod.case r Cut_query qw
    using noctl \<open>HasPrefix ?r ''/''\<close> by (simp add: ToLower_def)
qed


section \<open>A validated address\<close>

lemma local_base:
  assumes base: "parse_base base = Some url" "CHR ''#'' \<notin> set base"
    and local: "u_Scheme url = []" "u_Host url = []" "u_Path url \<noteq> []"
    and w: "w = (case u_User url of None \<Rightarrow> base | Some user \<Rightarrow> ''//'' @ userinfo_string user @ ''@'' @ snd (split_path (drop 2 base)))"
  shows "\<exists>url'. parse_base w = Some url' \<and> CHR ''#'' \<notin> set w \<and> u_Scheme url' = [] \<and> u_Host url' = [] \<and> u_Path url' = u_Path url
    \<and> w = (case u_User url' of None \<Rightarrow> w | Some user \<Rightarrow> ''//'' @ userinfo_string user @ ''@'' @ snd (split_path (drop 2 w)))"
proof (cases "u_User url")
  case None
  with base local w show ?thesis by auto
next
  case (Some user)
  obtain raw path where p: "base = ''//'' @ raw @ ''@'' @ path @ query_part base" "CHR ''/'' \<notin> set raw"
    "CHR ''?'' \<notin> set (raw @ path)" "path \<noteq> []" "hd path = CHR ''/''" "parse_userinfo raw = Some user" "user = raw"
    "unescape EncPath path = Some (u_Path url)" "\<not> list_ex is_ctl base"
    using user_base_parts [OF base(1) local(1,2) Some local(3)] by blast
  let ?u = "userinfo_string raw" and ?q = "query_part base"
  have split: "snd (split_path (drop 2 (''//'' @ r @ ''@'' @ path @ ?q))) = path @ ?q" if "CHR ''/'' \<notin> set r" for r
  proof -
    have "dropWhile (\<lambda>c. c \<noteq> CHR ''/'') ((r @ ''@'') @ path @ ?q) = dropWhile (\<lambda>c. c \<noteq> CHR ''/'') (path @ ?q)"
      using that by (subst dropWhile_append2) auto
    moreover have "dropWhile (\<lambda>c. c \<noteq> CHR ''/'') (path @ ?q) = path @ ?q" using p(4,5) by (cases path) auto
    ultimately show ?thesis by (simp add: split_path_def)
  qed
  have again: "parse_userinfo ?u = Some ?u" "userinfo_string ?u = ?u" "\<And>d. d \<in> set ?u \<Longrightarrow> \<not> is_ctl d \<and> d \<notin> set ''/?#@''"
    using userinfo_again [OF p(6)] by blast+
  have w': "w = ''//'' @ ?u @ ''@'' @ path @ ?q"
    using w Some p(7) split [OF p(2)] p(1) by (metis option.case(2))
  have sub: "set (path @ ?q) \<subseteq> set base" using p(1) by (metis set_append sup_ge2 le_supI2)
  have "parse_base w = Some (empty_url\<lparr>u_User := Some ?u, u_Path := u_Path url, u_RawQuery := tl ?q\<rparr>)"
    unfolding w'
  proof (rule parse_user_base [OF again(1,3) p(4,5) _ p(8)])
    show "CHR ''?'' \<notin> set path" using p(3) by simp
    show "query_part ?q = ?q" by (simp add: query_part_def dropWhile_idem)
    show "\<not> list_ex is_ctl (path @ ?q)" using p(9) sub by (auto simp: list_ex_iff)
  qed
  moreover have "CHR ''#'' \<notin> set w" using again(3) [of "CHR ''#''"] sub base(2) unfolding w' by auto
  moreover have "snd (split_path (drop 2 w)) = path @ ?q" unfolding w' using again(3) by (intro split) auto
  ultimately show ?thesis using w' again(2) by simp
qed

definition local_address :: "URL \<Rightarrow> bool" where
  "local_address url = (u_Scheme url = [] \<and> u_Host url = [] \<and> u_Path url \<in> set return_paths)"

lemma return_paths_ok: "p \<in> set return_paths \<Longrightarrow> p \<noteq> [] \<and> HasPrefix p ''/'' \<and> \<not> HasPrefix p ''//''"
  by (auto simp: return_paths_def HasPrefix_def)

lemma validatedReturnTo_cases:
  assumes "validatedReturnTo v \<noteq> []"
  obtains target where "Parse v = Some target" "local_address target" "validatedReturnTo v = URL_String_local v target"
  using assms by (auto simp: validatedReturnTo_def local_address_def IsAbs_def split: if_splits option.splits)

lemma validatedReturnTo_local:
  "Parse v = Some target \<Longrightarrow> local_address target \<Longrightarrow> v \<noteq> [] \<Longrightarrow> validatedReturnTo v = URL_String_local v target"
  using return_paths_ok by (auto simp: validatedReturnTo_def local_address_def IsAbs_def)

lemma validated_again:
  assumes "validatedReturnTo v \<noteq> []"
  shows "validatedReturnTo (validatedReturnTo v) = validatedReturnTo v"
proof -
  obtain target where t: "Parse v = Some target" "local_address target" and w: "validatedReturnTo v = URL_String_local v target"
    using assms by (rule validatedReturnTo_cases)
  obtain url frag where u: "parse_base (before_char (CHR ''#'') v) = Some url"
    "frag = (case Cut (CHR ''#'') v of None \<Rightarrow> [] | Some (_, f) \<Rightarrow> f)"
    "unescape EncFragment frag = Some (u_Fragment target)" "target = url\<lparr>u_Fragment := u_Fragment target\<rparr>"
    using Parse_parts [OF t(1)] by metis
  let ?f = "u_Fragment target"
  define base where "base = before_char (CHR ''#'') v"
  define b where "b = (case u_User url of None \<Rightarrow> base | Some user \<Rightarrow> ''//'' @ userinfo_string user @ ''@'' @ snd (split_path (drop 2 base)))"
  have fields: "u_User target = u_User url" "u_Scheme target = u_Scheme url" "u_Host target = u_Host url" "u_Path target = u_Path url"
    by (subst u(4); simp)+
  have wb: "validatedReturnTo v = b @ fragment_string frag ?f"
    unfolding w URL_String_local_def Let_def fields b_def base_def u(2) ..
  have loc: "u_Scheme url = []" "u_Host url = []" "u_Path url \<in> set return_paths" using t(2) fields by (auto simp: local_address_def)
  obtain url' where b': "parse_base b = Some url'" "CHR ''#'' \<notin> set b" "u_Scheme url' = []" "u_Host url' = []" "u_Path url' = u_Path url"
    "b = (case u_User url' of None \<Rightarrow> b | Some user \<Rightarrow> ''//'' @ userinfo_string user @ ''@'' @ snd (split_path (drop 2 b)))"
    using local_base [OF u(1) [folded base_def] _ loc(1,2) _ b_def] loc(3) return_paths_ok before_char_none unfolding base_def by metis
  obtain g where g: "Parse (b @ fragment_string frag ?f) = Some (url'\<lparr>u_Fragment := ?f\<rparr>)"
    "before_char (CHR ''#'') (b @ fragment_string frag ?f) = b"
    "(case Cut (CHR ''#'') (b @ fragment_string frag ?f) of None \<Rightarrow> [] | Some (_, h) \<Rightarrow> h) = g"
    "fragment_string g ?f = fragment_string frag ?f"
    by (rule Parse_with_fragment [OF b'(1,2) u(3)])
  have "validatedReturnTo (b @ fragment_string frag ?f) = URL_String_local (b @ fragment_string frag ?f) (url'\<lparr>u_Fragment := ?f\<rparr>)"
    using g(1) b' loc assms wb by (intro validatedReturnTo_local) (auto simp: local_address_def)
  also have "\<dots> = b @ fragment_string frag ?f"
    unfolding URL_String_local_def Let_def g(2,3) using b'(6) g(4) by simp
  finally show ?thesis unfolding wb .
qed


text \<open>The page of the verification link (\<open>email_verification.go\<close>) sends a browser without session to the login page with its own
  address as the one to continue at. That address is not on the list, so the link is lost.\<close>

lemma verification_link_dropped: "return_or_portal ''/account/verify-email?token=abc'' = ''/portal''"
  by code_simp

section \<open>Properties\<close>

text \<open>C14: An address to continue at after signing in never leaves the server: what \<open>validatedReturnTo\<close> accepts is written as
  an address without scheme and host whose path is one of the pages of the list, whatever escapes, user information or fragment
  the given text has; and the written address is accepted again without a change, as it has to be when it returns in a form or
  in a signed transaction.\<close>
theorem return_address_stays_local:
  assumes "validatedReturnTo v = w" and "w \<noteq> []"
  shows "(\<exists>url. Parse w = Some url \<and> u_Scheme url = [] \<and> u_Host url = [] \<and> u_Path url \<in> set return_paths)
    \<and> validatedReturnTo w = w"
proof -
  have w: "validatedReturnTo w = w" using validated_again [of v] assms by simp
  then obtain url where "Parse w = Some url" "local_address url" using assms(2) validatedReturnTo_cases [of w] by metis
  with w show ?thesis by (auto simp: local_address_def)
qed

theorem return_address_stays_local_witness:
  "validatedReturnTo ''//me@/cas/login?service=a#x y'' = ''//me@/cas/login?service=a#x%20y''
   \<and> validatedReturnTo ''//me@/cas/login?service=a#x%20y'' = ''//me@/cas/login?service=a#x%20y''
   \<and> validatedReturnTo ''//evil.example/portal'' = [] \<and> validatedReturnTo ''https://evil.example/portal'' = []"
proof -
  have a: "validatedReturnTo ''//me@/cas/login?service=a#x y'' = ''//me@/cas/login?service=a#x%20y''" by code_simp
  moreover have "validatedReturnTo ''//evil.example/portal'' = []" "validatedReturnTo ''https://evil.example/portal'' = []"
    by code_simp+
  ultimately show ?thesis using return_address_stays_local [OF a] by simp
qed

end
