(* ===== verification/Federation_Sources.thy ===== *)
theory Federation_Sources
  imports Key_Ring Client_Registry Identity_Users
begin

text \<open>
  Identity sources: \<open>internal/federation/source.go\<close> (validated LDAP and OIDC sources, the in-memory repository,
  the service that encrypts their credentials), \<open>ldap.go\<close>, \<open>oidc.go\<close> and \<open>config.go\<close> (the authenticators).

  \<^item> AES-GCM is the pair \<open>seal\<close>, \<open>open'\<close> of \<^theory_text>\<open>Key_Ring\<close>; the nonce of an encryption is an argument.
  \<^item> The LDAP client and the OpenID Connect client are libraries: the records \<open>ldap_library\<close> and \<open>oidc_library\<close> hold
    what the code calls of them. Contexts, timeouts and the TLS configuration are left out, and so is the
    \<open>Claims\<close> map of a profile.
  \<^item> The text that wraps \<open>ErrInvalidSource\<close> is left out.
\<close>

section \<open>Data\<close>

datatype source_error =
    ErrSourceNotFound | ErrSourceConflict | ErrSourceArchived | ErrSourceDisabled | ErrInvalidSource
  | ErrSourceEncryptionUnavailable | ErrSourceSecret secrets_error

abbreviation SourceLDAP :: string where "SourceLDAP \<equiv> ''ldap''"
abbreviation SourceOIDC :: string where "SourceOIDC \<equiv> ''oidc''"
abbreviation sourceSecretPurpose :: string where "sourceSecretPurpose \<equiv> ''identity-source-credential''"

record LDAPSource =
  ls_URL :: string
  ls_StartTLS :: bool
  ls_BaseDN :: string
  ls_BindDN :: string
  ls_UserFilter :: string
  ls_UsernameAttribute :: string
  ls_DisplayNameAttribute :: string
  ls_EmailAttribute :: string

record OIDCSource =
  oi_Issuer :: string
  oi_ClientID :: string
  oi_Scopes :: "string list"

record Source =
  so_ID :: string
  so_Name :: string
  so_Type :: string
  so_Enabled :: bool
  so_LDAP :: "LDAPSource option"
  so_OIDC :: "OIDCSource option"
  so_SecretConfigured :: bool
  so_CreatedAt :: time
  so_UpdatedAt :: time
  so_ArchivedAt :: "time option"
  so_SecretCiphertext :: bytes
  so_SecretKeyID :: string

record LDAPSourceInput =
  li_URL :: string
  li_StartTLS :: bool
  li_BaseDN :: string
  li_BindDN :: string
  li_BindPassword :: string
  li_UserFilter :: string
  li_UsernameAttribute :: string
  li_DisplayNameAttribute :: string
  li_EmailAttribute :: string

record OIDCSourceInput =
  on_Issuer :: string
  on_ClientID :: string
  on_ClientSecret :: string
  on_Scopes :: "string list"

record CreateSource =
  cs_ID :: string
  cs_Name :: string
  cs_Type :: string
  cs_Enabled :: "bool option"
  cs_LDAP :: "LDAPSourceInput option"
  cs_OIDC :: "OIDCSourceInput option"

record ReplaceSource =
  rs_Name :: string
  rs_Enabled :: "bool option"
  rs_ClearSecret :: bool
  rs_LDAP :: "LDAPSourceInput option"
  rs_OIDC :: "OIDCSourceInput option"

record SourceSecretRecord =
  sx_ID :: string
  sx_Ciphertext :: bytes
  sx_KeyID :: string

section \<open>Validation\<close>

definition cloneSource :: "Source \<Rightarrow> Source" where
  "cloneSource source = source\<lparr>so_SecretConfigured := so_SecretCiphertext source \<noteq> [] \<or> so_SecretConfigured source\<rparr>"

text \<open>\<open>strings.TrimRight(s, "/")\<close>\<close>

definition trim_slashes :: "string \<Rightarrow> string" where
  "trim_slashes s = rev (dropWhile (\<lambda>c. c = CHR ''/'') (rev s))"

definition or_default :: "string \<Rightarrow> string \<Rightarrow> string" where
  "or_default v fallback = (let v' = TrimSpace v in if v' = [] then fallback else v')"

definition normalizeLDAPSource :: "LDAPSourceInput \<Rightarrow> LDAPSource" where
  "normalizeLDAPSource input =
     \<lparr>ls_URL = trim_slashes (TrimSpace (li_URL input)), ls_StartTLS = li_StartTLS input,
      ls_BaseDN = TrimSpace (li_BaseDN input), ls_BindDN = TrimSpace (li_BindDN input),
      ls_UserFilter = or_default (li_UserFilter input) ''(uid={username})'',
      ls_UsernameAttribute = or_default (li_UsernameAttribute input) ''uid'',
      ls_DisplayNameAttribute = or_default (li_DisplayNameAttribute input) ''displayName'',
      ls_EmailAttribute = or_default (li_EmailAttribute input) ''mail''\<rparr>"

text \<open>The loop is the one of \<open>uniqueStrings\<close> in \<open>internal/client\<close>.\<close>

definition uniqueSourceStrings :: "string list \<Rightarrow> string list" where
  "uniqueSourceStrings vs = unique_loop TrimSpace False [] vs"

definition normalizeOIDCSource :: "OIDCSourceInput \<Rightarrow> OIDCSource" where
  "normalizeOIDCSource input =
     (let scopes = uniqueSourceStrings (on_Scopes input) in
      \<lparr>oi_Issuer = trim_slashes (TrimSpace (on_Issuer input)), oi_ClientID = TrimSpace (on_ClientID input),
       oi_Scopes = (if scopes = [] then [''openid'', ''profile'', ''email''] else scopes)\<rparr>)"

definition isLoopbackHost :: "string \<Rightarrow> bool" where
  "isLoopbackHost host =
     (if EqualFold host ''localhost'' then True
      else case ParseIP host of None \<Rightarrow> False | Some ip \<Rightarrow> IsLoopback ip)"

text \<open>\<open>^[\x21-\x7E]{1,128}$\<close>\<close>

definition oidcScopePattern :: "string \<Rightarrow> bool" where
  "oidcScopePattern s = (1 \<le> length s \<and> length s \<le> 128 \<and> list_all (\<lambda>c. 33 \<le> char_code c \<and> char_code c \<le> 126) s)"

definition attribute_ok :: "string \<Rightarrow> bool" where
  "attribute_ok v = (v \<noteq> [] \<and> length v \<le> 128)"

definition ldap_source_ok :: "LDAPSource \<Rightarrow> bool \<Rightarrow> bool" where
  "ldap_source_ok l secretConfigured =
     (case Parse (ls_URL l) of
        None \<Rightarrow> False
      | Some endpoint \<Rightarrow>
          if u_Host endpoint = [] \<or> (u_Scheme endpoint \<noteq> ''ldap'' \<and> u_Scheme endpoint \<noteq> ''ldaps'') then False
          else if u_User endpoint \<noteq> None \<or> u_RawQuery endpoint \<noteq> [] \<or> u_Fragment endpoint \<noteq> [] then False
          else if ls_StartTLS l \<and> u_Scheme endpoint \<noteq> ''ldap'' then False
          else if ls_BaseDN l = [] then False
          else if \<not> Contains_str (ls_UserFilter l) ''{username}'' then False
          else if \<not> attribute_ok (ls_UsernameAttribute l) \<or> \<not> attribute_ok (ls_DisplayNameAttribute l)
             \<or> \<not> attribute_ok (ls_EmailAttribute l) then False
          else if ls_BindDN l \<noteq> [] \<and> \<not> secretConfigured then False
          else \<not> (ls_BindDN l = [] \<and> secretConfigured))"

definition oidc_source_ok :: "OIDCSource \<Rightarrow> bool \<Rightarrow> bool" where
  "oidc_source_ok o' secretConfigured =
     (case Parse (oi_Issuer o') of
        None \<Rightarrow> False
      | Some issuer \<Rightarrow>
          if u_Scheme issuer = [] \<or> u_Host issuer = [] \<or> u_User issuer \<noteq> None \<or> u_RawQuery issuer \<noteq> [] \<or> u_Fragment issuer \<noteq> []
          then False
          else if u_Scheme issuer \<noteq> ''https'' \<and> \<not> (u_Scheme issuer = ''http'' \<and> isLoopbackHost (Hostname issuer)) then False
          else if oi_ClientID o' = [] \<or> length (oi_ClientID o') > 256 then False
          else if \<not> secretConfigured then False
          else if oi_Scopes o' = [] \<or> length (oi_Scopes o') > 20 \<or> ''openid'' \<notin> set (oi_Scopes o') then False
          else list_all oidcScopePattern (oi_Scopes o'))"

definition Source_Validate :: "Source \<Rightarrow> bool" where
  "Source_Validate s =
     (if \<not> clientIDPattern (so_ID s) then False
      else if so_Name s = [] \<or> rune_count (so_Name s) > 128 then False
      else if so_Type s = SourceLDAP then
        (case (so_LDAP s, so_OIDC s) of (Some l, None) \<Rightarrow> ldap_source_ok l (so_SecretConfigured s) | _ \<Rightarrow> False)
      else if so_Type s = SourceOIDC then
        (case (so_OIDC s, so_LDAP s) of (Some o', None) \<Rightarrow> oidc_source_ok o' (so_SecretConfigured s) | _ \<Rightarrow> False)
      else False)"

definition validateSecret :: "string \<Rightarrow> source_error + string" where
  "validateSecret secret = (if length secret > 16 * 1024 then Inl ErrInvalidSource else Inr secret)"

text \<open>The source with its new configuration, and the secret that came with it.\<close>

definition applySourceInput ::
  "Source \<Rightarrow> LDAPSourceInput option \<Rightarrow> OIDCSourceInput option \<Rightarrow> bool \<Rightarrow> source_error + Source \<times> string" where
  "applySourceInput source ldapInput oidcInput secretConfigured =
     (if so_Type source = SourceLDAP then
        (case (ldapInput, oidcInput) of
           (Some l, None) \<Rightarrow>
             let source1 = source\<lparr>so_LDAP := Some (normalizeLDAPSource l), so_OIDC := None\<rparr>;
                 bindDN = TrimSpace (ls_BindDN (normalizeLDAPSource l));
                 secret = li_BindPassword l
             in if bindDN \<noteq> [] \<and> secret = [] \<and> \<not> secretConfigured then Inl ErrInvalidSource
                else if bindDN = [] \<and> secret \<noteq> [] then Inl ErrInvalidSource
                else map_sum id (\<lambda>v. (source1, v)) (validateSecret secret)
         | _ \<Rightarrow> Inl ErrInvalidSource)
      else if so_Type source = SourceOIDC then
        (case (oidcInput, ldapInput) of
           (Some o', None) \<Rightarrow>
             let source1 = source\<lparr>so_OIDC := Some (normalizeOIDCSource o'), so_LDAP := None\<rparr>
             in if on_ClientSecret o' = [] \<and> \<not> secretConfigured then Inl ErrInvalidSource
                else map_sum id (\<lambda>v. (source1, v)) (validateSecret (on_ClientSecret o'))
         | _ \<Rightarrow> Inl ErrInvalidSource)
      else Inl ErrInvalidSource)"

definition newSource :: "CreateSource \<Rightarrow> time \<Rightarrow> source_error + Source \<times> string" where
  "newSource input now =
     (let source = \<lparr>so_ID = ToLower (TrimSpace (cs_ID input)), so_Name = TrimSpace (cs_Name input), so_Type = cs_Type input,
            so_Enabled = (case cs_Enabled input of None \<Rightarrow> True | Some b \<Rightarrow> b), so_LDAP = None, so_OIDC = None,
            so_SecretConfigured = False, so_CreatedAt = now, so_UpdatedAt = now, so_ArchivedAt = None,
            so_SecretCiphertext = [], so_SecretKeyID = []\<rparr>
      in case applySourceInput source (cs_LDAP input) (cs_OIDC input) False of
           Inl err \<Rightarrow> Inl err
         | Inr (source1, secret) \<Rightarrow>
             let source2 = source1\<lparr>so_SecretConfigured := secret \<noteq> []\<rparr>
             in if \<not> Source_Validate source2 then Inl ErrInvalidSource else Inr (source2, secret))"

definition replaceSource :: "Source \<Rightarrow> ReplaceSource \<Rightarrow> time \<Rightarrow> source_error + Source \<times> string" where
  "replaceSource current input now =
     (if so_ArchivedAt current \<noteq> None then Inl ErrSourceArchived
      else
        let source = (cloneSource current)\<lparr>so_Name := TrimSpace (rs_Name input), so_UpdatedAt := now\<rparr>;
            source1 = (case rs_Enabled input of None \<Rightarrow> source | Some b \<Rightarrow> source\<lparr>so_Enabled := b\<rparr>);
            source2 = (if rs_ClearSecret input
              then source1\<lparr>so_SecretCiphertext := [], so_SecretKeyID := [], so_SecretConfigured := False\<rparr> else source1)
        in case applySourceInput source2 (rs_LDAP input) (rs_OIDC input) (so_SecretConfigured source2) of
             Inl err \<Rightarrow> Inl err
           | Inr (source3, secret) \<Rightarrow>
               let source4 = (if secret \<noteq> [] then source3\<lparr>so_SecretConfigured := True\<rparr> else source3)
               in if \<not> Source_Validate source4 then Inl ErrInvalidSource else Inr (source4, secret))"

section \<open>Repository\<close>

record SourceRepository =
  sources :: "(string, Source) gomap"
  source_order :: "string list"

definition NewMemorySourceRepository :: "Source list \<Rightarrow> SourceRepository" where
  "NewMemorySourceRepository ss =
     fold (\<lambda>source r. r\<lparr>sources := map_put (so_ID source) (cloneSource source) (sources r),
                        source_order := source_order r @ [so_ID source]\<rparr>)
       ss \<lparr>sources = [], source_order = []\<rparr>"

definition source_at :: "string \<Rightarrow> SourceRepository \<Rightarrow> Source option" where
  "source_at i r = map_of (sources r) i"

text \<open>The zero value of the struct, which Go returns for a missing key.\<close>

definition zero_Source :: Source where
  "zero_Source = \<lparr>so_ID = [], so_Name = [], so_Type = [], so_Enabled = False, so_LDAP = None, so_OIDC = None,
     so_SecretConfigured = False, so_CreatedAt = 0, so_UpdatedAt = 0, so_ArchivedAt = None,
     so_SecretCiphertext = [], so_SecretKeyID = []\<rparr>"

definition Source_List :: "SourceRepository \<Rightarrow> Source list" where
  "Source_List r =
     map (\<lambda>i. cloneSource (case source_at i r of None \<Rightarrow> zero_Source | Some source \<Rightarrow> source)) (source_order r)"

definition Source_Find :: "string \<Rightarrow> SourceRepository \<Rightarrow> source_error + Source" where
  "Source_Find i r = (case source_at i r of None \<Rightarrow> Inl ErrSourceNotFound | Some source \<Rightarrow> Inr (cloneSource source))"

definition Source_Create :: "Source \<Rightarrow> SourceRepository \<Rightarrow> (source_error + Source) \<times> SourceRepository" where
  "Source_Create source r =
     (if source_at (so_ID source) r \<noteq> None then (Inl ErrSourceConflict, r)
      else (Inr (cloneSource source),
            r\<lparr>sources := map_put (so_ID source) (cloneSource source) (sources r), source_order := source_order r @ [so_ID source]\<rparr>))"

definition Source_Replace :: "Source \<Rightarrow> SourceRepository \<Rightarrow> (source_error + Source) \<times> SourceRepository" where
  "Source_Replace source r =
     (case source_at (so_ID source) r of
        None \<Rightarrow> (Inl ErrSourceNotFound, r)
      | Some current \<Rightarrow>
          if so_ArchivedAt current \<noteq> None then (Inl ErrSourceArchived, r)
          else (Inr (cloneSource source), r\<lparr>sources := map_put (so_ID source) (cloneSource source) (sources r)\<rparr>))"

definition Source_Archive :: "string \<Rightarrow> time \<Rightarrow> SourceRepository \<Rightarrow> (source_error + unit) \<times> SourceRepository" where
  "Source_Archive i now r =
     (case source_at i r of
        None \<Rightarrow> (Inl ErrSourceNotFound, r)
      | Some source \<Rightarrow>
          (Inr (),
           if so_ArchivedAt source = None
           then r\<lparr>sources := map_put i (source\<lparr>so_ArchivedAt := Some now, so_Enabled := False, so_UpdatedAt := now\<rparr>) (sources r)\<rparr>
           else r))"

definition ListSourceSecretCiphertexts :: "SourceRepository \<Rightarrow> SourceSecretRecord list" where
  "ListSourceSecretCiphertexts r =
     List.map_filter (\<lambda>i. case source_at i r of
          None \<Rightarrow> None
        | Some source \<Rightarrow>
            if so_SecretCiphertext source = [] then None
            else Some \<lparr>sx_ID = so_ID source, sx_Ciphertext = so_SecretCiphertext source, sx_KeyID = so_SecretKeyID source\<rparr>)
       (source_order r)"

definition ReplaceSourceSecretCiphertext ::
  "string \<Rightarrow> bytes \<Rightarrow> bytes \<Rightarrow> string \<Rightarrow> SourceRepository \<Rightarrow> (source_error + bool) \<times> SourceRepository" where
  "ReplaceSourceSecretCiphertext i current replacement keyID r =
     (case source_at i r of
        None \<Rightarrow> (Inl ErrSourceNotFound, r)
      | Some source \<Rightarrow>
          if so_SecretCiphertext source \<noteq> current then (Inr False, r)
          else (Inr True,
                r\<lparr>sources := map_put i (source\<lparr>so_SecretCiphertext := replacement, so_SecretKeyID := keyID,
                    so_SecretConfigured := replacement \<noteq> []\<rparr>) (sources r)\<rparr>))"

section \<open>Service\<close>

record SourceService =
  fs_repository :: SourceRepository
  fs_keyRing :: KeyRing

definition NewSourceService :: "SourceRepository \<Rightarrow> KeyRing \<Rightarrow> SourceService" where
  "NewSourceService repository keyRing = \<lparr>fs_repository = repository, fs_keyRing = keyRing\<rparr>"

definition source_encrypt :: "seal_fun \<Rightarrow> bytes option \<Rightarrow> string \<Rightarrow> string \<Rightarrow> SourceService \<Rightarrow> source_error + bytes \<times> string" where
  "source_encrypt seal random i plaintext s =
     (if \<not> Available (fs_keyRing s) then Inl ErrSourceEncryptionUnavailable
      else case Encrypt seal random (fs_keyRing s) sourceSecretPurpose i (bytes_of plaintext) of
          Inl _ \<Rightarrow> Inl ErrSourceEncryptionUnavailable
        | Inr sealed \<Rightarrow> Inr sealed)"

definition source_decrypt :: "open_fun \<Rightarrow> Source \<Rightarrow> SourceService \<Rightarrow> source_error + string" where
  "source_decrypt open' source s =
     (if so_SecretCiphertext source = [] then Inr []
      else case Decrypt open' (fs_keyRing s) sourceSecretPurpose (so_ID source) (so_SecretCiphertext source) (so_SecretKeyID source) of
          Inl _ \<Rightarrow> Inl ErrSourceEncryptionUnavailable
        | Inr plaintext \<Rightarrow> Inr (string_of plaintext))"

definition SourceService_List :: "SourceService \<Rightarrow> Source list" where
  "SourceService_List s = Source_List (fs_repository s)"

definition SourceService_Find :: "string \<Rightarrow> SourceService \<Rightarrow> source_error + Source" where
  "SourceService_Find i s = Source_Find (TrimSpace i) (fs_repository s)"

text \<open>The secret of a source is sealed when there is one, and the source marked.\<close>

definition with_secret :: "seal_fun \<Rightarrow> bytes option \<Rightarrow> Source \<Rightarrow> string \<Rightarrow> SourceService \<Rightarrow> source_error + Source" where
  "with_secret seal random source secret s =
     (if secret = [] then Inr source
      else case source_encrypt seal random (so_ID source) secret s of
          Inl err \<Rightarrow> Inl err
        | Inr (ciphertext, keyID) \<Rightarrow>
            Inr (source\<lparr>so_SecretCiphertext := ciphertext, so_SecretKeyID := keyID, so_SecretConfigured := True\<rparr>))"

definition SourceService_Create ::
  "seal_fun \<Rightarrow> bytes option \<Rightarrow> time \<Rightarrow> CreateSource \<Rightarrow> SourceService \<Rightarrow> (source_error + Source) \<times> SourceService" where
  "SourceService_Create seal random now input s =
     (case newSource input now of
        Inl err \<Rightarrow> (Inl err, s)
      | Inr (source, secret) \<Rightarrow>
          (case with_secret seal random source secret s of
             Inl err \<Rightarrow> (Inl err, s)
           | Inr source1 \<Rightarrow> apsnd (\<lambda>r. s\<lparr>fs_repository := r\<rparr>) (Source_Create source1 (fs_repository s))))"

definition SourceService_Replace ::
  "seal_fun \<Rightarrow> bytes option \<Rightarrow> time \<Rightarrow> string \<Rightarrow> ReplaceSource \<Rightarrow> SourceService \<Rightarrow> (source_error + Source) \<times> SourceService" where
  "SourceService_Replace seal random now i input s =
     (case Source_Find (TrimSpace i) (fs_repository s) of
        Inl err \<Rightarrow> (Inl err, s)
      | Inr current \<Rightarrow>
          (case replaceSource current input now of
             Inl err \<Rightarrow> (Inl err, s)
           | Inr (source, secret) \<Rightarrow>
               (case with_secret seal random source secret s of
                  Inl err \<Rightarrow> (Inl err, s)
                | Inr source1 \<Rightarrow> apsnd (\<lambda>r. s\<lparr>fs_repository := r\<rparr>) (Source_Replace source1 (fs_repository s)))))"

definition SourceService_Archive :: "time \<Rightarrow> string \<Rightarrow> SourceService \<Rightarrow> (source_error + unit) \<times> SourceService" where
  "SourceService_Archive now i s = apsnd (\<lambda>r. s\<lparr>fs_repository := r\<rparr>) (Source_Archive (TrimSpace i) now (fs_repository s))"

definition activeSource :: "open_fun \<Rightarrow> string \<Rightarrow> string \<Rightarrow> SourceService \<Rightarrow> source_error + Source \<times> string" where
  "activeSource open' i expected s =
     (case SourceService_Find i s of
        Inl err \<Rightarrow> Inl err
      | Inr source \<Rightarrow>
          if so_ArchivedAt source \<noteq> None then Inl ErrSourceArchived
          else if \<not> so_Enabled source then Inl ErrSourceDisabled
          else if so_Type source \<noteq> expected then Inl ErrInvalidSource
          else map_sum id (\<lambda>secret. (source, secret)) (source_decrypt open' source s))"

section \<open>The LDAP authenticator\<close>

datatype federation_error = ErrExternalCredentials | ErrExternalUnavailable | ErrSource source_error

record LDAPConfig =
  lc_ProviderID :: string
  lc_Label :: string
  lc_URL :: string
  lc_StartTLS :: bool
  lc_BaseDN :: string
  lc_BindDN :: string
  lc_BindPassword :: string
  lc_UserFilter :: string
  lc_UsernameAttribute :: string
  lc_DisplayNameAttribute :: string
  lc_EmailAttribute :: string

definition LDAPConfig_Enabled :: "LDAPConfig \<Rightarrow> bool" where
  "LDAPConfig_Enabled c = (TrimSpace (lc_URL c) \<noteq> [])"

record ldap_entry =
  le_DN :: string
  le_GetAttributeValue :: "string \<Rightarrow> string"

text \<open>What the code calls of the LDAP client: dialling a URL, upgrading the connection, binding with a password, searching
  below a base (with the identity bound on the connection), and escaping a text for a filter.\<close>

record ldap_library =
  ld_DialURL :: "string \<Rightarrow> bool"
  ld_StartTLS :: "string \<Rightarrow> bool"
  ld_Bind :: "string \<Rightarrow> string \<Rightarrow> string \<Rightarrow> bool"
  ld_Search :: "string \<Rightarrow> string \<Rightarrow> string \<Rightarrow> string \<Rightarrow> string list \<Rightarrow> ldap_entry list option"
  ld_EscapeFilter :: "string \<Rightarrow> string"

definition ldap_connect :: "ldap_library \<Rightarrow> LDAPConfig \<Rightarrow> federation_error + unit" where
  "ldap_connect lib a =
     (if \<not> LDAPConfig_Enabled a then Inl ErrExternalUnavailable
      else if \<not> ld_DialURL lib (lc_URL a) then Inl ErrExternalUnavailable
      else if lc_StartTLS a \<and> \<not> ld_StartTLS lib (lc_URL a) then Inl ErrExternalUnavailable
      else if lc_BindDN a \<noteq> [] \<and> \<not> ld_Bind lib (lc_URL a) (lc_BindDN a) (lc_BindPassword a) then Inl ErrExternalUnavailable
      else Inr ())"

definition uniqueAttributes :: "string list \<Rightarrow> string list" where
  "uniqueAttributes vs = unique_loop TrimSpace False [] vs"

text \<open>\<open>strings.ReplaceAll\<close> for a pattern that is not empty; \<open>skip\<close> counts the characters of a match still to drop.\<close>

fun replace_loop :: "string \<Rightarrow> string \<Rightarrow> nat \<Rightarrow> string \<Rightarrow> string" where
  "replace_loop old new skip [] = []"
| "replace_loop old new skip (c # cs) =
     (if skip > 0 then replace_loop old new (skip - 1) cs
      else if HasPrefix (c # cs) old then new @ replace_loop old new (length old - 1) cs
      else c # replace_loop old new 0 cs)"

definition ReplaceAll :: "string \<Rightarrow> string \<Rightarrow> string \<Rightarrow> string" where
  "ReplaceAll s old new = replace_loop old new 0 s"

definition ldap_profile :: "LDAPConfig \<Rightarrow> string \<Rightarrow> ldap_entry \<Rightarrow> ExternalProfile" where
  "ldap_profile a username entry =
     (let resolved = TrimSpace (le_GetAttributeValue entry (lc_UsernameAttribute a));
          email = TrimSpace (le_GetAttributeValue entry (lc_EmailAttribute a));
          providerID = TrimSpace (lc_ProviderID a)
      in \<lparr>ep_ProviderID = (if providerID = [] then ''ldap'' else providerID), ep_Subject = le_DN entry,
          ep_Username = (if resolved = [] then username else resolved),
          ep_DisplayName = TrimSpace (le_GetAttributeValue entry (lc_DisplayNameAttribute a)),
          ep_Email = (if email = [] then None else Some email), ep_EmailTrusted = True, ep_EmailVerified = False\<rparr>)"

definition LDAP_Authenticate :: "ldap_library \<Rightarrow> LDAPConfig \<Rightarrow> string \<Rightarrow> string \<Rightarrow> federation_error + ExternalProfile" where
  "LDAP_Authenticate lib a username0 password =
     (let username = TrimSpace username0 in
      if \<not> LDAPConfig_Enabled a then Inl ErrExternalUnavailable
      else if username = [] \<or> password = [] then Inl ErrExternalCredentials
      else case ldap_connect lib a of
          Inl err \<Rightarrow> Inl err
        | Inr _ \<Rightarrow>
            (case ld_Search lib (lc_URL a) (lc_BindDN a) (lc_BaseDN a)
                    (ReplaceAll (lc_UserFilter a) ''{username}'' (ld_EscapeFilter lib username))
                    (uniqueAttributes [lc_UsernameAttribute a, lc_DisplayNameAttribute a, lc_EmailAttribute a]) of
               None \<Rightarrow> Inl ErrExternalUnavailable
             | Some entries \<Rightarrow>
                 (case entries of
                    [entry] \<Rightarrow>
                      if \<not> ld_Bind lib (lc_URL a) (le_DN entry) password then Inl ErrExternalCredentials
                      else Inr (ldap_profile a username entry)
                  | _ \<Rightarrow> Inl ErrExternalCredentials)))"

definition LDAP_Probe :: "ldap_library \<Rightarrow> LDAPConfig \<Rightarrow> federation_error + unit" where
  "LDAP_Probe lib a = (if \<not> LDAPConfig_Enabled a then Inl ErrExternalUnavailable else ldap_connect lib a)"

section \<open>The OpenID Connect authenticator\<close>

record ExternalOIDCConfig =
  oc_ProviderID :: string
  oc_Issuer :: string
  oc_ClientID :: string
  oc_ClientSecret :: string
  oc_Label :: string
  oc_Scopes :: "string list"

definition ExternalOIDCConfig_Enabled :: "ExternalOIDCConfig \<Rightarrow> bool" where
  "ExternalOIDCConfig_Enabled c = (TrimSpace (oc_Issuer c) \<noteq> [])"

text \<open>\<open>oa_configured\<close> is the cached \<open>oauth2Config\<close> (its scopes; the rest is the configuration), set once the provider has been
  discovered.\<close>

record OIDCAuthenticator =
  oa_config :: ExternalOIDCConfig
  oa_redirectURL :: string
  oa_configured :: "string list option"

definition NewOIDCAuthenticator :: "ExternalOIDCConfig \<Rightarrow> string \<Rightarrow> OIDCAuthenticator" where
  "NewOIDCAuthenticator cfg redirectURL = \<lparr>oa_config = cfg, oa_redirectURL = redirectURL, oa_configured = None\<rparr>"

record external_claims =
  ic_Subject :: string
  ic_PreferredUsername :: string
  ic_Name :: string
  ic_Email :: string
  ic_EmailVerified :: bool

record id_token =
  it_Nonce :: string
  it_Claims :: "external_claims option"

text \<open>What the code calls of the OIDC client: discovery of an issuer, the authorization URL, the exchange of a code for the
  \<open>id_token\<close> of the answer (\<open>Some []\<close> when there is none), and the verification of an ID token for an issuer and client.\<close>

record oidc_library =
  od_NewProvider :: "string \<Rightarrow> bool"
  od_AuthCodeURL :: "OIDCAuthenticator \<Rightarrow> string \<Rightarrow> string \<Rightarrow> string \<Rightarrow> string"
  od_Exchange :: "OIDCAuthenticator \<Rightarrow> string \<Rightarrow> string \<Rightarrow> string option"
  od_Verify :: "string \<Rightarrow> string \<Rightarrow> string \<Rightarrow> id_token option"

definition oidc_configuration :: "oidc_library \<Rightarrow> OIDCAuthenticator \<Rightarrow> (federation_error + unit) \<times> OIDCAuthenticator" where
  "oidc_configuration lib a =
     (if \<not> ExternalOIDCConfig_Enabled (oa_config a) then (Inl ErrExternalUnavailable, a)
      else if oa_configured a \<noteq> None then (Inr (), a)
      else if \<not> od_NewProvider lib (oc_Issuer (oa_config a)) then (Inl ErrExternalUnavailable, a)
      else let scopes = oc_Scopes (oa_config a)
           in (Inr (), a\<lparr>oa_configured := Some (if scopes = [] then [''openid'', ''profile'', ''email''] else scopes)\<rparr>))"

definition OIDC_AuthorizationURL ::
  "oidc_library \<Rightarrow> string \<Rightarrow> string \<Rightarrow> string \<Rightarrow> OIDCAuthenticator \<Rightarrow> (federation_error + string) \<times> OIDCAuthenticator" where
  "OIDC_AuthorizationURL lib state nonce verifier a =
     (case oidc_configuration lib a of
        (Inl err, a1) \<Rightarrow> (Inl err, a1)
      | (Inr _, a1) \<Rightarrow> (Inr (od_AuthCodeURL lib a1 state nonce verifier), a1))"

definition oidc_profile :: "ExternalOIDCConfig \<Rightarrow> external_claims \<Rightarrow> ExternalProfile" where
  "oidc_profile cfg cs =
     (let preferred = TrimSpace (ic_PreferredUsername cs);
          username = (if preferred = [] \<and> ic_EmailVerified cs then takeWhile (\<lambda>c. c \<noteq> CHR ''@'') (ic_Email cs) else preferred);
          providerID = TrimSpace (oc_ProviderID cfg)
      in \<lparr>ep_ProviderID = (if providerID = [] then ''oidc:'' @ oc_Issuer cfg else providerID), ep_Subject = ic_Subject cs,
          ep_Username = (if username = [] then ''oidc-user'' else username), ep_DisplayName = ic_Name cs,
          ep_Email = (if ic_EmailVerified cs \<and> TrimSpace (ic_Email cs) \<noteq> [] then Some (TrimSpace (ic_Email cs)) else None),
          ep_EmailTrusted = ic_EmailVerified cs, ep_EmailVerified = ic_EmailVerified cs\<rparr>)"

definition OIDC_Exchange ::
  "oidc_library \<Rightarrow> string \<Rightarrow> string \<Rightarrow> string \<Rightarrow> OIDCAuthenticator \<Rightarrow> (federation_error + ExternalProfile) \<times> OIDCAuthenticator" where
  "OIDC_Exchange lib code nonce verifier a =
     (case oidc_configuration lib a of
        (Inl err, a1) \<Rightarrow> (Inl err, a1)
      | (Inr _, a1) \<Rightarrow>
          (case od_Exchange lib a1 code verifier of
             None \<Rightarrow> Inl ErrExternalCredentials
           | Some rawIDToken \<Rightarrow>
               if rawIDToken = [] then Inl ErrExternalCredentials
               else (case od_Verify lib (oc_Issuer (oa_config a1)) (oc_ClientID (oa_config a1)) rawIDToken of
                  None \<Rightarrow> Inl ErrExternalCredentials
                | Some idToken \<Rightarrow>
                    if it_Nonce idToken = [] \<or> it_Nonce idToken \<noteq> nonce then Inl ErrExternalCredentials
                    else (case it_Claims idToken of
                       None \<Rightarrow> Inl ErrExternalCredentials
                     | Some cs \<Rightarrow>
                         if TrimSpace (ic_Subject cs) = [] then Inl ErrExternalCredentials
                         else Inr (oidc_profile (oa_config a1) cs))), a1))"

definition OIDC_Probe :: "oidc_library \<Rightarrow> OIDCAuthenticator \<Rightarrow> federation_error + unit" where
  "OIDC_Probe lib a = fst (oidc_configuration lib a)"

section \<open>Authenticators of a source\<close>

text \<open>The source of the expected type has its configuration, as every stored source does; where it had not, the code
  would panic, and the definitions answer with \<open>ErrInvalidSource\<close>.\<close>

definition LDAPAuthenticator_of :: "open_fun \<Rightarrow> string \<Rightarrow> SourceService \<Rightarrow> source_error + LDAPConfig" where
  "LDAPAuthenticator_of open' i s =
     (case activeSource open' i SourceLDAP s of
        Inl err \<Rightarrow> Inl err
      | Inr (source, secret) \<Rightarrow>
          (case so_LDAP source of
             None \<Rightarrow> Inl ErrInvalidSource
           | Some l \<Rightarrow>
               Inr \<lparr>lc_ProviderID = ''identity-source:'' @ so_ID source, lc_Label = so_Name source, lc_URL = ls_URL l,
                    lc_StartTLS = ls_StartTLS l, lc_BaseDN = ls_BaseDN l, lc_BindDN = ls_BindDN l, lc_BindPassword = secret,
                    lc_UserFilter = ls_UserFilter l, lc_UsernameAttribute = ls_UsernameAttribute l,
                    lc_DisplayNameAttribute = ls_DisplayNameAttribute l, lc_EmailAttribute = ls_EmailAttribute l\<rparr>))"

definition OIDCAuthenticator_of :: "open_fun \<Rightarrow> string \<Rightarrow> string \<Rightarrow> SourceService \<Rightarrow> source_error + OIDCAuthenticator" where
  "OIDCAuthenticator_of open' i redirectURL s =
     (case activeSource open' i SourceOIDC s of
        Inl err \<Rightarrow> Inl err
      | Inr (source, secret) \<Rightarrow>
          (case so_OIDC source of
             None \<Rightarrow> Inl ErrInvalidSource
           | Some o' \<Rightarrow>
               Inr (NewOIDCAuthenticator
                 \<lparr>oc_ProviderID = ''identity-source:'' @ so_ID source, oc_Issuer = oi_Issuer o', oc_ClientID = oi_ClientID o',
                  oc_ClientSecret = secret, oc_Label = so_Name source, oc_Scopes = oi_Scopes o'\<rparr> redirectURL)))"

definition SourceService_Probe ::
  "ldap_library \<Rightarrow> oidc_library \<Rightarrow> open_fun \<Rightarrow> string \<Rightarrow> string \<Rightarrow> SourceService \<Rightarrow> federation_error + unit" where
  "SourceService_Probe ldap oidc open' i redirectURL s =
     (case SourceService_Find i s of
        Inl err \<Rightarrow> Inl (ErrSource err)
      | Inr source \<Rightarrow>
          if so_ArchivedAt source \<noteq> None then Inl (ErrSource ErrSourceArchived)
          else if so_Type source = SourceLDAP then
            (case LDAPAuthenticator_of open' i s of Inl err \<Rightarrow> Inl (ErrSource err) | Inr a \<Rightarrow> LDAP_Probe ldap a)
          else if so_Type source = SourceOIDC then
            (case OIDCAuthenticator_of open' i redirectURL s of Inl err \<Rightarrow> Inl (ErrSource err) | Inr a \<Rightarrow> OIDC_Probe oidc a)
          else Inl (ErrSource ErrInvalidSource))"

section \<open>Re-encryption\<close>

fun rewrap_sources ::
  "seal_fun \<Rightarrow> open_fun \<Rightarrow> (string \<Rightarrow> bytes option) \<Rightarrow> KeyRing \<Rightarrow> nat \<Rightarrow> SourceSecretRecord list \<Rightarrow> SourceRepository \<Rightarrow>
   (source_error option \<times> nat) \<times> SourceRepository" where
  "rewrap_sources seal open' nonces keyRing n [] r = ((None, n), r)"
| "rewrap_sources seal open' nonces keyRing n (record' # records') r =
     (let (envelopeKeyID, valid) = EnvelopeKeyID (sx_Ciphertext record') in
      if \<not> valid then ((Some ErrSourceEncryptionUnavailable, n), r)
      else if envelopeKeyID = PrimaryID keyRing \<and> (sx_KeyID record' = [] \<or> sx_KeyID record' = envelopeKeyID)
      then rewrap_sources seal open' nonces keyRing n records' r
      else case Decrypt open' keyRing sourceSecretPurpose (sx_ID record') (sx_Ciphertext record') (sx_KeyID record') of
          Inl err \<Rightarrow> ((Some (ErrSourceSecret err), n), r)
        | Inr plaintext \<Rightarrow>
            (case Encrypt seal (nonces (sx_ID record')) keyRing sourceSecretPurpose (sx_ID record') plaintext of
               Inl err \<Rightarrow> ((Some (ErrSourceSecret err), n), r)
             | Inr (replacement, keyID) \<Rightarrow>
                 (case ReplaceSourceSecretCiphertext (sx_ID record') (sx_Ciphertext record') replacement keyID r of
                    (Inl err, r') \<Rightarrow> ((Some err, n), r')
                  | (Inr replaced, r') \<Rightarrow>
                      rewrap_sources seal open' nonces keyRing (if replaced then n + 1 else n) records' r')))"

definition RewrapSourceSecrets ::
  "seal_fun \<Rightarrow> open_fun \<Rightarrow> (string \<Rightarrow> bytes option) \<Rightarrow> KeyRing \<Rightarrow> SourceRepository \<Rightarrow>
   (source_error option \<times> nat) \<times> SourceRepository" where
  "RewrapSourceSecrets seal open' nonces keyRing r =
     (let records' = ListSourceSecretCiphertexts r in
      if records' = [] then ((None, 0), r)
      else if \<not> Available keyRing then ((Some ErrSourceEncryptionUnavailable, 0), r)
      else rewrap_sources seal open' nonces keyRing 0 records' r)"

section \<open>Facts\<close>

text \<open>Stored sources: what every saved source satisfies.\<close>

definition source_ok :: "Source \<Rightarrow> bool" where
  "source_ok source = (Source_Validate source \<and> (so_SecretConfigured source \<longleftrightarrow> so_SecretCiphertext source \<noteq> []) \<and>
     (so_ArchivedAt source \<noteq> None \<longrightarrow> \<not> so_Enabled source))"

definition sources_ok :: "SourceRepository \<Rightarrow> bool" where
  "sources_ok r = ((\<forall>i source. source_at i r = Some source \<longrightarrow> so_ID source = i \<and> source_ok source) \<and>
     distinct (source_order r) \<and> (\<forall>i. i \<in> set (source_order r) \<longleftrightarrow> source_at i r \<noteq> None))"

lemma source_at_put [simp]:
  "source_at j (r\<lparr>sources := map_put i source (sources r)\<rparr>) = (if j = i then Some source else source_at j r)"
  by (simp add: source_at_def)

lemma source_at_put_order [simp]:
  "source_at j (r\<lparr>sources := map_put i source (sources r), source_order := o'\<rparr>) = (if j = i then Some source else source_at j r)"
  by (simp add: source_at_def)

lemma clone_ok: "source_ok source \<Longrightarrow> cloneSource source = source"
  by (auto simp: source_ok_def cloneSource_def)

lemma sources_okD:
  "sources_ok r \<Longrightarrow> source_at i r = Some source \<Longrightarrow> so_ID source = i \<and> source_ok source"
  by (simp add: sources_ok_def)

lemma sources_ok_put:
  assumes "sources_ok r" "source_at (so_ID source) r = Some c" "source_ok source"
  shows "sources_ok (r\<lparr>sources := map_put (so_ID source) source (sources r)\<rparr>)"
  using assms by (auto simp: sources_ok_def)

lemma validate_cong:
  "so_ID a = so_ID b \<Longrightarrow> so_Name a = so_Name b \<Longrightarrow> so_Type a = so_Type b \<Longrightarrow> so_LDAP a = so_LDAP b \<Longrightarrow>
   so_OIDC a = so_OIDC b \<Longrightarrow> so_SecretConfigured a = so_SecretConfigured b \<Longrightarrow> Source_Validate a = Source_Validate b"
  unfolding Source_Validate_def by (simp only:)

subsection \<open>What the constructors and the encryption give\<close>

lemma Encrypt_not_Nil: "Encrypt seal random k p i v = Inr (ciphertext, keyID) \<Longrightarrow> ciphertext \<noteq> []"
  by (auto simp: Encrypt_def Let_def envelopePrefix_def bytes_of_def split: if_splits option.splits)

lemma with_secret_cases:
  assumes "with_secret seal random source secret s = Inr source1"
  obtains "secret = []" "source1 = source"
  | ciphertext keyID where "secret \<noteq> []" "ciphertext \<noteq> []"
    "Encrypt seal random (fs_keyRing s) sourceSecretPurpose (so_ID source) (bytes_of secret) = Inr (ciphertext, keyID)"
    "source1 = source\<lparr>so_SecretCiphertext := ciphertext, so_SecretKeyID := keyID, so_SecretConfigured := True\<rparr>"
  using assms by (auto simp: with_secret_def source_encrypt_def split: if_splits sum.splits dest: Encrypt_not_Nil)

text \<open>The new configuration leaves the other fields alone.\<close>

lemma applySourceInput_keeps:
  "applySourceInput source l o' b = Inr (source1, secret) \<Longrightarrow>
   so_ID source1 = so_ID source \<and> so_Type source1 = so_Type source \<and> so_Enabled source1 = so_Enabled source \<and>
   so_ArchivedAt source1 = so_ArchivedAt source \<and> so_SecretCiphertext source1 = so_SecretCiphertext source \<and>
   so_SecretKeyID source1 = so_SecretKeyID source \<and> so_SecretConfigured source1 = so_SecretConfigured source"
  by (auto simp: applySourceInput_def validateSecret_def Let_def split: if_splits option.splits)

lemma newSource_ok:
  assumes "newSource input now = Inr (source, secret)"
  shows "Source_Validate source \<and> so_SecretConfigured source = (secret \<noteq> []) \<and> so_SecretCiphertext source = [] \<and>
    so_ArchivedAt source = None \<and> so_ID source = ToLower (TrimSpace (cs_ID input)) \<and> so_Type source = cs_Type input"
  using assms
  by (auto simp: newSource_def Let_def split: sum.splits prod.splits if_splits dest!: applySourceInput_keeps)

lemma replaceSource_ok:
  assumes "replaceSource current input now = Inr (source, secret)" and "source_ok current"
  shows "Source_Validate source \<and> so_ArchivedAt source = None \<and> so_ID source = so_ID current \<and>
    so_SecretConfigured source = (secret \<noteq> [] \<or> so_SecretCiphertext source \<noteq> [])"
proof -
  have "so_SecretConfigured current \<longleftrightarrow> so_SecretCiphertext current \<noteq> []" using assms(2) by (simp add: source_ok_def)
  then show ?thesis
    using assms(1)
    by (auto simp: replaceSource_def cloneSource_def Let_def split: sum.splits prod.splits if_splits option.splits
        dest!: applySourceInput_keeps)
qed

lemma with_secret_ok:
  assumes "with_secret seal random source secret s = Inr source1"
    and "Source_Validate source" "so_ArchivedAt source = None"
    and "so_SecretConfigured source = (secret \<noteq> [] \<or> so_SecretCiphertext source \<noteq> [])"
  shows "source_ok source1 \<and> so_ID source1 = so_ID source \<and> so_ArchivedAt source1 = None"
  using assms(1)
proof (cases rule: with_secret_cases)
  case 1
  then show ?thesis using assms by (simp add: source_ok_def)
next
  case (2 ciphertext keyID)
  have "Source_Validate source1 = Source_Validate source"
    using 2 assms(4) by (intro validate_cong) simp_all
  then show ?thesis using 2 assms by (simp add: source_ok_def)
qed

subsection \<open>The repository calls keep the invariant\<close>

lemma Create_ok: "sources_ok r \<Longrightarrow> source_ok source \<Longrightarrow> sources_ok (snd (Source_Create source r))"
  by (auto simp: Source_Create_def sources_ok_def clone_ok)

lemma Replace_ok: "sources_ok r \<Longrightarrow> source_ok source \<Longrightarrow> sources_ok (snd (Source_Replace source r))"
  by (auto simp: Source_Replace_def clone_ok sources_ok_put split: option.splits)

lemma Archive_ok: "sources_ok r \<Longrightarrow> sources_ok (snd (Source_Archive i now r))"
proof (cases "source_at i r")
  case (Some source)
  assume r: "sources_ok r"
  have i: "so_ID source = i" and ok: "source_ok source" using sources_okD [OF r Some] by auto
  let ?source = "source\<lparr>so_ArchivedAt := Some now, so_Enabled := False, so_UpdatedAt := now\<rparr>"
  have "Source_Validate ?source = Source_Validate source" by (rule validate_cong) simp_all
  then have "source_ok ?source" using ok by (simp add: source_ok_def)
  from sources_ok_put [OF r, of ?source] i Some this show ?thesis
    using r by (simp add: Source_Archive_def)
qed (simp add: Source_Archive_def)

lemma ReplaceSecret_ok:
  assumes "sources_ok r" "current \<noteq> []" "replacement \<noteq> []"
  shows "sources_ok (snd (ReplaceSourceSecretCiphertext i current replacement keyID r))"
proof (cases "source_at i r")
  case (Some source)
  have i: "so_ID source = i" and ok: "source_ok source" using sources_okD [OF assms(1) Some] by auto
  let ?source = "source\<lparr>so_SecretCiphertext := replacement, so_SecretKeyID := keyID, so_SecretConfigured := True\<rparr>"
  show ?thesis
  proof (cases "so_SecretCiphertext source = current")
    case True
    then have "so_SecretConfigured source" using ok assms(2) by (simp add: source_ok_def)
    then have "Source_Validate ?source = Source_Validate source" by (intro validate_cong) simp_all
    then have "source_ok ?source" using ok assms(3) by (simp add: source_ok_def)
    from sources_ok_put [OF assms(1), of ?source] i Some this show ?thesis
      using True assms(3) by (simp add: ReplaceSourceSecretCiphertext_def)
  qed (use assms(1) Some in \<open>simp add: ReplaceSourceSecretCiphertext_def\<close>)
qed (use assms(1) in \<open>simp add: ReplaceSourceSecretCiphertext_def\<close>)

subsection \<open>Runs of the service\<close>

text \<open>
  \<open>Replace\<close> and \<open>RewrapSourceSecrets\<close> read the repository and write it back in two critical sections, between which
  other calls may run. A state of the machine is the service with the sources that some call has read: a replacement is
  computed from any of them, however old. A rewrapping writes an envelope over the ciphertext it read. The service may be
  set up anew with another key ring.
\<close>

inductive source_step :: "seal_fun \<Rightarrow> SourceService \<times> Source set \<Rightarrow> SourceService \<times> Source set \<Rightarrow> bool" for seal where
  create: "source_step seal (s, rd) (snd (SourceService_Create seal random now input s), rd)"
| archive: "source_step seal (s, rd) (snd (SourceService_Archive now i s), rd)"
| read: "SourceService_Find i s = Inr c \<Longrightarrow> source_step seal (s, rd) (s, insert c rd)"
| replace: "c \<in> rd \<Longrightarrow> replaceSource c input now = Inr (source, secret) \<Longrightarrow>
    with_secret seal random source secret s = Inr source1 \<Longrightarrow>
    source_step seal (s, rd) (s\<lparr>fs_repository := snd (Source_Replace source1 (fs_repository s))\<rparr>, rd)"
| rewrap: "current \<noteq> [] \<Longrightarrow> Encrypt seal random keyRing sourceSecretPurpose i plaintext = Inr (replacement, keyID) \<Longrightarrow>
    source_step seal (s, rd)
      (s\<lparr>fs_repository := snd (ReplaceSourceSecretCiphertext i current replacement keyID (fs_repository s))\<rparr>, rd)"
| restart: "source_step seal (s, rd) (NewSourceService (fs_repository s) keyRing, rd)"

abbreviation source_run :: "seal_fun \<Rightarrow> SourceService \<times> Source set \<Rightarrow> SourceService \<times> Source set \<Rightarrow> bool" where
  "source_run seal \<equiv> rtranclp (source_step seal)"

definition new_sources :: "KeyRing \<Rightarrow> SourceService \<times> Source set" where
  "new_sources keyRing = (NewSourceService (NewMemorySourceRepository []) keyRing, {})"

text \<open>The whole calls are runs of the machine.\<close>

lemma Replace_is_run: "\<exists>rd'. source_run seal (s, rd) (snd (SourceService_Replace seal random now i input s), rd')"
proof (cases "SourceService_Find i s")
  case (Inr c)
  have read: "source_step seal (s, rd) (s, insert c rd)" by (rule source_step.read [OF Inr])
  have c: "Source_Find (TrimSpace i) (fs_repository s) = Inr c" using Inr by (simp add: SourceService_Find_def)
  show ?thesis
  proof (cases "replaceSource c input now")
    case (Inr p)
    then obtain source secret where rp: "replaceSource c input now = Inr (source, secret)" by (cases p) auto
    show ?thesis
    proof (cases "with_secret seal random source secret s")
      case (Inr source1)
      have "source_step seal (s, insert c rd)
          (s\<lparr>fs_repository := snd (Source_Replace source1 (fs_repository s))\<rparr>, insert c rd)"
        by (rule source_step.replace [OF insertI1 rp Inr])
      with read have "source_run seal (s, rd) (s\<lparr>fs_repository := snd (Source_Replace source1 (fs_repository s))\<rparr>, insert c rd)"
        by (meson converse_rtranclp_into_rtranclp r_into_rtranclp)
      then show ?thesis using c Inr rp by (auto simp: SourceService_Replace_def)
    qed (use c rp in \<open>auto simp: SourceService_Replace_def\<close>)
  qed (use c in \<open>auto simp: SourceService_Replace_def\<close>)
qed (auto simp: SourceService_Replace_def SourceService_Find_def)

lemma rewrap_sources_is_run:
  "(\<forall>e \<in> set es. sx_Ciphertext e \<noteq> []) \<Longrightarrow>
   source_run seal (s, rd) (s\<lparr>fs_repository := snd (rewrap_sources seal open' nonces keyRing n es (fs_repository s))\<rparr>, rd)"
proof (induction es arbitrary: s n)
  case (Cons e es)
  show ?case
  proof (cases "\<exists>keyID plaintext replacement. Encrypt seal (nonces (sx_ID e)) keyRing sourceSecretPurpose (sx_ID e) plaintext = Inr (replacement, keyID)
      \<and> Decrypt open' keyRing sourceSecretPurpose (sx_ID e) (sx_Ciphertext e) (sx_KeyID e) = Inr plaintext")
    case True
    then obtain keyID plaintext replacement where e:
      "Encrypt seal (nonces (sx_ID e)) keyRing sourceSecretPurpose (sx_ID e) plaintext = Inr (replacement, keyID)"
      "Decrypt open' keyRing sourceSecretPurpose (sx_ID e) (sx_Ciphertext e) (sx_KeyID e) = Inr plaintext" by blast
    let ?s = "s\<lparr>fs_repository := snd (ReplaceSourceSecretCiphertext (sx_ID e) (sx_Ciphertext e) replacement keyID (fs_repository s))\<rparr>"
    have one: "source_step seal (s, rd) (?s, rd)" by (rule source_step.rewrap [OF _ e(1)]) (use Cons.prems in simp)
    from Cons.IH [of ?s] Cons.prems
    have rest: "source_run seal (?s, rd) (?s\<lparr>fs_repository := snd (rewrap_sources seal open' nonces keyRing m es (fs_repository ?s))\<rparr>, rd)" for m
      by simp
    show ?thesis
      using Cons.IH [of s] Cons.prems converse_rtranclp_into_rtranclp [of "source_step seal", OF one rest] r_into_rtranclp [of "source_step seal", OF one]
      by (auto simp: e Let_def split: prod.splits sum.splits)
  next
    case False
    then show ?thesis using Cons.IH [of s] Cons.prems by (auto simp: Let_def split: prod.splits sum.splits)
  qed
qed simp

lemma Rewrap_is_run:
  "source_run seal (s, rd) (s\<lparr>fs_repository := snd (RewrapSourceSecrets seal open' nonces keyRing (fs_repository s))\<rparr>, rd)"
proof -
  have "\<forall>e \<in> set (ListSourceSecretCiphertexts (fs_repository s)). sx_Ciphertext e \<noteq> []"
    by (auto simp: ListSourceSecretCiphertexts_def List.map_filter_def split: option.splits if_splits)
  from rewrap_sources_is_run [OF this] show ?thesis by (auto simp: RewrapSourceSecrets_def Let_def)
qed

subsection \<open>Invariants of runs\<close>

definition source_state_ok :: "SourceService \<times> Source set \<Rightarrow> bool" where
  "source_state_ok st = (sources_ok (fs_repository (fst st)) \<and> (\<forall>c \<in> snd st. source_ok c))"

lemma Find_ok:
  assumes "sources_ok (fs_repository s)" "SourceService_Find i s = Inr c"
  shows "source_at (TrimSpace i) (fs_repository s) = Some c \<and> so_ID c = TrimSpace i \<and> source_ok c"
  using assms by (auto simp: SourceService_Find_def Source_Find_def clone_ok split: option.splits dest: sources_okD)

lemma source_step_ok: "source_step seal st st' \<Longrightarrow> source_state_ok st \<Longrightarrow> source_state_ok st'"
proof (induction rule: source_step.induct)
  case (create s rd random now input)
  show ?case
  proof (cases "newSource input now")
    case (Inr p)
    obtain source secret where p: "p = (source, secret)" by (cases p)
    note new = newSource_ok [OF Inr [unfolded p]]
    show ?thesis
    proof (cases "with_secret seal random source secret s")
      case (Inr source1)
      have "source_ok source1" using with_secret_ok [OF Inr] new by simp
      then show ?thesis using create Inr p \<open>newSource input now = Inr p\<close> Create_ok
        by (auto simp: SourceService_Create_def source_state_ok_def)
    qed (use create Inr p in \<open>auto simp: SourceService_Create_def\<close>)
  qed (use create in \<open>auto simp: SourceService_Create_def\<close>)
next
  case (replace c rd input now source secret random s source1)
  have "source_ok c" using replace by (simp add: source_state_ok_def)
  from replaceSource_ok [OF replace(2) this] have "source_ok source1" using with_secret_ok [OF replace(3)] by simp
  then show ?case using replace Replace_ok by (auto simp: source_state_ok_def)
next
  case (rewrap current random keyRing i plaintext replacement keyID s rd)
  then show ?case by (auto simp: source_state_ok_def intro!: ReplaceSecret_ok dest: Encrypt_not_Nil)
qed (auto simp: source_state_ok_def SourceService_Archive_def NewSourceService_def Archive_ok dest: Find_ok)

lemma source_run_ok: "source_run seal st st' \<Longrightarrow> source_state_ok st \<Longrightarrow> source_state_ok st'"
  by (induction rule: rtranclp_induct) (auto intro: source_step_ok)

lemma new_sources_ok: "source_state_ok (new_sources keyRing)"
  by (simp add: source_state_ok_def new_sources_def NewSourceService_def NewMemorySourceRepository_def sources_ok_def source_at_def)

definition archived_at :: "string \<Rightarrow> time \<Rightarrow> SourceService \<Rightarrow> bool" where
  "archived_at i t s = (\<exists>source. source_at i (fs_repository s) = Some source \<and> so_ArchivedAt source = Some t)"

lemma archived_step: "source_step seal st st' \<Longrightarrow> archived_at i t (fst st) \<Longrightarrow> archived_at i t (fst st')"
  by (induction rule: source_step.induct)
    (auto simp: archived_at_def SourceService_Create_def Source_Create_def SourceService_Archive_def Source_Archive_def
      Source_Replace_def ReplaceSourceSecretCiphertext_def NewSourceService_def split: sum.splits prod.splits option.splits)

lemma archived_run: "source_run seal st st' \<Longrightarrow> archived_at i t (fst st) \<Longrightarrow> archived_at i t (fst st')"
  by (induction rule: rtranclp_induct) (auto intro: archived_step)

subsection \<open>Secrets\<close>

text \<open>What a source decrypts to under a key ring.\<close>

definition source_secret :: "open_fun \<Rightarrow> KeyRing \<Rightarrow> Source \<Rightarrow> source_error + string" where
  "source_secret open' keyRing source = source_decrypt open' source (NewSourceService (NewMemorySourceRepository []) keyRing)"

lemma source_decrypt_ring: "source_decrypt open' source s = source_secret open' (fs_keyRing s) source"
  by (simp add: source_secret_def source_decrypt_def NewSourceService_def)

definition ring_usable :: "KeyRing \<Rightarrow> bool" where
  "ring_usable k = (Available k \<and> keyIDPattern (kr_primaryID k) \<and> CHR ''.'' \<notin> set (kr_primaryID k))"

lemma sealed_secret:
  assumes "aead_ok seal open'" "ring_usable k" "length nonce = nonceSize"
    and "Encrypt seal (Some nonce) k p i v = Inr (ciphertext, keyID)"
  shows "Decrypt open' k p i ciphertext keyID = Inr v" and "EnvelopeKeyID ciphertext = (kr_primaryID k, True)"
  using roundtrip_rule [OF assms(1), of k nonce p i v] assms(2-4) by (auto simp: ring_usable_def)

lemma with_secret_decrypts:
  assumes "aead_ok seal open'" "ring_usable (fs_keyRing s)" "length nonce = nonceSize"
    and "with_secret seal (Some nonce) source secret s = Inr source1" "so_SecretCiphertext source = []"
  shows "source_secret open' (fs_keyRing s) source1 = Inr secret"
  using assms(4)
proof (cases rule: with_secret_cases)
  case 1
  then show ?thesis using assms(5) by (simp add: source_secret_def source_decrypt_def)
next
  case (2 ciphertext keyID)
  then show ?thesis
    using sealed_secret(1) [OF assms(1-3) 2(3)] by (simp add: source_secret_def source_decrypt_def NewSourceService_def)
qed

text \<open>A successful loop over records that are current keeps what every source decrypts to, and seals the sources of the
  records under the primary key.\<close>

definition current_record :: "SourceRepository \<Rightarrow> SourceSecretRecord \<Rightarrow> bool" where
  "current_record r e = (\<exists>source. source_at (sx_ID e) r = Some source \<and> so_ID source = sx_ID e \<and>
     so_SecretCiphertext source = sx_Ciphertext e \<and> so_SecretKeyID source = sx_KeyID e \<and> sx_Ciphertext e \<noteq> [])"

definition sealed_again :: "open_fun \<Rightarrow> KeyRing \<Rightarrow> Source \<Rightarrow> Source \<Rightarrow> bool" where
  "sealed_again open' k source source' =
     (source_secret open' k source' = source_secret open' k source \<and>
      source' = source\<lparr>so_SecretCiphertext := so_SecretCiphertext source', so_SecretKeyID := so_SecretKeyID source',
        so_SecretConfigured := so_SecretConfigured source'\<rparr>)"

lemma sealed_again_refl [simp]: "sealed_again open' k source source"
  by (simp add: sealed_again_def)

lemma rewrap_sources_seals:
  assumes "aead_ok seal open'" "ring_usable k" "\<And>i. \<exists>nonce. nonces i = Some nonce \<and> length nonce = nonceSize"
  shows "rewrap_sources seal open' nonces k n es r = ((None, n'), r') \<Longrightarrow> distinct (map sx_ID es) \<Longrightarrow>
    (\<forall>e \<in> set es. current_record r e) \<Longrightarrow> source_at i r = Some source \<Longrightarrow>
    \<exists>source'. source_at i r' = Some source' \<and> sealed_again open' k source source' \<and>
      (if i \<in> sx_ID ` set es then EnvelopeKeyID (so_SecretCiphertext source') = (kr_primaryID k, True) else source' = source)"
proof (induction es arbitrary: n r source)
  case Nil
  then show ?case by auto
next
  case (Cons e es)
  obtain old where old: "source_at (sx_ID e) r = Some old" "so_ID old = sx_ID e" "so_SecretCiphertext old = sx_Ciphertext e"
      "so_SecretKeyID old = sx_KeyID e" "sx_Ciphertext e \<noteq> []"
    using Cons.prems(3) by (auto simp: current_record_def)
  obtain keyID where valid: "EnvelopeKeyID (sx_Ciphertext e) = (keyID, True)"
    using Cons.prems(1) by (cases "EnvelopeKeyID (sx_Ciphertext e)") (auto split: if_splits)
  show ?case
  proof (cases "keyID = PrimaryID k \<and> (sx_KeyID e = [] \<or> sx_KeyID e = keyID)")
    case True
    then have "rewrap_sources seal open' nonces k n es r = ((None, n'), r')" using Cons.prems(1) valid by auto
    from Cons.IH [OF this _ _ Cons.prems(4)] Cons.prems(2,3)
    show ?thesis using True valid old Cons.prems(4) by (auto simp: PrimaryID_def split: if_splits)
  next
    case False
    obtain nonce where nonce: "nonces (sx_ID e) = Some nonce" "length nonce = nonceSize" using assms(3) by blast
    from Cons.prems(1) False obtain plaintext replacement keyID' where
        d: "Decrypt open' k sourceSecretPurpose (sx_ID e) (sx_Ciphertext e) (sx_KeyID e) = Inr plaintext" and
        en: "Encrypt seal (Some nonce) k sourceSecretPurpose (sx_ID e) plaintext = Inr (replacement, keyID')"
      by (auto simp: valid nonce split: sum.splits if_splits)
    let ?new = "old\<lparr>so_SecretCiphertext := replacement, so_SecretKeyID := keyID', so_SecretConfigured := replacement \<noteq> []\<rparr>"
    let ?r = "r\<lparr>sources := map_put (sx_ID e) ?new (sources r)\<rparr>"
    have step: "ReplaceSourceSecretCiphertext (sx_ID e) (sx_Ciphertext e) replacement keyID' r = (Inr True, ?r)"
      using old by (simp add: ReplaceSourceSecretCiphertext_def)
    have rest: "rewrap_sources seal open' nonces k (n + 1) es ?r = ((None, n'), r')"
      using Cons.prems(1) False by (simp add: valid nonce d en step)
    note sealed = sealed_secret [OF assms(1,2) nonce(2) en]
    have again: "sealed_again open' k old ?new"
      using old d sealed(1) Encrypt_not_Nil [OF en]
      by (simp add: sealed_again_def source_secret_def source_decrypt_def NewSourceService_def)
    have cur: "\<forall>e' \<in> set es. current_record ?r e'"
    proof
      fix e' assume e': "e' \<in> set es"
      then have "sx_ID e' \<noteq> sx_ID e" "current_record r e'" using Cons.prems(2,3) by (auto simp: image_iff)
      then show "current_record ?r e'" by (simp add: current_record_def)
    qed
    show ?thesis
    proof (cases "i = sx_ID e")
      case True
      then have "source_at i ?r = Some ?new" "i \<notin> sx_ID ` set es" using Cons.prems(2) by auto
      from Cons.IH [OF rest _ cur this(1)] this(2) Cons.prems(2,4) True old(1) again sealed(2)
      show ?thesis by auto
    next
      case False
      then have "source_at i ?r = Some source" using Cons.prems(4) by simp
      from Cons.IH [OF rest _ cur this] Cons.prems(2) False show ?thesis by auto
    qed
  qed
qed

text \<open>The records that are listed are current.\<close>

lemma listed_records:
  assumes "sources_ok r"
  shows "\<forall>e \<in> set (ListSourceSecretCiphertexts r). current_record r e" and "distinct (map sx_ID (ListSourceSecretCiphertexts r))"
    and "source_at i r = Some source \<Longrightarrow> so_SecretCiphertext source \<noteq> [] \<Longrightarrow> i \<in> sx_ID ` set (ListSourceSecretCiphertexts r)"
proof -
  have ids: "\<And>i source. source_at i r = Some source \<Longrightarrow> so_ID source = i" using assms sources_okD by blast
  show "\<forall>e \<in> set (ListSourceSecretCiphertexts r). current_record r e"
    by (auto simp: ListSourceSecretCiphertexts_def List.map_filter_def current_record_def dest: ids split: option.splits if_splits)
  show "distinct (map sx_ID (ListSourceSecretCiphertexts r))"
  proof -
    let ?f = "\<lambda>i. case source_at i r of None \<Rightarrow> False | Some source \<Rightarrow> so_SecretCiphertext source \<noteq> []"
    have "map sx_ID (List.map_filter (\<lambda>i. case source_at i r of None \<Rightarrow> None | Some source \<Rightarrow>
        if so_SecretCiphertext source = [] then None
        else Some \<lparr>sx_ID = so_ID source, sx_Ciphertext = so_SecretCiphertext source, sx_KeyID = so_SecretKeyID source\<rparr>) is)
      = filter ?f is" for "is"
      by (induction "is") (auto simp: List.map_filter_simps dest: ids split: option.splits)
    then show ?thesis using assms by (simp add: ListSourceSecretCiphertexts_def sources_ok_def)
  qed
  assume i: "source_at i r = Some source" "so_SecretCiphertext source \<noteq> []"
  then have "i \<in> set (source_order r)" using assms by (simp add: sources_ok_def)
  then have "\<lparr>sx_ID = i, sx_Ciphertext = so_SecretCiphertext source, sx_KeyID = so_SecretKeyID source\<rparr>
      \<in> set (ListSourceSecretCiphertexts r)"
    using i ids [OF i(1)] by (force simp: ListSourceSecretCiphertexts_def List.map_filter_def)
  then show "i \<in> sx_ID ` set (ListSourceSecretCiphertexts r)" by force
qed

subsection \<open>Authenticators\<close>

lemma activeSource_ok:
  assumes "sources_ok (fs_repository s)" "activeSource open' i expected s = Inr (source, secret)"
  shows "source_at (TrimSpace i) (fs_repository s) = Some source \<and> so_ID source = TrimSpace i \<and> source_ok source \<and>
    so_ArchivedAt source = None \<and> so_Enabled source \<and> so_Type source = expected \<and>
    source_secret open' (fs_keyRing s) source = Inr secret"
  using assms
  by (auto simp: activeSource_def source_decrypt_ring map_sum_def split: sum.splits if_splits dest!: Find_ok)

lemma provider_not_blank:
  assumes "clientIDPattern i"
  shows "TrimSpace (''identity-source:'' @ i) = ''identity-source:'' @ i"
proof -
  have "\<forall>c \<in> set i. \<not> is_space c"
    using assms
    by (auto simp: clientIDPattern_def list_all_iff is_lower_def is_digit_def is_space_def char_code_def split: list.splits)
  then have "rev i \<noteq> [] \<Longrightarrow> \<not> is_space (hd (rev i))" by (metis hd_in_set set_rev)
  moreover have "i \<noteq> []" using assms by (auto simp: clientIDPattern_def)
  ultimately have "dropWhile is_space (rev i @ rest) = rev i @ rest" for rest by (cases "rev i") auto
  then show ?thesis by (simp add: TrimSpace_def is_space_def char_code_def)
qed

text \<open>The configuration a source of each type carries.\<close>

lemma ldap_source_okD:
  "ldap_source_ok l b \<Longrightarrow> \<exists>endpoint. Parse (ls_URL l) = Some endpoint \<and> u_Scheme endpoint \<in> {''ldap'', ''ldaps''} \<and>
     u_User endpoint = None \<and> (ls_StartTLS l \<longrightarrow> u_Scheme endpoint = ''ldap'')"
  by (cases "Parse (ls_URL l)") (auto simp: ldap_source_ok_def split: if_splits)

lemma oidc_source_okD:
  "oidc_source_ok o' b \<Longrightarrow> \<exists>issuer. Parse (oi_Issuer o') = Some issuer \<and> u_User issuer = None \<and>
     (if u_Scheme issuer = ''https'' then True else u_Scheme issuer = ''http'' \<and> isLoopbackHost (Hostname issuer))"
  by (cases "Parse (oi_Issuer o')") (auto simp: oidc_source_ok_def split: if_splits)

lemma valid_LDAP:
  assumes "source_ok source" "so_Type source = SourceLDAP"
  obtains l where "so_LDAP source = Some l" "ldap_source_ok l (so_SecretConfigured source)" "clientIDPattern (so_ID source)"
proof -
  have v: "Source_Validate source" using assms(1) by (simp add: source_ok_def)
  then obtain l where "so_LDAP source = Some l" using assms(2) by (cases "so_LDAP source") (auto simp: Source_Validate_def split: if_splits)
  with v assms(2) that show thesis by (cases "so_OIDC source") (auto simp: Source_Validate_def split: if_splits)
qed

lemma valid_OIDC:
  assumes "source_ok source" "so_Type source = SourceOIDC"
  obtains o' where "so_OIDC source = Some o'" "oidc_source_ok o' (so_SecretConfigured source)" "clientIDPattern (so_ID source)"
proof -
  have v: "Source_Validate source" using assms(1) by (simp add: source_ok_def)
  then obtain o' where "so_OIDC source = Some o'" using assms(2) by (cases "so_OIDC source") (auto simp: Source_Validate_def split: if_splits)
  with v assms(2) that show thesis by (cases "so_LDAP source") (auto simp: Source_Validate_def split: if_splits)
qed

section \<open>A worked scenario\<close>

definition demo_ldap_input :: CreateSource where
  "demo_ldap_input = \<lparr>cs_ID = '' Corp '', cs_Name = ''Corp'', cs_Type = ''ldap'', cs_Enabled = None,
     cs_LDAP = Some \<lparr>li_URL = ''ldap://d.example/'', li_StartTLS = True, li_BaseDN = ''dc=d'', li_BindDN = ''cn=s'',
       li_BindPassword = ''pw'', li_UserFilter = [], li_UsernameAttribute = [], li_DisplayNameAttribute = [], li_EmailAttribute = []\<rparr>,
     cs_OIDC = None\<rparr>"

definition demo_oidc_input :: CreateSource where
  "demo_oidc_input = \<lparr>cs_ID = ''idp'', cs_Name = ''IdP'', cs_Type = ''oidc'', cs_Enabled = Some True, cs_LDAP = None,
     cs_OIDC = Some \<lparr>on_Issuer = ''https://i.example/'', on_ClientID = ''c'', on_ClientSecret = ''cs'', on_Scopes = []\<rparr>\<rparr>"

definition demo_sources :: SourceService where
  "demo_sources = snd (SourceService_Create demo_seal (Some (replicate 12 6)) 2 demo_oidc_input
     (snd (SourceService_Create demo_seal (Some (replicate 12 5)) 1 demo_ldap_input (fst (new_sources (demo_ring ''k1''))))))"

lemma demo_sources_run: "source_run demo_seal (new_sources (demo_ring ''k1'')) (demo_sources, {})"
proof -
  let ?s0 = "fst (new_sources (demo_ring ''k1''))"
  let ?s1 = "snd (SourceService_Create demo_seal (Some (replicate 12 5)) 1 demo_ldap_input ?s0)"
  have n: "(?s0, {}) = new_sources (demo_ring ''k1'')" by (simp add: new_sources_def)
  have "source_step demo_seal (?s0, {}) (?s1, {})" by (rule source_step.create)
  moreover have "source_step demo_seal (?s1, {}) (demo_sources, {})" unfolding demo_sources_def by (rule source_step.create)
  ultimately have "source_run demo_seal (?s0, {}) (demo_sources, {})"
    by (rule converse_rtranclp_into_rtranclp [OF _ r_into_rtranclp])
  then show ?thesis unfolding n .
qed

definition demo_ldap :: ldap_library where
  "demo_ldap = \<lparr>ld_DialURL = \<lambda>_. True, ld_StartTLS = \<lambda>_. True, ld_Bind = \<lambda>_ _ p. p = ''pw'',
     ld_Search = \<lambda>_ _ _ _ _. Some [\<lparr>le_DN = ''uid=a,dc=d'', le_GetAttributeValue = \<lambda>_. ''a''\<rparr>], ld_EscapeFilter = \<lambda>s. s\<rparr>"

definition demo_oidc :: oidc_library where
  "demo_oidc = \<lparr>od_NewProvider = \<lambda>_. True, od_AuthCodeURL = \<lambda>_ _ _ _. ''u'', od_Exchange = \<lambda>_ _ _. Some ''t'',
     od_Verify = \<lambda>_ _ _. Some \<lparr>it_Nonce = ''n'', it_Claims = Some \<lparr>ic_Subject = ''sub'', ic_PreferredUsername = ''p'', ic_Name = ''P'',
       ic_Email = ''p@e'', ic_EmailVerified = False\<rparr>\<rparr>\<rparr>"

section \<open>Properties\<close>

text \<open>C27: Only valid identity sources are ever stored. In every state that the service reaches from an empty repository,
  with calls interleaved in any way, every stored source passes \<open>Validate\<close>, is stored under its own identifier, is marked
  as having a secret exactly when it has a ciphertext, and is disabled when it is archived; the listing names every stored
  source exactly once.\<close>
theorem sources_stay_valid:
  assumes "source_run seal (new_sources keyRing) (s, rd)"
  shows "(\<forall>i source. source_at i (fs_repository s) = Some source \<longrightarrow>
      so_ID source = i \<and> Source_Validate source \<and> (so_SecretConfigured source \<longleftrightarrow> so_SecretCiphertext source \<noteq> []) \<and>
      (so_ArchivedAt source \<noteq> None \<longrightarrow> \<not> so_Enabled source)) \<and>
    distinct (map so_ID (SourceService_List s)) \<and>
    (\<forall>source. source \<in> set (SourceService_List s) \<longleftrightarrow> source_at (so_ID source) (fs_repository s) = Some source)"
proof -
  let ?r = "fs_repository s"
  have ok: "sources_ok ?r" using source_run_ok [OF assms new_sources_ok] by (simp add: source_state_ok_def)
  have keys: "i \<in> set (source_order ?r) \<longleftrightarrow> source_at i ?r \<noteq> None" for i using ok by (simp add: sources_ok_def)
  have lst: "SourceService_List s = map (\<lambda>i. the (source_at i ?r)) (source_order ?r)"
    using sources_okD [OF ok] by (auto simp: SourceService_List_def Source_List_def keys clone_ok)
  have ids: "so_ID (the (source_at i ?r)) = i" if "i \<in> set (source_order ?r)" for i
    using that ok keys sources_okD by fastforce
  have "map so_ID (SourceService_List s) = source_order ?r" by (simp add: lst map_idI ids)
  then have "distinct (map so_ID (SourceService_List s))" using ok by (simp add: sources_ok_def)
  moreover have "source \<in> set (SourceService_List s) \<longleftrightarrow> source_at (so_ID source) ?r = Some source" for source
    by (auto simp: lst ids keys image_iff intro!: bexI [of _ "so_ID source"])
  ultimately show ?thesis using sources_okD [OF ok] by (simp add: source_ok_def)
qed

theorem sources_stay_valid_witness:
  "source_run demo_seal (new_sources (demo_ring ''k1'')) (demo_sources, {}) \<and>
   map so_ID (SourceService_List demo_sources) = [''corp'', ''idp''] \<and> distinct (map so_ID (SourceService_List demo_sources))"
proof -
  have "map so_ID (SourceService_List demo_sources) = [''corp'', ''idp'']" by code_simp
  with sources_stay_valid [OF demo_sources_run] demo_sources_run show ?thesis by blast
qed

text \<open>An archived identity source is never used again. Once a source is archived, then whatever calls follow,
  interleaved in any way, both authenticators and the probe refuse it, so nobody signs in through it.\<close>
lemma archived_source_never_used:
  assumes "source_at (TrimSpace i) (fs_repository s) = Some source" and "so_ArchivedAt source = Some t"
    and "source_run seal (s, rd) (s', rd')"
  shows "LDAPAuthenticator_of open' i s' = Inl ErrSourceArchived \<and>
    OIDCAuthenticator_of open' i redirectURL s' = Inl ErrSourceArchived \<and>
    SourceService_Probe ldap oidc open' i redirectURL s' = Inl (ErrSource ErrSourceArchived)"
proof -
  have "archived_at (TrimSpace i) t s" using assms(1,2) by (simp add: archived_at_def)
  then have "archived_at (TrimSpace i) t s'" using archived_run [OF assms(3)] by simp
  then obtain c where "SourceService_Find i s' = Inr c" "so_ArchivedAt c = Some t"
    by (auto simp: archived_at_def SourceService_Find_def Source_Find_def cloneSource_def)
  then show ?thesis
    by (simp add: LDAPAuthenticator_of_def OIDCAuthenticator_of_def SourceService_Probe_def activeSource_def)
qed

text \<open>The credential reaches the authenticator unchanged. When a source is created enabled, with a usable key ring, its
  authenticator is available at once and carries exactly the secret the administrator gave (the bind password of an LDAP
  source, the client secret of an OIDC source), although only the sealed envelope is stored.\<close>
lemma source_secret_roundtrip:
  assumes "aead_ok seal open'" and "ring_usable (fs_keyRing s)" and "length nonce = nonceSize"
    and "SourceService_Create seal (Some nonce) now input s = (Inr source, s')" and "so_Enabled source"
  shows "if cs_Type input = SourceLDAP
    then \<exists>l a. cs_LDAP input = Some l \<and> LDAPAuthenticator_of open' (so_ID source) s' = Inr a \<and>
      lc_BindPassword a = li_BindPassword l \<and> lc_URL a = ls_URL (normalizeLDAPSource l) \<and> lc_BindDN a = TrimSpace (li_BindDN l)
    else \<exists>o' a. cs_OIDC input = Some o' \<and> OIDCAuthenticator_of open' (so_ID source) redirectURL s' = Inr a \<and>
      oc_ClientSecret (oa_config a) = on_ClientSecret o' \<and> oc_Issuer (oa_config a) = oi_Issuer (normalizeOIDCSource o') \<and>
      oc_ClientID (oa_config a) = TrimSpace (on_ClientID o')"
proof -
  from assms(4) obtain source0 secret where new: "newSource input now = Inr (source0, secret)"
    by (auto simp: SourceService_Create_def split: sum.splits)
  from assms(4) new obtain source1 where ws: "with_secret seal (Some nonce) source0 secret s = Inr source1"
    by (auto simp: SourceService_Create_def split: sum.splits)
  note n = newSource_ok [OF new]
  have ok1: "source_ok source1" "so_ID source1 = so_ID source0" "so_ArchivedAt source1 = None" using with_secret_ok [OF ws] n by auto
  have same: "so_LDAP source1 = so_LDAP source0 \<and> so_OIDC source1 = so_OIDC source0 \<and> so_Type source1 = so_Type source0"
    using ws by (cases rule: with_secret_cases) auto
  have dec: "source_secret open' (fs_keyRing s) source1 = Inr secret" using with_secret_decrypts [OF assms(1-3) ws] n by simp
  have s': "source = source1" "source_at (so_ID source1) (fs_repository s') = Some source1" "fs_keyRing s' = fs_keyRing s"
    using assms(4) by (auto simp: SourceService_Create_def new ws Source_Create_def clone_ok ok1 split: if_splits)
  have "TrimSpace (so_ID source1) = so_ID source1" using n ok1(2) by (simp add: TrimSpace_ToLower)
  then have act: "activeSource open' (so_ID source1) (so_Type source1) s' = Inr (source1, secret)"
    using s' ok1 dec assms(5)
    by (simp add: activeSource_def SourceService_Find_def Source_Find_def clone_ok source_decrypt_ring map_sum_def)
  show ?thesis
  proof (cases "cs_Type input = SourceLDAP")
    case True
    from new True obtain l where "cs_LDAP input = Some l" "so_LDAP source0 = Some (normalizeLDAPSource l)" "secret = li_BindPassword l"
      by (auto simp: newSource_def applySourceInput_def validateSecret_def Let_def split: option.splits if_splits)
    then show ?thesis using True act n same s'(1) by (auto simp: LDAPAuthenticator_of_def normalizeLDAPSource_def)
  next
    case False
    from new False obtain o' where ty: "cs_Type input = SourceOIDC" and
        "cs_OIDC input = Some o'" "so_OIDC source0 = Some (normalizeOIDCSource o')" "secret = on_ClientSecret o'"
      by (auto simp: newSource_def applySourceInput_def validateSecret_def Let_def split: option.splits if_splits)
    then show ?thesis using False act n same s'(1)
      by (auto simp: OIDCAuthenticator_of_def normalizeOIDCSource_def NewOIDCAuthenticator_def Let_def)
  qed
qed

text \<open>A directory sign-in is sound. When the service, in any state it can reach, hands out an LDAP authenticator for a
  source and that authenticator accepts a username and password, then the source is stored, enabled and not archived; the
  address is an \<open>ldap\<close> or \<open>ldaps\<close> URL, upgraded to TLS when the source asks for it; the password is not empty (so
  there is no unauthenticated bind); the search below the base of the source found exactly one entry, and that entry was
  bound with this password. The profile is the entry's, under an identifier of this source.\<close>
lemma ldap_login_sound:
  assumes "source_run seal (new_sources keyRing) (s, rd)"
    and "LDAPAuthenticator_of open' i s = Inr a" and "LDAP_Authenticate lib a username password = Inr profile"
  shows "\<exists>source l endpoint entry attributes.
    source_at (TrimSpace i) (fs_repository s) = Some source \<and> so_Enabled source \<and> so_ArchivedAt source = None \<and>
    so_LDAP source = Some l \<and> Parse (ls_URL l) = Some endpoint \<and> u_Scheme endpoint \<in> {''ldap'', ''ldaps''} \<and>
    (if ls_StartTLS l then u_Scheme endpoint = ''ldap'' \<and> ld_StartTLS lib (ls_URL l) else True) \<and>
    password \<noteq> [] \<and> TrimSpace username \<noteq> [] \<and>
    ld_Search lib (ls_URL l) (ls_BindDN l) (ls_BaseDN l)
      (ReplaceAll (ls_UserFilter l) ''{username}'' (ld_EscapeFilter lib (TrimSpace username))) attributes = Some [entry] \<and>
    ld_Bind lib (ls_URL l) (le_DN entry) password \<and>
    ep_Subject profile = le_DN entry \<and> ep_ProviderID profile = ''identity-source:'' @ TrimSpace i"
proof -
  have ok: "sources_ok (fs_repository s)" using source_run_ok [OF assms(1) new_sources_ok] by (simp add: source_state_ok_def)
  from assms(2) obtain source secret l where act: "activeSource open' i SourceLDAP s = Inr (source, secret)" and l: "so_LDAP source = Some l"
    and a: "a = \<lparr>lc_ProviderID = ''identity-source:'' @ so_ID source, lc_Label = so_Name source, lc_URL = ls_URL l,
                    lc_StartTLS = ls_StartTLS l, lc_BaseDN = ls_BaseDN l, lc_BindDN = ls_BindDN l, lc_BindPassword = secret,
                    lc_UserFilter = ls_UserFilter l, lc_UsernameAttribute = ls_UsernameAttribute l,
                    lc_DisplayNameAttribute = ls_DisplayNameAttribute l, lc_EmailAttribute = ls_EmailAttribute l\<rparr>"
    by (auto simp: LDAPAuthenticator_of_def split: sum.splits option.splits)
  note source = activeSource_ok [OF ok act]
  obtain lok: "ldap_source_ok l (so_SecretConfigured source)" and idp: "clientIDPattern (so_ID source)"
    using valid_LDAP [of source] source l by (metis option.inject)
  from ldap_source_okD [OF lok] obtain endpoint where ep: "Parse (ls_URL l) = Some endpoint"
    "u_Scheme endpoint \<in> {''ldap'', ''ldaps''}" "ls_StartTLS l \<longrightarrow> u_Scheme endpoint = ''ldap''" by blast
  let ?attributes = "uniqueAttributes [ls_UsernameAttribute l, ls_DisplayNameAttribute l, ls_EmailAttribute l]"
  from assms(3) obtain entry where e: "password \<noteq> []" "TrimSpace username \<noteq> []" "if ls_StartTLS l then ld_StartTLS lib (ls_URL l) else True"
      "ld_Search lib (ls_URL l) (ls_BindDN l) (ls_BaseDN l)
        (ReplaceAll (ls_UserFilter l) ''{username}'' (ld_EscapeFilter lib (TrimSpace username))) ?attributes = Some [entry]"
      "ld_Bind lib (ls_URL l) (le_DN entry) password" and p: "profile = ldap_profile a (TrimSpace username) entry"
    by (auto simp: LDAP_Authenticate_def ldap_connect_def Let_def a split: if_splits option.splits list.splits)
  have "ep_Subject profile = le_DN entry" "ep_ProviderID profile = ''identity-source:'' @ TrimSpace i"
    using source provider_not_blank [OF idp] by (simp_all add: p ldap_profile_def a Let_def)
  moreover have "if ls_StartTLS l then u_Scheme endpoint = ''ldap'' \<and> ld_StartTLS lib (ls_URL l) else True"
    using e(3) ep(3) by (simp split: if_splits)
  ultimately show ?thesis using source l ep(1,2) e(1,2,4,5) by blast
qed

text \<open>C28: A sign-in at an external provider is sound. When the service, in any state it can reach, hands out an OIDC
  authenticator for a source and that authenticator accepts a code, then the source is stored, enabled and not archived; its
  issuer uses HTTPS (plain HTTP only on a loopback host); the answer of the provider held an ID token that verified for
  this issuer and this client and that carries the nonce of the sign-in, which is not empty. The profile belongs to the
  subject of that token, which is not blank, under an identifier of this source, and its email is trusted only when the
  provider says that it is verified.\<close>
theorem oidc_login_sound:
  assumes "source_run seal (new_sources keyRing) (s, rd)"
    and "OIDCAuthenticator_of open' i redirectURL s = Inr a" and "fst (OIDC_Exchange lib code nonce verifier a) = Inr profile"
  shows "\<exists>source o' issuer raw token cs.
    source_at (TrimSpace i) (fs_repository s) = Some source \<and> so_Enabled source \<and> so_ArchivedAt source = None \<and>
    so_OIDC source = Some o' \<and> Parse (oi_Issuer o') = Some issuer \<and>
    (if u_Scheme issuer = ''https'' then True else u_Scheme issuer = ''http'' \<and> isLoopbackHost (Hostname issuer)) \<and>
    od_Verify lib (oi_Issuer o') (oi_ClientID o') raw = Some token \<and> it_Nonce token = nonce \<and> nonce \<noteq> [] \<and>
    it_Claims token = Some cs \<and> TrimSpace (ic_Subject cs) \<noteq> [] \<and> ep_Subject profile = ic_Subject cs \<and>
    ep_ProviderID profile = ''identity-source:'' @ TrimSpace i \<and> ep_EmailTrusted profile = ic_EmailVerified cs \<and>
    (if ic_EmailVerified cs then True else ep_Email profile = None)"
proof -
  have ok: "sources_ok (fs_repository s)" using source_run_ok [OF assms(1) new_sources_ok] by (simp add: source_state_ok_def)
  from assms(2) obtain source secret o' where act: "activeSource open' i SourceOIDC s = Inr (source, secret)" and o': "so_OIDC source = Some o'"
    and a: "a = NewOIDCAuthenticator
                 \<lparr>oc_ProviderID = ''identity-source:'' @ so_ID source, oc_Issuer = oi_Issuer o', oc_ClientID = oi_ClientID o',
                  oc_ClientSecret = secret, oc_Label = so_Name source, oc_Scopes = oi_Scopes o'\<rparr> redirectURL"
    by (auto simp: OIDCAuthenticator_of_def split: sum.splits option.splits)
  note source = activeSource_ok [OF ok act]
  obtain ook: "oidc_source_ok o' (so_SecretConfigured source)" and idp: "clientIDPattern (so_ID source)"
    using valid_OIDC [of source] source o' by (metis option.inject)
  from oidc_source_okD [OF ook] obtain issuer where is': "Parse (oi_Issuer o') = Some issuer"
    "if u_Scheme issuer = ''https'' then True else u_Scheme issuer = ''http'' \<and> isLoopbackHost (Hostname issuer)" by blast
  obtain a1 where cfg: "oidc_configuration lib a = (Inr (), a1)" "oa_config a1 = oa_config a"
    using assms(3) by (auto simp: OIDC_Exchange_def oidc_configuration_def Let_def split: if_splits)
  from assms(3) cfg obtain raw token cs where t: "od_Verify lib (oi_Issuer o') (oi_ClientID o') raw = Some token"
    "it_Nonce token = nonce" "nonce \<noteq> []" "it_Claims token = Some cs" "TrimSpace (ic_Subject cs) \<noteq> []"
    and p: "profile = oidc_profile (oa_config a) cs"
    by (auto simp: OIDC_Exchange_def a NewOIDCAuthenticator_def split: if_splits option.splits)
  have "ep_Subject profile = ic_Subject cs" "ep_ProviderID profile = ''identity-source:'' @ TrimSpace i"
    "ep_EmailTrusted profile = ic_EmailVerified cs" "if ic_EmailVerified cs then True else ep_Email profile = None"
    using source provider_not_blank [OF idp] by (simp_all add: p oidc_profile_def a NewOIDCAuthenticator_def Let_def)
  with source o' is' t show ?thesis by blast
qed

theorem oidc_login_sound_witness:
  "\<exists>a profile. OIDCAuthenticator_of demo_open ''idp'' ''r'' demo_sources = Inr a \<and>
     fst (OIDC_Exchange demo_oidc ''code'' ''n'' ''v'' a) = Inr profile \<and>
     ep_Subject profile = ''sub'' \<and> ep_ProviderID profile = ''identity-source:idp''"
proof -
  have "map_sum id (\<lambda>a. map_sum id (\<lambda>p. ep_Subject p) (fst (OIDC_Exchange demo_oidc ''code'' ''n'' ''v'' a)))
      (OIDCAuthenticator_of demo_open ''idp'' ''r'' demo_sources) = Inr (Inr ''sub'')" by code_simp
  then obtain a profile where a: "OIDCAuthenticator_of demo_open ''idp'' ''r'' demo_sources = Inr a"
      "fst (OIDC_Exchange demo_oidc ''code'' ''n'' ''v'' a) = Inr profile" "ep_Subject profile = ''sub''"
    by (auto simp: map_sum_def split: sum.splits)
  have "TrimSpace ''idp'' = ''idp''" by code_simp
  with oidc_login_sound [OF demo_sources_run a(1,2)] a show ?thesis by auto
qed

text \<open>Re-encryption preserves the credentials: when \<open>RewrapSourceSecrets\<close> reports success on a repository of valid
  sources, every source is still there with its configuration, it decrypts to what it decrypted to before, and where it
  has a secret the envelope names the primary key.\<close>
lemma source_rewrap_preserves:
  assumes "aead_ok seal open'" "ring_usable k" "\<And>i. \<exists>nonce. nonces i = Some nonce \<and> length nonce = nonceSize"
    and "sources_ok r" "RewrapSourceSecrets seal open' nonces k r = ((None, n), r')" "source_at i r = Some source"
  shows "\<exists>source'. source_at i r' = Some source' \<and> sealed_again open' k source source' \<and>
    (so_SecretCiphertext source \<noteq> [] \<longrightarrow> EnvelopeKeyID (so_SecretCiphertext source') = (kr_primaryID k, True))"
proof (cases "ListSourceSecretCiphertexts r = []")
  case True
  then show ?thesis using assms(5,6) listed_records(3) [OF assms(4,6)] by (auto simp: RewrapSourceSecrets_def Let_def)
next
  case False
  then have "rewrap_sources seal open' nonces k 0 (ListSourceSecretCiphertexts r) r = ((None, n), r')"
    using assms(5) by (auto simp: RewrapSourceSecrets_def Let_def split: if_splits)
  from rewrap_sources_seals [OF assms(1-3) this listed_records(2,1) [OF assms(4)] assms(6)]
  show ?thesis using listed_records(3) [OF assms(4,6)] by auto
qed

end
