(* ===== verification/Login_Pages.thy ===== *)
theory Login_Pages
  imports Return_Address CAS_Endpoints Federation_Sources MFA_Service
begin

text \<open>
  Signing in, from \<open>internal/platform/http/auth.go\<close> and the login half of \<open>mfa.go\<close>: the login page, sign-in with a password,
  an LDAP directory or an external OpenID provider, the second factor with trusted devices, and the session that ends it.

  \<^item> \<open>login_server\<close> is the server with the services only these pages use: the second factor, the identity sources and the two
    authenticators of the configuration file. \<open>login_lib\<close> holds what is outside: Argon2, the functions of \<open>MFACrypto\<close>, the
    LDAP and OIDC clients, and whether registration is switched on.
  \<^item> The random draws of a request are numbered: 3 the CSRF token, 10 and 11 the token and identifier of the session, 12 a
    remembered device, 13 its replacement, 14 the salt of an upgraded password, 15 to 17 a new external account, 18 to 20 the
    state, nonce and verifier of an OIDC request.
  \<^item> Messages on a page are short codes. \<open>NoContent\<close> stands for \<open>http.Error\<close> with its status, and \<open>RedirectPath\<close> with no values
    for a redirect to an address as the OIDC client gives it. Metrics and logs are left out.
\<close>

section \<open>The server of the login pages\<close>

abbreviation externalOIDCCookieName :: string where "externalOIDCCookieName \<equiv> ''certus_oidc_transaction''"
abbreviation mfaCookieName :: string where "mfaCookieName \<equiv> ''certus_mfa_transaction''"
abbreviation trustedDeviceCookieName :: string where "trustedDeviceCookieName \<equiv> ''certus_trusted_device''"

record login_server =
  lg_core :: server
  lg_mfa :: MFAService
  lg_identitySources :: SourceService
  lg_ldap :: LDAPConfig
  lg_externalOIDC :: OIDCAuthenticator

record login_lib =
  lx_idkey :: idkey
  lx_mfa :: MFACrypto
  lx_ldap :: ldap_library
  lx_oidc :: oidc_library
  lx_RegistrationEnabled :: bool

definition on_core :: "(server \<Rightarrow> 'a \<times> server) \<Rightarrow> login_server \<Rightarrow> 'a \<times> login_server" where
  "on_core f l = (case f (lg_core l) of (x, s) \<Rightarrow> (x, l\<lparr>lg_core := s\<rparr>))"

definition login_audit ::
  "request_context \<Rightarrow> request \<Rightarrow> string option \<Rightarrow> string \<Rightarrow> string \<Rightarrow> Outcome \<Rightarrow> (string, json) gomap option \<Rightarrow> login_server \<Rightarrow> login_server" where
  "login_audit cx rq actor type clientID outcome details l =
     l\<lparr>lg_core := recordAudit cx rq (audit_event actor type (auditClient clientID) outcome details) (lg_core l)\<rparr>"

section \<open>The client a user signs in for\<close>

definition found :: "'e + 'a \<Rightarrow> 'a option" where
  "found x = (case x of Inl _ \<Rightarrow> None | Inr y \<Rightarrow> Some y)"

definition loginClient :: "request_context \<Rightarrow> string \<Rightarrow> server \<Rightarrow> Client option" where
  "loginClient cx returnTo s =
     (case Parse returnTo of
        None \<Rightarrow> None
      | Some target \<Rightarrow>
          if u_Path target = ''/oauth2/authorize'' then found (Client_Find (Get ''client_id'' (URL_Query target)) (srv_clients s))
          else if u_Path target = ''/device'' then
            (case FindDeviceByUserCode
                (HashToken (cx_sha256 cx) (normalizeUserCode (displayUserCode (Get ''user_code'' (URL_Query target)))))
                (cx_now cx) (srv_oauth s) of
               Inl _ \<Rightarrow> None
             | Inr d \<Rightarrow> found (Client_Find (da_ClientID d) (srv_clients s)))
          else if u_Path target = ''/cas/login'' then findCASClient (Get ''service'' (URL_Query target)) s
          else None)"

section \<open>The login page\<close>

definition loginMethodLabel :: "string \<Rightarrow> string" where
  "loginMethodLabel method =
     (if method = LoginPassword
      then [CHR 0xE8, CHR 0xB4, CHR 0xA6, CHR 0xE5, CHR 0x8F, CHR 0xB7, CHR 0xE5, CHR 0xAF, CHR 0x86, CHR 0xE7, CHR 0xA0, CHR 0x81]
      else if method = LoginLDAP
      then [CHR 0xE4, CHR 0xBC, CHR 0x81, CHR 0xE4, CHR 0xB8, CHR 0x9A, CHR 0x20, CHR 0x4C, CHR 0x44, CHR 0x41, CHR 0x50]
      else if method = LoginOIDC
      then [CHR 0xE5, CHR 0xA4, CHR 0x96, CHR 0xE9, CHR 0x83, CHR 0xA8, CHR 0xE8, CHR 0xBA, CHR 0xAB, CHR 0xE4, CHR 0xBB, CHR 0xBD,
            CHR 0xE6, CHR 0x8F, CHR 0x90, CHR 0xE4, CHR 0xBE, CHR 0x9B, CHR 0xE5, CHR 0x95, CHR 0x86]
      else method)"

definition legacyLDAPLabel :: "LDAPConfig \<Rightarrow> string" where
  "legacyLDAPLabel authenticator =
     (if TrimSpace (lc_Label authenticator) \<noteq> [] then lc_Label authenticator else loginMethodLabel LoginLDAP)"

record loginSourceView =
  vw_ID :: string
  vw_Label :: string

record loginPageData =
  lp_Client :: "Client option"
  lp_Methods :: "string list"
  lp_LDAPSources :: "loginSourceView list"
  lp_OIDCSources :: "loginSourceView list"
  lp_ReturnTo :: string
  lp_CSRFToken :: string
  lp_Error :: string
  lp_PasswordEnabled :: bool
  lp_RegistrationEnabled :: bool
  lp_Unavailable :: bool

definition add_ldap :: "loginSourceView \<Rightarrow> loginPageData \<Rightarrow> loginPageData" where
  "add_ldap view page = page\<lparr>lp_LDAPSources := lp_LDAPSources page @ [view], lp_Methods := lp_Methods page @ [vw_Label view]\<rparr>"

definition add_oidc :: "loginSourceView \<Rightarrow> loginPageData \<Rightarrow> loginPageData" where
  "add_oidc view page = page\<lparr>lp_OIDCSources := lp_OIDCSources page @ [view], lp_Methods := lp_Methods page @ [vw_Label view]\<rparr>"

definition client_allows :: "Client option \<Rightarrow> string \<Rightarrow> bool" where
  "client_allows registered method = (case registered of None \<Rightarrow> True | Some c \<Rightarrow> method \<in> set (cl_LoginMethods c))"

definition source_allowed :: "Client option \<Rightarrow> Source \<Rightarrow> bool" where
  "source_allowed registered source =
     (if so_Type source = SourceLDAP then client_allows registered LoginLDAP
      else if so_Type source = SourceOIDC then client_allows registered LoginOIDC
      else registered = None)"

text \<open>The loop over the sources; the list holds the bound identifiers not met so far, a set in the code.\<close>

fun source_loop :: "Client option \<Rightarrow> bool \<Rightarrow> Source list \<Rightarrow> string list \<Rightarrow> loginPageData \<Rightarrow> string list \<times> loginPageData" where
  "source_loop registered dynamicOnly [] bound page = (bound, page)"
| "source_loop registered dynamicOnly (source # rest) bound page =
     (let unavailable = page\<lparr>lp_Unavailable := True\<rparr> in
      if so_ArchivedAt source \<noteq> None
      then source_loop registered dynamicOnly rest bound (if so_ID source \<in> set bound then unavailable else page)
      else if dynamicOnly \<and> so_ID source \<notin> set bound then source_loop registered dynamicOnly rest bound page
      else
        let bound' = (if dynamicOnly then removeAll (so_ID source) bound else bound) in
        if registered \<noteq> None \<and> \<not> dynamicOnly then source_loop registered dynamicOnly rest bound' page
        else if \<not> source_allowed registered source then source_loop registered dynamicOnly rest bound' unavailable
        else if \<not> so_Enabled source then source_loop registered dynamicOnly rest bound' unavailable
        else
          let view = \<lparr>vw_ID = so_ID source, vw_Label = so_Name source\<rparr> in
          source_loop registered dynamicOnly rest bound'
            (if so_Type source = SourceLDAP then add_ldap view page
             else if so_Type source = SourceOIDC then add_oidc view page
             else page\<lparr>lp_Methods := lp_Methods page @ [so_Name source]\<rparr>))"

definition populateLoginSources :: "Client option \<Rightarrow> login_server \<Rightarrow> loginPageData \<Rightarrow> loginPageData" where
  "populateLoginSources registered l page =
     (let ids = (case registered of None \<Rightarrow> [] | Some c \<Rightarrow> cl_IdentitySourceIDs c);
          dynamicOnly = (ids \<noteq> []);
          (bound, page1) = source_loop registered dynamicOnly (SourceService_List (lg_identitySources l)) ids page;
          page2 = (if bound \<noteq> [] then page1\<lparr>lp_Unavailable := True\<rparr> else page1);
          missing = (\<lambda>p. if registered \<noteq> None then p\<lparr>lp_Unavailable := True\<rparr> else p);
          page3 = (if \<not> client_allows registered LoginLDAP then page2
                   else if LDAPConfig_Enabled (lg_ldap l) then add_ldap \<lparr>vw_ID = [], vw_Label = legacyLDAPLabel (lg_ldap l)\<rparr> page2
                   else missing page2);
          page4 = (if \<not> client_allows registered LoginOIDC then page3
                   else if ExternalOIDCConfig_Enabled (oa_config (lg_externalOIDC l))
                   then add_oidc \<lparr>vw_ID = [], vw_Label = oc_Label (oa_config (lg_externalOIDC l))\<rparr> page3
                   else missing page3)
      in if dynamicOnly then page2 else page4)"

definition newLoginPageData :: "login_lib \<Rightarrow> request \<Rightarrow> string \<Rightarrow> string \<Rightarrow> string \<Rightarrow> login_server \<Rightarrow> loginPageData option" where
  "newLoginPageData lib rq returnTo csrfToken message l =
     (let page = \<lparr>lp_Client = None, lp_Methods = [], lp_LDAPSources = [], lp_OIDCSources = [], lp_ReturnTo = returnTo,
            lp_CSRFToken = csrfToken, lp_Error = message, lp_PasswordEnabled = True,
            lp_RegistrationEnabled = lx_RegistrationEnabled lib, lp_Unavailable = False\<rparr>;
          requested = Get ''client_id'' (rq_Query rq);
          clientID = (if requested = []
             then (case Parse returnTo of None \<Rightarrow> [] | Some target \<Rightarrow> Get ''client_id'' (URL_Query target)) else requested)
      in if clientID \<noteq> [] then
           (case Client_Find clientID (srv_clients (lg_core l)) of
              Inl _ \<Rightarrow> None
            | Inr item \<Rightarrow>
                if \<not> cl_Enabled item \<or> cl_ArchivedAt item \<noteq> None then None
                else let enabled = LoginPassword \<in> set (cl_LoginMethods item) in
                  Some (populateLoginSources (Some item) l (page\<lparr>lp_Client := Some item, lp_PasswordEnabled := enabled,
                    lp_Methods := (if enabled then [loginMethodLabel LoginPassword] else [])\<rparr>)))
         else Some (populateLoginSources None l (page\<lparr>lp_Methods := [loginMethodLabel LoginPassword]\<rparr>)))"

definition views_json :: "loginSourceView list \<Rightarrow> json" where
  "views_json views = JArr (map (\<lambda>view. JObj [(''ID'', JStr (vw_ID view)), (''Label'', JStr (vw_Label view))]) views)"

definition client_shown :: "Client option \<Rightarrow> (string \<times> json) list" where
  "client_shown registered = (case registered of None \<Rightarrow> [] | Some c \<Rightarrow> [(''Client'', JStr (cl_ID c))])"

definition login_page_shown :: "loginPageData \<Rightarrow> (string \<times> json) list" where
  "login_page_shown page = client_shown (lp_Client page) @
     [(''Methods'', JStrs (lp_Methods page)), (''LDAPSources'', views_json (lp_LDAPSources page)),
      (''OIDCSources'', views_json (lp_OIDCSources page)), (''ReturnTo'', JStr (lp_ReturnTo page)),
      (''CSRFToken'', JStr (lp_CSRFToken page)), (''Error'', JStr (lp_Error page)),
      (''PasswordEnabled'', JBool (lp_PasswordEnabled page)), (''RegistrationEnabled'', JBool (lp_RegistrationEnabled page)),
      (''Unavailable'', JBool (lp_Unavailable page))]"

text \<open>The page with a token, or the reply for an unknown client; the token is made first.\<close>

definition render_login ::
  "request_context \<Rightarrow> login_lib \<Rightarrow> request \<Rightarrow> string \<Rightarrow> string \<Rightarrow> reply \<Rightarrow> cookie list \<Rightarrow> login_server \<Rightarrow> response" where
  "render_login cx lib rq returnTo message unknown cookies l =
     (case ensureCSRF cx rq of
        None \<Rightarrow> \<lparr>rp_Reply = Aborted, rp_Cookies = cookies\<rparr>
      | Some (token, new) \<Rightarrow>
          \<lparr>rp_Reply = (case newLoginPageData lib rq returnTo token message l of
              None \<Rightarrow> unknown
            | Some page \<Rightarrow> Rendered ''login.html'' (login_page_shown page)), rp_Cookies = cookies @ new\<rparr>)"

definition renderLoginError ::
  "request_context \<Rightarrow> login_lib \<Rightarrow> request \<Rightarrow> string \<Rightarrow> string \<Rightarrow> cookie list \<Rightarrow> login_server \<Rightarrow> response" where
  "renderLoginError cx lib rq returnTo message cookies l =
     render_login cx lib rq returnTo message (Problem 400 ''invalid_client'') cookies l"

definition loginPage :: "request_context \<Rightarrow> login_lib \<Rightarrow> request \<Rightarrow> login_server \<Rightarrow> response \<times> login_server" where
  "loginPage cx lib rq l =
     (render_login cx lib rq (return_or_portal (Get ''continue'' (rq_Query rq))) [] (NoContent 400) [] l, l)"

definition loginSuccessPage :: "request_context \<Rightarrow> request \<Rightarrow> login_server \<Rightarrow> response \<times> login_server" where
  "loginSuccessPage cx rq l =
     (let returnTo = return_or_portal (Get ''continue'' (rq_Query rq)) in
      case on_core (currentSession cx rq) l of
        (None, l1) \<Rightarrow> (plain (RedirectPath ''/login'' [(''continue'', [returnTo])]), l1)
      | (Some _, l1) \<Rightarrow>
          (plain (Rendered ''login-success.html'' (client_shown (loginClient cx returnTo (lg_core l1)) @ [(''ReturnTo'', JStr returnTo)])), l1))"

section \<open>The session of a sign-in\<close>

definition loginSuccessURL :: "string \<Rightarrow> reply" where
  "loginSuccessURL returnTo = RedirectPath ''/login/success'' [(''continue'', [returnTo])]"

definition session_methods :: "string \<Rightarrow> string \<Rightarrow> string list" where
  "session_methods method secondFactorMethod =
     (if method = ''oidc'' then [''federated''] else [''pwd'']) @ (if secondFactorMethod \<noteq> [] then [secondFactorMethod] else [])"

definition assurance_level :: "string \<Rightarrow> string" where
  "assurance_level secondFactorMethod = (if secondFactorMethod \<noteq> [] then ''urn:certus:aal:2'' else ''urn:certus:aal:1'')"

definition createLoginSession ::
  "request_context \<Rightarrow> request \<Rightarrow> User \<Rightarrow> string \<Rightarrow> string \<Rightarrow> string \<Rightarrow> string \<Rightarrow> cookie list \<Rightarrow> login_server \<Rightarrow> response \<times> login_server" where
  "createLoginSession cx rq user returnTo method clientID secondFactorMethod cookies l =
     (case on_core (\<lambda>s. case CreateWithMethods (cx_sha256 cx) (cx_random cx 10) (cx_random cx 11) (cx_now cx) (us_ID user)
               (rq_IPAddress rq) (rq_UserAgent rq) (session_methods method secondFactorMethod) (assurance_level secondFactorMethod)
               (srv_sessions s) of (res, sessions) \<Rightarrow> (res, s\<lparr>srv_sessions := sessions\<rparr>)) l of
        (Inl _, l1) \<Rightarrow>
          (\<lparr>rp_Reply = Problem 500 ''server_error'', rp_Cookies = cookies\<rparr>,
           login_audit cx rq (auditActor (us_ID user)) (''login.'' @ method) clientID OutcomeFailure
             (Some [(''reason'', JStr ''session_creation_failed'')]) l1)
      | (Inr (_, token), l1) \<Rightarrow>
          (\<lparr>rp_Reply = loginSuccessURL returnTo,
            rp_Cookies = cookies @ [\<lparr>ck_Name = sessionCookieName, ck_Value = token, ck_MaxAge = 12 * 60 * 60\<rparr>]\<rparr>,
           login_audit cx rq (auditActor (us_ID user)) (''login.'' @ method) clientID OutcomeSuccess None l1))"

section \<open>The second factor\<close>

definition setTrustedDeviceCookie :: "request_context \<Rightarrow> TrustedDeviceToken \<Rightarrow> cookie" where
  "setTrustedDeviceCookie cx device =
     (let maxAge = go_quot (tt_ExpiresAt device - cx_now cx) second in
      if maxAge \<le> 0 then clearCookie trustedDeviceCookieName
      else \<lparr>ck_Name = trustedDeviceCookieName, ck_Value = tt_Token device, ck_MaxAge = maxAge\<rparr>)"

definition beginMFAChallenge ::
  "request_context \<Rightarrow> string \<Rightarrow> string \<Rightarrow> string \<Rightarrow> string \<Rightarrow> cookie list \<Rightarrow> login_server \<Rightarrow> response \<times> login_server" where
  "beginMFAChallenge cx userID returnTo method clientID cookies l =
     (case on_core (\<lambda>s. case Sign (cx_lib cx) (cx_now cx) (srv_keys s)
               [(''purpose'', JStr ''mfa_login''), (''user_id'', JStr userID), (''continue'', JStr returnTo), (''method'', JStr method),
                (''client_id'', JStr clientID), (''iat'', JInt (Unix (cx_now cx))), (''exp'', JInt (Unix (cx_now cx + 5 * minute)))]
               (srv_signer s) of (res, sg) \<Rightarrow> (res, s\<lparr>srv_signer := sg\<rparr>)) l of
        (Inl _, l1) \<Rightarrow> (\<lparr>rp_Reply = Problem 500 ''server_error'', rp_Cookies = cookies\<rparr>, l1)
      | (Inr transaction, l1) \<Rightarrow>
          (\<lparr>rp_Reply = RedirectPath ''/login/mfa'' [],
            rp_Cookies = cookies @ [\<lparr>ck_Name = mfaCookieName, ck_Value = transaction, ck_MaxAge = 5 * 60\<rparr>]\<rparr>, l1))"

text \<open>\<open>completeLoginWithTrustedDevice\<close>: the response when the device is trusted, otherwise the cookies set so far.\<close>

definition completeLoginWithTrustedDevice ::
  "request_context \<Rightarrow> login_lib \<Rightarrow> request \<Rightarrow> User \<Rightarrow> string \<Rightarrow> string \<Rightarrow> string \<Rightarrow> cookie list \<Rightarrow> login_server \<Rightarrow>
   (cookie list + response) \<times> login_server" where
  "completeLoginWithTrustedDevice cx lib rq user returnTo method clientID cookies l =
     (case Cookie trustedDeviceCookieName rq of
        None \<Rightarrow> (Inl cookies, l)
      | Some token \<Rightarrow>
          if TrimSpace token = [] then (Inl cookies, l)
          else case UseTrustedDevice (lx_mfa lib) (cx_random cx 13) (cx_now cx) (us_ID user) token (rq_UserAgent rq) (lg_mfa l) of
              (Inl _, m) \<Rightarrow> (Inl cookies, l\<lparr>lg_mfa := m\<rparr>)
            | (Inr None, m) \<Rightarrow> (Inl (cookies @ [clearCookie trustedDeviceCookieName]), l\<lparr>lg_mfa := m\<rparr>)
            | (Inr (Some replacement), m) \<Rightarrow>
                apfst Inr (createLoginSession cx rq user returnTo method clientID ''trusted_device''
                  (cookies @ [setTrustedDeviceCookie cx replacement])
                  (login_audit cx rq (auditActor (us_ID user)) ''login.mfa_trusted_device'' clientID OutcomeSuccess None
                    (l\<lparr>lg_mfa := m\<rparr>))))"

definition completeLogin ::
  "request_context \<Rightarrow> login_lib \<Rightarrow> request \<Rightarrow> User \<Rightarrow> string \<Rightarrow> string \<Rightarrow> string \<Rightarrow> cookie list \<Rightarrow> login_server \<Rightarrow> response \<times> login_server" where
  "completeLogin cx lib rq user returnTo method clientID cookies l =
     (case RequiresChallenge (us_ID user) (lg_mfa l) of
        Inl _ \<Rightarrow>
          (\<lparr>rp_Reply = Problem 503 ''mfa_unavailable'', rp_Cookies = cookies\<rparr>,
           login_audit cx rq (auditActor (us_ID user)) (''login.'' @ method) clientID OutcomeFailure
             (Some [(''reason'', JStr ''mfa_unavailable'')]) l)
      | Inr required \<Rightarrow>
          if required then
            (case completeLoginWithTrustedDevice cx lib rq user returnTo method clientID cookies l of
               (Inr response, l1) \<Rightarrow> (response, l1)
             | (Inl cookies1, l1) \<Rightarrow> beginMFAChallenge cx (us_ID user) returnTo method clientID cookies1 l1)
          else createLoginSession cx rq user returnTo method clientID [] cookies l)"

definition mfa_claims_ok :: "request_context \<Rightarrow> claims \<Rightarrow> bool" where
  "mfa_claims_ok cx cs =
     (\<not> (claim_string ''purpose'' cs \<noteq> ''mfa_login'' \<or> \<not> ValidUserID (claim_string ''user_id'' cs)
         \<or> validatedReturnTo (claim_string ''continue'' cs) = []
         \<or> claim_string ''method'' cs \<notin> {''password'', ''ldap'', ''oidc''}
         \<or> claim_int64 ''exp'' cs \<le> Unix (cx_now cx) \<or> claim_int64 ''iat'' cs > Unix (cx_now cx) + 30))"

definition mfaLoginTransaction ::
  "request_context \<Rightarrow> request \<Rightarrow> server \<Rightarrow> (string \<times> string \<times> string \<times> string) option \<times> server" where
  "mfaLoginTransaction cx rq s =
     (case Cookie mfaCookieName rq of
        None \<Rightarrow> (None, s)
      | Some value \<Rightarrow>
          (case Verify (cx_lib cx) (cx_now cx) (srv_keys s) value (srv_signer s) of
             (Inl _, sg) \<Rightarrow> (None, s\<lparr>srv_signer := sg\<rparr>)
           | (Inr cs, sg) \<Rightarrow>
               (if mfa_claims_ok cx cs
                then Some (claim_string ''user_id'' cs, claim_string ''continue'' cs, claim_string ''method'' cs, claim_string ''client_id'' cs)
                else None, s\<lparr>srv_signer := sg\<rparr>)))"

definition mfaLoginPage :: "request_context \<Rightarrow> request \<Rightarrow> login_server \<Rightarrow> response \<times> login_server" where
  "mfaLoginPage cx rq l =
     (case on_core (mfaLoginTransaction cx rq) l of
        (None, l1) \<Rightarrow> (\<lparr>rp_Reply = Problem 400 ''invalid_login_transaction'', rp_Cookies = [clearCookie mfaCookieName]\<rparr>, l1)
      | (Some _, l1) \<Rightarrow> (render_with_csrf cx rq ''mfa.html'' [] [], l1))"

text \<open>The part of \<open>mfaLoginVerify\<close> after a code has been accepted.\<close>

definition mfa_login_accepted ::
  "request_context \<Rightarrow> login_lib \<Rightarrow> request \<Rightarrow> bool \<Rightarrow> string \<Rightarrow> string \<Rightarrow> string \<Rightarrow> string \<Rightarrow> login_server \<Rightarrow> response \<times> login_server" where
  "mfa_login_accepted cx lib rq rememberDevice userID returnTo method clientID l =
     (let clear = [clearCookie mfaCookieName] in
      case active_user userID (lg_core l) of
        None \<Rightarrow> (\<lparr>rp_Reply = Problem 401 ''unauthorized'', rp_Cookies = clear\<rparr>, l)
      | Some user \<Rightarrow>
          let (remembered, cookies, l1) =
                (if rememberDevice then
                   (case RememberDevice (lx_mfa lib) (cx_random cx 12) (cx_now cx) userID (rq_UserAgent rq) (lg_mfa l) of
                      (Inl _, m) \<Rightarrow> (False, clear, l\<lparr>lg_mfa := m\<rparr>)
                    | (Inr device, m) \<Rightarrow> (True, clear @ [setTrustedDeviceCookie cx device], l\<lparr>lg_mfa := m\<rparr>))
                 else (False, clear, l))
          in createLoginSession cx rq user returnTo method clientID ''otp'' cookies
               (login_audit cx rq (auditActor userID) ''login.mfa'' clientID OutcomeSuccess
                 (Some [(''remember_device'', JBool remembered)]) l1))"

definition mfaLoginVerify :: "request_context \<Rightarrow> login_lib \<Rightarrow> request \<Rightarrow> login_server \<Rightarrow> response \<times> login_server" where
  "mfaLoginVerify cx lib rq l =
     (case rq_PostForm rq of
        None \<Rightarrow> (plain (Problem 400 ''invalid_request''), l)
      | Some post \<Rightarrow>
          if \<not> validCSRF (Form_Get ''csrf_token'' post rq) rq then (plain (Problem 400 ''invalid_csrf''), l)
          else case on_core (mfaLoginTransaction cx rq) l of
              (None, l1) \<Rightarrow> (\<lparr>rp_Reply = Problem 400 ''invalid_login_transaction'', rp_Cookies = [clearCookie mfaCookieName]\<rparr>, l1)
            | (Some (userID, returnTo, method, clientID), l1) \<Rightarrow>
                (case on_core (allowMFAAttempt cx rq userID) l1 of
                   (Some refusal, l2) \<Rightarrow> (plain refusal, l2)
                 | (None, l2) \<Rightarrow>
                     let rememberDevice = (Form_Get ''remember_device'' post rq = ''on'') in
                     (case MFA_Verify (lx_mfa lib) (cx_now cx) userID (Form_Get ''code'' post rq) (lg_mfa l2) of
                        (Inl err, m) \<Rightarrow>
                          (render_with_csrf cx rq ''mfa.html''
                             [(''Error'', JStr (if err = ErrLocked then ''locked'' else if err = ErrReplay then ''replay'' else ''invalid_code'')),
                              (''RememberDevice'', JBool rememberDevice)] [],
                           login_audit cx rq (auditActor userID) ''login.mfa'' clientID OutcomeFailure
                             (Some [(''locked'', JBool (err = ErrLocked)), (''replay'', JBool (err = ErrReplay))]) (l2\<lparr>lg_mfa := m\<rparr>))
                      | (Inr _, m) \<Rightarrow>
                          mfa_login_accepted cx lib rq rememberDevice userID returnTo method clientID (l2\<lparr>lg_mfa := m\<rparr>))))"

section \<open>Passwords\<close>

definition loginPassword :: "request_context \<Rightarrow> login_lib \<Rightarrow> request \<Rightarrow> login_server \<Rightarrow> response \<times> login_server" where
  "loginPassword cx lib rq l =
     (case rq_PostForm rq of
        None \<Rightarrow> (plain (Problem 400 ''invalid_request''), l)
      | Some post \<Rightarrow>
          let returnTo = return_or_portal (Form_Get ''continue'' post rq);
              username = Form_Get ''username'' post rq
          in if \<not> validCSRF (Form_Get ''csrf_token'' post rq) rq then (plain (Problem 400 ''invalid_csrf''), l)
             else
               let registered = loginClient cx returnTo (lg_core l);
                   clientID = (case registered of None \<Rightarrow> [] | Some c \<Rightarrow> cl_ID c)
               in if \<not> client_allows registered LoginPassword then (plain (Problem 400 ''login_method_not_allowed''), l)
                  else case on_core (allowLoginAttempt cx rq username) l of
                      (Some refusal, l1) \<Rightarrow> (plain refusal, l1)
                    | (None, l1) \<Rightarrow>
                        (case on_core (\<lambda>s. case Authenticate (lx_idkey lib) (cx_sha256 cx) (cx_random cx 14) (cx_now cx) username
                                  (Form_Get ''password'' post rq) (srv_users s) of (res, r) \<Rightarrow> (res, s\<lparr>srv_users := r\<rparr>)) l1 of
                           (Inl err, l2) \<Rightarrow>
                             let l3 = login_audit cx rq None ''login.password'' clientID OutcomeFailure
                                   (Some [(''username'', JStr (ToLower (TrimSpace username))), (''locked'', JBool (err = ErrCredentialLocked))]) l2
                             in (renderLoginError cx lib rq returnTo
                                   (if err = ErrCredentialLocked then ''locked'' else ''invalid_credentials'') [] l3, l3)
                         | (Inr user, l2) \<Rightarrow> completeLogin cx lib rq user returnTo ''password'' clientID [] l2))"

section \<open>Identity sources\<close>

definition allowClientIdentitySource :: "Client option \<Rightarrow> string \<Rightarrow> string \<Rightarrow> source_error + unit" where
  "allowClientIdentitySource registered sourceID method =
     (case registered of
        None \<Rightarrow> Inr ()
      | Some c \<Rightarrow>
          if method \<notin> set (cl_LoginMethods c) then Inl ErrInvalidSource
          else if sourceID = [] then (if cl_IdentitySourceIDs c \<noteq> [] then Inl ErrInvalidSource else Inr ())
          else if cl_IdentitySourceIDs c = [] \<or> sourceID \<notin> set (cl_IdentitySourceIDs c) then Inl ErrInvalidSource
          else Inr ())"

definition ldapAuthenticatorForLogin :: "login_lib \<Rightarrow> string \<Rightarrow> Client option \<Rightarrow> login_server \<Rightarrow> source_error + LDAPConfig" where
  "ldapAuthenticatorForLogin lib sourceID registered l =
     (case allowClientIdentitySource registered sourceID LoginLDAP of
        Inl err \<Rightarrow> Inl err
      | Inr _ \<Rightarrow>
          if sourceID = [] then (if \<not> LDAPConfig_Enabled (lg_ldap l) then Inl ErrSourceDisabled else Inr (lg_ldap l))
          else LDAPAuthenticator_of (mx_open (lx_mfa lib)) sourceID (lg_identitySources l))"

definition oidcAuthenticatorForLogin ::
  "request_context \<Rightarrow> login_lib \<Rightarrow> string \<Rightarrow> Client option \<Rightarrow> login_server \<Rightarrow> source_error + OIDCAuthenticator" where
  "oidcAuthenticatorForLogin cx lib sourceID registered l =
     (case allowClientIdentitySource registered sourceID LoginOIDC of
        Inl err \<Rightarrow> Inl err
      | Inr _ \<Rightarrow>
          if sourceID = [] then
            (if \<not> ExternalOIDCConfig_Enabled (oa_config (lg_externalOIDC l)) then Inl ErrSourceDisabled else Inr (lg_externalOIDC l))
          else OIDCAuthenticator_of (mx_open (lx_mfa lib)) sourceID (cf_Issuer (cx_cfg cx) @ ''/login/oidc/callback'') (lg_identitySources l))"

definition writeLoginSourceError :: "source_error \<Rightarrow> reply" where
  "writeLoginSourceError err =
     (if err = ErrInvalidSource then Problem 400 ''login_method_not_allowed''
      else if err = ErrSourceEncryptionUnavailable then Problem 503 ''identity_source_unavailable''
      else if err = ErrSourceNotFound \<or> err = ErrSourceArchived \<or> err = ErrSourceDisabled then Problem 503 ''login_method_unavailable''
      else Problem 500 ''server_error'')"

text \<open>The end of the two federated sign-ins: the account of a profile, which has to be active.\<close>

definition resolve_profile :: "request_context \<Rightarrow> ExternalProfile \<Rightarrow> login_server \<Rightarrow> (string + User) \<times> login_server" where
  "resolve_profile cx profile l =
     (case on_core (\<lambda>s. case ResolveExternalIdentity (cx_sha256 cx) (cx_random cx 15) (cx_random cx 16) (cx_random cx 17) profile
               (cx_now cx) (srv_users s) of (res, r) \<Rightarrow> (res, s\<lparr>srv_users := r\<rparr>)) l of
        (Inl _, l1) \<Rightarrow> (Inl ''not_synchronized'', l1)
      | (Inr user, l1) \<Rightarrow> (if us_Status user \<noteq> UserActive then Inl ''account_unavailable'' else Inr user, l1))"

definition finish_federated ::
  "request_context \<Rightarrow> login_lib \<Rightarrow> request \<Rightarrow> ExternalProfile \<Rightarrow> string \<Rightarrow> string \<Rightarrow> string \<Rightarrow> cookie list \<Rightarrow> login_server \<Rightarrow>
   response \<times> login_server" where
  "finish_federated cx lib rq profile returnTo method clientID cookies l =
     (case resolve_profile cx profile l of
        (Inl message, l1) \<Rightarrow> (renderLoginError cx lib rq returnTo message cookies l1, l1)
      | (Inr user, l1) \<Rightarrow> completeLogin cx lib rq user returnTo method clientID cookies l1)"

definition loginLDAP :: "request_context \<Rightarrow> login_lib \<Rightarrow> request \<Rightarrow> login_server \<Rightarrow> response \<times> login_server" where
  "loginLDAP cx lib rq l =
     (case rq_PostForm rq of
        None \<Rightarrow> (plain (Problem 400 ''invalid_request''), l)
      | Some post \<Rightarrow>
          let returnTo = return_or_portal (Form_Get ''continue'' post rq);
              username = Form_Get ''username'' post rq
          in if \<not> validCSRF (Form_Get ''csrf_token'' post rq) rq then (plain (Problem 400 ''invalid_csrf''), l)
             else
               let sourceID = TrimSpace (Form_Get ''source_id'' post rq);
                   registered = loginClient cx returnTo (lg_core l);
                   clientID = (case registered of None \<Rightarrow> [] | Some c \<Rightarrow> cl_ID c)
               in if \<not> client_allows registered LoginLDAP then (plain (Problem 400 ''login_method_not_allowed''), l)
                  else case ldapAuthenticatorForLogin lib sourceID registered l of
                      Inl err \<Rightarrow> (plain (writeLoginSourceError err), l)
                    | Inr authenticator \<Rightarrow>
                        (case on_core (allowLoginAttempt cx rq username) l of
                           (Some refusal, l1) \<Rightarrow> (plain refusal, l1)
                         | (None, l1) \<Rightarrow>
                             (case LDAP_Authenticate (lx_ldap lib) authenticator username (Form_Get ''password'' post rq) of
                                Inl err \<Rightarrow>
                                  let l2 = login_audit cx rq None ''login.ldap'' clientID OutcomeFailure
                                        (Some [(''username'', JStr (TrimSpace username)), (''source_id'', JStr sourceID)]) l1
                                  in (renderLoginError cx lib rq returnTo
                                        (if err = ErrExternalUnavailable then ''ldap_unavailable'' else ''invalid_credentials'') [] l2, l2)
                              | Inr profile \<Rightarrow> finish_federated cx lib rq profile returnTo ''ldap'' clientID [] l1)))"

text \<open>The authenticator of the configuration file keeps what it learnt of its provider; one made for a source is dropped.\<close>

definition keep_authenticator :: "string \<Rightarrow> OIDCAuthenticator \<Rightarrow> login_server \<Rightarrow> login_server" where
  "keep_authenticator sourceID authenticator l = (if sourceID = [] then l\<lparr>lg_externalOIDC := authenticator\<rparr> else l)"

definition start_oidc ::
  "request_context \<Rightarrow> login_lib \<Rightarrow> string \<Rightarrow> string \<Rightarrow> OIDCAuthenticator \<Rightarrow> string \<Rightarrow> string \<Rightarrow> string \<Rightarrow> login_server \<Rightarrow>
   response \<times> login_server" where
  "start_oidc cx lib returnTo sourceID authenticator state nonce verifier l =
     (case on_core (\<lambda>s. case Sign (cx_lib cx) (cx_now cx) (srv_keys s)
               [(''purpose'', JStr ''external_oidc''), (''state'', JStr state), (''nonce'', JStr nonce), (''verifier'', JStr verifier),
                (''continue'', JStr returnTo), (''source_id'', JStr sourceID), (''iat'', JInt (Unix (cx_now cx))),
                (''exp'', JInt (Unix (cx_now cx + 5 * minute)))]
               (srv_signer s) of (res, sg) \<Rightarrow> (res, s\<lparr>srv_signer := sg\<rparr>)) l of
        (Inl _, l1) \<Rightarrow> (plain (Problem 500 ''server_error''), l1)
      | (Inr transaction, l1) \<Rightarrow>
          (case OIDC_AuthorizationURL (lx_oidc lib) state nonce verifier authenticator of
             (Inl _, a) \<Rightarrow> (plain (Problem 502 ''identity_provider_unavailable''), keep_authenticator sourceID a l1)
           | (Inr target, a) \<Rightarrow>
               (\<lparr>rp_Reply = RedirectPath target [],
                 rp_Cookies = [\<lparr>ck_Name = externalOIDCCookieName, ck_Value = transaction, ck_MaxAge = 5 * 60\<rparr>]\<rparr>,
                keep_authenticator sourceID a l1)))"

definition loginOIDC :: "request_context \<Rightarrow> login_lib \<Rightarrow> request \<Rightarrow> login_server \<Rightarrow> response \<times> login_server" where
  "loginOIDC cx lib rq l =
     (let returnTo = return_or_portal (Get ''continue'' (rq_Query rq));
          sourceID = TrimSpace (Get ''source_id'' (rq_Query rq));
          registered = loginClient cx returnTo (lg_core l)
      in if \<not> client_allows registered LoginOIDC then (plain (Problem 400 ''login_method_not_allowed''), l)
         else case oidcAuthenticatorForLogin cx lib sourceID registered l of
             Inl err \<Rightarrow> (plain (writeLoginSourceError err), l)
           | Inr authenticator \<Rightarrow>
               (case on_core (allowLoginSource cx rq ''login.oidc_source'') l of
                  (Some refusal, l1) \<Rightarrow> (plain refusal, l1)
                | (None, l1) \<Rightarrow>
                    (case (RandomToken 24 (cx_random cx 18), RandomToken 24 (cx_random cx 19), RandomToken 32 (cx_random cx 20)) of
                       (Inr state, Inr nonce, Inr verifier) \<Rightarrow> start_oidc cx lib returnTo sourceID authenticator state nonce verifier l1
                     | _ \<Rightarrow> (plain (Problem 500 ''server_error''), l1))))"

definition validExternalOIDCClaims :: "request_context \<Rightarrow> claims \<Rightarrow> string \<Rightarrow> bool" where
  "validExternalOIDCClaims cx cs state =
     (claim_string ''purpose'' cs = ''external_oidc'' \<and> state \<noteq> [] \<and> claim_string ''state'' cs = state
      \<and> claim_string ''nonce'' cs \<noteq> [] \<and> claim_string ''verifier'' cs \<noteq> []
      \<and> validatedReturnTo (claim_string ''continue'' cs) \<noteq> []
      \<and> claim_int64 ''exp'' cs > Unix (cx_now cx) \<and> claim_int64 ''iat'' cs \<le> Unix (cx_now cx) + 30)"

definition externalOIDCTransaction :: "request_context \<Rightarrow> request \<Rightarrow> server \<Rightarrow> claims option \<times> server" where
  "externalOIDCTransaction cx rq s =
     (case Cookie externalOIDCCookieName rq of
        None \<Rightarrow> (None, s)
      | Some value \<Rightarrow>
          (case Verify (cx_lib cx) (cx_now cx) (srv_keys s) value (srv_signer s) of
             (Inl _, sg) \<Rightarrow> (None, s\<lparr>srv_signer := sg\<rparr>)
           | (Inr cs, sg) \<Rightarrow>
               (if validExternalOIDCClaims cx cs (Get ''state'' (rq_Query rq)) then Some cs else None, s\<lparr>srv_signer := sg\<rparr>)))"

definition loginOIDCCallback :: "request_context \<Rightarrow> login_lib \<Rightarrow> request \<Rightarrow> login_server \<Rightarrow> response \<times> login_server" where
  "loginOIDCCallback cx lib rq l =
     (let clear = [clearCookie externalOIDCCookieName] in
      case on_core (externalOIDCTransaction cx rq) l of
        (None, l1) \<Rightarrow> (\<lparr>rp_Reply = Problem 400 ''invalid_login_transaction'', rp_Cookies = clear\<rparr>, l1)
      | (Some cs, l1) \<Rightarrow>
          let returnTo = claim_string ''continue'' cs; sourceID = claim_string ''source_id'' cs;
              registered = loginClient cx returnTo (lg_core l1)
          in case oidcAuthenticatorForLogin cx lib sourceID registered l1 of
               Inl err \<Rightarrow> (\<lparr>rp_Reply = writeLoginSourceError err, rp_Cookies = clear\<rparr>, l1)
             | Inr authenticator \<Rightarrow>
                 if Get ''error'' (rq_Query rq) \<noteq> []
                 then (renderLoginError cx lib rq returnTo ''provider_refused'' clear l1, l1)
                 else case OIDC_Exchange (lx_oidc lib) (Get ''code'' (rq_Query rq)) (claim_string ''nonce'' cs)
                        (claim_string ''verifier'' cs) authenticator of
                     (Inl _, a) \<Rightarrow>
                       let l2 = keep_authenticator sourceID a l1
                       in (renderLoginError cx lib rq returnTo ''external_authentication_failed'' clear l2, l2)
                   | (Inr profile, a) \<Rightarrow>
                       finish_federated cx lib rq profile returnTo ''oidc'' (case registered of None \<Rightarrow> [] | Some c \<Rightarrow> cl_ID c) clear
                         (keep_authenticator sourceID a l1))"

end
