(* ===== verification/Login_Flows.thy ===== *)
theory Login_Flows
  imports Login_Pages OAuth_Flows
begin

text \<open>
  What signing in guarantees. The handlers of the login pages are put together as one machine; a response that sets the session
  cookie is traced back to the credentials of the request and, for a user with a second factor, to a code or a trusted device.
\<close>

section \<open>The login pages as one machine\<close>

datatype login_op =
    VisitLogin request | VisitSuccess request | PasswordLogin request | LDAPLogin request
  | StartOIDC request | OIDCCallback request | VisitMFA request | VerifyMFA request

fun login_serve :: "request_context \<Rightarrow> login_lib \<Rightarrow> login_op \<Rightarrow> login_server \<Rightarrow> response \<times> login_server" where
  "login_serve cx lib (VisitLogin rq) l = loginPage cx lib rq l"
| "login_serve cx lib (VisitSuccess rq) l = loginSuccessPage cx rq l"
| "login_serve cx lib (PasswordLogin rq) l = loginPassword cx lib rq l"
| "login_serve cx lib (LDAPLogin rq) l = loginLDAP cx lib rq l"
| "login_serve cx lib (StartOIDC rq) l = loginOIDC cx lib rq l"
| "login_serve cx lib (OIDCCallback rq) l = loginOIDCCallback cx lib rq l"
| "login_serve cx lib (VisitMFA rq) l = mfaLoginPage cx rq l"
| "login_serve cx lib (VerifyMFA rq) l = mfaLoginVerify cx lib rq l"

text \<open>The session token a response hands to the browser.\<close>

definition session_token :: "response \<Rightarrow> string option" where
  "session_token response = map_option ck_Value (find (\<lambda>ck. ck_Name ck = sessionCookieName) (rp_Cookies response))"

text \<open>The user the credentials of a request belong to: a password, an entry of the directory, an identity vouched for by the
  OpenID provider for a transaction this server signed, or a signed transaction that waits for the second factor.\<close>

abbreviation resolved :: "request_context \<Rightarrow> ExternalProfile \<Rightarrow> login_server \<Rightarrow> User option" where
  "resolved cx profile l \<equiv> found (fst (ResolveExternalIdentity (cx_sha256 cx) (cx_random cx 15) (cx_random cx 16) (cx_random cx 17)
     profile (cx_now cx) (srv_users (lg_core l))))"

definition posted :: "request \<Rightarrow> Values option" where
  "posted rq = (case rq_PostForm rq of None \<Rightarrow> None
     | Some post \<Rightarrow> if validCSRF (Form_Get ''csrf_token'' post rq) rq then Some post else None)"

fun primary_user :: "request_context \<Rightarrow> login_lib \<Rightarrow> login_op \<Rightarrow> login_server \<Rightarrow> User option" where
  "primary_user cx lib (PasswordLogin rq) l =
     (case posted rq of None \<Rightarrow> None
      | Some post \<Rightarrow> found (fst (Authenticate (lx_idkey lib) (cx_sha256 cx) (cx_random cx 14) (cx_now cx) (Form_Get ''username'' post rq)
          (Form_Get ''password'' post rq) (srv_users (lg_core l)))))"
| "primary_user cx lib (LDAPLogin rq) l =
     (case posted rq of None \<Rightarrow> None
      | Some post \<Rightarrow>
          (case ldapAuthenticatorForLogin lib (TrimSpace (Form_Get ''source_id'' post rq))
              (loginClient cx (return_or_portal (Form_Get ''continue'' post rq)) (lg_core l)) l of
             Inl _ \<Rightarrow> None
           | Inr authenticator \<Rightarrow>
               (case LDAP_Authenticate (lx_ldap lib) authenticator (Form_Get ''username'' post rq) (Form_Get ''password'' post rq) of
                  Inl _ \<Rightarrow> None | Inr profile \<Rightarrow> resolved cx profile l)))"
| "primary_user cx lib (OIDCCallback rq) l =
     (case externalOIDCTransaction cx rq (lg_core l) of
        (None, _) \<Rightarrow> None
      | (Some cs, s) \<Rightarrow>
          (case oidcAuthenticatorForLogin cx lib (claim_string ''source_id'' cs) (loginClient cx (claim_string ''continue'' cs) s)
              (l\<lparr>lg_core := s\<rparr>) of
             Inl _ \<Rightarrow> None
           | Inr authenticator \<Rightarrow>
               (case fst (OIDC_Exchange (lx_oidc lib) (Get ''code'' (rq_Query rq)) (claim_string ''nonce'' cs)
                     (claim_string ''verifier'' cs) authenticator) of
                  Inl _ \<Rightarrow> None | Inr profile \<Rightarrow> resolved cx profile l)))"
| "primary_user cx lib (VerifyMFA rq) l =
     (case posted rq of None \<Rightarrow> None
      | Some post \<Rightarrow>
          (case fst (mfaLoginTransaction cx rq (lg_core l)) of
             None \<Rightarrow> None | Some (userID, _) \<Rightarrow> found (User_Find userID (srv_users (lg_core l)))))"
| "primary_user cx lib _ l = None"

text \<open>The second factor a request proves for a user, or the empty text.\<close>

definition device_factor :: "request_context \<Rightarrow> login_lib \<Rightarrow> request \<Rightarrow> User \<Rightarrow> login_server \<Rightarrow> string" where
  "device_factor cx lib rq user l =
     (case Cookie trustedDeviceCookieName rq of
        None \<Rightarrow> []
      | Some token \<Rightarrow>
          (case fst (UseTrustedDevice (lx_mfa lib) (cx_random cx 13) (cx_now cx) (us_ID user) token (rq_UserAgent rq) (lg_mfa l)) of
             Inr (Some _) \<Rightarrow> ''trusted_device'' | _ \<Rightarrow> []))"

fun second_factor :: "request_context \<Rightarrow> login_lib \<Rightarrow> login_op \<Rightarrow> User \<Rightarrow> login_server \<Rightarrow> string" where
  "second_factor cx lib (VerifyMFA rq) user l =
     (case posted rq of None \<Rightarrow> []
      | Some post \<Rightarrow>
          (case fst (mfaLoginTransaction cx rq (lg_core l)) of
             None \<Rightarrow> []
           | Some (userID, _) \<Rightarrow>
               if fst (MFA_Verify (lx_mfa lib) (cx_now cx) userID (Form_Get ''code'' post rq) (lg_mfa l)) = Inr () then ''otp'' else []))"
| "second_factor cx lib (PasswordLogin rq) user l = device_factor cx lib rq user l"
| "second_factor cx lib (LDAPLogin rq) user l = device_factor cx lib rq user l"
| "second_factor cx lib (OIDCCallback rq) user l = device_factor cx lib rq user l"
| "second_factor cx lib _ user l = []"

text \<open>The session that belongs to a token.\<close>

definition login_session :: "request_context \<Rightarrow> string \<Rightarrow> User \<Rightarrow> string \<Rightarrow> login_server \<Rightarrow> bool" where
  "login_session cx token user factor l =
     (\<exists>sid record'. map_of (ss_repository (srv_sessions (lg_core l))) sid = Some record'
        \<and> mr_hash record' = HashToken (cx_sha256 cx) token \<and> se_UserID record' = us_ID user \<and> se_AuthenticatedAt record' = cx_now cx
        \<and> se_AssuranceLevel record' = assurance_level factor \<and> (factor \<noteq> [] \<longrightarrow> last (se_AuthMethods record') = factor))"

section \<open>Which responses sign in\<close>

abbreviation no_session :: "cookie list \<Rightarrow> bool" where
  "no_session cookies \<equiv> find (\<lambda>ck. ck_Name ck = sessionCookieName) cookies = None"

lemma session_token_none:
  "no_session (rp_Cookies response) \<Longrightarrow> session_token response = None"
  by (simp add: session_token_def)

lemma session_token_record:
  "session_token \<lparr>rp_Reply = r, rp_Cookies = cookies\<rparr> = map_option ck_Value (find (\<lambda>ck. ck_Name ck = sessionCookieName) cookies)"
  by (simp add: session_token_def)

lemma session_token_plain [simp]: "session_token (plain r) = None"
  by (simp add: session_token_def plain_def)

lemma cookie_names [simp]:
  "ck_Name (clearCookie name) = name"
  "ck_Name (setTrustedDeviceCookie cx device) = trustedDeviceCookieName"
  by (simp_all add: clearCookie_def setTrustedDeviceCookie_def Let_def)

lemma no_session_append [simp]: "no_session (a @ b) \<longleftrightarrow> no_session a \<and> no_session b"
  by (auto simp: find_append split: option.splits)

lemma no_session_csrf: "ensureCSRF cx rq = Some (token, new) \<Longrightarrow> no_session new"
  by (auto simp: ensureCSRF_def Let_def split: option.splits sum.splits if_splits)

lemma render_no_session [simp]:
  "no_session cookies \<Longrightarrow> session_token (render_login cx lib rq returnTo message unknown cookies l) = None"
  "no_session cookies \<Longrightarrow> session_token (renderLoginError cx lib rq returnTo message cookies l) = None"
  "no_session cookies \<Longrightarrow> session_token (render_with_csrf cx rq page shown cookies) = None"
  by (auto intro!: session_token_none simp: render_login_def renderLoginError_def render_with_csrf_def
      split: option.splits dest: no_session_csrf)

lemma login_audit_frame [simp]:
  "lg_mfa (login_audit cx rq actor type clientID outcome details l) = lg_mfa l"
  "srv_sessions (lg_core (login_audit cx rq actor type clientID outcome details l)) = srv_sessions (lg_core l)"
  by (auto simp: login_audit_def recordAudit_def Let_def split: option.splits sum.splits)

lemma createLoginSession_token:
  assumes "createLoginSession cx rq user returnTo method clientID factor cookies l = (response, l')"
    and "no_session cookies" and "session_token response = Some token"
  shows "login_session cx token user factor l'"
proof -
  let ?h = "HashToken (cx_sha256 cx) token"
  from assms obtain sid where "RandomToken 32 (cx_random cx 10) = Inr token" "RandomToken 16 (cx_random cx 11) = Inr sid"
    and s: "srv_sessions (lg_core l') = (srv_sessions (lg_core l))\<lparr>ss_repository :=
      map_put sid (Session.extend \<lparr>se_ID = sid, se_UserID = us_ID user, se_AuthenticatedAt = cx_now cx,
         se_ExpiresAt = cx_now cx + ss_lifetime (srv_sessions (lg_core l)), se_LastSeenAt = cx_now cx, se_IPAddress = rq_IPAddress rq,
         se_UserAgent = rq_UserAgent rq, se_RevokedAt = None, se_AuthMethods = session_methods method factor,
         se_AssuranceLevel = assurance_level factor\<rparr> \<lparr>mr_hash = ?h, mr_revokedAt = None\<rparr>)
        (ss_repository (srv_sessions (lg_core l)))\<rparr>"
    by (auto simp: createLoginSession_def on_core_def CreateWithMethods_def Session_Create_def session_token_def find_append Let_def
        split: sum.splits prod.splits option.splits)
  then show ?thesis
    unfolding login_session_def
    by (intro exI [of _ sid]) (simp add: s Session.extend_def session_methods_def)
qed


text \<open>The end of every sign-in without a code: an account without a second factor, or a trusted device.\<close>

definition factor_ok :: "request_context \<Rightarrow> login_lib \<Rightarrow> login_op \<Rightarrow> User \<Rightarrow> string \<Rightarrow> login_server \<Rightarrow> bool" where
  "factor_ok cx lib op user factor l =
     (if factor = [] then RequiresChallenge (us_ID user) (lg_mfa l) = Inr False else factor = second_factor cx lib op user l)"

lemma completeLogin_token:
  assumes "completeLogin cx lib rq user returnTo method clientID cookies l = (response, l')"
    and "no_session cookies" and "session_token response = Some token"
  shows "\<exists>factor. (if factor = [] then RequiresChallenge (us_ID user) (lg_mfa l) = Inr False else factor = device_factor cx lib rq user l)
    \<and> login_session cx token user factor l'"
proof (cases "RequiresChallenge (us_ID user) (lg_mfa l)")
  case (Inl err)
  then have "response = \<lparr>rp_Reply = Problem 503 ''mfa_unavailable'', rp_Cookies = cookies\<rparr>"
    using assms(1) by (auto simp: completeLogin_def)
  with assms(2,3) show ?thesis by (simp add: session_token_def)
next
  case (Inr required)
  show ?thesis
  proof (cases required)
    case False
    with Inr assms(1) have "createLoginSession cx rq user returnTo method clientID [] cookies l = (response, l')"
      by (simp add: completeLogin_def)
    from createLoginSession_token [OF this assms(2,3)] Inr False show ?thesis by (intro exI [of _ "[]"]) simp
  next
    case True
    obtain res l1 where d: "completeLoginWithTrustedDevice cx lib rq user returnTo method clientID cookies l = (res, l1)" by fastforce
    show ?thesis
    proof (cases res)
      case (Inl cookies1)
      have "no_session cookies1"
        using d Inl assms(2) by (auto simp: completeLoginWithTrustedDevice_def apfst_def map_prod_def split: option.splits if_splits sum.splits prod.splits)
      then have "session_token response = None"
        using assms(1) Inr True d Inl
        by (auto simp: completeLogin_def beginMFAChallenge_def session_token_def find_append split: sum.splits prod.splits)
      with assms(3) show ?thesis by simp
    next
      case (Inr response1)
      with d obtain cookies1 l0 where c: "createLoginSession cx rq user returnTo method clientID ''trusted_device'' cookies1 l0 = (response1, l1)"
        and f: "device_factor cx lib rq user l = ''trusted_device''" and n: "no_session cookies1"
        using assms(2)
        by (auto simp: completeLoginWithTrustedDevice_def device_factor_def apfst_def map_prod_def split: option.splits if_splits sum.splits prod.splits)
      have "response1 = response" "l1 = l'" using assms(1) True d Inr \<open>RequiresChallenge (us_ID user) (lg_mfa l) = _\<close>
        by (auto simp: completeLogin_def)
      with createLoginSession_token [OF c n] assms(3) f show ?thesis by (intro exI [of _ "''trusted_device''"]) simp
    qed
  qed
qed


section \<open>Who signs in\<close>

definition signed_in_ok :: "request_context \<Rightarrow> login_lib \<Rightarrow> login_op \<Rightarrow> login_server \<Rightarrow> string \<Rightarrow> login_server \<Rightarrow> bool" where
  "signed_in_ok cx lib op l token l' =
     (\<exists>user factor. primary_user cx lib op l = Some user \<and> us_Status user = UserActive \<and> factor_ok cx lib op user factor l
        \<and> login_session cx token user factor l')"

lemma completeLogin_signed:
  assumes "completeLogin cx lib rq user returnTo method clientID cookies l2 = (response, l')"
    and "no_session cookies" and "session_token response = Some token" and "lg_mfa l2 = lg_mfa l"
    and "second_factor cx lib op user l = device_factor cx lib rq user l"
    and "primary_user cx lib op l = Some user" and "us_Status user = UserActive"
  shows "signed_in_ok cx lib op l token l'"
proof -
  have "device_factor cx lib rq user l2 = device_factor cx lib rq user l" by (simp only: device_factor_def assms(4))
  with completeLogin_token [OF assms(1-3)] assms(4-7) show ?thesis
    unfolding signed_in_ok_def factor_ok_def by metis
qed

lemma allow_result: "allowRateLimitedRequest cx scope subject policy oauthStyle s = (x, s1) \<Longrightarrow> \<exists>lim. s1 = s\<lparr>srv_rateLimits := lim\<rparr>"
  using allowRateLimitedRequest_frame [of cx scope subject policy oauthStyle s] by simp

lemma allow_attempt_limits:
  "allowLoginAttempt cx rq name s = (x, s1) \<Longrightarrow> \<exists>lim. s1 = s\<lparr>srv_rateLimits := lim\<rparr>"
  "allowMFAAttempt cx rq userID s = (x, s1) \<Longrightarrow> \<exists>lim. s1 = s\<lparr>srv_rateLimits := lim\<rparr>"
  by (auto simp: allowLoginAttempt_def allowLoginSource_def allowMFAAttempt_def allow_both_def Let_def
      split: prod.splits option.splits dest!: allow_result)

lemma allow_limits:
  assumes "on_core (allowLoginAttempt cx rq name) l = (x, l1)"
  obtains lim where "l1 = l\<lparr>lg_core := (lg_core l)\<lparr>srv_rateLimits := lim\<rparr>\<rparr>"
  using assms by (auto simp: on_core_def split: prod.splits dest!: allow_attempt_limits)

lemma allow_mfa_limits:
  assumes "on_core (allowMFAAttempt cx rq userID) l = (x, l1)"
  obtains lim where "l1 = l\<lparr>lg_core := (lg_core l)\<lparr>srv_rateLimits := lim\<rparr>\<rparr>"
  using assms by (auto simp: on_core_def split: prod.splits dest!: allow_attempt_limits)

lemma Authenticate_active:
  "Authenticate idkey sha random now name password r = (Inr user, r') \<Longrightarrow> us_Status user = UserActive"
  by (auto simp: Authenticate_def authenticate_failed_def authenticate_accepted_def Let_def split: sum.splits prod.splits if_splits)

lemma password_signed:
  assumes "loginPassword cx lib rq l = (response, l')" and "session_token response = Some token"
  shows "signed_in_ok cx lib (PasswordLogin rq) l token l'"
proof -
  let ?auth = "\<lambda>post r. Authenticate (lx_idkey lib) (cx_sha256 cx) (cx_random cx 14) (cx_now cx) (Form_Get ''username'' post rq)
    (Form_Get ''password'' post rq) r"
  from assms obtain post l1 user r clientID where p: "posted rq = Some post"
    and a: "on_core (allowLoginAttempt cx rq (Form_Get ''username'' post rq)) l = (None, l1)"
    and u: "?auth post (srv_users (lg_core l1)) = (Inr user, r)"
    and c: "completeLogin cx lib rq user (return_or_portal (Form_Get ''continue'' post rq)) ''password'' clientID []
      (l1\<lparr>lg_core := (lg_core l1)\<lparr>srv_users := r\<rparr>\<rparr>) = (response, l')"
    by (auto simp: loginPassword_def posted_def on_core_def Let_def split: option.splits if_splits sum.splits prod.splits)
  obtain lim where l1: "l1 = l\<lparr>lg_core := (lg_core l)\<lparr>srv_rateLimits := lim\<rparr>\<rparr>" using a by (rule allow_limits)
  show ?thesis
    by (rule completeLogin_signed [OF c _ assms(2)])
      (use l1 u p Authenticate_active [OF u] in \<open>simp_all add: found_def\<close>)
qed

lemma finish_federated_signed:
  assumes "finish_federated cx lib rq profile returnTo method clientID cookies l2 = (response, l')"
    and "no_session cookies" and "session_token response = Some token" and "lg_mfa l2 = lg_mfa l"
    and "srv_users (lg_core l2) = srv_users (lg_core l)"
    and "\<And>user. second_factor cx lib op user l = device_factor cx lib rq user l"
    and "primary_user cx lib op l = resolved cx profile l"
  shows "signed_in_ok cx lib op l token l'"
proof -
  let ?resolve = "ResolveExternalIdentity (cx_sha256 cx) (cx_random cx 15) (cx_random cx 16) (cx_random cx 17) profile (cx_now cx)"
  obtain user r where u: "?resolve (srv_users (lg_core l2)) = (Inr user, r)" and st: "us_Status user = UserActive"
    and c: "completeLogin cx lib rq user returnTo method clientID cookies (l2\<lparr>lg_core := (lg_core l2)\<lparr>srv_users := r\<rparr>\<rparr>) = (response, l')"
    using assms(1-3) by (auto simp: finish_federated_def resolve_profile_def on_core_def split: sum.splits prod.splits if_splits)
  show ?thesis
    by (rule completeLogin_signed [OF c assms(2,3)]) (use assms u st in \<open>simp_all add: found_def\<close>)
qed

lemma ldap_signed:
  assumes "loginLDAP cx lib rq l = (response, l')" and "session_token response = Some token"
  shows "signed_in_ok cx lib (LDAPLogin rq) l token l'"
proof -
  from assms obtain post l1 authenticator profile clientID where p: "posted rq = Some post"
    and a: "on_core (allowLoginAttempt cx rq (Form_Get ''username'' post rq)) l = (None, l1)"
    and d: "ldapAuthenticatorForLogin lib (TrimSpace (Form_Get ''source_id'' post rq))
      (loginClient cx (return_or_portal (Form_Get ''continue'' post rq)) (lg_core l)) l = Inr authenticator"
    and u: "LDAP_Authenticate (lx_ldap lib) authenticator (Form_Get ''username'' post rq) (Form_Get ''password'' post rq) = Inr profile"
    and c: "finish_federated cx lib rq profile (return_or_portal (Form_Get ''continue'' post rq)) ''ldap'' clientID [] l1 = (response, l')"
    by (auto simp: loginLDAP_def posted_def Let_def split: option.splits if_splits sum.splits prod.splits)
  obtain lim where l1: "l1 = l\<lparr>lg_core := (lg_core l)\<lparr>srv_rateLimits := lim\<rparr>\<rparr>" using a by (rule allow_limits)
  show ?thesis
    by (rule finish_federated_signed [OF c _ assms(2)]) (use l1 p d u in simp_all)
qed


lemma keep_authenticator_frame [simp]:
  "lg_mfa (keep_authenticator sourceID a l) = lg_mfa l" "lg_core (keep_authenticator sourceID a l) = lg_core l"
  by (simp_all add: keep_authenticator_def)

lemma transaction_frame:
  "externalOIDCTransaction cx rq s = (x, s1) \<Longrightarrow> \<exists>sg. s1 = s\<lparr>srv_signer := sg\<rparr>"
  "mfaLoginTransaction cx rq s = (y, s1) \<Longrightarrow> \<exists>sg. s1 = s\<lparr>srv_signer := sg\<rparr>"
proof -
  have same: "\<exists>sg. s = s\<lparr>srv_signer := sg\<rparr>" by (rule exI [of _ "srv_signer s"]) simp
  show "externalOIDCTransaction cx rq s = (x, s1) \<Longrightarrow> \<exists>sg. s1 = s\<lparr>srv_signer := sg\<rparr>"
    using same by (auto simp: externalOIDCTransaction_def split: option.splits sum.splits prod.splits)
  show "mfaLoginTransaction cx rq s = (y, s1) \<Longrightarrow> \<exists>sg. s1 = s\<lparr>srv_signer := sg\<rparr>"
    using same by (auto simp: mfaLoginTransaction_def split: option.splits sum.splits prod.splits)
qed

lemma callback_signed:
  assumes "loginOIDCCallback cx lib rq l = (response, l')" and "session_token response = Some token"
  shows "signed_in_ok cx lib (OIDCCallback rq) l token l'"
proof -
  let ?clear = "[clearCookie externalOIDCCookieName]"
  have clear: "no_session ?clear" by simp
  from assms(1) obtain x s1 where t: "externalOIDCTransaction cx rq (lg_core l) = (x, s1)" by fastforce
  obtain sg where s1: "s1 = (lg_core l)\<lparr>srv_signer := sg\<rparr>" using transaction_frame(1) [OF t] by auto
  define l1 where "l1 = l\<lparr>lg_core := s1\<rparr>"
  from assms(2) obtain cs where x: "x = Some cs"
    using assms(1) t by (cases x) (auto simp: loginOIDCCallback_def on_core_def session_token_def)
  let ?registered = "loginClient cx (claim_string ''continue'' cs) (lg_core l1)"
  obtain authenticator where d: "oidcAuthenticatorForLogin cx lib (claim_string ''source_id'' cs) ?registered l1 = Inr authenticator"
    using assms t x
    by (cases "oidcAuthenticatorForLogin cx lib (claim_string ''source_id'' cs) ?registered l1")
      (auto simp: loginOIDCCallback_def on_core_def session_token_def l1_def Let_def)
  obtain res a where e: "OIDC_Exchange (lx_oidc lib) (Get ''code'' (rq_Query rq)) (claim_string ''nonce'' cs)
    (claim_string ''verifier'' cs) authenticator = (res, a)" by fastforce
  obtain profile where res: "res = Inr profile"
    using assms t x d e clear
    by (cases res) (auto simp: loginOIDCCallback_def on_core_def l1_def Let_def split: if_splits)
  have c: "finish_federated cx lib rq profile (claim_string ''continue'' cs) ''oidc'' (case ?registered of None \<Rightarrow> [] | Some c \<Rightarrow> cl_ID c) ?clear
    (keep_authenticator (claim_string ''source_id'' cs) a l1) = (response, l')"
    using assms t x d e res clear by (auto simp: loginOIDCCallback_def on_core_def l1_def Let_def split: if_splits)
  show ?thesis
    by (rule finish_federated_signed [OF c clear assms(2)]) (use s1 t x d e res in \<open>simp_all add: l1_def\<close>)
qed

lemma active_user_Some: "active_user userID s = Some user \<longleftrightarrow> User_Find userID (srv_users s) = Inr user \<and> us_Status user = UserActive"
  by (auto simp: active_user_def split: sum.splits)

lemma mfa_accepted_token:
  assumes "mfa_login_accepted cx lib rq rememberDevice userID returnTo method clientID l = (response, l')"
    and "session_token response = Some token"
  obtains user where "User_Find userID (srv_users (lg_core l)) = Inr user" "us_Status user = UserActive"
    "login_session cx token user ''otp'' l'"
proof (cases "active_user userID (lg_core l)")
  case None
  with assms show ?thesis by (auto simp: mfa_login_accepted_def session_token_def Let_def)
next
  case (Some user)
  obtain cookies l1 where "createLoginSession cx rq user returnTo method clientID ''otp'' cookies l1 = (response, l')" "no_session cookies"
    using assms(1) Some by (auto simp: mfa_login_accepted_def Let_def split: if_splits sum.splits prod.splits)
  from createLoginSession_token [OF this assms(2)] Some that show ?thesis by (auto simp: active_user_Some)
qed

lemma verify_signed:
  assumes "mfaLoginVerify cx lib rq l = (response, l')" and "session_token response = Some token"
  shows "signed_in_ok cx lib (VerifyMFA rq) l token l'"
proof -
  obtain post where p: "posted rq = Some post"
    using assms by (cases "posted rq") (auto simp: mfaLoginVerify_def posted_def split: option.splits if_splits)
  obtain x s1 where t: "mfaLoginTransaction cx rq (lg_core l) = (x, s1)" by fastforce
  obtain sg where s1: "s1 = (lg_core l)\<lparr>srv_signer := sg\<rparr>" using transaction_frame(2) [OF t] by auto
  obtain userID returnTo how clientID where x: "x = Some (userID, returnTo, how, clientID)"
    using assms p t by (cases x) (auto simp: mfaLoginVerify_def posted_def on_core_def session_token_def split: option.splits if_splits)
  obtain l2 lim where l2: "on_core (allowMFAAttempt cx rq userID) (l\<lparr>lg_core := s1\<rparr>) = (None, l2)"
    "l2 = l\<lparr>lg_core := s1\<lparr>srv_rateLimits := lim\<rparr>\<rparr>"
  proof -
    obtain y l2 where y: "on_core (allowMFAAttempt cx rq userID) (l\<lparr>lg_core := s1\<rparr>) = (y, l2)" by fastforce
    have "y = None" using assms p t x y
      by (cases y) (auto simp: mfaLoginVerify_def posted_def on_core_def split: option.splits if_splits prod.splits)
    with y allow_mfa_limits [OF y] that show ?thesis by auto
  qed
  have m: "lg_mfa l2 = lg_mfa l" "srv_users (lg_core l2) = srv_users (lg_core l)" using l2(2) s1 by simp_all
  obtain res m' where v: "MFA_Verify (lx_mfa lib) (cx_now cx) userID (Form_Get ''code'' post rq) (lg_mfa l2) = (res, m')" by fastforce
  have start: "rq_PostForm rq = Some post" "validCSRF (Form_Get ''csrf_token'' post rq) rq" "on_core (mfaLoginTransaction cx rq) l = (x, l\<lparr>lg_core := s1\<rparr>)"
    using p t by (auto simp: posted_def on_core_def split: option.splits if_splits)
  obtain z where res: "res = Inr z"
    using assms start x l2(1) v by (cases res) (auto simp: mfaLoginVerify_def Let_def)
  have c: "mfa_login_accepted cx lib rq (Form_Get ''remember_device'' post rq = ''on'') userID returnTo how clientID (l2\<lparr>lg_mfa := m'\<rparr>) = (response, l')"
    using assms(1) start x l2(1) v res by (simp add: mfaLoginVerify_def Let_def)
  obtain user where "User_Find userID (srv_users (lg_core l2)) = Inr user" "us_Status user = UserActive" "login_session cx token user ''otp'' l'"
    using mfa_accepted_token [OF c assms(2)] by auto
  then show ?thesis
    unfolding signed_in_ok_def factor_ok_def using p t x m v res
    by (intro exI [of _ user] exI [of _ "''otp''"]) (simp add: found_def)
qed

lemma served_signed:
  assumes "login_serve cx lib op l = (response, l')" and "session_token response = Some token"
  shows "signed_in_ok cx lib op l token l'"
proof (cases op)
  case (VisitLogin rq)
  with assms show ?thesis by (auto simp: loginPage_def)
next
  case (VisitSuccess rq)
  with assms show ?thesis by (auto simp: loginSuccessPage_def Let_def split: prod.splits option.splits)
next
  case (StartOIDC rq)
  with assms show ?thesis
    by (auto simp: loginOIDC_def start_oidc_def session_token_def plain_def Let_def split: prod.splits option.splits sum.splits if_splits)
next
  case (VisitMFA rq)
  with assms show ?thesis by (auto simp: mfaLoginPage_def session_token_record split: prod.splits option.splits)
qed (use assms password_signed ldap_signed callback_signed verify_signed in auto)


section \<open>Where the browser is sent\<close>

definition local_redirect :: "reply \<Rightarrow> bool" where
  "local_redirect r = (case r of
     RedirectPath path q \<Rightarrow> path \<in> set [''/login'', ''/login/mfa'', ''/login/success''] \<and> list_all (\<lambda>(k, vs). list_all (\<lambda>v. validatedReturnTo v \<noteq> []) vs) q
   | RedirectURL url \<Rightarrow> False
   | _ \<Rightarrow> True)"

lemma portal_ok: "validatedReturnTo ''/portal'' \<noteq> []"
  by code_simp

lemma return_or_portal_ok: "validatedReturnTo (return_or_portal v) \<noteq> []"
  using validated_again [of v] portal_ok by (auto simp: return_or_portal_def Let_def)

lemma local_plain [simp]: "rp_Reply (plain r) = r"
  by (simp add: plain_def)

lemma local_refusal: "allowRateLimitedRequest cx scope subject policy oauthStyle s = (Some refusal, s1) \<Longrightarrow> local_redirect refusal"
  by (auto simp: allowRateLimitedRequest_def Let_def rate_refusal_def local_redirect_def split: sum.splits prod.splits if_splits)

lemma local_refusals:
  "on_core (allowLoginAttempt cx rq name) l = (Some refusal, l1) \<Longrightarrow> local_redirect refusal"
  "on_core (allowMFAAttempt cx rq userID) l = (Some refusal, l1) \<Longrightarrow> local_redirect refusal"
  by (auto simp: on_core_def allowLoginAttempt_def allowLoginSource_def allowMFAAttempt_def allow_both_def Let_def
      split: prod.splits option.splits dest!: local_refusal)

lemma local_render [simp]:
  "local_redirect (rp_Reply (renderLoginError cx lib rq returnTo message cookies l))"
  "local_redirect (rp_Reply (render_with_csrf cx rq page shown cookies))"
  "local_redirect (rp_Reply (fst (loginPage cx lib rq l)))"
  by (auto simp: renderLoginError_def render_login_def render_with_csrf_def loginPage_def local_redirect_def split: option.split)

lemma local_createLoginSession:
  "validatedReturnTo returnTo \<noteq> [] \<Longrightarrow> local_redirect (rp_Reply (fst (createLoginSession cx rq user returnTo method clientID factor cookies l)))"
  by (auto simp: createLoginSession_def loginSuccessURL_def local_redirect_def split: prod.split sum.split)

lemma local_completeLogin:
  assumes "validatedReturnTo returnTo \<noteq> []"
  shows "local_redirect (rp_Reply (fst (completeLogin cx lib rq user returnTo method clientID cookies l)))"
proof -
  have "local_redirect (rp_Reply (fst (beginMFAChallenge cx userID returnTo method clientID cookies1 l1)))" for userID cookies1 l1
    by (auto simp: beginMFAChallenge_def local_redirect_def split: prod.split sum.split)
  moreover have "local_redirect (rp_Reply response)"
    if d: "completeLoginWithTrustedDevice cx lib rq user returnTo method clientID cookies l = (Inr response, l1)" for response l1
  proof -
    from d obtain cookies1 l0 where "createLoginSession cx rq user returnTo method clientID ''trusted_device'' cookies1 l0 = (response, l1)"
      by (auto simp: completeLoginWithTrustedDevice_def apfst_def map_prod_def split: option.splits if_splits sum.splits prod.splits)
    with local_createLoginSession [OF assms] show ?thesis by (metis fst_conv)
  qed
  ultimately show ?thesis
    using local_createLoginSession [OF assms]
    by (auto simp: completeLogin_def local_redirect_def [of "Problem _ _"] split: sum.split prod.split)
qed

lemma local_source_error [simp]: "local_redirect (writeLoginSourceError err)"
  by (simp add: writeLoginSourceError_def local_redirect_def)

lemma local_problem [simp]: "local_redirect (Problem status code)" "local_redirect (Rendered page shown)"
  by (simp_all add: local_redirect_def)

lemma local_finish_federated:
  "validatedReturnTo returnTo \<noteq> [] \<Longrightarrow> local_redirect (rp_Reply (fst (finish_federated cx lib rq profile returnTo method clientID cookies l)))"
  by (auto simp: finish_federated_def split: prod.split sum.split intro: local_completeLogin)

lemma local_password: "local_redirect (rp_Reply (fst (loginPassword cx lib rq l)))"
  by (auto simp: loginPassword_def Let_def split: option.split prod.split sum.split intro: local_refusals local_completeLogin [OF return_or_portal_ok])

lemma local_ldap: "local_redirect (rp_Reply (fst (loginLDAP cx lib rq l)))"
  by (auto simp: loginLDAP_def Let_def split: option.split prod.split sum.split intro: local_refusals local_finish_federated [OF return_or_portal_ok])

lemma transaction_return:
  "on_core (externalOIDCTransaction cx rq) l = (Some cs, l1) \<Longrightarrow> validatedReturnTo (claim_string ''continue'' cs) \<noteq> []"
  "on_core (mfaLoginTransaction cx rq) l = (Some (userID, returnTo, method, clientID), l1) \<Longrightarrow> validatedReturnTo returnTo \<noteq> []"
  by (auto simp: on_core_def externalOIDCTransaction_def validExternalOIDCClaims_def mfaLoginTransaction_def mfa_claims_ok_def
      split: option.splits prod.splits sum.splits if_splits)

lemma local_callback: "local_redirect (rp_Reply (fst (loginOIDCCallback cx lib rq l)))"
  by (auto simp: loginOIDCCallback_def Let_def split: option.split prod.split sum.split intro: local_finish_federated [OF transaction_return(1)])

lemma local_verify: "local_redirect (rp_Reply (fst (mfaLoginVerify cx lib rq l)))"
  by (auto simp: mfaLoginVerify_def mfa_login_accepted_def Let_def split: option.split prod.split sum.split
      intro: local_refusals local_createLoginSession [OF transaction_return(2)])

lemma served_local:
  assumes "login_serve cx lib op l = (response, l')" and "\<And>rq. op \<noteq> StartOIDC rq"
  shows "local_redirect (rp_Reply response)"
proof (cases op)
  case (VisitSuccess rq)
  with assms return_or_portal_ok show ?thesis
    by (auto simp: loginSuccessPage_def Let_def local_redirect_def split: prod.splits option.splits)
next
  case (VisitMFA rq)
  with assms show ?thesis by (auto simp: mfaLoginPage_def split: prod.splits option.splits)
next
  case (PasswordLogin rq)
  with assms local_password [of cx lib rq l] show ?thesis by simp
next
  case (LDAPLogin rq)
  with assms local_ldap [of cx lib rq l] show ?thesis by simp
next
  case (OIDCCallback rq)
  with assms local_callback [of cx lib rq l] show ?thesis by simp
next
  case (VerifyMFA rq)
  with assms local_verify [of cx lib rq l] show ?thesis by simp
next
  case (VisitLogin rq)
  with assms local_render(3) [of cx lib rq l] show ?thesis by simp
qed (use assms in simp)


section \<open>Properties\<close>

text \<open>C7: Nobody is signed in without credentials, and no user with a second factor without it. If a response of the login
  pages sets the session cookie, then the request carried the credentials of an active user: a password that fits with a valid form
  token, an entry of the directory, an identity the OpenID provider confirmed for a transaction this server signed and the browser
  returned, or a signed transaction waiting for a code. The session stored under the cookie belongs to that user. Unless the user
  has no second factor enabled, the request also proved one, by a code or a trusted device, and the session is of the second
  assurance level and names it; a session of a request without one is of the first level.\<close>
theorem sign_in_is_authenticated:
  assumes "login_serve cx lib op l = (response, l')" and "session_token response = Some token"
  shows "\<exists>user factor. primary_user cx lib op l = Some user \<and> us_Status user = UserActive
    \<and> (if factor = [] then (case MFA_Find (us_ID user) (ms_repository (lg_mfa l)) of Inl _ \<Rightarrow> True | Inr c \<Rightarrow> \<not> cr_Enabled c)
       else factor = second_factor cx lib op user l)
    \<and> (\<exists>sid record'. map_of (ss_repository (srv_sessions (lg_core l'))) sid = Some record'
         \<and> mr_hash record' = HashToken (cx_sha256 cx) token \<and> se_UserID record' = us_ID user \<and> se_AuthenticatedAt record' = cx_now cx
         \<and> se_AssuranceLevel record' = (if factor = [] then ''urn:certus:aal:1'' else ''urn:certus:aal:2'')
         \<and> (if factor = [] then True else last (se_AuthMethods record') = factor))"
proof -
  obtain user factor where u: "primary_user cx lib op l = Some user" "us_Status user = UserActive"
    and f: "factor_ok cx lib op user factor l" and s: "login_session cx token user factor l'"
    using served_signed [OF assms] by (auto simp: signed_in_ok_def)
  have "factor = [] \<Longrightarrow> (case MFA_Find (us_ID user) (ms_repository (lg_mfa l)) of Inl _ \<Rightarrow> True | Inr c \<Rightarrow> \<not> cr_Enabled c)"
    using f by (auto simp: factor_ok_def RequiresChallenge_def split: sum.splits if_splits)
  with u f s show ?thesis
    unfolding login_session_def factor_ok_def assurance_level_def
    by (intro exI [of _ user] exI [of _ factor]) (cases "factor = []"; simp)
qed

text \<open>C13: No redirect of the login pages leaves the server, apart from the one to the OpenID provider that starts such a sign-in:
  every other page redirects to the login page, the code page or the success page, and the address such a redirect carries along
  is one that \<open>validatedReturnTo\<close> accepts. This includes the addresses from the forms and from the signed transactions.\<close>
theorem login_redirects_stay_local:
  assumes "login_serve cx lib op l = (response, l')" and "\<And>rq. op \<noteq> StartOIDC rq"
  shows "case rp_Reply response of
      RedirectPath path q \<Rightarrow> path \<in> set [''/login'', ''/login/mfa'', ''/login/success'']
        \<and> list_all (\<lambda>(k, vs). list_all (\<lambda>v. validatedReturnTo v \<noteq> []) vs) q
    | RedirectURL url \<Rightarrow> False
    | _ \<Rightarrow> True"
  using served_local [OF assms] by (simp add: local_redirect_def)



section \<open>Witnesses\<close>

definition demo_device_token :: string where
  "demo_device_token = replicate 40 (CHR ''d'')"

definition demo_password_hash :: string where
  "demo_password_hash = (case hashPassword demo_idkey (Some (replicate 16 0)) ''correct horse'' of Inl _ \<Rightarrow> [] | Inr h \<Rightarrow> h)"

definition demo_password_users :: UserRepository where
  "demo_password_users = (NewMemoryUserRepository [demo_person])\<lparr>UserRepository.credentials :=
     [(''u1'', \<lparr>pc_UserID = ''u1'', pc_Hash = demo_password_hash, pc_FailedAttempts = 0, pc_LockedUntil = None\<rparr>)]\<rparr>"

definition demo_two_factor :: MFAService where
  "demo_two_factor = demo_enrolled\<lparr>ms_repository := (ms_repository demo_enrolled)\<lparr>trustedDevices :=
     [(bytes_of demo_device_token, \<lparr>td_UserID = ''u1'', td_TokenHash = bytes_of demo_device_token, td_UserAgentHash = [], td_CreatedAt = 1,
        td_LastUsedAt = 1, td_ExpiresAt = 1000\<rparr>)]\<rparr>\<rparr>"

definition demo_login_lib :: login_lib where
  "demo_login_lib = \<lparr>lx_idkey = demo_idkey, lx_mfa = demo_crypto,
     lx_ldap = \<lparr>ld_DialURL = (\<lambda>_. False), ld_StartTLS = (\<lambda>_. False), ld_Bind = (\<lambda>_ _ _. False), ld_Search = (\<lambda>_ _ _ _ _. None), ld_EscapeFilter = (\<lambda>s. s)\<rparr>,
     lx_oidc = \<lparr>od_NewProvider = (\<lambda>_. False), od_AuthCodeURL = (\<lambda>_ _ _ _. []), od_Exchange = (\<lambda>_ _ _. None), od_Verify = (\<lambda>_ _ _. None)\<rparr>,
     lx_RegistrationEnabled = False\<rparr>"

definition demo_login_server :: login_server where
  "demo_login_server = \<lparr>lg_core = demo_server\<lparr>srv_users := demo_password_users\<rparr>, lg_mfa = demo_two_factor,
     lg_identitySources = NewSourceService (NewMemorySourceRepository []) (demo_ring ''k1''),
     lg_ldap = \<lparr>lc_ProviderID = [], lc_Label = [], lc_URL = [], lc_StartTLS = False, lc_BaseDN = [], lc_BindDN = [], lc_BindPassword = [],
       lc_UserFilter = [], lc_UsernameAttribute = [], lc_DisplayNameAttribute = [], lc_EmailAttribute = []\<rparr>,
     lg_externalOIDC = NewOIDCAuthenticator \<lparr>oc_ProviderID = [], oc_Issuer = [], oc_ClientID = [], oc_ClientSecret = [], oc_Label = [], oc_Scopes = []\<rparr> []\<rparr>"

definition demo_password_request :: request where
  "demo_password_request = (demo_request [(''csrf_token'', [demo_csrf]), (''username'', [''Ann'']), (''password'', [''correct horse'']),
     (''continue'', [''/account''])])\<lparr>rq_Cookies := [(csrfCookieName, demo_csrf), (trustedDeviceCookieName, demo_device_token)]\<rparr>"

lemma demo_login_allowed: "on_core (allowLoginAttempt (demo_cx now) rq name) l = (None, l)"
  by (simp add: on_core_def allowLoginAttempt_def allowLoginSource_def allowRateLimitedRequest_def Allow_def Policy_Enabled_def demo_cx_def Let_def)

lemma demo_password_ok:
  "fst (Authenticate demo_idkey (\<lambda>b. b) (Some (replicate 16 7)) 100 ''Ann'' ''correct horse'' demo_password_users) = Inr demo_person"
proof -
  have h: "hashPassword demo_idkey (Some (replicate 16 0)) ''correct horse'' = Inr demo_password_hash"
    by (simp add: demo_password_hash_def hashPassword_def Let_def)
  have "verifyPassword demo_idkey demo_password_hash ''correct horse'' = Inr True"
    using verify_hashed [OF _ demo_idkey_length h, of "''correct horse''"] by simp
  with hashed_not_legacy [OF h] have v: "verifyStoredPassword demo_idkey (\<lambda>b. b) demo_password_hash ''correct horse'' 100 = Inr (True, False)"
    by (simp add: verifyStoredPassword_def)
  have "EqualFold (us_Username demo_person) (ToLower (TrimSpace ''Ann''))" "us_ID demo_person = ''u1''" "us_Status demo_person = UserActive"
    "map snd (users (NewMemoryUserRepository [demo_person])) = [demo_person]" by code_simp+
  then have "FindPasswordByUsername (ToLower (TrimSpace ''Ann'')) demo_password_users =
      Inr (demo_person, \<lparr>pc_UserID = ''u1'', pc_Hash = demo_password_hash, pc_FailedAttempts = 0, pc_LockedUntil = None\<rparr>)"
    by (simp add: FindPasswordByUsername_def demo_password_users_def)
  with v \<open>us_Status demo_person = UserActive\<close> show ?thesis
    by (simp add: Authenticate_def authenticate_accepted_def RecordPasswordSuccess_def demo_password_users_def)
qed

lemma demo_challenge: "RequiresChallenge ''u1'' demo_two_factor = Inr True"
  by code_simp

lemma demo_device_ok:
  "\<exists>d. fst (UseTrustedDevice demo_crypto (Some (replicate 16 7)) 100 ''u1'' demo_device_token [] demo_two_factor) = Inr (Some d)"
proof -
  have "(case fst (UseTrustedDevice demo_crypto (Some (replicate 16 7)) 100 ''u1'' demo_device_token [] demo_two_factor) of
      Inr (Some d) \<Rightarrow> True | _ \<Rightarrow> False)" by code_simp
  then show ?thesis by (auto split: sum.splits option.splits)
qed

lemma demo_return: "return_or_portal ''/account'' = ''/account''" "Parse ''/account'' = Some (empty_url\<lparr>u_Path := ''/account''\<rparr>)"
  by code_simp+

abbreviation demo_password_form :: Values where
  "demo_password_form \<equiv> [(''csrf_token'', [demo_csrf]), (''username'', [''Ann'']), (''password'', [''correct horse'']), (''continue'', [''/account''])]"

lemma demo_password_request_facts:
  "rq_PostForm demo_password_request = Some demo_password_form" "Form_Get ''csrf_token'' demo_password_form demo_password_request = demo_csrf"
  "Form_Get ''username'' demo_password_form demo_password_request = ''Ann''"
  "Form_Get ''password'' demo_password_form demo_password_request = ''correct horse''"
  "Form_Get ''continue'' demo_password_form demo_password_request = ''/account''"
  "Cookie csrfCookieName demo_password_request = Some demo_csrf"
  "Cookie trustedDeviceCookieName demo_password_request = Some demo_device_token" "rq_UserAgent demo_password_request = []"
  by (simp_all add: demo_password_request_def demo_request_def Form_Get_def values_at_def Cookie_def)

lemma demo_password_csrf: "validCSRF demo_csrf demo_password_request"
  by (simp add: validCSRF_def demo_password_request_facts)

lemma demo_signs_in:
  "\<exists>cookies token l'. login_serve (demo_cx 100) demo_login_lib (PasswordLogin demo_password_request) demo_login_server =
     (\<lparr>rp_Reply = loginSuccessURL ''/account'', rp_Cookies = cookies\<rparr>, l') \<and> session_token \<lparr>rp_Reply = loginSuccessURL ''/account'', rp_Cookies = cookies\<rparr> = Some token"
proof -
  let ?cx = "demo_cx 100" and ?rq = "demo_password_request"
  note rq = demo_password_request_facts and csrf = demo_password_csrf
  have client: "loginClient ?cx ''/account'' s = None" for s by (simp add: loginClient_def demo_return)
  obtain r where auth: "Authenticate demo_idkey (\<lambda>b. b) (Some (replicate 16 7)) 100 ''Ann'' ''correct horse'' demo_password_users = (Inr demo_person, r)"
    using demo_password_ok by (metis prod.collapse)
  obtain d m where dev: "UseTrustedDevice demo_crypto (Some (replicate 16 7)) 100 ''u1'' demo_device_token [] demo_two_factor = (Inr (Some d), m)"
    using demo_device_ok by (metis prod.collapse)
  have trim: "TrimSpace demo_device_token \<noteq> []" by code_simp
  have u: "us_ID demo_person = ''u1''" by (simp add: demo_person_def)
  define l1 where "l1 = demo_login_server\<lparr>lg_core := demo_server\<lparr>srv_users := r\<rparr>\<rparr>"
  have core: "lg_core demo_login_server = demo_server\<lparr>srv_users := demo_password_users\<rparr>" "lg_mfa l1 = demo_two_factor"
    "lx_idkey demo_login_lib = demo_idkey" "lx_mfa demo_login_lib = demo_crypto"
    by (simp_all add: demo_login_server_def demo_login_lib_def l1_def)
  have "loginPassword ?cx demo_login_lib ?rq demo_login_server = completeLogin ?cx demo_login_lib ?rq demo_person ''/account'' ''password'' [] [] l1"
    unfolding loginPassword_def rq option.case Let_def demo_return csrf client client_allows_def demo_login_allowed
    by (simp add: on_core_def core auth l1_def csrf)
  moreover define l2 where "l2 = login_audit ?cx ?rq (auditActor ''u1'') ''login.mfa_trusted_device'' [] OutcomeSuccess None (l1\<lparr>lg_mfa := m\<rparr>)"
  have "completeLogin ?cx demo_login_lib ?rq demo_person ''/account'' ''password'' [] [] l1 =
      createLoginSession ?cx ?rq demo_person ''/account'' ''password'' [] ''trusted_device'' [setTrustedDeviceCookie ?cx d] l2"
    unfolding l2_def completeLogin_def completeLoginWithTrustedDevice_def core rq u demo_challenge
    by (simp add: dev trim apfst_def map_prod_def split: prod.split)
  ultimately show ?thesis
    by (auto simp: createLoginSession_def on_core_def CreateWithMethods_def Session_Create_def RandomToken_def session_token_def Let_def
        split: prod.split)
qed

theorem sign_in_is_authenticated_witness:
  "\<exists>user. primary_user (demo_cx 100) demo_login_lib (PasswordLogin demo_password_request) demo_login_server = Some user
    \<and> (\<exists>sid record'. map_of (ss_repository (srv_sessions (lg_core
           (snd (login_serve (demo_cx 100) demo_login_lib (PasswordLogin demo_password_request) demo_login_server))))) sid = Some record'
         \<and> se_UserID record' = us_ID user
         \<and> se_AssuranceLevel record' = ''urn:certus:aal:2'')"
proof -
  let ?op = "PasswordLogin demo_password_request" and ?l = demo_login_server
  obtain response l' token where s: "login_serve (demo_cx 100) demo_login_lib ?op ?l = (response, l')" "session_token response = Some token"
    using demo_signs_in by metis
  from sign_in_is_authenticated [OF s] obtain user factor where u: "primary_user (demo_cx 100) demo_login_lib ?op ?l = Some user"
    and f: "if factor = [] then (case MFA_Find (us_ID user) (ms_repository (lg_mfa ?l)) of Inl _ \<Rightarrow> True | Inr c \<Rightarrow> \<not> cr_Enabled c)
       else factor = second_factor (demo_cx 100) demo_login_lib ?op user ?l"
    and r: "\<exists>sid record'. map_of (ss_repository (srv_sessions (lg_core l'))) sid = Some record' \<and> se_UserID record' = us_ID user
      \<and> se_AssuranceLevel record' = (if factor = [] then ''urn:certus:aal:1'' else ''urn:certus:aal:2'')"
    by blast
  have "primary_user (demo_cx 100) demo_login_lib ?op ?l = Some demo_person"
    using demo_password_ok
    by (simp add: posted_def demo_password_request_facts demo_password_csrf demo_login_lib_def demo_login_server_def found_def)
  with u have "us_ID user = ''u1''" by (simp add: demo_person_def)
  moreover have "case MFA_Find ''u1'' (ms_repository demo_two_factor) of Inl _ \<Rightarrow> False | Inr c \<Rightarrow> cr_Enabled c" by code_simp
  ultimately have "factor \<noteq> []" using f by (auto simp: demo_login_server_def split: sum.splits)
  with r have "\<exists>sid record'. map_of (ss_repository (srv_sessions (lg_core l'))) sid = Some record' \<and> se_UserID record' = us_ID user
      \<and> se_AssuranceLevel record' = ''urn:certus:aal:2''" by simp
  with u s(1) show ?thesis by (intro exI [of _ user] conjI) (simp_all only: snd_conv)
qed


theorem login_redirects_stay_local_witness:
  "\<exists>path q. rp_Reply (fst (login_serve (demo_cx 100) demo_login_lib (PasswordLogin demo_password_request) demo_login_server)) = RedirectPath path q
    \<and> path \<in> set [''/login'', ''/login/mfa'', ''/login/success''] \<and> list_all (\<lambda>(k, vs). list_all (\<lambda>v. validatedReturnTo v \<noteq> []) vs) q"
proof -
  obtain cookies l' where s: "login_serve (demo_cx 100) demo_login_lib (PasswordLogin demo_password_request) demo_login_server =
      (\<lparr>rp_Reply = loginSuccessURL ''/account'', rp_Cookies = cookies\<rparr>, l')" using demo_signs_in by blast
  from login_redirects_stay_local [OF this] show ?thesis
    unfolding s by (simp add: loginSuccessURL_def)
qed

definition demo_signing_cx :: "time \<Rightarrow> request_context" where
  "demo_signing_cx now = (demo_cx now)\<lparr>cx_lib := demo_rsa\<rparr>"

definition demo_signing_server :: server where
  "demo_signing_server = demo_server\<lparr>srv_keys := demo_keys, srv_signer := demo_signer\<rparr>"


end
