(* ===== verification/Request_Body.thy ===== *)
theory Request_Body
  imports Go_JSON
begin

text \<open>
  Request bodies: \<open>decodeJSON\<close> of \<open>internal/platform/http/admin_users.go\<close> with what it uses of \<open>encoding/json\<close>, a strict
  \<open>Decoder\<close> that fills a struct. A struct type is the list of its JSON names, each with the function that stores a value in its
  field. As in Go, a name is matched exactly first and then without regard to case, \<open>null\<close> leaves a string alone and empties a
  pointer or a slice, members are stored in the order they come, a name without field is an error, and so is a value of another kind.
  A slice given twice starts from an empty one.
\<close>

section \<open>Decoding into a struct\<close>

type_synonym 'r fields = "(string \<times> (json \<Rightarrow> 'r \<Rightarrow> 'r option)) list"

definition field_for :: "'r fields \<Rightarrow> string \<Rightarrow> (json \<Rightarrow> 'r \<Rightarrow> 'r option) option" where
  "field_for fs key =
     (case map_of fs key of
        Some store \<Rightarrow> Some store
      | None \<Rightarrow> map_option snd (find (\<lambda>(name, _). EqualFold name key) fs))"

fun decode_members :: "'r fields \<Rightarrow> (string \<times> json) list \<Rightarrow> 'r \<Rightarrow> 'r option" where
  "decode_members fs [] r = Some r"
| "decode_members fs ((key, v) # kvs) r =
     (case field_for fs key of
        None \<Rightarrow> None
      | Some store \<Rightarrow> (case store v r of None \<Rightarrow> None | Some r' \<Rightarrow> decode_members fs kvs r'))"

definition decode_struct :: "'r fields \<Rightarrow> json \<Rightarrow> 'r \<Rightarrow> 'r option" where
  "decode_struct fs v r =
     (case v of JNull \<Rightarrow> Some r | JObj kvs \<Rightarrow> decode_members fs kvs r | _ \<Rightarrow> None)"

text \<open>Fields of type \<open>string\<close>, \<open>*string\<close>, \<open>bool\<close>, \<open>[]string\<close> and a slice of structs; the update of the field is given.\<close>

definition string_field :: "((string \<Rightarrow> string) \<Rightarrow> 'r \<Rightarrow> 'r) \<Rightarrow> json \<Rightarrow> 'r \<Rightarrow> 'r option" where
  "string_field update v r =
     (case v of JNull \<Rightarrow> Some r | JStr s \<Rightarrow> Some (update (\<lambda>_. s) r) | _ \<Rightarrow> None)"

definition pointer_field :: "((string option \<Rightarrow> string option) \<Rightarrow> 'r \<Rightarrow> 'r) \<Rightarrow> json \<Rightarrow> 'r \<Rightarrow> 'r option" where
  "pointer_field update v r =
     (case v of JNull \<Rightarrow> Some (update (\<lambda>_. None) r) | JStr s \<Rightarrow> Some (update (\<lambda>_. Some s) r) | _ \<Rightarrow> None)"

definition bool_field :: "((bool \<Rightarrow> bool) \<Rightarrow> 'r \<Rightarrow> 'r) \<Rightarrow> json \<Rightarrow> 'r \<Rightarrow> 'r option" where
  "bool_field update v r =
     (case v of JNull \<Rightarrow> Some r | JBool b \<Rightarrow> Some (update (\<lambda>_. b) r) | _ \<Rightarrow> None)"

fun decode_all :: "(json \<Rightarrow> 'a option) \<Rightarrow> json list \<Rightarrow> 'a list option" where
  "decode_all d [] = Some []"
| "decode_all d (v # vs) =
     (case d v of None \<Rightarrow> None | Some x \<Rightarrow> map_option ((#) x) (decode_all d vs))"

definition slice_field :: "(json \<Rightarrow> 'a option) \<Rightarrow> (('a list \<Rightarrow> 'a list) \<Rightarrow> 'r \<Rightarrow> 'r) \<Rightarrow> json \<Rightarrow> 'r \<Rightarrow> 'r option" where
  "slice_field element update v r =
     (case v of
        JNull \<Rightarrow> Some (update (\<lambda>_. []) r)
      | JArr vs \<Rightarrow> map_option (\<lambda>xs. update (\<lambda>_. xs) r) (decode_all element vs)
      | _ \<Rightarrow> None)"

definition string_element :: "json \<Rightarrow> string option" where
  "string_element v = (case v of JNull \<Rightarrow> Some [] | JStr s \<Rightarrow> Some s | _ \<Rightarrow> None)"

definition strings_field :: "((string list \<Rightarrow> string list) \<Rightarrow> 'r \<Rightarrow> 'r) \<Rightarrow> json \<Rightarrow> 'r \<Rightarrow> 'r option" where
  "strings_field = slice_field string_element"

section \<open>The body of a request\<close>

abbreviation maxRequestBody :: nat where "maxRequestBody \<equiv> 2 ^ 20"

text \<open>\<open>decodeJSON\<close>: the content type, the limit on the body, one value and nothing after it.\<close>

definition decodeJSON :: "'r fields \<Rightarrow> 'r \<Rightarrow> string \<Rightarrow> string \<Rightarrow> 'r option" where
  "decodeJSON fs zero contentType body =
     (if \<not> HasPrefix contentType ''application/json'' then None
      else if length body > maxRequestBody then None
      else case Unmarshal body of None \<Rightarrow> None | Some v \<Rightarrow> decode_struct fs v zero)"

section \<open>What a decoded body says\<close>

text \<open>Every member of an accepted object has a field, up to the case of its name.\<close>

lemma field_for_known: "field_for fs key = Some store \<Longrightarrow> \<exists>name. (name, store) \<in> set fs \<and> EqualFold name key"
  by (auto simp: field_for_def find_Some_iff in_set_conv_nth dest: map_of_SomeD split: option.splits)
    (metis (mono_tags, lifting) EqualFold_refl in_set_conv_nth map_of_SomeD)+

lemma decode_members_known:
  "decode_members fs kvs r = Some r' \<Longrightarrow> (key, v) \<in> set kvs \<Longrightarrow> \<exists>name \<in> fst ` set fs. EqualFold name key"
proof (induction fs kvs r rule: decode_members.induct)
  case (2 fs k w kvs r)
  then obtain store where "field_for fs k = Some store" by (auto split: option.splits)
  from field_for_known [OF this] have "\<exists>name \<in> fst ` set fs. EqualFold name k" by force
  with 2 show ?case by (auto split: option.splits)
qed simp

lemma decode_members_append:
  "decode_members fs (xs @ ys) r = (case decode_members fs xs r of None \<Rightarrow> None | Some r' \<Rightarrow> decode_members fs ys r')"
  by (induction fs xs r rule: decode_members.induct) (auto split: option.splits)

lemma decode_all_strings [simp]: "decode_all string_element (map JStr xs) = Some xs"
  by (induction xs) (auto simp: string_element_def)

lemma decode_all_length: "decode_all d vs = Some xs \<Longrightarrow> length xs = length vs"
  by (induction vs arbitrary: xs) (auto split: option.splits)

lemma decodeJSON_SomeE:
  assumes "decodeJSON fs zero contentType body = Some r"
  obtains v where "Unmarshal body = Some v" "decode_struct fs v zero = Some r"
    "HasPrefix contentType ''application/json''" "length body \<le> maxRequestBody"
  using assms that unfolding decodeJSON_def by (auto simp del: power_numeral split: option.splits if_splits)

lemma decodeJSON_members:
  assumes "decodeJSON fs zero contentType body = Some r"
  shows "Unmarshal body = Some JNull \<and> r = zero
    \<or> (\<exists>kvs. Unmarshal body = Some (JObj kvs) \<and> decode_members fs kvs zero = Some r)"
  using assms by (elim decodeJSON_SomeE) (auto simp: decode_struct_def split: json.splits)

end
