(* ===== verification/Account_Pages.thy ===== *)
theory Account_Pages
  imports Login_Pages Request_Body Administration
begin

text \<open>
  The pages of a signed-in user, from \<open>account.go\<close>, \<open>registration.go\<close>, \<open>email_verification.go\<close> and the account half of
  \<open>mfa.go\<close> in \<open>internal/platform/http\<close>: profile, sessions, authorized applications, password, email and second factor, and the
  registration of an account.

  \<^item> \<open>site\<close> is the whole server: the login pages' server, the administrators and the messages handed to the mailer, oldest
    first. \<open>site_lib\<close> adds what is outside: the mailer (\<open>None\<close> when it is not configured) as the function that says whether it
    delivers a message, the QR code library, a fresh RSA key and settings of the configuration.
  \<^item> \<open>page_request\<close> adds to a request the \<open>X-CSRF-Token\<close> header, the values of the route's pattern and the body of an API call.
  \<^item> A message is its recipient and its link; wording and layout are left out. Times in replies are written by \<open>cx_FormatNano\<close>.
  \<^item> Random draws beyond those of the login pages: 21 the salt of a new password, 22 a reset token, 23 a verification token, 24 the
    identifier of a new user, 26 and 27 the secret and the nonce of a second factor, from 40 on the recovery codes.
\<close>

section \<open>The site\<close>

record Message =
  ml_To :: string
  ml_Link :: string

record site =
  si_login :: login_server
  si_administrators :: AdminRepository
  si_outbox :: "Message list"

record site_lib =
  wl_login :: login_lib
  wl_mailer :: "(Message \<Rightarrow> bool) option"
  wl_QRCode :: "string \<Rightarrow> bool list list option"
  wl_EmailVerificationTTL :: duration
  wl_RequireEmail :: bool
  wl_AdminToken :: string
  wl_GeneratedKey :: "PrivateKey option"

record page_request =
  pq_Request :: request
  pq_CSRFToken :: string
  pq_PathValue :: "string \<Rightarrow> string"
  pq_Body :: string

definition on_login :: "(login_server \<Rightarrow> 'a \<times> login_server) \<Rightarrow> site \<Rightarrow> 'a \<times> site" where
  "on_login f w = (case f (si_login w) of (x, l) \<Rightarrow> (x, w\<lparr>si_login := l\<rparr>))"

definition on_server :: "(server \<Rightarrow> 'a \<times> server) \<Rightarrow> site \<Rightarrow> 'a \<times> site" where
  "on_server f = on_login (on_core f)"

definition on_users :: "(UserRepository \<Rightarrow> 'a \<times> UserRepository) \<Rightarrow> site \<Rightarrow> 'a \<times> site" where
  "on_users f = on_server (\<lambda>s. case f (srv_users s) of (x, r) \<Rightarrow> (x, s\<lparr>srv_users := r\<rparr>))"

definition on_mfa :: "(MFAService \<Rightarrow> 'a \<times> MFAService) \<Rightarrow> site \<Rightarrow> 'a \<times> site" where
  "on_mfa f = on_login (\<lambda>l. case f (lg_mfa l) of (x, m) \<Rightarrow> (x, l\<lparr>lg_mfa := m\<rparr>))"

abbreviation site_server :: "site \<Rightarrow> server" where
  "site_server w \<equiv> lg_core (si_login w)"

abbreviation site_users :: "site \<Rightarrow> UserRepository" where
  "site_users w \<equiv> srv_users (site_server w)"

definition site_audit ::
  "request_context \<Rightarrow> page_request \<Rightarrow> string option \<Rightarrow> string \<Rightarrow> string \<Rightarrow> Outcome \<Rightarrow> (string, json) gomap option \<Rightarrow> site \<Rightarrow> site" where
  "site_audit cx rq actor type clientID outcome details w =
     w\<lparr>si_login := login_audit cx (pq_Request rq) actor type clientID outcome details (si_login w)\<rparr>"

definition body_of :: "'r fields \<Rightarrow> 'r \<Rightarrow> page_request \<Rightarrow> 'r option" where
  "body_of fs zero rq = decodeJSON fs zero (rq_ContentType (pq_Request rq)) (pq_Body rq)"

section \<open>Requests of a signed-in user\<close>

text \<open>\<open>requireCurrentSession\<close> and \<open>requireAccountCSRF\<close>, with what a handler goes on with.\<close>

definition requireCurrentSession ::
  "request_context \<Rightarrow> page_request \<Rightarrow> (Session \<Rightarrow> site \<Rightarrow> response \<times> site) \<Rightarrow> site \<Rightarrow> response \<times> site" where
  "requireCurrentSession cx rq handler w =
     (case on_server (currentSession cx (pq_Request rq)) w of
        (None, w1) \<Rightarrow> (plain (Problem 401 ''unauthorized''), w1)
      | (Some current, w1) \<Rightarrow> handler current w1)"

definition requireAccountCSRF :: "page_request \<Rightarrow> (site \<Rightarrow> response \<times> site) \<Rightarrow> site \<Rightarrow> response \<times> site" where
  "requireAccountCSRF rq handler w =
     (if validCSRF (TrimSpace (pq_CSRFToken rq)) (pq_Request rq) then handler w
      else (plain (Problem 400 ''invalid_csrf''), w))"

definition account_change ::
  "request_context \<Rightarrow> page_request \<Rightarrow> (Session \<Rightarrow> site \<Rightarrow> response \<times> site) \<Rightarrow> site \<Rightarrow> response \<times> site" where
  "account_change cx rq handler =
     requireCurrentSession cx rq (\<lambda>current. requireAccountCSRF rq (handler current))"

text \<open>A reply with the form token of the page.\<close>

definition json_with_csrf :: "request_context \<Rightarrow> page_request \<Rightarrow> int \<Rightarrow> (string \<times> json) list \<Rightarrow> response" where
  "json_with_csrf cx rq status shown =
     (case ensureCSRF cx (pq_Request rq) of
        None \<Rightarrow> plain Aborted
      | Some (token, new) \<Rightarrow> \<lparr>rp_Reply = ReplyJSON status (shown @ [(''csrf_token'', JStr token)]), rp_Cookies = new\<rparr>)"

definition json_time :: "request_context \<Rightarrow> time \<Rightarrow> json" where
  "json_time cx t = JStr (cx_FormatNano cx t)"

definition json_option :: "('a \<Rightarrow> json) \<Rightarrow> 'a option \<Rightarrow> json" where
  "json_option f x = (case x of None \<Rightarrow> JNull | Some y \<Rightarrow> f y)"

definition omit_empty :: "string \<Rightarrow> string \<Rightarrow> (string \<times> json) list" where
  "omit_empty name v = (if v = [] then [] else [(name, JStr v)])"

definition user_fields :: "request_context \<Rightarrow> User \<Rightarrow> (string \<times> json) list" where
  "user_fields cx u =
     [(''id'', JStr (us_ID u)), (''username'', JStr (us_Username u)), (''display_name'', JStr (us_DisplayName u)),
      (''email'', json_option JStr (us_Email u)), (''email_verified'', JBool (us_EmailVerified u)),
      (''status'', JStr (us_Status u)), (''created_at'', json_time cx (us_CreatedAt u)),
      (''updated_at'', json_time cx (us_UpdatedAt u))]"

definition session_fields :: "request_context \<Rightarrow> Session \<Rightarrow> (string \<times> json) list" where
  "session_fields cx s =
     [(''id'', JStr (se_ID s)), (''user_id'', JStr (se_UserID s)), (''authenticated_at'', json_time cx (se_AuthenticatedAt s)),
      (''expires_at'', json_time cx (se_ExpiresAt s)), (''last_seen_at'', json_time cx (se_LastSeenAt s))]
     @ omit_empty ''ip_address'' (se_IPAddress s) @ omit_empty ''user_agent'' (se_UserAgent s)
     @ (case se_RevokedAt s of None \<Rightarrow> [] | Some t \<Rightarrow> [(''revoked_at'', json_time cx t)])
     @ [(''authentication_methods'', JStrs (se_AuthMethods s)), (''assurance_level'', JStr (se_AssuranceLevel s))]"

section \<open>Ending the sessions of a user\<close>

text \<open>The steps the handlers repeat when credentials change: the sessions that end are listed, revoked and cleaned up, and the
  grants of the user are revoked; a failed step is only logged. The number of revoked sessions goes to the audit record.\<close>

definition revoke_listed ::
  "request_context \<Rightarrow> Session list \<Rightarrow> string \<Rightarrow> string \<Rightarrow> server \<Rightarrow> (session_error + nat) \<times> server" where
  "revoke_listed cx ending userID exceptID s =
     (case Service_RevokeAll userID exceptID (cx_now cx) (srv_sessions s) of
        (Inl err, sessions) \<Rightarrow> (Inl err, s\<lparr>srv_sessions := sessions\<rparr>)
      | (Inr n, sessions) \<Rightarrow>
          (Inr n, snd (cleanupRevokedSessions cx (map (\<lambda>x. (se_ID x, se_UserID x)) ending) (s\<lparr>srv_sessions := sessions\<rparr>))))"

definition revoke_user_sessions :: "request_context \<Rightarrow> string \<Rightarrow> string \<Rightarrow> server \<Rightarrow> (session_error + nat) \<times> server" where
  "revoke_user_sessions cx userID exceptID s = revoke_listed cx (sessionsForRevocation cx userID exceptID s) userID exceptID s"

definition revoke_user_tokens :: "request_context \<Rightarrow> string \<Rightarrow> string \<Rightarrow> server \<Rightarrow> server" where
  "revoke_user_tokens cx userID exceptID s =
     s\<lparr>srv_oauth := snd (RevokeUserTokens userID exceptID (cx_now cx) (srv_oauth s))\<rparr>"

definition end_user_sessions :: "request_context \<Rightarrow> string \<Rightarrow> string \<Rightarrow> site \<Rightarrow> nat \<times> site" where
  "end_user_sessions cx userID exceptID =
     on_server (\<lambda>s. case revoke_user_sessions cx userID exceptID s of
       (res, s1) \<Rightarrow> (case res of Inl _ \<Rightarrow> 0 | Inr n \<Rightarrow> n, revoke_user_tokens cx userID exceptID s1))"

definition end_trusted_devices :: "string \<Rightarrow> site \<Rightarrow> nat \<times> site" where
  "end_trusted_devices userID = on_mfa (RevokeTrustedDevices userID)"

section \<open>Account\<close>

definition accountPage :: "request_context \<Rightarrow> page_request \<Rightarrow> site \<Rightarrow> response \<times> site" where
  "accountPage cx rq w =
     (case on_server (currentSession cx (pq_Request rq)) w of
        (None, w1) \<Rightarrow> (plain (RedirectPath ''/login'' [(''continue'', [''/account''])]), w1)
      | (Some _, w1) \<Rightarrow>
          (render_with_csrf cx (pq_Request rq) ''account.html''
             [(''AdminMFARequired'', JBool (Get ''admin_mfa'' (rq_Query (pq_Request rq)) = ''required''))] [], w1))"

definition getAccountProfile :: "request_context \<Rightarrow> page_request \<Rightarrow> site \<Rightarrow> response \<times> site" where
  "getAccountProfile cx rq =
     requireCurrentSession cx rq (\<lambda>current w.
       (case User_Find (se_UserID current) (site_users w) of
          Inl _ \<Rightarrow> plain (Problem 401 ''unauthorized'')
        | Inr user \<Rightarrow> json_with_csrf cx rq 200
            [(''user'', JObj (user_fields cx user)), (''current_session'', JObj (session_fields cx current))], w))"

definition listAccountSessions :: "request_context \<Rightarrow> page_request \<Rightarrow> site \<Rightarrow> response \<times> site" where
  "listAccountSessions cx rq =
     requireCurrentSession cx rq (\<lambda>current w.
       (json_with_csrf cx rq 200
          [(''items'', JArr (map (\<lambda>item. JObj (session_fields cx item @ [(''current'', JBool (se_ID item = se_ID current))]))
             (Service_ListByUser (se_UserID current) (cx_now cx) (srv_sessions (site_server w)))))], w))"

definition revokeAccountSession :: "request_context \<Rightarrow> page_request \<Rightarrow> site \<Rightarrow> response \<times> site" where
  "revokeAccountSession cx rq =
     account_change cx rq (\<lambda>current w.
       let sessionID = pq_PathValue rq ''sessionID''; self = (sessionID = se_ID current) in
       case on_server (\<lambda>s. case Service_RevokeForUser (se_UserID current) sessionID (cx_now cx) (srv_sessions s) of
           (Inl err, sessions) \<Rightarrow> (False, s\<lparr>srv_sessions := sessions\<rparr>)
         | (Inr _, sessions) \<Rightarrow>
             (True, snd (cleanupRevokedSessions cx [(sessionID, se_UserID current)] (s\<lparr>srv_sessions := sessions\<rparr>)))) w of
         (False, w1) \<Rightarrow> (plain (Problem 404 ''not_found''), w1)
       | (True, w1) \<Rightarrow>
           (\<lparr>rp_Reply = NoContent 204, rp_Cookies = (if self then [clearCookie sessionCookieName] else [])\<rparr>,
            site_audit cx rq (auditActor (se_UserID current)) ''session.revoked'' [] OutcomeSuccess
              (Some [(''session_id'', JStr sessionID), (''self'', JBool self)]) w1))"

definition account_consent :: "request_context \<Rightarrow> ClientRepository \<Rightarrow> Consent \<Rightarrow> json" where
  "account_consent cx r value =
     (let (name, description) =
          (case Client_Find (co_ClientID value) r of
             Inl _ \<Rightarrow> (co_ClientID value, [])
           | Inr registered \<Rightarrow> (DisplayName registered, DisplayDescription registered))
      in JObj ([(''client_id'', JStr (co_ClientID value)), (''client_name'', JStr name)] @ omit_empty ''description'' description
           @ [(''scopes'', JStrs (co_Scopes value)), (''granted_at'', json_time cx (co_GrantedAt value)),
              (''updated_at'', json_time cx (co_UpdatedAt value))]))"

definition listAccountConsents :: "request_context \<Rightarrow> page_request \<Rightarrow> site \<Rightarrow> response \<times> site" where
  "listAccountConsents cx rq =
     requireCurrentSession cx rq (\<lambda>current w.
       (json_with_csrf cx rq 200
          [(''items'', JArr (map (account_consent cx (srv_clients (site_server w)))
             (ListConsentsByUser (se_UserID current) (srv_oauth (site_server w)))))], w))"

definition revokeAccountConsent :: "request_context \<Rightarrow> page_request \<Rightarrow> site \<Rightarrow> response \<times> site" where
  "revokeAccountConsent cx rq =
     account_change cx rq (\<lambda>current w.
       let clientID = pq_PathValue rq ''clientID'' in
       case on_server (\<lambda>s. case DeleteConsent (se_UserID current) clientID (cx_now cx) (srv_oauth s) of
           (res, r) \<Rightarrow> (res, s\<lparr>srv_oauth := r\<rparr>)) w of
         (Inl err, w1) \<Rightarrow> (plain (if err = ErrConsentNotFound then Problem 404 ''not_found'' else Problem 500 ''server_error''), w1)
       | (Inr _, w1) \<Rightarrow>
           (plain (NoContent 204),
            site_audit cx rq (auditActor (se_UserID current)) ''oauth.consent.revoked'' clientID OutcomeSuccess None w1))"

section \<open>Passwords\<close>

record password_input =
  pi_CurrentPassword :: string
  pi_NewPassword :: string

definition password_fields :: "password_input fields" where
  "password_fields =
     [(''current_password'', string_field pi_CurrentPassword_update), (''new_password'', string_field pi_NewPassword_update)]"

definition empty_password_input :: password_input where
  "empty_password_input = \<lparr>pi_CurrentPassword = [], pi_NewPassword = []\<rparr>"

definition changeAccountPassword :: "request_context \<Rightarrow> site_lib \<Rightarrow> page_request \<Rightarrow> site \<Rightarrow> response \<times> site" where
  "changeAccountPassword cx lib rq =
     account_change cx rq (\<lambda>current w.
       case User_Find (se_UserID current) (site_users w) of
         Inl _ \<Rightarrow> (plain (Problem 401 ''unauthorized''), w)
       | Inr user \<Rightarrow>
           (case body_of password_fields empty_password_input rq of
              None \<Rightarrow> (plain (Problem 400 ''invalid_request''), w)
            | Some input \<Rightarrow>
                (case on_users (Password_Change (lx_idkey (wl_login lib)) (cx_sha256 cx) (cx_random cx 14) (cx_random cx 21) (cx_now cx)
                      (us_ID user) (us_Username user) (pi_CurrentPassword input) (pi_NewPassword input)) w of
                   (Inl err, w1) \<Rightarrow>
                     if err = ErrInvalidCredentials \<or> err = ErrCredentialLocked
                     then (plain (Problem 400 ''current_password_invalid''),
                           site_audit cx rq (auditActor (se_UserID current)) ''password.changed'' [] OutcomeFailure
                             (Some [(''reason'', JStr ''current_password_invalid'')]) w1)
                     else (plain (Problem 400 ''invalid_password''), w1)
                 | (Inr _, w1) \<Rightarrow>
                     (case end_user_sessions cx (se_UserID current) (se_ID current) w1 of
                        (n, w2) \<Rightarrow>
                          (case end_trusted_devices (se_UserID current) w2 of
                             (d, w3) \<Rightarrow>
                               (\<lparr>rp_Reply = NoContent 204, rp_Cookies = [clearCookie trustedDeviceCookieName]\<rparr>,
                                site_audit cx rq (auditActor (se_UserID current)) ''password.changed'' [] OutcomeSuccess
                                  (Some [(''other_sessions_revoked'', JInt (int n)), (''trusted_devices_revoked'', JInt (int d))]) w3))))))"

record reset_input =
  ri_ResetToken :: string
  ri_NewPassword :: string

definition reset_fields :: "reset_input fields" where
  "reset_fields = [(''reset_token'', string_field ri_ResetToken_update), (''new_password'', string_field ri_NewPassword_update)]"

definition resetAccountPassword :: "request_context \<Rightarrow> site_lib \<Rightarrow> page_request \<Rightarrow> site \<Rightarrow> response \<times> site" where
  "resetAccountPassword cx lib rq w =
     (case body_of reset_fields \<lparr>ri_ResetToken = [], ri_NewPassword = []\<rparr> rq of
        None \<Rightarrow> (plain (Problem 400 ''invalid_request''), w)
      | Some input \<Rightarrow>
          (case on_users (Password_Reset (lx_idkey (wl_login lib)) (cx_sha256 cx) (cx_random cx 21) True (cx_now cx)
                (ri_ResetToken input) (ri_NewPassword input)) w of
             (Inl err, w1) \<Rightarrow>
               if err = ErrInvalidResetToken
               then (plain (Problem 400 ''invalid_reset_token''),
                     site_audit cx rq None ''password.reset'' [] OutcomeFailure (Some [(''reason'', JStr ''invalid_or_expired_token'')]) w1)
               else (plain (Problem 400 ''invalid_password''), w1)
           | (Inr userID, w1) \<Rightarrow>
               (case end_user_sessions cx userID [] w1 of
                  (n, w2) \<Rightarrow>
                    (case end_trusted_devices userID w2 of
                       (d, w3) \<Rightarrow>
                         (\<lparr>rp_Reply = NoContent 204, rp_Cookies = [clearCookie sessionCookieName, clearCookie trustedDeviceCookieName]\<rparr>,
                          site_audit cx rq (auditActor userID) ''password.reset'' [] OutcomeSuccess
                            (Some [(''sessions_revoked'', JInt (int n)), (''trusted_devices_revoked'', JInt (int d))]) w3)))))"

section \<open>Email\<close>

definition buildVerificationMessage :: "request_context \<Rightarrow> string \<Rightarrow> string \<Rightarrow> Message" where
  "buildVerificationMessage cx email token =
     \<lparr>ml_To = email, ml_Link = cf_Issuer (cx_cfg cx) @ ''/account/verify-email?token='' @ QueryEscape token\<rparr>"

definition send_message :: "(Message \<Rightarrow> bool) \<Rightarrow> Message \<Rightarrow> site \<Rightarrow> bool \<times> site" where
  "send_message mailer message w = (mailer message, w\<lparr>si_outbox := si_outbox w @ [message]\<rparr>)"

text \<open>\<open>sendEmailVerification\<close>: whether it went without an error.\<close>

definition sendEmailVerification :: "request_context \<Rightarrow> site_lib \<Rightarrow> User \<Rightarrow> site \<Rightarrow> bool \<times> site" where
  "sendEmailVerification cx lib user w =
     (case (wl_mailer lib, us_Email user) of
        (Some mailer, Some email) \<Rightarrow>
          if us_EmailVerified user then (True, w)
          else (case on_users (IssueVerification (cx_sha256 cx) (cx_random cx 23) True (cx_now cx) (us_ID user)
                      (wl_EmailVerificationTTL lib)) w of
                  (Inl _, w1) \<Rightarrow> (False, w1)
                | (Inr token, w1) \<Rightarrow> send_message mailer (buildVerificationMessage cx email token) w1)
      | _ \<Rightarrow> (True, w))"

text \<open>The reply after a verification message has been tried, with its audit record.\<close>

definition verification_sent :: "request_context \<Rightarrow> page_request \<Rightarrow> string \<Rightarrow> bool \<times> site \<Rightarrow> response \<times> site" where
  "verification_sent cx rq userID x =
     (case x of
        (False, w) \<Rightarrow>
          (plain (Problem 502 ''smtp_send_failed''),
           site_audit cx rq (auditActor userID) ''email.verification_sent'' [] OutcomeFailure (Some [(''reason'', JStr ''send_failed'')]) w)
      | (True, w) \<Rightarrow>
          (plain (NoContent 204), site_audit cx rq (auditActor userID) ''email.verification_sent'' [] OutcomeSuccess None w))"

definition sendChangedEmailVerification :: "request_context \<Rightarrow> site_lib \<Rightarrow> page_request \<Rightarrow> User \<Rightarrow> site \<Rightarrow> response \<times> site" where
  "sendChangedEmailVerification cx lib rq user w =
     verification_sent cx rq (us_ID user) (sendEmailVerification cx lib user w)"

definition limit_verifications ::
  "request_context \<Rightarrow> page_request \<Rightarrow> string \<Rightarrow> (site \<Rightarrow> response \<times> site) \<Rightarrow> site \<Rightarrow> response \<times> site" where
  "limit_verifications cx rq userID handler w =
     (case on_server (allowEmailVerificationAttempt cx (pq_Request rq) userID) w of
        (Some refusal, w1) \<Rightarrow> (plain refusal, w1)
      | (None, w1) \<Rightarrow> handler w1)"

text \<open>\<open>issueAccountEmailVerification\<close> after the checks of the mailer and of the limit.\<close>

definition issue_verification ::
  "request_context \<Rightarrow> site_lib \<Rightarrow> page_request \<Rightarrow> string \<Rightarrow> (Message \<Rightarrow> bool) \<Rightarrow> site \<Rightarrow> response \<times> site" where
  "issue_verification cx lib rq userID mailer w =
     (case User_Find userID (site_users w) of
        Inl _ \<Rightarrow> (plain (Problem 401 ''unauthorized''), w)
      | Inr user \<Rightarrow>
          (case on_users (IssueVerification (cx_sha256 cx) (cx_random cx 23) True (cx_now cx) (us_ID user)
                (wl_EmailVerificationTTL lib)) w of
             (Inl err, w1) \<Rightarrow>
               (plain (if err = ErrEmailAlreadyVerified then Problem 409 ''email_already_verified''
                       else if err = ErrEmailNotConfigured then Problem 400 ''email_not_configured''
                       else Problem 500 ''server_error''), w1)
           | (Inr token, w1) \<Rightarrow>
               (case us_Email user of
                  None \<Rightarrow> (plain Aborted, w1)
                | Some email \<Rightarrow>
                    verification_sent cx rq (us_ID user) (send_message mailer (buildVerificationMessage cx email token) w1))))"

definition issueAccountEmailVerification :: "request_context \<Rightarrow> site_lib \<Rightarrow> page_request \<Rightarrow> site \<Rightarrow> response \<times> site" where
  "issueAccountEmailVerification cx lib rq =
     account_change cx rq (\<lambda>current w.
       case wl_mailer lib of
         None \<Rightarrow> (plain (Problem 503 ''smtp_not_configured''), w)
       | Some mailer \<Rightarrow>
           limit_verifications cx rq (se_UserID current) (issue_verification cx lib rq (se_UserID current) mailer) w)"

record token_input =
  ti_Token :: string

definition token_fields :: "token_input fields" where
  "token_fields = [(''token'', string_field ti_Token_update)]"

definition verifyAccountEmail :: "request_context \<Rightarrow> page_request \<Rightarrow> site \<Rightarrow> response \<times> site" where
  "verifyAccountEmail cx rq =
     account_change cx rq (\<lambda>current.
       limit_verifications cx rq (se_UserID current) (\<lambda>w1.
         case body_of token_fields \<lparr>ti_Token = []\<rparr> rq of
           None \<Rightarrow> (plain (Problem 400 ''invalid_request''), w1)
         | Some input \<Rightarrow>
             (case on_users (Verification_Verify (cx_sha256 cx) True (cx_now cx) (ti_Token input) (se_UserID current)) w1 of
                (Inl err, w2) \<Rightarrow>
                  if err = ErrInvalidVerificationToken
                  then (plain (Problem 400 ''invalid_verification_token''),
                        site_audit cx rq (auditActor (se_UserID current)) ''email.verified'' [] OutcomeFailure
                          (Some [(''reason'', JStr ''invalid_or_expired_token'')]) w2)
                  else (plain (Problem 500 ''server_error''), w2)
              | (Inr userID, w2) \<Rightarrow>
                  (plain (NoContent 204), site_audit cx rq (auditActor userID) ''email.verified'' [] OutcomeSuccess None w2))))"

record email_input =
  ne_Email :: string

definition email_fields :: "email_input fields" where
  "email_fields = [(''email'', string_field ne_Email_update)]"

text \<open>\<open>changeAccountEmail\<close> after the checks of the address.\<close>

definition store_account_email ::
  "request_context \<Rightarrow> site_lib \<Rightarrow> page_request \<Rightarrow> User \<Rightarrow> string \<Rightarrow> site \<Rightarrow> response \<times> site" where
  "store_account_email cx lib rq user email w =
     (case User_Replaced user \<lparr>ru_DisplayName = us_DisplayName user, ru_Email = Some email, ru_Status = us_Status user\<rparr> (cx_now cx) of
        Inl _ \<Rightarrow> (plain (Problem 400 ''invalid_email''), w)
      | Inr updated \<Rightarrow>
          (case on_users (User_Replace updated) w of
             (Inl err, w1) \<Rightarrow>
               (plain (if err = ErrUserConflict then Problem 409 ''email_conflict''
                       else if err = ErrUserNotFound then Problem 401 ''unauthorized''
                       else Problem 500 ''server_error''), w1)
           | (Inr stored, w1) \<Rightarrow>
               sendChangedEmailVerification cx lib rq stored
                 (site_audit cx rq (auditActor (us_ID user)) ''email.changed'' [] OutcomeSuccess (Some [(''email'', JStr email)]) w1)))"

definition changeAccountEmail :: "request_context \<Rightarrow> site_lib \<Rightarrow> page_request \<Rightarrow> site \<Rightarrow> response \<times> site" where
  "changeAccountEmail cx lib rq =
     account_change cx rq (\<lambda>current.
       limit_verifications cx rq (se_UserID current) (\<lambda>w1.
         case body_of email_fields \<lparr>ne_Email = []\<rparr> rq of
           None \<Rightarrow> (plain (Problem 400 ''invalid_request''), w1)
         | Some input \<Rightarrow>
             let email = TrimSpace (ne_Email input) in
             if email = [] then (plain (Problem 400 ''invalid_email''), w1)
             else (case User_Find (se_UserID current) (site_users w1) of
                     Inl _ \<Rightarrow> (plain (Problem 401 ''unauthorized''), w1)
                   | Inr user \<Rightarrow>
                       if same_email (us_Email user) (Some email)
                       then (if us_EmailVerified user then (plain (NoContent 204), w1)
                             else sendChangedEmailVerification cx lib rq user w1)
                       else store_account_email cx lib rq user email w1)))"

definition verifyEmailPage :: "request_context \<Rightarrow> page_request \<Rightarrow> site \<Rightarrow> response \<times> site" where
  "verifyEmailPage cx rq w =
     (case on_server (currentSession cx (pq_Request rq)) w of
        (None, w1) \<Rightarrow> (plain (RedirectPath ''/login'' [(''continue'', [rq_RequestURI (pq_Request rq)])]), w1)
      | (Some _, w1) \<Rightarrow> (render_with_csrf cx (pq_Request rq) ''verify-email.html'' [] [], w1))"

section \<open>The second factor\<close>

definition enrollmentQRCodeRows :: "(string \<Rightarrow> bool list list option) \<Rightarrow> string \<Rightarrow> string list option" where
  "enrollmentQRCodeRows qrcode v =
     map_option (map (map (\<lambda>dark. if dark then CHR ''1'' else CHR ''0''))) (qrcode v)"

definition getAccountMFA :: "request_context \<Rightarrow> page_request \<Rightarrow> site \<Rightarrow> response \<times> site" where
  "getAccountMFA cx rq =
     requireCurrentSession cx rq (\<lambda>current w.
       case on_mfa (Status (cx_now cx) (se_UserID current)) w of
         (status, w1) \<Rightarrow>
           (json_with_csrf cx rq 200
              [(''status'', JObj ([(''available'', JBool (mt_Available status)), (''enabled'', JBool (mt_Enabled status)),
                 (''pending'', JBool (mt_Pending status))]
                 @ (case mt_VerifiedAt status of None \<Rightarrow> [] | Some t \<Rightarrow> [(''verified_at'', json_time cx t)])
                 @ [(''recovery_codes'', JInt (int (mt_RecoveryCodes status))),
                    (''trusted_devices'', JInt (int (mt_TrustedDevices status)))]))], w1))"

record factor_input =
  fi_CurrentPassword :: string
  fi_Code :: string

definition current_password_field :: "factor_input fields" where
  "current_password_field = [(''current_password'', string_field fi_CurrentPassword_update)]"

definition code_field :: "factor_input fields" where
  "code_field = [(''code'', string_field fi_Code_update)]"

abbreviation empty_factor_input :: factor_input where
  "empty_factor_input \<equiv> \<lparr>fi_CurrentPassword = [], fi_Code = []\<rparr>"

definition verifyAccountPassword ::
  "request_context \<Rightarrow> site_lib \<Rightarrow> string \<Rightarrow> string \<Rightarrow> (User \<Rightarrow> site \<Rightarrow> response \<times> site) \<Rightarrow> site \<Rightarrow> response \<times> site" where
  "verifyAccountPassword cx lib userID password handler w =
     (case User_Find userID (site_users w) of
        Inl _ \<Rightarrow> (plain (Problem 401 ''unauthorized''), w)
      | Inr user \<Rightarrow>
          (case on_users (Authenticate (lx_idkey (wl_login lib)) (cx_sha256 cx) (cx_random cx 14) (cx_now cx) (us_Username user) password) w of
             (Inl _, w1) \<Rightarrow> (plain (Problem 400 ''current_password_invalid''), w1)
           | (Inr authenticated, w1) \<Rightarrow>
               if us_ID authenticated \<noteq> userID then (plain (Problem 400 ''current_password_invalid''), w1)
               else handler user w1))"

definition setupAccountMFA :: "request_context \<Rightarrow> site_lib \<Rightarrow> page_request \<Rightarrow> site \<Rightarrow> response \<times> site" where
  "setupAccountMFA cx lib rq =
     account_change cx rq (\<lambda>current w.
       case body_of current_password_field empty_factor_input rq of
         None \<Rightarrow> (plain (Problem 400 ''invalid_request''), w)
       | Some input \<Rightarrow>
           verifyAccountPassword cx lib (se_UserID current) (fi_CurrentPassword input) (\<lambda>user w1.
             case on_mfa (MFA_Setup (lx_mfa (wl_login lib)) (cx_random cx 26) (cx_random cx 27) (\<lambda>i. cx_random cx (40 + i)) (cx_now cx)
                   (us_ID user) (us_Username user)) w1 of
               (Inl err, w2) \<Rightarrow>
                 (plain (if err = ErrMfaUnavailable then Problem 503 ''mfa_unavailable''
                         else if err = ErrAlreadyEnabled then Problem 409 ''mfa_already_enabled''
                         else Problem 500 ''server_error''), w2)
             | (Inr setup, w2) \<Rightarrow>
                 (case enrollmentQRCodeRows (wl_QRCode lib) (mu_OTPAuthURI setup) of
                    None \<Rightarrow> (plain (Problem 500 ''server_error''), w2)
                  | Some rows \<Rightarrow>
                      (plain (ReplyJSON 201
                         [(''secret'', JStr (mu_Secret setup)), (''otpauth_uri'', JStr (mu_OTPAuthURI setup)),
                          (''recovery_codes'', JStrs (mu_RecoveryCodes setup)), (''qr_code_rows'', JStrs rows)]),
                       site_audit cx rq (auditActor (us_ID user)) ''mfa.setup_started'' [] OutcomeSuccess None w2))) w)"

definition enableAccountMFA :: "request_context \<Rightarrow> site_lib \<Rightarrow> page_request \<Rightarrow> site \<Rightarrow> response \<times> site" where
  "enableAccountMFA cx lib rq =
     account_change cx rq (\<lambda>current w.
       case body_of code_field empty_factor_input rq of
         None \<Rightarrow> (plain (Problem 400 ''invalid_request''), w)
       | Some input \<Rightarrow>
           (case on_mfa (Service_Enable (lx_mfa (wl_login lib)) (cx_now cx) (se_UserID current) (fi_Code input)) w of
              (Inl _, w1) \<Rightarrow>
                (plain (Problem 400 ''invalid_mfa_code''),
                 site_audit cx rq (auditActor (se_UserID current)) ''mfa.enabled'' [] OutcomeFailure None w1)
            | (Inr _, w1) \<Rightarrow>
                (plain (NoContent 204),
                 site_audit cx rq (auditActor (se_UserID current)) ''mfa.enabled'' [] OutcomeSuccess None w1)))"

text \<open>The checks \<open>regenerateAccountMFARecoveryCodes\<close> and \<open>disableAccountMFA\<close> share: the password, the limit and a code; the reply
  to a wrong code is given.\<close>

definition verify_factors ::
  "request_context \<Rightarrow> site_lib \<Rightarrow> page_request \<Rightarrow> Session \<Rightarrow> (site \<Rightarrow> response \<times> site) \<Rightarrow> (site \<Rightarrow> response \<times> site) \<Rightarrow> site \<Rightarrow>
   response \<times> site" where
  "verify_factors cx lib rq current wrong_code handler w =
     (case body_of (current_password_field @ code_field) empty_factor_input rq of
        None \<Rightarrow> (plain (Problem 400 ''invalid_request''), w)
      | Some input \<Rightarrow>
          verifyAccountPassword cx lib (se_UserID current) (fi_CurrentPassword input) (\<lambda>_ w1.
            case on_server (allowMFAAttempt cx (pq_Request rq) (se_UserID current)) w1 of
              (Some refusal, w2) \<Rightarrow> (plain refusal, w2)
            | (None, w2) \<Rightarrow>
                (case on_mfa (MFA_Verify (lx_mfa (wl_login lib)) (cx_now cx) (se_UserID current) (fi_Code input)) w2 of
                   (Inl _, w3) \<Rightarrow> wrong_code w3
                 | (Inr _, w3) \<Rightarrow> handler w3)) w)"

definition regenerateAccountMFARecoveryCodes :: "request_context \<Rightarrow> site_lib \<Rightarrow> page_request \<Rightarrow> site \<Rightarrow> response \<times> site" where
  "regenerateAccountMFARecoveryCodes cx lib rq =
     account_change cx rq (\<lambda>current.
       verify_factors cx lib rq current
         (\<lambda>w. (plain (Problem 400 ''invalid_mfa_code''),
               site_audit cx rq (auditActor (se_UserID current)) ''mfa.recovery_codes.regenerated'' [] OutcomeFailure
                 (Some [(''reason'', JStr ''invalid_mfa_code'')]) w))
         (\<lambda>w. case on_mfa (RegenerateRecoveryCodes (lx_mfa (wl_login lib)) (\<lambda>i. cx_random cx (40 + i)) (se_UserID current)) w of
            (Inl err, w1) \<Rightarrow>
              (plain (if err = ErrMfaNotFound \<or> err = ErrNotEnabled then Problem 409 ''mfa_not_enabled''
                      else Problem 500 ''server_error''), w1)
          | (Inr fresh, w1) \<Rightarrow>
              (plain (ReplyJSON 201 [(''recovery_codes'', JStrs fresh)]),
               site_audit cx rq (auditActor (se_UserID current)) ''mfa.recovery_codes.regenerated'' [] OutcomeSuccess
                 (Some [(''count'', JInt (int (length fresh)))]) w1)))"

definition disableAccountMFA :: "request_context \<Rightarrow> site_lib \<Rightarrow> page_request \<Rightarrow> site \<Rightarrow> response \<times> site" where
  "disableAccountMFA cx lib rq =
     account_change cx rq (\<lambda>current.
       verify_factors cx lib rq current (\<lambda>w. (plain (Problem 400 ''invalid_mfa_code''), w))
         (\<lambda>w. case on_mfa (Disable (se_UserID current)) w of
            (res, w1) \<Rightarrow>
              if (case res of Inl err \<Rightarrow> err \<noteq> ErrMfaNotFound | Inr _ \<Rightarrow> False) then (plain (Problem 500 ''server_error''), w1)
              else (\<lparr>rp_Reply = NoContent 204, rp_Cookies = [clearCookie trustedDeviceCookieName]\<rparr>,
                    site_audit cx rq (auditActor (se_UserID current)) ''mfa.disabled'' [] OutcomeSuccess None w1)))"

definition revokeAccountMFATrustedDevices :: "request_context \<Rightarrow> page_request \<Rightarrow> site \<Rightarrow> response \<times> site" where
  "revokeAccountMFATrustedDevices cx rq =
     account_change cx rq (\<lambda>current w.
       case end_trusted_devices (se_UserID current) w of
         (n, w1) \<Rightarrow>
           (\<lparr>rp_Reply = NoContent 204, rp_Cookies = [clearCookie trustedDeviceCookieName]\<rparr>,
            site_audit cx rq (auditActor (se_UserID current)) ''mfa.trusted_devices.revoked'' [] OutcomeSuccess
              (Some [(''count'', JInt (int n))]) w1))"

section \<open>Registration\<close>

text \<open>\<open>registrationClient\<close>: \<open>None\<close> when registration is not available, otherwise the client, if there is one.\<close>

definition registration_allowed :: "string \<Rightarrow> Client option \<Rightarrow> Client option option" where
  "registration_allowed requestedClientID registered =
     (case registered of
        None \<Rightarrow> Some None
      | Some c \<Rightarrow>
          if requestedClientID \<noteq> [] \<and> requestedClientID \<noteq> cl_ID c then None
          else if \<not> cl_Enabled c \<or> cl_ArchivedAt c \<noteq> None \<or> LoginPassword \<notin> set (cl_LoginMethods c) then None
          else Some (Some c))"

definition registrationClient :: "request_context \<Rightarrow> string \<Rightarrow> string \<Rightarrow> server \<Rightarrow> Client option option" where
  "registrationClient cx returnTo requestedClientID s =
     (case Parse returnTo of
        None \<Rightarrow> None
      | Some target \<Rightarrow>
          let registered = loginClient cx returnTo s in
          if u_Path target \<in> {''/oauth2/authorize'', ''/cas/login'', ''/device''} then
            (if registered = None then None else registration_allowed requestedClientID registered)
          else if requestedClientID \<noteq> [] then
            (case Client_Find requestedClientID (srv_clients s) of
               Inl _ \<Rightarrow> None
             | Inr c \<Rightarrow> registration_allowed requestedClientID (Some c))
          else registration_allowed requestedClientID registered)"

text \<open>\<open>newRegistrationPageData\<close> and the rendering of the page, with what the form keeps.\<close>

definition newRegistrationPageData ::
  "request_context \<Rightarrow> site_lib \<Rightarrow> string \<Rightarrow> string \<Rightarrow> string \<Rightarrow> string \<Rightarrow> server \<Rightarrow> (string \<times> json) list option" where
  "newRegistrationPageData cx lib returnTo requestedClientID token message s =
     map_option (\<lambda>registered.
       client_shown registered @ [(''ReturnTo'', JStr returnTo), (''CSRFToken'', JStr token), (''Error'', JStr message),
         (''RequireEmail'', JBool (wl_RequireEmail lib))])
       (registrationClient cx returnTo requestedClientID s)"

definition render_registration ::
  "request_context \<Rightarrow> site_lib \<Rightarrow> page_request \<Rightarrow> string \<Rightarrow> string \<Rightarrow> string \<Rightarrow> (string \<times> json) list \<Rightarrow> site \<Rightarrow> response" where
  "render_registration cx lib rq returnTo requestedClientID message kept w =
     (case ensureCSRF cx (pq_Request rq) of
        None \<Rightarrow> plain Aborted
      | Some (token, new) \<Rightarrow>
          \<lparr>rp_Reply = (case newRegistrationPageData cx lib returnTo requestedClientID token message (site_server w) of
              None \<Rightarrow> Problem 400 ''registration_not_available''
            | Some page \<Rightarrow> Rendered ''register.html'' (page @ kept)), rp_Cookies = new\<rparr>)"

definition registrationPage :: "request_context \<Rightarrow> site_lib \<Rightarrow> page_request \<Rightarrow> site \<Rightarrow> response \<times> site" where
  "registrationPage cx lib rq w =
     (if \<not> lx_RegistrationEnabled (wl_login lib) then (plain (NoContent 404), w)
      else let q = rq_Query (pq_Request rq) in
        (render_registration cx lib rq (return_or_portal (Get ''continue'' q)) (TrimSpace (Get ''client_id'' q)) [] [] w, w))"

definition renderRegistrationError ::
  "request_context \<Rightarrow> site_lib \<Rightarrow> page_request \<Rightarrow> string \<Rightarrow> string \<Rightarrow> RegisterUser \<Rightarrow> string \<Rightarrow> site \<Rightarrow> response" where
  "renderRegistrationError cx lib rq returnTo requestedClientID input message w =
     render_registration cx lib rq returnTo requestedClientID message
       [(''Username'', JStr (re_Username input)), (''DisplayName'', JStr (re_DisplayName input)),
        (''Email'', JStr (case re_Email input of None \<Rightarrow> [] | Some e \<Rightarrow> e))] w"

definition registrationFailureReason :: "identity_error \<Rightarrow> string" where
  "registrationFailureReason err =
     (case err of
        ErrUserConflict \<Rightarrow> ''conflict''
      | ErrUserInvalid \<Rightarrow> ''invalid_identity''
      | ErrPasswordLength \<Rightarrow> ''invalid_password''
      | _ \<Rightarrow> ''storage_error'')"

definition recordRegistrationFailure :: "request_context \<Rightarrow> page_request \<Rightarrow> string \<Rightarrow> string \<Rightarrow> site \<Rightarrow> site" where
  "recordRegistrationFailure cx rq clientID reason w =
     site_audit cx rq None ''user.register'' clientID OutcomeFailure (Some [(''reason'', JStr reason)]) w"

text \<open>A page that is rendered before its failure is recorded: nothing is recorded when rendering panics.\<close>

definition refuse_registration ::
  "request_context \<Rightarrow> site_lib \<Rightarrow> page_request \<Rightarrow> string \<Rightarrow> string \<Rightarrow> RegisterUser \<Rightarrow> string \<Rightarrow> string \<Rightarrow> site \<Rightarrow> response \<times> site" where
  "refuse_registration cx lib rq returnTo requestedClientID input clientID reason w =
     (let response = renderRegistrationError cx lib rq returnTo requestedClientID input reason w in
      (response, if rp_Reply response = Aborted then w else recordRegistrationFailure cx rq clientID reason w))"

definition registration_input :: "Values \<Rightarrow> page_request \<Rightarrow> RegisterUser" where
  "registration_input post rq =
     (let form = (\<lambda>k. Form_Get k post (pq_Request rq)); email = TrimSpace (form ''email'') in
      \<lparr>re_Username = TrimSpace (form ''username''), re_DisplayName = TrimSpace (form ''display_name''),
       re_Email = (if email = [] then None else Some email), re_Password = form ''password''\<rparr>)"

definition register_user ::
  "request_context \<Rightarrow> site_lib \<Rightarrow> page_request \<Rightarrow> string \<Rightarrow> string \<Rightarrow> RegisterUser \<Rightarrow> string \<Rightarrow> site \<Rightarrow> response \<times> site" where
  "register_user cx lib rq returnTo requestedClientID input clientID w =
     (case on_users (Register (lx_idkey (wl_login lib)) (cx_random cx 24) (cx_random cx 21) (cx_now cx) input) w of
        (Inl err, w1) \<Rightarrow>
          let w2 = recordRegistrationFailure cx rq clientID (registrationFailureReason err) w1
          in (renderRegistrationError cx lib rq returnTo requestedClientID input (registrationFailureReason err) w2, w2)
      | (Inr user, w1) \<Rightarrow>
          (case sendEmailVerification cx lib user
                (site_audit cx rq (auditActor (us_ID user)) ''user.register'' clientID OutcomeSuccess None w1) of
             (_, w2) \<Rightarrow> on_login (createLoginSession cx (pq_Request rq) user returnTo ''registration'' clientID [] []) w2))"

definition register :: "request_context \<Rightarrow> site_lib \<Rightarrow> page_request \<Rightarrow> site \<Rightarrow> response \<times> site" where
  "register cx lib rq w =
     (if \<not> lx_RegistrationEnabled (wl_login lib) then (plain (NoContent 404), w)
      else case rq_PostForm (pq_Request rq) of
          None \<Rightarrow> (plain (Problem 400 ''invalid_request''), w)
        | Some post \<Rightarrow>
            let form = (\<lambda>k. Form_Get k post (pq_Request rq));
                returnTo = return_or_portal (form ''continue'');
                requestedClientID = TrimSpace (form ''client_id'')
            in if \<not> validCSRF (form ''csrf_token'') (pq_Request rq) then (plain (Problem 400 ''invalid_csrf''), w)
               else case registrationClient cx returnTo requestedClientID (site_server w) of
                   None \<Rightarrow> (plain (Problem 400 ''registration_not_available''), w)
                 | Some registered \<Rightarrow>
                     let clientID = (case registered of None \<Rightarrow> [] | Some c \<Rightarrow> cl_ID c) in
                     (case on_server (allowRegistrationAttempt cx (pq_Request rq)) w of
                        (Some refusal, w1) \<Rightarrow> (plain refusal, recordRegistrationFailure cx rq clientID ''rate_limited'' w1)
                      | (None, w1) \<Rightarrow>
                          let input = registration_input post rq in
                          if re_Password input \<noteq> form ''password_confirmation''
                          then refuse_registration cx lib rq returnTo requestedClientID input clientID ''password_mismatch'' w1
                          else if wl_RequireEmail lib \<and> re_Email input = None
                          then refuse_registration cx lib rq returnTo requestedClientID input clientID ''email_required'' w1
                          else register_user cx lib rq returnTo requestedClientID input clientID w1))"

end
