(* ===== verification/Admin_Pages.thy ===== *)
theory Admin_Pages
  imports Account_Pages
begin

text \<open>
  The administration of users, from \<open>admin_auth.go\<close>, \<open>admin_users.go\<close>, \<open>admin_external_identities.go\<close>, \<open>audit.go\<close>,
  \<open>signing_keys.go\<close> and the administrators' handlers of \<open>account.go\<close>, \<open>auth.go\<close>, \<open>mfa.go\<close> and \<open>email_verification.go\<close> in
  \<open>internal/platform/http\<close>.

  \<^item> \<open>requireAdmin\<close> decides who may run a handler: the holder of the emergency token, or a signed-in administrator with the
    permission of the route and a session of the second assurance level, with the form token when the request changes something.
  \<^item> A handler gets the \<open>Access\<close> of the principal next to the request; what audit records need of the principal is in the request.
  \<^item> \<open>auditMutations\<close> records every changing request to an administration address with its status.
  \<^item> The random draws of an import are numbered from 60 on, one for each user.
\<close>

section \<open>Administrators\<close>

abbreviation adminAuthSession :: string where "adminAuthSession \<equiv> ''session''"
abbreviation adminAuthEmergencyToken :: string where "adminAuthEmergencyToken \<equiv> ''emergency_token''"

definition validEmergencyAdminToken :: "request_context \<Rightarrow> site_lib \<Rightarrow> string \<Rightarrow> bool" where
  "validEmergencyAdminToken cx lib supplied =
     (if wl_AdminToken lib = [] \<or> supplied = [] then False
      else cx_sha256 cx (bytes_of (wl_AdminToken lib)) = cx_sha256 cx (bytes_of supplied))"

definition administratorMFA :: "Session \<Rightarrow> bool" where
  "administratorMFA current =
     (se_AssuranceLevel current = ''urn:certus:aal:2'' \<and>
      (''otp'' \<in> set (se_AuthMethods current) \<or> ''trusted_device'' \<in> set (se_AuthMethods current)))"

definition isMutation :: "string \<Rightarrow> bool" where
  "isMutation verb = (verb \<in> {''POST'', ''PUT'', ''PATCH'', ''DELETE''})"

definition bearer_prefix :: string where
  "bearer_prefix = ''Bearer ''"

text \<open>The refusal with its status and code, or the access of the principal and how it was authenticated.\<close>

definition authenticateAdministrator ::
  "request_context \<Rightarrow> site_lib \<Rightarrow> AdminPermission \<Rightarrow> page_request \<Rightarrow> site \<Rightarrow> ((int \<times> string) + (Access \<times> string)) \<times> site" where
  "authenticateAdministrator cx lib permission rq w =
     (let authorization = TrimSpace (rq_Authorization (pq_Request rq)) in
      if authorization \<noteq> [] then
        (if \<not> HasPrefix authorization bearer_prefix \<or>
            \<not> validEmergencyAdminToken cx lib (TrimSpace (drop (length bearer_prefix) authorization))
         then (Inl (401, ''unauthorized''), w)
         else (Inr (AccessFor [] [RoleSuperAdmin], adminAuthEmergencyToken), w))
      else case on_server (currentSession cx (pq_Request rq)) w of
          (None, w1) \<Rightarrow> (Inl (401, ''unauthorized''), w1)
        | (Some current, w1) \<Rightarrow>
            let access = Admin_Effective (se_UserID current) (si_administrators w1) in
            if ac_Roles access = [] \<or> \<not> Has access permission then (Inl (403, ''insufficient_permission''), w1)
            else if \<not> administratorMFA current then (Inl (403, ''admin_mfa_required''), w1)
            else (Inr (access, adminAuthSession), w1))"

definition withAdminPrincipal :: "Access \<Rightarrow> string \<Rightarrow> page_request \<Rightarrow> page_request" where
  "withAdminPrincipal access authMethod rq =
     rq\<lparr>pq_Request := (pq_Request rq)\<lparr>rq_Principal := Some \<lparr>ap_UserID = ac_User access, ap_AuthMethod = authMethod\<rparr>\<rparr>\<rparr>"

text \<open>\<open>requireAdmin\<close>; the result names the principal the request carries afterwards, which the audit records use.\<close>

type_synonym admin_handler = "Access \<Rightarrow> page_request \<Rightarrow> site \<Rightarrow> response \<times> site"

definition requireAdmin ::
  "request_context \<Rightarrow> site_lib \<Rightarrow> AdminPermission \<Rightarrow> admin_handler \<Rightarrow> page_request \<Rightarrow> site \<Rightarrow> (response \<times> page_request) \<times> site" where
  "requireAdmin cx lib permission handler rq w =
     (case authenticateAdministrator cx lib permission rq w of
        (Inl (status, code), w1) \<Rightarrow> ((plain (Problem status code), rq), w1)
      | (Inr (access, authMethod), w1) \<Rightarrow>
          if authMethod = adminAuthSession \<and> isMutation (rq_Method (pq_Request rq)) \<and> \<not> validCSRF (pq_CSRFToken rq) (pq_Request rq)
          then ((plain (Problem 403 ''invalid_csrf''), rq), w1)
          else let rq1 = withAdminPrincipal access authMethod rq in
            (case handler access rq1 w1 of (response, w2) \<Rightarrow> ((response, rq1), w2)))"

definition grantedBy :: "Access \<Rightarrow> string" where
  "grantedBy access = (if ac_User access \<noteq> [] then ac_User access else adminAuthEmergencyToken)"

definition reply_status :: "reply \<Rightarrow> int" where
  "reply_status r =
     (case r of Problem status _ \<Rightarrow> status | OAuthError status _ \<Rightarrow> status | ReplyJSON status _ \<Rightarrow> status
      | NoContent status \<Rightarrow> status | RedirectURL _ \<Rightarrow> 302 | RedirectPath _ _ \<Rightarrow> 302 | Rendered _ _ \<Rightarrow> 200 | Aborted \<Rightarrow> 500)"

definition principal_method :: "page_request \<Rightarrow> string" where
  "principal_method rq = (case rq_Principal (pq_Request rq) of None \<Rightarrow> [] | Some p \<Rightarrow> ap_AuthMethod p)"

definition auditMutations ::
  "request_context \<Rightarrow> page_request \<Rightarrow> (response \<times> page_request) \<times> site \<Rightarrow> response \<times> site" where
  "auditMutations cx rq x =
     (case x of
        ((response, rq1), w) \<Rightarrow>
          if \<not> HasPrefix (rq_Path (pq_Request rq)) ''/api/v1/admin/'' \<or> rq_Method (pq_Request rq) \<notin> {''POST'', ''PUT'', ''DELETE''} \<or>
             rp_Reply response = Aborted
          then (response, w)
          else let status = reply_status (rp_Reply response) in
            (response,
             site_audit cx rq1 None ''admin.request'' [] (if status \<ge> 400 then OutcomeFailure else OutcomeSuccess)
               (Some [(''method'', JStr (rq_Method (pq_Request rq))), (''path'', JStr (rq_Path (pq_Request rq))),
                      (''status'', JInt status), (''admin_auth_method'', JStr (principal_method rq1))]) w))"

section \<open>Protected administrators\<close>

definition grantsContainRole :: "Grant list \<Rightarrow> AdminRole \<Rightarrow> bool" where
  "grantsContainRole gs role = list_ex (\<lambda>g. gr_Role g = role) gs"

definition sensitive_target_allowed :: "Access \<Rightarrow> string \<Rightarrow> AdminRepository \<Rightarrow> bool" where
  "sensitive_target_allowed access userID r =
     (Admin_ListUserRoles userID r = [] \<or> Has access PermissionAdminRolesWrite)"

definition authorizeSensitiveAdministratorTarget ::
  "Access \<Rightarrow> string \<Rightarrow> (site \<Rightarrow> response \<times> site) \<Rightarrow> site \<Rightarrow> response \<times> site" where
  "authorizeSensitiveAdministratorTarget access userID handler w =
     (if sensitive_target_allowed access userID (si_administrators w) then handler w
      else (plain (Problem 403 ''protected_administrator''), w))"

text \<open>The loop of \<open>ensureOtherActiveSuperAdministrator\<close>: whether it finds one.\<close>

fun other_active_loop :: "string \<Rightarrow> UserRepository \<Rightarrow> string list \<Rightarrow> bool" where
  "other_active_loop excludedUserID r [] = False"
| "other_active_loop excludedUserID r (userID # userIDs) =
     (if userID = excludedUserID then other_active_loop excludedUserID r userIDs
      else case User_Find userID r of
          Inl _ \<Rightarrow> other_active_loop excludedUserID r userIDs
        | Inr user \<Rightarrow> if us_Status user = UserActive then True else other_active_loop excludedUserID r userIDs)"

definition ensureOtherActiveSuperAdministrator :: "string \<Rightarrow> site \<Rightarrow> administration_error + unit" where
  "ensureOtherActiveSuperAdministrator excludedUserID w =
     (case ListRoleUsers RoleSuperAdmin (si_administrators w) of
        Inl err \<Rightarrow> Inl err
      | Inr userIDs \<Rightarrow>
          if other_active_loop excludedUserID (site_users w) userIDs then Inr () else Inl ErrLastSuperAdmin)"

definition last_admin_problem :: "administration_error \<Rightarrow> reply" where
  "last_admin_problem err = (if err = ErrLastSuperAdmin then Problem 409 ''last_super_admin'' else Problem 500 ''server_error'')"

definition authorizeAdministratorDeactivation ::
  "Access \<Rightarrow> string \<Rightarrow> (site \<Rightarrow> response \<times> site) \<Rightarrow> site \<Rightarrow> response \<times> site" where
  "authorizeAdministratorDeactivation access userID handler =
     authorizeSensitiveAdministratorTarget access userID (\<lambda>w.
       if \<not> grantsContainRole (Admin_ListUserRoles userID (si_administrators w)) RoleSuperAdmin then handler w
       else case ensureOtherActiveSuperAdministrator userID w of
           Inl err \<Rightarrow> (plain (last_admin_problem err), w)
         | Inr _ \<Rightarrow> handler w)"

section \<open>The user a request is about\<close>

text \<open>\<open>adminSessionUser\<close> and \<open>accessUser\<close>, which are written alike, and the same lines in the other handlers.\<close>

definition adminSessionUser :: "page_request \<Rightarrow> (string \<Rightarrow> User \<Rightarrow> site \<Rightarrow> response \<times> site) \<Rightarrow> site \<Rightarrow> response \<times> site" where
  "adminSessionUser rq handler w =
     (let userID = pq_PathValue rq ''userID'' in
      if \<not> ValidUserID userID then (plain (Problem 404 ''not_found''), w)
      else case User_Find userID (site_users w) of
          Inl _ \<Rightarrow> (plain (Problem 404 ''not_found''), w)
        | Inr user \<Rightarrow> handler userID user w)"

definition sensitive_user ::
  "Access \<Rightarrow> page_request \<Rightarrow> (string \<Rightarrow> User \<Rightarrow> site \<Rightarrow> response \<times> site) \<Rightarrow> site \<Rightarrow> response \<times> site" where
  "sensitive_user access rq handler =
     adminSessionUser rq (\<lambda>userID user. authorizeSensitiveAdministratorTarget access userID (handler userID user))"

definition admin_audit :: "request_context \<Rightarrow> page_request \<Rightarrow> string \<Rightarrow> (string, json) gomap \<Rightarrow> site \<Rightarrow> site" where
  "admin_audit cx rq type details = site_audit cx rq None type [] OutcomeSuccess (Some details)"

section \<open>Roles of administrators\<close>

definition adminMe :: "request_context \<Rightarrow> admin_handler" where
  "adminMe cx access rq w =
     (let shown = (\<lambda>user. json_with_csrf cx rq 200
         [(''user'', user), (''roles'', JStrs (ac_Roles access)), (''permissions'', JStrs (ac_Permissions access)),
          (''auth_method'', JStr (principal_method rq))])
      in if ac_User access = [] then (shown JNull, w)
         else case User_Find (ac_User access) (site_users w) of
             Inl _ \<Rightarrow> (plain (Problem 401 ''unauthorized''), w)
           | Inr user \<Rightarrow> (shown (JObj (user_fields cx user)), w))"

definition listAdministratorRoleDefinitions :: admin_handler where
  "listAdministratorRoleDefinitions access rq w =
     (plain (ReplyJSON 200 [(''items'', JArr (map (\<lambda>d. JObj
        [(''code'', JStr (rd_Code d)), (''name'', JStr (rd_Name d)), (''description'', JStr (rd_Description d)),
         (''permissions'', JStrs (rd_Permissions d))]) Definitions))]), w)"

definition grant_json :: "request_context \<Rightarrow> Grant \<Rightarrow> json" where
  "grant_json cx g =
     JObj [(''user_id'', JStr (gr_UserID g)), (''role'', JStr (gr_Role g)), (''granted_at'', json_time cx (gr_GrantedAt g)),
           (''granted_by'', JStr (gr_GrantedBy g))]"

definition grants_reply :: "request_context \<Rightarrow> string \<Rightarrow> site \<Rightarrow> reply" where
  "grants_reply cx userID w =
     ReplyJSON 200 [(''items'', JArr (map (grant_json cx) (Admin_ListUserRoles userID (si_administrators w))))]"

definition listUserAdministratorRoles :: "request_context \<Rightarrow> admin_handler" where
  "listUserAdministratorRoles cx access rq =
     adminSessionUser rq (\<lambda>userID _ w. (plain (grants_reply cx userID w), w))"

record roles_input =
  li_Roles :: "string list"

definition roles_fields :: "roles_input fields" where
  "roles_fields = [(''roles'', strings_field li_Roles_update)]"

definition store_admin_roles :: "request_context \<Rightarrow> Access \<Rightarrow> page_request \<Rightarrow> string \<Rightarrow> AdminRole list \<Rightarrow> site \<Rightarrow> response \<times> site" where
  "store_admin_roles cx access rq userID rs w =
     (case Admin_ReplaceUserRoles userID rs (grantedBy access) (cx_now cx) (si_administrators w) of
        (Inl err, r) \<Rightarrow>
          (plain (if err = ErrGrantUnknown then Problem 404 ''not_found'' else last_admin_problem err), w\<lparr>si_administrators := r\<rparr>)
      | (Inr _, r) \<Rightarrow>
          let w1 = admin_audit cx rq ''admin.roles.replaced'' [(''user_id'', JStr userID), (''roles'', JStrs rs)]
                     (w\<lparr>si_administrators := r\<rparr>)
          in (plain (grants_reply cx userID w1), w1))"

definition replaceUserAdministratorRoles :: "request_context \<Rightarrow> admin_handler" where
  "replaceUserAdministratorRoles cx access rq =
     adminSessionUser rq (\<lambda>userID _ w.
       case body_of roles_fields \<lparr>li_Roles = []\<rparr> rq of
         None \<Rightarrow> (plain (Problem 400 ''invalid_request''), w)
       | Some input \<Rightarrow>
           if ValidateRoles (li_Roles input) \<noteq> Inr () then (plain (Problem 400 ''invalid_admin_roles''), w)
           else if grantsContainRole (Admin_ListUserRoles userID (si_administrators w)) RoleSuperAdmin \<and>
                   \<not> HasRole (li_Roles input) RoleSuperAdmin
           then (case ensureOtherActiveSuperAdministrator userID w of
                   Inl err \<Rightarrow> (plain (last_admin_problem err), w)
                 | Inr _ \<Rightarrow> store_admin_roles cx access rq userID (li_Roles input) w)
           else store_admin_roles cx access rq userID (li_Roles input) w)"

section \<open>Users\<close>

text \<open>\<open>queryInt\<close>.\<close>

definition queryInt :: "page_request \<Rightarrow> string \<Rightarrow> int \<Rightarrow> int \<Rightarrow> int \<Rightarrow> int option" where
  "queryInt rq name fallback minimum maximum =
     (let raw = Get name (rq_Query (pq_Request rq)) in
      if raw = [] then Some fallback
      else case ParseInt raw of
          None \<Rightarrow> None
        | Some v \<Rightarrow> if v < minimum \<or> v > maximum then None else Some v)"

definition listUsers :: "request_context \<Rightarrow> admin_handler" where
  "listUsers cx access rq w =
     (let q = rq_Query (pq_Request rq); status = Get ''status'' q in
      case (queryInt rq ''limit'' 20 1 100, queryInt rq ''offset'' 0 0 1000000) of
        (Some limit, Some offset) \<Rightarrow>
          if status \<noteq> [] \<and> \<not> Status_Valid status then (plain (Problem 400 ''invalid_request''), w)
          else (case User_List \<lparr>uf_Query = Get ''q'' q, uf_Status = status, uf_Limit = limit, uf_Offset = offset\<rparr> (site_users w) of
                  None \<Rightarrow> (plain Aborted, w)
                | Some page \<Rightarrow>
                    (plain (ReplyJSON 200 [(''items'', JArr (map (\<lambda>u. JObj (user_fields cx u)) (up_Items page))),
                       (''total'', JInt (up_Total page)), (''limit'', JInt (up_Limit page)), (''offset'', JInt (up_Offset page))]), w))
      | _ \<Rightarrow> (plain (Problem 400 ''invalid_request''), w))"

definition getUser :: "request_context \<Rightarrow> admin_handler" where
  "getUser cx access rq = adminSessionUser rq (\<lambda>_ user w. (plain (ReplyJSON 200 (user_fields cx user)), w))"

definition create_user_fields :: "CreateUser fields" where
  "create_user_fields =
     [(''username'', string_field cu_Username_update), (''display_name'', string_field cu_DisplayName_update),
      (''email'', pointer_field cu_Email_update), (''status'', string_field cu_Status_update)]"

definition zero_create_user :: CreateUser where
  "zero_create_user = \<lparr>cu_Username = [], cu_DisplayName = [], cu_Email = None, cu_Status = []\<rparr>"

definition createUser :: "request_context \<Rightarrow> site_lib \<Rightarrow> admin_handler" where
  "createUser cx lib access rq w =
     (case body_of create_user_fields zero_create_user rq of
        None \<Rightarrow> (plain (Problem 400 ''invalid_request''), w)
      | Some input \<Rightarrow>
          (case NewUser (cx_random cx 24) input (cx_now cx) of
             Inl _ \<Rightarrow> (plain (Problem 400 ''invalid_user''), w)
           | Inr user0 \<Rightarrow>
               (case on_users (User_Create user0) w of
                  (Inl err, w1) \<Rightarrow>
                    (plain (if err = ErrUserConflict then Problem 409 ''user_conflict'' else Problem 500 ''server_error''), w1)
                | (Inr user, w1) \<Rightarrow>
                    (plain (ReplyJSON 201 (user_fields cx user)), snd (sendEmailVerification cx lib user w1)))))"

text \<open>The body of an import; \<open>expires_at\<close> is an RFC 3339 text.\<close>

definition time_pointer_field ::
  "request_context \<Rightarrow> ((time option \<Rightarrow> time option) \<Rightarrow> 'r \<Rightarrow> 'r) \<Rightarrow> json \<Rightarrow> 'r \<Rightarrow> 'r option" where
  "time_pointer_field cx update v r =
     (case v of
        JNull \<Rightarrow> Some (update (\<lambda>_. None) r)
      | JStr s \<Rightarrow> map_option (\<lambda>t. update (\<lambda>_. Some t) r) (cx_ParseNano cx s)
      | _ \<Rightarrow> None)"

definition migration_user_fields :: "PasswordMigrationUser fields" where
  "migration_user_fields =
     [(''username'', string_field mi_Username_update), (''display_name'', string_field mi_DisplayName_update),
      (''email'', pointer_field mi_Email_update), (''status'', string_field mi_Status_update),
      (''password_hash'', string_field mi_PasswordHash_update)]"

definition zero_migration_user :: PasswordMigrationUser where
  "zero_migration_user = \<lparr>mi_Username = [], mi_DisplayName = [], mi_Email = None, mi_Status = [], mi_PasswordHash = []\<rparr>"

definition import_fields :: "request_context \<Rightarrow> ImportPasswordUsers fields" where
  "import_fields cx =
     [(''password_algorithm'', string_field iu_Algorithm_update), (''expires_at'', time_pointer_field cx iu_ExpiresAt_update),
      (''users'', slice_field (\<lambda>v. decode_struct migration_user_fields v zero_migration_user) iu_Users_update)]"

definition importUsers :: "request_context \<Rightarrow> admin_handler" where
  "importUsers cx access rq w =
     (case body_of (import_fields cx) \<lparr>iu_Algorithm = [], iu_ExpiresAt = None, iu_Users = []\<rparr> rq of
        None \<Rightarrow> (plain (Problem 400 ''invalid_request''), w)
      | Some input \<Rightarrow>
          (case on_users (Import (map (\<lambda>i. cx_random cx (60 + i)) [0..<length (iu_Users input)]) (cx_now cx) input) w of
             (Inl err, w1) \<Rightarrow>
               (plain (if err = ErrUserInvalid then Problem 400 ''invalid_password_migration''
                       else if err = ErrUserConflict then Problem 409 ''user_conflict'' else Problem 500 ''server_error''), w1)
           | (Inr result, w1) \<Rightarrow>
               (plain (ReplyJSON 201 [(''items'', JArr (map (\<lambda>u. JObj (user_fields cx u)) (mg_Items result))),
                  (''count'', JInt (int (mg_Count result))), (''expires_at'', json_time cx (mg_ExpiresAt result))]),
                admin_audit cx rq ''users.password_migration''
                  [(''password_algorithm'', JStr (iu_Algorithm input)), (''count'', JInt (int (mg_Count result))),
                   (''expires_at'', json_time cx (mg_ExpiresAt result))] w1)))"

definition replace_user_fields :: "ReplaceUser fields" where
  "replace_user_fields =
     [(''display_name'', string_field ru_DisplayName_update), (''email'', pointer_field ru_Email_update),
      (''status'', string_field ru_Status_update)]"

definition zero_replace_user :: ReplaceUser where
  "zero_replace_user = \<lparr>ru_DisplayName = [], ru_Email = None, ru_Status = []\<rparr>"

text \<open>\<open>replaceUser\<close> from the call of the repository on.\<close>

definition store_user :: "request_context \<Rightarrow> site_lib \<Rightarrow> User \<Rightarrow> User \<Rightarrow> site \<Rightarrow> response \<times> site" where
  "store_user cx lib current user0 w =
     (case on_users (User_Replace user0) w of
        (Inl err, w1) \<Rightarrow>
          (plain (if err = ErrUserConflict then Problem 409 ''user_conflict''
                  else if err = ErrUserNotFound then Problem 404 ''not_found'' else Problem 500 ''server_error''), w1)
      | (Inr user, w1) \<Rightarrow>
          let w2 = (if us_Status user \<noteq> UserActive then snd (end_user_sessions cx (us_ID user) [] w1) else w1);
              w3 = (if us_Email user \<noteq> None \<and> \<not> same_email (us_Email current) (us_Email user)
                    then snd (sendEmailVerification cx lib user w2) else w2)
          in (plain (ReplyJSON 200 (user_fields cx user)), w3))"

definition replaceUser :: "request_context \<Rightarrow> site_lib \<Rightarrow> admin_handler" where
  "replaceUser cx lib access rq =
     adminSessionUser rq (\<lambda>userID current w.
       case body_of replace_user_fields zero_replace_user rq of
         None \<Rightarrow> (plain (Problem 400 ''invalid_request''), w)
       | Some input \<Rightarrow>
           (case User_Replaced current input (cx_now cx) of
              Inl _ \<Rightarrow> (plain (Problem 400 ''invalid_user''), w)
            | Inr user \<Rightarrow>
                if us_Status current = UserActive \<and> us_Status user \<noteq> UserActive
                then authorizeAdministratorDeactivation access userID (store_user cx lib current user) w
                else store_user cx lib current user w))"

section \<open>Credentials and sessions of a user\<close>

record new_password_input =
  pw_Password :: string

definition new_password_fields :: "new_password_input fields" where
  "new_password_fields = [(''password'', string_field pw_Password_update)]"

definition setUserPassword :: "request_context \<Rightarrow> site_lib \<Rightarrow> admin_handler" where
  "setUserPassword cx lib access rq =
     sensitive_user access rq (\<lambda>userID _ w.
       case body_of new_password_fields \<lparr>pw_Password = []\<rparr> rq of
         None \<Rightarrow> (plain (Problem 400 ''invalid_request''), w)
       | Some input \<Rightarrow>
           (case on_users (Password_Set (lx_idkey (wl_login lib)) (cx_random cx 21) userID (pw_Password input)) w of
              (Inl _, w1) \<Rightarrow> (plain (Problem 400 ''invalid_password''), w1)
            | (Inr _, w1) \<Rightarrow>
                (case end_user_sessions cx userID [] w1 of
                   (n, w2) \<Rightarrow>
                     (case end_trusted_devices userID w2 of
                        (d, w3) \<Rightarrow>
                          (plain (NoContent 204),
                           admin_audit cx rq ''password.set_by_admin''
                             [(''user_id'', JStr userID), (''sessions_revoked'', JInt (int n)),
                              (''trusted_devices_revoked'', JInt (int d))] w3)))))"

definition issueUserPasswordReset :: "request_context \<Rightarrow> admin_handler" where
  "issueUserPasswordReset cx access rq =
     sensitive_user access rq (\<lambda>userID _ w.
       case on_users (IssueReset (cx_sha256 cx) (cx_random cx 22) True (cx_now cx) userID (30 * minute)) w of
         (Inl _, w1) \<Rightarrow> (plain (Problem 500 ''server_error''), w1)
       | (Inr token, w1) \<Rightarrow>
           (plain (ReplyJSON 201 [(''reset_token'', JStr token), (''expires_in'', JInt 1800), (''token_type'', JStr ''one_time'')]),
            admin_audit cx rq ''password.reset_issued'' [(''user_id'', JStr userID), (''expires_in'', JInt 1800)] w1))"

definition resetAdminUserMFA :: "request_context \<Rightarrow> admin_handler" where
  "resetAdminUserMFA cx access rq =
     sensitive_user access rq (\<lambda>userID _ w.
       case on_mfa (Disable userID) w of
         (res, w1) \<Rightarrow>
           if (case res of Inl err \<Rightarrow> err \<noteq> ErrMfaNotFound | Inr _ \<Rightarrow> False) then (plain (Problem 500 ''server_error''), w1)
           else (case on_server (revoke_user_sessions cx userID []) w1 of
                   (Inl _, w2) \<Rightarrow> (plain (Problem 500 ''server_error''), w2)
                 | (Inr n, w2) \<Rightarrow>
                     (plain (NoContent 204),
                      admin_audit cx rq ''mfa.reset_by_admin'' [(''user_id'', JStr userID), (''sessions_revoked'', JInt (int n))]
                        (snd (on_server (\<lambda>s. ((), revoke_user_tokens cx userID [] s)) w2)))))"

definition verifyAdminUserEmail :: "request_context \<Rightarrow> admin_handler" where
  "verifyAdminUserEmail cx access rq =
     sensitive_user access rq (\<lambda>userID user w.
       if us_Email user = None then (plain (Problem 400 ''email_not_configured''), w)
       else if us_EmailVerified user then (plain (Problem 409 ''email_already_verified''), w)
       else case on_users (SetEmailVerified userID (cx_now cx)) w of
           (Inl _, w1) \<Rightarrow> (plain (Problem 500 ''server_error''), w1)
         | (Inr updated, w1) \<Rightarrow>
             (plain (ReplyJSON 200 (user_fields cx updated)),
              admin_audit cx rq ''email.verified_by_admin'' [(''user_id'', JStr userID)] w1))"

definition listAdminUserSessions :: "request_context \<Rightarrow> admin_handler" where
  "listAdminUserSessions cx access rq =
     adminSessionUser rq (\<lambda>userID _ w.
       (plain (ReplyJSON 200 [(''items'', JArr (map (\<lambda>item. JObj (session_fields cx item))
          (Service_ListByUser userID (cx_now cx) (srv_sessions (site_server w)))))]), w))"

definition revokeAdminUserSession :: "request_context \<Rightarrow> admin_handler" where
  "revokeAdminUserSession cx access rq =
     sensitive_user access rq (\<lambda>userID _ w.
       let sessionID = pq_PathValue rq ''sessionID'' in
       case on_server (\<lambda>s. case Service_RevokeForUser userID sessionID (cx_now cx) (srv_sessions s) of
           (Inl err, sessions) \<Rightarrow> (False, s\<lparr>srv_sessions := sessions\<rparr>)
         | (Inr _, sessions) \<Rightarrow>
             (True, snd (cleanupRevokedSessions cx [(sessionID, userID)] (s\<lparr>srv_sessions := sessions\<rparr>)))) w of
         (False, w1) \<Rightarrow> (plain (Problem 404 ''not_found''), w1)
       | (True, w1) \<Rightarrow>
           (plain (NoContent 204),
            admin_audit cx rq ''session.revoked_by_admin'' [(''user_id'', JStr userID), (''session_id'', JStr sessionID)] w1))"

definition revokeAllAdminUserSessions :: "request_context \<Rightarrow> admin_handler" where
  "revokeAllAdminUserSessions cx access rq =
     sensitive_user access rq (\<lambda>userID _ w.
       case on_server (\<lambda>s. revoke_listed cx (Service_ListByUser userID (cx_now cx) (srv_sessions s)) userID [] s) w of
         (Inl _, w1) \<Rightarrow> (plain (Problem 500 ''server_error''), w1)
       | (Inr n, w1) \<Rightarrow>
           (plain (ReplyJSON 200 [(''revoked'', JInt (int n))]),
            admin_audit cx rq ''session.revoked_all_by_admin'' [(''user_id'', JStr userID), (''count'', JInt (int n))]
              (snd (on_server (\<lambda>s. ((), revoke_user_tokens cx userID [] s)) w1))))"

section \<open>External identities\<close>

definition external_json :: "request_context \<Rightarrow> ExternalIdentity \<Rightarrow> json" where
  "external_json cx e =
     JObj ([(''id'', JStr (ei_ID e)), (''user_id'', JStr (ei_UserID e)), (''provider_id'', JStr (ei_ProviderID e)),
            (''subject'', JStr (ei_Subject e)), (''username'', JStr (ei_Username e)), (''display_name'', JStr (ei_DisplayName e))]
       @ (case ei_Email e of None \<Rightarrow> [] | Some x \<Rightarrow> [(''email'', JStr x)])
       @ [(''email_trusted'', JBool (ei_EmailTrusted e)), (''email_verified'', JBool (ei_EmailVerified e)),
          (''created_at'', json_time cx (ei_CreatedAt e)), (''last_authenticated_at'', json_time cx (ei_LastAuthenticatedAt e))])"

definition listUserExternalIdentities :: "request_context \<Rightarrow> admin_handler" where
  "listUserExternalIdentities cx access rq w =
     (let userID = pq_PathValue rq ''userID'' in
      if \<not> ValidUserID userID then (plain (Problem 404 ''not_found''), w)
      else case ListExternalIdentities userID (site_users w) of
          Inl err \<Rightarrow> (plain (if err = ErrUserNotFound then Problem 404 ''not_found'' else Problem 500 ''server_error''), w)
        | Inr items \<Rightarrow> (plain (ReplyJSON 200 [(''items'', JArr (map (external_json cx) items))]), w))"

definition remove_external :: "request_context \<Rightarrow> page_request \<Rightarrow> string \<Rightarrow> string \<Rightarrow> string \<Rightarrow> site \<Rightarrow> response \<times> site" where
  "remove_external cx rq userID externalIdentityID providerID w =
     (case on_users (DeleteExternalIdentity userID externalIdentityID) w of
        (Inl err, w1) \<Rightarrow>
          (plain (if err = ErrExternalIdentityMissing \<or> err = ErrUserNotFound then Problem 404 ''not_found''
                  else if err = ErrLastAuthentication then Problem 409 ''last_authentication_method''
                  else Problem 500 ''server_error''), w1)
      | (Inr _, w1) \<Rightarrow>
          (case end_user_sessions cx userID [] w1 of
             (n, w2) \<Rightarrow>
               (plain (NoContent 204),
                admin_audit cx rq ''external_identity.deleted_by_admin''
                  [(''user_id'', JStr userID), (''external_identity_id'', JStr externalIdentityID),
                   (''provider_id'', JStr providerID), (''sessions_revoked'', JInt (int n))] w2)))"

definition deleteUserExternalIdentity :: "request_context \<Rightarrow> admin_handler" where
  "deleteUserExternalIdentity cx access rq w =
     (let userID = pq_PathValue rq ''userID''; externalIdentityID = pq_PathValue rq ''externalIdentityID'' in
      if \<not> ValidUserID userID \<or> \<not> ValidUserID externalIdentityID then (plain (Problem 404 ''not_found''), w)
      else authorizeSensitiveAdministratorTarget access userID (\<lambda>w.
        case ListExternalIdentities userID (site_users w) of
          Inl err \<Rightarrow> (plain (if err = ErrUserNotFound then Problem 404 ''not_found'' else Problem 500 ''server_error''), w)
        | Inr items \<Rightarrow>
            let providerID = (case find (\<lambda>item. ei_ID item = externalIdentityID) items of
                  None \<Rightarrow> [] | Some item \<Rightarrow> ei_ProviderID item) in
            if providerID = [] then (plain (Problem 404 ''not_found''), w)
            else remove_external cx rq userID externalIdentityID providerID w) w)"

section \<open>Audit records and signing keys\<close>

definition optionalTime :: "request_context \<Rightarrow> string \<Rightarrow> time option option" where
  "optionalTime cx raw =
     (let raw' = TrimSpace raw in if raw' = [] then Some None else map_option Some (cx_ParseNano cx raw'))"

definition event_json :: "request_context \<Rightarrow> json Event \<Rightarrow> json" where
  "event_json cx e =
     JObj ([(''id'', JStr (ev_ID e)), (''occurred_at'', json_time cx (ev_OccurredAt e))]
       @ (case ev_ActorUserID e of None \<Rightarrow> [] | Some x \<Rightarrow> [(''actor_user_id'', JStr x)])
       @ [(''event_type'', JStr (ev_EventType e))]
       @ (case ev_ClientID e of None \<Rightarrow> [] | Some x \<Rightarrow> [(''client_id'', JStr x)])
       @ omit_empty ''ip_address'' (ev_IPAddress e) @ omit_empty ''request_id'' (ev_RequestID e)
       @ [(''outcome'', JStr (ev_Outcome e)), (''details'', case ev_Details e of None \<Rightarrow> JNull | Some d \<Rightarrow> JObj d)])"

definition audit_filter :: "request_context \<Rightarrow> page_request \<Rightarrow> Filter option" where
  "audit_filter cx rq =
     (let field = (\<lambda>k. TrimSpace (Get k (rq_Query (pq_Request rq)))) in
      case (queryInt rq ''limit'' 50 1 200, queryInt rq ''offset'' 0 0 1000000,
            optionalTime cx (field ''from''), optionalTime cx (field ''to'')) of
        (Some limit, Some offset, Some start, Some until) \<Rightarrow>
          if field ''actor_user_id'' \<noteq> [] \<and> \<not> ValidUserID (field ''actor_user_id'') then None
          else if field ''outcome'' \<notin> {[], OutcomeSuccess, OutcomeFailure} then None
          else if (case (start, until) of (Some a, Some b) \<Rightarrow> \<not> a < b | _ \<Rightarrow> False) then None
          else Some \<lparr>fi_ActorUserID = field ''actor_user_id'', fi_EventType = field ''event_type'',
                 fi_ClientID = field ''client_id'', fi_Outcome = field ''outcome'', fi_From = start, fi_To = until,
                 fi_Limit = limit, fi_Offset = offset\<rparr>
      | _ \<Rightarrow> None)"

definition listAuditEvents :: "request_context \<Rightarrow> admin_handler" where
  "listAuditEvents cx access rq w =
     (case audit_filter cx rq of
        None \<Rightarrow> (plain (Problem 400 ''invalid_request''), w)
      | Some f \<Rightarrow>
          (case Audit_List f (srv_audit (site_server w)) of
             None \<Rightarrow> (plain Aborted, w)
           | Some page \<Rightarrow>
               (plain (ReplyJSON 200 [(''items'', JArr (map (event_json cx) (pa_Items page))), (''total'', JInt (pa_Total page)),
                  (''limit'', JInt (pa_Limit page)), (''offset'', JInt (pa_Offset page))]), w)))"

definition key_json :: "request_context \<Rightarrow> SigningKey \<Rightarrow> json" where
  "key_json cx k =
     JObj ([(''kid'', JStr (ky_KID k)), (''active'', JBool (ky_Active k)), (''created_at'', json_time cx (ky_CreatedAt k))]
       @ (case ky_RetiredAt k of None \<Rightarrow> [] | Some t \<Rightarrow> [(''retired_at'', json_time cx t)]))"

definition listSigningKeys :: "request_context \<Rightarrow> admin_handler" where
  "listSigningKeys cx access rq w =
     (plain (ReplyJSON 200 [(''items'', JArr (map (key_json cx) (ListKeys (srv_keys (site_server w)))))]), w)"

definition rotateSigningKey :: "request_context \<Rightarrow> site_lib \<Rightarrow> admin_handler" where
  "rotateSigningKey cx lib access rq w =
     (case on_server (\<lambda>s. case Rotate (cx_lib cx) (wl_GeneratedKey lib) (cx_now cx) (srv_keys s) (srv_signer s) of
         (res, sg, keys) \<Rightarrow> (res, s\<lparr>srv_signer := sg, srv_keys := keys\<rparr>)) w of
        (Inl _, w1) \<Rightarrow> (plain (Problem 500 ''server_error''), w1)
      | (Inr kid, w1) \<Rightarrow>
          (plain (ReplyJSON 201 [(''kid'', JStr kid), (''algorithm'', JStr ''RS256''), (''active'', JBool True)]),
           admin_audit cx rq ''oidc.signing_key_rotated'' [(''kid'', JStr kid), (''automatic'', JBool False)] w1))"

end
