(* ===== verification/Access_Pages.thy ===== *)
theory Access_Pages
  imports Admin_Pages
begin

text \<open>
  What clients and administrators read and write about access, from \<open>access.go\<close>, \<open>client_status.go\<close> and
  \<open>client_capabilities.go\<close> in \<open>internal/platform/http\<close>: the roles and permissions of a client, the roles of a user, and the calls
  a client makes with its own secret. The random draw 28 identifies a new role or permission.
\<close>

section \<open>Roles and permissions of a client\<close>

definition on_access :: "(AccessRepository \<Rightarrow> 'a \<times> AccessRepository) \<Rightarrow> site \<Rightarrow> 'a \<times> site" where
  "on_access f = on_server (\<lambda>s. case f (srv_access s) of (x, r) \<Rightarrow> (x, s\<lparr>srv_access := r\<rparr>))"

definition accessClient :: "page_request \<Rightarrow> (Client \<Rightarrow> site \<Rightarrow> response \<times> site) \<Rightarrow> site \<Rightarrow> response \<times> site" where
  "accessClient rq handler w =
     (case Client_Find (pq_PathValue rq ''clientID'') (srv_clients (site_server w)) of
        Inl _ \<Rightarrow> (plain (Problem 404 ''not_found''), w)
      | Inr c \<Rightarrow> if cl_ArchivedAt c \<noteq> None then (plain (Problem 404 ''not_found''), w) else handler c w)"

definition client_audit :: "request_context \<Rightarrow> page_request \<Rightarrow> string \<Rightarrow> Client \<Rightarrow> (string, json) gomap \<Rightarrow> site \<Rightarrow> site" where
  "client_audit cx rq type c details = site_audit cx rq None type (cl_ID c) OutcomeSuccess (Some details)"

definition access_input_fields :: "access_input fields" where
  "access_input_fields =
     [(''code'', string_field ai_Code_update), (''name'', string_field ai_Name_update),
      (''description'', string_field ai_Description_update)]"

definition zero_access_input :: access_input where
  "zero_access_input = \<lparr>ai_Code = [], ai_Name = [], ai_Description = []\<rparr>"

definition role_fields :: "request_context \<Rightarrow> Role \<Rightarrow> (string \<times> json) list" where
  "role_fields cx x =
     [(''id'', JStr (ro_ID x)), (''client_id'', JStr (ro_ClientID x)), (''code'', JStr (ro_Code x)), (''name'', JStr (ro_Name x))]
     @ omit_empty ''description'' (ro_Description x)
     @ [(''created_at'', json_time cx (ro_CreatedAt x)), (''updated_at'', json_time cx (ro_UpdatedAt x))]"

definition permission_fields :: "request_context \<Rightarrow> Permission \<Rightarrow> (string \<times> json) list" where
  "permission_fields cx x =
     [(''id'', JStr (pe_ID x)), (''client_id'', JStr (pe_ClientID x)), (''code'', JStr (pe_Code x)), (''name'', JStr (pe_Name x))]
     @ omit_empty ''description'' (pe_Description x)
     @ [(''created_at'', json_time cx (pe_CreatedAt x)), (''updated_at'', json_time cx (pe_UpdatedAt x))]"

definition items_reply :: "('a \<Rightarrow> (string \<times> json) list) \<Rightarrow> 'a list \<Rightarrow> response" where
  "items_reply f xs = plain (ReplyJSON 200 [(''items'', JArr (map (\<lambda>x. JObj (f x)) xs))])"

definition listRoles :: "request_context \<Rightarrow> admin_handler" where
  "listRoles cx access rq =
     accessClient rq (\<lambda>c w. (items_reply (role_fields cx) (ListRoles (cl_ID c) (srv_access (site_server w))), w))"

text \<open>The reply to an error of the repository: not found, the code of a conflict, the code of an object in use.\<close>

definition access_problem :: "string \<Rightarrow> string \<Rightarrow> access_error \<Rightarrow> reply" where
  "access_problem conflict in_use err =
     (if err = ErrAccessNotFound then Problem 404 ''not_found''
      else if err = ErrAccessConflict \<and> conflict \<noteq> [] then Problem 409 conflict
      else if err = ErrAccessInUse \<and> in_use \<noteq> [] then Problem 409 in_use
      else Problem 500 ''server_error'')"

definition createRole :: "request_context \<Rightarrow> admin_handler" where
  "createRole cx access rq =
     accessClient rq (\<lambda>c w.
       case body_of access_input_fields zero_access_input rq of
         None \<Rightarrow> (plain (Problem 400 ''invalid_request''), w)
       | Some input \<Rightarrow>
           (case NewRole (cx_random cx 28) (cl_ID c) input (cx_now cx) of
              Inl _ \<Rightarrow> (plain (Problem 400 ''invalid_role''), w)
            | Inr v \<Rightarrow>
                (case on_access (CreateRole v) w of
                   (Inl err, w1) \<Rightarrow>
                     (plain (if err = ErrAccessConflict then Problem 409 ''role_conflict'' else Problem 500 ''server_error''), w1)
                 | (Inr stored, w1) \<Rightarrow>
                     (plain (ReplyJSON 201 (role_fields cx stored)),
                      client_audit cx rq ''access.role.created'' c
                        [(''role_id'', JStr (ro_ID stored)), (''code'', JStr (ro_Code stored))] w1))))"

definition getRole :: "request_context \<Rightarrow> admin_handler" where
  "getRole cx access rq =
     accessClient rq (\<lambda>c w.
       (plain (case FindRole (cl_ID c) (pq_PathValue rq ''roleID'') (srv_access (site_server w)) of
                 Inl err \<Rightarrow> access_problem [] [] err
               | Inr v \<Rightarrow> ReplyJSON 200 (role_fields cx v)), w))"

definition replaceRole :: "request_context \<Rightarrow> admin_handler" where
  "replaceRole cx access rq =
     accessClient rq (\<lambda>c w.
       case FindRole (cl_ID c) (pq_PathValue rq ''roleID'') (srv_access (site_server w)) of
         Inl err \<Rightarrow> (plain (access_problem [] [] err), w)
       | Inr current \<Rightarrow>
           (case body_of access_input_fields zero_access_input rq of
              None \<Rightarrow> (plain (Problem 400 ''invalid_request''), w)
            | Some input \<Rightarrow>
                (case Role_Updated current input (cx_now cx) of
                   Inl _ \<Rightarrow> (plain (Problem 400 ''invalid_role''), w)
                 | Inr v \<Rightarrow>
                     (case on_access (ReplaceRole v) w of
                        (Inl err, w1) \<Rightarrow> (plain (access_problem ''role_conflict'' [] err), w1)
                      | (Inr stored, w1) \<Rightarrow>
                          (plain (ReplyJSON 200 (role_fields cx stored)),
                           client_audit cx rq ''access.role.updated'' c
                             [(''role_id'', JStr (ro_ID stored)), (''code'', JStr (ro_Code stored))] w1)))))"

definition deleteRole :: "request_context \<Rightarrow> admin_handler" where
  "deleteRole cx access rq =
     accessClient rq (\<lambda>c w.
       let roleID = pq_PathValue rq ''roleID'' in
       case on_access (DeleteRole (cl_ID c) roleID) w of
         (Inl err, w1) \<Rightarrow> (plain (access_problem [] ''role_in_use'' err), w1)
       | (Inr _, w1) \<Rightarrow>
           (plain (NoContent 204), client_audit cx rq ''access.role.deleted'' c [(''role_id'', JStr roleID)] w1))"

definition listPermissions :: "request_context \<Rightarrow> admin_handler" where
  "listPermissions cx access rq =
     accessClient rq (\<lambda>c w. (items_reply (permission_fields cx) (ListPermissions (cl_ID c) (srv_access (site_server w))), w))"

definition createPermission :: "request_context \<Rightarrow> admin_handler" where
  "createPermission cx access rq =
     accessClient rq (\<lambda>c w.
       case body_of access_input_fields zero_access_input rq of
         None \<Rightarrow> (plain (Problem 400 ''invalid_request''), w)
       | Some input \<Rightarrow>
           (case NewPermission (cx_random cx 28) (cl_ID c) input (cx_now cx) of
              Inl _ \<Rightarrow> (plain (Problem 400 ''invalid_permission''), w)
            | Inr v \<Rightarrow>
                (case on_access (CreatePermission v) w of
                   (Inl err, w1) \<Rightarrow>
                     (plain (if err = ErrAccessConflict then Problem 409 ''permission_conflict'' else Problem 500 ''server_error''), w1)
                 | (Inr stored, w1) \<Rightarrow>
                     (plain (ReplyJSON 201 (permission_fields cx stored)),
                      client_audit cx rq ''access.permission.created'' c
                        [(''permission_id'', JStr (pe_ID stored)), (''code'', JStr (pe_Code stored))] w1))))"

definition getPermission :: "request_context \<Rightarrow> admin_handler" where
  "getPermission cx access rq =
     accessClient rq (\<lambda>c w.
       (plain (case FindPermission (cl_ID c) (pq_PathValue rq ''permissionID'') (srv_access (site_server w)) of
                 Inl err \<Rightarrow> access_problem [] [] err
               | Inr v \<Rightarrow> ReplyJSON 200 (permission_fields cx v)), w))"

definition replacePermission :: "request_context \<Rightarrow> admin_handler" where
  "replacePermission cx access rq =
     accessClient rq (\<lambda>c w.
       case FindPermission (cl_ID c) (pq_PathValue rq ''permissionID'') (srv_access (site_server w)) of
         Inl err \<Rightarrow> (plain (access_problem [] [] err), w)
       | Inr current \<Rightarrow>
           (case body_of access_input_fields zero_access_input rq of
              None \<Rightarrow> (plain (Problem 400 ''invalid_request''), w)
            | Some input \<Rightarrow>
                (case Permission_Updated current input (cx_now cx) of
                   Inl _ \<Rightarrow> (plain (Problem 400 ''invalid_permission''), w)
                 | Inr v \<Rightarrow>
                     (case on_access (ReplacePermission v) w of
                        (Inl err, w1) \<Rightarrow> (plain (access_problem ''permission_conflict'' [] err), w1)
                      | (Inr stored, w1) \<Rightarrow>
                          (plain (ReplyJSON 200 (permission_fields cx stored)),
                           client_audit cx rq ''access.permission.updated'' c
                             [(''permission_id'', JStr (pe_ID stored)), (''code'', JStr (pe_Code stored))] w1)))))"

definition deletePermission :: "request_context \<Rightarrow> admin_handler" where
  "deletePermission cx access rq =
     accessClient rq (\<lambda>c w.
       let permissionID = pq_PathValue rq ''permissionID'' in
       case on_access (DeletePermission (cl_ID c) permissionID) w of
         (Inl err, w1) \<Rightarrow> (plain (access_problem [] ''permission_in_use'' err), w1)
       | (Inr _, w1) \<Rightarrow>
           (plain (NoContent 204), client_audit cx rq ''access.permission.deleted'' c [(''permission_id'', JStr permissionID)] w1))"

definition listRolePermissions :: "request_context \<Rightarrow> admin_handler" where
  "listRolePermissions cx access rq =
     accessClient rq (\<lambda>c w.
       (case ListRolePermissions (cl_ID c) (pq_PathValue rq ''roleID'') (srv_access (site_server w)) of
          Inl err \<Rightarrow> plain (access_problem [] [] err)
        | Inr items \<Rightarrow> items_reply (permission_fields cx) items, w))"

record permission_ids_input =
  ii_PermissionIDs :: "string list"

definition replaceRolePermissions :: "request_context \<Rightarrow> admin_handler" where
  "replaceRolePermissions cx access rq =
     accessClient rq (\<lambda>c w.
       case body_of [(''permission_ids'', strings_field ii_PermissionIDs_update)] \<lparr>ii_PermissionIDs = []\<rparr> rq of
         None \<Rightarrow> (plain (Problem 400 ''invalid_request''), w)
       | Some input \<Rightarrow>
           let roleID = pq_PathValue rq ''roleID'' in
           (case on_access (SetRolePermissions (cl_ID c) roleID (ii_PermissionIDs input)) w of
              (Inl err, w1) \<Rightarrow> (plain (access_problem [] [] err), w1)
            | (Inr _, w1) \<Rightarrow>
                (plain (NoContent 204),
                 client_audit cx rq ''access.role_permissions.updated'' c
                   [(''role_id'', JStr roleID), (''permission_ids'', JStrs (ii_PermissionIDs input))] w1)))"

section \<open>Roles of a user\<close>

definition user_role_fields :: "request_context \<Rightarrow> UserRole \<Rightarrow> (string \<times> json) list" where
  "user_role_fields cx x =
     [(''user_id'', JStr (ur_UserID x)), (''role'', JObj (role_fields cx (ur_Role x))), (''granted_at'', json_time cx (ur_GrantedAt x)),
      (''granted_by'', JStr (ur_GrantedBy x))]
     @ (case ur_ExpiresAt x of None \<Rightarrow> [] | Some t \<Rightarrow> [(''expires_at'', json_time cx t)])"

definition listUserRoles :: "request_context \<Rightarrow> admin_handler" where
  "listUserRoles cx access rq =
     adminSessionUser rq (\<lambda>userID _ w.
       let q = rq_Query (pq_Request rq) in
       (items_reply (user_role_fields cx)
          (ListUserRoles userID (Get ''client_id'' q) (Get ''include_expired'' q = ''true'') (cx_now cx) (srv_access (site_server w))), w))"

record grants_input =
  gi_Roles :: "RoleGrant list"

definition grant_fields :: "request_context \<Rightarrow> RoleGrant fields" where
  "grant_fields cx =
     [(''role_id'', string_field rg_RoleID_update), (''expires_at'', time_pointer_field cx rg_ExpiresAt_update)]"

definition grants_input_fields :: "request_context \<Rightarrow> grants_input fields" where
  "grants_input_fields cx =
     [(''roles'', slice_field (\<lambda>v. decode_struct (grant_fields cx) v \<lparr>rg_RoleID = [], rg_ExpiresAt = None\<rparr>) gi_Roles_update)]"

definition role_grant_json :: "request_context \<Rightarrow> RoleGrant \<Rightarrow> json" where
  "role_grant_json cx g =
     JObj ((''role_id'', JStr (rg_RoleID g)) # (case rg_ExpiresAt g of None \<Rightarrow> [] | Some t \<Rightarrow> [(''expires_at'', json_time cx t)]))"

definition replaceUserRoles :: "request_context \<Rightarrow> admin_handler" where
  "replaceUserRoles cx access rq =
     adminSessionUser rq (\<lambda>userID _ w.
       case body_of (grants_input_fields cx) \<lparr>gi_Roles = []\<rparr> rq of
         None \<Rightarrow> (plain (Problem 400 ''invalid_request''), w)
       | Some input \<Rightarrow>
           if ValidateRoleGrants (gi_Roles input) (cx_now cx) \<noteq> Inr () then (plain (Problem 400 ''invalid_role_grants''), w)
           else (case on_access (ReplaceUserRoles userID (gi_Roles input) (grantedBy access) (cx_now cx)) w of
                   (Inl err, w1) \<Rightarrow> (plain (access_problem [] [] err), w1)
                 | (Inr _, w1) \<Rightarrow>
                     (plain (NoContent 204),
                      admin_audit cx rq ''access.user_roles.updated''
                        [(''user_id'', JStr userID), (''roles'', JArr (map (role_grant_json cx) (gi_Roles input)))] w1)))"

section \<open>Calls of a client\<close>

definition getEffectiveAccess :: "request_context \<Rightarrow> page_request \<Rightarrow> site \<Rightarrow> response \<times> site" where
  "getEffectiveAccess cx rq w =
     (case authenticateConfidentialOAuthClientBasic cx (pq_Request rq) (site_server w) of
        Inl refusal \<Rightarrow> (plain refusal, w)
      | Inr registered \<Rightarrow>
          if ''roles'' \<notin> set (cl_AllowedScopes registered) then (plain (OAuthError 403 ''insufficient_scope''), w)
          else let userID = pq_PathValue rq ''userID'' in
            if \<not> ValidUserID userID \<or> active_user userID (site_server w) = None then (plain (Problem 404 ''not_found''), w)
            else let r = srv_access (site_server w); e = Effective userID (cl_ID registered) (cx_now cx) r r in
              (plain (ReplyJSON 200 [(''user_id'', JStr (en_UserID e)), (''client_id'', JStr (en_ClientID e)),
                 (''roles'', JStrs (en_Roles e)), (''permissions'', JStrs (en_Permissions e))]), w))"

text \<open>The client of a call, and the record of a failed authentication; the claimed identifier is not attributed to a client.\<close>

definition authenticated_call ::
  "request_context \<Rightarrow> page_request \<Rightarrow> (Client \<Rightarrow> site \<Rightarrow> response \<times> site) \<Rightarrow> site \<Rightarrow> response \<times> site" where
  "authenticated_call cx rq handler w =
     (case authenticateConfidentialOAuthClientBasic cx (pq_Request rq) (site_server w) of
        Inl refusal \<Rightarrow>
          let attempted = (case BasicAuth (pq_Request rq) of None \<Rightarrow> [] | Some (clientID, _) \<Rightarrow> clientID) in
          (plain refusal,
           site_audit cx rq None ''client.authentication_failed'' [] OutcomeFailure
             (Some (if attempted = [] then [(''reason'', JStr ''missing_credentials'')]
                    else [(''reason'', JStr ''invalid_credentials''), (''client_id'', JStr attempted)])) w)
      | Inr registered \<Rightarrow> handler registered w)"

definition recordClientStatusQuery :: "request_context \<Rightarrow> page_request \<Rightarrow> string \<Rightarrow> string \<Rightarrow> string \<Rightarrow> site \<Rightarrow> site" where
  "recordClientStatusQuery cx rq clientID userID reason =
     site_audit cx rq None ''user.status_queried'' clientID OutcomeFailure
       (Some [(''user_id'', JStr userID), (''reason'', JStr reason)])"

definition status_body :: "request_context \<Rightarrow> Client \<Rightarrow> User \<Rightarrow> (string \<times> json) list" where
  "status_body cx registered user =
     [(''sub'', JStr (us_ID user)), (''status'', JStr (us_Status user)), (''email_verified'', JBool (us_EmailVerified user)),
      (''updated_at'', json_time cx (us_UpdatedAt user))]
     @ (case us_Email user of
          None \<Rightarrow> []
        | Some e \<Rightarrow> if ''email'' \<in> set (cl_AllowedScopes registered) then [(''email'', JStr e)] else [])"

definition clientUserStatus :: "request_context \<Rightarrow> page_request \<Rightarrow> site \<Rightarrow> response \<times> site" where
  "clientUserStatus cx rq =
     authenticated_call cx rq (\<lambda>registered w.
       let userID = pq_PathValue rq ''userID''; clientID = cl_ID registered;
           hidden = (\<lambda>w. (plain (NoContent 404), recordClientStatusQuery cx rq clientID userID ''not_found'' w))
       in case on_server (allowClientStatusLookup cx clientID) w of
            (Some refusal, w1) \<Rightarrow> (plain refusal, recordClientStatusQuery cx rq clientID userID ''rate_limited'' w1)
          | (None, w1) \<Rightarrow>
              if \<not> ValidUserID userID then hidden w1
              else (case FindConsent userID clientID (srv_oauth (site_server w1)) of
                      Inl _ \<Rightarrow> hidden w1
                    | Inr _ \<Rightarrow>
                        (case User_Find userID (site_users w1) of
                           Inl _ \<Rightarrow> hidden w1
                         | Inr user \<Rightarrow>
                             (plain (ReplyJSON 200 (status_body cx registered user)),
                              client_audit cx rq ''user.status_queried'' registered [(''user_id'', JStr (us_ID user))] w1))))"

definition supportedClientCapabilities :: "string list" where
  "supportedClientCapabilities = [''client_user_status'', ''cross_client_introspection'', ''email_verified'']"

text \<open>\<open>json.Marshal\<close> of a struct: the fields in the order of their declaration.\<close>

definition marshal_struct :: "(string \<times> json) list \<Rightarrow> string" where
  "marshal_struct kvs = CHR ''{'' # Join '','' (map (\<lambda>(k, v). quoted k @ '':'' @ Marshal v) kvs) @ ''}''"

definition clientCapabilitiesRevision :: "(bytes \<Rightarrow> bytes) \<Rightarrow> string \<Rightarrow> string list \<Rightarrow> string list \<Rightarrow> string" where
  "clientCapabilitiesRevision sha256 clientID features introspectable =
     ''v1.'' @ RawURLEncoding_EncodeToString (sha256 (bytes_of (marshal_struct
       [(''schema_version'', JInt 1), (''client_id'', JStr clientID), (''features'', JStrs features),
        (''introspection_sources'', JStrs introspectable)])))"

definition introspection_source :: "Client \<Rightarrow> Client \<Rightarrow> bool" where
  "introspection_source registered candidate =
     (\<not> (cl_ID candidate = cl_ID registered \<or> \<not> cl_Enabled candidate \<or> cl_ArchivedAt candidate \<noteq> None \<or>
         \<not> SupportsOAuth candidate \<or> cl_ID registered \<notin> set (cl_IntrospectableBy candidate)))"

definition clientCapabilities :: "request_context \<Rightarrow> page_request \<Rightarrow> site \<Rightarrow> response \<times> site" where
  "clientCapabilities cx rq =
     authenticated_call cx rq (\<lambda>registered w.
       case on_server (allowClientCapabilitiesLookup cx (cl_ID registered)) w of
         (Some refusal, w1) \<Rightarrow>
           (plain refusal, site_audit cx rq None ''client.capabilities_queried'' (cl_ID registered) OutcomeFailure
              (Some [(''reason'', JStr ''rate_limited'')]) w1)
       | (None, w1) \<Rightarrow>
           let introspectable = sort (map cl_ID (filter (introspection_source registered) (Client_List (srv_clients (site_server w1)))));
               revision = clientCapabilitiesRevision (cx_sha256 cx) (cl_ID registered) supportedClientCapabilities introspectable
           in (plain (ReplyJSON 200 [(''schema_version'', JInt 1), (''features'', JStrs supportedClientCapabilities),
                 (''introspection_sources'', JStrs introspectable), (''config_revision'', JStr revision)]),
               client_audit cx rq ''client.capabilities_queried'' registered
                 [(''schema_version'', JInt 1), (''introspection_source_count'', JInt (int (length introspectable))),
                  (''config_revision'', JStr revision)] w1))"

end
