(* ===== verification/Account_Flows.thy ===== *)
theory Account_Flows
  imports Access_Pages Login_Flows
begin

text \<open>
  What the pages keep of the accounts. The contract \<open>account_relation\<close> is a relation between sites that ignores everything but
  accounts, second factors and administrators; \<open>obeys\<close> says that a handler keeps to it, with a rule for each of the wrappers that
  handlers are built from. Its first interpretation is \<open>site_keeps\<close>: accounts stay well-formed, no user disappears or changes
  status, and the administrators stay as they are. Every page of a signed-in user and every sign-in keeps to it.
\<close>

section \<open>Frames\<close>

definition same_accounts :: "site \<Rightarrow> site \<Rightarrow> bool" where
  "same_accounts w w' \<longleftrightarrow> site_users w' = site_users w \<and> si_administrators w' = si_administrators w
     \<and> lg_mfa (si_login w') = lg_mfa (si_login w)"

lemma on_server_eq: "on_server f w = (fst (f (site_server w)), w\<lparr>si_login := (si_login w)\<lparr>lg_core := snd (f (site_server w))\<rparr>\<rparr>)"
  by (simp add: on_server_def on_login_def on_core_def split: prod.split)

lemma on_users_eq: "on_users f w = (fst (f (site_users w)),
    w\<lparr>si_login := (si_login w)\<lparr>lg_core := (site_server w)\<lparr>srv_users := snd (f (site_users w))\<rparr>\<rparr>\<rparr>)"
  by (simp add: on_users_def on_server_eq split: prod.split)

lemma on_mfa_eq: "on_mfa f w = (fst (f (lg_mfa (si_login w))), w\<lparr>si_login := (si_login w)\<lparr>lg_mfa := snd (f (lg_mfa (si_login w)))\<rparr>\<rparr>)"
  by (simp add: on_mfa_def on_login_def split: prod.split)

lemma recordAudit_stores [simp]:
  "srv_users (recordAudit cx rq e s) = srv_users s" "srv_sessions (recordAudit cx rq e s) = srv_sessions s"
  "srv_oauth (recordAudit cx rq e s) = srv_oauth s" "srv_clients (recordAudit cx rq e s) = srv_clients s"
  by (simp_all add: recordAudit_def Let_def split: sum.split)

lemma audit_same [simp]: "same_accounts w (site_audit cx rq actor type clientID outcome details w)"
  by (simp add: same_accounts_def site_audit_def login_audit_def)

lemma same_refl [simp]: "same_accounts w w" by (simp add: same_accounts_def)

lemma on_server_same: "(\<And>s. srv_users (snd (f s)) = srv_users s) \<Longrightarrow> same_accounts w (snd (on_server f w))"
  by (simp add: same_accounts_def on_server_eq)

lemma currentSession_users [simp]: "srv_users (snd (currentSession cx rq s)) = srv_users s"
  by (auto simp: currentSession_def split: option.split prod.split sum.split)

lemma limit_users [simp]: "srv_users (snd (allowRateLimitedRequest cx a b c d s)) = srv_users s"
  by (auto simp: allowRateLimitedRequest_def Let_def split: prod.split sum.split)

lemma limit_users_both [simp]:
  "srv_users (snd (allow_both cx rq a b u p s)) = srv_users s"
proof -
  obtain x s1 where 1: "allowRateLimitedRequest cx a (rq_IPAddress rq) p False s = (x, s1)" by fastforce
  from limit_users [of cx a "rq_IPAddress rq" p False s] have "srv_users s1 = srv_users s" unfolding 1 by simp
  then show ?thesis by (simp add: allow_both_def 1 split: option.split)
qed

lemma limits_users [simp]:
  "srv_users (snd (allowMFAAttempt cx rq u s)) = srv_users s"
  "srv_users (snd (allowEmailVerificationAttempt cx rq u s)) = srv_users s"
  "srv_users (snd (allowRegistrationAttempt cx rq s)) = srv_users s"
  "srv_users (snd (allowClientStatusLookup cx c s)) = srv_users s"
  "srv_users (snd (allowClientCapabilitiesLookup cx c s)) = srv_users s"
  by (simp_all add: allowMFAAttempt_def allowEmailVerificationAttempt_def allowRegistrationAttempt_def
      allowClientStatusLookup_def allowClientCapabilitiesLookup_def)

lemma cleanup_fold_users [simp]: "srv_users (fold (cleanup_session cx) xs s) = srv_users s"
  by (induction xs arbitrary: s) (simp_all add: cleanup_session_def Let_def)

lemma cleanup_users [simp]: "srv_users (snd (cleanupRevokedSessions cx xs s)) = srv_users s"
  by (simp add: cleanupRevokedSessions_def notifyOIDCBackchannelLogout_def Let_def)

lemma revoke_users [simp]:
  "srv_users (snd (revoke_listed cx ending u ex s)) = srv_users s"
  "srv_users (snd (revoke_user_sessions cx u ex s)) = srv_users s"
  "srv_users (revoke_user_tokens cx u ex s) = srv_users s"
  by (auto simp: revoke_listed_def revoke_user_sessions_def revoke_user_tokens_def split: prod.split sum.split)

lemma end_sessions_same [simp]: "same_accounts w (snd (end_user_sessions cx u ex w))"
proof -
  have "srv_users (revoke_user_tokens cx u ex s1) = srv_users s" if "revoke_user_sessions cx u ex s = (res, s1)" for res s s1
    using revoke_users(2) [of cx u ex s] that by simp
  then show ?thesis unfolding end_user_sessions_def by (intro on_server_same) (simp split: prod.split)
qed

section \<open>Handlers and relations between sites\<close>

text \<open>A relation that ignores everything but accounts, second factors and administrators, and what handlers do to it.\<close>

locale account_relation =
  fixes R :: "site \<Rightarrow> site \<Rightarrow> bool"
  assumes frame: "same_accounts w w' \<Longrightarrow> R w w'"
    and trans: "R w w1 \<Longrightarrow> R w1 w2 \<Longrightarrow> R w w2"
begin

definition obeys :: "(site \<Rightarrow> 'a \<times> site) \<Rightarrow> bool" where
  "obeys h \<longleftrightarrow> (\<forall>w. R w (snd (h w)))"

lemma obeysI: "(\<And>w. R w (snd (h w))) \<Longrightarrow> obeys h"
  by (simp add: obeys_def)

lemma obeysD: "obeys h \<Longrightarrow> h w = (x, w') \<Longrightarrow> R w w'"
  unfolding obeys_def by (metis snd_conv)

lemma refl [simp]: "R w w" by (simp add: frame)

lemma after_server:
  "on_server f w = (x, w1) \<Longrightarrow> (\<And>s. srv_users (snd (f s)) = srv_users s) \<Longrightarrow> R w1 w2 \<Longrightarrow> R w w2"
  by (metis frame on_server_same snd_conv trans)

lemma after_audit: "R w w' \<Longrightarrow> R w (site_audit cx rq actor type clientID outcome details w')"
  by (rule trans) (auto intro: frame)

lemma after_sessions: "R w w' \<Longrightarrow> R w (snd (end_user_sessions cx u ex w'))"
  by (rule trans) (auto intro: frame)

lemma obeys_session: "(\<And>current. obeys (handler current)) \<Longrightarrow> obeys (requireCurrentSession cx rq handler)"
  unfolding obeys_def requireCurrentSession_def
  by (auto intro: after_server split: prod.split option.split)

lemma obeys_csrf: "obeys handler \<Longrightarrow> obeys (requireAccountCSRF rq handler)"
  unfolding obeys_def requireAccountCSRF_def by auto

lemma obeys_change: "(\<And>current. obeys (handler current)) \<Longrightarrow> obeys (account_change cx rq handler)"
  unfolding account_change_def by (intro obeys_session obeys_csrf)

lemma obeys_limit: "obeys handler \<Longrightarrow> obeys (limit_verifications cx rq u handler)"
  unfolding obeys_def limit_verifications_def
  by (auto intro: after_server split: prod.split option.split)

lemma obeys_body:
  "(\<And>input. obeys (handler input)) \<Longrightarrow>
   obeys (\<lambda>w. case body_of fs zero rq of None \<Rightarrow> (refusal, w) | Some input \<Rightarrow> handler input w)"
  unfolding obeys_def by (simp split: option.split)

lemma obeys_target: "obeys handler \<Longrightarrow> obeys (authorizeSensitiveAdministratorTarget access u handler)"
  unfolding obeys_def authorizeSensitiveAdministratorTarget_def by simp

lemma obeys_user: "(\<And>u user. obeys (handler u user)) \<Longrightarrow> obeys (adminSessionUser rq handler)"
  unfolding obeys_def adminSessionUser_def by (simp add: Let_def split: sum.split)

lemma obeys_sensitive: "(\<And>u user. obeys (handler u user)) \<Longrightarrow> obeys (sensitive_user access rq handler)"
  unfolding sensitive_user_def by (intro obeys_user obeys_target)

lemma obeys_client: "(\<And>c. obeys (handler c)) \<Longrightarrow> obeys (accessClient rq handler)"
  unfolding obeys_def accessClient_def by (simp split: sum.split)

lemma authenticated_same:
  "authenticateAdministrator cx lib permission rq w = (x, w1) \<Longrightarrow> same_accounts w w1"
  using on_server_same [of "currentSession cx (pq_Request rq)" w]
  by (auto simp: authenticateAdministrator_def Let_def split: if_splits prod.splits option.splits)

lemma after_require:
  assumes "\<And>access how rq1 w1. authenticateAdministrator cx lib permission rq w = (Inr (access, how), w1) \<Longrightarrow> R w1 (snd (handler access rq1 w1))"
  shows "R w (snd (auditMutations cx rq (requireAdmin cx lib permission handler rq w)))"
proof -
  obtain x w1 where a: "authenticateAdministrator cx lib permission rq w = (x, w1)" by fastforce
  have w1: "R w w1" by (rule frame) (rule authenticated_same [OF a])
  have "R w (snd (requireAdmin cx lib permission handler rq w))"
  proof (cases x)
    case (Inl e)
    with a w1 show ?thesis by (simp add: requireAdmin_def case_prod_beta)
  next
    case (Inr y)
    obtain access how where "y = (access, how)" by fastforce
    with a Inr w1 trans [OF w1] assms show ?thesis by (simp add: requireAdmin_def Let_def case_prod_beta)
  qed
  then show ?thesis by (auto simp: auditMutations_def Let_def intro: after_audit split: prod.split)
qed

end

section \<open>Requests that keep every account usable\<close>

definition keeps :: "UserRepository \<Rightarrow> UserRepository \<Rightarrow> bool" where
  "keeps r r' \<longleftrightarrow> (accounts_ok r \<longrightarrow> accounts_ok r' \<and>
     (\<forall>i u. map_of (users r) i = Some u \<longrightarrow> (\<exists>u'. map_of (users r') i = Some u' \<and> us_Status u' = us_Status u)))"

lemma keeps_frame: "users r' = users r \<Longrightarrow> keeps r r'"
  by (auto simp: keeps_def dest: accounts_ok_frame)

lemma keeps_refl [simp]: "keeps r r" by (simp add: keeps_frame)

lemma keeps_trans: "keeps r r1 \<Longrightarrow> keeps r1 r2 \<Longrightarrow> keeps r r2"
  unfolding keeps_def by metis

lemma keeps_put:
  assumes "accounts_ok r \<Longrightarrow> accounts_ok r'" and "users r' = map_put i v (users r)"
    and "\<And>u. accounts_ok r \<Longrightarrow> map_of (users r) i = Some u \<Longrightarrow> us_Status v = us_Status u"
  shows "keeps r r'"
  using assms by (simp add: keeps_def)

lemma keeps_create: "map_of (users r) (us_ID u) = None \<Longrightarrow> keeps r (snd (User_Create u r))"
  using User_Create_accounts [of r u] by (auto simp: keeps_def User_Create_def)

lemma keeps_create_with_password: "keeps r (snd (CreateWithPassword u h r))"
  using CreateWithPassword_accounts [of r u h] by (auto simp: keeps_def CreateWithPassword_def split: option.split if_splits)

lemma store_migrated_users:
  "migration_free us es ids ms \<Longrightarrow> i \<in> set ids \<Longrightarrow> map_of (users (store_migrated ms r)) i = map_of (users r) i"
proof (induction ms arbitrary: us es ids r)
  case (Cons m ms)
  then show ?case by (auto simp: Let_def split: if_splits option.splits)
qed simp

lemma keeps_migrated: "keeps r (snd (CreateWithMigratedPasswords ms r))"
proof -
  let ?ids = "map us_ID (map snd (users r))"
  have "map_of (users (store_migrated ms r)) i = Some u"
    if "accounts_ok r" "migration_free us es ?ids ms" "map_of (users r) i = Some u" for us es i u
  proof -
    have "us_ID u = i" using that(1,3) accounts_okD by blast
    moreover have "u \<in> set (map snd (users r))" using that(3) by (force dest: map_of_SomeD)
    ultimately have "i \<in> set ?ids" by force
    with store_migrated_users [OF that(2), of i r] that(3) show ?thesis by simp
  qed
  then show ?thesis
    using migrated_accounts [of r ms]
    by (auto simp: keeps_def CreateWithMigratedPasswords_def Let_def)
qed


lemma keeps_replace:
  assumes "User_Replaced current input now = Inr u" and "accounts_ok r \<Longrightarrow> map_of (users r) (us_ID current) = Some current"
    and "us_Status u = us_Status current"
  shows "keeps r (snd (User_Replace u r))"
proof (cases "accounts_ok r")
  case True
  have u: "us_ID u = us_ID current" "us_Username u = us_Username current"
    using assms(1) by (auto simp: User_Replaced_def Let_def split: if_splits sum.splits)
  then have "accounts_ok (snd (User_Replace u r))"
    using accounts_ok_replace [of r u] assms(2) True by simp
  then show ?thesis
    using assms(2,3) u True by (auto simp: keeps_def User_Replace_def Let_def)
qed (simp add: keeps_def)

lemma keeps_email_verified: "keeps r (snd (SetEmailVerified i now r))"
  using SetEmailVerified_accounts [of r i now] by (auto simp: keeps_def SetEmailVerified_def Let_def split: option.split)

lemma keeps_verify_email: "keeps r (snd (VerifyEmail h i now r))"
  using VerifyEmail_accounts [of r h i now]
  by (auto simp: keeps_def VerifyEmail_def Let_def accounts_okD split: option.split if_splits dest: accounts_okD(2))

text \<open>The services.\<close>

lemma users_after:
  "SetPassword i p r = (x, r') \<Longrightarrow> users r' = users r"
  "RecordPasswordSuccess i r = (y, r') \<Longrightarrow> users r' = users r"
  "RecordPasswordFailure i n until r = (y, r') \<Longrightarrow> users r' = users r"
  "SavePasswordReset t r = (y, r') \<Longrightarrow> users r' = users r"
  "ConsumePasswordReset h now r = (z, r') \<Longrightarrow> users r' = users r"
  "SaveEmailVerification v r = (y, r') \<Longrightarrow> users r' = users r"
  "DeleteExternalIdentity i e r = (y, r') \<Longrightarrow> users r' = users r"
  by (metis snd_conv users_frame)+

lemma accepted_users: "authenticate_accepted idkey random up u c password r = (x, r') \<Longrightarrow> users r' = users r"
  by (auto simp: authenticate_accepted_def dest: users_after split: sum.splits prod.splits if_splits)

lemma Authenticate_after: "Authenticate idkey sha256 random now name password r = (x, r') \<Longrightarrow> users r' = users r"
  by (auto simp: Authenticate_def authenticate_failed_def Let_def dest: accepted_users split: sum.splits prod.splits if_splits)

lemma Password_Set_after: "Password_Set idkey random u password r = (x, r') \<Longrightarrow> users r' = users r"
  by (auto simp: Password_Set_def dest: users_after split: sum.splits)

lemma services_after:
  "Password_Change idkey sha256 r1 r2 now u n p q r = (x, r') \<Longrightarrow> users r' = users r"
  "Password_Reset idkey sha256 random b now t q r = (y, r') \<Longrightarrow> users r' = users r"
  "IssueReset sha256 random b now u l r = (y, r') \<Longrightarrow> users r' = users r"
  "IssueVerification sha256 random b now u l r = (y, r') \<Longrightarrow> users r' = users r"
  by (auto simp: Password_Change_def Password_Reset_def IssueReset_def IssueVerification_def
      dest!: users_after Authenticate_after Password_Set_after split: prod.splits sum.splits option.splits if_splits)

lemma keeps_verification: "keeps r (snd (Verification_Verify sha256 b now t u r))"
  using keeps_verify_email [of r "HashToken sha256 t" u now]
  by (auto simp: Verification_Verify_def split: prod.split sum.split)

lemma keeps_register: "keeps r (snd (Register idkey r1 r2 now input r))"
  using keeps_create_with_password [of r] by (auto simp: Register_def split: sum.split)

lemma keeps_import: "keeps r (snd (Import randoms now input r))"
  using keeps_migrated [of r] by (auto simp: Import_def Let_def split: sum.split prod.split) (metis snd_conv)+

definition site_keeps :: "site \<Rightarrow> site \<Rightarrow> bool" where
  "site_keeps w w' \<longleftrightarrow> keeps (site_users w) (site_users w') \<and> si_administrators w' = si_administrators w"

interpretation kept: account_relation site_keeps
  by unfold_locales (auto simp: site_keeps_def same_accounts_def intro: keeps_trans)

lemma on_users_keeps:
  "on_users f w = (x, w1) \<Longrightarrow> (\<And>r. keeps r (snd (f r))) \<Longrightarrow> site_keeps w w1"
  by (auto simp: on_users_eq site_keeps_def)

lemma on_users_frame_keeps:
  "on_users f w = (x, w1) \<Longrightarrow> (\<And>r y r'. f r = (y, r') \<Longrightarrow> users r' = users r) \<Longrightarrow> site_keeps w w1"
  by (rule on_users_keeps) (auto intro!: keeps_frame simp: prod_eq_iff)

lemma on_mfa_keeps: "on_mfa f w = (x, w1) \<Longrightarrow> site_keeps w w1"
  by (auto simp: on_mfa_eq site_keeps_def)

lemma on_mfa_keeps_snd [simp]: "site_keeps w (snd (on_mfa f w))"
  by (rule on_mfa_keeps) (rule prod.collapse [symmetric])

lemma login_keeps: "site_keeps w (snd (on_login (createLoginSession cx rq user returnTo m c f cookies) w))"
  by (auto simp: on_login_def on_core_def createLoginSession_def login_audit_def site_keeps_def
      split: prod.split sum.split intro!: keeps_frame)

lemma outbox_keeps: "send_message mailer m w = (b, w1) \<Longrightarrow> site_keeps w w1"
  by (auto simp: send_message_def site_keeps_def)

lemma keeps_users_steps:
  "on_users (Password_Change idkey sha256 r1 r2 now u n p q) w = (x, w1) \<Longrightarrow> site_keeps w w1"
  "on_users (Password_Reset idkey sha256 random b now t q) w = (y, w1) \<Longrightarrow> site_keeps w w1"
  "on_users (IssueReset sha256 random b now u l) w = (y1, w1) \<Longrightarrow> site_keeps w w1"
  "on_users (IssueVerification sha256 random b now u l) w = (y2, w1) \<Longrightarrow> site_keeps w w1"
  "on_users (Authenticate idkey sha256 random now n p) w = (y3, w1) \<Longrightarrow> site_keeps w w1"
  "on_users (Password_Set idkey random u p) w = (y4, w1) \<Longrightarrow> site_keeps w w1"
  "on_users (DeleteExternalIdentity u e) w = (y5, w1) \<Longrightarrow> site_keeps w w1"
  by (erule on_users_frame_keeps, fast dest: services_after Authenticate_after Password_Set_after users_after)+

lemmas keeps_steps = keeps_users_steps on_mfa_keeps outbox_keeps
  on_users_keeps [OF _ keeps_email_verified] on_users_keeps [OF _ keeps_verification]
  on_users_keeps [OF _ keeps_register] on_users_keeps [OF _ keeps_import]

lemma server_keeps: "on_server f w = (x, w1) \<Longrightarrow> (\<And>s. srv_users (snd (f s)) = srv_users s) \<Longrightarrow> site_keeps w w1"
  by (metis kept.after_server kept.refl)

lemma server_keeps_snd: "(\<And>s. srv_users (snd (f s)) = srv_users s) \<Longrightarrow> site_keeps w (snd (on_server f w))"
  by (metis prod.collapse server_keeps)

lemmas limits_keep = server_keeps [OF _ limits_users(1)] server_keeps [OF _ limits_users(2)] server_keeps [OF _ limits_users(3)]
  server_keeps [OF _ limits_users(4)] server_keeps [OF _ limits_users(5)] server_keeps [OF _ currentSession_users]

lemma devices_keep: "end_trusted_devices u w = (n, w1) \<Longrightarrow> site_keeps w w1"
  unfolding end_trusted_devices_def by (rule on_mfa_keeps)

lemma sessions_keep: "end_user_sessions cx u ex w = (n, w1) \<Longrightarrow> site_keeps w w1"
  by (metis end_sessions_same kept.frame snd_conv)

lemma sent_keeps: "verification_sent cx rq u (b, w) = (x, w1) \<Longrightarrow> site_keeps w w1"
  by (cases b) (auto simp: verification_sent_def intro: kept.frame)

lemma send_keeps: "sendEmailVerification cx lib user w = (b, w1) \<Longrightarrow> site_keeps w w1"
  by (auto simp: sendEmailVerification_def dest: keeps_steps intro: kept.trans split: option.splits if_splits prod.splits sum.splits)

lemma changed_keeps: "site_keeps w (snd (sendChangedEmailVerification cx lib rq user w))"
proof -
  obtain b w1 where "sendEmailVerification cx lib user w = (b, w1)" by fastforce
  then show ?thesis
    unfolding sendChangedEmailVerification_def using send_keeps sent_keeps kept.trans by (metis prod.collapse)
qed

lemma User_Find_stored: "User_Find i r = Inr u \<Longrightarrow> accounts_ok r \<Longrightarrow> map_of (users r) (us_ID u) = Some u"
  by (auto simp: User_Find_def split: option.splits dest: accounts_okD(2))

lemma store_email_keeps:
  assumes "User_Find i (site_users w) = Inr user"
  shows "site_keeps w (snd (store_account_email cx lib rq user email w))"
proof (cases "User_Replaced user \<lparr>ru_DisplayName = us_DisplayName user, ru_Email = Some email, ru_Status = us_Status user\<rparr> (cx_now cx)")
  case (Inl e)
  then show ?thesis by (simp add: store_account_email_def)
next
  case (Inr updated)
  have "us_Status updated = us_Status user" using Inr by (auto simp: User_Replaced_def Let_def split: if_splits sum.splits)
  from keeps_replace [OF Inr User_Find_stored [OF assms] this] have "site_keeps w (snd (on_users (User_Replace updated) w))"
    by (simp add: on_users_eq site_keeps_def)
  moreover obtain res w1 where "on_users (User_Replace updated) w = (res, w1)" by fastforce
  ultimately show ?thesis
    using Inr by (auto simp: store_account_email_def intro: kept.trans kept.after_audit changed_keeps split: sum.split)
qed

lemma password_obeys:
  assumes "\<And>user. kept.obeys (handler user)"
  shows "kept.obeys (verifyAccountPassword cx lib u password handler)"
proof (rule kept.obeysI)
  fix w
  show "site_keeps w (snd (verifyAccountPassword cx lib u password handler w))"
    using assms by (auto simp: verifyAccountPassword_def kept.obeys_def dest: keeps_steps intro: kept.trans split: sum.split prod.split)
qed

lemma factors_obey:
  assumes "kept.obeys wrong" and "kept.obeys handler"
  shows "kept.obeys (verify_factors cx lib rq current wrong handler)"
proof (rule kept.obeysI)
  fix w
  have "kept.obeys (\<lambda>w1. case on_server (allowMFAAttempt cx (pq_Request rq) (se_UserID current)) w1 of
              (Some refusal, w2) \<Rightarrow> (plain refusal, w2)
            | (None, w2) \<Rightarrow>
                (case on_mfa (MFA_Verify (lx_mfa (wl_login lib)) (cx_now cx) (se_UserID current) (fi_Code input)) w2 of
                   (Inl _, w3) \<Rightarrow> wrong w3
                 | (Inr _, w3) \<Rightarrow> handler w3))" for input
    using assms unfolding kept.obeys_def
    by (auto dest!: on_mfa_keeps limits_keep split: prod.split option.split sum.split) (blast intro: kept.trans)+
  note checked = this
  show "site_keeps w (snd (verify_factors cx lib rq current wrong handler w))"
  proof (cases "body_of (current_password_field @ code_field) empty_factor_input rq")
    case (Some input)
    from password_obeys [OF checked [of input]] show ?thesis
      unfolding verify_factors_def Some option.case kept.obeys_def by blast
  qed (simp add: verify_factors_def)
qed

section \<open>Account requests keep accounts usable\<close>

datatype account_route =
    AccountPage | AccountProfile | AccountSessions | RevokeSession | Consents | RevokeConsent
  | ChangePassword | ChangeEmail | ResetPassword | IssueVerificationMail | VerifyMail | VerifyMailPage
  | MFAStatusPage | SetupMFA | EnableMFA | RecoveryCodes | DisableMFA | RevokeDevices | RegistrationPage | RegisterUser

fun account_serve :: "request_context \<Rightarrow> site_lib \<Rightarrow> account_route \<Rightarrow> page_request \<Rightarrow> site \<Rightarrow> response \<times> site" where
  "account_serve cx lib AccountPage = accountPage cx"
| "account_serve cx lib AccountProfile = getAccountProfile cx"
| "account_serve cx lib AccountSessions = listAccountSessions cx"
| "account_serve cx lib RevokeSession = revokeAccountSession cx"
| "account_serve cx lib Consents = listAccountConsents cx"
| "account_serve cx lib RevokeConsent = revokeAccountConsent cx"
| "account_serve cx lib ChangePassword = changeAccountPassword cx lib"
| "account_serve cx lib ChangeEmail = changeAccountEmail cx lib"
| "account_serve cx lib ResetPassword = resetAccountPassword cx lib"
| "account_serve cx lib IssueVerificationMail = issueAccountEmailVerification cx lib"
| "account_serve cx lib VerifyMail = verifyAccountEmail cx"
| "account_serve cx lib VerifyMailPage = verifyEmailPage cx"
| "account_serve cx lib MFAStatusPage = getAccountMFA cx"
| "account_serve cx lib SetupMFA = setupAccountMFA cx lib"
| "account_serve cx lib EnableMFA = enableAccountMFA cx lib"
| "account_serve cx lib RecoveryCodes = regenerateAccountMFARecoveryCodes cx lib"
| "account_serve cx lib DisableMFA = disableAccountMFA cx lib"
| "account_serve cx lib RevokeDevices = revokeAccountMFATrustedDevices cx"
| "account_serve cx lib RegistrationPage = registrationPage cx lib"
| "account_serve cx lib RegisterUser = register cx lib"

lemmas kept_after = keeps_steps limits_keep devices_keep sessions_keep sent_keeps send_keeps

lemma pages_keep:
  "site_keeps w (snd (accountPage cx rq w))" "site_keeps w (snd (verifyEmailPage cx rq w))"
  "site_keeps w (snd (registrationPage cx lib rq w))"
  by (auto simp: accountPage_def verifyEmailPage_def registrationPage_def Let_def server_keeps_snd
      dest!: limits_keep split: prod.split option.split)

lemma reads_obey:
  "kept.obeys (getAccountProfile cx rq)" "kept.obeys (listAccountSessions cx rq)" "kept.obeys (listAccountConsents cx rq)"
  "kept.obeys (getAccountMFA cx rq)"
  unfolding getAccountProfile_def listAccountSessions_def listAccountConsents_def getAccountMFA_def
  by (rule kept.obeys_session, rule kept.obeysI, auto dest!: on_mfa_keeps split: prod.split)+

lemma revocations_obey:
  "kept.obeys (revokeAccountSession cx rq)" "kept.obeys (revokeAccountConsent cx rq)" "kept.obeys (revokeAccountMFATrustedDevices cx rq)"
  unfolding revokeAccountSession_def revokeAccountConsent_def revokeAccountMFATrustedDevices_def
  by (rule kept.obeys_change, rule kept.obeysI, auto simp: Let_def dest!: devices_keep server_keeps
      intro: kept.after_audit split: prod.split bool.split sum.split)+

lemma changeAccountPassword_obeys: "kept.obeys (changeAccountPassword cx lib rq)"
  unfolding changeAccountPassword_def
  by (rule kept.obeys_change, rule kept.obeysI)
    (auto dest!: kept_after intro!: kept.after_audit split: sum.split option.split prod.split, (blast intro: kept.trans)+)

lemma resetAccountPassword_obeys: "kept.obeys (resetAccountPassword cx lib rq)"
  by (rule kept.obeysI, unfold resetAccountPassword_def)
    (auto dest!: kept_after intro!: kept.after_audit split: sum.split option.split prod.split, (blast intro: kept.trans)+)

lemma factors_routes_obey:
  "kept.obeys (regenerateAccountMFARecoveryCodes cx lib rq)" "kept.obeys (disableAccountMFA cx lib rq)"
  unfolding regenerateAccountMFARecoveryCodes_def disableAccountMFA_def
  by (rule kept.obeys_change, rule factors_obey; rule kept.obeysI,
    auto dest!: on_mfa_keeps intro!: kept.after_audit split: sum.split prod.split)+

lemma enableAccountMFA_obeys: "kept.obeys (enableAccountMFA cx lib rq)"
  unfolding enableAccountMFA_def
  by (rule kept.obeys_change, rule kept.obeysI,
    auto dest!: on_mfa_keeps intro!: kept.after_audit split: sum.split prod.split option.split)

lemma setupAccountMFA_obeys: "kept.obeys (setupAccountMFA cx lib rq)"
  unfolding setupAccountMFA_def
  by (rule kept.obeys_change, rule kept.obeys_body, rule password_obeys, rule kept.obeysI)
    (auto dest!: on_mfa_keeps intro!: kept.after_audit split: sum.split prod.split option.split)

lemma sent_after: "site_keeps w (snd (verification_sent cx rq v (send_message mailer m w)))"
proof -
  obtain b w2 where "send_message mailer m w = (b, w2)" by fastforce
  moreover obtain x w3 where "verification_sent cx rq v (b, w2) = (x, w3)" by fastforce
  ultimately show ?thesis using outbox_keeps sent_keeps by (metis kept.trans snd_conv)
qed

lemma issue_verification_obeys: "kept.obeys (issue_verification cx lib rq u mailer)"
  unfolding issue_verification_def
  by (rule kept.obeysI) (auto dest!: keeps_users_steps(4) intro: kept.trans [OF _ sent_after] split: sum.split prod.split option.split)

lemma issueAccountEmailVerification_obeys: "kept.obeys (issueAccountEmailVerification cx lib rq)"
proof -
  have "kept.obeys (limit_verifications cx rq u (issue_verification cx lib rq u mailer))" for u mailer
    by (intro kept.obeys_limit issue_verification_obeys)
  then show ?thesis
    unfolding issueAccountEmailVerification_def
    by (intro kept.obeys_change kept.obeysI) (simp add: kept.obeys_def split: option.split)
qed

lemma verifyAccountEmail_obeys: "kept.obeys (verifyAccountEmail cx rq)"
  unfolding verifyAccountEmail_def
  by (rule kept.obeys_change, rule kept.obeys_limit, rule kept.obeys_body, rule kept.obeysI)
    (auto dest!: on_users_keeps [OF _ keeps_verification] intro!: kept.after_audit split: sum.split prod.split option.split)

lemma changeAccountEmail_obeys: "kept.obeys (changeAccountEmail cx lib rq)"
  unfolding changeAccountEmail_def
  by (rule kept.obeys_change, rule kept.obeys_limit, rule kept.obeys_body, rule kept.obeysI)
    (auto simp: Let_def intro: changed_keeps store_email_keeps split: sum.split option.split)

lemma register_user_keeps: "site_keeps w (snd (register_user cx lib rq returnTo c input clientID w))"
proof -
  obtain res w1 where 1: "on_users (Register (lx_idkey (wl_login lib)) (cx_random cx 24) (cx_random cx 21) (cx_now cx) input) w = (res, w1)"
    by fastforce
  then have k: "site_keeps w w1" by (rule on_users_keeps) (rule keeps_register)
  show ?thesis
  proof (cases res)
    case (Inl err)
    with 1 k show ?thesis by (simp add: register_user_def recordRegistrationFailure_def Let_def kept.after_audit)
  next
    case (Inr user)
    obtain b w2 where 2: "sendEmailVerification cx lib user
        (site_audit cx rq (auditActor (us_ID user)) ''user.register'' clientID OutcomeSuccess None w1) = (b, w2)" by fastforce
    have "site_keeps w w2" using send_keeps [OF 2] kept.after_audit [OF k] kept.trans by blast
    with 1 2 Inr show ?thesis by (simp add: register_user_def) (blast intro: kept.trans login_keeps)
  qed
qed

lemma refuse_registration_keeps: "site_keeps w (snd (refuse_registration cx lib rq returnTo c input clientID reason w))"
  by (simp add: refuse_registration_def recordRegistrationFailure_def Let_def kept.after_audit)

lemma register_obeys: "kept.obeys (register cx lib rq)"
  by (rule kept.obeysI)
    (auto simp: register_def Let_def recordRegistrationFailure_def dest!: limits_keep intro!: kept.after_audit
      intro: kept.trans [OF _ register_user_keeps] kept.trans [OF _ refuse_registration_keeps] split: option.split prod.split)

lemma account_serve_keeps: "site_keeps w (snd (account_serve cx lib r rq w))"
proof -
  have "kept.obeys (account_serve cx lib r rq)"
    by (cases r) (simp_all add: pages_keep kept.obeysI reads_obey revocations_obey changeAccountPassword_obeys resetAccountPassword_obeys
        changeAccountEmail_obeys issueAccountEmailVerification_obeys verifyAccountEmail_obeys setupAccountMFA_obeys
        enableAccountMFA_obeys factors_routes_obey register_obeys)
  then show ?thesis by (simp add: kept.obeys_def)
qed

section \<open>Sign-ins keep accounts usable\<close>

lemma resolve_known_keeps: "keeps r (snd (resolve_known known p now r))"
proof (cases "map_of (users r) (ei_UserID known)")
  case (Some u)
  then show ?thesis
    using resolve_known_accounts [of r known p now]
    by (auto simp: keeps_def resolve_known_def Let_def dest: accounts_okD(2))
qed (simp add: resolve_known_def)

lemma resolve_linked_keeps:
  assumes "find P (map snd (users r)) = Some u"
  shows "keeps r (snd (resolve_linked rnd u p now r))"
proof -
  have "accounts_ok r \<Longrightarrow> map_of (users r) (us_ID u) = Some u" using find_user_key(1) [OF _ assms] .
  then show ?thesis
    using resolve_linked_accounts [OF _ assms, of rnd p now]
    by (auto simp: keeps_def resolve_linked_def Let_def split: sum.split)
qed

lemma resolve_new_keeps: "keeps r (snd (resolve_new rnd u p now r))"
  using resolve_new_accounts [of r rnd u p now]
  by (auto simp: keeps_def resolve_new_def map_put_delete_same split: sum.split option.split)

lemma resolve_keeps: "keeps r (snd (ResolveExternalIdentity sha256 r1 r2 r3 p now r))"
  unfolding ResolveExternalIdentity_def
  by (auto simp: resolve_known_keeps resolve_new_keeps intro: resolve_linked_keeps split: option.split sum.split)

definition login_users :: "login_server \<Rightarrow> UserRepository" where
  "login_users l = srv_users (lg_core l)"

lemma login_users_frame [simp]:
  "login_users (login_audit cx rq actor type clientID outcome details l) = login_users l"
  "login_users (l\<lparr>lg_mfa := m\<rparr>) = login_users l"
  "login_users (keep_authenticator sourceID a l) = login_users l"
  by (simp_all add: login_users_def login_audit_def keep_authenticator_def)

lemma on_core_users: "on_core f l = (x, l1) \<Longrightarrow> (\<And>s. srv_users (snd (f s)) = srv_users s) \<Longrightarrow> login_users l1 = login_users l"
  by (auto simp: on_core_def login_users_def split: prod.splits) (metis snd_conv)

lemma on_core_users_snd: "(\<And>s. srv_users (snd (f s)) = srv_users s) \<Longrightarrow> login_users (snd (on_core f l)) = login_users l"
  by (metis prod.collapse on_core_users)

lemma createLoginSession_users [simp]:
  "login_users (snd (createLoginSession cx rq user returnTo m c f cookies l)) = login_users l"
  by (auto simp: createLoginSession_def dest!: on_core_users split: prod.splits sum.splits)

lemma completeLogin_users [simp]: "login_users (snd (completeLogin cx lib rq user returnTo m c cookies l)) = login_users l"
proof -
  have device: "login_users l1 = login_users l"
    if "completeLoginWithTrustedDevice cx lib rq user returnTo m c cookies l = (res, l1)" for res l1
  proof -
    have "login_users (snd (completeLoginWithTrustedDevice cx lib rq user returnTo m c cookies l)) = login_users l"
      by (auto simp: completeLoginWithTrustedDevice_def apfst_def map_prod_def case_prod_beta split: option.split sum.split prod.split)
    with that show ?thesis by simp
  qed
  have challenge: "login_users (snd (beginMFAChallenge cx u returnTo m c cookies1 l1)) = login_users l1" for u cookies1 l1
    by (auto simp: beginMFAChallenge_def dest!: on_core_users split: prod.splits sum.splits)
  show ?thesis
    by (auto simp: completeLogin_def challenge dest!: device split: prod.split sum.split)
qed

lemma transaction_users [simp]:
  "srv_users (snd (mfaLoginTransaction cx rq s)) = srv_users s"
  "srv_users (snd (externalOIDCTransaction cx rq s)) = srv_users s"
  by (simp_all add: mfaLoginTransaction_def externalOIDCTransaction_def split: option.split prod.split sum.split)

lemma allow_login_users [simp]:
  "srv_users (snd (allowLoginAttempt cx rq name s)) = srv_users s"
  "srv_users (snd (allowLoginSource cx rq scope s)) = srv_users s"
  by (simp_all add: allowLoginAttempt_def allowLoginSource_def allow_both_def case_prod_beta split: option.split)

lemma finish_federated_keeps:
  "keeps (login_users l) (login_users (snd (finish_federated cx lib rq profile returnTo m c cookies l)))"
proof -
  have "keeps (login_users l) (login_users l1)" if "resolve_profile cx profile l = (res, l1)" for res l1
    using that resolve_keeps [of "login_users l" "cx_sha256 cx" "cx_random cx 15" "cx_random cx 16" "cx_random cx 17" profile "cx_now cx"]
    by (auto simp: resolve_profile_def on_core_def login_users_def split: prod.splits sum.splits)
  then show ?thesis by (auto simp: finish_federated_def split: prod.split sum.split)
qed

lemma password_step_keeps:
  assumes "on_core (\<lambda>s. case Authenticate idkey sha256 random now name password (srv_users s) of (res, r) \<Rightarrow> (res, s\<lparr>srv_users := r\<rparr>)) l = (x, l1)"
  shows "keeps (login_users l) (login_users l1)"
  using assms by (auto simp: on_core_def login_users_def split: prod.splits dest!: Authenticate_after intro: keeps_frame)

lemma accepted_mfa_users [simp]:
  "login_users (snd (mfa_login_accepted cx lib rq b u returnTo m c l)) = login_users l"
  by (simp add: mfa_login_accepted_def Let_def split: option.split prod.split sum.split)

lemma start_oidc_users [simp]:
  "login_users (snd (start_oidc cx lib returnTo sourceID a state nonce verifier l)) = login_users l"
  by (auto simp: start_oidc_def dest!: on_core_users split: prod.splits sum.splits)

lemma login_page_keeps:
  "keeps (login_users l) (login_users (snd (loginPassword cx lib rq l)))"
  "keeps (login_users l) (login_users (snd (loginLDAP cx lib rq l)))"
  "keeps (login_users l) (login_users (snd (loginOIDCCallback cx lib rq l)))"
proof -
  have start: "keeps (login_users l) r" if "on_core f l = (x, l1)" "\<And>s. srv_users (snd (f s)) = srv_users s" "keeps (login_users l1) r"
    for f and x :: 'x and l1 r using on_core_users [OF that(1,2)] that(3) by simp
  note parts = keeps_trans [OF password_step_keeps] finish_federated_keeps
  show "keeps (login_users l) (login_users (snd (loginPassword cx lib rq l)))"
    by (auto simp: loginPassword_def Let_def intro: start password_step_keeps split: option.split prod.split sum.split)
  show "keeps (login_users l) (login_users (snd (loginLDAP cx lib rq l)))"
    by (auto simp: loginLDAP_def Let_def intro: start finish_federated_keeps split: option.split prod.split sum.split)
  have "keeps (login_users l1) (login_users (snd (finish_federated cx lib rq p returnTo m c cookies (keep_authenticator i a l1))))"
    for l1 p returnTo m c cookies i a using finish_federated_keeps [of "keep_authenticator i a l1"] by simp
  then show "keeps (login_users l) (login_users (snd (loginOIDCCallback cx lib rq l)))"
    by (auto simp: loginOIDCCallback_def Let_def intro: start split: option.split prod.split sum.split)
qed

lemma login_serve_keeps: "keeps (login_users l) (login_users (snd (login_serve cx lib op l)))"
proof (cases op)
  case (VisitSuccess rq)
  then show ?thesis
    by (auto simp: loginSuccessPage_def Let_def dest!: on_core_users intro: keeps_frame split: prod.splits option.splits)
next
  case (StartOIDC rq)
  then show ?thesis
    by (auto simp: loginOIDC_def Let_def dest!: on_core_users split: prod.split option.split sum.split)
next
  case (VisitMFA rq)
  then show ?thesis by (auto simp: mfaLoginPage_def on_core_users_snd dest!: on_core_users split: prod.split option.split)
next
  case (VerifyMFA rq)
  then show ?thesis
    by (auto simp: mfaLoginVerify_def Let_def dest!: on_core_users split: prod.split option.split sum.split)
qed (simp_all add: loginPage_def login_page_keeps)

end
