(* ===== verification/Admin_Flows.thy ===== *)
theory Admin_Flows
  imports Account_Flows
begin

text \<open>
  The addresses of the administration interface with their verbs, permissions and handlers, as the table in \<open>server.go\<close> has them,
  and the authority a changing request needs. \<open>admin_serve\<close> is a request as the multiplexer and the wrappers pass it on.

  \<^item> \<open>only_traced\<close> is what any request may leave behind: times at which sessions were seen, and audit records.
  \<^item> \<open>emergency_bearer\<close> and \<open>administrator_session\<close> are the two ways to be an administrator; \<open>granted\<close> is what the role table of
    \<open>Administration\<close> gives to the roles stored for a user.
\<close>

section \<open>Requests of administrators\<close>

datatype admin_route =
    AdminMe | ListAdminRoles | ListUsers | CreateUser | ImportUsers | GetUser | ReplaceUser | SetUserPassword
  | IssueUserReset | VerifyUserEmail | ListExternals | DeleteExternal | ListUserSessions | RevokeUserSessions | RevokeUserSession
  | ResetUserMFA | ListUserAdminRoles | ReplaceUserAdminRoles | ListAudit | ListSigningKeys | RotateSigningKey
  | ListRolesOf | CreateRoleOf | GetRoleOf | ReplaceRoleOf | DeleteRoleOf
  | ListPermissionsOf | CreatePermissionOf | GetPermissionOf | ReplacePermissionOf | DeletePermissionOf
  | ListRolePermissionsOf | ReplaceRolePermissionsOf | ListRolesOfUser | ReplaceRolesOfUser

fun admin_entry :: "request_context \<Rightarrow> site_lib \<Rightarrow> admin_route \<Rightarrow> string \<times> AdminPermission \<times> admin_handler" where
  "admin_entry cx lib AdminMe = (''GET'', [], adminMe cx)"
| "admin_entry cx lib ListAdminRoles = (''GET'', PermissionAdminRolesRead, listAdministratorRoleDefinitions)"
| "admin_entry cx lib ListUsers = (''GET'', PermissionUsersRead, listUsers cx)"
| "admin_entry cx lib CreateUser = (''POST'', PermissionUsersWrite, createUser cx lib)"
| "admin_entry cx lib ImportUsers = (''POST'', PermissionUsersWrite, importUsers cx)"
| "admin_entry cx lib GetUser = (''GET'', PermissionUsersRead, getUser cx)"
| "admin_entry cx lib ReplaceUser = (''PUT'', PermissionUsersWrite, replaceUser cx lib)"
| "admin_entry cx lib SetUserPassword = (''PUT'', PermissionUsersWrite, setUserPassword cx lib)"
| "admin_entry cx lib IssueUserReset = (''POST'', PermissionUsersWrite, issueUserPasswordReset cx)"
| "admin_entry cx lib VerifyUserEmail = (''POST'', PermissionUsersWrite, verifyAdminUserEmail cx)"
| "admin_entry cx lib ListExternals = (''GET'', PermissionUsersRead, listUserExternalIdentities cx)"
| "admin_entry cx lib DeleteExternal = (''DELETE'', PermissionUsersWrite, deleteUserExternalIdentity cx)"
| "admin_entry cx lib ListUserSessions = (''GET'', PermissionUsersRead, listAdminUserSessions cx)"
| "admin_entry cx lib RevokeUserSessions = (''DELETE'', PermissionUsersWrite, revokeAllAdminUserSessions cx)"
| "admin_entry cx lib RevokeUserSession = (''DELETE'', PermissionUsersWrite, revokeAdminUserSession cx)"
| "admin_entry cx lib ResetUserMFA = (''DELETE'', PermissionUsersWrite, resetAdminUserMFA cx)"
| "admin_entry cx lib ListUserAdminRoles = (''GET'', PermissionAdminRolesRead, listUserAdministratorRoles cx)"
| "admin_entry cx lib ReplaceUserAdminRoles = (''PUT'', PermissionAdminRolesWrite, replaceUserAdministratorRoles cx)"
| "admin_entry cx lib ListAudit = (''GET'', PermissionAuditRead, listAuditEvents cx)"
| "admin_entry cx lib ListSigningKeys = (''GET'', PermissionSecurityRead, listSigningKeys cx)"
| "admin_entry cx lib RotateSigningKey = (''POST'', PermissionSecurityWrite, rotateSigningKey cx lib)"
| "admin_entry cx lib ListRolesOf = (''GET'', PermissionAccessRead, listRoles cx)"
| "admin_entry cx lib CreateRoleOf = (''POST'', PermissionAccessWrite, createRole cx)"
| "admin_entry cx lib GetRoleOf = (''GET'', PermissionAccessRead, getRole cx)"
| "admin_entry cx lib ReplaceRoleOf = (''PUT'', PermissionAccessWrite, replaceRole cx)"
| "admin_entry cx lib DeleteRoleOf = (''DELETE'', PermissionAccessWrite, deleteRole cx)"
| "admin_entry cx lib ListPermissionsOf = (''GET'', PermissionAccessRead, listPermissions cx)"
| "admin_entry cx lib CreatePermissionOf = (''POST'', PermissionAccessWrite, createPermission cx)"
| "admin_entry cx lib GetPermissionOf = (''GET'', PermissionAccessRead, getPermission cx)"
| "admin_entry cx lib ReplacePermissionOf = (''PUT'', PermissionAccessWrite, replacePermission cx)"
| "admin_entry cx lib DeletePermissionOf = (''DELETE'', PermissionAccessWrite, deletePermission cx)"
| "admin_entry cx lib ListRolePermissionsOf = (''GET'', PermissionAccessRead, listRolePermissions cx)"
| "admin_entry cx lib ReplaceRolePermissionsOf = (''PUT'', PermissionAccessWrite, replaceRolePermissions cx)"
| "admin_entry cx lib ListRolesOfUser = (''GET'', PermissionAccessRead, listUserRoles cx)"
| "admin_entry cx lib ReplaceRolesOfUser = (''PUT'', PermissionAccessWrite, replaceUserRoles cx)"

text \<open>A pattern of the multiplexer with \<open>GET\<close> also takes \<open>HEAD\<close>; other verbs are refused.\<close>

definition verb_matches :: "string \<Rightarrow> string \<Rightarrow> bool" where
  "verb_matches pattern verb = (verb = pattern \<or> pattern = ''GET'' \<and> verb = ''HEAD'')"

definition admin_serve :: "request_context \<Rightarrow> site_lib \<Rightarrow> admin_route \<Rightarrow> page_request \<Rightarrow> site \<Rightarrow> response \<times> site" where
  "admin_serve cx lib route rq w =
     (case admin_entry cx lib route of
        (verb, permission, handler) \<Rightarrow>
          if \<not> verb_matches verb (rq_Method (pq_Request rq)) then (plain (NoContent 405), w)
          else auditMutations cx rq (requireAdmin cx lib permission handler rq w))"

subsection \<open>Reading requests\<close>

definition reads_only :: "admin_handler \<Rightarrow> bool" where
  "reads_only handler \<longleftrightarrow> (\<forall>access rq w. snd (handler access rq w) = w)"

lemma adminSessionUser_reads: "(\<And>u user w. snd (handler u user w) = w) \<Longrightarrow> snd (adminSessionUser rq handler w) = w"
  by (simp add: adminSessionUser_def Let_def split: sum.split)

lemma accessClient_reads: "(\<And>c w. snd (handler c w) = w) \<Longrightarrow> snd (accessClient rq handler w) = w"
  by (simp add: accessClient_def split: sum.split)

lemma handlers_read:
  assumes "admin_entry cx lib route = (''GET'', permission, handler)"
  shows "reads_only handler"
  using assms
  by (cases route)
    (auto simp: reads_only_def adminMe_def listAdministratorRoleDefinitions_def listUsers_def getUser_def listUserExternalIdentities_def
      listAdminUserSessions_def listUserAdministratorRoles_def listAuditEvents_def listSigningKeys_def listRoles_def getRole_def
      listPermissions_def getPermission_def listRolePermissions_def listUserRoles_def Let_def
      intro!: adminSessionUser_reads accessClient_reads split: option.split sum.split)

section \<open>Authority\<close>

text \<open>What any request may leave behind: times at which sessions were seen, and audit records.\<close>

definition unseen :: "SessionRepository \<Rightarrow> string \<Rightarrow> memoryRecord option" where
  "unseen r sid = map_option (\<lambda>v. v\<lparr>se_LastSeenAt := 0\<rparr>) (map_of r sid)"

definition only_traced :: "site \<Rightarrow> site \<Rightarrow> bool" where
  "only_traced w w' \<longleftrightarrow>
     (\<exists>r log. w' = w\<lparr>si_login := (si_login w)\<lparr>lg_core := (site_server w)
          \<lparr>srv_sessions := (srv_sessions (site_server w))\<lparr>ss_repository := r\<rparr>, srv_audit := log\<rparr>\<rparr>\<rparr>
        \<and> unseen r = unseen (ss_repository (srv_sessions (site_server w))))"

definition emergency_bearer :: "request_context \<Rightarrow> site_lib \<Rightarrow> page_request \<Rightarrow> bool" where
  "emergency_bearer cx lib rq \<longleftrightarrow>
     (\<exists>supplied. TrimSpace (rq_Authorization (pq_Request rq)) = bearer_prefix @ supplied \<and> TrimSpace supplied \<noteq> []
        \<and> wl_AdminToken lib \<noteq> [] \<and> cx_sha256 cx (bytes_of (wl_AdminToken lib)) = cx_sha256 cx (bytes_of (TrimSpace supplied)))"

definition granted :: "AdminPermission \<Rightarrow> string \<Rightarrow> AdminRepository \<Rightarrow> bool" where
  "granted permission userID r \<longleftrightarrow>
     (\<exists>g \<in> set (grants_of userID r). \<exists>d \<in> set definitions. rd_Code d = gr_Role g
        \<and> (PermissionAll \<in> set (rd_Permissions d) \<or> permission \<in> set (rd_Permissions d)))"

definition administrator_session :: "request_context \<Rightarrow> AdminPermission \<Rightarrow> page_request \<Rightarrow> site \<Rightarrow> bool" where
  "administrator_session cx permission rq w \<longleftrightarrow>
     (\<exists>token sid s user. Cookie sessionCookieName (pq_Request rq) = Some token
        \<and> map_of (ss_repository (srv_sessions (site_server w))) sid = Some s \<and> mr_hash s = HashToken (cx_sha256 cx) token
        \<and> mr_revokedAt s = None \<and> cx_now cx < se_ExpiresAt s \<and> se_AssuranceLevel s = ''urn:certus:aal:2''
        \<and> map_of (users (site_users w)) (se_UserID s) = Some user \<and> us_Status user = UserActive
        \<and> granted permission (se_UserID s) (si_administrators w))"

lemma unseen_touch:
  assumes "sessions_ok r" and "Session_Find h now r = (x, r')"
  shows "unseen r' = unseen r"
proof
  fix sid
  show "unseen r' sid = unseen r sid"
    using assms by (auto simp: Session_Find_def unseen_def Let_def dest!: sessions_ok_found split: option.splits)
qed

lemma traced_refl [simp]: "only_traced w w"
  unfolding only_traced_def
  by (intro exI [of _ "ss_repository (srv_sessions (site_server w))"] exI [of _ "srv_audit (site_server w)"]) simp

lemma recordAudit_log: "\<exists>log. recordAudit cx rq e s = s\<lparr>srv_audit := log\<rparr>"
  by (auto simp: recordAudit_def Let_def intro: exI [of _ "srv_audit s"] split: sum.split)

lemma site_audit_log:
  "\<exists>log. site_audit cx rq actor type clientID outcome details w =
     w\<lparr>si_login := (si_login w)\<lparr>lg_core := (site_server w)\<lparr>srv_audit := log\<rparr>\<rparr>\<rparr>"
proof -
  obtain log where "recordAudit cx (pq_Request rq) (audit_event actor type (auditClient clientID) outcome details) (site_server w)
      = (site_server w)\<lparr>srv_audit := log\<rparr>" using recordAudit_log by blast
  then show ?thesis by (intro exI [of _ log]) (simp add: site_audit_def login_audit_def)
qed

lemma traced_audit:
  assumes "only_traced w w'"
  shows "only_traced w (site_audit cx rq actor type clientID outcome details w')"
proof -
  obtain log where "site_audit cx rq actor type clientID outcome details w' =
     w'\<lparr>si_login := (si_login w')\<lparr>lg_core := (site_server w')\<lparr>srv_audit := log\<rparr>\<rparr>\<rparr>" using site_audit_log by blast
  moreover from assms obtain r log' where "w' = w\<lparr>si_login := (si_login w)\<lparr>lg_core := (site_server w)
          \<lparr>srv_sessions := (srv_sessions (site_server w))\<lparr>ss_repository := r\<rparr>, srv_audit := log'\<rparr>\<rparr>\<rparr>"
    "unseen r = unseen (ss_repository (srv_sessions (site_server w)))" unfolding only_traced_def by blast
  ultimately show ?thesis unfolding only_traced_def by (intro exI [of _ r] exI [of _ log]) simp
qed

lemma currentSession_traced:
  assumes "sessions_ok (ss_repository (srv_sessions (site_server w)))" and "on_server (currentSession cx rq) w = (x, w1)"
  shows "only_traced w w1"
proof -
  have "\<exists>r. snd (currentSession cx rq (site_server w)) = (site_server w)\<lparr>srv_sessions := (srv_sessions (site_server w))\<lparr>ss_repository := r\<rparr>\<rparr>
      \<and> unseen r = unseen (ss_repository (srv_sessions (site_server w)))"
    using unseen_touch [OF assms(1)]
    by (auto simp: currentSession_def Service_Find_def Let_def split: option.splits prod.splits sum.splits
        intro: exI [of _ "ss_repository (srv_sessions (site_server w))"])
  then obtain r where r: "snd (currentSession cx rq (site_server w)) = (site_server w)\<lparr>srv_sessions := (srv_sessions (site_server w))\<lparr>ss_repository := r\<rparr>\<rparr>"
    "unseen r = unseen (ss_repository (srv_sessions (site_server w)))" by blast
  then show ?thesis
    using assms(2) unfolding only_traced_def
    by (intro exI [of _ r] exI [of _ "srv_audit (site_server w)"]) (auto simp: on_server_eq)
qed

lemma currentSession_found:
  assumes "sessions_ok (ss_repository (srv_sessions s))" and "currentSession cx rq s = (Some current, s')"
  obtains token v user where "Cookie sessionCookieName rq = Some token" "map_of (ss_repository (srv_sessions s)) (se_ID current) = Some v"
    "mr_hash v = HashToken (cx_sha256 cx) token" "mr_revokedAt v = None" "cx_now cx < se_ExpiresAt v"
    "se_AssuranceLevel v = se_AssuranceLevel current" "se_UserID v = se_UserID current"
    "map_of (users (srv_users s)) (se_UserID current) = Some user" "us_Status user = UserActive"
proof -
  from assms(2) obtain token r user where c: "Cookie sessionCookieName rq = Some token"
    and f: "Session_Find (HashToken (cx_sha256 cx) token) (cx_now cx) (ss_repository (srv_sessions s)) = (Inr current, r)"
    and u: "map_of (users (srv_users s)) (se_UserID current) = Some user" "us_Status user = UserActive"
    by (auto simp: currentSession_def Service_Find_def User_Find_def Let_def split: option.splits sum.splits prod.splits if_splits)
  from f obtain sid v where "find (\<lambda>(_, record'). mr_hash record' = HashToken (cx_sha256 cx) token \<and> usable (cx_now cx) record')
      (ss_repository (srv_sessions s)) = Some (sid, v)" and e: "current = Session.truncate (v\<lparr>se_LastSeenAt := cx_now cx\<rparr>)"
    by (auto simp: Session_Find_def Let_def split: option.splits)
  from sessions_ok_found [OF assms(1) this(1)] have v: "map_of (ss_repository (srv_sessions s)) (se_ID current) = Some v"
    "mr_hash v = HashToken (cx_sha256 cx) token" "mr_revokedAt v = None" "cx_now cx < se_ExpiresAt v"
    by (auto simp: e Session.truncate_def)
  have "se_AssuranceLevel v = se_AssuranceLevel current" "se_UserID v = se_UserID current"
    by (simp_all add: e Session.truncate_def)
  with v c u that show thesis by blast
qed

text \<open>The table: what changes something asks for a permission that is not one to read.\<close>

lemma entries:
  assumes "admin_entry cx lib route = (verb, permission, handler)"
  shows "verb = ''GET'' \<or> verb \<in> {''POST'', ''PUT'', ''DELETE''} \<and> permission \<noteq> [] \<and> \<not> is_read permission"
  using assms by (cases route) (auto simp: is_read_def)

lemma authenticated_traced:
  assumes "sessions_ok (ss_repository (srv_sessions (site_server w)))" and "authenticateAdministrator cx lib permission rq w = (x, w1)"
  shows "only_traced w w1"
proof -
  have "w1 = w \<or> (\<exists>y. on_server (currentSession cx (pq_Request rq)) w = (y, w1))"
    using assms(2) by (auto simp: authenticateAdministrator_def Let_def split: if_splits prod.splits option.splits)
  with currentSession_traced [OF assms(1)] show ?thesis by auto
qed

lemma AccessFor_granted:
  "Has (Admin_Effective u r) permission \<Longrightarrow> permission \<noteq> [] \<Longrightarrow> granted permission u r"
  by (auto simp: Has_def Admin_Effective_def AccessFor_permissions granted_def grantRoles_def)

lemma authenticated_has:
  assumes "authenticateAdministrator cx lib permission rq w = (Inr (access, how), w1)"
  shows "Has access permission"
  using assms
  by (auto simp: authenticateAdministrator_def Let_def Has_def AccessFor_permissions definitions_def split: if_splits prod.splits option.splits)

lemma authenticated_authority:
  assumes "sessions_ok (ss_repository (srv_sessions (site_server w)))" and "p \<noteq> []" and "Has access p"
    and "authenticateAdministrator cx lib permission rq w = (Inr (access, how), w1)"
  shows "how = adminAuthEmergencyToken \<and> emergency_bearer cx lib rq
    \<or> how = adminAuthSession \<and> administrator_session cx p rq w"
proof (cases "TrimSpace (rq_Authorization (pq_Request rq)) = []")
  case False
  let ?a = "TrimSpace (rq_Authorization (pq_Request rq))"
  from False assms(4) have "HasPrefix ?a bearer_prefix" "validEmergencyAdminToken cx lib (TrimSpace (drop (length bearer_prefix) ?a))"
    and "how = adminAuthEmergencyToken"
    by (simp_all add: authenticateAdministrator_def Let_def split: if_splits)
  then show ?thesis
    unfolding emergency_bearer_def validEmergencyAdminToken_def using HasPrefix_split by (metis (no_types, lifting))
next
  case True
  with assms(3,4) obtain current where c: "on_server (currentSession cx (pq_Request rq)) w = (Some current, w1)"
    and h: "Has (Admin_Effective (se_UserID current) (si_administrators w1)) p" and m: "administratorMFA current"
    and how: "how = adminAuthSession"
    by (auto simp: authenticateAdministrator_def Let_def split: prod.splits option.splits if_splits)
  then have "currentSession cx (pq_Request rq) (site_server w) = (Some current, site_server w1)" "si_administrators w1 = si_administrators w"
    by (auto simp: on_server_eq prod_eq_iff)
  with currentSession_found [OF assms(1) this(1)] h m AccessFor_granted [OF _ assms(2)] how show ?thesis
    unfolding administrator_session_def administratorMFA_def by metis
qed

lemma required_traced:
  assumes "sessions_ok (ss_repository (srv_sessions (site_server w)))" and "permission \<noteq> [] \<or> reads_only handler"
  shows "only_traced w (snd (requireAdmin cx lib permission handler rq w))
    \<or> \<not> reads_only handler \<and> (emergency_bearer cx lib rq \<or> administrator_session cx permission rq w
        \<and> (isMutation (rq_Method (pq_Request rq)) \<longrightarrow> validCSRF (pq_CSRFToken rq) (pq_Request rq)))"
proof -
  obtain x w1 where a: "authenticateAdministrator cx lib permission rq w = (x, w1)" by fastforce
  have t: "only_traced w w1" by (rule authenticated_traced [OF assms(1) a])
  show ?thesis
  proof (cases x)
    case (Inl e)
    with a t show ?thesis by (simp add: requireAdmin_def case_prod_beta)
  next
    case (Inr y)
    obtain access how where y: "y = (access, how)" by fastforce
    show ?thesis
    proof (cases "reads_only handler")
      case True
      then have "\<And>rq. snd (handler access rq w1) = w1" by (simp add: reads_only_def)
      with a t Inr y show ?thesis by (simp add: requireAdmin_def Let_def case_prod_beta)
    next
      case False
      with assms(2) authenticated_authority [OF assms(1) _ authenticated_has [OF a [unfolded Inr y]] a [unfolded Inr y]] a t Inr y
      show ?thesis by (auto simp: requireAdmin_def)
    qed
  qed
qed


section \<open>A site with one administrator\<close>

definition demo_id :: string where
  "demo_id = ''00000000-0000-4000-8000-000000000001''"

definition demo_site :: site where
  "demo_site = \<lparr>si_login = demo_login_server\<lparr>lg_core := demo_server\<lparr>srv_users :=
       NewMemoryUserRepository [demo_person\<lparr>us_ID := demo_id\<rparr>]\<rparr>\<rparr>,
     si_administrators = [(demo_id, [\<lparr>gr_UserID = demo_id, gr_Role = RoleSuperAdmin, gr_GrantedAt = 1, gr_GrantedBy = ''setup''\<rparr>])],
     si_outbox = []\<rparr>"

definition demo_site_lib :: site_lib where
  "demo_site_lib = \<lparr>wl_login = demo_login_lib, wl_mailer = None, wl_QRCode = (\<lambda>_. None), wl_EmailVerificationTTL = hour,
     wl_RequireEmail = False, wl_AdminToken = ''key'', wl_GeneratedKey = None\<rparr>"

definition demo_admin_request :: "string \<Rightarrow> page_request" where
  "demo_admin_request body = \<lparr>pq_Request = (demo_request [])\<lparr>rq_Authorization := ''Bearer key'', rq_ContentType := ''application/json''\<rparr>,
     pq_CSRFToken = [], pq_PathValue = (\<lambda>_. demo_id), pq_Body = body\<rparr>"

lemma demo_found: "User_Find demo_id (NewMemoryUserRepository [demo_person\<lparr>us_ID := demo_id\<rparr>]) = Inr (demo_person\<lparr>us_ID := demo_id\<rparr>)"
  "ValidUserID demo_id" "TrimSpace ''Bearer key'' = ''Bearer key''" "TrimSpace ''key'' = ''key''"
  by code_simp+

lemma demo_admin_authenticated:
  "authenticateAdministrator (demo_cx 100) demo_site_lib permission (demo_admin_request body) w =
     (Inr (AccessFor [] [RoleSuperAdmin], adminAuthEmergencyToken), w)"
  by (simp add: authenticateAdministrator_def demo_admin_request_def demo_found(3,4) HasPrefix_def bearer_prefix_def validEmergencyAdminToken_def demo_site_lib_def)

lemma demo_site_simps [simp]:
  "site_users demo_site = NewMemoryUserRepository [demo_person\<lparr>us_ID := demo_id\<rparr>]"
  "si_administrators demo_site = [(demo_id, [\<lparr>gr_UserID = demo_id, gr_Role = RoleSuperAdmin, gr_GrantedAt = 1, gr_GrantedBy = ''setup''\<rparr>])]"
  "srv_sessions (site_server demo_site) = \<lparr>ss_repository = [(''s1'', demo_login_session)], ss_lifetime = 12 * hour\<rparr>"
  by (simp_all add: demo_site_def)

lemma demo_super_access: "Has (AccessFor [] [RoleSuperAdmin]) PermissionAdminRolesWrite"
  by code_simp

definition demo_principal :: "string \<Rightarrow> page_request" where
  "demo_principal body = withAdminPrincipal (AccessFor [] [RoleSuperAdmin]) adminAuthEmergencyToken (demo_admin_request body)"

lemma demo_request_simps [simp]:
  "rq_Method (pq_Request (demo_admin_request body)) = ''POST''" "rq_Path (pq_Request (demo_admin_request body)) = ''/''"
  "pq_PathValue (demo_principal body) name = demo_id" "pq_PathValue (demo_admin_request body) name = demo_id"
  by (simp_all add: demo_admin_request_def demo_request_def demo_principal_def withAdminPrincipal_def)

lemma demo_served:
  "snd (admin_serve (demo_cx 100) demo_site_lib IssueUserReset (demo_admin_request body) w) =
     snd (issueUserPasswordReset (demo_cx 100) (AccessFor [] [RoleSuperAdmin]) (demo_principal body) w)"
  by (simp add: admin_serve_def verb_matches_def requireAdmin_def demo_admin_authenticated auditMutations_def demo_principal_def HasPrefix_def
      Let_def case_prod_beta)

lemma audit_users [simp]: "site_users (site_audit cx rq actor type clientID outcome details w) = site_users w"
  using audit_same [of w cx rq actor type clientID outcome details] by (simp only: same_accounts_def)

lemma demo_reset_issued:
  "\<exists>t. t \<in> snd ` set (passwordResets (site_users (snd (admin_serve (demo_cx 100) demo_site_lib IssueUserReset (demo_admin_request []) demo_site))))
     \<and> pr_UserID t = demo_id"
proof -
  obtain raw where "RandomToken 32 (Some (replicate 16 7)) = Inr raw" by (simp add: RandomToken_def)
  moreover have "map_of (users (NewMemoryUserRepository [demo_person\<lparr>us_ID := demo_id\<rparr>])) demo_id = Some (demo_person\<lparr>us_ID := demo_id\<rparr>)"
    by code_simp
  ultimately have "\<exists>t r. Identity_Passwords.IssueReset (\<lambda>b. b) (Some (replicate 16 7)) True 100 demo_id (30 * minute) (site_users demo_site) = (Inr raw, r)
      \<and> t \<in> snd ` set (passwordResets r) \<and> pr_UserID t = demo_id"
    by (simp add: Identity_Passwords.IssueReset_def SavePasswordReset_def NewMemoryUserRepository_def map_keep_def)
  then show ?thesis
    by (auto simp: demo_served issueUserPasswordReset_def sensitive_user_def adminSessionUser_def
      authorizeSensitiveAdministratorTarget_def sensitive_target_allowed_def demo_super_access demo_found on_users_eq admin_audit_def Let_def)
qed


end
