(* ===== verification/Admin_Governance.thy ===== *)
theory Admin_Governance
  imports Admin_Flows
begin

text \<open>
  An active super administrator always remains, whatever requests the login pages, the account pages and the administration
  interface serve: the guards of \<open>replaceUser\<close> and \<open>replaceUserAdministratorRoles\<close>, which check a store of accounts and a store of
  grants separately, suffice. The pages are put together as one machine; \<open>site_reaches\<close> are the sites it gets to.
\<close>

section \<open>An active super administrator remains\<close>

definition active_super :: "string \<Rightarrow> site \<Rightarrow> bool" where
  "active_super i w \<longleftrightarrow>
     (\<exists>u. map_of (users (site_users w)) i = Some u \<and> us_Status u = UserActive)
     \<and> HasRole (grantRoles (grants_of i (si_administrators w))) RoleSuperAdmin"

definition super_administered :: "site \<Rightarrow> bool" where
  "super_administered w \<longleftrightarrow> accounts_ok (site_users w) \<and> gomap_ok (si_administrators w) \<and> (\<exists>i. active_super i w)"

definition governs :: "site \<Rightarrow> site \<Rightarrow> bool" where
  "governs w w' \<longleftrightarrow> (super_administered w \<longrightarrow> super_administered w')"

lemma keeps_governs: "site_keeps w w' \<Longrightarrow> governs w w'"
  unfolding governs_def super_administered_def active_super_def site_keeps_def keeps_def by metis

interpretation governing: account_relation governs
  by unfold_locales (auto simp: governs_def super_administered_def active_super_def same_accounts_def)

lemma kept_governing: "kept.obeys h \<Longrightarrow> governing.obeys h"
  by (simp add: kept.obeys_def governing.obeys_def keeps_governs)

lemma reads_keep: "reads_only handler \<Longrightarrow> site_keeps w (snd (handler access rq w))"
  by (simp add: reads_only_def)

lemma on_access_keeps: "on_access f w = (x, w1) \<Longrightarrow> site_keeps w w1"
  unfolding on_access_def by (erule server_keeps) (simp add: case_prod_beta)

lemma access_handlers_obey:
  "kept.obeys (createRole cx access rq)" "kept.obeys (replaceRole cx access rq)" "kept.obeys (deleteRole cx access rq)"
  "kept.obeys (createPermission cx access rq)" "kept.obeys (replacePermission cx access rq)" "kept.obeys (deletePermission cx access rq)"
  "kept.obeys (replaceRolePermissions cx access rq)" "kept.obeys (replaceUserRoles cx access rq)"
  unfolding createRole_def replaceRole_def deleteRole_def createPermission_def replacePermission_def deletePermission_def
    replaceRolePermissions_def replaceUserRoles_def client_audit_def admin_audit_def
  by (rule kept.obeys_client kept.obeys_user, rule kept.obeysI,
      auto simp: Let_def dest!: on_access_keeps intro!: kept.after_audit split: prod.split option.split sum.split)+

lemma revoke_listed_keeps: "on_server (\<lambda>s. revoke_listed cx (ls s) u ex s) w = (x, w1) \<Longrightarrow> site_keeps w w1"
  by (erule server_keeps) simp

lemma revoke_sessions_keeps: "on_server (revoke_user_sessions cx u ex) w = (x, w1) \<Longrightarrow> site_keeps w w1"
  by (erule server_keeps) simp

lemma tokens_keeps: "site_keeps w (snd (on_server (\<lambda>s. ((), revoke_user_tokens cx u ex s)) w))"
  by (rule server_keeps_snd) simp

lemma tokens_after: "site_keeps w w1 \<Longrightarrow> site_keeps w (snd (on_server (\<lambda>s. ((), revoke_user_tokens cx u ex s)) w1))"
  using kept.trans tokens_keeps by blast

lemma session_revoked_keeps:
  "on_server (\<lambda>s. case Service_RevokeForUser u i now (srv_sessions s) of
           (Inl err, sessions) \<Rightarrow> (False, s\<lparr>srv_sessions := sessions\<rparr>)
         | (Inr _, sessions) \<Rightarrow>
             (True, snd (cleanupRevokedSessions cx ids (s\<lparr>srv_sessions := sessions\<rparr>)))) w = (x, w1) \<Longrightarrow> site_keeps w w1"
  by (erule server_keeps) (simp split: prod.split sum.split)

lemma importUsers_obeys: "kept.obeys (importUsers cx access rq)"
  unfolding importUsers_def admin_audit_def
  by (rule kept.obeys_body, rule kept.obeysI)
    (auto dest!: on_users_keeps [OF _ keeps_import] intro!: kept.after_audit split: prod.split sum.split)

lemma setUserPassword_obeys: "kept.obeys (setUserPassword cx lib access rq)"
  unfolding setUserPassword_def admin_audit_def
  by (rule kept.obeys_sensitive, rule kept.obeys_body, rule kept.obeysI)
    (auto dest!: keeps_users_steps(6) sessions_keep devices_keep intro!: kept.after_audit split: prod.split sum.split,
     (blast intro: kept.trans)+)

lemma issueUserPasswordReset_obeys: "kept.obeys (issueUserPasswordReset cx access rq)"
  unfolding issueUserPasswordReset_def admin_audit_def
  by (rule kept.obeys_sensitive, rule kept.obeysI)
    (auto dest!: keeps_users_steps(3) intro!: kept.after_audit split: prod.split sum.split)

lemma verifyAdminUserEmail_obeys: "kept.obeys (verifyAdminUserEmail cx access rq)"
  unfolding verifyAdminUserEmail_def admin_audit_def
  by (rule kept.obeys_sensitive, rule kept.obeysI)
    (auto dest!: on_users_keeps [OF _ keeps_email_verified] intro!: kept.after_audit split: prod.split sum.split)

lemma resetAdminUserMFA_obeys: "kept.obeys (resetAdminUserMFA cx access rq)"
  unfolding resetAdminUserMFA_def admin_audit_def
  by (rule kept.obeys_sensitive, rule kept.obeysI)
    (auto dest!: on_mfa_keeps revoke_sessions_keeps intro!: kept.after_audit tokens_after intro: kept.trans split: prod.split sum.split)

lemma session_handlers_obey:
  "kept.obeys (revokeAdminUserSession cx access rq)" "kept.obeys (revokeAllAdminUserSessions cx access rq)"
  unfolding revokeAdminUserSession_def revokeAllAdminUserSessions_def admin_audit_def
  by (rule kept.obeys_sensitive, rule kept.obeysI,
      auto simp: Let_def dest!: session_revoked_keeps revoke_listed_keeps intro!: kept.after_audit tokens_after split: prod.split sum.split bool.split)+

lemma deleteUserExternalIdentity_obeys: "kept.obeys (deleteUserExternalIdentity cx access rq)"
proof -
  have d: "kept.obeys (remove_external cx rq u e p)" for u e p
    unfolding remove_external_def admin_audit_def
    by (rule kept.obeysI)
      (auto dest!: keeps_users_steps(7) sessions_keep intro!: kept.after_audit intro: kept.trans split: prod.split sum.split)
  have "kept.obeys (\<lambda>w. case ListExternalIdentities u (site_users w) of
          Inl err \<Rightarrow> (f err, w)
        | Inr items \<Rightarrow>
            let providerID = (case find (\<lambda>item. ei_ID item = i) items of None \<Rightarrow> [] | Some item \<Rightarrow> ei_ProviderID item) in
            if providerID = [] then (g, w) else remove_external cx rq u i providerID w)" for u i f g
    using d by (auto simp: kept.obeys_def Let_def split: sum.split)
  from kept.obeys_target [OF this] show ?thesis
    by (auto simp: kept.obeys_def deleteUserExternalIdentity_def Let_def)
qed

lemma rotateSigningKey_obeys: "kept.obeys (rotateSigningKey cx lib access rq)"
  unfolding rotateSigningKey_def admin_audit_def
  by (rule kept.obeysI) (auto dest!: server_keeps intro!: kept.after_audit split: prod.splits sum.splits)

text \<open>The three requests that may end an active super administrator.\<close>

definition fresh_user_id :: "request_context \<Rightarrow> site \<Rightarrow> bool" where
  "fresh_user_id cx w \<longleftrightarrow>
     (case RandomUUID (cx_random cx 24) of Inl _ \<Rightarrow> True | Inr i \<Rightarrow> map_of (users (site_users w)) i = None)"

lemma send_keeps_snd: "site_keeps w (snd (sendEmailVerification cx lib user w))"
  by (metis prod.collapse send_keeps)

lemma createUser_keeps:
  assumes "fresh_user_id cx w"
  shows "site_keeps w (snd (createUser cx lib access rq w))"
proof -
  have "site_keeps w w1" if "NewUser (cx_random cx 24) input (cx_now cx) = Inr u" "on_users (User_Create u) w = (x, w1)" for input u x w1
  proof -
    have "RandomUUID (cx_random cx 24) = Inr (us_ID u)"
      using that(1) by (auto simp: NewUser_def Let_def split: sum.splits if_splits)
    with assms have "map_of (users (site_users w)) (us_ID u) = None" by (simp add: fresh_user_id_def)
    from keeps_create [OF this] that(2) show ?thesis by (auto simp: on_users_eq site_keeps_def)
  qed
  then show ?thesis
    unfolding createUser_def
    by (auto intro: kept.trans [OF _ send_keeps_snd] split: prod.split option.split sum.split)
qed

lemma other_active: "other_active_loop i r ids \<Longrightarrow> \<exists>j \<in> set ids. j \<noteq> i \<and> (\<exists>u. map_of (users r) j = Some u \<and> us_Status u = UserActive)"
  by (induction ids) (auto simp: User_Find_def split: if_splits option.splits)

lemma listed_super:
  assumes "ListRoleUsers RoleSuperAdmin r = Inr ids" and "gomap_ok r" and "j \<in> set ids"
  shows "HasRole (grantRoles (grants_of j r)) RoleSuperAdmin"
proof -
  from assms(1,3) obtain gs where "(j, gs) \<in> set r" "HasRole (grantRoles gs) RoleSuperAdmin"
    by (auto simp: ListRoleUsers_def split: if_splits)
  with assms(2) show ?thesis by (simp add: grants_of_def in_set_gomap_iff)
qed

lemma ensured_other:
  assumes "ensureOtherActiveSuperAdministrator i w = Inr ()" and "gomap_ok (si_administrators w)"
  shows "\<exists>j. j \<noteq> i \<and> active_super j w"
proof -
  from assms(1) obtain ids where l: "ListRoleUsers RoleSuperAdmin (si_administrators w) = Inr ids" and "other_active_loop i (site_users w) ids"
    by (auto simp: ensureOtherActiveSuperAdministrator_def split: sum.splits if_splits)
  then obtain j u where "j \<in> set ids" "j \<noteq> i" "map_of (users (site_users w)) j = Some u" "us_Status u = UserActive"
    using other_active by blast
  with listed_super [OF l assms(2)] show ?thesis by (auto simp: active_super_def)
qed

lemma store_user_after: "governs w (snd (on_users (User_Replace u) w)) \<Longrightarrow> governs w (snd (store_user cx lib current u w))"
proof -
  obtain res w1 where 1: "on_users (User_Replace u) w = (res, w1)" by fastforce
  assume g: "governs w (snd (on_users (User_Replace u) w))"
  have "site_keeps w1 (snd (sendEmailVerification cx lib v (snd (end_user_sessions cx i ex w1))))" for v i ex
    using sessions_keep send_keeps_snd kept.trans by (metis prod.collapse)
  moreover have "site_keeps w1 (snd (end_user_sessions cx i ex w1))" for i ex using sessions_keep by (metis prod.collapse)
  ultimately have "site_keeps w1 (snd (store_user cx lib current u w))"
    using 1 send_keeps_snd by (simp add: store_user_def Let_def split: sum.split)
  with g 1 show ?thesis using keeps_governs governing.trans by auto
qed

lemma User_Replace_at:
  assumes "map_of (users r) (us_ID u) = Some current"
  obtains v where "map_of (users (snd (User_Replace u r))) (us_ID u) = Some v" "us_Status v = us_Status u \<or> v = current"
proof -
  have "users (snd (User_Replace u r)) \<in> {users r, map_put (us_ID u) u (users r), map_put (us_ID u) (u\<lparr>us_EmailVerified := False\<rparr>) (users r)}"
    by (simp add: User_Replace_def assms Let_def)
  with assms that show thesis by (elim insertE emptyE) simp_all
qed

lemma replaced_governs:
  assumes f: "User_Find i (site_users w) = Inr current" and r: "User_Replaced current input now = Inr u"
    and other: "us_Status current = UserActive \<Longrightarrow> us_Status u \<noteq> UserActive \<Longrightarrow> super_administered w
        \<Longrightarrow> \<exists>j. j \<noteq> i \<and> active_super j w"
  shows "governs w (snd (on_users (User_Replace u) w))"
  unfolding governs_def
proof
  let ?r = "site_users w" and ?w = "snd (on_users (User_Replace u) w)"
  assume s: "super_administered w"
  then have ok: "accounts_ok ?r" by (simp add: super_administered_def)
  from f have m: "map_of (users ?r) i = Some current" by (simp add: User_Find_def split: option.splits)
  have u: "us_ID u = i" "us_Username u = us_Username current"
    using r accounts_okD(2) [OF ok m] by (auto simp: User_Replaced_def Let_def split: if_splits sum.splits)
  then have ok': "accounts_ok (site_users ?w)"
    using accounts_ok_replace [OF ok, of u] m by (simp add: on_users_eq)
  have same: "map_of (users (site_users ?w)) j = map_of (users ?r) j" if "j \<noteq> i" for j
    using that u by (simp add: on_users_eq User_Replace_def m Let_def)
  have kept_other: "active_super j ?w" if "j \<noteq> i" "active_super j w" for j
    using that same by (simp add: active_super_def) (simp add: on_users_eq)
  from s obtain k where k: "active_super k w" by (auto simp: super_administered_def)
  have "\<exists>j. active_super j ?w"
  proof (cases "k = i \<and> us_Status u = UserActive")
    case True
    have "users (site_users ?w) = users (snd (User_Replace u ?r))" by (simp add: on_users_eq)
    with User_Replace_at [of ?r u current] m u obtain v where v: "map_of (users (site_users ?w)) i = Some v" "us_Status v = us_Status u \<or> v = current" by auto
    have "si_administrators ?w = si_administrators w" by (simp add: on_users_eq)
    with k True m v have "active_super i ?w" unfolding active_super_def by (metis option.inject)
    then show ?thesis ..
  next
    case False
    have "us_Status current = UserActive" if "k = i" using k m that by (auto simp: active_super_def)
    with False k other [OF _ _ s] have "\<exists>j. j \<noteq> i \<and> active_super j w" by blast
    with kept_other show ?thesis by blast
  qed
  with ok' s show "super_administered ?w" by (simp add: super_administered_def on_users_eq)
qed

lemma deactivation_governs:
  assumes "(super_administered w \<Longrightarrow> \<exists>j. j \<noteq> i \<and> active_super j w) \<Longrightarrow> governs w (snd (handler w))"
  shows "governs w (snd (authorizeAdministratorDeactivation access i handler w))"
proof -
  have "\<exists>j. j \<noteq> i \<and> active_super j w"
    if "super_administered w" "\<not> grantsContainRole (Admin_ListUserRoles i (si_administrators w)) RoleSuperAdmin"
  proof -
    from that(2) have "\<not> active_super i w"
      by (auto simp: active_super_def grantsContainRole_def Admin_ListUserRoles_def cloneGrants_def HasRole_def grantRoles_def list_ex_iff)
    with that(1) show ?thesis unfolding super_administered_def by metis
  qed
  moreover have "\<exists>j. j \<noteq> i \<and> active_super j w" if "super_administered w" "ensureOtherActiveSuperAdministrator i w = Inr u" for u
    using ensured_other that by (auto simp: super_administered_def)
  ultimately show ?thesis
    using assms by (auto simp: authorizeAdministratorDeactivation_def authorizeSensitiveAdministratorTarget_def split: sum.split)
qed

lemma stored_governs:
  assumes "User_Find i (site_users w) = Inr current" and "User_Replaced current input now = Inr user"
  shows "governs w (snd (if us_Status current = UserActive \<and> us_Status user \<noteq> UserActive
                then authorizeAdministratorDeactivation access i (store_user cx lib current user) w
                else store_user cx lib current user w))"
proof (cases "us_Status current = UserActive \<and> us_Status user \<noteq> UserActive")
  case True
  have "governs w (snd (store_user cx lib current user w))" if "super_administered w \<Longrightarrow> \<exists>j. j \<noteq> i \<and> active_super j w"
    by (rule store_user_after, rule replaced_governs [OF assms]) (rule that)
  with deactivation_governs [where handler = "store_user cx lib current user"] True show ?thesis by presburger
next
  case False
  then have "governs w (snd (store_user cx lib current user w))"
    by (intro store_user_after replaced_governs [OF assms]) auto
  with False show ?thesis by presburger
qed

lemma replaceUser_governs: "governs w (snd (replaceUser cx lib access rq w))"
  using stored_governs unfolding replaceUser_def adminSessionUser_def Let_def
  by (simp del: if_split split: sum.split option.split)

lemma roles_governs:
  assumes "HasRole (grantRoles (grants_of i (si_administrators w))) RoleSuperAdmin \<Longrightarrow> \<not> HasRole rs RoleSuperAdmin
      \<Longrightarrow> super_administered w \<Longrightarrow> \<exists>j. j \<noteq> i \<and> active_super j w"
  shows "governs w (snd (store_admin_roles cx access rq i rs w))"
proof -
  let ?r = "snd (Admin_ReplaceUserRoles i rs (grantedBy access) (cx_now cx) (si_administrators w))"
  have "governs w (w\<lparr>si_administrators := ?r\<rparr>)"
    unfolding governs_def
  proof
    assume s: "super_administered w"
    let ?w = "w\<lparr>si_administrators := ?r\<rparr>"
    let ?gs = "map (\<lambda>role. \<lparr>gr_UserID = i, gr_Role = role, gr_GrantedAt = cx_now cx, gr_GrantedBy = grantedBy access\<rparr>) rs"
    have r: "?r = si_administrators w \<or> ?r = map_put i ?gs (si_administrators w)"
      by (simp add: Admin_ReplaceUserRoles_def split: sum.split)
    have others: "active_super j ?w" if "j \<noteq> i" "active_super j w" for j
      using r that by (auto simp: active_super_def grants_of_def)
    from s obtain k where k: "active_super k w" by (auto simp: super_administered_def)
    have "\<exists>j. active_super j ?w"
    proof (cases "k = i \<and> HasRole rs RoleSuperAdmin")
      case True
      with k r have "active_super i ?w" by (auto simp: active_super_def grants_of_def grantRoles_def comp_def)
      then show ?thesis ..
    next
      case False
      have "HasRole (grantRoles (grants_of i (si_administrators w))) RoleSuperAdmin" if "k = i" using k that by (simp add: active_super_def)
      with False k assms [OF _ _ s] have "\<exists>j. j \<noteq> i \<and> active_super j w" by blast
      with others show ?thesis by blast
    qed
    with s r show "super_administered ?w" by (auto simp: super_administered_def)
  qed
  then show ?thesis
    by (auto simp: store_admin_roles_def admin_audit_def Let_def intro: governing.after_audit split: prod.split sum.split)
qed

lemma listed_roles: "grantsContainRole (Admin_ListUserRoles i r) role \<longleftrightarrow> HasRole (grantRoles (grants_of i r)) role"
  by (auto simp: grantsContainRole_def Admin_ListUserRoles_def cloneGrants_def HasRole_def grantRoles_def list_ex_iff)

lemma replaceUserAdministratorRoles_governs: "governing.obeys (replaceUserAdministratorRoles cx access rq)"
  unfolding replaceUserAdministratorRoles_def
  by (rule governing.obeys_user, rule governing.obeys_body, rule governing.obeysI)
    (auto simp: listed_roles super_administered_def intro!: roles_governs dest: ensured_other split: sum.split)

section \<open>All pages together\<close>

lemma admin_serve_governs:
  assumes "route = CreateUser \<Longrightarrow> fresh_user_id cx w"
  shows "governs w (snd (admin_serve cx lib route rq w))"
proof -
  obtain verb permission handler where e: "admin_entry cx lib route = (verb, permission, handler)" by (metis prod_cases3)
  have h: "governs w1 (snd (handler access rq1 w1))"
    if "authenticateAdministrator cx lib permission rq w = (Inr (access, how), w1)" for access how rq1 w1
  proof (cases "verb = ''GET''")
    case True
    with e handlers_read reads_keep show ?thesis by (intro keeps_governs) blast
  next
    case False
    have "fresh_user_id cx w1" if "route = CreateUser"
      using assms [OF that] kept.authenticated_same [OF \<open>authenticateAdministrator cx lib permission rq w = _\<close>]
      by (auto simp: fresh_user_id_def same_accounts_def split: sum.splits)
    then show ?thesis
      using e False access_handlers_obey [THEN kept_governing] session_handlers_obey [THEN kept_governing]
        importUsers_obeys [THEN kept_governing] setUserPassword_obeys [THEN kept_governing] issueUserPasswordReset_obeys [THEN kept_governing]
        verifyAdminUserEmail_obeys [THEN kept_governing] resetAdminUserMFA_obeys [THEN kept_governing]
        deleteUserExternalIdentity_obeys [THEN kept_governing] rotateSigningKey_obeys [THEN kept_governing]
        replaceUserAdministratorRoles_governs
      by (cases route) (auto simp: governing.obeys_def replaceUser_governs createUser_keeps keeps_governs)
  qed
  show ?thesis
    using e governing.after_require [of cx lib permission rq w handler] h
    by (auto simp: admin_serve_def)
qed

datatype site_event =
    LoginEvent request_context site_lib login_op
  | AccountEvent request_context site_lib account_route page_request
  | AdminEvent request_context site_lib admin_route page_request

fun site_serve :: "site_event \<Rightarrow> site \<Rightarrow> response \<times> site" where
  "site_serve (LoginEvent cx lib op) = on_login (login_serve cx (wl_login lib) op)"
| "site_serve (AccountEvent cx lib route rq) = account_serve cx lib route rq"
| "site_serve (AdminEvent cx lib route rq) = admin_serve cx lib route rq"

text \<open>The identifier drawn for a created user is a new one.\<close>

fun draws_fresh :: "site_event \<Rightarrow> site \<Rightarrow> bool" where
  "draws_fresh (AdminEvent cx lib CreateUser rq) w = fresh_user_id cx w"
| "draws_fresh _ w = True"

inductive site_reaches :: "site \<Rightarrow> site \<Rightarrow> bool" for w where
  start: "site_reaches w w"
| serve: "site_reaches w w1 \<Longrightarrow> draws_fresh e w1 \<Longrightarrow> site_reaches w (snd (site_serve e w1))"

lemma site_serve_governs:
  assumes "draws_fresh e w"
  shows "governs w (snd (site_serve e w))"
proof (cases e)
  case (LoginEvent cx lib op)
  have "site_keeps w (snd (on_login (login_serve cx (wl_login lib) op) w))"
    using login_serve_keeps [of "si_login w" cx "wl_login lib" op]
    by (simp add: on_login_def site_keeps_def login_users_def split: prod.split)
  with LoginEvent show ?thesis by (simp add: keeps_governs)
next
  case (AccountEvent cx lib route rq)
  then show ?thesis by (simp add: keeps_governs account_serve_keeps)
next
  case (AdminEvent cx lib route rq)
  then have "route = CreateUser \<Longrightarrow> fresh_user_id cx w" using assms by simp
  with AdminEvent show ?thesis by (simp add: admin_serve_governs)
qed

text \<open>C9: The site always keeps an administrator. From a site with well-formed accounts in which some active user is a super
  administrator, no sequence of sign-ins, account requests and administration requests (changes of roles, deactivations and imports
  among them), from anyone and in any order, leads to a site without an active super administrator, provided that identifiers drawn
  for users that administrators create are new.\<close>

theorem active_super_administrator_remains:
  assumes "super_administered w" and "site_reaches w w'"
  shows "super_administered w'"
  using assms(2,1)
proof induction
  case (serve w1 e)
  then show ?case using site_serve_governs [of e w1] by (simp add: governs_def)
qed

section \<open>Witness\<close>

lemma demo_accounts_ok: "accounts_ok (site_users demo_site)" "map_of (users (site_users demo_site)) demo_id = Some (demo_person\<lparr>us_ID := demo_id\<rparr>)"
  by (auto simp: accounts_ok_def NewMemoryUserRepository_def demo_person_def gomap_ok_def split: if_splits)

lemma demo_site_super: "super_administered demo_site"
proof -
  have "us_Status (demo_person\<lparr>us_ID := demo_id\<rparr>) = UserActive" by (simp add: demo_person_def)
  with demo_accounts_ok have "active_super demo_id demo_site"
    by (simp add: active_super_def grants_of_def grantRoles_def HasRole_def)
  with demo_accounts_ok(1) show ?thesis by (auto simp: super_administered_def gomap_ok_def)
qed

lemma demo_fresh: "fresh_user_id (demo_cx 100) demo_site"
proof -
  have "(case RandomUUID (Some (replicate 16 7)) of Inl _ \<Rightarrow> False | Inr i \<Rightarrow> i \<noteq> demo_id)" by code_simp
  then show ?thesis by (auto simp: fresh_user_id_def NewMemoryUserRepository_def split: sum.splits)
qed

theorem active_super_administrator_remains_witness:
  "super_administered (snd (site_serve (AdminEvent (demo_cx 100) demo_site_lib CreateUser (demo_admin_request [])) demo_site))"
  by (rule active_super_administrator_remains [OF demo_site_super], rule site_reaches.serve [OF site_reaches.start])
    (simp add: demo_fresh)

end
