(* ===== verification/Admin_Protection.thy ===== *)
theory Admin_Protection
  imports Admin_Governance
begin

text \<open>
  What only those who may assign administrator roles can do to an administrator. \<open>spares i\<close> relates two sites when what belongs to
  the user \<open>i\<close> is untouched: the password, reset tokens, external identities, the second factor and trusted devices, the
  administrator roles, and the status if it is active. It is another interpretation of \<open>account_relation\<close>, so handlers are
  followed with the same rules as for the accounts.
\<close>

section \<open>What belongs to a user\<close>

definition mfa_of :: "site \<Rightarrow> MFARepository" where
  "mfa_of w = ms_repository (lg_mfa (si_login w))"

definition spares_account :: "string \<Rightarrow> UserRepository \<Rightarrow> UserRepository \<Rightarrow> bool" where
  "spares_account i r r' \<longleftrightarrow>
     map_of (UserRepository.credentials r') i = map_of (UserRepository.credentials r) i
     \<and> (\<forall>t \<in> snd ` set (passwordResets r'). pr_UserID t = i \<longrightarrow> t \<in> snd ` set (passwordResets r))
     \<and> (\<forall>e \<in> set (external r). ei_UserID (snd e) = i \<longrightarrow> e \<in> set (external r'))
     \<and> (\<forall>u. map_of (users r) i = Some u \<longrightarrow> us_Status u = UserActive \<longrightarrow>
          (\<exists>u'. map_of (users r') i = Some u' \<and> us_Status u' = UserActive))"

definition spares_factor :: "string \<Rightarrow> MFARepository \<Rightarrow> MFARepository \<Rightarrow> bool" where
  "spares_factor i m m' \<longleftrightarrow>
     map_of (MFARepository.credentials m') i = map_of (MFARepository.credentials m) i
     \<and> (\<forall>d \<in> set (trustedDevices m). td_UserID (snd d) = i \<longrightarrow> d \<in> set (trustedDevices m'))"

definition spares :: "string \<Rightarrow> site \<Rightarrow> site \<Rightarrow> bool" where
  "spares i w w' \<longleftrightarrow>
     spares_account i (site_users w) (site_users w') \<and> spares_factor i (mfa_of w) (mfa_of w')
     \<and> grants_of i (si_administrators w') = grants_of i (si_administrators w)"

lemma spares_account_trans: "spares_account i r r1 \<Longrightarrow> spares_account i r1 r2 \<Longrightarrow> spares_account i r r2"
  unfolding spares_account_def by metis

lemma spares_factor_trans: "spares_factor i r r1 \<Longrightarrow> spares_factor i r1 r2 \<Longrightarrow> spares_factor i r r2"
  unfolding spares_factor_def by metis

lemma spares_refl [simp]: "spares_account i r r" "spares_factor i m m"
  by (auto simp: spares_account_def spares_factor_def)

interpretation sparing: account_relation "spares i" for i
  by unfold_locales
    (auto simp: spares_def same_accounts_def mfa_of_def intro: spares_account_trans spares_factor_trans)

lemma on_users_spares:
  "on_users f w = (x, w1) \<Longrightarrow> spares_account i (site_users w) (snd (f (site_users w))) \<Longrightarrow> spares i w w1"
  by (auto simp: on_users_eq spares_def mfa_of_def)

lemma on_mfa_spares:
  "on_mfa f w = (x, w1) \<Longrightarrow> spares_factor i (mfa_of w) (ms_repository (snd (f (lg_mfa (si_login w))))) \<Longrightarrow> spares i w w1"
  by (auto simp: on_mfa_eq spares_def mfa_of_def)

lemma server_spares: "on_server f w = (x, w1) \<Longrightarrow> (\<And>s. srv_users (snd (f s)) = srv_users s) \<Longrightarrow> spares i w w1"
  by (metis sparing.after_server sparing.refl)

section \<open>Operations on another user\<close>

lemma factor_steps:
  "on_mfa (Disable u) w = (x, w1) \<Longrightarrow> u \<noteq> i \<Longrightarrow> spares i w w1" "end_trusted_devices u w = (n, w1) \<Longrightarrow> u \<noteq> i \<Longrightarrow> spares i w w1"
  unfolding end_trusted_devices_def
  by (auto elim!: on_mfa_spares simp: spares_factor_def Disable_def RevokeTrustedDevices_def on_repository_def MFA_Delete_def
      DeleteTrustedDevices_def deleteTrustedDevicesLocked_def mfa_of_def map_of_delete split: option.split)

lemma account_steps:
  assumes "u \<noteq> i"
  shows "spares_account i r (snd (Password_Set idkey random u p r))" "spares_account i r (snd (Identity_Passwords.IssueReset sha256 random b now u l r))"
  using assms
  by (auto simp: spares_account_def Password_Set_def SetPassword_def IssueReset_def SavePasswordReset_def Let_def
      dest!: set_put_subset split: sum.split option.split prod.split)

lemma delete_spares:
  assumes "u \<noteq> i" and "gomap_ok (external r)"
  shows "spares_account i r (snd (DeleteExternalIdentity u e r))"
proof -
  have unique: "(k, x) \<in> set (external r) \<Longrightarrow> (k, y) \<in> set (external r) \<Longrightarrow> y = x" for k x y
    using assms(2) by (auto simp: in_set_gomap_iff)
  show ?thesis
    using assms(1)
    by (auto simp: spares_account_def DeleteExternalIdentity_def Let_def split: option.split prod.split dest!: find_SomeD)
      (metis unique)+
qed

lemma verified_spares: "accounts_ok r \<Longrightarrow> spares_account i r (snd (SetEmailVerified u now r))"
  by (auto simp: spares_account_def SetEmailVerified_def Let_def split: option.split)

lemma replace_spares:
  assumes "map_of (users r) (us_ID u) = Some current" and "us_ID u = i \<Longrightarrow> us_Status current = UserActive \<Longrightarrow> us_Status u = UserActive"
  shows "spares_account i r (snd (User_Replace u r))"
  using assms by (auto simp: spares_account_def User_Replace_def Let_def)

lemma create_spares: "map_of (users r) (us_ID u) = None \<Longrightarrow> spares_account i r (snd (User_Create u r))"
  by (auto simp: spares_account_def User_Create_def)

lemma store_migrated_frame2:
  "passwordResets (store_migrated ms r) = passwordResets r" "external (store_migrated ms r) = external r"
  by simp_all

lemma import_spares:
  assumes "accounts_ok r" and "map_of (users r) i = Some u"
  shows "spares_account i r (snd (Import randoms now input r))"
proof -
  have i: "i \<in> set (map us_ID (map snd (users r)))"
    using accounts_okD(2) [OF assms] assms(2) by (force dest: map_of_SomeD)
  have "spares_account i r (snd (CreateWithMigratedPasswords ms r))" for ms
  proof -
    have "spares_account i r (store_migrated ms r)" if "migration_free ns es (map us_ID (map snd (users r))) ms" for ns es
    proof -
      from migration_free_ids [OF that] i have "i \<notin> (\<lambda>m. us_ID (mr_User m)) ` set ms" by blast
      from store_migrated_other [OF this, of r] show ?thesis by (simp add: spares_account_def)
    qed
    then show ?thesis by (simp add: CreateWithMigratedPasswords_def Let_def)
  qed
  then show ?thesis
    by (auto simp: Import_def Let_def split: sum.split prod.split) (metis snd_conv)+
qed

lemma user_steps:
  "on_users (Password_Set idkey random u p) w = (x1, w1) \<Longrightarrow> u \<noteq> i \<Longrightarrow> spares i w w1"
  "on_users (Identity_Passwords.IssueReset sha256 random b now u l) w = (x2, w1) \<Longrightarrow> u \<noteq> i \<Longrightarrow> spares i w w1"
  "on_users (SetEmailVerified u now) w = (x3, w1) \<Longrightarrow> accounts_ok (site_users w) \<Longrightarrow> spares i w w1"
  "on_users (DeleteExternalIdentity u e) w = (x4, w1) \<Longrightarrow> u \<noteq> i \<Longrightarrow> gomap_ok (external (site_users w)) \<Longrightarrow> spares i w w1"
  by (erule on_users_spares, intro account_steps verified_spares delete_spares, assumption+)+

section \<open>Handlers\<close>

definition guarded :: "string \<Rightarrow> Access \<Rightarrow> site \<Rightarrow> bool" where
  "guarded i access w \<longleftrightarrow> grants_of i (si_administrators w) \<noteq> [] \<and> \<not> Has access PermissionAdminRolesWrite"

lemma guarded_refused: "guarded i access w \<Longrightarrow> \<not> sensitive_target_allowed access i (si_administrators w)"
  unfolding guarded_def sensitive_target_allowed_def Admin_ListUserRoles_def cloneGrants_def by (metis length_0_conv length_sort)

lemma sensitive_spares:
  assumes "guarded i access w" and "\<And>u user. u \<noteq> i \<Longrightarrow> User_Find u (site_users w) = Inr user \<Longrightarrow> spares i w (snd (handler u user w))"
  shows "spares i w (snd (sensitive_user access rq handler w))"
proof -
  have "spares i w (snd (authorizeSensitiveAdministratorTarget access u (handler u user) w))"
    if "User_Find u (site_users w) = Inr user" for u user
    using guarded_refused [OF assms(1)] assms(2) [OF _ that] by (auto simp: authorizeSensitiveAdministratorTarget_def)
  then show ?thesis by (simp add: sensitive_user_def adminSessionUser_def Let_def split: sum.split)
qed

lemma sessions_spare: "end_user_sessions cx u ex w = (n, w1) \<Longrightarrow> spares i w w1"
  by (metis end_sessions_same sparing.frame snd_conv)

lemma sessions_spare_after: "spares i w w1 \<Longrightarrow> end_user_sessions cx u ex w1 = (n, w2) \<Longrightarrow> spares i w w2"
  using sparing.trans sessions_spare by blast

lemma server_spares_snd: "(\<And>s. srv_users (snd (f s)) = srv_users s) \<Longrightarrow> spares i w w1 \<Longrightarrow> spares i w (snd (on_server f w1))"
  by (metis prod.collapse server_spares sparing.trans)

lemma setUserPassword_spares: "guarded i access w \<Longrightarrow> spares i w (snd (setUserPassword cx lib access rq w))"
  unfolding setUserPassword_def admin_audit_def
  by (erule sensitive_spares)
    (auto dest!: user_steps(1) factor_steps(2) sessions_spare intro!: sparing.after_audit
      split: prod.split sum.split option.split, (blast intro: sparing.trans)+)

lemma issueUserPasswordReset_spares: "guarded i access w \<Longrightarrow> spares i w (snd (issueUserPasswordReset cx access rq w))"
  unfolding issueUserPasswordReset_def admin_audit_def
  by (erule sensitive_spares)
    (auto dest!: user_steps(2) intro!: sparing.after_audit split: prod.split sum.split)

lemma verifyAdminUserEmail_spares:
  "accounts_ok (site_users w) \<Longrightarrow> spares i w (snd (verifyAdminUserEmail cx access rq w))"
  unfolding verifyAdminUserEmail_def admin_audit_def sensitive_user_def adminSessionUser_def authorizeSensitiveAdministratorTarget_def
  by (auto simp: Let_def dest!: user_steps(3) intro!: sparing.after_audit split: prod.split sum.split)

lemma resetAdminUserMFA_spares: "guarded i access w \<Longrightarrow> spares i w (snd (resetAdminUserMFA cx access rq w))"
  unfolding resetAdminUserMFA_def admin_audit_def
  by (erule sensitive_spares)
    (auto dest!: factor_steps(1) server_spares intro!: sparing.after_audit server_spares_snd intro: sparing.trans split: prod.split sum.split)

lemma session_revoked_spares:
  "on_server (\<lambda>s. case Service_RevokeForUser u j now (srv_sessions s) of
           (Inl err, sessions) \<Rightarrow> (False, s\<lparr>srv_sessions := sessions\<rparr>)
         | (Inr _, sessions) \<Rightarrow>
             (True, snd (cleanupRevokedSessions cx ids (s\<lparr>srv_sessions := sessions\<rparr>)))) w = (x, w1) \<Longrightarrow> spares i w w1"
  by (erule server_spares) (simp split: prod.split sum.split)

lemma session_handlers_spare:
  "sparing.obeys i (revokeAdminUserSession cx access rq)" "sparing.obeys i (revokeAllAdminUserSessions cx access rq)"
  unfolding revokeAdminUserSession_def revokeAllAdminUserSessions_def admin_audit_def
  by (rule sparing.obeys_sensitive, rule sparing.obeysI,
      auto simp: Let_def dest!: session_revoked_spares server_spares intro!: sparing.after_audit server_spares_snd
        split: prod.split sum.split bool.split)+

lemma on_access_spares: "on_access f w = (x, w1) \<Longrightarrow> spares i w w1"
  unfolding on_access_def by (erule server_spares) (simp add: case_prod_beta)

lemma access_handlers_spare:
  "sparing.obeys i (createRole cx access rq)" "sparing.obeys i (replaceRole cx access rq)" "sparing.obeys i (deleteRole cx access rq)"
  "sparing.obeys i (createPermission cx access rq)" "sparing.obeys i (replacePermission cx access rq)"
  "sparing.obeys i (deletePermission cx access rq)" "sparing.obeys i (replaceRolePermissions cx access rq)"
  "sparing.obeys i (replaceUserRoles cx access rq)"
  unfolding createRole_def replaceRole_def deleteRole_def createPermission_def replacePermission_def deletePermission_def
    replaceRolePermissions_def replaceUserRoles_def client_audit_def admin_audit_def
  by (rule sparing.obeys_client sparing.obeys_user, rule sparing.obeysI,
      auto simp: Let_def dest!: on_access_spares intro!: sparing.after_audit split: prod.split option.split sum.split)+

lemma rotateSigningKey_spares: "sparing.obeys i (rotateSigningKey cx lib access rq)"
  unfolding rotateSigningKey_def admin_audit_def
  by (rule sparing.obeysI) (auto dest!: server_spares intro!: sparing.after_audit split: prod.splits sum.splits)

lemma importUsers_spares:
  assumes "accounts_ok (site_users w)" and "map_of (users (site_users w)) i = Some u"
  shows "spares i w (snd (importUsers cx access rq w))"
proof -
  have "spares i w w1" if "on_users (Import randoms now input) w = (x, w1)" for randoms now input x w1
    using on_users_spares [OF that import_spares [OF assms]] .
  then show ?thesis
    by (auto simp: importUsers_def admin_audit_def intro!: sparing.after_audit split: option.split prod.split sum.split)
qed

lemma send_spares: "spares i w (snd (sendEmailVerification cx lib user w))"
proof -
  have issue: "spares i w w1" if "on_users (IssueVerification sha256 random b now u l) w = (x, w1)" for sha256 random b now u l x w1
    using that by (rule on_users_spares) (auto simp: spares_account_def IssueVerification_def SaveEmailVerification_def Let_def
      split: option.split sum.split prod.split)
  have mail: "spares i w w1" if "send_message mailer m w = (b, w1)" for mailer m b w w1
    using that by (auto simp: send_message_def spares_def mfa_of_def)
  show ?thesis
    unfolding sendEmailVerification_def
    by (auto split: option.split prod.split sum.split dest!: issue intro: sparing.trans) (metis mail prod.collapse sparing.trans)+
qed

lemma createUser_spares:
  assumes "fresh_user_id cx w"
  shows "spares i w (snd (createUser cx lib access rq w))"
proof -
  have "spares i w w1" if "NewUser (cx_random cx 24) input (cx_now cx) = Inr u" "on_users (User_Create u) w = (x, w1)" for input u x w1
  proof -
    have "RandomUUID (cx_random cx 24) = Inr (us_ID u)"
      using that(1) by (auto simp: NewUser_def Let_def split: sum.splits if_splits)
    with assms have "map_of (users (site_users w)) (us_ID u) = None" by (simp add: fresh_user_id_def)
    from on_users_spares [OF that(2) create_spares [OF this]] show ?thesis .
  qed
  then show ?thesis
    unfolding createUser_def
    by (auto intro: sparing.trans [OF _ send_spares] split: prod.split option.split sum.split)
qed

lemma deleteUserExternalIdentity_spares:
  assumes "guarded i access w" and "gomap_ok (external (site_users w))"
  shows "spares i w (snd (deleteUserExternalIdentity cx access rq w))"
proof -
  have "spares i w (snd (remove_external cx rq u e p w))" if "u \<noteq> i" for u e p
    unfolding remove_external_def admin_audit_def
    using that assms(2)
    by (auto dest!: user_steps(4) sessions_spare intro!: sparing.after_audit intro: sparing.trans split: prod.split sum.split)
  with guarded_refused [OF assms(1)] show ?thesis
    by (cases "pq_PathValue rq ''userID'' = i")
      (simp_all add: deleteUserExternalIdentity_def authorizeSensitiveAdministratorTarget_def Let_def split: sum.split)
qed

lemma store_user_spares:
  assumes "spares_account i (site_users w) (snd (User_Replace u (site_users w)))"
  shows "spares i w (snd (store_user cx lib current u w))"
proof -
  obtain res w1 where 1: "on_users (User_Replace u) w = (res, w1)" by fastforce
  have w1: "spares i w w1" using on_users_spares [OF 1 assms] .
  have e: "spares i w1 (snd (end_user_sessions cx j ex w1))" for j ex using sessions_spare by (metis prod.collapse)
  have "spares i w1 (snd (sendEmailVerification cx lib v (snd (end_user_sessions cx j ex w1))))" for v j ex
    using sparing.trans [OF e send_spares] .
  with e 1 have "spares i w1 (snd (store_user cx lib current u w))"
    by (simp add: store_user_def Let_def send_spares split: sum.split)
  with w1 show ?thesis by (rule sparing.trans)
qed

lemma replaceUser_spares:
  assumes "guarded i access w" and ok: "accounts_ok (site_users w)"
  shows "spares i w (snd (replaceUser cx lib access rq w))"
proof -
  have "spares i w (snd (if us_Status current = UserActive \<and> us_Status user \<noteq> UserActive
      then authorizeAdministratorDeactivation access j (store_user cx lib current user) w else store_user cx lib current user w))"
    if "User_Find j (site_users w) = Inr current" "User_Replaced current input now = Inr user" for j current input now user
  proof -
    have m: "map_of (users (site_users w)) j = Some current" using that(1) by (simp add: User_Find_def split: option.splits)
    have "us_ID user = j"
      using that(2) accounts_okD(2) [OF ok m] by (auto simp: User_Replaced_def Let_def split: if_splits sum.splits)
    with m replace_spares [of "site_users w" user current i]
    have s: "spares i w (snd (store_user cx lib current user w))"
      if "j = i \<Longrightarrow> us_Status current = UserActive \<Longrightarrow> us_Status user = UserActive"
      using that by (intro store_user_spares) simp
    show ?thesis
    proof (cases "us_Status current = UserActive \<and> us_Status user \<noteq> UserActive")
      case True
      with s guarded_refused [OF assms(1)] show ?thesis
        by (cases "j = i") (simp_all add: authorizeAdministratorDeactivation_def authorizeSensitiveAdministratorTarget_def split: sum.split)
    next
      case False
      with s have "spares i w (snd (store_user cx lib current user w))" by blast
      with False show ?thesis by presburger
    qed
  qed
  then show ?thesis
    unfolding replaceUser_def adminSessionUser_def Let_def
    by (simp del: if_split split: sum.split option.split)
qed

text \<open>The guard of \<open>replaceUser\<close> covers deactivation only: an administrator who is locked or disabled is activated again, or given
  another address, by anyone who may manage users.\<close>

lemma reactivation_unguarded:
  assumes "ValidUserID (pq_PathValue rq ''userID'')" and "User_Find (pq_PathValue rq ''userID'') (site_users w) = Inr current"
    and "body_of replace_user_fields zero_replace_user rq = Some input" and "User_Replaced current input (cx_now cx) = Inr user"
    and "us_Status current \<noteq> UserActive \<or> us_Status user = UserActive"
  shows "replaceUser cx lib access rq w = store_user cx lib current user w"
  using assms by (auto simp: replaceUser_def adminSessionUser_def)

lemma handler_spares:
  assumes e: "admin_entry cx lib route = (verb, permission, handler)" and g: "guarded i access w"
    and "accounts_ok (site_users w)" and "gomap_ok (external (site_users w))" and "map_of (users (site_users w)) i = Some u"
    and "route = CreateUser \<Longrightarrow> fresh_user_id cx w" and "Has access permission"
  shows "spares i w (snd (handler access rq w))"
proof (cases "verb = ''GET''")
  case True
  with e handlers_read have "reads_only handler" by blast
  then show ?thesis by (simp add: reads_only_def)
next
  case False
  have "route \<noteq> ReplaceUserAdminRoles" using e g assms(7) by (auto simp: guarded_def)
  then show ?thesis
    using e False g assms(3-6) access_handlers_spare session_handlers_spare rotateSigningKey_spares
    by (cases route)
      (auto simp: sparing.obeys_def createUser_spares importUsers_spares replaceUser_spares setUserPassword_spares
        issueUserPasswordReset_spares verifyAdminUserEmail_spares deleteUserExternalIdentity_spares resetAdminUserMFA_spares)
qed

text \<open>C10: Administrators are protected. When a request to the administration interface changes the password, the external
  identities, the second factor, the trusted devices or the administrator roles of a user who has administrator roles, issues a token
  to reset the password or takes the active status away, then it carries the emergency token or the session of a user who may assign
  administrator roles, whatever permission the address asks for: managing users is not enough.\<close>

theorem administrators_are_protected:
  assumes "sessions_ok (ss_repository (srv_sessions (site_server w)))" and "accounts_ok (site_users w)"
    and "gomap_ok (external (site_users w))" and "map_of (users (site_users w)) i = Some u"
    and "grants_of i (si_administrators w) \<noteq> []" and "route = CreateUser \<Longrightarrow> fresh_user_id cx w"
    and "\<not> spares i w (snd (admin_serve cx lib route rq w))"
  shows "emergency_bearer cx lib rq \<or> administrator_session cx PermissionAdminRolesWrite rq w"
proof (rule ccontr)
  assume no: "\<not> ?thesis"
  obtain verb permission handler where e: "admin_entry cx lib route = (verb, permission, handler)" by (metis prod_cases3)
  have "spares i w1 (snd (handler access rq1 w1))"
    if a: "authenticateAdministrator cx lib permission rq w = (Inr (access, how), w1)" for access how rq1 w1
  proof -
    have same: "site_users w1 = site_users w" "si_administrators w1 = si_administrators w"
      using kept.authenticated_same [OF a] by (simp_all add: same_accounts_def)
    have "\<not> Has access PermissionAdminRolesWrite"
      using authenticated_authority [OF assms(1) _ _ a, of PermissionAdminRolesWrite] no by auto
    then have "guarded i access w1" using assms(5) by (simp add: guarded_def same)
    moreover have "route = CreateUser \<Longrightarrow> fresh_user_id cx w1"
      using assms(6) by (auto simp: fresh_user_id_def same(1) split: sum.splits)
    ultimately show ?thesis
      using handler_spares [OF e] assms(2-4) authenticated_has [OF a] by (simp only: same) 
  qed
  then have "spares i w (snd (auditMutations cx rq (requireAdmin cx lib permission handler rq w)))"
    by (rule sparing.after_require)
  with e have "spares i w (snd (admin_serve cx lib route rq w))" by (simp add: admin_serve_def)
  with assms(7) show False ..
qed

theorem administrators_are_protected_witness:
  "emergency_bearer (demo_cx 100) demo_site_lib (demo_admin_request [])
    \<or> administrator_session (demo_cx 100) PermissionAdminRolesWrite (demo_admin_request []) demo_site"
proof (rule administrators_are_protected)
  show "sessions_ok (ss_repository (srv_sessions (site_server demo_site)))" using demo_server_ok by simp
  show "accounts_ok (site_users demo_site)" "map_of (users (site_users demo_site)) demo_id = Some (demo_person\<lparr>us_ID := demo_id\<rparr>)"
    by (rule demo_accounts_ok)+
  show "gomap_ok (external (site_users demo_site))" by (simp add: NewMemoryUserRepository_def)
  show "grants_of demo_id (si_administrators demo_site) \<noteq> []" by (simp add: grants_of_def)
  have "passwordResets (site_users demo_site) = []" by (simp add: NewMemoryUserRepository_def)
  with demo_reset_issued
  show "\<not> spares demo_id demo_site (snd (admin_serve (demo_cx 100) demo_site_lib IssueUserReset (demo_admin_request []) demo_site))"
    unfolding spares_def spares_account_def by (metis empty_iff empty_set image_empty)
qed simp

end
