(* ===== verification/Credential_Changes.thy ===== *)
theory Credential_Changes
  imports Admin_Governance
begin

text \<open>
  What a new password ends. The three ways to set the password of an existing user, by the user, with a reset token and by an
  administrator, sign the user out everywhere else.
\<close>

section \<open>Signed out\<close>

abbreviation ends_grant :: "string \<Rightarrow> string \<Rightarrow> string \<Rightarrow> string \<Rightarrow> string \<Rightarrow> bool" where
  "ends_grant u ex user sid client \<equiv> user = u \<and> (ex = [] \<or> sid \<noteq> ex)"

definition logged_out :: "time \<Rightarrow> string \<Rightarrow> string \<Rightarrow> server \<Rightarrow> bool" where
  "logged_out now u ex s \<longleftrightarrow>
     (\<forall>sid v. map_of (ss_repository (srv_sessions s)) sid = Some v \<longrightarrow> se_UserID v = u \<longrightarrow> sid \<noteq> ex \<longrightarrow> \<not> usable now v)
     \<and> cut_off (ends_grant u ex) (srv_oauth s)"

definition no_trusted_device :: "string \<Rightarrow> site \<Rightarrow> bool" where
  "no_trusted_device u w \<longleftrightarrow> (\<forall>d \<in> snd ` set (trustedDevices (ms_repository (lg_mfa (si_login w)))). td_UserID d \<noteq> u)"

lemma cleanup_sessions_kept [simp]: "srv_sessions (snd (cleanupRevokedSessions cx xs s)) = srv_sessions s"
proof -
  have "srv_sessions (fold (cleanup_session cx) xs s) = srv_sessions s"
    by (induction xs arbitrary: s) (simp_all add: cleanup_session_def Let_def)
  then show ?thesis by (simp add: cleanupRevokedSessions_def notifyOIDCBackchannelLogout_def Let_def)
qed

lemma tokens_cut: "cut_off (ends_grant u ex) (srv_oauth (revoke_user_tokens cx u ex s))"
  by (simp add: revoke_user_tokens_def RevokeUserTokens_def cut_off_revoked)

lemma RevokeAll_unusable:
  "map_of (snd (Session_RevokeAll u ex now r)) sid = Some v \<Longrightarrow> se_UserID v = u \<Longrightarrow> sid \<noteq> ex \<Longrightarrow> \<not> usable now v"
proof -
  assume v: "map_of (snd (Session_RevokeAll u ex now r)) sid = Some v" "se_UserID v = u" "sid \<noteq> ex"
  from v(1) obtain v0 where v0: "v = (if revocable u ex now sid v0 then revoked now v0 else v0)"
    unfolding Session_RevokeAll_def snd_conv map_of_values map_option_eq_Some by (elim exE conjE) (rule that, rule sym)
  have "mr_revokedAt (revoked now v0) \<noteq> None" by (simp add: revoked_def)
  then show ?thesis using v(2,3) v0 by metis
qed

lemma end_user_sessions_out:
  assumes "end_user_sessions cx u ex w = (n, w1)" and "u \<noteq> []"
  shows "logged_out (cx_now cx) u ex (site_server w1)"
proof -
  let ?s = "site_server w"
  let ?s1 = "snd (revoke_user_sessions cx u ex ?s)"
  have w1: "site_server w1 = revoke_user_tokens cx u ex ?s1"
    using assms(1) by (auto simp: end_user_sessions_def on_server_eq split: prod.splits)
  have r: "ss_repository (srv_sessions ?s1) = snd (Session_RevokeAll u ex (cx_now cx) (ss_repository (srv_sessions ?s)))"
    using assms(2) by (simp add: revoke_user_sessions_def revoke_listed_def Service_RevokeAll_def case_prod_beta Let_def)
  show ?thesis
    unfolding logged_out_def w1
  proof (intro conjI allI impI tokens_cut)
    fix sid v
    assume v: "map_of (ss_repository (srv_sessions (revoke_user_tokens cx u ex ?s1))) sid = Some v" "se_UserID v = u" "sid \<noteq> ex"
    have "srv_sessions (revoke_user_tokens cx u ex ?s1) = srv_sessions ?s1" by (simp add: revoke_user_tokens_def)
    with v r show "\<not> usable (cx_now cx) v" by (metis RevokeAll_unusable)
  qed
qed

lemma signed_out_devices: "end_trusted_devices u w = (n, w1) \<Longrightarrow> site_server w1 = site_server w \<and> no_trusted_device u w1"
  by (auto simp: end_trusted_devices_def on_mfa_eq RevokeTrustedDevices_def on_repository_def DeleteTrustedDevices_def
      deleteTrustedDevicesLocked_def no_trusted_device_def)

lemma signed_out_audit [simp]:
  "logged_out now u ex (site_server (site_audit cx rq actor type clientID outcome details w)) = logged_out now u ex (site_server w)"
  "no_trusted_device u (site_audit cx rq actor type clientID outcome details w) = no_trusted_device u w"
proof -
  obtain log where "site_audit cx rq actor type clientID outcome details w = w\<lparr>si_login := (si_login w)\<lparr>lg_core := (site_server w)\<lparr>srv_audit := log\<rparr>\<rparr>\<rparr>"
    using site_audit_log by blast
  then show "logged_out now u ex (site_server (site_audit cx rq actor type clientID outcome details w)) = logged_out now u ex (site_server w)"
    "no_trusted_device u (site_audit cx rq actor type clientID outcome details w) = no_trusted_device u w"
    by (simp_all add: logged_out_def no_trusted_device_def)
qed

section \<open>New passwords\<close>

datatype password_route = OwnPassword | ResetPasswordByToken | PasswordBy Access

fun set_password :: "request_context \<Rightarrow> site_lib \<Rightarrow> password_route \<Rightarrow> page_request \<Rightarrow> site \<Rightarrow> response \<times> site" where
  "set_password cx lib OwnPassword rq = changeAccountPassword cx lib rq"
| "set_password cx lib ResetPasswordByToken rq = resetAccountPassword cx lib rq"
| "set_password cx lib (PasswordBy access) rq = setUserPassword cx lib access rq"

text \<open>The user whose password is set and the session that stays, if there is one.\<close>

fun password_subject :: "request_context \<Rightarrow> site_lib \<Rightarrow> password_route \<Rightarrow> page_request \<Rightarrow> site \<Rightarrow> (string \<times> string) option" where
  "password_subject cx lib OwnPassword rq w =
     map_option (\<lambda>current. (se_UserID current, se_ID current)) (fst (currentSession cx (pq_Request rq) (site_server w)))"
| "password_subject cx lib ResetPasswordByToken rq w =
     (case body_of reset_fields \<lparr>ri_ResetToken = [], ri_NewPassword = []\<rparr> rq of
        None \<Rightarrow> None
      | Some input \<Rightarrow>
          map_option (\<lambda>u. (u, [])) (found (fst (Password_Reset (lx_idkey (wl_login lib)) (cx_sha256 cx) (cx_random cx 21) True (cx_now cx)
            (ri_ResetToken input) (ri_NewPassword input) (site_users w)))))"
| "password_subject cx lib (PasswordBy access) rq w = Some (pq_PathValue rq ''userID'', [])"

lemma signed_out_everywhere:
  assumes "end_user_sessions cx u ex w = (n, w1)" and "end_trusted_devices u w1 = (d, w2)" and "u \<noteq> []"
  shows "logged_out (cx_now cx) u ex (site_server w2) \<and> no_trusted_device u w2"
  using end_user_sessions_out [OF assms(1,3)] signed_out_devices [OF assms(2)] by simp

lemma own_password:
  assumes "on_server (currentSession cx (pq_Request rq)) w = (Some current, w1)" and "changeAccountPassword cx lib rq w = (response, w')"
    and "rp_Reply response = NoContent 204" and "se_UserID current \<noteq> []"
  shows "logged_out (cx_now cx) (se_UserID current) (se_ID current) (site_server w') \<and> no_trusted_device (se_UserID current) w'"
  using assms
  by (auto simp: changeAccountPassword_def account_change_def requireCurrentSession_def requireAccountCSRF_def plain_def
      dest: signed_out_everywhere split: prod.splits option.splits sum.splits if_splits)

lemma reset_password:
  assumes "on_users (Password_Reset (lx_idkey (wl_login lib)) (cx_sha256 cx) (cx_random cx 21) True (cx_now cx)
      (ri_ResetToken input) (ri_NewPassword input)) w = (Inr u, w1)" and "body_of reset_fields \<lparr>ri_ResetToken = [], ri_NewPassword = []\<rparr> rq = Some input"
    and "resetAccountPassword cx lib rq w = (response, w')" and "u \<noteq> []"
  shows "logged_out (cx_now cx) u [] (site_server w') \<and> no_trusted_device u w'"
  using assms by (auto simp: resetAccountPassword_def dest: signed_out_everywhere split: prod.splits)

lemma admin_password:
  assumes "setUserPassword cx lib access rq w = (response, w')" and "rp_Reply response = NoContent 204"
  shows "logged_out (cx_now cx) (pq_PathValue rq ''userID'') [] (site_server w') \<and> no_trusted_device (pq_PathValue rq ''userID'') w'"
proof -
  have "\<not> ValidUserID []" by code_simp
  with assms show ?thesis
    by (auto simp: setUserPassword_def sensitive_user_def adminSessionUser_def authorizeSensitiveAdministratorTarget_def admin_audit_def
        plain_def Let_def dest: signed_out_everywhere split: prod.splits option.splits sum.splits if_splits)
qed

text \<open>C11: A new password signs out everywhere. After a user has changed the password, has set one with a reset token or has been given
  one by an administrator, no session of the user is in use any more except the one the change was made in, every authorization code,
  access token and refresh token of the user is revoked except those of that session, and no device of the user is trusted to stand
  in for the second factor.\<close>

theorem new_password_signs_out:
  assumes "set_password cx lib route rq w = (response, w')" and "rp_Reply response = NoContent 204"
    and "password_subject cx lib route rq w = Some (u, ex)" and "u \<noteq> []"
  shows "logged_out (cx_now cx) u ex (site_server w') \<and> no_trusted_device u w'"
proof (cases route)
  case OwnPassword
  with assms(3) obtain current where c: "fst (currentSession cx (pq_Request rq) (site_server w)) = Some current"
    "u = se_UserID current" "ex = se_ID current" by auto
  then have "on_server (currentSession cx (pq_Request rq)) w = (Some current, snd (on_server (currentSession cx (pq_Request rq)) w))"
    by (simp add: on_server_eq)
  from own_password [OF this] assms OwnPassword c show ?thesis by simp
next
  case ResetPasswordByToken
  with assms(3) obtain input where b: "body_of reset_fields \<lparr>ri_ResetToken = [], ri_NewPassword = []\<rparr> rq = Some input"
    and f: "fst (Password_Reset (lx_idkey (wl_login lib)) (cx_sha256 cx) (cx_random cx 21) True (cx_now cx)
            (ri_ResetToken input) (ri_NewPassword input) (site_users w)) = Inr u" and e: "ex = []"
    by (auto simp: found_def split: option.splits sum.splits)
  obtain w1 where "on_users (Password_Reset (lx_idkey (wl_login lib)) (cx_sha256 cx) (cx_random cx 21) True (cx_now cx)
      (ri_ResetToken input) (ri_NewPassword input)) w = (Inr u, w1)" using f by (simp add: on_users_eq)
  from reset_password [OF this b] assms ResetPasswordByToken e show ?thesis by simp
next
  case (PasswordBy access)
  then show ?thesis using assms admin_password [of cx lib access rq w response w'] by auto
qed

section \<open>Witness\<close>

definition demo_password_body :: string where
  "demo_password_body = Marshal (JObj [(''password'', JStr ''correct horse 1'')])"

lemma demo_unmarshal: "Unmarshal demo_password_body = Some (JObj [(''password'', JStr ''correct horse 1'')])" "length demo_password_body = 30"
  by code_simp+

lemma demo_body: "body_of new_password_fields \<lparr>pw_Password = []\<rparr> (demo_admin_request demo_password_body) = Some \<lparr>pw_Password = ''correct horse 1''\<rparr>"
  by (simp add: body_of_def decodeJSON_def demo_admin_request_def demo_unmarshal HasPrefix_def decode_struct_def new_password_fields_def field_for_def string_field_def)

lemma demo_password_accepted:
  "\<exists>r. Password_Set demo_idkey (Some (replicate 16 7)) demo_id ''correct horse 1'' (site_users demo_site) = (Inr (), r)"
proof -
  have "fst (Password_Set demo_idkey (Some (replicate 16 7)) demo_id ''correct horse 1'' (site_users demo_site)) = Inr ()"
    using demo_accounts_ok(2) by (simp add: Password_Set_def hashPassword_def SetPassword_def validateAndHashPassword_def Let_def)
  then show ?thesis by (metis prod.collapse)
qed

theorem new_password_signs_out_witness:
  "\<exists>response w'. set_password (demo_cx 100) demo_site_lib (PasswordBy (AccessFor [] [RoleSuperAdmin])) (demo_admin_request demo_password_body) demo_site
       = (response, w')
     \<and> logged_out 100 demo_id [] (site_server w') \<and> no_trusted_device demo_id w'"
proof -
  let ?x = "set_password (demo_cx 100) demo_site_lib (PasswordBy (AccessFor [] [RoleSuperAdmin])) (demo_admin_request demo_password_body) demo_site"
  obtain r where "Password_Set demo_idkey (Some (replicate 16 7)) demo_id ''correct horse 1'' (site_users demo_site) = (Inr (), r)"
    using demo_password_accepted by blast
  moreover have "lx_idkey (wl_login demo_site_lib) = demo_idkey" by (simp add: demo_site_lib_def demo_login_lib_def)
  ultimately have "rp_Reply (fst ?x) = NoContent 204"
    by (simp add: setUserPassword_def sensitive_user_def adminSessionUser_def authorizeSensitiveAdministratorTarget_def
      sensitive_target_allowed_def demo_super_access demo_found demo_body on_users_eq plain_def Let_def case_prod_beta)
  moreover have "demo_id \<noteq> []" by (simp add: demo_id_def)
  ultimately have "logged_out 100 demo_id [] (site_server (snd ?x)) \<and> no_trusted_device demo_id (snd ?x)"
    using new_password_signs_out [of "demo_cx 100" demo_site_lib "PasswordBy (AccessFor [] [RoleSuperAdmin])" "demo_admin_request demo_password_body"
      demo_site "fst ?x" "snd ?x" demo_id "[]"] by simp
  then show ?thesis by (intro exI [of _ "fst ?x"] exI [of _ "snd ?x"]) simp
qed

end
