(* ===== verification/Client_Calls.thy ===== *)
theory Client_Calls
  imports Admin_Flows
begin

text \<open>
  What a client learns of users with its own secret, through \<open>clientUserStatus\<close>: nothing of a user who has not consented to it, not
  even whether the user exists.
\<close>

section \<open>Consent\<close>

definition with_users :: "UserRepository \<Rightarrow> site \<Rightarrow> site" where
  "with_users r w = w\<lparr>si_login := (si_login w)\<lparr>lg_core := (site_server w)\<lparr>srv_users := r\<rparr>\<rparr>\<rparr>"

definition consented :: "request_context \<Rightarrow> page_request \<Rightarrow> site \<Rightarrow> bool" where
  "consented cx rq w =
     (case authenticateConfidentialOAuthClientBasic cx (pq_Request rq) (site_server w) of
        Inl _ \<Rightarrow> False
      | Inr registered \<Rightarrow>
          (case FindConsent (pq_PathValue rq ''userID'') (cl_ID registered) (srv_oauth (site_server w)) of
             Inl _ \<Rightarrow> False | Inr _ \<Rightarrow> True))"

lemma lookup_limit:
  "allowClientStatusLookup cx c s = (x, s1) \<Longrightarrow> srv_oauth s1 = srv_oauth s \<and> srv_users s1 = srv_users s"
  unfolding allowClientStatusLookup_def by (auto dest!: allow_result)

lemma lookup_with_users:
  "fst (allowClientStatusLookup cx c (s\<lparr>srv_users := r\<rparr>)) = fst (allowClientStatusLookup cx c s)"
  by (simp add: allowClientStatusLookup_def allowRateLimitedRequest_def Let_def split: prod.split sum.split option.split)

lemma authenticated_with_users:
  "authenticateConfidentialOAuthClientBasic cx rq (s\<lparr>srv_users := r\<rparr>) = authenticateConfidentialOAuthClientBasic cx rq s"
  by (simp add: authenticateConfidentialOAuthClientBasic_def split: option.split prod.split sum.split)

lemma with_users_simps [simp]:
  "site_server (with_users r w) = (site_server w)\<lparr>srv_users := r\<rparr>"
  by (simp add: with_users_def)

text \<open>What the call answers, in terms of the state it is made in.\<close>

lemma status_answer:
  "fst (clientUserStatus cx rq w) =
     (case authenticateConfidentialOAuthClientBasic cx (pq_Request rq) (site_server w) of
        Inl refusal \<Rightarrow> plain refusal
      | Inr registered \<Rightarrow>
          (case fst (allowClientStatusLookup cx (cl_ID registered) (site_server w)) of
             Some refusal \<Rightarrow> plain refusal
           | None \<Rightarrow>
               if \<not> ValidUserID (pq_PathValue rq ''userID'') \<or> \<not> consented cx rq w then plain (NoContent 404)
               else case User_Find (pq_PathValue rq ''userID'') (site_users w) of
                   Inl _ \<Rightarrow> plain (NoContent 404)
                 | Inr user \<Rightarrow> plain (ReplyJSON 200 (status_body cx registered user))))"
proof (cases "authenticateConfidentialOAuthClientBasic cx (pq_Request rq) (site_server w)")
  case (Inl refusal)
  then show ?thesis by (simp add: clientUserStatus_def authenticated_call_def Let_def)
next
  case (Inr registered)
  obtain x s1 where l: "allowClientStatusLookup cx (cl_ID registered) (site_server w) = (x, s1)" by fastforce
  from lookup_limit [OF l] Inr l show ?thesis
    by (auto simp: clientUserStatus_def authenticated_call_def consented_def on_server_eq Let_def split: option.split sum.split)
qed

text \<open>C12: A client learns nothing of a user who has not consented to it: for a request to \<open>clientUserStatus\<close> that is not made by a
  confidential client with its secret, or is about a user without a stored consent for this client, the answer is the same whatever
  accounts there are.\<close>

theorem status_needs_consent:
  assumes "\<not> consented cx rq w"
  shows "fst (clientUserStatus cx rq (with_users r w)) = fst (clientUserStatus cx rq w)"
proof -
  have "consented cx rq (with_users r w) = consented cx rq w"
    by (simp add: consented_def authenticated_with_users split: sum.split)
  with assms show ?thesis
    unfolding status_answer by (simp add: authenticated_with_users lookup_with_users split: sum.split option.split)
qed

text \<open>With consent, the answer is about that user, and has the address only for clients that may ask for the email scope.\<close>

lemma status_shows_email_with_scope:
  assumes "rp_Reply (fst (clientUserStatus cx rq w)) = ReplyJSON 200 body" and "''email'' \<in> fst ` set body"
    and "authenticateConfidentialOAuthClientBasic cx (pq_Request rq) (site_server w) = Inr registered"
    and "fst (allowClientStatusLookup cx (cl_ID registered) (site_server w)) = None"
  shows "\<exists>user. User_Find (pq_PathValue rq ''userID'') (site_users w) = Inr user \<and> body = status_body cx registered user
    \<and> ''email'' \<in> set (cl_AllowedScopes registered)"
  using assms unfolding status_answer
  by (auto simp: plain_def status_body_def split: sum.splits option.splits if_splits)

text \<open>A consent without the email scope is enough for the address of the user.\<close>

lemma status_email_ignores_consented_scopes:
  assumes "authenticateConfidentialOAuthClientBasic cx (pq_Request rq) (site_server w) = Inr registered"
    and "fst (allowClientStatusLookup cx (cl_ID registered) (site_server w)) = None" and "ValidUserID (pq_PathValue rq ''userID'')"
    and "FindConsent (pq_PathValue rq ''userID'') (cl_ID registered) (srv_oauth (site_server w)) = Inr consent"
    and "User_Find (pq_PathValue rq ''userID'') (site_users w) = Inr user" and "us_Email user = Some e"
    and "''email'' \<in> set (cl_AllowedScopes registered)" and "''email'' \<notin> set (co_Scopes consent)"
  shows "\<exists>body. rp_Reply (fst (clientUserStatus cx rq w)) = ReplyJSON 200 body \<and> (''email'', JStr e) \<in> set body"
  using assms unfolding status_answer by (simp add: consented_def plain_def status_body_def)

theorem status_needs_consent_witness:
  "fst (clientUserStatus (demo_cx 100) (demo_admin_request []) (with_users (NewMemoryUserRepository []) demo_site)) =
     fst (clientUserStatus (demo_cx 100) (demo_admin_request []) demo_site)"
proof (rule status_needs_consent)
  have "demo_id \<noteq> ''u1''" by (simp add: demo_id_def)
  then show "\<not> consented (demo_cx 100) (demo_admin_request []) demo_site"
    by (auto simp: consented_def FindConsent_def demo_site_def split: sum.split)
qed

end
