(* ===== verification/Spec2Isabelle.thy ===== *)
theory Spec2Isabelle
  imports OAuth_Grants Session_Store CAS_Tickets Rate_Limit Access_Control Administration
    Audit_Log Key_Ring MFA_Service Client_Registry Identity_Passwords OAuth_Flows
    Postgres_Grants CAS_Flows Login_Flows Admin_Protection Credential_Changes Client_Calls
begin

text \<open>
  A verification library for Certus, an identity provider and single sign-on server written in Go. It follows the
  packages under \<open>src/internal\<close>: each repository and service is modelled method by method, the OAuth and OpenID Connect
  handlers are modelled on top of them, and the theorems state what clients and users may rely on.

  \<^bold>\<open>The program.\<close> Certus keeps accounts, clients, login sessions and grants in repositories. Every repository has
  an in-memory implementation (a Go value behind a mutex) and a PostgreSQL one. Services add the rules: password
  and TOTP verification with lockout, rate limits, token signing. The HTTP handlers in
  \<open>internal/platform/http\<close> speak OAuth 2.1, OpenID Connect and CAS on top of them: a browser signs in and gets a session,
  the authorization endpoint turns the session into a code, the token endpoint turns the code into tokens,
  introspection and user information answer for tokens, and signing out withdraws all of them.

  \<^bold>\<open>How code becomes definitions.\<close>
  \<^item> A struct is a record, a method of a repository a function from the state to \<open>(error + result) \<times> state\<close>; the
    mutex makes every call one step, and a run of calls is a list of operations (\<open>oauth_op\<close>, \<open>mfa_op\<close> and so
    on) folded by a step function. A handler takes the request and the server and returns the reply and the server.
  \<^item> Errors are constructors; the text of an error, logs, metrics and headers that only label a reply are left out.
  \<^item> Times are nanoseconds (\<open>int\<close>); where an \<open>int64\<close> can overflow the wrap-around is written out (\<open>wrap64\<close>). The
    clock and random bytes are arguments, \<open>None\<close> when the random source fails.
  \<^item> SHA-256, HMAC, AES-GCM, Argon2, RSA with its key encoding, and the text form of times are parameters;
    what is assumed of them stands as a named hypothesis (\<open>aead_ok\<close>, \<open>rsa_laws\<close>) with an instance in the witnesses. What the
    code uses of \<open>strings\<close>, \<open>strconv\<close>, \<open>encoding/base64\<close>, \<open>encoding/hex\<close>, \<open>encoding/json\<close>, \<open>net/url\<close> and
    \<open>net/mail\<close> is modelled.

  \<^bold>\<open>The theories.\<close>
  \<^item> \<^verbatim>\<open>Certus_Prelude\<close>: times, strings, maps, first-match loops, and the contracts the repositories share:
    \<open>kept_by_steps\<close> (an invariant over all runs of calls), \<open>append_only\<close> (records only ever change in allowed ways),
    \<open>single_use\<close> (an operation succeeds at most once per key).
  \<^item> \<^verbatim>\<open>Go_Encoding\<close>, \<^verbatim>\<open>Go_URL\<close>, \<^verbatim>\<open>Go_Form\<close>, \<^verbatim>\<open>Go_JSON\<close>: the standard library, with round trips of
    every encoder and decoder; \<open>internal/security/token.go\<close> is in the first.
  \<^item> \<^verbatim>\<open>OAuth_Store\<close> and \<^verbatim>\<open>OAuth_Grants\<close>: \<open>internal/oauth/store.go\<close> and its properties: codes, refresh tokens and
    device codes are redeemed at most once, reuse of a refresh token revokes its family, a family never widens, bulk revocation lasts.
  \<^item> \<^verbatim>\<open>OAuth_Authorize\<close>: the parser of \<open>internal/oauth/authorize.go\<close>.
  \<^item> \<^verbatim>\<open>Session_Store\<close>, \<^verbatim>\<open>CAS_Tickets\<close>, \<^verbatim>\<open>Rate_Limit\<close>, \<^verbatim>\<open>Access_Control\<close>, \<^verbatim>\<open>Administration\<close>,
    \<^verbatim>\<open>Audit_Log\<close>, \<^verbatim>\<open>Key_Ring\<close>, \<^verbatim>\<open>Client_Registry\<close>: the packages \<open>session\<close>, \<open>cas\<close>, \<open>ratelimit\<close>, \<open>access\<close>,
    \<open>administration\<close>, \<open>audit\<close>, \<open>secrets\<close> and \<open>client\<close>, each with its invariant and the promises of its calls.
  \<^item> \<^verbatim>\<open>MFA_Store\<close> and \<^verbatim>\<open>MFA_Service\<close>: \<open>internal/mfa\<close>: a TOTP step counts once, lockout, trusted devices, enrolment,
    re-encryption of secrets.
  \<^item> \<^verbatim>\<open>Identity_Users\<close>, \<^verbatim>\<open>Identity_Accounts\<close>, \<^verbatim>\<open>Identity_Passwords\<close>: \<open>internal/identity\<close>: unique accounts, the last
    way to sign in is never lost, password verification with lockout, registration, resets, email verification.
  \<^item> \<^verbatim>\<open>OIDC_Signer\<close>: \<open>internal/oidc/signer.go\<close>: key rotation and the round trip from signing to verification.
  \<^item> \<^verbatim>\<open>Federation_Sources\<close>: \<open>internal/federation\<close>: the registry of LDAP and OpenID Connect sources with their sealed
    credentials, and the authenticators over the two client libraries (records of functions). Its calls form a step relation with
    the interleaving of reads and writes: only valid sources are stored, an archived one is never used, what a sign-in proves.
  \<^item> \<^verbatim>\<open>HTTP_Server\<close>, \<^verbatim>\<open>OAuth_Endpoints\<close>, \<^verbatim>\<open>OAuth_Interaction\<close>: the handlers of \<open>oauth.go\<close>, \<open>consent.go\<close>, \<open>device.go\<close>
    and the session part of \<open>auth.go\<close> in \<open>internal/platform/http\<close>.
  \<^item> \<^verbatim>\<open>OAuth_Security\<close>: what a single reply guarantees: who may exchange a code, what introspection vouches for.
  \<^item> \<^verbatim>\<open>CAS_Endpoints\<close>, \<^verbatim>\<open>CAS_Flows\<close>: the handlers of \<open>cas.go\<close> with the XML they write: a validation vouches only for a ticket
    of the service and an active user, over all endpoints a ticket is confirmed once, and what a client reads from the XML is what was
    written. The last theorem shows what signing out leaves in force.
  \<^item> \<^verbatim>\<open>Return_Address\<close>, \<^verbatim>\<open>Login_Pages\<close>, \<^verbatim>\<open>Login_Flows\<close>: the sign-in handlers of \<open>auth.go\<close> and the second step in
    \<open>mfa.go\<close>: the login page with the sources of a client, passwords, the directory, the OpenID provider, codes and trusted devices. A
    session is started only for proven credentials and, where enabled, a proven second factor; no redirect leaves the server.
  \<^item> \<^verbatim>\<open>Request_Body\<close>: \<open>decodeJSON\<close> of \<open>admin_users.go\<close>, the reading of request bodies field by field.
  \<^item> \<^verbatim>\<open>Account_Pages\<close>, \<^verbatim>\<open>Admin_Pages\<close>, \<^verbatim>\<open>Access_Pages\<close>: the handlers of \<open>account.go\<close>, \<open>registration.go\<close>,
    \<open>email_verification.go\<close> and the account half of \<open>mfa.go\<close>; of \<open>admin_auth.go\<close>, \<open>admin_users.go\<close>,
    \<open>admin_external_identities.go\<close>, \<open>audit.go\<close> and \<open>signing_keys.go\<close>; of \<open>access.go\<close>, \<open>client_status.go\<close> and
    \<open>client_capabilities.go\<close>.
  \<^item> \<^verbatim>\<open>Account_Flows\<close>, \<^verbatim>\<open>Admin_Flows\<close>: the routes of accounts and administrators as tables of handlers, and the
    relations on sites that every handler obeys (the locale \<open>account_relation\<close>, whose interpretations carry the next two theories):
    what an address asks of its caller, and that nothing is changed without it.
  \<^item> \<^verbatim>\<open>Admin_Governance\<close>, \<^verbatim>\<open>Admin_Protection\<close>, \<^verbatim>\<open>Credential_Changes\<close>, \<^verbatim>\<open>Client_Calls\<close>: over all requests an
    active super administrator remains; an administrator's credentials are changed only by who may assign administrator roles; a new
    password ends sessions, grants and trusted devices; a client learns of users only with their consent.
  \<^item> \<^verbatim>\<open>OAuth_Flows\<close>: the requests as one machine over all repositories. Every request is shown to act through repository
    calls only (a refinement), so the promises of the repositories carry over to all sequences of requests: a code is exchanged
    once, and after a sign-out nothing of the session is honoured any more.
  \<^item> \<^verbatim>\<open>Postgres_Tables\<close>, \<^verbatim>\<open>Postgres_OAuth\<close>, \<^verbatim>\<open>Postgres_Grants\<close>: the SQL of \<open>internal/storage/postgres/oauth_repository.go\<close>,
    statement by statement, and the proof that this store implements the in-memory one (contract \<open>implements\<close>): every admissible
    sequence of calls gives the same answers, so what is proved of the in-memory store holds for the database.

  \<^bold>\<open>Loops and fuel.\<close> Recursion is structural or has a measure. The JSON parser takes fuel; \<open>Unmarshal\<close> supplies
  the length of its input, and \<open>parse_fuel\<close> shows that this never runs out. The loop of \<open>randomUserCode\<close> runs as long
  as the random source gives rejected bytes; it consumes a list of draws, and its termination theorem says which draws end it.

  \<^bold>\<open>Not modelled.\<close> The administration of clients and identity sources over HTTP, favicon discovery, the test mail and the
  maintenance call; routing outside the two tables, middleware and templates; configuration from the environment;
  SMTP delivery, metrics,
  tracing and the maintenance timer; the delivery of back-channel logout requests; the other PostgreSQL repositories; the command line.
  Interleavings are modelled at the granularity of repository calls for the stores, and of whole requests for the
  handlers; two races between requests that fall outside this are recorded as findings of the manifest.
\<close>

end
